(* ===== verification/Prelude.thy ===== *)
theory Prelude
  imports Main
begin

text \<open>
  Shared ground of the development: C++ byte strings as HOL strings (one \<open>char\<close> per byte),
  the C locale character classes, the few \<open>std::string\<close> operations the sources use, the C++
  integer conversions, the exceptions the sources throw, and a state-and-exception monad for
  code that mutates an object and may throw half way.
\<close>

section \<open>Collections of facts\<close>

named_theorems ctype_simps \<open>definitions of the character classes\<close>
named_theorems monad_simps \<open>unfolding of the state-and-exception monad\<close>

section \<open>Exceptions\<close>

text \<open>
  \<open>InputFailure\<close> is the stream failure of \<open>Connection.h\<close>, \<open>CsError\<close> is \<open>cserve::Error\<close>
  (and \<open>IIIFError\<close>) with its message, \<open>LuaError\<close> the \<open>Error\<close> of a Lua function that failed, which a handler for
  \<open>IIIFError\<close> does not catch; the two \<open>Std\<close> exceptions are those of \<open>std::stoi\<close> and
  its kin, which the code does not always catch. \<open>SizeError\<close> is \<open>IIIFSizeError\<close> with its status, \<open>StdRuntime\<close> any
  other exception of a library, which nobody catches. \<open>Undefined\<close> marks undefined behaviour of C++,
  \<open>Diverges\<close> a call that never comes back.
\<close>

datatype exn =
    InputFailure string
  | CsError string
  | LuaError string
  | StdInvalidArgument
  | StdOutOfRange
  | SizeError nat string
  | StdRuntime string
  | Undefined
  | Diverges

definition INPUT_READ_FAIL :: string where
  "INPUT_READ_FAIL = ''INPUT_READ_FAIL''"

definition OUTPUT_WRITE_FAIL :: string where
  "OUTPUT_WRITE_FAIL = ''OUTPUT_WRITE_FAIL''"

section \<open>Characters\<close>

definition chr_code :: "char \<Rightarrow> nat" where
  "chr_code c = of_char c"

definition code_chr :: "nat \<Rightarrow> char" where
  "code_chr n = char_of n"

lemma code_chr_code [simp]: "code_chr (chr_code c) = c"
  by (simp add: code_chr_def chr_code_def)

lemma chr_code_code: "n < 256 \<Longrightarrow> chr_code (code_chr n) = n"
  by (simp add: code_chr_def chr_code_def)

lemma chr_code_lt [simp]: "chr_code c < 256"
  unfolding chr_code_def by (rule nat_of_char_less_256)

lemma chr_code_inject [simp]: "chr_code c = chr_code d \<longleftrightarrow> c = d"
  by (metis code_chr_code)

definition isdigit :: "char \<Rightarrow> bool" where
  [ctype_simps]: "isdigit c \<longleftrightarrow> 48 \<le> chr_code c \<and> chr_code c \<le> 57"

definition isupper :: "char \<Rightarrow> bool" where
  [ctype_simps]: "isupper c \<longleftrightarrow> 65 \<le> chr_code c \<and> chr_code c \<le> 90"

definition islower :: "char \<Rightarrow> bool" where
  [ctype_simps]: "islower c \<longleftrightarrow> 97 \<le> chr_code c \<and> chr_code c \<le> 122"

definition isalnum :: "char \<Rightarrow> bool" where
  [ctype_simps]: "isalnum c \<longleftrightarrow> isdigit c \<or> isupper c \<or> islower c"

definition isxdigit :: "char \<Rightarrow> bool" where
  [ctype_simps]: "isxdigit c \<longleftrightarrow> isdigit c \<or>
     (65 \<le> chr_code c \<and> chr_code c \<le> 70) \<or> (97 \<le> chr_code c \<and> chr_code c \<le> 102)"

definition isspace :: "char \<Rightarrow> bool" where
  [ctype_simps]: "isspace c \<longleftrightarrow> chr_code c = 32 \<or> (9 \<le> chr_code c \<and> chr_code c \<le> 13)"

definition tolower :: "char \<Rightarrow> char" where
  "tolower c = (if isupper c then code_chr (chr_code c + 32) else c)"

definition toupper :: "char \<Rightarrow> char" where
  "toupper c = (if islower c then code_chr (chr_code c - 32) else c)"

definition LF :: char where "LF = CHR 0x0A"
definition CR :: char where "CR = CHR 0x0D"
definition CRLF :: string where "CRLF = [CR, LF]"

lemma CR_neq_LF [simp]: "CR \<noteq> LF" "LF \<noteq> CR"
  by (simp_all add: CR_def LF_def)

lemma tolower_idem [simp]: "tolower (tolower c) = tolower c"
  by (auto simp: tolower_def isupper_def chr_code_code)

section \<open>std::string operations\<close>

text \<open>
  \<open>find_char c s\<close> is \<open>s.find(c)\<close>, with \<open>npos\<close> as \<open>None\<close>; \<open>rfind_char\<close> is \<open>s.rfind(c)\<close>.
  A search that starts at an offset is a search in the suffix.
\<close>

fun find_char :: "char \<Rightarrow> string \<Rightarrow> nat option" where
  "find_char c [] = None"
| "find_char c (x # xs) = (if x = c then Some 0 else map_option Suc (find_char c xs))"

definition rfind_char :: "char \<Rightarrow> string \<Rightarrow> nat option" where
  "rfind_char c s = map_option (\<lambda>k. length s - 1 - k) (find_char c (rev s))"

lemma find_char_None: "find_char c s = None \<longleftrightarrow> c \<notin> set s"
  by (induction s) auto

lemma find_char_notin [simp]: "c \<notin> set s \<Longrightarrow> find_char c s = None"
  by (simp add: find_char_None)

lemma find_char_append: "c \<notin> set a \<Longrightarrow> find_char c (a @ c # b) = Some (length a)"
  by (induction a) auto

lemma find_char_append_notin:
  "c \<notin> set a \<Longrightarrow> find_char c (a @ b) = map_option (\<lambda>k. length a + k) (find_char c b)"
  by (cases "find_char c b"; induction a; auto)

lemma find_char_SomeD:
  "find_char c s = Some k \<Longrightarrow> k < length s \<and> s ! k = c \<and> c \<notin> set (take k s)"
  by (induction s arbitrary: k) (auto split: if_splits)

lemma find_char_Some_split:
  assumes "find_char c s = Some k"
  shows "s = take k s @ c # drop (Suc k) s \<and> c \<notin> set (take k s)"
  using find_char_SomeD [OF assms] by (metis id_take_nth_drop)

text \<open>\<open>ltrim\<close>, \<open>rtrim\<close> and the case conversions of \<open>HttpHelpers.h\<close> and \<open>Global.h\<close>.\<close>

definition ltrim :: "string \<Rightarrow> string" where
  "ltrim s = dropWhile isspace s"

definition rtrim :: "string \<Rightarrow> string" where
  "rtrim s = rev (dropWhile isspace (rev s))"

definition trim_copy :: "string \<Rightarrow> string" where
  "trim_copy s = rtrim (ltrim s)"

definition asciitolower :: "string \<Rightarrow> string" where
  "asciitolower s = map tolower s"

definition strtoupper :: "string \<Rightarrow> string" where
  "strtoupper s = map toupper s"

lemma trim_copy_id:
  assumes "s = [] \<or> \<not> isspace (hd s) \<and> \<not> isspace (last s)"
  shows "trim_copy s = s"
proof (cases s rule: rev_cases)
  case Nil
  then show ?thesis by (simp add: trim_copy_def ltrim_def rtrim_def)
next
  case (snoc ys y)
  with assms have "dropWhile isspace s = s" by (simp add: dropWhile_eq_self_iff)
  with snoc assms show ?thesis by (simp add: trim_copy_def ltrim_def rtrim_def)
qed

lemma rtrim_last: "rtrim s \<noteq> [] \<Longrightarrow> \<not> isspace (last (rtrim s))"
  by (simp add: rtrim_def last_rev hd_dropWhile)

lemma rtrim_hd: "rtrim s \<noteq> [] \<Longrightarrow> hd (rtrim s) = hd s"
proof -
  assume ne: "rtrim s \<noteq> []"
  have "s = rtrim s @ rev (takeWhile isspace (rev s))"
    unfolding rtrim_def by (metis rev_append rev_rev_ident takeWhile_dropWhile_id)
  with ne show ?thesis by (metis hd_append2)
qed

lemma trim_copy_idem [simp]: "trim_copy (trim_copy s) = trim_copy s"
proof (rule trim_copy_id)
  have "ltrim s \<noteq> []" if "trim_copy s \<noteq> []"
    using that by (auto simp: trim_copy_def rtrim_def)
  then show "trim_copy s = [] \<or> \<not> isspace (hd (trim_copy s)) \<and> \<not> isspace (last (trim_copy s))"
    using rtrim_last [of "ltrim s"] rtrim_hd [of "ltrim s"] hd_dropWhile [of isspace s]
    by (auto simp: trim_copy_def ltrim_def)
qed

lemma asciitolower_idem [simp]: "asciitolower (asciitolower s) = asciitolower s"
  by (simp add: asciitolower_def)

section \<open>Printing numbers\<close>

text \<open>\<open>dec_string\<close> is \<open>std::to_string\<close> and \<open>os << n\<close> for an unsigned value,
  \<open>int_string\<close> the same for a signed one, \<open>hex_string\<close> is \<open>os << std::hex << n\<close>.\<close>

definition digit_chr :: "nat \<Rightarrow> char" where
  "digit_chr d = (if d < 10 then code_chr (48 + d) else code_chr (87 + d))"

fun base_string :: "nat \<Rightarrow> nat \<Rightarrow> string" where
  "base_string b n =
     (if n < b \<or> b < 2 then [digit_chr n] else base_string b (n div b) @ [digit_chr (n mod b)])"

declare base_string.simps [simp del]

definition dec_string :: "nat \<Rightarrow> string" where
  "dec_string n = base_string 10 n"

definition hex_string :: "nat \<Rightarrow> string" where
  "hex_string n = base_string 16 n"

definition int_string :: "int \<Rightarrow> string" where
  "int_string i = (if i < 0 then CHR ''-'' # dec_string (nat (- i)) else dec_string (nat i))"

lemma base_string_nonempty [simp]: "base_string b n \<noteq> []"
  by (subst base_string.simps) simp

section \<open>Reading numbers\<close>

text \<open>
  \<open>digit_val b c\<close> is the value of \<open>c\<close> as a digit of base \<open>b \<le> 16\<close>. \<open>scan_digits\<close> reads the
  longest run of digits; \<open>scan_int\<close> is what \<open>strtol\<close> does in base 10 or 16: skip white space,
  an optional sign, an optional \<open>0x\<close> in base 16, then digits; \<open>None\<close> if there is no digit.
\<close>

definition digit_val :: "nat \<Rightarrow> char \<Rightarrow> nat option" where
  "digit_val b c =
     (let n = chr_code c;
          v = (if isdigit c then n - 48
               else if 97 \<le> n \<and> n \<le> 102 then n - 87
               else if 65 \<le> n \<and> n \<le> 70 then n - 55 else 16)
      in if v < b \<and> v < 16 then Some v else None)"

fun scan_digits :: "nat \<Rightarrow> nat \<Rightarrow> string \<Rightarrow> nat" where
  "scan_digits b acc [] = acc"
| "scan_digits b acc (c # cs) =
     (case digit_val b c of None \<Rightarrow> acc | Some v \<Rightarrow> scan_digits b (acc * b + v) cs)"

definition starts_with_digit :: "nat \<Rightarrow> string \<Rightarrow> bool" where
  "starts_with_digit b s = (case s of [] \<Rightarrow> False | c # _ \<Rightarrow> digit_val b c \<noteq> None)"

definition drop_sign :: "string \<Rightarrow> bool \<times> string" where
  "drop_sign s = (case s of [] \<Rightarrow> (False, [])
     | c # cs \<Rightarrow> if c = CHR ''-'' then (True, cs) else if c = CHR ''+'' then (False, cs)
                else (False, s))"

definition drop_0x :: "nat \<Rightarrow> string \<Rightarrow> string" where
  "drop_0x b s = (case s of z # x # cs \<Rightarrow>
       if b = 16 \<and> z = CHR ''0'' \<and> (x = CHR ''x'' \<or> x = CHR ''X'') \<and> starts_with_digit b cs
       then cs else s
     | _ \<Rightarrow> s)"

definition scan_int :: "nat \<Rightarrow> string \<Rightarrow> (bool \<times> nat) option" where
  "scan_int b s =
     (let (neg, s1) = drop_sign (dropWhile isspace s); s2 = drop_0x b s1
      in if starts_with_digit b s2 then Some (neg, scan_digits b 0 s2) else None)"

definition signed_mag :: "bool \<Rightarrow> nat \<Rightarrow> int" where
  "signed_mag neg m = (if neg then - int m else int m)"

text \<open>\<open>std::stoi\<close> (32 bit), \<open>std::stol\<close>/\<open>std::stoll\<close> (64 bit) and \<open>std::stoul\<close> (64 bit,
  where a minus sign negates modulo \<open>2^64\<close>).\<close>

definition sto_signed :: "nat \<Rightarrow> nat \<Rightarrow> string \<Rightarrow> exn + int" where
  "sto_signed w b s = (case scan_int b s of None \<Rightarrow> Inl StdInvalidArgument
     | Some (neg, m) \<Rightarrow>
         let v = signed_mag neg m
         in if - (2 ^ (w - 1)) \<le> v \<and> v < 2 ^ (w - 1) then Inr v else Inl StdOutOfRange)"

definition stoi :: "string \<Rightarrow> exn + int" where
  "stoi s = sto_signed 32 10 s"

definition stoll :: "string \<Rightarrow> exn + int" where
  "stoll s = sto_signed 64 10 s"

definition stol16 :: "string \<Rightarrow> exn + int" where
  "stol16 s = sto_signed 64 16 s"

definition stoul16 :: "string \<Rightarrow> exn + nat" where
  "stoul16 s = (case scan_int 16 s of None \<Rightarrow> Inl StdInvalidArgument
     | Some (neg, m) \<Rightarrow> if m < 2 ^ 64 then Inr (if neg then (2 ^ 64 - m) mod 2 ^ 64 else m)
                        else Inl StdOutOfRange)"

text \<open>\<open>size_t\<close> subtraction and the conversion of a signed 64 bit value to \<open>size_t\<close>.\<close>

definition sub64 :: "nat \<Rightarrow> nat \<Rightarrow> nat" where
  "sub64 a b = nat ((int a - int b) mod 2 ^ 64)"

definition to_size_t :: "int \<Rightarrow> nat" where
  "to_size_t i = nat (i mod 2 ^ 64)"

text \<open>The conversions of a wider value to 32 bits, signed and unsigned.\<close>

definition to_int32 :: "int \<Rightarrow> int" where
  "to_int32 k = (k + 2 ^ 31) mod 2 ^ 32 - 2 ^ 31"

definition to_uint32 :: "int \<Rightarrow> nat" where
  "to_uint32 k = nat (k mod 2 ^ 32)"

lemma sub64_le: "b \<le> a \<Longrightarrow> a < 2 ^ 64 \<Longrightarrow> sub64 a b = a - b"
  by (simp add: sub64_def mod_pos_pos_trivial nat_diff_distrib')

lemma to_size_t_nonneg: "0 \<le> i \<Longrightarrow> i < 2 ^ 64 \<Longrightarrow> to_size_t i = nat i"
  by (simp add: to_size_t_def)

lemma to_size_t_int [simp]: "n < 2 ^ 64 \<Longrightarrow> to_size_t (int n) = n"
  by (simp add: to_size_t_def)

section \<open>Printing and reading back\<close>

lemma digit_chr_cases: "d < 16 \<Longrightarrow> chr_code (digit_chr d) = (if d < 10 then 48 + d else 87 + d)"
  by (simp add: digit_chr_def chr_code_code)

lemma digit_val_digit_chr: "d < b \<Longrightarrow> b \<le> 16 \<Longrightarrow> digit_val b (digit_chr d) = Some d"
  by (auto simp: digit_val_def digit_chr_cases isdigit_def Let_def)

lemma scan_digits_append:
  "(\<And>c. c \<in> set a \<Longrightarrow> digit_val b c \<noteq> None) \<Longrightarrow>
   scan_digits b acc (a @ s) = scan_digits b (scan_digits b acc a) s"
  by (induction a arbitrary: acc) (fastforce split: option.splits)+

lemma base_string_digits:
  "2 \<le> b \<Longrightarrow> b \<le> 16 \<Longrightarrow> c \<in> set (base_string b n) \<Longrightarrow> \<exists>d < b. c = digit_chr d"
proof (induction b n rule: base_string.induct)
  case (1 b n)
  note IH = "1.IH" and prems = "1.prems"
  show ?case
  proof (cases "n < b")
    case True
    with 1 have "c = digit_chr n" by (simp add: base_string.simps [of b n])
    with True show ?thesis by auto
  next
    case False
    with 1(2,4) have "c \<in> set (base_string b (n div b) @ [digit_chr (n mod b)])"
      by (simp add: base_string.simps [of b n])
    then consider "c \<in> set (base_string b (n div b))" | "c = digit_chr (n mod b)" by auto
    then show ?thesis
    proof cases
      case 1
      with False IH prems show ?thesis by simp
    next
      case 2
      moreover have "n mod b < b" using prems by simp
      ultimately show ?thesis by blast
    qed
  qed
qed

lemma scan_base_string:
  "2 \<le> b \<Longrightarrow> b \<le> 16 \<Longrightarrow> scan_digits b 0 (base_string b n) = n"
proof (induction b n rule: base_string.induct)
  case (1 b n)
  show ?case
  proof (cases "n < b")
    case True
    with 1 show ?thesis by (simp add: base_string.simps [of b n] digit_val_digit_chr)
  next
    case False
    have "digit_val b c \<noteq> None" if "c \<in> set (base_string b (n div b))" for c
      using base_string_digits [OF 1(2,3) that] 1(3) by (auto simp: digit_val_digit_chr)
    moreover have "digit_val b (digit_chr (n mod b)) = Some (n mod b)"
      using 1(2,3) by (simp add: digit_val_digit_chr)
    ultimately show ?thesis
      using 1 False by (simp add: base_string.simps [of b n] scan_digits_append)
  qed
qed

lemma digit_chr_props:
  assumes "d < 16"
  shows "\<not> isspace (digit_chr d)" "digit_chr d \<noteq> CHR ''-''" "digit_chr d \<noteq> CHR ''+''"
    "digit_chr d \<noteq> CHR ''x''" "digit_chr d \<noteq> CHR ''X''" "digit_chr d \<noteq> CR" "digit_chr d \<noteq> LF"
proof -
  have c: "chr_code (digit_chr d) = (if d < 10 then 48 + d else 87 + d)"
    by (rule digit_chr_cases [OF assms])
  then show "\<not> isspace (digit_chr d)" by (auto simp: isspace_def)
  show "digit_chr d \<noteq> CHR ''-''" "digit_chr d \<noteq> CHR ''+''" "digit_chr d \<noteq> CHR ''x''"
    "digit_chr d \<noteq> CHR ''X''" "digit_chr d \<noteq> CR" "digit_chr d \<noteq> LF"
    using c assms by (auto simp: chr_code_def CR_def LF_def split: if_splits)
qed

lemma scan_int_base_string:
  assumes "b = 10 \<or> b = 16"
  shows "scan_int b (base_string b n) = Some (False, n)"
proof -
  obtain c cs where s: "base_string b n = c # cs" by (meson base_string_nonempty neq_Nil_conv)
  have b: "2 \<le> b" "b \<le> 16" using assms by auto
  have dig: "\<exists>d < 16. x = digit_chr d \<and> digit_val b x = Some d" if "x \<in> set (c # cs)" for x
    using base_string_digits [OF b, of x n] that s b by (force simp: digit_val_digit_chr)
  obtain d where d: "d < 16" "c = digit_chr d" "digit_val b c = Some d" using dig [of c] by auto
  have "drop_sign (dropWhile isspace (c # cs)) = (False, c # cs)"
    using d by (simp add: drop_sign_def digit_chr_props)
  moreover have "drop_0x b (c # cs) = c # cs"
  proof (cases cs)
    case Nil
    then show ?thesis by (simp add: drop_0x_def)
  next
    case (Cons y ys)
    then obtain e where "e < 16" "y = digit_chr e" using dig [of y] by auto
    then have "y \<noteq> CHR ''x''" "y \<noteq> CHR ''X''" by (simp_all add: digit_chr_props)
    with Cons show ?thesis by (simp add: drop_0x_def)
  qed
  moreover have "starts_with_digit b (c # cs)"
    using d by (simp add: starts_with_digit_def)
  ultimately show ?thesis
    using scan_base_string [OF b, of n] s by (simp add: scan_int_def)
qed

lemma stoul16_hex: "n < 2 ^ 64 \<Longrightarrow> stoul16 (hex_string n) = Inr n"
  by (simp add: stoul16_def hex_string_def scan_int_base_string)

lemma stol16_hex: "n < 2 ^ 63 \<Longrightarrow> stol16 (hex_string n) = Inr (int n)"
  by (simp add: stol16_def sto_signed_def hex_string_def scan_int_base_string signed_mag_def)

lemma stoll_dec: "n < 2 ^ 63 \<Longrightarrow> stoll (dec_string n) = Inr (int n)"
  by (simp add: stoll_def sto_signed_def dec_string_def scan_int_base_string signed_mag_def)

lemma dec_char: "c \<in> set (dec_string n) \<Longrightarrow> isdigit c"
  using base_string_digits [of 10 c n] digit_chr_cases by (auto simp: dec_string_def isdigit_def)

lemma dec_nonempty [simp]: "dec_string n \<noteq> []"
  by (simp add: dec_string_def)

lemma not_digit_dec: "\<not> isdigit c \<Longrightarrow> c \<notin> set (dec_string n)"
  using dec_char by blast

lemma scan_dec: "scan_digits 10 0 (dec_string n) = n"
  using scan_base_string [of 10 n] by (simp add: dec_string_def)

lemma scan_digits_stop: "r = [] \<or> \<not> isdigit (hd r) \<Longrightarrow> scan_digits 10 acc r = acc"
proof (cases r)
  case (Cons x y)
  assume "r = [] \<or> \<not> isdigit (hd r)"
  with Cons have "digit_val 10 x = None" by (auto simp: digit_val_def Let_def)
  with Cons show ?thesis by simp
qed simp

lemma scan_int_dec_then:
  assumes "r = [] \<or> \<not> isdigit (hd r)"
  shows "scan_int 10 (dec_string n @ r) = Some (False, n)"
proof -
  obtain c cs where s: "dec_string n = c # cs" by (meson dec_nonempty neq_Nil_conv)
  have dig: "\<exists>d < 10. x = digit_chr d" if "x \<in> set (dec_string n)" for x
    using that base_string_digits [of 10 x n] by (auto simp: dec_string_def)
  then obtain d where d: "d < 10" "c = digit_chr d" using s by (metis list.set_intros(1))
  have "drop_sign (dropWhile isspace (c # cs @ r)) = (False, c # cs @ r)"
    using d by (simp add: drop_sign_def digit_chr_props)
  moreover have "drop_0x 10 x = x" for x by (simp add: drop_0x_def split: list.split)
  moreover have "starts_with_digit 10 (c # cs @ r)" using d by (simp add: starts_with_digit_def digit_val_digit_chr)
  moreover have "scan_digits 10 0 (dec_string n @ r) = n"
  proof (subst scan_digits_append)
    show "digit_val 10 x \<noteq> None" if "x \<in> set (dec_string n)" for x
      using dig [OF that] by (auto simp: digit_val_digit_chr)
  qed (simp add: scan_dec scan_digits_stop [OF assms])
  ultimately show ?thesis by (simp add: scan_int_def s)
qed

lemma stoll_dec_then:
  "r = [] \<or> \<not> isdigit (hd r) \<Longrightarrow> n < 2 ^ 63 \<Longrightarrow> stoll (dec_string n @ r) = Inr (int n)"
  by (simp add: stoll_def sto_signed_def scan_int_dec_then signed_mag_def)

lemma hex_string_no_newline: "CR \<notin> set (hex_string n)" "LF \<notin> set (hex_string n)"
proof -
  have "\<exists>d < 16. c = digit_chr d" if "c \<in> set (hex_string n)" for c
    using base_string_digits [of 16 c n] that by (simp add: hex_string_def)
  then show "CR \<notin> set (hex_string n)" "LF \<notin> set (hex_string n)"
    using digit_chr_props by metis+
qed

lemma hex_string_nonempty [simp]: "hex_string n \<noteq> []"
  by (simp add: hex_string_def)

section \<open>State and exceptions\<close>

text \<open>
  \<open>('s, 'a) act\<close> is code that mutates an object of type \<open>'s\<close> and returns a value or throws.
  The new state is there in both cases: what was done before the throw stays done.
\<close>

type_synonym ('s, 'a) act = "'s \<Rightarrow> (exn + 'a) \<times> 's"

definition sret :: "'a \<Rightarrow> ('s, 'a) act" where
  "sret x = (\<lambda>s. (Inr x, s))"

definition sthrow :: "exn \<Rightarrow> ('s, 'a) act" where
  "sthrow e = (\<lambda>s. (Inl e, s))"

definition sbind :: "('s, 'a) act \<Rightarrow> ('a \<Rightarrow> ('s, 'b) act) \<Rightarrow> ('s, 'b) act" where
  "sbind m f = (\<lambda>s. case m s of (Inl e, s') \<Rightarrow> (Inl e, s') | (Inr x, s') \<Rightarrow> f x s')"

definition sget :: "('s \<Rightarrow> 'a) \<Rightarrow> ('s, 'a) act" where
  "sget f = (\<lambda>s. (Inr (f s), s))"

definition smod :: "('s \<Rightarrow> 's) \<Rightarrow> ('s, unit) act" where
  "smod f = (\<lambda>s. (Inr (), f s))"

definition swhen :: "('s \<Rightarrow> bool) \<Rightarrow> ('s, unit) act \<Rightarrow> ('s, unit) act" where
  "swhen b m = (\<lambda>s. if b s then m s else (Inr (), s))"

definition sif :: "('s \<Rightarrow> bool) \<Rightarrow> ('s, 'a) act \<Rightarrow> ('s, 'a) act \<Rightarrow> ('s, 'a) act" where
  "sif b m n = (\<lambda>s. if b s then m s else n s)"

text \<open>A piece of code that first reads something of the object.\<close>

definition swith :: "('s \<Rightarrow> 'a) \<Rightarrow> ('a \<Rightarrow> ('s, 'b) act) \<Rightarrow> ('s, 'b) act" where
  "swith f m = (\<lambda>s. m (f s) s)"

text \<open>A block of statements: run in order, stop at the first exception.\<close>

fun sseq :: "('s, unit) act list \<Rightarrow> ('s, unit) act" where
  "sseq [] s = (Inr (), s)"
| "sseq (m # ms) s = (case m s of (Inl e, s') \<Rightarrow> (Inl e, s') | (Inr _, s') \<Rightarrow> sseq ms s')"

lemmas act_defs [monad_simps] =
  sret_def sthrow_def sbind_def sget_def smod_def swhen_def sif_def swith_def

lemma sseq_append:
  "sseq (ms @ ns) s = (case sseq ms s of (Inl e, s') \<Rightarrow> (Inl e, s') | (Inr _, s') \<Rightarrow> sseq ns s')"
  by (induction ms arbitrary: s) (auto split: prod.splits sum.splits)

text \<open>
  Triples: from a state with \<open>P\<close>, the code either returns \<open>x\<close> with \<open>Q x\<close> or throws \<open>e\<close> with
  \<open>E e\<close>. The rules follow the structure of the code.
\<close>

definition triple ::
  "('s \<Rightarrow> bool) \<Rightarrow> ('s, 'a) act \<Rightarrow> ('a \<Rightarrow> 's \<Rightarrow> bool) \<Rightarrow> (exn \<Rightarrow> 's \<Rightarrow> bool) \<Rightarrow> bool" where
  "triple P m Q E \<longleftrightarrow>
     (\<forall>s. P s \<longrightarrow> (case m s of (Inl e, s') \<Rightarrow> E e s' | (Inr x, s') \<Rightarrow> Q x s'))"

named_theorems triple_rules \<open>proof rules of triples\<close>

lemma tripleI:
  "(\<And>s e s'. P s \<Longrightarrow> m s = (Inl e, s') \<Longrightarrow> E e s') \<Longrightarrow>
   (\<And>s x s'. P s \<Longrightarrow> m s = (Inr x, s') \<Longrightarrow> Q x s') \<Longrightarrow> triple P m Q E"
  by (auto simp: triple_def split: prod.splits sum.splits)

lemma triple_returnD: "triple P m Q E \<Longrightarrow> P s \<Longrightarrow> m s = (Inr x, s') \<Longrightarrow> Q x s'"
  by (auto simp: triple_def)

lemma triple_throwD: "triple P m Q E \<Longrightarrow> P s \<Longrightarrow> m s = (Inl e, s') \<Longrightarrow> E e s'"
  by (auto simp: triple_def)

lemma triple_weaken:
  "triple P' m Q' E' \<Longrightarrow> (\<And>s. P s \<Longrightarrow> P' s) \<Longrightarrow> (\<And>x s. Q' x s \<Longrightarrow> Q x s) \<Longrightarrow>
   (\<And>e s. E' e s \<Longrightarrow> E e s) \<Longrightarrow> triple P m Q E"
  unfolding triple_def by (fastforce split: prod.splits sum.splits)

lemma triple_pre: "triple P' m Q E \<Longrightarrow> (\<And>s. P s \<Longrightarrow> P' s) \<Longrightarrow> triple P m Q E"
  by (rule triple_weaken)

lemma triple_ret [triple_rules]: "(\<And>s. P s \<Longrightarrow> Q x s) \<Longrightarrow> triple P (sret x) Q E"
  by (simp add: triple_def sret_def)

lemma triple_throw [triple_rules]: "(\<And>s. P s \<Longrightarrow> E e s) \<Longrightarrow> triple P (sthrow e) Q E"
  by (simp add: triple_def sthrow_def)

lemma triple_mod [triple_rules]: "(\<And>s. P s \<Longrightarrow> Q () (f s)) \<Longrightarrow> triple P (smod f) Q E"
  by (simp add: triple_def smod_def)

lemma triple_when [triple_rules]:
  "triple (\<lambda>s. P s \<and> b s) m Q E \<Longrightarrow> (\<And>s. P s \<Longrightarrow> \<not> b s \<Longrightarrow> Q () s) \<Longrightarrow>
   triple P (swhen b m) Q E"
  by (auto simp: triple_def swhen_def)

lemma triple_if [triple_rules]:
  "triple (\<lambda>s. P s \<and> b s) m Q E \<Longrightarrow> triple (\<lambda>s. P s \<and> \<not> b s) n Q E \<Longrightarrow>
   triple P (sif b m n) Q E"
  by (auto simp: triple_def sif_def)

lemma triple_ite [triple_rules]:
  "(b \<Longrightarrow> triple P m Q E) \<Longrightarrow> (\<not> b \<Longrightarrow> triple P n Q E) \<Longrightarrow> triple P (if b then m else n) Q E"
  by simp

lemma triple_with [triple_rules]:
  "(\<And>x. triple (\<lambda>s. P s \<and> f s = x) (m x) Q E) \<Longrightarrow> triple P (swith f m) Q E"
  by (auto simp: triple_def swith_def)

lemma triple_bind [triple_rules]:
  "triple P m R E \<Longrightarrow> (\<And>x. triple (R x) (f x) Q E) \<Longrightarrow> triple P (sbind m f) Q E"
  unfolding triple_def sbind_def by (fastforce split: prod.splits sum.splits)

lemma triple_Nil [triple_rules]: "(\<And>s. P s \<Longrightarrow> Q () s) \<Longrightarrow> triple P (sseq []) Q E"
  by (simp add: triple_def)

lemma triple_Cons [triple_rules]:
  "triple P m (\<lambda>_. R) E \<Longrightarrow> triple R (sseq ms) Q E \<Longrightarrow> triple P (sseq (m # ms)) Q E"
  unfolding triple_def by (fastforce split: prod.splits sum.splits)

lemma triple_snd:
  assumes "triple I m (\<lambda>_. I) E" and "I s" and "\<And>e s. E e s \<Longrightarrow> I s"
  shows "I (snd (m s))"
  using assms by (cases "m s"; cases "fst (m s)") (auto simp: triple_def)

lemma triple_seq_all:
  "(\<And>m. m \<in> set ms \<Longrightarrow> triple I m (\<lambda>_. I) E) \<Longrightarrow> triple I (sseq ms) (\<lambda>_. I) E"
  by (induction ms) (auto intro: triple_rules)

text \<open>
  An interface for invariants: an action that keeps a predicate of the object, whether it
  returns or throws. A run of such actions, thrown exceptions ignored, keeps it as well.
\<close>

locale keeps =
  fixes step :: "'op \<Rightarrow> ('s, unit) act"
    and inv :: "'s \<Rightarrow> bool"
  assumes step_keeps: "inv s \<Longrightarrow> inv (snd (step op s))"
begin

primrec run :: "'op list \<Rightarrow> 's \<Rightarrow> 's" where
  "run [] s = s"
| "run (x # xs) s = run xs (snd (step x s))"

lemma run_keeps: "inv s \<Longrightarrow> inv (run ops s)"
  by (induction ops arbitrary: s) (auto intro: step_keeps)

lemma run_append: "run (xs @ ys) s = run ys (run xs s)"
  by (induction xs arbitrary: s) auto

end

end
