(* ===== verification/HttpText.thy ===== *)
theory HttpText
  imports Prelude "HOL-Library.Monad_Syntax"
begin

text \<open>
  The text helpers of \<open>lib/HttpHelpers.cpp\<close> and \<open>lib/Global.h\<close>: splitting, URL encoding and
  decoding, and the parsers of header options and query strings. \<open>urldecode\<close> is a loop that
  may run for ever, so it is a \<open>partial_function\<close> and everything that calls it returns an
  \<open>option\<close>, \<open>None\<close> for a call that never returns.
\<close>

section \<open>Splitting\<close>

definition strsplit :: "string \<Rightarrow> char \<Rightarrow> string \<times> string" where
  "strsplit str c = (case find_char c str of
     Some pos \<Rightarrow> (take pos str, drop (pos + 1) str)
   | None \<Rightarrow> (str, []))"

text \<open>\<open>std::getline\<close> over a \<open>stringstream\<close>: a trailing delimiter gives no last empty segment.\<close>

function split_str :: "string \<Rightarrow> char \<Rightarrow> string list" where
  "split_str str delim =
     (if str = [] then []
      else case find_char delim str of
        None \<Rightarrow> [str]
      | Some k \<Rightarrow> take k str # split_str (drop (k + 1) str) delim)"
  by pat_completeness auto
termination
  by (relation "measure (\<lambda>(s, d). length s)") (auto dest: find_char_SomeD)

declare split_str.simps [simp del]

definition getFileName :: "string \<Rightarrow> string" where
  "getFileName s = (case rfind_char (CHR ''/'') s of
     Some i \<Rightarrow> drop (i + 1) s
   | None \<Rightarrow> s)"

section \<open>urldecode and urlencode\<close>

definition plus_to_space :: "bool \<Rightarrow> string \<Rightarrow> string" where
  "plus_to_space form_encoded s =
     (if form_encoded then map (\<lambda>i. if i = CHR ''+'' then CHR '' '' else i) s else s)"

definition hextoi :: "char \<Rightarrow> nat" where
  "hextoi x = (if isdigit x then chr_code x - chr_code (CHR ''0'') else chr_code x - chr_code (CHR ''W''))"

definition hex_byte :: "char \<Rightarrow> char \<Rightarrow> char" where
  "hex_byte a b = code_chr ((hextoi (tolower a) * 16 + hextoi (tolower b)) mod 256)"

text \<open>
  The loop of \<open>urldecode\<close>. \<open>rest\<close> is \<open>src\<close> from \<open>start\<close> on and \<open>out\<close> what went to \<open>outss\<close>.
  When a percent sign has fewer than two characters after it, the body changes nothing and
  the loop finds the same percent sign again.
\<close>

partial_function (option) urldecode_loop :: "bool \<Rightarrow> string \<Rightarrow> string \<Rightarrow> string option" where
  "urldecode_loop form_encoded rest out =
     (case find_char (CHR ''%'') rest of
        None \<Rightarrow> Some (out @ rest)
      | Some pos \<Rightarrow>
          if pos + 2 < length rest then
            if isxdigit (rest ! (pos + 1)) \<and> isxdigit (rest ! (pos + 2)) then
              urldecode_loop form_encoded (drop (pos + 3) rest)
                (out @ plus_to_space form_encoded (take pos rest)
                     @ [hex_byte (rest ! (pos + 1)) (rest ! (pos + 2))])
            else
              urldecode_loop form_encoded (drop (pos + 3) rest)
                (out @ plus_to_space form_encoded (take (pos + 3) rest))
          else urldecode_loop form_encoded rest out)"

definition urldecode :: "string \<Rightarrow> bool \<Rightarrow> string option" where
  "urldecode src form_encoded = urldecode_loop form_encoded src []"

definition url_keep :: "char \<Rightarrow> bool" where
  "url_keep c \<longleftrightarrow> isalnum c \<or> c = CHR ''-'' \<or> c = CHR ''_'' \<or> c = CHR ''.'' \<or> c = CHR ''~''"

definition hex_digit_upper :: "nat \<Rightarrow> char" where
  "hex_digit_upper d = (if d < 10 then code_chr (48 + d) else code_chr (55 + d))"

definition urlencode_char :: "char \<Rightarrow> string" where
  "urlencode_char c =
     (if url_keep c then [c]
      else [CHR ''%'', hex_digit_upper (chr_code c div 16), hex_digit_upper (chr_code c mod 16)])"

definition urlencode :: "string \<Rightarrow> string" where
  "urlencode v = concat (map urlencode_char v)"

section \<open>Header options and query strings\<close>

text \<open>
  The first loop of both parsers. \<open>rest\<close> is the text from \<open>old_pos\<close> on; \<open>at_start\<close> says that
  \<open>old_pos = 0\<close>, where a separator is skipped instead of giving an empty parameter.
\<close>

function split_params :: "char \<Rightarrow> bool \<Rightarrow> string \<Rightarrow> string list" where
  "split_params sep at_start rest =
     (case find_char sep rest of
        None \<Rightarrow> (if rest = [] then [] else [rest])
      | Some k \<Rightarrow>
          if at_start \<and> k = 0 then split_params sep False (drop 1 rest)
          else take k rest # split_params sep False (drop (k + 1) rest))"
  by pat_completeness auto
termination
  by (relation "measure (\<lambda>(s, b, r). length r)") (auto dest: find_char_SomeD)

declare split_params.simps [simp del]

text \<open>
  In \<open>parse_header_options\<close> the variables \<open>name\<close> and \<open>value\<close> live outside the loop: a
  parameter with no equals sign keeps the \<open>value\<close> of the one before it.
\<close>

fun header_options_loop ::
  "bool \<Rightarrow> string list \<Rightarrow> string \<Rightarrow> (string \<rightharpoonup> string) \<Rightarrow> (string \<rightharpoonup> string) option" where
  "header_options_loop form_encoded [] value q = Some q"
| "header_options_loop form_encoded (param # params) value q =
     do {
       (name', value') \<leftarrow>
         (case find_char (CHR ''='') param of
            Some pos \<Rightarrow> do {
              n \<leftarrow> urldecode (take pos param) form_encoded;
              v \<leftarrow> urldecode (drop (pos + 1) param) form_encoded;
              Some (n, v)
            }
          | None \<Rightarrow> do {
              n \<leftarrow> urldecode param form_encoded;
              Some (n, value)
            });
       let name'' = asciitolower (trim_copy name');
       let value'' = trim_copy value';
       header_options_loop form_encoded params value'' (q(name'' \<mapsto> value''))
     }"

definition parse_header_options :: "string \<Rightarrow> bool \<Rightarrow> char \<Rightarrow> (string \<rightharpoonup> string) option" where
  "parse_header_options options form_encoded sep =
     header_options_loop form_encoded (split_params sep True options) [] Map.empty"

fun query_string_loop ::
  "bool \<Rightarrow> string list \<Rightarrow> (string \<rightharpoonup> string) \<Rightarrow> (string \<rightharpoonup> string) option" where
  "query_string_loop form_encoded [] q = Some q"
| "query_string_loop form_encoded (param # params) q =
     do {
       (name, value) \<leftarrow>
         (case find_char (CHR ''='') param of
            Some pos \<Rightarrow> do {
              n \<leftarrow> urldecode (take pos param) form_encoded;
              v \<leftarrow> urldecode (drop (pos + 1) param) form_encoded;
              Some (n, v)
            }
          | None \<Rightarrow> do {
              n \<leftarrow> urldecode param form_encoded;
              Some (n, [])
            });
       query_string_loop form_encoded params (q(name \<mapsto> value))
     }"

definition parse_query_string :: "string \<Rightarrow> bool \<Rightarrow> (string \<rightharpoonup> string) option" where
  "parse_query_string query form_encoded =
     query_string_loop form_encoded (split_params (CHR ''&'') True query) Map.empty"

section \<open>What urldecode computes\<close>

text \<open>
  The reference: a percent sign takes the two characters after it, as one byte if they are hex
  digits and as they are otherwise. \<open>escapes_complete\<close> says that the two characters are there.
  With \<open>form_encoded\<close> a plus sign is a space, but the code only replaces it where an escape
  still follows: the text after the last escape is copied as it is.
\<close>

fun escapes_complete :: "string \<Rightarrow> bool" where
  "escapes_complete [] = True"
| "escapes_complete (c # cs) =
     (if c = CHR ''%'' then (case cs of a # b # rest \<Rightarrow> escapes_complete rest | _ \<Rightarrow> False)
      else escapes_complete cs)"

fun pct_decode :: "bool \<Rightarrow> string \<Rightarrow> string" where
  "pct_decode form [] = []"
| "pct_decode form (c # cs) =
     (if c = CHR ''%'' then
        (case cs of
           a # b # rest \<Rightarrow>
             if isxdigit a \<and> isxdigit b then hex_byte a b # pct_decode form rest
             else plus_to_space form [c, a, b] @ pct_decode form rest
         | _ \<Rightarrow> c # cs)
      else (if form \<and> c = CHR ''+'' \<and> CHR ''%'' \<in> set cs then CHR '' '' else c) # pct_decode form cs)"

lemma escapes_complete_split:
  "CHR ''%'' \<notin> set a \<Longrightarrow>
   escapes_complete (a @ CHR ''%'' # b) \<longleftrightarrow> 2 \<le> length b \<and> escapes_complete (drop 2 b)"
  by (induction a) (auto split: list.splits)

lemma escapes_complete_plain: "CHR ''%'' \<notin> set a \<Longrightarrow> escapes_complete a"
  by (induction a) auto

lemma pct_decode_plain: "CHR ''%'' \<notin> set a \<Longrightarrow> pct_decode form a = a"
  by (induction a) auto

lemma pct_decode_split:
  "CHR ''%'' \<notin> set a \<Longrightarrow>
   pct_decode form (a @ CHR ''%'' # b) = plus_to_space form a @ pct_decode form (CHR ''%'' # b)"
  by (induction a) (auto simp: plus_to_space_def simp del: pct_decode.simps(2)
      simp: pct_decode.simps(2) [of _ "CHR ''+''"] pct_decode.simps(2))

lemma take_percent:
  assumes "find_char (CHR ''%'') s = Some k" and "k + 2 < length s"
  shows "s = take k s @ CHR ''%'' # s ! (k + 1) # s ! (k + 2) # drop (k + 3) s"
    and "CHR ''%'' \<notin> set (take k s)"
    and "take (k + 3) s = take k s @ [CHR ''%'', s ! (k + 1), s ! (k + 2)]"
proof -
  have k: "s ! k = CHR ''%''" "CHR ''%'' \<notin> set (take k s)"
    using find_char_SomeD [OF assms(1)] by auto
  show "CHR ''%'' \<notin> set (take k s)" by (rule k(2))
  have "drop k s = s ! k # s ! Suc k # s ! Suc (Suc k) # drop (Suc (Suc (Suc k))) s"
    using assms(2) by (simp add: Cons_nth_drop_Suc)
  then have d: "drop k s = CHR ''%'' # s ! (k + 1) # s ! (k + 2) # drop (k + 3) s"
    using k(1) by (simp add: numeral_3_eq_3)
  show s: "s = take k s @ CHR ''%'' # s ! (k + 1) # s ! (k + 2) # drop (k + 3) s"
    using d by (metis append_take_drop_id)
  have "take (k + 3) s = take k s @ take 3 (drop k s)"
    by (rule take_add)
  also have "take 3 (drop k s) = [CHR ''%'', s ! (k + 1), s ! (k + 2)]"
    by (simp add: d numeral_3_eq_3)
  finally show "take (k + 3) s = take k s @ [CHR ''%'', s ! (k + 1), s ! (k + 2)]" .
qed

lemma urldecode_loop_complete:
  "escapes_complete s \<Longrightarrow> urldecode_loop form s out = Some (out @ pct_decode form s)"
proof (induction s arbitrary: out rule: length_induct)
  case (1 s)
  show ?case
  proof (cases "find_char (CHR ''%'') s")
    case None
    then show ?thesis
      by (simp add: urldecode_loop.simps find_char_None pct_decode_plain)
  next
    case (Some k)
    have "2 \<le> length (drop (Suc k) s)"
      using find_char_Some_split [OF Some] 1(2) escapes_complete_split [of "take k s" "drop (Suc k) s"]
      by metis
    then have len: "k + 2 < length s" by simp
    note s = take_percent [OF Some len]
    let ?r = "drop (k + 3) s"
    have rest: "escapes_complete ?r"
      using 1(2) escapes_complete_split [OF s(2), of "s ! (k + 1) # s ! (k + 2) # ?r"] s(1) by simp
    have IH: "urldecode_loop form ?r out' = Some (out' @ pct_decode form ?r)" for out'
      using 1(1) rest len by (simp add: numeral_3_eq_3)
    have dec: "pct_decode form s =
        plus_to_space form (take k s) @ pct_decode form (CHR ''%'' # s ! (k + 1) # s ! (k + 2) # ?r)"
      using pct_decode_split [OF s(2)] s(1) by metis
    show ?thesis
      using len Some by (simp add: urldecode_loop.simps [of form s] IH dec s(3) plus_to_space_def)
  qed
qed

lemma urldecode_loop_returns:
  assumes "urldecode_loop form s out = Some r"
  shows "escapes_complete s"
proof (rule urldecode_loop.raw_induct [where P = "\<lambda>form s out r. escapes_complete s", OF _ assms])
  fix loop form s out r
  assume IH: "\<And>form s out r. loop form s out = Some r \<Longrightarrow> escapes_complete s"
    and eq: "(case find_char (CHR ''%'') s of
        None \<Rightarrow> Some (out @ s)
      | Some pos \<Rightarrow>
          if pos + 2 < length s then
            if isxdigit (s ! (pos + 1)) \<and> isxdigit (s ! (pos + 2)) then
              loop form (drop (pos + 3) s)
                (out @ plus_to_space form (take pos s)
                     @ [hex_byte (s ! (pos + 1)) (s ! (pos + 2))])
            else
              loop form (drop (pos + 3) s) (out @ plus_to_space form (take (pos + 3) s))
          else loop form s out) = Some r"
  show "escapes_complete s"
  proof (cases "find_char (CHR ''%'') s")
    case None
    then show ?thesis by (simp add: find_char_None escapes_complete_plain)
  next
    case (Some k)
    show ?thesis
    proof (cases "k + 2 < length s")
      case True
      note s = take_percent [OF Some True]
      from eq Some True have "escapes_complete (drop (k + 3) s)"
        by (auto split: if_splits intro: IH)
      then have "escapes_complete (take k s @ CHR ''%'' # s ! (k + 1) # s ! (k + 2) # drop (k + 3) s)"
        by (subst escapes_complete_split [OF s(2)]) simp
      with s(1) show ?thesis by metis
    next
      case False
      with eq Some show ?thesis by (auto intro: IH)
    qed
  qed
qed

section \<open>urlencode\<close>

lemma url_keep_not_percent: "url_keep c \<Longrightarrow> c \<noteq> CHR ''%'' \<and> c \<noteq> CHR ''&'' \<and> c \<noteq> CHR ''=''"
  by (auto simp: url_keep_def ctype_simps chr_code_def)

lemma hex_upper_props:
  assumes "d < 16"
  shows "isxdigit (hex_digit_upper d)" "hextoi (tolower (hex_digit_upper d)) = d"
    "isalnum (hex_digit_upper d)"
proof -
  have c: "chr_code (hex_digit_upper d) = (if d < 10 then 48 + d else 55 + d)"
    using assms by (simp add: hex_digit_upper_def chr_code_code)
  show "isxdigit (hex_digit_upper d)" "isalnum (hex_digit_upper d)"
    using c assms by (auto simp: ctype_simps split: if_splits)
  have "chr_code (CHR ''W'') = 87" "chr_code (CHR ''0'') = 48" by (simp_all add: chr_code_def)
  then show "hextoi (tolower (hex_digit_upper d)) = d"
    using c assms by (auto simp: hextoi_def tolower_def ctype_simps chr_code_code split: if_splits)
qed

lemma hex_byte_upper:
  "hex_byte (hex_digit_upper (chr_code c div 16)) (hex_digit_upper (chr_code c mod 16)) = c"
proof -
  have "chr_code c div 16 < 16" using chr_code_lt [of c] by linarith
  moreover have "chr_code c mod 16 < 16" by simp
  ultimately have "hex_byte (hex_digit_upper (chr_code c div 16)) (hex_digit_upper (chr_code c mod 16))
      = code_chr ((chr_code c div 16 * 16 + chr_code c mod 16) mod 256)"
    by (simp add: hex_byte_def hex_upper_props)
  then show ?thesis by simp
qed

lemma urlencode_char_decode:
  "escapes_complete (urlencode_char c @ s) = escapes_complete s"
  "pct_decode False (urlencode_char c @ s) = c # pct_decode False s"
proof -
  have "chr_code c div 16 < 16" using chr_code_lt [of c] by linarith
  then show "escapes_complete (urlencode_char c @ s) = escapes_complete s"
    "pct_decode False (urlencode_char c @ s) = c # pct_decode False s"
    by (simp_all add: urlencode_char_def hex_upper_props hex_byte_upper url_keep_not_percent)
qed

lemma urlencode_Cons [simp]: "urlencode (c # v) = urlencode_char c @ urlencode v"
  by (simp add: urlencode_def)

lemma urlencode_Nil [simp]: "urlencode [] = []"
  by (simp add: urlencode_def)

lemma urlencode_decode: "escapes_complete (urlencode v) \<and> pct_decode False (urlencode v) = v"
  by (induction v) (simp_all add: urlencode_char_decode)

lemma set_urlencode: "c \<in> set (urlencode v) \<Longrightarrow> url_keep c \<or> c = CHR ''%''"
proof (induction v)
  case (Cons d v)
  have "chr_code d div 16 < 16" using chr_code_lt [of d] by linarith
  with Cons show ?case
    by (auto simp: urlencode_char_def url_keep_def hex_upper_props split: if_splits)
qed simp

lemma urlencode_no_sep:
  "CHR ''&'' \<notin> set (urlencode v)" "CHR ''='' \<notin> set (urlencode v)"
  using set_urlencode [of "CHR ''&''" v] set_urlencode [of "CHR ''=''" v] url_keep_not_percent
  by auto

section \<open>Joining and splitting parameters\<close>

fun join_params :: "char \<Rightarrow> string list \<Rightarrow> string" where
  "join_params sep [] = []"
| "join_params sep [x] = x"
| "join_params sep (x # y # xs) = x @ sep # join_params sep (y # xs)"

lemma split_params_plain: "sep \<notin> set x \<Longrightarrow> x \<noteq> [] \<Longrightarrow> split_params sep b x = [x]"
  by (simp add: split_params.simps)

lemma split_params_cons:
  "sep \<notin> set x \<Longrightarrow> x \<noteq> [] \<Longrightarrow> split_params sep b (x @ sep # r) = x # split_params sep False r"
  by (simp add: split_params.simps [of sep b] find_char_append)

lemma split_params_join:
  "(\<And>x. x \<in> set xs \<Longrightarrow> sep \<notin> set x \<and> x \<noteq> []) \<Longrightarrow> split_params sep b (join_params sep xs) = xs"
  by (induction sep xs arbitrary: b rule: join_params.induct)
    (auto simp: split_params.simps [of _ _ "[]"] split_params_plain split_params_cons)

definition query_param :: "string \<times> string \<Rightarrow> string" where
  "query_param kv = urlencode (fst kv) @ CHR ''='' # urlencode (snd kv)"

lemma urldecode_urlencode_False: "urldecode (urlencode v) False = Some v"
  using urldecode_loop_complete [of "urlencode v" False "[]"] urlencode_decode [of v]
  by (simp add: urldecode_def)

lemma query_string_loop_params:
  "query_string_loop False (map query_param kvs) q = Some (q ++ map_of (rev kvs))"
  by (induction kvs arbitrary: q)
    (auto simp: query_param_def find_char_append urlencode_no_sep urldecode_urlencode_False)

lemma split_str_segments: "c \<in> set (split_str s d) \<Longrightarrow> d \<notin> set c"
proof (induction s d rule: split_str.induct)
  case (1 s d)
  show ?case
  proof (cases "find_char d s")
    case None
    with 1(2) show ?thesis by (auto simp: split_str.simps [of s] find_char_None split: if_splits)
  next
    case (Some k)
    then have "s \<noteq> []" by auto
    with 1 Some show ?thesis
      using find_char_SomeD [OF Some] by (auto simp: split_str.simps [of s])
  qed
qed

section \<open>Properties\<close>

text \<open>
  C14: \<open>urldecode\<close> returns exactly when every percent sign it reaches has two characters after
  it, and then gives the decoding of the reference; otherwise its loop never ends.
\<close>

theorem urldecode_correct:
  "urldecode s form = (if escapes_complete s then Some (pct_decode form s) else None)"
proof (cases "escapes_complete s")
  case True
  then show ?thesis by (simp add: urldecode_def urldecode_loop_complete)
next
  case False
  then have "urldecode_loop form s [] = None"
    using urldecode_loop_returns [of form s "[]"] by (cases "urldecode_loop form s []") auto
  with False show ?thesis by (simp add: urldecode_def)
qed

text \<open>decoding an encoded string returns, and gives the string back.\<close>

theorem urldecode_urlencode: "urldecode (urlencode v) False = Some v"
  by (rule urldecode_urlencode_False)

text \<open>
  a form-encoded text in which no escape occurs keeps its plus signs: the code replaces
  them only in the pieces before an escape.
\<close>

theorem urldecode_form_keeps_plus:
  assumes "CHR ''%'' \<notin> set s"
  shows "urldecode s True = Some s"
  using assms by (simp add: urldecode_def urldecode_loop.simps)

theorem urldecode_form_keeps_plus_witness: "urldecode ''a+b'' True = Some ''a+b''"
  by (rule urldecode_form_keeps_plus) simp

text \<open>
  parsing the query string of a list of name-value pairs, names and values URL encoded,
  gives the map of the pairs, where a later pair wins over an earlier one of the same name.
\<close>

theorem parse_query_string_roundtrip:
  "parse_query_string (join_params (CHR ''&'') (map query_param kvs)) False = Some (map_of (rev kvs))"
proof -
  have "CHR ''&'' \<notin> set x \<and> x \<noteq> []" if "x \<in> set (map query_param kvs)" for x
    using that by (auto simp: query_param_def urlencode_no_sep)
  then have "split_params (CHR ''&'') True (join_params (CHR ''&'') (map query_param kvs))
      = map query_param kvs"
    by (rule split_params_join)
  then show ?thesis
    by (simp add: parse_query_string_def query_string_loop_params)
qed

text \<open>
  in a list of header options, an option without an equals sign gets the value of the
  option before it.
\<close>

theorem header_option_inherits_value:
  "parse_header_options (urlencode k @ CHR ''='' # urlencode v @ CHR '';'' # CHR ''x'' # urlencode n) False (CHR '';'')
   = Some [asciitolower (trim_copy k) \<mapsto> trim_copy v,
           asciitolower (trim_copy (CHR ''x'' # n)) \<mapsto> trim_copy v]"
proof -
  have no: "CHR '';'' \<notin> set (urlencode w)" for w
    using set_urlencode [of "CHR '';''" w] by (auto simp: url_keep_def ctype_simps chr_code_def)
  have "urlencode (CHR ''x'' # n) = CHR ''x'' # urlencode n"
    by (simp add: urlencode_char_def url_keep_def ctype_simps chr_code_def)
  then have dec: "urldecode (CHR ''x'' # urlencode n) False = Some (CHR ''x'' # n)"
    using urldecode_urlencode_False [of "CHR ''x'' # n"] by simp
  have "split_params (CHR '';'') True ((urlencode k @ CHR ''='' # urlencode v) @ CHR '';'' # CHR ''x'' # urlencode n)
      = [urlencode k @ CHR ''='' # urlencode v, CHR ''x'' # urlencode n]"
    by (subst split_params_cons) (simp_all add: no split_params_plain)
  then have "split_params (CHR '';'') True (urlencode k @ CHR ''='' # urlencode v @ CHR '';'' # CHR ''x'' # urlencode n)
      = [urlencode k @ CHR ''='' # urlencode v, CHR ''x'' # urlencode n]"
    by simp
  then show ?thesis
    by (simp add: parse_header_options_def find_char_append urlencode_no_sep urldecode_urlencode_False dec Let_def)
qed

end
