(* ===== verification/Streams.thy ===== *)
theory Streams
  imports Prelude
begin

text \<open>
  The standard streams the server reads and writes, and \<open>safeGetline\<close> of
  \<open>lib/HttpHelpers.cpp\<close>. An input stream is the list of bytes that will still arrive before
  the peer closes or the socket times out, with its \<open>eofbit\<close> and \<open>failbit\<close>. An output stream
  is the list of bytes it accepted, a bad bit, and a plan that says which of the coming stream
  operations fail and after how many bytes (an empty plan: none fails).
\<close>

section \<open>Input\<close>

record istream =
  rest :: string
  eofbit :: bool
  failbit :: bool

definition mk_istream :: "string \<Rightarrow> istream" where
  "mk_istream s = \<lparr>rest = s, eofbit = False, failbit = False\<rparr>"

definition is_good :: "istream \<Rightarrow> bool" where
  "is_good i \<longleftrightarrow> \<not> eofbit i \<and> \<not> failbit i"

definition ins_bad :: "istream \<Rightarrow> bool" where
  "ins_bad i \<longleftrightarrow> failbit i \<or> eofbit i"

definition is_get :: "istream \<Rightarrow> char option \<times> istream" where
  "is_get i =
     (if is_good i then
        (case rest i of
           [] \<Rightarrow> (None, i\<lparr>eofbit := True, failbit := True\<rparr>)
         | c # cs \<Rightarrow> (Some c, i\<lparr>rest := cs\<rparr>))
      else (None, i\<lparr>failbit := True\<rparr>))"

definition is_peek :: "istream \<Rightarrow> char option \<times> istream" where
  "is_peek i =
     (if is_good i then
        (case rest i of
           [] \<Rightarrow> (None, i\<lparr>eofbit := True\<rparr>)
         | c # cs \<Rightarrow> (Some c, i))
      else (None, i\<lparr>failbit := True\<rparr>))"

text \<open>\<open>read(buf, n)\<close>: a short read, or a negative count, sets both bits.\<close>

definition is_read :: "int \<Rightarrow> istream \<Rightarrow> string \<times> istream" where
  "is_read n i =
     (if is_good i then
        (if 0 \<le> n \<and> nat n \<le> length (rest i)
         then (take (nat n) (rest i), i\<lparr>rest := drop (nat n) (rest i)\<rparr>)
         else (take (nat n) (rest i),
               i\<lparr>rest := drop (nat n) (rest i), eofbit := True, failbit := True\<rparr>))
      else ([], i\<lparr>failbit := True\<rparr>))"

text \<open>\<open>sbumpc\<close> and \<open>sgetc\<close> of the stream buffer: they do not look at the bits or set them.\<close>

definition sb_bump :: "istream \<Rightarrow> char option \<times> istream" where
  "sb_bump i = (case rest i of [] \<Rightarrow> (None, i) | c # cs \<Rightarrow> (Some c, i\<lparr>rest := cs\<rparr>))"

definition sb_peek :: "istream \<Rightarrow> char option" where
  "sb_peek i = (case rest i of [] \<Rightarrow> None | c # cs \<Rightarrow> Some c)"

section \<open>safeGetline\<close>

text \<open>The result is the count of bytes read, the line without its end, and the stream.\<close>

function safeGetline_loop :: "istream \<Rightarrow> string \<Rightarrow> nat \<Rightarrow> nat \<Rightarrow> exn + (nat \<times> string \<times> istream)" where
  "safeGetline_loop i t n max_n =
     (case is_get i of
        (None, i') \<Rightarrow> Inr (n, t, i')
      | (Some c, i') \<Rightarrow>
          if c = LF then Inr (n + 1, t, i')
          else if c = CR then
            (case is_peek i' of (p, i'') \<Rightarrow>
               if p = Some LF then Inr (n + 2, t, snd (is_get i'')) else Inr (n + 1, t, i''))
          else if max_n > 0 \<and> n + 1 \<ge> max_n then Inl (CsError ''Input line too long!'')
          else safeGetline_loop i' (t @ [c]) (n + 1) max_n)"
  by pat_completeness auto
termination
  by (relation "measure (\<lambda>(i, t, n, m). length (rest i))")
    (auto simp: is_get_def split: if_splits list.splits)

declare safeGetline_loop.simps [simp del]

definition safeGetline :: "istream \<Rightarrow> nat \<Rightarrow> exn + (nat \<times> string \<times> istream)" where
  "safeGetline i max_n = safeGetline_loop i [] 0 max_n"

section \<open>Output\<close>

record ostream =
  written :: string
  badbit :: bool
  plan :: "nat option list"

definition mk_ostream :: ostream where
  "mk_ostream = \<lparr>written = [], badbit = False, plan = []\<rparr>"

definition os_write :: "string \<Rightarrow> ostream \<Rightarrow> ostream" where
  "os_write s os =
     (if badbit os then os
      else (case plan os of
          [] \<Rightarrow> os\<lparr>written := written os @ s\<rparr>
        | None # ps \<Rightarrow> os\<lparr>written := written os @ s, plan := ps\<rparr>
        | Some k # ps \<Rightarrow> os\<lparr>written := written os @ take k s, badbit := True, plan := ps\<rparr>))"

text \<open>A flush is a stream operation that writes nothing of its own.\<close>

definition os_flush :: "ostream \<Rightarrow> ostream" where
  "os_flush os = os_write [] os"

definition os_reliable :: "ostream \<Rightarrow> bool" where
  "os_reliable os \<longleftrightarrow> \<not> badbit os \<and> plan os = []"

lemma os_write_reliable [simp]:
  "os_reliable os \<Longrightarrow> written (os_write s os) = written os @ s"
  "os_reliable os \<Longrightarrow> os_reliable (os_write s os)"
  "os_reliable os \<Longrightarrow> \<not> badbit (os_write s os)"
  by (simp_all add: os_reliable_def os_write_def)

lemma os_flush_reliable [simp]:
  "os_reliable os \<Longrightarrow> os_flush os = os"
  by (simp add: os_flush_def os_write_def os_reliable_def)

lemma os_write_prefix: "\<exists>k. written (os_write s os) = written os @ take k s"
proof (cases "badbit os")
  case True
  then show ?thesis by (intro exI [of _ 0]) (simp add: os_write_def)
next
  case False
  have "take (length s) s = s" by simp
  with False show ?thesis
    by (auto simp: os_write_def split: list.splits option.splits intro: exI [of _ "length s"])
qed

section \<open>Facts about safeGetline\<close>

definition no_eol :: "string \<Rightarrow> bool" where
  "no_eol s \<longleftrightarrow> CR \<notin> set s \<and> LF \<notin> set s"

lemma no_eol_simps [simp]:
  "no_eol []" "no_eol (c # s) \<longleftrightarrow> c \<noteq> CR \<and> c \<noteq> LF \<and> no_eol s"
  "no_eol (s @ t) \<longleftrightarrow> no_eol s \<and> no_eol t"
  by (auto simp: no_eol_def)

lemma is_get_cons [simp]:
  "is_good i \<Longrightarrow> rest i = c # cs \<Longrightarrow> is_get i = (Some c, i\<lparr>rest := cs\<rparr>)"
  "is_good i \<Longrightarrow> rest i = c # cs \<Longrightarrow> is_peek i = (Some c, i)"
  by (simp_all add: is_get_def is_peek_def)

lemma is_good_rest [simp]: "is_good (i\<lparr>rest := x\<rparr>) = is_good i"
  by (simp add: is_good_def)

lemma is_good_not_bad [simp]: "is_good i \<Longrightarrow> \<not> ins_bad i"
  by (simp add: is_good_def ins_bad_def)

lemma safeGetline_loop_crlf:
  "is_good i \<Longrightarrow> rest i = s @ CRLF @ r \<Longrightarrow> no_eol s \<Longrightarrow> max_n = 0 \<or> n + length s < max_n \<Longrightarrow>
   safeGetline_loop i t n max_n = Inr (n + length s + 2, t @ s, i\<lparr>rest := r\<rparr>)"
  by (induction s arbitrary: i t n) (auto simp: safeGetline_loop.simps CRLF_def)

lemma safeGetline_loop_lf:
  "is_good i \<Longrightarrow> rest i = s @ LF # r \<Longrightarrow> no_eol s \<Longrightarrow> max_n = 0 \<or> n + length s < max_n \<Longrightarrow>
   safeGetline_loop i t n max_n = Inr (n + length s + 1, t @ s, i\<lparr>rest := r\<rparr>)"
  by (induction s arbitrary: i t n) (auto simp: safeGetline_loop.simps)

lemma safeGetline_crlf:
  "is_good i \<Longrightarrow> rest i = s @ CRLF @ r \<Longrightarrow> no_eol s \<Longrightarrow> max_n = 0 \<or> length s < max_n \<Longrightarrow>
   safeGetline i max_n = Inr (length s + 2, s, i\<lparr>rest := r\<rparr>)"
  by (simp add: safeGetline_def safeGetline_loop_crlf)

lemma safeGetline_loop_too_long:
  "is_good i \<Longrightarrow> rest i = s @ r \<Longrightarrow> no_eol s \<Longrightarrow> s \<noteq> [] \<Longrightarrow> n + length s = max_n \<Longrightarrow>
   safeGetline_loop i t n max_n = Inl (CsError ''Input line too long!'')"
proof (induction s arbitrary: i t n)
  case (Cons c s)
  show ?case
  proof (cases "s = []")
    case True
    with Cons.prems show ?thesis by (simp add: safeGetline_loop.simps [of i])
  next
    case False
    with Cons.prems have "safeGetline_loop (i\<lparr>rest := s @ r\<rparr>) (t @ [c]) (n + 1) max_n
        = Inl (CsError ''Input line too long!'')"
      by (intro Cons.IH) auto
    moreover have "\<not> n + 1 \<ge> max_n" using Cons.prems False by (cases s) auto
    ultimately show ?thesis using Cons.prems by (simp add: safeGetline_loop.simps [of i])
  qed
qed simp

lemma safeGetline_loop_bound:
  "safeGetline_loop i t n max_n = Inr (n', t', i') \<Longrightarrow> length t \<le> n \<Longrightarrow> max_n = 0 \<or> n < max_n \<Longrightarrow>
   length t' \<le> n' \<and> n \<le> n' \<and> (max_n = 0 \<or> (length t' < max_n \<and> n' \<le> max_n + 1))"
proof (induction i t n max_n rule: safeGetline_loop.induct)
  case (1 i t n max_n)
  show ?case
  proof (cases "is_get i")
    case (Pair co i1)
    show ?thesis
    proof (cases co)
      case None
      with 1(2-) Pair show ?thesis by (auto simp: safeGetline_loop.simps [of i])
    next
      case (Some c)
      show ?thesis
      proof (cases "c = LF \<or> c = CR \<or> (max_n > 0 \<and> n + 1 \<ge> max_n)")
        case True
        with 1(2-) Pair Some show ?thesis
          by (auto simp: safeGetline_loop.simps [of i] split: prod.splits if_splits)
      next
        case False
        with Pair Some have "safeGetline_loop i1 (t @ [c]) (n + 1) max_n = Inr (n', t', i')"
          using 1(2) by (auto simp: safeGetline_loop.simps [of i])
        then have "length t' \<le> n' \<and> n + 1 \<le> n' \<and> (max_n = 0 \<or> (length t' < max_n \<and> n' \<le> max_n + 1))"
          using Pair Some False 1(3,4) by (intro 1(1)) auto
        then show ?thesis by auto
      qed
    qed
  qed
qed

lemma safeGetline_loop_shrinks:
  "safeGetline_loop i t n m = Inr (n', t', i') \<Longrightarrow> length (rest i') \<le> length (rest i) \<and>
   (is_good i' \<longrightarrow> is_good i \<and> length (rest i') < length (rest i))"
proof (induction i t n m rule: safeGetline_loop.induct)
  case (1 i t n m)
  show ?case
  proof (cases "is_get i")
    case (Pair co i1)
    show ?thesis
    proof (cases co)
      case None
      with 1(2) Pair show ?thesis
        by (auto simp: safeGetline_loop.simps [of i] is_get_def is_good_def split: if_splits list.splits)
    next
      case (Some c)
      with Pair obtain cs where i1: "is_good i" "rest i = c # cs" "i1 = i\<lparr>rest := cs\<rparr>"
        by (auto simp: is_get_def split: if_splits list.splits)
      show ?thesis
      proof (cases "c = LF \<or> c = CR \<or> (m > 0 \<and> n + 1 \<ge> m)")
        case True
        with 1(2) Pair Some i1 show ?thesis
          by (auto simp: safeGetline_loop.simps [of i] is_get_def is_peek_def is_good_def
              split: prod.splits if_splits list.splits)
      next
        case False
        with Pair Some have "safeGetline_loop i1 (t @ [c]) (n + 1) m = Inr (n', t', i')"
          using 1(2) by (auto simp: safeGetline_loop.simps [of i])
        then have "length (rest i') \<le> length (rest i1) \<and>
            (is_good i' \<longrightarrow> is_good i1 \<and> length (rest i') < length (rest i1))"
          using Pair Some False by (intro 1(1)) auto
        with i1 show ?thesis by auto
      qed
    qed
  qed
qed

section \<open>Properties\<close>

text \<open>
  a line ended by a carriage return and a line feed is returned without its end, the count
  has every byte that was read, and the stream stands behind the line.
\<close>

theorem safeGetline_line:
  assumes "is_good i" and "rest i = s @ CRLF @ r" and "no_eol s" and "max_n = 0 \<or> length s < max_n"
  shows "safeGetline i max_n = Inr (length s + 2, s, i\<lparr>rest := r\<rparr>)"
  using assms by (rule safeGetline_crlf)

theorem safeGetline_line_witness:
  "safeGetline (mk_istream (''ab'' @ CRLF @ ''c'')) 3 = Inr (4, ''ab'', mk_istream ''c'')"
proof -
  have "is_good (mk_istream (''ab'' @ CRLF @ ''c''))" by (simp add: mk_istream_def is_good_def)
  then have "safeGetline (mk_istream (''ab'' @ CRLF @ ''c'')) 3
      = Inr (length ''ab'' + 2, ''ab'', (mk_istream (''ab'' @ CRLF @ ''c''))\<lparr>rest := ''c''\<rparr>)"
    by (rule safeGetline_line) (simp_all add: mk_istream_def CR_def LF_def)
  then show ?thesis by (simp add: mk_istream_def)
qed

text \<open>
  with a limit, a line that is returned is shorter than the limit and no more than
  \<open>max_n + 1\<close> bytes were taken from the stream for it: \<open>max_n - 1\<close> characters and a line end.
\<close>

theorem safeGetline_bounded:
  assumes "safeGetline i max_n = Inr (n, t, i')" and "0 < max_n"
  shows "length t < max_n \<and> length t \<le> n \<and> n \<le> max_n + 1"
  using safeGetline_loop_bound [of i "[]" 0 max_n n t i'] assms by (simp add: safeGetline_def)

theorem safeGetline_bounded_witness: "length ''ab'' < (3::nat) \<and> length ''ab'' \<le> (4::nat) \<and> (4::nat) \<le> 3 + 1"
proof (rule safeGetline_bounded)
  show "safeGetline (mk_istream (''ab'' @ CRLF)) 3 = Inr (4, ''ab'', mk_istream [])"
    by (simp add: safeGetline_def safeGetline_loop.simps mk_istream_def is_get_def is_peek_def
        is_good_def CRLF_def CR_def LF_def)
qed simp

end
