(* ===== verification/ChunkReader.thy ===== *)
theory ChunkReader
  imports Streams
begin

text \<open>
  \<open>lib/ChunkReader.cpp\<close>: reading a body in the chunked transfer coding, whole (\<open>readAll\<close>), by
  line (\<open>getline\<close>) or by byte (\<open>getc\<close>). Allocation fails exactly for the sizes above
  \<open>PTRDIFF_MAX\<close> that \<open>malloc\<close> always refuses; running out of memory is not modelled.
\<close>

section \<open>State\<close>

record chunk_reader =
  cr_ins :: istream
  chunk_size :: nat
  chunk_pos :: nat
  post_maxsize :: nat

definition mk_chunk_reader :: "istream \<Rightarrow> nat \<Rightarrow> chunk_reader" where
  "mk_chunk_reader ins_p post_maxsize_p =
     \<lparr>cr_ins = ins_p, chunk_size = 0, chunk_pos = 0, post_maxsize = post_maxsize_p\<rparr>"

definition max_headerline_len :: nat where
  "max_headerline_len = 65535"

definition too_big :: "string \<Rightarrow> nat \<Rightarrow> exn" where
  "too_big n m = CsError (''Chunksize ('' @ n @ '') to big (maxsize='' @ dec_string m @ '')'')"

definition alloc_fails :: "nat \<Rightarrow> bool" where
  "alloc_fails sz \<longleftrightarrow> sz \<ge> 2 ^ 63"

section \<open>readAll\<close>

definition read_chunk ::
  "nat \<Rightarrow> istream \<Rightarrow> string option \<Rightarrow> nat \<Rightarrow> exn + (int \<times> string option \<times> istream)" where
  "read_chunk maxsize i buf offs =
     (case safeGetline i max_headerline_len of
        Inl e \<Rightarrow> Inl e
      | Inr (_, line, i1) \<Rightarrow>
          if ins_bad i1 then Inl (InputFailure INPUT_READ_FAIL)
          else (case stol16 line of
              Inl StdInvalidArgument \<Rightarrow> Inl (CsError ''stol'')
            | Inl e \<Rightarrow> Inl e
            | Inr n \<Rightarrow>
                if maxsize > 0 \<and> to_size_t n > maxsize then Inl (too_big (int_string n) maxsize)
                else if n = 0 then Inr (0, buf, i1)
                else if buf = None \<and> alloc_fails (to_size_t (n + 1)) then Inl (CsError ''malloc failed'')
                else if buf \<noteq> None \<and> alloc_fails (to_size_t (int offs + n + 1))
                then Inl (CsError ''realloc failed'')
                else (case is_read n i1 of (d, i2) \<Rightarrow>
                    if ins_bad i2 then Inl (InputFailure INPUT_READ_FAIL)
                    else (case safeGetline i2 max_headerline_len of
                        Inl e \<Rightarrow> Inl e
                      | Inr (_, _, i3) \<Rightarrow>
                          if ins_bad i3 then Inl (InputFailure INPUT_READ_FAIL)
                          else Inr (n, Some (take offs (case buf of None \<Rightarrow> [] | Some b \<Rightarrow> b) @ d), i3)))))"

lemma not_bad_good: "\<not> ins_bad i \<longleftrightarrow> is_good i"
  by (auto simp: ins_bad_def is_good_def)

lemma safeGetline_shrinks:
  assumes "safeGetline i m = Inr (n, t, i')"
  shows "length (rest i') \<le> length (rest i) \<and> (is_good i' \<longrightarrow> length (rest i') < length (rest i))"
  using safeGetline_loop_shrinks [of i "[]" 0 m n t i'] assms by (auto simp: safeGetline_def)

lemma is_read_shrinks: "is_read n i = (d, i') \<Longrightarrow> length (rest i') \<le> length (rest i)"
  by (auto simp: is_read_def split: if_splits)

lemma is_read_good: "is_read n i = (d, i') \<Longrightarrow> is_good i' \<Longrightarrow> 0 \<le> n \<and> length d = nat n"
  by (auto simp: is_read_def is_good_def split: if_splits)

lemma read_chunk_shrinks:
  "read_chunk m i buf offs = Inr (n, buf', i') \<Longrightarrow> length (rest i') < length (rest i)"
  by (auto simp: read_chunk_def not_bad_good split: sum.splits prod.splits if_splits exn.splits
      dest!: safeGetline_shrinks is_read_shrinks)

function readAll_loop ::
  "nat \<Rightarrow> istream \<Rightarrow> string option \<Rightarrow> nat \<Rightarrow> exn + (nat \<times> string option \<times> istream)" where
  "readAll_loop maxsize i buf nbytes =
     (case read_chunk maxsize i buf nbytes of
        Inl e \<Rightarrow> Inl e
      | Inr (n, buf', i') \<Rightarrow>
          if n > 0 then
            (let nbytes' = nbytes + nat n
             in if maxsize > 0 \<and> nbytes' > maxsize then Inl (too_big (dec_string nbytes') maxsize)
                else readAll_loop maxsize i' buf' nbytes')
          else Inr (nbytes, buf', i'))"
  by pat_completeness auto
termination
  by (relation "measure (\<lambda>(m, i, b, n). length (rest i))") (auto dest: read_chunk_shrinks)

declare readAll_loop.simps [simp del]

definition readAll :: "chunk_reader \<Rightarrow> exn + (nat \<times> string option \<times> chunk_reader)" where
  "readAll cr =
     (case readAll_loop (post_maxsize cr) (cr_ins cr) None 0 of
        Inl e \<Rightarrow> Inl e
      | Inr (n, buf, i) \<Rightarrow> Inr (n, buf, cr\<lparr>cr_ins := i\<rparr>))"

section \<open>getc and getline\<close>

text \<open>
  \<open>chunk_header\<close> is the code both start with when the current chunk is used up: read the size
  line, and on size 0 the last line end as well. Its boolean result says that the body is at its
  end. \<open>chunk_bump\<close> takes one byte from the stream buffer and, at the end of the chunk, the
  line end after it. The sentry only touches the bits of a stream that is not good.
\<close>

definition sentry :: "istream \<Rightarrow> istream" where
  "sentry i = (if is_good i then i else i\<lparr>failbit := True\<rparr>)"

definition chunk_header :: "(string \<Rightarrow> string) \<Rightarrow> chunk_reader \<Rightarrow> exn + (bool \<times> chunk_reader)" where
  "chunk_header msg cr =
     (case safeGetline (cr_ins cr) max_headerline_len of
        Inl e \<Rightarrow> Inl e
      | Inr (_, line, i1) \<Rightarrow>
          if ins_bad i1 then Inl (InputFailure INPUT_READ_FAIL)
          else (case stoul16 line of
              Inl StdInvalidArgument \<Rightarrow> Inl (CsError (msg line))
            | Inl e \<Rightarrow> Inl e
            | Inr sz \<Rightarrow>
                if post_maxsize cr > 0 \<and> sz > post_maxsize cr
                then Inl (too_big (dec_string sz) (post_maxsize cr))
                else if sz = 0 then
                  (case safeGetline i1 max_headerline_len of
                     Inl e \<Rightarrow> Inl e
                   | Inr (_, _, i2) \<Rightarrow>
                       if ins_bad i2 then Inl (InputFailure INPUT_READ_FAIL)
                       else Inr (True, cr\<lparr>cr_ins := i2, chunk_size := 0\<rparr>))
                else Inr (False, cr\<lparr>cr_ins := i1, chunk_size := sz, chunk_pos := 0\<rparr>)))"

definition chunk_bump :: "chunk_reader \<Rightarrow> exn + (char option \<times> chunk_reader)" where
  "chunk_bump cr =
     (case sb_bump (cr_ins cr) of (c, i1) \<Rightarrow>
        if chunk_pos cr + 1 \<ge> chunk_size cr then
          (case safeGetline i1 max_headerline_len of
             Inl e \<Rightarrow> Inl e
           | Inr (_, _, i2) \<Rightarrow>
               if ins_bad i2 then Inl (InputFailure INPUT_READ_FAIL)
               else Inr (c, cr\<lparr>cr_ins := i2, chunk_pos := chunk_pos cr + 1\<rparr>))
        else Inr (c, cr\<lparr>cr_ins := i1, chunk_pos := chunk_pos cr + 1\<rparr>))"

definition chunk_getc :: "chunk_reader \<Rightarrow> exn + (char option \<times> chunk_reader)" where
  "chunk_getc cr =
     (case (if chunk_pos cr \<ge> chunk_size cr then chunk_header (\<lambda>line. ''stoul'' @ line) cr
            else Inr (False, cr)) of
        Inl e \<Rightarrow> Inl e
      | Inr (True, cr1) \<Rightarrow> Inr (None, cr1)
      | Inr (False, cr1) \<Rightarrow> chunk_bump (cr1\<lparr>cr_ins := sentry (cr_ins cr1)\<rparr>))"

lemma sentry_rest [simp]: "rest (sentry i) = rest i"
  by (simp add: sentry_def)

lemma sentry_good [simp]: "is_good i \<Longrightarrow> sentry i = i"
  by (simp add: sentry_def)

lemma chunk_header_shrinks:
  "chunk_header msg cr = Inr (b, cr') \<Longrightarrow> length (rest (cr_ins cr')) \<le> length (rest (cr_ins cr))"
  by (auto simp: chunk_header_def split: sum.splits prod.splits if_splits exn.splits
      dest!: safeGetline_shrinks)

lemma chunk_bump_shrinks:
  "chunk_bump cr = Inr (Some c, cr') \<Longrightarrow> length (rest (cr_ins cr')) < length (rest (cr_ins cr))"
  by (auto simp: chunk_bump_def sb_bump_def split: sum.splits prod.splits if_splits list.splits
      dest!: safeGetline_shrinks)

function chunk_getline_loop ::
  "chunk_reader \<Rightarrow> string \<Rightarrow> nat \<Rightarrow> exn + (nat \<times> string \<times> chunk_reader)" where
  "chunk_getline_loop cr t n =
     (case (if chunk_pos cr \<ge> chunk_size cr then chunk_header (\<lambda>line. ''stoul'') cr
            else Inr (False, cr)) of
        Inl e \<Rightarrow> Inl e
      | Inr (True, cr1) \<Rightarrow> Inr (n, t, cr1)
      | Inr (False, cr1) \<Rightarrow>
          (case chunk_bump (cr1\<lparr>cr_ins := sentry (cr_ins cr1)\<rparr>) of
             Inl e \<Rightarrow> Inl e
           | Inr (None, cr2) \<Rightarrow>
               Inr (n + 1, t, if t = [] then cr2\<lparr>cr_ins := (cr_ins cr2)\<lparr>eofbit := True\<rparr>\<rparr> else cr2)
           | Inr (Some c, cr2) \<Rightarrow>
               if c = LF then Inr (n + 1, t, cr2)
               else if c = CR then
                 (if sb_peek (cr_ins cr2) = Some LF then
                    (case chunk_bump cr2 of
                       Inl e \<Rightarrow> Inl e
                     | Inr (_, cr3) \<Rightarrow> Inr (n + 2, t, cr3))
                  else Inr (n + 1, t, cr2))
               else chunk_getline_loop cr2 (t @ [c]) (n + 1)))"
  by pat_completeness auto
termination
proof (relation "measure (\<lambda>(cr, t, n). length (rest (cr_ins cr)))", goal_cases)
  case (2 cr t n p b cr1 q co cr2 c)
  then have "length (rest (cr_ins cr1)) \<le> length (rest (cr_ins cr))"
    by (auto split: if_splits dest: chunk_header_shrinks)
  with 2 show ?case by (auto dest!: chunk_bump_shrinks)
qed simp

declare chunk_getline_loop.simps [simp del]

definition chunk_getline :: "chunk_reader \<Rightarrow> exn + (nat \<times> string \<times> chunk_reader)" where
  "chunk_getline cr = chunk_getline_loop cr [] 0"

section \<open>The chunked coding and its readers\<close>

definition chunk_enc :: "string \<Rightarrow> string" where
  "chunk_enc xs = hex_string (length xs) @ CRLF @ xs @ CRLF"

definition chunks_enc :: "string list \<Rightarrow> string" where
  "chunks_enc cs = concat (map chunk_enc cs)"

text \<open>The empty chunk that ends the body; \<open>readAll\<close> stops in front of its last line end.\<close>

definition last_chunk :: string where
  "last_chunk = ''0'' @ CRLF"

lemma chunks_enc_simps [simp]:
  "chunks_enc [] = []" "chunks_enc (c # cs) = hex_string (length c) @ CRLF @ c @ CRLF @ chunks_enc cs"
  "chunks_enc (cs @ ds) = chunks_enc cs @ chunks_enc ds"
  by (simp_all add: chunks_enc_def chunk_enc_def)

lemma length_base16: "n < 16 ^ k \<Longrightarrow> 0 < k \<Longrightarrow> length (base_string 16 n) \<le> k"
proof (induction k arbitrary: n)
  case (Suc k)
  show ?case
  proof (cases "n < 16")
    case True
    then show ?thesis by (simp add: base_string.simps [of 16 n])
  next
    case False
    with Suc.prems have "k \<noteq> 0" by (cases k) auto
    moreover have "n div 16 < 16 ^ k" using Suc.prems by (simp add: less_mult_imp_div_less mult.commute)
    ultimately have "length (base_string 16 (n div 16)) \<le> k" using Suc.IH by simp
    with False show ?thesis by (simp add: base_string.simps [of 16 n])
  qed
qed simp

lemma length_hex_string: "n < 2 ^ 64 \<Longrightarrow> length (hex_string n) < max_headerline_len"
  using length_base16 [of n 16] by (simp add: hex_string_def max_headerline_len_def)

lemma hex_string_no_eol [simp]: "no_eol (hex_string n)"
  by (simp add: no_eol_def hex_string_no_newline)

lemma hex_string_0: "hex_string 0 = ''0''"
proof -
  have "chr_code (CHR ''0'') = 48" by (simp add: chr_code_def)
  then have "code_chr 48 = CHR ''0''" by (metis code_chr_code)
  then show ?thesis by (simp add: hex_string_def base_string.simps digit_chr_def)
qed

lemma size_line:
  assumes "is_good i" and "rest i = hex_string n @ CRLF @ r" and "n < 2 ^ 64"
  shows "safeGetline i max_headerline_len = Inr (length (hex_string n) + 2, hex_string n, i\<lparr>rest := r\<rparr>)"
  using assms length_hex_string [of n] by (intro safeGetline_crlf) auto

lemma end_line:
  assumes "is_good i" and "rest i = CRLF @ r"
  shows "safeGetline i max_headerline_len = Inr (2, [], i\<lparr>rest := r\<rparr>)"
  using safeGetline_crlf [of i "[]" r max_headerline_len] assms by (simp add: max_headerline_len_def)

lemma end_line_simps [simp]:
  "is_good (i\<lparr>rest := CRLF @ r\<rparr>) \<Longrightarrow>
   safeGetline (i\<lparr>rest := CRLF @ r\<rparr>) max_headerline_len = Inr (2, [], i\<lparr>rest := r\<rparr>)"
  using end_line [of "i\<lparr>rest := CRLF @ r\<rparr>" r] by simp

lemma is_read_append [simp]:
  "is_good i \<Longrightarrow> rest i = xs @ r \<Longrightarrow> is_read (int (length xs)) i = (xs, i\<lparr>rest := r\<rparr>)"
  by (simp add: is_read_def)

lemma read_chunk_enc:
  assumes "is_good i" and "rest i = hex_string (length xs) @ CRLF @ xs @ CRLF @ r" and "xs \<noteq> []"
    and "m = 0 \<or> length xs \<le> m" and "offs + length xs + 1 < 2 ^ 63"
  shows "read_chunk m i buf offs =
     Inr (int (length xs), Some (take offs (case buf of None \<Rightarrow> [] | Some b \<Rightarrow> b) @ xs), i\<lparr>rest := r\<rparr>)"
proof -
  have line: "safeGetline i max_headerline_len =
      Inr (length (hex_string (length xs)) + 2, hex_string (length xs), i\<lparr>rest := xs @ CRLF @ r\<rparr>)"
    using assms(1,2,5) by (intro size_line) auto
  have n: "stol16 (hex_string (length xs)) = Inr (int (length xs))"
    using assms(5) by (intro stol16_hex) auto
  have "to_size_t (int (length xs)) = length xs" using assms(5) by simp
  moreover have "to_size_t (int (length xs) + 1) = length xs + 1"
    using assms(5) to_size_t_int [of "length xs + 1"] by (simp add: add.commute)
  moreover have "to_size_t (int offs + int (length xs) + 1) = offs + length xs + 1"
    using assms(5) to_size_t_int [of "offs + length xs + 1"] by (simp add: add.commute add.left_commute)
  ultimately show ?thesis
    using assms by (auto simp: read_chunk_def line n alloc_fails_def)
qed

lemma read_chunk_last:
  assumes "is_good i" and "rest i = last_chunk @ r"
  shows "read_chunk m i buf offs = Inr (0, buf, i\<lparr>rest := r\<rparr>)"
proof -
  have "safeGetline i max_headerline_len = Inr (3, ''0'', i\<lparr>rest := r\<rparr>)"
    using size_line [of i 0 r] assms by (simp add: last_chunk_def hex_string_0)
  moreover have "stol16 ''0'' = Inr 0" using stol16_hex [of 0] by (simp add: hex_string_0)
  ultimately show ?thesis using assms by (simp add: read_chunk_def to_size_t_def)
qed

lemma readAll_loop_enc:
  assumes "is_good i" and "rest i = chunks_enc cs @ last_chunk @ r" and "[] \<notin> set cs"
    and "nbytes + length (concat cs) + 1 < 2 ^ 63" and "m = 0 \<or> nbytes + length (concat cs) \<le> m"
    and "length (case buf of None \<Rightarrow> [] | Some b \<Rightarrow> b) = nbytes"
  shows "readAll_loop m i buf nbytes = Inr (nbytes + length (concat cs),
     (if cs = [] then buf else Some ((case buf of None \<Rightarrow> [] | Some b \<Rightarrow> b) @ concat cs)), i\<lparr>rest := r\<rparr>)"
  using assms
proof (induction cs arbitrary: i buf nbytes)
  case Nil
  then show ?case by (simp add: readAll_loop.simps read_chunk_last)
next
  case (Cons c cs)
  let ?b = "case buf of None \<Rightarrow> [] | Some b \<Rightarrow> b"
  have "read_chunk m i buf nbytes =
      Inr (int (length c), Some (take nbytes ?b @ c), i\<lparr>rest := chunks_enc cs @ last_chunk @ r\<rparr>)"
    using Cons.prems by (intro read_chunk_enc) auto
  moreover have "take nbytes ?b = ?b" using Cons.prems by simp
  moreover have "readAll_loop m (i\<lparr>rest := chunks_enc cs @ last_chunk @ r\<rparr>) (Some (?b @ c)) (nbytes + length c)
      = Inr (nbytes + length c + length (concat cs),
          (if cs = [] then Some (?b @ c) else Some ((?b @ c) @ concat cs)), i\<lparr>rest := r\<rparr>)"
    using Cons.IH [of "i\<lparr>rest := chunks_enc cs @ last_chunk @ r\<rparr>" "nbytes + length c" "Some (?b @ c)"]
      Cons.prems by (auto simp: add.assoc)
  ultimately show ?case
    using Cons.prems by (auto simp: readAll_loop.simps [of m i] Let_def)
qed

lemma readAll_loop_bound:
  "readAll_loop m i buf nbytes = Inr (n, buf', i') \<Longrightarrow> m = 0 \<or> nbytes \<le> m \<Longrightarrow>
   length (case buf of None \<Rightarrow> [] | Some b \<Rightarrow> b) = nbytes \<Longrightarrow>
   (m = 0 \<or> n \<le> m) \<and> length (case buf' of None \<Rightarrow> [] | Some b \<Rightarrow> b) = n"
proof (induction m i buf nbytes rule: readAll_loop.induct)
  case (1 m i buf nbytes)
  show ?case
  proof (cases "read_chunk m i buf nbytes")
    case (Inl e)
    with 1(2) show ?thesis by (simp add: readAll_loop.simps [of m i])
  next
    case (Inr p)
    obtain k b1 i1 where p: "p = (k, b1, i1)" by (cases p)
    show ?thesis
    proof (cases "k > 0")
      case False
      then have "buf' = buf \<and> n = nbytes"
        using Inr 1(2,4) p
        by (auto simp: readAll_loop.simps [of m i] read_chunk_def not_bad_good dest: is_read_good
            split: sum.splits prod.splits if_splits exn.splits)
      with 1(3,4) show ?thesis by simp
    next
      case True
      have len: "length (case b1 of None \<Rightarrow> [] | Some b \<Rightarrow> b) = nbytes + nat k"
        using Inr True 1(4) p
        by (auto simp: read_chunk_def not_bad_good dest: is_read_good
            split: sum.splits prod.splits if_splits exn.splits option.splits)
      with True Inr p 1(2) have "readAll_loop m i1 b1 (nbytes + nat k) = Inr (n, buf', i')"
        and "m = 0 \<or> nbytes + nat k \<le> m"
        by (auto simp: readAll_loop.simps [of m i] Let_def split: if_splits)
      with len Inr p True show ?thesis by (intro 1(1)) auto
    qed
  qed
qed

section \<open>Sources of bytes\<close>

text \<open>
  The body of a request is read byte by byte either from the connection itself or through a
  chunk reader. The interface: \<open>holds s xs r\<close> says that \<open>s\<close> has the body bytes \<open>xs\<close> still to
  give, and \<open>r\<close> on the connection after the body; a byte that is held is the next byte read.
\<close>

fun get_bytes :: "('s \<Rightarrow> exn + (char option \<times> 's)) \<Rightarrow> nat \<Rightarrow> 's \<Rightarrow> exn + (string \<times> 's)" where
  "get_bytes getc 0 s = Inr ([], s)"
| "get_bytes getc (Suc n) s =
     (case getc s of
        Inl e \<Rightarrow> Inl e
      | Inr (None, s') \<Rightarrow> Inr ([], s')
      | Inr (Some c, s') \<Rightarrow>
          (case get_bytes getc n s' of Inl e \<Rightarrow> Inl e | Inr (cs, s'') \<Rightarrow> Inr (c # cs, s'')))"

locale byte_source =
  fixes getc :: "'s \<Rightarrow> exn + (char option \<times> 's)"
    and holds :: "'s \<Rightarrow> string \<Rightarrow> string \<Rightarrow> bool"
  assumes getc_byte: "holds s (x # xs) r \<Longrightarrow> \<exists>s'. getc s = Inr (Some x, s') \<and> holds s' xs r"
begin

lemma get_bytes_holds:
  "holds s (xs @ ys) r \<Longrightarrow> \<exists>s'. get_bytes getc (length xs) s = Inr (xs, s') \<and> holds s' ys r"
proof (induction xs arbitrary: s)
  case (Cons x xs)
  from Cons.prems obtain s' where s': "getc s = Inr (Some x, s')" "holds s' (xs @ ys) r"
    using getc_byte [of s x "xs @ ys" r] by auto
  from Cons.IH [OF s'(2)] s'(1) show ?case by auto
qed auto

end

definition plain_getc :: "istream \<Rightarrow> exn + (char option \<times> istream)" where
  "plain_getc i = Inr (is_get i)"

definition plain_holds :: "istream \<Rightarrow> string \<Rightarrow> string \<Rightarrow> bool" where
  "plain_holds i xs r \<longleftrightarrow> is_good i \<and> rest i = xs @ r"

interpretation plain: byte_source plain_getc plain_holds
  by unfold_locales (auto simp: plain_getc_def plain_holds_def)

definition chunks_ok :: "nat \<Rightarrow> string list \<Rightarrow> bool" where
  "chunks_ok m cs \<longleftrightarrow> (\<forall>c \<in> set cs. c \<noteq> [] \<and> length c < 2 ^ 64 \<and> (m = 0 \<or> length c \<le> m))"

definition chunk_holds :: "chunk_reader \<Rightarrow> string \<Rightarrow> string \<Rightarrow> bool" where
  "chunk_holds cr xs r \<longleftrightarrow>
     is_good (cr_ins cr) \<and>
     (\<exists>c cs. xs = c @ concat cs \<and> chunks_ok (post_maxsize cr) cs \<and>
        rest (cr_ins cr) = (if c = [] then [] else c @ CRLF) @ chunks_enc cs @ last_chunk @ CRLF @ r \<and>
        (if c = [] then chunk_size cr \<le> chunk_pos cr else chunk_pos cr + length c = chunk_size cr))"

lemma chunk_holds_start:
  "chunks_ok m cs \<Longrightarrow> is_good i \<Longrightarrow> rest i = chunks_enc cs @ last_chunk @ CRLF @ r \<Longrightarrow>
   chunk_holds (mk_chunk_reader i m) (concat cs) r"
  by (auto simp: chunk_holds_def mk_chunk_reader_def intro!: exI [of _ "[]"] exI [of _ cs])

definition next_chunk :: "(string \<Rightarrow> string) \<Rightarrow> chunk_reader \<Rightarrow> exn + (bool \<times> chunk_reader)" where
  "next_chunk msg cr = (if chunk_pos cr \<ge> chunk_size cr then chunk_header msg cr else Inr (False, cr))"

lemma chunk_bump_inside:
  assumes "is_good (cr_ins cr)" and "rest (cr_ins cr) = x # c @ CRLF @ q"
    and "chunk_pos cr + Suc (length c) = chunk_size cr"
  shows "chunk_bump cr = Inr (Some x, cr\<lparr>cr_ins := (cr_ins cr)\<lparr>rest := if c = [] then q else c @ CRLF @ q\<rparr>,
     chunk_pos := chunk_pos cr + 1\<rparr>)"
proof (cases c)
  case Nil
  with assms show ?thesis by (simp add: chunk_bump_def sb_bump_def)
next
  case (Cons y c')
  with assms(3) have "\<not> chunk_pos cr + 1 \<ge> chunk_size cr" by auto
  with Cons assms(2) show ?thesis by (simp add: chunk_bump_def sb_bump_def)
qed

lemma chunk_header_enc:
  assumes "is_good (cr_ins cr)" and "rest (cr_ins cr) = hex_string (length d) @ CRLF @ q" and "d \<noteq> []"
    and "length d < 2 ^ 64" and "post_maxsize cr = 0 \<or> length d \<le> post_maxsize cr"
  shows "chunk_header msg cr =
     Inr (False, cr\<lparr>cr_ins := (cr_ins cr)\<lparr>rest := q\<rparr>, chunk_size := length d, chunk_pos := 0\<rparr>)"
  using assms size_line [OF assms(1,2,4)] stoul16_hex [OF assms(4)] by (auto simp: chunk_header_def)

lemma chunk_header_last:
  assumes "is_good (cr_ins cr)" and "rest (cr_ins cr) = last_chunk @ CRLF @ q"
  shows "chunk_header msg cr = Inr (True, cr\<lparr>cr_ins := (cr_ins cr)\<lparr>rest := q\<rparr>, chunk_size := 0\<rparr>)"
proof -
  have "safeGetline (cr_ins cr) max_headerline_len = Inr (3, ''0'', (cr_ins cr)\<lparr>rest := CRLF @ q\<rparr>)"
    using size_line [of "cr_ins cr" 0 "CRLF @ q"] assms by (simp add: last_chunk_def hex_string_0)
  moreover have "stoul16 ''0'' = Inr 0" using stoul16_hex [of 0] by (simp add: hex_string_0)
  ultimately show ?thesis using assms(1) by (simp add: chunk_header_def)
qed

lemma chunk_step:
  assumes "chunk_holds cr (x # xs) r"
  shows "\<exists>cr1 cr2. next_chunk msg cr = Inr (False, cr1) \<and> is_good (cr_ins cr1) \<and>
     chunk_bump cr1 = Inr (Some x, cr2) \<and> chunk_holds cr2 xs r"
proof -
  obtain c cs where good: "is_good (cr_ins cr)" and xs: "x # xs = c @ concat cs"
    and ok: "chunks_ok (post_maxsize cr) cs"
    and q: "rest (cr_ins cr) = (if c = [] then [] else c @ CRLF) @ chunks_enc cs @ last_chunk @ CRLF @ r"
    and pos: "if c = [] then chunk_size cr \<le> chunk_pos cr else chunk_pos cr + length c = chunk_size cr"
    using assms by (auto simp: chunk_holds_def)
  show ?thesis
  proof (cases c)
    case (Cons y c')
    then have y: "y = x" "xs = c' @ concat cs" using xs by auto
    let ?q = "chunks_enc cs @ last_chunk @ CRLF @ r"
    let ?cr2 = "cr\<lparr>cr_ins := (cr_ins cr)\<lparr>rest := if c' = [] then ?q else c' @ CRLF @ ?q\<rparr>,
       chunk_pos := chunk_pos cr + 1\<rparr>"
    have "chunk_bump cr = Inr (Some x, ?cr2)"
      using q pos y Cons good by (intro chunk_bump_inside) auto
    moreover have "chunk_holds ?cr2 xs r"
      using good ok pos y Cons unfolding chunk_holds_def by (intro conjI exI [of _ c'] exI [of _ cs]) auto
    ultimately show ?thesis using good pos Cons by (auto simp: next_chunk_def)
  next
    case Nil
    with xs obtain d ds where cs: "cs = d # ds" by (cases cs) auto
    with ok obtain d' where d: "d = x # d'" "xs = d' @ concat ds"
      using xs Nil by (cases d) (auto simp: chunks_ok_def)
    let ?q = "chunks_enc ds @ last_chunk @ CRLF @ r"
    let ?cr1 = "cr\<lparr>cr_ins := (cr_ins cr)\<lparr>rest := d @ CRLF @ ?q\<rparr>, chunk_size := length d, chunk_pos := 0\<rparr>"
    let ?cr2 = "?cr1\<lparr>cr_ins := (cr_ins ?cr1)\<lparr>rest := if d' = [] then ?q else d' @ CRLF @ ?q\<rparr>,
       chunk_pos := chunk_pos ?cr1 + 1\<rparr>"
    have "chunk_header msg cr = Inr (False, ?cr1)"
      using q good ok cs Nil d by (intro chunk_header_enc) (auto simp: chunks_ok_def)
    moreover have "chunk_bump ?cr1 = Inr (Some x, ?cr2)"
      using good d by (intro chunk_bump_inside) auto
    moreover have "chunk_holds ?cr2 xs r"
      using good ok d cs unfolding chunk_holds_def
      by (intro conjI exI [of _ d'] exI [of _ ds]) (auto simp: chunks_ok_def)
    ultimately show ?thesis using good pos Nil by (auto simp: next_chunk_def)
  qed
qed

lemma chunk_getc_next:
  "chunk_getc cr =
     (case next_chunk (\<lambda>line. ''stoul'' @ line) cr of
        Inl e \<Rightarrow> Inl e
      | Inr (True, cr1) \<Rightarrow> Inr (None, cr1)
      | Inr (False, cr1) \<Rightarrow> chunk_bump (cr1\<lparr>cr_ins := sentry (cr_ins cr1)\<rparr>))"
  unfolding chunk_getc_def next_chunk_def by (rule refl)

lemma chunk_getc_byte:
  assumes "chunk_holds cr (x # xs) r"
  shows "\<exists>cr'. chunk_getc cr = Inr (Some x, cr') \<and> chunk_holds cr' xs r"
  using chunk_step [OF assms, of "\<lambda>line. ''stoul'' @ line"] by (auto simp: chunk_getc_next)

interpretation chunked: byte_source chunk_getc chunk_holds
  by unfold_locales (rule chunk_getc_byte)

lemma chunk_getc_end:
  assumes "chunk_holds cr [] r"
  shows "\<exists>cr'. chunk_getc cr = Inr (None, cr') \<and> rest (cr_ins cr') = r \<and> is_good (cr_ins cr')"
proof -
  have "rest (cr_ins cr) = last_chunk @ CRLF @ r" "is_good (cr_ins cr)" "chunk_size cr \<le> chunk_pos cr"
    using assms by (auto simp: chunk_holds_def chunks_ok_def)
  then show ?thesis by (simp add: chunk_getc_next next_chunk_def chunk_header_last)
qed

lemma chunk_getline_loop_next:
  "chunk_getline_loop cr t n =
     (case next_chunk (\<lambda>line. ''stoul'') cr of
        Inl e \<Rightarrow> Inl e
      | Inr (True, cr1) \<Rightarrow> Inr (n, t, cr1)
      | Inr (False, cr1) \<Rightarrow>
          (case chunk_bump (cr1\<lparr>cr_ins := sentry (cr_ins cr1)\<rparr>) of
             Inl e \<Rightarrow> Inl e
           | Inr (None, cr2) \<Rightarrow>
               Inr (n + 1, t, if t = [] then cr2\<lparr>cr_ins := (cr_ins cr2)\<lparr>eofbit := True\<rparr>\<rparr> else cr2)
           | Inr (Some c, cr2) \<Rightarrow>
               if c = LF then Inr (n + 1, t, cr2)
               else if c = CR then
                 (if sb_peek (cr_ins cr2) = Some LF then
                    (case chunk_bump cr2 of Inl e \<Rightarrow> Inl e | Inr (_, cr3) \<Rightarrow> Inr (n + 2, t, cr3))
                  else Inr (n + 1, t, cr2))
               else chunk_getline_loop cr2 (t @ [c]) (n + 1)))"
  by (subst chunk_getline_loop.simps) (simp add: next_chunk_def)

lemma chunk_getline_loop_lf:
  "chunk_holds cr (s @ LF # ys) r \<Longrightarrow> no_eol s \<Longrightarrow>
   \<exists>cr'. chunk_getline_loop cr t n = Inr (n + length s + 1, t @ s, cr') \<and> chunk_holds cr' ys r"
proof (induction s arbitrary: cr t n)
  case Nil
  with chunk_step [of cr LF ys r "\<lambda>line. ''stoul''"] show ?case
    by (auto simp: chunk_getline_loop_next)
next
  case (Cons c s)
  from chunk_step [of cr c "s @ LF # ys" r "\<lambda>line. ''stoul''"] Cons.prems
  obtain cr1 cr2 where st: "next_chunk (\<lambda>line. ''stoul'') cr = Inr (False, cr1)" "is_good (cr_ins cr1)"
    "chunk_bump cr1 = Inr (Some c, cr2)" and h: "chunk_holds cr2 (s @ LF # ys) r" by auto
  then have "chunk_getline_loop cr t n = chunk_getline_loop cr2 (t @ [c]) (n + 1)"
    using Cons.prems by (simp add: chunk_getline_loop_next)
  with Cons.IH [OF h, of "t @ [c]" "n + 1"] Cons.prems show ?case by auto
qed

lemma chunk_getline_loop_cr_end:
  "is_good (cr_ins cr) \<Longrightarrow> rest (cr_ins cr) = s @ CR # CRLF @ q \<Longrightarrow>
   chunk_pos cr + length s + 1 = chunk_size cr \<Longrightarrow> no_eol s \<Longrightarrow> q \<noteq> [] \<Longrightarrow> hd q \<noteq> LF \<Longrightarrow>
   chunk_getline_loop cr t n =
     Inr (n + length s + 1, t @ s, cr\<lparr>cr_ins := (cr_ins cr)\<lparr>rest := q\<rparr>, chunk_pos := chunk_size cr\<rparr>)"
proof (induction s arbitrary: cr t n)
  case Nil
  have "chunk_bump cr = Inr (Some CR, cr\<lparr>cr_ins := (cr_ins cr)\<lparr>rest := q\<rparr>, chunk_pos := chunk_pos cr + 1\<rparr>)"
    using Nil chunk_bump_inside [of cr CR "[]" q] by simp
  with Nil show ?case
    by (cases q) (auto simp: chunk_getline_loop_next next_chunk_def sb_peek_def)
next
  case (Cons c s)
  let ?cr2 = "cr\<lparr>cr_ins := (cr_ins cr)\<lparr>rest := s @ CR # CRLF @ q\<rparr>, chunk_pos := chunk_pos cr + 1\<rparr>"
  have "chunk_bump cr = Inr (Some c, ?cr2)"
    using Cons.prems chunk_bump_inside [of cr c "s @ [CR]" q] by simp
  then have "chunk_getline_loop cr t n = chunk_getline_loop ?cr2 (t @ [c]) (n + 1)"
    using Cons.prems by (subst chunk_getline_loop_next) (simp add: next_chunk_def)
  with Cons.IH [of ?cr2 "t @ [c]" "n + 1"] Cons.prems show ?case by simp
qed

lemma chunk_getline_split_first:
  assumes "is_good i" and "rest i = chunks_enc [s @ [CR], LF # t] @ last_chunk @ CRLF @ r"
    and "no_eol s" and "length s + 1 < 2 ^ 64" and "length t + 1 < 2 ^ 64"
  shows "\<exists>cr1. chunk_getline_loop (mk_chunk_reader i 0) [] 0 = Inr (length s + 1, s, cr1) \<and>
     chunk_holds cr1 (LF # t) r"
proof -
  let ?cr = "mk_chunk_reader i 0"
  let ?q = "chunks_enc [LF # t] @ last_chunk @ CRLF @ r"
  let ?cr1 = "?cr\<lparr>cr_ins := i\<lparr>rest := s @ CR # CRLF @ ?q\<rparr>, chunk_size := length s + 1, chunk_pos := 0\<rparr>"
  let ?cr2 = "?cr1\<lparr>cr_ins := i\<lparr>rest := ?q\<rparr>, chunk_pos := length s + 1\<rparr>"
  have "chunk_header (\<lambda>line. ''stoul'') ?cr = Inr (False, ?cr1)"
    using assms chunk_header_enc [of ?cr "s @ [CR]" "s @ CR # CRLF @ ?q"]
    by (simp add: mk_chunk_reader_def)
  then have "chunk_getline_loop ?cr [] 0 = chunk_getline_loop ?cr1 [] 0"
    by (subst (1 2) chunk_getline_loop_next) (simp add: next_chunk_def mk_chunk_reader_def)
  moreover have "hd (hex_string k) \<noteq> LF" for k
    by (metis hex_string_no_newline(2) hd_in_set hex_string_nonempty)
  then have "hd ?q \<noteq> LF" by (simp add: hd_append)
  then have "chunk_getline_loop ?cr1 [] 0 = Inr (length s + 1, s, ?cr2)"
    using chunk_getline_loop_cr_end [of ?cr1 s ?q "[]" 0] assms
    by (simp add: mk_chunk_reader_def)
  moreover have "chunk_holds ?cr2 (LF # t) r"
    using assms(1,5) unfolding chunk_holds_def
    by (intro conjI exI [of _ "[]"] exI [of _ "[LF # t]"])
      (auto simp: mk_chunk_reader_def chunks_ok_def)
  ultimately show ?thesis by metis
qed

section \<open>Properties\<close>

text \<open>
  C34: \<open>readAll\<close> on a body in the chunked coding returns the length and the bytes of the body, if
  the body is within the limit, and leaves the stream in front of the last line end.
\<close>

theorem readAll_chunked_body:
  assumes "is_good (cr_ins cr)" and "rest (cr_ins cr) = chunks_enc cs @ last_chunk @ r"
    and "cs \<noteq> []" and "[] \<notin> set cs" and "length (concat cs) + 1 < 2 ^ 63"
    and "post_maxsize cr = 0 \<or> length (concat cs) \<le> post_maxsize cr"
  shows "readAll cr =
     Inr (length (concat cs), Some (concat cs), cr\<lparr>cr_ins := (cr_ins cr)\<lparr>rest := r\<rparr>\<rparr>)"
  using readAll_loop_enc [OF assms(1,2,4), of 0 "post_maxsize cr" None] assms(3,5,6)
  by (simp add: readAll_def)

definition chunk_example :: chunk_reader where
  "chunk_example = mk_chunk_reader (mk_istream (chunks_enc [''abc'', ''de''] @ last_chunk @ CRLF)) 5"

theorem readAll_chunked_body_witness:
  "readAll chunk_example = Inr (5, Some ''abcde'', chunk_example\<lparr>cr_ins := (cr_ins chunk_example)\<lparr>rest := CRLF\<rparr>\<rparr>)"
proof -
  have "readAll chunk_example = Inr (length (concat [''abc'', ''de'']), Some (concat [''abc'', ''de'']),
      chunk_example\<lparr>cr_ins := (cr_ins chunk_example)\<lparr>rest := CRLF\<rparr>\<rparr>)"
    by (rule readAll_chunked_body)
      (simp_all add: chunk_example_def mk_chunk_reader_def mk_istream_def is_good_def)
  then show ?thesis by simp
qed

text \<open>
  whatever the peer sends, \<open>readAll\<close> with a limit never returns more bytes than the limit,
  and the count it returns is the length of the buffer.
\<close>

theorem readAll_bounded:
  assumes "readAll cr = Inr (n, buf, cr')"
  shows "(post_maxsize cr = 0 \<or> n \<le> post_maxsize cr) \<and>
     length (case buf of None \<Rightarrow> [] | Some b \<Rightarrow> b) = n"
  using assms readAll_loop_bound [of "post_maxsize cr" "cr_ins cr" None 0 n buf]
  by (auto simp: readAll_def split: sum.splits)

theorem readAll_bounded_witness:
  "(post_maxsize chunk_example = 0 \<or> 5 \<le> post_maxsize chunk_example) \<and>
   length (case Some ''abcde'' of None \<Rightarrow> [] | Some b \<Rightarrow> b) = (5::nat)"
proof (rule readAll_bounded)
  have g: "is_good (cr_ins chunk_example)"
    and q: "rest (cr_ins chunk_example) = chunks_enc [''abc'', ''de''] @ last_chunk @ CRLF"
    by (simp_all add: chunk_example_def mk_chunk_reader_def mk_istream_def is_good_def)
  show "readAll chunk_example =
      Inr (5, Some ''abcde'', chunk_example\<lparr>cr_ins := (cr_ins chunk_example)\<lparr>rest := CRLF\<rparr>\<rparr>)"
    using readAll_loop_enc [OF g q, of 0 5 None]
    by (simp add: readAll_def chunk_example_def mk_chunk_reader_def)
qed

text \<open>
  calling \<open>getc\<close> as often as the body has bytes gives the bytes of the body over all chunks,
  and the next call gives the end of the body and leaves the stream behind it.
\<close>

theorem chunk_getc_reads_body:
  assumes "is_good i" and "rest i = chunks_enc cs @ last_chunk @ CRLF @ r" and "chunks_ok m cs"
  shows "\<exists>cr cr'. get_bytes chunk_getc (length (concat cs)) (mk_chunk_reader i m) = Inr (concat cs, cr) \<and>
     chunk_getc cr = Inr (None, cr') \<and> rest (cr_ins cr') = r \<and> is_good (cr_ins cr')"
proof -
  have "chunk_holds (mk_chunk_reader i m) (concat cs @ []) r"
    using chunk_holds_start [OF assms(3,1,2)] by simp
  from chunked.get_bytes_holds [OF this] show ?thesis
    using chunk_getc_end by blast
qed

theorem chunk_getc_reads_body_witness:
  "\<exists>cr cr'. get_bytes chunk_getc (length (concat [''abc'', ''de'']))
       (mk_chunk_reader (mk_istream (chunks_enc [''abc'', ''de''] @ last_chunk @ CRLF @ ''x'')) 3)
       = Inr (concat [''abc'', ''de''], cr) \<and>
     chunk_getc cr = Inr (None, cr') \<and> rest (cr_ins cr') = ''x'' \<and> is_good (cr_ins cr')"
  by (rule chunk_getc_reads_body) (simp_all add: mk_istream_def is_good_def chunks_ok_def)

text \<open>
  \<open>getline\<close> finds a line ended by a line feed wherever the chunk boundaries fall, and leaves
  the rest of the body to be read.
\<close>

theorem chunk_getline_across_chunks:
  assumes "is_good i" and "rest i = chunks_enc cs @ last_chunk @ CRLF @ r" and "chunks_ok m cs"
    and "concat cs = s @ LF # ys" and "no_eol s"
  shows "\<exists>cr. chunk_getline (mk_chunk_reader i m) = Inr (length s + 1, s, cr) \<and> chunk_holds cr ys r"
proof -
  have "chunk_holds (mk_chunk_reader i m) (s @ LF # ys) r"
    using chunk_holds_start [OF assms(3,1,2)] assms(4) by simp
  from chunk_getline_loop_lf [OF this assms(5), of "[]" 0] show ?thesis
    by (simp add: chunk_getline_def)
qed

theorem chunk_getline_across_chunks_witness:
  "\<exists>cr. chunk_getline (mk_chunk_reader (mk_istream (chunks_enc [''ab'', ''c'' @ [LF]] @ last_chunk @ CRLF @ [])) 0)
     = Inr (length ''abc'' + 1, ''abc'', cr) \<and> chunk_holds cr [] []"
  by (rule chunk_getline_across_chunks [where cs = "[''ab'', ''c'' @ [LF]]" and m = 0])
    (simp_all add: mk_istream_def is_good_def chunks_ok_def CR_def LF_def)

text \<open>
  when a chunk ends between the carriage return and the line feed of a line end, \<open>getline\<close>
  takes them for two line ends: the line comes first, and an empty line that the body does not
  have comes next.
\<close>

theorem chunk_getline_split_line_end:
  assumes "is_good i" and "rest i = chunks_enc [s @ [CR], LF # t] @ last_chunk @ CRLF @ r"
    and "no_eol s" and "length s + 1 < 2 ^ 64" and "length t + 1 < 2 ^ 64"
  shows "\<exists>cr cr'. chunk_getline (mk_chunk_reader i 0) = Inr (length s + 1, s, cr) \<and>
     chunk_getline cr = Inr (1, [], cr')"
proof -
  obtain cr1 where cr1: "chunk_getline_loop (mk_chunk_reader i 0) [] 0 = Inr (length s + 1, s, cr1)"
    "chunk_holds cr1 (LF # t) r"
    using chunk_getline_split_first [OF assms] by blast
  from chunk_getline_loop_lf [of cr1 "[]" t r "[]" 0] cr1 show ?thesis
    by (auto simp: chunk_getline_def)
qed

theorem chunk_getline_split_line_end_witness:
  "\<exists>cr cr'. chunk_getline (mk_chunk_reader (mk_istream (chunks_enc [''ab'' @ [CR], LF # ''c''] @ last_chunk @ CRLF @ [])) 0)
       = Inr (length ''ab'' + 1, ''ab'', cr) \<and> chunk_getline cr = Inr (1, [], cr')"
  by (rule chunk_getline_split_line_end [where t = "''c''" and r = "[]"])
    (simp_all add: mk_istream_def is_good_def CR_def LF_def)

end
