(* ===== verification/Connection.thy ===== *)
theory Connection
  imports HttpText ChunkReader
begin

text \<open>
  The object of \<open>lib/Connection.h\<close> and the operations of \<open>lib/Connection.cpp\<close> that do not write
  to the client: status, parameters, headers, buffering mode, keep alive. An
  \<open>unordered_map\<close> is a map; the order in which it is iterated is not determined by the
  standard, so it is the field \<open>map_iter\<close>. A null pointer is \<open>None\<close>. The output buffer is the
  list of its first \<open>outbuf_nbytes\<close> bytes, with its capacity in \<open>outbuf_size\<close>.
\<close>

section \<open>Types\<close>

datatype http_methods = OPTIONS | GET | HEAD | POST | PUT | DELETE | TRACE | CONNECT | OTHER

datatype status_codes =
    CONTINUE | SWITCHING_PROTOCOLS | PROCESSING | EARLY_HINTS
  | OK | CREATED | ACCEPTED | NONAUTHORITATIVE_INFORMATION
  | NO_CONTENT | RESET_CONTENT | PARTIAL_CONTENT | MULTI_STATUS
  | ALREADY_REPORTED | IM_USED | MULTIPLE_CHOCIES | MOVED_PERMANENTLY
  | FOUND | SEE_OTHER | NOT_MODIFIED | USE_PROXY
  | SWITCH_PROXY | TEMPORARY_REDIRECT | PERMANENT_REDIRECT | BAD_REQUEST
  | UNAUTHORIZED | PAYMENT_REQUIRED | FORBIDDEN | NOT_FOUND
  | METHOD_NOT_ALLOWED | NOT_ACCEPTABLE | PROXY_AUTHENTIFICATION_REQUIRED | REQUEST_TIMEOUT
  | CONFLICT | GONE | LENGTH_REQUIRED | PRECONDITION_FAILED
  | PAYLOAD_TOO_LARGE | REQUEST_URI_TOO_LONG | UNSUPPORTED_MEDIA_TYPE | REQUEST_RANGE_NOT_SATISFIABLE
  | EXPECTATION_FAILED | I_AM_A_TEAPOT | AUTHENTIFICATION_TIMEOUT | METHOD_FAILURE
  | TOO_MANY_REQUESTS | UNAVAILABLE_FOR_LEGAL_REASONS | INTERNAL_SERVER_ERROR | NOT_IMPLEMENTED
  | BAD_GATEWAY | SERVICE_UNAVAILABLE | GATEWAY_TIMEOUT | HTTP_VERSION_NOT_SUPPORTED
  | UNKOWN_ERROR

fun status_num :: "status_codes \<Rightarrow> nat" where
  "status_num CONTINUE = 100"
| "status_num SWITCHING_PROTOCOLS = 101"
| "status_num PROCESSING = 102"
| "status_num EARLY_HINTS = 103"
| "status_num OK = 200"
| "status_num CREATED = 201"
| "status_num ACCEPTED = 202"
| "status_num NONAUTHORITATIVE_INFORMATION = 203"
| "status_num NO_CONTENT = 204"
| "status_num RESET_CONTENT = 205"
| "status_num PARTIAL_CONTENT = 206"
| "status_num MULTI_STATUS = 207"
| "status_num ALREADY_REPORTED = 208"
| "status_num IM_USED = 226"
| "status_num MULTIPLE_CHOCIES = 300"
| "status_num MOVED_PERMANENTLY = 301"
| "status_num FOUND = 302"
| "status_num SEE_OTHER = 303"
| "status_num NOT_MODIFIED = 304"
| "status_num USE_PROXY = 305"
| "status_num SWITCH_PROXY = 306"
| "status_num TEMPORARY_REDIRECT = 307"
| "status_num PERMANENT_REDIRECT = 308"
| "status_num BAD_REQUEST = 400"
| "status_num UNAUTHORIZED = 401"
| "status_num PAYMENT_REQUIRED = 402"
| "status_num FORBIDDEN = 403"
| "status_num NOT_FOUND = 404"
| "status_num METHOD_NOT_ALLOWED = 405"
| "status_num NOT_ACCEPTABLE = 406"
| "status_num PROXY_AUTHENTIFICATION_REQUIRED = 407"
| "status_num REQUEST_TIMEOUT = 408"
| "status_num CONFLICT = 409"
| "status_num GONE = 410"
| "status_num LENGTH_REQUIRED = 411"
| "status_num PRECONDITION_FAILED = 412"
| "status_num PAYLOAD_TOO_LARGE = 413"
| "status_num REQUEST_URI_TOO_LONG = 414"
| "status_num UNSUPPORTED_MEDIA_TYPE = 415"
| "status_num REQUEST_RANGE_NOT_SATISFIABLE = 416"
| "status_num EXPECTATION_FAILED = 417"
| "status_num I_AM_A_TEAPOT = 418"
| "status_num AUTHENTIFICATION_TIMEOUT = 419"
| "status_num METHOD_FAILURE = 420"
| "status_num TOO_MANY_REQUESTS = 429"
| "status_num UNAVAILABLE_FOR_LEGAL_REASONS = 451"
| "status_num INTERNAL_SERVER_ERROR = 500"
| "status_num NOT_IMPLEMENTED = 501"
| "status_num BAD_GATEWAY = 502"
| "status_num SERVICE_UNAVAILABLE = 503"
| "status_num GATEWAY_TIMEOUT = 504"
| "status_num HTTP_VERSION_NOT_SUPPORTED = 505"
| "status_num UNKOWN_ERROR = 520"

fun status_text :: "status_codes \<Rightarrow> string" where
  "status_text CONTINUE = ''Continue''"
| "status_text SWITCHING_PROTOCOLS = ''Switching protocols''"
| "status_text PROCESSING = ''Processing''"
| "status_text OK = ''OK''"
| "status_text CREATED = ''Created''"
| "status_text ACCEPTED = ''Accepted''"
| "status_text NONAUTHORITATIVE_INFORMATION = ''Nonauthoritative information''"
| "status_text NO_CONTENT = ''No content''"
| "status_text RESET_CONTENT = ''Reset content''"
| "status_text PARTIAL_CONTENT = ''Partial content''"
| "status_text MULTI_STATUS = ''Multi status''"
| "status_text ALREADY_REPORTED = ''''"
| "status_text IM_USED = ''Already reported''"
| "status_text MULTIPLE_CHOCIES = ''Multiple chocies''"
| "status_text MOVED_PERMANENTLY = ''Moved permanently''"
| "status_text FOUND = ''Found''"
| "status_text SEE_OTHER = ''See other''"
| "status_text NOT_MODIFIED = ''Not modified''"
| "status_text USE_PROXY = ''Use proxy''"
| "status_text SWITCH_PROXY = ''Switch proxy''"
| "status_text TEMPORARY_REDIRECT = ''Temporary redirect''"
| "status_text PERMANENT_REDIRECT = ''Permanent redirect''"
| "status_text BAD_REQUEST = ''Bad request''"
| "status_text UNAUTHORIZED = ''Unauthorized''"
| "status_text PAYMENT_REQUIRED = ''Payment required''"
| "status_text FORBIDDEN = ''Forbidden''"
| "status_text NOT_FOUND = ''Not found''"
| "status_text METHOD_NOT_ALLOWED = ''Method not allowed''"
| "status_text NOT_ACCEPTABLE = ''Not acceptable''"
| "status_text PROXY_AUTHENTIFICATION_REQUIRED = ''Proxy authentification required''"
| "status_text REQUEST_TIMEOUT = ''Request timeout''"
| "status_text CONFLICT = ''Conflict''"
| "status_text GONE = ''Gone''"
| "status_text LENGTH_REQUIRED = ''Length required''"
| "status_text PRECONDITION_FAILED = ''Precondition failed''"
| "status_text PAYLOAD_TOO_LARGE = ''Payload too large''"
| "status_text REQUEST_URI_TOO_LONG = ''Request uri too long''"
| "status_text UNSUPPORTED_MEDIA_TYPE = ''Unsupported_media_type''"
| "status_text REQUEST_RANGE_NOT_SATISFIABLE = ''Request range not satisfiable''"
| "status_text EXPECTATION_FAILED = ''Expectation failed''"
| "status_text I_AM_A_TEAPOT = ''I am a teapot''"
| "status_text AUTHENTIFICATION_TIMEOUT = ''Authentification timeout''"
| "status_text METHOD_FAILURE = ''Method failure''"
| "status_text TOO_MANY_REQUESTS = ''Too many requests''"
| "status_text UNAVAILABLE_FOR_LEGAL_REASONS = ''Unavailable for legal reasons''"
| "status_text INTERNAL_SERVER_ERROR = ''Internal server error''"
| "status_text NOT_IMPLEMENTED = ''Not implemented''"
| "status_text BAD_GATEWAY = ''Bad gateway''"
| "status_text SERVICE_UNAVAILABLE = ''Service unavailable''"
| "status_text GATEWAY_TIMEOUT = ''Gateway timeout''"
| "status_text HTTP_VERSION_NOT_SUPPORTED = ''Http version not supported''"
| "status_text UNKOWN_ERROR = ''Unkown error''"
| "status_text _ = ''unkown status''"

record uploaded_file =
  fieldname :: string
  origname :: string
  tmpname :: string
  mimetype :: string
  filesize :: nat

record cookie =
  ck_name :: string
  ck_value :: string
  ck_path :: string
  ck_domain :: string
  ck_expires :: string
  ck_secure :: bool
  ck_http_only :: bool

definition mk_cookie :: "string \<Rightarrow> string \<Rightarrow> cookie" where
  "mk_cookie name_p value_p = \<lparr>ck_name = name_p, ck_value = value_p, ck_path = [], ck_domain = [],
     ck_expires = [], ck_secure = True, ck_http_only = False\<rparr>"

record connection =
  peer_ip :: string
  peer_port :: int
  http_version :: string
  secure :: bool
  http_method :: http_methods
  host :: string
  uri :: string
  get_params :: "string \<rightharpoonup> string"
  post_params :: "string \<rightharpoonup> string"
  request_params :: "string \<rightharpoonup> string"
  header_in :: "string \<rightharpoonup> string"
  header_out :: "string \<rightharpoonup> string"
  cookies_in :: "string \<rightharpoonup> string"
  uploads :: "uploaded_file list"
  ins :: istream
  os :: ostream
  tmpdir :: string
  status_code :: status_codes
  status_string :: string
  header_sent :: bool
  keep_alive :: bool
  keep_alive_timeout :: int
  chunked_transfer_in :: bool
  chunked_transfer_out :: bool
  finished :: bool
  content :: "string option"
  content_length :: int
  content_type :: string
  cachefile :: "string option"
  outbuf :: "string option"
  outbuf_size :: nat
  outbuf_inc :: nat
  reset_connection :: bool
  map_iter :: "(string \<rightharpoonup> string) \<Rightarrow> (string \<times> string) list"

text \<open>What the standard says of the iteration over a map: every entry once.\<close>

definition iter_ok :: "((string \<rightharpoonup> string) \<Rightarrow> (string \<times> string) list) \<Rightarrow> (string \<rightharpoonup> string) \<Rightarrow> bool" where
  "iter_ok it m \<longleftrightarrow> distinct (map fst (it m)) \<and> map_of (it m) = m"

section \<open>Status, keep alive, parameters\<close>

definition status :: "status_codes \<Rightarrow> string \<Rightarrow> connection \<Rightarrow> connection" where
  "status status_code_p status_string_p c =
     c\<lparr>status_code := status_code_p,
       status_string := if status_string_p = [] then status_text status_code_p else status_string_p\<rparr>"

definition setupKeepAlive :: "int \<Rightarrow> connection \<Rightarrow> int \<times> connection" where
  "setupKeepAlive default_timeout c =
     (if keep_alive c then
        (let c1 = c\<lparr>header_out := (header_out c)(''Connection'' \<mapsto> ''keep-alive'')\<rparr>;
             c2 = (if keep_alive_timeout c1 \<le> 0 then c1\<lparr>keep_alive_timeout := default_timeout\<rparr> else c1);
             c3 = (if keep_alive_timeout c2 > 0
                   then c2\<lparr>header_out := (header_out c2)(''Keep-Alive'' \<mapsto>
                       ''timeout='' @ int_string (keep_alive_timeout c2) @ '', max='' @ dec_string 100)\<rparr>
                   else c2)
         in (keep_alive_timeout c3, c3))
      else
        (let c1 = c\<lparr>header_out := (header_out c)(''Connection'' \<mapsto> ''close''), keep_alive_timeout := 0\<rparr>
         in (keep_alive_timeout c1, c1)))"

definition param_value :: "(string \<rightharpoonup> string) \<Rightarrow> string \<Rightarrow> string" where
  "param_value m name = (case m name of Some v \<Rightarrow> v | None \<Rightarrow> [])"

definition getParams :: "string \<Rightarrow> connection \<Rightarrow> string" where
  "getParams name c = param_value (get_params c) name"

definition getParams_names :: "connection \<Rightarrow> string list" where
  "getParams_names c = map fst (map_iter c (get_params c))"

definition postParams :: "string \<Rightarrow> connection \<Rightarrow> string" where
  "postParams name c = param_value (post_params c) name"

definition postParams_names :: "connection \<Rightarrow> string list" where
  "postParams_names c = map fst (map_iter c (post_params c))"

definition requestParams :: "string \<Rightarrow> connection \<Rightarrow> string" where
  "requestParams name c = param_value (request_params c) name"

definition requestParams_names :: "connection \<Rightarrow> string list" where
  "requestParams_names c = map fst (map_iter c (request_params c))"

section \<open>Headers and transfer mode\<close>

definition header_names :: "connection \<Rightarrow> string list" where
  "header_names c = map fst (map_iter c (header_in c))"

text \<open>\<open>header(name)\<close> is \<open>header_in[name]\<close>, which makes an empty entry where there is none.\<close>

definition header_get :: "string \<Rightarrow> connection \<Rightarrow> string \<times> connection" where
  "header_get name c =
     (case header_in c name of
        Some v \<Rightarrow> (v, c)
      | None \<Rightarrow> ([], c\<lparr>header_in := (header_in c)(name \<mapsto> [])\<rparr>))"

definition header_set :: "string \<Rightarrow> string \<Rightarrow> (connection, unit) act" where
  "header_set name value =
     sif header_sent (sthrow (CsError ''Header already sent!''))
       (smod (\<lambda>c. c\<lparr>header_out := (header_out c)(name \<mapsto> value)\<rparr>))"

definition cookie_string :: "cookie \<Rightarrow> string" where
  "cookie_string k =
     ck_name k @ ''='' @ ck_value k
     @ (if ck_path k \<noteq> [] then ''; Path='' @ ck_path k else [])
     @ (if ck_domain k \<noteq> [] then ''; Domain='' @ ck_domain k else [])
     @ (if ck_expires k \<noteq> [] then ''; Expires='' @ ck_expires k else [])
     @ (if ck_secure k then ''; Secure'' else [])
     @ (if ck_http_only k then ''; HttpOnly'' else [])"

definition cookies_set :: "cookie \<Rightarrow> (connection, unit) act" where
  "cookies_set k = header_set ''Set-Cookie'' (cookie_string k)"

definition corsHeader :: "string option \<Rightarrow> connection \<Rightarrow> connection" where
  "corsHeader origin c =
     (case origin of
        None \<Rightarrow> c
      | Some og \<Rightarrow>
          if og = [] then c
          else c\<lparr>header_out := (header_out c)(''Access-Control-Allow-Origin'' \<mapsto> og,
                   ''Access-Control-Allow-Credentials'' \<mapsto> ''true'')\<rparr>)"

definition setBuffer :: "(connection, unit) act" where
  "setBuffer =
     sif header_sent (sthrow (CsError ''Header already sent - cannot changed to buffered mode!''))
       (swhen (\<lambda>c. outbuf c = None) (smod (\<lambda>c. c\<lparr>outbuf := Some []\<rparr>)))"

definition setChunkedTransfer :: "(connection, unit) act" where
  "setChunkedTransfer =
     sif header_sent (sthrow (CsError ''Header already sent!''))
       (smod (\<lambda>c. c\<lparr>header_out := (header_out c)(''Transfer-Encoding'' \<mapsto> ''chunked''),
                    chunked_transfer_out := True\<rparr>))"

text \<open>The cache file is the bytes written to it; \<open>opened\<close> says whether the file could be opened.\<close>

definition openCacheFile :: "bool \<Rightarrow> (connection, unit) act" where
  "openCacheFile opened =
     sseq [smod (\<lambda>c. c\<lparr>cachefile := Some []\<rparr>),
           (if opened then sret () else sthrow (CsError ''Could not open cache file!''))]"

definition closeCacheFile :: "connection \<Rightarrow> connection" where
  "closeCacheFile c = c\<lparr>cachefile := None\<rparr>"

text \<open>Removing the uploaded files: \<open>remove\<close> of the file system is the argument \<open>rm\<close>, true for
  success. Every upload is tried, and the result says whether all could be removed.\<close>

fun cleanup_loop :: "(string \<Rightarrow> bool) \<Rightarrow> uploaded_file list \<Rightarrow> bool \<Rightarrow> bool" where
  "cleanup_loop rm [] filedelok = filedelok"
| "cleanup_loop rm (u # us) filedelok =
     cleanup_loop rm us (if rm (tmpname u) then filedelok else False)"

definition cleanupUploads :: "(string \<Rightarrow> bool) \<Rightarrow> connection \<Rightarrow> bool" where
  "cleanupUploads rm c = cleanup_loop rm (uploads c) True"

section \<open>The object before a request is read\<close>

text \<open>
  The members as the constructor sets them before it reads the request line. The request
  method, which has no initial value, is set on every path on which the constructor returns.
\<close>

definition init_connection ::
  "istream \<Rightarrow> ostream \<Rightarrow> string \<Rightarrow> nat \<Rightarrow> nat \<Rightarrow> ((string \<rightharpoonup> string) \<Rightarrow> (string \<times> string) list) \<Rightarrow> connection" where
  "init_connection ins_p os_p tmpdir_p buf_size buf_inc it = status OK []
     \<lparr>peer_ip = [], peer_port = 0, http_version = [], secure = False, http_method = GET, host = [],
      uri = [], get_params = Map.empty, post_params = Map.empty, request_params = Map.empty,
      header_in = Map.empty, header_out = Map.empty, cookies_in = Map.empty, uploads = [],
      ins = ins_p, os = os_p, tmpdir = tmpdir_p, status_code = OK, status_string = [],
      header_sent = False, keep_alive = False, keep_alive_timeout = -1, chunked_transfer_in = False,
      chunked_transfer_out = False, finished = False, content = None, content_length = 0,
      content_type = [], cachefile = None,
      outbuf = (if buf_size > 0 then Some [] else None),
      outbuf_size = buf_size, outbuf_inc = buf_inc, reset_connection = False, map_iter = it\<rparr>"

lemma init_connection_simps [simp]:
  "header_sent (init_connection i q t bs bi it) = False" "finished (init_connection i q t bs bi it) = False"
  "chunked_transfer_out (init_connection i q t bs bi it) = False"
  "outbuf (init_connection i q t bs bi it) = (if bs > 0 then Some [] else None)"
  "outbuf_size (init_connection i q t bs bi it) = bs" "outbuf_inc (init_connection i q t bs bi it) = bi"
  "os (init_connection i q t bs bi it) = q" "header_out (init_connection i q t bs bi it) = Map.empty"
  "map_iter (init_connection i q t bs bi it) = it" "status_code (init_connection i q t bs bi it) = OK"
  "status_string (init_connection i q t bs bi it) = ''OK''" "ins (init_connection i q t bs bi it) = i"
  by (simp_all add: init_connection_def status_def)

text \<open>The value of a header with a semicolon between its parts.\<close>

function process_header_value :: "string \<Rightarrow> string list" where
  "process_header_value valstr =
     (case find_char (CHR '';'') valstr of
        Some pos \<Rightarrow> trim_copy (take pos valstr) # process_header_value (drop (pos + 1) valstr)
      | None \<Rightarrow> [trim_copy valstr])"
  by pat_completeness auto
termination
  by (relation "measure length") (auto dest: find_char_SomeD)

declare process_header_value.simps [simp del]

lemma process_header_value_nonempty: "process_header_value v \<noteq> []"
  by (subst process_header_value.simps) (simp split: option.split)

lemma cleanup_loop_all: "cleanup_loop rm us b \<longleftrightarrow> b \<and> (\<forall>u \<in> set us. rm (tmpname u))"
  by (induction us arbitrary: b) auto
end
