(* ===== verification/ConnOut.thy ===== *)
theory ConnOut
  imports Connection
begin

text \<open>
  The operations of \<open>lib/Connection.cpp\<close> that write to the client: the header, plain, buffered
  and chunked bodies, files and byte ranges, and the end of a response. A buffer argument is
  its list of bytes, so that the count \<open>n\<close> that goes with it is the length of the list. The
  stream the bytes go to is the component \<open>os\<close> of the connection; each insertion is
  followed by the test of the stream that the code makes, which throws when it has failed.
\<close>

section \<open>Single writes\<close>

definition os_check :: "(connection, unit) act" where
  "os_check = swhen (\<lambda>c. badbit (os c)) (sthrow (InputFailure OUTPUT_WRITE_FAIL))"

definition os_put :: "string \<Rightarrow> (connection, unit) act" where
  "os_put s = sseq [smod (\<lambda>c. c\<lparr>os := os_write s (os c)\<rparr>), os_check]"

definition os_sync :: "(connection, unit) act" where
  "os_sync = sseq [smod (\<lambda>c. c\<lparr>os := os_flush (os c)\<rparr>), os_check]"

definition cache_write :: "string \<Rightarrow> (connection, unit) act" where
  "cache_write s = smod (\<lambda>c. c\<lparr>cachefile := map_option (\<lambda>x. x @ s) (cachefile c)\<rparr>)"

definition outbuf_nbytes :: "connection \<Rightarrow> nat" where
  "outbuf_nbytes c = (case outbuf c of None \<Rightarrow> 0 | Some b \<Rightarrow> length b)"

definition outbuf_bytes :: "connection \<Rightarrow> string" where
  "outbuf_bytes c = (case outbuf c of None \<Rightarrow> [] | Some b \<Rightarrow> b)"

definition outbuf_clear :: "(connection, unit) act" where
  "outbuf_clear = smod (\<lambda>c. c\<lparr>outbuf := map_option (\<lambda>_. []) (outbuf c)\<rparr>)"

section \<open>The header\<close>

definition status_line :: "connection \<Rightarrow> string" where
  "status_line c = ''HTTP/1.1 '' @ dec_string (status_num (status_code c)) @ '' '' @ status_string c @ CRLF"

definition header_line :: "string \<times> string \<Rightarrow> string" where
  "header_line h = fst h @ '': '' @ snd h @ CRLF"

definition send_header :: "nat \<Rightarrow> (connection, unit) act" where
  "send_header n = sseq
     [swhen header_sent (sthrow (CsError ''Header already sent!'')),
      swith status_line os_put,
      swith (\<lambda>c. map_iter c (header_out c)) (\<lambda>hs. sseq (map (\<lambda>h. os_put (header_line h)) hs)),
      sif chunked_transfer_out
        (os_put CRLF)
        (swith outbuf_nbytes (\<lambda>nb.
           if nb > 0 then os_put (''Content-Length: '' @ dec_string nb @ CRLF @ CRLF)
           else os_put (''Content-Length: '' @ dec_string n @ CRLF @ CRLF))),
      os_sync,
      smod (\<lambda>c. c\<lparr>header_sent := True\<rparr>)]"

section \<open>The output buffer\<close>

text \<open>
  \<open>memcpy\<close> behind the end of the allocated block would be undefined, and so is the division by
  a zero increment.
\<close>

definition outbuf_grow :: "nat \<Rightarrow> (connection, unit) act" where
  "outbuf_grow n = sseq
     [swhen (\<lambda>c. outbuf_inc c = 0) (sthrow Undefined),
      smod (\<lambda>c. c\<lparr>outbuf_size := outbuf_size c + ((n + outbuf_inc c - 1) div outbuf_inc c) * outbuf_inc c\<rparr>)]"

definition outbuf_memcpy :: "string \<Rightarrow> (connection, unit) act" where
  "outbuf_memcpy buf =
     sif (\<lambda>c. outbuf_nbytes c + length buf > outbuf_size c) (sthrow Undefined)
       (smod (\<lambda>c. c\<lparr>outbuf := Some (outbuf_bytes c @ buf)\<rparr>))"

definition terminated :: exn where
  "terminated = CsError ''Sending data already terminated!''"

definition add_to_outbuf :: "string \<Rightarrow> (connection, unit) act" where
  "add_to_outbuf buf = sseq
     [swhen finished (sthrow terminated),
      swhen (\<lambda>c. outbuf_nbytes c + length buf > outbuf_size c) (outbuf_grow (length buf)),
      outbuf_memcpy buf]"

section \<open>Sending data\<close>

definition sendData :: "string \<Rightarrow> (connection, unit) act" where
  "sendData buffer = sseq
     [swhen (\<lambda>c. \<not> header_sent c) (send_header 0),
      os_put buffer,
      cache_write buffer]"

text \<open>One chunk: its size in hexadecimal, its bytes, an end of line.\<close>

definition put_chunk :: "string \<Rightarrow> (connection, unit) act" where
  "put_chunk buffer = sseq
     [os_put (hex_string (length buffer) @ CRLF), os_put buffer, cache_write buffer,
      os_put CRLF, os_sync]"

text \<open>The messages that end in ``Header already sent, cannot add'' have a dash in UTF-8.\<close>

definition utf8_dash :: string where
  "utf8_dash = [CHR 0xE2, CHR 0x80, CHR 0x93]"

definition send :: "string \<Rightarrow> (connection, unit) act" where
  "send buffer = sseq
     [swhen finished (sthrow terminated),
      sif (\<lambda>c. outbuf c \<noteq> None)
        (add_to_outbuf buffer)
        (sif (\<lambda>c. \<not> header_sent c)
          (sif chunked_transfer_out
            (sseq [send_header 0, put_chunk buffer])
            (sseq [send_header (length buffer), os_put buffer, cache_write buffer, os_sync,
                   smod (\<lambda>c. c\<lparr>finished := True\<rparr>)]))
          (sif chunked_transfer_out
            (put_chunk buffer)
            (sthrow (CsError (''Header already sent '' @ utf8_dash @ '' cannot add data anymore!'')))))]"

definition no_length_possible :: exn where
  "no_length_possible =
     CsError (''Header already sent '' @ utf8_dash @ '' cannot add Content-Length header!'')"

definition sendAndFlush :: "string \<Rightarrow> (connection, unit) act" where
  "sendAndFlush buffer = sseq
     [swhen finished (sthrow terminated),
      swhen (\<lambda>c. outbuf c \<noteq> None) (add_to_outbuf buffer),
      sif chunked_transfer_out
        (sseq
          [swhen (\<lambda>c. \<not> header_sent c) (send_header 0),
           sif (\<lambda>c. outbuf c \<noteq> None)
             (swith outbuf_bytes (\<lambda>b. sseq
                [os_put (hex_string (length b) @ CRLF), os_put b, cache_write b, outbuf_clear]))
             (sseq [os_put (hex_string (length buffer) @ CRLF), os_put buffer, cache_write buffer]),
           os_put CRLF,
           os_sync])
        (sseq
          [sif (\<lambda>c. outbuf_nbytes c > 0)
             (sseq
               [sif header_sent (sthrow no_length_possible) (send_header 0),
                os_put buffer, cache_write buffer, outbuf_clear])
             (sseq
               [sif header_sent (sthrow no_length_possible) (send_header (length buffer)),
                os_put buffer, cache_write buffer]),
           os_sync,
           smod (\<lambda>c. c\<lparr>finished := True\<rparr>)])]"

section \<open>Files\<close>

text \<open>
  The file system is the argument \<open>fs\<close>: the bytes of each file that can be read. \<open>fread\<close> of
  \<open>k\<close> bytes gives what is left if that is less, and then sets the end-of-file flag.
  \<open>file_loop put bufsize fsize nn left eof\<close> is the read loop of \<open>sendFile\<close>; it returns whether
  \<open>feof\<close> holds behind it.
\<close>

function file_loop :: "(string \<Rightarrow> (connection, unit) act) \<Rightarrow> nat \<Rightarrow> nat \<Rightarrow> nat \<Rightarrow> string \<Rightarrow> bool
    \<Rightarrow> (connection, bool) act" where
  "file_loop put bufsize fsize nn left eof c =
     (if nn < fsize then
        (let k = (if fsize - nn > bufsize then bufsize else fsize - nn);
             buf = take k left;
             eof' = (eof \<or> length left < k)
         in if buf = [] then (Inr eof', c)
            else (case put buf c of
                    (Inl e, c') \<Rightarrow> (Inl e, c')
                  | (Inr _, c') \<Rightarrow> file_loop put bufsize fsize (nn + length buf) (drop k left) eof' c'))
      else (Inr eof, c))"
  by pat_completeness auto
termination
  by (relation "measure (\<lambda>(put, bs, fs, nn, left, eof, c). length left)") auto

declare file_loop.simps [simp del]

definition put_file_block :: "bool \<Rightarrow> string \<Rightarrow> (connection, unit) act" where
  "put_file_block chunked buf =
     (if chunked
      then sseq [os_put (hex_string (length buf) @ CRLF), os_put buf, os_put CRLF, os_sync]
      else sseq [os_put buf, os_sync])"

text \<open>The position to start at and the number of bytes, or the error that is thrown.\<close>

definition file_range :: "int \<Rightarrow> int \<Rightarrow> int \<Rightarrow> exn + (nat \<times> int)" where
  "file_range orig_fsize from to =
     (case (if from > 0 then
              (if from < orig_fsize then Inr (nat from, orig_fsize - from)
               else Inl (CsError ''Seek position beyond end of file!''))
            else Inr (0, orig_fsize)) of
        Inl e \<Rightarrow> Inl e
      | Inr (pos, fsize) \<Rightarrow>
          if to > 0 then
            (if to > orig_fsize then Inl (CsError ''Trying to read beyond end of file!'')
             else Inr (pos, fsize - (orig_fsize - to - 1)))
          else Inr (pos, fsize))"

definition sendFile :: "(string \<rightharpoonup> string) \<Rightarrow> string \<Rightarrow> nat \<Rightarrow> int \<Rightarrow> int \<Rightarrow> (connection, unit) act" where
  "sendFile fs path bufsize from to = sseq
     [swhen finished (sthrow terminated),
      (case fs path of
         None \<Rightarrow> sthrow (CsError (''File not readable:'' @ path))
       | Some data \<Rightarrow>
           (case file_range (int (length data)) from to of
              Inl e \<Rightarrow> sthrow e
            | Inr (pos, fsize) \<Rightarrow>
                sif (\<lambda>c. outbuf c \<noteq> None)
                  (sbind (file_loop add_to_outbuf bufsize (to_size_t fsize) 0 (drop pos data) False)
                     (\<lambda>_. sret ()))
                  (sseq
                    [swhen (\<lambda>c. \<not> header_sent c)
                       (sif chunked_transfer_out (send_header 0) (send_header (to_size_t fsize))),
                     swith chunked_transfer_out (\<lambda>ch.
                       sbind (file_loop (put_file_block ch) bufsize (to_size_t fsize) 0
                               (drop pos data) False)
                         (\<lambda>eof. if eof then smod (\<lambda>c. c\<lparr>finished := True\<rparr>) else sret ()))])))]"

section \<open>Flushing and finishing\<close>

definition flush :: "(connection, unit) act" where
  "flush = sseq
     [swhen (\<lambda>c. \<not> header_sent c)
        (sseq [swhen finished (sthrow terminated), send_header 0]),
      sif (\<lambda>c. outbuf_nbytes c > 0)
        (sseq
          [swhen finished (sthrow terminated),
           swith outbuf_bytes (\<lambda>b.
             sif chunked_transfer_out
               (sseq [os_put (hex_string (length b) @ CRLF), os_put b, cache_write b,
                      os_put CRLF, os_sync])
               (sseq [os_put b, cache_write b, os_sync, smod (\<lambda>c. c\<lparr>finished := True\<rparr>)])),
           outbuf_clear])
        (sseq
          [os_sync,
           swhen (\<lambda>c. \<not> chunked_transfer_out c) (smod (\<lambda>c. c\<lparr>finished := True\<rparr>))])]"

datatype commands = flush_data | endl

definition put_string :: "string \<Rightarrow> (connection, unit) act" where
  "put_string str = send str"

text \<open>\<open>endl\<close> is \<open>send("\r\n", 1)\<close>: one byte of the two is sent.\<close>

definition put_command :: "commands \<Rightarrow> (connection, unit) act" where
  "put_command cmd = (case cmd of flush_data \<Rightarrow> flush | endl \<Rightarrow> send (take 1 CRLF))"

definition finalize :: "(connection, unit) act" where
  "finalize = sseq
     [swhen (\<lambda>c. chunked_transfer_out c \<and> \<not> finished c)
        (sseq [os_put (''0'' @ CRLF @ CRLF), os_sync]),
      smod (\<lambda>c. c\<lparr>os := os_flush (os_write CRLF (os c))\<rparr>),
      smod (\<lambda>c. c\<lparr>finished := True\<rparr>)]"

text \<open>The destructor ends the response, whatever \<open>finalize\<close> throws, and frees the buffers.\<close>

definition connection_destroy :: "connection \<Rightarrow> connection" where
  "connection_destroy c =
     (snd (finalize c))\<lparr>content := None, outbuf := None, cachefile := None\<rparr>"

end
