(* ===== verification/ConnSend.thy ===== *)
theory ConnSend
  imports ConnOut
begin

text \<open>
  Properties of the writing operations of a connection (\<open>lib/Connection.cpp\<close>): what a client
  receives in plain, buffered and chunked mode and for file ranges on a stream that does not
  fail, and an invariant of all operations on a stream that may fail at any write.
\<close>

section \<open>Writing to a stream that does not fail\<close>

definition sound :: "connection \<Rightarrow> bool" where
  "sound c \<longleftrightarrow> os_reliable (os c)"

definition emit :: "string \<Rightarrow> connection \<Rightarrow> connection" where
  "emit s c = c\<lparr>os := os_write s (os c)\<rparr>"

definition cached :: "string \<Rightarrow> connection \<Rightarrow> connection" where
  "cached s c = c\<lparr>cachefile := map_option (\<lambda>x. x @ s) (cachefile c)\<rparr>"

lemma emit_simps [simp]:
  "header_sent (emit s c) = header_sent c" "chunked_transfer_out (emit s c) = chunked_transfer_out c"
  "finished (emit s c) = finished c" "outbuf (emit s c) = outbuf c"
  "outbuf_size (emit s c) = outbuf_size c" "outbuf_inc (emit s c) = outbuf_inc c"
  "outbuf_nbytes (emit s c) = outbuf_nbytes c" "outbuf_bytes (emit s c) = outbuf_bytes c"
  "header_out (emit s c) = header_out c" "map_iter (emit s c) = map_iter c"
  "status_line (emit s c) = status_line c" "cachefile (emit s c) = cachefile c"
  by (simp_all add: emit_def outbuf_nbytes_def outbuf_bytes_def status_line_def)

lemma emit_sound [simp]: "sound c \<Longrightarrow> sound (emit s c)"
  by (simp add: sound_def emit_def)

lemma emit_written [simp]: "sound c \<Longrightarrow> written (os (emit s c)) = written (os c) @ s"
  by (simp add: sound_def emit_def)

lemma emit_emit [simp]: "sound c \<Longrightarrow> emit t (emit s c) = emit (s @ t) c"
  by (simp add: emit_def sound_def os_reliable_def os_write_def)

lemma emit_Nil [simp]: "sound c \<Longrightarrow> emit [] c = c"
  by (simp add: emit_def sound_def os_reliable_def os_write_def)

lemma cached_simps [simp]:
  "header_sent (cached s c) = header_sent c" "chunked_transfer_out (cached s c) = chunked_transfer_out c"
  "finished (cached s c) = finished c" "outbuf (cached s c) = outbuf c"
  "outbuf_nbytes (cached s c) = outbuf_nbytes c" "outbuf_bytes (cached s c) = outbuf_bytes c"
  "os (cached s c) = os c" "sound (cached s c) = sound c"
  by (simp_all add: cached_def outbuf_nbytes_def outbuf_bytes_def sound_def)

lemma emit_cached [simp]: "emit t (cached s c) = cached s (emit t c)"
  by (simp add: emit_def cached_def)

lemma os_put_ok [simp]: "sound c \<Longrightarrow> os_put s c = (Inr (), emit s c)"
  by (simp add: os_put_def os_check_def act_defs emit_def sound_def os_reliable_def os_write_def)

lemma os_sync_ok [simp]: "sound c \<Longrightarrow> os_sync c = (Inr (), c)"
  by (simp add: os_sync_def os_check_def act_defs sound_def) (simp add: os_reliable_def)

lemma cache_write_ok [simp]: "cache_write s c = (Inr (), cached s c)"
  by (simp add: cache_write_def act_defs cached_def)

definition header_bytes :: "nat \<Rightarrow> connection \<Rightarrow> string" where
  "header_bytes n c =
     status_line c @ concat (map header_line (map_iter c (header_out c))) @
     (if chunked_transfer_out c then CRLF
      else ''Content-Length: '' @ dec_string (if outbuf_nbytes c > 0 then outbuf_nbytes c else n)
        @ CRLF @ CRLF)"

lemma put_lines: "sound c \<Longrightarrow> sseq (map (\<lambda>h. os_put (header_line h)) hs) c
    = (Inr (), emit (concat (map header_line hs)) c)"
  by (induction hs arbitrary: c) auto

lemma send_header_ok:
  assumes "sound c" and "\<not> header_sent c"
  shows "send_header n c = (Inr (), (emit (header_bytes n c) c)\<lparr>header_sent := True\<rparr>)"
  using assms by (simp add: send_header_def act_defs put_lines header_bytes_def)

lemma put_chunk_ok:
  "sound c \<Longrightarrow> put_chunk b c = (Inr (), cached b (emit (chunk_enc b) c))"
  by (simp add: put_chunk_def chunk_enc_def)


lemma sent_simps [simp]:
  "sound (c\<lparr>header_sent := b\<rparr>) = sound c" "sound (c\<lparr>finished := b\<rparr>) = sound c"
  "sound (c\<lparr>outbuf := ob\<rparr>) = sound c" "sound (c\<lparr>outbuf_size := k\<rparr>) = sound c"
  by (simp_all add: sound_def)

lemma finalize_ok:
  assumes "sound c"
  shows "finalize c = (Inr (), (emit ((if chunked_transfer_out c \<and> \<not> finished c
      then last_chunk @ CRLF else []) @ CRLF) c)\<lparr>finished := True\<rparr>)"
proof -
  have "os_flush (os_write s (os d)) = os_write s (os d)" if "sound d" for s d
    using that by (simp add: sound_def)
  with assms show ?thesis
    by (simp add: finalize_def act_defs last_chunk_def emit_def [symmetric])
qed

section \<open>Chunked responses\<close>

lemma send_chunk_ok:
  assumes "sound c" and "outbuf c = None" and "chunked_transfer_out c" and "\<not> finished c"
  shows "send b c = (Inr (), cached b (emit (chunk_enc b)
     (if header_sent c then c else (emit (header_bytes 0 c) c)\<lparr>header_sent := True\<rparr>)))"
  using assms by (simp add: send_def act_defs send_header_ok put_chunk_ok)

lemma send_chunks_ok:
  "sound c \<Longrightarrow> outbuf c = None \<Longrightarrow> chunked_transfer_out c \<Longrightarrow> \<not> finished c \<Longrightarrow> header_sent c \<Longrightarrow>
   \<exists>c'. sseq (map send ds) c = (Inr (), c') \<and> sound c' \<and> \<not> finished c' \<and> chunked_transfer_out c' \<and>
     written (os c') = written (os c) @ chunks_enc ds"
proof (induction ds arbitrary: c)
  case (Cons d ds)
  have s: "send d c = (Inr (), cached d (emit (chunk_enc d) c))"
    using Cons.prems send_chunk_ok [of c d] by simp
  have "\<exists>c'. sseq (map send ds) (cached d (emit (chunk_enc d) c)) = (Inr (), c') \<and> sound c' \<and>
     \<not> finished c' \<and> chunked_transfer_out c' \<and>
     written (os c') = written (os (cached d (emit (chunk_enc d) c))) @ chunks_enc ds"
    using Cons.prems by (intro Cons.IH) auto
  with Cons.prems s show ?case by (auto simp: chunk_enc_def)
qed auto


lemma chunked_sends:
  assumes "sound c" and "outbuf c = None" and "chunked_transfer_out c" and "\<not> finished c"
    and "\<not> header_sent c" and "ds \<noteq> []"
  shows "\<exists>c'. sseq (map send ds) c = (Inr (), c') \<and>
    written (os (connection_destroy c')) =
      written (os c) @ header_bytes 0 c @ chunks_enc ds @ last_chunk @ CRLF @ CRLF"
proof -
  obtain d es where ds: "ds = d # es" using assms(6) by (cases ds) auto
  let ?c1 = "cached d (emit (chunk_enc d) ((emit (header_bytes 0 c) c)\<lparr>header_sent := True\<rparr>))"
  have "send d c = (Inr (), ?c1)" using assms send_chunk_ok [of c d] by simp
  moreover obtain c' where "sseq (map send es) ?c1 = (Inr (), c')" "sound c'" "\<not> finished c'"
    "chunked_transfer_out c'" "written (os c') = written (os ?c1) @ chunks_enc es"
    using send_chunks_ok [of ?c1 es] assms by auto
  moreover have "written (os ((emit (header_bytes 0 c) c)\<lparr>header_sent := True\<rparr>)) = written (os c) @ header_bytes 0 c"
    using assms by simp
  ultimately show ?thesis
    using assms ds by (intro exI [of _ c']) (simp add: connection_destroy_def finalize_ok chunk_enc_def)
qed

lemma readAll_chunks:
  assumes "[] \<notin> set ds" and "ds \<noteq> []" and "length (concat ds) + 1 < 2 ^ 63"
  shows "readAll (mk_chunk_reader (mk_istream (chunks_enc ds @ last_chunk @ r)) 0) =
     Inr (length (concat ds), Some (concat ds), mk_chunk_reader (mk_istream r) 0)"
  using readAll_loop_enc [of "mk_istream (chunks_enc ds @ last_chunk @ r)" ds r 0 0 None] assms
  by (simp add: readAll_def mk_chunk_reader_def mk_istream_def is_good_def)

lemma chunk_enc_empty: "chunks_enc ([] # es) = last_chunk @ CRLF @ chunks_enc es"
  by (simp add: last_chunk_def hex_string_0)

section \<open>The output buffer\<close>

definition buffering :: "string \<Rightarrow> connection \<Rightarrow> bool" where
  "buffering b c \<longleftrightarrow> outbuf c = Some b \<and> length b \<le> outbuf_size c \<and> 0 < outbuf_inc c"

lemma round_up: "0 < inc \<Longrightarrow> n \<le> ((n + inc - 1) div inc) * (inc :: nat)"
proof -
  assume i: "0 < inc"
  have "n + inc - 1 = ((n + inc - 1) div inc) * inc + (n + inc - 1) mod inc" by simp
  moreover have "(n + inc - 1) mod inc < inc" using i by simp
  ultimately show ?thesis using i by linarith
qed

lemma outbuf_nbytes_Some [simp]: "outbuf c = Some b \<Longrightarrow> outbuf_nbytes c = length b"
  "outbuf c = Some b \<Longrightarrow> outbuf_bytes c = b"
  by (simp_all add: outbuf_nbytes_def outbuf_bytes_def)

lemma add_to_outbuf_ok:
  assumes "buffering b c" and "\<not> finished c"
  shows "\<exists>k. add_to_outbuf x c = (Inr (), c\<lparr>outbuf_size := k, outbuf := Some (b @ x)\<rparr>) \<and>
     length (b @ x) \<le> k"
proof (cases "length b + length x > outbuf_size c")
  case True
  let ?k = "outbuf_size c + ((length x + outbuf_inc c - 1) div outbuf_inc c) * outbuf_inc c"
  have "length (b @ x) \<le> ?k"
    using assms round_up [of "outbuf_inc c" "length x"] by (simp add: buffering_def)
  with True assms have "add_to_outbuf x c = (Inr (), c\<lparr>outbuf_size := ?k, outbuf := Some (b @ x)\<rparr>)"
    by (simp add: add_to_outbuf_def outbuf_grow_def outbuf_memcpy_def act_defs buffering_def)
  with \<open>length (b @ x) \<le> ?k\<close> show ?thesis by blast
next
  case False
  with assms have "add_to_outbuf x c = (Inr (), c\<lparr>outbuf_size := outbuf_size c, outbuf := Some (b @ x)\<rparr>)"
    by (simp add: add_to_outbuf_def outbuf_memcpy_def act_defs buffering_def)
  with False show ?thesis by (intro exI [of _ "outbuf_size c"]) simp
qed

lemma send_buffered:
  assumes "buffering b c" and "\<not> finished c"
  shows "\<exists>k. send x c = (Inr (), c\<lparr>outbuf_size := k, outbuf := Some (b @ x)\<rparr>) \<and> length (b @ x) \<le> k"
proof -
  obtain k where "add_to_outbuf x c = (Inr (), c\<lparr>outbuf_size := k, outbuf := Some (b @ x)\<rparr>)"
    "length (b @ x) \<le> k"
    using add_to_outbuf_ok [OF assms] by blast
  moreover from this assms have "send x c = (Inr (), c\<lparr>outbuf_size := k, outbuf := Some (b @ x)\<rparr>)"
    by (simp add: send_def act_defs buffering_def)
  ultimately show ?thesis by blast
qed

lemma sends_buffered:
  "buffering b c \<Longrightarrow> \<not> finished c \<Longrightarrow>
   \<exists>k. sseq (map send ds) c = (Inr (), c\<lparr>outbuf_size := k, outbuf := Some (b @ concat ds)\<rparr>) \<and>
     length (b @ concat ds) \<le> k"
proof (induction ds arbitrary: b c)
  case Nil
  then have "c = c\<lparr>outbuf_size := outbuf_size c, outbuf := Some b\<rparr>" by (simp add: buffering_def)
  with Nil show ?case by (intro exI [of _ "outbuf_size c"]) (simp add: buffering_def)
next
  case (Cons d ds)
  obtain k where k: "send d c = (Inr (), c\<lparr>outbuf_size := k, outbuf := Some (b @ d)\<rparr>)" "length (b @ d) \<le> k"
    using send_buffered [OF Cons.prems] by blast
  have "buffering (b @ d) (c\<lparr>outbuf_size := k, outbuf := Some (b @ d)\<rparr>)"
    "\<not> finished (c\<lparr>outbuf_size := k, outbuf := Some (b @ d)\<rparr>)"
    using k Cons.prems by (simp_all add: buffering_def)
  from Cons.IH [OF this] k show ?case by auto
qed

lemma flush_plain_ok:
  assumes "sound c" and "outbuf c = Some b" and "\<not> chunked_transfer_out c" and "\<not> header_sent c"
    and "\<not> finished c"
  shows "\<exists>c'. flush c = (Inr (), c') \<and> finished c' \<and> header_sent c' \<and> sound c' \<and>
    written (os c') = written (os c) @ header_bytes 0 c @ b"
  using assms
  by (cases "b = []") (simp_all add: flush_def act_defs send_header_ok outbuf_clear_def)

section \<open>Files\<close>

lemma put_file_block_ok: "sound c \<Longrightarrow>
   put_file_block ch b c = (Inr (), emit (if ch then chunk_enc b else b) c)"
  by (simp add: put_file_block_def chunk_enc_def)

lemma file_loop_plain:
  "sound c \<Longrightarrow> 0 < bufsize \<Longrightarrow>
   file_loop (put_file_block False) bufsize fsize nn left eof c =
     (Inr (eof \<or> length left < fsize - nn), emit (take (fsize - nn) left) c)"
proof (induction "put_file_block False" bufsize fsize nn left eof c rule: file_loop.induct)
  case (1 bufsize fsize nn left eof c)
  define k where "k = (if fsize - nn > bufsize then bufsize else fsize - nn)"
  show ?case
  proof (cases "nn < fsize \<and> take k left \<noteq> []")
    case False
    with 1(2,3) show ?thesis
      by (auto simp: file_loop.simps [of _ bufsize] k_def split: if_splits)
  next
    case True
    have p: "put_file_block False (take k left) c = (Inr (), emit (take k left) c)"
      using 1(2) by (simp add: put_file_block_ok)
    have "file_loop (put_file_block False) bufsize fsize nn left eof c =
      file_loop (put_file_block False) bufsize fsize (nn + length (take k left)) (drop k left)
        (eof \<or> length left < k) (emit (take k left) c)"
      using True p by (simp add: file_loop.simps [of _ bufsize fsize nn] k_def Let_def)
    also have "\<dots> = (Inr ((eof \<or> length left < k) \<or> length (drop k left) < fsize - (nn + length (take k left))),
        emit (take (fsize - (nn + length (take k left))) (drop k left)) (emit (take k left) c))"
      using True 1(2,3) p by (intro 1(1) [of k "take k left"]) (simp_all add: k_def)
    also have "\<dots> = (Inr (eof \<or> length left < fsize - nn), emit (take (fsize - nn) left) c)"
    proof -
      have "k \<le> fsize - nn" by (simp add: k_def)
      moreover from this have "k + (fsize - (nn + k)) = fsize - nn" using True by simp
      ultimately have "take k left @ take (fsize - (nn + length (take k left))) (drop k left) = take (fsize - nn) left"
        by (cases "k \<le> length left") (auto simp: min_def take_add [symmetric])
      moreover have "k \<le> fsize - nn" by (simp add: k_def)
      then have "((eof \<or> length left < k) \<or> length (drop k left) < fsize - (nn + length (take k left)))
        \<longleftrightarrow> (eof \<or> length left < fsize - nn)"
        using True by auto
      ultimately show ?thesis using 1(2) by simp
    qed
    finally show ?thesis .
  qed
qed

section \<open>The invariant of the writing operations\<close>

definition buf_ok :: "connection \<Rightarrow> bool" where
  "buf_ok c \<longleftrightarrow> (finished c \<longrightarrow> header_sent c) \<and> outbuf_nbytes c \<le> outbuf_size c \<and> 0 < outbuf_inc c"

definition conn_inv :: "string \<Rightarrow> connection \<Rightarrow> bool" where
  "conn_inv w0 c \<longleftrightarrow> buf_ok c \<and> (header_sent c \<or> badbit (os c) \<or> written (os c) = w0)"

definition live :: "connection \<Rightarrow> bool" where
  "live c \<longleftrightarrow> buf_ok c \<and> header_sent c"

definition safe_throw :: "string \<Rightarrow> exn \<Rightarrow> connection \<Rightarrow> bool" where
  "safe_throw w0 e c \<longleftrightarrow> e \<noteq> Undefined \<and> conn_inv w0 c"

lemma live_inv [simp]: "live c \<Longrightarrow> conn_inv w0 c"
  by (simp add: live_def conn_inv_def)

lemma inv_live: "conn_inv w0 c \<Longrightarrow> header_sent c \<Longrightarrow> live c"
  by (simp add: live_def conn_inv_def)

lemma put_buf_ok: "(\<And>c. P c \<Longrightarrow> buf_ok c) \<Longrightarrow> triple P (os_put s) (\<lambda>_. buf_ok) (safe_throw w0)"
  by (auto simp: triple_def os_put_def os_check_def act_defs safe_throw_def conn_inv_def buf_ok_def
      outbuf_nbytes_def)

lemma sync_buf_ok: "(\<And>c. P c \<Longrightarrow> buf_ok c) \<Longrightarrow> triple P os_sync (\<lambda>_. buf_ok) (safe_throw w0)"
  by (auto simp: triple_def os_sync_def os_check_def act_defs safe_throw_def conn_inv_def buf_ok_def
      outbuf_nbytes_def)

lemma put_live: "(\<And>c. P c \<Longrightarrow> live c) \<Longrightarrow> triple P (os_put s) (\<lambda>_. live) (safe_throw w0)"
  by (auto simp: triple_def os_put_def os_check_def act_defs safe_throw_def conn_inv_def buf_ok_def
      live_def outbuf_nbytes_def)

lemma sync_live: "(\<And>c. P c \<Longrightarrow> live c) \<Longrightarrow> triple P os_sync (\<lambda>_. live) (safe_throw w0)"
  by (auto simp: triple_def os_sync_def os_check_def act_defs safe_throw_def conn_inv_def buf_ok_def
      live_def outbuf_nbytes_def)

lemma cache_live: "(\<And>c. P c \<Longrightarrow> live c) \<Longrightarrow> triple P (cache_write s) (\<lambda>_. live) (safe_throw w0)"
  by (auto simp: triple_def cache_write_def act_defs buf_ok_def live_def outbuf_nbytes_def)

lemma clear_live: "(\<And>c. P c \<Longrightarrow> live c) \<Longrightarrow> triple P outbuf_clear (\<lambda>_. live) (safe_throw w0)"
  by (auto simp: triple_def outbuf_clear_def act_defs buf_ok_def live_def outbuf_nbytes_def
      split: option.splits)

lemma finished_live:
  "(\<And>c. P c \<Longrightarrow> live c) \<Longrightarrow> triple P (smod (\<lambda>c. c\<lparr>finished := True\<rparr>)) (\<lambda>_. live) (safe_throw w0)"
  by (auto simp: triple_def act_defs buf_ok_def live_def outbuf_nbytes_def)

lemma throw_safe:
  "e \<noteq> Undefined \<Longrightarrow> (\<And>c. P c \<Longrightarrow> conn_inv w0 c) \<Longrightarrow> triple P (sthrow e) Q (safe_throw w0)"
  by (simp add: triple_def act_defs safe_throw_def)

lemma terminated_def' [simp]: "terminated \<noteq> Undefined" "no_length_possible \<noteq> Undefined"
  by (simp_all add: terminated_def no_length_possible_def)

lemma send_header_live:
  assumes "\<And>c. P c \<Longrightarrow> conn_inv w0 c"
  shows "triple P (send_header n) (\<lambda>_. live) (safe_throw w0)"
proof -
  have hs: "triple buf_ok (sseq (map (\<lambda>h. os_put (header_line h)) hs)) (\<lambda>_. buf_ok) (safe_throw w0)" for hs
    by (rule triple_seq_all) (auto intro: put_buf_ok)
  show ?thesis
    unfolding send_header_def
    apply (rule triple_Cons [where R = buf_ok])
     apply (rule triple_when)
      apply (rule throw_safe, simp, simp add: assms)
     apply (use assms in \<open>simp add: conn_inv_def\<close>)
    apply (rule triple_Cons [where R = buf_ok], rule triple_with, rule put_buf_ok, simp)
    apply (rule triple_Cons [where R = buf_ok], rule triple_with, rule triple_pre [OF hs], simp)
    apply (rule triple_Cons [where R = buf_ok], rule triple_if, rule put_buf_ok, simp)
     apply (rule triple_with, simp split: if_split, intro conjI impI; rule put_buf_ok, simp)
    apply (rule triple_Cons [where R = buf_ok], rule sync_buf_ok, simp)
    apply (rule triple_Cons [where R = live], rule triple_mod)
     apply (simp add: live_def buf_ok_def outbuf_nbytes_def)
    apply (rule triple_Nil, simp)
    done
qed

lemma add_to_outbuf_inv:
  assumes "\<And>c. P c \<Longrightarrow> conn_inv w0 c"
  shows "triple P (add_to_outbuf b) (\<lambda>_. conn_inv w0) (safe_throw w0)"
proof (rule tripleI)
  fix c e c' assume "P c" "add_to_outbuf b c = (Inl e, c')"
  then show "safe_throw w0 e c'"
    using assms [of c] round_up [of "outbuf_inc c" "length b"]
    by (auto simp: add_to_outbuf_def outbuf_grow_def outbuf_memcpy_def act_defs safe_throw_def
        conn_inv_def buf_ok_def outbuf_nbytes_def split: if_splits option.splits)
next
  fix c x c' assume "P c" "add_to_outbuf b c = (Inr x, c')"
  then show "conn_inv w0 c'"
    using assms [of c] round_up [of "outbuf_inc c" "length b"]
    by (auto simp: add_to_outbuf_def outbuf_grow_def outbuf_memcpy_def act_defs
        conn_inv_def buf_ok_def outbuf_nbytes_def outbuf_bytes_def split: if_splits option.splits)
qed

lemmas live_steps = put_live sync_live cache_live clear_live finished_live

lemma put_chunk_live: "(\<And>c. P c \<Longrightarrow> live c) \<Longrightarrow> triple P (put_chunk b) (\<lambda>_. live) (safe_throw w0)"
  unfolding put_chunk_def by (rule triple_Cons triple_Nil live_steps | simp)+

lemma sendData_inv: "triple (conn_inv w0) (sendData b) (\<lambda>_. conn_inv w0) (safe_throw w0)"
  unfolding sendData_def
  by (rule triple_Cons triple_when send_header_live triple_Nil live_steps | simp | auto intro: inv_live)+

lemma send_inv: "triple (conn_inv w0) (send b) (\<lambda>_. conn_inv w0) (safe_throw w0)"
proof -
  have 1: "triple (\<lambda>c. P c \<and> conn_inv w0 c) (sseq [send_header 0, put_chunk b])
     (\<lambda>_. conn_inv w0) (safe_throw w0)" for P
    by (rule triple_Cons send_header_live put_chunk_live triple_Nil | simp)+
  have 2: "triple (\<lambda>c. P c \<and> conn_inv w0 c) (sseq [send_header (length b), os_put b, cache_write b, os_sync,
      smod (\<lambda>c. c\<lparr>finished := True\<rparr>)]) (\<lambda>_. conn_inv w0) (safe_throw w0)" for P
    by (rule triple_Cons send_header_live live_steps triple_Nil | simp)+
  show ?thesis
    unfolding send_def
    apply (rule triple_Cons [where R = "conn_inv w0"])
     apply (rule triple_when, rule throw_safe, simp, simp, simp)
    apply (rule triple_Cons [where R = "conn_inv w0"])
     apply (rule triple_if, rule add_to_outbuf_inv, simp)
     apply (rule triple_if, rule triple_if)
       apply (rule triple_pre [OF 1], simp)
      apply (rule triple_pre [OF 2], simp)
     apply (rule triple_if)
      apply (rule triple_weaken [OF put_chunk_live [where P = live]]; auto intro: inv_live)
     apply (rule throw_safe; simp)
    apply (rule triple_Nil, simp)
    done
qed

lemma flush_inv: "triple (conn_inv w0) flush (\<lambda>_. conn_inv w0) (safe_throw w0)"
  unfolding flush_def
  apply (rule triple_Cons [where R = live])
   apply (rule triple_when)
    apply (rule triple_Cons [where R = "conn_inv w0"], rule triple_when, rule throw_safe, simp, simp, simp)
    apply (rule triple_Cons [where R = live], rule send_header_live, simp, rule triple_Nil, simp)
   apply (auto intro: inv_live)
  apply (rule triple_Cons [where R = live])
   apply (rule triple_if)
    apply (rule triple_Cons [where R = live], rule triple_when, rule throw_safe, simp, simp, simp)
    apply (rule triple_Cons [where R = live], rule triple_with, rule triple_if)
      apply ((rule triple_Cons live_steps triple_Nil | simp)+)[2]
    apply (rule triple_Cons triple_Nil live_steps | simp)+
   apply (rule triple_when, rule live_steps, simp, simp)
   apply (rule triple_Nil, simp)+
  done

lemma sendAndFlush_inv: "triple (conn_inv w0) (sendAndFlush b) (\<lambda>_. conn_inv w0) (safe_throw w0)"
proof -
  have 1: "triple (\<lambda>c. P c \<and> conn_inv w0 c) (sseq
      [sif header_sent (sthrow no_length_possible) (send_header n), os_put b, cache_write b])
      (\<lambda>_. live) (safe_throw w0)" for P n
    by (rule triple_Cons triple_if send_header_live throw_safe live_steps triple_Nil | simp)+
  have 2: "triple (\<lambda>c. P c \<and> conn_inv w0 c) (sseq
      [sif header_sent (sthrow no_length_possible) (send_header n), os_put b, cache_write b, outbuf_clear])
      (\<lambda>_. live) (safe_throw w0)" for P n
    by (rule triple_Cons triple_if send_header_live throw_safe live_steps triple_Nil | simp)+
  have 3: "triple live (sseq [os_put h, os_put x, cache_write x, outbuf_clear]) (\<lambda>_. live) (safe_throw w0)"
    and three: "triple live (sseq [os_put h, os_put x, cache_write x]) (\<lambda>_. live) (safe_throw w0)" for h x
    by (rule triple_Cons live_steps triple_Nil | simp)+
  have 4: "triple live (sseq [os_put CRLF, os_sync]) (\<lambda>_. conn_inv w0) (safe_throw w0)"
    and 5: "triple live (sseq [os_sync, smod (\<lambda>c. c\<lparr>finished := True\<rparr>)]) (\<lambda>_. conn_inv w0) (safe_throw w0)"
    by (rule triple_Cons live_steps triple_Nil | simp)+
  show ?thesis
    unfolding sendAndFlush_def
    apply (rule triple_Cons [where R = "conn_inv w0"])
     apply (rule triple_when, rule throw_safe, simp, simp, simp)
    apply (rule triple_Cons [where R = "conn_inv w0"])
     apply (rule triple_when, rule add_to_outbuf_inv, simp, simp)
    apply (rule triple_Cons [where R = "conn_inv w0"])
     apply (rule triple_if)
      apply (rule triple_Cons [where R = live], rule triple_when, rule send_header_live, simp, auto intro: inv_live)[1]
      apply (rule triple_Cons [where R = live], rule triple_if, rule triple_with)
        apply (rule triple_pre [OF 3], simp)
       apply (rule triple_pre [OF three], simp)
      apply (rule triple_pre [OF 4], simp)
     apply (rule triple_Cons [where R = live], rule triple_if)
       apply (rule triple_pre [OF 2], simp)
      apply (rule triple_pre [OF 1], simp)
     apply (rule triple_pre [OF 5], simp)
    apply (rule triple_Nil, simp)
    done
qed

lemma file_loop_triple:
  assumes "\<And>b. triple I (put b) (\<lambda>_. I) E"
  shows "triple I (file_loop put bufsize fsize nn left eof) (\<lambda>_. I) E"
proof -
  have "I c \<Longrightarrow> (case file_loop put bufsize fsize nn left eof c of
      (Inl e, c') \<Rightarrow> E e c' | (Inr x, c') \<Rightarrow> I c')" for c
    using assms
  proof (induction put bufsize fsize nn left eof c rule: file_loop.induct)
    case (1 put bufsize fsize nn left eof c)
    define k where "k = (if fsize - nn > bufsize then bufsize else fsize - nn)"
    show ?case
    proof (cases "nn < fsize \<and> take k left \<noteq> []")
      case False
      with 1(2) show ?thesis by (auto simp: file_loop.simps [of put bufsize] k_def Let_def)
    next
      case True
      show ?thesis
      proof (cases "put (take k left) c")
        case (Pair r c1)
        show ?thesis
        proof (cases r)
          case (Inl e)
          with Pair True triple_throwD [OF 1(3) 1(2)] show ?thesis
            by (simp add: file_loop.simps [of put bufsize fsize nn] k_def Let_def)
        next
          case (Inr u)
          with Pair have "I c1" using triple_returnD [OF 1(3) 1(2)] by simp
          with 1(1) [of k "take k left" "eof \<or> length left < k" r c1 u] Inr Pair True 1(3)
          show ?thesis by (simp add: file_loop.simps [of put bufsize fsize nn] k_def Let_def)
        qed
      qed
    qed
  qed
  then show ?thesis by (auto simp: triple_def)
qed

lemma file_range_safe: "file_range n from to = Inl e \<Longrightarrow> e \<noteq> Undefined"
  by (auto simp: file_range_def split: if_splits sum.splits)

lemma sendFile_inv:
  "triple (conn_inv w0) (sendFile fs path bufsize from to) (\<lambda>_. conn_inv w0) (safe_throw w0)"
proof -
  have put: "triple live (put_file_block ch b) (\<lambda>_. live) (safe_throw w0)" for ch b
  proof (cases ch)
    case True
    then show ?thesis unfolding put_file_block_def
      by simp (rule triple_Cons live_steps triple_Nil | simp)+
  next
    case False
    then show ?thesis unfolding put_file_block_def
      by simp (rule triple_Cons live_steps triple_Nil | simp)+
  qed
  have buffered: "triple (conn_inv w0) (sbind (file_loop add_to_outbuf bufsize k 0 d False) (\<lambda>_. sret ()))
      (\<lambda>_. conn_inv w0) (safe_throw w0)" for k d
    by (rule triple_bind [where R = "\<lambda>_. conn_inv w0"], rule file_loop_triple, rule add_to_outbuf_inv)
      (auto intro: triple_ret)
  have direct: "triple live (swith chunked_transfer_out (\<lambda>ch.
      sbind (file_loop (put_file_block ch) bufsize k 0 d False)
        (\<lambda>eof. if eof then smod (\<lambda>c. c\<lparr>finished := True\<rparr>) else sret ())))
      (\<lambda>_. conn_inv w0) (safe_throw w0)" for k d
    apply (rule triple_with, rule triple_bind [where R = "\<lambda>_. live"])
     apply (rule triple_pre [OF file_loop_triple [OF put]], simp)
    apply (simp split: if_split, intro conjI impI)
     apply (rule triple_weaken [OF finished_live [where P = live]]; simp)
    apply (rule triple_ret, simp)
    done
  have body: "triple (conn_inv w0) (sif (\<lambda>c. outbuf c \<noteq> None)
      (sbind (file_loop add_to_outbuf bufsize k 0 d False) (\<lambda>_. sret ()))
      (sseq [swhen (\<lambda>c. \<not> header_sent c) (sif chunked_transfer_out (send_header 0) (send_header k)),
         swith chunked_transfer_out (\<lambda>ch.
           sbind (file_loop (put_file_block ch) bufsize k 0 d False)
             (\<lambda>eof. if eof then smod (\<lambda>c. c\<lparr>finished := True\<rparr>) else sret ()))]))
      (\<lambda>_. conn_inv w0) (safe_throw w0)" for k d
    apply (rule triple_if, rule triple_pre [OF buffered], simp)
    apply (rule triple_Cons [where R = live], rule triple_when, rule triple_if)
       apply ((rule send_header_live, simp)+)[2]
     apply (auto intro: inv_live)[1]
    apply (rule triple_Cons, rule direct, rule triple_Nil, simp)
    done
  show ?thesis
    unfolding sendFile_def
    apply (rule triple_Cons [where R = "conn_inv w0"])
     apply (rule triple_when, rule throw_safe, simp, simp, simp)
    apply (rule triple_Cons [where R = "conn_inv w0"], cases "fs path")
      apply (simp, rule throw_safe, simp, simp)
     subgoal for data
       apply (cases "file_range (int (length data)) from to")
        apply (simp, rule throw_safe, erule file_range_safe, simp)
       subgoal for p by (cases p) (simp add: body del: not_None_eq)
       done
    apply (rule triple_Nil, simp)
    done
qed

datatype conn_op =
    OpStatus status_codes string | OpKeepAlive int | OpHeader string string | OpCookie cookie
  | OpCors "string option" | OpSetBuffer | OpSetChunked | OpOpenCache bool | OpCloseCache
  | OpSendData string | OpSend string | OpSendAndFlush string | OpSendFile string nat int int
  | OpFlush | OpCommand commands

fun conn_step :: "(string \<rightharpoonup> string) \<Rightarrow> conn_op \<Rightarrow> (connection, unit) act" where
  "conn_step fs (OpStatus code str) = smod (status code str)"
| "conn_step fs (OpKeepAlive t) = smod (\<lambda>c. snd (setupKeepAlive t c))"
| "conn_step fs (OpHeader n v) = header_set n v"
| "conn_step fs (OpCookie k) = cookies_set k"
| "conn_step fs (OpCors og) = smod (corsHeader og)"
| "conn_step fs OpSetBuffer = setBuffer"
| "conn_step fs OpSetChunked = setChunkedTransfer"
| "conn_step fs (OpOpenCache ok) = openCacheFile ok"
| "conn_step fs OpCloseCache = smod closeCacheFile"
| "conn_step fs (OpSendData b) = sendData b"
| "conn_step fs (OpSend b) = send b"
| "conn_step fs (OpSendAndFlush b) = sendAndFlush b"
| "conn_step fs (OpSendFile path bs from to) = sendFile fs path bs from to"
| "conn_step fs OpFlush = flush"
| "conn_step fs (OpCommand cmd) = put_command cmd"

lemma smod_inv:
  "(\<And>c. conn_inv w0 c \<Longrightarrow> conn_inv w0 (f c)) \<Longrightarrow>
   triple (conn_inv w0) (smod f) (\<lambda>_. conn_inv w0) (safe_throw w0)"
  by (rule triple_mod)

lemma io_frame:
  "conn_inv w0 c \<Longrightarrow> outbuf d = outbuf c \<Longrightarrow> outbuf_size d = outbuf_size c \<Longrightarrow> outbuf_inc d = outbuf_inc c \<Longrightarrow>
   finished d = finished c \<Longrightarrow> header_sent d = header_sent c \<Longrightarrow> os d = os c \<Longrightarrow> conn_inv w0 d"
  by (simp add: conn_inv_def buf_ok_def outbuf_nbytes_def)

lemma smod_frame:
  assumes "\<And>c. outbuf (f c) = outbuf c \<and> outbuf_size (f c) = outbuf_size c \<and> outbuf_inc (f c) = outbuf_inc c \<and>
     finished (f c) = finished c \<and> header_sent (f c) = header_sent c \<and> os (f c) = os c"
    and "\<And>c. P c \<Longrightarrow> conn_inv w0 c"
  shows "triple P (smod f) (\<lambda>_. conn_inv w0) (safe_throw w0)"
  using assms(1) by (intro triple_mod io_frame [OF assms(2)]) auto

lemma header_ops_inv:
  "triple (conn_inv w0) (smod (status code str)) (\<lambda>_. conn_inv w0) (safe_throw w0)"
  "triple (conn_inv w0) (smod (\<lambda>c. snd (setupKeepAlive t c))) (\<lambda>_. conn_inv w0) (safe_throw w0)"
  "triple (conn_inv w0) (smod (corsHeader og)) (\<lambda>_. conn_inv w0) (safe_throw w0)"
  "triple (conn_inv w0) (smod closeCacheFile) (\<lambda>_. conn_inv w0) (safe_throw w0)"
  by (rule smod_frame, simp add: status_def setupKeepAlive_def Let_def corsHeader_def
        closeCacheFile_def split: option.split, assumption)+

lemma guarded_inv:
  "triple (conn_inv w0) (header_set n v) (\<lambda>_. conn_inv w0) (safe_throw w0)"
  "triple (conn_inv w0) setChunkedTransfer (\<lambda>_. conn_inv w0) (safe_throw w0)"
  unfolding header_set_def setChunkedTransfer_def
  by (rule triple_if, rule throw_safe, simp, simp, rule smod_frame, simp, simp)+

lemma setBuffer_inv: "triple (conn_inv w0) setBuffer (\<lambda>_. conn_inv w0) (safe_throw w0)"
  unfolding setBuffer_def
  by (rule triple_if, rule throw_safe, simp, simp, rule triple_when, rule triple_mod)
    (auto simp: conn_inv_def buf_ok_def outbuf_nbytes_def)

lemma openCacheFile_inv: "triple (conn_inv w0) (openCacheFile ok) (\<lambda>_. conn_inv w0) (safe_throw w0)"
proof (cases ok)
  case True
  then show ?thesis unfolding openCacheFile_def
    by simp (rule triple_Cons, rule smod_frame, simp, assumption, rule triple_Cons, rule triple_ret, assumption,
        rule triple_Nil, assumption)
next
  case False
  then show ?thesis unfolding openCacheFile_def
    by simp (rule triple_Cons, rule smod_frame, simp, assumption,
        rule triple_Cons [where R = "conn_inv w0"], rule throw_safe, simp, assumption,
        rule triple_Nil, assumption)
qed

lemmas operation_invs = header_ops_inv guarded_inv setBuffer_inv openCacheFile_inv
  sendData_inv send_inv sendAndFlush_inv sendFile_inv flush_inv

lemma put_command_inv: "triple (conn_inv w0) (put_command cmd) (\<lambda>_. conn_inv w0) (safe_throw w0)"
  by (cases cmd) (simp_all only: put_command_def commands.case flush_inv send_inv)

lemma conn_step_inv: "triple (conn_inv w0) (conn_step fs op) (\<lambda>_. conn_inv w0) (safe_throw w0)"
  by (cases op; simp only: conn_step.simps cookies_set_def)
    (rule operation_invs put_command_inv)+

interpretation conn: keeps "conn_step fs" "conn_inv w0" for fs w0
proof
  fix s op assume "conn_inv w0 s"
  then show "conn_inv w0 (snd (conn_step fs op s))"
    by (rule triple_snd [OF conn_step_inv]) (simp add: safe_throw_def)
qed

section \<open>Properties\<close>

definition example_connection :: connection where
  "example_connection = init_connection (mk_istream []) mk_ostream ''/tmp'' 0 8192 (\<lambda>_. [])"

lemma example_connection_simps [simp]:
  "sound example_connection" "os_reliable (os example_connection)"
  "header_sent example_connection = False" "finished example_connection = False"
  "chunked_transfer_out example_connection = False" "outbuf example_connection = None"
  "outbuf_inc example_connection = 8192" "outbuf_size example_connection = 0"
  "map_iter example_connection = (\<lambda>_. [])" "status_code example_connection = OK"
  "status_string example_connection = ''OK''" "written (os example_connection) = []"
  by (simp_all add: example_connection_def sound_def mk_ostream_def os_reliable_def)

text \<open>
  C5: a response sent in chunks and ended by the destructor is the header followed by a body
  from which the chunk reader of this library gets the bytes that were sent, in their order.
\<close>

theorem response_chunked_roundtrip:
  assumes "os_reliable (os c)" and "outbuf c = None" and "chunked_transfer_out c" and "\<not> finished c"
    and "\<not> header_sent c" and "ds \<noteq> []" and "[] \<notin> set ds" and "length (concat ds) + 1 < 2 ^ 63"
  shows "\<exists>c' body rd. sseq (map send ds) c = (Inr (), c') \<and>
    written (os (connection_destroy c')) = written (os c) @ header_bytes 0 c @ body \<and>
    readAll (mk_chunk_reader (mk_istream body) 0) = Inr (length (concat ds), Some (concat ds), rd)"
proof -
  obtain c' where "sseq (map send ds) c = (Inr (), c')"
    "written (os (connection_destroy c')) =
      written (os c) @ header_bytes 0 c @ chunks_enc ds @ last_chunk @ CRLF @ CRLF"
    using chunked_sends [of c ds] assms by (auto simp: sound_def)
  then show ?thesis using readAll_chunks [OF assms(7,6,8), of "CRLF @ CRLF"] by blast
qed

theorem response_chunked_roundtrip_witness:
  "let c = example_connection\<lparr>chunked_transfer_out := True\<rparr>; ds = [''ab'', ''c''] in
   \<exists>c' body rd. sseq (map send ds) c = (Inr (), c') \<and>
    written (os (connection_destroy c')) = written (os c) @ header_bytes 0 c @ body \<and>
    readAll (mk_chunk_reader (mk_istream body) 0) = Inr (length (concat ds), Some (concat ds), rd)"
  unfolding Let_def by (rule response_chunked_roundtrip) simp_all

text \<open>
  sending an empty string in chunked mode writes the chunk that ends the body: what is sent
  after it never reaches the reader.
\<close>

theorem chunked_empty_send_truncates:
  assumes "os_reliable (os c)" and "outbuf c = None" and "chunked_transfer_out c" and "\<not> finished c"
    and "\<not> header_sent c" and "ds \<noteq> []" and "[] \<notin> set ds" and "length (concat ds) + 1 < 2 ^ 63"
  shows "\<exists>c' body rd. sseq (map send (ds @ [] # es)) c = (Inr (), c') \<and>
    written (os (connection_destroy c')) = written (os c) @ header_bytes 0 c @ body \<and>
    readAll (mk_chunk_reader (mk_istream body) 0) = Inr (length (concat ds), Some (concat ds), rd)"
proof -
  let ?body = "chunks_enc ds @ last_chunk @ CRLF @ chunks_enc es @ last_chunk @ CRLF @ CRLF"
  have e: "chunks_enc (ds @ [] # es) @ last_chunk @ CRLF @ CRLF = ?body"
    by (simp add: last_chunk_def hex_string_0)
  obtain c' where "sseq (map send (ds @ [] # es)) c = (Inr (), c')"
    "written (os (connection_destroy c')) = written (os c) @ header_bytes 0 c @ ?body"
    using chunked_sends [of c "ds @ [] # es", unfolded e] assms by (auto simp: sound_def simp del: map_append)
  then show ?thesis
    using readAll_chunks [OF assms(7,6,8), of "CRLF @ chunks_enc es @ last_chunk @ CRLF @ CRLF"]
    by blast
qed

theorem chunked_empty_send_truncates_witness:
  "let c = example_connection\<lparr>chunked_transfer_out := True\<rparr>; ds = [''ab'']; es = [''c''] in
   \<exists>c' body rd. sseq (map send (ds @ [] # es)) c = (Inr (), c') \<and>
    written (os (connection_destroy c')) = written (os c) @ header_bytes 0 c @ body \<and>
    readAll (mk_chunk_reader (mk_istream body) 0) = Inr (length (concat ds), Some (concat ds), rd)"
  unfolding Let_def by (rule chunked_empty_send_truncates) simp_all

text \<open>
  in buffered mode nothing is written until the flush, which writes the header with the
  length of everything that was sent and then all of it; after that, sending throws.
\<close>

theorem response_buffered:
  assumes "os_reliable (os c)" and "outbuf c = Some []" and "0 < outbuf_inc c"
    and "\<not> chunked_transfer_out c" and "\<not> finished c" and "\<not> header_sent c"
  shows "\<exists>c1 c2. sseq (map send ds) c = (Inr (), c1) \<and> os c1 = os c \<and> flush c1 = (Inr (), c2) \<and>
    written (os c2) = written (os c) @ status_line c @
      concat (map header_line (map_iter c (header_out c))) @
      ''Content-Length: '' @ dec_string (length (concat ds)) @ CRLF @ CRLF @ concat ds \<and>
    (\<forall>x. send x c2 = (Inl terminated, c2))"
proof -
  have "buffering [] c" using assms by (simp add: buffering_def)
  from sends_buffered [OF this, of ds] assms obtain k where
    k: "sseq (map send ds) c = (Inr (), c\<lparr>outbuf_size := k, outbuf := Some (concat ds)\<rparr>)" by auto
  let ?c1 = "c\<lparr>outbuf_size := k, outbuf := Some (concat ds)\<rparr>"
  obtain c2 where c2: "flush ?c1 = (Inr (), c2)" "finished c2"
    "written (os c2) = written (os ?c1) @ header_bytes 0 ?c1 @ concat ds"
    using flush_plain_ok [of ?c1 "concat ds"] assms by (auto simp: sound_def)
  have "header_bytes 0 (c\<lparr>outbuf_size := k, outbuf := Some b\<rparr>) = status_line c @
      concat (map header_line (map_iter c (header_out c))) @
      ''Content-Length: '' @ dec_string (length b) @ CRLF @ CRLF" for b
    using assms by (cases b) (simp_all add: header_bytes_def status_line_def outbuf_nbytes_def)
  moreover have "send x c2 = (Inl terminated, c2)" for x using c2 by (simp add: send_def act_defs)
  ultimately show ?thesis using k c2 by auto
qed

theorem response_buffered_witness:
  "let c = example_connection\<lparr>outbuf := Some []\<rparr>; ds = [''ab'', ''c''] in
   \<exists>c1 c2. sseq (map send ds) c = (Inr (), c1) \<and> os c1 = os c \<and> flush c1 = (Inr (), c2) \<and>
    written (os c2) = written (os c) @ status_line c @
      concat (map header_line (map_iter c (header_out c))) @
      ''Content-Length: '' @ dec_string (length (concat ds)) @ CRLF @ CRLF @ concat ds \<and>
    (\<forall>x. send x c2 = (Inl terminated, c2))"
  unfolding Let_def by (rule response_buffered) simp_all

text \<open>
  \<open>sendAndFlush\<close> with bytes already in the buffer announces the length of all of them and
  writes only its own argument: the bytes buffered before are lost.
\<close>

theorem sendAndFlush_loses_buffer:
  assumes "os_reliable (os c)" and "outbuf c = Some b" and "b \<noteq> []" and "length b \<le> outbuf_size c"
    and "0 < outbuf_inc c" and "\<not> chunked_transfer_out c" and "\<not> finished c" and "\<not> header_sent c"
  shows "\<exists>c'. sendAndFlush x c = (Inr (), c') \<and> outbuf c' = Some [] \<and> finished c' \<and>
    written (os c') = written (os c) @ status_line c @
      concat (map header_line (map_iter c (header_out c))) @
      ''Content-Length: '' @ dec_string (length b + length x) @ CRLF @ CRLF @ x"
proof -
  have "buffering b c" using assms by (simp add: buffering_def)
  from add_to_outbuf_ok [OF this] assms obtain k where
    k: "add_to_outbuf x c = (Inr (), c\<lparr>outbuf_size := k, outbuf := Some (b @ x)\<rparr>)" by blast
  show ?thesis
    using assms k
    by (simp add: sendAndFlush_def act_defs send_header_ok outbuf_clear_def sound_def [symmetric]
        header_bytes_def status_line_def)
qed

theorem sendAndFlush_loses_buffer_witness:
  "let c = example_connection\<lparr>outbuf := Some ''ab'', outbuf_size := 2\<rparr>; b = ''ab''; x = ''c'' in
   \<exists>c'. sendAndFlush x c = (Inr (), c') \<and> outbuf c' = Some [] \<and> finished c' \<and>
    written (os c') = written (os c) @ status_line c @
      concat (map header_line (map_iter c (header_out c))) @
      ''Content-Length: '' @ dec_string (length b + length x) @ CRLF @ CRLF @ x"
  unfolding Let_def by (rule sendAndFlush_loses_buffer) simp_all

text \<open>
  without buffer and chunks, the first \<open>send\<close> writes the complete response with the length
  of its argument, and every later one throws and changes nothing.
\<close>

theorem send_plain_once:
  assumes "os_reliable (os c)" and "outbuf c = None" and "\<not> chunked_transfer_out c"
    and "\<not> finished c" and "\<not> header_sent c"
  shows "\<exists>c'. send x c = (Inr (), c') \<and>
    written (os c') = written (os c) @ status_line c @
      concat (map header_line (map_iter c (header_out c))) @
      ''Content-Length: '' @ dec_string (length x) @ CRLF @ CRLF @ x \<and>
    (\<forall>y. send y c' = (Inl terminated, c'))"
  using assms
  by (simp add: send_def act_defs send_header_ok sound_def [symmetric] header_bytes_def outbuf_nbytes_def)

theorem send_plain_once_witness:
  "\<exists>c'. send ''ab'' example_connection = (Inr (), c') \<and>
    written (os c') = written (os example_connection) @ status_line example_connection @
      concat (map header_line (map_iter example_connection (header_out example_connection))) @
      ''Content-Length: '' @ dec_string (length ''ab'') @ CRLF @ CRLF @ ''ab'' \<and>
    (\<forall>y. send y c' = (Inl terminated, c'))"
  by (rule send_plain_once) simp_all

text \<open>
  \<open>sendFile\<close> with a range that ends before the last byte writes a header with the size of
  the range and exactly its bytes, whatever the block size; the response is then not marked as
  finished, because the end of the file was not met.
\<close>

theorem sendFile_range:
  assumes "os_reliable (os c)" and "outbuf c = None" and "\<not> chunked_transfer_out c"
    and "\<not> finished c" and "\<not> header_sent c" and "fs path = Some data" and "length data < 2 ^ 63"
    and "0 < bufsize" and "a \<le> z" and "0 < z" and "z < length data"
  shows "\<exists>c'. sendFile fs path bufsize (int a) (int z) c = (Inr (), c') \<and> \<not> finished c' \<and>
    written (os c') = written (os c) @ header_bytes (z - a + 1) c @
      take (z - a + 1) (drop a data)"
proof -
  have r: "file_range (int (length data)) (int a) (int z) = Inr (a, int (z - a + 1))"
    using assms by (auto simp: file_range_def)
  have n: "to_size_t (int (z - a + 1)) = z - a + 1"
    using assms by (intro to_size_t_int) simp
  have len: "\<not> length (drop a data) < z - a + 1" using assms by simp
  have s: "sound c" using assms by (simp add: sound_def)
  show ?thesis
    using assms s r n len
    by (simp add: sendFile_def act_defs send_header_ok file_loop_plain del: int_ops of_nat_Suc of_nat_diff)
qed

theorem sendFile_range_witness:
  "let c = example_connection; data = ''abcdef''; fs = [''f'' \<mapsto> data] in
   \<exists>c'. sendFile fs ''f'' 2 (int 1) (int 3) c = (Inr (), c') \<and> \<not> finished c' \<and>
    written (os c') = written (os c) @ header_bytes (3 - 1 + 1) c @ take (3 - 1 + 1) (drop 1 data)"
  unfolding Let_def by (rule sendFile_range) simp_all

text \<open>
  with the size of the file as the end of the range, which the check allows, the header
  announces one byte more than is sent.
\<close>

theorem sendFile_to_size:
  assumes "os_reliable (os c)" and "outbuf c = None" and "\<not> chunked_transfer_out c"
    and "\<not> finished c" and "\<not> header_sent c" and "fs path = Some data" and "length data < 2 ^ 63 - 1"
    and "0 < bufsize" and "a < length data"
  shows "\<exists>c'. sendFile fs path bufsize (int a) (int (length data)) c = (Inr (), c') \<and> finished c' \<and>
    written (os c') = written (os c) @ header_bytes (length (drop a data) + 1) c @ drop a data"
proof -
  have r: "file_range (int (length data)) (int a) (int (length data)) =
      Inr (a, int (length (drop a data) + 1))"
    using assms by (auto simp: file_range_def)
  have n: "to_size_t (int (length (drop a data) + 1)) = length (drop a data) + 1"
    using assms by (intro to_size_t_int) simp
  have s: "sound c" using assms by (simp add: sound_def)
  show ?thesis
    using assms s r n
    by (simp add: sendFile_def act_defs send_header_ok file_loop_plain del: int_ops of_nat_Suc of_nat_diff)
qed

theorem sendFile_to_size_witness:
  "let c = example_connection; data = ''abcdef''; fs = [''f'' \<mapsto> data] in
   \<exists>c'. sendFile fs ''f'' 2 (int 1) (int (length data)) c = (Inr (), c') \<and> finished c' \<and>
    written (os c') = written (os c) @ header_bytes (length (drop 1 data) + 1) c @ drop 1 data"
  unfolding Let_def by (rule sendFile_to_size) simp_all



end
