(* ===== verification/Multipart.thy ===== *)
theory Multipart
  imports Connection
begin

text \<open>
  The body of a \<open>multipart/form-data\<close> request, as the constructor of \<open>lib/Connection.cpp\<close> reads
  it: fields, file uploads and the limit on the size of the body. The bytes come from the
  connection itself or from a chunk reader. Uploaded files go to the directory for temporary
  files; \<open>mkstemp\<close> and the room on the disk are parameters.
\<close>

section \<open>Where the body comes from\<close>

datatype source = Plain istream | Chunked chunk_reader

fun src_ins :: "source \<Rightarrow> istream" where
  "src_ins (Plain i) = i"
| "src_ins (Chunked cr) = cr_ins cr"

definition src_bad :: "source \<Rightarrow> bool" where
  "src_bad s = ins_bad (src_ins s)"

fun src_getc :: "source \<Rightarrow> exn + (char option \<times> source)" where
  "src_getc (Plain i) = (case is_get i of (c, i') \<Rightarrow> Inr (c, Plain i'))"
| "src_getc (Chunked cr) =
     (case chunk_getc cr of Inl e \<Rightarrow> Inl e | Inr (c, cr') \<Rightarrow> Inr (c, Chunked cr'))"

fun src_getline :: "nat \<Rightarrow> source \<Rightarrow> exn + (nat \<times> string \<times> source)" where
  "src_getline max_n (Plain i) =
     (case safeGetline i max_n of Inl e \<Rightarrow> Inl e | Inr (k, t, i') \<Rightarrow> Inr (k, t, Plain i'))"
| "src_getline max_n (Chunked cr) =
     (case chunk_getline cr of Inl e \<Rightarrow> Inl e | Inr (k, t, cr') \<Rightarrow> Inr (k, t, Chunked cr'))"

text \<open>Bytes that are left on the connection: what every successful read makes smaller.\<close>

definition src_left :: "source \<Rightarrow> nat" where
  "src_left s = length (rest (src_ins s))"

definition body_too_big :: exn where
  "body_too_big = CsError ''Content bigger than max_post_size''"

text \<open>
  One line of the body. \<open>n\<close> counts the bytes of the body so far; the limit of the line is
  \<open>max_post_size - n\<close>, computed in \<open>size_t\<close>.
\<close>

definition read_line :: "nat \<Rightarrow> nat \<Rightarrow> source \<Rightarrow> exn + (string \<times> nat \<times> source)" where
  "read_line max_post n src =
     (case src_getline (sub64 max_post n) src of
        Inl e \<Rightarrow> Inl e
      | Inr (k, line, src') \<Rightarrow>
          if src_bad src' then Inl (InputFailure INPUT_READ_FAIL)
          else if max_post > 0 \<and> n + k > max_post then Inl body_too_big
          else Inr (line, n + k, src'))"

lemma is_get_left:
  "is_get i = (Some c, i') \<Longrightarrow> length (rest i') < length (rest i)"
  "is_get i = (co, i') \<Longrightarrow> length (rest i') \<le> length (rest i)"
  by (auto simp: is_get_def split: if_splits list.splits)

lemma chunk_bump_left: "chunk_bump cr = Inr (co, cr') \<Longrightarrow> length (rest (cr_ins cr')) \<le> length (rest (cr_ins cr))"
  by (auto simp: chunk_bump_def sb_bump_def split: sum.splits prod.splits if_splits list.splits
      dest!: safeGetline_shrinks)

lemma chunk_getc_cases:
  assumes "chunk_getc cr = Inr (co, cr')"
  obtains cr1 where "length (rest (cr_ins cr1)) \<le> length (rest (cr_ins cr))" "co = None" "cr' = cr1"
  | cr1 where "length (rest (cr_ins cr1)) \<le> length (rest (cr_ins cr))"
      "chunk_bump (cr1\<lparr>cr_ins := sentry (cr_ins cr1)\<rparr>) = Inr (co, cr')"
proof -
  let ?hdr = "if chunk_pos cr \<ge> chunk_size cr then chunk_header (\<lambda>line. ''stoul'' @ line) cr else Inr (False, cr)"
  from assms obtain b cr1 where h: "?hdr = Inr (b, cr1)"
    unfolding chunk_getc_def by (auto split: sum.splits)
  have l: "length (rest (cr_ins cr1)) \<le> length (rest (cr_ins cr))"
    using h by (auto split: if_splits dest: chunk_header_shrinks)
  from assms h have "(if b then co = None \<and> cr' = cr1
      else chunk_bump (cr1\<lparr>cr_ins := sentry (cr_ins cr1)\<rparr>) = Inr (co, cr'))"
    unfolding chunk_getc_def by (cases b) auto
  with l that show thesis by (cases b) auto
qed

lemma chunk_getc_left: "chunk_getc cr = Inr (co, cr') \<Longrightarrow>
   length (rest (cr_ins cr')) \<le> length (rest (cr_ins cr)) \<and>
   (co \<noteq> None \<longrightarrow> length (rest (cr_ins cr')) < length (rest (cr_ins cr)))"
proof (erule chunk_getc_cases)
  fix cr1 assume l: "length (rest (cr_ins cr1)) \<le> length (rest (cr_ins cr))"
    and b: "chunk_bump (cr1\<lparr>cr_ins := sentry (cr_ins cr1)\<rparr>) = Inr (co, cr')"
  show ?thesis
  proof (cases co)
    case None
    with l chunk_bump_left [OF b] show ?thesis by simp
  next
    case (Some c)
    with l b show ?thesis by (auto dest!: chunk_bump_shrinks)
  qed
qed auto

lemma src_getc_left:
  "src_getc s = Inr (Some c, s') \<Longrightarrow> src_left s' < src_left s"
  "src_getc s = Inr (co, s') \<Longrightarrow> src_left s' \<le> src_left s"
  by (cases s; auto simp: src_left_def split: prod.splits sum.splits dest: is_get_left chunk_getc_left)+

lemma chunk_getline_loop_left:
  "chunk_getline_loop cr t n = Inr (k, t', cr') \<Longrightarrow> is_good (cr_ins cr') \<Longrightarrow>
   length (rest (cr_ins cr')) \<le> length (rest (cr_ins cr)) \<and>
   (t = [] \<longrightarrow> length (rest (cr_ins cr')) < length (rest (cr_ins cr)))"
proof (induction cr t n rule: chunk_getline_loop.induct)
  case (1 cr t n)
  let ?hdr = "if chunk_pos cr \<ge> chunk_size cr then chunk_header (\<lambda>line. ''stoul'') cr else Inr (False, cr)"
  from 1(2) obtain b cr1 where h: "?hdr = Inr (b, cr1)"
    by (subst (asm) chunk_getline_loop.simps) (auto split: sum.splits)
  have l1: "length (rest (cr_ins cr1)) \<le> length (rest (cr_ins cr))"
    using h by (auto split: if_splits dest: chunk_header_shrinks)
  show ?case
  proof (cases b)
    case True
    with h 1(2) have "cr' = cr1" by (subst (asm) chunk_getline_loop.simps) simp
    moreover have "is_good (cr_ins cr1) \<Longrightarrow> length (rest (cr_ins cr1)) < length (rest (cr_ins cr))"
      using h True unfolding chunk_header_def safeGetline_def
      by (auto split: if_splits sum.splits prod.splits exn.splits dest!: safeGetline_loop_shrinks)
    ultimately show ?thesis using 1(3) l1 by simp
  next
    case False
    let ?c = "cr1\<lparr>cr_ins := sentry (cr_ins cr1)\<rparr>"
    from False h 1(2) obtain co cr2 where b: "chunk_bump ?c = Inr (co, cr2)"
      by (subst (asm) chunk_getline_loop.simps) (auto split: sum.splits)
    show ?thesis
    proof (cases co)
      case None
      with b h False 1(2) have "cr' = (if t = [] then cr2\<lparr>cr_ins := (cr_ins cr2)\<lparr>eofbit := True\<rparr>\<rparr> else cr2)"
        by (subst (asm) chunk_getline_loop.simps) auto
      with 1(3) b l1 show ?thesis by (auto simp: is_good_def split: if_splits dest!: chunk_bump_left)
    next
      case (Some c)
      have l2: "length (rest (cr_ins cr2)) < length (rest (cr_ins cr))"
        using b Some l1 by (auto dest!: chunk_bump_shrinks)
      show ?thesis
      proof (cases "c = LF \<or> c = CR")
        case True
        with b h False Some 1(2) have "cr' = cr2 \<or> (\<exists>x. chunk_bump cr2 = Inr (x, cr'))"
          by (subst (asm) chunk_getline_loop.simps) (auto split: if_splits sum.splits)
        with l2 show ?thesis by (auto dest!: chunk_bump_left)
      next
        case neither: False
        with b h False Some 1(2) have "chunk_getline_loop cr2 (t @ [c]) (n + 1) = Inr (k, t', cr')"
          by (subst (asm) chunk_getline_loop.simps) simp
        with 1(1) [OF h refl, of "(co, cr2)" co cr2 c] False h b Some neither 1(3) l2 show ?thesis by auto
      qed
    qed
  qed
qed

lemma read_line_left:
  "read_line mx n src = Inr (line, n', src') \<Longrightarrow> src_left src' < src_left src"
proof (cases src)
  case (Plain i)
  assume "read_line mx n src = Inr (line, n', src')"
  with Plain show ?thesis
    by (auto simp: read_line_def src_left_def src_bad_def not_bad_good safeGetline_def
        split: sum.splits prod.splits if_splits dest!: safeGetline_loop_shrinks)
next
  case (Chunked cr)
  assume "read_line mx n src = Inr (line, n', src')"
  with Chunked show ?thesis
    by (auto simp: read_line_def src_left_def src_bad_def not_bad_good chunk_getline_def
        split: sum.splits prod.splits if_splits dest!: chunk_getline_loop_left)
qed

section \<open>The headers of a part\<close>

record part =
  pt_name :: string
  pt_file :: string
  pt_mime :: string
  pt_encoding :: string

definition mk_part :: part where
  "mk_part = \<lparr>pt_name = [], pt_file = [], pt_mime = [], pt_encoding = []\<rparr>"

text \<open>\<open>substr(0, pos)\<close> and \<open>substr(pos + 1)\<close>: with no colon, \<open>pos\<close> is \<open>npos\<close> and both are the line.\<close>

definition split_header :: "string \<Rightarrow> string \<times> string" where
  "split_header line =
     (case find_char (CHR '':'') line of
        None \<Rightarrow> (line, line)
      | Some pos \<Rightarrow> (take pos line, drop (pos + 1) line))"

definition unquote :: "string \<Rightarrow> string" where
  "unquote s =
     (if s \<noteq> [] \<and> hd s = CHR 0x22 \<and> last s = CHR 0x22 then take (length s - 2) (tl s) else s)"

definition part_line :: "string \<Rightarrow> part \<Rightarrow> exn + part" where
  "part_line line p =
     (case split_header line of (n, v) \<Rightarrow>
        let name = asciitolower (trim_copy n); value = trim_copy v in
        if name = ''content-disposition'' then
          (case parse_header_options value True (CHR '';'') of
             None \<Rightarrow> Inl Diverges
           | Some opts \<Rightarrow>
               Inr (p\<lparr>pt_name := unquote (param_value opts ''name''),
                      pt_file := (case opts ''filename'' of None \<Rightarrow> pt_file p | Some f \<Rightarrow> unquote f)\<rparr>))
        else if name = ''content-type'' then Inr (p\<lparr>pt_mime := value\<rparr>)
        else if name = ''content-transfer-encoding'' then Inr (p\<lparr>pt_encoding := value\<rparr>)
        else Inr p)"

function part_headers :: "nat \<Rightarrow> string \<Rightarrow> nat \<Rightarrow> source \<Rightarrow> part \<Rightarrow> exn + (part \<times> nat \<times> source)" where
  "part_headers mx line n src p =
     (if line = [] then Inr (p, n, src)
      else (case part_line line p of
          Inl e \<Rightarrow> Inl e
        | Inr p' \<Rightarrow>
            (case read_line mx n src of
               Inl e \<Rightarrow> Inl e
             | Inr (line', n', src') \<Rightarrow> part_headers mx line' n' src' p')))"
  by pat_completeness auto
termination
  by (relation "measure (\<lambda>(mx, line, n, src, p). src_left src)") (auto dest: read_line_left)

declare part_headers.simps [simp del]

section \<open>Values of fields\<close>

function field_value :: "nat \<Rightarrow> string \<Rightarrow> string \<Rightarrow> string \<Rightarrow> nat \<Rightarrow> source \<Rightarrow> string
    \<Rightarrow> exn + (string \<times> string \<times> nat \<times> source)" where
  "field_value mx boundary lastboundary line n src fieldvalue =
     (if line \<noteq> boundary \<and> line \<noteq> lastboundary then
        (case read_line mx n src of
           Inl e \<Rightarrow> Inl e
         | Inr (line', n', src') \<Rightarrow>
             field_value mx boundary lastboundary line' n' src' (fieldvalue @ line))
      else Inr (fieldvalue, line, n, src))"
  by pat_completeness auto
termination
  by (relation "measure (\<lambda>(mx, b, lb, line, n, src, v). src_left src)") (auto dest: read_line_left)

declare field_value.simps [simp del]

section \<open>Uploads\<close>

text \<open>
  \<open>inbyte == nlboundary[cnt]\<close> compares an \<open>int\<close> with a signed \<open>char\<close>: a byte of 128 or more is
  never equal. \<open>disk\<close> is the number of bytes that can be written to the file.
\<close>

definition eq_byte :: "char \<Rightarrow> char \<Rightarrow> bool" where
  "eq_byte inbyte c \<longleftrightarrow> inbyte = c \<and> chr_code c < 128"

definition no_room :: exn where
  "no_room = CsError ''Could not write to output file!''"

function upload_loop :: "nat \<Rightarrow> nat \<Rightarrow> string \<Rightarrow> source \<Rightarrow> nat \<Rightarrow> nat \<Rightarrow> nat \<Rightarrow> string
    \<Rightarrow> exn + (string \<times> nat \<times> nat \<times> source)" where
  "upload_loop mx disk nlboundary src n cnt fsize outf =
     (case src_getc src of
        Inl e \<Rightarrow> Inl e
      | Inr (None, src') \<Rightarrow> Inr (outf, fsize, n, src')
      | Inr (Some inbyte, src') \<Rightarrow>
          if src_bad src' then Inl (InputFailure INPUT_READ_FAIL)
          else if mx > 0 \<and> n + 1 > mx then Inl body_too_big
          else if cnt < length nlboundary \<and> eq_byte inbyte (nlboundary ! cnt) then
            (if cnt + 1 = length nlboundary then Inr (outf, fsize, n + 1, src')
             else upload_loop mx disk nlboundary src' (n + 1) (cnt + 1) fsize outf)
          else if cnt > 0 then
            (let outf1 = outf @ take cnt nlboundary in
             if length outf1 > disk then Inl no_room
             else if 0 < length nlboundary \<and> eq_byte inbyte (nlboundary ! 0)
             then upload_loop mx disk nlboundary src' (n + 1) 1 (fsize + cnt + 1) outf1
             else if length outf1 + 1 > disk then Inl no_room
             else upload_loop mx disk nlboundary src' (n + 1) 0 (fsize + cnt + 1) (outf1 @ [inbyte]))
          else if length outf + 1 > disk then Inl no_room
          else upload_loop mx disk nlboundary src' (n + 1) 0 (fsize + 1) (outf @ [inbyte]))"
  by pat_completeness auto
termination
  by (relation "measure (\<lambda>(mx, d, b, src, n, c, f, out). src_left src)") (auto dest: src_getc_left)

declare upload_loop.simps [simp del]

text \<open>What follows the boundary behind a file: two hyphens, or a line end.\<close>

definition after_upload :: "nat \<Rightarrow> string \<Rightarrow> string \<Rightarrow> nat \<Rightarrow> source \<Rightarrow> exn + (string \<times> nat \<times> source)" where
  "after_upload mx boundary lastboundary n src =
     (case src_getc src of
        Inl e \<Rightarrow> Inl e
      | Inr (inbyte, src1) \<Rightarrow>
          if src_bad src1 then Inl (InputFailure INPUT_READ_FAIL)
          else if mx > 0 \<and> n + 1 > mx then Inl body_too_big
          else (case src_getc src1 of
                  Inl e \<Rightarrow> Inl e
                | Inr (_, src2) \<Rightarrow>
                    if src_bad src2 then Inl (InputFailure INPUT_READ_FAIL)
                    else Inr (if inbyte = Some (CHR ''-'') then lastboundary else boundary, n + 1, src2)))"

section \<open>The whole body\<close>

text \<open>
  \<open>mkstemp k\<close> is the name of the file that the call for the upload number \<open>k\<close> makes, if it can.
  \<open>form\<close> is what the loop has collected: post parameters, uploads, and the files with their bytes.
\<close>

record upload_env =
  max_post :: nat
  tmp_dir :: string
  mkstemp :: "nat \<Rightarrow> string option"
  disk_room :: nat

record form =
  fm_params :: "string \<rightharpoonup> string"
  fm_uploads :: "uploaded_file list"
  fm_files :: "(string \<times> string) list"

definition read_upload :: "upload_env \<Rightarrow> string \<Rightarrow> string \<Rightarrow> part \<Rightarrow> nat \<Rightarrow> source \<Rightarrow> form
    \<Rightarrow> exn + (string \<times> nat \<times> source \<times> form)" where
  "read_upload env boundary lastboundary p n src st =
     (if tmp_dir env = [] then Inl (CsError ''_tmpdir is empty'')
      else (case mkstemp env (length (fm_uploads st)) of
          None \<Rightarrow> Inl (CsError (''Could not create temporary filename in '' @ [CHR 0x27] @ tmp_dir env @ [CHR 0x27] @ ''!''))
        | Some tname \<Rightarrow>
            (case upload_loop (max_post env) (disk_room env) (CRLF @ boundary) src n 0 0 [] of
               Inl e \<Rightarrow> Inl e
             | Inr (outf, fsize, n1, src1) \<Rightarrow>
                 let uf = \<lparr>fieldname = pt_name p, origname = pt_file p, tmpname = tname,
                           mimetype = pt_mime p, filesize = fsize\<rparr>;
                     st1 = st\<lparr>fm_uploads := fm_uploads st @ [uf], fm_files := fm_files st @ [(tname, outf)]\<rparr>
                 in (case after_upload (max_post env) boundary lastboundary n1 src1 of
                       Inl e \<Rightarrow> Inl e
                     | Inr (line, n2, src2) \<Rightarrow> Inr (line, n2, src2, st1)))))"

definition read_part :: "upload_env \<Rightarrow> string \<Rightarrow> string \<Rightarrow> nat \<Rightarrow> source \<Rightarrow> form
    \<Rightarrow> exn + (string \<times> nat \<times> source \<times> form)" where
  "read_part env boundary lastboundary n src st =
     (case read_line (max_post env) n src of
        Inl e \<Rightarrow> Inl e
      | Inr (line1, n1, src1) \<Rightarrow>
          (case part_headers (max_post env) line1 n1 src1 mk_part of
             Inl e \<Rightarrow> Inl e
           | Inr (p, n2, src2) \<Rightarrow>
               if pt_file p = [] then
                 (case read_line (max_post env) n2 src2 of
                    Inl e \<Rightarrow> Inl e
                  | Inr (line3, n3, src3) \<Rightarrow>
                      (case field_value (max_post env) boundary lastboundary line3 n3 src3 [] of
                         Inl e \<Rightarrow> Inl e
                       | Inr (v, line4, n4, src4) \<Rightarrow>
                           Inr (line4, n4, src4, st\<lparr>fm_params := (fm_params st)(pt_name p \<mapsto> v)\<rparr>)))
               else read_upload env boundary lastboundary p n2 src2 st))"

lemma part_headers_left: "part_headers mx line n src p = Inr (p', n', src') \<Longrightarrow> src_left src' \<le> src_left src"
proof (induction mx line n src p rule: part_headers.induct)
  case (1 mx line n src p)
  show ?case
  proof (cases "line = []")
    case True
    with 1(2) show ?thesis by (simp add: part_headers.simps)
  next
    case False
    with 1(2) obtain p1 where p1: "part_line line p = Inr p1"
      by (auto simp: part_headers.simps [of mx line] split: sum.splits)
    with False 1(2) obtain l2 n2 s2 where r: "read_line mx n src = Inr (l2, n2, s2)"
      by (auto simp: part_headers.simps [of mx line] split: sum.splits)
    have "part_headers mx l2 n2 s2 p1 = Inr (p', n', src')"
      using False p1 r 1(2) by (simp add: part_headers.simps [of mx line])
    with 1(1) [OF False p1 r refl refl] read_line_left [OF r] show ?thesis by auto
  qed
qed

lemma field_value_left:
  "field_value mx b lb line n src v = Inr (v', line', n', src') \<Longrightarrow> src_left src' \<le> src_left src"
proof (induction mx b lb line n src v rule: field_value.induct)
  case (1 mx b lb line n src v)
  show ?case
  proof (cases "line \<noteq> b \<and> line \<noteq> lb")
    case False
    with 1(2) show ?thesis by (simp add: field_value.simps [of mx b lb line])
  next
    case True
    with 1(2) obtain l2 n2 s2 where r: "read_line mx n src = Inr (l2, n2, s2)"
      by (auto simp: field_value.simps [of mx b lb line] split: sum.splits)
    have "field_value mx b lb l2 n2 s2 (v @ line) = Inr (v', line', n', src')"
      using True r 1(2) by (simp add: field_value.simps [of mx b lb line])
    with 1(1) [OF True r refl refl] read_line_left [OF r] show ?thesis by auto
  qed
qed

lemma upload_loop_left:
  "upload_loop mx d b src n c f out = Inr (out', f', n', src') \<Longrightarrow> src_left src' \<le> src_left src"
proof (induction mx d b src n c f out rule: upload_loop.induct)
  case (1 mx d b src n c f out)
  from 1(5) obtain co s1 where g: "src_getc src = Inr (co, s1)"
    by (subst (asm) upload_loop.simps) (auto split: sum.splits)
  note l = src_getc_left(2) [OF g]
  show ?case
  proof (cases co)
    case None
    with g l 1(5) show ?thesis by (subst (asm) upload_loop.simps) auto
  next
    case (Some x)
    show ?thesis
      using 1(5) g Some l 1(1-4) [OF g]
      by (subst (asm) upload_loop.simps) (fastforce simp: Let_def split: if_splits)
  qed
qed


lemma after_upload_left:
  "after_upload mx b lb n src = Inr (line, n', src') \<Longrightarrow> src_left src' \<le> src_left src"
  by (auto simp: after_upload_def split: sum.splits prod.splits if_splits dest!: src_getc_left(2))

lemma read_upload_left:
  "read_upload env b lb p n src st = Inr (line, n', src', st') \<Longrightarrow> src_left src' \<le> src_left src"
  by (auto simp: read_upload_def Let_def split: sum.splits prod.splits if_splits option.splits
      dest!: upload_loop_left after_upload_left)

lemma read_part_left:
  "read_part env b lb n src st = Inr (line, n', src', st') \<Longrightarrow> src_left src' < src_left src"
  by (auto simp: read_part_def split: sum.splits prod.splits if_splits
      dest!: read_line_left part_headers_left field_value_left read_upload_left)

function form_loop :: "upload_env \<Rightarrow> string \<Rightarrow> string \<Rightarrow> string \<Rightarrow> nat \<Rightarrow> source \<Rightarrow> form
    \<Rightarrow> exn + (nat \<times> source \<times> form)" where
  "form_loop env boundary lastboundary line n src st =
     (if line = lastboundary then Inr (n, src, st)
      else if line = boundary then
        (case read_part env boundary lastboundary n src st of
           Inl e \<Rightarrow> Inl e
         | Inr (line', n', src', st') \<Rightarrow> form_loop env boundary lastboundary line' n' src' st')
      else
        (case read_line (max_post env) n src of
           Inl e \<Rightarrow> Inl e
         | Inr (line', n', src') \<Rightarrow> form_loop env boundary lastboundary line' n' src' st))"
  by pat_completeness auto
termination
  by (relation "measure (\<lambda>(env, b, lb, line, n, src, st). src_left src)")
    (auto dest: read_part_left read_line_left)

declare form_loop.simps [simp del]

text \<open>The boundary is the last \<open>boundary\<close> parameter of the content type.\<close>

fun find_boundary :: "string list \<Rightarrow> string \<Rightarrow> string" where
  "find_boundary [] boundary = boundary"
| "find_boundary (opt # opts) boundary =
     (case strsplit opt (CHR ''='') of (a, b) \<Rightarrow>
        find_boundary opts (if a = ''boundary'' then ''--'' @ b else boundary))"

definition read_form :: "upload_env \<Rightarrow> string list \<Rightarrow> source \<Rightarrow> form \<Rightarrow> exn + (nat \<times> source \<times> form)" where
  "read_form env content_type_opts src st =
     (let boundary = find_boundary (drop 1 content_type_opts) [];
          lastboundary = boundary @ ''--''
      in if boundary = [] then Inl (CsError ''boundary header missing in multipart/form-data!'')
         else (case read_line (max_post env) 0 src of
             Inl e \<Rightarrow> Inl e
           | Inr (line, n, src') \<Rightarrow> form_loop env boundary lastboundary line n src' st))"

end
