(* ===== verification/FormRead.thy ===== *)
theory FormRead
  imports Multipart
begin

text \<open>
  Properties of the reader of multipart bodies: finding the boundary behind an uploaded file on
  both sources of bytes, the size that is recorded, and the round trip of forms with fields and
  files as a client writes them.
\<close>

section \<open>Sources that can be tested\<close>

text \<open>
  A byte source whose state can be tested for failure, as the code does after every byte. Both
  sources of a body give their bytes this way: the connection and the chunk reader.
\<close>

locale checked_source = byte_source getc holds
  for getc :: "'s \<Rightarrow> exn + (char option \<times> 's)"
    and holds :: "'s \<Rightarrow> string \<Rightarrow> string \<Rightarrow> bool" +
  fixes bad :: "'s \<Rightarrow> bool"
  assumes holds_ok: "holds s xs r \<Longrightarrow> \<not> bad s"
begin

lemma getc_checked:
  assumes "holds s (x # xs) r"
  obtains s' where "getc s = Inr (Some x, s')" "\<not> bad s'" "holds s' xs r"
  using getc_byte [OF assms] holds_ok by blast

end

fun src_holds :: "source \<Rightarrow> string \<Rightarrow> string \<Rightarrow> bool" where
  "src_holds (Plain i) xs r = plain_holds i xs r"
| "src_holds (Chunked cr) xs r = chunk_holds cr xs r"

interpretation src: checked_source src_getc src_holds src_bad
proof
  fix s x xs r assume "src_holds s (x # xs) r"
  then show "\<exists>s'. src_getc s = Inr (Some x, s') \<and> src_holds s' xs r"
    by (cases s) (auto simp: plain_getc_def dest!: plain.getc_byte chunked.getc_byte)
next
  fix s xs r assume "src_holds s xs r"
  then show "\<not> src_bad s"
    by (cases s) (auto simp: src_bad_def plain_holds_def chunk_holds_def)
qed

section \<open>Finding the boundary\<close>

text \<open>\<open>no_early d b\<close>: in \<open>d @ b\<close> the text \<open>b\<close> occurs only at the end.\<close>

definition no_early :: "string \<Rightarrow> string \<Rightarrow> bool" where
  "no_early d b \<longleftrightarrow> (\<forall>k<length d. take (length b) (drop k (d @ b)) \<noteq> b)"

definition ascii :: "string \<Rightarrow> bool" where
  "ascii s \<longleftrightarrow> (\<forall>c \<in> set s. chr_code c < 128)"

lemma eq_byte_ascii: "ascii b \<Longrightarrow> k < length b \<Longrightarrow> eq_byte c (b ! k) \<longleftrightarrow> c = b ! k"
  by (auto simp: eq_byte_def ascii_def)

lemma no_early_drop: "no_early d b \<Longrightarrow> no_early (drop m d) b"
  unfolding no_early_def
proof (intro allI impI)
  fix k assume a: "\<forall>k<length d. take (length b) (drop k (d @ b)) \<noteq> b" and k: "k < length (drop m d)"
  then have "m + k < length d" by simp
  with a have "take (length b) (drop (m + k) (d @ b)) \<noteq> b" by blast
  with k show "take (length b) (drop k (drop m d @ b)) \<noteq> b" by (simp add: add.commute)
qed

lemma no_early_prefix:
  assumes "no_early d b" and "d @ b @ z = b @ u"
  shows "d = []"
proof (rule ccontr)
  assume "d \<noteq> []"
  with assms(1) have "take (length b) (d @ b) \<noteq> b" by (auto simp: no_early_def)
  moreover have "take (length b) (d @ b) = take (length b) ((d @ b) @ z)" by simp
  ultimately show False using assms(2) by simp
qed

text \<open>Where a partial match is broken, the boundary does not start inside it.\<close>

lemma broken_match:
  assumes b: "b = CR # w" and w: "CR \<notin> set w" and cnt: "0 < cnt" "cnt < length b"
    and eq: "take cnt b @ c # u = d @ b @ z" and c: "c \<noteq> b ! cnt"
  obtains d' where "d = take cnt b @ d'" "c # u = d' @ b @ z"
proof -
  have "d \<noteq> []"
  proof
    assume "d = []"
    with eq have "(take cnt b @ c # u) ! cnt = (b @ z) ! cnt" by simp
    with cnt c show False by (simp add: nth_append)
  qed
  have "cnt \<le> length d"
  proof (rule ccontr)
    assume "\<not> cnt \<le> length d"
    then have l: "length d < cnt" by simp
    have "(take cnt b @ c # u) ! length d = b ! length d" using l cnt by (simp add: nth_append)
    moreover have "(d @ b @ z) ! length d = CR" using b by (simp add: nth_append)
    ultimately have "b ! length d = CR" using eq by simp
    moreover have "b ! length d \<in> set w" using b l cnt \<open>d \<noteq> []\<close> by (cases d) auto
    ultimately show False using w by simp
  qed
  have "take cnt (take cnt b @ c # u) = take cnt (d @ b @ z)" by (simp only: eq)
  then have "take cnt d = take cnt b" using \<open>cnt \<le> length d\<close> cnt by (simp add: min_def)
  then have "d = take cnt b @ drop cnt d" by (metis append_take_drop_id)
  with eq show thesis by (metis that append_assoc same_append_eq)
qed

lemma upload_loop_finds:
  assumes b: "b = CR # w" and w: "CR \<notin> set w" "w \<noteq> []" and asc: "ascii b"
  shows "src_holds src u r \<Longrightarrow> cnt < length b \<Longrightarrow> take cnt b @ u = d @ b @ z \<Longrightarrow> no_early d b \<Longrightarrow>
    mx = 0 \<or> n + length u - length z \<le> mx \<Longrightarrow> length out + length d \<le> disk \<Longrightarrow>
    \<exists>src' fsize'. upload_loop mx disk b src n cnt fsize out =
        Inr (out @ d, fsize', n + length u - length z, src') \<and> src_holds src' z r \<and>
      fsize + length d \<le> fsize' \<and> (CR \<notin> set d \<longrightarrow> fsize' = fsize + length d)"
proof (induction u arbitrary: src cnt d n fsize out)
  case Nil
  from Nil(3) have "length (take cnt b @ []) = length (d @ b @ z)" by (simp only:)
  with Nil(2) have False by simp
  then show ?case ..
next
  case (Cons c u)
  note holds = Cons.prems(1) and cnt = Cons.prems(2) and eq = Cons.prems(3)
    and early = Cons.prems(4) and mx = Cons.prems(5) and room = Cons.prems(6)
  obtain s1 where s1: "src_getc src = Inr (Some c, s1)" "\<not> src_bad s1" "src_holds s1 u r"
    by (rule src.getc_checked [OF holds])
  have lenz: "length z \<le> length u"
    using arg_cong [OF eq, of length] cnt by simp
  then have mx': "\<not> (mx > 0 \<and> n + 1 > mx)" "mx = 0 \<or> (n + 1) + length u - length z \<le> mx"
    using mx by auto
  have n1: "(n + 1) + length u - length z = n + length (c # u) - length z" by simp
  show ?case
  proof (cases "c = b ! cnt")
    case True
    have m: "take (cnt + 1) b @ u = d @ b @ z" using eq True cnt by (simp add: take_Suc_conv_app_nth)
    show ?thesis
    proof (cases "cnt + 1 = length b")
      case True
      with m have e: "d @ b @ z = b @ u" by simp
      then have "d = []" using early no_early_prefix by blast
      with e have "z = u" by simp
      with s1 mx' cnt asc True \<open>c = b ! cnt\<close> \<open>d = []\<close> show ?thesis
        by (subst upload_loop.simps) (simp add: eq_byte_ascii)
    next
      case False
      with cnt have c1: "cnt + 1 < length b" by simp
      from Cons.IH [OF s1(3) c1 m early mx'(2) room, of fsize] n1
      show ?thesis using s1 mx'(1) cnt asc True False
        by (subst upload_loop.simps) (auto simp: eq_byte_ascii)
    qed
  next
    case neq: False
    show ?thesis
    proof (cases "cnt = 0")
      case True
      then obtain d1 where d: "d = c # d1" "u = d1 @ b @ z"
        using eq neq b by (cases d) auto
      have early': "no_early d1 b" using no_early_drop [OF early, of 1] d by simp
      have c0: "0 < length b" using b by simp
      have e0: "take 0 b @ u = d1 @ b @ z" using d by simp
      have room': "length (out @ [c]) + length d1 \<le> disk" using room d by simp
      from Cons.IH [OF s1(3) c0 e0 early' mx'(2) room', of "fsize + 1"] n1 d
      show ?thesis using s1 mx'(1) cnt asc True neq room
        by (subst upload_loop.simps) (auto simp: eq_byte_ascii)
    next
      case False
      then obtain d' where d: "d = take cnt b @ d'" "c # u = d' @ b @ z"
        using broken_match [OF b w(1) _ cnt eq neq] by auto
      have early': "no_early d' b" using no_early_drop [OF early, of cnt] d cnt by simp
      have crd: "CR \<in> set d" using d b False by (cases cnt) auto
      have room1: "\<not> length (out @ take cnt b) > disk" using room d by simp
      have nb: "\<not> eq_byte c (b ! cnt)" and hd0: "eq_byte c (b ! 0) \<longleftrightarrow> c = CR" and len0: "0 < length b"
        using neq asc cnt b eq_byte_ascii [of b 0 c] by (simp_all add: eq_byte_ascii)
      show ?thesis
      proof (cases "c = CR")
        case True
        have e1: "take 1 b @ u = d' @ b @ z" using d True b by simp
        have c1: "1 < length b" using b w by (cases w) auto
        have room': "length (out @ take cnt b) + length d' \<le> disk" using room d by simp
        have "upload_loop mx disk b src n cnt fsize out =
            upload_loop mx disk b s1 (n + 1) 1 (fsize + cnt + 1) (out @ take cnt b)"
          using s1 mx'(1) nb hd0 len0 True False room1
          by (subst upload_loop.simps) (auto simp: Let_def)
        with Cons.IH [OF s1(3) c1 e1 early' mx'(2) room', of "fsize + cnt + 1"] n1 d crd
        show ?thesis by fastforce
      next
        case False': False
        with d b obtain d1 where d1: "d' = c # d1" "u = d1 @ b @ z" by (cases d') auto
        have e0: "take 0 b @ u = d1 @ b @ z" using d1 by simp
        have c0: "0 < length b" using b by simp
        have early1: "no_early d1 b" using no_early_drop [OF early', of 1] d1 by simp
        have room': "length ((out @ take cnt b) @ [c]) + length d1 \<le> disk" using room d d1 by simp
        have "upload_loop mx disk b src n cnt fsize out =
            upload_loop mx disk b s1 (n + 1) 0 (fsize + cnt + 1) ((out @ take cnt b) @ [c])"
          using s1 mx'(1) nb hd0 len0 False' False room1 room'
          by (subst upload_loop.simps) (auto simp: Let_def)
        moreover obtain s2 f2 where
          "upload_loop mx disk b s1 (n + 1) 0 (fsize + cnt + 1) ((out @ take cnt b) @ [c]) =
            Inr (((out @ take cnt b) @ [c]) @ d1, f2, n + 1 + length u - length z, s2)"
          "src_holds s2 z r" "fsize + cnt + 1 + length d1 \<le> f2"
          using Cons.IH [OF s1(3) c0 e0 early1 mx'(2) room', of "fsize + cnt + 1"] by blast
        ultimately show ?thesis using d d1 crd cnt
          by (intro exI [of _ s2] exI [of _ f2]) simp
      qed
    qed
  qed
qed

section \<open>Forms as a client writes them\<close>

datatype form_part = Field string string | File string string string string

definition dq :: string where
  "dq = [CHR 0x22]"

definition disposition :: "string \<Rightarrow> string" where
  "disposition nm = ''Content-Disposition: form-data; name='' @ dq @ nm @ dq"

fun part_body :: "form_part \<Rightarrow> string" where
  "part_body (Field nm v) = disposition nm @ CRLF @ CRLF @ v"
| "part_body (File nm fn mt d) =
     disposition nm @ ''; filename='' @ dq @ fn @ dq @ CRLF @ ''Content-Type: '' @ mt @ CRLF @ CRLF @ d"

fun form_body :: "string \<Rightarrow> form_part list \<Rightarrow> string" where
  "form_body bd [] = bd @ ''--'' @ CRLF"
| "form_body bd (p # ps) = bd @ CRLF @ part_body p @ CRLF @ form_body bd ps"

text \<open>
  What such a form means. The size that is recorded for an upload is left open here: it is at
  least the number of bytes of the file.
\<close>

fun apply_part :: "(nat \<Rightarrow> string) \<Rightarrow> form \<Rightarrow> form_part \<Rightarrow> form" where
  "apply_part nms st (Field nm v) = st\<lparr>fm_params := (fm_params st)(nm \<mapsto> v)\<rparr>"
| "apply_part nms st (File nm fn mt d) =
     (let t = nms (length (fm_uploads st)) in
      st\<lparr>fm_uploads := fm_uploads st @ [\<lparr>fieldname = nm, origname = fn, tmpname = t, mimetype = mt, filesize = 0\<rparr>],
         fm_files := fm_files st @ [(t, d)]\<rparr>)"

definition sans_sizes :: "form \<Rightarrow> form" where
  "sans_sizes st = st\<lparr>fm_uploads := map (\<lambda>u. u\<lparr>filesize := 0\<rparr>) (fm_uploads st)\<rparr>"

fun part_ok :: "string \<Rightarrow> nat \<Rightarrow> form_part \<Rightarrow> bool" where
  "part_ok bd disk (Field nm v) \<longleftrightarrow>
     (\<forall>c \<in> set nm. url_keep c) \<and> no_eol v \<and> v \<noteq> bd \<and> v \<noteq> bd @ ''--''"
| "part_ok bd disk (File nm fn mt d) \<longleftrightarrow>
     (\<forall>c \<in> set nm. url_keep c) \<and> (\<forall>c \<in> set fn. url_keep c) \<and> fn \<noteq> [] \<and>
     no_eol mt \<and> trim_copy mt = mt \<and> no_early d (CRLF @ bd) \<and> length d \<le> disk"

section \<open>Parsing the headers of a part\<close>

lemma urldecode_no_percent: "CHR ''%'' \<notin> set s \<Longrightarrow> urldecode s form = Some s"
  using urldecode_loop_complete [OF escapes_complete_plain, of s form "[]"]
  by (simp add: urldecode_def pct_decode_plain)

lemma trim_copy_space: "isspace c \<Longrightarrow> trim_copy (c # s) = trim_copy s"
  by (simp add: trim_copy_def ltrim_def)

lemma url_keep_plain:
  "url_keep c \<Longrightarrow> c \<noteq> CHR 0x22 \<and> c \<noteq> CHR '';'' \<and> c \<noteq> CHR ''%'' \<and> c \<noteq> CR \<and> c \<noteq> LF \<and> c \<noteq> CHR '':'' \<and> c \<noteq> CHR ''=''"
  by (auto simp: url_keep_def ctype_simps chr_code_def CR_def LF_def)

lemma keep_notin:
  assumes "\<forall>c \<in> set s. url_keep c"
  shows "CHR 0x22 \<notin> set s" "CHR '';'' \<notin> set s" "CHR ''%'' \<notin> set s" "no_eol s" "CHR '':'' \<notin> set s"
  using assms url_keep_plain by (fastforce simp: no_eol_def)+

lemma dq_not_space: "\<not> isspace (CHR 0x22)" "CHR 0x22 \<noteq> CR" "CHR 0x22 \<noteq> LF"
  by (simp_all add: isspace_def chr_code_def CR_def LF_def)

lemma trim_copy_quoted: "trim_copy (dq @ s @ dq) = dq @ s @ dq"
  by (rule trim_copy_id) (simp add: dq_def dq_not_space)

lemma unquote_quoted: "unquote (dq @ s @ dq) = s"
  by (simp add: unquote_def dq_def)

lemma option_step:
  assumes "CHR ''='' \<notin> set n" and "CHR ''%'' \<notin> set n" and "CHR ''%'' \<notin> set v"
  shows "header_options_loop True ((n @ CHR ''='' # dq @ v @ dq) # params) w q =
    header_options_loop True params (dq @ v @ dq) (q(asciitolower (trim_copy n) \<mapsto> dq @ v @ dq))"
  using assms by (simp add: find_char_append urldecode_no_percent trim_copy_quoted)
    (simp add: dq_def urldecode_no_percent trim_copy_quoted [unfolded dq_def, simplified] Let_def)

lemma names:
  "asciitolower (trim_copy '' name'') = ''name''" "asciitolower (trim_copy '' filename'') = ''filename''"
  "asciitolower (trim_copy ''form-data'') = ''form-data''"
  "asciitolower (trim_copy ''Content-Disposition'') = ''content-disposition''"
  "asciitolower (trim_copy ''Content-Type'') = ''content-type''"
  by code_simp+

lemma trim_copy_Nil [simp]: "trim_copy [] = []"
  by (simp add: trim_copy_def ltrim_def rtrim_def)

lemma option_flag:
  assumes "CHR ''='' \<notin> set n" and "CHR ''%'' \<notin> set n"
  shows "header_options_loop True (n # params) [] q =
    header_options_loop True params [] (q(asciitolower (trim_copy n) \<mapsto> []))"
  using assms by (simp add: urldecode_no_percent)

lemma options_field:
  assumes "\<forall>c \<in> set nm. url_keep c"
  shows "parse_header_options (''form-data; name='' @ dq @ nm @ dq) True (CHR '';'') =
     Some [''form-data'' \<mapsto> [], ''name'' \<mapsto> dq @ nm @ dq]"
proof -
  note nm = keep_notin [OF assms]
  have "split_params (CHR '';'') True (''form-data'' @ CHR '';'' # ('' name='' @ dq @ nm @ dq)) =
      [''form-data'', '' name'' @ CHR ''='' # dq @ nm @ dq]"
    using nm by (subst split_params_cons) (simp_all add: dq_def split_params_plain)
  moreover have "header_options_loop True [''form-data'', '' name'' @ CHR ''='' # dq @ nm @ dq] [] Map.empty =
      Some [''form-data'' \<mapsto> [], ''name'' \<mapsto> dq @ nm @ dq]"
    using nm by (subst option_flag, simp, simp, subst option_step) (simp_all only: names, simp_all)
  ultimately show ?thesis by (simp add: parse_header_options_def)
qed

lemma options_file:
  assumes "\<forall>c \<in> set nm. url_keep c" and "\<forall>c \<in> set fn. url_keep c"
  shows "parse_header_options (''form-data; name='' @ dq @ nm @ dq @ ''; filename='' @ dq @ fn @ dq) True (CHR '';'') =
     Some [''form-data'' \<mapsto> [], ''name'' \<mapsto> dq @ nm @ dq, ''filename'' \<mapsto> dq @ fn @ dq]"
proof -
  note nm = keep_notin [OF assms(1)] and fn = keep_notin [OF assms(2)]
  have "split_params (CHR '';'') b ('' filename='' @ dq @ fn @ dq) = ['' filename'' @ CHR ''='' # dq @ fn @ dq]" for b
    using fn by (subst split_params_plain) (simp_all add: dq_def)
  moreover have "split_params (CHR '';'') b (('' name='' @ dq @ nm @ dq) @ CHR '';'' # ('' filename='' @ dq @ fn @ dq)) =
      ('' name='' @ dq @ nm @ dq) # split_params (CHR '';'') False ('' filename='' @ dq @ fn @ dq)" for b
    using nm by (intro split_params_cons) (simp_all add: dq_def)
  moreover have "split_params (CHR '';'') b (''form-data'' @ CHR '';'' # r) =
      ''form-data'' # split_params (CHR '';'') False r" for b r
    by (rule split_params_cons) simp_all
  ultimately have "split_params (CHR '';'') True
      (''form-data'' @ CHR '';'' # (('' name='' @ dq @ nm @ dq) @ CHR '';'' # ('' filename='' @ dq @ fn @ dq))) =
      [''form-data'', '' name'' @ CHR ''='' # dq @ nm @ dq, '' filename'' @ CHR ''='' # dq @ fn @ dq]"
    by simp
  moreover have "header_options_loop True [''form-data'', '' name'' @ CHR ''='' # dq @ nm @ dq,
      '' filename'' @ CHR ''='' # dq @ fn @ dq] [] Map.empty =
      Some [''form-data'' \<mapsto> [], ''name'' \<mapsto> dq @ nm @ dq, ''filename'' \<mapsto> dq @ fn @ dq]"
    using nm fn
    by (subst option_flag, simp, simp, subst option_step, simp, simp, simp, subst option_step)
      (simp_all only: names, simp_all)
  ultimately show ?thesis by (simp add: parse_header_options_def)
qed

lemma trim_quoted_end: "s \<noteq> [] \<Longrightarrow> \<not> isspace (hd s) \<Longrightarrow> trim_copy (CHR '' '' # s @ dq) = s @ dq"
  by (subst trim_copy_space, simp add: isspace_def chr_code_def, rule trim_copy_id)
    (simp add: dq_def dq_not_space)

lemma f_not_space: "\<not> isspace (CHR ''f'')"
  by (simp add: isspace_def chr_code_def)

lemma part_line_field:
  assumes "\<forall>c \<in> set nm. url_keep c"
  shows "part_line (disposition nm) p = Inr (p\<lparr>pt_name := nm\<rparr>)"
proof -
  have d: "disposition nm = ''Content-Disposition'' @ CHR '':'' # CHR '' '' # (''form-data; name='' @ dq @ nm) @ dq"
    by (simp add: disposition_def)
  have t: "trim_copy (CHR '' '' # (''form-data; name='' @ dq @ nm) @ dq) = ''form-data; name='' @ dq @ nm @ dq"
    by (subst trim_quoted_end) (simp_all add: f_not_space)
  have s: "split_header (disposition nm) =
      (''Content-Disposition'', CHR '' '' # (''form-data; name='' @ dq @ nm) @ dq)"
    unfolding d split_header_def by (subst find_char_append) simp_all
  show ?thesis
    unfolding part_line_def s prod.case names t Let_def options_field [OF assms]
    by (simp add: param_value_def unquote_quoted)
qed

lemma part_line_file:
  assumes "\<forall>c \<in> set nm. url_keep c" and "\<forall>c \<in> set fn. url_keep c"
  shows "part_line (disposition nm @ ''; filename='' @ dq @ fn @ dq) p = Inr (p\<lparr>pt_name := nm, pt_file := fn\<rparr>)"
proof -
  have d: "disposition nm @ ''; filename='' @ dq @ fn @ dq = ''Content-Disposition'' @ CHR '':'' # CHR '' '' #
      (''form-data; name='' @ dq @ nm @ dq @ ''; filename='' @ dq @ fn) @ dq"
    by (simp add: disposition_def)
  have t: "trim_copy (CHR '' '' # (''form-data; name='' @ dq @ nm @ dq @ ''; filename='' @ dq @ fn) @ dq) =
      ''form-data; name='' @ dq @ nm @ dq @ ''; filename='' @ dq @ fn @ dq"
    by (subst trim_quoted_end) (simp_all add: f_not_space)
  have s: "split_header (disposition nm @ ''; filename='' @ dq @ fn @ dq) =
      (''Content-Disposition'', CHR '' '' # (''form-data; name='' @ dq @ nm @ dq @ ''; filename='' @ dq @ fn) @ dq)"
    unfolding d split_header_def by (subst find_char_append) simp_all
  show ?thesis
    unfolding part_line_def s prod.case names t Let_def options_file [OF assms]
    by (simp add: param_value_def unquote_quoted)
qed

lemma part_line_type:
  assumes "trim_copy mt = mt"
  shows "part_line (''Content-Type: '' @ mt) p = Inr (p\<lparr>pt_mime := mt\<rparr>)"
proof -
  have d: "''Content-Type: '' @ mt = ''Content-Type'' @ CHR '':'' # (CHR '' '' # mt)" by simp
  have s: "split_header (''Content-Type: '' @ mt) = (''Content-Type'', CHR '' '' # mt)"
    unfolding d split_header_def by (subst find_char_append) simp_all
  have t: "trim_copy (CHR '' '' # mt) = mt"
    using assms by (subst trim_copy_space) (simp_all add: isspace_def chr_code_def)
  show ?thesis unfolding part_line_def s prod.case names t Let_def by simp
qed

lemma no_eol_disposition: "\<forall>c \<in> set nm. url_keep c \<Longrightarrow> no_eol (disposition nm)"
  using keep_notin(4) [of nm] by (simp add: disposition_def dq_def dq_not_space) (simp add: CR_def LF_def)

lemma no_eol_filename: "\<forall>c \<in> set fn. url_keep c \<Longrightarrow> no_eol (''; filename='' @ dq @ fn @ dq)"
  using keep_notin(4) [of fn] by (simp add: dq_def dq_not_space) (simp add: CR_def LF_def)

lemma no_eol_type: "no_eol (''Content-Type: '' @ mt) = no_eol mt"
  by simp (simp add: CR_def LF_def)

section \<open>Reading the parts\<close>

text \<open>\<open>at i s b n\<close>: the stream is good and has \<open>s\<close>; with all of \<open>s\<close> the count stays within \<open>b\<close>.\<close>

definition at :: "istream \<Rightarrow> string \<Rightarrow> bool" where
  "at i s \<longleftrightarrow> is_good i \<and> rest i = s"

definition fits :: "nat \<Rightarrow> nat \<Rightarrow> bool" where
  "fits mx m \<longleftrightarrow> mx < 2 ^ 63 \<and> m < 2 ^ 63 \<and> (mx = 0 \<or> m \<le> mx)"

lemma fits_le: "fits mx m \<Longrightarrow> k \<le> m \<Longrightarrow> fits mx k"
  by (auto simp: fits_def)

lemma sub64_bound: "fits mx (n + k) \<Longrightarrow> l < k \<Longrightarrow> sub64 mx n = 0 \<or> l < sub64 mx n"
proof (cases "mx = 0")
  case True
  assume f: "fits mx (n + k)" and l: "l < k"
  have "(int mx - int n) mod 2 ^ 64 = (if n = 0 then 0 else 2 ^ 64 - int n)"
    using f True by (auto simp: fits_def zmod_zminus1_eq_if)
  with f l show ?thesis by (simp add: sub64_def fits_def) linarith
next
  case False
  assume f: "fits mx (n + k)" and l: "l < k"
  then have "n \<le> mx" "l < mx - n" "mx < 2 ^ 64" using False by (auto simp: fits_def)
  then show ?thesis by (simp add: sub64_le)
qed

lemma read_line_at:
  assumes "at i (line @ CRLF @ s)" and "no_eol line" and "fits mx (n + length line + 2)"
  shows "\<exists>i'. read_line mx n (Plain i) = Inr (line, n + length line + 2, Plain i') \<and> at i' s"
proof -
  have "safeGetline i (sub64 mx n) = Inr (length line + 2, line, i\<lparr>rest := s\<rparr>)"
    using assms sub64_bound [of mx n "length line + 2" "length line"]
    by (intro safeGetline_crlf) (auto simp: at_def add.assoc)
  with assms show ?thesis
    by (auto simp: read_line_def src_bad_def at_def fits_def)
qed

lemma at_src_holds: "at i (xs @ r) \<Longrightarrow> src_holds (Plain i) xs r"
  by (simp add: at_def plain_holds_def)

fun is_plain :: "source \<Rightarrow> bool" where
  "is_plain (Plain i) = True"
| "is_plain (Chunked cr) = False"

lemma src_getc_plain: "src_getc s = Inr (c, s') \<Longrightarrow> is_plain s' = is_plain s"
  by (cases s) (auto split: prod.splits sum.splits)

lemma upload_loop_plain:
  "upload_loop mx d b src n c f out = Inr (out', f', n', src') \<Longrightarrow> is_plain src' = is_plain src"
proof (induction mx d b src n c f out rule: upload_loop.induct)
  case (1 mx d b src n c f out)
  from 1(5) obtain co s1 where g: "src_getc src = Inr (co, s1)"
    by (subst (asm) upload_loop.simps) (auto split: sum.splits)
  show ?case
  proof (cases co)
    case None
    with g src_getc_plain [OF g] 1(5) show ?thesis by (subst (asm) upload_loop.simps) auto
  next
    case (Some x)
    show ?thesis
      using 1(5) g Some src_getc_plain [OF g] 1(1-4) [OF g]
      by (subst (asm) upload_loop.simps) (fastforce simp: Let_def split: if_splits)
  qed
qed

lemma holds_plain_at: "src_holds s xs r \<Longrightarrow> is_plain s \<Longrightarrow> \<exists>i. s = Plain i \<and> at i (xs @ r)"
  by (cases s) (auto simp: at_def plain_holds_def)

lemma CRLF_length [simp]: "CRLF \<noteq> []" "length CRLF = 2"
  by (simp_all add: CRLF_def)

lemma boundary_ok:
  assumes "no_eol bd" and "ascii bd" and "bd \<noteq> []"
  shows "CRLF @ bd = CR # (LF # bd)" "CR \<notin> set (LF # bd)" "LF # bd \<noteq> []" "ascii (CRLF @ bd)"
  using assms by (auto simp: CRLF_def no_eol_def ascii_def CR_def LF_def chr_code_def)

lemma upload_at:
  assumes "at i (d @ CRLF @ bd @ x # y # s)" and "no_eol bd" "ascii bd" "bd \<noteq> []"
    and "no_early d (CRLF @ bd)" and "fits mx (n + length (d @ CRLF @ bd) + 2)" and "length d \<le> disk"
  shows "\<exists>i1 f. upload_loop mx disk (CRLF @ bd) (Plain i) n 0 0 [] =
      Inr (d, f, n + length (d @ CRLF @ bd), Plain i1) \<and>
    after_upload mx bd lb (n + length (d @ CRLF @ bd)) (Plain i1) =
      Inr (if x = CHR ''-'' then lb else bd, n + length (d @ CRLF @ bd) + 1, Plain (i\<lparr>rest := s\<rparr>)) \<and>
    length d \<le> f \<and> (CR \<notin> set d \<longrightarrow> f = length d)"
proof -
  note bok = boundary_ok [OF assms(2-4)]
  have h: "src_holds (Plain i) (d @ CRLF @ bd) (x # y # s)"
    using assms(1) by (intro at_src_holds) simp
  have lim: "mx = 0 \<or> n + length (d @ CRLF @ bd) - length [] \<le> mx" using assms(6) by (auto simp: fits_def)
  obtain src' f where u: "upload_loop mx disk (CRLF @ bd) (Plain i) n 0 0 [] =
      Inr (d, f, n + length (d @ CRLF @ bd), src')" "src_holds src' [] (x # y # s)"
      "length d \<le> f" "CR \<notin> set d \<longrightarrow> f = length d"
    using upload_loop_finds [OF bok, of "Plain i" "d @ CRLF @ bd" "x # y # s" 0 d "[]" mx n "[]" disk 0]
      h lim assms(5,7) by auto
  obtain i1 where i1: "src' = Plain i1" "at i1 (x # y # s)"
    using holds_plain_at [OF u(2)] upload_loop_plain [OF u(1)] by auto
  have "after_upload mx bd lb (n + length (d @ CRLF @ bd)) (Plain i1) =
      Inr (if x = CHR ''-'' then lb else bd, n + length (d @ CRLF @ bd) + 1, Plain (i1\<lparr>rest := s\<rparr>))"
    using i1(2) assms(6) by (auto simp: after_upload_def at_def src_bad_def fits_def)
  moreover have "i1\<lparr>rest := s\<rparr> = i\<lparr>rest := s\<rparr>"
    using i1(2) assms(1) by (auto simp: at_def is_good_def intro: istream.equality)
  ultimately show ?thesis
    using u [unfolded i1(1)] by (intro exI [of _ i1] exI [of _ f]) simp
qed


lemma part_headers_step:
  assumes "line \<noteq> []" and "part_line line p = Inr p'" and "read_line mx n src = Inr (l', n', s')"
  shows "part_headers mx line n src p = part_headers mx l' n' s' p'"
  using assms by (simp add: part_headers.simps [of mx line])

lemma read_part_field:
  assumes "at i (part_body (Field nm v) @ CRLF @ line @ CRLF @ s)" and "part_ok bd disk (Field nm v)"
    and "line = bd \<or> line = bd @ ''--''" and "no_eol bd"
    and "fits (max_post env) (n + length (part_body (Field nm v) @ CRLF @ line @ CRLF))"
  shows "\<exists>i'. read_part env bd (bd @ ''--'') n (Plain i) st =
      Inr (line, n + length (part_body (Field nm v) @ CRLF @ line @ CRLF), Plain i',
        st\<lparr>fm_params := (fm_params st)(nm \<mapsto> v)\<rparr>) \<and> at i' s"
proof -
  let ?d = "disposition nm" and ?mx = "max_post env"
  have ok: "\<forall>c \<in> set nm. url_keep c" "no_eol v" "v \<noteq> bd" "v \<noteq> bd @ ''--''"
    using assms(2) by simp_all
  have nl: "no_eol line" using assms(3,4) by (auto simp: CR_def LF_def)
  have f: "fits ?mx m" if "m \<le> n + length (part_body (Field nm v) @ CRLF @ line @ CRLF)" for m
    using fits_le [OF assms(5) that] .
  have "at i (?d @ CRLF @ CRLF @ v @ CRLF @ line @ CRLF @ s)" using assms(1) by simp
  then obtain i1 where i1: "read_line ?mx n (Plain i) = Inr (?d, n + length ?d + 2, Plain i1)"
    "at i1 ([] @ CRLF @ v @ CRLF @ line @ CRLF @ s)"
    using read_line_at [of i ?d _ ?mx n] no_eol_disposition [OF ok(1)] f by force
  obtain i2 where i2: "read_line ?mx (n + length ?d + 2) (Plain i1) = Inr ([], n + length ?d + 4, Plain i2)"
    "at i2 (v @ CRLF @ line @ CRLF @ s)"
    using read_line_at [OF i1(2), of ?mx "n + length ?d + 2"] f by force
  obtain i3 where i3: "read_line ?mx (n + length ?d + 4) (Plain i2) =
      Inr (v, n + length ?d + 4 + length v + 2, Plain i3)" "at i3 (line @ CRLF @ s)"
    using read_line_at [OF i2(2) ok(2), of ?mx "n + length ?d + 4"] f by force
  obtain i4 where i4: "read_line ?mx (n + length ?d + 4 + length v + 2) (Plain i3) =
      Inr (line, n + length ?d + 4 + length v + 2 + length line + 2, Plain i4)" "at i4 s"
    using read_line_at [OF i3(2) nl, of ?mx "n + length ?d + 4 + length v + 2"] f by force
  have "?d \<noteq> []" by (simp add: disposition_def)
  from part_headers_step [OF this part_line_field [OF ok(1)] i2(1)]
  have "part_headers ?mx ?d (n + length ?d + 2) (Plain i1) mk_part =
      Inr (mk_part\<lparr>pt_name := nm\<rparr>, n + length ?d + 4, Plain i2)"
    by (simp add: part_headers.simps [of ?mx "[]"])
  moreover have "field_value ?mx bd (bd @ ''--'') v (n + length ?d + 4 + length v + 2) (Plain i3) [] =
      Inr (v, line, n + length ?d + 4 + length v + 2 + length line + 2, Plain i4)"
    using ok i4(1) assms(3)
    by (simp add: field_value.simps [of ?mx bd _ v]) (auto simp: field_value.simps)
  moreover have "n + length ?d + 4 + length v + 2 + length line + 2 =
      n + length (part_body (Field nm v) @ CRLF @ line @ CRLF)" by simp
  ultimately show ?thesis
    using i1(1) i3(1) i4(2) by (simp add: read_part_def mk_part_def)
qed


lemma read_part_file:
  assumes "at i (part_body (File nm fn mt d) @ CRLF @ bd @ x # y # s)" and "part_ok bd (disk_room env) (File nm fn mt d)"
    and "no_eol bd" "ascii bd" "bd \<noteq> []"
    and "fits (max_post env) (n + length (part_body (File nm fn mt d) @ CRLF @ bd) + 2)"
    and "tmp_dir env \<noteq> []" and "mkstemp env = (\<lambda>k. Some (nms k))"
  shows "\<exists>i' f n'. read_part env bd lb n (Plain i) st =
      Inr (if x = CHR ''-'' then lb else bd, n', Plain i', st\<lparr>
        fm_uploads := fm_uploads st @ [\<lparr>fieldname = nm, origname = fn,
          tmpname = nms (length (fm_uploads st)), mimetype = mt, filesize = f\<rparr>],
        fm_files := fm_files st @ [(nms (length (fm_uploads st)), d)]\<rparr>) \<and> at i' s \<and>
    length d \<le> f \<and> (CR \<notin> set d \<longrightarrow> f = length d) \<and>
    n' \<le> n + length (part_body (File nm fn mt d) @ CRLF @ bd) + 2"
proof -
  let ?d = "disposition nm @ ''; filename='' @ dq @ fn @ dq" and ?t = "''Content-Type: '' @ mt"
    and ?mx = "max_post env"
  let ?n1 = "n + length ?d + 2" and ?n2 = "n + length ?d + 2 + length ?t + 2"
  have ok: "\<forall>c \<in> set nm. url_keep c" "\<forall>c \<in> set fn. url_keep c" "fn \<noteq> []" "no_eol mt" "trim_copy mt = mt"
    "no_early d (CRLF @ bd)" "length d \<le> disk_room env"
    using assms(2) by simp_all
  have f: "fits ?mx m" if "m \<le> n + length (part_body (File nm fn mt d) @ CRLF @ bd) + 2" for m
    using fits_le [OF assms(6) that] .
  have d: "no_eol ?d" "?d \<noteq> []"
    using no_eol_disposition [OF ok(1)] no_eol_filename [OF ok(2)] by simp_all
  have t: "no_eol ?t" using ok(4) by (simp only: no_eol_type)
  have t0: "?t \<noteq> []" by simp
  have "at i (?d @ CRLF @ (?t @ CRLF @ [] @ CRLF @ d @ CRLF @ bd @ x # y # s))" using assms(1) by simp
  then obtain i1 where i1: "read_line ?mx n (Plain i) = Inr (?d, ?n1, Plain i1)"
    "at i1 (?t @ CRLF @ [] @ CRLF @ d @ CRLF @ bd @ x # y # s)"
    using read_line_at [OF _ d(1), of i _ ?mx n] f by force
  obtain i2 where i2: "read_line ?mx ?n1 (Plain i1) = Inr (?t, ?n2, Plain i2)"
    "at i2 ([] @ CRLF @ d @ CRLF @ bd @ x # y # s)"
    using read_line_at [OF i1(2) t, of ?mx ?n1] f by force
  obtain i3 where i3: "read_line ?mx ?n2 (Plain i2) = Inr ([], ?n2 + 2, Plain i3)"
    "at i3 (d @ CRLF @ bd @ x # y # s)"
    using read_line_at [OF i2(2), of ?mx ?n2] f by force
  have "part_headers ?mx ?d ?n1 (Plain i1) mk_part =
      Inr (mk_part\<lparr>pt_name := nm, pt_file := fn, pt_mime := mt\<rparr>, ?n2 + 2, Plain i3)"
    using part_headers_step [OF d(2) part_line_file [OF ok(1,2)] i2(1)]
      part_headers_step [OF t0 part_line_type [OF ok(5)] i3(1)]
    by (simp add: part_headers.simps [of ?mx "[]"])
  moreover obtain i4 g where
    "upload_loop ?mx (disk_room env) (CRLF @ bd) (Plain i3) (?n2 + 2) 0 0 [] =
       Inr (d, g, ?n2 + 2 + length (d @ CRLF @ bd), Plain i4)"
    "after_upload ?mx bd lb (?n2 + 2 + length (d @ CRLF @ bd)) (Plain i4) =
       Inr (if x = CHR ''-'' then lb else bd, ?n2 + 2 + length (d @ CRLF @ bd) + 1, Plain (i3\<lparr>rest := s\<rparr>))"
    "length d \<le> g" "CR \<notin> set d \<longrightarrow> g = length d"
    using upload_at [OF i3(2) assms(3-5) ok(6) _ ok(7), of ?mx "?n2 + 2" lb] f by force
  moreover have "at (i3\<lparr>rest := s\<rparr>) s" using i3(2) by (simp add: at_def)
  ultimately show ?thesis
    using i1(1) ok(3) assms(7,8)
    by (intro exI [of _ "i3\<lparr>rest := s\<rparr>"] exI [of _ g] exI [of _ "?n2 + 2 + length (d @ CRLF @ bd) + 1"])
      (simp add: read_part_def read_upload_def mk_part_def Let_def)
qed


section \<open>Whole forms\<close>

lemma sans_sizes_apply: "sans_sizes (apply_part nms st p) = apply_part nms (sans_sizes st) p"
  by (cases p) (simp_all add: sans_sizes_def Let_def)

lemma form_loop_parts:
  assumes "no_eol bd" "ascii bd" "bd \<noteq> []" "tmp_dir env \<noteq> []" "mkstemp env = (\<lambda>k. Some (nms k))"
  shows "at i (part_body p @ CRLF @ form_body bd ps @ r) \<Longrightarrow> list_all (part_ok bd (disk_room env)) (p # ps) \<Longrightarrow>
    fits (max_post env) (n + length (part_body p @ CRLF @ form_body bd ps)) \<Longrightarrow>
    \<exists>i' n' st'. form_loop env bd (bd @ ''--'') bd n (Plain i) st = Inr (n', Plain i', st') \<and>
      (at i' r \<or> at i' (CRLF @ r)) \<and> sans_sizes st' = foldl (apply_part nms) (sans_sizes st) (p # ps)"
proof (induction ps arbitrary: p i n st)
  case Nil
  show ?case
  proof (cases p)
    case (Field nm v)
    have "at i (part_body (Field nm v) @ CRLF @ (bd @ ''--'') @ CRLF @ r)" using Nil(1) Field by simp
    moreover have "fits (max_post env) (n + length (part_body (Field nm v) @ CRLF @ (bd @ ''--'') @ CRLF))"
      using Field by (intro fits_le [OF Nil(3)]) simp
    moreover have "part_ok bd (disk_room env) (Field nm v)" using Nil(2) Field by simp
    ultimately obtain i' n' where
      rp: "read_part env bd (bd @ ''--'') n (Plain i) st =
        Inr (bd @ ''--'', n', Plain i', st\<lparr>fm_params := (fm_params st)(nm \<mapsto> v)\<rparr>)" "at i' r"
      using read_part_field [of i nm v "bd @ ''--''" r bd "disk_room env" env n st] assms(1)
      by (auto simp del: part_body.simps part_ok.simps)
    then have "form_loop env bd (bd @ ''--'') bd n (Plain i) st =
        Inr (n', Plain i', st\<lparr>fm_params := (fm_params st)(nm \<mapsto> v)\<rparr>)"
      by (simp add: form_loop.simps [of env bd _ bd]) (simp add: form_loop.simps)
    with rp(2) Field show ?thesis by (auto simp: sans_sizes_def)
  next
    case (File nm fn mt d)
    have "at i (part_body (File nm fn mt d) @ CRLF @ bd @ CHR ''-'' # CHR ''-'' # CRLF @ r)"
      using Nil(1) File by simp
    moreover have "fits (max_post env) (n + length (part_body (File nm fn mt d) @ CRLF @ bd) + 2)"
      using File by (intro fits_le [OF Nil(3)]) simp
    moreover have "part_ok bd (disk_room env) (File nm fn mt d)" using Nil(2) File by simp
    ultimately obtain i' f n' where
      rp: "read_part env bd (bd @ ''--'') n (Plain i) st = Inr (bd @ ''--'', n', Plain i', st\<lparr>
        fm_uploads := fm_uploads st @ [\<lparr>fieldname = nm, origname = fn,
          tmpname = nms (length (fm_uploads st)), mimetype = mt, filesize = f\<rparr>],
        fm_files := fm_files st @ [(nms (length (fm_uploads st)), d)]\<rparr>)" "at i' (CRLF @ r)"
      using read_part_file [of i nm fn mt d bd "CHR ''-''" "CHR ''-''" "CRLF @ r" env n nms "bd @ ''--''" st] assms
      by (auto simp del: part_body.simps part_ok.simps)
    then have "form_loop env bd (bd @ ''--'') bd n (Plain i) st = Inr (n', Plain i', st\<lparr>
        fm_uploads := fm_uploads st @ [\<lparr>fieldname = nm, origname = fn,
          tmpname = nms (length (fm_uploads st)), mimetype = mt, filesize = f\<rparr>],
        fm_files := fm_files st @ [(nms (length (fm_uploads st)), d)]\<rparr>)"
      by (simp add: form_loop.simps [of env bd _ bd]) (simp add: form_loop.simps)
    with rp(2) File show ?thesis by (auto simp: sans_sizes_def Let_def)
  qed
next
  case (Cons q ps)
  let ?tail = "part_body q @ CRLF @ form_body bd ps"
  have "\<exists>i1 n1 st1. read_part env bd (bd @ ''--'') n (Plain i) st = Inr (bd, n1, Plain i1, st1) \<and>
      at i1 (?tail @ r) \<and> n1 \<le> n + length (part_body p @ CRLF @ bd) + 2 \<and>
      sans_sizes st1 = apply_part nms (sans_sizes st) p"
  proof (cases p)
    case (Field nm v)
    have "at i (part_body (Field nm v) @ CRLF @ bd @ CRLF @ ?tail @ r)" using Cons.prems(1) Field by simp
    moreover have "fits (max_post env) (n + length (part_body (Field nm v) @ CRLF @ bd @ CRLF))"
      using Field by (intro fits_le [OF Cons.prems(3)]) simp
    moreover have "part_ok bd (disk_room env) (Field nm v)" using Cons.prems(2) Field by simp
    ultimately obtain i1 where "read_part env bd (bd @ ''--'') n (Plain i) st =
        Inr (bd, n + length (part_body (Field nm v) @ CRLF @ bd @ CRLF), Plain i1,
          st\<lparr>fm_params := (fm_params st)(nm \<mapsto> v)\<rparr>)" "at i1 (?tail @ r)"
      using read_part_field [of i nm v bd "?tail @ r" bd "disk_room env" env n st] assms(1)
      by (auto simp del: part_body.simps part_ok.simps)
    with Field show ?thesis by (auto simp: sans_sizes_def)
  next
    case (File nm fn mt d)
    have "at i (part_body (File nm fn mt d) @ CRLF @ bd @ CR # LF # ?tail @ r)"
      using Cons.prems(1) File by (simp add: CRLF_def)
    moreover have "fits (max_post env) (n + length (part_body (File nm fn mt d) @ CRLF @ bd) + 2)"
      using File by (intro fits_le [OF Cons.prems(3)]) simp
    moreover have "part_ok bd (disk_room env) (File nm fn mt d)" using Cons.prems(2) File by simp
    moreover have "CR \<noteq> CHR ''-''" by (simp add: CR_def)
    ultimately obtain i1 f n1 where "read_part env bd (bd @ ''--'') n (Plain i) st = Inr (bd, n1, Plain i1, st\<lparr>
        fm_uploads := fm_uploads st @ [\<lparr>fieldname = nm, origname = fn,
          tmpname = nms (length (fm_uploads st)), mimetype = mt, filesize = f\<rparr>],
        fm_files := fm_files st @ [(nms (length (fm_uploads st)), d)]\<rparr>)" "at i1 (?tail @ r)"
      "n1 \<le> n + length (part_body (File nm fn mt d) @ CRLF @ bd) + 2"
      using read_part_file [of i nm fn mt d bd CR LF "?tail @ r" env n nms "bd @ ''--''" st] assms
      by (auto simp del: part_body.simps part_ok.simps)
    with File show ?thesis by (auto simp: sans_sizes_def Let_def)
  qed
  then obtain i1 n1 st1 where s1: "read_part env bd (bd @ ''--'') n (Plain i) st = Inr (bd, n1, Plain i1, st1)"
    "at i1 (?tail @ r)" "n1 \<le> n + length (part_body p @ CRLF @ bd) + 2"
    "sans_sizes st1 = apply_part nms (sans_sizes st) p" by blast
  have "form_loop env bd (bd @ ''--'') bd n (Plain i) st = form_loop env bd (bd @ ''--'') bd n1 (Plain i1) st1"
    using s1(1) by (simp add: form_loop.simps [of env bd _ bd n])
  moreover have "fits (max_post env) (n1 + length ?tail)"
    using s1(3) by (intro fits_le [OF Cons.prems(3)]) simp
  ultimately show ?case
    using Cons.IH [of i1 q n1 st1] s1 Cons.prems(2) by simp
qed

lemma upload_loop_plain_bytes:
  assumes b: "b = CR # w" and asc: "ascii b"
  shows "src_holds src (a @ u) r \<Longrightarrow> CR \<notin> set a \<Longrightarrow> mx = 0 \<or> n + length a \<le> mx \<Longrightarrow> length out + length a \<le> disk \<Longrightarrow>
    \<exists>src'. upload_loop mx disk b src n 0 fsize out =
      upload_loop mx disk b src' (n + length a) 0 (fsize + length a) (out @ a) \<and> src_holds src' u r"
proof (induction a arbitrary: src n fsize out)
  case (Cons c a)
  have "src_holds src (c # a @ u) r" using Cons.prems(1) by simp
  from src.getc_checked [OF this] obtain s1 where
    s1: "src_getc src = Inr (Some c, s1)" "\<not> src_bad s1" "src_holds s1 (a @ u) r" by blast
  have "\<not> eq_byte c (b ! 0)" using Cons.prems(2) b by (auto simp: eq_byte_def)
  then have "upload_loop mx disk b src n 0 fsize out =
      upload_loop mx disk b s1 (n + 1) 0 (fsize + 1) (out @ [c])"
    using s1 Cons.prems(3,4) by (subst upload_loop.simps) auto
  with Cons.IH [OF s1(3), of "n + 1" "out @ [c]" "fsize + 1"] Cons.prems show ?case by auto
qed auto

section \<open>Properties\<close>

text \<open>
  reading an uploaded file byte by byte, from the connection or through the chunk reader,
  stops at the first occurrence of the boundary on a line of its own, and has then written
  exactly the bytes before it; the recorded size is theirs if there is no carriage return among
  them.
\<close>

theorem upload_exact:
  assumes "src_holds src (d @ CRLF @ bd @ z) r" and "no_eol bd" and "ascii bd" and "bd \<noteq> []"
    and "no_early d (CRLF @ bd)" and "mx = 0 \<or> n + length (d @ CRLF @ bd) \<le> mx" and "length d \<le> disk"
  shows "\<exists>src' f. upload_loop mx disk (CRLF @ bd) src n 0 0 [] =
      Inr (d, f, n + length (d @ CRLF @ bd), src') \<and> src_holds src' z r \<and>
    length d \<le> f \<and> (CR \<notin> set d \<longrightarrow> f = length d)"
  using upload_loop_finds [OF boundary_ok [OF assms(2-4)], of src "d @ CRLF @ bd @ z" r 0 d z mx n "[]" disk 0]
    assms(1,5-7) by auto

definition upload_example :: source where
  "upload_example = Chunked (mk_chunk_reader (mk_istream (chunks_enc [''a'' @ [CR], LF # ''b'' @ CRLF @ ''--X--''] @ last_chunk @ CRLF)) 0)"

lemma upload_example_holds: "src_holds upload_example ((''a'' @ CRLF @ ''b'') @ CRLF @ ''--X'' @ ''--'') []"
proof -
  have "chunk_holds (mk_chunk_reader (mk_istream (chunks_enc [''a'' @ [CR], LF # ''b'' @ CRLF @ ''--X--''] @ last_chunk @ CRLF)) 0)
      (concat [''a'' @ [CR], LF # ''b'' @ CRLF @ ''--X--'']) []"
    by (rule chunk_holds_start) (simp_all add: chunks_ok_def mk_istream_def is_good_def)
  then show ?thesis by (simp add: upload_example_def CRLF_def)
qed

theorem upload_exact_witness:
  "let d = ''a'' @ CRLF @ ''b''; bd = ''--X'' in
   \<exists>src' f. upload_loop 100 100 (CRLF @ bd) upload_example 7 0 0 [] =
      Inr (d, f, 7 + length (d @ CRLF @ bd), src') \<and> src_holds src' ''--'' [] \<and>
    length d \<le> f \<and> (CR \<notin> set d \<longrightarrow> f = length d)"
  unfolding Let_def
proof (rule upload_exact [OF upload_example_holds])
  show "no_early (''a'' @ CRLF @ ''b'') (CRLF @ ''--X'')" by code_simp
qed (simp_all add: ascii_def chr_code_def CR_def LF_def)

text \<open>
  for a file that ends with a line end (as a text file does), the bytes are right but the
  size in the upload record is one too large: the carriage return of the line end in front of the
  boundary is counted where the partial match is given up and again where it restarts.
\<close>

theorem upload_size_after_line_end:
  assumes "src_holds src ((d @ CRLF) @ CRLF @ bd @ z) r" and "no_eol bd" and "ascii bd" and "bd \<noteq> []"
    and "CR \<notin> set d" and "mx = 0 \<or> n + length (d @ CRLF @ CRLF @ bd) \<le> mx" and "length d + 2 \<le> disk"
  shows "\<exists>src' n'. upload_loop mx disk (CRLF @ bd) src n 0 0 [] =
      Inr (d @ CRLF, length (d @ CRLF) + 1, n', src') \<and> src_holds src' z r"
proof -
  let ?b = "CRLF @ bd"
  note bok = boundary_ok [OF assms(2-4)]
  obtain b0 bs where bd: "bd = b0 # bs" using assms(4) by (cases bd) auto
  with assms(2) have b0: "b0 \<noteq> CR" "b0 \<noteq> LF" by auto
  have h0: "src_holds src (d @ (CR # LF # CR # LF # bd @ z)) r" using assms(1) by (simp add: CRLF_def)
  obtain s0 where s0: "upload_loop mx disk ?b src n 0 0 [] = upload_loop mx disk ?b s0 (n + length d) 0 (length d) d"
    "src_holds s0 (CR # LF # CR # LF # bd @ z) r"
    using upload_loop_plain_bytes [OF bok(1,4) h0 assms(5), of mx n "[]" disk 0] assms(6,7) by auto
  obtain s1 where s1: "src_getc s0 = Inr (Some CR, s1)" "\<not> src_bad s1" "src_holds s1 (LF # CR # LF # bd @ z) r"
    using src.getc_checked [OF s0(2)] by blast
  obtain s2 where s2: "src_getc s1 = Inr (Some LF, s2)" "\<not> src_bad s2" "src_holds s2 (CR # LF # bd @ z) r"
    using src.getc_checked [OF s1(3)] by blast
  obtain s3 where s3: "src_getc s2 = Inr (Some CR, s3)" "\<not> src_bad s3" "src_holds s3 (LF # bd @ z) r"
    using src.getc_checked [OF s2(3)] by blast
  have eqs: "eq_byte CR CR" "eq_byte LF LF" "\<not> eq_byte CR b0"
    using b0 by (simp_all add: eq_byte_def chr_code_def CR_def LF_def)
  have m: "\<not> (mx > 0 \<and> n + length d + 1 > mx)" "\<not> (mx > 0 \<and> n + length d + 1 + 1 > mx)"
    "\<not> (mx > 0 \<and> n + length d + 2 + 1 > mx)" using assms(6) bd by auto
  have e1: "upload_loop mx disk ?b s0 (n + length d) 0 (length d) d =
      upload_loop mx disk ?b s1 (n + length d + 1) 1 (length d) d"
    using s1 m eqs bd by (subst upload_loop.simps) (auto simp: CRLF_def)
  have e2: "upload_loop mx disk ?b s1 (n + length d + 1) 1 (length d) d =
      upload_loop mx disk ?b s2 (n + length d + 2) 2 (length d) d"
    using s2 m eqs bd by (subst upload_loop.simps) (auto simp: CRLF_def numeral_2_eq_2)
  have e3: "upload_loop mx disk ?b s2 (n + length d + 2) 2 (length d) d =
      upload_loop mx disk ?b s3 (n + length d + 3) 1 (length d + 3) (d @ CRLF)"
    using s3 m eqs bd assms(7) by (subst upload_loop.simps) (auto simp: CRLF_def numeral_2_eq_2 numeral_3_eq_3)
  obtain s4 where "upload_loop mx disk ?b s3 (n + length d + 3) 1 (length d + 3) (d @ CRLF) =
      Inr (d @ CRLF, length d + 3, n + length d + 3 + length (LF # bd @ z) - length z, s4)" "src_holds s4 z r"
    using upload_loop_finds [OF bok, of s3 "LF # bd @ z" r 1 "[]" z mx "n + length d + 3" "d @ CRLF" disk
        "length d + 3"] s3(3) assms(6,7)
    by (auto simp: no_early_def) (auto simp: CRLF_def)
  then show ?thesis using s0(1) e1 e2 e3 by auto
qed

theorem upload_size_after_line_end_witness:
  "\<exists>src' n'. upload_loop 0 9 (CRLF @ ''--X'') (Plain (mk_istream (''ab'' @ CRLF @ CRLF @ ''--X--''))) 0 0 0 [] =
      Inr (''ab'' @ CRLF, length (''ab'' @ CRLF) + 1, n', src') \<and> src_holds src' ''--'' []"
proof (rule upload_size_after_line_end)
  show "src_holds (Plain (mk_istream (''ab'' @ CRLF @ CRLF @ ''--X--''))) ((''ab'' @ CRLF) @ CRLF @ ''--X'' @ ''--'') []"
    by (simp add: plain_holds_def mk_istream_def is_good_def)
qed (simp_all add: ascii_def chr_code_def CR_def LF_def)

text \<open>
  C6: reading a form that a client wrote gives its fields, with the last value of a name
  winning, and its files, in their order, and leaves the connection behind the form.
\<close>

theorem form_roundtrip:
  assumes "at i (form_body bd ps @ r)" and "bd = find_boundary (drop 1 opts) []"
    and "no_eol bd" and "ascii bd" and "bd \<noteq> []"
    and "list_all (part_ok bd (disk_room env)) ps" and "fits (max_post env) (length (form_body bd ps))"
    and "tmp_dir env \<noteq> []" and "mkstemp env = (\<lambda>k. Some (nms k))"
  shows "\<exists>i' n st'. read_form env opts (Plain i) st = Inr (n, Plain i', st') \<and>
    (at i' r \<or> at i' (CRLF @ r)) \<and> sans_sizes st' = foldl (apply_part nms) (sans_sizes st) ps"
proof (cases ps)
  case Nil
  have "at i ((bd @ ''--'') @ CRLF @ r)" using assms(1) Nil by simp
  moreover have "no_eol (bd @ ''--'')" using assms(3) by (simp add: CR_def LF_def)
  moreover have "fits (max_post env) (0 + length (bd @ ''--'') + 2)"
    using Nil by (intro fits_le [OF assms(7)]) simp
  ultimately obtain i1 where "read_line (max_post env) 0 (Plain i) =
      Inr (bd @ ''--'', 0 + length (bd @ ''--'') + 2, Plain i1)" "at i1 r"
    using read_line_at by blast
  with assms(2,5) Nil show ?thesis by (simp add: read_form_def form_loop.simps Let_def)
next
  case (Cons p qs)
  have "at i (bd @ CRLF @ part_body p @ CRLF @ form_body bd qs @ r)" using assms(1) Cons by simp
  moreover have "fits (max_post env) (0 + length bd + 2)"
    using Cons by (intro fits_le [OF assms(7)]) simp
  ultimately obtain i1 where i1: "read_line (max_post env) 0 (Plain i) = Inr (bd, 0 + length bd + 2, Plain i1)"
    "at i1 (part_body p @ CRLF @ form_body bd qs @ r)"
    using read_line_at assms(3) by blast
  have "fits (max_post env) (0 + length bd + 2 + length (part_body p @ CRLF @ form_body bd qs))"
    using Cons by (intro fits_le [OF assms(7)]) simp
  with form_loop_parts [OF assms(3-5,8,9) i1(2), of "0 + length bd + 2" st] i1(1) assms(2,5,6) Cons
  show ?thesis by (simp add: read_form_def Let_def)
qed

definition form_example :: "form_part list" where
  "form_example = [Field ''a'' ''1 2'', File ''up'' ''x.txt'' ''text/plain'' (''l1'' @ CRLF @ ''l2'')]"

theorem form_roundtrip_witness:
  "let env = \<lparr>max_post = 1000, tmp_dir = ''/tmp'', mkstemp = (\<lambda>k. Some (dec_string k)), disk_room = 100\<rparr>;
       st = \<lparr>fm_params = Map.empty, fm_uploads = [], fm_files = []\<rparr> in
   \<exists>i' n st'. read_form env [''multipart/form-data'', ''boundary=X''] (Plain (mk_istream (form_body ''--X'' form_example @ ''z''))) st =
      Inr (n, Plain i', st') \<and> (at i' ''z'' \<or> at i' (CRLF @ ''z'')) \<and>
    sans_sizes st' = foldl (apply_part dec_string) (sans_sizes st) form_example"
  unfolding Let_def
proof (rule form_roundtrip [where bd = "''--X''"])
  have "list_all (part_ok ''--X'' 100) form_example" by code_simp
  then show "list_all (part_ok ''--X'' (disk_room \<lparr>max_post = 1000, tmp_dir = ''/tmp'',
      mkstemp = (\<lambda>k. Some (dec_string k)), disk_room = 100\<rparr>)) form_example" by simp
  show "''--X'' = find_boundary (drop 1 [''multipart/form-data'', ''boundary=X'']) []"
    by (simp add: strsplit_def)
  have "length (form_body ''--X'' form_example) \<le> 200" by code_simp
  then show "fits (max_post \<lparr>max_post = 1000, tmp_dir = ''/tmp'', mkstemp = (\<lambda>k. Some (dec_string k)),
      disk_room = 100\<rparr>) (length (form_body ''--X'' form_example))" by (simp add: fits_def)
qed (simp_all add: at_def mk_istream_def is_good_def ascii_def chr_code_def CR_def LF_def)

end
