(* ===== verification/Request.thy ===== *)
theory Request
  imports ConnOut Multipart
begin

text \<open>
  Reading a request: the constructor of \<open>lib/Connection.cpp\<close> with \<open>process_header\<close>. It reads the
  request line, the header, and for the methods that have one the body: url encoded, multipart,
  text, or chunked. When it throws, the object is gone; the state in the result still has the
  output stream, which belongs to the caller.
\<close>

definition lift :: "exn + 'a \<Rightarrow> ('s, 'a) act" where
  [monad_simps]: "lift r = (\<lambda>s. (r, s))"

text \<open>A call that may loop for ever.\<close>

definition of_loop :: "'a option \<Rightarrow> exn + 'a" where
  "of_loop r = (case r of None \<Rightarrow> Inl Diverges | Some x \<Rightarrow> Inr x)"

section \<open>The header\<close>

definition header_entry :: "string \<Rightarrow> (connection, unit) act" where
  "header_entry line =
     (case split_header line of (n, v) \<Rightarrow>
        let name = asciitolower (trim_copy n); value = trim_copy v in sseq
          [smod (\<lambda>c. c\<lparr>header_in := (header_in c)(name \<mapsto> value)\<rparr>),
           (if name = ''connection'' then
              sbind (lift (of_loop (parse_header_options value True (CHR '';''))))
                (\<lambda>opts. smod (\<lambda>c. c\<lparr>keep_alive := (opts ''close'' = None)\<rparr>))
            else if name = ''cookie'' then
              sbind (lift (of_loop (parse_header_options value True (CHR '';''))))
                (\<lambda>opts. smod (\<lambda>c. c\<lparr>cookies_in := opts\<rparr>))
            else if name = ''keep-alive'' then
              sbind (lift (of_loop (parse_header_options value True (CHR '',''))))
                (\<lambda>opts. case opts ''timeout'' of
                    None \<Rightarrow> sret ()
                  | Some t \<Rightarrow> sbind (lift (stoi t)) (\<lambda>k. smod (\<lambda>c. c\<lparr>keep_alive_timeout := k\<rparr>)))
            else if name = ''content-length'' then
              sbind (lift (stoll value)) (\<lambda>k. smod (\<lambda>c. c\<lparr>content_length := k\<rparr>))
            else if name = ''transfer-encoding'' then
              (if value = ''chunked'' then smod (\<lambda>c. c\<lparr>chunked_transfer_in := True\<rparr>) else sret ())
            else if name = ''host'' then smod (\<lambda>c. c\<lparr>host := value\<rparr>)
            else sret ())])"

lemma header_entry_ins: "header_entry line c = (r, c') \<Longrightarrow> ins c' = ins c"
  by (auto simp: header_entry_def act_defs lift_def Let_def split: prod.splits if_splits sum.splits option.splits)

lemma safeGetline_loop_length:
  "safeGetline_loop i t n m = Inr (n', t', i') \<Longrightarrow> length t' + length (rest i') \<le> length t + length (rest i)"
proof (induction i t n m rule: safeGetline_loop.induct)
  case (1 i t n m)
  obtain co i1 where g: "is_get i = (co, i1)" by (cases "is_get i")
  show ?case
  proof (cases co)
    case None
    with g 1(2) show ?thesis
      by (auto simp: safeGetline_loop.simps [of i] is_get_def split: if_splits list.splits)
  next
    case (Some c)
    with g have l: "length (rest i1) < length (rest i)"
      by (auto simp: is_get_def split: if_splits list.splits)
    show ?thesis
    proof (cases "c = LF \<or> c = CR \<or> (m > 0 \<and> n + 1 \<ge> m)")
      case True
      with 1(2) g Some l show ?thesis
        by (auto simp: safeGetline_loop.simps [of i] is_get_def is_peek_def
            split: prod.splits if_splits list.splits)
    next
      case False
      with g Some 1(2) have "safeGetline_loop i1 (t @ [c]) (n + 1) m = Inr (n', t', i')"
        by (auto simp: safeGetline_loop.simps [of i])
      with 1(1) [OF g [symmetric] Some] False l show ?thesis by auto
    qed
  qed
qed

lemma safeGetline_nonempty:
  "safeGetline i m = Inr (n, t, i') \<Longrightarrow> t \<noteq> [] \<Longrightarrow> length (rest i') < length (rest i)"
  using safeGetline_loop_length [of i "[]" 0 m n t i'] by (cases t) (auto simp: safeGetline_def)

function process_header :: "(connection, unit) act" where
  "process_header c =
     (if is_good (ins c) then
        (case safeGetline (ins c) max_headerline_len of
           Inl e \<Rightarrow> (Inl e, c)
         | Inr (_, line, i) \<Rightarrow>
             if line = [] \<or> failbit i then (Inr (), c\<lparr>ins := i\<rparr>)
             else (case header_entry line (c\<lparr>ins := i\<rparr>) of
                 (Inl e, c') \<Rightarrow> (Inl e, c')
               | (Inr _, c') \<Rightarrow> process_header c'))
      else (Inr (), c))"
  by pat_completeness auto
termination
  by (relation "measure (\<lambda>c. length (rest (ins c)))")
    (auto dest!: header_entry_ins [OF sym] dest: safeGetline_nonempty simp: header_entry_ins [OF sym])

declare process_header.simps [simp del]


section \<open>The request line\<close>

text \<open>Three words separated by white space; \<open>None\<close> is the fail bit of the string stream.\<close>

definition next_word :: "string \<Rightarrow> string \<times> string" where
  "next_word s = (let t = dropWhile isspace s in (takeWhile (\<lambda>c. \<not> isspace c) t, dropWhile (\<lambda>c. \<not> isspace c) t))"

definition request_words :: "string \<Rightarrow> (string \<times> string \<times> string) option" where
  "request_words line =
     (let (a, s1) = next_word line; (b, s2) = next_word s1; (v, s3) = next_word s2
      in if a \<noteq> [] \<and> b \<noteq> [] \<and> v \<noteq> [] then Some (a, b, v) else None)"

definition set_uri :: "string \<Rightarrow> (connection, unit) act" where
  "set_uri fulluri =
     (case find_char (CHR ''?'') fulluri of
        None \<Rightarrow> smod (\<lambda>c. c\<lparr>uri := fulluri\<rparr>)
      | Some pos \<Rightarrow> sseq
          [smod (\<lambda>c. c\<lparr>uri := take pos fulluri\<rparr>),
           sbind (lift (of_loop (parse_query_string (drop (pos + 1) fulluri) False)))
             (\<lambda>q. smod (\<lambda>c. c\<lparr>get_params := q, request_params := q\<rparr>))])"

section \<open>Bodies\<close>

text \<open>\<open>content_length > max_post_size\<close> compares in \<open>size_t\<close>.\<close>

definition longer_than :: "int \<Rightarrow> nat \<Rightarrow> bool" where
  "longer_than len mx \<longleftrightarrow> mx > 0 \<and> to_size_t len > mx"

definition malloc_check :: "int \<Rightarrow> (connection, unit) act" where
  "malloc_check len = (if alloc_fails (to_size_t (len + 1)) then sthrow (CsError ''malloc failed!'') else sret ())"

text \<open>A chunked body: the bytes, and \<open>content_length\<close> set to their number.\<close>

definition read_chunked :: "nat \<Rightarrow> (connection, string) act" where
  "read_chunked mx = swith ins (\<lambda>i.
     (case readAll (mk_chunk_reader i mx) of
        Inl e \<Rightarrow> sthrow e
      | Inr (n, buf, cr) \<Rightarrow>
          sbind (smod (\<lambda>c. c\<lparr>ins := cr_ins cr, content_length := int n\<rparr>)) (\<lambda>_.
          sbind (malloc_check (int n)) (\<lambda>_.
          sret (case buf of None \<Rightarrow> [] | Some b \<Rightarrow> take n b)))))"

text \<open>A body of the announced length.\<close>

definition read_sized :: "nat \<Rightarrow> (connection, string) act" where
  "read_sized mx = swith content_length (\<lambda>len.
     if longer_than len mx then sthrow (CsError ''Content bigger than max_post_size'')
     else
       sbind (malloc_check len) (\<lambda>_.
       swith ins (\<lambda>i. case is_read len i of (d, i') \<Rightarrow>
         sbind (smod (\<lambda>c. c\<lparr>ins := i'\<rparr>)) (\<lambda>_.
         if ins_bad i' then sthrow (InputFailure INPUT_READ_FAIL) else sret d))))"

text \<open>The body as a whole, for text, JSON and XML and for the methods \<open>DELETE\<close> and \<open>TRACE\<close>.\<close>

definition read_content :: "nat \<Rightarrow> (connection, unit) act" where
  "read_content mx =
     sif chunked_transfer_in
       (sbind (read_chunked mx) (\<lambda>d. smod (\<lambda>c. c\<lparr>content := Some d\<rparr>)))
       (swhen (\<lambda>c. content_length c > 0)
         (sbind (read_sized mx) (\<lambda>d. smod (\<lambda>c. c\<lparr>content := Some d\<rparr>))))"

text \<open>\<open>string body = bodybuf\<close>: the text ends at the first zero byte. \<open>insert\<close> does not replace.\<close>

definition NUL :: char where "NUL = CHR 0x00"

definition store_urlencoded :: "string \<Rightarrow> (connection, unit) act" where
  "store_urlencoded bodybuf =
     sbind (lift (of_loop (parse_query_string (takeWhile (\<lambda>c. c \<noteq> NUL) bodybuf) True)))
       (\<lambda>q. smod (\<lambda>c. c\<lparr>post_params := q, request_params := q ++ request_params c\<rparr>))"

definition read_urlencoded :: "nat \<Rightarrow> (connection, unit) act" where
  "read_urlencoded mx = sseq
     [sif chunked_transfer_in
        (sbind (read_chunked mx) store_urlencoded)
        (swhen (\<lambda>c. content_length c > 0) (sbind (read_sized mx) store_urlencoded)),
      smod (\<lambda>c. c\<lparr>content_length := 0\<rparr>)]"

text \<open>A multipart body; the result is the files that were written, with their bytes.\<close>

definition read_multipart :: "upload_env \<Rightarrow> string list \<Rightarrow> (connection, (string \<times> string) list) act" where
  "read_multipart env opts = swith id (\<lambda>c.
     if \<not> chunked_transfer_in c \<and> longer_than (content_length c) (max_post env)
     then sthrow (CsError ''Upload bigger than max_post_size'')
     else (case read_form (env\<lparr>tmp_dir := tmpdir c\<rparr>) opts
             (if chunked_transfer_in c then Chunked (mk_chunk_reader (ins c) (max_post env)) else Plain (ins c))
             \<lparr>fm_params = post_params c, fm_uploads = uploads c, fm_files = []\<rparr> of
         Inl e \<Rightarrow> sthrow e
       | Inr (_, src, st) \<Rightarrow>
           sbind (smod (\<lambda>c. c\<lparr>ins := src_ins src, post_params := fm_params st, uploads := fm_uploads st,
                             content_length := 0\<rparr>))
             (\<lambda>_. sret (fm_files st))))"

definition text_type :: "string \<Rightarrow> bool" where
  "text_type t \<longleftrightarrow> t = ''text/plain'' \<or> t = ''application/json'' \<or> t = ''application/ld+json'' \<or> t = ''application/xml''"

text \<open>\<open>header_in["content-type"]\<close> makes an empty entry where there is none.\<close>

definition content_type_opts :: "(connection, string list) act" where
  "content_type_opts = (\<lambda>c. case header_get ''content-type'' c of (v, c') \<Rightarrow> (Inr (process_header_value v), c'))"

definition read_body :: "upload_env \<Rightarrow> (connection, (string \<times> string) list) act" where
  "read_body env = sbind content_type_opts (\<lambda>opts.
     if hd opts = ''application/x-www-form-urlencoded'' then
       sbind (read_urlencoded (max_post env)) (\<lambda>_. sret [])
     else if hd opts = ''multipart/form-data'' then read_multipart env opts
     else if text_type (hd opts) then
       sbind (smod (\<lambda>c. c\<lparr>content_type := hd opts\<rparr>)) (\<lambda>_.
       sbind (read_content (max_post env)) (\<lambda>_. sret []))
     else sthrow (CsError ''Content type not supported!''))"

definition read_typed_content :: "nat \<Rightarrow> (connection, unit) act" where
  "read_typed_content mx = sbind content_type_opts (\<lambda>opts. sseq
     [smod (\<lambda>c. c\<lparr>content_type := hd opts\<rparr>), read_content mx])"

section \<open>The constructor\<close>

definition cors_origin :: "(connection, unit) act" where
  "cors_origin = swith (\<lambda>c. header_in c ''origin'') (\<lambda>og. case og of
     None \<Rightarrow> sret ()
   | Some origin \<Rightarrow> smod (\<lambda>c. c\<lparr>header_out := (header_out c)(''Access-Control-Allow-Origin'' \<mapsto> origin,
       ''Access-Control-Allow-Credentials'' \<mapsto> ''true'')\<rparr>))"

definition options_request :: "(connection, unit) act" where
  "options_request = swith id (\<lambda>c.
     let origin = param_value (header_in c) ''origin'';
         meth = param_value (header_in c) ''access-control-request-method'';
         xreq = param_value (header_in c) ''access-control-request-headers''
     in if origin \<noteq> [] \<and> meth \<noteq> [] \<and> xreq \<noteq> [] then sseq
          [smod (\<lambda>c. c\<lparr>http_method := OPTIONS,
             header_out := (header_out c)(''Access-Control-Allow-Methods'' \<mapsto> ''GET, POST, PUT, DELETE'',
               ''Access-Control-Allow-Headers'' \<mapsto> xreq, ''Content-Type'' \<mapsto> ''text/plain'')\<rparr>),
           flush,
           smod (\<lambda>c. c\<lparr>reset_connection := True\<rparr>)]
        else smod (\<lambda>c. c\<lparr>http_method := OPTIONS\<rparr>))"

definition set_method :: "http_methods \<Rightarrow> (connection, unit) act" where
  "set_method m = smod (\<lambda>c. c\<lparr>http_method := m\<rparr>)"

definition dispatch_method :: "upload_env \<Rightarrow> string \<Rightarrow> (connection, (string \<times> string) list) act" where
  "dispatch_method env method_in =
     (if method_in = ''OPTIONS'' then sbind options_request (\<lambda>_. sret [])
      else if method_in = ''GET'' then sbind (set_method GET) (\<lambda>_. sret [])
      else if method_in = ''HEAD'' then sbind (set_method HEAD) (\<lambda>_. sret [])
      else if method_in = ''POST'' \<or> method_in = ''PUT'' then
        sbind (set_method (if method_in = ''POST'' then POST else PUT)) (\<lambda>_. read_body env)
      else if method_in = ''DELETE'' then
        sbind (read_typed_content (max_post env)) (\<lambda>_. sbind (set_method DELETE) (\<lambda>_. sret []))
      else if method_in = ''TRACE'' then
        sbind (read_typed_content (max_post env)) (\<lambda>_. sbind (set_method TRACE) (\<lambda>_. sret []))
      else if method_in = ''CONNECT'' then sbind (set_method CONNECT) (\<lambda>_. sret [])
      else sbind (set_method OTHER) (\<lambda>_. sret []))"

definition input_check :: "(connection, unit) act" where
  "input_check = swhen (\<lambda>c. ins_bad (ins c)) (sthrow (InputFailure INPUT_READ_FAIL))"

definition read_request_line :: "(connection, string) act" where
  "read_request_line = swith ins (\<lambda>i.
     (case safeGetline i max_headerline_len of
        Inl e \<Rightarrow> sthrow e
      | Inr (n, line, i') \<Rightarrow>
          sbind (smod (\<lambda>c. c\<lparr>ins := i'\<rparr>)) (\<lambda>_.
          if n = 0 \<or> line = [] \<or> ins_bad i' then sthrow (InputFailure INPUT_READ_FAIL) else sret line)))"

definition read_request :: "upload_env \<Rightarrow> (connection, (string \<times> string) list) act" where
  "read_request env = sbind read_request_line (\<lambda>line.
     (case request_words line of
        None \<Rightarrow> sthrow (CsError ''Invalid HTTP header!'')
      | Some (method_in, fulluri, version) \<Rightarrow>
          sbind (sseq [smod (\<lambda>c. c\<lparr>http_version := version\<rparr>), set_uri fulluri, process_header, input_check, cors_origin])
            (\<lambda>_. dispatch_method env method_in)))"

definition new_connection ::
  "upload_env \<Rightarrow> istream \<Rightarrow> ostream \<Rightarrow> nat \<Rightarrow> nat \<Rightarrow> ((string \<rightharpoonup> string) \<Rightarrow> (string \<times> string) list)
   \<Rightarrow> (exn + (string \<times> string) list) \<times> connection" where
  "new_connection env ins_p os_p buf_size buf_inc it =
     read_request env (init_connection ins_p os_p (tmp_dir env) buf_size buf_inc it)"

end
