(* ===== verification/RequestRead.thy ===== *)
theory RequestRead
  imports Request ConnSend
begin

text \<open>
  Properties of the reader of requests: the request line, the header and the bodies of requests
  as a client writes them, the limit on bodies for arbitrary input, and the preflight requests of
  CORS.
\<close>

section \<open>Requests as a client writes them\<close>

definition request_line :: "string \<Rightarrow> string \<Rightarrow> string" where
  "request_line meth target = meth @ '' '' @ target @ '' HTTP/1.1''"

definition header_text :: "(string \<times> string) list \<Rightarrow> string" where
  "header_text hs = concat (map header_line hs) @ CRLF"

text \<open>
  The meaning of a header for the connection, for headers whose value cannot make the parser
  fail. Names are not case sensitive; a repeated name replaces the value.
\<close>

fun apply_header :: "connection \<Rightarrow> string \<times> string \<Rightarrow> connection" where
  "apply_header c (n, v) =
     (let name = asciitolower n;
          c1 = c\<lparr>header_in := (header_in c)(name \<mapsto> v)\<rparr>
      in if name = ''content-length'' then
           (case stoll v of Inr k \<Rightarrow> c1\<lparr>content_length := k\<rparr> | Inl _ \<Rightarrow> c1)
         else if name = ''transfer-encoding'' \<and> v = ''chunked'' then c1\<lparr>chunked_transfer_in := True\<rparr>
         else if name = ''host'' then c1\<lparr>host := v\<rparr>
         else c1)"

fun header_ok :: "string \<times> string \<Rightarrow> bool" where
  "header_ok (n, v) \<longleftrightarrow>
     n \<noteq> [] \<and> CHR '':'' \<notin> set n \<and> no_eol n \<and> no_eol v \<and> trim_copy n = n \<and> trim_copy v = v \<and>
     length n + length v + 2 < max_headerline_len \<and>
     asciitolower n \<notin> {''connection'', ''cookie'', ''keep-alive''} \<and>
     (asciitolower n = ''content-length'' \<longrightarrow> (case stoll v of Inr k \<Rightarrow> True | Inl _ \<Rightarrow> False))"

declare apply_header.simps [simp del]

lemma header_entry_ok:
  assumes "header_ok (n, v)"
  shows "header_entry (n @ '': '' @ v) c = (Inr (), apply_header c (n, v))"
proof -
  have "split_header (n @ CHR '':'' # (CHR '' '' # v)) = (n, CHR '' '' # v)"
    using assms unfolding split_header_def by (subst find_char_append) simp_all
  then have s: "split_header (n @ '': '' @ v) = (n, CHR '' '' # v)" by simp
  have t: "trim_copy (CHR '' '' # v) = v" "trim_copy n = n"
    using assms by (simp_all add: trim_copy_def ltrim_def isspace_def chr_code_def)
  define name where "name = asciitolower n"
  have nm: "name \<noteq> ''connection''" "name \<noteq> ''cookie''" "name \<noteq> ''keep-alive''"
    using assms by (simp_all add: name_def)
  note unf = header_entry_def s prod.case Let_def t name_def [symmetric] apply_header.simps sseq.simps smod_def
  show ?thesis
  proof (cases "name = ''content-length''")
    case True
    with assms obtain k where "stoll v = Inr k" by (cases "stoll v") (auto simp: name_def)
    with True show ?thesis unfolding unf by (simp add: act_defs lift_def)
  next
    case False
    then show ?thesis using nm unfolding unf by (simp add: act_defs)
  qed
qed

lemma header_ok_line:
  assumes "header_ok (n, v)"
  shows "no_eol (n @ '': '' @ v)" "n @ '': '' @ v \<noteq> []" "length (n @ '': '' @ v) < max_headerline_len"
  using assms by (simp_all) (simp add: CR_def LF_def)

lemma process_header_line:
  assumes "is_good (ins c)" and "rest (ins c) = line @ CRLF @ s" and "no_eol line" and "line \<noteq> []"
    and "length line < max_headerline_len"
  shows "process_header c = (case header_entry line (c\<lparr>ins := (ins c)\<lparr>rest := s\<rparr>\<rparr>) of
     (Inl e, c') \<Rightarrow> (Inl e, c') | (Inr _, c') \<Rightarrow> process_header c')"
proof -
  have "safeGetline (ins c) max_headerline_len = Inr (length line + 2, line, (ins c)\<lparr>rest := s\<rparr>)"
    using assms by (intro safeGetline_crlf) auto
  with assms show ?thesis by (simp add: process_header.simps [of c] is_good_def)
qed

lemma process_header_end:
  assumes "is_good (ins c)" and "rest (ins c) = CRLF @ s"
  shows "process_header c = (Inr (), c\<lparr>ins := (ins c)\<lparr>rest := s\<rparr>\<rparr>)"
  using assms end_line [OF assms] by (simp add: process_header.simps [of c])

lemma apply_header_ins [simp]: "ins (apply_header c h) = ins c"
  by (cases h) (simp add: apply_header.simps Let_def split: sum.split)

lemma apply_header_set_ins: "apply_header (c\<lparr>ins := i\<rparr>) h = (apply_header c h)\<lparr>ins := i\<rparr>"
  by (cases h) (simp add: apply_header.simps Let_def split: sum.split)

lemma process_header_text:
  "is_good (ins c) \<Longrightarrow> rest (ins c) = header_text hs @ s \<Longrightarrow> list_all header_ok hs \<Longrightarrow>
   process_header c = (Inr (), foldl apply_header (c\<lparr>ins := (ins c)\<lparr>rest := s\<rparr>\<rparr>) hs)"
proof (induction hs arbitrary: c)
  case Nil
  then show ?case by (simp add: header_text_def process_header_end)
next
  case (Cons h hs)
  obtain n v where h: "h = (n, v)" by (cases h)
  with Cons.prems(3) have ok: "header_ok (n, v)" by simp
  let ?c1 = "apply_header (c\<lparr>ins := (ins c)\<lparr>rest := header_text hs @ s\<rparr>\<rparr>) (n, v)"
  have "process_header c = process_header ?c1"
    using process_header_line [OF Cons.prems(1) _ header_ok_line [OF ok], of "header_text hs @ s"]
      Cons.prems(2) h header_entry_ok [OF ok]
    by (simp add: header_text_def header_line_def)
  also have "\<dots> = (Inr (), foldl apply_header (?c1\<lparr>ins := (ins ?c1)\<lparr>rest := s\<rparr>\<rparr>) hs)"
    using Cons.prems by (intro Cons.IH) auto
  also have "?c1\<lparr>ins := (ins ?c1)\<lparr>rest := s\<rparr>\<rparr> = apply_header (c\<lparr>ins := (ins c)\<lparr>rest := s\<rparr>\<rparr>) (n, v)"
    by (simp add: apply_header_set_ins)
  finally show ?case using h by simp
qed

section \<open>The request line\<close>

definition word_ok :: "string \<Rightarrow> bool" where
  "word_ok w \<longleftrightarrow> w \<noteq> [] \<and> (\<forall>c \<in> set w. \<not> isspace c)"

lemma next_word_ok:
  "word_ok w \<Longrightarrow> next_word (w @ CHR '' '' # s) = (w, CHR '' '' # s)"
  "word_ok w \<Longrightarrow> next_word (CHR '' '' # w @ CHR '' '' # s) = (w, CHR '' '' # s)"
  "word_ok w \<Longrightarrow> next_word (CHR '' '' # w) = (w, [])"
proof -
  have sp: "isspace (CHR '' '')" by (simp add: isspace_def chr_code_def)
  assume w: "word_ok w"
  then have d: "dropWhile isspace (w @ t) = w @ t" for t by (cases w) (auto simp: word_ok_def)
  have t: "takeWhile (\<lambda>c. \<not> isspace c) (w @ CHR '' '' # s) = w" "dropWhile (\<lambda>c. \<not> isspace c) (w @ CHR '' '' # s) = CHR '' '' # s"
    using w sp by (auto simp: word_ok_def)
  have t': "takeWhile (\<lambda>c. \<not> isspace c) w = w" "dropWhile (\<lambda>c. \<not> isspace c) w = []"
    using w by (auto simp: word_ok_def takeWhile_eq_all_conv)
  show "next_word (w @ CHR '' '' # s) = (w, CHR '' '' # s)"
    "next_word (CHR '' '' # w @ CHR '' '' # s) = (w, CHR '' '' # s)"
    "next_word (CHR '' '' # w) = (w, [])"
    using d [of "CHR '' '' # s"] d [of "[]"] t t' sp by (simp_all add: next_word_def)
qed

lemma http_word: "word_ok ''HTTP/1.1''"
  by (simp add: word_ok_def isspace_def chr_code_def)

lemma request_words_ok:
  assumes "word_ok meth" and "word_ok target"
  shows "request_words (request_line meth target) = Some (meth, target, ''HTTP/1.1'')"
  using assms next_word_ok(1) [OF assms(1), of "target @ '' HTTP/1.1''"]
    next_word_ok(2) [OF assms(2), of "''HTTP/1.1''"] next_word_ok(3) [OF http_word] http_word
  by (simp add: request_words_def request_line_def word_ok_def)

lemma word_no_eol: "word_ok w \<Longrightarrow> no_eol w"
  by (auto simp: word_ok_def no_eol_def isspace_def CR_def LF_def chr_code_def)

lemma request_line_no_eol: "word_ok meth \<Longrightarrow> word_ok target \<Longrightarrow> no_eol (request_line meth target)"
  using word_no_eol [of meth] word_no_eol [of target]
  by (simp add: request_line_def) (simp add: CR_def LF_def)

text \<open>Reading the first line and the header of such a request.\<close>

lemma read_request_start:
  assumes "is_good (ins c)" and "rest (ins c) = request_line meth target @ CRLF @ header_text hs @ s"
    and "word_ok meth" and "word_ok target" and "list_all header_ok hs"
    and "length (request_line meth target) < max_headerline_len"
    and "set_uri target c1 = (Inr (), c2)"
    and "c1 = c\<lparr>ins := (ins c)\<lparr>rest := header_text hs @ s\<rparr>, http_version := ''HTTP/1.1''\<rparr>"
    and "ins c2 = ins c1"
    and "c3 = foldl apply_header (c2\<lparr>ins := (ins c)\<lparr>rest := s\<rparr>\<rparr>) hs"
  shows "read_request env c = sbind cors_origin (\<lambda>_. dispatch_method env meth) c3"
proof -
  have l: "safeGetline (ins c) max_headerline_len =
      Inr (length (request_line meth target) + 2, request_line meth target, (ins c)\<lparr>rest := header_text hs @ s\<rparr>)"
    using assms(1-4,6) request_line_no_eol by (intro safeGetline_crlf) auto
  have ne: "request_line meth target \<noteq> []" by (simp add: request_line_def)
  have rl: "read_request_line c = (Inr (request_line meth target), c\<lparr>ins := (ins c)\<lparr>rest := header_text hs @ s\<rparr>\<rparr>)"
    using l ne assms(1) by (simp add: read_request_line_def act_defs)
  have ph: "process_header c2 = (Inr (), c3)"
    using process_header_text [of c2 hs s] assms(1,5,8,9,10) by simp
  have i3: "ins c3 = (ins c)\<lparr>rest := s\<rparr>"
  proof -
    have "ins (foldl apply_header d hs) = ins d" for d by (induction hs arbitrary: d) auto
    with assms(10) show ?thesis by simp
  qed
  have "read_request env c = (case sseq [smod (\<lambda>c. c\<lparr>http_version := ''HTTP/1.1''\<rparr>), set_uri target, process_header,
        input_check, cors_origin] (c\<lparr>ins := (ins c)\<lparr>rest := header_text hs @ s\<rparr>\<rparr>) of
      (Inl e, c') \<Rightarrow> (Inl e, c') | (Inr _, c') \<Rightarrow> dispatch_method env meth c')"
    using rl request_words_ok [OF assms(3,4)] by (simp add: read_request_def sbind_def)
  also have "\<dots> = sbind cors_origin (\<lambda>_. dispatch_method env meth) c3"
    using assms(1,7,8) ph i3
    by (simp add: smod_def input_check_def swhen_def sbind_def split: prod.split sum.split)
  finally show ?thesis .
qed

section \<open>What the header leaves\<close>

definition lowered :: "(string \<times> string) list \<Rightarrow> (string \<times> string) list" where
  "lowered hs = map (\<lambda>(n, v). (asciitolower n, v)) hs"

lemma lowered_snoc [simp]: "lowered (hs @ [(n, v)]) = lowered hs @ [(asciitolower n, v)]" "lowered [] = []"
  by (simp_all add: lowered_def)

lemma apply_header_frame [simp]:
  "uri (apply_header c h) = uri c" "get_params (apply_header c h) = get_params c"
  "request_params (apply_header c h) = request_params c" "os (apply_header c h) = os c"
  "header_sent (apply_header c h) = header_sent c" "header_out (apply_header c h) = header_out c"
  "tmpdir (apply_header c h) = tmpdir c" "outbuf (apply_header c h) = outbuf c"
  "chunked_transfer_out (apply_header c h) = chunked_transfer_out c" "finished (apply_header c h) = finished c"
  "reset_connection (apply_header c h) = reset_connection c" "map_iter (apply_header c h) = map_iter c"
  by (cases h; simp add: apply_header.simps Let_def split: sum.split)+

lemma foldl_frame:
  assumes "\<And>c h. f (apply_header c h) = f c"
  shows "f (foldl apply_header c hs) = f c"
  using assms by (induction hs arbitrary: c) simp_all

lemma apply_header_in: "header_in (apply_header c (n, v)) = (header_in c)(asciitolower n \<mapsto> v)"
  by (simp add: apply_header.simps Let_def split: sum.split)

lemma headers_header_in: "header_in (foldl apply_header c hs) = header_in c ++ map_of (rev (lowered hs))"
proof (induction hs rule: rev_induct)
  case (snoc h hs)
  obtain n v where "h = (n, v)" by (cases h)
  with snoc show ?case by (auto simp: apply_header_in map_add_def fun_eq_iff)
qed simp

lemma headers_length:
  "map_of (rev (lowered hs)) ''content-length'' = Some v \<Longrightarrow> stoll v = Inr k \<Longrightarrow>
   content_length (foldl apply_header c hs) = k"
proof (induction hs rule: rev_induct)
  case (snoc h hs)
  obtain n w where "h = (n, w)" by (cases h)
  with snoc show ?case
    by (auto simp: apply_header.simps Let_def split: sum.split if_splits)
qed simp

lemma headers_chunked:
  "chunked_transfer_in (foldl apply_header c hs) \<longleftrightarrow>
   chunked_transfer_in c \<or> (''transfer-encoding'', ''chunked'') \<in> set (lowered hs)"
proof (induction hs rule: rev_induct)
  case (snoc h hs)
  obtain n v where "h = (n, v)" by (cases h)
  with snoc show ?case
    by (auto simp: apply_header.simps Let_def split: sum.split)
qed simp

text \<open>The state when the header is read and before the method is looked at.\<close>

definition after_header :: "connection \<Rightarrow> (string \<times> string) list \<Rightarrow> string \<Rightarrow> connection" where
  "after_header c hs s = snd (cors_origin (foldl apply_header (c\<lparr>ins := (ins c)\<lparr>rest := s\<rparr>\<rparr>) hs))"

lemma cors_origin_returns: "cors_origin c = (Inr (), snd (cors_origin c))"
  by (simp add: cors_origin_def act_defs split: option.split)

lemma cors_frame:
  "ins (snd (cors_origin c)) = ins c" "uri (snd (cors_origin c)) = uri c"
  "get_params (snd (cors_origin c)) = get_params c" "request_params (snd (cors_origin c)) = request_params c"
  "header_in (snd (cors_origin c)) = header_in c" "os (snd (cors_origin c)) = os c"
  "header_sent (snd (cors_origin c)) = header_sent c" "content_length (snd (cors_origin c)) = content_length c"
  "chunked_transfer_in (snd (cors_origin c)) = chunked_transfer_in c"
  "outbuf (snd (cors_origin c)) = outbuf c" "finished (snd (cors_origin c)) = finished c"
  "chunked_transfer_out (snd (cors_origin c)) = chunked_transfer_out c"
  "reset_connection (snd (cors_origin c)) = reset_connection c" "map_iter (snd (cors_origin c)) = map_iter c"
  by (simp_all add: cors_origin_def act_defs split: option.split)

lemma after_header_simps [simp]:
  "ins (after_header c hs s) = (ins c)\<lparr>rest := s\<rparr>" "uri (after_header c hs s) = uri c"
  "get_params (after_header c hs s) = get_params c" "request_params (after_header c hs s) = request_params c"
  "header_in (after_header c hs s) = header_in c ++ map_of (rev (lowered hs))"
  "os (after_header c hs s) = os c" "header_sent (after_header c hs s) = header_sent c"
  "outbuf (after_header c hs s) = outbuf c" "finished (after_header c hs s) = finished c"
  "chunked_transfer_out (after_header c hs s) = chunked_transfer_out c"
  "reset_connection (after_header c hs s) = reset_connection c" "map_iter (after_header c hs s) = map_iter c"
  by (simp_all add: after_header_def cors_frame foldl_frame headers_header_in)

lemma after_header_length:
  "map_of (rev (lowered hs)) ''content-length'' = Some v \<Longrightarrow> stoll v = Inr k \<Longrightarrow>
   content_length (after_header c hs s) = k"
  by (simp add: after_header_def cors_frame headers_length)

lemma after_header_chunked:
  "chunked_transfer_in (after_header c hs s) \<longleftrightarrow>
   chunked_transfer_in c \<or> (''transfer-encoding'', ''chunked'') \<in> set (lowered hs)"
  by (simp add: after_header_def cors_frame headers_chunked)

text \<open>The request target and what it stands for.\<close>

definition query_text :: "(string \<times> string) list \<Rightarrow> string" where
  "query_text kvs = join_params (CHR ''&'') (map query_param kvs)"

definition target_text :: "string \<Rightarrow> (string \<times> string) list \<Rightarrow> string" where
  "target_text path kvs = path @ CHR ''?'' # query_text kvs"

lemma parse_query_text: "parse_query_string (query_text kvs) False = Some (map_of (rev kvs))"
proof -
  have "split_params (CHR ''&'') True (query_text kvs) = map query_param kvs"
    unfolding query_text_def
    by (rule split_params_join) (auto simp: query_param_def urlencode_no_sep)
  then show ?thesis by (simp add: parse_query_string_def query_string_loop_params)
qed

lemma set_join: "set (join_params sep xs) \<subseteq> insert sep (\<Union> (set ` set xs))"
  by (induction sep xs rule: join_params.induct) auto

lemma query_word: "c \<in> set (query_text kvs) \<Longrightarrow> \<not> isspace c"
proof -
  have k: "\<not> isspace d" if "d \<in> set (urlencode v)" for d v
    using set_urlencode [OF that] by (auto simp: url_keep_def ctype_simps chr_code_def)
  assume "c \<in> set (query_text kvs)"
  then have "c = CHR ''&'' \<or> (\<exists>kv \<in> set kvs. c \<in> set (query_param kv))"
    using set_join [of "CHR ''&''" "map query_param kvs"] by (auto simp: query_text_def)
  then show ?thesis using k by (auto simp: query_param_def isspace_def chr_code_def)
qed

lemma target_word: "word_ok path \<Longrightarrow> word_ok (target_text path kvs)"
  using query_word by (auto simp: word_ok_def target_text_def isspace_def chr_code_def)

lemma set_uri_target:
  assumes "CHR ''?'' \<notin> set path"
  shows "set_uri (target_text path kvs) c =
    (Inr (), c\<lparr>uri := path, get_params := map_of (rev kvs), request_params := map_of (rev kvs)\<rparr>)"
  using assms
  by (simp add: set_uri_def target_text_def find_char_append of_loop_def parse_query_text act_defs lift_def)

lemma set_uri_path:
  assumes "CHR ''?'' \<notin> set path"
  shows "set_uri path c = (Inr (), c\<lparr>uri := path\<rparr>)"
  using assms by (simp add: set_uri_def act_defs)

text \<open>A request up to its method, with and without a query.\<close>

lemma read_request_query:
  assumes "is_good (ins c)" and "rest (ins c) = request_line meth (target_text path kvs) @ CRLF @ header_text hs @ s"
    and "word_ok meth" and "word_ok path" and "CHR ''?'' \<notin> set path" and "list_all header_ok hs"
    and "length (request_line meth (target_text path kvs)) < max_headerline_len"
  shows "read_request env c = dispatch_method env meth (after_header (c\<lparr>http_version := ''HTTP/1.1'', uri := path,
    get_params := map_of (rev kvs), request_params := map_of (rev kvs)\<rparr>) hs s)"
proof -
  let ?c1 = "c\<lparr>ins := (ins c)\<lparr>rest := header_text hs @ s\<rparr>, http_version := ''HTTP/1.1''\<rparr>"
  let ?c2 = "?c1\<lparr>uri := path, get_params := map_of (rev kvs), request_params := map_of (rev kvs)\<rparr>"
  let ?c3 = "foldl apply_header (?c2\<lparr>ins := (ins c)\<lparr>rest := s\<rparr>\<rparr>) hs"
  have "read_request env c = sbind cors_origin (\<lambda>_. dispatch_method env meth) ?c3"
    using assms target_word [OF assms(4)] set_uri_target [OF assms(5), of kvs ?c1]
    by (intro read_request_start [where ?c1.0 = ?c1 and ?c2.0 = ?c2]) auto
  then show ?thesis
    using cors_origin_returns [of ?c3] by (simp add: sbind_def after_header_def split: prod.splits)
qed

lemma read_request_path:
  assumes "is_good (ins c)" and "rest (ins c) = request_line meth path @ CRLF @ header_text hs @ s"
    and "word_ok meth" and "word_ok path" and "CHR ''?'' \<notin> set path" and "list_all header_ok hs"
    and "length (request_line meth path) < max_headerline_len"
  shows "read_request env c = dispatch_method env meth (after_header (c\<lparr>http_version := ''HTTP/1.1'', uri := path\<rparr>) hs s)"
proof -
  let ?c1 = "c\<lparr>ins := (ins c)\<lparr>rest := header_text hs @ s\<rparr>, http_version := ''HTTP/1.1''\<rparr>"
  let ?c2 = "?c1\<lparr>uri := path\<rparr>"
  let ?c3 = "foldl apply_header (?c2\<lparr>ins := (ins c)\<lparr>rest := s\<rparr>\<rparr>) hs"
  have "read_request env c = sbind cors_origin (\<lambda>_. dispatch_method env meth) ?c3"
    using assms set_uri_path [OF assms(5), of ?c1]
    by (intro read_request_start [where ?c1.0 = ?c1 and ?c2.0 = ?c2]) auto
  then show ?thesis
    using cors_origin_returns [of ?c3] by (simp add: sbind_def after_header_def split: prod.splits)
qed

section \<open>Bodies\<close>

lemma process_header_value_plain: "CHR '';'' \<notin> set t \<Longrightarrow> trim_copy t = t \<Longrightarrow> process_header_value t = [t]"
  by (simp add: process_header_value.simps)

lemma text_type_opts: "text_type t \<Longrightarrow> process_header_value t = [t]"
  by (rule process_header_value_plain) (auto simp: text_type_def trim_copy_def ltrim_def rtrim_def isspace_def chr_code_def)

lemma text_type_not_form: "text_type t \<Longrightarrow> t \<noteq> ''application/x-www-form-urlencoded'' \<and> t \<noteq> ''multipart/form-data''"
  by (auto simp: text_type_def)

lemma read_content_sized:
  assumes "is_good (ins c)" and "rest (ins c) = body @ r" and "content_length c = int (length body)"
    and "\<not> chunked_transfer_in c" and "body \<noteq> []" and "length body + 1 < 2 ^ 63" and "mx = 0 \<or> length body \<le> mx"
  shows "read_content mx c = (Inr (), c\<lparr>ins := (ins c)\<lparr>rest := r\<rparr>, content := Some body\<rparr>)"
proof -
  have l: "\<not> longer_than (int (length body)) mx"
    using assms(6,7) by (auto simp: longer_than_def)
  have "to_size_t (int (length body) + 1) = length body + 1"
    using assms(6) to_size_t_int [of "length body + 1"] by (simp add: add.commute)
  then have m: "malloc_check (int (length body)) = sret ()"
    using assms(6) by (simp add: malloc_check_def alloc_fails_def)
  have "is_read (int (length body)) (ins c) = (body, (ins c)\<lparr>rest := r\<rparr>)"
    using assms(1,2) by (simp add: is_read_def)
  with assms l m show ?thesis
    by (simp add: read_content_def read_sized_def act_defs)
qed

lemma read_content_chunks:
  assumes "is_good (ins c)" and "rest (ins c) = chunks_enc cs @ last_chunk @ r" and "chunked_transfer_in c"
    and "[] \<notin> set cs" and "length (concat cs) + 1 < 2 ^ 63" and "mx = 0 \<or> length (concat cs) \<le> mx"
  shows "read_content mx c = (Inr (), c\<lparr>ins := (ins c)\<lparr>rest := r\<rparr>, content_length := int (length (concat cs)),
    content := Some (concat cs)\<rparr>)"
proof -
  have "readAll (mk_chunk_reader (ins c) mx) = Inr (length (concat cs), (if cs = [] then None else Some (concat cs)),
      (mk_chunk_reader (ins c) mx)\<lparr>cr_ins := (ins c)\<lparr>rest := r\<rparr>\<rparr>)"
    using readAll_loop_enc [OF assms(1,2,4), of 0 mx None] assms(5,6) by (simp add: readAll_def mk_chunk_reader_def)
  moreover have "to_size_t (int (length (concat cs)) + 1) = length (concat cs) + 1"
    using assms(5) to_size_t_int [of "length (concat cs) + 1"] by (simp add: add.commute)
  then have "malloc_check (int (length (concat cs))) = sret ()"
    using assms(5) by (simp add: malloc_check_def alloc_fails_def)
  ultimately show ?thesis
    using assms(3) by (cases cs) (simp_all add: read_content_def read_chunked_def act_defs mk_chunk_reader_def)
qed

lemma read_body_text:
  assumes "header_in c ''content-type'' = Some t" and "text_type t"
  shows "read_body env c = (case read_content (max_post env) (c\<lparr>content_type := t\<rparr>) of
    (Inl e, c') \<Rightarrow> (Inl e, c') | (Inr _, c') \<Rightarrow> (Inr [], c'))"
  using assms text_type_opts [OF assms(2)] text_type_not_form [OF assms(2)]
  by (simp add: read_body_def content_type_opts_def header_get_def act_defs)

lemma dispatch_post:
  "m = ''POST'' \<or> m = ''PUT'' \<Longrightarrow> dispatch_method env m c =
   read_body env (c\<lparr>http_method := (if m = ''POST'' then POST else PUT)\<rparr>)"
  by (auto simp: dispatch_method_def set_method_def act_defs)

text \<open>No body is longer than the limit.\<close>

definition body_within :: "nat \<Rightarrow> connection \<Rightarrow> bool" where
  "body_within mx c \<longleftrightarrow> (\<forall>b. content c = Some b \<longrightarrow> mx = 0 \<or> length b \<le> mx)"

definition no_body :: "connection \<Rightarrow> bool" where
  "no_body c \<longleftrightarrow> content c = None \<and> content_length c < 2 ^ 63"

definition any_throw :: "exn \<Rightarrow> connection \<Rightarrow> bool" where
  "any_throw e c \<longleftrightarrow> True"

lemma read_content_within:
  assumes "mx < 2 ^ 64"
  shows "triple no_body (read_content mx) (\<lambda>_. body_within mx) any_throw"
proof (rule tripleI)
  fix c u c' assume i: "no_body c" and r: "read_content mx c = (Inr u, c')"
  show "body_within mx c'"
  proof (cases "chunked_transfer_in c")
    case True
    from r True obtain n buf cr where ra: "readAll (mk_chunk_reader (ins c) mx) = Inr (n, buf, cr)"
      and c': "c' = c\<lparr>ins := cr_ins cr, content_length := int n, content := Some (case buf of None \<Rightarrow> [] | Some b \<Rightarrow> take n b)\<rparr>"
      by (auto simp: read_content_def read_chunked_def act_defs malloc_check_def split: sum.splits prod.splits if_splits)
    have "(mx = 0 \<or> n \<le> mx) \<and> length (case buf of None \<Rightarrow> [] | Some b \<Rightarrow> b) = n"
      using readAll_loop_bound [of mx "ins c" None 0 n buf] ra
      by (auto simp: readAll_def mk_chunk_reader_def split: sum.splits)
    with c' show ?thesis by (auto simp: body_within_def split: option.splits)
  next
    case False
    show ?thesis
    proof (cases "content_length c > 0")
      case True
      with False r obtain d where "\<not> longer_than (content_length c) mx" "d = fst (is_read (content_length c) (ins c))"
        "content c' = Some d"
        by (auto simp: read_content_def read_sized_def act_defs malloc_check_def split: sum.splits prod.splits if_splits)
      moreover have "length (fst (is_read k i)) \<le> nat k" for k i by (simp add: is_read_def)
      ultimately show ?thesis
        using True i le_trans [of "length d" "nat (content_length c)" mx]
        by (auto simp: body_within_def longer_than_def to_size_t_nonneg no_body_def)
    next
      case F: False
      with False r have "c' = c" by (simp add: read_content_def act_defs)
      with i show ?thesis by (simp add: body_within_def no_body_def)
    qed
  qed
qed (simp add: any_throw_def)

section \<open>The limit on bodies, for any request\<close>

definition no_content :: "connection \<Rightarrow> bool" where
  "no_content c \<longleftrightarrow> content c = None"

lemma throw_any: "triple P (sthrow e) Q any_throw"
  by (rule triple_throw) (simp add: any_throw_def)

lemma no_content_put: "triple no_content (os_put s) (\<lambda>_. no_content) any_throw"
  by (simp add: triple_def os_put_def os_check_def act_defs no_content_def any_throw_def)

lemma no_content_sync: "triple no_content os_sync (\<lambda>_. no_content) any_throw"
  by (simp add: triple_def os_sync_def os_check_def act_defs no_content_def any_throw_def)

lemma no_content_mod: "(\<And>c. content (f c) = content c) \<Longrightarrow> triple no_content (smod f) (\<lambda>_. no_content) any_throw"
  by (rule triple_mod) (simp add: no_content_def)

lemma no_content_header: "triple no_content (send_header n) (\<lambda>_. no_content) any_throw"
proof -
  have hs: "triple no_content (sseq (map (\<lambda>h. os_put (header_line h)) hs)) (\<lambda>_. no_content) any_throw" for hs
    by (rule triple_seq_all) (auto intro: no_content_put)
  note pre = triple_pre [OF no_content_put] triple_pre [OF no_content_sync] triple_pre [OF hs]
  show ?thesis
    unfolding send_header_def
    apply (rule triple_Cons [where R = no_content], rule triple_when, rule throw_any, simp)
    apply (rule triple_Cons [where R = no_content], rule triple_with, rule pre(1), simp)
    apply (rule triple_Cons [where R = no_content], rule triple_with, rule pre(3), simp)
    apply (rule triple_Cons [where R = no_content], rule triple_if, rule pre(1), simp)
     apply (rule triple_with, simp split: if_split, intro conjI impI; rule pre(1), simp)
    apply (rule triple_Cons [where R = no_content], rule pre(2), simp)
    apply (rule triple_Cons [where R = no_content], rule no_content_mod, simp, rule triple_Nil, simp)
    done
qed

lemma no_content_flush: "triple no_content flush (\<lambda>_. no_content) any_throw"
proof -
  have m: "triple no_content (cache_write b) (\<lambda>_. no_content) any_throw"
    "triple no_content outbuf_clear (\<lambda>_. no_content) any_throw"
    "triple no_content (smod (\<lambda>c. c\<lparr>finished := True\<rparr>)) (\<lambda>_. no_content) any_throw" for b
    unfolding cache_write_def outbuf_clear_def by (rule no_content_mod, simp)+
  note steps = triple_pre [OF no_content_put] triple_pre [OF no_content_sync] triple_pre [OF no_content_header]
    m [THEN triple_pre]
  have 1: "triple no_content (sseq [os_put h, os_put b, cache_write b, os_put CRLF, os_sync]) (\<lambda>_. no_content) any_throw"
    and 2: "triple no_content (sseq [os_put b, cache_write b, os_sync, smod (\<lambda>c. c\<lparr>finished := True\<rparr>)]) (\<lambda>_. no_content) any_throw"
    for h b by (rule triple_Cons steps triple_Nil | simp)+
  show ?thesis
    unfolding flush_def
    apply (rule triple_Cons [where R = no_content], rule triple_when)
      apply (rule triple_Cons [where R = no_content], rule triple_when, rule throw_any, simp)
      apply (rule triple_Cons [where R = no_content], rule steps(3), simp, rule triple_Nil, simp, simp)
    apply (rule triple_Cons [where R = no_content], rule triple_if)
      apply (rule triple_Cons [where R = no_content], rule triple_when, rule throw_any, simp)
      apply (rule triple_Cons [where R = no_content], rule triple_with, rule triple_if)
        apply (rule triple_pre [OF 1], simp, rule triple_pre [OF 2], simp)
      apply (rule triple_Cons [where R = no_content], rule steps(5), simp, rule triple_Nil, simp)
     apply (rule triple_Cons [where R = no_content], rule steps(2), simp)
     apply (rule triple_Cons [where R = no_content], rule triple_when, rule steps(6), simp, simp)
     apply (rule triple_Nil, simp)+
    done
qed

lemma stoll_range: "stoll v = Inr k \<Longrightarrow> k < 2 ^ 63"
  by (auto simp: stoll_def sto_signed_def Let_def split: option.splits prod.splits if_splits)

lemma no_body_entry: "no_body c \<Longrightarrow> header_entry line c = (Inr u, c') \<Longrightarrow> no_body c'"
  by (auto simp: header_entry_def act_defs lift_def Let_def no_body_def
      split: prod.splits if_splits sum.splits option.splits dest: stoll_range)

lemma no_body_header: "no_body c \<Longrightarrow> process_header c = (Inr u, c') \<Longrightarrow> no_body c'"
proof (induction c rule: process_header.induct)
  case (1 c)
  show ?case
  proof (cases "is_good (ins c)")
    case False
    with 1(2,3) show ?thesis by (simp add: process_header.simps [of c])
  next
    case True
    with 1(3) obtain n line i where g: "safeGetline (ins c) max_headerline_len = Inr (n, line, i)"
      by (auto simp: process_header.simps [of c] split: sum.splits)
    show ?thesis
    proof (cases "line = [] \<or> failbit i")
      case T: True
      with True g 1(2,3) show ?thesis by (auto simp: process_header.simps [of c] no_body_def)
    next
      case F: False
      with True g 1(3) obtain v c1 where e: "header_entry line (c\<lparr>ins := i\<rparr>) = (Inr v, c1)"
        and p: "process_header c1 = (Inr u, c')"
        by (auto simp: process_header.simps [of c] split: sum.splits prod.splits)
      have "no_body c1" using no_body_entry [OF _ e] 1(2) by (simp add: no_body_def)
      with 1(1) [OF True g refl refl F e [symmetric] refl] p show ?thesis by blast
    qed
  qed
qed

lemma no_body_process_header: "triple no_body process_header (\<lambda>_. no_body) any_throw"
  by (rule tripleI) (auto simp: any_throw_def dest: no_body_header)

lemma no_body_mod: "(\<And>c. content (f c) = content c \<and> content_length (f c) = content_length c) \<Longrightarrow>
   triple no_body (smod f) (\<lambda>_. no_body) any_throw"
  by (rule triple_mod) (simp add: no_body_def)

lemma no_content_within: "no_content c \<Longrightarrow> body_within mx c"
  by (simp add: no_content_def body_within_def)

lemma no_body_no_content: "no_body c \<Longrightarrow> no_content c"
  by (simp add: no_content_def no_body_def)

lemma lift_any: "(\<And>s x. P s \<Longrightarrow> Q x s) \<Longrightarrow> triple P (lift r) Q any_throw"
  by (simp add: triple_def lift_def any_throw_def split: sum.split)

lemma no_body_line: "triple no_body read_request_line (\<lambda>_. no_body) any_throw"
  by (auto simp: triple_def read_request_line_def act_defs any_throw_def no_body_def split: sum.splits prod.splits)

lemma no_body_uri: "triple no_body (set_uri u) (\<lambda>_. no_body) any_throw"
  by (auto simp: triple_def set_uri_def act_defs lift_def any_throw_def no_body_def split: sum.splits prod.splits option.splits)

lemma no_body_cors: "triple no_body cors_origin (\<lambda>_. no_body) any_throw"
  by (simp add: triple_def cors_origin_def act_defs any_throw_def no_body_def split: option.splits)

lemma no_body_check: "triple no_body input_check (\<lambda>_. no_body) any_throw"
  by (simp add: triple_def input_check_def act_defs any_throw_def)

lemma no_body_opts: "triple no_body content_type_opts (\<lambda>_. no_body) any_throw"
  by (simp add: triple_def content_type_opts_def header_get_def no_body_def any_throw_def split: option.splits)

lemma no_body_method: "triple no_body (set_method m) (\<lambda>_. no_body) any_throw"
  unfolding set_method_def by (rule no_body_mod) simp

lemma within_method: "triple (body_within mx) (set_method m) (\<lambda>_. body_within mx) any_throw"
  unfolding set_method_def by (rule triple_mod) (simp add: body_within_def)

lemma no_content_form: "triple no_body (read_multipart env opts) (\<lambda>_. no_content) any_throw"
  by (auto simp: triple_def read_multipart_def act_defs any_throw_def no_content_def no_body_def split: sum.splits prod.splits)

lemma no_content_chunked: "triple no_body (read_chunked mx) (\<lambda>_. no_content) any_throw"
  by (auto simp: triple_def read_chunked_def act_defs any_throw_def no_content_def no_body_def malloc_check_def
      split: sum.splits prod.splits)

lemma no_content_sized: "triple no_body (read_sized mx) (\<lambda>_. no_content) any_throw"
  by (auto simp: triple_def read_sized_def act_defs any_throw_def no_content_def no_body_def malloc_check_def
      split: sum.splits prod.splits)

lemma no_content_store: "triple no_content (store_urlencoded b) (\<lambda>_. no_content) any_throw"
  by (auto simp: triple_def store_urlencoded_def act_defs lift_def any_throw_def no_content_def split: sum.splits)

lemma no_content_urlencoded: "triple no_body (read_urlencoded mx) (\<lambda>_. no_content) any_throw"
  unfolding read_urlencoded_def
  apply (rule triple_Cons [where R = no_content], rule triple_if)
    apply (rule triple_bind, rule triple_pre [OF no_content_chunked], simp, rule no_content_store)
   apply (rule triple_when, rule triple_bind, rule triple_pre [OF no_content_sized], simp, rule no_content_store)
   apply (simp add: no_body_no_content)
  apply (rule triple_Cons [where R = no_content], rule no_content_mod, simp, rule triple_Nil, simp)
  done

lemma within_typed:
  assumes "mx < 2 ^ 64"
  shows "triple no_body (read_typed_content mx) (\<lambda>_. body_within mx) any_throw"
  unfolding read_typed_content_def
  by (rule triple_bind, rule no_body_opts, rule triple_Cons [where R = no_body], rule no_body_mod, simp,
      rule triple_Cons [where R = "body_within mx"], rule read_content_within, rule assms, rule triple_Nil, simp)

lemma within_body:
  assumes "max_post env < 2 ^ 64"
  shows "triple no_body (read_body env) (\<lambda>_. body_within (max_post env)) any_throw"
  unfolding read_body_def
proof (rule triple_bind, rule no_body_opts)
  fix opts
  let ?Q = "\<lambda>_. body_within (max_post env)"
  have 1: "triple no_body (sbind (read_urlencoded (max_post env)) (\<lambda>_. sret [])) ?Q any_throw"
    by (rule triple_bind, rule no_content_urlencoded, rule triple_ret, erule no_content_within)
  have 2: "triple no_body (read_multipart env opts) ?Q any_throw"
    by (rule triple_weaken [OF no_content_form]) (simp_all add: no_content_within)
  have 3: "triple no_body (sbind (smod (\<lambda>c. c\<lparr>content_type := hd opts\<rparr>)) (\<lambda>_.
      sbind (read_content (max_post env)) (\<lambda>_. sret []))) ?Q any_throw"
    by (rule triple_bind, rule no_body_mod, simp, rule triple_bind, rule read_content_within [OF assms],
        rule triple_ret, simp)
  show "triple no_body (if hd opts = ''application/x-www-form-urlencoded''
      then sbind (read_urlencoded (max_post env)) (\<lambda>_. sret [])
      else if hd opts = ''multipart/form-data'' then read_multipart env opts
      else if text_type (hd opts) then sbind (smod (\<lambda>c. c\<lparr>content_type := hd opts\<rparr>)) (\<lambda>_.
        sbind (read_content (max_post env)) (\<lambda>_. sret []))
      else sthrow (CsError ''Content type not supported!'')) ?Q any_throw"
    by (rule triple_ite, rule 1, rule triple_ite, rule 2, rule triple_ite, rule 3, rule throw_any)
qed

lemma within_options: "triple no_body options_request (\<lambda>_. body_within mx) any_throw"
proof -
  have f: "triple no_body (sseq [smod f, flush, smod (\<lambda>c. c\<lparr>reset_connection := True\<rparr>)]) (\<lambda>_. body_within mx) any_throw"
    if "\<And>c. content (f c) = content c" for f
    apply (rule triple_Cons [where R = no_content], rule triple_mod, simp add: that no_content_def no_body_def)
    apply (rule triple_Cons [where R = no_content], rule no_content_flush)
    apply (rule triple_Cons [where R = no_content], rule no_content_mod, simp)
    by (rule triple_Nil, erule no_content_within)
  have g: "triple no_body (smod f) (\<lambda>_. body_within mx) any_throw" if "\<And>c. content (f c) = content c" for f
    by (rule triple_mod) (simp add: that body_within_def no_body_def)
  show ?thesis
    unfolding options_request_def
    by (rule triple_with, rule triple_pre [where P' = no_body])
      (auto simp: Let_def intro!: f g simp del: sseq.simps)
qed

lemma within_dispatch:
  assumes "max_post env < 2 ^ 64"
  shows "triple no_body (dispatch_method env m) (\<lambda>_. body_within (max_post env)) any_throw"
proof -
  let ?Q = "\<lambda>_ :: (string \<times> string) list. body_within (max_post env)"
  have ret: "triple (body_within (max_post env)) (sret []) ?Q any_throw" by (rule triple_ret)
  have meth: "triple no_body (sbind (set_method k) (\<lambda>_. sret [])) ?Q any_throw" for k
    by (rule triple_bind, rule no_body_method, rule triple_ret) (simp add: no_body_no_content no_content_within)
  have typed: "triple no_body (sbind (read_typed_content (max_post env)) (\<lambda>_. sbind (set_method k) (\<lambda>_. sret [])))
      ?Q any_throw" for k
    by (rule triple_bind, rule within_typed [OF assms], rule triple_bind, rule within_method, rule ret)
  have opt: "triple no_body (sbind options_request (\<lambda>_. sret [])) ?Q any_throw"
    by (rule triple_bind, rule within_options, rule ret)
  have body: "triple no_body (sbind (set_method k) (\<lambda>_. read_body env)) ?Q any_throw" for k
    by (rule triple_bind, rule no_body_method, rule within_body [OF assms])
  show ?thesis
    unfolding dispatch_method_def
    using opt meth [of GET] meth [of HEAD] body [of POST] body [of PUT] typed [of DELETE] typed [of TRACE]
      meth [of CONNECT] meth [of OTHER] by simp
qed

lemma within_request:
  assumes "max_post env < 2 ^ 64"
  shows "triple no_body (read_request env) (\<lambda>_. body_within (max_post env)) any_throw"
  unfolding read_request_def
proof (rule triple_bind, rule no_body_line)
  fix line
  have s: "triple no_body (sseq [smod (\<lambda>c. c\<lparr>http_version := v\<rparr>), set_uri u, process_header, input_check, cors_origin])
      (\<lambda>_. no_body) any_throw" for v u
    by (rule triple_Cons, rule no_body_mod, simp, rule triple_Cons, rule no_body_uri, rule triple_Cons,
        rule no_body_process_header, rule triple_Cons, rule no_body_check, rule triple_Cons, rule no_body_cors,
        rule triple_Nil, simp)
  have "triple no_body (sbind (sseq [smod (\<lambda>c. c\<lparr>http_version := v\<rparr>), set_uri u, process_header, input_check, cors_origin])
      (\<lambda>_. dispatch_method env m)) (\<lambda>_. body_within (max_post env)) any_throw" for v u m
    by (rule triple_bind, rule s, rule within_dispatch [OF assms])
  then show "triple no_body (case request_words line of None \<Rightarrow> sthrow (CsError ''Invalid HTTP header!'')
      | Some (method_in, fulluri, version) \<Rightarrow>
          sbind (sseq [smod (\<lambda>c. c\<lparr>http_version := version\<rparr>), set_uri fulluri, process_header, input_check, cors_origin])
            (\<lambda>_. dispatch_method env method_in)) (\<lambda>_. body_within (max_post env)) any_throw"
    by (simp add: throw_any split: option.split prod.split)
qed

section \<open>Properties\<close>

definition request_env :: "nat \<Rightarrow> upload_env" where
  "request_env mx = \<lparr>max_post = mx, tmp_dir = ''/tmp'', mkstemp = (\<lambda>k. Some (dec_string k)), disk_room = 1000\<rparr>"

lemma example_headers:
  "header_ok (''Accept'', ''text/html'')" "header_ok (''Content-Type'', ''text/plain'')"
  "header_ok (''Transfer-Encoding'', ''chunked'')" "header_ok (''Content-Length'', ''3'')"
proof -
  have l: "asciitolower ''Accept'' = ''accept''" "asciitolower ''Content-Type'' = ''content-type''"
    "asciitolower ''Transfer-Encoding'' = ''transfer-encoding''" "asciitolower ''Content-Length'' = ''content-length''"
    by code_simp+
  have t: "trim_copy ''Accept'' = ''Accept''" "trim_copy ''Content-Type'' = ''Content-Type''"
    "trim_copy ''Transfer-Encoding'' = ''Transfer-Encoding''" "trim_copy ''Content-Length'' = ''Content-Length''"
    "trim_copy ''text/html'' = ''text/html''" "trim_copy ''text/plain'' = ''text/plain''"
    "trim_copy ''chunked'' = ''chunked''" "trim_copy ''3'' = ''3''"
    by code_simp+
  have "dec_string 3 = ''3''" by code_simp
  then have s: "stoll ''3'' = Inr 3" using stoll_dec [of 3] by simp
  show "header_ok (''Accept'', ''text/html'')"
    by (simp add: l t s max_headerline_len_def) (simp add: CR_def LF_def)
  show "header_ok (''Content-Type'', ''text/plain'')"
    by (simp add: l t s max_headerline_len_def) (simp add: CR_def LF_def)
  show "header_ok (''Transfer-Encoding'', ''chunked'')"
    by (simp add: l t s max_headerline_len_def) (simp add: CR_def LF_def)
  show "header_ok (''Content-Length'', ''3'')"
    by (simp add: l t s max_headerline_len_def) (simp add: CR_def LF_def)
qed


text \<open>
  C17: a request for a path with a query, written by a client, gives the path, the parameters
  with the last value of a name winning, and the headers under their lower case names; nothing
  is written, and the connection stands behind the header.
\<close>

theorem get_request:
  assumes "is_good i" and "rest i = request_line ''GET'' (target_text path kvs) @ CRLF @ header_text hs @ r"
    and "word_ok path" and "CHR ''?'' \<notin> set path" and "list_all header_ok hs"
    and "length (request_line ''GET'' (target_text path kvs)) < max_headerline_len"
  shows "\<exists>c'. new_connection env i q buf_size buf_inc it = (Inr [], c') \<and>
    http_method c' = GET \<and> uri c' = path \<and> get_params c' = map_of (rev kvs) \<and>
    request_params c' = map_of (rev kvs) \<and> header_in c' = map_of (rev (lowered hs)) \<and>
    ins c' = i\<lparr>rest := r\<rparr> \<and> os c' = q \<and> \<not> header_sent c'"
proof -
  have w: "word_ok ''GET''" by (simp add: word_ok_def isspace_def chr_code_def)
  let ?c = "init_connection i q (tmp_dir env) buf_size buf_inc it"
  have "header_in ?c = Map.empty" by (simp add: init_connection_def status_def)
  with read_request_query [of ?c "''GET''" path kvs hs r env] assms w show ?thesis
    by (simp add: new_connection_def dispatch_method_def set_method_def act_defs)
qed

theorem get_request_witness:
  "let i = mk_istream (request_line ''GET'' (target_text ''/a'' [(''x'', ''1 2''), (''y'', '''')]) @ CRLF @
        header_text [(''Accept'', ''text/html'')] @ ''z'') in
   \<exists>c'. new_connection (request_env 9) i mk_ostream 0 8192 (\<lambda>_. []) = (Inr [], c') \<and>
    http_method c' = GET \<and> uri c' = ''/a'' \<and> get_params c' = map_of (rev [(''x'', ''1 2''), (''y'', '''')]) \<and>
    request_params c' = map_of (rev [(''x'', ''1 2''), (''y'', '''')]) \<and>
    header_in c' = map_of (rev (lowered [(''Accept'', ''text/html'')])) \<and>
    ins c' = i\<lparr>rest := ''z''\<rparr> \<and> os c' = mk_ostream \<and> \<not> header_sent c'"
  unfolding Let_def
proof (rule get_request)
  show "list_all header_ok [(''Accept'', ''text/html'')]" by (simp add: example_headers del: header_ok.simps)
  have "length (request_line ''GET'' (target_text ''/a'' [(''x'', ''1 2''), (''y'', '''')])) < 100" by code_simp
  then show "length (request_line ''GET'' (target_text ''/a'' [(''x'', ''1 2''), (''y'', '''')])) < max_headerline_len"
    by (simp add: max_headerline_len_def)
  show "word_ok ''/a''" by code_simp
qed (simp_all add: mk_istream_def is_good_def)

text \<open>
  a \<open>POST\<close> or \<open>PUT\<close> of a text, JSON or XML body with its length gives exactly the body and
  leaves the connection in front of the next request.
\<close>

theorem sized_body_request:
  assumes "is_good i" and "rest i = request_line m path @ CRLF @ header_text hs @ body @ r"
    and "m = ''POST'' \<or> m = ''PUT''" and "word_ok path" and "CHR ''?'' \<notin> set path" and "list_all header_ok hs"
    and "length (request_line m path) < max_headerline_len"
    and "map_of (rev (lowered hs)) ''content-type'' = Some t" and "text_type t"
    and "map_of (rev (lowered hs)) ''content-length'' = Some (dec_string (length body))"
    and "(''transfer-encoding'', ''chunked'') \<notin> set (lowered hs)"
    and "body \<noteq> []" and "length body + 1 < 2 ^ 63" and "max_post env = 0 \<or> length body \<le> max_post env"
  shows "\<exists>c'. new_connection env i q buf_size buf_inc it = (Inr [], c') \<and>
    http_method c' = (if m = ''POST'' then POST else PUT) \<and> uri c' = path \<and>
    content c' = Some body \<and> content_length c' = int (length body) \<and> content_type c' = t \<and>
    ins c' = i\<lparr>rest := r\<rparr>"
proof -
  have w: "word_ok m" using assms(3) by (auto simp: word_ok_def isspace_def chr_code_def)
  let ?c = "init_connection i q (tmp_dir env) buf_size buf_inc it"
  let ?d = "after_header (?c\<lparr>http_version := ''HTTP/1.1'', uri := path\<rparr>) hs (body @ r)"
  let ?e = "?d\<lparr>http_method := (if m = ''POST'' then POST else PUT)\<rparr>"
  have rr: "new_connection env i q buf_size buf_inc it = read_body env ?e"
    using read_request_path [of ?c m path hs "body @ r" env] assms w
    by (simp add: new_connection_def dispatch_post)
  have ct: "header_in ?e ''content-type'' = Some t" using assms(8) by (simp add: map_add_Some_iff)
  have sl: "stoll (dec_string (length body)) = Inr (int (length body))" using assms(13) by (intro stoll_dec) simp
  have cl: "content_length ?e = int (length body)" using after_header_length [OF assms(10) sl] by simp
  have ch: "\<not> chunked_transfer_in ?e"
    using after_header_chunked assms(11) by (simp add: init_connection_def status_def)
  have "read_content (max_post env) (?e\<lparr>content_type := t\<rparr>) =
      (Inr (), (?e\<lparr>content_type := t\<rparr>)\<lparr>ins := i\<lparr>rest := r\<rparr>, content := Some body\<rparr>)"
    using read_content_sized [of "?e\<lparr>content_type := t\<rparr>" body r "max_post env"] assms(1,12-14) cl ch by simp
  with rr read_body_text [OF ct assms(9), of env] cl show ?thesis by simp
qed

theorem sized_body_request_witness:
  "let i = mk_istream (request_line ''PUT'' ''/a'' @ CRLF @
        header_text [(''Content-Type'', ''text/plain''), (''Content-Length'', ''3'')] @ ''abc'' @ ''z'') in
   \<exists>c'. new_connection (request_env 9) i mk_ostream 0 8192 (\<lambda>_. []) = (Inr [], c') \<and>
    http_method c' = (if ''PUT'' = ''POST'' then POST else PUT) \<and> uri c' = ''/a'' \<and>
    content c' = Some ''abc'' \<and> content_length c' = int (length ''abc'') \<and> content_type c' = ''text/plain'' \<and>
    ins c' = i\<lparr>rest := ''z''\<rparr>"
  unfolding Let_def
proof (rule sized_body_request)
  show "list_all header_ok [(''Content-Type'', ''text/plain''), (''Content-Length'', ''3'')]" by (simp add: example_headers del: header_ok.simps)
  show "length (request_line ''PUT'' ''/a'') < max_headerline_len" by (simp add: request_line_def max_headerline_len_def)
  show "word_ok ''/a''" by code_simp
  show "map_of (rev (lowered [(''Content-Type'', ''text/plain''), (''Content-Length'', ''3'')])) ''content-type'' = Some ''text/plain''"
    by code_simp
  show "map_of (rev (lowered [(''Content-Type'', ''text/plain''), (''Content-Length'', ''3'')])) ''content-length'' =
      Some (dec_string (length ''abc''))" by code_simp
  show "(''transfer-encoding'', ''chunked'') \<notin> set (lowered [(''Content-Type'', ''text/plain''), (''Content-Length'', ''3'')])"
    by code_simp
qed (simp_all add: mk_istream_def is_good_def text_type_def request_env_def)

text \<open>
  a chunked body is read completely, but the line end that closes it stays on the
  connection: reading the next request from there fails, whatever the client sent.
\<close>

theorem chunked_body_blocks_next_request:
  assumes "is_good i" and "rest i = request_line m path @ CRLF @ header_text hs @ chunks_enc cs @ last_chunk @ CRLF @ r"
    and "m = ''POST'' \<or> m = ''PUT''" and "word_ok path" and "CHR ''?'' \<notin> set path" and "list_all header_ok hs"
    and "length (request_line m path) < max_headerline_len"
    and "map_of (rev (lowered hs)) ''content-type'' = Some t" and "text_type t"
    and "(''transfer-encoding'', ''chunked'') \<in> set (lowered hs)"
    and "[] \<notin> set cs" and "length (concat cs) + 1 < 2 ^ 63" and "max_post env = 0 \<or> length (concat cs) \<le> max_post env"
  shows "\<exists>c' d. new_connection env i q buf_size buf_inc it = (Inr [], c') \<and> content c' = Some (concat cs) \<and>
    new_connection env (ins c') q buf_size buf_inc it = (Inl (InputFailure INPUT_READ_FAIL), d)"
proof -
  have w: "word_ok m" using assms(3) by (auto simp: word_ok_def isspace_def chr_code_def)
  let ?s = "chunks_enc cs @ last_chunk @ CRLF @ r"
  let ?c = "init_connection i q (tmp_dir env) buf_size buf_inc it"
  let ?d = "after_header (?c\<lparr>http_version := ''HTTP/1.1'', uri := path\<rparr>) hs ?s"
  let ?e = "?d\<lparr>http_method := (if m = ''POST'' then POST else PUT)\<rparr>"
  have rr: "new_connection env i q buf_size buf_inc it = read_body env ?e"
    using read_request_path [of ?c m path hs ?s env] assms w
    by (simp add: new_connection_def dispatch_post)
  have ct: "header_in ?e ''content-type'' = Some t" using assms(8) by (simp add: map_add_Some_iff)
  have ch: "chunked_transfer_in ?e" using after_header_chunked assms(10) by simp
  have "read_content (max_post env) (?e\<lparr>content_type := t\<rparr>) = (Inr (), (?e\<lparr>content_type := t\<rparr>)
      \<lparr>ins := i\<lparr>rest := CRLF @ r\<rparr>, content_length := int (length (concat cs)), content := Some (concat cs)\<rparr>)"
    using read_content_chunks [of "?e\<lparr>content_type := t\<rparr>" cs "CRLF @ r" "max_post env"] assms(1,11-13) ch by simp
  then have first: "new_connection env i q buf_size buf_inc it = (Inr [], (?e\<lparr>content_type := t\<rparr>)
      \<lparr>ins := i\<lparr>rest := CRLF @ r\<rparr>, content_length := int (length (concat cs)), content := Some (concat cs)\<rparr>)"
    using rr read_body_text [OF ct assms(9), of env] by simp
  have "safeGetline (i\<lparr>rest := CRLF @ r\<rparr>) max_headerline_len = Inr (2, [], i\<lparr>rest := r\<rparr>)"
    using assms(1) by simp
  then have "\<exists>d. new_connection env (i\<lparr>rest := CRLF @ r\<rparr>) q buf_size buf_inc it = (Inl (InputFailure INPUT_READ_FAIL), d)"
    by (simp add: new_connection_def read_request_def read_request_line_def act_defs)
  then show ?thesis using first by auto
qed

theorem chunked_body_blocks_next_request_witness:
  "let i = mk_istream (request_line ''POST'' ''/a'' @ CRLF @
        header_text [(''Content-Type'', ''text/plain''), (''Transfer-Encoding'', ''chunked'')] @
        chunks_enc [''ab'', ''c''] @ last_chunk @ CRLF @ ''GET / HTTP/1.1'' @ CRLF @ CRLF) in
   \<exists>c' d. new_connection (request_env 9) i mk_ostream 0 8192 (\<lambda>_. []) = (Inr [], c') \<and>
     content c' = Some (concat [''ab'', ''c'']) \<and>
     new_connection (request_env 9) (ins c') mk_ostream 0 8192 (\<lambda>_. []) = (Inl (InputFailure INPUT_READ_FAIL), d)"
  unfolding Let_def
proof (rule chunked_body_blocks_next_request)
  show "list_all header_ok [(''Content-Type'', ''text/plain''), (''Transfer-Encoding'', ''chunked'')]" by (simp add: example_headers del: header_ok.simps)
  show "length (request_line ''POST'' ''/a'') < max_headerline_len" by (simp add: request_line_def max_headerline_len_def)
  show "word_ok ''/a''" by code_simp
  show "map_of (rev (lowered [(''Content-Type'', ''text/plain''), (''Transfer-Encoding'', ''chunked'')])) ''content-type'' = Some ''text/plain''"
    by code_simp
  show "(''transfer-encoding'', ''chunked'') \<in> set (lowered [(''Content-Type'', ''text/plain''), (''Transfer-Encoding'', ''chunked'')])"
    by code_simp
  show "is_good (mk_istream (request_line ''POST'' ''/a'' @ CRLF @
        header_text [(''Content-Type'', ''text/plain''), (''Transfer-Encoding'', ''chunked'')] @
        chunks_enc [''ab'', ''c''] @ last_chunk @ CRLF @ ''GET / HTTP/1.1'' @ CRLF @ CRLF))"
    by (simp add: mk_istream_def is_good_def)
  show "rest (mk_istream (request_line ''POST'' ''/a'' @ CRLF @
        header_text [(''Content-Type'', ''text/plain''), (''Transfer-Encoding'', ''chunked'')] @
        chunks_enc [''ab'', ''c''] @ last_chunk @ CRLF @ ''GET / HTTP/1.1'' @ CRLF @ CRLF)) =
      request_line ''POST'' ''/a'' @ CRLF @
        header_text [(''Content-Type'', ''text/plain''), (''Transfer-Encoding'', ''chunked'')] @
        chunks_enc [''ab'', ''c''] @ last_chunk @ CRLF @ (''GET / HTTP/1.1'' @ CRLF @ CRLF)"
    by (simp add: mk_istream_def)
qed (simp_all add: text_type_def request_env_def)

definition preflight_headers :: "string \<Rightarrow> string \<Rightarrow> string \<rightharpoonup> string" where
  "preflight_headers origin xreq =
     [''Access-Control-Allow-Origin'' \<mapsto> origin, ''Access-Control-Allow-Credentials'' \<mapsto> ''true'',
      ''Access-Control-Allow-Methods'' \<mapsto> ''GET, POST, PUT, DELETE'', ''Access-Control-Allow-Headers'' \<mapsto> xreq,
      ''Content-Type'' \<mapsto> ''text/plain'']"

lemma flush_unbuffered_ok:
  assumes "sound c" and "outbuf c = None" and "\<not> chunked_transfer_out c" and "\<not> header_sent c" and "\<not> finished c"
  shows "flush c = (Inr (), (emit (header_bytes 0 c) c)\<lparr>header_sent := True, finished := True\<rparr>)"
  using assms by (simp add: flush_def act_defs send_header_ok outbuf_nbytes_def)

lemma d200: "dec_string 200 = ''200''" "dec_string 0 = ''0''"
  by code_simp+

lemma apply_header_status [simp]:
  "status_code (apply_header c h) = status_code c" "status_string (apply_header c h) = status_string c"
  by (cases h; simp add: apply_header.simps Let_def split: sum.split)+

definition is_preflight :: "(string \<rightharpoonup> string) \<Rightarrow> bool" where
  "is_preflight hin \<longleftrightarrow> param_value hin ''origin'' \<noteq> [] \<and>
     param_value hin ''access-control-request-method'' \<noteq> [] \<and>
     param_value hin ''access-control-request-headers'' \<noteq> []"

lemma dispatch_options:
  "\<not> is_preflight (header_in d) \<Longrightarrow> dispatch_method env ''OPTIONS'' d = (Inr [], d\<lparr>http_method := OPTIONS\<rparr>)"
  "is_preflight (header_in d) \<Longrightarrow> dispatch_method env ''OPTIONS'' d =
     (case flush (d\<lparr>http_method := OPTIONS, header_out := (header_out d)(
          ''Access-Control-Allow-Methods'' \<mapsto> ''GET, POST, PUT, DELETE'',
          ''Access-Control-Allow-Headers'' \<mapsto> param_value (header_in d) ''access-control-request-headers'',
          ''Content-Type'' \<mapsto> ''text/plain'')\<rparr>) of
        (Inl e, c') \<Rightarrow> (Inl e, c') | (Inr _, c') \<Rightarrow> (Inr [], c'\<lparr>reset_connection := True\<rparr>))"
proof -
  have o: "options_request d = (if is_preflight (header_in d) then sseq
      [smod (\<lambda>c. c\<lparr>http_method := OPTIONS, header_out := (header_out c)(
          ''Access-Control-Allow-Methods'' \<mapsto> ''GET, POST, PUT, DELETE'',
          ''Access-Control-Allow-Headers'' \<mapsto> param_value (header_in d) ''access-control-request-headers'',
          ''Content-Type'' \<mapsto> ''text/plain'')\<rparr>),
       flush, smod (\<lambda>c. c\<lparr>reset_connection := True\<rparr>)] d
     else (Inr (), d\<lparr>http_method := OPTIONS\<rparr>))"
    by (auto simp: options_request_def is_preflight_def swith_def smod_def Let_def)
  show "\<not> is_preflight (header_in d) \<Longrightarrow> dispatch_method env ''OPTIONS'' d = (Inr [], d\<lparr>http_method := OPTIONS\<rparr>)"
    "is_preflight (header_in d) \<Longrightarrow> dispatch_method env ''OPTIONS'' d =
     (case flush (d\<lparr>http_method := OPTIONS, header_out := (header_out d)(
          ''Access-Control-Allow-Methods'' \<mapsto> ''GET, POST, PUT, DELETE'',
          ''Access-Control-Allow-Headers'' \<mapsto> param_value (header_in d) ''access-control-request-headers'',
          ''Content-Type'' \<mapsto> ''text/plain'')\<rparr>) of
        (Inl e, c') \<Rightarrow> (Inl e, c') | (Inr _, c') \<Rightarrow> (Inr [], c'\<lparr>reset_connection := True\<rparr>))"
    by (simp_all add: dispatch_method_def sbind_def o act_defs split: prod.split sum.split)
qed

text \<open>
  an \<open>OPTIONS\<close> request is a preflight exactly if it names its origin, method and headers; it
  is then answered completely with the headers that allow the request, and the connection is
  marked for reset. Otherwise nothing is written.
\<close>

theorem cors_preflight:
  assumes "is_good i" and "rest i = request_line ''OPTIONS'' path @ CRLF @ header_text hs @ r"
    and "word_ok path" and "CHR ''?'' \<notin> set path" and "list_all header_ok hs"
    and "length (request_line ''OPTIONS'' path) < max_headerline_len" and "os_reliable q"
    and "hin = map_of (rev (lowered hs))" and "origin = param_value hin ''origin''"
    and "xreq = param_value hin ''access-control-request-headers''"
  shows "\<exists>c'. new_connection env i q 0 buf_inc it = (Inr [], c') \<and> http_method c' = OPTIONS \<and>
    reset_connection c' = is_preflight hin \<and> finished c' = is_preflight hin \<and>
    (if is_preflight hin then
       header_out c' = preflight_headers origin xreq \<and>
       written (os c') = written q @ ''HTTP/1.1 200 OK'' @ CRLF @
         concat (map header_line (it (preflight_headers origin xreq))) @
         ''Content-Length: 0'' @ CRLF @ CRLF
     else os c' = q)"
proof -
  have w: "word_ok ''OPTIONS''" by (simp add: word_ok_def isspace_def chr_code_def)
  let ?c = "init_connection i q (tmp_dir env) 0 buf_inc it"
  let ?d = "after_header (?c\<lparr>http_version := ''HTTP/1.1'', uri := path\<rparr>) hs r"
  have hin: "header_in ?d = hin" using assms(8) by (simp add: init_connection_def status_def)
  have "chunked_transfer_out ?d = False" "reset_connection ?d = False" "finished ?d = False" "os ?d = q"
    by (simp_all add: init_connection_def status_def)
  have rr: "new_connection env i q 0 buf_inc it = dispatch_method env ''OPTIONS'' ?d"
    using read_request_path [of ?c "''OPTIONS''" path hs r env] assms w by (simp add: new_connection_def)
  have ho: "header_out ?d = (case hin ''origin'' of None \<Rightarrow> Map.empty | Some og \<Rightarrow>
      [''Access-Control-Allow-Origin'' \<mapsto> og, ''Access-Control-Allow-Credentials'' \<mapsto> ''true''])"
    using assms(8) by (simp add: after_header_def cors_origin_def act_defs headers_header_in foldl_frame
        init_connection_def status_def split: option.split)
  have st: "status_code ?d = OK" "status_string ?d = ''OK''" "map_iter ?d = it" "header_sent ?d = False"
    "outbuf ?d = None"
    by (simp_all add: after_header_def cors_origin_def act_defs foldl_frame apply_header_status split: option.split)
  show ?thesis
  proof (cases "is_preflight hin")
    case False
    then have "dispatch_method env ''OPTIONS'' ?d = (Inr [], ?d\<lparr>http_method := OPTIONS\<rparr>)"
      using hin by (intro dispatch_options(1)) simp
    with rr False show ?thesis by (simp add: init_connection_def status_def)
  next
    case True
    let ?h = "(header_out ?d)(''Access-Control-Allow-Methods'' \<mapsto> ''GET, POST, PUT, DELETE'',
      ''Access-Control-Allow-Headers'' \<mapsto> xreq, ''Content-Type'' \<mapsto> ''text/plain'')"
    let ?e = "?d\<lparr>http_method := OPTIONS, header_out := ?h\<rparr>"
    from True assms(9) have "hin ''origin'' = Some origin"
      by (auto simp: is_preflight_def param_value_def split: option.splits)
    then have h: "?h = preflight_headers origin xreq" using ho by (simp add: preflight_headers_def)
    have "flush ?e = (Inr (), (emit (header_bytes 0 ?e) ?e)\<lparr>header_sent := True, finished := True\<rparr>)"
      using assms(7) st by (intro flush_unbuffered_ok) (simp_all add: sound_def init_connection_def status_def)
    moreover have "header_bytes 0 ?e = ''HTTP/1.1 200 OK'' @ CRLF @
        concat (map header_line (it (preflight_headers origin xreq))) @ ''Content-Length: 0'' @ CRLF @ CRLF"
      using st h d200 by (simp add: header_bytes_def status_line_def outbuf_nbytes_def)
    moreover have "dispatch_method env ''OPTIONS'' ?d = (case flush ?e of (Inl e, c') \<Rightarrow> (Inl e, c')
        | (Inr _, c') \<Rightarrow> (Inr [], c'\<lparr>reset_connection := True\<rparr>))"
      using True assms(10) hin dispatch_options(2) [of ?d env] by simp
    ultimately show ?thesis
      using rr True h assms(7) by (simp add: sound_def emit_def)
  qed
qed


theorem cors_preflight_witness:
  "let i = mk_istream (request_line ''OPTIONS'' ''/a'' @ CRLF @ header_text [(''Accept'', ''text/html'')] @ ''z'');
       hin = map_of (rev (lowered [(''Accept'', ''text/html'')]));
       origin = param_value hin ''origin''; xreq = param_value hin ''access-control-request-headers'' in
   \<exists>c'. new_connection (request_env 9) i mk_ostream 0 8192 (\<lambda>_. []) = (Inr [], c') \<and> http_method c' = OPTIONS \<and>
    reset_connection c' = is_preflight hin \<and> finished c' = is_preflight hin \<and>
    (if is_preflight hin then
       header_out c' = preflight_headers origin xreq \<and>
       written (os c') = written mk_ostream @ ''HTTP/1.1 200 OK'' @ CRLF @
         concat (map header_line ((\<lambda>_. []) (preflight_headers origin xreq))) @
         ''Content-Length: 0'' @ CRLF @ CRLF
     else os c' = mk_ostream)"
  unfolding Let_def
proof (rule cors_preflight [where hs = "[(''Accept'', ''text/html'')]" and r = "''z''" and path = "''/a''"])
  show "list_all header_ok [(''Accept'', ''text/html'')]" by (simp add: example_headers del: header_ok.simps)
  show "length (request_line ''OPTIONS'' ''/a'') < max_headerline_len" by (simp add: request_line_def max_headerline_len_def)
  show "word_ok ''/a''" by code_simp
qed (simp_all add: mk_istream_def is_good_def mk_ostream_def os_reliable_def)


end
