(* ===== verification/Float32.thy ===== *)
theory Float32
  imports Complex_Main Prelude
begin

text \<open>
  The \<open>float\<close> arithmetic of the sources: IEEE single precision numbers as the rational numbers
  they stand for, rounded to the nearest number with a significand of 24 bits, ties to even. The
  values the code computes (sizes, percentages, fractions of them) are far below \<open>2^128\<close>, so
  overflow to infinity is not modelled; below \<open>2^-126\<close> the spacing stays \<open>2^-149\<close>. Every
  operation rounds its exact result.
\<close>

fun bit_length :: "nat \<Rightarrow> nat" where
  "bit_length n = (if n = 0 then 0 else Suc (bit_length (n div 2)))"

declare bit_length.simps [simp del]

text \<open>The exponent \<open>e\<close> with \<open>2^e \<le> x < 2^(e + 1)\<close>, for a positive \<open>x\<close>.\<close>

definition exponent :: "rat \<Rightarrow> int" where
  "exponent x =
     (if x \<ge> 1 then int (bit_length (nat \<lfloor>x\<rfloor>)) - 1
      else - int (bit_length (nat (\<lceil>1 / x\<rceil> - 1))))"

definition pow2 :: "int \<Rightarrow> rat" where
  "pow2 e = (if e \<ge> 0 then 2 ^ nat e else 1 / 2 ^ nat (- e))"

definition round_even :: "rat \<Rightarrow> int" where
  "round_even m =
     (let q = \<lfloor>m\<rfloor>; f = m - of_int q
      in if f < 1 / 2 then q else if f > 1 / 2 then q + 1 else if even q then q else q + 1)"

definition f32 :: "rat \<Rightarrow> rat" where
  "f32 x =
     (if x = 0 then 0
      else let u = pow2 (max (exponent \<bar>x\<bar> - 23) (- 149))
           in (if x < 0 then - (of_int (round_even (- x / u)) * u) else of_int (round_even (x / u)) * u))"

definition f32_of_int :: "int \<Rightarrow> rat" where
  "f32_of_int k = f32 (of_int k)"

definition f32_mul :: "rat \<Rightarrow> rat \<Rightarrow> rat" where
  "f32_mul a b = f32 (a * b)"

definition f32_div :: "rat \<Rightarrow> rat \<Rightarrow> rat" where
  "f32_div a b = f32 (a / b)"

text \<open>The square root, rounded to the nearest number by its integer part at that precision.\<close>

fun isqrt :: "nat \<Rightarrow> nat" where
  "isqrt n = (if n = 0 then 0 else let s = 2 * isqrt (n div 4) in if (s + 1) * (s + 1) \<le> n then s + 1 else s)"

declare isqrt.simps [simp del]

definition f32_sqrt :: "rat \<Rightarrow> rat" where
  "f32_sqrt x =
     (if x \<le> 0 then 0
      else let u = pow2 (exponent x div 2 - 23); q = x / (u * u); m = of_nat (isqrt (nat \<lfloor>q\<rfloor>))
           in if q \<le> (m + 1 / 2) * (m + 1 / 2) then m * u else (m + 1) * u)"

text \<open>The same for \<open>double\<close>, with a significand of 53 bits.\<close>

definition f64 :: "rat \<Rightarrow> rat" where
  "f64 x =
     (if x = 0 then 0
      else let u = pow2 (max (exponent \<bar>x\<bar> - 52) (- 1074))
           in (if x < 0 then - (of_int (round_even (- x / u)) * u) else of_int (round_even (x / u)) * u))"

definition FLT_MAX :: rat where
  "FLT_MAX = (2 ^ 24 - 1) * 2 ^ 104"

text \<open>The conversion of a \<open>float\<close> to an integer type cuts off the fraction.\<close>

definition trunc :: "rat \<Rightarrow> int" where
  "trunc x = (if x < 0 then - \<lfloor>- x\<rfloor> else \<lfloor>x\<rfloor>)"

section \<open>Exact values\<close>

lemma bit_length_bounds: "n > 0 \<Longrightarrow> 2 ^ (bit_length n - 1) \<le> n \<and> n < 2 ^ bit_length n"
proof (induction n rule: less_induct)
  case (less n)
  show ?case
  proof (cases "n div 2 = 0")
    case True
    with less(2) show ?thesis by (simp add: bit_length.simps [of n] bit_length.simps [of 0])
  next
    case False
    with less(1) [of "n div 2"] less(2)
    have IH: "2 ^ (bit_length (n div 2) - 1) \<le> n div 2" "n div 2 < 2 ^ bit_length (n div 2)" by auto
    have b: "bit_length n = Suc (bit_length (n div 2))" using less(2) by (simp add: bit_length.simps [of n])
    have "bit_length (n div 2) = Suc (bit_length (n div 2) - 1)"
      using False by (simp add: bit_length.simps [of "n div 2"])
    then have "(2 :: nat) ^ bit_length (n div 2) = 2 * 2 ^ (bit_length (n div 2) - 1)"
      by (metis power_Suc)
    then show ?thesis using IH unfolding b by simp linarith
  qed
qed

lemma round_even_int [simp]: "round_even (of_int k) = k"
  by (simp add: round_even_def Let_def)

lemma pow2_neg: "0 \<le> e \<Longrightarrow> 1 / pow2 (- e) = 2 ^ nat e"
  by (auto simp: pow2_def)

text \<open>Integers below \<open>2^24\<close> are represented exactly.\<close>

lemma f32_of_small_nat:
  assumes "n < 2 ^ 24"
  shows "f32 (of_nat n) = of_nat n"
proof (cases "n = 0")
  case False
  then have b: "2 ^ (bit_length n - 1) \<le> n" "n < 2 ^ bit_length n" using bit_length_bounds [of n] by auto
  have "bit_length n \<le> 24"
  proof (rule ccontr)
    assume "\<not> bit_length n \<le> 24"
    then have "(2 :: nat) ^ 24 \<le> 2 ^ (bit_length n - 1)" by (intro power_increasing) auto
    with b assms show False by simp
  qed
  define k where "k = nat (23 - (int (bit_length n) - 1))"
  have e: "exponent (of_nat n) - 23 = - int k"
    using False \<open>bit_length n \<le> 24\<close> by (simp add: exponent_def k_def)
  have "max (- int k) (- 149) = - int k" by (simp add: k_def)
  then have u: "pow2 (max (- int k) (- 149)) = 1 / 2 ^ k" by (simp add: pow2_def)
  have "(of_nat n :: rat) / (1 / 2 ^ k) = of_int (int n * 2 ^ k)" by simp
  then have "round_even (of_nat n / (1 / 2 ^ k)) = int n * 2 ^ k" by (metis round_even_int)
  then show ?thesis using False by (simp add: f32_def Let_def e u)
qed (simp add: f32_def)

lemma f32_of_small_int: "0 \<le> k \<Longrightarrow> k < 2 ^ 24 \<Longrightarrow> f32_of_int k = of_int k"
  using f32_of_small_nat [of "nat k"] by (simp add: f32_of_int_def)

lemma trunc_int [simp]: "trunc (of_int k) = k"
  by (simp add: trunc_def)

section \<open>Rounding keeps the order with integers\<close>

lemma bit_length_le:
  assumes "n < 2 ^ k" shows "bit_length n \<le> k"
proof (cases "n = 0")
  case True
  then show ?thesis by (simp add: bit_length.simps [of 0])
next
  case False
  show ?thesis
  proof (rule ccontr)
    assume "\<not> bit_length n \<le> k"
    then have "(2 :: nat) ^ k \<le> 2 ^ (bit_length n - 1)" by (intro power_increasing) auto
    with False bit_length_bounds [of n] have "2 ^ k \<le> n" by (meson gr0I order_trans)
    with assms show False by simp
  qed
qed

lemma exponent_small:
  assumes "0 < x" and "x < 2 ^ 24"
  shows "exponent x \<le> 23"
proof (cases "x \<ge> 1")
  case True
  have "\<lfloor>x\<rfloor> < 2 ^ 24" using assms(2) by (simp add: floor_less_iff)
  then have "nat \<lfloor>x\<rfloor> < 2 ^ 24" using True by (simp add: nat_less_iff)
  from bit_length_le [OF this] True show ?thesis by (simp add: exponent_def)
qed (simp add: exponent_def)

lemma round_even_le: "z \<le> of_int m \<Longrightarrow> round_even z \<le> m"
proof -
  assume z: "z \<le> of_int m"
  then have "\<lfloor>z\<rfloor> \<le> m" by (simp add: floor_le_iff less_le_trans)
  moreover have "\<lfloor>z\<rfloor> = m \<Longrightarrow> z = of_int m" using z by linarith
  ultimately show ?thesis by (cases "\<lfloor>z\<rfloor> = m") (auto simp: round_even_def Let_def)
qed

lemma round_even_ge: "of_int m \<le> z \<Longrightarrow> m \<le> round_even z"
  by (auto simp: round_even_def Let_def le_floor_iff intro: order_trans [of m "\<lfloor>z\<rfloor>"])

lemma f32_scale:
  assumes "0 < x" and "x < 2 ^ 24"
  obtains k where "f32 x = of_int (round_even (x * 2 ^ k)) / 2 ^ k"
proof -
  define k where "k = nat (- max (exponent x - 23) (- 149))"
  have "max (exponent x - 23) (- 149) = - int k" using exponent_small [OF assms] by (simp add: k_def)
  then have "pow2 (max (exponent \<bar>x\<bar> - 23) (- 149)) = 1 / 2 ^ k" using assms(1) by (simp add: pow2_def)
  with assms(1) that [of k] show thesis by (simp add: f32_def Let_def)
qed

lemma f32_le_int: "0 \<le> x \<Longrightarrow> x < 2 ^ 24 \<Longrightarrow> x \<le> of_int m \<Longrightarrow> f32 x \<le> of_int m"
proof (cases "x = 0")
  case False
  assume x: "0 \<le> x" "x < 2 ^ 24" "x \<le> of_int m"
  with False obtain k where k: "f32 x = of_int (round_even (x * 2 ^ k)) / 2 ^ k" using f32_scale [of x] by auto
  have "x * 2 ^ k \<le> of_int (m * 2 ^ k)" using x(3) by simp
  from round_even_le [OF this] have "(of_int (round_even (x * 2 ^ k)) :: rat) \<le> of_int (m * 2 ^ k)" by linarith
  then show ?thesis by (simp add: k divide_le_eq le_divide_eq)
qed (simp add: f32_def)

lemma f32_ge_int: "0 \<le> x \<Longrightarrow> x < 2 ^ 24 \<Longrightarrow> of_int m \<le> x \<Longrightarrow> of_int m \<le> f32 x"
proof (cases "x = 0")
  case False
  assume x: "0 \<le> x" "x < 2 ^ 24" "of_int m \<le> x"
  with False obtain k where k: "f32 x = of_int (round_even (x * 2 ^ k)) / 2 ^ k" using f32_scale [of x] by auto
  have "of_int (m * 2 ^ k) \<le> x * 2 ^ k" using x(3) by simp
  from round_even_ge [OF this] have "of_int (m * 2 ^ k) \<le> (of_int (round_even (x * 2 ^ k)) :: rat)" by linarith
  then show ?thesis by (simp add: k divide_le_eq le_divide_eq)
qed (simp add: f32_def)

lemma f32_floor_ceiling:
  assumes "0 \<le> x" and "x < 2 ^ 24"
  shows "\<lfloor>x\<rfloor> \<le> \<lfloor>f32 x\<rfloor>" and "\<lceil>f32 x\<rceil> \<le> \<lceil>x\<rceil>"
  using f32_ge_int [OF assms, of "\<lfloor>x\<rfloor>"] f32_le_int [OF assms, of "\<lceil>x\<rceil>"]
  by (simp_all add: le_floor_iff ceiling_le_iff)

end
