(* ===== verification/Cache.thy ===== *)
theory Cache
  imports Float32 "HOL-Library.AList" "HOL-Library.Multiset"
begin

text \<open>
  The cache of decoded images, \<open>handlers/iiifhandler/IIIFCache.cpp\<close>. The table is an association
  list from canonical URLs to records, with distinct keys; \<open>unordered_map\<close> does not say in which
  order it is iterated, so the field \<open>order\<close> rearranges the table wherever the code iterates over
  it (this covers the freedom of \<open>std::sort\<close> with equal keys as well). The part of the file
  system the cache works on is the map \<open>disk\<close> from paths to size and modification time; the
  index file \<open>.iiifcache\<close> is the list of its records. Counters keep their width.
\<close>

section \<open>Data\<close>

record sub_image =
  reduce :: nat
  width :: nat
  height :: nat
  tile_width :: nat
  tile_height :: nat

record cache_record =
  ce_img_w :: nat
  ce_img_h :: nat
  ce_resolutions :: "sub_image list"
  ce_origpath :: string
  ce_cachepath :: string
  ce_mtime :: int
  ce_access_time :: int
  ce_fsize :: nat

definition blank_record :: cache_record where
  "blank_record = \<lparr>ce_img_w = 0, ce_img_h = 0, ce_resolutions = [], ce_origpath = [], ce_cachepath = [],
     ce_mtime = 0, ce_access_time = 0, ce_fsize = 0\<rparr>"

record size_record =
  sz_img_w :: nat
  sz_img_h :: nat
  sz_resolutions :: "sub_image list"
  sz_mtime :: int

text \<open>A record of the index file; \<open>resolutions\<close> is an array of 48 numbers.\<close>

record file_cache_record =
  fc_img_w :: nat
  fc_img_h :: nat
  fc_nresolutions :: nat
  fc_resolutions :: "nat \<Rightarrow> nat"
  fc_canonical :: string
  fc_origpath :: string
  fc_cachepath :: string
  fc_mtime :: int
  fc_access_time :: int
  fc_fsize :: nat

record file_info =
  st_mtime :: int
  st_size :: nat

type_synonym cache_table = "(string \<times> cache_record) list"

record cache =
  cachedir :: string
  cachetable :: cache_table
  sizetable :: "string \<rightharpoonup> size_record"
  blocked_files :: "string \<rightharpoonup> int"
  cachesize :: nat
  max_cachesize :: nat
  nfiles :: nat
  max_nfiles :: nat
  cache_hysteresis :: rat
  order :: "cache_table \<Rightarrow> cache_table"
  disk :: "string \<rightharpoonup> file_info"
  index_file :: "file_cache_record list option"

definition cache_path :: "cache \<Rightarrow> string \<Rightarrow> string" where
  "cache_path c name = cachedir c @ ''/'' @ name"

section \<open>Counters\<close>

definition size_add :: "nat \<Rightarrow> cache \<Rightarrow> cache" where
  "size_add k c = c\<lparr>cachesize := (cachesize c + k) mod 2 ^ 64\<rparr>"

definition size_sub :: "nat \<Rightarrow> cache \<Rightarrow> cache" where
  "size_sub k c = c\<lparr>cachesize := nat ((int (cachesize c) - int k) mod 2 ^ 64)\<rparr>"

definition nfiles_inc :: "cache \<Rightarrow> cache" where
  "nfiles_inc c = c\<lparr>nfiles := (nfiles c + 1) mod 2 ^ 32\<rparr>"

definition nfiles_dec :: "cache \<Rightarrow> cache" where
  "nfiles_dec c = c\<lparr>nfiles := nat ((int (nfiles c) - 1) mod 2 ^ 32)\<rparr>"

definition unlink :: "string \<Rightarrow> cache \<Rightarrow> cache" where
  "unlink path c = c\<lparr>disk := (disk c)(path := None)\<rparr>"

text \<open>\<open>cachetable[key]\<close> makes a blank entry where there is none.\<close>

definition table_at :: "string \<Rightarrow> cache \<Rightarrow> cache_record \<times> cache" where
  "table_at key c =
     (case map_of (cachetable c) key of
        Some r \<Rightarrow> (r, c)
      | None \<Rightarrow> (blank_record, c\<lparr>cachetable := AList.update key blank_record (cachetable c)\<rparr>))"

definition table_erase :: "string \<Rightarrow> cache \<Rightarrow> cache" where
  "table_erase key c = c\<lparr>cachetable := AList.delete key (cachetable c)\<rparr>"

definition tcompare :: "int \<Rightarrow> int \<Rightarrow> int" where
  "tcompare t1 t2 = (if t1 > t2 then 1 else if t1 < t2 then -1 else 0)"

section \<open>Purging\<close>

definition by_access_asc :: "cache_table \<Rightarrow> cache_table" where
  "by_access_asc = sort_key (\<lambda>(k, r). ce_access_time r)"

text \<open>The entry is dropped unless its file is in use; the boolean says which.\<close>

definition purge_one :: "string \<Rightarrow> cache \<Rightarrow> bool \<times> cache" where
  "purge_one key c =
     (case table_at key c of (r, c1) \<Rightarrow>
        let delpath = cache_path c1 (ce_cachepath r) in
        if blocked_files c1 delpath \<noteq> None then (False, c1)
        else (True, table_erase key (nfiles_dec (size_sub (ce_fsize r) (unlink delpath c1)))))"

text \<open>\<open>long long cachesize_goal\<close> and \<open>int nfiles_goal\<close> are compared with the unsigned counters.\<close>

definition cachesize_goal :: "cache \<Rightarrow> nat" where
  "cachesize_goal c = nat (trunc (f32_mul (f32_of_int (int (max_cachesize c))) (cache_hysteresis c)) mod 2 ^ 64)"

definition nfiles_goal :: "cache \<Rightarrow> nat" where
  "nfiles_goal c = nat (trunc (f32_mul (f32_of_int (int (max_nfiles c))) (cache_hysteresis c)) mod 2 ^ 32)"

fun purge_loop :: "nat \<Rightarrow> nat \<Rightarrow> string list \<Rightarrow> nat \<Rightarrow> cache \<Rightarrow> nat \<times> cache" where
  "purge_loop csgoal nfgoal [] n c = (n, c)"
| "purge_loop csgoal nfgoal (key # keys) n c =
     (case purge_one key c of (removed, c1) \<Rightarrow>
        let n1 = (if removed then n + 1 else n) in
        if max_cachesize c1 > 0 \<and> cachesize c1 < csgoal then (n1, c1)
        else if max_nfiles c1 > 0 \<and> nfiles c1 < nfgoal then (n1, c1)
        else purge_loop csgoal nfgoal keys n1 c1)"

definition over_limit :: "cache \<Rightarrow> bool" where
  "over_limit c \<longleftrightarrow> (max_cachesize c > 0 \<and> cachesize c \<ge> max_cachesize c) \<or>
     (max_nfiles c > 0 \<and> nfiles c \<ge> max_nfiles c)"

definition purge :: "cache \<Rightarrow> nat \<times> cache" where
  "purge c =
     (if max_cachesize c = 0 \<and> max_nfiles c = 0 then (0, c)
      else if over_limit c then
        purge_loop (cachesize_goal c) (nfiles_goal c)
          (map fst (by_access_asc (order c (cachetable c)))) 0 c
      else (0, c))"

section \<open>Looking up and blocking\<close>

definition cannot_stat :: "string \<Rightarrow> exn" where
  "cannot_stat path = CsError (''Couldn'' @ [CHR 0x27] @ ''t stat file '' @ [CHR 0x22] @ path @ [CHR 0x22] @ ''!'')"

definition block :: "string \<Rightarrow> cache \<Rightarrow> cache" where
  "block res c = c\<lparr>blocked_files := (blocked_files c)(res \<mapsto>
     (case blocked_files c res of None \<Rightarrow> 0 | Some k \<Rightarrow> k) + 1)\<rparr>"

text \<open>The result is the path of the cached file, or the empty string.\<close>

definition check :: "int \<Rightarrow> string \<Rightarrow> string \<Rightarrow> bool \<Rightarrow> (cache, string) act" where
  "check now origpath canonical block_file c =
     (case disk c origpath of
        None \<Rightarrow> (Inl (cannot_stat origpath), c)
      | Some info \<Rightarrow>
          (case map_of (cachetable c) canonical of
             None \<Rightarrow> (Inr [], c)
           | Some r \<Rightarrow>
               let c1 = c\<lparr>cachetable := AList.update canonical (r\<lparr>ce_access_time := now\<rparr>) (cachetable c)\<rparr>;
                   res = cache_path c1 (ce_cachepath r)
               in if tcompare (st_mtime info) (ce_mtime r) > 0 then (Inr [], c1)
                  else (Inr res, if block_file then block res c1 else c1)))"

definition deblock :: "string \<Rightarrow> cache \<Rightarrow> cache" where
  "deblock res c =
     (let k = (case blocked_files c res of None \<Rightarrow> 0 | Some k \<Rightarrow> k) - 1 in
      if k < 1 then c\<lparr>blocked_files := (blocked_files c)(res := None)\<rparr>
      else c\<lparr>blocked_files := (blocked_files c)(res \<mapsto> k)\<rparr>)"

text \<open>\<open>mkstemp\<close> is the argument: the name it chose, if it could make the file.\<close>

definition getNewCacheFileName :: "(string \<Rightarrow> string option) \<Rightarrow> (cache, string) act" where
  "getNewCacheFileName mkstemp c =
     (let template = cachedir c @ ''/cache_XXXXXXXXXX'' in
      case mkstemp template of
        None \<Rightarrow> (Inl (CsError (''Couldn'' @ [CHR 0x27] @ ''t create cache file '' @ template)), c)
      | Some name \<Rightarrow> (Inr name, c\<lparr>disk := (disk c)(name \<mapsto> \<lparr>st_mtime = 0, st_size = 0\<rparr>)\<rparr>))"

section \<open>Adding and removing\<close>

definition base_name :: "string \<Rightarrow> string" where
  "base_name path = (case rfind_char (CHR ''/'') path of None \<Rightarrow> path | Some pos \<Rightarrow> drop (pos + 1) path)"

definition replace_old :: "string \<Rightarrow> cache \<Rightarrow> cache" where
  "replace_old canonical c =
     (case map_of (cachetable c) canonical of
        None \<Rightarrow> c
      | Some old \<Rightarrow> nfiles_dec (size_sub (ce_fsize old) (unlink (cache_path c (ce_cachepath old)) c)))"

definition add :: "int \<Rightarrow> string \<Rightarrow> string \<Rightarrow> string \<Rightarrow> nat \<Rightarrow> nat \<Rightarrow> sub_image list \<Rightarrow> (cache, unit) act" where
  "add now origpath canonical cachepath_p img_w img_h res c =
     (case disk c cachepath_p of
        None \<Rightarrow> (Inl (cannot_stat origpath), c)
      | Some info \<Rightarrow>
          let fr = \<lparr>ce_img_w = img_w, ce_img_h = img_h, ce_resolutions = res, ce_origpath = origpath,
                    ce_cachepath = base_name cachepath_p, ce_mtime = st_mtime info,
                    ce_access_time = now, ce_fsize = st_size info\<rparr>;
              c1 = snd (purge (replace_old canonical c));
              c2 = size_add (ce_fsize fr) (c1\<lparr>cachetable := AList.update canonical fr (cachetable c1)\<rparr>);
              c3 = c2\<lparr>sizetable := (sizetable c2)(origpath \<mapsto>
                      \<lparr>sz_img_w = img_w, sz_img_h = img_h, sz_resolutions = res, sz_mtime = 0\<rparr>)\<rparr>
          in (Inr (), nfiles_inc c3))"

definition remove :: "string \<Rightarrow> cache \<Rightarrow> bool \<times> cache" where
  "remove canonical c =
     (case table_at canonical c of (r, c1) \<Rightarrow>
        let delpath = cache_path c1 (ce_cachepath r) in
        if blocked_files c1 delpath \<noteq> None then (False, c1)
        else (True, nfiles_dec (table_erase canonical (size_sub (ce_fsize r) (unlink delpath c1)))))"

definition getSize :: "string \<Rightarrow> (cache, (nat \<times> nat \<times> sub_image list) option) act" where
  "getSize origname c =
     (case disk c origname of
        None \<Rightarrow> (Inl (cannot_stat origname), c)
      | Some info \<Rightarrow>
          (case sizetable c origname of
             None \<Rightarrow> (Inr None, c)
           | Some sr \<Rightarrow>
               if tcompare (st_mtime info) (sz_mtime sr) > 0
               then (Inr None, c\<lparr>sizetable := (sizetable c)(origname := None)\<rparr>)
               else (Inr (Some (sz_img_w sr, sz_img_h sr, sz_resolutions sr)), c)))"

section \<open>Iterating\<close>

datatype sort_method = SORT_ATIME_ASC | SORT_ATIME_DESC | SORT_FSIZE_ASC | SORT_FSIZE_DESC

definition sort_table :: "sort_method \<Rightarrow> cache_table \<Rightarrow> cache_table" where
  "sort_table sm t = (case sm of
     SORT_ATIME_ASC \<Rightarrow> sort_key (\<lambda>(k, r). ce_access_time r) t
   | SORT_ATIME_DESC \<Rightarrow> sort_key (\<lambda>(k, r). - ce_access_time r) t
   | SORT_FSIZE_ASC \<Rightarrow> sort_key (\<lambda>(k, r). int (ce_fsize r)) t
   | SORT_FSIZE_DESC \<Rightarrow> sort_key (\<lambda>(k, r). - int (ce_fsize r)) t)"

definition cache_loop :: "(nat \<Rightarrow> string \<Rightarrow> cache_record \<Rightarrow> 'u \<Rightarrow> 'u) \<Rightarrow> 'u \<Rightarrow> sort_method \<Rightarrow> cache \<Rightarrow> 'u" where
  "cache_loop worker userdata sm c =
     fold (\<lambda>(i, k, r). worker i k r)
       (zip [1..<Suc (length (cachetable c))] (sort_table sm (order c (cachetable c)))) userdata"

section \<open>The index file\<close>

text \<open>
  \<open>snprintf\<close> into 256 bytes keeps 255 of them, and a C string ends at a zero byte. The array of
  resolutions has 48 elements and is not initialised (\<open>junk\<close>); the destructor writes the
  \<open>reduce\<close> of resolution \<open>i\<close> at \<open>sizeof(SubImageInfo) * i\<close>, which is \<open>20 * i\<close>, and the other
  four at \<open>3 * i + 1\<close> and behind, while the constructor reads all five at \<open>20 * i\<close> and behind.
  An index behind the end of the array is undefined.
\<close>

definition c_string :: "string \<Rightarrow> string" where
  "c_string s = take 255 (takeWhile (\<lambda>c. c \<noteq> CHR 0x00) s)"

fun save_resolutions :: "nat \<Rightarrow> sub_image list \<Rightarrow> (nat \<Rightarrow> nat) \<Rightarrow> exn + (nat \<Rightarrow> nat)" where
  "save_resolutions i [] a = Inr a"
| "save_resolutions i (s # ss) a =
     (if 20 * i \<ge> 48 \<or> 3 * i + 4 \<ge> 48 then Inl Undefined
      else save_resolutions (i + 1) ss
        (a(20 * i := reduce s, 3 * i + 1 := width s, 3 * i + 2 := height s,
           3 * i + 3 := tile_width s, 3 * i + 4 := tile_height s)))"

definition save_record :: "(nat \<Rightarrow> nat) \<Rightarrow> string \<times> cache_record \<Rightarrow> exn + file_cache_record" where
  "save_record junk kr =
     (case kr of (key, r) \<Rightarrow>
        (case save_resolutions 0 (ce_resolutions r) junk of
           Inl e \<Rightarrow> Inl e
         | Inr a \<Rightarrow> Inr \<lparr>fc_img_w = ce_img_w r, fc_img_h = ce_img_h r, fc_nresolutions = length (ce_resolutions r),
             fc_resolutions = a, fc_canonical = c_string key, fc_origpath = c_string (ce_origpath r),
             fc_cachepath = c_string (ce_cachepath r), fc_mtime = ce_mtime r,
             fc_access_time = ce_access_time r, fc_fsize = ce_fsize r\<rparr>))"

fun save_records :: "(nat \<Rightarrow> nat) \<Rightarrow> cache_table \<Rightarrow> exn + file_cache_record list" where
  "save_records junk [] = Inr []"
| "save_records junk (kr # krs) =
     (case save_record junk kr of
        Inl e \<Rightarrow> Inl e
      | Inr fr \<Rightarrow> (case save_records junk krs of Inl e \<Rightarrow> Inl e | Inr frs \<Rightarrow> Inr (fr # frs)))"

text \<open>The destructor; \<open>writable\<close> says whether the index file could be opened.\<close>

definition close_cache :: "bool \<Rightarrow> (nat \<Rightarrow> nat) \<Rightarrow> (cache, unit) act" where
  "close_cache writable junk c =
     (if writable then
        (case save_records junk (order c (cachetable c)) of
           Inl e \<Rightarrow> (Inl e, c)
         | Inr frs \<Rightarrow> (Inr (), c\<lparr>index_file := Some frs\<rparr>))
      else (Inr (), c))"

definition load_resolution :: "(nat \<Rightarrow> nat) \<Rightarrow> nat \<Rightarrow> sub_image" where
  "load_resolution a i = \<lparr>reduce = a (20 * i), width = a (20 * i + 1), height = a (20 * i + 2),
     tile_width = a (20 * i + 3), tile_height = a (20 * i + 4)\<rparr>"

definition load_resolutions :: "nat \<Rightarrow> (nat \<Rightarrow> nat) \<Rightarrow> exn + sub_image list" where
  "load_resolutions n a =
     (if n > 0 \<and> 20 * (n - 1) + 4 \<ge> 48 then Inl Undefined else Inr (map (load_resolution a) [0..<n]))"

definition load_record :: "file_cache_record \<Rightarrow> (cache, unit) act" where
  "load_record fr c =
     (if disk c (cache_path c (fc_cachepath fr)) = None then (Inr (), c)
      else (case load_resolutions (fc_nresolutions fr) (fc_resolutions fr) of
          Inl e \<Rightarrow> (Inl e, c)
        | Inr rs \<Rightarrow>
            let cr = \<lparr>ce_img_w = fc_img_w fr, ce_img_h = fc_img_h fr, ce_resolutions = rs,
                      ce_origpath = fc_origpath fr, ce_cachepath = fc_cachepath fr, ce_mtime = fc_mtime fr,
                      ce_access_time = fc_access_time fr, ce_fsize = fc_fsize fr\<rparr>;
                c1 = nfiles_inc (size_add (fc_fsize fr) c)
            in (Inr (), c1\<lparr>cachetable := AList.update (fc_canonical fr) cr (cachetable c1)\<rparr>)))"

text \<open>Files of the directory that are not in the table are deleted, unless their name starts with a dot.\<close>

definition drop_unknown :: "string list \<Rightarrow> cache \<Rightarrow> cache" where
  "drop_unknown names c =
     foldr (\<lambda>name c. if name \<noteq> [] \<and> hd name = CHR ''.'' then c
         else if \<exists>(k, r) \<in> set (cachetable c). ce_cachepath r = name then c
         else unlink (cache_path c name) c) names c"

definition fill_sizetable :: "cache \<Rightarrow> cache" where
  "fill_sizetable c =
     fold (\<lambda>(k, r) c. if sizetable c (ce_origpath r) \<noteq> None then c
         else c\<lparr>sizetable := (sizetable c)(ce_origpath r \<mapsto>
           \<lparr>sz_img_w = ce_img_w r, sz_img_h = ce_img_h r, sz_resolutions = ce_resolutions r,
            sz_mtime = ce_mtime r\<rparr>)\<rparr>) (order c (cachetable c)) c"

text \<open>
  The constructor, on the disk and the index file that are there; \<open>names\<close> is what \<open>scandir\<close>
  finds, if it can.
\<close>

definition open_cache :: "bool \<Rightarrow> string list option \<Rightarrow> (cache, unit) act" where
  "open_cache accessible names = sseq
     [swhen (\<lambda>_. \<not> accessible) (sthrow (CsError ''Cache directory not available'')),
      smod (\<lambda>c. c\<lparr>cachesize := 0, nfiles := 0, cachetable := [], sizetable := Map.empty, blocked_files := Map.empty\<rparr>),
      swith index_file (\<lambda>ix. case ix of None \<Rightarrow> sret () | Some frs \<Rightarrow> sseq (map load_record frs)),
      (case names of None \<Rightarrow> sret () | Some ns \<Rightarrow> smod (drop_unknown ns)),
      smod fill_sizetable]"

end
