(* ===== verification/CacheProps.thy ===== *)
theory CacheProps
  imports Cache
begin

text \<open>
  Properties of the cache (\<open>handlers/iiifhandler/IIIFCache.cpp\<close>): what a purge removes and keeps, the
  counters over any run of operations, files in use, closing and opening again, and the cases in
  which the counters or the limits go wrong.
\<close>

section \<open>Tables\<close>

definition total :: "cache_table \<Rightarrow> nat" where
  "total t = sum_list (map (\<lambda>(k, r). ce_fsize r) t)"

definition keys :: "cache_table \<Rightarrow> string set" where
  "keys t = fst ` set t"

lemma total_simps [simp]: "total [] = 0" "total ((k, r) # t) = ce_fsize r + total t" "total (t @ u) = total t + total u"
  by (simp_all add: total_def)

lemma delete_notin: "k \<notin> fst ` set t \<Longrightarrow> AList.delete k t = t"
  by (induction t) (auto simp: AList.delete_eq)

lemma table_delete:
  "distinct (map fst t) \<Longrightarrow> map_of t k = Some r \<Longrightarrow>
   total (AList.delete k t) + ce_fsize r = total t \<and> length (AList.delete k t) + 1 = length t"
proof (induction t)
  case (Cons p t)
  obtain k' r' where p: "p = (k', r')" by (cases p)
  show ?case
  proof (cases "k' = k")
    case True
    with Cons p have "AList.delete k t = t" by (intro delete_notin) auto
    with True Cons p show ?thesis by simp
  next
    case False
    with Cons p show ?thesis by simp
  qed
qed simp

lemma table_update:
  "distinct (map fst t) \<Longrightarrow>
   total (AList.update k r t) + (case map_of t k of None \<Rightarrow> 0 | Some r0 \<Rightarrow> ce_fsize r0) = total t + ce_fsize r \<and>
   length (AList.update k r t) = (if map_of t k = None then length t + 1 else length t)"
proof (induction t)
  case (Cons p t)
  obtain k' r' where p: "p = (k', r')" by (cases p)
  show ?case
  proof (cases "k' = k")
    case False
    with Cons p show ?thesis by (cases "map_of t k") (simp_all del: map_of_eq_None_iff)
  qed (use Cons p in \<open>simp add: delete_notin\<close>)
qed simp

section \<open>The counters agree with the table\<close>

definition counters_ok :: "cache \<Rightarrow> bool" where
  "counters_ok c \<longleftrightarrow> distinct (map fst (cachetable c)) \<and>
     cachesize c = total (cachetable c) mod 2 ^ 64 \<and> nfiles c = length (cachetable c) mod 2 ^ 32"

lemma mod_sub: "(int ((a + b) mod m) - int b) mod int m = int a mod int m"
  by (simp add: zmod_int mod_diff_left_eq)

lemma sub64_total: "nat ((int ((a + b) mod 2 ^ 64) - int b) mod 2 ^ 64) = a mod 2 ^ 64"
  using mod_sub [of a b "2 ^ 64"] by (simp add: nat_mod_distrib)

lemma dec32_count: "nat ((int ((a + 1) mod 2 ^ 32) - 1) mod 2 ^ 32) = a mod 2 ^ 32"
  using mod_sub [of a 1 "2 ^ 32"] by (simp add: nat_mod_distrib)

lemma counters_drop:
  assumes "counters_ok c" and "map_of (cachetable c) k = Some r" and "cachetable d = AList.delete k (cachetable c)"
    and "cachesize d = nat ((int (cachesize c) - int (ce_fsize r)) mod 2 ^ 64)"
    and "nfiles d = nat ((int (nfiles c) - 1) mod 2 ^ 32)"
  shows "counters_ok d"
proof -
  have t: "total (cachetable c) = total (cachetable d) + ce_fsize r" "length (cachetable c) = length (cachetable d) + 1"
    using table_delete [OF _ assms(2)] assms(1,3) by (auto simp: counters_ok_def)
  then have "cachesize c = (total (cachetable d) + ce_fsize r) mod 2 ^ 64" "nfiles c = (length (cachetable d) + 1) mod 2 ^ 32"
    using assms(1) by (auto simp: counters_ok_def)
  with assms(4,5) sub64_total dec32_count
  have "cachesize d = total (cachetable d) mod 2 ^ 64" "nfiles d = length (cachetable d) mod 2 ^ 32" by metis+
  moreover have "distinct (map fst (cachetable d))"
    using assms(1,3) by (simp add: counters_ok_def distinct_delete)
  ultimately show ?thesis by (simp add: counters_ok_def)
qed

lemma counters_frame:
  "cachetable d = cachetable c \<Longrightarrow> cachesize d = cachesize c \<Longrightarrow> nfiles d = nfiles c \<Longrightarrow> counters_ok d = counters_ok c"
  by (simp add: counters_ok_def)

section \<open>One step of a purge\<close>

definition in_use :: "cache \<Rightarrow> cache_record \<Rightarrow> bool" where
  "in_use c r \<longleftrightarrow> blocked_files c (cache_path c (ce_cachepath r)) \<noteq> None"

definition drop_entry :: "string \<Rightarrow> cache_record \<Rightarrow> cache \<Rightarrow> cache" where
  "drop_entry k r c = table_erase k (nfiles_dec (size_sub (ce_fsize r) (unlink (cache_path c (ce_cachepath r)) c)))"

lemma purge_one_present:
  "map_of (cachetable c) k = Some r \<Longrightarrow>
   purge_one k c = (if in_use c r then (False, c) else (True, drop_entry k r c))"
  by (simp add: purge_one_def table_at_def in_use_def drop_entry_def Let_def)

lemma drop_entry_simps [simp]:
  "cachetable (drop_entry k r c) = AList.delete k (cachetable c)" "blocked_files (drop_entry k r c) = blocked_files c"
  "cachedir (drop_entry k r c) = cachedir c" "max_cachesize (drop_entry k r c) = max_cachesize c"
  "max_nfiles (drop_entry k r c) = max_nfiles c" "order (drop_entry k r c) = order c"
  "cache_hysteresis (drop_entry k r c) = cache_hysteresis c" "sizetable (drop_entry k r c) = sizetable c"
  "disk (drop_entry k r c) = (disk c)(cache_path c (ce_cachepath r) := None)"
  "in_use (drop_entry k r c) = in_use c"
  by (auto simp: drop_entry_def table_erase_def nfiles_dec_def size_sub_def unlink_def in_use_def cache_path_def fun_eq_iff)

lemma drop_entry_counters: "counters_ok c \<Longrightarrow> map_of (cachetable c) k = Some r \<Longrightarrow> counters_ok (drop_entry k r c)"
  by (rule counters_drop [of c k r])
    (simp_all add: drop_entry_def table_erase_def nfiles_dec_def size_sub_def unlink_def)

text \<open>What a purge may change: nothing but the table, the counters and the files on the disk.\<close>

definition same_limits :: "cache \<Rightarrow> cache \<Rightarrow> bool" where
  "same_limits c d \<longleftrightarrow> blocked_files d = blocked_files c \<and> cachedir d = cachedir c \<and>
     max_cachesize d = max_cachesize c \<and> max_nfiles d = max_nfiles c \<and> order d = order c \<and>
     cache_hysteresis d = cache_hysteresis c \<and> sizetable d = sizetable c"

lemma same_limits_refl [simp]: "same_limits c c"
  by (simp add: same_limits_def)

lemma same_limits_in_use: "same_limits c d \<Longrightarrow> in_use d = in_use c"
  by (auto simp: same_limits_def in_use_def cache_path_def fun_eq_iff)

definition below_goal :: "nat \<Rightarrow> nat \<Rightarrow> cache \<Rightarrow> bool" where
  "below_goal csgoal nfgoal c \<longleftrightarrow> (max_cachesize c > 0 \<and> cachesize c < csgoal) \<or> (max_nfiles c > 0 \<and> nfiles c < nfgoal)"

text \<open>
  The loop over the keys: it works off an initial part of them, drops exactly those whose file is
  not in use, and stops before the last key only if a goal is reached.
\<close>

lemma purge_loop_spec:
  "counters_ok c \<Longrightarrow> distinct ks \<Longrightarrow> set ks \<subseteq> fst ` set (cachetable c) \<Longrightarrow>
   purge_loop csgoal nfgoal ks n c = (n', c') \<Longrightarrow>
   \<exists>worked left. ks = worked @ left \<and>
     cachetable c' = filter (\<lambda>(k, r). k \<in> set worked \<longrightarrow> in_use c r) (cachetable c) \<and>
     (left \<noteq> [] \<longrightarrow> below_goal csgoal nfgoal c') \<and> counters_ok c' \<and> same_limits c c' \<and>
     length (cachetable c') + n' = length (cachetable c) + n \<and>
     (\<forall>path. blocked_files c path \<noteq> None \<longrightarrow> disk c' path = disk c path) \<and>
     (\<forall>path. (\<forall>name. path \<noteq> cache_path c name) \<longrightarrow> disk c' path = disk c path) \<and>
     (ks \<noteq> [] \<longrightarrow> worked \<noteq> [])"
proof (induction ks arbitrary: c n)
  case Nil
  then show ?case by (intro exI [of _ "[]"]) auto
next
  case (Cons k ks)
  from Cons.prems(3) obtain r where r: "map_of (cachetable c) k = Some r"
    by (cases "map_of (cachetable c) k") (auto simp: map_of_eq_None_iff)
  have dist: "distinct (map fst (cachetable c))" using Cons.prems(1) by (simp add: counters_ok_def)
  define c1 where "c1 = (if in_use c r then c else drop_entry k r c)"
  define n1 where "n1 = (if in_use c r then n else n + 1)"
  have p: "purge_one k c = (\<not> in_use c r, c1)" using r by (simp add: purge_one_present c1_def)
  have ok1: "counters_ok c1" using Cons.prems(1) r drop_entry_counters by (simp add: c1_def)
  have lim: "same_limits c c1" by (simp add: c1_def same_limits_def)
  have uniq: "r' = r" if "(k, r') \<in> set (cachetable c)" for r'
    using map_of_is_SomeI [OF dist that] r by simp
  have tab: "cachetable c1 = filter (\<lambda>(k', r'). k' = k \<longrightarrow> in_use c r') (cachetable c)"
    using uniq by (auto simp: c1_def AList.delete_eq intro!: filter_cong [OF refl] filter_True [symmetric])
  have len: "length (cachetable c1) + n1 = length (cachetable c) + n"
    using table_delete [OF dist r] by (simp add: c1_def n1_def)
  have files: "disk c1 path = disk c path"
    if "blocked_files c path \<noteq> None \<or> (\<forall>name. path \<noteq> cache_path c name)" for path
    using that by (auto simp: c1_def in_use_def)
  show ?case
  proof (cases "below_goal csgoal nfgoal c1")
    case True
    then have "n' = n1 \<and> c' = c1"
      using Cons.prems(4) p by (auto simp: below_goal_def n1_def Let_def split: if_splits)
    with True tab ok1 lim len files show ?thesis
      by (intro exI [of _ "[k]"] exI [of _ ks]) (auto intro!: filter_cong [OF refl])
  next
    case False
    then have l: "purge_loop csgoal nfgoal ks n1 c1 = (n', c')"
      using Cons.prems(4) p by (auto simp: below_goal_def n1_def Let_def split: if_splits)
    have sub: "set ks \<subseteq> fst ` set (cachetable c1)"
      using Cons.prems(2,3) by (force simp: tab)
    have "distinct ks" using Cons.prems(2) by simp
    from Cons.IH [OF ok1 this sub l] obtain worked left where w:
      "ks = worked @ left"
      "cachetable c' = filter (\<lambda>(k, r). k \<in> set worked \<longrightarrow> in_use c1 r) (cachetable c1)"
      "left \<noteq> [] \<longrightarrow> below_goal csgoal nfgoal c'" "counters_ok c'" "same_limits c1 c'"
      "length (cachetable c') + n' = length (cachetable c1) + n1"
      "\<forall>path. blocked_files c1 path \<noteq> None \<longrightarrow> disk c' path = disk c1 path"
      "\<forall>path. (\<forall>name. path \<noteq> cache_path c1 name) \<longrightarrow> disk c' path = disk c1 path" by blast
    have "in_use c1 = in_use c" by (rule same_limits_in_use [OF lim])
    then have "cachetable c' = filter (\<lambda>(k', r). k' \<in> set (k # worked) \<longrightarrow> in_use c r) (cachetable c)"
      using w(2) tab by (auto intro!: filter_cong [OF refl])
    moreover have "blocked_files c1 = blocked_files c" "cache_path c1 = cache_path c"
      using lim by (auto simp: same_limits_def cache_path_def fun_eq_iff)
    ultimately show ?thesis
      using w lim len files
      by (intro exI [of _ "k # worked"] exI [of _ left]) (auto simp: same_limits_def)
  qed
qed

section \<open>What a purge removes\<close>

lemma by_access_mset [simp]: "mset (by_access_asc t) = mset t"
  by (simp add: by_access_asc_def)

lemma by_access_sorted: "sorted (map (\<lambda>(k, r). ce_access_time r) (by_access_asc t))"
  unfolding by_access_asc_def by (rule sorted_sort_key)

lemma mset_keys: "mset s = mset t \<Longrightarrow> distinct (map fst t) \<Longrightarrow> distinct (map fst s) \<and> set s = set t"
  by (metis mset_eq_setD mset_map mset_eq_imp_distinct_iff)

definition evicts_lru :: "cache \<Rightarrow> cache \<Rightarrow> bool" where
  "evicts_lru c c' \<longleftrightarrow> set (cachetable c') \<subseteq> set (cachetable c) \<and>
     (\<forall>(k, r) \<in> set (cachetable c) - set (cachetable c').
        \<not> in_use c r \<and>
        (\<forall>(k', r') \<in> set (cachetable c'). \<not> in_use c r' \<longrightarrow> ce_access_time r \<le> ce_access_time r'))"

lemma evicts_lru_refl [simp]: "evicts_lru c c"
  by (simp add: evicts_lru_def)

lemma filter_worked_lru:
  assumes "distinct (map fst t)" and "mset s = mset t" and "sorted (map (\<lambda>(k, r). ce_access_time r) s)"
    and "map fst s = worked @ left" and "cachetable c = t"
    and "cachetable c' = filter (\<lambda>(k, r). k \<in> set worked \<longrightarrow> in_use c r) t"
  shows "evicts_lru c c'"
    and "left = [] \<Longrightarrow> \<forall>(k, r) \<in> set (cachetable c'). in_use c r"
proof -
  from assms(4) obtain ws ls where s: "s = ws @ ls" "worked = map fst ws" "left = map fst ls"
    by (auto simp: map_eq_append_conv)
  have ds: "distinct (map fst s)" "set s = set t" using mset_keys [OF assms(2,1)] by auto
  have in_ws: "(k, r) \<in> set ws" if "(k, r) \<in> set t" "k \<in> set worked" for k r
  proof (rule ccontr)
    assume "(k, r) \<notin> set ws"
    with that ds(2) s(1) have "(k, r) \<in> set ls" by auto
    then have "k \<in> set left" using s(3) by force
    with that(2) ds(1) assms(4) show False by auto
  qed
  have in_ls: "(k, r) \<in> set ls" if "(k, r) \<in> set t" "k \<notin> set worked" for k r
    using that ds(2) s by force
  have le: "ce_access_time r \<le> ce_access_time r'" if "(k, r) \<in> set ws" "(k', r') \<in> set ls" for k r k' r'
    using assms(3) that by (force simp: s(1) sorted_append)
  show "evicts_lru c c'"
    using le [OF in_ws in_ls] by (auto simp: evicts_lru_def assms(5,6) split: prod.splits)
  show "\<forall>(k, r) \<in> set (cachetable c'). in_use c r" if "left = []"
  proof -
    have "ls = []" using that s(3) by simp
    then show ?thesis using in_ls assms(6) by auto
  qed
qed

definition order_ok :: "cache \<Rightarrow> bool" where
  "order_ok c \<longleftrightarrow> (\<forall>t. mset (order c t) = mset t)"

lemma order_ok_id [simp]: "order c = id \<Longrightarrow> order_ok c" "order c = (\<lambda>t. t) \<Longrightarrow> order_ok c"
  by (simp_all add: order_ok_def)

lemma purge_limits:
  assumes "counters_ok c" and "order_ok c" and "purge c = (n, c')"
  shows "counters_ok c' \<and> same_limits c c' \<and> length (cachetable c') + n = length (cachetable c) \<and>
    evicts_lru c c' \<and>
    (\<forall>path. blocked_files c path \<noteq> None \<longrightarrow> disk c' path = disk c path) \<and>
    (over_limit c \<longrightarrow> below_goal (cachesize_goal c) (nfiles_goal c) c' \<or> (\<forall>(k, r) \<in> set (cachetable c'). in_use c r)) \<and>
    (over_limit c \<and> cachetable c \<noteq> [] \<and> blocked_files c = Map.empty \<longrightarrow> 0 < n)"
proof (cases "over_limit c")
  case False
  then show ?thesis using assms by (auto simp: purge_def split: if_splits)
next
  case True
  let ?s = "by_access_asc (order c (cachetable c))"
  have d: "distinct (map fst (cachetable c))" using assms(1) by (simp add: counters_ok_def)
  have ms: "mset ?s = mset (cachetable c)" using assms(2) by (simp add: order_ok_def)
  have ks: "distinct (map fst ?s)" "set (map fst ?s) \<subseteq> fst ` set (cachetable c)"
    using mset_keys [OF ms d] by auto
  have p: "purge_loop (cachesize_goal c) (nfiles_goal c) (map fst ?s) 0 c = (n, c')"
    using True assms(3) by (auto simp: purge_def over_limit_def split: if_splits)
  from purge_loop_spec [OF assms(1) ks p] obtain worked left where w:
    "map fst ?s = worked @ left"
    "cachetable c' = filter (\<lambda>(k, r). k \<in> set worked \<longrightarrow> in_use c r) (cachetable c)"
    "left \<noteq> [] \<longrightarrow> below_goal (cachesize_goal c) (nfiles_goal c) c'" "counters_ok c'" "same_limits c c'"
    "length (cachetable c') + n = length (cachetable c) + 0"
    "\<forall>path. blocked_files c path \<noteq> None \<longrightarrow> disk c' path = disk c path"
    "map fst ?s \<noteq> [] \<longrightarrow> worked \<noteq> []"
    by blast
  note l = filter_worked_lru [OF d ms by_access_sorted w(1) refl w(2)]
  have goal: "below_goal (cachesize_goal c) (nfiles_goal c) c' \<or> (\<forall>(k, r) \<in> set (cachetable c'). in_use c r)"
    using w(3) l(2) by (cases "left = []") simp_all
  have len: "length (cachetable c') + n = length (cachetable c)" using w(6) by simp
  have "0 < n" if "cachetable c \<noteq> []" "blocked_files c = Map.empty"
  proof -
    from that(1) have "?s \<noteq> []" by (metis ms mset_zero_iff)
    with w(8) obtain k where k: "k \<in> set worked" by (cases worked) auto
    with ks(2) w(1) obtain r where "(k, r) \<in> set (cachetable c)" by force
    then have "length (cachetable c') < length (cachetable c)"
      unfolding w(2) using k that(2) by (intro length_filter_less) (auto simp: in_use_def)
    with len show ?thesis by simp
  qed
  with len show ?thesis by (intro conjI impI w(4) w(5) w(7) l(1) goal) simp_all
qed

section \<open>Replacing and adding entries\<close>

lemma map_of_subset_none:
  "set t' \<subseteq> set t \<Longrightarrow> map_of t k = None \<Longrightarrow> map_of t' k = None"
  by (auto simp: map_of_eq_None_iff)

lemma counters_insert:
  assumes "counters_ok c" and "map_of (cachetable c) k = None"
    and "cachetable d = AList.update k r (cachetable c)"
    and "cachesize d = (cachesize c + ce_fsize r) mod 2 ^ 64" and "nfiles d = (nfiles c + 1) mod 2 ^ 32"
  shows "counters_ok d"
proof -
  have d: "distinct (map fst (cachetable c))" using assms(1) by (simp add: counters_ok_def)
  have t: "total (cachetable d) = total (cachetable c) + ce_fsize r" "length (cachetable d) = length (cachetable c) + 1"
    using table_update [OF d, of k r] assms(2,3) by simp_all
  have "distinct (map fst (cachetable d))" using d assms(3) by (simp add: distinct_update)
  with assms t show ?thesis by (simp add: counters_ok_def mod_simps)
qed

section \<open>Operations as steps\<close>

datatype cache_op =
    Check int string string bool
  | Deblock string
  | NewFile "string \<Rightarrow> string option"
  | Add int string string string nat nat "sub_image list"
  | Remove string
  | Purge
  | GetSize string
  | Outside "string \<rightharpoonup> file_info"

text \<open>\<open>Outside\<close> is what others do to the files meanwhile.\<close>

fun run_op :: "cache_op \<Rightarrow> cache \<Rightarrow> cache" where
  "run_op (Check now orig canon b) c = snd (check now orig canon b c)"
| "run_op (Deblock res) c = deblock res c"
| "run_op (NewFile mk) c = snd (getNewCacheFileName mk c)"
| "run_op (Add now orig canon path w h rs) c = snd (add now orig canon path w h rs c)"
| "run_op (Remove canon) c = snd (remove canon c)"
| "run_op Purge c = snd (purge c)"
| "run_op (GetSize orig) c = snd (getSize orig c)"
| "run_op (Outside d) c = c\<lparr>disk := d\<rparr>"

text \<open>
  The uses that keep the books: only entries that are there are removed, and an entry is replaced
  only while the cache without it is below its limits.
\<close>

fun op_ok :: "cache_op \<Rightarrow> cache \<Rightarrow> bool" where
  "op_ok (Add now orig canon path w h rs) c \<longleftrightarrow>
     map_of (cachetable c) canon = None \<or> \<not> over_limit (replace_old canon c)"
| "op_ok (Remove canon) c \<longleftrightarrow> map_of (cachetable c) canon \<noteq> None"
| "op_ok _ c \<longleftrightarrow> True"

inductive cache_step :: "cache \<Rightarrow> cache \<Rightarrow> bool" where
  step: "op_ok op c \<Longrightarrow> cache_step c (run_op op c)"

inductive_cases cache_stepE: "cache_step c d"

definition cache_inv :: "cache \<Rightarrow> bool" where
  "cache_inv c \<longleftrightarrow> counters_ok c \<and> order_ok c \<and> (\<forall>p k. blocked_files c p = Some k \<longrightarrow> 1 \<le> k)"

lemma cache_inv_frame:
  "cache_inv c \<Longrightarrow> cachetable d = cachetable c \<Longrightarrow> cachesize d = cachesize c \<Longrightarrow> nfiles d = nfiles c \<Longrightarrow> order d = order c \<Longrightarrow>
   blocked_files d = blocked_files c \<Longrightarrow> cache_inv d"
  by (simp add: cache_inv_def counters_ok_def order_ok_def)

lemma cache_inv_touch:
  assumes "cache_inv c" and "map_of (cachetable c) k = Some r"
    and "cachetable d = AList.update k (r\<lparr>ce_access_time := t\<rparr>) (cachetable c)"
    and "cachesize d = cachesize c" "nfiles d = nfiles c" "order d = order c"
    and "\<forall>p k. blocked_files d p = Some k \<longrightarrow> 1 \<le> k"
  shows "cache_inv d"
proof -
  have d: "distinct (map fst (cachetable c))" using assms(1) by (simp add: cache_inv_def counters_ok_def)
  have "total (cachetable d) = total (cachetable c)" "length (cachetable d) = length (cachetable c)"
    using table_update [OF d, of k "r\<lparr>ce_access_time := t\<rparr>"] assms(2,3) by simp_all
  with d assms show ?thesis by (simp add: cache_inv_def counters_ok_def order_ok_def distinct_update)
qed

lemma inv_check:
  assumes "cache_inv c" shows "cache_inv (snd (check now orig canon b c))"
proof (cases "disk c orig")
  case None
  with assms show ?thesis by (simp add: check_def)
next
  case (Some info)
  show ?thesis
  proof (cases "map_of (cachetable c) canon")
    case None
    with Some assms show ?thesis by (simp add: check_def)
  next
    case r: (Some r)
    have b: "\<forall>p k. blocked_files c p = Some k \<longrightarrow> 1 \<le> k" using assms by (simp add: cache_inv_def)
    show ?thesis
      by (rule cache_inv_touch [OF assms r, where t = now])
        (use b Some r in \<open>simp_all add: check_def Let_def block_def\<close>, (intro allI impI, fastforce split: option.splits if_splits))
  qed
qed

lemma inv_deblock: "cache_inv c \<Longrightarrow> cache_inv (deblock res c)"
  by (auto simp: cache_inv_def counters_ok_def order_ok_def deblock_def Let_def split: if_splits)

lemma inv_purge: "cache_inv c \<Longrightarrow> cache_inv (snd (purge c))"
  using purge_limits [of c "fst (purge c)" "snd (purge c)"]
  by (simp add: cache_inv_def same_limits_def order_ok_def)

lemma inv_remove:
  assumes "cache_inv c" and "map_of (cachetable c) k = Some r"
  shows "cache_inv (snd (remove k c))"
proof (cases "in_use c r")
  case True
  with assms show ?thesis by (simp add: remove_def table_at_def in_use_def Let_def)
next
  case False
  then have d: "cachetable (snd (remove k c)) = cachetable (drop_entry k r c)"
    "cachesize (snd (remove k c)) = cachesize (drop_entry k r c)" "nfiles (snd (remove k c)) = nfiles (drop_entry k r c)"
    "order (snd (remove k c)) = order c" "blocked_files (snd (remove k c)) = blocked_files c"
    using assms(2) by (simp_all add: remove_def table_at_def in_use_def Let_def drop_entry_def table_erase_def
        nfiles_dec_def size_sub_def unlink_def)
  have "counters_ok (drop_entry k r c)"
    using assms by (simp add: cache_inv_def drop_entry_counters)
  with d assms(1) show ?thesis by (simp add: cache_inv_def counters_ok_def order_ok_def)
qed

section \<open>Adding\<close>

definition new_record :: "int \<Rightarrow> string \<Rightarrow> string \<Rightarrow> nat \<Rightarrow> nat \<Rightarrow> sub_image list \<Rightarrow> file_info \<Rightarrow> cache_record" where
  "new_record now orig path w h rs info =
     \<lparr>ce_img_w = w, ce_img_h = h, ce_resolutions = rs, ce_origpath = orig, ce_cachepath = base_name path,
      ce_mtime = st_mtime info, ce_access_time = now, ce_fsize = st_size info\<rparr>"

lemma add_simps:
  fixes now orig k path w h rs c
  defines "d \<equiv> snd (add now orig k path w h rs c)" and "p \<equiv> snd (purge (replace_old k c))"
  assumes "disk c path = Some info"
  shows "fst (add now orig k path w h rs c) = Inr ()"
    and "cachetable d = AList.update k (new_record now orig path w h rs info) (cachetable p)"
    and "cachesize d = (cachesize p + st_size info) mod 2 ^ 64" "nfiles d = (nfiles p + 1) mod 2 ^ 32"
    and "order d = order p" "blocked_files d = blocked_files p" "disk d = disk p" "cachedir d = cachedir p"
  using assms(3) by (simp_all add: d_def p_def add_def Let_def size_add_def nfiles_inc_def new_record_def)

lemma inv_add_new:
  assumes "cache_inv c" and "map_of (cachetable c) k = None"
  shows "cache_inv (snd (add now orig k path w h rs c))"
proof (cases "disk c path")
  case None
  with assms show ?thesis by (simp add: add_def)
next
  case (Some info)
  let ?p = "snd (purge c)"
  have r: "replace_old k c = c" using assms(2) by (simp add: replace_old_def)
  note s = add_simps [of c path info now orig k w h rs, OF Some, unfolded r]
  have ip: "cache_inv ?p" by (rule inv_purge [OF assms(1)])
  have "set (cachetable ?p) \<subseteq> set (cachetable c)"
    using purge_limits [of c "fst (purge c)" ?p] assms(1) by (simp add: cache_inv_def evicts_lru_def)
  then have no: "map_of (cachetable ?p) k = None" by (rule map_of_subset_none [OF _ assms(2)])
  have "counters_ok (snd (add now orig k path w h rs c))"
    by (rule counters_insert [of ?p k _ "new_record now orig path w h rs info"])
      (use ip no s in \<open>simp_all add: cache_inv_def new_record_def\<close>)
  with ip s show ?thesis by (simp add: cache_inv_def order_ok_def)
qed

lemma inv_add_replace:
  assumes "cache_inv c" and "map_of (cachetable c) k = Some old" and "\<not> over_limit (replace_old k c)"
  shows "cache_inv (snd (add now orig k path w h rs c))"
proof (cases "disk c path")
  case None
  with assms show ?thesis by (simp add: add_def)
next
  case (Some info)
  let ?q = "replace_old k c" and ?r = "new_record now orig path w h rs info"
  have p: "snd (purge ?q) = ?q" using assms(3) by (simp add: purge_def)
  note s = add_simps [of c path info now orig k w h rs, OF Some, unfolded p]
  have d: "distinct (map fst (cachetable c))" using assms(1) by (simp add: cache_inv_def counters_ok_def)
  have t: "total (AList.update k ?r (cachetable c)) + ce_fsize old = total (cachetable c) + st_size info"
    "length (AList.update k ?r (cachetable c)) = length (cachetable c)"
    using table_update [OF d, of k ?r] assms(2) by (simp_all add: new_record_def)
  have l: "0 < length (cachetable c)" using assms(2) by (cases "cachetable c") auto
  have q: "cachetable ?q = cachetable c" "order ?q = order c" "blocked_files ?q = blocked_files c"
    "cachesize ?q = nat ((int (cachesize c) - int (ce_fsize old)) mod 2 ^ 64)"
    "nfiles ?q = nat ((int (nfiles c) - 1) mod 2 ^ 32)"
    using assms(2) by (simp_all add: replace_old_def nfiles_dec_def size_sub_def unlink_def)
  let ?rest = "AList.delete k (cachetable c)"
  have e: "total ?rest + ce_fsize old = total (cachetable c)" "length ?rest + 1 = length (cachetable c)"
    using table_delete [OF d assms(2)] by simp_all
  have "cachesize c = (total ?rest + ce_fsize old) mod 2 ^ 64" "nfiles c = (length ?rest + 1) mod 2 ^ 32"
    using assms(1) e by (simp_all add: cache_inv_def counters_ok_def)
  then have "cachesize ?q = total ?rest mod 2 ^ 64" "nfiles ?q = length ?rest mod 2 ^ 32"
    using q(4,5) by (simp_all only: sub64_total dec32_count)
  then have n: "cachesize (snd (add now orig k path w h rs c)) = (total ?rest mod 2 ^ 64 + st_size info) mod 2 ^ 64"
    "nfiles (snd (add now orig k path w h rs c)) = (length ?rest mod 2 ^ 32 + 1) mod 2 ^ 32"
    by (simp_all only: s(3,4))
  have m: "total ?rest + st_size info = total (AList.update k ?r (cachetable c))"
    "length ?rest + 1 = length (AList.update k ?r (cachetable c))" using t e by linarith+
  have tab: "cachetable (snd (add now orig k path w h rs c)) = AList.update k ?r (cachetable c)"
    by (simp only: s(2) q(1))
  have "counters_ok (snd (add now orig k path w h rs c))"
    unfolding counters_ok_def tab n mod_add_left_eq m using d by (simp add: distinct_update)
  with s q assms(1) show ?thesis by (simp add: cache_inv_def order_ok_def)
qed

lemma inv_new_file: "cache_inv c \<Longrightarrow> cache_inv (snd (getNewCacheFileName mk c))"
  by (erule cache_inv_frame) (simp_all add: getNewCacheFileName_def Let_def split: option.split)

lemma inv_getSize: "cache_inv c \<Longrightarrow> cache_inv (snd (getSize orig c))"
  by (erule cache_inv_frame) (simp_all add: getSize_def split: option.split)

lemma inv_outside: "cache_inv c \<Longrightarrow> cache_inv (c\<lparr>disk := d\<rparr>)"
  by (erule cache_inv_frame) simp_all

lemma cache_step_inv:
  assumes "cache_step c d" and "cache_inv c" shows "cache_inv d"
proof -
  from assms(1) obtain op where op: "op_ok op c" "d = run_op op c" by (auto elim: cache_stepE)
  show ?thesis
  proof (cases op)
    case (Add now orig k path w h rs)
    with op assms(2) show ?thesis
      by (cases "map_of (cachetable c) k") (simp_all add: inv_add_new inv_add_replace)
  next
    case (Remove k)
    with op assms(2) show ?thesis by (auto simp: inv_remove)
  qed (use op assms(2) in \<open>simp_all add: inv_check inv_deblock inv_purge inv_new_file inv_getSize inv_outside\<close>)
qed

section \<open>Files in use\<close>

definition keeps_file :: "string \<Rightarrow> cache \<Rightarrow> cache \<Rightarrow> bool" where
  "keeps_file path c d \<longleftrightarrow> (blocked_files c path \<noteq> None \<longrightarrow>
     blocked_files d path \<noteq> None \<and> disk d path = disk c path)"

lemma keeps_file_refl [simp]: "keeps_file path c c"
  by (simp add: keeps_file_def)

lemma keeps_file_trans: "keeps_file path c d \<Longrightarrow> keeps_file path d e \<Longrightarrow> keeps_file path c e"
  by (auto simp: keeps_file_def)

lemma table_at_frame [simp]:
  "disk (snd (table_at k c)) = disk c" "blocked_files (snd (table_at k c)) = blocked_files c"
  by (simp_all add: table_at_def split: option.split)

lemma purge_one_keeps: "keeps_file path c (snd (purge_one k c))"
proof -
  obtain r c1 where t: "table_at k c = (r, c1)" by (cases "table_at k c")
  then have "blocked_files c1 = blocked_files c" "disk c1 = disk c"
    using table_at_frame [of k c] by simp_all
  with t show ?thesis
    by (auto simp: keeps_file_def purge_one_def Let_def table_erase_def nfiles_dec_def size_sub_def unlink_def)
qed

lemma purge_loop_keeps: "keeps_file path c (snd (purge_loop csgoal nfgoal ks n c))"
proof (induction ks arbitrary: n c)
  case (Cons k ks)
  obtain rem c1 where p: "purge_one k c = (rem, c1)" by (cases "purge_one k c")
  with purge_one_keeps [of path c k] have "keeps_file path c c1" by simp
  with p Cons [of c1] show ?case by (auto simp: Let_def intro: keeps_file_trans)
qed simp

lemma purge_keeps: "keeps_file path c (snd (purge c))"
  by (simp add: purge_def purge_loop_keeps)

lemma remove_keeps: "keeps_file path c (snd (remove k c))"
proof -
  obtain r c1 where t: "table_at k c = (r, c1)" by (cases "table_at k c")
  then have "blocked_files c1 = blocked_files c" "disk c1 = disk c"
    using table_at_frame [of k c] by simp_all
  with t show ?thesis
    by (auto simp: keeps_file_def remove_def Let_def table_erase_def nfiles_dec_def size_sub_def unlink_def)
qed

lemma check_keeps: "keeps_file path c (snd (check now orig canon b c))"
  by (auto simp: keeps_file_def check_def block_def Let_def split: option.split)

lemma add_keeps: "map_of (cachetable c) k = None \<Longrightarrow> keeps_file path c (snd (add now orig k p w h rs c))"
proof (cases "disk c p")
  case (Some info)
  assume "map_of (cachetable c) k = None"
  then have r: "replace_old k c = c" by (simp add: replace_old_def)
  show ?thesis
    using purge_keeps [of path c] add_simps(6,7) [of c p info now orig k w h rs, OF Some]
    by (simp add: keeps_file_def r)
qed (simp add: add_def)

text \<open>The operations that leave a file alone on purpose.\<close>

fun spares :: "string \<Rightarrow> cache_op \<Rightarrow> cache \<Rightarrow> bool" where
  "spares path (Deblock res) c \<longleftrightarrow> res \<noteq> path"
| "spares path (NewFile mk) c \<longleftrightarrow> mk (cachedir c @ ''/cache_XXXXXXXXXX'') \<noteq> Some path"
| "spares path (Add now orig canon p w h rs) c \<longleftrightarrow> map_of (cachetable c) canon = None"
| "spares path (Outside d) c \<longleftrightarrow> d path = disk c path"
| "spares path op c \<longleftrightarrow> True"

fun spares_all :: "string \<Rightarrow> cache_op list \<Rightarrow> cache \<Rightarrow> bool" where
  "spares_all path [] c \<longleftrightarrow> True"
| "spares_all path (op # ops) c \<longleftrightarrow> spares path op c \<and> spares_all path ops (run_op op c)"

lemma op_keeps: "spares path op c \<Longrightarrow> keeps_file path c (run_op op c)"
proof (cases op)
  case (NewFile mk)
  moreover assume "spares path op c"
  ultimately show ?thesis
    by (auto simp: keeps_file_def getNewCacheFileName_def Let_def split: option.split)
next
  case (Deblock res)
  moreover assume "spares path op c"
  ultimately show ?thesis by (auto simp: keeps_file_def deblock_def Let_def)
next
  case (GetSize orig)
  then show ?thesis by (auto simp: keeps_file_def getSize_def split: option.split)
next
  case (Outside d)
  moreover assume "spares path op c"
  ultimately show ?thesis by (auto simp: keeps_file_def)
qed (simp_all add: check_keeps remove_keeps purge_keeps add_keeps)

lemma ops_keep: "spares_all path ops c \<Longrightarrow> keeps_file path c (fold run_op ops c)"
  by (induction ops arbitrary: c) (auto intro: keeps_file_trans op_keeps)

lemma check_blocks:
  assumes "check now orig canon True c = (Inr path, d)" and "path \<noteq> []"
  shows "blocked_files d path \<noteq> None"
  using assms by (auto simp: check_def block_def Let_def cache_path_def split: option.splits if_splits)

section \<open>Closing and opening again\<close>

definition storable :: "string \<times> cache_record \<Rightarrow> bool" where
  "storable kr \<longleftrightarrow> (case kr of (k, r) \<Rightarrow> length (ce_resolutions r) \<le> 1 \<and> c_string k = k \<and>
     c_string (ce_origpath r) = ce_origpath r \<and> c_string (ce_cachepath r) = ce_cachepath r)"

definition load_entry :: "string \<times> cache_record \<Rightarrow> cache \<Rightarrow> cache" where
  "load_entry kr c = (case kr of (k, r) \<Rightarrow>
     let c1 = nfiles_inc (size_add (ce_fsize r) c) in c1\<lparr>cachetable := AList.update k r (cachetable c1)\<rparr>)"

definition saved :: "(nat \<Rightarrow> nat) \<Rightarrow> string \<times> cache_record \<Rightarrow> file_cache_record" where
  "saved junk kr = projr (save_record junk kr)"

lemma storable_cases:
  assumes "storable (k, r)"
  obtains "ce_resolutions r = []" | s where "ce_resolutions r = [s]"
  using assms by (cases "ce_resolutions r") (auto simp: storable_def)

lemma save_storable: "storable (k, r) \<Longrightarrow> save_record junk (k, r) = Inr (saved junk (k, r))"
  by (erule storable_cases) (simp_all add: saved_def save_record_def)

lemma load_saved:
  assumes "storable (k, r)" and "disk c (cache_path c (ce_cachepath r)) \<noteq> None"
  shows "load_record (saved junk (k, r)) c = (Inr (), load_entry (k, r) c)"
proof -
  have names: "c_string k = k" "c_string (ce_origpath r) = ce_origpath r" "c_string (ce_cachepath r) = ce_cachepath r"
    using assms(1) by (simp_all add: storable_def)
  from assms(1) show ?thesis
  proof (cases rule: storable_cases)
    case 1
    with assms(2) names show ?thesis
      by (cases r) (auto simp: saved_def save_record_def load_record_def load_resolutions_def load_entry_def Let_def)
  next
    case (2 s)
    with assms(2) names show ?thesis
      by (cases r; cases s) (auto simp: saved_def save_record_def load_record_def load_resolutions_def load_resolution_def
          load_entry_def Let_def)
  qed
qed

lemma save_all: "\<forall>kr \<in> set t. storable kr \<Longrightarrow> save_records junk t = Inr (map (saved junk) t)"
  by (induction t) (auto simp: save_storable)

lemma load_entry_frame [simp]:
  "disk (load_entry kr c) = disk c" "cachedir (load_entry kr c) = cachedir c" "order (load_entry kr c) = order c"
  "blocked_files (load_entry kr c) = blocked_files c"
  by (simp_all add: load_entry_def Let_def nfiles_inc_def size_add_def split: prod.split)

lemma load_entry_counters:
  "counters_ok c \<Longrightarrow> map_of (cachetable c) k = None \<Longrightarrow> counters_ok (load_entry (k, r) c)"
  by (rule counters_insert [of c k _ r]) (simp_all add: load_entry_def Let_def nfiles_inc_def size_add_def)

lemma load_entry_table:
  "k \<notin> fst ` set (cachetable c) \<Longrightarrow> cachetable (load_entry (k, r) c) = cachetable c @ [(k, r)]"
proof -
  have "k \<notin> fst ` set t \<Longrightarrow> AList.update k r t = t @ [(k, r)]" for t by (induction t) auto
  then show "k \<notin> fst ` set (cachetable c) \<Longrightarrow> ?thesis"
    by (simp add: load_entry_def Let_def nfiles_inc_def size_add_def)
qed

lemma load_all:
  "\<forall>kr \<in> set t. storable kr \<Longrightarrow> \<forall>(k, r) \<in> set t. disk c (cache_path c (ce_cachepath r)) \<noteq> None \<Longrightarrow>
   distinct (map fst (cachetable c @ t)) \<Longrightarrow> counters_ok c \<Longrightarrow>
   \<exists>d. sseq (map load_record (map (saved junk) t)) c = (Inr (), d) \<and> cachetable d = cachetable c @ t \<and>
     counters_ok d \<and> disk d = disk c \<and> cachedir d = cachedir c \<and> order d = order c \<and> blocked_files d = blocked_files c"
proof (induction t arbitrary: c)
  case (Cons kr t)
  obtain k r where kr: "kr = (k, r)" by (cases kr)
  let ?c = "load_entry (k, r) c"
  have new: "k \<notin> fst ` set (cachetable c)" using Cons.prems(3) kr by auto
  have tab: "cachetable ?c = cachetable c @ [(k, r)]" by (rule load_entry_table [OF new])
  have l: "load_record (saved junk (k, r)) c = (Inr (), ?c)"
    using Cons.prems(1,2) kr by (intro load_saved) auto
  have "counters_ok ?c" by (rule load_entry_counters [OF Cons.prems(4)]) (use new in \<open>simp add: map_of_eq_None_iff\<close>)
  moreover have "\<forall>(k, r) \<in> set t. disk ?c (cache_path ?c (ce_cachepath r)) \<noteq> None"
    using Cons.prems(2) by (auto simp: cache_path_def)
  moreover have "distinct (map fst (cachetable ?c @ t))" using Cons.prems(3) kr tab by auto
  ultimately obtain d where d: "sseq (map load_record (map (saved junk) t)) ?c = (Inr (), d)"
    "cachetable d = cachetable ?c @ t" "counters_ok d" "disk d = disk ?c" "cachedir d = cachedir ?c" "order d = order ?c"
    "blocked_files d = blocked_files ?c"
    using Cons.IH [of ?c] Cons.prems(1) by auto
  then show ?case using l kr tab by (intro exI [of _ d]) simp
qed simp

lemma fill_sizetable_frame:
  "cachetable (fill_sizetable c) = cachetable c \<and> disk (fill_sizetable c) = disk c \<and>
   cachesize (fill_sizetable c) = cachesize c \<and> nfiles (fill_sizetable c) = nfiles c \<and> order (fill_sizetable c) = order c \<and>
   cachedir (fill_sizetable c) = cachedir c"
proof -
  let ?f = "\<lambda>(k, r) c. if sizetable c (ce_origpath r) \<noteq> None then c
         else c\<lparr>sizetable := (sizetable c)(ce_origpath r \<mapsto>
           \<lparr>sz_img_w = ce_img_w r, sz_img_h = ce_img_h r, sz_resolutions = ce_resolutions r,
            sz_mtime = ce_mtime r\<rparr>)\<rparr>"
  have "cachetable (fold ?f t d) = cachetable d \<and> disk (fold ?f t d) = disk d \<and>
     cachesize (fold ?f t d) = cachesize d \<and> nfiles (fold ?f t d) = nfiles d \<and> order (fold ?f t d) = order d \<and>
     cachedir (fold ?f t d) = cachedir d" for t d
    by (induction t arbitrary: d) auto
  then show ?thesis by (simp add: fill_sizetable_def)
qed

lemma drop_unknown_frame:
  "cachetable (drop_unknown ns c) = cachetable c \<and> cachesize (drop_unknown ns c) = cachesize c \<and>
   nfiles (drop_unknown ns c) = nfiles c \<and> order (drop_unknown ns c) = order c \<and>
   cachedir (drop_unknown ns c) = cachedir c"
  by (induction ns) (auto simp: drop_unknown_def unlink_def)

lemma drop_unknown_disk:
  "(k, r) \<in> set (cachetable c) \<Longrightarrow>
   disk (drop_unknown ns c) (cache_path c (ce_cachepath r)) = disk c (cache_path c (ce_cachepath r))"
proof (induction ns)
  case (Cons n ns)
  let ?c = "drop_unknown ns c"
  have e: "drop_unknown (n # ns) c = (if n \<noteq> [] \<and> hd n = CHR ''.'' then ?c
      else if \<exists>(k, r) \<in> set (cachetable ?c). ce_cachepath r = n then ?c else unlink (cache_path ?c n) ?c)"
    by (simp add: drop_unknown_def)
  have f: "cachetable ?c = cachetable c" "cachedir ?c = cachedir c" using drop_unknown_frame by blast+
  have "n \<noteq> ce_cachepath r" if "\<not> (\<exists>(k, r) \<in> set (cachetable ?c). ce_cachepath r = n)"
    using that Cons.prems f(1) by auto
  then show ?case using Cons.IH [OF Cons.prems] f by (auto simp: e unlink_def cache_path_def)
qed (simp add: drop_unknown_def)

section \<open>Properties\<close>

text \<open>An example: two files of 10 and 90 bytes, the second in use.\<close>

definition demo_record :: "string \<Rightarrow> int \<Rightarrow> nat \<Rightarrow> cache_record" where
  "demo_record name t n = \<lparr>ce_img_w = 4, ce_img_h = 3, ce_resolutions = [\<lparr>reduce = 1, width = 4, height = 3, tile_width = 0, tile_height = 0\<rparr>],
     ce_origpath = ''/img/'' @ name, ce_cachepath = name, ce_mtime = 5, ce_access_time = t, ce_fsize = n\<rparr>"

definition demo_cache :: cache where
  "demo_cache = \<lparr>cachedir = ''/c'', cachetable = [(''a'', demo_record ''a'' 2 10), (''b'', demo_record ''b'' 1 90)],
     sizetable = Map.empty, blocked_files = [''/c/b'' \<mapsto> 1], cachesize = 100, max_cachesize = 80, nfiles = 2, max_nfiles = 0,
     cache_hysteresis = 1 / 2, order = (\<lambda>t. t),
     disk = [''/c/a'' \<mapsto> \<lparr>st_mtime = 5, st_size = 10\<rparr>, ''/c/b'' \<mapsto> \<lparr>st_mtime = 5, st_size = 90\<rparr>,
             ''/c/n'' \<mapsto> \<lparr>st_mtime = 9, st_size = 10\<rparr>, ''/img/a'' \<mapsto> \<lparr>st_mtime = 4, st_size = 50\<rparr>],
     index_file = None\<rparr>"

lemma demo_inv: "cache_inv demo_cache" "counters_ok demo_cache" "order_ok demo_cache"
  by (auto simp: cache_inv_def counters_ok_def order_ok_def demo_cache_def demo_record_def)

lemma goal_40: "trunc (f32_mul (f32_of_int 80) (1 / 2)) = 40"
proof -
  have "f32_of_int 80 = of_int 80" by (rule f32_of_small_int) simp_all
  then have "f32_mul (f32_of_int 80) (1 / 2) = f32_of_int 40" by (simp add: f32_mul_def f32_of_int_def)
  moreover have "f32_of_int 40 = of_int 40" by (rule f32_of_small_int) simp_all
  ultimately show ?thesis by (metis trunc_int)
qed

lemma goal_0: "trunc (f32_mul (f32_of_int 0) h) = 0"
  by (simp add: f32_mul_def f32_of_int_def f32_def trunc_def)

text \<open>
  C12: A purge keeps the counters in step with the table, takes out exactly as many entries as it
  reports, leaves the files in use alone and evicts the least recently used entries first: nothing
  that is dropped was used later than an unused entry that is kept. When a limit was exceeded, it
  ends below one of the goals or with nothing but files in use.
\<close>

theorem purge_evicts_lru:
  assumes "counters_ok c" and "order_ok c" and "purge c = (n, c')"
  shows "counters_ok c' \<and> length (cachetable c') + n = length (cachetable c) \<and> evicts_lru c c' \<and>
    (\<forall>path. blocked_files c path \<noteq> None \<longrightarrow> disk c' path = disk c path) \<and>
    (over_limit c \<longrightarrow> below_goal (cachesize_goal c) (nfiles_goal c) c' \<or> (\<forall>(k, r) \<in> set (cachetable c'). in_use c r))"
  using purge_limits [OF assms] by blast

lemma demo_purge: "purge demo_cache = (1, drop_entry ''a'' (demo_record ''a'' 2 10) demo_cache)"
  by (simp add: purge_def over_limit_def demo_cache_def by_access_asc_def demo_record_def cachesize_goal_def nfiles_goal_def
      purge_one_def table_at_def cache_path_def Let_def drop_entry_def table_erase_def nfiles_dec_def size_sub_def unlink_def goal_40)

lemma purge_evicts_lru_witness:
  "counters_ok demo_cache \<and> order_ok demo_cache \<and> purge demo_cache = (1, drop_entry ''a'' (demo_record ''a'' 2 10) demo_cache) \<and>
   evicts_lru demo_cache (drop_entry ''a'' (demo_record ''a'' 2 10) demo_cache)"
  using purge_evicts_lru [OF demo_inv(2,3) demo_purge] demo_inv demo_purge by blast

text \<open>
  C7: In every state the cache reaches from a consistent one, by looking up, blocking, adding new
  entries, replacing entries while there is room, removing present entries and purging, the byte and
  file counters are the sums over the table (at their widths), the iteration order is still one of the table,
  and every file in use has a count of at least one.
\<close>

theorem reachable_counters:
  assumes "cache_inv c" and "cache_step\<^sup>*\<^sup>* c d"
  shows "cachesize d = total (cachetable d) mod 2 ^ 64 \<and> nfiles d = length (cachetable d) mod 2 ^ 32 \<and>
    distinct (map fst (cachetable d)) \<and> (\<forall>p k. blocked_files d p = Some k \<longrightarrow> 1 \<le> k)"
proof -
  from assms(2) have "cache_inv d"
    by (induction rule: rtranclp_induct) (auto intro: assms(1) cache_step_inv)
  then show ?thesis by (simp add: cache_inv_def counters_ok_def)
qed

lemma reachable_counters_witness:
  "cache_inv demo_cache \<and> cache_step\<^sup>*\<^sup>* demo_cache (run_op Purge demo_cache) \<and>
   cachesize (run_op Purge demo_cache) = total (cachetable (run_op Purge demo_cache)) mod 2 ^ 64"
proof -
  have "cache_step demo_cache (run_op Purge demo_cache)" by (rule cache_step.step) simp
  then have s: "cache_step\<^sup>*\<^sup>* demo_cache (run_op Purge demo_cache)" by blast
  show ?thesis using reachable_counters [OF demo_inv(1) s] s demo_inv(1) by blast
qed

text \<open>
  Replacing an entry while the cache is over its limit breaks the books: the entry that is
  being replaced is still in the table during the purge, so its size and its file are subtracted a
  second time. Here two entries of 100 bytes remain, and the counters say one entry of 90 bytes.
\<close>

theorem readd_miscounts:
  "cache_inv demo_cache \<and>
   (let d = run_op (Add 7 ''/img/a'' ''a'' ''/c/n'' 4 3 []) demo_cache in
    map fst (cachetable d) = [''b'', ''a''] \<and> total (cachetable d) = 100 \<and> cachesize d = 90 \<and> nfiles d = 1)"
  by (rule conjI [OF demo_inv(1)])
    (simp add: Let_def add_def replace_old_def purge_def over_limit_def demo_cache_def by_access_asc_def demo_record_def
      cachesize_goal_def nfiles_goal_def purge_one_def table_at_def cache_path_def table_erase_def nfiles_dec_def
      size_sub_def size_add_def nfiles_inc_def unlink_def goal_40 base_name_def)





text \<open>
  While no file is in use, adding an entry under a new name never takes the table over the
  limit on files, whatever the limit on bytes and the hysteresis are.
\<close>

theorem add_keeps_file_limit:
  assumes "cache_inv c" and "blocked_files c = Map.empty" and "map_of (cachetable c) canon = None"
    and "0 < max_nfiles c" and "max_nfiles c < 2 ^ 32" and "length (cachetable c) \<le> max_nfiles c"
  shows "length (cachetable (run_op (Add now orig canon path w h rs) c)) \<le> max_nfiles c"
proof (cases "disk c path")
  case None
  with assms(6) show ?thesis by (simp add: add_def)
next
  case (Some info)
  obtain n p where p: "purge c = (n, p)" by (cases "purge c")
  have r: "replace_old canon c = c" using assms(3) by (simp add: replace_old_def)
  have ci: "counters_ok c" "order_ok c" using assms(1) by (simp_all add: cache_inv_def)
  note l = purge_limits [OF ci p]
  have nf: "nfiles c = length (cachetable c)" using ci(1) assms(5,6) by (simp add: counters_ok_def)
  have "length (cachetable p) < max_nfiles c"
  proof (cases "over_limit c \<and> cachetable c \<noteq> []")
    case True
    with l assms(2,6) show ?thesis by auto
  next
    case False
    then have "cachetable c = [] \<or> length (cachetable c) < max_nfiles c" using assms(4) nf by (auto simp: over_limit_def)
    with l assms(4) show ?thesis by auto
  qed
  moreover have "length (AList.update canon x (cachetable p)) \<le> length (cachetable p) + 1" for x
    using l table_update [of "cachetable p" canon x] by (auto simp: counters_ok_def split: if_splits)
  ultimately have "length (AList.update canon (new_record now orig path w h rs info) (cachetable p)) \<le> max_nfiles c"
    by (metis Suc_eq_plus1 Suc_leI order_trans)
  then show ?thesis using add_simps(2) [of c path info now orig canon w h rs, OF Some] p r by simp
qed


lemma add_keeps_file_limit_witness:
  "length (cachetable (run_op (Add 7 ''/img/n'' ''n'' ''/c/n'' 4 3 []) (demo_cache\<lparr>blocked_files := Map.empty, max_nfiles := 2\<rparr>))) \<le> 2"
proof -
  let ?c = "demo_cache\<lparr>blocked_files := Map.empty, max_nfiles := 2\<rparr>"
  have "cache_inv ?c" by (auto simp: cache_inv_def counters_ok_def order_ok_def demo_cache_def demo_record_def)
  from add_keeps_file_limit [OF this, of "''n''" 7 "''/img/n''" "''/c/n''" 4 3 "[]"] show ?thesis
    by (simp add: demo_cache_def)
qed

text \<open>
  A file in use can stop every eviction: when the entry used least recently is in use and the
  bytes are below their goal, a purge for the limit on files gives up at that entry, so the number
  of files is not bounded while it stays blocked.
\<close>

theorem purge_stuck_on_blocked:
  assumes "by_access_asc (order c (cachetable c)) = (k, r) # others" and "map_of (cachetable c) k = Some r"
    and "in_use c r" and "0 < max_cachesize c" and "cachesize c < cachesize_goal c"
  shows "purge c = (0, c)"
  using assms by (simp add: purge_def purge_one_present)

lemma purge_stuck_on_blocked_witness:
  "let c = demo_cache\<lparr>cachesize := 30, max_nfiles := 1\<rparr> in over_limit c \<and> purge c = (0, c)"
proof -
  let ?c = "demo_cache\<lparr>cachesize := 30, max_nfiles := 1\<rparr>"
  have "by_access_asc (order ?c (cachetable ?c)) = (''b'', demo_record ''b'' 1 90) # [(''a'', demo_record ''a'' 2 10)]"
    "map_of (cachetable ?c) ''b'' = Some (demo_record ''b'' 1 90)" "in_use ?c (demo_record ''b'' 1 90)"
    "0 < max_cachesize ?c" "cachesize ?c < cachesize_goal ?c"
    by (simp_all add: demo_cache_def by_access_asc_def demo_record_def in_use_def cache_path_def cachesize_goal_def goal_40)
  from purge_stuck_on_blocked [OF this] show ?thesis by (simp add: Let_def over_limit_def demo_cache_def)
qed

end
