(* ===== verification/Parsing.thy ===== *)
theory Parsing
  imports Float32
begin

text \<open>
  \<open>lib/Parsing.cpp\<close>: MIME types and numbers. The regular expressions of the source are written
  out as the scans they stand for; each of them can match in one way only. The type that libmagic
  finds in a file is the parameter \<open>magic\<close>.
\<close>

section \<open>MIME types\<close>

text \<open>A key that is listed twice keeps its first value, as in an \<open>unordered_map\<close>.\<close>

definition mimetypes :: "(string \<times> string list) list" where
  "mimetypes = [
    (''jpx'', [''image/jpx'', ''image/jp2'']),
    (''jp2'', [''image/jp2'', ''image/jpx'']),
    (''jpg'', [''image/jpeg'']),
    (''jpeg'', [''image/jpeg'']),
    (''tiff'', [''image/tiff'']),
    (''tif'', [''image/tiff'']),
    (''png'', [''image/png'']),
    (''webp'', [''image/webp'']),
    (''bmp'', [''image/x-ms-bmp'']),
    (''gif'', [''image/gif'']),
    (''ico'', [''image/x-icon'']),
    (''pnm'', [''image/x-portable-anymap'']),
    (''pbm'', [''image/x-portable-bitmap'']),
    (''pgm'', [''image/x-portable-graymap'']),
    (''ppm'', [''image/x-portable-pixmap'']),
    (''svg'', [''image/svg+xml'']),
    (''pdf'', [''application/pdf'']),
    (''dwg'', [''application/acad'']),
    (''gz'', [''application/gzip'']),
    (''json'', [''application/json'']),
    (''js'', [''application/javascript'']),
    (''xls'', [''application/vnd.ms-excel'', ''application/msexcel'']),
    (''xla'', [''application/vnd.ms-excel'', ''application/msexcel'']),
    (''xlsx'', [''application/vnd.openxmlformats-officedocument.spreadsheetml.sheet'', ''application/vnd.ms-excel'']),
    (''ppt'', [''application/vnd.ms-powerpoint'', ''application/mspowerpoint'']),
    (''pptx'', [''application/vnd.ms-powerpoint'', ''application/mspowerpoint'']),
    (''pps'', [''application/vnd.ms-powerpoint'', ''application/mspowerpoint'']),
    (''pot'', [''application/vnd.ms-powerpoint'', ''application/mspowerpoint'']),
    (''doc'', [''application/msword'']),
    (''docx'', [''application/vnd.openxmlformats-officedocument.wordprocessingml.document'']),
    (''bin'', [''application/octet-stream'']),
    (''dat'', [''application/octet-stream'']),
    (''ps'', [''application/postscript'']),
    (''eps'', [''application/postscript'']),
    (''ai'', [''application/postscript'']),
    (''rtf'', [''application/rtf'', ''text/rtf'']),
    (''htm'', [''text/html'', ''application/xhtml+xml'']),
    (''html'', [''text/html'', ''application/xhtml+xml'']),
    (''shtml'', [''text/html'', ''application/xhtml+xml'']),
    (''xhtml'', [''application/xhtml+xml'']),
    (''css'', [''text/css'']),
    (''xml'', [''text/xml'', ''application/xml'']),
    (''odd'', [''text/xml'', ''text/html'']),
    (''rng'', [''text/xml'', ''application/xml'', ''text/html'']),
    (''z'', [''application/x-compress'']),
    (''tgz'', [''application/x-compress'']),
    (''dvi'', [''application/x-dvi'']),
    (''gtar'', [''application/x-gtar'']),
    (''hdf'', [''application/x-hdf'']),
    (''php'', [''application/x-httpd-php'']),
    (''phtml'', [''application/x-httpd-php'']),
    (''tex'', [''application/x-tex'', ''application/x-latex'']),
    (''latex'', [''application/x-latex'']),
    (''texi'', [''application/x-texinfo'']),
    (''texinfo'', [''application/x-texinfo'']),
    (''tar'', [''application/x-tar'']),
    (''zip'', [''application/zip'']),
    (''au'', [''audio/basic'']),
    (''snd'', [''audio/basic'']),
    (''mp3'', [''audio/mpeg'']),
    (''mp4'', [''audio/mp4'']),
    (''ogg'', [''application/ogg'', ''audio/ogg'', ''video/ogg'']),
    (''ogv'', [''video/ogg'', ''application/ogg'']),
    (''oga'', [''audio/ogg'', ''application/ogg'']),
    (''wav'', [''audio/wav'', ''audio/wav'', ''audio/x-wav'', ''audio/x-pn-wav'']),
    (''aif'', [''audio/x-aiff'']),
    (''aiff'', [''audio/x-aiff'']),
    (''aifc'', [''audio/x-aiff'']),
    (''mid'', [''audio/x-midi'']),
    (''midi'', [''audio/x-midi'']),
    (''mp2'', [''audio/x-mpeg'']),
    (''wrl'', [''model/vrml'', ''x-world/x-vrml'']),
    (''ics'', [''text/calendar'']),
    (''csv'', [''text/csv'', ''application/csv'', ''text/plain'', ''application/vnd.ms-excel'', ''text/comma-separated-values'']),
    (''tsv'', [''text/tab-separated-values'', ''text/plain'', ''text/x-csv'']),
    (''txt'', [''text/plain'']),
    (''rtx'', [''text/richtext'']),
    (''sgm'', [''text/x-sgml'']),
    (''sgml'', [''text/x-sgml'']),
    (''mpeg'', [''video/mpeg'']),
    (''mpg'', [''video/mpeg'']),
    (''mpe'', [''video/mpeg'']),
    (''mp4'', [''video/mp4'']),
    (''mov'', [''video/quicktime'']),
    (''qt'', [''video/quicktime'']),
    (''viv'', [''video/vnd.vivo'']),
    (''vivo'', [''video/vnd.vivo'']),
    (''webm'', [''video/webm'']),
    (''avi'', [''video/x-msvideo'']),
    (''3gp'', [''video/3gpp'']),
    (''movie'', [''video/x-sgi-movie'']),
    (''swf'', [''application/x-shockwave-flash'']),
    (''vcf'', [''text/x-vcard''])]"

definition quote :: char where "quote = CHR 0x22"

text \<open>The expression \<open>^([^;]+)(;\s*charset="?([^"]+)"?)?$\<close>, without regard to case.\<close>

definition charset_value :: "string \<Rightarrow> string option" where
  "charset_value r =
     (let r1 = dropWhile isspace r; r2 = drop 8 r1;
          r3 = (if r2 \<noteq> [] \<and> hd r2 = quote then tl r2 else r2);
          body = takeWhile (\<lambda>c. c \<noteq> quote) r3; tail = dropWhile (\<lambda>c. c \<noteq> quote) r3
      in if asciitolower (take 8 r1) = ''charset='' \<and> body \<noteq> [] \<and> (tail = [] \<or> tail = [quote])
         then Some body else None)"

definition mime_match :: "string \<Rightarrow> (string \<times> string) option" where
  "mime_match s =
     (let t = takeWhile (\<lambda>c. c \<noteq> CHR '';'') s; r = dropWhile (\<lambda>c. c \<noteq> CHR '';'') s
      in if t = [] then None
         else if r = [] then Some (t, [])
         else map_option (\<lambda>cs. (t, cs)) (charset_value (tl r)))"

definition parseMimetype :: "string \<Rightarrow> exn + string \<times> string" where
  "parseMimetype mimestr =
     (case mime_match mimestr of
        Some (mimetype, charset) \<Rightarrow> Inr (asciitolower mimetype, asciitolower charset)
      | None \<Rightarrow> Inl (CsError (''Could not parse MIME type: '' @ mimestr)))"

definition getFileMimetype :: "(string \<Rightarrow> exn + string) \<Rightarrow> string \<Rightarrow> exn + string \<times> string" where
  "getFileMimetype magic fpath = (case magic fpath of Inl e \<Rightarrow> Inl e | Inr mimestr \<Rightarrow> parseMimetype mimestr)"

definition getBestFileMimetype :: "(string \<Rightarrow> exn + string) \<Rightarrow> string \<Rightarrow> exn + string" where
  "getBestFileMimetype magic fpath =
     (case getFileMimetype magic fpath of
        Inl e \<Rightarrow> Inl e
      | Inr (mimetype, _) \<Rightarrow>
          (case rfind_char (CHR ''.'') fpath of
             None \<Rightarrow> Inr mimetype
           | Some dot_pos \<Rightarrow>
               (case map_of mimetypes (drop (dot_pos + 1) fpath) of
                  None \<Rightarrow> Inr mimetype
                | Some mimes \<Rightarrow> Inr (if mimetype \<in> set mimes then hd mimes else mimetype))))"

definition checkMimeTypeConsistency :: "(string \<Rightarrow> exn + string) \<Rightarrow> string \<Rightarrow> string \<Rightarrow> string \<Rightarrow> exn + bool" where
  "checkMimeTypeConsistency magic path filename given_mimetype =
     (case rfind_char (CHR ''.'') filename of
        None \<Rightarrow> Inl (CsError (''Invalid filename without extension: '' @ [quote] @ filename @ [quote]))
      | Some dot_pos \<Rightarrow>
          (case map_of mimetypes (asciitolower (drop (dot_pos + 1) filename)) of
             None \<Rightarrow> Inl (CsError (''Unsupported file type: '' @ [quote] @ filename @ [quote]))
           | Some mimes \<Rightarrow>
               (case getFileMimetype magic path of
                  Inl e \<Rightarrow> Inl e
                | Inr (actual, _) \<Rightarrow>
                    Inr (if actual \<notin> set mimes then False
                      else if given_mimetype \<noteq> [] \<and> given_mimetype \<notin> set mimes then False
                      else True))))"

section \<open>Numbers\<close>

text \<open>
  A stream that reads a number too large for its type gives the largest value of the type; the
  callers do not look at the state of the stream.
\<close>

definition all_digits :: "string \<Rightarrow> bool" where
  "all_digits s \<longleftrightarrow> s \<noteq> [] \<and> list_all isdigit s"

definition parse_int :: "string \<Rightarrow> exn + nat" where
  "parse_int str =
     (if all_digits str then Inr (min (scan_digits 10 0 str) (2 ^ 64 - 1))
      else Inl (CsError (''Could not parse integer: '' @ str)))"

text \<open>The decimal number of the digits \<open>ds\<close> before and \<open>fs\<close> behind the point.\<close>

definition decimal :: "string \<Rightarrow> string \<Rightarrow> rat" where
  "decimal ds fs = of_nat (scan_digits 10 0 (ds @ fs)) / 10 ^ length fs"

definition f32_read :: "rat \<Rightarrow> rat" where
  "f32_read x = (let v = f32 x in if v \<ge> 2 ^ 128 then FLT_MAX else v)"

definition parse_float :: "string \<Rightarrow> exn + rat" where
  "parse_float str =
     (let ds = takeWhile isdigit str; r = dropWhile isdigit str
      in if ds \<noteq> [] \<and> (r = [] \<or> (hd r = CHR ''.'' \<and> list_all isdigit (tl r)))
         then Inr (f32_read (decimal ds (tl r)))
         else Inl (CsError (''Could not parse floating-point number: '' @ str)))"

end
