(* ===== verification/Replies.thy ===== *)
theory Replies
  imports ConnOut Parsing
begin

text \<open>
  What the request handlers share: \<open>try\<close> and \<open>catch\<close>, the error responses of \<open>lib/HttpSendError.cpp\<close>, paths of
  \<open>std::filesystem\<close>, and the range header.
\<close>

section \<open>Exceptions\<close>

text \<open>\<open>try\<close> and \<open>catch\<close>: the handler says for which exceptions it is there.\<close>

definition scatch :: "('s, 'a) act \<Rightarrow> (exn \<Rightarrow> ('s, 'a) act option) \<Rightarrow> ('s, 'a) act" where
  "scatch m h s = (case m s of
     (Inl e, s1) \<Rightarrow> (case h e of None \<Rightarrow> (Inl e, s1) | Some k \<Rightarrow> k s1)
   | (Inr x, s1) \<Rightarrow> (Inr x, s1))"

definition lift_result :: "exn + 'a \<Rightarrow> ('s, 'a) act" where
  "lift_result r = (case r of Inl e \<Rightarrow> sthrow e | Inr x \<Rightarrow> sret x)"

section \<open>Error responses\<close>

definition http_err_name :: "status_codes \<Rightarrow> string" where
  "http_err_name code = (case code of
     BAD_REQUEST \<Rightarrow> ''Bad Request'' | FORBIDDEN \<Rightarrow> ''Forbidden'' | UNAUTHORIZED \<Rightarrow> ''Unauthorized''
   | NOT_FOUND \<Rightarrow> ''Not Found'' | INTERNAL_SERVER_ERROR \<Rightarrow> ''Internal Server Error''
   | NOT_IMPLEMENTED \<Rightarrow> ''Not Implemented'' | SERVICE_UNAVAILABLE \<Rightarrow> ''Service Unavailable''
   | _ \<Rightarrow> ''Unknown error'')"

definition ignore_input_failure :: "exn \<Rightarrow> ('s, unit) act option" where
  "ignore_input_failure e = (case e of InputFailure _ \<Rightarrow> Some (sret ()) | _ \<Rightarrow> None)"

definition send_error :: "status_codes \<Rightarrow> string \<Rightarrow> (connection, unit) act" where
  "send_error code errmsg =
     scatch (sseq
       [smod (status code []),
        setBuffer,
        header_set ''Content-Type'' ''text/plain; charset=utf-8'',
        put_string (http_err_name code),
        (if errmsg \<noteq> [] then sseq [put_string '': '', put_string errmsg, put_string CRLF] else sret ()),
        flush]) ignore_input_failure"

section \<open>Paths and ranges\<close>

text \<open>\<open>operator/=\<close> of \<open>std::filesystem::path\<close>: an absolute path replaces what is there.\<close>

definition path_append :: "string \<Rightarrow> string \<Rightarrow> string" where
  "path_append a b =
     (if b \<noteq> [] \<and> hd b = CHR ''/'' then b
      else if a = [] \<or> last a = CHR ''/'' then a @ b
      else a @ ''/'' @ b)"

text \<open>The expression \<open>bytes=\s*(\d+)-(\d*)[\D.*]?\<close>: the two numbers as texts.\<close>

definition match_range :: "string \<Rightarrow> (string \<times> string) option" where
  "match_range s =
     (if take 6 s \<noteq> ''bytes='' then None
      else
        let r = dropWhile isspace (drop 6 s); ds = takeWhile isdigit r; r1 = dropWhile isdigit r
        in if ds = [] \<or> r1 = [] \<or> hd r1 \<noteq> CHR ''-'' then None
           else let es = takeWhile isdigit (tl r1); r2 = dropWhile isdigit (tl r1)
                in if length r2 \<le> 1 then Some (ds, es) else None)"

text \<open>\<open>header("Content-Transfer-Encoding: binary")\<close> has one argument: it reads a header, and sets none.\<close>

definition binary_header :: "(connection, unit) act" where
  "binary_header c = (Inr (), snd (header_get ''Content-Transfer-Encoding: binary'' c))"

end
