(* ===== verification/Scripts.thy ===== *)
theory Scripts
  imports Replies
begin

text \<open>
  Running Lua for a request: plain scripts and pages with scripts in them, as \<open>ScriptHandler.cpp\<close>, \<open>FileHandler.cpp\<close> and
  \<open>IIIFHandler.cpp\<close> do it, and the script handler. What the handlers ask of the file system and of \<open>libmagic\<close> is the record
  \<open>file_system\<close>; running a piece of Lua, which writes to the connection, is an argument.
\<close>

section \<open>The file system\<close>

text \<open>
  \<open>fs_access\<close> is \<open>access(p, R_OK) == 0\<close>; \<open>fs_exists\<close> is \<open>std::filesystem::exists\<close>, \<open>None\<close> when it reports an error; \<open>fs_mode\<close> is
  the mode \<open>stat\<close> gives, \<open>None\<close> when it fails; \<open>fs_data\<close> is what can be read; \<open>fs_mtime\<close> is the formatted time of the last change.
\<close>

record file_system =
  fs_access :: "string \<Rightarrow> bool"
  fs_exists :: "string \<Rightarrow> bool option"
  fs_mode :: "string \<Rightarrow> nat option"
  fs_data :: "string \<rightharpoonup> string"
  fs_magic :: "string \<Rightarrow> exn + string"
  fs_mtime :: "string \<Rightarrow> string"

type_synonym lua_run = "string \<Rightarrow> string \<Rightarrow> (connection, int) act"

definition contents :: "file_system \<Rightarrow> string \<Rightarrow> string" where
  "contents fs p = (case fs_data fs p of None \<Rightarrow> [] | Some d \<Rightarrow> d)"

text \<open>\<open>s.st_mode & S_IFREG\<close>: the bit \<open>0100000\<close>.\<close>

definition is_regular :: "nat \<Rightarrow> bool" where
  "is_regular mode \<longleftrightarrow> odd (mode div 32768)"

fun find_sub :: "string \<Rightarrow> string \<Rightarrow> nat option" where
  "find_sub pat [] = (if pat = [] then Some 0 else None)"
| "find_sub pat (c # cs) =
     (if take (length pat) (c # cs) = pat then Some 0 else map_option Suc (find_sub pat cs))"

section \<open>Scripts\<close>

text \<open>
  Running one piece of Lua: a negative result ends the request after a \<open>flush\<close>, an \<open>Error\<close> of either is
  answered by \<open>onerr\<close>. The result says whether the handler goes on.
\<close>

definition run_chunk :: "(connection, int) act \<Rightarrow> (string \<Rightarrow> (connection, unit) act) \<Rightarrow> (connection, bool) act" where
  "run_chunk exec onerr =
     scatch (sbind exec (\<lambda>r. if r < 0 then sbind flush (\<lambda>_. sret False) else sret True))
       (\<lambda>e. case e of CsError msg \<Rightarrow> Some (sbind (onerr msg) (\<lambda>_. sret False)) | _ \<Rightarrow> None)"

definition lua_banner :: "string \<Rightarrow> string \<Rightarrow> string" where
  "lua_banner title msg = title @ CRLF @ ''=========='' @ CRLF @ msg @ CRLF"

definition script_failed :: "string \<Rightarrow> string \<Rightarrow> (connection, unit) act" where
  "script_failed title msg = send_error INTERNAL_SERVER_ERROR (lua_banner title msg)"

text \<open>
  A page with embedded Lua: the text in front of each \<open><lua>\<close> is sent, the script up to \<open></lua>\<close> is run. What
  is left of the page is the argument; a script without end leaves \<open>npos\<close>, here \<open>None\<close>. The result is \<open>None\<close>
  when a script ended the request.
\<close>

definition open_tag :: string where "open_tag = ''<lua>''"
definition close_tag :: string where "close_tag = ''</lua>''"

lemma find_sub_le: "find_sub pat s = Some k \<Longrightarrow> k + length pat \<le> length s"
proof (induction s arbitrary: k)
  case (Cons c cs)
  show ?case
  proof (cases "take (length pat) (c # cs) = pat")
    case True
    with Cons.prems have "k = 0" by simp
    moreover have "length pat \<le> length (c # cs)" using True by (metis length_take min.cobounded1)
    ultimately show ?thesis by simp
  next
    case False
    with Cons show ?thesis by auto
  qed
qed (simp split: if_splits)

function elua_loop :: "(string \<Rightarrow> (connection, bool) act) \<Rightarrow> string \<Rightarrow> (connection, string option option) act" where
  "elua_loop run page c =
     (case find_sub open_tag page of
        None \<Rightarrow> (Inr (Some (Some page)), c)
      | Some pos \<Rightarrow>
          (case (if take pos page \<noteq> [] then put_string (take pos page) else sret ()) c of
             (Inl e, c1) \<Rightarrow> (Inl e, c1)
           | (Inr _, c1) \<Rightarrow>
               let script = drop (pos + 5) page in
               (case find_sub close_tag script of
                  None \<Rightarrow>
                    (case run script c1 of
                       (Inl e, c2) \<Rightarrow> (Inl e, c2)
                     | (Inr go, c2) \<Rightarrow> (Inr (if go then Some None else None), c2))
                | Some e \<Rightarrow>
                    (case run (take e script) c1 of
                       (Inl x, c2) \<Rightarrow> (Inl x, c2)
                     | (Inr go, c2) \<Rightarrow>
                         if go then elua_loop run (drop (e + 6) script) c2 else (Inr None, c2)))))"
  by pat_completeness auto
termination
  by (relation "measure (\<lambda>(run, page, c). length page)") (auto dest!: find_sub_le simp: open_tag_def)

declare elua_loop.simps [simp del]

text \<open>
  The end of the page: \<open>substr(end)\<close> throws \<open>std::out_of_range\<close> when \<open>end\<close> is \<open>npos\<close>.
\<close>

definition elua_page :: "(string \<Rightarrow> (connection, bool) act) \<Rightarrow> (connection, unit) act \<Rightarrow> string \<Rightarrow> (connection, unit) act" where
  "elua_page run headers page =
     sbind (elua_loop run page) (\<lambda>r. case r of
         None \<Rightarrow> sret ()
       | Some e \<Rightarrow> sseq
           [headers,
            (case e of None \<Rightarrow> sthrow StdOutOfRange | Some tail \<Rightarrow> put_string tail),
            flush])"

definition lua_file :: "lua_run \<Rightarrow> string \<Rightarrow> string \<Rightarrow> string \<Rightarrow> (connection, unit) act" where
  "lua_file exec title code path =
     sbind (run_chunk (exec code path) (script_failed title)) (\<lambda>go. if go then flush else sret ())"

section \<open>ScriptHandler\<close>

record script_config =
  sh_routedata :: "string \<rightharpoonup> string"
  scriptdir :: string

text \<open>
  The name of a path behind its last slash, and its extension: from the last dot on, unless that is the
  first character or the name is \<open>..\<close>.
\<close>

definition path_filename :: "string \<Rightarrow> string" where
  "path_filename p = (case rfind_char (CHR ''/'') p of None \<Rightarrow> p | Some k \<Rightarrow> drop (k + 1) p)"

definition path_extension :: "string \<Rightarrow> string" where
  "path_extension p =
     (let f = path_filename p in
      if f = ''..'' then []
      else (case rfind_char (CHR ''.'') f of
          None \<Rightarrow> []
        | Some k \<Rightarrow> if k = 0 then [] else drop k f))"

definition apostrophes :: "string \<Rightarrow> string" where
  "apostrophes s = [CHR 0x27] @ s @ [CHR 0x27]"

text \<open>
  The script of a route, checked to be there. With the message of a failed embedded script the format
  string has an unmatched brace, for which \<open>fmt::format\<close> throws.
\<close>

definition with_script ::
  "file_system \<Rightarrow> string \<Rightarrow> string \<Rightarrow> (string \<Rightarrow> (connection, unit) act) \<Rightarrow> (connection, unit) act" where
  "with_script fs dir scriptname k =
     (let scriptpath = path_append dir scriptname in
      if fs_exists fs scriptpath = Some False
      then send_error NOT_FOUND (''ScriptHandler: Script '' @ apostrophes scriptpath @ '' not existing'')
      else if \<not> fs_access fs scriptpath
      then send_error NOT_FOUND (''ScriptHandler: File not found: '' @ apostrophes scriptpath)
      else k scriptpath)"

definition catch_all :: "(connection, unit) act \<Rightarrow> (connection, unit) act" where
  "catch_all m = scatch m (\<lambda>e. case e of
       InputFailure _ \<Rightarrow> Some (sret ())
     | CsError msg \<Rightarrow> Some (send_error INTERNAL_SERVER_ERROR msg)
     | _ \<Rightarrow> None)"

definition invalid_extension :: "string \<Rightarrow> (connection, unit) act" where
  "invalid_extension ext = send_error INTERNAL_SERVER_ERROR (''Script has no valid extension: '' @ apostrophes ext)"

definition format_error :: "string \<Rightarrow> (connection, unit) act" where
  "format_error msg = sthrow (StdRuntime (''unmatched '' @ apostrophes [CHR 0x7D] @ '' in format string''))"

definition run_script_file :: "file_system \<Rightarrow> lua_run \<Rightarrow> string \<Rightarrow> (connection, unit) act" where
  "run_script_file fs exec path = catch_all
     (if path_extension path = ''.lua'' then lua_file exec ''Scripthandler Lua Error:'' (contents fs path) path
      else if path_extension path = ''.elua'' then
        sseq [setBuffer,
              elua_page (\<lambda>code. run_chunk (exec code path) format_error) (sret ()) (contents fs path)]
      else invalid_extension (path_extension path))"

definition script_handler :: "script_config \<Rightarrow> file_system \<Rightarrow> lua_run \<Rightarrow> string \<Rightarrow> (connection, unit) act" where
  "script_handler h fs exec route =
     (case sh_routedata h route of
        None \<Rightarrow> send_error INTERNAL_SERVER_ERROR ''ScriptHandler: No script route defined.''
      | Some scriptname \<Rightarrow>
          if scriptname = [] then send_error INTERNAL_SERVER_ERROR ''ScriptHandler: No script path defined.''
          else with_script fs (scriptdir h) scriptname (run_script_file fs exec))"

end
