(* ===== verification/IIIFRegion.thy ===== *)
theory IIIFRegion
  imports Parsing
begin

text \<open>
  \<open>handlers/iiifhandler/iiifparser/IIIFRegion.cpp\<close>, \<open>IIIFRotation.cpp\<close> and
  \<open>IIIFQualityFormat.cpp\<close>: the region, rotation, quality and format of an IIIF request. Widths are
  32 bits wide; \<open>float\<close> members are the numbers they stand for (theory \<open>Float32\<close>).
\<close>

section \<open>Substrings and \<open>sscanf\<close>\<close>

fun has_sub :: "string \<Rightarrow> string \<Rightarrow> bool" where
  "has_sub p [] \<longleftrightarrow> p = []"
| "has_sub p (c # cs) \<longleftrightarrow> take (length p) (c # cs) = p \<or> has_sub p cs"

text \<open>
  The conversion \<open>%f\<close>: white space, a sign, digits with a point, an exponent. The hexadecimal form
  and the words for infinity and not-a-number, which \<open>sscanf\<close> reads too, are not modelled.
\<close>

definition scan_exponent :: "string \<Rightarrow> (int \<times> string) option" where
  "scan_exponent s =
     (if s \<noteq> [] \<and> (hd s = CHR ''e'' \<or> hd s = CHR ''E'') then
        (let (neg, r) = drop_sign (tl s); es = takeWhile isdigit r; k = scan_digits 10 0 es
         in if es = [] then None else Some (if neg then - int k else int k, dropWhile isdigit r))
      else Some (0, s))"

definition scale10 :: "rat \<Rightarrow> int \<Rightarrow> rat" where
  "scale10 x e = (if e \<ge> 0 then x * 10 ^ nat e else x / 10 ^ nat (- e))"

definition scan_float :: "string \<Rightarrow> (rat \<times> string) option" where
  "scan_float s =
     (let (neg, r) = drop_sign (dropWhile isspace s);
          ds = takeWhile isdigit r; r1 = dropWhile isdigit r;
          dot = (r1 \<noteq> [] \<and> hd r1 = CHR ''.'');
          fs = (if dot then takeWhile isdigit (tl r1) else []);
          r2 = (if dot then dropWhile isdigit (tl r1) else r1)
      in if ds @ fs = [] then None
         else (case scan_exponent r2 of
             None \<Rightarrow> None
           | Some (e, r3) \<Rightarrow> let v = f32_read (scale10 (decimal ds fs) e) in Some (if neg then - v else v, r3)))"

definition skip_comma :: "string \<Rightarrow> string option" where
  "skip_comma s = (if s \<noteq> [] \<and> hd s = CHR '','' then Some (tl s) else None)"

text \<open>\<open>sscanf(s, "%f,%f,%f,%f", ...) == 4\<close>; what follows the fourth number is ignored.\<close>

fun scan_floats :: "nat \<Rightarrow> string \<Rightarrow> rat list option" where
  "scan_floats 0 s = Some []"
| "scan_floats (Suc n) s =
     (case scan_float s of
        None \<Rightarrow> None
      | Some (v, r) \<Rightarrow>
          if n = 0 then Some [v]
          else (case skip_comma r of None \<Rightarrow> None | Some r1 \<Rightarrow> map_option (\<lambda>vs. v # vs) (scan_floats n r1)))"

definition scan_four :: "string \<Rightarrow> (rat \<times> rat \<times> rat \<times> rat) option" where
  "scan_four s = (case scan_floats 4 s of Some [a, b, c, d] \<Rightarrow> Some (a, b, c, d) | _ \<Rightarrow> None)"

section \<open>The region\<close>

datatype coord_type = FULL | SQUARE | COORDS | PERCENTS

record region =
  coord_type :: coord_type
  rx :: rat
  ry :: rat
  rw :: rat
  rh :: rat
  r_x :: int
  r_y :: int
  r_w :: nat
  r_h :: nat
  r_canonical_ok :: bool
  r_reduce :: rat

text \<open>The constructor from a string leaves \<open>x\<close>, \<open>y\<close>, \<open>w\<close>, \<open>h\<close> unset; nothing reads them before \<open>crop_coords\<close> sets them.\<close>

definition mk_region :: "coord_type \<Rightarrow> rat \<times> rat \<times> rat \<times> rat \<Rightarrow> bool \<Rightarrow> region" where
  "mk_region t q ok = (case q of (a, b, c, d) \<Rightarrow>
     \<lparr>coord_type = t, rx = a, ry = b, rw = c, rh = d, r_x = 0, r_y = 0, r_w = 0, r_h = 0,
      r_canonical_ok = ok, r_reduce = 1\<rparr>)"

definition region_error :: "string \<Rightarrow> exn" where
  "region_error str = CsError (''IIIF Error reading Region parameter  '' @ [quote] @ str @ [quote])"

definition parse_region :: "string \<Rightarrow> exn + region" where
  "parse_region str =
     (if str = [] \<or> str = ''full'' then Inr (mk_region FULL (0, 0, 0, 0) True)
      else if str = ''square'' then Inr (mk_region SQUARE (0, 0, 0, 0) False)
      else if has_sub ''pct:'' str then
        (case scan_four (drop 4 str) of
           None \<Rightarrow> Inl (region_error str)
         | Some q \<Rightarrow> Inr (mk_region PERCENTS q False))
      else
        (case scan_four str of
           None \<Rightarrow> Inl (region_error str)
         | Some q \<Rightarrow> Inr (mk_region COORDS q False)))"

definition set_reduce :: "rat \<Rightarrow> region \<Rightarrow> region" where
  "set_reduce f r = r\<lparr>r_reduce := f\<rparr>"

text \<open>\<open>lroundf\<close> rounds to the nearest integer, halves away from zero; its result must fit a \<open>long\<close>.\<close>

definition lround :: "rat \<Rightarrow> int" where
  "lround x = (if x < 0 then - \<lfloor>- x + 1 / 2\<rfloor> else \<lfloor>x + 1 / 2\<rfloor>)"

definition fits_long :: "rat \<Rightarrow> bool" where
  "fits_long x \<longleftrightarrow> \<bar>x\<bar> < 2 ^ 63"

definition percent_of :: "rat \<Rightarrow> nat \<Rightarrow> rat" where
  "percent_of p n = f32_div (f32_mul p (f32_of_int (int n))) 100"

definition round_four :: "rat \<Rightarrow> rat \<Rightarrow> rat \<Rightarrow> rat \<Rightarrow> exn + (int \<times> int \<times> nat \<times> nat)" where
  "round_four a b c d =
     (if fits_long a \<and> fits_long b \<and> fits_long c \<and> fits_long d
      then Inr (to_int32 (lround a), to_int32 (lround b), to_uint32 (lround c), to_uint32 (lround d))
      else Inl Undefined)"

definition half :: "nat \<Rightarrow> int" where
  "half n = \<lfloor>f32_div (f32_of_int (int n)) 2\<rfloor>"

definition square_coords :: "nat \<Rightarrow> nat \<Rightarrow> exn + (int \<times> int \<times> nat \<times> nat)" where
  "square_coords nx ny =
     (if nx > ny then (if half (nx - ny) < 2 ^ 31 then Inr (half (nx - ny), 0, ny, ny) else Inl Undefined)
      else (if half (ny - nx) < 2 ^ 31 then Inr (0, half (ny - nx), nx, nx) else Inl Undefined))"

definition raw_coords :: "region \<Rightarrow> nat \<Rightarrow> nat \<Rightarrow> exn + (int \<times> int \<times> nat \<times> nat)" where
  "raw_coords r nx ny =
     (case coord_type r of
        COORDS \<Rightarrow> (if r_reduce r = 0 then Inl Undefined
          else round_four (f32_div (rx r) (r_reduce r)) (f32_div (ry r) (r_reduce r))
            (f32_div (rw r) (r_reduce r)) (f32_div (rh r) (r_reduce r)))
      | SQUARE \<Rightarrow> square_coords nx ny
      | PERCENTS \<Rightarrow> round_four (percent_of (rx r) nx) (percent_of (ry r) ny) (percent_of (rw r) nx) (percent_of (rh r) ny)
      | FULL \<Rightarrow> Inr (0, 0, nx, ny))"

text \<open>The clipping of one axis, in the unsigned arithmetic of the source: \<open>None\<close> is the exception.\<close>

definition clip_low :: "nat \<Rightarrow> int \<Rightarrow> nat \<Rightarrow> (int \<times> nat) option" where
  "clip_low n x w =
     (if x < 0 then Some (0, to_uint32 (int w + x)) else if nat x \<ge> n then None else Some (x, w))"

definition clip_high :: "nat \<Rightarrow> int \<Rightarrow> nat \<Rightarrow> nat" where
  "clip_high n x w =
     (if w = 0 then to_uint32 (int n - x) else if to_uint32 (x + int w) > n then to_uint32 (int n - x) else w)"

definition outside :: "char \<Rightarrow> int \<Rightarrow> nat \<Rightarrow> exn" where
  "outside c x n = CsError (''Invalid cropping region outside of image ('' @ [c] @ ''='' @ int_string x @ '' n'' @ [c] @ ''='' @
     dec_string n @ '')'')"

definition crop_coords :: "nat \<Rightarrow> nat \<Rightarrow> (region, coord_type \<times> int \<times> int \<times> nat \<times> nat) act" where
  "crop_coords nx ny r =
     (case raw_coords r nx ny of
        Inl e \<Rightarrow> (Inl e, r)
      | Inr (x, y, w, h) \<Rightarrow>
          let r1 = r\<lparr>r_x := x, r_y := y, r_w := w, r_h := h\<rparr> in
          (case clip_low nx x w of
             None \<Rightarrow> (Inl (outside (CHR ''x'') x nx), r1)
           | Some (x1, w1) \<Rightarrow>
               let r2 = r1\<lparr>r_x := x1, r_w := w1\<rparr> in
               (case clip_low ny y h of
                  None \<Rightarrow> (Inl (outside (CHR ''y'') y ny), r2)
                | Some (y1, h1) \<Rightarrow>
                    let w2 = clip_high nx x1 w1; h2 = clip_high ny y1 h1 in
                    (Inr (coord_type r, x1, y1, w2, h2),
                     r2\<lparr>r_y := y1, r_w := w2, r_h := h2, r_canonical_ok := True\<rparr>))))"

definition region_canonical :: "region \<Rightarrow> exn + string" where
  "region_canonical r =
     (if \<not> r_canonical_ok r \<and> coord_type r \<noteq> FULL then Inl (CsError ''Canonical coordinates not determined'')
      else if coord_type r = FULL then Inr ''full''
      else Inr (int_string (r_x r) @ '','' @ int_string (r_y r) @ '','' @ dec_string (r_w r) @ '','' @ dec_string (r_h r)))"

section \<open>Rotation\<close>

record rotation =
  mirror :: bool
  angle :: rat

definition rotation_default :: rotation where
  "rotation_default = \<lparr>mirror = False, angle = 0\<rparr>"

text \<open>The message for an angle that is too large names it; this one does not.\<close>

definition parse_rotation :: "string \<Rightarrow> exn + rotation" where
  "parse_rotation str =
     (if str = [] then Inr rotation_default
      else
        let m = (hd str = CHR ''!''); s = (if m then tl str else str)
        in case parse_float s of
             Inl (CsError msg) \<Rightarrow> Inl (CsError (''Could not parse IIIF rotation parameter: '' @ s @ '' -> '' @ msg))
           | Inl e \<Rightarrow> Inl e
           | Inr f \<Rightarrow> if f < 0 \<or> f \<ge> 360 then Inl (CsError ''Angle not allowed'') else Inr \<lparr>mirror = m, angle = f\<rparr>)"

section \<open>Quality and format\<close>

datatype quality_type = DEFAULT | COLOR | GRAY | BITONAL
datatype format_type = UNSUPPORTED | JPG | TIF | PNG | GIF | JP2 | PDF | WEBP

record quality_format =
  quality :: quality_type
  fmt :: format_type

definition quality_names :: "(string \<times> quality_type) list" where
  "quality_names = [(''default'', DEFAULT), (''color'', COLOR), (''gray'', GRAY), (''bitonal'', BITONAL)]"

definition format_names :: "(string \<times> format_type) list" where
  "format_names = [(''jpg'', JPG), (''tif'', TIF), (''png'', PNG), (''gif'', GIF), (''jp2'', JP2), (''pdf'', PDF), (''webp'', WEBP)]"

definition parse_quality_format :: "string \<Rightarrow> string \<Rightarrow> exn + quality_format" where
  "parse_quality_format q f =
     (if q = [] \<or> f = [] then Inr \<lparr>quality = DEFAULT, fmt = JPG\<rparr>
      else (case map_of quality_names q of
          None \<Rightarrow> Inl (CsError (''IIIF Error reading Quality parameter  '' @ [quote] @ q @ [quote] @ '' !''))
        | Some qt \<Rightarrow> Inr \<lparr>quality = qt, fmt = (case map_of format_names f of None \<Rightarrow> UNSUPPORTED | Some ft \<Rightarrow> ft)\<rparr>))"

end
