(* ===== verification/IIIFSize.thy ===== *)
theory IIIFSize
  imports IIIFRegion
begin

text \<open>
  \<open>handlers/iiifhandler/iiifparser/IIIFSize.cpp\<close>: the size of an IIIF request, from the string to
  the width and height of the result and the factor by which the reader of the image may reduce it.
  Sizes are \<open>uint32_t\<close>: products and casts wrap. Subtracting a number from its own floor or
  ceiling is exact in \<open>float\<close> wherever the comparison with \<open>epsilon\<close> depends on it.
\<close>

section \<open>Data\<close>

datatype size_type = SZ_UNDEFINED | SZ_FULL | PIXELS_XY | PIXELS_X | PIXELS_Y | MAXDIM | SZ_PERCENTS | REDUCE

record iiif_size =
  size_type :: size_type
  upscaling :: bool
  percent :: rat
  s_reduce :: nat
  redonly :: bool
  s_nx :: nat
  s_ny :: nat
  s_w :: nat
  s_h :: nat
  iiif_max_width :: nat
  iiif_max_height :: nat
  iiif_max_area :: nat
  s_canonical_ok :: bool

definition limitdim :: nat where "limitdim = 32000"

definition u32 :: "nat \<Rightarrow> nat" where "u32 n = n mod 2 ^ 32"

definition blank_size :: "bool \<Rightarrow> nat \<Rightarrow> nat \<Rightarrow> nat \<Rightarrow> iiif_size" where
  "blank_size up mw mh ma = \<lparr>size_type = SZ_UNDEFINED, upscaling = up, percent = 0, s_reduce = 0, redonly = False,
     s_nx = 0, s_ny = 0, s_w = 0, s_h = 0, iiif_max_width = mw, iiif_max_height = mh, iiif_max_area = ma,
     s_canonical_ok = False\<rparr>"

section \<open>Reading the parameter\<close>

text \<open>
  An \<open>Error\<close> is caught and thrown again with a prefix; what \<open>substr\<close> throws is not. The place in
  the source that the message of an error also names is left out.
\<close>

definition size_error :: "string \<Rightarrow> exn" where
  "size_error msg = CsError (''Could not parse IIIF size parameter: '' @ msg)"

definition no_mark :: "bool \<Rightarrow> string \<Rightarrow> exn + 'a \<Rightarrow> exn + 'a" where
  "no_mark mark str m =
     (if mark then Inl (CsError (''Invalid IIIF size parameter: '' @ [quote] @ ''!'' @ str @ [quote] @ '': '' @ [quote] @ ''!'' @ [quote] @ '' not allowed here!'')) else m)"

definition strip :: "char \<Rightarrow> string \<Rightarrow> bool \<times> string" where
  "strip c str = (if str \<noteq> [] \<and> hd str = c then (True, tl str) else (False, str))"

definition parse_dim :: "string \<Rightarrow> exn + nat" where
  "parse_dim str = (case parse_int str of Inl e \<Rightarrow> Inl e | Inr n \<Rightarrow> Inr (u32 n))"

definition parse_dims :: "bool \<Rightarrow> string \<Rightarrow> iiif_size \<Rightarrow> exn + iiif_size" where
  "parse_dims mark str s =
     (case find_char (CHR '','') str of
        None \<Rightarrow> Inl (size_error ([quote] @ str @ [quote]))
      | Some comma_pos \<Rightarrow>
          let width_str = take comma_pos str; height_str = drop (comma_pos + 1) str in
          if width_str = [] \<and> height_str = [] then Inl (size_error ([quote] @ str @ [quote] @ '' ''))
          else if width_str = [] then
            no_mark mark str
              (case parse_dim height_str of
                 Inl e \<Rightarrow> Inl e
               | Inr n \<Rightarrow> if n = 0 then Inl (CsError ''IIIF height cannot be zero'')
                   else Inr (s\<lparr>size_type := PIXELS_Y, s_ny := n\<rparr>))
          else if height_str = [] then
            no_mark mark str
              (case parse_dim width_str of
                 Inl e \<Rightarrow> Inl e
               | Inr n \<Rightarrow> if n = 0 then Inl (CsError ''IIIF width cannot be zero'')
                   else Inr (s\<lparr>size_type := PIXELS_X, s_nx := n\<rparr>))
          else
            (case parse_dim width_str of
               Inl e \<Rightarrow> Inl e
             | Inr n \<Rightarrow>
                 (case parse_dim height_str of
                    Inl e \<Rightarrow> Inl e
                  | Inr k \<Rightarrow>
                      if n = 0 \<or> k = 0
                      then Inl (CsError (''IIIF size would result in a width or height of zero: '' @ str))
                      else Inr (s\<lparr>size_type := (if mark then MAXDIM else PIXELS_XY), s_nx := n, s_ny := k\<rparr>))))"

definition parse_keyword :: "bool \<Rightarrow> string \<Rightarrow> iiif_size \<Rightarrow> exn + iiif_size" where
  "parse_keyword mark str s =
     (if str = [] \<or> str = ''max'' then Inr (s\<lparr>size_type := SZ_FULL\<rparr>)
      else if has_sub ''pct'' str then
        no_mark mark str
          (if length str < 4 then Inl StdOutOfRange
           else (case parse_float (drop 4 str) of
               Inl e \<Rightarrow> Inl e
             | Inr f \<Rightarrow> Inr (s\<lparr>size_type := SZ_PERCENTS, percent := (if f < 0 then 1 else f)\<rparr>)))
      else if has_sub ''red'' str then
        no_mark mark str
          (if length str < 4 then Inl StdOutOfRange
           else (case parse_int (drop 4 str) of
               Inl e \<Rightarrow> Inl e
             | Inr n \<Rightarrow> Inr (s\<lparr>size_type := REDUCE, s_reduce := u32 n\<rparr>)))
      else parse_dims mark str s)"

definition parse_size :: "string \<Rightarrow> nat \<Rightarrow> nat \<Rightarrow> nat \<Rightarrow> exn + iiif_size" where
  "parse_size str mw mh ma =
     (case strip (CHR ''^'') str of (up, str1) \<Rightarrow>
       (case strip (CHR ''!'') str1 of (mark, str2) \<Rightarrow>
         (case parse_keyword mark str2 (blank_size up mw mh ma) of
            Inl (CsError msg) \<Rightarrow> Inl (size_error msg)
          | r \<Rightarrow> r)))"

section \<open>Copying and moving\<close>

definition size_copy :: "iiif_size \<Rightarrow> iiif_size" where
  "size_copy other = other\<lparr>s_canonical_ok := (iiif_max_width other \<noteq> 0)\<rparr>"

definition size_assign :: "iiif_size \<Rightarrow> iiif_size \<Rightarrow> iiif_size" where
  "size_assign this other = other\<lparr>iiif_max_area := iiif_max_area this, s_canonical_ok := (iiif_max_width other \<noteq> 0)\<rparr>"

text \<open>Both results: the new object and what is left of the old one.\<close>

definition size_move :: "iiif_size \<Rightarrow> iiif_size \<times> iiif_size" where
  "size_move other = (other, (blank_size False 0 0 (iiif_max_area other)))"

definition size_move_assign :: "iiif_size \<Rightarrow> iiif_size \<times> iiif_size" where
  "size_move_assign other = (other\<lparr>s_canonical_ok := (iiif_max_width other \<noteq> 0)\<rparr>, blank_size False 0 0 0)"

section \<open>Comparing\<close>

definition compared :: "(nat \<Rightarrow> nat \<Rightarrow> nat \<Rightarrow> nat \<Rightarrow> bool) \<Rightarrow> iiif_size \<Rightarrow> iiif_size \<Rightarrow> exn + bool" where
  "compared rel a b =
     (if s_canonical_ok a then Inr (rel (s_w a) (s_h a) (s_w b) (s_h b))
      else Inl (CsError ''Final size not yet determined''))"

definition size_greater :: "iiif_size \<Rightarrow> iiif_size \<Rightarrow> exn + bool" where
  "size_greater = compared (\<lambda>w h w' h'. w > w' \<or> h > h')"

definition size_greater_eq :: "iiif_size \<Rightarrow> iiif_size \<Rightarrow> exn + bool" where
  "size_greater_eq = compared (\<lambda>w h w' h'. w \<ge> w' \<or> h \<ge> h')"

definition size_less :: "iiif_size \<Rightarrow> iiif_size \<Rightarrow> exn + bool" where
  "size_less = compared (\<lambda>w h w' h'. w < w' \<and> h < h')"

definition size_less_eq :: "iiif_size \<Rightarrow> iiif_size \<Rightarrow> exn + bool" where
  "size_less_eq = compared (\<lambda>w h w' h'. w \<le> w' \<and> h \<le> h')"

section \<open>Rounding with a tolerance\<close>

definition epsilon :: rat where "epsilon = f32 (1 / 10000)"

definition epsilon_ceil :: "rat \<Rightarrow> nat" where
  "epsilon_ceil a = (if \<bar>of_int \<lfloor>a\<rfloor> - a\<bar> < epsilon then nat \<lfloor>a\<rfloor> else nat \<lceil>a\<rceil>)"

definition epsilon_floor :: "rat \<Rightarrow> nat" where
  "epsilon_floor a = (if \<bar>of_int \<lceil>a\<rceil> - a\<bar> < epsilon then nat \<lceil>a\<rceil> else nat \<lfloor>a\<rfloor>)"

text \<open>A division by zero gives infinity or not-a-number, whose conversion to an integer is undefined.\<close>

definition epsilon_ceil_division :: "rat \<Rightarrow> rat \<Rightarrow> exn + nat" where
  "epsilon_ceil_division a b = (if b = 0 then Inl Undefined else Inr (epsilon_ceil (f32_div a b)))"

definition epsilon_floor_division :: "rat \<Rightarrow> rat \<Rightarrow> exn + nat" where
  "epsilon_floor_division a b = (if b = 0 then Inl Undefined else Inr (epsilon_floor (f32_div a b)))"

abbreviation fnat :: "nat \<Rightarrow> rat" where
  "fnat n \<equiv> f32_of_int (int n)"

section \<open>The size of the result\<close>

text \<open>\<open>do { rtmp *= 2; } while (rtmp < n);\<close> for a positive \<open>rtmp\<close>\<close>

function j2k_loop :: "nat \<Rightarrow> nat \<Rightarrow> nat" where
  "j2k_loop rtmp n = (let r = rtmp * 2 in if 0 < rtmp \<and> r < n then j2k_loop r n else r)"
  by pat_completeness auto
termination by (relation "measure (\<lambda>(rtmp, n). n - rtmp)") auto

declare j2k_loop.simps [simp del]

definition j2k_factor :: "bool \<Rightarrow> nat \<Rightarrow> nat" where
  "j2k_factor is_j2k n = (if is_j2k then j2k_loop 1 n div 2 else n)"

definition upscaling_error :: exn where
  "upscaling_error = SizeError 400 ''Upscaling not allowed!''"

text \<open>The reduce factor of one axis and whether it is exact.\<close>

definition axis_reduce :: "bool \<Rightarrow> bool \<Rightarrow> nat \<Rightarrow> nat \<Rightarrow> exn + nat \<times> bool" where
  "axis_reduce up is_j2k n img =
     (if n > img then (if \<not> up then Inl upscaling_error else Inr (1, False))
      else (case epsilon_floor_division (fnat img) (fnat n) of
          Inl e \<Rightarrow> Inl e
        | Inr q \<Rightarrow> Inr (j2k_factor is_j2k (u32 q), img mod n = 0)))"

text \<open>A result is the width, the height, the reduce factor, and whether reducing is all that is left to do.\<close>

type_synonym scaled = "nat \<times> nat \<times> nat \<times> bool"

definition scale_xy :: "iiif_size \<Rightarrow> bool \<Rightarrow> nat \<Rightarrow> nat \<Rightarrow> exn + scaled" where
  "scale_xy s is_j2k img_w img_h =
     (case axis_reduce (upscaling s) is_j2k (s_nx s) img_w of
        Inl e \<Rightarrow> Inl e
      | Inr (reduce_w, exact_w) \<Rightarrow>
          (case axis_reduce (upscaling s) is_j2k (s_ny s) img_h of
             Inl e \<Rightarrow> Inl e
           | Inr (reduce_h, exact_h) \<Rightarrow>
               Inr (s_nx s, s_ny s, (if reduce_w < reduce_h then reduce_w else reduce_h),
                    exact_w \<and> exact_h \<and> reduce_w = reduce_h)))"

text \<open>The other side for one given side: \<open>n\<close> of \<open>img\<close> pixels, and \<open>other\<close> the side to scale.\<close>

definition scale_side :: "bool \<Rightarrow> bool \<Rightarrow> nat \<Rightarrow> nat \<Rightarrow> nat \<Rightarrow> exn + nat \<times> nat \<times> bool" where
  "scale_side up is_j2k n img other =
     (case axis_reduce up is_j2k n img of
        Inl e \<Rightarrow> Inl e
      | Inr (red, exact) \<Rightarrow>
          (case (if exact then epsilon_ceil_division (fnat other) (fnat red)
                 else epsilon_ceil_division (f32_mul (fnat other) (fnat n)) (fnat img)) of
             Inl e \<Rightarrow> Inl e
           | Inr k \<Rightarrow> Inr (u32 k, red, exact)))"

text \<open>\<open>abs(static_cast<int>(red * w - img)) < red\<close>, in unsigned arithmetic\<close>

definition near :: "nat \<Rightarrow> nat \<Rightarrow> nat \<Rightarrow> bool" where
  "near red w img \<longleftrightarrow> nat \<bar>to_int32 (int red * int w - int img)\<bar> < red"

definition scale_percent :: "iiif_size \<Rightarrow> bool \<Rightarrow> nat \<Rightarrow> nat \<Rightarrow> exn + scaled" where
  "scale_percent s is_j2k img_w img_h =
     (if \<not> upscaling s \<and> percent s > 100 then Inl upscaling_error
      else
        (case epsilon_ceil_division (f32_mul (fnat img_w) (percent s)) 100 of Inl e \<Rightarrow> Inl e | Inr wl \<Rightarrow>
        (case epsilon_ceil_division (f32_mul (fnat img_h) (percent s)) 100 of Inl e \<Rightarrow> Inl e | Inr hl \<Rightarrow>
        (case epsilon_floor_division 100 (percent s) of Inl e \<Rightarrow> Inl e | Inr q \<Rightarrow>
          let w = u32 wl; h = u32 hl; red = j2k_factor is_j2k (if u32 q < 1 then 1 else u32 q)
          in Inr (w, h, red, near red w img_w \<and> near red h img_h)))))"

definition scale_reduce :: "iiif_size \<Rightarrow> bool \<Rightarrow> nat \<Rightarrow> nat \<Rightarrow> nat \<Rightarrow> exn + scaled" where
  "scale_reduce s is_j2k max_reduce img_w img_h =
     (if s_reduce s \<le> 1 then Inr (img_w, img_h, 1, True)
      else
        (case epsilon_ceil_division (fnat img_w) (fnat (s_reduce s)) of Inl e \<Rightarrow> Inl e | Inr w \<Rightarrow>
        (case epsilon_ceil_division (fnat img_h) (fnat (s_reduce s)) of Inl e \<Rightarrow> Inl e | Inr h \<Rightarrow>
          if s_reduce s > max_reduce then Inr (u32 w, u32 h, max_reduce, False)
          else let red = j2k_factor is_j2k (s_reduce s) in Inr (u32 w, u32 h, red, s_reduce s = red))))"

text \<open>The box of \<open>!w,h\<close>; infinite or undefined factors for an empty image end in an undefined conversion.\<close>

definition box_size :: "iiif_size \<Rightarrow> nat \<Rightarrow> nat \<Rightarrow> nat \<times> nat" where
  "box_size s img_w img_h =
     (let fx = f32_div (fnat (s_nx s)) (fnat img_w); fy = f32_div (fnat (s_ny s)) (fnat img_h)
      in if fx < fy then (s_nx s, u32 (epsilon_ceil (f32_mul (fnat img_h) fx)))
         else (u32 (epsilon_ceil (f32_mul (fnat img_w) fy)), s_ny s))"

definition scale_box :: "iiif_size \<Rightarrow> bool \<Rightarrow> nat \<Rightarrow> nat \<Rightarrow> exn + scaled" where
  "scale_box s is_j2k img_w img_h =
     (if img_w = 0 \<or> img_h = 0 then Inl Undefined
      else case box_size s img_w img_h of (w, h) \<Rightarrow>
        (case epsilon_floor_division (fnat img_w) (fnat w) of Inl e \<Rightarrow> Inl e | Inr qw \<Rightarrow>
        (case epsilon_floor_division (fnat img_h) (fnat h) of Inl e \<Rightarrow> Inl e | Inr qh \<Rightarrow>
          let reduce_w = j2k_factor is_j2k (if qw < 1 then 1 else qw);
              reduce_h = j2k_factor is_j2k (if qh < 1 then 1 else qh);
              red = u32 (if reduce_w < reduce_h then reduce_w else reduce_h)
          in if \<not> upscaling s \<and> (w > img_w \<or> h > img_h) then Inl upscaling_error
             else Inr (w, h, red, reduce_w = reduce_h \<and> near red w img_w \<and> near red h img_h))))"

definition scale_full :: "iiif_size \<Rightarrow> nat \<Rightarrow> nat \<Rightarrow> exn + scaled" where
  "scale_full s img_w img_h =
     (let mw = iiif_max_width s; mh = iiif_max_height s; ma = iiif_max_area s in
      if \<not> upscaling s then Inr (img_w, img_h, 1, True)
      else if mw > 0 \<and> mh = 0 then
        (if img_w > img_h then
           (case epsilon_floor_division (fnat (u32 (img_h * mw))) (fnat img_w) of
              Inl e \<Rightarrow> Inl e | Inr h \<Rightarrow> Inr (mw, u32 h, 1, False))
         else
           (case epsilon_floor_division (fnat (u32 (img_w * mw))) (fnat img_w) of
              Inl e \<Rightarrow> Inl e | Inr w \<Rightarrow> Inr (u32 w, mw, 1, False)))
      else if mw > 0 \<and> mh > 0 then
        (if img_w = 0 \<and> img_h = 0 then Inl Undefined
         else if f32_div (fnat img_w) (fnat mw) > f32_div (fnat img_h) (fnat mh)
         then Inr (mw, u32 (epsilon_floor (f32_mul (fnat img_h) (f32_div (fnat mw) (fnat img_w)))), 1, False)
         else Inr (u32 (epsilon_floor (f32_mul (fnat img_w) (f32_div (fnat mh) (fnat img_h)))), mh, 1, False))
      else if ma > 0 then
        (if img_w = 0 \<or> img_h = 0 then Inl Undefined
         else let f = f32_sqrt (f32_div (fnat ma) (f32_mul (fnat img_w) (fnat img_h)))
              in Inr (u32 (epsilon_floor (f32_mul (fnat img_w) f)), u32 (epsilon_floor (f32_mul (fnat img_h) f)), 1, False))
      else Inr (img_w, img_h, 1, False))"

definition scaled_size :: "iiif_size \<Rightarrow> bool \<Rightarrow> nat \<Rightarrow> nat \<Rightarrow> nat \<Rightarrow> exn + scaled" where
  "scaled_size s is_j2k max_reduce img_w img_h =
     (case size_type s of
        SZ_UNDEFINED \<Rightarrow> Inr (0, 0, 0, False)
      | PIXELS_XY \<Rightarrow> scale_xy s is_j2k img_w img_h
      | PIXELS_X \<Rightarrow>
          (case scale_side (upscaling s) is_j2k (s_nx s) img_w img_h of
             Inl e \<Rightarrow> Inl e | Inr (h, red, exact) \<Rightarrow> Inr (s_nx s, h, red, exact))
      | PIXELS_Y \<Rightarrow>
          (case scale_side (upscaling s) is_j2k (s_ny s) img_h img_w of
             Inl e \<Rightarrow> Inl e | Inr (w, red, exact) \<Rightarrow> Inr (w, s_ny s, red, exact))
      | SZ_PERCENTS \<Rightarrow> scale_percent s is_j2k img_w img_h
      | REDUCE \<Rightarrow> scale_reduce s is_j2k max_reduce img_w img_h
      | MAXDIM \<Rightarrow> scale_box s is_j2k img_w img_h
      | SZ_FULL \<Rightarrow> scale_full s img_w img_h)"

text \<open>The limits of the server; \<open>w_p*h_p\<close> wraps.\<close>

definition size_limits :: "iiif_size \<Rightarrow> nat \<times> nat" where
  "size_limits s = (if iiif_max_width s > 0 then (iiif_max_width s, iiif_max_height s) else (limitdim, limitdim))"

definition check_limits :: "iiif_size \<Rightarrow> nat \<Rightarrow> nat \<Rightarrow> exn option" where
  "check_limits s w h =
     (if w > fst (size_limits s) \<or> h > snd (size_limits s)
      then Some (SizeError 400 ''Requested image dimensions to big! (dims)!'')
      else if iiif_max_area s > 0 \<and> u32 (w * h) > iiif_max_area s
      then Some (SizeError 400 ''Requested image dimensions to big (area)! '')
      else None)"

text \<open>
  An exception leaves \<open>w\<close> and \<open>h\<close> as far as they had been set: this matters only for the limits,
  since the requests for which another exception comes later are thrown away with the object.
\<close>

definition get_size :: "nat \<Rightarrow> nat \<Rightarrow> nat \<Rightarrow> bool \<Rightarrow> (iiif_size, size_type \<times> nat \<times> nat \<times> nat \<times> bool) act" where
  "get_size img_w img_h max_p is_j2k s =
     (case scaled_size s is_j2k (if max_p = 0 then 2 ^ 31 - 1 else max_p) img_w img_h of
        Inl e \<Rightarrow> (Inl e, s\<lparr>redonly := False\<rparr>)
      | Inr (w, h, red, ro) \<Rightarrow>
          (case check_limits s w h of
             Some e \<Rightarrow> (Inl e, s\<lparr>s_w := w, s_h := h, redonly := ro\<rparr>)
           | None \<Rightarrow> (Inr (size_type s, w, h, red, ro),
               s\<lparr>s_w := w, s_h := h, redonly := ro, s_canonical_ok := True\<rparr>)))"

text \<open>\<open>buflen\<close> bounds the length of the text, its end marker included.\<close>

definition size_canonical :: "nat \<Rightarrow> iiif_size \<Rightarrow> exn + string" where
  "size_canonical buflen s =
     (if \<not> s_canonical_ok s \<and> size_type s \<noteq> SZ_FULL then Inl (CsError ''Canonical size not determined!'')
      else if size_type s = SZ_UNDEFINED then Inl (CsError ''Error creating size string!'')
      else
        let txt = (if upscaling s then ''^'' else []) @
              (if size_type s = SZ_FULL then ''max'' else dec_string (s_w s) @ '','' @ dec_string (s_h s))
        in if length txt \<ge> buflen then Inl (CsError ''Error creating size string!'') else Inr txt)"

end
