(* ===== verification/IIIFAccess.thy ===== *)
theory IIIFAccess
  imports HttpText IIIFSize
begin

text \<open>
  Which file an IIIF request means and who may see it: \<open>handlers/iiifhandler/IIIFPreflight.cpp\<close>,
  \<open>IIIFCheckFileAccess.cpp\<close>, the canonical URL of \<open>IIIFGetCanonicalUrl.cpp\<close>, and the identifier of
  \<open>iiifparser/IIIFIdentifier.cpp\<close>. The scripts of the site are the parameter \<open>lua\<close>: which functions
  it defines and what they return or throw.
\<close>

section \<open>Parts of a request\<close>

datatype parts = IIIF_ROUTE | IIIF_PREFIX | IIIF_IDENTIFIER | IIIF_REGION | IIIF_SIZE | IIIF_ROTATION
  | IIIF_QUALITY | IIIF_FORMAT | IIIF_OPTIONS

type_synonym params = "parts \<rightharpoonup> string"

definition params_at :: "params \<Rightarrow> parts \<Rightarrow> exn + string" where
  "params_at ps p = (case ps p of None \<Rightarrow> Inl StdOutOfRange | Some v \<Rightarrow> Inr v)"

definition decoded :: "string \<Rightarrow> exn + string" where
  "decoded s = (case urldecode s False of None \<Rightarrow> Inl Diverges | Some t \<Rightarrow> Inr t)"

text \<open>The identifier decodes its argument once more.\<close>

definition mk_identifier :: "string \<Rightarrow> exn + string" where
  "mk_identifier str = decoded str"

section \<open>Preflight scripts\<close>

datatype lua_value = LuaString string | LuaTable "(string \<times> lua_value) list" | LuaOther

record lua_env =
  luaFunctionExists :: "string \<Rightarrow> bool"
  executeLuafunction :: "string \<Rightarrow> string list \<Rightarrow> exn + lua_value list"

type_synonym preflight_info = "string \<rightharpoonup> string"

definition get_string :: "lua_value \<Rightarrow> string option" where
  "get_string v = (case v of LuaString s \<Rightarrow> Some s | _ \<Rightarrow> None)"

definition script_error :: "string \<Rightarrow> string \<Rightarrow> exn" where
  "script_error fname msg = CsError (''Lua function '' @ fname @ '': '' @ msg)"

text \<open>The first value: a permission, or a table with the permission under \<open>type\<close> and other strings.\<close>

definition permission_of :: "string \<Rightarrow> lua_value \<Rightarrow> exn + preflight_info" where
  "permission_of fname v =
     (case v of
        LuaString s \<Rightarrow> Inr [''type'' \<mapsto> s]
      | LuaTable tab \<Rightarrow>
          (case map_of tab ''type'' of
             None \<Rightarrow> Inl (script_error fname ''no type field'')
           | Some t \<Rightarrow>
               if get_string t = None \<or> (\<exists>(k, x) \<in> set tab. get_string x = None)
               then Inl (script_error fname ''permission value not of string type'')
               else Inr (\<lambda>k. case map_of tab k of None \<Rightarrow> None | Some x \<Rightarrow> get_string x))
      | LuaOther \<Rightarrow> Inl (script_error fname ''permission value not valid''))"

definition iiif_permissions :: "string list" where
  "iiif_permissions = [''allow'', ''login'', ''clickthrough'', ''kiosk'', ''external'', ''restrict'', ''deny'']"

definition blob_permissions :: "string list" where
  "blob_permissions = [''allow'', ''login'', ''restrict'', ''deny'']"

text \<open>The second value: the path of the file.\<close>

definition with_infile :: "string \<Rightarrow> lua_value list \<Rightarrow> preflight_info \<Rightarrow> exn + preflight_info" where
  "with_infile fname rvals info =
     (if info ''type'' = Some ''deny'' then Inr (info(''infile'' \<mapsto> []))
      else if length rvals < 2 then Inl (script_error fname ''no file path'')
      else (case get_string (rvals ! 1) of
          None \<Rightarrow> Inl (script_error fname ''file path not a string'')
        | Some p \<Rightarrow> Inr (info(''infile'' \<mapsto> p))))"

definition checked_permission :: "string \<Rightarrow> string list \<Rightarrow> lua_value list \<Rightarrow> exn + preflight_info" where
  "checked_permission fname allowed rvals =
     (if rvals = [] then Inl (script_error fname ''must return at least one value'')
      else (case permission_of fname (hd rvals) of
          Inl e \<Rightarrow> Inl e
        | Inr info \<Rightarrow>
            (case info ''type'' of
               None \<Rightarrow> Inl (script_error fname ''permission not valid'')
             | Some t \<Rightarrow>
                 if t \<in> set allowed then with_infile fname rvals info
                 else Inl (script_error fname ''permission not valid''))))"

definition call_iiif_preflight :: "lua_env \<Rightarrow> string \<Rightarrow> string \<Rightarrow> string \<Rightarrow> string \<Rightarrow> exn + preflight_info" where
  "call_iiif_preflight lua fname prefix identifier cookie =
     (case executeLuafunction lua fname [prefix, identifier, cookie] of
        Inl e \<Rightarrow> Inl e
      | Inr rvals \<Rightarrow> checked_permission fname iiif_permissions rvals)"

definition call_blob_preflight :: "lua_env \<Rightarrow> string \<Rightarrow> string \<Rightarrow> string \<Rightarrow> exn + preflight_info" where
  "call_blob_preflight lua fname filepath cookie =
     (case executeLuafunction lua fname [filepath, cookie] of
        Inl e \<Rightarrow> Inl e
      | Inr rvals \<Rightarrow> checked_permission fname blob_permissions rvals)"

section \<open>The handler's settings\<close>

text \<open>The members of \<open>IIIFHandler\<close> that the modelled code reads.\<close>

record iiif_config =
  routedata :: "string \<rightharpoonup> string"
  iiif_scriptdir :: string
  imgroot :: string
  iiif_preflight_funcname :: string
  file_preflight_funcname :: string
  iiif_specials :: "string list"
  prefix_as_path :: bool
  iiif_max_image_width :: nat
  iiif_max_image_height :: nat

definition image_path :: "iiif_config \<Rightarrow> bool \<Rightarrow> string \<Rightarrow> string \<Rightarrow> string" where
  "image_path cfg with_prefix prefix identifier =
     (if with_prefix then imgroot cfg @ ''/'' @ prefix @ ''/'' @ identifier else imgroot cfg @ ''/'' @ identifier)"

text \<open>\<open>readable\<close> is what \<open>access\<close> says.\<close>

definition check_file_access ::
  "iiif_config \<Rightarrow> lua_env \<Rightarrow> (string \<Rightarrow> bool) \<Rightarrow> string \<Rightarrow> params \<Rightarrow> bool \<Rightarrow> exn + preflight_info" where
  "check_file_access cfg lua readable cookie ps prefix_as_path_p =
     (case params_at ps IIIF_IDENTIFIER of Inl e \<Rightarrow> Inl e | Inr raw \<Rightarrow>
     (case mk_identifier raw of Inl e \<Rightarrow> Inl e | Inr sid \<Rightarrow>
     (case (if luaFunctionExists lua (iiif_preflight_funcname cfg) then
              (case params_at ps IIIF_PREFIX of Inl e \<Rightarrow> Inl e | Inr prefix \<Rightarrow>
              (case call_iiif_preflight lua (iiif_preflight_funcname cfg) prefix sid cookie of
                 Inl e \<Rightarrow> Inl e
               | Inr info \<Rightarrow> Inr (info, (case info ''infile'' of None \<Rightarrow> [] | Some p \<Rightarrow> p))))
            else if prefix_as_path_p then
              (case params_at ps IIIF_PREFIX of Inl e \<Rightarrow> Inl e | Inr prefix \<Rightarrow>
                 Inr ([''type'' \<mapsto> ''allow''], image_path cfg True prefix sid))
            else Inr ([''type'' \<mapsto> ''allow''], image_path cfg False [] sid)) of
        Inl e \<Rightarrow> Inl e
      | Inr (info, infile) \<Rightarrow>
          if readable infile then Inr (info(''infile'' \<mapsto> infile))
          else Inl (CsError (''Cannot read image file: '' @ infile)))))"

section \<open>The canonical URL\<close>

text \<open>\<open>%1.1f\<close> rounds the exact value to one decimal, ties to even.\<close>

definition one_decimal :: "rat \<Rightarrow> string" where
  "one_decimal x = (let k = nat (round_even (x * 10)) in dec_string (k div 10) @ ''.'' @ dec_string (k mod 10))"

definition canonical_rotation :: "rotation \<Rightarrow> string" where
  "canonical_rotation rot =
     (if mirror rot \<or> angle rot \<noteq> 0 then
        (if mirror rot then ''!'' else []) @
        (if angle rot - of_int \<lfloor>angle rot\<rfloor> < 1 / 10 ^ 6 then int_string (lround (angle rot)) else one_decimal (angle rot))
      else ''0'')"

definition canonical_ext :: "format_type \<Rightarrow> string option" where
  "canonical_ext f = (case f of JPG \<Rightarrow> Some ''jpg'' | JP2 \<Rightarrow> Some ''jp2'' | TIF \<Rightarrow> Some ''tif'' | PNG \<Rightarrow> Some ''png'' | _ \<Rightarrow> None)"

definition canonical_quality :: "quality_type \<Rightarrow> string" where
  "canonical_quality q = (case q of COLOR \<Rightarrow> ''color.'' | GRAY \<Rightarrow> ''gray.'' | BITONAL \<Rightarrow> ''bitonal.'' | DEFAULT \<Rightarrow> ''default.'')"

definition slash_part :: "string \<Rightarrow> string" where
  "slash_part s = (if s = [] then [] else CHR ''/'' # s)"

definition canonical_region :: "nat \<Rightarrow> nat \<Rightarrow> region \<Rightarrow> exn + string \<times> region" where
  "canonical_region img_w img_h region =
     (case (if coord_type region \<noteq> FULL
            then (case crop_coords img_w img_h region of (Inl e, r) \<Rightarrow> Inl e | (Inr _, r) \<Rightarrow> Inr r)
            else Inr region) of
        Inl e \<Rightarrow> Inl e
      | Inr r \<Rightarrow> (case region_canonical r of Inl e \<Rightarrow> Inl e | Inr t \<Rightarrow> Inr (t, r)))"

definition canonical_size :: "nat \<Rightarrow> nat \<Rightarrow> iiif_size \<Rightarrow> exn + string \<times> iiif_size" where
  "canonical_size img_w img_h sz =
     (case (if size_type sz \<noteq> SZ_FULL
            then (case get_size img_w img_h 0 False sz of
                (Inl (SizeError _ _), s) \<Rightarrow> Inl (CsError ''SipiSize error!'')
              | (Inl e, s) \<Rightarrow> Inl e
              | (Inr _, s) \<Rightarrow> Inr s)
            else Inr sz) of
        Inl e \<Rightarrow> Inl e
      | Inr s \<Rightarrow> (case size_canonical 127 s of Inl e \<Rightarrow> Inl e | Inr t \<Rightarrow> Inr (t, s)))"

text \<open>
  The URL for the \<open>Link\<close> header, the canonical URL, and the region and the size with what was
  computed for them. (An exception leaves them half computed; its callers send an error and stop.)
  The region goes through a \<open>printf\<close> with a wider conversion than its arguments, which is taken
  to print their values.
\<close>

definition get_canonical_url ::
  "nat \<Rightarrow> nat \<Rightarrow> bool \<Rightarrow> string \<Rightarrow> string \<Rightarrow> string \<Rightarrow> string \<Rightarrow> region \<Rightarrow> iiif_size \<Rightarrow> rotation \<Rightarrow> quality_format
    \<Rightarrow> exn + string \<times> string \<times> region \<times> iiif_size" where
  "get_canonical_url img_w img_h secure_p host_p route prefix identifier region sz rot qf =
     (case canonical_region img_w img_h region of Inl e \<Rightarrow> Inl e | Inr (region_txt, region1) \<Rightarrow>
     (case canonical_size img_w img_h sz of Inl e \<Rightarrow> Inl e | Inr (size_txt, size1) \<Rightarrow>
     (case canonical_ext (fmt qf) of
        None \<Rightarrow> Inl (CsError ''Unsupported file format requested! Supported are .jpg, .jp2, .tif, .png'')
      | Some ext \<Rightarrow>
          let canonical = host_p @ slash_part route @ slash_part prefix @ ''/'' @ identifier @ ''/'' @ region_txt @
                ''/'' @ size_txt @ ''/'' @ canonical_rotation rot @ ''/'' @ canonical_quality (quality qf) @ ext;
              canonical_header = (if secure_p then ''<https://'' else ''<http://'' @ canonical @ ''>'')
          in Inr (canonical_header, canonical, region1, size1))))"

section \<open>Restrictions\<close>

text \<open>\<open>IIIFSize()\<close>, and the test that is meant to find out whether it is one.\<close>

definition no_size :: iiif_size where
  "no_size = blank_size False 0 0 0"

definition size_undefined :: "iiif_size \<Rightarrow> bool" where
  "size_undefined s \<longleftrightarrow> s_nx s = 0 \<and> s_ny s = 0 \<and> percent s = 0"

text \<open>The size that is served: the one asked for, unless a restriction is given and smaller.\<close>

definition restricted :: "iiif_size \<Rightarrow> iiif_size \<Rightarrow> exn + iiif_size" where
  "restricted sz restriction =
     (if size_undefined restriction then Inr sz
      else (case size_greater sz restriction of Inl e \<Rightarrow> Inl e | Inr g \<Rightarrow> Inr (if g then restriction else sz)))"

text \<open>Both sizes for the image; the factor of the first is the maximal factor of the second.\<close>

definition sizes_for_image :: "nat \<Rightarrow> nat \<Rightarrow> iiif_size \<Rightarrow> iiif_size \<Rightarrow> exn + iiif_size \<times> iiif_size" where
  "sizes_for_image img_w img_h sz restriction =
     (case get_size img_w img_h 0 False sz of
        (Inl e, _) \<Rightarrow> Inl e
      | (Inr (_, _, _, red, _), size1) \<Rightarrow>
          (case get_size img_w img_h red False restriction of
             (Inl e, _) \<Rightarrow> Inl e
           | (Inr _, restriction1) \<Rightarrow> Inr (size1, restriction1)))"

definition served_size :: "nat \<Rightarrow> nat \<Rightarrow> iiif_size \<Rightarrow> iiif_size \<Rightarrow> exn + iiif_size" where
  "served_size img_w img_h sz restriction =
     (case sizes_for_image img_w img_h sz restriction of
        Inl e \<Rightarrow> Inl e
      | Inr (size1, restriction1) \<Rightarrow> restricted size1 restriction1)"

end
