(* ===== verification/IIIFServe.thy ===== *)
theory IIIFServe
  imports Scripts Cache IIIFAccess
begin

text \<open>
  The IIIF handler at work: \<open>lib/HttpSendError.cpp\<close>, \<open>handlers/iiifhandler/IIIFHandler.cpp\<close> (the
  request), \<open>IIIFSendFile.cpp\<close> (an image, up to the point where the image libraries take over) and
  \<open>IIIFSendBlob.cpp\<close> (a file as it is). The state is the connection, the cache if there is one, and nothing
  else; what the handler asks of the operating system and of the image libraries is the record \<open>env\<close>.
\<close>

section \<open>State and environment\<close>

record iiif_world =
  wconn :: connection
  wcache :: "cache option"

record img_info =
  info_success :: bool
  info_width :: nat
  info_height :: nat
  info_resolutions :: "sub_image list"

record env =
  lua :: lua_env
  files :: "string \<rightharpoonup> string"
  magic :: "string \<Rightarrow> exn + string"
  getDim :: "string \<Rightarrow> exn + img_info"
  now :: int
  file_time :: "string \<Rightarrow> string"

definition readable :: "env \<Rightarrow> string \<Rightarrow> bool" where
  "readable ev p \<longleftrightarrow> files ev p \<noteq> None"

definition on_conn :: "(connection, 'a) act \<Rightarrow> (iiif_world, 'a) act" where
  "on_conn m w = (case m (wconn w) of (r, c) \<Rightarrow> (r, w\<lparr>wconn := c\<rparr>))"

definition on_cache :: "(cache, 'a) act \<Rightarrow> 'a \<Rightarrow> (iiif_world, 'a) act" where
  "on_cache m dflt w =
     (case wcache w of
        None \<Rightarrow> (Inr dflt, w)
      | Some k \<Rightarrow> (case m k of (r, k1) \<Rightarrow> (r, w\<lparr>wcache := Some k1\<rparr>)))"

text \<open>
  Refusing a request with the message of an error; other exceptions go on. The name of its class and its
  place in the source, which \<open>to_string\<close> puts in front of the message, are left out.
\<close>

definition error_text :: "exn \<Rightarrow> string option" where
  "error_text e = (case e of CsError msg \<Rightarrow> Some msg | _ \<Rightarrow> None)"

definition size_error_text :: "exn \<Rightarrow> string option" where
  "size_error_text e = (case e of CsError msg \<Rightarrow> Some msg | SizeError _ msg \<Rightarrow> Some (''SipiSizeError: '' @ msg) | _ \<Rightarrow> None)"

text \<open>
  A step that computes a value for the rest of a request: when it fails with an exception that
  \<open>texts\<close> knows, the request is answered with \<open>code\<close> and over.
\<close>

definition or_refuse :: "exn + 'a \<Rightarrow> (exn \<Rightarrow> string option) \<Rightarrow> status_codes \<Rightarrow> ('a \<Rightarrow> (iiif_world, unit) act) \<Rightarrow> (iiif_world, unit) act" where
  "or_refuse r texts code k =
     (case r of
        Inr x \<Rightarrow> k x
      | Inl e \<Rightarrow> (case texts e of None \<Rightarrow> sthrow e | Some msg \<Rightarrow> on_conn (send_error code msg)))"

definition no_text :: "exn \<Rightarrow> string option" where
  "no_text e = None"

section \<open>Sending an image\<close>

text \<open>The four IIIF parameters, in the order in which the code reads them.\<close>

definition parse_iiif :: "iiif_config \<Rightarrow> params \<Rightarrow> exn + region \<times> iiif_size \<times> rotation \<times> quality_format" where
  "parse_iiif cfg ps =
     (case params_at ps IIIF_REGION of Inl e \<Rightarrow> Inl e | Inr rs \<Rightarrow>
     (case parse_region rs of Inl e \<Rightarrow> Inl e | Inr rg \<Rightarrow>
     (case params_at ps IIIF_SIZE of Inl e \<Rightarrow> Inl e | Inr ss \<Rightarrow>
     (case parse_size ss (iiif_max_image_width cfg) (iiif_max_image_height cfg) 0 of Inl e \<Rightarrow> Inl e | Inr sz \<Rightarrow>
     (case params_at ps IIIF_ROTATION of Inl e \<Rightarrow> Inl e | Inr rots \<Rightarrow>
     (case parse_rotation rots of Inl e \<Rightarrow> Inl e | Inr rot \<Rightarrow>
     (case params_at ps IIIF_QUALITY of Inl e \<Rightarrow> Inl e | Inr qs \<Rightarrow>
     (case params_at ps IIIF_FORMAT of Inl e \<Rightarrow> Inl e | Inr fs \<Rightarrow>
     (case parse_quality_format qs fs of Inl e \<Rightarrow> Inl e | Inr qf \<Rightarrow> Inr (rg, sz, rot, qf))))))))))"

text \<open>
  What the preflight script allows: the file, a watermark and a size; \<open>None\<close> if it refuses. The two
  numbers tell the refusals apart.
\<close>

definition grant :: "iiif_config \<Rightarrow> preflight_info \<Rightarrow> exn + nat + string \<times> string \<times> iiif_size" where
  "grant cfg info =
     (let infile = (case info ''infile'' of None \<Rightarrow> [] | Some p \<Rightarrow> p) in
      if info ''type'' = Some ''allow'' then Inr (Inr (infile, [], no_size))
      else if info ''type'' = Some ''restrict'' then
        (case info ''size'' of
           None \<Rightarrow> (case info ''watermark'' of None \<Rightarrow> Inr (Inl 1) | Some wm \<Rightarrow> Inr (Inr (infile, wm, no_size)))
         | Some txt \<Rightarrow>
             (case parse_size txt (iiif_max_image_width cfg) (iiif_max_image_height cfg) 0 of
                Inl StdOutOfRange \<Rightarrow>
                  (case info ''watermark'' of None \<Rightarrow> Inr (Inl 1) | Some wm \<Rightarrow> Inr (Inr (infile, wm, no_size)))
              | Inl e \<Rightarrow> Inl e
              | Inr sz \<Rightarrow> Inr (Inr (infile, (case info ''watermark'' of None \<Rightarrow> [] | Some wm \<Rightarrow> wm), sz))))
      else Inr (Inl 2))"

definition with_permission ::
  "iiif_config \<Rightarrow> env \<Rightarrow> params \<Rightarrow> string \<Rightarrow> (string \<Rightarrow> string \<Rightarrow> iiif_size \<Rightarrow> (iiif_world, unit) act) \<Rightarrow> (iiif_world, unit) act" where
  "with_permission cfg ev ps sid k =
     (if luaFunctionExists (lua ev) (iiif_preflight_funcname cfg) then
        or_refuse (params_at ps IIIF_PREFIX) no_text OK (\<lambda>prefix.
        sbind (on_conn (\<lambda>c. case header_get ''cookie'' c of (v, c1) \<Rightarrow> (Inr v, c1))) (\<lambda>cookie.
        or_refuse (call_iiif_preflight (lua ev) (iiif_preflight_funcname cfg) prefix sid cookie) error_text INTERNAL_SERVER_ERROR (\<lambda>info.
        or_refuse (grant cfg info) no_text OK (\<lambda>g.
        case g of
          Inl n \<Rightarrow> on_conn (send_error UNAUTHORIZED (''Unauthorized access (#'' @ dec_string n @ '')''))
        | Inr (infile, watermark, restriction) \<Rightarrow> k infile watermark restriction))))
      else
        or_refuse (if prefix_as_path cfg then params_at ps IIIF_PREFIX else Inr []) no_text OK (\<lambda>prefix.
        k (image_path cfg (prefix \<noteq> []) prefix sid) [] no_size))"

definition format_of_mime :: "string \<Rightarrow> format_type" where
  "format_of_mime m =
     (if m = ''image/tiff'' then TIF else if m = ''image/jpeg'' then JPG else if m = ''image/png'' then PNG
      else if m = ''image/jpx'' \<or> m = ''image/jp2'' then JP2 else if m = ''application/pdf'' then PDF else UNSUPPORTED)"

definition mime_of_format :: "format_type \<Rightarrow> string option" where
  "mime_of_format f = (case f of TIF \<Rightarrow> Some ''image/tiff'' | JPG \<Rightarrow> Some ''image/jpeg'' | PNG \<Rightarrow> Some ''image/png''
     | JP2 \<Rightarrow> Some ''image/jp2'' | PDF \<Rightarrow> Some ''application/pdf'' | _ \<Rightarrow> None)"

text \<open>The size of the image and its resolutions: from the cache, or from the image itself.\<close>

definition image_dims :: "string \<Rightarrow> (iiif_world, (nat \<times> nat \<times> sub_image list) option) act" where
  "image_dims infile = on_cache (getSize infile) None"

definition with_dims ::
  "env \<Rightarrow> string \<Rightarrow> (nat \<Rightarrow> nat \<Rightarrow> sub_image list \<Rightarrow> (iiif_world, unit) act) \<Rightarrow> (iiif_world, unit) act" where
  "with_dims ev infile k =
     sbind (image_dims infile) (\<lambda>d.
       case d of
         Some (w, h, rs) \<Rightarrow> k w h rs
       | None \<Rightarrow> or_refuse (getDim ev infile) error_text INTERNAL_SERVER_ERROR (\<lambda>info.
           if info_success info then k (info_width info) (info_height info) (info_resolutions info)
           else on_conn (send_error INTERNAL_SERVER_ERROR (''Couldn'' @ [CHR 0x27] @ ''t get image dimensions!''))))"

definition image_headers :: "string \<Rightarrow> format_type \<Rightarrow> (connection, unit) act" where
  "image_headers canonical_header f = sseq
     [smod (status OK []),
      header_set ''Cache-Control'' ''must-revalidate, post-check=0, pre-check=0'',
      header_set ''Link'' canonical_header,
      (case mime_of_format f of None \<Rightarrow> sret () | Some m \<Rightarrow> header_set ''Content-Type'' m)]"

text \<open>The file can go out as it is.\<close>

definition unmodified :: "region \<Rightarrow> iiif_size \<Rightarrow> rotation \<Rightarrow> quality_format \<Rightarrow> string \<Rightarrow> format_type \<Rightarrow> bool" where
  "unmodified rg sz rot qf watermark in_format \<longleftrightarrow>
     coord_type rg = FULL \<and> size_type sz = SZ_FULL \<and> angle rot = 0 \<and> \<not> mirror rot \<and> watermark = [] \<and>
     fmt qf = in_format \<and> quality qf = DEFAULT"

text \<open>
  A client that goes away is not an error. The handlers for \<open>IIIFError\<close> at these calls never run: \<open>sendFile\<close> throws its
  base class.
\<close>

definition send_whole :: "env \<Rightarrow> string \<Rightarrow> (iiif_world, unit) act" where
  "send_whole ev path =
     scatch (on_conn (sendFile (files ev) path 8192 0 0))
ignore_input_failure"

text \<open>
  The rest of a request whose image has to be made is the argument \<open>transcode\<close> (theory
  \<open>IIIFTranscode\<close>); it is given everything that has been worked out.
\<close>

record image_job =
  job_infile :: string
  job_region :: region
  job_size :: iiif_size
  job_rotation :: rotation
  job_format :: quality_format
  job_watermark :: string
  job_canonical :: string
  job_header :: string
  job_w :: nat
  job_h :: nat
  job_resolutions :: "sub_image list"

type_synonym transcoder = "image_job \<Rightarrow> (iiif_world, unit) act"

definition from_cache :: "env \<Rightarrow> string \<Rightarrow> string \<Rightarrow> string \<Rightarrow> format_type \<Rightarrow> (iiif_world, unit) act \<Rightarrow> (iiif_world, unit) act" where
  "from_cache ev infile canonical canonical_header f mk_image =
     swith wcache (\<lambda>k.
       if k = None then mk_image
       else sbind (on_cache (check (now ev) infile canonical True) []) (\<lambda>cachefile.
         if cachefile \<noteq> [] then sseq
           [on_conn (image_headers canonical_header f),
            send_whole ev cachefile,
            on_cache (smod (deblock cachefile)) ()]
         else sseq [on_cache (smod (deblock cachefile)) (), mk_image]))"

definition serve_image ::
  "iiif_config \<Rightarrow> env \<Rightarrow> transcoder \<Rightarrow> params \<Rightarrow> string \<Rightarrow> region \<Rightarrow> iiif_size \<Rightarrow> rotation \<Rightarrow> quality_format
    \<Rightarrow> string \<Rightarrow> string \<Rightarrow> iiif_size \<Rightarrow> (iiif_world, unit) act" where
  "serve_image cfg ev transcode ps sid rg sz rot qf infile watermark restriction =
     or_refuse (getBestFileMimetype (magic ev) infile) no_text OK (\<lambda>mime.
     if \<not> readable ev infile then on_conn (send_error NOT_FOUND [])
     else with_dims ev infile (\<lambda>img_w img_h rs.
     or_refuse (served_size img_w img_h sz restriction) size_error_text BAD_REQUEST (\<lambda>sz1.
     or_refuse (params_at ps IIIF_ROUTE) no_text OK (\<lambda>route.
     or_refuse (params_at ps IIIF_PREFIX) no_text OK (\<lambda>prefix.
     swith (\<lambda>w. (secure (wconn w), host (wconn w))) (\<lambda>(sec, hst).
     or_refuse (get_canonical_url img_w img_h sec hst route prefix sid rg sz1 rot qf) error_text BAD_REQUEST
       (\<lambda>(canonical_header, canonical, rg1, sz2).
     if unmodified rg1 sz2 rot qf watermark (format_of_mime mime)
     then sseq [on_conn (image_headers canonical_header (fmt qf)), send_whole ev infile]
     else from_cache ev infile canonical canonical_header (fmt qf)
            (transcode \<lparr>job_infile = infile, job_region = rg1, job_size = sz2, job_rotation = rot, job_format = qf,
              job_watermark = watermark, job_canonical = canonical, job_header = canonical_header,
              job_w = img_w, job_h = img_h, job_resolutions = rs\<rparr>))))))))"

definition send_iiif_file :: "iiif_config \<Rightarrow> env \<Rightarrow> transcoder \<Rightarrow> params \<Rightarrow> (iiif_world, unit) act" where
  "send_iiif_file cfg ev transcode ps =
     or_refuse (params_at ps IIIF_IDENTIFIER) no_text OK (\<lambda>raw.
     or_refuse (decoded raw) no_text OK (\<lambda>once.
     or_refuse (mk_identifier once) no_text OK (\<lambda>sid.
     or_refuse (parse_iiif cfg ps) error_text BAD_REQUEST (\<lambda>(rg, sz, rot, qf).
     with_permission cfg ev ps sid (serve_image cfg ev transcode ps sid rg sz rot qf)))))"

section \<open>Sending a file\<close>

definition parse_range :: "string \<Rightarrow> nat \<Rightarrow> exn + (int \<times> int) option" where
  "parse_range rng fsize =
     (case match_range rng of
        None \<Rightarrow> Inr None
      | Some (ds, es) \<Rightarrow>
          (case stoi ds of
             Inl e \<Rightarrow> Inl e
           | Inr start \<Rightarrow>
               if es = [] then Inr (Some (start, to_int32 (int fsize - 1)))
               else (case stoi es of Inl e \<Rightarrow> Inl e | Inr end_p \<Rightarrow> Inr (Some (start, end_p)))))"

definition blob_headers :: "string \<Rightarrow> (connection, unit) act" where
  "blob_headers mime = sseq
     [header_set ''Content-Type'' mime,
      header_set ''Cache-Control'' ''public, must-revalidate, max-age=0'',
      header_set ''Pragma'' ''no-cache'',
      header_set ''Accept-Ranges'' ''bytes'']"

definition send_blob_file :: "env \<Rightarrow> string \<Rightarrow> string \<Rightarrow> params \<Rightarrow> (iiif_world, unit) act" where
  "send_blob_file ev infile mime ps =
     sbind (on_conn (\<lambda>c. case header_get ''range'' c of (v, c1) \<Rightarrow> (Inr v, c1))) (\<lambda>rng.
       if rng = [] then sseq
         [on_conn (blob_headers mime), on_conn (header_set ''Last-Modified'' (file_time ev infile)),
          on_conn binary_header, on_conn (sendFile (files ev) infile 8192 0 0), on_conn flush]
       else
         let fsize = length (case files ev infile of None \<Rightarrow> [] | Some d \<Rightarrow> d) in
         or_refuse (parse_range rng fsize) no_text OK (\<lambda>r.
         case r of
           None \<Rightarrow> on_conn (send_error BAD_REQUEST ''Range expression invalid!'')
         | Some (start, end_p) \<Rightarrow>
             or_refuse (params_at ps IIIF_IDENTIFIER) no_text OK (\<lambda>ident. sseq
               [on_conn (smod (status PARTIAL_CONTENT [])),
                on_conn (blob_headers mime),
                on_conn (header_set ''Content-Range''
                  (''bytes '' @ int_string start @ ''-'' @ int_string end_p @ ''/'' @ dec_string fsize)),
                on_conn (header_set ''Content-Disposition'' (''inline; filename='' @ ident)),
                on_conn binary_header,
                on_conn (header_set ''Last-Modified'' (file_time ev infile)),
                on_conn (sendFile (files ev) infile 8192 start end_p),
                on_conn flush])))"

definition blob_path :: "iiif_config \<Rightarrow> params \<Rightarrow> exn + string" where
  "blob_path cfg ps =
     (case (if prefix_as_path cfg then params_at ps IIIF_PREFIX else Inr []) of Inl e \<Rightarrow> Inl e | Inr prefix \<Rightarrow>
     (case params_at ps IIIF_IDENTIFIER of Inl e \<Rightarrow> Inl e | Inr ident \<Rightarrow>
        Inr (path_append (if prefix_as_path cfg then path_append (imgroot cfg) prefix else imgroot cfg) ident)))"

definition send_iiif_blob :: "iiif_config \<Rightarrow> env \<Rightarrow> params \<Rightarrow> (iiif_world, unit) act" where
  "send_iiif_blob cfg ev ps =
     or_refuse (blob_path cfg ps) no_text OK (\<lambda>path.
     let serve = (\<lambda>infile.
           if readable ev infile then
             or_refuse (getBestFileMimetype (magic ev) infile) no_text OK (\<lambda>mime. send_blob_file ev infile mime ps)
           else on_conn (send_error NOT_FOUND (''File '' @ infile @ '' not accessible.'')))
     in if luaFunctionExists (lua ev) (file_preflight_funcname cfg) then
          sbind (on_conn (\<lambda>c. case header_get ''cookie'' c of (v, c1) \<Rightarrow> (Inr v, c1))) (\<lambda>cookie.
          or_refuse (call_blob_preflight (lua ev) (file_preflight_funcname cfg) path cookie) error_text INTERNAL_SERVER_ERROR (\<lambda>info.
          if info ''type'' = Some ''allow'' \<or> info ''type'' = Some ''restrict''
          then serve (case info ''infile'' of None \<Rightarrow> [] | Some p \<Rightarrow> p)
          else on_conn (send_error UNAUTHORIZED ''Unauthorized access'')))
        else serve path)"

section \<open>Understanding a request\<close>

definition skip_opt :: "char \<Rightarrow> string \<Rightarrow> string" where
  "skip_opt c s = (if s \<noteq> [] \<and> hd s = c then tl s else s)"

definition skip_num :: "string \<Rightarrow> string" where
  "skip_num s = dropWhile isdigit (skip_opt (CHR ''.'') (dropWhile isdigit s))"

text \<open>Behind a comma; \<open>None\<close> where there is none.\<close>

definition behind_comma :: "string \<Rightarrow> string option" where
  "behind_comma s = (if s \<noteq> [] \<and> hd s = CHR '','' then Some (tl s) else None)"

definition qualform_ok :: "string \<Rightarrow> bool" where
  "qualform_ok s \<longleftrightarrow> s \<in> set (concat (map (\<lambda>q. map (\<lambda>f. q @ ''.'' @ f) [''jpg'', ''tif'', ''png'', ''jp2''])
     [''color'', ''gray'', ''bitonal'', ''default'']))"

definition rotation_ok :: "string \<Rightarrow> bool" where
  "rotation_ok s \<longleftrightarrow>
     (let r = skip_opt (CHR ''!'') s; r1 = (if r \<noteq> [] \<and> (hd r = CHR ''-'' \<or> hd r = CHR ''+'') then tl r else r)
      in skip_num r1 = [])"

definition size_ok :: "string \<Rightarrow> bool" where
  "size_ok s \<longleftrightarrow>
     (let t = skip_opt (CHR ''^'') s in
      t = ''max'' \<or> (take 4 t = ''pct:'' \<and> skip_num (drop 4 t) = []) \<or>
      (case behind_comma (dropWhile isdigit (skip_opt (CHR ''!'') t)) of None \<Rightarrow> False
       | Some r \<Rightarrow> dropWhile isdigit r = []))"

fun numbers_ok :: "(string \<Rightarrow> string option) \<Rightarrow> nat \<Rightarrow> string \<Rightarrow> bool" where
  "numbers_ok num 0 s \<longleftrightarrow> False"
| "numbers_ok num (Suc n) s \<longleftrightarrow>
     (case num s of
        None \<Rightarrow> False
      | Some r \<Rightarrow> if n = 0 then r = [] else (case behind_comma r of None \<Rightarrow> False | Some r1 \<Rightarrow> numbers_ok num n r1))"

definition digits_plus :: "string \<Rightarrow> string option" where
  "digits_plus s = (if s \<noteq> [] \<and> isdigit (hd s) then Some (dropWhile isdigit s) else None)"

definition region_ok :: "string \<Rightarrow> bool" where
  "region_ok s \<longleftrightarrow> s = ''full'' \<or> s = ''square'' \<or> numbers_ok digits_plus 4 s \<or>
     (take 4 s = ''pct:'' \<and> numbers_ok (\<lambda>r. Some (skip_num r)) 4 (drop 4 s))"

fun decode_parts :: "string list \<Rightarrow> exn + string list option" where
  "decode_parts [] = Inr (Some [])"
| "decode_parts (p # ps) =
     (if p = [] then Inr None
      else (case decoded p of Inl e \<Rightarrow> Inl e | Inr d \<Rightarrow>
        (case decode_parts ps of Inl e \<Rightarrow> Inl e | Inr None \<Rightarrow> Inr None | Inr (Some ds) \<Rightarrow> Inr (Some (d # ds)))))"

text \<open>The first element of an empty vector is undefined.\<close>

definition url_parts :: "string \<Rightarrow> string \<Rightarrow> exn + string list option" where
  "url_parts route1 uri_p =
     (let t = split_str uri_p (CHR ''/'') in
      if t = [] then Inl Undefined
      else let t1 = (if hd t = [] then tl t else t) in
        if t1 = [] then Inl Undefined
        else decode_parts (if hd t1 = route1 then tl t1 else t1))"

definition special_requests :: "string list \<Rightarrow> (string \<rightharpoonup> string)" where
  "special_requests specials =
     fold (\<lambda>spez m. case split_str spez (CHR ''='') of [k, v] \<Rightarrow> m(k \<mapsto> v) | _ \<Rightarrow> m) specials
       [''info.json'' \<mapsto> [], ''file'' \<mapsto> []]"

fun decode_all :: "string list \<Rightarrow> exn + string list" where
  "decode_all [] = Inr []"
| "decode_all (p # ps) =
     (case decoded p of Inl e \<Rightarrow> Inl e | Inr d \<Rightarrow> (case decode_all ps of Inl e \<Rightarrow> Inl e | Inr ds \<Rightarrow> Inr (d # ds)))"

fun join_slash :: "string list \<Rightarrow> string" where
  "join_slash [] = []"
| "join_slash [p] = p"
| "join_slash (p # q # ps) = p @ ''/'' @ join_slash (q # ps)"

datatype request =
    ImageRequest params
  | InfoRequest params
  | BlobRequest params
  | SpecialRequest params string
  | RedirectRequest params
  | Refused string

definition screwed_up :: string where
  "screwed_up = ''Invalid IIIF URL. IIIF URl syntax is screwed up.''"

text \<open>The identifier at the end of \<open>front\<close>, if there is one, and the parts before it as the prefix.\<close>

definition with_identifier :: "string list \<Rightarrow> params \<Rightarrow> (params \<Rightarrow> request) \<Rightarrow> exn + request" where
  "with_identifier front ps mk =
     (if front = [] then Inr (mk (ps(IIIF_PREFIX \<mapsto> [])))
      else (case decoded (last front) of
          Inl e \<Rightarrow> Inl e
        | Inr ident \<Rightarrow>
            if ident = [] then Inr (Refused screwed_up)
            else (case decode_all (butlast front) of
                Inl e \<Rightarrow> Inl e
              | Inr pre \<Rightarrow> Inr (mk (ps(IIIF_IDENTIFIER \<mapsto> ident, IIIF_PREFIX \<mapsto> join_slash pre))))))"

text \<open>The \<open>k\<close>-th part from the end, decoded once more, and whether it has the form it must have.\<close>

definition part_check :: "nat \<Rightarrow> (string \<Rightarrow> bool) \<Rightarrow> string list \<Rightarrow> exn + (bool \<times> string) option" where
  "part_check k ok url =
     (if length url < k then Inr None
      else (case decoded (url ! (length url - k)) of
          Inl e \<Rightarrow> Inl e
        | Inr s \<Rightarrow> Inr (Some (if ok s then (True, s) else (False, [])))))"

definition set_part :: "parts \<Rightarrow> (bool \<times> string) option \<Rightarrow> params \<Rightarrow> params" where
  "set_part p r ps = (case r of None \<Rightarrow> ps | Some (_, s) \<Rightarrow> ps(p \<mapsto> s))"

definition part_good :: "(bool \<times> string) option \<Rightarrow> bool" where
  "part_good r \<longleftrightarrow> (case r of None \<Rightarrow> False | Some (b, _) \<Rightarrow> b)"

text \<open>With a question mark in the last part, the text that is examined starts at it.\<close>

definition options_split :: "string \<Rightarrow> string \<times> string" where
  "options_split p = (case find_char (CHR ''?'') p of None \<Rightarrow> ([], p) | Some pos \<Rightarrow> (drop (pos + 1) p, drop pos p))"

definition quality_parts :: "string \<Rightarrow> params \<Rightarrow> params" where
  "quality_parts tmpstr ps =
     (if qualform_ok tmpstr then
        (case rfind_char (CHR ''.'') tmpstr of
           None \<Rightarrow> ps
         | Some pos \<Rightarrow> ps(IIIF_QUALITY \<mapsto> take pos tmpstr, IIIF_FORMAT \<mapsto> drop (pos + 1) tmpstr))
      else ps)"

definition classify :: "string list \<Rightarrow> string \<Rightarrow> string list \<Rightarrow> exn + request" where
  "classify specials route1 url =
     (if url = [] then Inr (Refused ''Empty path not allowed for IIIF request.'')
      else case options_split (last url) of (opts, tmpstr) \<Rightarrow>
        (case part_check 2 rotation_ok url of Inl e \<Rightarrow> Inl e | Inr rot \<Rightarrow>
        (case part_check 3 size_ok url of Inl e \<Rightarrow> Inl e | Inr sz \<Rightarrow>
        (case part_check 4 region_ok url of Inl e \<Rightarrow> Inl e | Inr rg \<Rightarrow>
          let ps = set_part IIIF_REGION rg (set_part IIIF_SIZE sz (set_part IIIF_ROTATION rot
                (quality_parts tmpstr [IIIF_ROUTE \<mapsto> route1, IIIF_OPTIONS \<mapsto> opts])))
          in if qualform_ok tmpstr \<and> part_good rot \<and> part_good sz \<and> part_good rg
             then with_identifier (take (length url - 4) url) ps ImageRequest
             else if qualform_ok tmpstr \<or> part_good rot \<or> part_good sz \<or> part_good rg
             then Inr (Refused screwed_up)
             else (case special_requests specials tmpstr of
                 Some fname \<Rightarrow> with_identifier (butlast url) ps
                   (if tmpstr = ''info.json'' then InfoRequest else if tmpstr = ''file'' then BlobRequest
                    else (\<lambda>p. SpecialRequest p fname))
               | None \<Rightarrow> with_identifier url ps RedirectRequest)))))"

definition redirect_url :: "bool \<Rightarrow> string \<Rightarrow> params \<Rightarrow> string" where
  "redirect_url sec hst ps =
     (let val = (\<lambda>p. case ps p of None \<Rightarrow> [] | Some v \<Rightarrow> v) in
      (if sec then ''https://'' else ''http://'') @ hst @ ''/''
      @ (if val IIIF_ROUTE = [] then [] else val IIIF_ROUTE @ ''/'')
      @ (if val IIIF_PREFIX = [] then [] else val IIIF_PREFIX @ ''/'')
      @ val IIIF_IDENTIFIER @ ''/info.json'')"

definition send_redirect :: "params \<Rightarrow> (connection, unit) act" where
  "send_redirect ps =
     swith (\<lambda>c. redirect_url (secure c) (host c) ps) (\<lambda>u. sseq
       [setBuffer, smod (status SEE_OTHER []), header_set ''Location'' u, header_set ''Content-Type'' ''text/plain'',
        put_string (''Redirect to '' @ u), flush])"

text \<open>
  A route may have a script of its own, which must be plain Lua.
\<close>

definition iiif_script :: "file_system \<Rightarrow> lua_run \<Rightarrow> string \<Rightarrow> (connection, unit) act" where
  "iiif_script fs exec path = catch_all
     (if path_extension path = ''.lua'' then lua_file exec ''Scripthandler Lua Error:'' (contents fs path) path
      else invalid_extension (path_extension path))"

text \<open>
  The handler. The scripts, with the files and the interpreter, the description of an image (which is JSON) and the
  special requests, whose answers scripts make, are arguments.
\<close>

record iiif_calls =
  call_files :: file_system
  call_lua :: lua_run
  send_iiif_info :: "params \<Rightarrow> (iiif_world, unit) act"
  send_iiif_special :: "params \<Rightarrow> string \<Rightarrow> (iiif_world, unit) act"

definition iiif_handler :: "iiif_config \<Rightarrow> env \<Rightarrow> transcoder \<Rightarrow> iiif_calls \<Rightarrow> string \<Rightarrow> (iiif_world, unit) act" where
  "iiif_handler cfg ev transcode calls route =
     (case routedata cfg route of
        None \<Rightarrow> on_conn (send_error INTERNAL_SERVER_ERROR ''Error in IIIFHandler: No script route defined.'')
      | Some scriptname \<Rightarrow>
          if scriptname \<noteq> ''C++'' then
            (if scriptname = [] then on_conn (send_error INTERNAL_SERVER_ERROR ''IIIFHandler: No script path defined.'')
             else on_conn (with_script (call_files calls) (iiif_scriptdir cfg) scriptname
                (iiif_script (call_files calls) (call_lua calls))))
          else swith (\<lambda>w. uri (wconn w)) (\<lambda>u.
            or_refuse (url_parts (tl route) u) no_text OK (\<lambda>r.
            case r of
              None \<Rightarrow> on_conn (send_error BAD_REQUEST (''Invalid IIIF URL. Empty parts '' @ apostrophes ''//'' @ '' in URL.''))
            | Some url \<Rightarrow>
                or_refuse (classify (iiif_specials cfg) (tl route) url) no_text OK (\<lambda>req.
                case req of
                  Refused msg \<Rightarrow> on_conn (send_error BAD_REQUEST msg)
                | ImageRequest ps \<Rightarrow> send_iiif_file cfg ev transcode ps
                | InfoRequest ps \<Rightarrow> send_iiif_info calls ps
                | BlobRequest ps \<Rightarrow> send_iiif_blob cfg ev ps
                | SpecialRequest ps fname \<Rightarrow> send_iiif_special calls ps fname
                | RedirectRequest ps \<Rightarrow> on_conn (send_redirect ps)))))"

end
