(* ===== verification/SizeProps.thy ===== *)
theory SizeProps
  imports IIIFSize
begin

text \<open>
  Properties of the size of an IIIF request (\<open>iiifparser/IIIFSize.cpp\<close>): quotients rounded in single
  precision stay within one of the exact ones for small images; on them rest the aspect ratio, the absence of
  upscaling, the canonical text of a size, the limits, and the factor for JPEG 2000.
\<close>

section \<open>Rounded quotients\<close>

lemma fnat_small: "n < 2 ^ 24 \<Longrightarrow> fnat n = of_nat n"
  using f32_of_small_int [of "int n"] by simp

lemma epsilon_ceil_bounds:
  assumes "0 \<le> x" and "x < 2 ^ 24"
  shows "\<lfloor>x\<rfloor> \<le> int (epsilon_ceil (f32 x))" and "int (epsilon_ceil (f32 x)) \<le> \<lceil>x\<rceil>"
proof -
  have "0 \<le> \<lfloor>x\<rfloor>" "\<lfloor>f32 x\<rfloor> \<le> \<lceil>f32 x\<rceil>" using assms(1) by (auto intro: floor_le_ceiling)
  then have f: "int (nat \<lfloor>f32 x\<rfloor>) = \<lfloor>f32 x\<rfloor>" "int (nat \<lceil>f32 x\<rceil>) = \<lceil>f32 x\<rceil>" "\<lfloor>f32 x\<rfloor> \<le> \<lceil>f32 x\<rceil>"
    using f32_floor_ceiling [OF assms] by (metis nat_0_le order_trans)+
  have "epsilon_ceil (f32 x) = nat \<lfloor>f32 x\<rfloor> \<or> epsilon_ceil (f32 x) = nat \<lceil>f32 x\<rceil>"
    by (simp add: epsilon_ceil_def)
  with f f32_floor_ceiling [OF assms] show "\<lfloor>x\<rfloor> \<le> int (epsilon_ceil (f32 x))" "int (epsilon_ceil (f32 x)) \<le> \<lceil>x\<rceil>"
    by (metis order_trans)+
qed

lemma epsilon_floor_bounds:
  assumes "0 \<le> x" and "x < 2 ^ 24"
  shows "\<lfloor>x\<rfloor> \<le> int (epsilon_floor (f32 x))" and "int (epsilon_floor (f32 x)) \<le> \<lceil>x\<rceil>"
proof -
  have "0 \<le> \<lfloor>x\<rfloor>" "\<lfloor>f32 x\<rfloor> \<le> \<lceil>f32 x\<rceil>" using assms(1) by (auto intro: floor_le_ceiling)
  then have f: "int (nat \<lfloor>f32 x\<rfloor>) = \<lfloor>f32 x\<rfloor>" "int (nat \<lceil>f32 x\<rceil>) = \<lceil>f32 x\<rceil>" "\<lfloor>f32 x\<rfloor> \<le> \<lceil>f32 x\<rceil>"
    using f32_floor_ceiling [OF assms] by (metis nat_0_le order_trans)+
  have "epsilon_floor (f32 x) = nat \<lfloor>f32 x\<rfloor> \<or> epsilon_floor (f32 x) = nat \<lceil>f32 x\<rceil>"
    by (simp add: epsilon_floor_def)
  with f f32_floor_ceiling [OF assms] show "\<lfloor>x\<rfloor> \<le> int (epsilon_floor (f32 x))" "int (epsilon_floor (f32 x)) \<le> \<lceil>x\<rceil>"
    by (metis order_trans)+
qed

text \<open>A quotient of small numbers, rounded with the tolerance: the exact quotient, less than one off.\<close>

definition about :: "nat \<Rightarrow> nat \<Rightarrow> nat \<Rightarrow> bool" where
  "about k a b \<longleftrightarrow> k * b < a + b \<and> a < k * b + b"

lemma about_exact: "about k (q * b) b \<Longrightarrow> 0 < b \<Longrightarrow> k = q"
proof -
  assume a: "about k (q * b) b" "0 < b"
  then have "k * b < (q + 1) * b" "q * b < (k + 1) * b" by (simp_all add: about_def)
  then have "k < q + 1" "q < k + 1" by (metis mult_less_cancel2)+
  then show ?thesis by simp
qed

lemma about_le: "about k a b \<Longrightarrow> a \<le> m * b \<Longrightarrow> 0 < b \<Longrightarrow> k \<le> m"
proof -
  assume a: "about k a b" "a \<le> m * b" "0 < b"
  then have "k * b < (m + 1) * b" by (simp add: about_def)
  then have "k < m + 1" by (metis mult_less_cancel2)
  then show ?thesis by simp
qed

lemma about_scale: "about k a b \<Longrightarrow> 0 < n \<Longrightarrow> about k (a * n) (b * n)"
proof -
  assume "about k a b" "0 < n"
  then have "(k * b) * n < (a + b) * n" "a * n < (k * b + b) * n"
    by (auto simp: about_def simp del: mult_less_cancel2 intro!: mult_less_mono1)
  then show ?thesis by (simp add: about_def algebra_simps)
qed

lemma quotient_bounds:
  assumes "0 < b" and "\<lfloor>(of_nat a :: rat) / of_nat b\<rfloor> \<le> int k" and "int k \<le> \<lceil>(of_nat a :: rat) / of_nat b\<rceil>"
  shows "about k a b"
proof -
  have b: "(0 :: rat) < of_nat b" using assms(1) by simp
  have "(of_nat a :: rat) / of_nat b < of_int (int k + 1)" using assms(2) by linarith
  then have "(of_nat a :: rat) < of_nat (k + 1) * of_nat b" using b by (simp add: divide_less_eq add.commute)
  then have 1: "a < (k + 1) * b" unfolding of_nat_mult [symmetric] of_nat_less_iff .
  have "of_int (int k) < (of_nat a :: rat) / of_nat b + 1" using assms(3) by linarith
  then have "(of_nat k :: rat) < of_nat (a + b) / of_nat b" using b by (simp add: add_divide_distrib)
  then have "(of_nat k :: rat) * of_nat b < of_nat (a + b)" using b by (simp add: less_divide_eq)
  then have 2: "k * b < a + b" by (metis of_nat_less_iff of_nat_mult)
  from 1 2 show ?thesis by (simp add: about_def)
qed

lemma small_quotient:
  assumes "0 < b" and "a < 2 ^ 24"
  shows "0 \<le> (of_nat a :: rat) / of_nat b" and "(of_nat a :: rat) / of_nat b < 2 ^ 24"
proof -
  have "(of_nat a :: rat) * 1 \<le> of_nat a * of_nat b" using assms(1) by (intro mult_left_mono) simp_all
  then have "(of_nat a :: rat) / of_nat b \<le> of_nat a" using assms(1) by (simp add: divide_le_eq)
  moreover have "(of_nat a :: rat) < 2 ^ 24" using assms(2) by (metis of_nat_less_iff of_nat_numeral of_nat_power)
  ultimately show "(of_nat a :: rat) / of_nat b < 2 ^ 24" by linarith
qed simp

lemma ceil_division:
  assumes "0 < b" and "a < 2 ^ 24" and "b < 2 ^ 24"
  obtains k where "epsilon_ceil_division (of_nat a) (fnat b) = Inr k" and "about k a b"
proof -
  note q = small_quotient [OF assms(1,2)]
  have "epsilon_ceil_division (of_nat a) (fnat b) = Inr (epsilon_ceil (f32 (of_nat a / of_nat b)))"
    using assms by (simp add: epsilon_ceil_division_def f32_div_def fnat_small)
  with that quotient_bounds [OF assms(1) epsilon_ceil_bounds [OF q]] show thesis by blast
qed

lemma floor_division:
  assumes "0 < b" and "a < 2 ^ 24" and "b < 2 ^ 24"
  obtains k where "epsilon_floor_division (of_nat a) (fnat b) = Inr k" and "about k a b"
proof -
  note q = small_quotient [OF assms(1,2)]
  have "epsilon_floor_division (of_nat a) (fnat b) = Inr (epsilon_floor (f32 (of_nat a / of_nat b)))"
    using assms by (simp add: epsilon_floor_division_def f32_div_def fnat_small)
  with that quotient_bounds [OF assms(1) epsilon_floor_bounds [OF q]] show thesis by blast
qed

lemma fnat_mul: "m * n < 2 ^ 24 \<Longrightarrow> m < 2 ^ 24 \<Longrightarrow> n < 2 ^ 24 \<Longrightarrow> f32_mul (fnat m) (fnat n) = of_nat (m * n)"
  using f32_of_small_nat [of "m * n"] by (simp add: f32_mul_def fnat_small)

section \<open>One axis\<close>

lemma axis_reduce_down:
  assumes "0 < n" and "n \<le> img" and "img < 2 ^ 24"
  obtains q where "axis_reduce up j2k n img = Inr (j2k_factor j2k q, img mod n = 0)" and "about q img n" and "1 \<le> q"
proof -
  have n: "n < 2 ^ 24" using assms by simp
  obtain q where q: "epsilon_floor_division (of_nat img) (fnat n) = Inr q" "about q img n"
    by (rule floor_division [OF assms(1,3) n])
  have "q \<noteq> 0" using q(2) assms(2) by (cases q) (auto simp: about_def)
  moreover have "q \<le> img" by (rule about_le [OF q(2)]) (use assms(1) in simp_all)
  ultimately show thesis
    using that [of q] q assms by (simp add: axis_reduce_def fnat_small u32_def)
qed

lemma scale_side_down:
  assumes "0 < n" and "n \<le> img" and "0 < other" and "img * other < 2 ^ 24" and "scale_side up False n img other = Inr (k, red, exact)"
  shows "about k (other * n) img" and "exact \<longleftrightarrow> img mod n = 0"
proof -
  have "img * 1 \<le> img * other" "1 * other \<le> img * other" using assms(1-3) by (intro mult_le_mono; simp)+
  then have img: "0 < img" "img < 2 ^ 24" "other < 2 ^ 24" "n < 2 ^ 24" using assms(1,2,4) by linarith+
  have on: "other * n < 2 ^ 24" using le_less_trans [OF mult_le_mono1 [OF assms(2), of other] assms(4)] by (simp only: mult.commute)
  obtain q where q: "axis_reduce up False n img = Inr (q, img mod n = 0)" "about q img n" "1 \<le> q"
    using axis_reduce_down [OF assms(1,2) img(2), of up False] by (auto simp: j2k_factor_def)
  have ql: "q \<le> img" by (rule about_le [OF q(2)]) (use assms(1) in simp_all)
  show "exact \<longleftrightarrow> img mod n = 0"
    using assms(5) q(1) by (auto simp: scale_side_def split: sum.splits if_splits)
  show "about k (other * n) img"
  proof (cases "img mod n = 0")
    case True
    then obtain d where d: "img = d * n" by (metis mod_0_imp_dvd dvdE mult.commute)
    with q(2) assms(1) have "q = d" using about_exact by blast
    obtain j where j: "epsilon_ceil_division (of_nat other) (fnat q) = Inr j" "about j other q"
      by (rule ceil_division [of q other]) (use q(3) ql img in auto)
    have "j \<le> other" by (rule about_le [OF j(2)]) (use q(3) in simp_all)
    then have "k = j" using assms(5) q(1) True j(1) img by (simp add: scale_side_def fnat_small u32_def)
    with about_scale [OF j(2) assms(1)] d \<open>q = d\<close> show ?thesis by simp
  next
    case False
    obtain j where j: "epsilon_ceil_division (of_nat (other * n)) (fnat img) = Inr j" "about j (other * n) img"
      by (rule ceil_division [of img "other * n"]) (use img on in auto)
    have "j \<le> other" by (rule about_le [OF j(2)]) (use img(1) assms(2) in simp_all)
    then have "k = j" using assms(5) q(1) False j(1) img on fnat_mul [OF on img(3,4)] by (simp add: scale_side_def u32_def)
    with j(2) show ?thesis by simp
  qed
qed

section \<open>Sizes\<close>

lemma get_size_cases:
  assumes "get_size img_w img_h max_p j2k s = (Inr (t, w, h, red, ro), s')"
  shows "scaled_size s j2k (if max_p = 0 then 2 ^ 31 - 1 else max_p) img_w img_h = Inr (w, h, red, ro)"
    and "check_limits s w h = None" and "t = size_type s"
    and "s' = s\<lparr>s_w := w, s_h := h, redonly := ro, s_canonical_ok := True\<rparr>"
  using assms by (auto simp: get_size_def split: sum.splits option.splits)

lemma demo_factor: "epsilon_floor_division (fnat 100) (fnat 50) = Inr 2"
proof -
  obtain k where k: "epsilon_floor_division (of_nat 100) (fnat 50) = Inr k" "about k 100 50"
    by (rule floor_division [of 50 100]) simp_all
  then have "k = 2" using about_exact [of k 2 50] by simp
  with k(1) fnat_small [of 100] show ?thesis by simp
qed

lemma demo_height: "epsilon_ceil_division (fnat 80) (fnat 2) = Inr 40"
proof -
  obtain k where k: "epsilon_ceil_division (of_nat 80) (fnat 2) = Inr k" "about k 80 2"
    by (rule ceil_division [of 2 80]) simp_all
  then have "k = 40" using about_exact [of k 40 2] by simp
  with k(1) fnat_small [of 80] show ?thesis by simp
qed

definition demo_size :: "size_type \<Rightarrow> nat \<Rightarrow> nat \<Rightarrow> iiif_size" where
  "demo_size t n k = (blank_size False 0 0 0)\<lparr>size_type := t, s_nx := n, s_ny := k\<rparr>"

lemma demo_get: "get_size 100 80 0 False (demo_size PIXELS_X 50 0) =
   (Inr (PIXELS_X, 50, 40, 2, True), (demo_size PIXELS_X 50 0)\<lparr>s_w := 50, s_h := 40, redonly := True, s_canonical_ok := True\<rparr>)"
  using demo_factor demo_height
  by (simp add: get_size_def scaled_size_def scale_side_def axis_reduce_def demo_size_def blank_size_def j2k_factor_def u32_def
      check_limits_def size_limits_def limitdim_def)

text \<open>
  A request for a width alone keeps the aspect ratio: the width is the one asked for, and the
  height differs from the exact proportional height by less than one pixel; the reader may do all of
  the scaling exactly if the width divides the width of the image. The same holds for a height alone.
  (Not for JPEG 2000, see below; images of less than 2^24 pixels, where single precision
  is exact enough.)
\<close>

theorem size_keeps_aspect:
  assumes "get_size img_w img_h max_p False s = (Inr (t, w, h, red, ro), s')"
    and "0 < img_w" and "0 < img_h" and "img_w * img_h < 2 ^ 24"
  shows "(t = PIXELS_X \<and> 0 < s_nx s \<and> s_nx s \<le> img_w \<longrightarrow>
      w = s_nx s \<and> \<bar>int h * int img_w - int img_h * int w\<bar> < int img_w \<and> ro = (img_w mod w = 0)) \<and>
    (t = PIXELS_Y \<and> 0 < s_ny s \<and> s_ny s \<le> img_h \<longrightarrow>
      h = s_ny s \<and> \<bar>int w * int img_h - int img_w * int h\<bar> < int img_h \<and> ro = (img_h mod h = 0))"
proof (intro conjI impI; elim conjE)
  note g = get_size_cases [OF assms(1)]
  assume t: "t = PIXELS_X" "0 < s_nx s" "s_nx s \<le> img_w"
  then obtain e where e: "scale_side (upscaling s) False (s_nx s) img_w img_h = Inr (h, red, e)" "w = s_nx s" "ro = e"
    using g by (auto simp: scaled_size_def split: sum.splits)
  have a: "about h (img_h * w) img_w" "ro = (img_w mod w = 0)"
    using scale_side_down [OF t(2,3) assms(3,4) e(1)] e(2,3) by simp_all
  then have "int (h * img_w) < int (img_h * w + img_w)" "int (img_h * w) < int (h * img_w + img_w)"
    by (simp_all only: about_def of_nat_less_iff)
  then show "w = s_nx s" "\<bar>int h * int img_w - int img_h * int w\<bar> < int img_w" "ro = (img_w mod w = 0)"
    using a e by simp_all
next
  note g = get_size_cases [OF assms(1)]
  assume t: "t = PIXELS_Y" "0 < s_ny s" "s_ny s \<le> img_h"
  then obtain e where e: "scale_side (upscaling s) False (s_ny s) img_h img_w = Inr (w, red, e)" "h = s_ny s" "ro = e"
    using g by (auto simp: scaled_size_def split: sum.splits)
  have m: "img_h * img_w < 2 ^ 24" using assms(4) by (simp add: mult.commute)
  have a: "about w (img_w * h) img_h" "ro = (img_h mod h = 0)"
    using scale_side_down [OF t(2,3) assms(2) m e(1)] e(2,3) by simp_all
  then have "int (w * img_h) < int (img_w * h + img_h)" "int (img_w * h) < int (w * img_h + img_h)"
    by (simp_all only: about_def of_nat_less_iff)
  then show "h = s_ny s" "\<bar>int w * int img_h - int img_w * int h\<bar> < int img_h" "ro = (img_h mod h = 0)"
    using a e by simp_all
qed

lemma size_keeps_aspect_witness: "\<bar>int 40 * int 100 - int 80 * int 50\<bar> < int 100 \<and> True = (100 mod 50 = (0 :: nat))"
  using size_keeps_aspect [OF demo_get] by (simp add: demo_size_def)

lemma reduce_no_upscaling:
  assumes "get_size img_w img_h max_p False s = (Inr (t, w, h, red, ro), s')" and "size_type s = REDUCE"
    and "0 < img_w" and "0 < img_h" and "img_w < 2 ^ 24" and "img_h < 2 ^ 24" and "s_reduce s < 2 ^ 24"
  shows "w \<le> img_w \<and> h \<le> img_h"
proof (cases "s_reduce s \<le> 1")
  note g = get_size_cases [OF assms(1)]
  case True
  with assms(2) g(1) show ?thesis by (simp add: scaled_size_def scale_reduce_def)
next
  note g = get_size_cases [OF assms(1)]
  case False
  then have r: "0 < s_reduce s" by simp
  obtain j where j: "epsilon_ceil_division (of_nat img_w) (fnat (s_reduce s)) = Inr j" "about j img_w (s_reduce s)"
    by (rule ceil_division [OF r assms(5,7)])
  obtain i where i: "epsilon_ceil_division (of_nat img_h) (fnat (s_reduce s)) = Inr i" "about i img_h (s_reduce s)"
    by (rule ceil_division [OF r assms(6,7)])
  have "j \<le> img_w" "i \<le> img_h"
    by (rule about_le [OF j(2)], use assms(3) r in simp_all) (rule about_le [OF i(2)], use assms(4) r in simp_all)
  moreover have "w = u32 j \<and> h = u32 i"
    using assms(2) g(1) False j(1) i(1) assms(5,6)
    by (auto simp: scaled_size_def scale_reduce_def fnat_small Let_def split: if_splits)
  ultimately show ?thesis using assms(5,6) by (simp add: u32_def)
qed

lemma percent_side_le:
  assumes "epsilon_ceil_division (f32_mul (fnat n) p) 100 = Inr k" and "0 \<le> p" and "p \<le> 100" and "100 * n < 2 ^ 24"
  shows "k \<le> n"
proof -
  let ?p = "of_nat n * p"
  have p: "0 \<le> ?p" "?p \<le> of_nat n * 100" using assms(2,3) by (auto intro: mult_left_mono)
  moreover have "(of_nat n :: rat) * 100 < 2 ^ 24"
    using assms(4) by (metis mult.commute of_nat_less_iff of_nat_mult of_nat_numeral of_nat_power)
  ultimately have q: "0 \<le> f32 ?p" "f32 ?p \<le> of_nat n * 100"
    using f32_ge_int [of ?p 0] f32_le_int [of ?p "int n * 100"] by auto
  have r: "0 \<le> f32 ?p / 100" "f32 ?p / 100 \<le> of_nat n" "f32 ?p / 100 < 2 ^ 24"
    using q \<open>of_nat n * 100 < 2 ^ 24\<close> by simp_all
  have "k = epsilon_ceil (f32 (f32 ?p / 100))"
    using assms(1,4) by (simp add: epsilon_ceil_division_def f32_div_def f32_mul_def fnat_small)
  then have "int k \<le> \<lceil>f32 ?p / 100\<rceil>" using epsilon_ceil_bounds(2) [OF r(1,3)] by simp
  also have "\<dots> \<le> int n" using r(2) by (simp add: ceiling_le_iff)
  finally show ?thesis by simp
qed

lemma percent_no_upscaling:
  assumes "get_size img_w img_h max_p False s = (Inr (t, w, h, red, ro), s')" and "size_type s = SZ_PERCENTS" and "\<not> upscaling s"
    and "100 * img_w < 2 ^ 24" and "100 * img_h < 2 ^ 24" and "0 \<le> percent s"
  shows "w \<le> img_w \<and> h \<le> img_h"
proof -
  note g = get_size_cases [OF assms(1)]
  have p: "percent s \<le> 100" using assms(2,3) g(1) by (auto simp: scaled_size_def scale_percent_def split: if_splits)
  from this assms(2) g(1) obtain wl hl
    where e: "epsilon_ceil_division (f32_mul (fnat img_w) (percent s)) 100 = Inr wl" "w = u32 wl"
      "epsilon_ceil_division (f32_mul (fnat img_h) (percent s)) 100 = Inr hl" "h = u32 hl"
    by (auto simp: scaled_size_def scale_percent_def Let_def split: sum.splits)
  have "wl \<le> img_w" "hl \<le> img_h"
    by (rule percent_side_le [OF e(1) assms(6) p assms(4)]) (rule percent_side_le [OF e(3) assms(6) p assms(5)])
  then show ?thesis using e(2,4) assms(4,5) by (simp add: u32_def)
qed

text \<open>
  C31: Without the upscaling mark no size that is accepted exceeds the image, whatever kind of size
  was asked for (images up to 167772 pixels wide and high, with less than 2^24 pixels, not JPEG 2000).
\<close>

theorem no_upscaling:
  assumes "get_size img_w img_h max_p False s = (Inr (t, w, h, red, ro), s')" and "\<not> upscaling s"
    and "0 < img_w" and "0 < img_h" and "img_w * img_h < 2 ^ 24" and "100 * img_w < 2 ^ 24" and "100 * img_h < 2 ^ 24"
    and "0 \<le> percent s" and "t = PIXELS_X \<longrightarrow> 0 < s_nx s" and "t = PIXELS_Y \<longrightarrow> 0 < s_ny s" and "s_reduce s < 2 ^ 24"
  shows "w \<le> img_w \<and> h \<le> img_h"
proof (cases "size_type s")
  note g = get_size_cases [OF assms(1)]
  case PIXELS_XY
  with g(1) assms(2) show ?thesis
    by (auto simp: scaled_size_def scale_xy_def axis_reduce_def split: sum.splits if_splits)
next
  note g = get_size_cases [OF assms(1)]
  case PIXELS_X
  then obtain e where e: "scale_side (upscaling s) False (s_nx s) img_w img_h = Inr (h, red, e)" "w = s_nx s" "0 < s_nx s"
    using g assms(9) by (auto simp: scaled_size_def split: sum.splits)
  have n: "s_nx s \<le> img_w" using e(1) assms(2) by (auto simp: scale_side_def axis_reduce_def split: if_splits)
  have "h \<le> img_h"
    by (rule about_le [OF scale_side_down(1) [OF e(3) n assms(4,5) e(1)]]) (use n assms(3) in simp_all)
  with e n show ?thesis by simp
next
  note g = get_size_cases [OF assms(1)]
  case PIXELS_Y
  then obtain e where e: "scale_side (upscaling s) False (s_ny s) img_h img_w = Inr (w, red, e)" "h = s_ny s" "0 < s_ny s"
    using g assms(10) by (auto simp: scaled_size_def split: sum.splits)
  have n: "s_ny s \<le> img_h" using e(1) assms(2) by (auto simp: scale_side_def axis_reduce_def split: if_splits)
  have m: "img_h * img_w < 2 ^ 24" using assms(5) by (simp add: mult.commute)
  have "w \<le> img_w"
    by (rule about_le [OF scale_side_down(1) [OF e(3) n assms(3) m e(1)]]) (use n assms(4) in simp_all)
  with e n show ?thesis by simp
next
  note g = get_size_cases [OF assms(1)]
  case MAXDIM
  with g(1) assms(2) show ?thesis
    by (auto simp: scaled_size_def scale_box_def Let_def split: sum.splits if_splits prod.splits)
next
  note g = get_size_cases [OF assms(1)]
  case SZ_FULL
  with g(1) assms(2) show ?thesis by (simp add: scaled_size_def scale_full_def Let_def)
next
  note g = get_size_cases [OF assms(1)]
  case SZ_UNDEFINED
  with g(1) show ?thesis by (simp add: scaled_size_def)
next
  case REDUCE
  then show ?thesis using reduce_no_upscaling [OF assms(1)] assms(3,4,6,7,11) by simp
next
  case SZ_PERCENTS
  then show ?thesis using percent_no_upscaling [OF assms(1) _ assms(2,6,7,8)] by simp
qed

lemma no_upscaling_witness: "(50 :: nat) \<le> 100 \<and> (40 :: nat) \<le> 80"
  using no_upscaling [OF demo_get] by (simp add: demo_size_def blank_size_def)

section \<open>Decimal texts\<close>

lemma dec_all_digits: "all_digits (dec_string n)"
  by (simp add: all_digits_def dec_string_def list_all_iff) (use dec_char in \<open>auto simp: dec_string_def\<close>)

lemma dec_length: "n < 10 ^ k \<Longrightarrow> 0 < k \<Longrightarrow> length (dec_string n) \<le> k"
proof (induction k arbitrary: n)
  case (Suc k)
  show ?case
  proof (cases "n < 10")
    case True
    then show ?thesis by (simp add: dec_string_def base_string.simps [of 10 n])
  next
    case False
    then have "0 < k" using Suc.prems(1) by (cases k) auto
    moreover have "n div 10 < 10 ^ k" using Suc.prems(1) by (simp add: div_less_iff_less_mult mult.commute)
    ultimately show ?thesis using Suc.IH [of "n div 10"] False by (simp add: dec_string_def base_string.simps [of 10 n])
  qed
qed simp

lemma parse_dim_dec: "n < 2 ^ 32 \<Longrightarrow> parse_dim (dec_string n) = Inr n"
  by (simp add: parse_dim_def parse_int_def dec_all_digits scan_dec u32_def)

lemma has_sub_set: "has_sub p s \<Longrightarrow> set p \<subseteq> set s"
  by (induction s) (auto dest: in_set_takeD split: if_splits, metis in_set_takeD set_ConsD)

lemma hd_dec: "hd (dec_string n @ s) \<noteq> c" if "\<not> isdigit c"
proof
  assume "hd (dec_string n @ s) = c"
  then have "c \<in> set (dec_string n)" by (metis dec_nonempty hd_append2 hd_in_set)
  with dec_char that show False by blast
qed

lemma marks_not_digit: "\<not> isdigit (CHR ''^'')" "\<not> isdigit (CHR ''!'')" "\<not> isdigit (CHR '','')" "\<not> isdigit (CHR ''p'')"
  "\<not> isdigit (CHR ''r'')" "\<not> isdigit (CHR ''m'')"
  by (simp_all add: isdigit_def chr_code_def)

lemma parse_wxh:
  assumes "0 < w" "w < 2 ^ 32" "0 < h" "h < 2 ^ 32"
  shows "parse_size ((if up then ''^'' else []) @ dec_string w @ '','' @ dec_string h) mw mh ma =
    Inr ((blank_size up mw mh ma)\<lparr>size_type := PIXELS_XY, s_nx := w, s_ny := h\<rparr>)"
proof -
  let ?d = "dec_string w @ '','' @ dec_string h"
  have chars: "set ?d \<subseteq> {c. isdigit c} \<union> {CHR '',''}" using dec_char by auto
  have p: "CHR ''p'' \<notin> set ?d" "CHR ''r'' \<notin> set ?d" "CHR ''m'' \<notin> set ?d"
    using marks_not_digit not_digit_dec by auto
  have kw: "\<not> has_sub ''pct'' ?d" "\<not> has_sub ''red'' ?d" "?d \<noteq> ''max''" "?d \<noteq> []"
    using has_sub_set [of "''pct''" ?d] has_sub_set [of "''red''" ?d] p(1,2) p(3) [THEN contrapos_nn, of "?d = ''max''"] by auto
  have s1: "strip (CHR ''^'') ((if up then ''^'' else []) @ ?d) = (up, ?d)"
    using hd_dec [OF marks_not_digit(1), of w] by (simp add: strip_def)
  have s2: "strip (CHR ''!'') ?d = (False, ?d)"
    using hd_dec [OF marks_not_digit(2), of w] by (simp add: strip_def)
  have f: "find_char (CHR '','') ?d = Some (length (dec_string w))"
    using find_char_append [OF not_digit_dec [OF marks_not_digit(3)], of w "dec_string h"] by simp
  have "parse_dims False ?d s = Inr (s\<lparr>size_type := PIXELS_XY, s_nx := w, s_ny := h\<rparr>)" for s
    using f assms by (simp add: parse_dims_def Let_def parse_dim_dec)
  then show ?thesis
    unfolding parse_size_def s1 using s2 kw by (simp add: parse_keyword_def)
qed

lemma canonical_size_again:
  assumes "get_size img_w img_h max_p False s = (Inr (t, w, h, red, ro), s')" and "t \<noteq> SZ_FULL" and "t \<noteq> SZ_UNDEFINED"
    and "0 < w" "w < 2 ^ 32" "0 < h" "h < 2 ^ 32" "img_w < 2 ^ 24" "img_h < 2 ^ 24"
    and "upscaling s \<or> (w \<le> img_w \<and> h \<le> img_h)" and "22 < buflen"
  shows "\<exists>txt s2 red2 ro2 s3. size_canonical buflen s' = Inr txt \<and> size_canonical buflen s3 = Inr txt \<and>
     parse_size txt (iiif_max_width s) (iiif_max_height s) (iiif_max_area s) = Inr s2 \<and>
     get_size img_w img_h 0 False s2 = (Inr (PIXELS_XY, w, h, red2, ro2), s3)"
proof -
  note g = get_size_cases [OF assms(1)]
  let ?txt = "(if upscaling s then ''^'' else []) @ dec_string w @ '','' @ dec_string h"
  let ?s2 = "(blank_size (upscaling s) (iiif_max_width s) (iiif_max_height s) (iiif_max_area s))
    \<lparr>size_type := PIXELS_XY, s_nx := w, s_ny := h\<rparr>"
  have len: "length (dec_string n) \<le> 10" if "n < 2 ^ 32" for n by (rule dec_length) (use that in simp_all)
  have "size_canonical buflen x = Inr ?txt" if "s_canonical_ok x" "upscaling x = upscaling s" "s_w x = w" "s_h x = h"
    "size_type x \<noteq> SZ_FULL" "size_type x \<noteq> SZ_UNDEFINED" for x
    using that assms(11) len [OF assms(5)] len [OF assms(7)] by (auto simp: size_canonical_def Let_def)
  note c = this [of s'] this
  have ax: "\<exists>r e. axis_reduce (upscaling s) False n img = Inr (r, e)"
    if "0 < n" "img < 2 ^ 24" "upscaling s \<or> n \<le> img" for n img
  proof (cases "n \<le> img")
    case True
    then show ?thesis using axis_reduce_down [OF that(1) True that(2), of "upscaling s" False] by metis
  next
    case False
    with that show ?thesis by (intro exI [of _ 1] exI [of _ False]) (simp add: axis_reduce_def)
  qed
  obtain r1 e1 r2 e2 where "axis_reduce (upscaling s) False w img_w = Inr (r1, e1)"
    "axis_reduce (upscaling s) False h img_h = Inr (r2, e2)"
    using ax [OF assms(4,8)] ax [OF assms(6,9)] assms(10) by blast
  then obtain red2 ro2 where "scaled_size ?s2 False (2 ^ 31 - 1) img_w img_h = Inr (w, h, red2, ro2)"
    by (simp add: scaled_size_def scale_xy_def blank_size_def)
  moreover have "check_limits ?s2 w h = None"
  proof -
    have "check_limits ?s2 w h = check_limits s w h" by (simp add: check_limits_def size_limits_def blank_size_def)
    with g(2) show ?thesis by simp
  qed
  ultimately have g2: "get_size img_w img_h 0 False ?s2 = (Inr (PIXELS_XY, w, h, red2, ro2),
      ?s2\<lparr>s_w := w, s_h := h, redonly := ro2, s_canonical_ok := True\<rparr>)" (is "_ = (_, ?s3)")
    by (simp add: get_size_def)
  have "size_canonical buflen s' = Inr ?txt" by (rule c(1)) (use g(3,4) assms(2,3) in simp_all)
  moreover have "size_canonical buflen ?s3 = Inr ?txt" by (rule c(2)) (simp_all add: blank_size_def)
  ultimately show ?thesis using g2 parse_wxh [OF assms(4-7)] by blast
qed


text \<open>
  The canonical size names the result: when a size was accepted and is not the full size, its
  canonical text is read back as the width and height of the result, and asking for that size of the
  same image gives this width and height again.
\<close>

theorem canonical_size_stable:
  assumes "get_size img_w img_h max_p False s = (Inr (t, w, h, red, ro), s')" and "t \<noteq> SZ_FULL" and "t \<noteq> SZ_UNDEFINED"
    and "0 < w" "w < 2 ^ 32" "0 < h" "h < 2 ^ 32" "img_w < 2 ^ 24" "img_h < 2 ^ 24"
    and "upscaling s \<or> (w \<le> img_w \<and> h \<le> img_h)" and "22 < buflen"
  shows "\<exists>txt s2 red2 ro2 s3. size_canonical buflen s' = Inr txt \<and>
     parse_size txt (iiif_max_width s) (iiif_max_height s) (iiif_max_area s) = Inr s2 \<and>
     get_size img_w img_h 0 False s2 = (Inr (PIXELS_XY, w, h, red2, ro2), s3)"
  using canonical_size_again [OF assms] by blast

lemma canonical_size_stable_witness:
  "\<exists>txt s2 red2 ro2 s3. size_canonical 127 ((demo_size PIXELS_X 50 0)\<lparr>s_w := 50, s_h := 40, redonly := True, s_canonical_ok := True\<rparr>) = Inr txt \<and>
     parse_size txt 0 0 0 = Inr s2 \<and> get_size 100 80 0 False s2 = (Inr (PIXELS_XY, 50, 40, red2, ro2), s3)"
  using canonical_size_stable [OF demo_get, of 127] by (simp add: demo_size_def blank_size_def)

text \<open>
  What is accepted fits the limits of the server. Without a maximal width neither side exceeds
  32000 pixels, and the area, whose product wraps at 32 bits, is really within the maximal area; with
  a maximal width and height both hold; but with a maximal width alone every size is refused, unless
  it has no height.
\<close>

theorem accepted_size_limits:
  assumes "get_size img_w img_h max_p j2k s = (Inr (t, w, h, red, ro), s')"
  shows "(iiif_max_width s = 0 \<longrightarrow> w \<le> 32000 \<and> h \<le> 32000 \<and> (0 < iiif_max_area s \<longrightarrow> w * h \<le> iiif_max_area s)) \<and>
    (0 < iiif_max_width s \<longrightarrow> w \<le> iiif_max_width s \<and> h \<le> iiif_max_height s) \<and>
    (0 < iiif_max_width s \<and> iiif_max_height s = 0 \<longrightarrow> h = 0)"
proof -
  note g = get_size_cases(2) [OF assms]
  have "w * h < 2 ^ 32" if "w \<le> 32000" "h \<le> 32000"
    using mult_le_mono [OF that] by simp
  with g show ?thesis
    by (auto simp: check_limits_def size_limits_def limitdim_def u32_def split: if_splits)
qed

lemma accepted_size_limits_witness: "(50 :: nat) \<le> 32000 \<and> (40 :: nat) \<le> 32000"
  using accepted_size_limits [OF demo_get] by (simp add: demo_size_def blank_size_def)

section \<open>JPEG 2000\<close>

lemma j2k_loop_power: "j2k_loop (2 ^ i) (2 ^ (i + 1 + j)) = 2 ^ (i + 1 + j)"
proof (induction j arbitrary: i)
  case 0
  show ?case by (simp add: j2k_loop.simps [of "2 ^ i"])
next
  case (Suc j)
  have "(2 :: nat) ^ i * 2 < 2 ^ (i + 1 + Suc j)" 
  proof -
    have "(2 :: nat) ^ (i + 1) < 2 ^ (i + 1 + Suc j)" by (rule power_strict_increasing) simp_all
    then show ?thesis by (simp only: power_add power_one_right)
  qed
  then show ?case
    using Suc [of "i + 1"] by (simp add: j2k_loop.simps [of "2 ^ i"] Let_def mult.commute)
qed

lemma j2k_factor_power: "j2k_factor True (2 ^ (k + 1)) = 2 ^ k"
  using j2k_loop_power [of 0 k] by (simp add: j2k_factor_def)

text \<open>
  For JPEG 2000 the factor of an exact power-of-two reduction is halved, and a request for a
  width alone is answered with that factor: an image that is 2^(k+1) times as wide and high as asked for comes back
  with the width asked for and twice the right height.
\<close>

theorem j2k_size_distorted:
  assumes "0 < n" "0 < m" "2 ^ (k + 1) * n < 2 ^ 24" "2 ^ (k + 1) * m < 2 ^ 24" "n \<le> 32000" "2 * m \<le> 32000"
    and "size_type s = PIXELS_X" "s_nx s = n" "iiif_max_width s = 0" "iiif_max_area s = 0"
  shows "fst (get_size (2 ^ (k + 1) * n) (2 ^ (k + 1) * m) max_p True s) = Inr (PIXELS_X, n, 2 * m, 2 ^ k, True)"
proof -
  let ?w = "2 ^ (k + 1) * n" and ?h = "2 ^ (k + 1) * m"
  have "1 * n \<le> ?w" by (intro mult_le_mono1) simp
  then obtain q where q: "axis_reduce (upscaling s) True n ?w = Inr (j2k_factor True q, ?w mod n = 0)" "about q ?w n"
    using axis_reduce_down [OF assms(1) _ assms(3), of "upscaling s" True] by auto
  have "q = 2 ^ (k + 1)" by (rule about_exact [OF q(2) assms(1)])
  then have ax: "axis_reduce (upscaling s) True n ?w = Inr (2 ^ k, True)"
    using q(1) by (simp only: j2k_factor_power) simp
  have "(2 :: nat) ^ k * 1 \<le> 2 ^ (k + 1) * n" using assms(1) by (intro mult_le_mono) simp_all
  with assms(3) have k: "(2 :: nat) ^ k < 2 ^ 24" by linarith
  obtain j where j: "epsilon_ceil_division (of_nat ?h) (fnat (2 ^ k)) = Inr j" "about j ?h (2 ^ k)"
    by (rule ceil_division [OF _ assms(4) k]) simp_all
  have e: "?h = (2 * m) * 2 ^ k" by simp
  have "j = 2 * m" by (rule about_exact [OF j(2) [unfolded e]]) simp
  then have "scale_side (upscaling s) True n ?w ?h = Inr (2 * m, 2 ^ k, True)"
    using j(1) ax assms(6) fnat_small [OF assms(4)] by (simp add: scale_side_def u32_def)
  then show ?thesis
    using assms(5-10) by (simp add: get_size_def scaled_size_def check_limits_def size_limits_def limitdim_def)
qed

lemma j2k_size_distorted_witness:
  "fst (get_size 100 80 0 True (demo_size PIXELS_X 25 0)) = Inr (PIXELS_X, 25, 40, 2, True)"
  using j2k_size_distorted [of 25 20 1 "demo_size PIXELS_X 25 0" 0] by (simp add: demo_size_def blank_size_def)

end
