(* ===== verification/RegionProps.thy ===== *)
theory RegionProps
  imports SizeProps
begin

text \<open>
  Properties of the region of an IIIF request (\<open>iiifparser/IIIFRegion.cpp\<close>): reading decimal numbers,
  crops inside the image, the canonical text, and the cases in which the unsigned arithmetic or a
  division goes wrong (there also for sizes).
\<close>

section \<open>Reading a region\<close>

lemma decimal_dec: "decimal (dec_string n) [] = of_nat n"
  by (simp add: decimal_def scan_dec)

lemma f32_read_small:
  assumes "n < 2 ^ 24" shows "f32_read (of_nat n) = of_nat n"
proof -
  have "(of_nat n :: rat) < 2 ^ 24" using assms by (metis of_nat_less_iff of_nat_numeral of_nat_power)
  then have "\<not> (of_nat n :: rat) \<ge> 2 ^ 128" by simp
  then show ?thesis using f32_of_small_nat [OF assms] by (simp add: f32_read_def)
qed

lemma digit_not: "isdigit c \<Longrightarrow> \<not> isspace c \<and> c \<noteq> CHR ''-'' \<and> c \<noteq> CHR ''+''"
  by (auto simp: isdigit_def isspace_def chr_code_def)

lemma scan_float_dec:
  assumes "n < 2 ^ 24" and "s = [] \<or> hd s = CHR '',''"
  shows "scan_float (dec_string n @ s) = Some (of_nat n, s)"
proof -
  obtain c cs where d: "dec_string n = c # cs" by (meson dec_nonempty neq_Nil_conv)
  then have c: "isdigit c" using dec_char [of c n] by simp
  have s0: "drop_sign (dropWhile isspace (dec_string n @ s)) = (False, dec_string n @ s)"
    using digit_not [OF c] d by (simp add: drop_sign_def)
  have stop: "takeWhile isdigit s = []" "dropWhile isdigit s = s"
    using assms(2) marks_not_digit(3) by (cases s; simp)+
  have all: "\<forall>x \<in> set (dec_string n). isdigit x" using dec_char by blast
  have t: "takeWhile isdigit (dec_string n @ s) = dec_string n" "dropWhile isdigit (dec_string n @ s) = s"
    using all stop by (simp_all add: takeWhile_append2 dropWhile_append2)
  have x: "\<not> (s \<noteq> [] \<and> hd s = CHR ''.'')" "scan_exponent s = Some (0, s)"
    using assms(2) by (auto simp: scan_exponent_def)
  have dot: "(s \<noteq> [] \<and> hd s = CHR ''.'') = False" using x(1) by simp
  show ?thesis
    unfolding scan_float_def s0 Let_def prod.case t dot if_False x(2)
    by (simp add: scale10_def decimal_dec f32_read_small [OF assms(1)] x(2))
qed

definition region_text :: "nat \<Rightarrow> nat \<Rightarrow> nat \<Rightarrow> nat \<Rightarrow> string" where
  "region_text a b c d = dec_string a @ '','' @ dec_string b @ '','' @ dec_string c @ '','' @ dec_string d"

lemma scan_four_dec:
  assumes "a < 2 ^ 24" "b < 2 ^ 24" "c < 2 ^ 24" "d < 2 ^ 24"
  shows "scan_four (region_text a b c d) = Some (of_nat a, of_nat b, of_nat c, of_nat d)"
proof -
  have four: "(4 :: nat) = Suc (Suc (Suc (Suc 0)))" by simp
  note f = scan_float_dec [OF assms(1), of "CHR '','' # s" for s] scan_float_dec [OF assms(2), of "CHR '','' # s" for s]
    scan_float_dec [OF assms(3), of "CHR '','' # s" for s] scan_float_dec [OF assms(4), of "[]"]
  show ?thesis
    unfolding scan_four_def region_text_def four using f by (simp add: skip_comma_def)
qed

lemma parse_region_dec:
  assumes "a < 2 ^ 24" "b < 2 ^ 24" "c < 2 ^ 24" "d < 2 ^ 24"
  shows "parse_region (region_text a b c d) = Inr (mk_region COORDS (of_nat a, of_nat b, of_nat c, of_nat d) False)"
proof -
  let ?t = "region_text a b c d"
  have chars: "x \<in> set ?t \<Longrightarrow> isdigit x \<or> x = CHR '',''" for x using dec_char by (auto simp: region_text_def)
  have p: "CHR ''p'' \<notin> set ?t" "CHR ''f'' \<notin> set ?t" "CHR ''s'' \<notin> set ?t"
    using chars [of "CHR ''p''"] chars [of "CHR ''f''"] chars [of "CHR ''s''"] by (auto simp: isdigit_def chr_code_def)
  have "\<not> has_sub ''pct:'' ?t" using has_sub_set [of "''pct:''" ?t] p(1) by auto
  moreover have "?t \<noteq> ''full''" using p(2) by (rule contrapos_nn) simp
  moreover have "?t \<noteq> ''square''" using p(3) by (rule contrapos_nn) simp
  moreover have "?t \<noteq> []" by (simp add: region_text_def)
  ultimately show ?thesis using scan_four_dec [OF assms] by (simp add: parse_region_def)
qed

lemma lround_nat: "lround (of_nat n) = int n"
  by (simp add: lround_def floor_eq_iff)

lemma raw_coords_dec:
  assumes "a < 2 ^ 24" "b < 2 ^ 24" "c < 2 ^ 24" "d < 2 ^ 24"
  shows "raw_coords (mk_region COORDS (of_nat a, of_nat b, of_nat c, of_nat d) ok) nx ny = Inr (int a, int b, c, d)"
proof -
  have fits: "fits_long (of_nat n)" if "n < 2 ^ 24" for n
  proof -
    have "(of_nat n :: rat) < 2 ^ 24" using that by (metis of_nat_less_iff of_nat_numeral of_nat_power)
    then show ?thesis by (simp add: fits_long_def)
  qed
  have i: "to_int32 (int n) = int n" "to_uint32 (int n) = n" if "n < 2 ^ 24" for n
    using that by (simp_all add: to_int32_def to_uint32_def)
  have q: "f32_div (of_nat n) 1 = of_nat n" if "n < 2 ^ 24" for n
    using f32_of_small_nat [OF that] by (simp add: f32_div_def)
  show ?thesis
    using assms [THEN q] assms [THEN fits] assms [THEN i(1)] assms [THEN i(2)]
    by (simp add: raw_coords_def mk_region_def round_four_def lround_nat)
qed

section \<open>Cropping\<close>

lemma to_uint32_small: "0 \<le> k \<Longrightarrow> k < 2 ^ 32 \<Longrightarrow> to_uint32 k = nat k"
  by (simp add: to_uint32_def)

lemma clip_high_fits:
  assumes "0 \<le> x" "x < int n" "n < 2 ^ 32" "x + int w < 2 ^ 32"
  shows "clip_high n x w = (if w = 0 then n - nat x else min w (n - nat x))"
proof -
  have "to_uint32 (int n - x) = n - nat x" using assms by (subst to_uint32_small) auto
  moreover have "to_uint32 (x + int w) = nat x + w" using assms by (subst to_uint32_small) auto
  ultimately show ?thesis using assms by (auto simp: clip_high_def)
qed

lemma crop_bounds:
  assumes "crop_coords nx ny r = (Inr (t, x, y, w, h), r')" and "raw_coords r nx ny = Inr (x0, y0, w0, h0)"
    and "0 < nx" "nx < 2 ^ 32" "0 < ny" "ny < 2 ^ 32" "w0 < 2 ^ 32" "h0 < 2 ^ 32"
    and "x0 + int w0 < 2 ^ 32" "y0 + int h0 < 2 ^ 32"
  shows "0 \<le> x \<and> 0 < w \<and> x + int w \<le> int nx \<and> 0 \<le> y \<and> 0 < h \<and> y + int h \<le> int ny"
proof -
  have axis: "0 \<le> z \<and> 0 < k \<and> z + int k \<le> int n"
    if "clip_low n z0 k0 = Some (z, k1)" "k = clip_high n z k1" "0 < n" "n < 2 ^ 32" "z0 + int k0 < 2 ^ 32" for n z0 k0 z k k1
  proof -
    have z: "0 \<le> z" "z < int n" "z + int k1 < 2 ^ 32"
      using that(1,3,5) by (auto simp: clip_low_def to_uint32_def split: if_splits)
    then show ?thesis using clip_high_fits [OF z(1,2) that(4) z(3)] that(2) by auto
  qed
  from assms(1,2) obtain k j where
    "clip_low nx x0 w0 = Some (x, k)" "w = clip_high nx x k" "clip_low ny y0 h0 = Some (y, j)" "h = clip_high ny y j"
    by (auto simp: crop_coords_def Let_def split: option.splits)
  then show ?thesis using axis assms(3-6,9,10) by meson
qed


lemma demo_crop: "crop_coords 1000 800 (mk_region COORDS (of_nat 10, of_nat 20, of_nat 2000, of_nat 0) False) =
   (Inr (COORDS, 10, 20, 990, 780), (mk_region COORDS (10, 20, 2000, 0) False)
     \<lparr>r_x := 10, r_y := 20, r_w := 990, r_h := 780, r_canonical_ok := True\<rparr>)"
  unfolding crop_coords_def raw_coords_dec [of 10 20 2000 0, simplified]
  by (simp add: mk_region_def clip_low_def clip_high_def to_uint32_def Let_def raw_coords_dec [of 10 20 2000 0, simplified mk_region_def, simplified])



lemma crop_dec:
  assumes "a < nx" "b < ny" "nx < 2 ^ 24" "ny < 2 ^ 24" "c < 2 ^ 24" "d < 2 ^ 24"
  defines "w \<equiv> if c = 0 then nx - a else min c (nx - a)" and "h \<equiv> if d = 0 then ny - b else min d (ny - b)"
  shows "\<exists>r'. crop_coords nx ny (mk_region COORDS (of_nat a, of_nat b, of_nat c, of_nat d) ok) = (Inr (COORDS, int a, int b, w, h), r') \<and>
     region_canonical r' = Inr (region_text a b w h)"
proof -
  have ab: "a < 2 ^ 24" "b < 2 ^ 24" using assms(1-4) by linarith+
  let ?r = "mk_region COORDS (of_nat a, of_nat b, of_nat c, of_nat d) ok"
  have low: "clip_low nx (int a) c = Some (int a, c)" "clip_low ny (int b) d = Some (int b, d)"
    using assms(1,2) by (simp_all add: clip_low_def)
  have high: "clip_high nx (int a) c = w" "clip_high ny (int b) d = h"
    using assms(1-6) by (simp_all add: clip_high_fits w_def h_def)
  have "crop_coords nx ny ?r = (Inr (COORDS, int a, int b, w, h),
      ?r\<lparr>r_x := int a, r_y := int b, r_w := w, r_h := h, r_canonical_ok := True\<rparr>)"
    unfolding crop_coords_def raw_coords_dec [OF ab assms(5,6)] sum.case prod.case Let_def low option.case high
    by (simp add: mk_region_def)
  then show ?thesis by (simp add: region_canonical_def mk_region_def int_string_def region_text_def)
qed

text \<open>
  A region of the request in pixels, with its corner inside the image, is cut off at the right and lower
  borders (a zero width or height means the rest of the image); its canonical text names exactly the
  pixels that are cut out, and cropping by the canonical text gives the same pixels and the same text.
\<close>

theorem canonical_region_stable:
  assumes "a < nx" "b < ny" "nx < 2 ^ 24" "ny < 2 ^ 24" "c < 2 ^ 24" "d < 2 ^ 24"
  defines "w \<equiv> if c = 0 then nx - a else min c (nx - a)" and "h \<equiv> if d = 0 then ny - b else min d (ny - b)"
  shows "\<exists>r r' q q'. parse_region (region_text a b c d) = Inr r \<and>
    crop_coords nx ny r = (Inr (COORDS, int a, int b, w, h), r') \<and> region_canonical r' = Inr (region_text a b w h) \<and>
    parse_region (region_text a b w h) = Inr q \<and>
    crop_coords nx ny q = (Inr (COORDS, int a, int b, w, h), q') \<and> region_canonical q' = Inr (region_text a b w h)"
proof -
  have ab: "a < 2 ^ 24" "b < 2 ^ 24" "w < 2 ^ 24" "h < 2 ^ 24" using assms(1-4) by (auto simp: w_def h_def)
  have wh: "0 < w" "w \<le> nx - a" "0 < h" "h \<le> ny - b" using assms(1,2) by (auto simp: w_def h_def)
  then have m: "(if w = 0 then nx - a else min w (nx - a)) = w" "(if h = 0 then ny - b else min h (ny - b)) = h" by auto
  note c1 = crop_dec [OF assms(1-6), of False, folded w_def h_def]
  note c2 = crop_dec [OF assms(1-4) ab(3,4), of False, unfolded m]
  from c1 c2 parse_region_dec [OF ab(1,2) assms(5,6)] parse_region_dec [OF ab] show ?thesis by blast
qed

lemma canonical_region_stable_witness:
  "\<exists>r r' q q'. parse_region (region_text 10 20 2000 0) = Inr r \<and>
    crop_coords 1000 800 r = (Inr (COORDS, int 10, int 20, 990, 780), r') \<and> region_canonical r' = Inr (region_text 10 20 990 780) \<and>
    parse_region (region_text 10 20 990 780) = Inr q \<and>
    crop_coords 1000 800 q = (Inr (COORDS, int 10, int 20, 990, 780), q') \<and> region_canonical q' = Inr (region_text 10 20 990 780)"
  using canonical_region_stable [of 10 1000 20 800 2000 0] by simp

text \<open>
  A region that lies wholly to the left of the image is not refused: its width wraps below zero (or
  is zero), and the whole width of the image is cut out.
\<close>

theorem crop_left_of_image:
  assumes "raw_coords r nx ny = Inr (x, 0, w, h)" and "x + int w \<le> 0" and "x < 0" and "- (2 ^ 31) \<le> x"
    and "0 < nx" "nx < 2 ^ 31" "0 < h" "h \<le> ny" "ny < 2 ^ 31"
  shows "\<exists>r'. crop_coords nx ny r = (Inr (coord_type r, 0, 0, nx, h), r')"
proof -
  have u: "to_uint32 (int w + x) = (if int w + x = 0 then 0 else nat (int w + x + 2 ^ 32))"
  proof (cases "int w + x = 0")
    case False
    then have "(int w + x + 2 ^ 32) mod 2 ^ 32 = int w + x + 2 ^ 32"
      using assms(2,4) by (intro mod_pos_pos_trivial) auto
    then have "(int w + x) mod 2 ^ 32 = int w + x + 2 ^ 32" by simp
    with False show ?thesis by (simp add: to_uint32_def)
  qed (simp add: to_uint32_def)
  have hi: "clip_high nx 0 (to_uint32 (int w + x)) = nx"
  proof -
    define W where "W = to_uint32 (int w + x)"
    have "W = 0 \<or> (nx < W \<and> W < 2 ^ 32)" unfolding W_def u using assms(2,4,6) by auto
    then have "clip_high nx 0 W = nx" using assms(5,6) by (auto simp: clip_high_def to_uint32_small)
    then show ?thesis by (simp add: W_def)
  qed
  have "clip_high ny 0 h = h" "clip_low ny 0 h = Some (0, h)"
    using assms(7-9) by (auto simp: clip_high_def clip_low_def to_uint32_def)
  with hi assms(1,3) show ?thesis by (simp add: crop_coords_def clip_low_def)
qed

lemma f32_big: "f32 4294967040 = 4294967040"
proof -
  have "bit_length 4294967040 = 32" by (simp add: bit_length.simps)
  then have "exponent 4294967040 = 31" by (simp add: exponent_def)
  then show ?thesis by (simp add: f32_def Let_def pow2_def round_even_def)
qed

text \<open>
  A width so large that adding the corner wraps at 32 bits escapes the clipping: the crop is
  accepted with a width far outside an image that is 1000 pixels wide.
\<close>

theorem crop_width_wraps:
  "fst (crop_coords 1000 800 (mk_region COORDS (300, 0, 4294967040, 10) False)) = Inr (COORDS, 300, 0, 4294967040, 10)"
proof -
  have f: "f32 300 = 300" "f32 10 = 10" "f32 0 = 0"
    using f32_of_small_nat [of 300] f32_of_small_nat [of 10] by (simp_all add: f32_def)
  have l: "lround 300 = 300" "lround 0 = 0" "lround 4294967040 = 4294967040" "lround 10 = 10"
    using lround_nat [of 300] lround_nat [of 0] lround_nat [of 4294967040] lround_nat [of 10] by simp_all
  have "raw_coords (mk_region COORDS (300, 0, 4294967040, 10) False) 1000 800 = Inr (300, 0, 4294967040, 10)"
    by (simp add: raw_coords_def mk_region_def round_four_def f32_div_def f f32_big fits_long_def l to_int32_def to_uint32_def)
  then show ?thesis by (simp add: crop_coords_def clip_low_def clip_high_def to_uint32_def mk_region_def)
qed

text \<open>
  A scale of zero percent is read without complaint, and asking for the size of any image then
  converts a quotient by zero to an integer, which is undefined.
\<close>

theorem zero_percent_undefined:
  "\<exists>s. parse_size ''pct:0'' mw mh ma = Inr s \<and> fst (get_size img_w img_h max_p j2k s) = Inl Undefined"
proof -
  have f: "parse_float ''0'' = Inr 0"
    by (simp add: parse_float_def isdigit_def chr_code_def decimal_def digit_val_def f32_read_def f32_def FLT_MAX_def)
  have "parse_size ''pct:0'' mw mh ma = Inr ((blank_size False mw mh ma)\<lparr>size_type := SZ_PERCENTS, percent := 0\<rparr>)"
    by (simp add: parse_size_def strip_def parse_keyword_def f no_mark_def blank_size_def)
  then show ?thesis
    by (simp add: get_size_def scaled_size_def scale_percent_def blank_size_def epsilon_ceil_division_def epsilon_floor_division_def)
qed

text \<open>
  Copying a size forgets that its result was computed, unless the server has a maximal width, and
  then claims it for a size that was never computed.
\<close>

theorem size_copy_canonical_ok:
  "s_canonical_ok (size_copy s) = (iiif_max_width s \<noteq> 0) \<and> s_w (size_copy s) = s_w s \<and> s_h (size_copy s) = s_h s"
  by (simp add: size_copy_def)

text \<open>
  The full size with the upscaling mark and a maximal width alone: a portrait image is scaled to a
  square, since its own width is divided by itself.
\<close>

theorem upscaled_portrait_square:
  assumes "0 < img_w" "img_w \<le> img_h" "0 < mw" "img_w * mw < 2 ^ 24" "iiif_max_width s = mw" "iiif_max_height s = 0"
    and "upscaling s"
  shows "scale_full s img_w img_h = Inr (mw, mw, 1, False)"
proof -
  have m: "mw * 1 \<le> mw * img_w" "img_w * 1 \<le> img_w * mw" using assms(1,3) by (intro mult_le_mono2; simp)+
  then have w: "img_w < 2 ^ 24" "mw < 2 ^ 24" using assms(4) unfolding mult.commute [of mw] by linarith+
  obtain k where k: "epsilon_floor_division (of_nat (img_w * mw)) (fnat img_w) = Inr k" "about k (img_w * mw) img_w"
    by (rule floor_division [OF assms(1,4) w(1)])
  then have "k = mw" using about_exact [of k mw img_w] assms(1) by (simp add: mult.commute)
  then show ?thesis
    using k(1) assms w fnat_small [OF assms(4)] by (simp add: scale_full_def u32_def)
qed

end
