(* ===== verification/ServeProps.thy ===== *)
theory ServeProps
  imports IIIFServe RegionProps
begin

text \<open>
What is promised of a IIIF image request: the restriction of a permission bounds the size that is served, and the canonical URL of an image request names that image request.
\<close>

section \<open>Restrictions\<close>

lemma get_size_frame:
  assumes "get_size img_w img_h m j2k s = (Inr x, s')"
  shows "s_canonical_ok s' \<and> s_nx s' = s_nx s \<and> s_ny s' = s_ny s \<and> percent s' = percent s \<and>
    size_type s' = size_type s \<and> upscaling s' = upscaling s \<and> iiif_max_width s' = iiif_max_width s \<and>
    iiif_max_height s' = iiif_max_height s \<and> iiif_max_area s' = iiif_max_area s"
  using assms by (auto simp: get_size_def split: sum.splits option.splits)

text \<open>
  C16: A restriction that is given in pixels or percent is enforced: the size that is served is not
  wider and not higher than the restriction allows for the image, and it is the size asked for
  whenever that one is within it.
\<close>

theorem restriction_enforced:
  assumes "served_size img_w img_h sz r = Inr s" and "\<not> size_undefined r"
  shows "\<exists>sz1 r1 red x y. get_size img_w img_h 0 False sz = (Inr x, sz1) \<and> get_size img_w img_h red False r = (Inr y, r1) \<and>
    s_w s \<le> s_w r1 \<and> s_h s \<le> s_h r1 \<and> (s_w sz1 \<le> s_w r1 \<and> s_h sz1 \<le> s_h r1 \<longrightarrow> s = sz1)"
proof -
  from assms obtain t w h red ro sz1 r1 y where g:
    "get_size img_w img_h 0 False sz = (Inr (t, w, h, red, ro), sz1)" "get_size img_w img_h red False r = (Inr y, r1)"
    "restricted sz1 r1 = Inr s"
    by (auto simp: served_size_def sizes_for_image_def split: sum.splits prod.splits)
  have u: "\<not> size_undefined r1" using get_size_frame [OF g(2)] assms(2) by (simp add: size_undefined_def)
  have ok: "s_canonical_ok sz1" using get_size_frame [OF g(1)] by blast
  have "s_w s \<le> s_w r1 \<and> s_h s \<le> s_h r1 \<and> (s_w sz1 \<le> s_w r1 \<and> s_h sz1 \<le> s_h r1 \<longrightarrow> s = sz1)"
    using g(3) u ok by (auto simp: restricted_def size_greater_def compared_def split: if_splits)
  with g show ?thesis by blast
qed


definition demo_full :: iiif_size where
  "demo_full = (blank_size False 0 0 0)\<lparr>size_type := SZ_FULL\<rparr>"

lemma demo_served: "served_size 100 80 demo_full (demo_size PIXELS_X 50 0) =
  Inr ((demo_size PIXELS_X 50 0)\<lparr>s_w := 50, s_h := 40, redonly := True, s_canonical_ok := True\<rparr>)"
proof -
  have "get_size 100 80 1 False (demo_size PIXELS_X 50 0) = get_size 100 80 0 False (demo_size PIXELS_X 50 0)"
    by (simp add: get_size_def scaled_size_def demo_size_def)
  then have g: "get_size 100 80 1 False (demo_size PIXELS_X 50 0) = (Inr (PIXELS_X, 50, 40, 2, True),
      (demo_size PIXELS_X 50 0)\<lparr>s_w := 50, s_h := 40, redonly := True, s_canonical_ok := True\<rparr>)"
    using demo_get by simp
  have f: "get_size 100 80 0 False demo_full =
      (Inr (SZ_FULL, 100, 80, 1, True), demo_full\<lparr>s_w := 100, s_h := 80, redonly := True, s_canonical_ok := True\<rparr>)"
    by (simp add: get_size_def scaled_size_def scale_full_def demo_full_def blank_size_def check_limits_def size_limits_def limitdim_def)
  show ?thesis
    unfolding served_size_def sizes_for_image_def f prod.case sum.case g
    by (simp add: restricted_def size_undefined_def demo_size_def size_greater_def compared_def demo_full_def)
qed

lemma restriction_enforced_witness:
  "\<exists>sz1 r1 red x y. get_size 100 80 0 False demo_full = (Inr x, sz1) \<and>
    get_size 100 80 red False (demo_size PIXELS_X 50 0) = (Inr y, r1) \<and> 50 \<le> s_w r1 \<and> 40 \<le> s_h r1"
  using restriction_enforced [OF demo_served] by (force simp: size_undefined_def demo_size_def)

text \<open>
  A restriction to a reduced size, such as \<open>red:4\<close>, is taken for no restriction at all: the size asked for is served.
\<close>

theorem reduce_restriction_ignored:
  assumes "served_size img_w img_h sz r = Inr s" and "size_type r = REDUCE" and "s_nx r = 0" "s_ny r = 0" "percent r = 0"
  shows "\<exists>x. get_size img_w img_h 0 False sz = (Inr x, s)"
proof -
  from assms obtain t w h red ro sz1 r1 y where g:
    "get_size img_w img_h 0 False sz = (Inr (t, w, h, red, ro), sz1)" "get_size img_w img_h red False r = (Inr y, r1)"
    "restricted sz1 r1 = Inr s"
    by (auto simp: served_size_def sizes_for_image_def split: sum.splits prod.splits)
  have "size_undefined r1" using get_size_frame [OF g(2)] assms(3-5) by (simp add: size_undefined_def)
  with g show ?thesis by (auto simp: restricted_def)
qed

section \<open>The canonical URL\<close>

text \<open>
  The address in the \<open>Link\<close> header of a secure connection is only its scheme.
\<close>

theorem secure_link_header:
  assumes "get_canonical_url img_w img_h True host_p route prefix ident rg sz rot qf = Inr (hdr, canonical, rg1, sz1)"
  shows "hdr = ''<https://''"
  using assms by (auto simp: get_canonical_url_def Let_def split: sum.splits option.splits)

lemma canonical_region_pixels:
  assumes "a < img_w" "b < img_h" "img_w < 2 ^ 24" "img_h < 2 ^ 24" "c < 2 ^ 24" "d < 2 ^ 24"
  obtains w h r1 r2 where "0 < w" "w \<le> img_w" "0 < h" "h \<le> img_h" "w < 2 ^ 24" "h < 2 ^ 24"
    "canonical_region img_w img_h (mk_region COORDS (of_nat a, of_nat b, of_nat c, of_nat d) False) = Inr (region_text a b w h, r1)"
    "canonical_region img_w img_h (mk_region COORDS (of_nat a, of_nat b, of_nat w, of_nat h) False) = Inr (region_text a b w h, r2)"
proof -
  define w where "w = (if c = 0 then img_w - a else min c (img_w - a))"
  define h where "h = (if d = 0 then img_h - b else min d (img_h - b))"
  have wh: "0 < w" "w \<le> img_w - a" "0 < h" "h \<le> img_h - b" using assms(1,2) by (auto simp: w_def h_def)
  then have m: "(if w = 0 then img_w - a else min w (img_w - a)) = w" "(if h = 0 then img_h - b else min h (img_h - b)) = h" by auto
  have small: "w < 2 ^ 24" "h < 2 ^ 24" using wh assms(3,4) by linarith+
  have t: "coord_type (mk_region COORDS q ok) = COORDS" for q ok by (simp add: mk_region_def split: prod.split)
  from crop_dec [OF assms, of False, folded w_def h_def] obtain r1 where
    "canonical_region img_w img_h (mk_region COORDS (of_nat a, of_nat b, of_nat c, of_nat d) False) = Inr (region_text a b w h, r1)"
    by (auto simp: canonical_region_def t)
  moreover from crop_dec [OF assms(1-4) small, of False, unfolded m] obtain r2 where
    "canonical_region img_w img_h (mk_region COORDS (of_nat a, of_nat b, of_nat w, of_nat h) False) = Inr (region_text a b w h, r2)"
    by (auto simp: canonical_region_def t)
  ultimately show thesis using that wh small by (meson diff_le_self le_trans)
qed

lemma parse_float_dec: "n < 2 ^ 24 \<Longrightarrow> parse_float (dec_string n) = Inr (of_nat n)"
proof -
  assume n: "n < 2 ^ 24"
  have "\<forall>x \<in> set (dec_string n). isdigit x" using dec_char by blast
  then have "takeWhile isdigit (dec_string n) = dec_string n" "dropWhile isdigit (dec_string n) = []" by (simp_all only: takeWhile_eq_all_conv dropWhile_eq_Nil_conv)
  note this [simp]
  show ?thesis by (simp add: parse_float_def decimal_dec f32_read_small [OF n])
qed

lemma dec_zero: "''0'' = dec_string 0"
  by (code_simp)

lemma canonical_rotation_again:
  assumes "angle rot = of_nat n" and "n < 360"
  shows "parse_rotation (canonical_rotation rot) = Inr rot"
proof -
  have r: "rot = \<lparr>mirror = mirror rot, angle = of_nat n\<rparr>" using assms(1) by (cases rot) simp
  have t: "canonical_rotation rot = (if mirror rot then ''!'' else []) @ dec_string n"
    using assms by (auto simp: canonical_rotation_def lround_nat int_string_def dec_zero)
  have p: "parse_float (dec_string n) = Inr (of_nat n)" by (rule parse_float_dec) (use assms(2) in simp)
  have h: "hd (dec_string n) \<noteq> CHR ''!''" using hd_dec [OF marks_not_digit(2), of n "[]"] by simp
  have b: "\<not> (of_nat n :: rat) \<ge> 360" using assms(2) by (simp add: not_le)
  show ?thesis
    unfolding t using p h b by (subst r) (simp add: parse_rotation_def)
qed

definition url_text :: "string \<Rightarrow> string \<Rightarrow> string \<Rightarrow> string \<Rightarrow> string \<Rightarrow> string \<Rightarrow> string \<Rightarrow> string \<Rightarrow> string" where
  "url_text hst route prefix ident rtxt stxt rottxt qtxt =
     hst @ slash_part route @ slash_part prefix @ ''/'' @ ident @ ''/'' @ rtxt @ ''/'' @ stxt @ ''/'' @ rottxt @ ''/'' @ qtxt"

lemma url_once:
  assumes "canonical_region img_w img_h rg = Inr (rtxt, rg1)" "canonical_size img_w img_h sz = Inr (stxt, sz1)"
    "canonical_ext (fmt qf) = Some ext"
  shows "get_canonical_url img_w img_h sec hst route prefix ident rg sz rot qf =
    Inr (if sec then ''<https://'' else ''<http://'' @ url_text hst route prefix ident rtxt stxt (canonical_rotation rot) (canonical_quality (quality qf) @ ext) @ ''>'',
      url_text hst route prefix ident rtxt stxt (canonical_rotation rot) (canonical_quality (quality qf) @ ext), rg1, sz1)"
  using assms by (simp add: get_canonical_url_def url_text_def Let_def)



end
