(* ===== verification/Pixels.thy ===== *)
theory Pixels
  imports IIIFSize
begin

unbundle bit_operations_syntax

text \<open>
  \<open>handlers/iiifhandler/IIIFImgTools.cpp\<close>: the loops over the pixels of an image. A buffer holds
  the channels of a pixel next to each other, the pixels of a row next to each other, and the rows
  from top to bottom. Samples are natural numbers (below \<open>2^8\<close> or \<open>2^16\<close>); positions are
  \<open>uint32_t\<close> and wrap. Access behind the end of a buffer is undefined behaviour. The templates are
  modelled once, for all sample types.
\<close>

section \<open>Buffers and loops\<close>

definition get_at :: "'a list \<Rightarrow> nat \<Rightarrow> exn + 'a" where
  "get_at buf i = (if i < length buf then Inr (buf ! i) else Inl Undefined)"

definition put_at :: "nat \<Rightarrow> 'a \<Rightarrow> 'a list \<Rightarrow> exn + 'a list" where
  "put_at i v buf = (if i < length buf then Inr (buf[i := v]) else Inl Undefined)"

fun for_each :: "('i \<Rightarrow> 's \<Rightarrow> exn + 's) \<Rightarrow> 'i list \<Rightarrow> 's \<Rightarrow> exn + 's" where
  "for_each f [] s = Inr s"
| "for_each f (i # is) s = (case f i s of Inl e \<Rightarrow> Inl e | Inr s1 \<Rightarrow> for_each f is s1)"

definition for_pixels :: "nat \<Rightarrow> nat \<Rightarrow> nat \<Rightarrow> (nat \<Rightarrow> nat \<Rightarrow> nat \<Rightarrow> 's \<Rightarrow> exn + 's) \<Rightarrow> 's \<Rightarrow> exn + 's" where
  "for_pixels w h nc body = for_each (\<lambda>j. for_each (\<lambda>i. for_each (body j i) [0..<nc]) [0..<w]) [0..<h]"

definition position :: "nat \<Rightarrow> nat \<Rightarrow> nat \<Rightarrow> nat \<Rightarrow> nat \<Rightarrow> nat" where
  "position nc nx x y c = u32 (nc * (y * nx + x) + c)"

definition new_buffer :: "nat \<Rightarrow> nat \<Rightarrow> nat \<Rightarrow> nat list" where
  "new_buffer w h nc = replicate (u32 (w * h * nc)) 0"

text \<open>
  The loop that most operations are: each sample of a new image of \<open>w\<close> times \<open>h\<close> pixels is computed
  by \<open>val\<close> from its row, column and channel.
\<close>

definition fill_pixels :: "nat \<Rightarrow> nat \<Rightarrow> nat \<Rightarrow> (nat \<Rightarrow> nat \<Rightarrow> nat \<Rightarrow> exn + nat) \<Rightarrow> exn + nat list" where
  "fill_pixels w h nc val =
     for_pixels w h nc
       (\<lambda>j i k out. case val j i k of Inl e \<Rightarrow> Inl e | Inr v \<Rightarrow> put_at (position nc w i j k) v out)
       (new_buffer w h nc)"

section \<open>Planes and samples of other widths\<close>

text \<open>The samples of \<open>nc\<close> planes with \<open>ny*sll\<close> samples each are interleaved.\<close>

definition separateToContig :: "nat list \<Rightarrow> nat \<Rightarrow> nat \<Rightarrow> nat \<Rightarrow> nat \<Rightarrow> exn + nat list" where
  "separateToContig inbuf nx ny nc sll =
     for_each (\<lambda>c. for_each (\<lambda>y. for_each (\<lambda>x out.
         case get_at inbuf (u32 (c * ny * sll + y * nx + x)) of
           Inl e \<Rightarrow> Inl e
         | Inr v \<Rightarrow> put_at (position nc nx x y c) v out) [0..<nx]) [0..<ny]) [0..<nc]
       (new_buffer nx ny nc)"

definition bit_at :: "nat \<Rightarrow> nat \<Rightarrow> bool" where
  "bit_at v k = (v AND 2 ^ (7 - k) \<noteq> 0)"

definition every_eighth :: "nat \<Rightarrow> nat list" where
  "every_eighth nx = map (\<lambda>b. 8 * b) [0..<(nx + 7) div 8]"

definition cvrt1BitTo8Bit :: "nat list \<Rightarrow> nat \<Rightarrow> nat \<Rightarrow> nat \<Rightarrow> nat \<Rightarrow> nat \<Rightarrow> exn + nat list" where
  "cvrt1BitTo8Bit inbuf nx ny sll black white =
     (if u32 (8 * sll) = nx then
        for_each (\<lambda>i. for_each (\<lambda>k out.
            case get_at inbuf i of
              Inl e \<Rightarrow> Inl e
            | Inr v \<Rightarrow> put_at (u32 (i * 8 + k)) (if bit_at v k then white else black) out) [0..<8])
          [0..<u32 (ny * sll)] (replicate (u32 (nx * ny)) 0)
      else
        for_each (\<lambda>y. for_each (\<lambda>x. for_each (\<lambda>k out.
            if x + k < nx then
              (case get_at inbuf (u32 (y * sll + x)) of
                 Inl e \<Rightarrow> Inl e
               | Inr v \<Rightarrow> put_at (u32 (y * nx + x + k)) (if bit_at v k then white else black) out)
            else Inr out) [0..<8]) (every_eighth nx)) [0..<ny] (replicate (u32 (nx * ny)) 0))"

text \<open>
  Four bits to eight: with \<open>&&\<close> in place of \<open>&\<close>, so that a sample is 0 or 1, or \<open>1 >> 4\<close>, which is 0;
  the odd samples are never written.
\<close>

definition cvrt4BitTo8Bit :: "nat list \<Rightarrow> nat \<Rightarrow> nat \<Rightarrow> nat \<Rightarrow> exn + nat list" where
  "cvrt4BitTo8Bit inbuf nx ny sll =
     for_each (\<lambda>y. for_each (\<lambda>b. for_each (\<lambda>k out.
         case get_at inbuf (u32 (y * sll + 2 * b)) of
           Inl e \<Rightarrow> Inl e
         | Inr v \<Rightarrow>
             (case put_at (u32 (y * nx + 2 * b)) 0 out of
                Inl e \<Rightarrow> Inl e
              | Inr out1 \<Rightarrow>
                  if 2 * b + 1 < nx then put_at (u32 (y * nx + 2 * b)) (if v \<noteq> 0 then 1 else 0) out1
                  else Inr out1)) [0, 1 :: nat]) [0..<(nx + 1) div 2]) [0..<ny]
       (replicate (u32 (nx * ny)) 0)"

text \<open>
  Eight bits to one: a bit is set for the samples above 128 when \<open>bright\<close> holds, and for the others when not; \<open>!mask\<close> is 0.
\<close>

definition cvrt8BitTo1bit :: "nat list \<Rightarrow> nat \<Rightarrow> nat \<Rightarrow> bool \<Rightarrow> (exn + nat list) \<times> nat" where
  "cvrt8BitTo1bit inbuf nx ny bright =
     (let sll = u32 (nx + 7) div 8 in
      (for_each (\<lambda>y. for_each (\<lambda>x out.
           let slot = u32 (y * sll + x div 8) in
           case get_at inbuf (u32 (y * nx + x)) of
             Inl e \<Rightarrow> Inl e
           | Inr v \<Rightarrow>
               (case get_at out slot of
                  Inl e \<Rightarrow> Inl e
                | Inr o1 \<Rightarrow> put_at slot (if (v > 128) = bright then o1 OR 2 ^ (7 - x mod 8) else o1) out))
           [0..<nx]) [0..<ny] (replicate (u32 (sll * ny)) 0), sll))"

section \<open>Cropping, reducing, scaling\<close>

definition crop_rect :: "nat \<Rightarrow> nat \<Rightarrow> nat \<Rightarrow> nat \<Rightarrow> nat list \<Rightarrow> nat \<Rightarrow> nat \<Rightarrow> nat \<Rightarrow> exn + nat list" where
  "crop_rect x y w h inbuf nx ny nc = fill_pixels w h nc (\<lambda>j i k. get_at inbuf (position nc nx (i + x) (j + y) k))"

definition doCrop :: "nat list \<Rightarrow> nat \<Rightarrow> nat \<Rightarrow> nat \<Rightarrow> region \<Rightarrow> exn + nat list" where
  "doCrop inbuf nx ny nc rg =
     (if coord_type rg = FULL then Inr inbuf
      else (case crop_coords nx ny rg of
          (Inl e, _) \<Rightarrow> Inl e
        | (Inr (_, x, y, w, h), _) \<Rightarrow> crop_rect (nat x) (nat y) w h inbuf nx ny nc))"

text \<open>The samples of a block of \<open>reduce\<close> times \<open>reduce\<close> pixels that lie in the image, in the order of the loops.\<close>

definition block_samples :: "nat list \<Rightarrow> nat \<Rightarrow> nat \<Rightarrow> nat \<Rightarrow> nat \<Rightarrow> nat \<Rightarrow> nat \<Rightarrow> nat \<Rightarrow> exn + nat \<times> nat" where
  "block_samples inbuf nx ny nc red y x c =
     for_each (\<lambda>xx. for_each (\<lambda>yy (cnt, tmp).
         if u32 (red * x + xx) < nx \<and> u32 (red * y + yy) < ny then
           (case get_at inbuf (position nc nx (red * x + xx) (red * y + yy) c) of
              Inl e \<Rightarrow> Inl e
            | Inr v \<Rightarrow> Inr (u32 (cnt + 1), u32 (tmp + v)))
         else Inr (cnt, tmp)) [0..<red]) [0..<red] (0, 0)"

definition block_average :: "nat list \<Rightarrow> nat \<Rightarrow> nat \<Rightarrow> nat \<Rightarrow> nat \<Rightarrow> nat \<Rightarrow> nat \<Rightarrow> nat \<Rightarrow> exn + nat" where
  "block_average inbuf nx ny nc red y x c =
     (case block_samples inbuf nx ny nc red y x c of
        Inl e \<Rightarrow> Inl e
      | Inr (cnt, tmp) \<Rightarrow> if cnt = 0 then Inl Undefined else Inr (tmp div cnt))"

text \<open>
  The reduced image and the width that is reported; the height is computed for the loop, but its
  parameter is not a reference, and the caller does not get it.
\<close>

definition reduce_size :: "nat \<Rightarrow> iiif_size" where
  "reduce_size red = (blank_size False 0 0 0)\<lparr>size_type := REDUCE, s_reduce := red\<rparr>"

definition doReduce :: "nat list \<Rightarrow> nat \<Rightarrow> nat \<Rightarrow> nat \<Rightarrow> nat \<Rightarrow> exn + nat list \<times> nat" where
  "doReduce inbuf red nx ny nc =
     (case get_size nx ny 0 False (reduce_size red) of
        (Inl e, _) \<Rightarrow> Inl e
      | (Inr (_, nnx, nny, _, _), _) \<Rightarrow>
          (if red \<le> 1 then
             (if u32 (nnx * nny * nc) \<le> length inbuf then Inr (take (u32 (nnx * nny * nc)) inbuf, nnx) else Inl Undefined)
           else (case fill_pixels nnx nny nc (\<lambda>y x c. block_average inbuf nx ny nc red y x c) of
               Inl e \<Rightarrow> Inl e
             | Inr out \<Rightarrow> Inr (out, nnx))))"

text \<open>
  The nearest pixel; rounding the quotient to \<open>double\<close> does not move it over a half. The product is one of \<open>uint32_t\<close>; for a single row or column the quotient is 0/0
  (not a number), which has no nearest integer.
\<close>

definition nearest :: "nat \<Rightarrow> nat \<Rightarrow> nat \<Rightarrow> exn + nat" where
  "nearest n m i = (if m = 1 then Inl Undefined else Inr (nat (lround (of_nat (u32 (i * (n - 1))) / of_nat (m - 1)))))"

definition doScaleFast :: "nat list \<Rightarrow> nat \<Rightarrow> nat \<Rightarrow> nat \<Rightarrow> nat \<Rightarrow> nat \<Rightarrow> exn + nat list" where
  "doScaleFast inbuf nx ny nc nnx nny =
     fill_pixels nnx nny nc (\<lambda>y x k.
       case nearest nx nnx x of Inl e \<Rightarrow> Inl e | Inr sx \<Rightarrow>
       (case nearest ny nny y of Inl e \<Rightarrow> Inl e | Inr sy \<Rightarrow> get_at inbuf (position nc nx sx sy k)))"

text \<open>
  Bilinear interpolation at \<open>(x, y)\<close>, in \<open>double\<close>, for samples of \<open>bits\<close> bits. Between two rows of the
  same column the result is cut to a byte, whatever the samples are.
\<close>

definition weighted :: "rat list \<Rightarrow> rat" where
  "weighted ts = foldl (\<lambda>s t. f64 (s + t)) (hd ts) (tl ts)"

definition cut :: "nat \<Rightarrow> rat \<Rightarrow> nat" where
  "cut bits x = nat (lround x mod 2 ^ bits)"

definition bilinn :: "nat \<Rightarrow> nat list \<Rightarrow> nat \<Rightarrow> rat \<Rightarrow> rat \<Rightarrow> nat \<Rightarrow> nat \<Rightarrow> exn + nat" where
  "bilinn bits buf nx x y c n =
     (let ix = nat (trunc x); iy = nat (trunc y);
          rx = f64 (x - of_nat ix); ry = f64 (y - of_nat iy); rxy = f64 (rx * ry);
          w00 = f64 (f64 (f64 (1 - rx) - ry) + rxy); w10 = f64 (rx - rxy); w01 = f64 (ry - rxy);
          sample = (\<lambda>i j. get_at buf (position n nx i j c))
      in case sample ix iy of Inl e \<Rightarrow> Inl e | Inr p00 \<Rightarrow>
         if rx < 1 / 100 \<and> ry < 1 / 100 then Inr p00
         else if rx < 1 / 100 then
           (case sample ix (iy + 1) of Inl e \<Rightarrow> Inl e | Inr p01 \<Rightarrow>
              Inr (cut 8 (weighted [f64 (of_nat p00 * w00), f64 (of_nat p01 * w01)])))
         else if ry < 1 / 100 then
           (case sample (ix + 1) iy of Inl e \<Rightarrow> Inl e | Inr p10 \<Rightarrow>
              Inr (cut bits (weighted [f64 (of_nat p00 * w00), f64 (of_nat p10 * w10)])))
         else
           (case sample (ix + 1) iy of Inl e \<Rightarrow> Inl e | Inr p10 \<Rightarrow>
           (case sample ix (iy + 1) of Inl e \<Rightarrow> Inl e | Inr p01 \<Rightarrow>
           (case sample (ix + 1) (iy + 1) of Inl e \<Rightarrow> Inl e | Inr p11 \<Rightarrow>
              Inr (cut bits (weighted [f64 (of_nat p00 * w00), f64 (of_nat p10 * w10), f64 (of_nat p01 * w01),
                f64 (f64 (of_nat p11 * rx) * ry)]))))))"

text \<open>A position in the old image for each of \<open>m\<close> new ones; again 0/0 for a single one.\<close>

definition lut :: "nat \<Rightarrow> nat \<Rightarrow> nat \<Rightarrow> exn + rat" where
  "lut n m i = (if m = 1 then Inl Undefined else Inr (f64 (of_nat (u32 (i * (n - 1))) / of_nat (m - 1))))"

definition doScaleMedium :: "nat \<Rightarrow> nat list \<Rightarrow> nat \<Rightarrow> nat \<Rightarrow> nat \<Rightarrow> nat \<Rightarrow> nat \<Rightarrow> exn + nat list" where
  "doScaleMedium bits inbuf nx ny nc nnx nny =
     fill_pixels nnx nny nc (\<lambda>j i k.
       case lut nx nnx i of Inl e \<Rightarrow> Inl e | Inr x \<Rightarrow>
       (case lut ny nny j of Inl e \<Rightarrow> Inl e | Inr y \<Rightarrow> bilinn bits inbuf nx x y k nc))"

text \<open>The smallest multiple of the new size that is not below the old one, by counting.\<close>

function count_multiple :: "nat \<Rightarrow> nat \<Rightarrow> nat \<Rightarrow> nat" where
  "count_multiple new old k = (if new > 0 \<and> new * k < old then count_multiple new old (Suc k) else k)"
  by pat_completeness auto
termination
  by (relation "measure (\<lambda>(new, old, k). old - new * k)") (auto intro!: diff_less_mono2)

declare count_multiple.simps [simp del]

definition multiple :: "nat \<Rightarrow> nat \<Rightarrow> nat" where
  "multiple new old = (if new < old then count_multiple new old 1 else 1)"

definition block_sum :: "nat list \<Rightarrow> nat \<Rightarrow> nat \<Rightarrow> nat \<Rightarrow> nat \<Rightarrow> nat \<Rightarrow> nat \<Rightarrow> nat \<Rightarrow> exn + nat" where
  "block_sum buf w nc iix iiy j i k =
     for_each (\<lambda>jj. for_each (\<lambda>ii accu.
         case get_at buf (position nc w (iix * i + ii) (iiy * j + jj) k) of
           Inl e \<Rightarrow> Inl e
         | Inr v \<Rightarrow> Inr (u32 (accu + v))) [0..<iix]) [0..<iiy] 0"

definition doScale :: "nat \<Rightarrow> nat list \<Rightarrow> nat \<Rightarrow> nat \<Rightarrow> nat \<Rightarrow> nat \<Rightarrow> nat \<Rightarrow> exn + nat list" where
  "doScale bits inbuf nx ny nc nnx nny =
     (if (nnx = 0 \<and> nx > 0) \<or> (nny = 0 \<and> ny > 0) then Inl Diverges
      else
        let iix = multiple nnx nx; iiy = multiple nny ny; nnnx = u32 (nnx * iix); nnny = u32 (nny * iiy)
        in case doScaleMedium bits inbuf nx ny nc nnnx nnny of
             Inl e \<Rightarrow> Inl e
           | Inr outbuf \<Rightarrow>
               if iix > 1 \<or> iiy > 1
               then fill_pixels nnx nny nc (\<lambda>j i k.
                      case block_sum outbuf nnnx nc iix iiy j i k of Inl e \<Rightarrow> Inl e | Inr s \<Rightarrow> Inr (s div u32 (iix * iiy)))
               else Inr outbuf)"

section \<open>Rotating\<close>

definition doMirror :: "nat list \<Rightarrow> nat \<Rightarrow> nat \<Rightarrow> nat \<Rightarrow> exn + nat list" where
  "doMirror inbuf nx ny nc = fill_pixels nx ny nc (\<lambda>j i k. get_at inbuf (position nc nx (nx - i - 1) j k))"

partial_function (option) angle_up :: "rat \<Rightarrow> rat option" where
  "angle_up a = (if a < 0 then angle_up (f32 (a + 360)) else Some a)"

partial_function (option) angle_down :: "rat \<Rightarrow> rat option" where
  "angle_down a = (if a \<ge> 360 then angle_down (f32 (a - 360)) else Some a)"

definition norm_angle :: "rat \<Rightarrow> exn + rat" where
  "norm_angle a = (case angle_up a of None \<Rightarrow> Inl Diverges | Some b \<Rightarrow>
     (case angle_down b of None \<Rightarrow> Inl Diverges | Some c \<Rightarrow> Inr c))"

text \<open>
  The result, and the new width and height, which stay unset when nothing is rotated. Angles that are not multiples
  of 90 degrees need the sine and the cosine: they are the argument \<open>slanted\<close>.
\<close>

type_synonym rotation_fun = "nat list \<Rightarrow> nat \<Rightarrow> nat \<Rightarrow> nat \<Rightarrow> rat \<Rightarrow> exn + nat list \<times> nat \<times> nat"

definition turn90 :: "nat list \<Rightarrow> nat \<Rightarrow> nat \<Rightarrow> nat \<Rightarrow> exn + nat list" where
  "turn90 buf nx ny nc = fill_pixels ny nx nc (\<lambda>j i k. get_at buf (position nc nx j (ny - i - 1) k))"

definition turn180 :: "nat list \<Rightarrow> nat \<Rightarrow> nat \<Rightarrow> nat \<Rightarrow> exn + nat list" where
  "turn180 buf nx ny nc = fill_pixels nx ny nc (\<lambda>j i k. get_at buf (position nc nx (nx - i - 1) (ny - j - 1) k))"

definition turn270 :: "nat list \<Rightarrow> nat \<Rightarrow> nat \<Rightarrow> nat \<Rightarrow> exn + nat list" where
  "turn270 buf nx ny nc = fill_pixels ny nx nc (\<lambda>j i k. get_at buf (position nc nx (nx - j - 1) i k))"

definition with_dims_of :: "nat \<Rightarrow> nat \<Rightarrow> exn + nat list \<Rightarrow> exn + nat list \<times> (nat \<times> nat) option" where
  "with_dims_of w h r = (case r of Inl e \<Rightarrow> Inl e | Inr out \<Rightarrow> Inr (out, Some (w, h)))"

definition turn :: "rotation_fun \<Rightarrow> nat list \<Rightarrow> nat \<Rightarrow> nat \<Rightarrow> nat \<Rightarrow> rat \<Rightarrow> exn + nat list \<times> (nat \<times> nat) option" where
  "turn slanted buf nx ny nc a =
     (if a = 0 then Inr (buf, None)
      else if a = 90 then with_dims_of ny nx (turn90 buf nx ny nc)
      else if a = 180 then with_dims_of nx ny (turn180 buf nx ny nc)
      else if a = 270 then with_dims_of ny nx (turn270 buf nx ny nc)
      else (case slanted buf nx ny nc a of Inl e \<Rightarrow> Inl e | Inr (out, w, h) \<Rightarrow> Inr (out, Some (w, h))))"

definition doRotate ::
  "rotation_fun \<Rightarrow> nat list \<Rightarrow> nat \<Rightarrow> nat \<Rightarrow> nat \<Rightarrow> rat \<Rightarrow> bool \<Rightarrow> exn + nat list \<times> (nat \<times> nat) option" where
  "doRotate slanted inbuf nx ny nc a mirrored =
     (case (if mirrored then doMirror inbuf nx ny nc else Inr inbuf) of Inl e \<Rightarrow> Inl e | Inr buf \<Rightarrow>
     (case norm_angle a of Inl e \<Rightarrow> Inl e | Inr b \<Rightarrow> turn slanted buf nx ny nc b))"

end
