(* ===== verification/Image.thy ===== *)
theory Image
  imports Pixels
begin

text \<open>
  \<open>handlers/iiifhandler/IIIFImage.cpp\<close>: an image in memory and its operations. The metadata that an
  image carries along (XMP, IPTC, EXIF, ICC profile, essentials) is left out, and so is the conversion between color
  profiles, which the library lcms does: where an operation uses it, it is an argument. \<open>conobj\<close> says
  whether the image points to a connection.
\<close>

section \<open>Data\<close>

datatype photometric = MINISWHITE | MINISBLACK | RGB | PALETTE | MASK | SEPARATED | YCBCR | CIELAB | ICCLAB | ITULAB
  | CFA | LOGL | LOGLUV | LINEARRAW | INVALID

datatype orientation = TOPLEFT | TOPRIGHT | BOTRIGHT | BOTLEFT | LEFTTOP | RIGHTTOP | RIGHTBOT | LEFTBOT

datatype extra_sample = UNSPECIFIED | ASSOCALPHA | UNASSALPHA

datatype predefined_profile = icc_GRAY_D50 | icc_sRGB

record iiif_image =
  img_nx :: nat
  img_ny :: nat
  img_nc :: nat
  bps :: nat
  es :: "extra_sample list"
  orient :: orientation
  photo :: photometric
  bpixels :: "nat list"
  wpixels :: "nat list"
  conobj :: bool

definition no_image :: iiif_image where
  "no_image = \<lparr>img_nx = 0, img_ny = 0, img_nc = 0, bps = 0, es = [], orient = TOPLEFT, photo = INVALID,
     bpixels = [], wpixels = [], conobj = False\<rparr>"

definition bad_bps :: "nat \<Rightarrow> exn" where
  "bad_bps b = CsError (''Image with invalid bps (bps = '' @ dec_string b @ '').'')"

definition bps_unsupported :: "nat \<Rightarrow> exn" where
  "bps_unsupported b = CsError (''Bits per sample is not supported for operation (bps='' @ dec_string b @ '')'')"

definition sample_count :: "iiif_image \<Rightarrow> nat" where
  "sample_count img = u32 (img_nx img * img_ny img * img_nc img)"

text \<open>The buffer that the number of bits per sample selects.\<close>

definition pixels :: "iiif_image \<Rightarrow> nat list" where
  "pixels img = (if bps img = 8 then bpixels img else wpixels img)"

definition set_pixels :: "nat list \<Rightarrow> iiif_image \<Rightarrow> iiif_image" where
  "set_pixels buf img = (if bps img = 8 then img\<lparr>bpixels := buf\<rparr> else img\<lparr>wpixels := buf\<rparr>)"

definition bps_ok :: "iiif_image \<Rightarrow> bool" where
  "bps_ok img \<longleftrightarrow> bps img = 8 \<or> bps img = 16"

section \<open>Making, copying and moving images\<close>

definition mk_image :: "nat \<Rightarrow> nat \<Rightarrow> nat \<Rightarrow> nat \<Rightarrow> photometric \<Rightarrow> exn + iiif_image" where
  "mk_image nx ny nc b ph =
     (if (ph = MINISWHITE \<or> ph = MINISBLACK) \<and> \<not> (nc = 1 \<or> nc = 2) \<or> ph = RGB \<and> \<not> (nc = 3 \<or> nc = 4)
      then Inl (CsError ''Mismatch in Photometric interpretation and number of channels'')
      else if b \<noteq> 8 \<and> b \<noteq> 16 then Inl (CsError ''Bits per samples not supported by Sipi'')
      else if u32 (nx * ny * nc) = 0 then Inl (CsError ''Image with no content'')
      else Inr (set_pixels (new_buffer nx ny nc)
        (no_image\<lparr>img_nx := nx, img_ny := ny, img_nc := nc, bps := b, photo := ph\<rparr>)))"

definition copy_pixels :: "iiif_image \<Rightarrow> iiif_image \<Rightarrow> exn + iiif_image" where
  "copy_pixels img_p lhs =
     (if bps img_p = 0 then Inr lhs
      else if bps img_p = 8 then Inr (lhs\<lparr>bpixels := bpixels img_p\<rparr>)
      else if bps img_p = 16 then Inr (lhs\<lparr>wpixels := wpixels img_p\<rparr>)
      else Inl (bad_bps (bps img_p)))"

definition image_copy :: "iiif_image \<Rightarrow> exn + iiif_image" where
  "image_copy img_p = copy_pixels img_p (img_p\<lparr>bpixels := [], wpixels := []\<rparr>)"

text \<open>The assignment leaves the photometric interpretation as it was.\<close>

definition image_assign :: "iiif_image \<Rightarrow> iiif_image \<Rightarrow> exn + iiif_image" where
  "image_assign lhs img_p =
     (case copy_pixels img_p
         (lhs\<lparr>img_nx := img_nx img_p, img_ny := img_ny img_p, img_nc := img_nc img_p, bps := bps img_p,
          orient := orient img_p, es := es img_p\<rparr>) of
        Inl e \<Rightarrow> Inl e
      | Inr img \<Rightarrow> Inr (img\<lparr>conobj := conobj img_p\<rparr>))"

text \<open>
  The moved-from object keeps the content of its buffers only in that they are moved: they are empty.
  The move assignment deletes the connection of the image that is assigned to, which the image does not own.
\<close>

definition image_move :: "iiif_image \<Rightarrow> iiif_image \<times> iiif_image" where
  "image_move other = (other, no_image)"

definition image_move_assign :: "iiif_image \<Rightarrow> iiif_image \<Rightarrow> exn + iiif_image \<times> iiif_image" where
  "image_move_assign lhs other = (if conobj lhs then Inl Undefined else Inr (image_move other))"

text \<open>The position takes the column for the row.\<close>

definition setPixel :: "nat \<Rightarrow> nat \<Rightarrow> nat \<Rightarrow> int \<Rightarrow> (iiif_image, unit) act" where
  "setPixel x y c val img =
     (let store = (\<lambda>b limit too_large. if val > limit then (Inl (CsError (''Error in setPixel: val > '' @ too_large)), img)
            else (case put_at (u32 (img_nc img * (x * img_nx img + y) + c)) (nat (val mod 2 ^ b)) (pixels img) of
                Inl e \<Rightarrow> (Inl e, img)
              | Inr buf \<Rightarrow> (Inr (), set_pixels buf img)))
      in if x \<ge> img_nx img then (Inl (CsError ''Error in setPixel: x >= nx''), img)
         else if y \<ge> img_ny img then (Inl (CsError ''Error in setPixel: y >= ny''), img)
         else if c \<ge> img_nc img then (Inl (CsError ''Error in setPixel: c >= nc''), img)
         else if bps img = 8 then store 8 0xff ''0xff''
         else if bps img = 16 then store 16 0xffff ''0xffff''
         else if val > 0xffff then (Inl (CsError ''Error in setPixel: val > 0xffff''), img)
         else (Inr (), img))"

section \<open>Geometry\<close>

text \<open>A new buffer, with the width and height that go with it.\<close>

definition replace_pixels :: "exn + nat list \<Rightarrow> nat \<Rightarrow> nat \<Rightarrow> 'a \<Rightarrow> (iiif_image, 'a) act" where
  "replace_pixels r w h x img =
     (case r of Inl e \<Rightarrow> (Inl e, img) | Inr buf \<Rightarrow> (Inr x, (set_pixels buf img)\<lparr>img_nx := w, img_ny := h\<rparr>))"

definition crop :: "region \<Rightarrow> (iiif_image, bool) act" where
  "crop rg img =
     (if coord_type rg = FULL then (Inr True, img)
      else (case crop_coords (img_nx img) (img_ny img) rg of
          (Inl e, _) \<Rightarrow> (Inl e, img)
        | (Inr (_, x, y, w, h), rg1) \<Rightarrow>
            if bps_ok img
            then replace_pixels (doCrop (pixels img) (img_nx img) (img_ny img) (img_nc img) rg1) w h True img
            else (Inl (bps_unsupported (bps img)), img)))"

text \<open>The four numbers go through \<open>int32_t\<close> and \<open>float\<close>.\<close>

definition crop_at :: "nat \<Rightarrow> nat \<Rightarrow> nat \<Rightarrow> nat \<Rightarrow> (iiif_image, unit) act" where
  "crop_at x y w h =
     sbind (crop (mk_region COORDS (f32_of_int (to_int32 (int x)), f32_of_int (to_int32 (int y)), f32_of_int (int w), f32_of_int (int h)) False))
       (\<lambda>_. sret ())"

definition scaled_by ::
  "(nat \<Rightarrow> nat list \<Rightarrow> nat \<Rightarrow> nat \<Rightarrow> nat \<Rightarrow> nat \<Rightarrow> nat \<Rightarrow> exn + nat list) \<Rightarrow> nat \<Rightarrow> nat \<Rightarrow> (iiif_image, bool) act" where
  "scaled_by f nnx nny img =
     (if img_nx img = nnx \<and> img_ny img = nny then (Inr True, img)
      else if bps_ok img
      then replace_pixels (f (bps img) (pixels img) (img_nx img) (img_ny img) (img_nc img) nnx nny) nnx nny True img
      else (Inr False, img))"

definition scaleFast :: "nat \<Rightarrow> nat \<Rightarrow> (iiif_image, bool) act" where
  "scaleFast = scaled_by (\<lambda>bits. doScaleFast)"

definition scaleMedium :: "nat \<Rightarrow> nat \<Rightarrow> (iiif_image, bool) act" where
  "scaleMedium = scaled_by doScaleMedium"

definition scale :: "nat \<Rightarrow> nat \<Rightarrow> (iiif_image, bool) act" where
  "scale = scaled_by doScale"

text \<open>The height stays at its initial 0, since \<open>doReduce\<close> does not report it.\<close>

definition reduce :: "nat \<Rightarrow> (iiif_image, bool) act" where
  "reduce red img =
     (if bps_ok img then
        (case doReduce (pixels img) red (img_nx img) (img_ny img) (img_nc img) of
           Inl e \<Rightarrow> (Inl e, img)
         | Inr (buf, nnx) \<Rightarrow> (Inr True, (set_pixels buf img)\<lparr>img_nx := nnx, img_ny := 0\<rparr>))
      else (Inr False, img))"

text \<open>
  The new width and height are read whether they have been set or not. (For other sample widths than
  8 and 16 bits they are never set.)
\<close>

definition rotate_image :: "rotation_fun \<Rightarrow> rat \<Rightarrow> bool \<Rightarrow> (iiif_image, bool) act" where
  "rotate_image slanted a mirrored img =
     (if bps_ok img then
        (case doRotate slanted (pixels img) (img_nx img) (img_ny img) (img_nc img) a mirrored of
           Inl e \<Rightarrow> (Inl e, img)
         | Inr (buf, None) \<Rightarrow> (Inl Undefined, img)
         | Inr (buf, Some (w, h)) \<Rightarrow> (Inr True, (set_pixels buf img)\<lparr>img_nx := w, img_ny := h\<rparr>))
      else (Inl Undefined, img))"

definition set_topleft :: "rotation_fun \<Rightarrow> (iiif_image, bool) act" where
  "set_topleft slanted =
     swith orient (\<lambda>r.
       if r = TOPLEFT then sret True
       else sbind
         (case r of
            TOPRIGHT \<Rightarrow> rotate_image slanted 0 True
          | BOTRIGHT \<Rightarrow> rotate_image slanted 180 False
          | BOTLEFT \<Rightarrow> rotate_image slanted 180 True
          | LEFTTOP \<Rightarrow> rotate_image slanted 270 True
          | RIGHTTOP \<Rightarrow> rotate_image slanted 90 False
          | RIGHTBOT \<Rightarrow> rotate_image slanted 90 True
          | LEFTBOT \<Rightarrow> rotate_image slanted 270 False)
         (\<lambda>_. sbind (smod (\<lambda>img. img\<lparr>orient := TOPLEFT\<rparr>)) (\<lambda>_. sret True)))"

section \<open>Channels and samples\<close>

definition erase_extra :: "nat \<Rightarrow> (iiif_image, unit) act" where
  "erase_extra chan img =
     (let b = (if photo img = SEPARATED then 4 else 3) in
      if chan < b \<or> chan - b \<ge> length (es img) then (Inl Undefined, img)
      else (Inr (), img\<lparr>es := take (chan - b) (es img) @ drop (chan - b + 1) (es img)\<rparr>))"

definition cannot_remove :: "nat \<Rightarrow> nat \<Rightarrow> exn" where
  "cannot_remove n chan = CsError (''Cannot remove component: nc='' @ dec_string n @ '' chan='' @ dec_string chan)"

definition remove_extra :: "nat \<Rightarrow> (iiif_image, unit) act" where
  "remove_extra chan img =
     (if es img = [] then (Inr (), img)
      else if img_nc img < 3 then (Inr (), img\<lparr>es := []\<rparr>)
      else if img_nc img > 3 then
        (if img_nc img = 4 \<and> photo img = SEPARATED then (Inl (cannot_remove (img_nc img) chan), img)
         else erase_extra chan img)
      else (Inl (cannot_remove (img_nc img) chan), img))"

text \<open>The samples behind the channel that is left out keep their old place in the pixel.\<close>

definition drop_channel :: "nat list \<Rightarrow> nat \<Rightarrow> nat \<Rightarrow> nat \<Rightarrow> nat \<Rightarrow> exn + nat list" where
  "drop_channel buf nx ny nc chan =
     for_pixels nx ny nc
       (\<lambda>j i k out.
          if k = chan then Inr out
          else (case get_at buf (nc * (j * nx + i) + k) of
              Inl e \<Rightarrow> Inl e
            | Inr v \<Rightarrow> put_at ((nc - 1) * (j * nx + i) + k) v out))
       (replicate ((nc - 1) * nx * ny) 0)"

definition removeChan :: "nat \<Rightarrow> (iiif_image, unit) act" where
  "removeChan chan =
     swith img_nc (\<lambda>n.
       if n = 1 \<or> chan \<ge> n then sthrow (cannot_remove n chan)
       else sbind (remove_extra chan) (\<lambda>_ img.
         if bps_ok img then
           (case drop_channel (pixels img) (img_nx img) (img_ny img) n chan of
              Inl e \<Rightarrow> (Inl e, img)
            | Inr buf \<Rightarrow> (Inr (), (set_pixels buf img)\<lparr>img_nc := n - 1\<rparr>))
         else (Inl (bps_unsupported (bps img)), img)))"

definition clamp :: "int \<Rightarrow> int \<Rightarrow> nat" where
  "clamp limit v = nat (max 0 (min limit v))"

text \<open>
  The conversion from luminance and chrominance, in \<open>double\<close>; the result is cut off, then kept in
  range. Channels from the fourth on are copied.
\<close>

definition ycc_sample :: "int \<Rightarrow> rat \<Rightarrow> rat \<Rightarrow> rat \<Rightarrow> nat \<Rightarrow> nat" where
  "ycc_sample limit lum cb cr k =
     clamp limit (trunc
       (if k = 0 then f64 (lum + f64 (f64 (1402 / 1000) * (cr - 128)))
        else if k = 1 then f64 (f64 (lum - f64 (f64 (34414 / 100000) * (cb - 128))) - f64 (f64 (71414 / 100000) * (cr - 128)))
        else f64 (lum + f64 (f64 (1772 / 1000) * (cb - 128)))))"

definition ycc_pixel :: "int \<Rightarrow> nat list \<Rightarrow> nat \<Rightarrow> nat \<Rightarrow> nat \<Rightarrow> nat \<Rightarrow> nat list \<Rightarrow> exn + nat list" where
  "ycc_pixel limit buf nc nx j i out =
     (let base = nc * (j * nx + i) in
      case get_at buf (base + 2) of Inl e \<Rightarrow> Inl e | Inr lum \<Rightarrow>
      (case get_at buf (base + 1) of Inl e \<Rightarrow> Inl e | Inr cb \<Rightarrow>
      (case get_at buf base of Inl e \<Rightarrow> Inl e | Inr cr \<Rightarrow>
      (case for_each (\<lambda>k. put_at (base + k) (ycc_sample limit (of_nat lum) (of_nat cb) (of_nat cr) k)) [0, 1, 2] out of
         Inl e \<Rightarrow> Inl e
       | Inr out1 \<Rightarrow> for_each (\<lambda>k o1. case get_at buf (base + k) of Inl e \<Rightarrow> Inl e | Inr v \<Rightarrow> put_at (base + k) v o1)
           [3..<nc] out1))))"

definition convertYCC2RGB :: "(iiif_image, unit) act" where
  "convertYCC2RGB img =
     (if bps_ok img then
        replace_pixels
          (for_each (\<lambda>j. for_each (\<lambda>i. ycc_pixel (2 ^ bps img - 1) (pixels img) (img_nc img) (img_nx img) j i) [0..<img_nx img])
             [0..<img_ny img] (replicate (u32 (img_nc img * img_nx img * img_ny img)) 0))
          (img_nx img) (img_ny img) () img
      else (Inl (bps_unsupported (bps img)), img))"

definition to8bps :: "(iiif_image, bool) act" where
  "to8bps img =
     (if bps img = 16 then
        (case for_each (\<lambda>i out. case get_at (wpixels img) i of Inl e \<Rightarrow> Inl e | Inr v \<Rightarrow> put_at i (v div 256) out)
                [0..<sample_count img] (replicate (sample_count img) 0) of
           Inl e \<Rightarrow> (Inl e, img)
         | Inr buf \<Rightarrow> (Inr True, img\<lparr>bpixels := buf, bps := 8\<rparr>))
      else (Inr True, img))"

section \<open>Black and white\<close>

fun any_gray :: "nat list \<Rightarrow> nat list \<Rightarrow> exn + bool" where
  "any_gray buf [] = Inr False"
| "any_gray buf (i # is) =
     (case get_at buf i of
        Inl e \<Rightarrow> Inl e
      | Inr v \<Rightarrow> if v \<noteq> 0 \<and> v \<noteq> 255 then Inr True else any_gray buf is)"

definition to_int16 :: "int \<Rightarrow> int" where
  "to_int16 k = (k + 2 ^ 15) mod 2 ^ 16 - 2 ^ 15"

definition add_error :: "bool \<Rightarrow> nat \<Rightarrow> int \<Rightarrow> int list \<Rightarrow> exn + int list" where
  "add_error cond slot amount buf =
     (if cond then (case get_at buf slot of Inl e \<Rightarrow> Inl e | Inr v \<Rightarrow> put_at slot (to_int16 (v + amount)) buf) else Inr buf)"

text \<open>One pixel of the error diffusion: the parts of the error are shifted, so rounded down.\<close>

definition dither_pixel :: "nat \<Rightarrow> nat \<Rightarrow> nat \<Rightarrow> nat \<Rightarrow> int list \<Rightarrow> exn + int list" where
  "dither_pixel nx ny y x buf =
     (case get_at buf (y * nx + x) of Inl e \<Rightarrow> Inl e | Inr oldpixel \<Rightarrow>
      let newpixel = (if oldpixel > 127 then 255 else 0); properr = oldpixel - newpixel in
      (case put_at (y * nx + x) newpixel buf of Inl e \<Rightarrow> Inl e | Inr b0 \<Rightarrow>
      (case add_error (x < nx - 1) (y * nx + (x + 1)) (7 * properr div 16) b0 of Inl e \<Rightarrow> Inl e | Inr b1 \<Rightarrow>
      (case add_error (x > 0 \<and> y < ny - 1) ((y + 1) * nx + (x - 1)) (3 * properr div 16) b1 of Inl e \<Rightarrow> Inl e | Inr b2 \<Rightarrow>
      (case add_error (y < ny - 1) ((y + 1) * nx + x) (5 * properr div 16) b2 of Inl e \<Rightarrow> Inl e | Inr b3 \<Rightarrow>
       add_error (x < nx - 1 \<and> y < ny - 1) ((y + 1) * nx + (x + 1)) (properr div 16) b3)))))"

definition dither :: "nat \<Rightarrow> nat \<Rightarrow> int list \<Rightarrow> exn + int list" where
  "dither nx ny = for_each (\<lambda>y. for_each (dither_pixel nx ny y) [0..<nx]) [0..<ny]"

definition to_shorts :: "nat list \<Rightarrow> nat \<Rightarrow> exn + int list" where
  "to_shorts buf n =
     for_each (\<lambda>i out. case get_at buf i of Inl e \<Rightarrow> Inl e | Inr v \<Rightarrow> put_at i (int v) out) [0..<n] (replicate n 0)"

definition from_shorts :: "int list \<Rightarrow> nat \<Rightarrow> nat list \<Rightarrow> exn + nat list" where
  "from_shorts vals n =
     for_each (\<lambda>i out. case get_at vals i of Inl e \<Rightarrow> Inl e | Inr v \<Rightarrow> put_at i (nat (v mod 256)) out) [0..<n]"

definition bitonal_pixels :: "nat list \<Rightarrow> nat \<Rightarrow> nat \<Rightarrow> exn + nat list" where
  "bitonal_pixels buf nx ny =
     (let n = u32 (nx * ny) in
      case any_gray buf [0..<n] of Inl e \<Rightarrow> Inl e | Inr doit \<Rightarrow>
        if \<not> doit then Inr buf
        else (case to_shorts buf n of Inl e \<Rightarrow> Inl e | Inr vals \<Rightarrow>
             (case dither nx ny vals of Inl e \<Rightarrow> Inl e | Inr vals1 \<Rightarrow> from_shorts vals1 n buf)))"

type_synonym icc_conversion = "predefined_profile \<Rightarrow> nat \<Rightarrow> (iiif_image, unit) act"

definition toBitonal :: "icc_conversion \<Rightarrow> (iiif_image, bool) act" where
  "toBitonal to_icc =
     sbind (swith photo (\<lambda>p. if p \<noteq> MINISBLACK \<and> p \<noteq> MINISWHITE then to_icc icc_GRAY_D50 8 else sret ())) (\<lambda>_ img.
       case bitonal_pixels (bpixels img) (img_nx img) (img_ny img) of
         Inl e \<Rightarrow> (Inl e, img)
       | Inr buf \<Rightarrow> (Inr True, img\<lparr>bpixels := buf\<rparr>))"

end
