(* ===== verification/Raster.thy ===== *)
theory Raster
  imports Image
begin

text \<open>
Loops over pixels and what they compute: filling a buffer from the front, the samples of a picture in the order of a buffer, and the one lemma by which a loop that fills a new image gives the raster of a picture.
\<close>

section \<open>Loops over an interval\<close>

lemma for_range:
  assumes "\<And>q. a \<le> q \<Longrightarrow> q < b \<Longrightarrow> f q (S q) = Inr (S (Suc q))" and "a \<le> b"
  shows "for_each f [a..<b] (S a) = Inr (S b)"
  using assms(2,1)
proof (induction "b - a" arbitrary: a)
  case (Suc n)
  then have "a < b" by simp
  then have "[a..<b] = a # [Suc a..<b]" by (rule upt_conv_Cons)
  then show ?case using Suc \<open>a < b\<close> by simp
qed simp

lemma for_each_append:
  "for_each f (xs @ ys) s = (case for_each f xs s of Inl e \<Rightarrow> Inl e | Inr s1 \<Rightarrow> for_each f ys s1)"
  by (induction xs arbitrary: s) (auto split: sum.splits)

text \<open>The state of a buffer that is filled from the front.\<close>

definition filled :: "'a list \<Rightarrow> 'a list \<Rightarrow> nat \<Rightarrow> 'a list" where
  "filled target out q = take q target @ drop q out"

lemma filled_0 [simp]: "filled target out 0 = out"
  by (simp add: filled_def)

lemma filled_all: "length out = length target \<Longrightarrow> filled target out (length target) = target"
  by (simp add: filled_def)

lemma filled_put:
  assumes "q < length target" "length out = length target"
  shows "put_at q (target ! q) (filled target out q) = Inr (filled target out (Suc q))"
proof -
  have "drop q out = out ! q # drop (Suc q) out" using assms by (simp add: Cons_nth_drop_Suc)
  then have "(filled target out q)[q := target ! q] = take q target @ target ! q # drop (Suc q) out"
    using assms by (simp add: filled_def list_update_append)
  also have "\<dots> = filled target out (Suc q)"
    using assms(1) by (simp add: filled_def take_Suc_conv_app_nth)
  finally show ?thesis using assms by (simp add: put_at_def filled_def)
qed

text \<open>A loop that computes one sample after the other.\<close>

lemma fill_loop:
  assumes "\<And>i. i < n \<Longrightarrow> val i = Inr (target ! i)" and "length target = n" "length out = n"
  shows "for_each (\<lambda>i o1. case val i of Inl e \<Rightarrow> Inl e | Inr v \<Rightarrow> put_at i v o1) [0..<n] out = Inr target"
proof -
  have "for_each (\<lambda>i o1. case val i of Inl e \<Rightarrow> Inl e | Inr v \<Rightarrow> put_at i v o1) [0..<n] (filled target out 0)
      = Inr (filled target out n)"
    by (rule for_range) (use assms filled_put [of _ target out] in auto)
  then show ?thesis using filled_all [of out target] assms(2,3) by simp
qed

lemma for_each_cong: "(\<And>x s. x \<in> set xs \<Longrightarrow> f x s = g x s) \<Longrightarrow> for_each f xs s = for_each g xs s"
  by (induction xs arbitrary: s) (auto split: sum.splits)

text \<open>A loop in which only undefined behaviour can go wrong, and in some round does.\<close>

lemma for_each_undefined_inv:
  assumes "\<And>x s e. x \<in> set xs \<Longrightarrow> f x s = Inl e \<Longrightarrow> e = Undefined" and "x \<in> set xs"
    and "\<And>s. I s \<Longrightarrow> f x s = Inl Undefined" and "\<And>x s s'. I s \<Longrightarrow> f x s = Inr s' \<Longrightarrow> I s'" and "I s"
  shows "for_each f xs s = Inl Undefined"
  using assms(1,2,5)
proof (induction xs arbitrary: s)
  case (Cons y ys)
  show ?case
  proof (cases "f y s")
    case (Inl e)
    then show ?thesis using Cons.prems(1) [of y s e] by simp
  next
    case (Inr t)
    with assms(3) [OF Cons.prems(3)] have "y \<noteq> x" by auto
    then have "x \<in> set ys" using Cons.prems(2) by auto
    moreover have "e = Undefined" if "z \<in> set ys" "f z s1 = Inl e" for z s1 e
      using Cons.prems(1) [of z s1 e] that by simp
    moreover have "I t" using assms(4) [OF Cons.prems(3) Inr] .
    ultimately have "for_each f ys t = Inl Undefined" by (intro Cons.IH)
    with Inr show ?thesis by simp
  qed
qed simp

lemma for_each_undefined:
  assumes "\<And>x s e. x \<in> set xs \<Longrightarrow> f x s = Inl e \<Longrightarrow> e = Undefined" and "x \<in> set xs" and "\<And>s. f x s = Inl Undefined"
  shows "for_each f xs s = Inl Undefined"
  by (rule for_each_undefined_inv [where I = "\<lambda>s. True"]) (use assms in auto)

lemma for_each_keeps:
  assumes "\<And>x s s'. I s \<Longrightarrow> f x s = Inr s' \<Longrightarrow> I s'" and "I s" and "for_each f xs s = Inr s'"
  shows "I s'"
  using assms(2,3)
proof (induction xs arbitrary: s)
  case (Cons y ys)
  then show ?case using assms(1) by (auto split: sum.splits)
qed simp

lemma for_each_only_undefined:
  assumes "\<And>x s e. x \<in> set xs \<Longrightarrow> f x s = Inl e \<Longrightarrow> e = Undefined" and "for_each f xs s = Inl e"
  shows "e = Undefined"
  using assms by (induction xs arbitrary: s) (auto split: sum.splits)

lemma access_undefined: "get_at buf i = Inl e \<Longrightarrow> e = Undefined" "put_at i v b = Inl e \<Longrightarrow> e = Undefined"
  by (auto simp: get_at_def put_at_def split: if_splits)

section \<open>Rasters\<close>

text \<open>
  The samples of a picture, which is a function of row, column and channel, in the order of a buffer, and the
  picture in a buffer.
\<close>

type_synonym picture = "nat \<Rightarrow> nat \<Rightarrow> nat \<Rightarrow> nat"

definition raster :: "nat \<Rightarrow> nat \<Rightarrow> nat \<Rightarrow> picture \<Rightarrow> nat list" where
  "raster w h nc v = map (\<lambda>p. v (p div nc div w) (p div nc mod w) (p mod nc)) [0..<w * h * nc]"

definition sample :: "nat \<Rightarrow> nat \<Rightarrow> nat list \<Rightarrow> picture" where
  "sample nc w buf j i k = buf ! (nc * (j * w + i) + k)"

lemma length_raster [simp]: "length (raster w h nc v) = w * h * nc"
  by (simp add: raster_def)

lemma index_bound:
  assumes "i < w" "j < h" "k < (nc :: nat)"
  shows "nc * (j * w + i) + k < w * h * nc"
proof -
  have "j * w + i < h * w"
  proof -
    have "j * w + i < j * w + w" using assms(1) by simp
    also have "\<dots> = Suc j * w" by simp
    also have "\<dots> \<le> h * w" using assms(2) by (intro mult_le_mono1) simp
    finally show ?thesis .
  qed
  then have "nc * (j * w + i) + nc \<le> nc * (h * w)"
    by (metis Suc_leI mult_Suc_right mult_le_mono2 add.commute)
  with assms(3) show ?thesis by (simp add: ac_simps)
qed

lemma raster_nth:
  assumes "i < w" "j < h" "k < nc"
  shows "raster w h nc v ! (nc * (j * w + i) + k) = v j i k"
proof -
  let ?p = "nc * (j * w + i) + k"
  have "?p div nc = j * w + i" "?p mod nc = k" using assms(3) by simp_all
  moreover have "(j * w + i) div w = j" "(j * w + i) mod w = i" using assms(1) by simp_all
  ultimately show ?thesis using index_bound [OF assms] by (simp add: raster_def)
qed

lemma sample_raster: "i < w \<Longrightarrow> j < h \<Longrightarrow> k < nc \<Longrightarrow> sample nc w (raster w h nc v) j i k = v j i k"
  by (simp add: sample_def raster_nth)

lemma split_index:
  assumes "p < w * h * (nc :: nat)"
  obtains j i k where "p = nc * (j * w + i) + k" "i < w" "j < h" "k < nc"
proof -
  have nz: "0 < nc" "0 < w" using assms by (auto intro: gr0I)
  have "p div nc < h * w" using assms nz by (simp add: less_mult_imp_div_less ac_simps)
  then have "p div nc div w < h" by (simp add: less_mult_imp_div_less)
  moreover have "p div nc = p div nc div w * w + p div nc mod w" by simp
  moreover have "p = nc * (p div nc) + p mod nc" by simp
  ultimately show thesis using that [of "p div nc div w" "p div nc mod w" "p mod nc"] nz by simp
qed

lemma raster_cong:
  assumes "\<And>j i k. i < w \<Longrightarrow> j < h \<Longrightarrow> k < nc \<Longrightarrow> u j i k = v j i k"
  shows "raster w h nc u = raster w h nc v"
proof (rule nth_equalityI)
  fix p assume "p < length (raster w h nc u)"
  then have "p < w * h * nc" by simp
  then obtain j i k where "p = nc * (j * w + i) + k" "i < w" "j < h" "k < nc" by (rule split_index)
  then show "raster w h nc u ! p = raster w h nc v ! p" using assms by (simp add: raster_nth)
qed simp

lemma raster_sample:
  assumes "length buf = w * h * nc"
  shows "raster w h nc (sample nc w buf) = buf"
proof (rule nth_equalityI)
  fix p assume "p < length (raster w h nc (sample nc w buf))"
  then have "p < w * h * nc" by simp
  then obtain j i k where "p = nc * (j * w + i) + k" "i < w" "j < h" "k < nc" by (rule split_index)
  then show "raster w h nc (sample nc w buf) ! p = buf ! p" by (simp add: raster_nth sample_def)
qed (simp add: assms)

lemma fill_pixels_raster:
  assumes "w * h * nc < 2 ^ 32" and "\<And>j i k. i < w \<Longrightarrow> j < h \<Longrightarrow> k < nc \<Longrightarrow> val j i k = Inr (v j i k)"
  shows "fill_pixels w h nc val = Inr (raster w h nc v)"
proof -
  let ?t = "raster w h nc v" and ?o = "new_buffer w h nc"
  let ?S = "filled ?t ?o"
  let ?f = "\<lambda>j i k out. case val j i k of Inl e \<Rightarrow> Inl e | Inr x \<Rightarrow> put_at (position nc w i j k) x out"
  have o: "length ?o = length ?t" using assms(1) by (simp add: new_buffer_def u32_def)
  have k: "for_each (?f j i) [0..<nc] (?S (nc * (j * w + i) + 0)) = Inr (?S (nc * (j * w + i) + nc))"
    if ij: "i < w" "j < h" for i j
  proof (rule for_range [where S = "\<lambda>k. ?S (nc * (j * w + i) + k)"])
    fix q assume q: "0 \<le> q" "q < nc"
    have b: "nc * (j * w + i) + q < w * h * nc" by (rule index_bound [OF ij q(2)])
    with assms(1) have "position nc w i j q = nc * (j * w + i) + q" by (simp add: position_def u32_def)
    moreover have "val j i q = Inr (?t ! (nc * (j * w + i) + q))"
      using assms(2) [OF ij q(2)] raster_nth [OF ij q(2), of v] by simp
    ultimately show "?f j i q (?S (nc * (j * w + i) + q)) = Inr (?S (nc * (j * w + i) + Suc q))"
      using filled_put [of "nc * (j * w + i) + q" ?t ?o] b o by simp
  qed simp
  have i: "for_each (\<lambda>i. for_each (?f j i) [0..<nc]) [0..<w] (?S (nc * (j * w + 0))) = Inr (?S (nc * (j * w + w)))"
    if j: "j < h" for j
  proof (rule for_range [where S = "\<lambda>i. ?S (nc * (j * w + i))"])
    fix q assume "0 \<le> q" "q < w"
    then show "for_each (?f j q) [0..<nc] (?S (nc * (j * w + q))) = Inr (?S (nc * (j * w + Suc q)))"
      using k [of q j] j by (simp add: algebra_simps)
  qed simp
  have "for_each (\<lambda>j. for_each (\<lambda>i. for_each (?f j i) [0..<nc]) [0..<w]) [0..<h] (?S (nc * (0 * w))) = Inr (?S (nc * (h * w)))"
  proof (rule for_range [where S = "\<lambda>j. ?S (nc * (j * w))"])
    fix q assume "0 \<le> q" "q < h"
    then show "for_each (\<lambda>i. for_each (?f q i) [0..<nc]) [0..<w] (?S (nc * (q * w))) = Inr (?S (nc * (Suc q * w)))"
      using i [of q] by (simp add: algebra_simps)
  qed simp
  moreover have "?S (nc * (h * w)) = ?t" using filled_all [OF o] by (simp add: ac_simps)
  ultimately show ?thesis by (simp add: fill_pixels_def for_pixels_def)
qed

end
