(* ===== verification/Turns.thy ===== *)
theory Turns
  imports Raster RegionProps
begin

text \<open>
Rotation, mirroring and orientation: each loop of \<open>doRotate\<close> moves pixels as its picture says (a locale for all of them), so that \<open>IIIFImage::rotate\<close> implements turning a picture.
\<close>

section \<open>Operations that move pixels\<close>

text \<open>
  An operation that fills a new image with samples of the old one: \<open>row\<close> and \<open>col\<close> say where the sample
  of a new pixel comes from. When all of these places lie in the old image, nothing undefined happens, and the new
  buffer holds the moved picture.
\<close>

locale pixel_move =
  fixes oper :: "nat list \<Rightarrow> nat \<Rightarrow> nat \<Rightarrow> nat \<Rightarrow> exn + nat list"
    and new_w new_h :: "nat \<Rightarrow> nat \<Rightarrow> nat"
    and row col :: "nat \<Rightarrow> nat \<Rightarrow> nat \<Rightarrow> nat \<Rightarrow> nat"
    and dims_ok :: "nat \<Rightarrow> nat \<Rightarrow> bool"
  assumes oper: "dims_ok nx ny \<Longrightarrow> oper buf nx ny nc = fill_pixels (new_w nx ny) (new_h nx ny) nc
      (\<lambda>j i k. get_at buf (position nc nx (col nx ny j i) (row nx ny j i) k))"
    and inside: "dims_ok nx ny \<Longrightarrow> j < new_h nx ny \<Longrightarrow> i < new_w nx ny \<Longrightarrow> col nx ny j i < nx \<and> row nx ny j i < ny"
    and area: "dims_ok nx ny \<Longrightarrow> new_w nx ny * new_h nx ny \<le> nx * ny"
begin

lemma moved:
  assumes "dims_ok nx ny" "length buf = nx * ny * nc" "nx * ny * nc < 2 ^ 32"
  shows "oper buf nx ny nc = Inr (raster (new_w nx ny) (new_h nx ny) nc
    (\<lambda>j i k. sample nc nx buf (row nx ny j i) (col nx ny j i) k))"
  unfolding oper [OF assms(1)]
proof (rule fill_pixels_raster)
  have "new_w nx ny * new_h nx ny * nc \<le> nx * ny * nc" using area [OF assms(1)] by simp
  with assms(3) show "new_w nx ny * new_h nx ny * nc < 2 ^ 32" by linarith
next
  fix j i k assume ijk: "i < new_w nx ny" "j < new_h nx ny" "k < nc"
  then have c: "col nx ny j i < nx" "row nx ny j i < ny" using inside [OF assms(1)] by blast+
  have b: "nc * (row nx ny j i * nx + col nx ny j i) + k < nx * ny * nc" by (rule index_bound [OF c ijk(3)])
  then show "get_at buf (position nc nx (col nx ny j i) (row nx ny j i) k) =
      Inr (sample nc nx buf (row nx ny j i) (col nx ny j i) k)"
    using assms(2,3) by (simp add: get_at_def position_def u32_def sample_def)
qed

end

interpretation mirrored: pixel_move doMirror "\<lambda>nx ny. nx" "\<lambda>nx ny. ny" "\<lambda>nx ny j i. j" "\<lambda>nx ny j i. nx - i - 1" "\<lambda>nx ny. True"
  by unfold_locales (simp_all add: doMirror_def)

interpretation quarter: pixel_move turn90 "\<lambda>nx ny. ny" "\<lambda>nx ny. nx" "\<lambda>nx ny j i. ny - i - 1" "\<lambda>nx ny j i. j" "\<lambda>nx ny. True"
  by unfold_locales (simp_all add: turn90_def)

interpretation two_quarters: pixel_move turn180 "\<lambda>nx ny. nx" "\<lambda>nx ny. ny" "\<lambda>nx ny j i. ny - j - 1" "\<lambda>nx ny j i. nx - i - 1" "\<lambda>nx ny. True"
  by unfold_locales (simp_all add: turn180_def)

interpretation three_quarters: pixel_move turn270 "\<lambda>nx ny. ny" "\<lambda>nx ny. nx" "\<lambda>nx ny j i. i" "\<lambda>nx ny j i. nx - j - 1" "\<lambda>nx ny. True"
  by unfold_locales (simp_all add: turn270_def)

section \<open>Images and pictures\<close>

text \<open>The picture that an image shows.\<close>

definition shows_picture :: "iiif_image \<Rightarrow> nat \<Rightarrow> nat \<Rightarrow> picture \<Rightarrow> bool" where
  "shows_picture img w h p \<longleftrightarrow> img_nx img = w \<and> img_ny img = h \<and> bps_ok img \<and> w * h * img_nc img < 2 ^ 32 \<and>
     pixels img = raster w h (img_nc img) p"

lemma set_pixels_simps [simp]:
  "pixels (set_pixels buf img) = buf" "img_nx (set_pixels buf img) = img_nx img" "img_ny (set_pixels buf img) = img_ny img"
  "img_nc (set_pixels buf img) = img_nc img" "bps (set_pixels buf img) = bps img" "orient (set_pixels buf img) = orient img"
  "es (set_pixels buf img) = es img" "photo (set_pixels buf img) = photo img"
  by (simp_all add: set_pixels_def pixels_def)

lemma pixels_update [simp]:
  "pixels (img\<lparr>img_nx := w\<rparr>) = pixels img" "pixels (img\<lparr>img_ny := h\<rparr>) = pixels img"
  "pixels (img\<lparr>orient := r\<rparr>) = pixels img"
  by (simp_all add: pixels_def)

lemma bps_ok_cong: "bps img' = bps img \<Longrightarrow> bps_ok img' = bps_ok img"
  by (simp add: bps_ok_def)

text \<open>A picture turned by \<open>q\<close> quarters to the right, one after the other, and its mirror image.\<close>

definition mirror_picture :: "nat \<Rightarrow> picture \<Rightarrow> picture" where
  "mirror_picture w p = (\<lambda>j i. p j (w - 1 - i))"

fun quarter_turns :: "nat \<Rightarrow> nat \<times> nat \<times> picture \<Rightarrow> nat \<times> nat \<times> picture" where
  "quarter_turns 0 x = x"
| "quarter_turns (Suc q) (w, h, p) = quarter_turns q (h, w, \<lambda>j i. p (h - 1 - i) j)"

lemma norm_angle_small: "0 \<le> a \<Longrightarrow> a < 360 \<Longrightarrow> norm_angle a = Inr a"
  by (simp add: norm_angle_def angle_up.simps [of a] angle_down.simps [of a])

lemma turned_raster:
  assumes "q \<in> {1, 2, 3}" and "w * h * nc < 2 ^ 32" and "quarter_turns q (w, h, p) = (w', h', p')"
  shows "turn slanted (raster w h nc p) w h nc (90 * of_nat q) = Inr (raster w' h' nc p', Some (w', h'))"
proof -
  have l: "length (raster w h nc p) = w * h * nc" by simp
  note m = quarter.moved [OF TrueI l assms(2)] two_quarters.moved [OF TrueI l assms(2)] three_quarters.moved [OF TrueI l assms(2)]
  consider "q = 1" | "q = 2" | "q = 3" using assms(1) by blast
  then show ?thesis
  proof cases
    case 1
    then have "w' = h" "h' = w" "p' = (\<lambda>j i. p (h - 1 - i) j)" using assms(3) by auto
    with 1 m(1) show ?thesis
      by (auto simp: turn_def with_dims_of_def sample_raster intro!: raster_cong)
  next
    case 2
    then have "w' = w" "h' = h" "p' = (\<lambda>j i. p (h - 1 - j) (w - 1 - i))"
      using assms(3) by (auto simp: numeral_2_eq_2)
    with 2 m(2) show ?thesis
      by (auto simp: turn_def with_dims_of_def sample_raster intro!: raster_cong)
  next
    case 3
    then have "w' = h" "h' = w" "p' = (\<lambda>j i. p (h - 1 - (h - 1 - i)) (w - 1 - j))"
      using assms(3) by (auto simp: numeral_3_eq_3)
    with 3 m(3) show ?thesis
      by (auto simp: turn_def with_dims_of_def sample_raster intro!: raster_cong)
  qed
qed

lemma mirrored_raster:
  assumes "w * h * nc < 2 ^ 32"
  shows "doMirror (raster w h nc p) w h nc = Inr (raster w h nc (mirror_picture w p))"
proof -
  have l: "length (raster w h nc p) = w * h * nc" by simp
  show ?thesis unfolding mirrored.moved [OF TrueI l assms]
    by (auto simp: sample_raster mirror_picture_def intro!: raster_cong)
qed

lemma rotate_picture:
  assumes "shows_picture img w h p" and "q \<in> {1, 2, 3}"
    and "quarter_turns q (w, h, if m then mirror_picture w p else p) = (w', h', p')"
  shows "rotate_image slanted (90 * of_nat q) m img =
    (Inr True, (set_pixels (raster w' h' (img_nc img) p') img)\<lparr>img_nx := w', img_ny := h'\<rparr>)"
proof -
  have i: "img_nx img = w" "img_ny img = h" "bps_ok img" "w * h * img_nc img < 2 ^ 32" "pixels img = raster w h (img_nc img) p"
    using assms(1) by (simp_all add: shows_picture_def)
  have a: "norm_angle (90 * of_nat q) = Inr (90 * of_nat q)"
    by (rule norm_angle_small) (use assms(2) in auto)
  have b: "(if m then doMirror (pixels img) w h (img_nc img) else Inr (pixels img)) =
      Inr (raster w h (img_nc img) (if m then mirror_picture w p else p))"
    using i(4,5) by (simp add: mirrored_raster)
  show ?thesis
    unfolding rotate_image_def doRotate_def i(1,2) b a sum.case turned_raster [OF assms(2) i(4) assms(3)]
    using i(3) by simp
qed

lemma quarter_turns_area: "quarter_turns q (w, h, p) = (w', h', p') \<Longrightarrow> w' * h' = w * h"
  by (induction q arbitrary: w h p) auto

lemma shows_replaced:
  assumes "shows_picture img w h p" and "w' * h' = w * h"
  shows "shows_picture ((set_pixels (raster w' h' (img_nc img) p') img)\<lparr>img_nx := w', img_ny := h'\<rparr>) w' h' p'"
  using assms by (simp add: shows_picture_def bps_ok_def)

text \<open>
  C8: Rotation by right angles does to the picture what it says: the image that was mirrored, if asked
  for, and turned by one, two or three quarters shows the mirror image turned to the right as often, in an
  image of the right width and height; all pixels that are read and written lie in their buffers, and nothing else of
  the image changes.
\<close>

theorem rotate_refines_turns:
  assumes "shows_picture img w h p" and "q \<in> {1, 2, 3}"
  shows "\<exists>buf w' h' p'. quarter_turns q (w, h, if m then mirror_picture w p else p) = (w', h', p') \<and>
    rotate_image slanted (90 * of_nat q) m img = (Inr True, (set_pixels buf img)\<lparr>img_nx := w', img_ny := h'\<rparr>) \<and>
    shows_picture ((set_pixels buf img)\<lparr>img_nx := w', img_ny := h'\<rparr>) w' h' p'"
proof -
  obtain w' h' p' where t: "quarter_turns q (w, h, if m then mirror_picture w p else p) = (w', h', p')"
    by (metis prod_cases3)
  from rotate_picture [OF assms t] shows_replaced [OF assms(1) quarter_turns_area [OF t]] t show ?thesis by blast
qed

text \<open>An image of two rows and three columns.\<close>

definition demo_image :: iiif_image where
  "demo_image = no_image\<lparr>img_nx := 3, img_ny := 2, img_nc := 1, bps := 8, photo := MINISBLACK, bpixels := [1, 2, 3, 4, 5, 6]\<rparr>"

lemma demo_shows: "shows_picture demo_image 3 2 (\<lambda>j i k. 3 * j + i + 1)"
  by (simp add: shows_picture_def demo_image_def bps_ok_def pixels_def raster_def upt_rec no_image_def)

lemma rotate_refines_turns_witness:
  "\<exists>buf. rotate_image (\<lambda>b x y c a. Inl Undefined) (90 * of_nat 1) False demo_image =
     (Inr True, (set_pixels buf demo_image)\<lparr>img_nx := 2, img_ny := 3\<rparr>)"
  using rotate_refines_turns [OF demo_shows, of 1 False "\<lambda>b x y c a. Inl Undefined"] by fastforce

section \<open>Turning back, standing upright\<close>

lemma set_pixels_twice [simp]: "set_pixels b (set_pixels a img) = set_pixels b img"
  by (simp add: set_pixels_def)

lemma set_pixels_same [simp]: "set_pixels (pixels img) img = img"
  by (simp add: set_pixels_def pixels_def)

lemma set_pixels_dims:
  "set_pixels b (img\<lparr>img_nx := w, img_ny := h\<rparr>) = (set_pixels b img)\<lparr>img_nx := w, img_ny := h\<rparr>"
  by (simp add: set_pixels_def)

lemma quarter_turns_add: "quarter_turns (a + b) x = quarter_turns b (quarter_turns a x)"
proof (induction a arbitrary: x)
  case (Suc a)
  show ?case by (cases x) (simp add: Suc)
qed simp

text \<open>Four quarters leave the picture inside its frame as it was.\<close>

lemma quarter_turns_four:
  assumes "quarter_turns 4 (w, h, p) = (w', h', p')"
  shows "w' = w \<and> h' = h \<and> (\<forall>j < h. \<forall>i < w. p' j i = p j i)"
proof -
  have "w' = w" "h' = h" "p' = (\<lambda>j i. p (h - 1 - (h - 1 - j)) (w - 1 - (w - 1 - i)))"
    using assms by (auto simp: eval_nat_numeral)
  then show ?thesis by simp
qed

text \<open>
  Rotations can be taken back: an image that was turned by \<open>q\<close> quarters and is turned by the other
  \<open>4 - q\<close> is the image it was, with all its fields.
\<close>

theorem rotate_back:
  assumes "shows_picture img w h p" and "q \<in> {1, 2, 3}"
    and "rotate_image slanted (90 * of_nat q) False img = (Inr r, img')"
  shows "rotate_image slanted (90 * of_nat (4 - q)) False img' = (Inr True, img)"
proof -
  obtain w' h' p' where t: "quarter_turns q (w, h, p) = (w', h', p')" by (metis prod_cases3)
  have i: "img' = (set_pixels (raster w' h' (img_nc img) p') img)\<lparr>img_nx := w', img_ny := h'\<rparr>"
    using rotate_picture [OF assms(1,2), of False w' h' p' slanted] assms(3) t by simp
  have s: "shows_picture img' w' h' p'"
    unfolding i by (rule shows_replaced [OF assms(1) quarter_turns_area [OF t]])
  have q: "4 - q \<in> {1, 2, 3}" "q + (4 - q) = 4" using assms(2) by auto
  obtain w2 h2 p2 where t2: "quarter_turns (4 - q) (w', h', p') = (w2, h2, p2)" by (metis prod_cases3)
  have "quarter_turns 4 (w, h, p) = (w2, h2, p2)"
    using quarter_turns_add [of q "4 - q" "(w, h, p)"] q(2) t t2 by simp
  note round_trip = quarter_turns_four [OF this]
  have p: "raster w2 h2 (img_nc img') p2 = pixels img"
  proof -
    have "raster w h (img_nc img) p2 = raster w h (img_nc img) p"
      by (rule raster_cong) (use round_trip in simp)
    then show ?thesis using round_trip assms(1) by (simp add: i shows_picture_def)
  qed
  have "rotate_image slanted (90 * of_nat (4 - q)) False img' =
      (Inr True, (set_pixels (pixels img) img')\<lparr>img_nx := w2, img_ny := h2\<rparr>)"
    using rotate_picture [OF s q(1), of False w2 h2 p2 slanted] t2 p by simp
  moreover have "(set_pixels (pixels img) img')\<lparr>img_nx := w2, img_ny := h2\<rparr> = img\<lparr>img_nx := w, img_ny := h\<rparr>"
    using round_trip by (simp only: i set_pixels_dims set_pixels_twice set_pixels_same) simp
  moreover have "img\<lparr>img_nx := w, img_ny := h\<rparr> = img" using assms(1) by (simp add: shows_picture_def) 
  ultimately show ?thesis by simp
qed

lemma demo_turn: "\<exists>img'. rotate_image (\<lambda>b x y c a. Inl Undefined) (90 * of_nat 1) False demo_image = (Inr True, img')"
  using rotate_picture [OF demo_shows, of 1 False] by auto

lemma rotate_back_witness:
  "\<exists>img'. rotate_image (\<lambda>b x y c a. Inl Undefined) 90 False demo_image = (Inr True, img') \<and>
     rotate_image (\<lambda>b x y c a. Inl Undefined) 270 False img' = (Inr True, demo_image)"
proof -
  obtain img' where i: "rotate_image (\<lambda>b x y c a. Inl Undefined) (90 * of_nat 1) False demo_image = (Inr True, img')"
    using demo_turn by blast
  from rotate_back [OF demo_shows _ i] i show ?thesis by auto
qed

text \<open>
  What the orientation of an image says of its rows and columns (from the comments of the enumeration): the
  picture to look at, its width and its height.
\<close>

definition upright :: "orientation \<Rightarrow> nat \<Rightarrow> nat \<Rightarrow> picture \<Rightarrow> nat \<times> nat \<times> picture" where
  "upright r w h p = (case r of
     TOPLEFT \<Rightarrow> (w, h, p)
   | TOPRIGHT \<Rightarrow> (w, h, \<lambda>j i. p j (w - 1 - i))
   | BOTRIGHT \<Rightarrow> (w, h, \<lambda>j i. p (h - 1 - j) (w - 1 - i))
   | BOTLEFT \<Rightarrow> (w, h, \<lambda>j i. p (h - 1 - j) i)
   | LEFTTOP \<Rightarrow> (h, w, \<lambda>j i. p i j)
   | RIGHTTOP \<Rightarrow> (h, w, \<lambda>j i. p (h - 1 - i) j)
   | RIGHTBOT \<Rightarrow> (h, w, \<lambda>j i. p (h - 1 - i) (w - 1 - j))
   | LEFTBOT \<Rightarrow> (h, w, \<lambda>j i. p i (w - 1 - j)))"

lemma shows_cong:
  assumes "shows_picture img w h p" and "\<And>j i k. j < h \<Longrightarrow> i < w \<Longrightarrow> p j i k = q j i k"
  shows "shows_picture img w h q"
  using assms raster_cong [of w h "img_nc img" p q] by (simp add: shows_picture_def)

lemma shows_orient [simp]: "shows_picture (img\<lparr>orient := r\<rparr>) w h p = shows_picture img w h p"
  by (simp add: shows_picture_def bps_ok_def)

lemma topleft_by:
  assumes "shows_picture img w h p" and "q \<in> {1, 2, 3}"
    and "case quarter_turns q (w, h, if m then mirror_picture w p else p) of
      (a, b, c) \<Rightarrow> a = w' \<and> b = h' \<and> (\<forall>j < h'. \<forall>i < w'. c j i = u j i)"
    and "set_topleft slanted img =
      sbind (rotate_image slanted a m) (\<lambda>_. sbind (smod (\<lambda>img. img\<lparr>orient := TOPLEFT\<rparr>)) (\<lambda>_. sret True)) img"
    and "a = 90 * of_nat q"
  shows "\<exists>img'. set_topleft slanted img = (Inr True, img') \<and> orient img' = TOPLEFT \<and> shows_picture img' w' h' u"
proof -
  from assms(3) obtain p' where t: "quarter_turns q (w, h, if m then mirror_picture w p else p) = (w', h', p')"
    and c: "\<forall>j < h'. \<forall>i < w'. p' j i = u j i" by (auto split: prod.splits)
  let ?i = "(set_pixels (raster w' h' (img_nc img) p') img)\<lparr>img_nx := w', img_ny := h'\<rparr>"
  have "shows_picture ?i w' h' u"
    by (rule shows_cong [OF shows_replaced [OF assms(1) quarter_turns_area [OF t]]]) (use c in simp)
  then show ?thesis
    unfolding assms(4,5) using rotate_picture [OF assms(1,2) t, of slanted] by (simp add: monad_simps)
qed

text \<open>
  C15: Putting an image upright shows the picture that its orientation describes, in each of the
  orientations but the one of a mirror image.
\<close>

theorem set_topleft_upright:
  assumes "shows_picture img w h p" and "orient img \<noteq> TOPRIGHT" and "upright (orient img) w h p = (w', h', u)"
  shows "\<exists>img'. set_topleft slanted img = (Inr True, img') \<and> orient img' = TOPLEFT \<and> shows_picture img' w' h' u"
proof (cases "orient img = TOPLEFT")
  case True
  with assms show ?thesis by (simp add: set_topleft_def upright_def monad_simps)
next
  case False
  show ?thesis
  proof (cases "orient img")
    case BOTRIGHT
    then show ?thesis using assms(3)
      by (intro topleft_by [OF assms(1), where q = 2 and m = False and a = 180]) (auto simp: set_topleft_def swith_def numeral_2_eq_2 upright_def)
  next
    case BOTLEFT
    then show ?thesis using assms(3)
      by (intro topleft_by [OF assms(1), where q = 2 and m = True and a = 180]) (auto simp: set_topleft_def swith_def numeral_2_eq_2 upright_def mirror_picture_def)
  next
    case LEFTTOP
    then show ?thesis using assms(3)
      by (intro topleft_by [OF assms(1), where q = 3 and m = True and a = 270]) (auto simp: set_topleft_def swith_def numeral_3_eq_3 upright_def mirror_picture_def)
  next
    case RIGHTTOP
    then show ?thesis using assms(3)
      by (intro topleft_by [OF assms(1), where q = 1 and m = False and a = 90]) (auto simp: set_topleft_def swith_def upright_def)
  next
    case RIGHTBOT
    then show ?thesis using assms(3)
      by (intro topleft_by [OF assms(1), where q = 1 and m = True and a = 90]) (auto simp: set_topleft_def swith_def upright_def mirror_picture_def)
  next
    case LEFTBOT
    then show ?thesis using assms(3)
      by (intro topleft_by [OF assms(1), where q = 3 and m = False and a = 270]) (auto simp: set_topleft_def swith_def numeral_3_eq_3 upright_def)
  qed (use False assms(2) in simp_all)
qed

lemma set_topleft_upright_witness:
  "\<exists>img'. set_topleft (\<lambda>b x y c a. Inl Undefined) (demo_image\<lparr>orient := LEFTTOP\<rparr>) = (Inr True, img') \<and> orient img' = TOPLEFT \<and>
     shows_picture img' 2 3 (\<lambda>j i k. 3 * i + j + 1)"
  using set_topleft_upright [of "demo_image\<lparr>orient := LEFTTOP\<rparr>" 3 2 "\<lambda>j i k. 3 * j + i + 1"] demo_shows
  by (simp add: upright_def)

text \<open>
  A mirror image alone is never made: after an image is mirrored and not turned (a request for the rotation
  \<open>!0\<close>, or an image with the orientation \<open>TOPRIGHT\<close>), its width and height are read from
  variables that were not set, which is undefined.
\<close>

theorem mirror_alone_undefined:
  assumes "shows_picture img w h p"
  shows "rotate_image slanted 0 True img = (Inl Undefined, img) \<and>
    (orient img = TOPRIGHT \<longrightarrow> fst (set_topleft slanted img) = Inl Undefined)"
proof -
  have i: "img_nx img = w" "img_ny img = h" "bps_ok img" "w * h * img_nc img < 2 ^ 32" "pixels img = raster w h (img_nc img) p"
    using assms(1) by (simp_all add: shows_picture_def)
  have "rotate_image slanted 0 True img = (Inl Undefined, img)"
    unfolding rotate_image_def doRotate_def i(1,2,5) using i(3,4)
    by (simp add: mirrored_raster norm_angle_small turn_def)
  then show ?thesis by (simp add: set_topleft_def monad_simps)
qed

lemma mirror_alone_undefined_witness:
  "rotate_image (\<lambda>b x y c a. Inl Undefined) 0 True demo_image = (Inl Undefined, demo_image)"
  using mirror_alone_undefined [OF demo_shows, of "\<lambda>b x y c a. Inl Undefined"] by blast

end
