(* ===== verification/ImageArith.thy ===== *)
theory ImageArith
  imports Image
begin

text \<open>
  The operators of \<open>IIIFImage.cpp\<close> on two images, and the watermark. Differences and sums are
  \<open>int32_t\<close>; they are scaled in \<open>int\<close>, whose overflow is undefined, as is a division by zero. Reading the watermark
  file is an argument.
\<close>

section \<open>Comparing\<close>

definition compatible :: "iiif_image \<Rightarrow> iiif_image \<Rightarrow> bool" where
  "compatible lhs rhs \<longleftrightarrow> img_nx lhs = img_nx rhs \<and> img_ny lhs = img_ny rhs \<and> img_nc lhs = img_nc rhs \<and>
     bps lhs = bps rhs \<and> photo lhs = photo rhs"

definition count_difference :: "nat list \<Rightarrow> nat list \<Rightarrow> nat \<Rightarrow> nat \<Rightarrow> exn + nat" where
  "count_difference a b i n =
     (case get_at a i of Inl e \<Rightarrow> Inl e | Inr x \<Rightarrow>
     (case get_at b i of Inl e \<Rightarrow> Inl e | Inr y \<Rightarrow> Inr (if x \<noteq> y then n + 1 else n)))"

definition bps_not_supported :: "nat \<Rightarrow> exn" where
  "bps_not_supported b = CsError (''Bits per pixels not supported (bps='' @ dec_string b @ '')'')"

definition image_equal :: "iiif_image \<Rightarrow> iiif_image \<Rightarrow> exn + bool" where
  "image_equal lhs rhs =
     (if \<not> compatible lhs rhs then Inr False
      else
        (case (if bps lhs = 8 then for_each (count_difference (bpixels lhs) (bpixels rhs)) [0..<sample_count lhs] 0
               else if bps lhs = 16 then
                 for_pixels (img_nx lhs) (img_ny lhs) (img_nc lhs)
                   (\<lambda>j i k. count_difference (wpixels lhs) (wpixels rhs) (img_nc lhs * (j * img_nx lhs + i) + k)) 0
               else Inl (bps_not_supported (bps lhs))) of
           Inl e \<Rightarrow> Inl e
         | Inr n \<Rightarrow> Inr (n = 0)))"

section \<open>Difference and sum\<close>

definition combine :: "(int \<Rightarrow> int \<Rightarrow> int) \<Rightarrow> nat list \<Rightarrow> nat list \<Rightarrow> nat \<Rightarrow> exn + int list" where
  "combine f a b n =
     for_each (\<lambda>i out.
         case get_at a i of Inl e \<Rightarrow> Inl e | Inr x \<Rightarrow>
         (case get_at b i of Inl e \<Rightarrow> Inl e | Inr y \<Rightarrow> put_at i (f (int x) (int y)) out))
       [0..<n] (replicate n 0)"

definition INT_MAX :: int where "INT_MAX = 2 ^ 31 - 1"
definition INT_MIN :: int where "INT_MIN = - (2 ^ 31)"

definition fits_int :: "int \<Rightarrow> bool" where
  "fits_int k \<longleftrightarrow> INT_MIN \<le> k \<and> k \<le> INT_MAX"

definition list_max :: "int list \<Rightarrow> int" where
  "list_max = foldl (\<lambda>m d. if d > m then d else m) INT_MIN"

definition list_min :: "int list \<Rightarrow> int" where
  "list_min = foldl (\<lambda>m d. if d < m then d else m) INT_MAX"

text \<open>\<open>(d + offset)*limit/divisor\<close>, cut to the sample width; the operands are \<open>int\<close>.\<close>

definition rescale :: "nat \<Rightarrow> int \<Rightarrow> int \<Rightarrow> int \<Rightarrow> exn + nat" where
  "rescale bits offset divisor d =
     (let p = (d + offset) * (2 ^ bits - 1) in
      if divisor = 0 \<or> \<not> fits_int (d + offset) \<or> \<not> fits_int p \<or> \<not> fits_int divisor then Inl Undefined
      else Inr (nat (trunc (of_int p / of_int divisor) mod 2 ^ bits)))"

definition rescale_all :: "nat \<Rightarrow> int \<Rightarrow> int \<Rightarrow> int list \<Rightarrow> nat list \<Rightarrow> exn + nat list" where
  "rescale_all bits offset divisor ds =
     for_each (\<lambda>i out. case get_at ds i of Inl e \<Rightarrow> Inl e | Inr d \<Rightarrow>
         (case rescale bits offset divisor d of Inl e \<Rightarrow> Inl e | Inr v \<Rightarrow> put_at i v out)) [0..<length ds]"

definition not_compatible :: exn where
  "not_compatible = CsError ''Image op: images not compatible''"

definition rescaled :: "int \<Rightarrow> int \<Rightarrow> int list \<Rightarrow> (iiif_image, unit) act" where
  "rescaled offset divisor ds img =
     (case rescale_all (bps img) offset divisor ds (pixels img) of
        Inl e \<Rightarrow> (Inl e, img)
      | Inr buf \<Rightarrow> (Inr (), set_pixels buf img))"

definition image_subtract :: "iiif_image \<Rightarrow> (iiif_image, unit) act" where
  "image_subtract rhs img =
     (if \<not> compatible img rhs then (Inl not_compatible, img)
      else if \<not> bps_ok img then (Inl (bps_not_supported (bps img)), img)
      else (case combine (-) (pixels img) (pixels rhs) (sample_count img) of
          Inl e \<Rightarrow> (Inl e, img)
        | Inr ds \<Rightarrow>
            let lo = list_min ds; hi = list_max ds; maxmax = (if \<bar>lo\<bar> > \<bar>hi\<bar> then \<bar>lo\<bar> else \<bar>hi\<bar>)
            in if ds = [] then (Inl Undefined, img) else rescaled maxmax (2 * maxmax) ds img))"

definition image_add :: "iiif_image \<Rightarrow> (iiif_image, unit) act" where
  "image_add rhs img =
     (if \<not> compatible img rhs then (Inl not_compatible, img)
      else if \<not> bps_ok img then (Inl (bps_not_supported (bps img)), img)
      else (case combine (+) (pixels img) (pixels rhs) (sample_count img) of
          Inl e \<Rightarrow> (Inl e, img)
        | Inr ds \<Rightarrow> rescaled 0 (list_max ds) ds img))"

text \<open>The binary operators work on a new image, which nobody frees.\<close>

definition image_minus :: "iiif_image \<Rightarrow> iiif_image \<Rightarrow> exn + iiif_image" where
  "image_minus lhs rhs =
     (case image_copy lhs of Inl e \<Rightarrow> Inl e | Inr img \<Rightarrow>
        (case image_subtract rhs img of (Inl e, _) \<Rightarrow> Inl e | (Inr _, img1) \<Rightarrow> Inr img1))"

definition image_plus :: "iiif_image \<Rightarrow> iiif_image \<Rightarrow> exn + iiif_image" where
  "image_plus lhs rhs =
     (case image_copy lhs of Inl e \<Rightarrow> Inl e | Inr img \<Rightarrow>
        (case image_add rhs img of (Inl e, _) \<Rightarrow> Inl e | (Inr _, img1) \<Rightarrow> Inr img1))"

section \<open>Watermark\<close>

text \<open>The position in the watermark for each row or column of the image, and the sample with the watermark in it.\<close>

definition wm_lut :: "nat \<Rightarrow> nat \<Rightarrow> nat \<Rightarrow> rat" where
  "wm_lut wm n i = f64 (f64 (of_nat (wm * i)) / of_nat n)"

definition marked :: "nat \<Rightarrow> nat \<Rightarrow> nat \<Rightarrow> nat" where
  "marked bits p v =
     (let full = 2 ^ bits - 1;
          factor = f64 (1 + f64 (of_nat v / of_nat (10 * full)));
          plus = (if bits = 8 then f64 (of_nat v / 2550) else f64 (of_nat v / 352500));
          nval = f64 (f64 (f64 (of_nat p / of_nat full) * factor) + plus)
      in if nval > 1 then full else nat (\<lfloor>f64 (f64 (nval * of_nat full) + 1 / 2)\<rfloor> mod 2 ^ bits))"

definition mark_pixels :: "nat \<Rightarrow> nat list \<Rightarrow> nat \<Rightarrow> nat \<Rightarrow> nat \<Rightarrow> nat \<Rightarrow> nat \<Rightarrow> nat \<Rightarrow> nat list \<Rightarrow> exn + nat list" where
  "mark_pixels bits wmbuf wm_nx wm_ny wm_nc nx ny nc =
     for_pixels nx ny nc
       (\<lambda>j i k buf.
          case bilinn 8 wmbuf wm_nx (wm_lut wm_nx nx i) (wm_lut wm_ny ny j) 0 wm_nc of Inl e \<Rightarrow> Inl e | Inr v \<Rightarrow>
          (case get_at buf (nc * (j * nx + i) + k) of Inl e \<Rightarrow> Inl e | Inr p \<Rightarrow>
             put_at (nc * (j * nx + i) + k) (marked bits p v) buf))"

type_synonym watermark_reader = "string \<Rightarrow> nat list \<times> nat \<times> nat \<times> nat"

definition add_watermark :: "watermark_reader \<Rightarrow> string \<Rightarrow> (iiif_image, bool) act" where
  "add_watermark read_watermark wmfilename img =
     (case read_watermark wmfilename of (wmbuf, wm_nx, wm_ny, wm_nc) \<Rightarrow>
        if wmbuf = [] then (Inl (CsError (''Cannot read watermark file '' @ wmfilename)), img)
        else if bps_ok img then
          replace_pixels (mark_pixels (bps img) wmbuf wm_nx wm_ny wm_nc (img_nx img) (img_ny img) (img_nc img) (pixels img))
            (img_nx img) (img_ny img) True img
        else (Inr True, img))"

end
