(* ===== verification/ImageProps.thy ===== *)
theory ImageProps
  imports Turns ImageArith
begin

text \<open>
What the operations on images do to the picture: cropping, reducing to eight bits, black and white, comparison.
\<close>

section \<open>Cropping and reducing\<close>

interpretation cropped: pixel_move "crop_rect x y w h" "\<lambda>nx ny. w" "\<lambda>nx ny. h" "\<lambda>nx ny j i. j + y" "\<lambda>nx ny j i. i + x"
  "\<lambda>nx ny. x + w \<le> nx \<and> y + h \<le> ny" for x y w h
  by unfold_locales (auto simp: crop_rect_def intro: mult_le_mono)

text \<open>What \<open>crop_coords\<close> stores in the region does not change what it computes.\<close>

lemma raw_coords_stored [simp]:
  "raw_coords (rg\<lparr>r_x := x, r_y := y, r_w := w, r_h := h, r_canonical_ok := ok\<rparr>) nx ny = raw_coords rg nx ny"
  by (cases "coord_type rg") (simp_all add: raw_coords_def)

lemma crop_coords_again:
  assumes "crop_coords nx ny rg = (Inr x, rg')"
  shows "\<exists>rg2. crop_coords nx ny rg' = (Inr x, rg2)" and "coord_type rg' = coord_type rg"
proof -
  from assms obtain x0 y0 w0 h0 x1 w1 y1 h1 where c: "raw_coords rg nx ny = Inr (x0, y0, w0, h0)"
    "clip_low nx x0 w0 = Some (x1, w1)" "clip_low ny y0 h0 = Some (y1, h1)"
    "x = (coord_type rg, x1, y1, clip_high nx x1 w1, clip_high ny y1 h1)"
    "rg' = rg\<lparr>r_x := x1, r_y := y1, r_w := clip_high nx x1 w1, r_h := clip_high ny y1 h1, r_canonical_ok := True\<rparr>"
    by (auto simp: crop_coords_def Let_def split: sum.splits option.splits)
  then show "\<exists>rg2. crop_coords nx ny rg' = (Inr x, rg2)" "coord_type rg' = coord_type rg"
    by (simp_all add: crop_coords_def Let_def)
qed

text \<open>
  C29: Cropping keeps the pixels: an image that is cut to a region in pixels, of which the corner lies in the
  image, shows the part of its picture from that corner on, as wide and high as asked for or as far as the image goes;
  no pixel outside is read.
\<close>

theorem crop_shows_part:
  assumes "shows_picture img nx ny p" and "a < nx" "b < ny" "nx < 2 ^ 24" "ny < 2 ^ 24" "c < 2 ^ 24" "d < 2 ^ 24"
    and "w = (if c = 0 then nx - a else min c (nx - a))" "h = (if d = 0 then ny - b else min d (ny - b))"
  shows "\<exists>img'. crop (mk_region COORDS (of_nat a, of_nat b, of_nat c, of_nat d) False) img = (Inr True, img') \<and>
    shows_picture img' w h (\<lambda>j i. p (j + b) (i + a))"
proof -
  let ?rg = "mk_region COORDS (of_nat a, of_nat b, of_nat c, of_nat d) False"
  have i: "img_nx img = nx" "img_ny img = ny" "bps_ok img" "nx * ny * img_nc img < 2 ^ 32" "pixels img = raster nx ny (img_nc img) p"
    using assms(1) by (simp_all add: shows_picture_def)
  obtain rg' where cc: "crop_coords nx ny ?rg = (Inr (COORDS, int a, int b, w, h), rg')"
    using crop_dec [OF assms(2-7), of False] unfolding assms(8,9) by blast
  obtain rg2 where again: "crop_coords nx ny rg' = (Inr (COORDS, int a, int b, w, h), rg2)"
    using crop_coords_again(1) [OF cc] by blast
  have t: "coord_type ?rg = COORDS" by (simp add: mk_region_def)
  have dims: "a + w \<le> nx \<and> b + h \<le> ny" using assms(2,3,8,9) by auto
  let ?v = "\<lambda>j i. p (j + b) (i + a)"
  have l: "length (raster nx ny (img_nc img) p) = nx * ny * img_nc img" by simp
  have "crop_rect a b w h (raster nx ny (img_nc img) p) nx ny (img_nc img) = Inr (raster w h (img_nc img) ?v)"
    unfolding cropped.moved [OF dims l i(4)] using dims by (auto simp: sample_raster intro!: raster_cong)
  then have "doCrop (pixels img) nx ny (img_nc img) rg' = Inr (raster w h (img_nc img) ?v)"
    using again crop_coords_again(2) [OF cc] t i(5) by (simp add: doCrop_def)
  then have e: "crop ?rg img = (Inr True, (set_pixels (raster w h (img_nc img) ?v) img)\<lparr>img_nx := w, img_ny := h\<rparr>)"
    using cc t i(1-3) by (simp add: crop_def replace_pixels_def)
  have "w * h * img_nc img \<le> nx * ny * img_nc img" using dims by (intro mult_le_mono) simp_all
  then have "w * h * img_nc img < 2 ^ 32" using i(4) by (rule le_less_trans)
  then have "shows_picture ((set_pixels (raster w h (img_nc img) ?v) img)\<lparr>img_nx := w, img_ny := h\<rparr>) w h ?v"
    using i(3) by (simp add: shows_picture_def bps_ok_def)
  with e show ?thesis by blast
qed

lemma crop_shows_part_witness:
  "\<exists>img'. crop (mk_region COORDS (of_nat 1, of_nat 0, of_nat 5, of_nat 1) False) demo_image = (Inr True, img') \<and>
     shows_picture img' 2 1 (\<lambda>j i k. 3 * (j + 0) + (i + 1) + 1)"
  by (rule crop_shows_part [OF demo_shows]) simp_all

text \<open>
  Reducing an image leaves it without height: whatever the factor, when it succeeds the height
  is 0, since it is passed by value.
\<close>

theorem reduce_loses_height:
  assumes "reduce red img = (Inr True, img')"
  shows "img_ny img' = 0"
  using assms by (auto simp: reduce_def split: if_splits sum.splits)

section \<open>Sixteen bits to eight\<close>

text \<open>
  The reduction to eight bits keeps the upper half of each sample, so that every result is a byte, and
  changes nothing else but the number of bits.
\<close>

theorem to8bps_upper_half:
  assumes "bps img = 16" "img_nx img * img_ny img * img_nc img < 2 ^ 32"
    and "length (wpixels img) = img_nx img * img_ny img * img_nc img" "\<forall>v \<in> set (wpixels img). v < 2 ^ 16"
  shows "to8bps img = (Inr True, img\<lparr>bpixels := map (\<lambda>v. v div 256) (wpixels img), bps := 8\<rparr>) \<and>
    (\<forall>v \<in> set (map (\<lambda>v. v div 256) (wpixels img)). v < 2 ^ 8)"
proof -
  let ?n = "length (wpixels img)" and ?t = "map (\<lambda>v. v div 256) (wpixels img)"
  have n: "sample_count img = ?n" using assms(2,3) by (simp add: sample_count_def u32_def)
  have "for_each (\<lambda>i out. case (case get_at (wpixels img) i of Inl e \<Rightarrow> Inl e | Inr v \<Rightarrow> Inr (v div 256)) of Inl e \<Rightarrow> Inl e
      | Inr v \<Rightarrow> put_at i v out) [0..<?n] (replicate ?n 0) = Inr ?t"
    by (rule fill_loop) (simp_all add: get_at_def)
  moreover have "(\<lambda>i out. case (case get_at (wpixels img) i of Inl e \<Rightarrow> Inl e | Inr v \<Rightarrow> Inr (v div 256)) of Inl e \<Rightarrow> Inl e
      | Inr v \<Rightarrow> put_at i v out) = (\<lambda>i out. case get_at (wpixels img) i of Inl e \<Rightarrow> Inl e | Inr v \<Rightarrow> put_at i (v div 256) out)"
    by (auto simp: fun_eq_iff split: sum.splits)
  ultimately have "to8bps img = (Inr True, img\<lparr>bpixels := ?t, bps := 8\<rparr>)"
    using assms(1) n by (simp add: to8bps_def)
  moreover have "\<forall>v \<in> set ?t. v < 2 ^ 8" using assms(4) by (auto simp: less_mult_imp_div_less)
  ultimately show ?thesis by blast
qed

lemma to8bps_upper_half_witness:
  "to8bps (no_image\<lparr>bps := 16, img_nx := 2, img_ny := 1, img_nc := 1, wpixels := [65535, 513]\<rparr>) =
     (Inr True, no_image\<lparr>bps := 8, img_nx := 2, img_ny := 1, img_nc := 1, wpixels := [65535, 513], bpixels := [255, 2]\<rparr>)"
  using to8bps_upper_half [of "no_image\<lparr>bps := 16, img_nx := 2, img_ny := 1, img_nc := 1, wpixels := [65535, 513]\<rparr>"]
  by (simp add: no_image_def)

section \<open>Comparing and subtracting\<close>

lemma count_loop:
  assumes "n \<le> length a" "n \<le> length b"
  shows "\<exists>d. for_each (count_difference a b) [0..<n] m = Inr (m + d) \<and> (d = 0 \<longleftrightarrow> take n a = take n b)"
  using assms
proof (induction n)
  case (Suc n)
  then obtain d where d: "for_each (count_difference a b) [0..<n] m = Inr (m + d)" "d = 0 \<longleftrightarrow> take n a = take n b" by auto
  have t: "take (Suc n) a = take (Suc n) b \<longleftrightarrow> take n a = take n b \<and> a ! n = b ! n"
    using Suc.prems by (simp add: take_Suc_conv_app_nth)
  have "count_difference a b n (m + d) = Inr (m + (if a ! n = b ! n then d else Suc d))"
    using Suc.prems by (simp add: count_difference_def get_at_def)
  then have "for_each (count_difference a b) [0..<Suc n] m = Inr (m + (if a ! n = b ! n then d else Suc d))"
    using d(1) by (simp add: for_each_append)
  with d(2) t show ?case by (cases "a ! n = b ! n") auto
qed (auto intro: exI [of _ 0])

lemma for_each_map: "for_each f (map g xs) = for_each (\<lambda>x. f (g x)) xs"
proof
  show "for_each f (map g xs) s = for_each (\<lambda>x. f (g x)) xs s" for s
    by (induction xs arbitrary: s) (auto split: sum.splits)
qed

lemma for_each_nested:
  "for_each (\<lambda>j. for_each (\<lambda>i. f (n * j + i)) [0..<n]) [0..<m] s = for_each f [0..<n * m] s"
proof (induction m)
  case (Suc m)
  have "[0..<n * Suc m] = [0..<n * m] @ map (\<lambda>i. n * m + i) [0..<n]"
  proof -
    have "[0..<n * Suc m] = [0..<n * m] @ [n * m..<n * m + n]"
      using upt_add_eq_append [of 0 "n * m" n] by (simp add: ac_simps)
    moreover have "[n * m..<n * m + n] = map (\<lambda>i. n * m + i) [0..<n]"
      by (rule nth_equalityI) simp_all
    ultimately show ?thesis by simp
  qed
  with Suc show ?case by (simp add: for_each_append for_each_map split: sum.splits)
qed simp

lemma for_pixels_linear:
  "for_pixels w h nc (\<lambda>j i k. f (nc * (j * w + i) + k)) = for_each f [0..<w * h * nc]"
proof
  fix s
  have "for_pixels w h nc (\<lambda>j i k. f (nc * (j * w + i) + k)) s =
      for_each (\<lambda>j. for_each (\<lambda>i. for_each (\<lambda>k. f (nc * (w * j + i) + k)) [0..<nc]) [0..<w]) [0..<h] s"
    by (simp add: for_pixels_def ac_simps)
  also have "\<dots> = for_each (\<lambda>q. for_each (\<lambda>k. f (nc * q + k)) [0..<nc]) [0..<w * h] s"
    by (rule for_each_nested)
  also have "\<dots> = for_each f [0..<nc * (w * h)] s" by (rule for_each_nested)
  finally show "for_pixels w h nc (\<lambda>j i k. f (nc * (j * w + i) + k)) s = for_each f [0..<w * h * nc] s"
    by (simp add: ac_simps)
qed

definition full_buffer :: "iiif_image \<Rightarrow> bool" where
  "full_buffer img \<longleftrightarrow> bps_ok img \<and> img_nx img * img_ny img * img_nc img < 2 ^ 32 \<and>
     length (pixels img) = img_nx img * img_ny img * img_nc img"

text \<open>
  Comparing two images with complete buffers, eight or sixteen bits wide, is equality of what they show:
  same width, height, channels, sample width and interpretation, and the same samples.
\<close>

theorem image_equal_correct:
  assumes "full_buffer lhs" "full_buffer rhs"
  shows "image_equal lhs rhs = Inr (compatible lhs rhs \<and> pixels lhs = pixels rhs)"
proof (cases "compatible lhs rhs")
  case True
  let ?n = "img_nx lhs * img_ny lhs * img_nc lhs"
  have l: "length (pixels lhs) = ?n" "length (pixels rhs) = ?n" "bps rhs = bps lhs"
    using assms True by (simp_all add: full_buffer_def compatible_def)
  have n: "sample_count lhs = ?n" using assms(1) by (simp add: sample_count_def u32_def full_buffer_def)
  obtain d where d: "for_each (count_difference (pixels lhs) (pixels rhs)) [0..<?n] 0 = Inr d"
    "d = 0 \<longleftrightarrow> pixels lhs = pixels rhs"
    using count_loop [of ?n "pixels lhs" "pixels rhs" 0] l by auto
  from assms(1) consider "bps lhs = 8" | "bps lhs = 16" by (auto simp: full_buffer_def bps_ok_def)
  then show ?thesis
  proof cases
    case 1
    then show ?thesis using True d l(3) n by (simp add: image_equal_def pixels_def)
  next
    case 2
    then show ?thesis using True d l(3)
      for_pixels_linear [of "img_nx lhs" "img_ny lhs" "img_nc lhs" "count_difference (wpixels lhs) (wpixels rhs)"]
      by (simp add: image_equal_def pixels_def)
  qed
qed (simp add: image_equal_def)

lemma image_equal_correct_witness:
  "image_equal demo_image (demo_image\<lparr>bpixels := [1, 2, 3, 4, 5, 7]\<rparr>) = Inr False"
proof -
  have "full_buffer demo_image" "full_buffer (demo_image\<lparr>bpixels := [1, 2, 3, 4, 5, 7]\<rparr>)"
    by (simp_all add: full_buffer_def demo_image_def no_image_def bps_ok_def pixels_def)
  from image_equal_correct [OF this] show ?thesis by (simp add: demo_image_def no_image_def pixels_def)
qed

section \<open>Black and white\<close>

lemma for_each_inv:
  assumes "\<And>q s. a \<le> q \<Longrightarrow> q < b \<Longrightarrow> P q s \<Longrightarrow> \<exists>s'. f q s = Inr s' \<and> P (Suc q) s'" and "P a s" and "a \<le> b"
  shows "\<exists>s'. for_each f [a..<b] s = Inr s' \<and> P b s'"
  using assms(3,2,1)
proof (induction "b - a" arbitrary: a s)
  case (Suc n)
  then have ab: "a < b" by simp
  then obtain s1 where s1: "f a s = Inr s1" "P (Suc a) s1" using Suc.prems by blast
  have "\<exists>s'. for_each f [Suc a..<b] s1 = Inr s' \<and> P b s'"
    using Suc.hyps(1) [of "Suc a" s1] Suc.hyps(2) Suc.prems(3) ab s1(2) by simp
  with s1(1) ab show ?case by (simp add: upt_conv_Cons)
qed auto

lemma add_error_frame:
  assumes "c \<Longrightarrow> slot < length buf \<and> p < slot"
  shows "\<exists>buf'. add_error c slot amount buf = Inr buf' \<and> length buf' = length buf \<and> (\<forall>q \<le> p. buf' ! q = buf ! q)"
  using assms by (auto simp: add_error_def get_at_def put_at_def)

definition bilevel :: "nat \<Rightarrow> int list \<Rightarrow> bool" where
  "bilevel p buf \<longleftrightarrow> (\<forall>q < p. buf ! q = 0 \<or> buf ! q = 255)"

lemma dither_pixel_step:
  assumes "length buf = nx * ny" "x < nx" "y < ny" "bilevel (y * nx + x) buf"
  shows "\<exists>buf'. dither_pixel nx ny y x buf = Inr buf' \<and> length buf' = nx * ny \<and> bilevel (y * nx + Suc x) buf'"
proof -
  let ?p = "y * nx + x"
  have row: "y' * nx + x' < nx * ny" if "x' < nx" "y' < ny" for x' y'
    using index_bound [of x' nx y' ny 0 1] that by (simp add: ac_simps)
  define new where "new = (if buf ! ?p > 127 then 255 else (0 :: int))"
  define err where "err = buf ! ?p - new"
  define b0 where "b0 = buf[?p := new]"
  have b0: "length b0 = nx * ny" "bilevel (Suc ?p) b0"
    using assms row [OF assms(2,3)] by (auto simp: b0_def bilevel_def nth_list_update new_def less_Suc_eq)
  have put: "put_at ?p new buf = Inr b0" "get_at buf ?p = Inr (buf ! ?p)"
    using row [OF assms(2,3)] assms(1) by (simp_all add: put_at_def get_at_def b0_def)
  obtain b1 where b1: "add_error (x < nx - 1) (y * nx + (x + 1)) (7 * err div 16) b0 = Inr b1" "length b1 = nx * ny"
    "\<forall>q \<le> ?p. b1 ! q = b0 ! q"
    using add_error_frame [of "x < nx - 1" "y * nx + (x + 1)" b0 ?p "7 * err div 16"] row [of "x + 1" y] assms(3) b0(1) by auto
  have down: "(y + 1) * nx + x' < nx * ny \<and> ?p < (y + 1) * nx + x'" if "x' < nx" "y < ny - 1" "x < nx + x'" for x'
    using row [of x' "y + 1"] that by auto
  have c2: "(y + 1) * nx + (x - 1) < length b1 \<and> ?p < (y + 1) * nx + (x - 1)" if "x > 0 \<and> y < ny - 1"
    using down [of "x - 1"] that assms(2) b1(2) by auto
  obtain b2 where b2: "add_error (x > 0 \<and> y < ny - 1) ((y + 1) * nx + (x - 1)) (3 * err div 16) b1 = Inr b2" "length b2 = nx * ny"
    "\<forall>q \<le> ?p. b2 ! q = b1 ! q"
    using add_error_frame [OF c2] b1(2) by metis
  have c3: "(y + 1) * nx + x < length b2 \<and> ?p < (y + 1) * nx + x" if "y < ny - 1"
    using down [of x] that assms(2) b2(2) by auto
  obtain b3 where b3: "add_error (y < ny - 1) ((y + 1) * nx + x) (5 * err div 16) b2 = Inr b3" "length b3 = nx * ny"
    "\<forall>q \<le> ?p. b3 ! q = b2 ! q"
    using add_error_frame [OF c3] b2(2) by metis
  have c4: "(y + 1) * nx + (x + 1) < length b3 \<and> ?p < (y + 1) * nx + (x + 1)" if "x < nx - 1 \<and> y < ny - 1"
    using down [of "x + 1"] that b3(2) by auto
  obtain b4 where b4: "add_error (x < nx - 1 \<and> y < ny - 1) ((y + 1) * nx + (x + 1)) (err div 16) b3 = Inr b4" "length b4 = nx * ny"
    "\<forall>q \<le> ?p. b4 ! q = b3 ! q"
    using add_error_frame [OF c4] b3(2) by metis
  have "dither_pixel nx ny y x buf = Inr b4"
    unfolding dither_pixel_def put(2) sum.case Let_def
    using put(1) b1(1) b2(1) b3(1) b4(1) by (simp add: new_def err_def)
  moreover have "bilevel (y * nx + Suc x) b4"
    using b0(2) b1(3) b2(3) b3(3) b4(3) by (simp add: bilevel_def less_Suc_eq_le)
  ultimately show ?thesis using b4(2) by blast
qed

lemma dither_bilevel:
  assumes "length buf = nx * ny"
  shows "\<exists>buf'. dither nx ny buf = Inr buf' \<and> length buf' = nx * ny \<and> bilevel (nx * ny) buf'"
proof -
  have row: "\<exists>b'. for_each (dither_pixel nx ny y) [0..<nx] b = Inr b' \<and> length b' = nx * ny \<and> bilevel (Suc y * nx) b'"
    if "y < ny" "length b = nx * ny" "bilevel (y * nx) b" for y b
    using for_each_inv [of 0 nx "\<lambda>x b. length b = nx * ny \<and> bilevel (y * nx + x) b" "dither_pixel nx ny y" b] dither_pixel_step that
    by (auto simp: ac_simps)
  have "\<exists>b'. for_each (\<lambda>y. for_each (dither_pixel nx ny y) [0..<nx]) [0..<ny] buf = Inr b' \<and>
      (length b' = nx * ny \<and> bilevel (ny * nx) b')"
    by (rule for_each_inv [where P = "\<lambda>y b. length b = nx * ny \<and> bilevel (y * nx) b"])
      (use row assms in \<open>auto simp: bilevel_def\<close>)
  then show ?thesis by (simp add: dither_def ac_simps)
qed

lemma any_gray_eq: "\<forall>i \<in> set is. i < length buf \<Longrightarrow> any_gray buf is = Inr (\<exists>i \<in> set is. buf ! i \<noteq> 0 \<and> buf ! i \<noteq> 255)"
  by (induction "is") (auto simp: get_at_def)

lemma to_shorts_eq: "n = length buf \<Longrightarrow> to_shorts buf n = Inr (map int buf)"
proof -
  assume n: "n = length buf"
  have "for_each (\<lambda>i out. case (case get_at buf i of Inl e \<Rightarrow> Inl e | Inr v \<Rightarrow> Inr (int v)) of Inl e \<Rightarrow> Inl e
      | Inr v \<Rightarrow> put_at i v out) [0..<n] (replicate n 0) = Inr (map int buf)"
    by (rule fill_loop) (simp_all add: get_at_def n)
  moreover have "(\<lambda>i out. case (case get_at buf i of Inl e \<Rightarrow> Inl e | Inr v \<Rightarrow> Inr (int v)) of Inl e \<Rightarrow> Inl e
      | Inr v \<Rightarrow> put_at i v out) = (\<lambda>i out. case get_at buf i of Inl e \<Rightarrow> Inl e | Inr v \<Rightarrow> put_at i (int v) out)"
    by (auto simp: fun_eq_iff split: sum.splits)
  ultimately show ?thesis by (simp add: to_shorts_def)
qed

lemma from_shorts_eq: "n = length vals \<Longrightarrow> length buf = n \<Longrightarrow> from_shorts vals n buf = Inr (map (\<lambda>v. nat (v mod 256)) vals)"
proof -
  assume n: "n = length vals" "length buf = n"
  have "for_each (\<lambda>i out. case (case get_at vals i of Inl e \<Rightarrow> Inl e | Inr v \<Rightarrow> Inr (nat (v mod 256))) of Inl e \<Rightarrow> Inl e
      | Inr v \<Rightarrow> put_at i v out) [0..<n] buf = Inr (map (\<lambda>v. nat (v mod 256)) vals)"
    by (rule fill_loop) (simp_all add: get_at_def n)
  moreover have "(\<lambda>i out. case (case get_at vals i of Inl e \<Rightarrow> Inl e | Inr v \<Rightarrow> Inr (nat (v mod 256))) of Inl e \<Rightarrow> Inl e
      | Inr v \<Rightarrow> put_at i v out) = (\<lambda>i out. case get_at vals i of Inl e \<Rightarrow> Inl e | Inr v \<Rightarrow> put_at i (nat (v mod 256)) out)"
    by (auto simp: fun_eq_iff split: sum.splits)
  ultimately show ?thesis by (simp add: from_shorts_def)
qed

lemma bitonal_pixels_bilevel:
  assumes "length buf = nx * ny" "nx * ny < 2 ^ 32"
  shows "\<exists>buf'. bitonal_pixels buf nx ny = Inr buf' \<and> length buf' = nx * ny \<and> set buf' \<subseteq> {0, 255}"
proof -
  have n: "u32 (nx * ny) = length buf" using assms by (simp add: u32_def)
  have g: "any_gray buf [0..<length buf] = Inr (\<exists>v \<in> set buf. v \<noteq> 0 \<and> v \<noteq> 255)"
    by (subst any_gray_eq) (auto simp: in_set_conv_nth Bex_def)
  show ?thesis
  proof (cases "\<exists>v \<in> set buf. v \<noteq> 0 \<and> v \<noteq> 255")
    case True
    obtain d where d: "dither nx ny (map int buf) = Inr d" "length d = nx * ny" "bilevel (nx * ny) d"
      using dither_bilevel [of "map int buf" nx ny] assms(1) by auto
    have "set (map (\<lambda>v. nat (v mod 256)) d) \<subseteq> {0, 255}"
      using d(2,3) by (auto simp: bilevel_def in_set_conv_nth) force
    moreover have "bitonal_pixels buf nx ny = Inr (map (\<lambda>v. nat (v mod 256)) d)"
      using g True d(1) from_shorts_eq [of "length buf" d buf] d(2) assms(1)
      by (simp add: bitonal_pixels_def n to_shorts_eq)
    ultimately show ?thesis using d(2) by simp
  next
    case False
    then show ?thesis using g assms(1) by (auto simp: bitonal_pixels_def n)
  qed
qed

text \<open>
  The bitonal version of a gray image has nothing but black and white: every sample is 0 or 255
  afterwards, as many as before; the error diffusion neither leaves the buffer nor touches a pixel again that has been
  decided.
\<close>

theorem toBitonal_black_and_white:
  assumes "photo img = MINISBLACK \<or> photo img = MINISWHITE"
    and "length (bpixels img) = img_nx img * img_ny img" "img_nx img * img_ny img < 2 ^ 32"
  shows "\<exists>buf. toBitonal to_icc img = (Inr True, img\<lparr>bpixels := buf\<rparr>) \<and> length buf = length (bpixels img) \<and> set buf \<subseteq> {0, 255}"
proof -
  obtain buf where b: "bitonal_pixels (bpixels img) (img_nx img) (img_ny img) = Inr buf"
    "length buf = img_nx img * img_ny img" "set buf \<subseteq> {0, 255}"
    using bitonal_pixels_bilevel [OF assms(2,3)] by blast
  have "toBitonal to_icc img = (Inr True, img\<lparr>bpixels := buf\<rparr>)"
    using assms(1) b(1) by (auto simp: toBitonal_def monad_simps)
  with b assms(2) show ?thesis by auto
qed

lemma toBitonal_black_and_white_witness:
  "\<exists>buf. toBitonal (\<lambda>p b. sret ()) demo_image = (Inr True, demo_image\<lparr>bpixels := buf\<rparr>) \<and>
     length buf = length (bpixels demo_image) \<and> set buf \<subseteq> {0, 255}"
  by (rule toBitonal_black_and_white) (simp_all add: demo_image_def no_image_def)

end
