(* ===== verification/IIIFTranscode.thy ===== *)
theory IIIFTranscode
  imports IIIFServe ImageArith
begin

text \<open>
  The second half of \<open>IIIFSendFile.cpp\<close>: the image is read, rotated, converted, marked and written
  to the client, and a copy goes into the cache. Reading and writing the image formats, the color profiles, the
  rotation by other angles than right ones and the creation of files are arguments, in the record \<open>image_libs\<close>.
  What they throw as \<open>CsError\<close> is an \<open>IIIFImageError\<close> of the source.
\<close>

record image_libs =
  read_image :: "string \<Rightarrow> region \<Rightarrow> iiif_size \<Rightarrow> bool \<Rightarrow> exn + iiif_image"
  write_image :: "string \<Rightarrow> iiif_image \<Rightarrow> (connection, unit) act"
  to_icc :: icc_conversion
  slanted :: rotation_fun
  read_watermark :: watermark_reader
  mkstemp :: "string \<Rightarrow> string option"
  can_open :: "string \<Rightarrow> bool"

definition run_img :: "(iiif_image, 'a) act \<Rightarrow> iiif_image \<Rightarrow> exn + iiif_image" where
  "run_img m img = (case m img of (Inl e, _) \<Rightarrow> Inl e | (Inr _, img1) \<Rightarrow> Inr img1)"

section \<open>Making the image\<close>

text \<open>The image is asked for in the region and the size of the request; for JPEG its samples are made bytes.\<close>

definition with_image :: "image_libs \<Rightarrow> image_job \<Rightarrow> (iiif_image \<Rightarrow> (iiif_world, unit) act) \<Rightarrow> (iiif_world, unit) act" where
  "with_image libs job k =
     (case read_image libs (job_infile job) (job_region job) (job_size job) (fmt (job_format job) = JPG) of
        Inr img \<Rightarrow> k img
      | Inl (SizeError _ msg) \<Rightarrow> on_conn (send_error BAD_REQUEST (''SipiSizeError: '' @ msg))
      | Inl (CsError msg) \<Rightarrow> on_conn (send_error INTERNAL_SERVER_ERROR msg)
      | Inl e \<Rightarrow> sthrow e)"

definition turned :: "image_libs \<Rightarrow> rotation \<Rightarrow> iiif_image \<Rightarrow> exn + iiif_image" where
  "turned libs rot img =
     (if mirror rot \<or> angle rot \<noteq> 0 then run_img (rotate_image (slanted libs) (angle rot) (mirror rot)) img else Inr img)"

definition in_quality :: "image_libs \<Rightarrow> quality_type \<Rightarrow> iiif_image \<Rightarrow> exn + iiif_image" where
  "in_quality libs q img =
     (case q of
        DEFAULT \<Rightarrow> Inr img
      | COLOR \<Rightarrow> run_img (to_icc libs icc_sRGB 8) img
      | GRAY \<Rightarrow> run_img (to_icc libs icc_GRAY_D50 8) img
      | BITONAL \<Rightarrow> run_img (toBitonal (to_icc libs)) img)"

text \<open>Whatever watermark the permission names, the one in the file \<open>watermark.tif\<close> is taken.\<close>

definition watermarked :: "image_libs \<Rightarrow> string \<Rightarrow> iiif_image \<Rightarrow> exn + iiif_image" where
  "watermarked libs watermark img =
     (if watermark \<noteq> [] then run_img (add_watermark (read_watermark libs) ''watermark.tif'') img else Inr img)"

section \<open>The copy for the cache\<close>

definition with_cache_file :: "image_libs \<Rightarrow> (string \<Rightarrow> (iiif_world, unit) act) \<Rightarrow> (iiif_world, unit) act" where
  "with_cache_file libs k =
     swith wcache (\<lambda>c.
       if c = None then k []
       else (\<lambda>w. case sbind (on_cache (getNewCacheFileName (mkstemp libs)) [])
                  (\<lambda>name. sbind (on_conn (openCacheFile (can_open libs name))) (\<lambda>_. sret name)) w of
           (Inl (CsError msg), w1) \<Rightarrow> on_conn (send_error INTERNAL_SERVER_ERROR msg) w1
         | (Inl e, w1) \<Rightarrow> (Inl e, w1)
         | (Inr name, w1) \<Rightarrow> k name w1))"

text \<open>Closing the file leaves on the disk what has been written to it.\<close>

definition close_cache_file :: "int \<Rightarrow> string \<Rightarrow> iiif_world \<Rightarrow> iiif_world" where
  "close_cache_file t name w =
     (let n = (case cachefile (wconn w) of None \<Rightarrow> 0 | Some d \<Rightarrow> length d) in
      w\<lparr>wconn := closeCacheFile (wconn w),
        wcache := map_option (\<lambda>c. c\<lparr>disk := (disk c)(name \<mapsto> \<lparr>st_mtime = t, st_size = n\<rparr>)\<rparr>) (wcache w)\<rparr>)"

text \<open>An error while the image is written: the copy is thrown away, and the error is sent if it still can be.\<close>

definition give_up :: "env \<Rightarrow> string \<Rightarrow> string \<Rightarrow> (iiif_world, unit) act" where
  "give_up ev name msg = sseq
     [swhen (\<lambda>w. wcache w \<noteq> None) (sseq
        [smod (close_cache_file (now ev) name), on_cache (smod (unlink name)) ()]),
      on_conn (send_error INTERNAL_SERVER_ERROR msg)]"

definition or_give_up :: "env \<Rightarrow> string \<Rightarrow> (iiif_world, 'a) act \<Rightarrow> ('a \<Rightarrow> (iiif_world, unit) act) \<Rightarrow> (iiif_world, unit) act" where
  "or_give_up ev name m k w =
     (case m w of
        (Inl (CsError msg), w1) \<Rightarrow> give_up ev name msg w1
      | (Inl e, w1) \<Rightarrow> (Inl e, w1)
      | (Inr x, w1) \<Rightarrow> k x w1)"

section \<open>Writing the image\<close>

text \<open>The loop over the extra channels of a JPEG; its bound shrinks with them.\<close>

fun remove_alpha :: "nat \<Rightarrow> nat \<Rightarrow> (iiif_image, unit) act" where
  "remove_alpha 0 i = sret ()"
| "remove_alpha (Suc n) i =
     swith (\<lambda>img. length (es img)) (\<lambda>nalpha.
       if i < nalpha + 3 then sbind (removeChan i) (\<lambda>_. remove_alpha n (i + 1)) else sret ())"

definition jpeg_image :: "image_libs \<Rightarrow> (iiif_image, unit) act" where
  "jpeg_image libs =
     sbind (swith (\<lambda>img. (img_nc img, length (es img))) (\<lambda>(n, nalpha). if n > 3 \<and> nalpha > 0 then remove_alpha nalpha 3 else sret ()))
       (\<lambda>_. to_icc libs icc_sRGB 8)"

definition image_response :: "string \<Rightarrow> string \<Rightarrow> (connection, unit) act" where
  "image_response header mime = sseq [smod (status OK []), header_set ''Link'' header, header_set ''Content-Type'' mime]"

definition unsupported_response :: "(connection, unit) act" where
  "unsupported_response = sseq
     [setBuffer, smod (status BAD_REQUEST []), header_set ''Content-Type'' ''text/plain'',
      put_string (''Not Implemented!'' @ [LF]),
      put_string (''Unsupported file format requested! Supported are .jpg, .jp2, .tif, .png, .pdf'' @ [LF]), flush]"

definition write_format :: "image_libs \<Rightarrow> env \<Rightarrow> image_job \<Rightarrow> string \<Rightarrow> iiif_image \<Rightarrow> (iiif_world, unit) act \<Rightarrow> (iiif_world, unit) act" where
  "write_format libs ev job name img k =
     (let start = (\<lambda>mime. on_conn (image_response (job_header job) mime));
          send_as = (\<lambda>ftype img1. or_give_up ev name (on_conn (write_image libs ftype img1)) (\<lambda>_. k))
      in case fmt (job_format job) of
           JPG \<Rightarrow> sseq [start ''image/jpeg'',
             or_give_up ev name (lift_result (run_img (jpeg_image libs) img))
               (\<lambda>img1. sseq [on_conn setChunkedTransfer, send_as ''jpg'' img1])]
         | JP2 \<Rightarrow> sseq [start ''image/jp2'', on_conn setChunkedTransfer, send_as ''jpx'' img]
         | TIF \<Rightarrow> sseq [start ''image/tiff'', send_as ''tif'' img]
         | PNG \<Rightarrow> sseq [start ''image/png'', on_conn setChunkedTransfer, send_as ''png'' img]
         | _ \<Rightarrow> sseq [on_conn unsupported_response, k])"

definition store_copy :: "env \<Rightarrow> image_job \<Rightarrow> string \<Rightarrow> (iiif_world, unit) act" where
  "store_copy ev job name =
     swhen (\<lambda>w. cachefile (wconn w) \<noteq> None) (sseq
       [smod (close_cache_file (now ev) name),
        on_cache (add (now ev) (job_infile job) (job_canonical job) name (job_w job) (job_h job) (job_resolutions job)) ()])"

definition transcode :: "image_libs \<Rightarrow> env \<Rightarrow> transcoder" where
  "transcode libs ev job =
     with_image libs job (\<lambda>img0.
     or_refuse (turned libs (job_rotation job) img0) error_text INTERNAL_SERVER_ERROR (\<lambda>img1.
     or_refuse (in_quality libs (quality (job_format job)) img1) no_text OK (\<lambda>img2.
     or_refuse (watermarked libs (job_watermark job) img2) error_text INTERNAL_SERVER_ERROR (\<lambda>img3. sseq
       [on_conn (header_set ''Cache-Control'' ''must-revalidate, post-check=0, pre-check=0''),
        with_cache_file libs (\<lambda>name.
          write_format libs ev job name img3
            (or_give_up ev name (store_copy ev job name) (\<lambda>_. on_conn flush)))]))))"

text \<open>The handler with all its parts.\<close>

definition iiif_service :: "iiif_config \<Rightarrow> env \<Rightarrow> image_libs \<Rightarrow> iiif_calls \<Rightarrow> string \<Rightarrow> (iiif_world, unit) act" where
  "iiif_service cfg ev libs calls route = iiif_handler cfg ev (transcode libs ev) calls route"

end
