(* ===== verification/BitProps.thy ===== *)
theory BitProps
  imports ImageProps IIIFTranscode
begin

text \<open>
Bits and bytes, channels and differences, and what the faults of the operations mean for requests.
\<close>

section \<open>One bit and eight\<close>

lemma bit_at_bit: "bit_at v k \<longleftrightarrow> bit v (7 - k)"
  by (simp add: bit_at_def and_exp_eq_0_iff_not_bit)

lemma cvrt1BitTo8Bit_whole_bytes:
  assumes "nx = 8 * sll" "nx * ny < 2 ^ 32" "length inbuf = sll * ny"
  shows "cvrt1BitTo8Bit inbuf nx ny sll black white =
    Inr (map (\<lambda>p. if bit_at (inbuf ! (p div 8)) (p mod 8) then white else black) [0..<nx * ny])"
proof (cases "ny = 0")
  case True
  then show ?thesis using assms(1) by (auto simp: cvrt1BitTo8Bit_def u32_def every_eighth_def)
next
  case False
  let ?n = "sll * ny"
  let ?t = "map (\<lambda>p. if bit_at (inbuf ! (p div 8)) (p mod 8) then white else black) [0..<nx * ny]"
  let ?F = "\<lambda>p out. case (Inr (?t ! p) :: exn + nat) of Inl e \<Rightarrow> Inl e | Inr v \<Rightarrow> put_at p v out"
  have size: "8 * ?n = nx * ny" using assms(1) by simp
  with assms(2) have "?n < 2 ^ 32" by linarith
  note size = size this
  have sll: "u32 (8 * sll) = nx"
  proof -
    have "nx * 1 \<le> nx * ny" using False by (intro mult_le_mono) simp_all
    then have "nx < 2 ^ 32" using assms(2) by linarith
    then show ?thesis using assms(1) by (simp add: u32_def)
  qed
  have "for_each (\<lambda>i. for_each (\<lambda>k out. case get_at inbuf i of Inl e \<Rightarrow> Inl e
        | Inr v \<Rightarrow> put_at (u32 (i * 8 + k)) (if bit_at v k then white else black) out) [0..<8]) [0..<?n] out
      = for_each (\<lambda>i. for_each (\<lambda>k. ?F (8 * i + k)) [0..<8]) [0..<?n] out" for out
  proof (rule for_each_cong, rule for_each_cong)
    fix i k s1 s2 assume ik: "i \<in> set [0..<?n]" "k \<in> set [0..<8 :: nat]"
    then have b: "8 * i + k < nx * ny" using size(1) by auto
    then have "u32 (i * 8 + k) = 8 * i + k" using assms(2) by (simp add: u32_def ac_simps)
    moreover have "(8 * i + k) div 8 = i" "(8 * i + k) mod 8 = k" using ik(2) by auto
    ultimately show "(case get_at inbuf i of Inl e \<Rightarrow> Inl e
        | Inr v \<Rightarrow> put_at (u32 (i * 8 + k)) (if bit_at v k then white else black) s2) = ?F (8 * i + k) s2"
      using ik(1) assms(3) b by (simp add: get_at_def)
  qed
  also have "for_each (\<lambda>i. for_each (\<lambda>k. ?F (8 * i + k)) [0..<8]) [0..<?n] (replicate (nx * ny) 0)
      = for_each ?F [0..<nx * ny] (replicate (nx * ny) 0)"
    unfolding for_each_nested [of ?F] size(1) ..
  also have "\<dots> = Inr ?t" by (rule fill_loop) simp_all
  finally show ?thesis using sll size(2) assms(2) by (simp add: cvrt1BitTo8Bit_def u32_def mult.commute)
qed

text \<open>
  Rows of a bit image are read at the column's own number in place of the byte that holds it: when the rows are
  padded to whole bytes, as in any image whose width is not a multiple of eight, and wider than a byte, the conversion
  reads behind the buffer.
\<close>

theorem padded_bits_undefined:
  assumes "nx < 8 * sll" "8 * (sll - 1) < nx" "2 \<le> sll" "8 * sll < 2 ^ 32" "0 < ny" "ny * sll + nx < 2 ^ 32"
    and "length inbuf = sll * ny"
  shows "cvrt1BitTo8Bit inbuf nx ny sll black white = Inl Undefined"
proof -
  let ?body = "\<lambda>y x k out. if x + k < nx then
      (case get_at inbuf (u32 (y * sll + x)) of Inl e \<Rightarrow> Inl e
       | Inr v \<Rightarrow> put_at (u32 (y * nx + x + k)) (if bit_at v k then white else black) out) else Inr out"
  have only: "e = Undefined" if "?body y x k s = Inl e" for y x k s e
    using that access_undefined by (auto split: if_splits sum.splits)
  have row: "e = Undefined" if "for_each (?body y x) [0..<8] s = Inl e" for y x s e
    using for_each_only_undefined [OF only that] .
  have rows: "e = Undefined" if "for_each (\<lambda>x. for_each (?body y x) [0..<8]) (every_eighth nx) s = Inl e" for y s e
    using for_each_only_undefined [OF row that] .
  let ?y = "ny - 1" and ?x = "8 * (sll - 1)"
  have at: "?body ?y ?x 0 s = Inl Undefined" for s
  proof -
    have "sll * ny \<le> ?y * sll + ?x" using assms(3,5) by (cases ny) (auto simp: algebra_simps)
    moreover have "?y * sll + ?x < 2 ^ 32" using assms(2,6) by (cases ny) (auto simp: algebra_simps)
    ultimately show ?thesis using assms(2,7) by (simp add: get_at_def u32_def)
  qed
  have x: "?x \<in> set (every_eighth nx)" using assms(2,3) by (auto simp: every_eighth_def)
  have "for_each (?body ?y ?x) [0..<8] s = Inl Undefined" for s
  proof (rule for_each_undefined [where x = 0 and f = "?body ?y ?x"])
    show "?body ?y ?x 0 s = Inl Undefined" for s by (rule at)
    show "e = Undefined" if "?body ?y ?x k s = Inl e" for k s e using that by (rule only)
  qed simp
  note block = this
  have line: "for_each (\<lambda>x. for_each (?body ?y x) [0..<8]) (every_eighth nx) s = Inl Undefined" for s
  proof (rule for_each_undefined [where f = "\<lambda>x. for_each (?body ?y x) [0..<8]" and x = ?x])
    show "e = Undefined" if "for_each (?body ?y x) [0..<8] s = Inl e" for x s e using that by (rule row)
  qed (rule x, rule block)
  have "for_each (\<lambda>y. for_each (\<lambda>x. for_each (?body y x) [0..<8]) (every_eighth nx)) [0..<ny] s = Inl Undefined" for s
  proof (rule for_each_undefined [where f = "\<lambda>y. for_each (\<lambda>x. for_each (?body y x) [0..<8]) (every_eighth nx)" and x = ?y])
    show "e = Undefined" if "for_each (\<lambda>x. for_each (?body y x) [0..<8]) (every_eighth nx) s = Inl e" for y s e
      using that by (rule rows)
    show "?y \<in> set [0..<ny]" using assms(5) by simp
  qed (rule line)
  then show ?thesis using assms(1,4) by (simp add: cvrt1BitTo8Bit_def u32_def)
qed

lemma padded_bits_undefined_witness: "cvrt1BitTo8Bit [0, 0, 0, 0] 9 2 2 0 255 = Inl Undefined"
  by (rule padded_bits_undefined) simp_all

text \<open>The bits of a byte, set one after the other.\<close>

definition pack :: "(nat \<Rightarrow> bool) \<Rightarrow> nat \<Rightarrow> nat" where
  "pack P n = fold (\<lambda>k a. if P k then a OR 2 ^ (7 - k) else a) [0..<n] 0"

lemma pack_0 [simp]: "pack P 0 = 0"
  by (simp add: pack_def)

lemma pack_Suc: "pack P (Suc n) = (if P n then pack P n OR 2 ^ (7 - n) else pack P n)"
  by (simp add: pack_def)

lemma bit_pack: "n \<le> 8 \<Longrightarrow> k < 8 \<Longrightarrow> bit (pack P n) (7 - k) \<longleftrightarrow> k < n \<and> P k"
proof (induction n)
  case (Suc n)
  then have "bit (2 ^ (7 - n) :: nat) (7 - k) \<longleftrightarrow> k = n" by (auto simp: bit_exp_iff)
  with Suc show ?case by (auto simp: pack_Suc bit_or_iff less_Suc_eq)
qed simp

text \<open>The packed rows after \<open>q\<close> pixels.\<close>

definition packed :: "(nat \<Rightarrow> bool) \<Rightarrow> nat \<Rightarrow> nat \<Rightarrow> nat list" where
  "packed P n q = map (\<lambda>i. pack (\<lambda>k. P (8 * i + k)) (min 8 (q - 8 * i))) [0..<n]"

lemma packed_step:
  assumes "q < 8 * n"
  shows "put_at (q div 8) (if P q then packed P n q ! (q div 8) OR 2 ^ (7 - q mod 8) else packed P n q ! (q div 8)) (packed P n q)
    = Inr (packed P n (Suc q))"
proof -
  have b: "q div 8 < n" using assms by (simp add: less_mult_imp_div_less)
  have q: "8 * (q div 8) + q mod 8 = q" by simp
  have "(packed P n q)[q div 8 := if P q then packed P n q ! (q div 8) OR 2 ^ (7 - q mod 8) else packed P n q ! (q div 8)]
      = packed P n (Suc q)" (is "?l = ?r")
  proof (rule nth_equalityI)
    fix i assume "i < length ?l"
    then have i: "i < n" by (simp add: packed_def)
    consider "i < q div 8" | "i = q div 8" | "q div 8 < i" by linarith
    then show "?l ! i = ?r ! i"
    proof cases
      case 1
      then have "8 * i + 8 \<le> q" by (metis Suc_leI div_le_mono le_trans mult_Suc_right mult_le_mono2 times_div_less_eq_dividend add.commute)
      then have "min 8 (q - 8 * i) = 8" "min 8 (Suc q - 8 * i) = 8" by auto
      with 1 i show ?thesis by (simp add: packed_def)
    next
      case 2
      have d: "q - 8 * (q div 8) = q mod 8" by (rule minus_mult_div_eq_mod)
      then have "Suc q - 8 * (q div 8) = Suc (q mod 8)" by (metis Suc_diff_le times_div_less_eq_dividend)
      moreover have "q mod 8 < 8" by simp
      ultimately have m: "min 8 (q - 8 * (q div 8)) = q mod 8" "min 8 (Suc q - 8 * (q div 8)) = Suc (q mod 8)"
        using d by linarith+
      show ?thesis using 2 b m q by (simp add: packed_def pack_Suc)
    next
      case 3
      then have "Suc q \<le> 8 * i" by linarith
      with 3 i show ?thesis by (simp add: packed_def)
    qed
  qed (simp add: packed_def)
  then show ?thesis using b by (simp add: put_at_def packed_def)
qed

lemma cvrt8BitTo1bit_packed:
  assumes "nx = 8 * m" "nx * ny < 2 ^ 32" "nx + 7 < 2 ^ 32" "length inbuf = nx * ny"
  shows "cvrt8BitTo1bit inbuf nx ny bright = (Inr (packed (\<lambda>q. (inbuf ! q > 128) = bright) (m * ny) (nx * ny)), m)"
proof -
  let ?P = "\<lambda>q. (inbuf ! q > 128) = bright"
  let ?F = "\<lambda>q out. case get_at inbuf q of Inl e \<Rightarrow> Inl e | Inr v \<Rightarrow>
      (case get_at out (q div 8) of Inl e \<Rightarrow> Inl e
       | Inr o1 \<Rightarrow> put_at (q div 8) (if (v > 128) = bright then o1 OR 2 ^ (7 - q mod 8) else o1) out)"
  have sll: "u32 (nx + 7) div 8 = m" using assms(1,3) by (simp add: u32_def)
  have N: "8 * (m * ny) = nx * ny" using assms(1) by simp
  have "m * ny < 2 ^ 32" using assms(2) N by linarith
  then have small: "u32 (m * ny) = m * ny" by (simp add: u32_def)
  have step: "?F q (packed ?P (m * ny) q) = Inr (packed ?P (m * ny) (Suc q))" if "q < nx * ny" for q
  proof -
    have "q div 8 < m * ny" by (rule less_mult_imp_div_less) (use that N in linarith)
    then have "get_at (packed ?P (m * ny) q) (q div 8) = Inr (packed ?P (m * ny) q ! (q div 8))"
      by (simp add: get_at_def packed_def)
    moreover have "get_at inbuf q = Inr (inbuf ! q)" using that assms(4) by (simp add: get_at_def)
    ultimately show ?thesis using packed_step [of q "m * ny" ?P] that N by simp
  qed
  have "for_each (\<lambda>y. for_each (\<lambda>x out.
           let slot = u32 (y * m + x div 8) in
           case get_at inbuf (u32 (y * nx + x)) of Inl e \<Rightarrow> Inl e
           | Inr v \<Rightarrow> (case get_at out slot of Inl e \<Rightarrow> Inl e
                | Inr o1 \<Rightarrow> put_at slot (if (v > 128) = bright then o1 OR 2 ^ (7 - x mod 8) else o1) out))
           [0..<nx]) [0..<ny] (out :: nat list)
      = for_each (\<lambda>y. for_each (\<lambda>x. ?F (nx * y + x)) [0..<nx]) [0..<ny] out" for out
  proof (rule for_each_cong, rule for_each_cong)
    fix y x and s1 s2 :: "nat list" assume "y \<in> set [0..<ny]" "x \<in> set [0..<nx]"
    then have yx: "nx * y + x < nx * ny"
      using index_bound [of x nx y ny 0 1] by (simp add: ac_simps)
    have e: "nx * y + x = x + 8 * (m * y)" using assms(1) by simp
    have d: "(nx * y + x) div 8 = y * m + x div 8" "(nx * y + x) mod 8 = x mod 8"
      unfolding e by (simp_all add: mult.commute)
    have "y * m + x div 8 \<le> nx * y + x" unfolding d(1) [symmetric] by simp
    then have u: "u32 (y * m + x div 8) = (nx * y + x) div 8" "u32 (y * nx + x) = nx * y + x"
      using yx assms(2) d(1) by (simp_all add: u32_def ac_simps)
    show "(let slot = u32 (y * m + x div 8) in
           case get_at inbuf (u32 (y * nx + x)) of Inl e \<Rightarrow> Inl e
           | Inr v \<Rightarrow> (case get_at s2 slot of Inl e \<Rightarrow> Inl e
                | Inr o1 \<Rightarrow> put_at slot (if (v > 128) = bright then o1 OR 2 ^ (7 - x mod 8) else o1) s2)) = ?F (nx * y + x) s2"
      unfolding Let_def d(2) u ..
  qed
  moreover have "for_each (\<lambda>y. for_each (\<lambda>x. ?F (nx * y + x)) [0..<nx]) [0..<ny] (packed ?P (m * ny) 0)
      = Inr (packed ?P (m * ny) (nx * ny))"
    unfolding for_each_nested [of ?F] by (rule for_range [where S = "packed ?P (m * ny)" and f = ?F]) (use step in simp_all)
  moreover have "replicate (m * ny) 0 = packed ?P (m * ny) 0" by (simp add: packed_def map_replicate_const)
  ultimately show ?thesis unfolding cvrt8BitTo1bit_def Let_def sll small by simp
qed

lemma packed_bit:
  assumes "8 * k = n" and "p < n"
  shows "bit_at (packed P k n ! (p div 8)) (p mod 8) = P p"
proof -
  have b: "p div 8 < k" by (rule less_mult_imp_div_less) (use assms in linarith)
  then have "8 \<le> n - 8 * (p div 8)" using assms(1) by linarith
  then have "packed P k n ! (p div 8) = pack (\<lambda>j. P (8 * (p div 8) + j)) 8" using b by (simp add: packed_def)
  then show ?thesis by (simp add: bit_at_bit bit_pack)
qed

text \<open>
  Packing gray values to bits and unpacking them again keeps every pixel on its side of the middle, and a
  picture in black and white as it is, when the rows are whole bytes; \<open>bright\<close> is the meaning of a set bit.
\<close>

theorem bits_roundtrip:
  assumes "nx = 8 * m" "nx * ny < 2 ^ 32" "nx + 7 < 2 ^ 32" "length inbuf = nx * ny"
  shows "\<exists>bytes. cvrt8BitTo1bit inbuf nx ny bright = (Inr bytes, m) \<and>
    cvrt1BitTo8Bit bytes nx ny m (if bright then 0 else 255) (if bright then 255 else 0) =
      Inr (map (\<lambda>v. if v > 128 then 255 else 0) inbuf) \<and>
    (set inbuf \<subseteq> {0, 255} \<longrightarrow> map (\<lambda>v. if v > 128 then 255 else 0) inbuf = inbuf)"
proof -
  let ?P = "\<lambda>q. (inbuf ! q > 128) = bright" and ?b = "if bright then 0 else (255 :: nat)" and ?w = "if bright then 255 else (0 :: nat)"
  let ?bytes = "packed ?P (m * ny) (nx * ny)"
  have N: "8 * (m * ny) = nx * ny" using assms(1) by simp
  note bit_p = packed_bit [OF N, of _ ?P]
  have "length ?bytes = m * ny" by (simp add: packed_def)
  from cvrt1BitTo8Bit_whole_bytes [OF assms(1,2) this, of ?b ?w]
  have "cvrt1BitTo8Bit ?bytes nx ny m ?b ?w = Inr (map (\<lambda>p. if ?P p then ?w else ?b) [0..<nx * ny])"
    using bit_p by simp
  moreover have "map (\<lambda>p. if ?P p then ?w else ?b) [0..<nx * ny] = map (\<lambda>v. if v > 128 then 255 else 0) inbuf"
    by (rule nth_equalityI) (simp_all add: assms(4))
  moreover have "set inbuf \<subseteq> {0, 255} \<Longrightarrow> map (\<lambda>v. if v > 128 then 255 else 0) inbuf = inbuf"
    by (rule map_idI) auto
  ultimately show ?thesis
    by (intro exI [of _ ?bytes] conjI impI cvrt8BitTo1bit_packed [OF assms]) simp_all
qed

lemma bits_roundtrip_witness:
  "\<exists>bytes. cvrt8BitTo1bit [0, 255, 7, 200, 129, 128, 1, 255] 8 1 True = (Inr bytes, 1) \<and>
     cvrt1BitTo8Bit bytes 8 1 1 0 255 = Inr [0, 255, 0, 255, 255, 0, 0, 255]"
proof -
  let ?p = "[0, 255, 7, 200, 129, 128, 1, 255] :: nat list"
  have h: "(8 :: nat) = 8 * 1" "8 * 1 < (2 :: nat) ^ 32" "8 + 7 < (2 :: nat) ^ 32" "length ?p = 8 * 1" by simp_all
  from bits_roundtrip [OF h, of True] obtain bytes where "cvrt8BitTo1bit ?p 8 1 True = (Inr bytes, 1)"
    "cvrt1BitTo8Bit bytes 8 1 1 0 255 = Inr (map (\<lambda>v. if v > 128 then 255 else 0) ?p)" by auto
  then show ?thesis by simp
qed

section \<open>Channels\<close>

text \<open>
  Removing the last channel works, and any other is undefined.
\<close>

lemma drop_last_channel:
  assumes "0 < nc"
  shows "drop_channel (raster w h nc p) w h nc (nc - 1) = Inr (raster w h (nc - 1) p)"
proof -
  let ?buf = "raster w h nc p" and ?m = "nc - 1"
  have "for_pixels w h nc (\<lambda>j i k out. if k = ?m then Inr out else (case get_at ?buf (nc * (j * w + i) + k) of
      Inl e \<Rightarrow> Inl e | Inr v \<Rightarrow> put_at (?m * (j * w + i) + k) v out)) out
    = for_pixels w h ?m (\<lambda>j i k out. case (Inr (raster w h ?m p ! (?m * (j * w + i) + k)) :: exn + nat) of
      Inl e \<Rightarrow> Inl e | Inr v \<Rightarrow> put_at (?m * (j * w + i) + k) v out) out" for out
    unfolding for_pixels_def
  proof (rule for_each_cong, rule for_each_cong)
    fix j i s1 s2 assume "j \<in> set [0..<h]" "i \<in> set [0..<w]"
    then have ij: "i < w" "j < h" by simp_all
    have n: "[0..<nc] = [0..<?m] @ [?m]" by (metis assms Suc_diff_1 upt_Suc_append zero_le)
    have "for_each (\<lambda>k out. if k = ?m then Inr out else (case get_at ?buf (nc * (j * w + i) + k) of
        Inl e \<Rightarrow> Inl e | Inr v \<Rightarrow> put_at (?m * (j * w + i) + k) v out)) [0..<?m] s2
      = for_each (\<lambda>k out. case (Inr (raster w h ?m p ! (?m * (j * w + i) + k)) :: exn + nat) of
      Inl e \<Rightarrow> Inl e | Inr v \<Rightarrow> put_at (?m * (j * w + i) + k) v out) [0..<?m] s2"
    proof (rule for_each_cong)
      fix k s assume "k \<in> set [0..<?m]"
      then have k: "k < ?m" "k < nc" by auto
      have "get_at ?buf (nc * (j * w + i) + k) = Inr (p j i k)"
        using index_bound [OF ij k(2)] raster_nth [OF ij k(2), of p] by (simp add: get_at_def)
      then show "(if k = ?m then Inr s else (case get_at ?buf (nc * (j * w + i) + k) of
        Inl e \<Rightarrow> Inl e | Inr v \<Rightarrow> put_at (?m * (j * w + i) + k) v s)) =
        (case (Inr (raster w h ?m p ! (?m * (j * w + i) + k)) :: exn + nat) of
      Inl e \<Rightarrow> Inl e | Inr v \<Rightarrow> put_at (?m * (j * w + i) + k) v s)"
        using k(1) raster_nth [OF ij k(1), of p] by simp
    qed
    then show "for_each (\<lambda>k out. if k = ?m then Inr out else (case get_at ?buf (nc * (j * w + i) + k) of
        Inl e \<Rightarrow> Inl e | Inr v \<Rightarrow> put_at (?m * (j * w + i) + k) v out)) [0..<nc] s2
      = for_each (\<lambda>k out. case (Inr (raster w h ?m p ! (?m * (j * w + i) + k)) :: exn + nat) of
      Inl e \<Rightarrow> Inl e | Inr v \<Rightarrow> put_at (?m * (j * w + i) + k) v out) [0..<?m] s2"
      unfolding n for_each_append by (simp split: sum.splits)
  qed
  also have "for_pixels w h ?m (\<lambda>j i k out. case (Inr (raster w h ?m p ! (?m * (j * w + i) + k)) :: exn + nat) of
      Inl e \<Rightarrow> Inl e | Inr v \<Rightarrow> put_at (?m * (j * w + i) + k) v out) (replicate (w * h * ?m) 0)
    = for_each (\<lambda>q out. case (Inr (raster w h ?m p ! q) :: exn + nat) of Inl e \<Rightarrow> Inl e | Inr v \<Rightarrow> put_at q v out)
        [0..<w * h * ?m] (replicate (w * h * ?m) 0)"
    by (simp only: for_pixels_linear [of w h ?m "\<lambda>q out. case (Inr (raster w h ?m p ! q) :: exn + nat) of Inl e \<Rightarrow> Inl e | Inr v \<Rightarrow> put_at q v out"])
  also have "\<dots> = Inr (raster w h ?m p)" by (rule fill_loop) simp_all
  finally show ?thesis by (simp add: drop_channel_def ac_simps)
qed

lemma drop_inner_channel:
  assumes "chan < nc - 1" "0 < w" "0 < h"
  shows "drop_channel buf w h nc chan = Inl Undefined"
proof -
  let ?body = "\<lambda>j i k out. if k = chan then Inr out else (case get_at buf (nc * (j * w + i) + k) of
      Inl e \<Rightarrow> Inl e | Inr v \<Rightarrow> put_at ((nc - 1) * (j * w + i) + k) v out)"
  let ?P = "\<lambda>out :: nat list. length out = (nc - 1) * w * h"
  have only: "e = Undefined" if "?body j i k s = Inl e" for j i k s e
    using that access_undefined by (auto split: if_splits sum.splits)
  have keeps: "?P s'" if "?P s" "?body j i k s = Inr s'" for j i k s s'
    using that by (auto simp: put_at_def split: if_splits sum.splits)
  let ?cell = "\<lambda>j i. for_each (?body j i) [0..<nc]"
  have cell: "e = Undefined" if "?cell j i s = Inl e" for j i s e
    using for_each_only_undefined [OF only that] .
  have cell_keeps: "?P s'" if "?P s" "?cell j i s = Inr s'" for j i s s'
    using for_each_keeps [where I = ?P, OF keeps that] .
  let ?line = "\<lambda>j. for_each (?cell j) [0..<w]"
  have line: "e = Undefined" if "?line j s = Inl e" for j s e
    using for_each_only_undefined [OF cell that] .
  have line_keeps: "?P s'" if "?P s" "?line j s = Inr s'" for j s s'
    using for_each_keeps [where I = ?P, OF cell_keeps that] .
  have "w * h = (h - 1) * w + (w - 1) + 1" using assms(2,3) by (cases h; cases w) (simp_all add: ac_simps)
  then have "(nc - 1) * ((h - 1) * w + (w - 1)) + (nc - 1) = (nc - 1) * w * h"
    by (metis mult.assoc add.commute mult_Suc_right Suc_eq_plus1)
  then have last: "?body (h - 1) (w - 1) (nc - 1) s = Inl Undefined" if "?P s" for s
    using that assms(1) access_undefined(1) [of buf] by (auto simp: put_at_def split: sum.splits)
  have last_cell: "?cell (h - 1) (w - 1) s = Inl Undefined" if "?P s" for s
    by (rule for_each_undefined_inv [where f = "?body (h - 1) (w - 1)" and I = ?P and x = "nc - 1"])
      (rule only, assumption, use assms(1) in simp, rule last, assumption, rule keeps, assumption+, rule that)
  have last_line: "?line (h - 1) s = Inl Undefined" if "?P s" for s
    by (rule for_each_undefined_inv [where f = "?cell (h - 1)" and I = ?P and x = "w - 1"])
      (rule cell, assumption, use assms(2) in simp, rule last_cell, assumption, rule cell_keeps, assumption+, rule that)
  have "for_each ?line [0..<h] s = Inl Undefined" if "?P s" for s
    by (rule for_each_undefined_inv [where f = ?line and I = ?P and x = "h - 1"])
      (rule line, assumption, use assms(3) in simp, rule last_line, assumption, rule line_keeps, assumption+, rule that)
  then show ?thesis by (simp add: drop_channel_def for_pixels_def)
qed

text \<open>
  Removing a channel is right for the last one only: it is gone from every pixel, and the rest of the picture
  stays; to remove another one is undefined, because the channels behind it keep their old place and leave the buffer
  at the last pixel.
\<close>

theorem removeChan_last_only:
  assumes "shows_picture img w h p" and "2 \<le> img_nc img" and "0 < w" "0 < h" and "es img = []"
  shows "(\<exists>img'. removeChan (img_nc img - 1) img = (Inr (), img') \<and> shows_picture img' w h p \<and> img_nc img' = img_nc img - 1) \<and>
    (\<forall>chan < img_nc img - 1. fst (removeChan chan img) = Inl Undefined)"
proof -
  let ?n = "img_nc img"
  have i: "img_nx img = w" "img_ny img = h" "bps_ok img" "w * h * ?n < 2 ^ 32" "pixels img = raster w h ?n p"
    using assms(1) by (simp_all add: shows_picture_def)
  have "drop_channel (pixels img) w h ?n (?n - 1) = Inr (raster w h (?n - 1) p)"
    unfolding i(5) by (rule drop_last_channel) (use assms(2) in simp)
  then have "removeChan (?n - 1) img = (Inr (), (set_pixels (raster w h (?n - 1) p) img)\<lparr>img_nc := ?n - 1\<rparr>)"
    using assms(2,5) i(1-3) by (simp add: removeChan_def remove_extra_def monad_simps)
  moreover have "shows_picture ((set_pixels (raster w h (?n - 1) p) img)\<lparr>img_nc := ?n - 1\<rparr>) w h p"
  proof -
    have "w * h * (?n - 1) \<le> w * h * ?n" by simp
    then have "w * h * (?n - 1) < 2 ^ 32" using i(4) by (rule le_less_trans)
    then show ?thesis using i(1-3) by (auto simp: shows_picture_def bps_ok_def set_pixels_def pixels_def)
  qed
  moreover have "fst (removeChan chan img) = Inl Undefined" if "chan < ?n - 1" for chan
  proof -
    have "\<not> (?n = 1 \<or> ?n \<le> chan)" using that assms(2) by linarith
    then show ?thesis using assms(5) i(1-3) drop_inner_channel [OF that assms(3,4)]
      by (simp add: removeChan_def remove_extra_def monad_simps)
  qed
  ultimately show ?thesis by auto
qed

lemma removeChan_last_only_witness:
  "fst (removeChan 0 (demo_image\<lparr>img_nx := 1, img_nc := 3\<rparr>)) = Inl Undefined"
proof -
  have "shows_picture (demo_image\<lparr>img_nx := 1, img_nc := 3\<rparr>) 1 2 (\<lambda>j i k. 3 * j + k + 1)"
    by (simp add: shows_picture_def demo_image_def bps_ok_def pixels_def raster_def upt_rec no_image_def)
  from removeChan_last_only [OF this] show ?thesis by (simp add: demo_image_def no_image_def)
qed

text \<open>
  The loop over the extra channels of a JPEG starts with the first of them: with two of them that is undefined.
\<close>

theorem two_alpha_channels_undefined:
  assumes "shows_picture img w h p" and "img_nc img = 5" and "0 < w" "0 < h" and "length (es img) = 2" and "photo img = RGB"
  shows "fst (jpeg_image libs img) = Inl Undefined"
proof -
  let ?img = "img\<lparr>es := drop 1 (es img)\<rparr>"
  have i: "img_nx img = w" "img_ny img = h" "bps_ok img" using assms(1) by (simp_all add: shows_picture_def)
  have "fst (removeChan 3 img) = Inl Undefined"
    using assms(2,5,6) i drop_inner_channel [of 3 5 w h] assms(3,4)
    by (auto simp: removeChan_def remove_extra_def erase_extra_def monad_simps bps_ok_def pixels_def)
  then show ?thesis using assms(2,5)
    by (auto simp: jpeg_image_def monad_simps numeral_2_eq_2 split: sum.splits prod.splits)
qed

section \<open>Arithmetic\<close>

lemma combine_same:
  assumes "n \<le> length a"
  shows "combine (-) a a n = Inr (replicate n 0)"
proof -
  have "for_each (\<lambda>i out. case get_at a i of Inl e \<Rightarrow> Inl e | Inr x \<Rightarrow>
      (case get_at a i of Inl e \<Rightarrow> Inl e | Inr y \<Rightarrow> put_at i (int x - int y) out)) [0..<n] (replicate n 0)
    = for_each (\<lambda>i out. case (Inr (replicate n (0 :: int) ! i) :: exn + int) of Inl e \<Rightarrow> Inl e | Inr v \<Rightarrow> put_at i v out)
        [0..<n] (replicate n 0)"
    by (rule for_each_cong) (use assms in \<open>simp add: get_at_def\<close>)
  also have "\<dots> = Inr (replicate n 0)" by (rule fill_loop) simp_all
  finally show ?thesis by (simp add: combine_def)
qed

lemma list_bounds_zero: "0 < n \<Longrightarrow> list_max (replicate n 0) = 0" "0 < n \<Longrightarrow> list_min (replicate n 0) = 0"
proof -
  have "foldl (\<lambda>m d. if d > m then d else m) m (replicate n 0) = (if n = 0 then m else max m 0)" for m :: int and n
    by (induction n arbitrary: m) auto
  then show "0 < n \<Longrightarrow> list_max (replicate n 0) = 0" by (simp add: list_max_def INT_MIN_def)
  have "foldl (\<lambda>m d. if d < m then d else m) m (replicate n 0) = (if n = 0 then m else min m 0)" for m :: int and n
    by (induction n arbitrary: m) auto
  then show "0 < n \<Longrightarrow> list_min (replicate n 0) = 0" by (simp add: list_min_def INT_MAX_def)
qed

text \<open>
  The difference of two images that compare equal divides by zero: the largest difference, by which all of them
  are scaled, is 0.
\<close>

theorem equal_images_divide_by_zero:
  assumes "full_buffer lhs" "full_buffer rhs" and "0 < img_nx lhs * img_ny lhs * img_nc lhs"
    and "compatible lhs rhs" "pixels lhs = pixels rhs"
  shows "fst (image_subtract rhs lhs) = Inl Undefined"
proof -
  let ?n = "img_nx lhs * img_ny lhs * img_nc lhs"
  have l: "length (pixels lhs) = ?n" "bps_ok lhs" "sample_count lhs = ?n"
    using assms(1) by (simp_all add: full_buffer_def sample_count_def u32_def)
  have c: "combine (-) (pixels lhs) (pixels rhs) ?n = Inr (replicate ?n 0)"
    unfolding assms(5) [symmetric] by (rule combine_same) (simp add: l)
  obtain m where m: "?n = Suc m" using assms(3) gr0_implies_Suc by blast
  have "rescale_all b 0 0 (replicate ?n 0) buf = Inl Undefined" for b buf
  proof -
    have "[0..<?n] = 0 # [1..<?n]" using assms(3) by (simp add: upt_conv_Cons)
    then show ?thesis using assms(3) by (simp add: rescale_all_def get_at_def rescale_def)
  qed
  then have "rescaled 0 0 (replicate ?n 0) lhs = (Inl Undefined, lhs)" by (simp add: rescaled_def)
  then show ?thesis
    using assms(3,4) l(2,3) c list_bounds_zero [OF assms(3)] by (simp add: image_subtract_def Let_def)
qed

lemma equal_images_divide_by_zero_witness: "fst (image_subtract demo_image demo_image) = Inl Undefined"
  by (rule equal_images_divide_by_zero)
    (simp_all add: full_buffer_def demo_image_def no_image_def bps_ok_def pixels_def compatible_def)

text \<open>A copy by assignment keeps the interpretation of the image it overwrites, and so may differ from what was copied.\<close>

theorem assigned_image_keeps_photo:
  assumes "image_assign lhs rhs = Inr img"
  shows "photo img = photo lhs"
  using assms by (auto simp: image_assign_def copy_pixels_def split: if_splits)

text \<open>Between two rows of the same column a sample of sixteen bits is cut to eight.\<close>

theorem interpolated_column_is_byte:
  assumes "bilinn 16 buf nx x y c n = Inr v" and "f64 (x - of_nat (nat (trunc x))) < 1 / 100"
    and "1 / 100 \<le> f64 (y - of_nat (nat (trunc y)))"
  shows "v < 2 ^ 8"
  using assms by (auto simp: bilinn_def Let_def cut_def nat_less_iff split: sum.splits if_splits)

text \<open>
  A request for the mirror image (rotation \<open>!0\<close>) whose image can be read is undefined, wherever the image comes from.
\<close>

theorem mirror_request_undefined:
  assumes "read_image libs (job_infile job) (job_region job) (job_size job) (fmt (job_format job) = JPG) = Inr img"
    and "shows_picture img nx ny p" and "job_rotation job = \<lparr>mirror = True, angle = 0\<rparr>"
  shows "transcode libs ev job w = (Inl Undefined, w)"
proof -
  have i: "img_nx img = nx" "img_ny img = ny" "bps_ok img" "nx * ny * img_nc img < 2 ^ 32" "pixels img = raster nx ny (img_nc img) p"
    using assms(2) by (simp_all add: shows_picture_def)
  have "rotate_image (slanted libs) 0 True img = (Inl Undefined, img)"
    unfolding rotate_image_def doRotate_def i(1,2,5) using i(3,4)
    by (simp add: mirrored_raster norm_angle_small turn_def)
  then show ?thesis
    using assms(1,3) by (simp add: transcode_def with_image_def turned_def run_img_def or_refuse_def error_text_def monad_simps)
qed

end
