(* ===== verification/SockStream.thy ===== *)
theory SockStream
  imports Streams
begin

text \<open>
  The stream buffer of \<open>lib/SockStream.cpp\<close>, on which the request is read and the response
  written. The two buffers are lists of bytes, the pointers of \<open>std::streambuf\<close> are offsets in
  them. What the socket does is part of the state: \<open>arriving\<close> lists what the coming calls of
  \<open>read\<close> find (an empty string: nothing, the peer closed or the time is up), \<open>send_plan\<close> what
  the coming calls of \<open>send\<close> return at most (an empty plan: everything is taken), \<open>delivered\<close> is
  what the peer was sent. An access outside a buffer is \<open>Undefined\<close>.
\<close>

section \<open>The object\<close>

record sock_stream =
  in_buf :: string
  eback :: nat
  gptr :: nat
  egptr :: nat
  in_bufsize :: nat
  putback_size :: nat
  out_buf :: string
  pptr :: nat
  out_bufsize :: nat
  cSSL :: bool
  ssl_shutdown :: bool
  arriving :: "string list"
  delivered :: string
  send_plan :: "int list"

definition mk_sock_stream :: "bool \<Rightarrow> nat \<Rightarrow> nat \<Rightarrow> nat \<Rightarrow> string list \<Rightarrow> int list \<Rightarrow> sock_stream" where
  "mk_sock_stream ssl in_size out_size putback packets sends =
     (let e = in_size + putback
      in \<lparr>in_buf = replicate e (CHR 0x00), eback = e, gptr = e, egptr = e, in_bufsize = in_size,
          putback_size = putback, out_buf = replicate out_size (CHR 0x00), pptr = 0, out_bufsize = out_size,
          cSSL = ssl, ssl_shutdown = False, arriving = packets, delivered = [], send_plan = sends\<rparr>)"

section \<open>The socket\<close>

definition sock_read :: "nat \<Rightarrow> sock_stream \<Rightarrow> string \<times> sock_stream" where
  "sock_read n s =
     (if cSSL s \<and> ssl_shutdown s then ([], s)
      else (case arriving s of
          [] \<Rightarrow> ([], s)
        | p # ps \<Rightarrow> (take n p, s\<lparr>arriving := (if length p \<le> n then ps else drop n p # ps)\<rparr>)))"

definition sock_send :: "string \<Rightarrow> sock_stream \<Rightarrow> int \<times> sock_stream" where
  "sock_send d s =
     (case send_plan s of
        [] \<Rightarrow> (int (length d), s\<lparr>delivered := delivered s @ d\<rparr>)
      | k # ks \<Rightarrow> (let t = min k (int (length d))
          in (t, s\<lparr>delivered := delivered s @ take (nat t) d, send_plan := ks\<rparr>)))"

section \<open>Reading\<close>

text \<open>\<open>memmove(in_buf, egptr() - putback_size, putback_size)\<close>.\<close>

definition keep_putback :: "(sock_stream, unit) act" where
  "keep_putback =
     sif (\<lambda>s. egptr s < putback_size s \<or> egptr s > length (in_buf s)) (sthrow Undefined)
       (smod (\<lambda>s. s\<lparr>in_buf := take (putback_size s) (drop (egptr s - putback_size s) (in_buf s))
                       @ drop (putback_size s) (in_buf s)\<rparr>))"

definition fill_in_buf :: "nat \<Rightarrow> (sock_stream, char option) act" where
  "fill_in_buf start = (\<lambda>s.
     case sock_read (in_bufsize s) s of (d, s1) \<Rightarrow>
       if d = [] then (Inr None, s1)
       else if start + length d > length (in_buf s1) then (Inl Undefined, s1)
       else (Inr (Some (hd d)),
             s1\<lparr>in_buf := take start (in_buf s1) @ d @ drop (start + length d) (in_buf s1),
                eback := 0, gptr := start, egptr := start + length d\<rparr>))"

definition underflow :: "(sock_stream, char option) act" where
  "underflow =
     sif (\<lambda>s. gptr s < egptr s) (sget (\<lambda>s. Some (in_buf s ! gptr s)))
       (sif (\<lambda>s. eback s = 0)
          (sbind keep_putback (\<lambda>_. swith putback_size fill_in_buf))
          (fill_in_buf 0))"

text \<open>\<open>sbumpc\<close> of the base class.\<close>

definition sbumpc :: "(sock_stream, char option) act" where
  "sbumpc = sbind underflow (\<lambda>c. sbind
     (if c = None then sret () else smod (\<lambda>s. s\<lparr>gptr := gptr s + 1\<rparr>)) (\<lambda>_. sret c))"

section \<open>Writing\<close>

text \<open>
  The loop of \<open>overflow\<close> and \<open>sync\<close>: \<open>n\<close> bytes are still to be sent, \<open>nn\<close> are. The length given
  to \<open>send\<close> is the \<open>size_t\<close> value \<open>n - nn\<close>, to \<open>SSL_write\<close> its conversion to \<open>int\<close>.
\<close>

definition send_part :: "nat \<Rightarrow> nat \<Rightarrow> (sock_stream, int) act" where
  "send_part n nn = (\<lambda>s.
     let len = sub64 n nn in
     if cSSL s \<and> ssl_shutdown s then (Inr 0, s)
     else if cSSL s \<and> to_int32 (int len) < 0 then (Inr (- 1), s)
     else (let want = (if cSSL s then nat (to_int32 (int len)) else len) in
       if nn + want > length (out_buf s) then (Inl Undefined, s)
       else (case sock_send (take want (drop nn (out_buf s))) s of (t, s') \<Rightarrow> (Inr t, s'))))"

function send_loop :: "nat \<Rightarrow> nat \<Rightarrow> (sock_stream, nat option) act" where
  "send_loop n nn s =
     (if n = 0 then (Inr (Some nn), s)
      else (case send_part n nn s of
          (Inl e, s') \<Rightarrow> (Inl e, s')
        | (Inr t, s') \<Rightarrow> if t \<le> 0 then (Inr None, s') else send_loop (n - nat t) (nn + nat t) s'))"
  by pat_completeness auto
termination
  by (relation "measure (\<lambda>(n, nn, s). n)") auto

declare send_loop.simps [simp del]

definition put_chr :: "char \<Rightarrow> (sock_stream, unit) act" where
  "put_chr ch = sif (\<lambda>s. pptr s < length (out_buf s))
     (smod (\<lambda>s. s\<lparr>out_buf := (out_buf s)[pptr s := ch], pptr := pptr s + 1\<rparr>))
     (sthrow Undefined)"

definition overflow :: "char option \<Rightarrow> (sock_stream, char option) act" where
  "overflow c = (case c of
       None \<Rightarrow> sret None
     | Some ch \<Rightarrow>
         sif (\<lambda>s. pptr s \<ge> out_bufsize s)
           (sbind (swith out_bufsize (\<lambda>n. send_loop n 0)) (\<lambda>r. case r of
                None \<Rightarrow> sret None
              | Some nn \<Rightarrow> sbind (smod (\<lambda>s. s\<lparr>pptr := pptr s - nn\<rparr>))
                            (\<lambda>_. sbind (put_chr ch) (\<lambda>_. sret (Some ch)))))
           (sbind (put_chr ch) (\<lambda>_. sret (Some ch))))"

definition sync :: "(sock_stream, int) act" where
  "sync = sbind (swith pptr (\<lambda>n. send_loop n 0)) (\<lambda>r. case r of
       None \<Rightarrow> sret (- 1)
     | Some nn \<Rightarrow> sbind (smod (\<lambda>s. s\<lparr>pptr := pptr s - nn\<rparr>)) (\<lambda>_. sret 0))"

text \<open>\<open>sputc\<close> and \<open>sputn\<close> of the base class: store where there is room, else call \<open>overflow\<close>.\<close>

definition sputc :: "char \<Rightarrow> (sock_stream, char option) act" where
  "sputc ch = sif (\<lambda>s. pptr s < out_bufsize s)
     (sbind (put_chr ch) (\<lambda>_. sret (Some ch))) (overflow (Some ch))"

fun sputn :: "string \<Rightarrow> (sock_stream, nat) act" where
  "sputn [] s = (Inr 0, s)"
| "sputn (c # cs) s =
     (case sputc c s of
        (Inl e, s') \<Rightarrow> (Inl e, s')
      | (Inr None, s') \<Rightarrow> (Inr 0, s')
      | (Inr (Some _), s') \<Rightarrow>
          (case sputn cs s' of (Inl e, s'') \<Rightarrow> (Inl e, s'') | (Inr k, s'') \<Rightarrow> (Inr (k + 1), s'')))"

end
