(* ===== verification/SockProps.thy ===== *)
theory SockProps
  imports SockStream
begin

text \<open>
  The stream buffer refines the streams of \<open>Streams\<close>: what is read are the bytes that arrive, in
  order; what is written reaches the peer in order, as long as the socket takes what it is given.
  A socket that takes a part only, or a first packet shorter than the putback area, is not handled.
\<close>

section \<open>Well-formed buffers\<close>

definition sock_wf :: "sock_stream \<Rightarrow> bool" where
  "sock_wf s \<longleftrightarrow> length (in_buf s) = in_bufsize s + putback_size s
     \<and> gptr s \<le> egptr s \<and> egptr s \<le> length (in_buf s)
     \<and> length (out_buf s) = out_bufsize s \<and> pptr s \<le> out_bufsize s
     \<and> 0 < in_bufsize s \<and> 0 < out_bufsize s \<and> out_bufsize s < 2 ^ 31 \<and> \<not> ssl_shutdown s"

lemma mk_sock_stream_wf:
  "0 < i \<Longrightarrow> 0 < n \<Longrightarrow> n < 2 ^ 31 \<Longrightarrow> sock_wf (mk_sock_stream ssl i n p ps ks)"
  by (simp add: sock_wf_def mk_sock_stream_def Let_def)

section \<open>Sending\<close>

lemma sub64_exact: "nn \<le> n \<Longrightarrow> n < 2 ^ 31 \<Longrightarrow> sub64 n nn = n - nn"
  by (rule sub64_le) auto

lemma to_int32_small: "n < 2 ^ 31 \<Longrightarrow> to_int32 (int n) = int n"
  by (simp add: to_int32_def)

lemma send_part_whole:
  assumes "sock_wf s" "n \<le> out_bufsize s"
  shows "send_part n 0 s = (case sock_send (take n (out_buf s)) s of (t, s') \<Rightarrow> (Inr t, s'))"
  using assms by (simp add: send_part_def sock_wf_def sub64_exact to_int32_small Let_def)

lemma send_loop_all:
  assumes "sock_wf s" "n \<le> out_bufsize s" "send_plan s = []"
  shows "send_loop n 0 s = (Inr (Some n), s\<lparr>delivered := delivered s @ take n (out_buf s)\<rparr>)"
proof (cases "n = 0")
  case True
  then show ?thesis by (simp add: send_loop.simps)
next
  case False
  have "length (take n (out_buf s)) = n" using assms by (simp add: sock_wf_def)
  with False assms show ?thesis
    by (simp add: send_loop.simps [of n] send_loop.simps [of 0] send_part_whole sock_send_def)
qed

text \<open>After a part was sent, the loop cannot reach its end: what it asks for next is at most
  \<open>n - nn\<close> bytes, which leaves at least \<open>nn\<close> bytes unsent.\<close>

lemma send_part_limit:
  assumes "length (out_buf s) < 2 ^ 31" "nn \<le> n"  "n < 2 ^ 31" "send_part n nn s = (Inr t, s')"
  shows "t \<le> int (n - nn) \<and> out_buf s' = out_buf s"
proof -
  have "to_int32 (int n - int nn) = int n - int nn"
    using to_int32_small [of "n - nn"] assms by (simp add: of_nat_diff)
  with assms show ?thesis
    by (auto simp: send_part_def sub64_exact Let_def sock_send_def split: if_splits list.splits)
qed

lemma send_part_wrap:
  assumes "length (out_buf s) < 2 ^ 31" "n < nn" "nn < 2 ^ 31" "send_part n nn s = (Inr t, s')"
  shows "t \<le> 0"
proof -
  have len: "int (sub64 n nn) = int n - int nn + 2 ^ 64"
  proof -
    have "(int n - int nn) mod 2 ^ 64 = (int n - int nn + 2 ^ 64) mod 2 ^ 64" by simp
    also have "\<dots> = int n - int nn + 2 ^ 64" using assms by (intro mod_pos_pos_trivial) auto
    finally show ?thesis using assms by (simp add: sub64_def)
  qed
  have "to_int32 (int (sub64 n nn)) = int n - int nn"
  proof -
    have "(int n - int nn + 2 ^ 64 + 2 ^ 31) mod 2 ^ 32 = (int n - int nn + 2 ^ 31 + 2 ^ 32 * 2 ^ 32) mod 2 ^ 32"
      by simp
    also have "\<dots> = (int n - int nn + 2 ^ 31) mod 2 ^ 32" by (rule mod_mult_self2)
    also have "\<dots> = int n - int nn + 2 ^ 31" using assms by (intro mod_pos_pos_trivial) auto
    finally show ?thesis by (simp add: to_int32_def len)
  qed
  then have neg: "to_int32 (int (sub64 n nn)) < 0" using assms by simp
  have "int (nn + sub64 n nn) = int n + 18446744073709551616" using len by simp
  moreover have "length (out_buf s) < 2147483648" using assms by simp
  ultimately have "nn + sub64 n nn > length (out_buf s)" by linarith
  with assms(4) neg show ?thesis
    by (auto simp: send_part_def Let_def split: if_splits)
qed

lemma send_loop_partial:
  assumes "0 < n" "0 < nn" "n < 2 ^ 31" "nn < 2 ^ 31" "length (out_buf s) < 2 ^ 31"
  shows "fst (send_loop n nn s) \<noteq> Inr (Some k)"
  using assms
proof (induction n nn s rule: send_loop.induct)
  case (1 n nn s)
  show ?case
  proof (cases "send_part n nn s")
    case (Pair r s')
    show ?thesis
    proof (cases r)
      case (Inl e)
      with Pair 1 show ?thesis by (simp add: send_loop.simps [of n])
    next
      case (Inr t)
      show ?thesis
      proof (cases "t \<le> 0")
        case True
        with Pair Inr 1 show ?thesis by (simp add: send_loop.simps [of n])
      next
        case False
        with send_part_wrap [of s n nn t s'] 1 Pair Inr have le: "nn \<le> n" by (meson not_le_imp_less)
        from send_part_limit [of s nn n t s'] 1 Pair Inr le
        have t: "t \<le> int (n - nn)" "out_buf s' = out_buf s" by simp_all
        have "0 < n - nat t" "nn + nat t < 2 ^ 31" using t le 1(3-5) False by linarith+
        with 1 Pair Inr False t have "fst (send_loop (n - nat t) (nn + nat t) s') \<noteq> Inr (Some k)"
          by (intro "1.IH" [OF _ Pair [symmetric] Inr]) auto
        with Pair Inr False 1 show ?thesis by (simp add: send_loop.simps [of n])
      qed
    qed
  qed
qed

section \<open>Writing\<close>

lemma put_chr_ok:
  "pptr s < length (out_buf s) \<Longrightarrow>
   put_chr c s = (Inr (), s\<lparr>out_buf := (out_buf s)[pptr s := c], pptr := pptr s + 1\<rparr>)"
  by (simp add: put_chr_def monad_simps)

text \<open>What the peer has or will have after the next \<open>sync\<close>.\<close>

definition outgoing :: "sock_stream \<Rightarrow> string" where
  "outgoing s = delivered s @ take (pptr s) (out_buf s)"

lemma sputc_ok:
  assumes "sock_wf s" "send_plan s = []"
  shows "\<exists>s'. sputc c s = (Inr (Some c), s') \<and> sock_wf s' \<and> send_plan s' = []
           \<and> outgoing s' = outgoing s @ [c]"
proof (cases "pptr s < out_bufsize s")
  case True
  with assms show ?thesis
    by (auto simp: sputc_def put_chr_ok monad_simps sock_wf_def outgoing_def take_Suc_conv_app_nth)
next
  case False
  with assms have full: "pptr s = out_bufsize s" by (simp add: sock_wf_def)
  have loop: "send_loop (out_bufsize s) 0 s
      = (Inr (Some (out_bufsize s)), s\<lparr>delivered := delivered s @ take (out_bufsize s) (out_buf s)\<rparr>)"
    by (rule send_loop_all) (use assms in auto)
  from assms full show ?thesis
    by (auto simp: sputc_def overflow_def monad_simps loop put_chr_ok sock_wf_def outgoing_def
        take_Suc_conv_app_nth)
qed

lemma sputn_ok:
  "sock_wf s \<Longrightarrow> send_plan s = [] \<Longrightarrow>
   \<exists>s'. sputn d s = (Inr (length d), s') \<and> sock_wf s' \<and> send_plan s' = [] \<and> outgoing s' = outgoing s @ d"
proof (induction d arbitrary: s)
  case (Cons c d)
  obtain s1 where s1: "sputc c s = (Inr (Some c), s1)" "sock_wf s1" "send_plan s1 = []"
      "outgoing s1 = outgoing s @ [c]"
    using sputc_ok [OF Cons.prems] by blast
  from Cons.IH [OF s1(2,3)] s1 show ?case by auto
qed simp

lemma sync_ok:
  assumes "sock_wf s" "send_plan s = []"
  shows "\<exists>s'. sync s = (Inr 0, s') \<and> delivered s' = outgoing s \<and> pptr s' = 0 \<and> sock_wf s'"
proof -
  have "send_loop (pptr s) 0 s = (Inr (Some (pptr s)), s\<lparr>delivered := delivered s @ take (pptr s) (out_buf s)\<rparr>)"
    by (rule send_loop_all) (use assms in \<open>auto simp: sock_wf_def\<close>)
  with assms show ?thesis by (auto simp: sync_def monad_simps outgoing_def sock_wf_def)
qed



text \<open>
  A flush whose first block the socket takes only in part never succeeds: the length of the
  next block is computed from the wrong values, so the loop either gives up or reads outside the
  buffer, though the socket would take the rest.
\<close>

theorem sock_partial_send_fails:
  assumes "sock_wf s" "send_plan s = k # ks" "0 < k" "k < int (pptr s)"
  shows "fst (sync s) = Inr (- 1) \<or> (\<exists>e. fst (sync s) = Inl e)"
proof -
  have part: "send_part (pptr s) 0 s = (Inr k, s\<lparr>delivered := delivered s @ take (nat k) (out_buf s), send_plan := ks\<rparr>)"
  proof -
    have le: "pptr s \<le> out_bufsize s" "length (take (pptr s) (out_buf s)) = pptr s"
      using assms(1) by (simp_all add: sock_wf_def)
    have "min (nat k) (pptr s) = nat k" "min k (int (pptr s)) = k" using assms(4) by auto
    with le show ?thesis
      by (simp add: send_part_whole [OF assms(1)] sock_send_def assms(2))
  qed
  let ?s = "s\<lparr>delivered := delivered s @ take (nat k) (out_buf s), send_plan := ks\<rparr>"
  have "fst (send_loop (pptr s - nat k) (nat k) ?s) \<noteq> Inr (Some j)" for j
    by (rule send_loop_partial) (use assms in \<open>auto simp: sock_wf_def\<close>)
  moreover have "send_loop (pptr s) 0 s = send_loop (pptr s - nat k) (nat k) ?s"
    using assms part by (simp add: send_loop.simps [of "pptr s"])
  ultimately have no: "fst (send_loop (pptr s) 0 s) \<noteq> Inr (Some j)" for j by simp
  show ?thesis
  proof (cases "send_loop (pptr s) 0 s")
    case (Pair r s')
    with no show ?thesis
      by (cases r; cases "projr r") (auto simp: sync_def monad_simps)
  qed
qed

lemma sock_partial_send_fails_witness:
  "fst (sync (mk_sock_stream False 4 4 1 [] [1]\<lparr>out_buf := ''abcd'', pptr := 4\<rparr>)) = Inr (- 1)
   \<or> (\<exists>e. fst (sync (mk_sock_stream False 4 4 1 [] [1]\<lparr>out_buf := ''abcd'', pptr := 4\<rparr>)) = Inl e)"
  by (rule sock_partial_send_fails [where k = 1 and ks = "[]"])
    (auto simp: sock_wf_def mk_sock_stream_def)

section \<open>Reading\<close>

text \<open>What is still to be read.\<close>

definition incoming :: "sock_stream \<Rightarrow> string" where
  "incoming s = take (egptr s - gptr s) (drop (gptr s) (in_buf s)) @ concat (arriving s)"

text \<open>The putback area can be filled: nothing was read yet, or enough was.\<close>

definition putback_ok :: "sock_stream \<Rightarrow> bool" where
  "putback_ok s \<longleftrightarrow> (eback s \<noteq> 0 \<and> gptr s = egptr s \<and> (arriving s \<noteq> [] \<longrightarrow> putback_size s \<le> length (hd (arriving s)))
        \<and> putback_size s \<le> in_bufsize s)
     \<or> (eback s = 0 \<and> putback_size s \<le> egptr s)"

lemma fill_in_buf_ok:
  assumes "sock_wf s" "start \<le> putback_size s" "[] \<notin> set (arriving s)" "gptr s = egptr s"
  shows "\<exists>s'. fill_in_buf start s = (Inr (if incoming s = [] then None else Some (hd (incoming s))), s')
     \<and> sock_wf s' \<and> incoming s' = incoming s \<and> [] \<notin> set (arriving s')
     \<and> (incoming s \<noteq> [] \<longrightarrow> gptr s' < egptr s' \<and> eback s' = 0
          \<and> egptr s' = start + min (in_bufsize s) (length (hd (arriving s))))
     \<and> (incoming s = [] \<longrightarrow> s' = s) \<and> putback_size s' = putback_size s"
proof (cases "arriving s")
  case Nil
  with assms show ?thesis
    by (auto simp: fill_in_buf_def sock_read_def incoming_def)
next
  case (Cons p ps)
  with assms have p: "p \<noteq> []" "0 < in_bufsize s" "incoming s = p @ concat ps" by (auto simp: sock_wf_def incoming_def)
  have t: "take (in_bufsize s) p \<noteq> []" using p by simp
  have room: "start + min (in_bufsize s) (length p) \<le> length (in_buf s)" using assms by (simp add: sock_wf_def)
  have "\<not> (cSSL s \<and> ssl_shutdown s)" using assms by (simp add: sock_wf_def)
  then have f: "fill_in_buf start s = (Inr (Some (hd p)),
      s\<lparr>arriving := (if length p \<le> in_bufsize s then ps else drop (in_bufsize s) p # ps),
        in_buf := take start (in_buf s) @ take (in_bufsize s) p @ drop (start + min (in_bufsize s) (length p)) (in_buf s),
        eback := 0, gptr := start, egptr := start + min (in_bufsize s) (length p)\<rparr>)"
    using Cons t room p by (auto simp: fill_in_buf_def sock_read_def min.commute)
  have st: "start \<le> length (in_buf s)" using assms by (simp add: sock_wf_def)
  show ?thesis
    unfolding f using p Cons assms room st
    by (auto simp: sock_wf_def incoming_def min_def split: if_splits)
qed

lemma keep_putback_ok:
  assumes "sock_wf s" "putback_size s \<le> egptr s" "gptr s = egptr s"
  shows "\<exists>s'. keep_putback s = (Inr (), s') \<and> sock_wf s' \<and> incoming s' = incoming s
     \<and> arriving s' = arriving s \<and> gptr s' = gptr s \<and> egptr s' = egptr s
     \<and> putback_size s' = putback_size s \<and> eback s' = eback s"
  using assms by (auto simp: keep_putback_def monad_simps sock_wf_def incoming_def)

definition read_wf :: "sock_stream \<Rightarrow> bool" where
  "read_wf s \<longleftrightarrow> sock_wf s \<and> putback_ok s \<and> [] \<notin> set (arriving s)"

lemma underflow_ok:
  assumes "read_wf s"
  shows "\<exists>s'. underflow s = (Inr (if incoming s = [] then None else Some (hd (incoming s))), s')
     \<and> read_wf s' \<and> incoming s' = incoming s \<and> (incoming s \<noteq> [] \<longrightarrow> gptr s' < egptr s')"
proof (cases "gptr s < egptr s")
  case True
  with assms have lt: "gptr s < length (in_buf s)" by (auto simp: read_wf_def sock_wf_def)
  with True have "incoming s = in_buf s ! gptr s # take (egptr s - gptr s - 1) (drop (Suc (gptr s)) (in_buf s)) @ concat (arriving s)"
    by (simp add: incoming_def Cons_nth_drop_Suc [symmetric] take_Cons')
  with True assms show ?thesis by (simp add: underflow_def monad_simps)
next
  case False
  with assms have eq: "gptr s = egptr s" and wf: "sock_wf s" "putback_ok s" "[] \<notin> set (arriving s)"
    by (auto simp: read_wf_def sock_wf_def)
  show ?thesis
  proof (cases "eback s = 0")
    case True
    with wf have pb: "putback_size s \<le> egptr s" by (simp add: putback_ok_def)
    obtain s1 where s1: "keep_putback s = (Inr (), s1)" "sock_wf s1" "incoming s1 = incoming s"
        "arriving s1 = arriving s" "gptr s1 = gptr s" "egptr s1 = egptr s"
        "putback_size s1 = putback_size s" "eback s1 = eback s"
      using keep_putback_ok [OF wf(1) pb eq] by blast
    obtain s2 where s2: "fill_in_buf (putback_size s1) s1
          = (Inr (if incoming s1 = [] then None else Some (hd (incoming s1))), s2)"
        "sock_wf s2" "incoming s2 = incoming s1" "[] \<notin> set (arriving s2)"
        "incoming s1 \<noteq> [] \<longrightarrow> gptr s2 < egptr s2 \<and> eback s2 = 0
          \<and> egptr s2 = putback_size s1 + min (in_bufsize s1) (length (hd (arriving s1)))"
        "incoming s1 = [] \<longrightarrow> s2 = s1" "putback_size s2 = putback_size s1"
      using fill_in_buf_ok [of s1 "putback_size s1"] s1 wf eq by auto
    have "putback_ok s2" using s2 s1 True pb by (cases "incoming s = []") (auto simp: putback_ok_def)
    with s1 s2 True False show ?thesis
      by (auto simp: underflow_def monad_simps read_wf_def)
  next
    case nz: False
    obtain s2 where s2: "fill_in_buf 0 s
          = (Inr (if incoming s = [] then None else Some (hd (incoming s))), s2)"
        "sock_wf s2" "incoming s2 = incoming s" "[] \<notin> set (arriving s2)"
        "incoming s \<noteq> [] \<longrightarrow> gptr s2 < egptr s2 \<and> eback s2 = 0
          \<and> egptr s2 = 0 + min (in_bufsize s) (length (hd (arriving s)))"
        "incoming s = [] \<longrightarrow> s2 = s" "putback_size s2 = putback_size s"
      using fill_in_buf_ok [of s 0] wf eq by auto
    have "arriving s \<noteq> []" if "incoming s \<noteq> []" using that eq by (auto simp: incoming_def)
    with s2 wf nz have "putback_ok s2" by (cases "incoming s = []") (auto simp: putback_ok_def)
    with s2 nz False show ?thesis
      by (auto simp: underflow_def monad_simps read_wf_def)
  qed
qed

lemma sbumpc_ok:
  assumes "read_wf s"
  shows "\<exists>s'. sbumpc s = (Inr (if incoming s = [] then None else Some (hd (incoming s))), s')
     \<and> read_wf s' \<and> incoming s' = tl (incoming s)"
proof -
  obtain s1 where s1: "underflow s = (Inr (if incoming s = [] then None else Some (hd (incoming s))), s1)"
      "read_wf s1" "incoming s1 = incoming s" "incoming s \<noteq> [] \<longrightarrow> gptr s1 < egptr s1"
    using underflow_ok [OF assms] by blast
  show ?thesis
  proof (cases "incoming s = []")
    case True
    with s1 show ?thesis by (auto simp: sbumpc_def monad_simps)
  next
    case False
    with s1 have lt: "gptr s1 < egptr s1" by simp
    then have "gptr s1 < length (in_buf s1)" using s1(2) by (auto simp: read_wf_def sock_wf_def)
    with lt have "incoming s1 = in_buf s1 ! gptr s1 # take (egptr s1 - gptr s1 - 1) (drop (Suc (gptr s1)) (in_buf s1)) @ concat (arriving s1)"
      by (simp add: incoming_def Cons_nth_drop_Suc [symmetric] take_Cons')
    moreover have "incoming (s1\<lparr>gptr := gptr s1 + 1\<rparr>)
        = take (egptr s1 - gptr s1 - 1) (drop (Suc (gptr s1)) (in_buf s1)) @ concat (arriving s1)"
      by (simp add: incoming_def)
    ultimately have "incoming (s1\<lparr>gptr := gptr s1 + 1\<rparr>) = tl (incoming s)" using s1(3) by (metis list.sel(3))
    moreover have "read_wf (s1\<lparr>gptr := gptr s1 + 1\<rparr>)"
      using s1(2) lt by (auto simp: read_wf_def sock_wf_def putback_ok_def)
    ultimately show ?thesis using s1 False by (auto simp: sbumpc_def monad_simps)
  qed
qed

text \<open>
  C20: Reading from the socket refines reading from the stream of bytes that arrive: each byte is
  delivered once and in order, across refills of the buffer and whatever the sizes of the packets, and
  all accesses stay in the buffer, provided the first packet is at least as long as the putback area.
\<close>

theorem sock_read_refines:
  assumes "read_wf s" "is_good i" "rest i = incoming s"
  shows "\<exists>s'. sbumpc s = (Inr (fst (sb_bump i)), s') \<and> read_wf s' \<and> rest (snd (sb_bump i)) = incoming s'"
  using sbumpc_ok [OF assms(1)] assms(3)
  by (cases "incoming s") (auto simp: sb_bump_def)

lemma sock_read_refines_witness:
  "\<exists>s'. sbumpc (mk_sock_stream False 4 4 2 [''GET /'', ''x''] []) = (Inr (Some (CHR ''G'')), s')
     \<and> incoming s' = ''ET /x''"
  using sock_read_refines [of "mk_sock_stream False 4 4 2 [''GET /'', ''x''] []" "mk_istream ''GET /x''"]
  by (auto simp: read_wf_def sock_wf_def putback_ok_def mk_sock_stream_def incoming_def is_good_def
      mk_istream_def sb_bump_def Let_def)

text \<open>
  When the first packet is shorter than the putback area, the second refill copies bytes from
  in front of the buffer: with the sizes of the server, a request whose first packet has fewer than 32
  bytes.
\<close>

theorem sock_short_packet_undefined:
  assumes "0 < length p" "length p < putback" "length p \<le> in_size"
  shows "\<exists>s. underflow (mk_sock_stream ssl in_size out_size putback (p # ps) ks) = (Inr (Some (hd p)), s)
     \<and> fst (underflow (s\<lparr>gptr := egptr s\<rparr>)) = Inl Undefined"
  using assms
  by (auto simp: underflow_def monad_simps mk_sock_stream_def Let_def fill_in_buf_def sock_read_def
      keep_putback_def)

lemma sock_short_packet_undefined_witness:
  "\<exists>s. underflow (mk_sock_stream False 8192 8192 32 [''GET '', ''/ HTTP/1.1''] []) = (Inr (Some (CHR ''G'')), s)
     \<and> fst (underflow (s\<lparr>gptr := egptr s\<rparr>)) = Inl Undefined"
  using sock_short_packet_undefined [of "''GET ''" 32 8192 False 8192 "[''/ HTTP/1.1'']" "[]"] by simp

end
