(* ===== verification/Sockets.thy ===== *)
theory Sockets
  imports Prelude
begin

text \<open>
  The two tables of the server: \<open>lib/SocketControl.cpp\<close>, which sockets are polled, which wait for a
  worker and which a worker is busy with, and \<open>lib/ThreadControl.cpp\<close>, the workers and the queue of
  the idle ones. A \<open>vector\<close> and a \<open>queue\<close> are lists, the \<open>unordered_set\<close> of the working
  sockets, whose equality and hash look at \<open>sid\<close> only, is a list with at most one entry per \<open>sid\<close>. The
  mutexes are left out: only the main thread calls these operations.
\<close>

section \<open>Sockets\<close>

datatype control_message =
    NOOP | PROCESS_REQUEST | FINISHED_AND_CONTINUE | FINISHED_AND_CLOSE | SOCKET_CLOSED | EXIT | ERROR

datatype socket_type = CONTROL_SOCKET | STOP_SOCKET | HTTP_SOCKET | SSL_SOCKET | DYN_SOCKET

record socket_info =
  si_type :: control_message
  si_socket_type :: socket_type
  sid :: int
  ssl_sid :: "nat option"
  sslctx :: "nat option"
  si_peer_ip :: string
  si_peer_port :: int
  peer_name :: string

definition mk_socket_info :: "control_message \<Rightarrow> socket_type \<Rightarrow> int \<Rightarrow> socket_info" where
  "mk_socket_info t st s = \<lparr>si_type = t, si_socket_type = st, sid = s, ssl_sid = None, sslctx = None,
     si_peer_ip = [], si_peer_port = - 1, peer_name = []\<rparr>"

record thread_master =
  thread_ptr :: nat
  control_pipe :: int

section \<open>ThreadControl\<close>

record thread_control =
  thread_list :: "thread_master list"
  thread_queue :: "thread_master list"

definition thread_push :: "thread_master \<Rightarrow> thread_control \<Rightarrow> thread_control" where
  "thread_push tinfo tc = tc\<lparr>thread_queue := thread_queue tc @ [tinfo]\<rparr>"

definition thread_pop :: "thread_control \<Rightarrow> thread_master option \<times> thread_control" where
  "thread_pop tc = (case thread_queue tc of
       [] \<Rightarrow> (None, tc)
     | t # ts \<Rightarrow> (Some t, tc\<lparr>thread_queue := ts\<rparr>))"

definition thread_at :: "int \<Rightarrow> thread_control \<Rightarrow> exn + thread_master" where
  "thread_at index tc =
     (if 0 \<le> index \<and> nat index < length (thread_list tc) then Inr (thread_list tc ! nat index)
      else Inl (StdRuntime ''INVALID_INDEX''))"

definition remove_nth :: "nat \<Rightarrow> 'a list \<Rightarrow> 'a list" where
  "remove_nth k xs = take k xs @ drop (Suc k) xs"

definition thread_delete :: "nat \<Rightarrow> thread_control \<Rightarrow> exn + thread_control" where
  "thread_delete pos tc =
     (if pos < length (thread_list tc) then Inr (tc\<lparr>thread_list := remove_nth pos (thread_list tc)\<rparr>)
      else Inl Undefined)"

text \<open>
  The constructor: \<open>pipes\<close> are the results of \<open>socketpair\<close>, the end for the worker and the end for the
  main thread. When one of them fails no thread is made at all.
\<close>

definition mk_thread_control :: "(int \<times> int) option list \<Rightarrow> thread_control" where
  "mk_thread_control pipes =
     (if None \<in> set pipes then \<lparr>thread_list = [], thread_queue = []\<rparr>
      else (let ts = map (\<lambda>(k, p). \<lparr>thread_ptr = k, control_pipe = snd (the p)\<rparr>) (zip [0..<length pipes] pipes)
            in fold thread_push ts \<lparr>thread_list = ts, thread_queue = []\<rparr>))"

section \<open>SocketControl\<close>

record socket_control =
  generic_open_sockets :: "socket_info list"
  open_sockets :: "int list"
  waiting_sockets :: "socket_info list"
  working_sockets :: "socket_info list"
  n_msg_sockets :: int
  stop_sock_id :: int
  http_sock_id :: int
  ssl_sock_id :: int
  dyn_socket_base :: int

definition mk_socket_control :: "thread_control \<Rightarrow> socket_control" where
  "mk_socket_control tc =
     \<lparr>generic_open_sockets = map (\<lambda>t. mk_socket_info NOOP CONTROL_SOCKET (control_pipe t)) (thread_list tc),
      open_sockets = [], waiting_sockets = [], working_sockets = [],
      n_msg_sockets = int (length (thread_list tc)), stop_sock_id = - 1, http_sock_id = - 1,
      ssl_sock_id = - 1, dyn_socket_base = - 1\<rparr>"

definition get_sockets_arr :: "socket_control \<Rightarrow> socket_control" where
  "get_sockets_arr sc = sc\<lparr>open_sockets := map sid (generic_open_sockets sc)\<rparr>"

definition get_sockets_size :: "socket_control \<Rightarrow> nat" where
  "get_sockets_size sc = length (generic_open_sockets sc)"

definition open_socket :: "socket_info \<Rightarrow> socket_control \<Rightarrow> socket_control" where
  "open_socket si sc = sc\<lparr>generic_open_sockets := generic_open_sockets sc @ [si]\<rparr>"

definition last_index :: "socket_control \<Rightarrow> int" where
  "last_index sc = int (get_sockets_size sc) - 1"

definition add_stop_socket :: "int \<Rightarrow> (socket_control, unit) act" where
  "add_stop_socket s = sif (\<lambda>sc. dyn_socket_base sc \<noteq> - 1)
     (sthrow (CsError ''Adding stop socket not allowed after adding dynamic sockets!''))
     (smod (\<lambda>sc. let sc1 = open_socket (mk_socket_info NOOP STOP_SOCKET s) sc
                 in sc1\<lparr>stop_sock_id := last_index sc1\<rparr>))"

definition add_http_socket :: "int \<Rightarrow> (socket_control, unit) act" where
  "add_http_socket s = sif (\<lambda>sc. dyn_socket_base sc \<noteq> - 1)
     (sthrow (CsError ''Adding HTTP socket not allowed after adding dynamic sockets!''))
     (smod (\<lambda>sc. let sc1 = open_socket (mk_socket_info NOOP HTTP_SOCKET s) sc
                 in sc1\<lparr>http_sock_id := last_index sc1\<rparr>))"

definition add_ssl_socket :: "int \<Rightarrow> (socket_control, unit) act" where
  "add_ssl_socket s = sif (\<lambda>sc. dyn_socket_base sc \<noteq> - 1)
     (sthrow (CsError ''Adding SSL socket not allowed after adding dynamic sockets!''))
     (smod (\<lambda>sc. let sc1 = open_socket (mk_socket_info NOOP SSL_SOCKET s) sc
                 in sc1\<lparr>ssl_sock_id := last_index sc1\<rparr>))"

definition add_dyn_socket :: "socket_info \<Rightarrow> socket_control \<Rightarrow> socket_control" where
  "add_dyn_socket si sc =
     (let sc1 = open_socket (si\<lparr>si_type := NOOP, si_socket_type := DYN_SOCKET\<rparr>) sc
      in if dyn_socket_base sc1 = - 1 then sc1\<lparr>dyn_socket_base := last_index sc1\<rparr> else sc1)"

definition index_error :: exn where
  "index_error = CsError ''Socket index out of range!''"

definition renumbered :: "int \<Rightarrow> socket_control \<Rightarrow> socket_control" where
  "renumbered pos sc =
     (if pos < n_msg_sockets sc then
        sc\<lparr>n_msg_sockets := n_msg_sockets sc - 1, stop_sock_id := stop_sock_id sc - 1,
           http_sock_id := http_sock_id sc - 1, ssl_sock_id := ssl_sock_id sc - 1,
           dyn_socket_base := dyn_socket_base sc - 1\<rparr>
      else if pos = http_sock_id sc then
        sc\<lparr>http_sock_id := - 1, ssl_sock_id := ssl_sock_id sc - 1, dyn_socket_base := dyn_socket_base sc - 1\<rparr>
      else if pos = ssl_sock_id sc then
        sc\<lparr>ssl_sock_id := - 1, dyn_socket_base := dyn_socket_base sc - 1\<rparr>
      else sc)"

definition remove_socket :: "int \<Rightarrow> (socket_control, socket_info) act" where
  "remove_socket pos = sif (\<lambda>sc. 0 \<le> pos \<and> nat pos < get_sockets_size sc)
     (swith (\<lambda>sc. generic_open_sockets sc ! nat pos) (\<lambda>sockid.
       sbind (smod (\<lambda>sc. renumbered pos
                (sc\<lparr>generic_open_sockets := remove_nth (nat pos) (generic_open_sockets sc)\<rparr>)))
         (\<lambda>_. sret sockid)))
     (sthrow index_error)"

definition add_to_working_socket :: "socket_info \<Rightarrow> socket_control \<Rightarrow> socket_control" where
  "add_to_working_socket si sc =
     (if sid si \<in> sid ` set (working_sockets sc) then sc
      else sc\<lparr>working_sockets := si # working_sockets sc\<rparr>)"

definition remove_from_working_socket :: "socket_info \<Rightarrow> socket_control \<Rightarrow> socket_control" where
  "remove_from_working_socket si sc =
     sc\<lparr>working_sockets := filter (\<lambda>x. sid x \<noteq> sid si) (working_sockets sc)\<rparr>"

definition move_to_waiting :: "int \<Rightarrow> (socket_control, unit) act" where
  "move_to_waiting pos = sif (\<lambda>sc. pos - dyn_socket_base sc \<ge> 0 \<and> 0 \<le> pos \<and> nat pos < get_sockets_size sc)
     (smod (\<lambda>sc. sc\<lparr>generic_open_sockets := remove_nth (nat pos) (generic_open_sockets sc),
                    waiting_sockets := waiting_sockets sc @ [generic_open_sockets sc ! nat pos]\<rparr>))
     (sthrow index_error)"

definition get_waiting :: "socket_control \<Rightarrow> socket_info option \<times> socket_control" where
  "get_waiting sc = (case waiting_sockets sc of
       [] \<Rightarrow> (None, sc)
     | w # ws \<Rightarrow> (Some w, sc\<lparr>waiting_sockets := ws\<rparr>))"

text \<open>What a message carries: all of the socket but the name of the peer.\<close>

definition message_of :: "socket_info \<Rightarrow> socket_info" where
  "message_of si = si\<lparr>peer_name := []\<rparr>"

text \<open>A message that could not be read as a whole is one of the type \<open>ERROR\<close> with nothing in it.\<close>

definition no_message :: socket_info where
  "no_message = \<lparr>si_type = ERROR, si_socket_type = CONTROL_SOCKET, sid = 0, ssl_sid = None, sslctx = None,
     si_peer_ip = [], si_peer_port = 0, peer_name = []\<rparr>"

text \<open>The sockets \<open>broadcast_exit\<close> closes, in no particular order, and the pipes it sends \<open>EXIT\<close> to.\<close>

definition exit_message :: "int \<Rightarrow> socket_info" where
  "exit_message p = mk_socket_info EXIT CONTROL_SOCKET p"

definition exit_pipes :: "socket_control \<Rightarrow> exn + int list" where
  "exit_pipes sc =
     (if nat (n_msg_sockets sc) \<le> get_sockets_size sc
      then Inr (map sid (take (nat (n_msg_sockets sc)) (generic_open_sockets sc))) else Inl Undefined)"

text \<open>
  \<open>close_all_dynsocks\<close>: the loop erases the entry it is at and then goes on to the next index. The index is
  an \<open>int\<close> compared with a \<open>size_t\<close>, so a negative one ends the loop at once.
\<close>

function close_dyn_loop :: "nat \<Rightarrow> socket_info list \<Rightarrow> socket_info list \<times> socket_info list" where
  "close_dyn_loop i xs =
     (if i < length xs
      then (case close_dyn_loop (i + 1) (remove_nth i xs) of (closed, r) \<Rightarrow> (xs ! i # closed, r))
      else ([], xs))"
  by pat_completeness auto
termination
  by (relation "measure (\<lambda>(i, xs). length xs - i)") (auto simp: remove_nth_def)

declare close_dyn_loop.simps [simp del]

definition close_all_dynsocks :: "socket_control \<Rightarrow> socket_info list \<times> socket_control" where
  "close_all_dynsocks sc =
     (if dyn_socket_base sc < 0 then ([], sc)
      else (case close_dyn_loop (nat (dyn_socket_base sc)) (generic_open_sockets sc) of
          (closed, r) \<Rightarrow> (closed, sc\<lparr>generic_open_sockets := r\<rparr>)))"

end
