(* ===== verification/ServerLoop.thy ===== *)
theory ServerLoop
  imports Sockets
begin

text \<open>
  \<open>Server::run\<close> and \<open>process_request\<close> of \<open>lib/Cserve.cpp\<close>: the main thread polls all sockets and
  hands those with input to the workers, which answer over their pipes. The state holds both tables, the
  messages under way on each pipe (named by the end of the main thread), and the sockets closed so far.
  What \<open>poll\<close>, \<open>accept\<close> and the workers' \<open>processRequest\<close> return are arguments.
\<close>

section \<open>State\<close>

record server =
  sctl :: socket_control
  tctl :: thread_control
  running :: bool
  to_worker :: "int \<Rightarrow> socket_info list"
  from_worker :: "int \<Rightarrow> socket_info list"
  exited :: "int list"
  closed_sockets :: "int list"

definition on_sctl :: "(socket_control, 'a) act \<Rightarrow> (server, 'a) act" where
  "on_sctl m s = (case m (sctl s) of (r, sc) \<Rightarrow> (r, s\<lparr>sctl := sc\<rparr>))"

definition mod_sctl :: "(socket_control \<Rightarrow> socket_control) \<Rightarrow> server \<Rightarrow> server" where
  "mod_sctl f s = s\<lparr>sctl := f (sctl s)\<rparr>"

definition send_control_message :: "int \<Rightarrow> socket_info \<Rightarrow> server \<Rightarrow> server" where
  "send_control_message p si s = s\<lparr>to_worker := (to_worker s)(p := to_worker s p @ [message_of si])\<rparr>"

definition receive_control_message :: "int \<Rightarrow> server \<Rightarrow> socket_info \<times> server" where
  "receive_control_message p s = (case from_worker s p of
       [] \<Rightarrow> (no_message, s)
     | m # ms \<Rightarrow> (m, s\<lparr>from_worker := (from_worker s)(p := ms)\<rparr>))"

definition close_socket :: "socket_info \<Rightarrow> server \<Rightarrow> server" where
  "close_socket si s = s\<lparr>closed_sockets := closed_sockets s @ [sid si]\<rparr>"

section \<open>The worker\<close>

datatype thread_status = T_CONTINUE | T_CLOSE

text \<open>One turn of the loop of \<open>process_request\<close>; \<open>status\<close> is the result of \<open>processRequest\<close>.\<close>

definition process_request :: "thread_status \<Rightarrow> int \<Rightarrow> server \<Rightarrow> server" where
  "process_request status p s = (case to_worker s p of
       [] \<Rightarrow> s
     | msg # ms \<Rightarrow>
         (let s1 = s\<lparr>to_worker := (to_worker s)(p := ms)\<rparr> in
          case si_type msg of
            PROCESS_REQUEST \<Rightarrow>
              s1\<lparr>from_worker := (from_worker s1)(p := from_worker s1 p @
                [msg\<lparr>si_type := (if status = T_CONTINUE then FINISHED_AND_CONTINUE else FINISHED_AND_CLOSE)\<rparr>])\<rparr>
          | EXIT \<Rightarrow> s1\<lparr>exited := p # exited s1\<rparr>
          | _ \<Rightarrow> s1))"

section \<open>Accepting a connection\<close>

text \<open>
  \<open>accept_connection\<close>: the descriptor and the peer are what \<open>accept\<close> found. On the SSL port a failed
  handshake leaves the socket without an SSL handle; the context is never stored.
\<close>

definition accept_connection :: "int \<Rightarrow> string \<Rightarrow> int \<Rightarrow> string \<Rightarrow> nat option \<Rightarrow> bool \<Rightarrow> socket_info" where
  "accept_connection fd ip port name handshake ssl =
     \<lparr>si_type = NOOP, si_socket_type = DYN_SOCKET, sid = fd, ssl_sid = (if ssl then handshake else None),
      sslctx = None, si_peer_ip = ip, si_peer_port = port, peer_name = name\<rparr>"

section \<open>One socket with input\<close>

definition push_thread :: "nat \<Rightarrow> (server, unit) act" where
  "push_thread i s = (case thread_at (int i) (tctl s) of
       Inl e \<Rightarrow> (Inl e, s)
     | Inr t \<Rightarrow> (Inr (), s\<lparr>tctl := thread_push t (tctl s)\<rparr>))"

text \<open>The worker behind pipe \<open>fd\<close> takes the socket that waits longest, or is idle again.\<close>

definition dispatch :: "int \<Rightarrow> socket_info \<Rightarrow> server \<Rightarrow> server" where
  "dispatch p sockid s =
     (let si = sockid\<lparr>si_type := PROCESS_REQUEST\<rparr>
      in send_control_message p si (mod_sctl (add_to_working_socket si) s))"

definition hand_over :: "nat \<Rightarrow> int \<Rightarrow> (server, unit) act" where
  "hand_over i fd s = (case get_waiting (sctl s) of
       (Some sockid, sc) \<Rightarrow> (Inr (), dispatch fd sockid (s\<lparr>sctl := sc\<rparr>))
     | (None, sc) \<Rightarrow> push_thread i (s\<lparr>sctl := sc\<rparr>))"

definition thread_gone :: "nat \<Rightarrow> (server, unit) act" where
  "thread_gone i s = (case thread_at (int i) (tctl s) of
       Inl e \<Rightarrow> (Inl e, s)
     | Inr t \<Rightarrow> (case thread_delete i (tctl s) of
           Inl e \<Rightarrow> (Inl e, s)
         | Inr tc \<Rightarrow> (Inr (), s\<lparr>closed_sockets := closed_sockets s @ [control_pipe t], tctl := tc\<rparr>)))"

definition handle_control :: "nat \<Rightarrow> int \<Rightarrow> (server, unit) act" where
  "handle_control i fd s = (case receive_control_message fd s of (msg, s1) \<Rightarrow>
     (case si_type msg of
        FINISHED_AND_CONTINUE \<Rightarrow>
          hand_over i fd (mod_sctl (add_dyn_socket (msg\<lparr>si_type := NOOP\<rparr>))
                           (mod_sctl (remove_from_working_socket msg) s1))
      | FINISHED_AND_CLOSE \<Rightarrow>
          hand_over i fd (close_socket msg (mod_sctl (remove_from_working_socket msg) s1))
      | SOCKET_CLOSED \<Rightarrow> thread_gone i s1
      | _ \<Rightarrow> (Inr (), s1)))"

definition broadcast_exit :: "(server, unit) act" where
  "broadcast_exit s =
     (let s1 = fold close_socket (working_sockets (sctl s)) s in
      case exit_pipes (sctl s1) of
        Inl e \<Rightarrow> (Inl e, s1)
      | Inr ps \<Rightarrow> (Inr (), fold (\<lambda>p. send_control_message p (exit_message p)) ps s1))"

definition close_clients :: "(server, unit) act" where
  "close_clients s = (case close_all_dynsocks (sctl s) of (cs, sc) \<Rightarrow>
       (Inr (), fold close_socket cs (s\<lparr>sctl := sc\<rparr>)))"

definition handle_stop :: "int \<Rightarrow> (server, unit) act" where
  "handle_stop fd = sseq
     [(\<lambda>s. (Inr (), snd (receive_control_message fd s))),
      swith (\<lambda>s. http_sock_id (sctl s)) (\<lambda>k. sbind (on_sctl (remove_socket k)) (\<lambda>_. sret ())),
      swith (\<lambda>s. ssl_sock_id (sctl s)) (\<lambda>k. sbind (on_sctl (remove_socket k)) (\<lambda>_. sret ())),
      close_clients,
      broadcast_exit,
      smod (\<lambda>s. s\<lparr>running := False\<rparr>)]"

definition handle_accept :: "socket_info \<Rightarrow> (server, unit) act" where
  "handle_accept acc = smod (mod_sctl (add_dyn_socket acc))"

definition handle_client :: "nat \<Rightarrow> (server, unit) act" where
  "handle_client i s = (case thread_pop (tctl s) of
       (Some tinfo, tc) \<Rightarrow>
         (case on_sctl (remove_socket (int i)) (s\<lparr>tctl := tc\<rparr>) of
            (Inl e, s1) \<Rightarrow> (Inl e, s1)
          | (Inr sockid, s1) \<Rightarrow> (Inr (), dispatch (control_pipe tinfo) sockid s1))
     | (None, tc) \<Rightarrow> on_sctl (move_to_waiting (int i)) (s\<lparr>tctl := tc\<rparr>))"

definition handle_input :: "socket_info \<Rightarrow> nat \<Rightarrow> int \<Rightarrow> (server, unit) act" where
  "handle_input acc i fd s =
     (if int i < n_msg_sockets (sctl s) then handle_control i fd s
      else if int i = stop_sock_id (sctl s) then handle_stop fd s
      else if int i = http_sock_id (sctl s) then handle_accept acc s
      else if int i = ssl_sock_id (sctl s) then handle_accept acc s
      else handle_client i s)"

section \<open>One socket that was hung up\<close>

definition remove_client :: "nat \<Rightarrow> (server, unit) act" where
  "remove_client i = sbind (on_sctl (remove_socket (int i))) (\<lambda>sockid.
     smod (\<lambda>s. close_socket sockid (mod_sctl (remove_from_working_socket sockid) s)))"

definition remove_thread :: "nat \<Rightarrow> (server, unit) act" where
  "remove_thread i = sbind (on_sctl (remove_socket (int i))) (\<lambda>_ s.
     case thread_delete i (tctl s) of
       Inl e \<Rightarrow> (Inl e, s)
     | Inr tc \<Rightarrow> (Inr (), s\<lparr>tctl := tc,
                  running := (if n_msg_sockets (sctl s) = 0 then False else running s)\<rparr>))"

definition remove_listener :: "nat \<Rightarrow> (server, unit) act" where
  "remove_listener i = sbind (on_sctl (remove_socket (int i))) (\<lambda>_. sret ())"

definition handle_hangup :: "nat \<Rightarrow> (server, unit) act" where
  "handle_hangup i s =
     (if int i \<ge> dyn_socket_base (sctl s) then remove_client i s
      else if int i < n_msg_sockets (sctl s) then remove_thread i s
      else if int i = http_sock_id (sctl s) then remove_listener i s
      else if int i = ssl_sock_id (sctl s) then remove_listener i s
      else (Inr (), s))"

section \<open>The loop\<close>

text \<open>What \<open>poll\<close> reports of a socket; \<open>Input\<close> is \<open>POLLIN\<close> or \<open>POLLPRI\<close>.\<close>

datatype revents = Quiet | Input | HangUp | Other

definition handle_socket :: "revents \<Rightarrow> socket_info \<Rightarrow> nat \<Rightarrow> int \<Rightarrow> (server, unit) act" where
  "handle_socket ev acc i fd = (case ev of
       Quiet \<Rightarrow> sret ()
     | Input \<Rightarrow> handle_input acc i fd
     | HangUp \<Rightarrow> handle_hangup i
     | Other \<Rightarrow> sret ())"

text \<open>
  One pass over the sockets. The index runs to the present number of open sockets, while \<open>sockets[i]\<close> is
  an entry of the array made before the call of \<open>poll\<close>: the third argument, which is what is left of it.
\<close>

fun serve_pass :: "(nat \<Rightarrow> revents \<times> socket_info) \<Rightarrow> nat \<Rightarrow> int list \<Rightarrow> (server, unit) act" where
  "serve_pass env i [] s =
     (if i < get_sockets_size (sctl s) then (Inl Undefined, s) else (Inr (), s))"
| "serve_pass env i (fd # fds) s =
     (if i < get_sockets_size (sctl s) then
        (case handle_socket (fst (env i)) (snd (env i)) i fd s of
           (Inl e, s1) \<Rightarrow> (Inl e, s1)
         | (Inr _, s1) \<Rightarrow> serve_pass env (i + 1) fds s1)
      else (Inr (), s))"

text \<open>The loop over the calls of \<open>poll\<close>; \<open>None\<close> is a call that failed.\<close>

fun serve_loop :: "(nat \<Rightarrow> revents \<times> socket_info) option list \<Rightarrow> (server, unit) act" where
  "serve_loop [] s = (Inr (), s)"
| "serve_loop (p # ps) s =
     (if \<not> running s then (Inr (), s)
      else (let s1 = mod_sctl get_sockets_arr s in
        case p of
          None \<Rightarrow> (Inr (), s1\<lparr>running := False\<rparr>)
        | Some env \<Rightarrow>
            (case serve_pass env 0 (open_sockets (sctl s1)) s1 of
               (Inl e, s2) \<Rightarrow> (Inl e, s2)
             | (Inr _, s2) \<Rightarrow> serve_loop ps s2)))"

section \<open>Start\<close>

definition no_messages :: "int \<Rightarrow> socket_info list" where
  "no_messages p = []"

definition start_server :: "(int \<times> int) option list \<Rightarrow> int \<Rightarrow> int \<Rightarrow> int option \<Rightarrow> (exn + unit) \<times> server" where
  "start_server pipes stop_fd http_fd ssl_fd =
     (let tc = mk_thread_control pipes
      in sseq
        [on_sctl (add_stop_socket stop_fd),
         on_sctl (add_http_socket http_fd),
         (case ssl_fd of None \<Rightarrow> sret () | Some fd \<Rightarrow> on_sctl (add_ssl_socket fd)),
         smod (\<lambda>s. s\<lparr>running := True\<rparr>)]
        \<lparr>sctl = mk_socket_control tc, tctl = tc, running = False, to_worker = no_messages,
         from_worker = no_messages, exited = [], closed_sockets = []\<rparr>)"

definition server_run ::
  "(int \<times> int) option list \<Rightarrow> int \<Rightarrow> int \<Rightarrow> int option \<Rightarrow> (nat \<Rightarrow> revents \<times> socket_info) option list
   \<Rightarrow> (exn + unit) \<times> server" where
  "server_run pipes stop_fd http_fd ssl_fd polls =
     (case start_server pipes stop_fd http_fd ssl_fd of
        (Inl e, s) \<Rightarrow> (Inl e, s)
      | (Inr _, s) \<Rightarrow> serve_loop polls s)"

end
