(* ===== verification/ServerInv.thy ===== *)
theory ServerInv
  imports ServerLoop "HOL-Library.Multiset"
begin

text \<open>
  The steps of the server in normal operation, and the invariant they keep: every client socket is at one
  place, every worker is idle or busy with one socket, and no socket waits while a worker is idle.
\<close>

section \<open>Steps\<close>

definition pipes :: "server \<Rightarrow> int list" where
  "pipes s = map control_pipe (thread_list (tctl s))"

definition first_client :: "server \<Rightarrow> nat" where
  "first_client s = length (thread_list (tctl s)) + (if ssl_sock_id (sctl s) = - 1 then 2 else 3)"

text \<open>The descriptors of the clients: polled, waiting for a worker, being worked on.\<close>

definition polled_clients :: "server \<Rightarrow> socket_info list" where
  "polled_clients s = drop (first_client s) (generic_open_sockets (sctl s))"

definition clients :: "server \<Rightarrow> int list" where
  "clients s = map sid (polled_clients s @ waiting_sockets (sctl s) @ working_sockets (sctl s))"

datatype label = Poll | Ready nat socket_info | Gone nat | Work int thread_status

definition run_label :: "label \<Rightarrow> (server, unit) act" where
  "run_label l s = (case l of
       Poll \<Rightarrow> (Inr (), mod_sctl get_sockets_arr s)
     | Ready i acc \<Rightarrow> handle_input acc i (open_sockets (sctl s) ! i) s
     | Gone i \<Rightarrow> handle_hangup i s
     | Work p status \<Rightarrow> (Inr (), process_request status p s))"

text \<open>
  When a step can happen: a pipe has input when a message is there, \<open>accept\<close> returns a descriptor that is not
  in use, only clients hang up, and no signal stops the server.
\<close>

definition may :: "label \<Rightarrow> server \<Rightarrow> bool" where
  "may l s = (case l of
       Poll \<Rightarrow> True
     | Ready i acc \<Rightarrow> i < get_sockets_size (sctl s) \<and> i < length (open_sockets (sctl s))
         \<and> (i < length (pipes s) \<longrightarrow> from_worker s (pipes s ! i) \<noteq> [])
         \<and> int i \<noteq> stop_sock_id (sctl s) \<and> sid acc \<notin> set (clients s)
     | Gone i \<Rightarrow> first_client s \<le> i \<and> i < get_sockets_size (sctl s)
     | Work p status \<Rightarrow> p \<in> set (pipes s))"

inductive server_step :: "server \<Rightarrow> server \<Rightarrow> bool" where
  step: "may l s \<Longrightarrow> run_label l s = (Inr (), s') \<Longrightarrow> server_step s s'"

section \<open>The invariant\<close>

definition chan :: "server \<Rightarrow> int \<Rightarrow> socket_info list" where
  "chan s p = to_worker s p @ from_worker s p"

definition busy :: "server \<Rightarrow> socket_info list" where
  "busy s = concat (map (chan s) (pipes s))"

definition layout :: "server \<Rightarrow> bool" where
  "layout s \<longleftrightarrow> (let sc = sctl s; n = length (pipes s) in
     n_msg_sockets sc = int n \<and> take n (map sid (generic_open_sockets sc)) = pipes s
     \<and> stop_sock_id sc = int n \<and> http_sock_id sc = int n + 1
     \<and> (ssl_sock_id sc = - 1 \<or> ssl_sock_id sc = int n + 2)
     \<and> first_client s \<le> length (generic_open_sockets sc)
     \<and> (dyn_socket_base sc = int (first_client s)
        \<or> dyn_socket_base sc = - 1 \<and> length (generic_open_sockets sc) = first_client s)
     \<and> (open_sockets sc = [] \<or> n \<le> length (open_sockets sc) \<and> take n (open_sockets sc) = pipes s))"

definition working_on :: "server \<Rightarrow> int \<Rightarrow> socket_info \<Rightarrow> bool" where
  "working_on s p m \<longleftrightarrow>
     (to_worker s p = [m] \<and> from_worker s p = [] \<and> si_type m = PROCESS_REQUEST)
     \<or> (to_worker s p = [] \<and> from_worker s p = [m]
        \<and> (si_type m = FINISHED_AND_CONTINUE \<or> si_type m = FINISHED_AND_CLOSE))"

definition workers_ok :: "server \<Rightarrow> bool" where
  "workers_ok s \<longleftrightarrow> distinct (pipes s) \<and> distinct (thread_queue (tctl s))
     \<and> set (thread_queue (tctl s)) \<subseteq> set (thread_list (tctl s))
     \<and> (\<forall>t \<in> set (thread_list (tctl s)). if t \<in> set (thread_queue (tctl s)) then chan s (control_pipe t) = []
          else \<exists>m. working_on s (control_pipe t) m)"

definition jobs_ok :: "server \<Rightarrow> bool" where
  "jobs_ok s \<longleftrightarrow> mset (map sid (busy s)) = mset (map sid (working_sockets (sctl s)))"

definition clients_ok :: "server \<Rightarrow> bool" where
  "clients_ok s \<longleftrightarrow> distinct (clients s) \<and> (waiting_sockets (sctl s) \<noteq> [] \<longrightarrow> thread_queue (tctl s) = [])"

definition server_inv :: "server \<Rightarrow> bool" where
  "server_inv s \<longleftrightarrow> layout s \<and> workers_ok s \<and> jobs_ok s \<and> clients_ok s"

section \<open>Channels\<close>

lemma concat_upd:
  "distinct ps \<Longrightarrow> p \<in> set ps \<Longrightarrow>
   mset (concat (map (f(p := x)) ps)) + mset (f p) = mset (concat (map f ps)) + mset x"
proof (induction ps)
  case (Cons q qs)
  show ?case
  proof (cases "q = p")
    case True
    with Cons.prems have "map (f(p := x)) qs = map f qs" by (intro map_cong) auto
    then have e: "concat (map (f(p := x)) (q # qs)) = x @ concat (map f qs)"
      by (simp only: list.map concat.simps True fun_upd_same)
    show ?thesis unfolding e using True by (simp add: ac_simps)
  next
    case False
    with Cons show ?thesis by (simp add: ac_simps)
  qed
qed simp

lemma busy_upd:
  assumes "distinct (pipes s)" "p \<in> set (pipes s)" "pipes s' = pipes s"
    "\<And>q. q \<noteq> p \<Longrightarrow> chan s' q = chan s q"
  shows "mset (busy s') + mset (chan s p) = mset (busy s) + mset (chan s' p)"
proof -
  have "chan s' = (chan s)(p := chan s' p)" using assms(4) by (auto simp: fun_eq_iff)
  then have "busy s' = concat (map ((chan s)(p := chan s' p)) (pipes s))"
    unfolding busy_def assms(3) by (rule arg_cong [where f = "\<lambda>g. concat (map g (pipes s))"])
  with concat_upd [OF assms(1,2), of "chan s" "chan s' p"] show ?thesis
    by (simp only: busy_def)
qed

lemma busy_jobs_upd:
  assumes "workers_ok s" "p \<in> set (pipes s)" "pipes s' = pipes s"
    "\<And>q. q \<noteq> p \<Longrightarrow> chan s' q = chan s q"
  shows "mset (map sid (busy s')) + mset (map sid (chan s p)) = mset (map sid (busy s)) + mset (map sid (chan s' p))"
proof -
  have "image_mset sid (mset (busy s') + mset (chan s p)) = image_mset sid (mset (busy s) + mset (chan s' p))"
    using busy_upd [of s p s'] assms by (simp add: workers_ok_def)
  then show ?thesis by simp
qed

lemma workers_ok_upd:
  assumes "workers_ok s" "t \<in> set (thread_list (tctl s))" "thread_list (tctl s') = thread_list (tctl s)"
    "\<And>q. q \<noteq> control_pipe t \<Longrightarrow> to_worker s' q = to_worker s q \<and> from_worker s' q = from_worker s q"
    "distinct (thread_queue (tctl s'))" "set (thread_queue (tctl s')) - {t} = set (thread_queue (tctl s)) - {t}"
    "if t \<in> set (thread_queue (tctl s')) then chan s' (control_pipe t) = [] else \<exists>m. working_on s' (control_pipe t) m"
  shows "workers_ok s'"
proof -
  have inj: "control_pipe u \<noteq> control_pipe t" if "u \<in> set (thread_list (tctl s))" "u \<noteq> t" for u
    using assms(1,2) that by (auto simp: workers_ok_def pipes_def distinct_map inj_on_def)
  have "if u \<in> set (thread_queue (tctl s')) then chan s' (control_pipe u) = []
      else \<exists>m. working_on s' (control_pipe u) m" if u: "u \<in> set (thread_list (tctl s))" for u
  proof (cases "u = t")
    case True
    with assms(7) show ?thesis by simp
  next
    case False
    then have "u \<in> set (thread_queue (tctl s')) \<longleftrightarrow> u \<in> set (thread_queue (tctl s))" using assms(6) by blast
    moreover have "if u \<in> set (thread_queue (tctl s)) then chan s (control_pipe u) = []
        else \<exists>m. working_on s (control_pipe u) m" using assms(1) u by (auto simp: workers_ok_def)
    ultimately show ?thesis
      using assms(4) [OF inj [OF u False]] by (simp add: chan_def working_on_def split: if_split_asm)
  qed
  moreover have "set (thread_queue (tctl s')) \<subseteq> set (thread_list (tctl s))"
  proof
    fix u assume "u \<in> set (thread_queue (tctl s'))"
    then have "u = t \<or> u \<in> set (thread_queue (tctl s))" using assms(6) by blast
    with assms(1,2) show "u \<in> set (thread_list (tctl s))" by (auto simp: workers_ok_def)
  qed
  ultimately show ?thesis using assms(1,3,5) by (simp add: workers_ok_def pipes_def)
qed

lemma count_not: "sum_list (map (\<lambda>t. if P t then 0 else 1) ts) = length (filter (\<lambda>t. \<not> P t) ts)"
  by (induction ts) auto

lemma idle_busy:
  assumes "workers_ok s"
  shows "length (busy s) + length (thread_queue (tctl s)) = length (thread_list (tctl s))"
proof -
  let ?ts = "thread_list (tctl s)" and ?q = "thread_queue (tctl s)"
  have d: "distinct ?ts" using assms by (auto simp: workers_ok_def pipes_def distinct_map)
  have one: "length (chan s (control_pipe t)) = (if t \<in> set ?q then 0 else 1)" if "t \<in> set ?ts" for t
    using assms that by (auto simp: workers_ok_def chan_def working_on_def split: if_splits)
  have "length (busy s) = sum_list (map (\<lambda>t. length (chan s (control_pipe t))) ?ts)"
    by (simp add: busy_def length_concat pipes_def comp_def)
  also have "\<dots> = sum_list (map (\<lambda>t. if t \<in> set ?q then 0 else 1) ?ts)"
    using one by (intro arg_cong [where f = sum_list] map_cong) auto
  also have "\<dots> = length (filter (\<lambda>t. t \<notin> set ?q) ?ts)"
    by (rule count_not)
  finally have "length (busy s) = length (filter (\<lambda>t. t \<notin> set ?q) ?ts)" .
  moreover have "length (filter (\<lambda>t. t \<in> set ?q) ?ts) = length ?q"
  proof -
    have "set (filter (\<lambda>t. t \<in> set ?q) ?ts) = set ?q" using assms by (auto simp: workers_ok_def)
    moreover have "distinct (filter (\<lambda>t. t \<in> set ?q) ?ts)" using d by simp
    moreover have "distinct ?q" using assms by (simp add: workers_ok_def)
    ultimately show ?thesis by (metis distinct_card)
  qed
  ultimately show ?thesis
    using sum_length_filter_compl [of "\<lambda>t. t \<in> set ?q" ?ts] by simp
qed

end
