(* ===== verification/ServerSteps.thy ===== *)
theory ServerSteps
  imports ServerInv
begin

text \<open>Every step of the server in normal operation keeps the invariant, and no client is lost on the way.\<close>

section \<open>The parts of the invariant\<close>

lemma first_client_upd:
  "thread_list (tctl s') = thread_list (tctl s) \<Longrightarrow> ssl_sock_id (sctl s') = ssl_sock_id (sctl s) \<Longrightarrow>
   first_client s' = first_client s"
  by (simp add: first_client_def)

lemma layout_upd:
  assumes "layout s" "thread_list (tctl s') = thread_list (tctl s)"
    "n_msg_sockets (sctl s') = n_msg_sockets (sctl s)" "stop_sock_id (sctl s') = stop_sock_id (sctl s)"
    "http_sock_id (sctl s') = http_sock_id (sctl s)" "ssl_sock_id (sctl s') = ssl_sock_id (sctl s)"
    "open_sockets (sctl s') = open_sockets (sctl s)"
    "take (first_client s) (generic_open_sockets (sctl s')) = take (first_client s) (generic_open_sockets (sctl s))"
    "dyn_socket_base (sctl s') = int (first_client s)" "first_client s \<le> length (generic_open_sockets (sctl s'))"
  shows "layout s'"
proof -
  have n: "length (pipes s) \<le> first_client s" by (simp add: first_client_def pipes_def)
  have "take (length (pipes s)) (take (first_client s) (generic_open_sockets (sctl s')))
      = take (length (pipes s)) (take (first_client s) (generic_open_sockets (sctl s)))"
    using assms(8) by simp
  with n have "take (length (pipes s)) (generic_open_sockets (sctl s')) = take (length (pipes s)) (generic_open_sockets (sctl s))"
    by (simp add: min_absorb1)
  then have "take (length (pipes s)) (map sid (generic_open_sockets (sctl s')))
      = take (length (pipes s)) (map sid (generic_open_sockets (sctl s)))"
    by (simp add: take_map)
  moreover have "first_client s' = first_client s" by (rule first_client_upd [OF assms(2,6)])
  moreover have "pipes s' = pipes s" using assms(2) by (simp add: pipes_def)
  ultimately show ?thesis using assms by (simp add: layout_def Let_def)
qed

lemma thread_index:
  assumes "layout s" "i < length (pipes s)"
  shows "thread_at (int i) (tctl s) = Inr (thread_list (tctl s) ! i)" "pipes s ! i = control_pipe (thread_list (tctl s) ! i)"
    "thread_list (tctl s) ! i \<in> set (thread_list (tctl s))" "pipes s ! i \<in> set (pipes s)"
    "int i < n_msg_sockets (sctl s)"
  using assms by (auto simp: thread_at_def pipes_def layout_def Let_def)

lemma layout_base:
  assumes "layout s" "first_client s < length (generic_open_sockets (sctl s))"
  shows "dyn_socket_base (sctl s) = int (first_client s)"
  using assms by (auto simp: layout_def Let_def)

lemma distinct_working:
  "clients_ok s \<Longrightarrow> distinct (map sid (working_sockets (sctl s)))"
  by (simp add: clients_ok_def clients_def)

lemma remove_working_mset:
  assumes "distinct (map sid ws)" "a \<in> sid ` set ws"
  shows "mset (map sid (filter (\<lambda>x. sid x \<noteq> a) ws)) = mset (map sid ws) - {#a#}"
proof -
  have "map sid (filter (\<lambda>x. sid x \<noteq> a) ws) = filter (\<lambda>y. y \<noteq> a) (map sid ws)"
    by (simp add: filter_map comp_def)
  also have "\<dots> = remove1 a (map sid ws)"
    using assms(1) by (simp add: distinct_remove1_removeAll removeAll_filter_not_eq)
      (simp add: eq_commute)
  finally show ?thesis by (simp add: mset_remove1)
qed

text \<open>The message of a worker is about a socket that is being worked on.\<close>

lemma job_working:
  assumes "jobs_ok s" "m \<in> set (chan s p)" "p \<in> set (pipes s)"
  shows "sid m \<in> sid ` set (working_sockets (sctl s))"
proof -
  have "sid m \<in># mset (map sid (busy s))" using assms(2,3) by (force simp: busy_def)
  then have "sid m \<in># mset (map sid (working_sockets (sctl s)))" using assms(1) by (simp only: jobs_ok_def)
  then show ?thesis by simp
qed

text \<open>Steps that only move sockets leave the workers alone.\<close>

lemma workers_same:
  assumes "workers_ok s" "jobs_ok s" "tctl s' = tctl s" "to_worker s' = to_worker s" "from_worker s' = from_worker s"
    "working_sockets (sctl s') = working_sockets (sctl s)"
  shows "workers_ok s'" "jobs_ok s'"
proof -
  have "chan s' = chan s" "working_on s' = working_on s" "pipes s' = pipes s"
    using assms by (simp_all add: fun_eq_iff chan_def working_on_def pipes_def)
  with assms show "workers_ok s'" "jobs_ok s'" by (simp_all add: workers_ok_def jobs_ok_def busy_def)
qed

section \<open>Changes to the tables\<close>

lemma add_dyn_layout:
  assumes "layout s"
  shows "dyn_socket_base (add_dyn_socket x (sctl s)) = int (first_client s)"
  using assms
  by (auto simp: add_dyn_socket_def layout_def Let_def open_socket_def last_index_def get_sockets_size_def)

lemma add_dyn_simps [simp]:
  "generic_open_sockets (add_dyn_socket x sc) = generic_open_sockets sc @ [x\<lparr>si_type := NOOP, si_socket_type := DYN_SOCKET\<rparr>]"
  "open_sockets (add_dyn_socket x sc) = open_sockets sc"
  "waiting_sockets (add_dyn_socket x sc) = waiting_sockets sc"
  "working_sockets (add_dyn_socket x sc) = working_sockets sc"
  "n_msg_sockets (add_dyn_socket x sc) = n_msg_sockets sc"
  "stop_sock_id (add_dyn_socket x sc) = stop_sock_id sc"
  "http_sock_id (add_dyn_socket x sc) = http_sock_id sc"
  "ssl_sock_id (add_dyn_socket x sc) = ssl_sock_id sc"
  by (simp_all add: add_dyn_socket_def Let_def open_socket_def)

lemma add_working_simps [simp]:
  "generic_open_sockets (add_to_working_socket x sc) = generic_open_sockets sc"
  "open_sockets (add_to_working_socket x sc) = open_sockets sc"
  "waiting_sockets (add_to_working_socket x sc) = waiting_sockets sc"
  "n_msg_sockets (add_to_working_socket x sc) = n_msg_sockets sc"
  "stop_sock_id (add_to_working_socket x sc) = stop_sock_id sc"
  "http_sock_id (add_to_working_socket x sc) = http_sock_id sc"
  "ssl_sock_id (add_to_working_socket x sc) = ssl_sock_id sc"
  "dyn_socket_base (add_to_working_socket x sc) = dyn_socket_base sc"
  "sid x \<notin> sid ` set (working_sockets sc) \<Longrightarrow> working_sockets (add_to_working_socket x sc) = x # working_sockets sc"
  by (simp_all add: add_to_working_socket_def)

lemma remove_working_simps [simp]:
  "generic_open_sockets (remove_from_working_socket x sc) = generic_open_sockets sc"
  "open_sockets (remove_from_working_socket x sc) = open_sockets sc"
  "waiting_sockets (remove_from_working_socket x sc) = waiting_sockets sc"
  "working_sockets (remove_from_working_socket x sc) = filter (\<lambda>y. sid y \<noteq> sid x) (working_sockets sc)"
  "n_msg_sockets (remove_from_working_socket x sc) = n_msg_sockets sc"
  "stop_sock_id (remove_from_working_socket x sc) = stop_sock_id sc"
  "http_sock_id (remove_from_working_socket x sc) = http_sock_id sc"
  "ssl_sock_id (remove_from_working_socket x sc) = ssl_sock_id sc"
  "dyn_socket_base (remove_from_working_socket x sc) = dyn_socket_base sc"
  by (simp_all add: remove_from_working_socket_def)

lemma mset_remove_nth: "i < length xs \<Longrightarrow> mset (remove_nth i xs) = mset xs - {#xs ! i#}"
proof -
  assume i: "i < length xs"
  then have "xs = take i xs @ xs ! i # drop (Suc i) xs" by (rule id_take_nth_drop)
  then have "mset xs = mset (take i xs) + {#xs ! i#} + mset (drop (Suc i) xs)"
    by (metis mset.simps(2) mset_append union_mset_add_mset_left union_mset_add_mset_right add.right_neutral add_mset_add_single)
  then show ?thesis by (simp add: remove_nth_def)
qed

lemma drop_remove_nth: "k \<le> i \<Longrightarrow> i < length xs \<Longrightarrow> drop k (remove_nth i xs) = remove_nth (i - k) (drop k xs)"
  by (simp add: remove_nth_def drop_take min_def)

lemma take_remove_nth: "k \<le> i \<Longrightarrow> i < length xs \<Longrightarrow> take k (remove_nth i xs) = take k xs"
  by (simp add: remove_nth_def min_def)

lemma length_remove_nth: "i < length xs \<Longrightarrow> length (remove_nth i xs) = length xs - 1"
  by (simp add: remove_nth_def)

text \<open>Removing a client socket leaves all indices as they are.\<close>

lemma remove_client_socket:
  assumes "layout s" "first_client s \<le> i" "i < length (generic_open_sockets (sctl s))"
  shows "remove_socket (int i) (sctl s) = (Inr (generic_open_sockets (sctl s) ! i),
           (sctl s)\<lparr>generic_open_sockets := remove_nth i (generic_open_sockets (sctl s))\<rparr>)"
proof -
  have "length (pipes s) \<le> i" "int i \<noteq> http_sock_id (sctl s)" "int i \<noteq> ssl_sock_id (sctl s)"
    "n_msg_sockets (sctl s) = int (length (pipes s))"
    using assms by (auto simp: layout_def Let_def first_client_def pipes_def split: if_splits)
  with assms(3) show ?thesis
    by (simp add: remove_socket_def monad_simps renumbered_def get_sockets_size_def)
qed

section \<open>A worker is done\<close>

lemma again_mset:
  assumes "a \<in># W"
  shows "(P + (if b then {#a#} else {#})) + Q + (W - {#a#}) = (P + Q + W) - (if b then {#} else {#a#})"
proof -
  from assms obtain V where "W = add_mset a V" by (blast dest: multi_member_split)
  then show ?thesis by simp
qed

lemma distinct_sub_mset:
  assumes "mset xs \<subseteq># mset ys" "distinct ys"
  shows "distinct xs"
proof -
  obtain zs where "mset zs = mset ys - mset xs" using ex_mset by blast
  with assms(1) have "mset (xs @ zs) = mset ys" by simp
  with assms(2) have "distinct (xs @ zs)" by (metis mset_eq_imp_distinct_iff)
  then show ?thesis by simp
qed

text \<open>
  The state after worker \<open>t\<close> has finished with \<open>m\<close>: \<open>extra\<close> are the sockets polled again, and \<open>given\<close> is the
  waiting socket that \<open>t\<close> works on next, if there is one.
\<close>

lemma finish_inv:
  assumes inv: "server_inv s" and t: "t \<in> set (thread_list (tctl s))"
    and m: "working_on s (control_pipe t) m" 
    and st: "thread_list (tctl s') = thread_list (tctl s)" "n_msg_sockets (sctl s') = n_msg_sockets (sctl s)"
      "stop_sock_id (sctl s') = stop_sock_id (sctl s)" "http_sock_id (sctl s') = http_sock_id (sctl s)"
      "ssl_sock_id (sctl s') = ssl_sock_id (sctl s)" "open_sockets (sctl s') = open_sockets (sctl s)"
      "generic_open_sockets (sctl s') = generic_open_sockets (sctl s) @ extra" "map sid extra = (if again then [sid m] else [])"
      "dyn_socket_base (sctl s') = (if again then int (first_client s) else dyn_socket_base (sctl s))"
    and ch: "\<And>q. q \<noteq> control_pipe t \<Longrightarrow> to_worker s' q = to_worker s q \<and> from_worker s' q = from_worker s q"
      "from_worker s' (control_pipe t) = []"
    and given: "(case waiting_sockets (sctl s) of
        [] \<Rightarrow> to_worker s' (control_pipe t) = [] \<and> thread_queue (tctl s') = thread_queue (tctl s) @ [t]
            \<and> waiting_sockets (sctl s') = []
            \<and> working_sockets (sctl s') = filter (\<lambda>x. sid x \<noteq> sid m) (working_sockets (sctl s))
      | w # ws \<Rightarrow> (\<exists>x. to_worker s' (control_pipe t) = [x] \<and> si_type x = PROCESS_REQUEST \<and> sid x = sid w)
            \<and> thread_queue (tctl s') = thread_queue (tctl s) \<and> waiting_sockets (sctl s') = ws
            \<and> (\<exists>y. working_sockets (sctl s') = y # filter (\<lambda>x. sid x \<noteq> sid m) (working_sockets (sctl s)) \<and> sid y = sid w))"
  shows "server_inv s'" and "mset (clients s') = mset (clients s) - (if again then {#} else {#sid m#})"
proof -
  have lay: "layout s" and wo: "workers_ok s" and jo: "jobs_ok s" and co: "clients_ok s"
    using inv by (auto simp: server_inv_def)
  let ?p = "control_pipe t"
  have p: "?p \<in> set (pipes s)" using t by (simp add: pipes_def)
  have pip: "pipes s' = pipes s" using st(1) by (simp add: pipes_def)
  have fc: "first_client s' = first_client s" by (rule first_client_upd) (use st in auto)
  have tq: "t \<notin> set (thread_queue (tctl s))"
    using wo t m by (auto simp: workers_ok_def working_on_def chan_def)
  have chm: "chan s ?p = [m]" using m by (auto simp: working_on_def chan_def)
  have wm: "sid m \<in> sid ` set (working_sockets (sctl s))"
    by (rule job_working [OF jo _ p]) (simp add: chm)
  note rm = remove_working_mset [OF distinct_working [OF co] wm]
  have wmm: "add_mset (sid m) (mset (map sid (working_sockets (sctl s))) - {#sid m#}) = mset (map sid (working_sockets (sctl s)))"
    using wm by auto
  have len: "first_client s \<le> length (generic_open_sockets (sctl s))" using lay by (simp add: layout_def Let_def)
  have polled: "map sid (polled_clients s') = map sid (polled_clients s) @ (if again then [sid m] else [])"
    using len st(7,8) by (simp add: polled_clients_def fc)
  have layout': "layout s'"
  proof (cases again)
    case True
    show ?thesis by (rule layout_upd [OF lay]) (use st len True in auto)
  next
    case False
    then have "extra = []" using st(8) by simp
    with False st lay fc pip show ?thesis by (simp add: layout_def Let_def)
  qed
  have jobs: "mset (map sid (busy s')) + {#sid m#} = mset (map sid (busy s)) + mset (map sid (chan s' ?p))"
    using busy_jobs_upd [OF wo p pip] ch by (simp add: chan_def chm [unfolded chan_def])
  let ?W = "mset (map sid (working_sockets (sctl s)))" and ?C = "mset (map sid (chan s' ?p))"
  have eqj: "mset (map sid (busy s')) = (?W - {#sid m#}) + ?C"
  proof -
    have "mset (map sid (busy s')) + {#sid m#} = ?W + ?C" using jobs jo by (simp only: jobs_ok_def)
    also have "\<dots> = ((?W - {#sid m#}) + ?C) + {#sid m#}"
      using wmm by (metis add_mset_add_single union_mset_add_mset_left)
    finally show ?thesis by (simp only: add_right_cancel)
  qed
  let ?P = "mset (map sid (polled_clients s))" and ?Q = "mset (map sid (waiting_sockets (sctl s)))"
  have mW: "sid m \<in># ?W" using wm by simp
  have old: "mset (clients s) = ?P + ?Q + ?W" by (simp add: clients_def)
  have new: "mset (clients s') = ?P + (if again then {#sid m#} else {#})
      + mset (map sid (waiting_sockets (sctl s'))) + mset (map sid (working_sockets (sctl s')))"
  proof -
    have "mset (clients s') = mset (map sid (polled_clients s')) + mset (map sid (waiting_sockets (sctl s')))
        + mset (map sid (working_sockets (sctl s')))" by (simp add: clients_def)
    then show ?thesis unfolding polled by simp
  qed
  have key: "workers_ok s' \<and> jobs_ok s' \<and> mset (clients s') = mset (clients s) - (if again then {#} else {#sid m#})
      \<and> (waiting_sockets (sctl s') \<noteq> [] \<longrightarrow> thread_queue (tctl s') = [])"
  proof (cases "waiting_sockets (sctl s)")
    case Nil
    with given have g: "to_worker s' ?p = []" "thread_queue (tctl s') = thread_queue (tctl s) @ [t]"
      "waiting_sockets (sctl s') = []"
      "working_sockets (sctl s') = filter (\<lambda>x. sid x \<noteq> sid m) (working_sockets (sctl s))" by simp_all
    have "workers_ok s'"
      by (rule workers_ok_upd [OF wo t st(1) ch(1)])
        (use g tq wo ch(2) in \<open>auto simp: workers_ok_def chan_def\<close>)
    moreover have "jobs_ok s'"
      using g ch(2) unfolding jobs_ok_def eqj by (simp only: rm chan_def) simp
    moreover have "mset (clients s') = mset (clients s) - (if again then {#} else {#sid m#})"
      unfolding new old g again_mset [OF mW, symmetric] by (simp only: rm Nil list.map mset.simps)
    ultimately show ?thesis using g by simp
  next
    case (Cons w ws)
    with given obtain x y where g: "to_worker s' ?p = [x]" "si_type x = PROCESS_REQUEST" "sid x = sid w"
      "thread_queue (tctl s') = thread_queue (tctl s)" "waiting_sockets (sctl s') = ws"
      "working_sockets (sctl s') = y # filter (\<lambda>x. sid x \<noteq> sid m) (working_sockets (sctl s))" "sid y = sid w"
      by auto
    have q: "thread_queue (tctl s) = []" using co Cons by (simp add: clients_ok_def)
    have "workers_ok s'"
      by (rule workers_ok_upd [OF wo t st(1) ch(1)])
        (use g q ch(2) in \<open>auto simp: working_on_def\<close>)
    moreover have "jobs_ok s'"
      using g ch(2) unfolding jobs_ok_def eqj by (simp only: rm chan_def list.map mset.simps) simp
    moreover have "mset (clients s') = mset (clients s) - (if again then {#} else {#sid m#})"
      unfolding new old g again_mset [OF mW, symmetric]
      by (simp only: rm Cons g(7) list.map mset.simps) (simp add: ac_simps)
    ultimately show ?thesis using g q by simp
  qed
  then show "mset (clients s') = mset (clients s) - (if again then {#} else {#sid m#})" by blast
  have "distinct (clients s')"
  proof -
    have "mset (clients s') \<subseteq># mset (clients s)" using key by simp
    moreover have "distinct (clients s)" using co by (simp add: clients_ok_def)
    ultimately show ?thesis by (rule distinct_sub_mset)
  qed
  with key layout' show "server_inv s'" by (simp add: server_inv_def clients_ok_def)
qed

text \<open>
  What handling the message of a worker does: the socket is polled again or closed, and the worker
  gets the socket that waits longest, or is idle.
\<close>

lemma finished_worker:
  assumes "server_inv s" "i < length (pipes s)" "from_worker s (pipes s ! i) \<noteq> []"
  obtains m where "working_on s (pipes s ! i) m" "from_worker s (pipes s ! i) = [m]" "to_worker s (pipes s ! i) = []"
    "si_type m = FINISHED_AND_CONTINUE \<or> si_type m = FINISHED_AND_CLOSE"
proof -
  have lay: "layout s" and wo: "workers_ok s" using assms(1) by (auto simp: server_inv_def)
  note ti = thread_index [OF lay assms(2)]
  from wo ti(3) assms(3) obtain m where "working_on s (pipes s ! i) m"
    by (auto simp: workers_ok_def chan_def ti(2) split: if_splits)
  with assms(3) that show ?thesis by (auto simp: working_on_def)
qed

lemma handle_control_ok:
  assumes inv: "server_inv s" and i: "i < length (pipes s)" "from_worker s (pipes s ! i) = [m]"
    and m: "working_on s (pipes s ! i) m"
  shows "\<exists>s'. handle_control i (pipes s ! i) s = (Inr (), s') \<and> server_inv s'
     \<and> closed_sockets s' = closed_sockets s @ (if si_type m = FINISHED_AND_CLOSE then [sid m] else [])
     \<and> mset (clients s') = mset (clients s) - (if si_type m = FINISHED_AND_CLOSE then {#sid m#} else {#})
     \<and> waiting_sockets (sctl s') = tl (waiting_sockets (sctl s))
     \<and> (waiting_sockets (sctl s) \<noteq> [] \<longrightarrow> to_worker s' (pipes s ! i)
           = [message_of (hd (waiting_sockets (sctl s))\<lparr>si_type := PROCESS_REQUEST\<rparr>)])
     \<and> thread_list (tctl s') = thread_list (tctl s)"
proof -
  have lay: "layout s" and co: "clients_ok s" using inv by (auto simp: server_inv_def)
  note ti = thread_index [OF lay i(1)]
  let ?t = "thread_list (tctl s) ! i" and ?p = "pipes s ! i"
  have to0: "to_worker s ?p = []" and ty: "si_type m = FINISHED_AND_CONTINUE \<or> si_type m = FINISHED_AND_CLOSE"
    using m i(2) by (auto simp: working_on_def)
  have m': "working_on s (control_pipe ?t) m" using m ti(2) by simp
  define again where "again = (si_type m = FINISHED_AND_CONTINUE)"
  define s1 where "s1 = s\<lparr>from_worker := (from_worker s)(?p := [])\<rparr>"
  define s2 where "s2 = (if again
      then mod_sctl (add_dyn_socket (m\<lparr>si_type := NOOP\<rparr>)) (mod_sctl (remove_from_working_socket m) s1)
      else close_socket m (mod_sctl (remove_from_working_socket m) s1))"
  have hc: "handle_control i ?p s = hand_over i ?p s2"
    using ty i(2) by (auto simp: handle_control_def receive_control_message_def s2_def s1_def again_def)
  have lay1: "layout (mod_sctl (remove_from_working_socket m) s1)"
    using lay by (simp add: layout_def mod_sctl_def s1_def pipes_def first_client_def Let_def)
  have fc1: "first_client (mod_sctl (remove_from_working_socket m) s1) = first_client s"
    by (simp add: first_client_def mod_sctl_def s1_def)
  have db: "dyn_socket_base (sctl s2) = (if again then int (first_client s) else dyn_socket_base (sctl s))"
    using add_dyn_layout [OF lay1] by (simp add: s2_def fc1) (simp add: mod_sctl_def close_socket_def s1_def)
  have s2: "thread_list (tctl s2) = thread_list (tctl s)" "thread_queue (tctl s2) = thread_queue (tctl s)"
    "n_msg_sockets (sctl s2) = n_msg_sockets (sctl s)" "stop_sock_id (sctl s2) = stop_sock_id (sctl s)"
    "http_sock_id (sctl s2) = http_sock_id (sctl s)" "ssl_sock_id (sctl s2) = ssl_sock_id (sctl s)"
    "open_sockets (sctl s2) = open_sockets (sctl s)"
    "generic_open_sockets (sctl s2) = generic_open_sockets (sctl s) @ (if again then [m\<lparr>si_type := NOOP, si_socket_type := DYN_SOCKET\<rparr>] else [])"
    "waiting_sockets (sctl s2) = waiting_sockets (sctl s)"
    "working_sockets (sctl s2) = filter (\<lambda>x. sid x \<noteq> sid m) (working_sockets (sctl s))"
    "to_worker s2 = to_worker s" "from_worker s2 = (from_worker s)(?p := [])"
    "closed_sockets s2 = closed_sockets s @ (if again then [] else [sid m])"
    by (simp_all add: s2_def mod_sctl_def close_socket_def s1_def)
  define extra where "extra = (if again then [m\<lparr>si_type := NOOP, si_socket_type := DYN_SOCKET\<rparr>] else [])"
  have ex: "map sid extra = (if again then [sid m] else [])" by (simp add: extra_def)
  have cl: "(if again then [] else [sid m]) = (if si_type m = FINISHED_AND_CLOSE then [sid m] else [])"
    "(if again then {#} else {#sid m#}) = (if si_type m = FINISHED_AND_CLOSE then {#sid m#} else {#})"
    using ty by (auto simp: again_def)
  show ?thesis
  proof (cases "waiting_sockets (sctl s)")
    case Nil
    define s' where "s' = s2\<lparr>tctl := thread_push ?t (tctl s2)\<rparr>"
    have "hand_over i ?p s2 = (Inr (), s')"
      using Nil i(1) s2(1) by (simp add: pipes_def hand_over_def get_waiting_def s2(9) push_thread_def thread_at_def s'_def)
    moreover have "server_inv s'" "mset (clients s') = mset (clients s) - (if again then {#} else {#sid m#})"
      by (rule finish_inv [OF inv ti(3) m', where again = again and extra = extra];
          use s2 db ex to0 Nil ti(2) in \<open>simp add: s'_def thread_push_def extra_def\<close>)+
    ultimately show ?thesis
      using Nil s2 cl by (intro exI [of _ s']) (simp add: hc s'_def thread_push_def)
  next
    case (Cons w ws)
    define s' where "s' = dispatch ?p w (s2\<lparr>sctl := (sctl s2)\<lparr>waiting_sockets := ws\<rparr>\<rparr>)"
    have "hand_over i ?p s2 = (Inr (), s')"
      using Cons by (simp add: hand_over_def get_waiting_def s2(9) s'_def)
    moreover have fresh: "sid w \<notin> sid ` set (working_sockets (sctl s2))"
    proof -
      have "distinct (clients s)" using co by (simp add: clients_ok_def)
      then show ?thesis using Cons by (auto simp: clients_def s2(10))
    qed
    moreover have "server_inv s'" "mset (clients s') = mset (clients s) - (if again then {#} else {#sid m#})"
      by (rule finish_inv [OF inv ti(3) m', where again = again and extra = extra];
          use s2 db ex to0 Cons ti(2) fresh in \<open>simp add: s'_def dispatch_def Let_def send_control_message_def
            mod_sctl_def message_of_def extra_def\<close>)+
    ultimately show ?thesis
      using Cons s2 cl to0 by (intro exI [of _ s'])
        (simp add: hc s'_def dispatch_def Let_def send_control_message_def mod_sctl_def)
  qed
qed

section \<open>A client is ready\<close>

lemma client_index:
  assumes "layout s" "i < get_sockets_size (sctl s)" "first_client s \<le> i"
  shows "handle_input acc i fd s = handle_client i s"
proof -
  have "length (pipes s) + 2 \<le> i" "ssl_sock_id (sctl s) \<noteq> int i"
    using assms by (auto simp: first_client_def pipes_def layout_def Let_def split: if_splits)
  with assms(1) show ?thesis by (simp add: handle_input_def layout_def Let_def)
qed

lemma client_removed:
  assumes "layout s" "first_client s \<le> i" "i < length (generic_open_sockets (sctl s))"
    "thread_list (tctl s') = thread_list (tctl s)" "ssl_sock_id (sctl s') = ssl_sock_id (sctl s)"
    "generic_open_sockets (sctl s') = remove_nth i (generic_open_sockets (sctl s))"
  shows "mset (map sid (polled_clients s')) + {#sid (generic_open_sockets (sctl s) ! i)#} = mset (map sid (polled_clients s))"
proof -
  let ?g = "generic_open_sockets (sctl s)" and ?k = "first_client s"
  have p: "polled_clients s' = remove_nth (i - ?k) (polled_clients s)"
    using assms first_client_upd [OF assms(4,5)] by (simp add: polled_clients_def drop_remove_nth)
  have len: "i - ?k < length (polled_clients s)" and el: "polled_clients s ! (i - ?k) = ?g ! i"
    using assms(2,3) by (simp_all add: polled_clients_def)
  then have mem: "?g ! i \<in># mset (polled_clients s)" by (metis nth_mem set_mset_mset)
  have "mset (polled_clients s') + {#?g ! i#} = mset (polled_clients s)"
    using mset_remove_nth [OF len] mem by (simp add: p el)
  then have "image_mset sid (mset (polled_clients s') + {#?g ! i#}) = image_mset sid (mset (polled_clients s))" by simp
  then show ?thesis by simp
qed

lemma handle_client_ok:
  assumes inv: "server_inv s" and i: "first_client s \<le> i" "i < get_sockets_size (sctl s)"
  shows "\<exists>s'. handle_client i s = (Inr (), s') \<and> server_inv s' \<and> mset (clients s') = mset (clients s)
     \<and> closed_sockets s' = closed_sockets s
     \<and> (thread_queue (tctl s) = [] \<longrightarrow> waiting_sockets (sctl s') = waiting_sockets (sctl s) @ [generic_open_sockets (sctl s) ! i])
     \<and> (thread_queue (tctl s) \<noteq> [] \<longrightarrow> waiting_sockets (sctl s') = waiting_sockets (sctl s)
           \<and> sid (generic_open_sockets (sctl s) ! i) \<in> set (map sid (working_sockets (sctl s'))))"
proof -
  have lay: "layout s" and wo: "workers_ok s" and jo: "jobs_ok s" and co: "clients_ok s"
    using inv by (auto simp: server_inv_def)
  let ?g = "generic_open_sockets (sctl s)"
  have len: "i < length ?g" using i(2) by (simp add: get_sockets_size_def)
  have base: "dyn_socket_base (sctl s) = int (first_client s)"
    by (rule layout_base [OF lay]) (use i len in simp)
  have size: "first_client s \<le> length (remove_nth i ?g)" using i len by (simp add: length_remove_nth)
  note rmc = remove_client_socket [OF lay i(1) len]
  have dc: "distinct (clients s)" using co by (simp add: clients_ok_def)
  have mem: "?g ! i \<in> set (polled_clients s)"
    using i(1) len by (auto simp: polled_clients_def in_set_conv_nth intro!: exI [of _ "i - first_client s"])
  show ?thesis
  proof (cases "thread_queue (tctl s)")
    case Nil
    define s' where "s' = s\<lparr>sctl := (sctl s)\<lparr>generic_open_sockets := remove_nth i ?g,
        waiting_sockets := waiting_sockets (sctl s) @ [?g ! i]\<rparr>\<rparr>"
    have run: "handle_client i s = (Inr (), s')"
      using Nil i base len by (simp add: handle_client_def thread_pop_def on_sctl_def move_to_waiting_def
          monad_simps get_sockets_size_def s'_def)
    have rem: "mset (map sid (polled_clients s')) + {#sid (?g ! i)#} = mset (map sid (polled_clients s))"
      by (rule client_removed [OF lay i(1) len]) (simp_all add: s'_def)
    have cl: "mset (clients s') = mset (clients s)"
    proof -
      have "mset (clients s') = mset (map sid (polled_clients s')) + {#sid (?g ! i)#}
          + mset (map sid (waiting_sockets (sctl s))) + mset (map sid (working_sockets (sctl s)))"
        by (simp add: clients_def s'_def)
      also have "\<dots> = mset (clients s)" unfolding rem by (simp add: clients_def)
      finally show ?thesis .
    qed
    have "layout s'"
      by (rule layout_upd [OF lay]) (use i len base size in \<open>simp_all add: s'_def take_remove_nth\<close>)
    moreover have "workers_ok s'" "jobs_ok s'"
      by (rule workers_same [OF wo jo]; simp add: s'_def)+
    moreover have "clients_ok s'"
      using dc cl Nil by (simp add: clients_ok_def s'_def) (metis mset_eq_imp_distinct_iff)
    ultimately show ?thesis using run cl Nil by (intro exI [of _ s']) (simp add: server_inv_def, simp add: s'_def)
  next
    case (Cons t ts)
    have tin: "t \<in> set (thread_list (tctl s))" and tne: "t \<notin> set ts" "distinct ts"
      and idle: "chan s (control_pipe t) = []"
      using wo Cons by (auto simp: workers_ok_def)
    have w0: "waiting_sockets (sctl s) = []" using co Cons by (auto simp: clients_ok_def)
    define s' where "s' = dispatch (control_pipe t) (?g ! i) (s\<lparr>tctl := (tctl s)\<lparr>thread_queue := ts\<rparr>,
        sctl := (sctl s)\<lparr>generic_open_sockets := remove_nth i ?g\<rparr>\<rparr>)"
    have run: "handle_client i s = (Inr (), s')"
      using Cons rmc by (simp add: handle_client_def thread_pop_def on_sctl_def s'_def)
    have fresh: "sid (?g ! i) \<notin> sid ` set (working_sockets (sctl s))"
      using dc mem by (auto simp: clients_def)
    have s': "thread_list (tctl s') = thread_list (tctl s)" "thread_queue (tctl s') = ts"
      "sctl s' = add_to_working_socket ((?g ! i)\<lparr>si_type := PROCESS_REQUEST\<rparr>) ((sctl s)\<lparr>generic_open_sockets := remove_nth i ?g\<rparr>)"
      "from_worker s' = from_worker s" "closed_sockets s' = closed_sockets s"
      "to_worker s' = (to_worker s)(control_pipe t := to_worker s (control_pipe t) @ [message_of ((?g ! i)\<lparr>si_type := PROCESS_REQUEST\<rparr>)])"
      by (simp_all add: s'_def dispatch_def Let_def send_control_message_def mod_sctl_def)
    have wk: "working_sockets (sctl s') = ((?g ! i)\<lparr>si_type := PROCESS_REQUEST\<rparr>) # working_sockets (sctl s)"
      using fresh by (simp add: s'(3))
    have rem: "mset (map sid (polled_clients s')) + {#sid (?g ! i)#} = mset (map sid (polled_clients s))"
      by (rule client_removed [OF lay i(1) len]) (simp_all add: s')
    have cl: "mset (clients s') = mset (clients s)"
    proof -
      have "mset (clients s') = (mset (map sid (polled_clients s')) + {#sid (?g ! i)#})
          + mset (map sid (waiting_sockets (sctl s))) + mset (map sid (working_sockets (sctl s)))"
        using wk by (simp add: clients_def s'(3))
      also have "\<dots> = mset (clients s)" unfolding rem by (simp add: clients_def)
      finally show ?thesis .
    qed
    have "layout s'"
      by (rule layout_upd [OF lay]) (use i len base size in \<open>simp_all add: s' take_remove_nth\<close>)
    moreover have "workers_ok s'"
    proof -
      have w: "working_on s' (control_pipe t) (message_of ((?g ! i)\<lparr>si_type := PROCESS_REQUEST\<rparr>))"
        using idle s' by (simp add: working_on_def chan_def message_of_def)
      show ?thesis
        by (rule workers_ok_upd [OF wo tin s'(1)]) (use s' Cons tne w in auto)
    qed
    moreover have "jobs_ok s'"
    proof -
      have "mset (map sid (busy s')) + mset (map sid (chan s (control_pipe t)))
          = mset (map sid (busy s)) + mset (map sid (chan s' (control_pipe t)))"
        by (rule busy_jobs_upd [OF wo]) (use tin s' in \<open>auto simp: pipes_def chan_def\<close>)
      moreover have "chan s' (control_pipe t) = [message_of ((?g ! i)\<lparr>si_type := PROCESS_REQUEST\<rparr>)]"
        using idle s' by (simp add: chan_def)
      ultimately have "mset (map sid (busy s')) = mset (map sid (working_sockets (sctl s))) + {#sid (?g ! i)#}"
        using idle jo by (simp add: jobs_ok_def message_of_def)
      then show ?thesis using wk by (simp add: jobs_ok_def)
    qed
    moreover have "clients_ok s'"
      using dc cl w0 by (simp add: clients_ok_def s'(3)) (metis mset_eq_imp_distinct_iff)
    ultimately show ?thesis using run cl Cons w0 wk s'(3,5)
      by (intro exI [of _ s']) (simp add: server_inv_def)
  qed
qed

section \<open>The other steps\<close>

lemma handle_accept_ok:
  assumes inv: "server_inv s" and new: "sid acc \<notin> set (clients s)"
  shows "\<exists>s'. handle_accept acc s = (Inr (), s') \<and> server_inv s'
     \<and> mset (clients s') = mset (clients s) + {#sid acc#} \<and> closed_sockets s' = closed_sockets s
     \<and> waiting_sockets (sctl s') = waiting_sockets (sctl s)"
proof -
  have lay: "layout s" and wo: "workers_ok s" and jo: "jobs_ok s" and co: "clients_ok s"
    using inv by (auto simp: server_inv_def)
  define s' where "s' = mod_sctl (add_dyn_socket acc) s"
  have len: "first_client s \<le> length (generic_open_sockets (sctl s))" using lay by (simp add: layout_def Let_def)
  have fc: "first_client s' = first_client s" by (simp add: first_client_def s'_def mod_sctl_def)
  have cl: "mset (clients s') = mset (clients s) + {#sid acc#}"
    using len by (simp add: clients_def polled_clients_def fc) (simp add: s'_def mod_sctl_def)
  have "layout s'"
    by (rule layout_upd [OF lay]) (use len add_dyn_layout [OF lay] in \<open>simp_all add: s'_def mod_sctl_def\<close>)
  moreover have "workers_ok s'" "jobs_ok s'"
    by (rule workers_same [OF wo jo]; simp add: s'_def mod_sctl_def)+
  moreover have "clients_ok s'"
  proof -
    have "distinct (sid acc # clients s)" using new co by (simp add: clients_ok_def)
    moreover have "mset (clients s') = mset (sid acc # clients s)" using cl by simp
    ultimately have "distinct (clients s')" by (metis mset_eq_imp_distinct_iff)
    with co show ?thesis by (simp add: clients_ok_def s'_def mod_sctl_def)
  qed
  ultimately show ?thesis
    using cl by (intro exI [of _ s'])
      (simp add: server_inv_def handle_accept_def monad_simps, simp add: s'_def mod_sctl_def)
qed

lemma remove_client_ok:
  assumes inv: "server_inv s" and i: "first_client s \<le> i" "i < get_sockets_size (sctl s)"
  shows "\<exists>s'. handle_hangup i s = (Inr (), s') \<and> server_inv s'
     \<and> mset (clients s') + {#sid (generic_open_sockets (sctl s) ! i)#} = mset (clients s)
     \<and> closed_sockets s' = closed_sockets s @ [sid (generic_open_sockets (sctl s) ! i)]
     \<and> waiting_sockets (sctl s') = waiting_sockets (sctl s)"
proof -
  have lay: "layout s" and wo: "workers_ok s" and jo: "jobs_ok s" and co: "clients_ok s"
    using inv by (auto simp: server_inv_def)
  let ?g = "generic_open_sockets (sctl s)"
  have len: "i < length ?g" using i(2) by (simp add: get_sockets_size_def)
  have base: "dyn_socket_base (sctl s) = int (first_client s)"
    by (rule layout_base [OF lay]) (use i len in simp)
  have size: "first_client s \<le> length (remove_nth i ?g)" using i len by (simp add: length_remove_nth)
  note rmc = remove_client_socket [OF lay i(1) len]
  have dc: "distinct (clients s)" using co by (simp add: clients_ok_def)
  have mem: "?g ! i \<in> set (polled_clients s)"
    using i(1) len by (auto simp: polled_clients_def in_set_conv_nth intro!: exI [of _ "i - first_client s"])
  have "sid (?g ! i) \<notin> sid ` set (working_sockets (sctl s))" using dc mem by (auto simp: clients_def)
  then have fil: "filter (\<lambda>y. sid y \<noteq> sid (?g ! i)) (working_sockets (sctl s)) = working_sockets (sctl s)"
    by (intro filter_True) (metis image_eqI)
  define s' where "s' = close_socket (?g ! i) (mod_sctl (remove_from_working_socket (?g ! i))
      (s\<lparr>sctl := (sctl s)\<lparr>generic_open_sockets := remove_nth i ?g\<rparr>\<rparr>))"
  have run: "handle_hangup i s = (Inr (), s')"
    using base i rmc by (simp add: handle_hangup_def remove_client_def monad_simps on_sctl_def s'_def)
  have rem: "mset (map sid (polled_clients s')) + {#sid (?g ! i)#} = mset (map sid (polled_clients s))"
    by (rule client_removed [OF lay i(1) len]) (simp_all add: s'_def close_socket_def mod_sctl_def)
  have cl: "mset (clients s') + {#sid (?g ! i)#} = mset (clients s)"
  proof -
    have "mset (clients s') + {#sid (?g ! i)#} = (mset (map sid (polled_clients s')) + {#sid (?g ! i)#})
        + mset (map sid (waiting_sockets (sctl s))) + mset (map sid (working_sockets (sctl s)))"
      using fil by (simp add: clients_def) (simp add: s'_def close_socket_def mod_sctl_def)
    also have "\<dots> = mset (clients s)" unfolding rem by (simp add: clients_def)
    finally show ?thesis .
  qed
  have "layout s'"
    by (rule layout_upd [OF lay])
      (use i len base size in \<open>simp_all add: s'_def take_remove_nth close_socket_def mod_sctl_def\<close>)
  moreover have "workers_ok s'" "jobs_ok s'"
    by (rule workers_same [OF wo jo]; simp add: s'_def close_socket_def mod_sctl_def fil)+
  moreover have "clients_ok s'"
  proof -
    have "mset (clients s') \<subseteq># mset (clients s)" unfolding cl [symmetric] by simp
    then have "distinct (clients s')" using dc by (rule distinct_sub_mset)
    with co show ?thesis by (simp add: clients_ok_def s'_def close_socket_def mod_sctl_def)
  qed
  ultimately show ?thesis
    using run cl by (intro exI [of _ s'])
      (simp add: server_inv_def, simp add: s'_def close_socket_def mod_sctl_def)
qed

lemma poll_ok:
  assumes "server_inv s"
  shows "server_inv (mod_sctl get_sockets_arr s) \<and> clients (mod_sctl get_sockets_arr s) = clients s"
proof -
  let ?s = "mod_sctl get_sockets_arr s"
  have same: "pipes ?s = pipes s" "first_client ?s = first_client s" "tctl ?s = tctl s"
    "to_worker ?s = to_worker s" "from_worker ?s = from_worker s"
    "clients ?s = clients s" "waiting_sockets (sctl ?s) = waiting_sockets (sctl s)" 
    by (simp_all add: mod_sctl_def get_sockets_arr_def pipes_def first_client_def clients_def polled_clients_def)
  have lay: "layout s" and wo: "workers_ok s" and jo: "jobs_ok s" and co: "clients_ok s"
    using assms by (auto simp: server_inv_def)
  have "length (pipes s) \<le> length (generic_open_sockets (sctl s))"
    using lay by (auto simp: layout_def Let_def first_client_def pipes_def)
  then have "layout ?s"
    using lay unfolding layout_def Let_def same
    by (simp add: mod_sctl_def get_sockets_arr_def take_map)
  moreover have "workers_ok ?s" "jobs_ok ?s"
    by (rule workers_same [OF wo jo]; simp add: mod_sctl_def get_sockets_arr_def)+
  ultimately show ?thesis using co same by (simp add: server_inv_def clients_ok_def)
qed

lemma work_ok:
  assumes inv: "server_inv s" and p: "p \<in> set (pipes s)"
  shows "server_inv (process_request status p s) \<and> clients (process_request status p s) = clients s
     \<and> waiting_sockets (sctl (process_request status p s)) = waiting_sockets (sctl s)
     \<and> closed_sockets (process_request status p s) = closed_sockets s"
proof (cases "to_worker s p")
  case Nil
  with inv show ?thesis by (simp add: process_request_def)
next
  case (Cons m ms)
  have lay: "layout s" and wo: "workers_ok s" and jo: "jobs_ok s" and co: "clients_ok s"
    using inv by (auto simp: server_inv_def)
  from p obtain t where t: "t \<in> set (thread_list (tctl s))" "control_pipe t = p" by (auto simp: pipes_def)
  from wo t Cons have nq: "t \<notin> set (thread_queue (tctl s))" by (auto simp: workers_ok_def chan_def)
  with wo t obtain m' where "working_on s p m'" unfolding workers_ok_def by metis
  with Cons have w: "ms = []" "from_worker s p = []" "si_type m = PROCESS_REQUEST" by (auto simp: working_on_def)
  let ?s = "process_request status p s"
  let ?m = "m\<lparr>si_type := (if status = T_CONTINUE then FINISHED_AND_CONTINUE else FINISHED_AND_CLOSE)\<rparr>"
  have s': "?s = s\<lparr>to_worker := (to_worker s)(p := []), from_worker := (from_worker s)(p := [?m])\<rparr>"
    using Cons w by (simp add: process_request_def)
  have "layout ?s" using lay by (simp add: s' layout_def Let_def pipes_def first_client_def)
  moreover have "workers_ok ?s"
  proof -
    have w: "working_on ?s (control_pipe t) ?m" by (simp add: s' working_on_def t(2))
    show ?thesis
      by (rule workers_ok_upd [OF wo t(1)]) (use t nq wo w in \<open>auto simp: s' workers_ok_def\<close>)
  qed
  moreover have "jobs_ok ?s"
  proof -
    have "mset (map sid (busy ?s)) + mset (map sid (chan s p)) = mset (map sid (busy s)) + mset (map sid (chan ?s p))"
      by (rule busy_jobs_upd [OF wo p]) (auto simp: s' pipes_def chan_def)
    moreover have "map sid (chan ?s p) = map sid (chan s p)" using Cons w by (simp add: s' chan_def)
    ultimately have "mset (map sid (busy ?s)) = mset (map sid (busy s))" by simp
    with jo show ?thesis by (simp add: jobs_ok_def s')
  qed
  moreover have "clients ?s = clients s" by (simp add: s' clients_def polled_clients_def first_client_def)
  ultimately show ?thesis using co by (simp add: server_inv_def clients_ok_def) (simp add: s')
qed

end
