(* ===== verification/ServerProps.thy ===== *)
theory ServerProps
  imports ServerSteps
begin

text \<open>
  What the server loop promises: no client is lost or served twice, no client waits while a worker is idle, and
  a waiting client is served in its turn. And where the loop goes wrong: the array of \<open>poll\<close> and the table
  of sockets run apart in the course of a pass, and stopping depends on the SSL socket.
\<close>

section \<open>Reachable states\<close>

lemma pipes_start:
  assumes "None \<notin> set ps"
  shows "map control_pipe (thread_list (mk_thread_control ps)) = map (snd \<circ> the) ps"
    "thread_queue (mk_thread_control ps) = thread_list (mk_thread_control ps)"
proof -
  have push: "thread_queue (fold thread_push ts tc) = thread_queue tc @ ts
      \<and> thread_list (fold thread_push ts tc) = thread_list tc" for ts tc
    by (induction ts arbitrary: tc) (simp_all add: thread_push_def)
  show "map control_pipe (thread_list (mk_thread_control ps)) = map (snd \<circ> the) ps"
    using assms by (intro nth_equalityI) (simp_all add: mk_thread_control_def Let_def push)
  show "thread_queue (mk_thread_control ps) = thread_list (mk_thread_control ps)"
    using assms by (simp add: mk_thread_control_def Let_def push)
qed

lemma start_inv:
  assumes start: "start_server ps stop_fd http_fd ssl_fd = (Inr (), s)"
    and ok: "None \<notin> set ps" "distinct (map (snd \<circ> the) ps)"
  shows "server_inv s \<and> clients s = [] \<and> length (thread_list (tctl s)) = length ps \<and> running s"
proof -
  note p = pipes_start [OF ok(1)]
  have len: "length (thread_list (mk_thread_control ps)) = length ps" using arg_cong [OF p(1), of length] by simp
  let ?tc = "mk_thread_control ps"
  have s: "tctl s = ?tc" "to_worker s = no_messages" "from_worker s = no_messages"
    "generic_open_sockets (sctl s) = map (\<lambda>t. mk_socket_info NOOP CONTROL_SOCKET (control_pipe t)) (thread_list ?tc)
       @ [mk_socket_info NOOP STOP_SOCKET stop_fd, mk_socket_info NOOP HTTP_SOCKET http_fd]
       @ (case ssl_fd of None \<Rightarrow> [] | Some fd \<Rightarrow> [mk_socket_info NOOP SSL_SOCKET fd])"
    "n_msg_sockets (sctl s) = int (length ps)" "stop_sock_id (sctl s) = int (length ps)"
    "http_sock_id (sctl s) = int (length ps) + 1"
    "ssl_sock_id (sctl s) = (if ssl_fd = None then - 1 else int (length ps) + 2)"
    "dyn_socket_base (sctl s) = - 1" "open_sockets (sctl s) = []" "waiting_sockets (sctl s) = []"
    "working_sockets (sctl s) = []" "running s"
    using start len
    by (auto simp: start_server_def Let_def on_sctl_def add_stop_socket_def add_http_socket_def add_ssl_socket_def
        monad_simps mk_socket_control_def open_socket_def last_index_def get_sockets_size_def split: option.splits)
  have pp: "pipes s = map (snd \<circ> the) ps" using p(1) by (simp add: pipes_def s(1))
  have fc: "first_client s = length (generic_open_sockets (sctl s))"
    by (simp add: first_client_def s len split: option.splits)
  have "layout s"
    using fc len by (simp add: layout_def Let_def s pipes_def comp_def mk_socket_info_def)
  moreover have "workers_ok s"
  proof -
    have "distinct (thread_list ?tc)" using ok(2) p(1) by (metis distinct_map)
    then show ?thesis using ok(2) p(2) by (simp add: workers_ok_def pp s chan_def no_messages_def)
  qed
  moreover have "busy s = []" by (simp add: busy_def chan_def s no_messages_def)
  then have "jobs_ok s" by (simp add: jobs_ok_def s)
  moreover have "clients s = []" by (simp add: clients_def polled_clients_def fc s(11,12))
  ultimately show ?thesis using len s by (simp add: server_inv_def clients_ok_def)
qed

text \<open>One step, whatever its label: the invariant stays, and clients only leave when they are closed.\<close>

lemma label_ok:
  assumes inv: "server_inv s" and may: "may l s" and run: "run_label l s = (Inr (), s')"
  shows "server_inv s' \<and> set (clients s) \<subseteq> set (clients s') \<union> set (closed_sockets s')
     \<and> set (closed_sockets s) \<subseteq> set (closed_sockets s')"
proof (cases l)
  case Poll
  with run poll_ok [OF inv] show ?thesis by (auto simp: run_label_def mod_sctl_def)
next
  case (Work p status)
  with may have "p \<in> set (pipes s)" by (simp add: may_def)
  from work_ok [OF inv this] run Work show ?thesis by (auto simp: run_label_def)
next
  case (Gone i)
  with may have i: "first_client s \<le> i" "i < get_sockets_size (sctl s)" by (simp_all add: may_def)
  from remove_client_ok [OF inv i] run Gone
  have r: "server_inv s'" "mset (clients s') + {#sid (generic_open_sockets (sctl s) ! i)#} = mset (clients s)"
    "closed_sockets s' = closed_sockets s @ [sid (generic_open_sockets (sctl s) ! i)]"
    by (auto simp: run_label_def)
  have "set (clients s) = insert (sid (generic_open_sockets (sctl s) ! i)) (set (clients s'))"
    using r(2) by (metis add_mset_add_single set_mset_add_mset_insert set_mset_mset)
  with r(1,3) show ?thesis by auto
next
  case (Ready i acc)
  have lay: "layout s" using inv by (simp add: server_inv_def)
  from may Ready have m: "i < get_sockets_size (sctl s)" "i < length (open_sockets (sctl s))"
    "i < length (pipes s) \<Longrightarrow> from_worker s (pipes s ! i) \<noteq> []" "int i \<noteq> stop_sock_id (sctl s)"
    "sid acc \<notin> set (clients s)" by (simp_all add: may_def)
  from run Ready have r: "handle_input acc i (open_sockets (sctl s) ! i) s = (Inr (), s')"
    by (simp add: run_label_def)
  consider "i < length (pipes s)" | "first_client s \<le> i" | "\<not> i < length (pipes s)" "\<not> first_client s \<le> i" by blast
  then show ?thesis
  proof cases
    case 1
    have fd: "open_sockets (sctl s) ! i = pipes s ! i"
    proof -
      have "take (length (pipes s)) (open_sockets (sctl s)) = pipes s" using lay m(2) by (auto simp: layout_def Let_def)
      then show ?thesis using 1 by (metis nth_take)
    qed
    obtain w where w: "working_on s (pipes s ! i) w" "from_worker s (pipes s ! i) = [w]"
      using finished_worker [OF inv 1 m(3) [OF 1]] by blast
    have "handle_input acc i (pipes s ! i) s = handle_control i (pipes s ! i) s"
      using thread_index(5) [OF lay 1] by (simp add: handle_input_def)
    with r fd handle_control_ok [OF inv 1 w(2,1)]
    have s': "server_inv s'" "closed_sockets s' = closed_sockets s @ (if si_type w = FINISHED_AND_CLOSE then [sid w] else [])"
      "mset (clients s') = mset (clients s) - (if si_type w = FINISHED_AND_CLOSE then {#sid w#} else {#})" by auto
    have "x \<in># mset (clients s') \<or> x = sid w \<and> si_type w = FINISHED_AND_CLOSE" if "x \<in># mset (clients s)" for x
      using that unfolding s'(3) by (auto simp: in_diff_count)
    then have "x \<in> set (clients s') \<or> x = sid w \<and> si_type w = FINISHED_AND_CLOSE" if "x \<in> set (clients s)" for x
      using that by (simp only: set_mset_mset [symmetric])
    with s'(1,2) show ?thesis by auto
  next
    case 2
    from handle_client_ok [OF inv 2 m(1)] r client_index [OF lay m(1) 2]
    have "server_inv s'" "mset (clients s') = mset (clients s)" "closed_sockets s' = closed_sockets s" by auto
    then show ?thesis using mset_eq_setD [of "clients s'" "clients s"] by auto
  next
    case 3
    have "handle_input acc i (open_sockets (sctl s) ! i) s = handle_accept acc s"
      using 3 lay m(4) by (auto simp: handle_input_def layout_def Let_def first_client_def pipes_def split: if_splits)
    with r handle_accept_ok [OF inv m(5)]
    have s': "server_inv s'" "mset (clients s') = mset (clients s) + {#sid acc#}" "closed_sockets s' = closed_sockets s" by auto
    then have "set (clients s') = insert (sid acc) (set (clients s))"
      by (metis add_mset_add_single set_mset_add_mset_insert set_mset_mset)
    with s'(1,3) show ?thesis by auto
  qed
qed

lemma steps_ok:
  "server_step\<^sup>*\<^sup>* s s' \<Longrightarrow> server_inv s \<Longrightarrow>
   server_inv s' \<and> set (clients s) \<subseteq> set (clients s') \<union> set (closed_sockets s')
     \<and> set (closed_sockets s) \<subseteq> set (closed_sockets s')"
proof (induction rule: rtranclp_induct)
  case (step s1 s2)
  from step.IH step.prems have IH: "server_inv s1" "set (clients s) \<subseteq> set (clients s1) \<union> set (closed_sockets s1)"
    "set (closed_sockets s) \<subseteq> set (closed_sockets s1)" by simp_all
  from step.hyps(2) obtain l where l: "may l s1" "run_label l s1 = (Inr (), s2)" by (auto elim: server_step.cases)
  from label_ok [OF IH(1) l] IH(2,3) show ?case by blast
qed simp

text \<open>
  C2: In every state the server reaches from its start, with any number of workers and whatever the order in
  which connections arrive, send, finish and hang up: each client socket is at exactly one place (polled,
  waiting, or being worked on), the busy and the idle workers are all the workers, every busy one works on one
  socket, and no client waits while a worker is idle.
\<close>

theorem server_reachable:
  assumes "start_server ps stop_fd http_fd ssl_fd = (Inr (), s0)" "None \<notin> set ps" "distinct (map (snd \<circ> the) ps)"
    "server_step\<^sup>*\<^sup>* s0 s"
  shows "distinct (clients s) \<and> length (thread_list (tctl s)) = length (working_sockets (sctl s)) + length (thread_queue (tctl s))
     \<and> distinct (thread_queue (tctl s)) \<and> set (thread_queue (tctl s)) \<subseteq> set (thread_list (tctl s))
     \<and> (waiting_sockets (sctl s) \<noteq> [] \<longrightarrow> thread_queue (tctl s) = [])"
proof -
  have inv: "server_inv s" using start_inv [OF assms(1-3)] steps_ok [OF assms(4)] by blast
  then have wo: "workers_ok s" and jo: "jobs_ok s" and co: "clients_ok s" by (simp_all add: server_inv_def)
  have "length (busy s) = length (working_sockets (sctl s))"
    using arg_cong [OF jo [unfolded jobs_ok_def], of size] by simp
  with idle_busy [OF wo] wo co show ?thesis by (simp add: workers_ok_def clients_ok_def)
qed

lemma server_reachable_witness:
  "\<exists>s. start_server [Some (4, 5), Some (6, 7)] 8 9 None = (Inr (), s) \<and> distinct (clients s)
     \<and> length (thread_list (tctl s)) = length (working_sockets (sctl s)) + length (thread_queue (tctl s))"
proof -
  obtain s where s: "start_server [Some (4, 5), Some (6, 7)] 8 9 None = (Inr (), s)"
    by (simp add: start_server_def Let_def on_sctl_def add_stop_socket_def add_http_socket_def monad_simps
        mk_socket_control_def open_socket_def)
  from server_reachable [OF s _ _ rtranclp.rtrancl_refl] s show ?thesis by auto
qed


section \<open>Waiting for a worker\<close>

definition finishing :: "label \<Rightarrow> server \<Rightarrow> bool" where
  "finishing l s = (case l of Ready i acc \<Rightarrow> i < length (pipes s) | _ \<Rightarrow> False)"

text \<open>\<open>run_finishing s n s'\<close>: a run from \<open>s\<close> to \<open>s'\<close> in which \<open>n\<close> times a worker was done with a socket.\<close>

inductive run_finishing :: "server \<Rightarrow> nat \<Rightarrow> server \<Rightarrow> bool" where
  none: "run_finishing s 0 s"
| other: "run_finishing s n s1 \<Longrightarrow> may l s1 \<Longrightarrow> \<not> finishing l s1 \<Longrightarrow> run_label l s1 = (Inr (), s2) \<Longrightarrow>
    run_finishing s n s2"
| finish: "run_finishing s n s1 \<Longrightarrow> may l s1 \<Longrightarrow> finishing l s1 \<Longrightarrow> run_label l s1 = (Inr (), s2) \<Longrightarrow>
    run_finishing s (Suc n) s2"

lemma ready_control:
  assumes inv: "server_inv s" and may: "may (Ready i acc) s" and i: "i < length (pipes s)"
  obtains s' where "run_label (Ready i acc) s = (Inr (), s')" "server_inv s'"
    "waiting_sockets (sctl s') = tl (waiting_sockets (sctl s))"
    "waiting_sockets (sctl s) \<noteq> [] \<Longrightarrow> to_worker s' (pipes s ! i)
        = [message_of (hd (waiting_sockets (sctl s))\<lparr>si_type := PROCESS_REQUEST\<rparr>)]"
    "thread_list (tctl s') = thread_list (tctl s)"
proof -
  have lay: "layout s" using inv by (simp add: server_inv_def)
  from may i have m: "i < length (open_sockets (sctl s))" "from_worker s (pipes s ! i) \<noteq> []" by (simp_all add: may_def)
  have fd: "open_sockets (sctl s) ! i = pipes s ! i"
  proof -
    have "take (length (pipes s)) (open_sockets (sctl s)) = pipes s" using lay m(1) by (auto simp: layout_def Let_def)
    then show ?thesis using i by (metis nth_take)
  qed
  obtain w where w: "working_on s (pipes s ! i) w" "from_worker s (pipes s ! i) = [w]"
    using finished_worker [OF inv i m(2)] by blast
  have "run_label (Ready i acc) s = handle_control i (pipes s ! i) s"
    using thread_index(5) [OF lay i] by (simp add: run_label_def handle_input_def fd)
  with handle_control_ok [OF inv i w(2,1)] that show ?thesis by auto
qed

lemma other_keeps_waiting:
  assumes inv: "server_inv s" and may: "may l s" and run: "run_label l s = (Inr (), s')" and l: "\<not> finishing l s"
  shows "\<exists>more. waiting_sockets (sctl s') = waiting_sockets (sctl s) @ more"
proof (cases l)
  case Poll
  with run show ?thesis by (auto simp: run_label_def mod_sctl_def get_sockets_arr_def)
next
  case (Work p status)
  with may have "p \<in> set (pipes s)" by (simp add: may_def)
  from work_ok [OF inv this] run Work show ?thesis by (auto simp: run_label_def)
next
  case (Gone i)
  with may have i: "first_client s \<le> i" "i < get_sockets_size (sctl s)" by (simp_all add: may_def)
  from remove_client_ok [OF inv i] run Gone show ?thesis by (auto simp: run_label_def)
next
  case (Ready i acc)
  have lay: "layout s" using inv by (simp add: server_inv_def)
  from may Ready have m: "i < get_sockets_size (sctl s)" "int i \<noteq> stop_sock_id (sctl s)" "sid acc \<notin> set (clients s)"
    by (simp_all add: may_def)
  from run Ready have r: "handle_input acc i (open_sockets (sctl s) ! i) s = (Inr (), s')" by (simp add: run_label_def)
  have np: "\<not> i < length (pipes s)" using l Ready by (simp add: finishing_def)
  show ?thesis
  proof (cases "first_client s \<le> i")
    case True
    from handle_client_ok [OF inv True m(1)] r client_index [OF lay m(1) True]
    show ?thesis by (cases "thread_queue (tctl s) = []") auto
  next
    case False
    then have "handle_input acc i (open_sockets (sctl s) ! i) s = handle_accept acc s"
      using np lay m(2) by (auto simp: handle_input_def layout_def Let_def first_client_def pipes_def split: if_splits)
    with r handle_accept_ok [OF inv m(3)] show ?thesis by auto
  qed
qed

lemma run_finishing_waiting:
  "run_finishing s n s' \<Longrightarrow> server_inv s \<Longrightarrow> waiting_sockets (sctl s) = us @ x # vs \<Longrightarrow> n \<le> length us \<Longrightarrow>
   server_inv s' \<and> (\<exists>more. waiting_sockets (sctl s') = drop n us @ x # vs @ more)"
proof (induction rule: run_finishing.induct)
  case (other s n s1 l s2)
  then obtain more where s1: "server_inv s1" "waiting_sockets (sctl s1) = drop n us @ x # vs @ more" by auto
  from label_ok [OF s1(1) other.hyps(2,4)] other_keeps_waiting [OF s1(1) other.hyps(2,4,3)] s1 show ?case by auto
next
  case (finish s n s1 l s2)
  then obtain more where s1: "server_inv s1" "waiting_sockets (sctl s1) = drop n us @ x # vs @ more" by auto
  from finish.hyps(3) obtain i acc where l: "l = Ready i acc" "i < length (pipes s1)"
    by (auto simp: finishing_def split: label.splits)
  from ready_control [OF s1(1) finish.hyps(2) [unfolded l(1)] l(2)] finish.hyps(4) l(1)
  have "server_inv s2" "waiting_sockets (sctl s2) = tl (waiting_sockets (sctl s1))" by auto
  moreover have "tl (drop n us @ x # vs @ more) = drop (Suc n) us @ x # vs @ more"
    using finish.prems(3) by (simp add: drop_Suc tl_drop)
  ultimately show ?case using s1(2) by auto
qed simp

text \<open>
  C9: A waiting client is served in its turn: when as many workers as there are clients in front of it have
  finished, in any run of the server, the next worker that finishes gets this client.
\<close>

theorem waiting_served_in_turn:
  assumes "start_server ps stop_fd http_fd ssl_fd = (Inr (), s0)" "None \<notin> set ps" "distinct (map (snd \<circ> the) ps)"
    "server_step\<^sup>*\<^sup>* s0 s" "waiting_sockets (sctl s) = us @ x # vs" "run_finishing s (length us) s1"
    "may (Ready i acc) s1" "i < length (pipes s1)"
  shows "\<exists>s2. run_label (Ready i acc) s1 = (Inr (), s2)
     \<and> to_worker s2 (pipes s1 ! i) = [message_of (x\<lparr>si_type := PROCESS_REQUEST\<rparr>)]"
proof -
  have "server_inv s" using start_inv [OF assms(1-3)] steps_ok [OF assms(4)] by blast
  from run_finishing_waiting [OF assms(6) this assms(5)] obtain more
    where s1: "server_inv s1" "waiting_sockets (sctl s1) = x # vs @ more" by auto
  from ready_control [OF s1(1) assms(7,8)] s1(2) show ?thesis by fastforce
qed

text \<open>Runs as lists of labels, to be evaluated.\<close>

fun run_labels :: "label list \<Rightarrow> server \<Rightarrow> server option" where
  "run_labels [] s = Some s"
| "run_labels (l # ls) s =
     (if may l s then (case run_label l s of (Inl e, s') \<Rightarrow> None | (Inr _, s') \<Rightarrow> run_labels ls s') else None)"

lemma run_labels_steps: "run_labels ls s = Some s' \<Longrightarrow> server_step\<^sup>*\<^sup>* s s'"
proof (induction ls arbitrary: s)
  case (Cons l ls)
  then obtain s1 where "may l s" "run_label l s = (Inr (), s1)" "run_labels ls s1 = Some s'"
    by (auto split: if_splits prod.splits sum.splits)
  with Cons.IH server_step.step show ?case by (metis converse_rtranclp_into_rtranclp)
qed simp

text \<open>One worker, two clients that send at the same time.\<close>

definition two_clients :: "label list" where
  "two_clients = [Poll, Ready 2 (accept_connection 10 [] 1 [] None False), Ready 2 (accept_connection 11 [] 2 [] None False),
     Poll, Ready 3 (accept_connection 12 [] 1 [] None False), Ready 3 (accept_connection 12 [] 1 [] None False)]"

lemma two_clients_run:
  "\<exists>s0 s x. start_server [Some (4, 5)] 8 9 None = (Inr (), s0) \<and> run_labels two_clients s0 = Some s
     \<and> s0 = snd (start_server [Some (4, 5)] 8 9 None) \<and> s = the (run_labels two_clients s0)
     \<and> waiting_sockets (sctl s) = [x] \<and> sid x = 11 \<and> thread_list (tctl s) \<noteq> []"
proof -
  define s0 where "s0 = snd (start_server [Some (4, 5)] 8 9 None)"
  have s0: "start_server [Some (4, 5)] 8 9 None = (Inr (), s0)"
    unfolding s0_def by (simp add: start_server_def Let_def on_sctl_def add_stop_socket_def add_http_socket_def monad_simps
        mk_socket_control_def open_socket_def)
  define s where "s = the (run_labels two_clients s0)"
  have "\<not> Option.is_none (run_labels two_clients s0) \<and> map sid (waiting_sockets (sctl s)) = [11]
      \<and> length (thread_list (tctl s)) = 1"
    unfolding s_def s0_def by code_simp
  then have s: "run_labels two_clients s0 = Some s" "map sid (waiting_sockets (sctl s)) = [11]" "thread_list (tctl s) \<noteq> []"
    by (auto simp: s_def Option.is_none_def)
  from s(2) obtain x where x: "waiting_sockets (sctl s) = [x]" "sid x = 11" by auto
  show ?thesis
    by (rule exI [of _ s0], rule exI [of _ s], rule exI [of _ x])
      (intro conjI s0 s(1,3) x s0_def s_def)
qed


lemma waiting_served_in_turn_witness:
  "\<exists>s0 s s1 s2. start_server [Some (4, 5)] 8 9 None = (Inr (), s0) \<and> run_labels two_clients s0 = Some s
     \<and> run_finishing s 0 s1 \<and> run_label (Ready 0 (accept_connection 12 [] 1 [] None False)) s1 = (Inr (), s2)
     \<and> map sid (to_worker s2 5) = [11]"
proof -
  let ?acc = "accept_connection 12 [] 1 [] None False"
  obtain s0 s x where s0: "start_server [Some (4, 5)] 8 9 None = (Inr (), s0)" "s0 = snd (start_server [Some (4, 5)] 8 9 None)"
    and s: "run_labels two_clients s0 = Some s" "s = the (run_labels two_clients s0)"
    and x: "waiting_sockets (sctl s) = [x]" "sid x = 11"
    using two_clients_run by blast
  from x have x1: "waiting_sockets (sctl s) = [] @ x # []" by simp
  define s1 where "s1 = snd (run_label (Work 5 T_CLOSE) s)"
  have "\<not> isl (fst (run_label (Work 5 T_CLOSE) s)) \<and> may (Work 5 T_CLOSE) s \<and> may (Ready 0 ?acc) s1 \<and> pipes s1 = [5]"
    unfolding s1_def s(2) s0(2) by code_simp
  then have s1: "run_label (Work 5 T_CLOSE) s = (Inr (), s1)" "may (Work 5 T_CLOSE) s" "may (Ready 0 ?acc) s1" "pipes s1 = [5]"
    by (cases "run_label (Work 5 T_CLOSE) s"; auto simp: s1_def isl_def sum.case_eq_if split: sum.splits;
        metis old.sum.exhaust old.unit.exhaust)+
  have run: "run_finishing s (length ([] :: socket_info list)) s1"
    using run_finishing.other [OF run_finishing.none, of "Work 5 T_CLOSE" s s1] s1 by (simp add: finishing_def)
  from waiting_served_in_turn [OF s0(1) _ _ run_labels_steps [OF s(1)] x1 run s1(3)] s1(4)
  obtain s2 where "run_label (Ready 0 ?acc) s1 = (Inr (), s2)" "to_worker s2 5 = [message_of (x\<lparr>si_type := PROCESS_REQUEST\<rparr>)]"
    by auto
  with s0(1) s(1) run x(2) show ?thesis
    by (intro exI [of _ s0] exI [of _ s] exI [of _ s1] exI [of _ s2]) (simp add: message_of_def)
qed

end
