(* ===== verification/ServerFaults.thy ===== *)
theory ServerFaults
  imports ServerProps
begin

text \<open>
  Progress of the server loop, and where a pass of the loop goes wrong: the index of the loop runs over the
  table of sockets as it changes, the array it reads was made before the pass.
\<close>

section \<open>Progress\<close>

lemma some_fresh: "\<exists>acc :: socket_info. sid acc \<notin> set xs"
proof -
  obtain a :: int where "a \<notin> set xs" using ex_new_if_finite [OF infinite_UNIV_int, of "set xs"] by auto
  then have "sid (mk_socket_info NOOP DYN_SOCKET a) \<notin> set xs" by (simp add: mk_socket_info_def)
  then show ?thesis by blast
qed

lemma run_finishing_append:
  "run_finishing s1 k s2 \<Longrightarrow> run_finishing s n s1 \<Longrightarrow> run_finishing s (n + k) s2"
proof (induction rule: run_finishing.induct)
  case (other s1 k sa l sb)
  then show ?case by (blast intro: run_finishing.other)
next
  case (finish s1 k sa l sb)
  then have "run_finishing s (Suc (n + k)) sb" by (blast intro: run_finishing.finish)
  then show ?case by simp
qed simp

lemma worker_finishes:
  assumes inv: "server_inv s" and w: "waiting_sockets (sctl s) \<noteq> []" and t: "thread_list (tctl s) \<noteq> []"
  shows "\<exists>s1 acc. run_finishing s 0 s1 \<and> may (Ready 0 acc) s1 \<and> 0 < length (pipes s1)
     \<and> waiting_sockets (sctl s1) = waiting_sockets (sctl s) \<and> server_inv s1 \<and> thread_list (tctl s1) = thread_list (tctl s)"
proof -
  let ?t = "thread_list (tctl s) ! 0" and ?p = "pipes s ! 0"
  have n: "0 < length (pipes s)" using t by (simp add: pipes_def)
  have wo: "workers_ok s" and co: "clients_ok s" and lay: "layout s" using inv by (simp_all add: server_inv_def)
  note ti = thread_index [OF lay n]
  have "thread_queue (tctl s) = []" using co w by (simp add: clients_ok_def)
  with wo ti(3) obtain m where m: "working_on s ?p m" unfolding workers_ok_def ti(2) by auto
  define s1 where "s1 = process_request T_CLOSE ?p s"
  define s2 where "s2 = mod_sctl get_sockets_arr s1"
  have s1: "server_inv s1" "waiting_sockets (sctl s1) = waiting_sockets (sctl s)"
    using work_ok [OF inv ti(4)] by (simp_all add: s1_def)
  have same: "pipes s1 = pipes s" "thread_list (tctl s1) = thread_list (tctl s)" "from_worker s1 ?p \<noteq> []"
    using m by (auto simp: s1_def process_request_def working_on_def pipes_def Let_def split: list.splits control_message.splits)
  have s2: "server_inv s2" "pipes s2 = pipes s" "from_worker s2 = from_worker s1"
    "waiting_sockets (sctl s2) = waiting_sockets (sctl s)" "thread_list (tctl s2) = thread_list (tctl s)"
    "open_sockets (sctl s2) = map sid (generic_open_sockets (sctl s2))"
    using poll_ok [OF s1(1)] s1(2) same by (simp_all add: s2_def mod_sctl_def get_sockets_arr_def pipes_def)
  have "run_finishing s 0 s1"
    by (rule run_finishing.other [OF run_finishing.none, of "Work ?p T_CLOSE"])
      (use ti(4) in \<open>simp_all add: may_def finishing_def run_label_def s1_def\<close>)
  then have run: "run_finishing s 0 s2"
    by (rule run_finishing.other [of _ _ _ Poll]) (simp_all add: may_def finishing_def run_label_def s2_def)
  have lay2: "layout s2" using s2(1) by (simp add: server_inv_def)
  obtain acc :: socket_info where acc: "sid acc \<notin> set (clients s2)" using some_fresh by blast
  have "0 < length (generic_open_sockets (sctl s2))" "stop_sock_id (sctl s2) \<noteq> 0"
    using lay2 n s2(2) by (auto simp: layout_def Let_def first_client_def split: if_splits)
  then have "may (Ready 0 acc) s2"
    using acc same(3) s2(2,3,6) by (simp add: may_def get_sockets_size_def)
  with run s2 n show ?thesis by metis
qed

text \<open>
  C19: A waiting client can always be served: as long as the server has workers, from every reachable state
  there is a run, in which just the clients in front of it are handed to workers, after which a worker gets it.
\<close>

theorem waiting_client_served:
  assumes "start_server ps stop_fd http_fd ssl_fd = (Inr (), s0)" "None \<notin> set ps" "distinct (map (snd \<circ> the) ps)"
    "server_step\<^sup>*\<^sup>* s0 s" "waiting_sockets (sctl s) = us @ x # vs" "thread_list (tctl s) \<noteq> []"
  shows "\<exists>s' p. run_finishing s (Suc (length us)) s' \<and> to_worker s' p = [message_of (x\<lparr>si_type := PROCESS_REQUEST\<rparr>)]"
proof -
  have inv: "server_inv s" using start_inv [OF assms(1-3)] steps_ok [OF assms(4)] by blast
  have "\<exists>s1. run_finishing s n s1 \<and> server_inv s1 \<and> thread_list (tctl s1) = thread_list (tctl s)" if "n \<le> length us" for n
    using that
  proof (induction n)
    case 0
    with inv show ?case by (blast intro: run_finishing.none)
  next
    case (Suc n)
    then obtain s1 where s1: "run_finishing s n s1" "server_inv s1" "thread_list (tctl s1) = thread_list (tctl s)" by auto
    from run_finishing_waiting [OF s1(1) inv assms(5)] Suc.prems
    have w: "waiting_sockets (sctl s1) \<noteq> []" by auto
    from worker_finishes [OF s1(2) w] s1(3) assms(6) obtain s2 acc
      where s2: "run_finishing s1 0 s2" "may (Ready 0 acc) s2" "0 < length (pipes s2)" "server_inv s2"
        "thread_list (tctl s2) = thread_list (tctl s1)" by auto
    have run: "run_finishing s n s2" using run_finishing_append [OF s2(1) s1(1)] by simp
    from ready_control [OF s2(4,2,3)] obtain s3 where s3: "run_label (Ready 0 acc) s2 = (Inr (), s3)" "server_inv s3"
        "thread_list (tctl s3) = thread_list (tctl s2)" by blast
    have "run_finishing s (Suc n) s3"
      by (rule run_finishing.finish [OF _ s2(2) _ s3(1)]) (use run s2(3) in \<open>simp_all add: finishing_def\<close>)
    with s3 s2(5) s1(3) show ?case by auto
  qed
  then obtain s1 where s1: "run_finishing s (length us) s1" "server_inv s1" "thread_list (tctl s1) = thread_list (tctl s)"
    by blast
  from run_finishing_waiting [OF s1(1) inv assms(5)] obtain more where w: "waiting_sockets (sctl s1) = x # vs @ more" by auto
  have ne: "waiting_sockets (sctl s1) \<noteq> []" "thread_list (tctl s1) \<noteq> []" using w s1(3) assms(6) by simp_all
  obtain s2 acc where s2: "run_finishing s1 0 s2" "may (Ready 0 acc) s2" "0 < length (pipes s2)"
      "waiting_sockets (sctl s2) = waiting_sockets (sctl s1)" "server_inv s2"
    using worker_finishes [OF s1(2) ne] by blast
  have run: "run_finishing s (length us) s2" using run_finishing_append [OF s2(1) s1(1)] by simp
  obtain s3 where s3: "run_label (Ready 0 acc) s2 = (Inr (), s3)"
      "to_worker s3 (pipes s2 ! 0) = [message_of (x\<lparr>si_type := PROCESS_REQUEST\<rparr>)]"
    using ready_control [OF s2(5,2,3)] s2(4) w by (metis list.discI list.sel(1))
  have "run_finishing s (Suc (length us)) s3"
    by (rule run_finishing.finish [OF run s2(2) _ s3(1)]) (use s2(3) in \<open>simp add: finishing_def\<close>)
  with s3(2) show ?thesis by blast
qed

lemma waiting_client_served_witness:
  "\<exists>s x s' p. waiting_sockets (sctl s) = [x] \<and> run_finishing s 1 s' \<and> to_worker s' p = [message_of (x\<lparr>si_type := PROCESS_REQUEST\<rparr>)]"
proof -
  obtain s0 s x where s: "start_server [Some (4, 5)] 8 9 None = (Inr (), s0)" "run_labels two_clients s0 = Some s"
      "waiting_sockets (sctl s) = [x]" "thread_list (tctl s) \<noteq> []"
    using two_clients_run by blast
  from s(3) have x: "waiting_sockets (sctl s) = [] @ x # []" by simp
  from waiting_client_served [OF s(1) _ _ run_labels_steps [OF s(2)] x s(4)] s(3) show ?thesis by auto
qed

section \<open>The array of \<open>poll\<close>\<close>

lemma serve_pass_quiet:
  "(\<And>j. k \<le> j \<Longrightarrow> j < k + m \<Longrightarrow> fst (env j) = Quiet) \<Longrightarrow> m \<le> length fds \<Longrightarrow>
   k + m \<le> get_sockets_size (sctl s) \<Longrightarrow> serve_pass env k fds s = serve_pass env (k + m) (drop m fds) s"
proof (induction m arbitrary: k fds)
  case (Suc m)
  then obtain fd fds' where f: "fds = fd # fds'" by (cases fds) auto
  from Suc.prems have "fst (env k) = Quiet" "k < get_sockets_size (sctl s)" by auto
  then have "serve_pass env k fds s = serve_pass env (Suc k) fds' s"
    by (simp add: f handle_socket_def sret_def)
  also have "\<dots> = serve_pass env (Suc k + m) (drop m fds') s"
    by (rule Suc.IH) (use Suc.prems f in auto)
  finally show ?case by (simp add: f)
qed simp

text \<open>
  Accepting a connection makes the pass read behind the array of \<open>poll\<close>: when the listening socket is the
  only one with input, the new socket makes the table longer than the array, and the loop goes on to its
  length.
\<close>

theorem accept_reads_past_poll:
  assumes "start_server ps stop_fd http_fd ssl_fd = (Inr (), s0)" "None \<notin> set ps" "distinct (map (snd \<circ> the) ps)"
    "server_step\<^sup>*\<^sup>* s0 s1" "s = mod_sctl get_sockets_arr s1" "int i = http_sock_id (sctl s)" 
    "\<And>j. fst (env j) = (if j = i then Input else Quiet)"
  shows "fst (serve_pass env 0 (open_sockets (sctl s)) s) = Inl Undefined"
proof -
  have "server_inv s1" using start_inv [OF assms(1-3)] steps_ok [OF assms(4)] by blast
  then have lay: "layout s" using poll_ok assms(5) by (auto simp: server_inv_def)
  let ?g = "generic_open_sockets (sctl s)" and ?fds = "open_sockets (sctl s)"
  have fds: "length ?fds = length ?g" by (simp add: assms(5) mod_sctl_def get_sockets_arr_def)
  have i: "i = length (pipes s) + 1" "i < length ?g"
    using lay assms(6) by (auto simp: layout_def Let_def first_client_def pipes_def split: if_splits)
  have "serve_pass env 0 ?fds s = serve_pass env i (drop i ?fds) s"
    using serve_pass_quiet [of 0 i env ?fds s] assms(7) i fds by (simp add: get_sockets_size_def)
  also have "drop i ?fds = ?fds ! i # drop (Suc i) ?fds" using i fds by (simp add: Cons_nth_drop_Suc)
  also have "serve_pass env i (?fds ! i # drop (Suc i) ?fds) s
      = serve_pass env (Suc i) (drop (Suc i) ?fds) (mod_sctl (add_dyn_socket (snd (env i))) s)"
  proof -
    have "handle_input (snd (env i)) i (?fds ! i) s = (Inr (), mod_sctl (add_dyn_socket (snd (env i))) s)"
      using lay i by (auto simp: handle_input_def layout_def Let_def handle_accept_def smod_def)
    then show ?thesis using i assms(7) by (simp add: handle_socket_def get_sockets_size_def)
  qed
  also have "\<dots> = serve_pass env (length ?g) [] (mod_sctl (add_dyn_socket (snd (env i))) s)"
    using serve_pass_quiet [of "Suc i" "length ?g - Suc i" env "drop (Suc i) ?fds" "mod_sctl (add_dyn_socket (snd (env i))) s"]
      assms(7) i fds by (simp add: get_sockets_size_def mod_sctl_def)
  finally show ?thesis by (simp add: get_sockets_size_def mod_sctl_def)
qed

lemma accept_reads_past_poll_witness:
  "\<exists>s0. start_server [Some (4, 5)] 8 9 None = (Inr (), s0)
     \<and> fst (serve_pass (\<lambda>j. (if j = 2 then Input else Quiet, accept_connection 10 [] 1 [] None False)) 0
          (open_sockets (sctl (mod_sctl get_sockets_arr s0))) (mod_sctl get_sockets_arr s0)) = Inl Undefined"
proof -
  obtain s0 where s0: "start_server [Some (4, 5)] 8 9 None = (Inr (), s0)" "s0 = snd (start_server [Some (4, 5)] 8 9 None)"
    using two_clients_run by blast
  have "http_sock_id (sctl (mod_sctl get_sockets_arr s0)) = 2" unfolding s0(2) by code_simp
  then have "int 2 = http_sock_id (sctl (mod_sctl get_sockets_arr s0))" by simp
  from accept_reads_past_poll [OF s0(1) _ _ rtranclp.rtrancl_refl refl this] s0(1) show ?thesis by auto
qed

text \<open>
  When two clients are ready in the same pass and a third one, behind them, is not, the second worker
  is given the socket that is not ready: taking the first one out of the table moves the others up.
\<close>

theorem unready_client_dispatched:
  assumes "start_server ps stop_fd http_fd ssl_fd = (Inr (), s0)" "None \<notin> set ps" "distinct (map (snd \<circ> the) ps)"
    "server_step\<^sup>*\<^sup>* s0 s" "thread_queue (tctl s) = t1 # t2 # ts" "first_client s \<le> i" "Suc (Suc i) < get_sockets_size (sctl s)"
  shows "\<exists>s1 s2. handle_input acc1 i fd1 s = (Inr (), s1) \<and> handle_input acc2 (Suc i) fd2 s1 = (Inr (), s2)
     \<and> to_worker s2 (control_pipe t2)
         = [message_of ((generic_open_sockets (sctl s) ! Suc (Suc i))\<lparr>si_type := PROCESS_REQUEST\<rparr>)]"
proof -
  let ?g = "generic_open_sockets (sctl s)"
  have inv: "server_inv s" using start_inv [OF assms(1-3)] steps_ok [OF assms(4)] by blast
  then have lay: "layout s" and wo: "workers_ok s" by (simp_all add: server_inv_def)
  have sz: "Suc (Suc i) < length ?g" using assms(7) by (simp add: get_sockets_size_def)
  obtain s1 where s1: "handle_client i s = (Inr (), s1)" "server_inv s1"
    using handle_client_ok [OF inv assms(6)] assms(7) by auto
  have e1: "s1 = dispatch (control_pipe t1) (?g ! i) (s\<lparr>tctl := (tctl s)\<lparr>thread_queue := t2 # ts\<rparr>,
      sctl := (sctl s)\<lparr>generic_open_sockets := remove_nth i ?g\<rparr>\<rparr>)"
    using s1(1) remove_client_socket [OF lay assms(6)] sz assms(5)
    by (simp add: handle_client_def thread_pop_def on_sctl_def)
  have f1: "generic_open_sockets (sctl s1) = remove_nth i ?g" "first_client s1 = first_client s"
    "thread_queue (tctl s1) = t2 # ts" "thread_list (tctl s1) = thread_list (tctl s)"
    by (simp_all add: e1 dispatch_def Let_def send_control_message_def mod_sctl_def first_client_def)
  have lay1: "layout s1" and wo1: "workers_ok s1" using s1(2) by (simp_all add: server_inv_def)
  have sz1: "Suc i < length (generic_open_sockets (sctl s1))" using sz by (simp add: f1 length_remove_nth)
  have idle: "to_worker s1 (control_pipe t2) = []"
    using wo1 f1(3) by (auto simp: workers_ok_def chan_def)
  have fi: "first_client s1 \<le> Suc i" using assms(6) f1(2) by simp
  have nth: "generic_open_sockets (sctl s1) ! Suc i = ?g ! Suc (Suc i)"
    using sz by (simp add: f1 remove_nth_def nth_append min_def)
  have "handle_client (Suc i) s1 = (Inr (), dispatch (control_pipe t2) (?g ! Suc (Suc i)) (s1\<lparr>tctl := (tctl s1)\<lparr>thread_queue := ts\<rparr>,
      sctl := (sctl s1)\<lparr>generic_open_sockets := remove_nth (Suc i) (generic_open_sockets (sctl s1))\<rparr>\<rparr>))"
    using remove_client_socket [OF lay1 fi sz1] f1(3)
    by (simp add: handle_client_def thread_pop_def on_sctl_def nth)
  moreover have "handle_input acc1 i fd1 s = handle_client i s"
    by (rule client_index [OF lay _ assms(6)]) (use assms(7) in simp)
  moreover have "handle_input acc2 (Suc i) fd2 s1 = handle_client (Suc i) s1"
    by (rule client_index [OF lay1 _ fi]) (use sz1 in \<open>simp add: get_sockets_size_def\<close>)
  ultimately show ?thesis
    using s1(1) idle by (simp add: dispatch_def Let_def send_control_message_def mod_sctl_def)
qed

text \<open>Two workers, three clients.\<close>

definition three_clients :: "label list" where
  "three_clients = [Poll, Ready 3 (accept_connection 10 [] 1 [] None False),
     Ready 3 (accept_connection 11 [] 2 [] None False), Ready 3 (accept_connection 12 [] 3 [] None False)]"

lemma unready_client_dispatched_witness:
  "\<exists>s s1 s2 t. handle_input no_message 4 0 s = (Inr (), s1) \<and> handle_input no_message 5 0 s1 = (Inr (), s2)
     \<and> map sid (polled_clients s) = [10, 11, 12] \<and> map sid (to_worker s2 t) = [12]"
proof -
  define s0 where "s0 = snd (start_server [Some (4, 5), Some (6, 7)] 8 9 None)"
  have s0: "start_server [Some (4, 5), Some (6, 7)] 8 9 None = (Inr (), s0)"
    unfolding s0_def by (simp add: start_server_def Let_def on_sctl_def add_stop_socket_def add_http_socket_def monad_simps
        mk_socket_control_def open_socket_def)
  define s where "s = the (run_labels three_clients s0)"
  have c: "\<not> Option.is_none (run_labels three_clients s0) \<and> map sid (generic_open_sockets (sctl s)) = [5, 7, 8, 9, 10, 11, 12]
      \<and> length (thread_queue (tctl s)) = 2 \<and> first_client s = 4 \<and> sid (generic_open_sockets (sctl s) ! 6) = 12"
    unfolding s_def s0_def by code_simp
  then have s: "run_labels three_clients s0 = Some s" by (auto simp: s_def Option.is_none_def)
  from c obtain t1 t2 where q: "thread_queue (tctl s) = t1 # t2 # []" by (auto simp: length_Suc_conv numeral_2_eq_2)
  have "length (generic_open_sockets (sctl s)) = 7" using arg_cong [where f = length, OF conjunct1 [OF conjunct2 [OF c]]] by simp
  then have len: "Suc (Suc 4) < get_sockets_size (sctl s)" by (simp add: get_sockets_size_def)
  have pc: "map sid (polled_clients s) = [10, 11, 12]"
    using c by (simp add: polled_clients_def drop_map [symmetric])
  have d: "distinct (map (snd \<circ> the) [Some (4, 5), Some (6, 7 :: int)])" by simp
  from unready_client_dispatched [OF s0 _ d run_labels_steps [OF s] q _ len, of no_message 0 no_message 0] c
  obtain s1 s2 where "handle_input no_message 4 0 s = (Inr (), s1)" "handle_input no_message 5 0 s1 = (Inr (), s2)"
    "to_worker s2 (control_pipe t2) = [message_of ((generic_open_sockets (sctl s) ! 6)\<lparr>si_type := PROCESS_REQUEST\<rparr>)]"
    by (auto simp: eval_nat_numeral)
  with pc c show ?thesis by (intro exI [of _ s] exI [of _ s1] exI [of _ s2] exI [of _ "control_pipe t2"]) (simp add: message_of_def)
qed

section \<open>Stopping\<close>

text \<open>
  Without an SSL port a signal does not stop the server in an orderly way: removing the HTTP socket moves the
  index of the SSL socket from \<open>-1\<close> to \<open>-2\<close>, removing that one throws out of the loop, no worker is told
  to end, and no client is closed.
\<close>

theorem stop_without_ssl_throws:
  assumes "start_server ps stop_fd http_fd None = (Inr (), s0)" "None \<notin> set ps" "distinct (map (snd \<circ> the) ps)"
    "server_step\<^sup>*\<^sup>* s0 s" "ssl_sock_id (sctl s) = - 1"
  shows "fst (handle_stop fd s) = Inl index_error \<and> to_worker (snd (handle_stop fd s)) = to_worker s
     \<and> closed_sockets (snd (handle_stop fd s)) = closed_sockets s \<and> running (snd (handle_stop fd s)) = running s"
proof -
  have "server_inv s" using start_inv [OF assms(1-3)] steps_ok [OF assms(4)] by blast
  then have lay: "layout s" by (simp add: server_inv_def)
  have h: "http_sock_id (sctl s) = int (length (pipes s)) + 1" "nat (int (length (pipes s)) + 1) < length (generic_open_sockets (sctl s))"
    "n_msg_sockets (sctl s) = int (length (pipes s))"
    using lay by (auto simp: layout_def Let_def first_client_def pipes_def split: if_splits)
  let ?s = "snd (receive_control_message fd s)"
  have same: "sctl ?s = sctl s" "to_worker ?s = to_worker s" "closed_sockets ?s = closed_sockets s" "running ?s = running s"
    by (simp_all add: receive_control_message_def split: list.splits)
  show ?thesis
    using h assms(5) same
    by (simp add: handle_stop_def monad_simps on_sctl_def remove_socket_def get_sockets_size_def renumbered_def)
qed

lemma stop_without_ssl_throws_witness:
  "\<exists>s. start_server [Some (4, 5)] 8 9 None = (Inr (), s) \<and> fst (handle_stop 8 s) = Inl index_error"
proof -
  obtain s0 where s0: "start_server [Some (4, 5)] 8 9 None = (Inr (), s0)" "s0 = snd (start_server [Some (4, 5)] 8 9 None)"
    using two_clients_run by blast
  have "ssl_sock_id (sctl s0) = - 1" unfolding s0(2) by code_simp
  from stop_without_ssl_throws [OF s0(1) _ _ rtranclp.rtrancl_refl this] s0(1) show ?thesis by auto
qed

text \<open>Taking every other element, which is what a loop does that erases the entry it is at and goes on.\<close>

fun every_other :: "'a list \<Rightarrow> 'a list" where
  "every_other [] = []"
| "every_other [x] = [x]"
| "every_other (x # y # zs) = x # every_other zs"

lemma close_dyn_loop_every_other:
  "fst (close_dyn_loop k (xs @ ys)) = every_other ys" if "k = length xs"
  using that
proof (induction ys arbitrary: xs k rule: every_other.induct)
  case 1
  then show ?case by (simp add: close_dyn_loop.simps [of "length xs"])
next
  case (2 y)
  then show ?case by (simp add: close_dyn_loop.simps [of "length xs"] close_dyn_loop.simps [of "Suc (length xs)"] remove_nth_def)
next
  case (3 y z zs)
  have "fst (close_dyn_loop (k + 1) ((xs @ [z]) @ zs)) = every_other zs" by (rule "3.IH") (use "3.prems" in simp)
  with "3.prems" show ?case by (simp add: close_dyn_loop.simps [of "length xs"] remove_nth_def split_beta)
qed

lemma close_dyn_loop_keeps:
  "k \<le> i \<Longrightarrow> k \<le> length xs \<Longrightarrow> take k (snd (close_dyn_loop i xs)) = take k xs \<and> k \<le> length (snd (close_dyn_loop i xs))"
proof (induction i xs rule: close_dyn_loop.induct)
  case (1 i xs)
  show ?case
  proof (cases "i < length xs")
    case True
    with 1(2,3) have "k \<le> length (remove_nth i xs)" by (simp add: remove_nth_def)
    with 1 True have "take k (snd (close_dyn_loop (i + 1) (remove_nth i xs))) = take k (remove_nth i xs)
        \<and> k \<le> length (snd (close_dyn_loop (i + 1) (remove_nth i xs)))" by simp
    with True 1(2) show ?thesis by (simp add: close_dyn_loop.simps [of i] take_remove_nth split_beta)
  next
    case False
    with 1 show ?thesis by (simp add: close_dyn_loop.simps [of i])
  qed
qed

lemma fold_close [simp]:
  "closed_sockets (fold close_socket xs s) = closed_sockets s @ map sid xs" "sctl (fold close_socket xs s) = sctl s"
  "to_worker (fold close_socket xs s) = to_worker s"
  by (induction xs arbitrary: s) (simp_all add: close_socket_def)

lemma fold_exit:
  "distinct ps \<Longrightarrow> to_worker (fold (\<lambda>p. send_control_message p (exit_message p)) ps s) q
     = to_worker s q @ (if q \<in> set ps then [exit_message q] else [])"
  "closed_sockets (fold (\<lambda>p. send_control_message p (exit_message p)) ps s) = closed_sockets s"
  by (induction ps arbitrary: s) (auto simp: send_control_message_def message_of_def exit_message_def mk_socket_info_def)

text \<open>
  With an SSL port, stopping tells every worker to end, but closes only every other polled client,
  and none of those that wait for a worker.
\<close>

theorem stop_closes_every_other:
  assumes "start_server ps stop_fd http_fd (Some ssl_fd) = (Inr (), s0)" "None \<notin> set ps" "distinct (map (snd \<circ> the) ps)"
    "server_step\<^sup>*\<^sup>* s0 s" "ssl_sock_id (sctl s) \<noteq> - 1"
  shows "\<exists>s'. handle_stop fd s = (Inr (), s') \<and> \<not> running s'
     \<and> closed_sockets s' = closed_sockets s @ map sid (every_other (polled_clients s) @ working_sockets (sctl s))
     \<and> (\<forall>p \<in> set (pipes s). to_worker s' p = to_worker s p @ [exit_message p])"
proof -
  have "server_inv s" using start_inv [OF assms(1-3)] steps_ok [OF assms(4)] by blast
  then have lay: "layout s" and wo: "workers_ok s" by (simp_all add: server_inv_def)
  let ?g = "generic_open_sockets (sctl s)" and ?n = "length (pipes s)"
  have h: "http_sock_id (sctl s) = int ?n + 1" "ssl_sock_id (sctl s) = int ?n + 2" "n_msg_sockets (sctl s) = int ?n"
    "first_client s = ?n + 3" "?n + 3 \<le> length ?g" "take ?n (map sid ?g) = pipes s"
    "dyn_socket_base (sctl s) = int ?n + 3 \<or> dyn_socket_base (sctl s) = - 1 \<and> length ?g = ?n + 3"
    using lay assms(5) by (auto simp: layout_def Let_def first_client_def pipes_def split: if_splits)
  obtain a b c ds where g: "?g = a @ [b, c] @ ds" and a: "length a = ?n + 1"
  proof -
    have "?g = take (?n + 1) ?g @ drop (?n + 1) ?g" by simp
    moreover have "drop (?n + 1) ?g = [?g ! (?n + 1), ?g ! (?n + 2)] @ drop (?n + 3) ?g"
      using h(5) by (simp add: Cons_nth_drop_Suc eval_nat_numeral)
    ultimately show ?thesis using that [of "take (?n + 1) ?g"] h(5) by (metis (no_types, lifting) append.assoc length_take min_absorb2 add_leD1 le_trans nat_add_left_cancel_le one_le_numeral)
  qed
  have ds: "polled_clients s = ds" using g a h(4) by (simp add: polled_clients_def)
  define s1 where "s1 = snd (receive_control_message fd s)"
  have same: "sctl s1 = sctl s" "to_worker s1 = to_worker s" "closed_sockets s1 = closed_sockets s"
    by (simp_all add: s1_def receive_control_message_def split: list.splits)
  define sc1 where "sc1 = (sctl s)\<lparr>generic_open_sockets := a @ c # ds, http_sock_id := - 1,
      ssl_sock_id := int ?n + 1, dyn_socket_base := dyn_socket_base (sctl s) - 1\<rparr>"
  define sc2 where "sc2 = sc1\<lparr>generic_open_sockets := a @ ds, ssl_sock_id := - 1, dyn_socket_base := dyn_socket_base (sctl s) - 2\<rparr>"
  have nat: "nat (int ?n + 1) = ?n + 1" by simp
  have r1: "remove_socket (int ?n + 1) (sctl s) = (Inr b, sc1)"
    using g a h by (simp add: remove_socket_def monad_simps get_sockets_size_def renumbered_def nat sc1_def remove_nth_def nth_append)
  have r2: "remove_socket (int ?n + 1) sc1 = (Inr c, sc2)"
    using a h by (simp add: remove_socket_def monad_simps get_sockets_size_def renumbered_def nat sc1_def sc2_def remove_nth_def nth_append)
  define s2 where "s2 = s1\<lparr>sctl := sc2\<rparr>"
  define s3 where "s3 = snd (close_clients s2)"
  have cl: "close_clients s2 = (Inr (), s3)" "closed_sockets s3 = closed_sockets s @ map sid (every_other ds)"
    "to_worker s3 = to_worker s" "working_sockets (sctl s3) = working_sockets (sctl s)"
    "n_msg_sockets (sctl s3) = int ?n"
    "take (?n + 1) (generic_open_sockets (sctl s3)) = a" "?n + 1 \<le> length (generic_open_sockets (sctl s3))"
  proof -
    obtain cs sc where c: "close_all_dynsocks sc2 = (cs, sc)" by (cases "close_all_dynsocks sc2")
    have "cs = every_other ds \<and> working_sockets sc = working_sockets (sctl s) \<and> n_msg_sockets sc = int ?n
        \<and> take (?n + 1) (generic_open_sockets sc) = a \<and> ?n + 1 \<le> length (generic_open_sockets sc)"
    proof (cases "dyn_socket_base (sctl s) = - 1")
      case True
      with h(7) g a have "ds = []" by simp
      with True c a h(3) show ?thesis by (auto simp: close_all_dynsocks_def sc2_def sc1_def)
    next
      case False
      with h(7) have "dyn_socket_base sc2 = int (?n + 1)" by (simp add: sc2_def)
      then have "close_all_dynsocks sc2 = (fst (close_dyn_loop (?n + 1) (a @ ds)),
          sc2\<lparr>generic_open_sockets := snd (close_dyn_loop (?n + 1) (a @ ds))\<rparr>)"
        by (simp only: close_all_dynsocks_def nat_int split_beta) (simp add: sc2_def sc1_def)
      with c a h(3) close_dyn_loop_every_other [of "?n + 1" a ds] close_dyn_loop_keeps [of "?n + 1" "?n + 1" "a @ ds"]
      show ?thesis by (auto simp: sc2_def sc1_def)
    qed
    with c same show "close_clients s2 = (Inr (), s3)" "closed_sockets s3 = closed_sockets s @ map sid (every_other ds)"
      "to_worker s3 = to_worker s" "working_sockets (sctl s3) = working_sockets (sctl s)"
      "n_msg_sockets (sctl s3) = int ?n"
      "take (?n + 1) (generic_open_sockets (sctl s3)) = a" "?n + 1 \<le> length (generic_open_sockets (sctl s3))"
      by (simp_all add: s3_def close_clients_def s2_def)
  qed
  have "take ?n (generic_open_sockets (sctl s3)) = take ?n a"
    using cl(6) by (metis min.absorb1 take_take le_add1)
  then have "map sid (take ?n (generic_open_sockets (sctl s3))) = pipes s"
    using h(6) g a by (simp add: take_map)
  then have ep: "exit_pipes (sctl s3) = Inr (pipes s)" using cl(5,7) by (simp add: exit_pipes_def get_sockets_size_def)
  define s4 where "s4 = snd (broadcast_exit s3)"
  have b: "broadcast_exit s3 = (Inr (), s4)" "closed_sockets s4 = closed_sockets s3 @ map sid (working_sockets (sctl s3))"
    "\<And>p. p \<in> set (pipes s) \<Longrightarrow> to_worker s4 p = to_worker s3 p @ [exit_message p]"
    using ep wo by (simp_all add: s4_def broadcast_exit_def Let_def fold_exit workers_ok_def)
  have "handle_stop fd s = (Inr (), s4\<lparr>running := False\<rparr>)"
    using r1 r2 h(1) same(1) cl(1) b(1)
    by (simp add: handle_stop_def monad_simps s1_def [symmetric] on_sctl_def sc1_def [THEN arg_cong [where f = ssl_sock_id]] s2_def)
  with b cl(2-4) ds show ?thesis by (intro exI [of _ "s4\<lparr>running := False\<rparr>"]) simp
qed

lemma stop_closes_every_other_witness:
  "\<exists>s s'. map sid (polled_clients s) = [10, 11, 12] \<and> handle_stop 6 s = (Inr (), s') \<and> closed_sockets s' = [10, 12]"
proof -
  let ?ls = "[Poll, Ready 2 (accept_connection 10 [] 1 [] None False), Ready 2 (accept_connection 11 [] 2 [] None False),
     Ready 3 (accept_connection 12 [] 3 [] (Some 1) True)]"
  define s0 where "s0 = snd (start_server [Some (4, 5)] 8 9 (Some 10))"
  have s0: "start_server [Some (4, 5)] 8 9 (Some 10) = (Inr (), s0)"
    unfolding s0_def by (simp add: start_server_def Let_def on_sctl_def add_stop_socket_def add_http_socket_def
        add_ssl_socket_def monad_simps mk_socket_control_def open_socket_def)
  define s where "s = the (run_labels ?ls s0)"
  have c: "\<not> Option.is_none (run_labels ?ls s0) \<and> map sid (every_other (polled_clients s)) = [10, 12]
      \<and> map sid (polled_clients s) = [10, 11, 12] \<and> working_sockets (sctl s) = [] \<and> closed_sockets s = []
      \<and> ssl_sock_id (sctl s) = 3"
    unfolding s_def s0_def by code_simp
  then have s: "run_labels ?ls s0 = Some s" "ssl_sock_id (sctl s) \<noteq> - 1" by (auto simp: s_def Option.is_none_def)
  obtain s' where "handle_stop 6 s = (Inr (), s')"
      "closed_sockets s' = closed_sockets s @ map sid (every_other (polled_clients s) @ working_sockets (sctl s))"
    using stop_closes_every_other [OF s0 _ _ run_labels_steps [OF s(1)] s(2), of 6] by auto
  with c show ?thesis by (intro exI [of _ s] exI [of _ s']) simp
qed

end
