(* ===== verification/Handlers.thy ===== *)
theory Handlers
  imports Scripts
begin

text \<open>
  The request handlers that are not about images: files (\<open>FileHandler.cpp\<close>) and the small ones
  (\<open>DefaultHandler.cpp\<close>, \<open>PingHandler.cpp\<close>, \<open>TestHandler.cpp\<close>).
\<close>

section \<open>FileHandler\<close>

definition route_stripped :: "string \<Rightarrow> string \<Rightarrow> string" where
  "route_stripped route u =
     (if take (length route) u = route then
        (let u1 = drop (length route) u
         in if u1 = [] \<or> hd u1 \<noteq> CHR ''/'' then CHR ''/'' # u1 else u1)
      else u)"

text \<open>
  A directory is replaced by its index: four names are tried one after the other, each on the path as
  the ones before it have left it.
\<close>

definition try_index :: "file_system \<Rightarrow> string \<Rightarrow> string \<Rightarrow> string" where
  "try_index fs path name = (if fs_access fs (path_append path name) then path_append path name else path)"

definition with_index :: "file_system \<Rightarrow> string \<Rightarrow> string" where
  "with_index fs path =
     (if path_filename path = [] then
        foldl (try_index fs) path [''index.html'', ''index.htm'', ''index.elua'', ''index.lua'']
      else path)"

text \<open>The extension is that of the URI, not of the path.\<close>

definition uri_extension :: "string \<Rightarrow> string" where
  "uri_extension u = (case rfind_char (CHR ''.'') u of None \<Rightarrow> [] | Some k \<Rightarrow> drop (k + 1) u)"

definition text_file :: "file_system \<Rightarrow> string \<Rightarrow> string \<Rightarrow> (connection, unit) act" where
  "text_file fs mime path = sseq [header_set ''Content-Type'' mime, sendFile (fs_data fs) path 8192 0 0]"

definition invalid_range :: exn where
  "invalid_range = CsError ''Range expression invalid!''"

definition file_range_of :: "string \<Rightarrow> nat \<Rightarrow> exn + int \<times> int" where
  "file_range_of rng fsize =
     (case match_range rng of
        None \<Rightarrow> Inl invalid_range
      | Some (ds, es) \<Rightarrow>
          (case stoi ds of
             Inl e \<Rightarrow> Inl e
           | Inr start \<Rightarrow>
               if es = [] then Inr (start, int fsize - 1)
               else (case stoi es of Inl e \<Rightarrow> Inl e | Inr end_p \<Rightarrow> Inr (start, end_p))))"

definition file_headers :: "string \<Rightarrow> (connection, unit) act" where
  "file_headers mime = sseq
     [header_set ''Content-Type'' mime,
      header_set ''Cache-Control'' ''public, must-revalidate, max-age=0'',
      header_set ''Pragma'' ''no-cache'',
      header_set ''Accept-Ranges'' ''bytes'']"

definition send_whole_file :: "file_system \<Rightarrow> string \<Rightarrow> string \<Rightarrow> (connection, unit) act" where
  "send_whole_file fs mime path = sseq
     [file_headers mime,
      header_set ''Content-Length'' (dec_string (length (contents fs path))),
      header_set ''Last-Modified'' (fs_mtime fs path),
      binary_header,
      sendFile (fs_data fs) path 8192 0 0]"

definition send_file_part :: "file_system \<Rightarrow> string \<Rightarrow> string \<Rightarrow> int \<Rightarrow> int \<Rightarrow> (connection, unit) act" where
  "send_file_part fs mime path start end_p = sseq
     [smod (status PARTIAL_CONTENT []),
      file_headers mime,
      header_set ''Content-Length'' (int_string (end_p - start + 1)),
      header_set ''Content-Length'' (int_string (end_p - start + 1)),
      header_set ''Content-Range''
        (''bytes '' @ int_string start @ ''-'' @ int_string end_p @ ''/'' @ dec_string (length (contents fs path))),
      header_set ''Content-Disposition'' (''inline; filename='' @ path),
      binary_header,
      header_set ''Last-Modified'' (fs_mtime fs path),
      sendFile (fs_data fs) path 8192 start end_p]"

definition other_file :: "file_system \<Rightarrow> string \<Rightarrow> (connection, unit) act" where
  "other_file fs path =
     (case getBestFileMimetype (fs_magic fs) path of
        Inl e \<Rightarrow> sthrow e
      | Inr mime \<Rightarrow>
          (case fs_mode fs path of
             None \<Rightarrow> sthrow (CsError ''Cannot fstat file!'')
           | Some _ \<Rightarrow> sseq
               [sbind (\<lambda>c. case header_get ''range'' c of (v, c1) \<Rightarrow> (Inr v, c1)) (\<lambda>rng.
                  if rng = [] then send_whole_file fs mime path
                  else (case file_range_of rng (length (contents fs path)) of
                      Inl e \<Rightarrow> sthrow e
                    | Inr (start, end_p) \<Rightarrow> send_file_part fs mime path start end_p)),
                flush]))"

definition file_error :: "string \<Rightarrow> (connection, unit) act" where
  "file_error msg = scatch (sseq
     [setBuffer, smod (status INTERNAL_SERVER_ERROR []),
      header_set ''Content-Type'' ''text/text; charset=utf-8'', put_string msg, flush]) ignore_input_failure"

definition catch_file_error :: "(connection, unit) act \<Rightarrow> (connection, unit) act" where
  "catch_file_error m = scatch m (\<lambda>e. case e of
       InputFailure _ \<Rightarrow> Some (sret ())
     | CsError msg \<Rightarrow> Some (file_error msg)
     | _ \<Rightarrow> None)"

definition deliver_file :: "file_system \<Rightarrow> lua_run \<Rightarrow> string \<Rightarrow> string \<Rightarrow> string \<Rightarrow> (connection, unit) act" where
  "deliver_file fs exec extension mime path = catch_file_error
     (if extension = ''html'' \<and> mime = ''text/html'' then text_file fs ''text/html; charset=utf-8'' path
      else if extension = ''js'' then text_file fs ''application/javascript; charset=utf-8'' path
      else if extension = ''css'' then text_file fs ''text/css; charset=utf-8'' path
      else if extension = ''lua'' then
        sseq [setBuffer, lua_file exec ''Filehandler Lua Error:'' (contents fs path) path]
      else if extension = ''elua'' then
        sseq [setBuffer,
              elua_page (\<lambda>code. run_chunk (exec code path) (script_failed ''Lua Error:''))
                (header_set ''Content-Type'' ''text/html; charset=utf-8'') (contents fs path)]
      else other_file fs path)"

definition file_handler :: "string \<Rightarrow> file_system \<Rightarrow> lua_run \<Rightarrow> string \<Rightarrow> (connection, unit) act" where
  "file_handler docroot fs exec route = swith uri (\<lambda>u0.
     if docroot = [] then
       send_error INTERNAL_SERVER_ERROR ''Error in FileHandler: FileHandler request data missing.''
     else
       let u = route_stripped route u0; path = with_index fs (docroot @ u) in
       if \<not> fs_access fs path then send_error NOT_FOUND (''File not found: '' @ apostrophes path)
       else (case fs_mode fs path of
           None \<Rightarrow> send_error NOT_FOUND (''Could not stat file: '' @ apostrophes path)
         | Some mode \<Rightarrow>
             if \<not> is_regular mode then send_error NOT_FOUND (apostrophes path @ '' not a regular file.'')
             else (case getFileMimetype (fs_magic fs) path of
                 Inl e \<Rightarrow> sthrow e
               | Inr (mime, _) \<Rightarrow> deliver_file fs exec (uri_extension u) mime path)))"

section \<open>The small handlers\<close>

definition default_handler :: "(connection, unit) act" where
  "default_handler = sseq
     [smod (status NOT_FOUND []), header_set ''Content-Type'' ''text/text'', setBuffer,
      scatch (sseq [put_string ''No handler available'', put_command flush_data]) ignore_input_failure]"

definition ping_handler :: "string \<Rightarrow> (connection, unit) act" where
  "ping_handler echo = scatch (sseq
     [header_set ''Content-Type'' ''text/text; charset=utf-8'', setBuffer, put_string echo, put_command flush_data])
     ignore_input_failure"

definition test_handler :: "string \<Rightarrow> string \<Rightarrow> (connection, unit) act" where
  "test_handler version message = sseq
     [setBuffer, setChunkedTransfer, header_set ''Content-Type'' ''text/html; charset=utf-8'',
      put_string ''<html><head>'', put_string ''<title>OMAS CSERVE V'', put_string version, put_string ''</title>'',
      put_string ''</head>'', put_command flush_data, put_string ''<body><h1>OMAS CSERVE V'', put_string version,
      put_string ''</h1>'', put_string ''<p>'', put_string message, put_string ''</p>'',
      put_string ''</body></html>'', put_command flush_data]"

end
