(* ===== verification/Dispatch.thy ===== *)
theory Dispatch
  imports ServerLoop Handlers Request "HOL-Library.List_Lexorder" "HOL-Library.Char_ord"
begin

text \<open>
  The life of one request in \<open>lib/Cserve.cpp\<close>: the table of routes (\<open>addRoute\<close>), the choice of the handler
  (\<open>get_handler\<close>) and \<open>processRequest\<close>, which reads the request, runs the handler and says whether the connection goes
  on. A handler is the action it performs on the connection, given the route that was matched.
\<close>

section \<open>Request methods\<close>

text \<open>The number of a method in the enumeration, by which the table of routes is indexed.\<close>

fun method_index :: "http_methods \<Rightarrow> nat" where
  "method_index OPTIONS = 0"
| "method_index GET = 1"
| "method_index HEAD = 2"
| "method_index POST = 3"
| "method_index PUT = 4"
| "method_index DELETE = 5"
| "method_index TRACE = 6"
| "method_index CONNECT = 7"
| "method_index OTHER = 8"

definition num_http_methods :: nat where "num_http_methods = 9"

lemma method_index_inject: "method_index m = method_index n \<longleftrightarrow> m = n"
  by (cases m; cases n) simp_all

lemma method_index_less: "method_index m < num_http_methods"
  by (cases m) (simp_all add: num_http_methods_def)

instantiation http_methods :: linorder
begin

definition less_eq_http_methods :: "http_methods \<Rightarrow> http_methods \<Rightarrow> bool" where
  "m \<le> n \<longleftrightarrow> method_index m \<le> method_index n"

definition less_http_methods :: "http_methods \<Rightarrow> http_methods \<Rightarrow> bool" where
  "m < n \<longleftrightarrow> method_index m < method_index n"

instance
  by standard (auto simp: less_eq_http_methods_def less_http_methods_def method_index_inject)

end

section \<open>Routes\<close>

text \<open>
  A handler acts on the connection and on what outlives the request, of any type \<open>'w\<close> (the cache of the IIIF handler);
  the handlers that have nothing of that kind are lifted.
\<close>

type_synonym 'w handler_act = "string \<Rightarrow> (connection \<times> 'w, unit) act"

definition on_connection :: "(connection, 'a) act \<Rightarrow> (connection \<times> 'w, 'a) act" where
  "on_connection m cw = (case m (fst cw) of (r, c) \<Rightarrow> (r, c, snd cw))"

text \<open>
  A \<open>std::map\<close> from routes: an association list that is sorted by the key. \<open>map_put\<close> is \<open>m[key] = value\<close>.
\<close>

fun map_put :: "'k::linorder \<Rightarrow> 'v \<Rightarrow> ('k \<times> 'v) list \<Rightarrow> ('k \<times> 'v) list" where
  "map_put k v [] = [(k, v)]"
| "map_put k v ((j, w) # m) =
     (if k < j then (k, v) # (j, w) # m
      else if k = j then (k, v) # m
      else (j, w) # map_put k v m)"

record 'w http_server =
  srv_tmpdir :: string
  srv_keep_alive :: int
  srv_handlers :: "(string \<times> 'w handler_act) list list"
  srv_default :: "'w handler_act"
  srv_jwt_secret :: string

definition handlers_of :: "'w http_server \<Rightarrow> http_methods \<Rightarrow> (string \<times> 'w handler_act) list" where
  "handlers_of srv m = srv_handlers srv ! method_index m"

definition addRoute :: "http_methods \<Rightarrow> string \<Rightarrow> 'w handler_act \<Rightarrow> 'w http_server \<Rightarrow> 'w http_server" where
  "addRoute m path h srv =
     srv\<lparr>srv_handlers := (srv_handlers srv)[method_index m := map_put path h (handlers_of srv m)]\<rparr>"

text \<open>
  The loop over the routes of the method: the longest one that the URI starts with. What is kept is the
  length of the best match so far and the match.
\<close>

fun match_loop :: "string \<Rightarrow> (string \<times> 'h) list \<Rightarrow> nat \<Rightarrow> (string \<times> 'h) option \<Rightarrow> nat \<times> (string \<times> 'h) option" where
  "match_loop u [] max_match_len best = (max_match_len, best)"
| "match_loop u ((route, h) # rs) max_match_len best =
     (let len = (if length u < length route then length u else length route) in
      if route = take len u \<and> len > max_match_len then match_loop u rs len (Some (route, h))
      else match_loop u rs max_match_len best)"

definition get_handler :: "'w http_server \<Rightarrow> connection \<Rightarrow> 'w handler_act \<times> string" where
  "get_handler srv c =
     (case match_loop (uri c) (handlers_of srv (http_method c)) 0 None of
        (n, Some (route, h)) \<Rightarrow> if n > 0 then (h, route) else (srv_default srv, [])
      | (n, None) \<Rightarrow> (srv_default srv, []))"

section \<open>The secret of the tokens\<close>

text \<open>
  A secret of less than 32 bytes is filled up with letters. The loop compares its counter with what is
  missing.
\<close>

definition jwt_secret :: "string \<Rightarrow> 'w http_server \<Rightarrow> 'w http_server" where
  "jwt_secret s srv = srv\<lparr>srv_jwt_secret :=
     (if length s < 32 then s @ map (\<lambda>i. code_chr (65 + i)) [0..<32 - length s] else s)\<rparr>"

section \<open>One request\<close>

text \<open>
  What a request needs of the world: the files for uploads and their removal, the order in which a map is walked through, the
  text of an \<open>Error\<close> with its message (\<open>operator<<\<close> adds the place in the source), and what the Lua interpreter does when it is set
  up (its initial script and the global functions), which may write to the connection or throw.
\<close>

record 'w serve_env =
  re_uploads :: upload_env
  re_iter :: "(string \<rightharpoonup> string) \<Rightarrow> (string \<times> string) list"
  re_remove :: "string \<Rightarrow> bool"
  re_error_text :: "string \<Rightarrow> string"
  re_lua_setup :: "(connection \<times> 'w, unit) act"

definition next_status :: "connection \<Rightarrow> thread_status" where
  "next_status c = (if keep_alive c then T_CONTINUE else T_CLOSE)"

text \<open>
  The inner \<open>try\<close> block and what follows it: a client that has gone away closes the connection, and leaves the uploaded files;
  otherwise they are removed, and a failure of that is only logged.
\<close>

definition run_handler :: "'w http_server \<Rightarrow> 'w serve_env \<Rightarrow> (connection \<times> 'w, thread_status) act" where
  "run_handler srv ev =
     scatch
       (swith (\<lambda>cw. get_handler srv (fst cw)) (\<lambda>(h, route). sbind (h route) (\<lambda>_.
          swith (\<lambda>cw. cleanupUploads (re_remove ev) (fst cw)) (\<lambda>_. sget (\<lambda>cw. next_status (fst cw))))))
       (\<lambda>e. case e of InputFailure _ \<Rightarrow> Some (sret T_CLOSE) | _ \<Rightarrow> None)"

text \<open>
  From the constructor of the connection to the end of its life. A connection that asks to be reset is
  done at once.
\<close>

definition set_peer :: "string \<Rightarrow> int \<Rightarrow> bool \<Rightarrow> connection \<Rightarrow> connection" where
  "set_peer peer port sec c = c\<lparr>peer_ip := peer, peer_port := port, secure := sec\<rparr>"

definition keep_alive_setup :: "'w http_server \<Rightarrow> int \<Rightarrow> connection \<Rightarrow> int \<times> connection" where
  "keep_alive_setup srv ka c =
     setupKeepAlive (srv_keep_alive srv) (if ka \<le> 0 then c\<lparr>keep_alive := False\<rparr> else c)"

definition with_connection :: "'w http_server \<Rightarrow> 'w serve_env \<Rightarrow> (connection \<times> 'w, thread_status) act" where
  "with_connection srv ev =
     sif (\<lambda>cw. reset_connection (fst cw))
       (sget (\<lambda>cw. next_status (fst cw)))
       (sbind (re_lua_setup ev) (\<lambda>_. run_handler srv ev))"

text \<open>
  The answer that \<open>processRequest\<close> writes itself, to the stream, when an \<open>Error\<close> comes out.
\<close>

definition internal_error :: "string \<Rightarrow> ostream \<Rightarrow> ostream" where
  "internal_error txt q =
     os_write txt (os_write (''Content-Length: '' @ dec_string (length txt) @ CRLF @ CRLF)
       (os_write (''Content-Type: text/plain'' @ CRLF)
         (os_write (''HTTP/1.1 500 INTERNAL_SERVER_ERROR'' @ CRLF) q)))"

text \<open>
  The destructor of the connection runs before the handlers of the \<open>catch\<close> clauses; when the constructor
  throws, it does not run, and the streams are as the constructor left them. The result is the status or the
  exception that nobody catches, the new \<open>keep_alive\<close>, the two streams and what outlives the request.
\<close>

definition after_exception :: "'w serve_env \<Rightarrow> exn \<Rightarrow> ostream \<Rightarrow> (exn + thread_status) \<times> ostream" where
  "after_exception ev e q =
     (case e of
        InputFailure _ \<Rightarrow> (Inr T_CLOSE, q)
      | CsError msg \<Rightarrow> (Inr T_CLOSE, internal_error (re_error_text ev msg) q)
      | LuaError msg \<Rightarrow> (Inr T_CLOSE, internal_error (re_error_text ev msg) q)
      | _ \<Rightarrow> (Inl e, q))"

definition end_of_request ::
  "'w serve_env \<Rightarrow> exn + thread_status \<Rightarrow> ostream \<Rightarrow> (exn + thread_status) \<times> ostream" where
  "end_of_request ev r q = (case r of Inr st \<Rightarrow> (Inr st, q) | Inl e \<Rightarrow> after_exception ev e q)"

definition processRequest ::
  "'w http_server \<Rightarrow> 'w serve_env \<Rightarrow> istream \<Rightarrow> ostream \<Rightarrow> string \<Rightarrow> int \<Rightarrow> bool \<Rightarrow> int \<Rightarrow> 'w
    \<Rightarrow> (exn + thread_status) \<times> int \<times> istream \<times> ostream \<times> 'w" where
  "processRequest srv ev i q peer port sec ka w =
     (if srv_tmpdir srv = [] then (Inl (CsError ''_tmpdir is empty''), ka, i, q, w)
      else if eofbit i then (Inr T_CLOSE, ka, i, q, w)
      else (case new_connection (re_uploads ev) i q 0 8192 (re_iter ev) of
          (Inl e, c) \<Rightarrow> (case after_exception ev e (os c) of (r, q1) \<Rightarrow> (r, ka, ins c, q1, w))
        | (Inr _, c) \<Rightarrow>
            (case keep_alive_setup srv ka c of (ka1, c1) \<Rightarrow>
            (case with_connection srv ev (set_peer peer port sec c1, w) of (r, c2, w1) \<Rightarrow>
            (case end_of_request ev r (os (connection_destroy c2)) of (r1, q1) \<Rightarrow>
               (r1, ka1, ins c2, q1, w1))))))"

end
