(* ===== verification/HandlerProps.thy ===== *)
theory HandlerProps
  imports Handlers ConnSend
begin

text \<open>
  Properties of the file and script handlers: what a client gets for a file and for a part of it, the order in
  which a page with scripts is worked through, and the requests whose exceptions leave the handler.
\<close>

section \<open>Pages with scripts\<close>

text \<open>
  A search for a pattern whose first character does not occur again in it: behind text without the pattern it is
  found where it stands.
\<close>

lemma find_sub_append:
  assumes "h \<notin> set p"
  shows "find_sub (h # p) t = None \<Longrightarrow> find_sub (h # p) (t @ h # p @ r) = Some (length t)"
proof (induction t)
  case (Cons c cs)
  let ?n = "Suc (length p)"
  have no: "take ?n (c # cs) \<noteq> h # p" and tl: "find_sub (h # p) cs = None"
    using Cons.prems by (auto split: if_splits)
  have "take ?n ((c # cs) @ h # p @ r) \<noteq> h # p"
  proof
    assume eq: "take ?n ((c # cs) @ h # p @ r) = h # p"
    show False
    proof (cases "?n \<le> length (c # cs)")
      case True
      with eq no show False by simp
    next
      case False
      then have "take ?n ((c # cs) @ h # p @ r) ! Suc (length cs) = h" by (simp add: nth_append)
      with eq False have "h = p ! length cs" "length cs < length p" by auto
      with assms show False by auto
    qed
  qed
  with Cons.IH [OF tl] show ?case by simp
qed simp

lemma find_open: "find_sub open_tag t = None \<Longrightarrow> find_sub open_tag (t @ open_tag @ r) = Some (length t)"
  unfolding open_tag_def using find_sub_append [of "CHR 0x3C" "''lua>''" t r] by simp

lemma find_close: "find_sub close_tag t = None \<Longrightarrow> find_sub close_tag (t @ close_tag @ r) = Some (length t)"
  unfolding close_tag_def using find_sub_append [of "CHR 0x3C" "''/lua>''" t r] by simp

definition page_text :: "(string \<times> string) list \<Rightarrow> string \<Rightarrow> string" where
  "page_text ps tail = concat (map (\<lambda>(t, s). t @ open_tag @ s @ close_tag) ps) @ tail"

definition text_piece :: "string \<Rightarrow> (connection, unit) act" where
  "text_piece t = (if t \<noteq> [] then put_string t else sret ())"

fun page_program ::
  "(string \<Rightarrow> (connection, bool) act) \<Rightarrow> (connection, unit) act \<Rightarrow> (string \<times> string) list \<Rightarrow> string \<Rightarrow> (connection, unit) act" where
  "page_program run headers [] tail = sseq [headers, put_string tail, flush]"
| "page_program run headers ((t, s) # ps) tail =
     sbind (text_piece t) (\<lambda>_. sbind (run s) (\<lambda>go. if go then page_program run headers ps tail else sret ()))"

lemma page_text_Cons: "page_text ((t, s) # ps) tail = t @ open_tag @ s @ close_tag @ page_text ps tail"
  by (simp add: page_text_def)

lemma take_text: "take (length t) (t @ r) = (t :: string)"
  by simp

lemma elua_step:
  assumes "find_sub open_tag t = None" and "find_sub close_tag s = None"
  shows "elua_loop run (t @ open_tag @ s @ close_tag @ page) =
    sbind (text_piece t) (\<lambda>_. sbind (run s) (\<lambda>go. if go then elua_loop run page else sret None))"
proof
  fix c
  have d: "drop (length t + 5) (t @ open_tag @ x) = x" for x by (simp add: open_tag_def)
  have e: "drop (length s + 6) (s @ close_tag @ page) = page" by (simp add: close_tag_def)
  show "elua_loop run (t @ open_tag @ s @ close_tag @ page) c =
    sbind (text_piece t) (\<lambda>_. sbind (run s) (\<lambda>go. if go then elua_loop run page else sret None)) c"
    by (subst elua_loop.simps)
      (simp only: find_open [OF assms(1)] option.case Let_def d e find_close [OF assms(2)] take_text text_piece_def [symmetric],
       simp add: sbind_def sret_def split: prod.split sum.split)
qed

lemma elua_last: "find_sub open_tag tail = None \<Longrightarrow> elua_loop run tail = sret (Some (Some tail))"
  by (rule ext) (simp add: elua_loop.simps sret_def)

lemma elua_unclosed:
  assumes "find_sub open_tag t = None" and "find_sub close_tag s = None"
  shows "elua_loop run (t @ open_tag @ s) =
    sbind (text_piece t) (\<lambda>_. sbind (run s) (\<lambda>go. sret (if go then Some None else None)))"
proof
  fix c
  have d: "drop (length t + 5) (t @ open_tag @ s) = s" by (simp add: open_tag_def)
  show "elua_loop run (t @ open_tag @ s) c =
    sbind (text_piece t) (\<lambda>_. sbind (run s) (\<lambda>go. sret (if go then Some None else None))) c"
    by (subst elua_loop.simps)
      (simp only: find_open [OF assms(1)] option.case Let_def d assms(2) take_text text_piece_def [symmetric],
       simp add: sbind_def sret_def split: prod.split sum.split)
qed

lemma sbind_assoc: "sbind (sbind m f) g = sbind m (\<lambda>x. sbind (f x) g)"
  by (rule ext) (simp add: sbind_def split: prod.split sum.split)

lemma sbind_sret [simp]: "sbind (sret x) f = f x"
  by (rule ext) (simp add: sbind_def sret_def)

lemma elua_page_runs:
  assumes "\<forall>(t, s) \<in> set ps. find_sub open_tag t = None \<and> find_sub close_tag s = None"
    and "find_sub open_tag tail = None"
  shows "elua_page run headers (page_text ps tail) = page_program run headers ps tail"
  using assms
proof (induction ps)
  case Nil
  then show ?case by (simp add: page_text_def elua_page_def elua_last)
next
  case (Cons p ps)
  obtain t s where p: "p = (t, s)" by (cases p)
  have "elua_page run headers (page_text ps tail) = page_program run headers ps tail"
    using Cons by simp
  then have "sbind (if go then elua_loop run (page_text ps tail) else sret None)
      (\<lambda>r. case r of None \<Rightarrow> sret () | Some e \<Rightarrow> sseq [headers,
         (case e of None \<Rightarrow> sthrow StdOutOfRange | Some tail \<Rightarrow> put_string tail), flush])
    = (if go then page_program run headers ps tail else sret ())" for go
    by (simp add: elua_page_def)
  with Cons.prems p show ?case
    by (simp add: page_text_Cons elua_page_def elua_step sbind_assoc)
qed

section \<open>Files\<close>

lemma sendFile_whole:
  assumes "sound c" and "outbuf c = None" and "\<not> chunked_transfer_out c" and "\<not> finished c" and "\<not> header_sent c"
    and "fs path = Some data" and "length data < 2 ^ 63" and "0 < bufsize"
  shows "sendFile fs path bufsize 0 0 c =
    (Inr (), emit data ((emit (header_bytes (length data) c) c)\<lparr>header_sent := True\<rparr>))"
proof -
  have "file_range (int (length data)) 0 0 = Inr (0, int (length data))" by (simp add: file_range_def)
  moreover have "to_size_t (int (length data)) = length data" using assms by (intro to_size_t_int) simp
  ultimately show ?thesis
    using assms by (simp add: sendFile_def act_defs send_header_ok file_loop_plain)
qed

lemma sendFile_part:
  assumes "sound c" and "outbuf c = None" and "\<not> chunked_transfer_out c" and "\<not> finished c" and "\<not> header_sent c"
    and "fs path = Some data" and "length data < 2 ^ 63" and "0 < bufsize" and "a \<le> z" and "0 < z" and "z < length data"
  shows "sendFile fs path bufsize (int a) (int z) c =
    (Inr (), emit (take (z - a + 1) (drop a data)) ((emit (header_bytes (z - a + 1) c) c)\<lparr>header_sent := True\<rparr>))"
proof -
  have r: "file_range (int (length data)) (int a) (int z) = Inr (a, int (z - a + 1))"
    using assms by (auto simp: file_range_def)
  have n: "to_size_t (int (z - a + 1)) = z - a + 1"
    using assms by (intro to_size_t_int) simp
  have len: "\<not> length (drop a data) < z - a + 1" using assms by simp
  show ?thesis
    using assms r n len
    by (simp add: sendFile_def act_defs send_header_ok file_loop_plain del: int_ops of_nat_Suc of_nat_diff)
qed


text \<open>The file a request is for: it can be read and is a regular one.\<close>

definition file_request :: "string \<Rightarrow> file_system \<Rightarrow> string \<Rightarrow> connection \<Rightarrow> string \<Rightarrow> bool" where
  "file_request docroot fs route c path \<longleftrightarrow>
     docroot \<noteq> [] \<and> path = with_index fs (docroot @ route_stripped route (uri c)) \<and> fs_access fs path \<and>
     (case fs_mode fs path of None \<Rightarrow> False | Some mode \<Rightarrow> is_regular mode)"

definition request_extension :: "string \<Rightarrow> connection \<Rightarrow> string" where
  "request_extension route c = uri_extension (route_stripped route (uri c))"

lemma file_handler_step:
  assumes "file_request docroot fs route c path" and "getFileMimetype (fs_magic fs) path = Inr (mime, enc)"
  shows "file_handler docroot fs exec route c = deliver_file fs exec (request_extension route c) mime path c"
  using assms by (auto simp: file_handler_def swith_def file_request_def request_extension_def Let_def split: option.splits)

text \<open>Nothing of the response has been sent, and it is sent without buffer and chunks.\<close>

definition plain :: "connection \<Rightarrow> bool" where
  "plain c \<longleftrightarrow> sound c \<and> outbuf c = None \<and> \<not> chunked_transfer_out c \<and> \<not> finished c \<and> \<not> header_sent c"

definition file_head :: "string \<Rightarrow> (string \<rightharpoonup> string) \<Rightarrow> (string \<rightharpoonup> string)" where
  "file_head mime m = m(''Content-Type'' \<mapsto> mime, ''Cache-Control'' \<mapsto> ''public, must-revalidate, max-age=0'',
     ''Pragma'' \<mapsto> ''no-cache'', ''Accept-Ranges'' \<mapsto> ''bytes'')"

definition whole_head :: "string \<Rightarrow> nat \<Rightarrow> string \<Rightarrow> (string \<rightharpoonup> string) \<Rightarrow> (string \<rightharpoonup> string)" where
  "whole_head mime n time m = (file_head mime m)(''Content-Length'' \<mapsto> dec_string n, ''Last-Modified'' \<mapsto> time)"

definition part_head :: "string \<Rightarrow> nat \<Rightarrow> nat \<Rightarrow> nat \<Rightarrow> string \<Rightarrow> string \<Rightarrow> (string \<rightharpoonup> string) \<Rightarrow> (string \<rightharpoonup> string)" where
  "part_head mime a z n path time m = (file_head mime m)(
     ''Content-Length'' \<mapsto> dec_string (z - a + 1),
     ''Content-Range'' \<mapsto> ''bytes '' @ dec_string a @ ''-'' @ dec_string z @ ''/'' @ dec_string n,
     ''Content-Disposition'' \<mapsto> ''inline; filename='' @ path, ''Last-Modified'' \<mapsto> time)"

text \<open>A response: status line, header lines in the order of the map, the length the code adds itself, and the body.\<close>

definition response :: "string \<Rightarrow> (string \<times> string) list \<Rightarrow> string \<Rightarrow> string" where
  "response line hs body = line @ concat (map header_line hs) @ ''Content-Length: '' @ dec_string (length body) @ CRLF @ CRLF @ body"

lemma plain_simps [simp]:
  "plain (c\<lparr>header_out := m\<rparr>) = plain c" "plain (c\<lparr>header_in := m\<rparr>) = plain c"
  "plain (c\<lparr>status_code := sc, status_string := ss\<rparr>) = plain c"
  by (simp_all add: plain_def sound_def)

lemma header_set_plain: "plain c \<Longrightarrow> header_set k v c = (Inr (), c\<lparr>header_out := (header_out c)(k \<mapsto> v)\<rparr>)"
  by (simp add: header_set_def act_defs plain_def)

lemma file_headers_plain: "plain c \<Longrightarrow> file_headers mime c = (Inr (), c\<lparr>header_out := file_head mime (header_out c)\<rparr>)"
  by (simp add: file_headers_def header_set_plain file_head_def)

lemma binary_header_plain: "\<exists>m. binary_header c = (Inr (), c\<lparr>header_in := m\<rparr>)"
proof (cases "header_in c ''Content-Transfer-Encoding: binary''")
  case (Some v)
  then show ?thesis by (intro exI [of _ "header_in c"]) (simp add: binary_header_def header_get_def)
qed (auto simp: binary_header_def header_get_def)

lemma flush_sent:
  assumes "sound c" and "header_sent c" and "outbuf c = None" and "\<not> chunked_transfer_out c"
  shows "flush c = (Inr (), c\<lparr>finished := True\<rparr>)"
  using assms by (simp add: flush_def act_defs outbuf_nbytes_def)

lemma whole_sent:
  assumes "plain c" and "fs_data fs path = Some data" and "length data < 2 ^ 63"
  shows "\<exists>c'. sseq [send_whole_file fs mime path, flush] c = (Inr (), c') \<and> finished c' \<and>
    written (os c') = written (os c) @
      response (status_line c) (map_iter c (whole_head mime (length data) (fs_mtime fs path) (header_out c))) data"
proof -
  let ?h = "whole_head mime (length data) (fs_mtime fs path) (header_out c)"
  obtain m where b: "binary_header (c\<lparr>header_out := ?h\<rparr>) = (Inr (), c\<lparr>header_out := ?h, header_in := m\<rparr>)"
    using binary_header_plain [of "c\<lparr>header_out := ?h\<rparr>"] by auto
  let ?c = "c\<lparr>header_out := ?h, header_in := m\<rparr>"
  have p: "plain ?c" using assms(1) by simp
  then have s: "sendFile (fs_data fs) path 8192 0 0 ?c =
      (Inr (), emit data ((emit (header_bytes (length data) ?c) ?c)\<lparr>header_sent := True\<rparr>))"
    using assms(2,3) by (intro sendFile_whole) (simp_all add: plain_def)
  have "send_whole_file fs mime path c = (Inr (), emit data ((emit (header_bytes (length data) ?c) ?c)\<lparr>header_sent := True\<rparr>))"
    using assms(1,2) b s
    by (simp add: send_whole_file_def file_headers_plain header_set_plain contents_def whole_head_def)
  then show ?thesis
    using p by (simp add: plain_def flush_sent header_bytes_def response_def status_line_def outbuf_nbytes_def)
qed


lemma part_sent:
  assumes "plain c" and "fs_data fs path = Some data" and "length data < 2 ^ 63" and "a \<le> z" and "0 < z" and "z < length data"
  shows "\<exists>c'. sseq [send_file_part fs mime path (int a) (int z), flush] c = (Inr (), c') \<and> finished c' \<and>
    written (os c') = written (os c) @ response (''HTTP/1.1 206 Partial content'' @ CRLF)
      (map_iter c (part_head mime a z (length data) path (fs_mtime fs path) (header_out c))) (take (z - a + 1) (drop a data))"
proof -
  let ?h = "part_head mime a z (length data) path (fs_mtime fs path) (header_out c)"
  let ?hd = "(file_head mime (header_out c))(''Content-Length'' \<mapsto> dec_string (z - a + 1),
     ''Content-Range'' \<mapsto> ''bytes '' @ dec_string a @ ''-'' @ dec_string z @ ''/'' @ dec_string (length data),
     ''Content-Disposition'' \<mapsto> ''inline; filename='' @ path)"
  let ?st = "status PARTIAL_CONTENT [] c"
  obtain m where b: "binary_header (?st\<lparr>header_out := ?hd\<rparr>) = (Inr (), ?st\<lparr>header_out := ?hd, header_in := m\<rparr>)"
    using binary_header_plain [of "?st\<lparr>header_out := ?hd\<rparr>"] by auto
  let ?c = "?st\<lparr>header_out := ?h, header_in := m\<rparr>"
  have p0: "plain ?st" and p: "plain ?c" using assms(1) by (simp_all add: status_def)
  then have s: "sendFile (fs_data fs) path 8192 (int a) (int z) ?c =
      (Inr (), emit (take (z - a + 1) (drop a data)) ((emit (header_bytes (z - a + 1) ?c) ?c)\<lparr>header_sent := True\<rparr>))"
    using assms by (intro sendFile_part) (simp_all add: plain_def)
  have i: "int_string (int k) = dec_string k" for k by (simp add: int_string_def)
  have l: "int_string (int z - int a + 1) = dec_string (z - a + 1)"
    using assms(4) i [of "z - a + 1"] by (simp add: of_nat_diff add.commute)
  have ho: "header_out ?st = header_out c" by (simp add: status_def)
  have n: "length (contents fs path) = length data" using assms(2) by (simp add: contents_def)
  have h: "sseq [smod (status PARTIAL_CONTENT []), file_headers mime, header_set ''Content-Length'' (int_string (int z - int a + 1)),
      header_set ''Content-Length'' (int_string (int z - int a + 1)),
      header_set ''Content-Range'' (''bytes '' @ int_string (int a) @ ''-'' @ int_string (int z) @ ''/'' @ dec_string (length (contents fs path))),
      header_set ''Content-Disposition'' (''inline; filename='' @ path)] c = (Inr (), ?st\<lparr>header_out := ?hd\<rparr>)"
    using p0 by (simp only: sseq.simps smod_def prod.case sum.case file_headers_plain header_set_plain plain_simps ho n i l)
      (simp add: ho)
  have "sseq [binary_header, header_set ''Last-Modified'' (fs_mtime fs path), sendFile (fs_data fs) path 8192 (int a) (int z)]
      (?st\<lparr>header_out := ?hd\<rparr>) =
      (Inr (), emit (take (z - a + 1) (drop a data)) ((emit (header_bytes (z - a + 1) ?c) ?c)\<lparr>header_sent := True\<rparr>))"
  proof -
    have "header_set ''Last-Modified'' (fs_mtime fs path) (?st\<lparr>header_out := ?hd, header_in := m\<rparr>) = (Inr (), ?c)"
      using p0 by (simp add: header_set_plain part_head_def)
    then show ?thesis by (simp only: sseq.simps b s prod.case sum.case)
  qed
  then have "send_file_part fs mime path (int a) (int z) c =
      (Inr (), emit (take (z - a + 1) (drop a data)) ((emit (header_bytes (z - a + 1) ?c) ?c)\<lparr>header_sent := True\<rparr>))"
    using sseq_append [where ms = "[smod (status PARTIAL_CONTENT []), file_headers mime, header_set ''Content-Length'' (int_string (int z - int a + 1)),
      header_set ''Content-Length'' (int_string (int z - int a + 1)),
      header_set ''Content-Range'' (''bytes '' @ int_string (int a) @ ''-'' @ int_string (int z) @ ''/'' @ dec_string (length (contents fs path))),
      header_set ''Content-Disposition'' (''inline; filename='' @ path)]" and s = c
      and ns = "[binary_header, header_set ''Last-Modified'' (fs_mtime fs path), sendFile (fs_data fs) path 8192 (int a) (int z)]"]
    unfolding send_file_part_def append_Cons append_Nil h [unfolded append_Cons append_Nil] by simp
  moreover have "length (take (z - a + 1) (drop a data)) = z - a + 1" using assms(4,6) by simp
  moreover have "status_line ?c = ''HTTP/1.1 206 Partial content'' @ CRLF"
    by (simp add: status_line_def status_def) code_simp
  moreover have "map_iter ?c = map_iter c" "os ?c = os c" "header_out ?c = ?h" by (simp_all add: status_def)
  ultimately show ?thesis
    using p by (simp add: plain_def flush_sent header_bytes_def response_def outbuf_nbytes_def)
qed

text \<open>The file is neither a page of a known kind nor a script.\<close>

definition other_kind :: "string \<Rightarrow> string \<Rightarrow> bool" where
  "other_kind extension mime \<longleftrightarrow> extension \<notin> set [''js'', ''css'', ''lua'', ''elua''] \<and> (extension = ''html'' \<longrightarrow> mime \<noteq> ''text/html'')"

lemma deliver_other:
  "other_kind extension mime \<Longrightarrow> deliver_file fs exec extension mime path = catch_file_error (other_file fs path)"
  by (auto simp: deliver_file_def other_kind_def)

lemma catch_file_error_ok: "m c = (Inr (), c') \<Longrightarrow> catch_file_error m c = (Inr (), c')"
  by (simp add: catch_file_error_def scatch_def)

lemma other_file_step:
  assumes "getBestFileMimetype (fs_magic fs) path = Inr mime" and "fs_mode fs path \<noteq> None" and "header_get ''range'' c = (rng, c1)"
  shows "other_file fs path c = sseq [if rng = [] then send_whole_file fs mime path
     else (case file_range_of rng (length (contents fs path)) of
         Inl e \<Rightarrow> sthrow e
       | Inr (start, end_p) \<Rightarrow> send_file_part fs mime path start end_p), flush] c1"
  using assms by (auto simp: other_file_def act_defs split: option.split sum.split prod.split)

lemma request_mode: "file_request docroot fs route c path \<Longrightarrow> fs_mode fs path \<noteq> None"
  by (auto simp: file_request_def split: option.splits)

lemma header_get_value: "\<exists>m. header_get k c = (case header_in c k of None \<Rightarrow> [] | Some v \<Rightarrow> v, c\<lparr>header_in := m\<rparr>)"
proof (cases "header_in c k")
  case None
  then show ?thesis by (intro exI [of _ "(header_in c)(k \<mapsto> [])"]) (simp add: header_get_def)
next
  case (Some v)
  then show ?thesis by (intro exI [of _ "header_in c"]) (simp add: header_get_def)
qed

lemma dec_digits: "list_all isdigit (dec_string n)"
  using dec_char by (auto simp: list_all_iff)

lemma takeWhile_digits: "list_all isdigit ds \<Longrightarrow> r = [] \<or> \<not> isdigit (hd r) \<Longrightarrow> takeWhile isdigit (ds @ r) = ds \<and> dropWhile isdigit (ds @ r) = r"
  by (induction ds) (cases r; auto)+

lemma match_range_dec:
  "match_range (''bytes='' @ dec_string a @ ''-'' @ e) =
     (if length (dropWhile isdigit e) \<le> 1 then Some (dec_string a, takeWhile isdigit e) else None)"
proof -
  have "\<not> isspace d" if "isdigit d" for d using that by (auto simp: isdigit_def isspace_def)
  then have "dropWhile isspace (dec_string a @ ''-'' @ e) = dec_string a @ ''-'' @ e"
    using dec_digits [of a] by (cases "dec_string a") (auto simp: dec_string_def)
  moreover have "\<not> isdigit (CHR ''-'')" by code_simp
  ultimately show ?thesis
    using takeWhile_digits [OF dec_digits [of a], of "''-'' @ e"]
    by (simp add: match_range_def Let_def dec_string_def)
qed

lemma takeWhile_dec: "takeWhile isdigit (dec_string n) = dec_string n" "dropWhile isdigit (dec_string n) = []"
  using takeWhile_digits [OF dec_digits [of n], of "[]"] by simp_all

lemma stoi_dec: "stoi (dec_string n) = (if n < 2 ^ 31 then Inr (int n) else Inl StdOutOfRange)"
  by (simp add: stoi_def sto_signed_def dec_string_def scan_int_base_string signed_mag_def)

lemma file_range_of_dec:
  "file_range_of (''bytes='' @ dec_string a @ ''-'' @ dec_string z) n =
     (if a < 2 ^ 31 \<and> z < 2 ^ 31 then Inr (int a, int z) else Inl StdOutOfRange)"
proof -
  have "dec_string z \<noteq> []" by (simp add: dec_string_def)
  then show ?thesis
    unfolding file_range_of_def match_range_dec takeWhile_dec by (simp add: stoi_dec)
qed

lemma file_range_of_open:
  "file_range_of (''bytes='' @ dec_string a @ ''-'') n = (if a < 2 ^ 31 then Inr (int a, int n - 1) else Inl StdOutOfRange)"
  using match_range_dec [of a "[]"] unfolding file_range_of_def append_Nil2 by (simp add: stoi_dec)

lemmas ranges_of_dec = file_range_of_dec [unfolded append_Cons append_Nil] file_range_of_open [unfolded append_Cons append_Nil]

lemma range_overflow:
  assumes "file_request docroot fs route c path" and "getFileMimetype (fs_magic fs) path = Inr (mt, enc)"
    and "other_kind (request_extension route c) mt" and "getBestFileMimetype (fs_magic fs) path = Inr mime"
    and "header_in c ''range'' = Some (''bytes='' @ dec_string a @ ''-'')" and "2 ^ 31 \<le> a"
  shows "fst (file_handler docroot fs exec route c) = Inl StdOutOfRange"
proof -
  let ?rng = "''bytes='' @ dec_string a @ ''-''"
  obtain m where "header_get ''range'' c = (?rng, c\<lparr>header_in := m\<rparr>)"
    using header_get_value [of "''range''" c] assms(5) by auto
  from other_file_step [OF assms(4) request_mode [OF assms(1)] this]
  have "other_file fs path c = (Inl StdOutOfRange, c\<lparr>header_in := m\<rparr>)"
    using assms(6) by (simp add: ranges_of_dec sthrow_def)
  then show ?thesis
    using file_handler_step [OF assms(1,2)] by (simp add: deliver_other [OF assms(3)] catch_file_error_def scatch_def)
qed

definition example_files :: file_system where
  "example_files = \<lparr>fs_access = (\<lambda>p. p \<in> {''/srv/a.bin'', ''/srv/s.elua''}), fs_exists = (\<lambda>p. Some (p \<in> {''/srv/a.bin'', ''/srv/s.elua''})),
     fs_mode = (\<lambda>_. Some 33188), fs_data = [''/srv/a.bin'' \<mapsto> ''abcdef'', ''/srv/s.elua'' \<mapsto> ''<p>'' @ open_tag @ ''x()''],
     fs_magic = (\<lambda>_. Inr ''application/octet-stream''), fs_mtime = (\<lambda>_. ''now'')\<rparr>"

definition example_request :: "(string \<rightharpoonup> string) \<Rightarrow> connection" where
  "example_request m = example_connection\<lparr>uri := ''/a.bin'', header_in := m\<rparr>"

lemma example_request_simps [simp]:
  "plain (example_request m)" "header_in (example_request m) = m" "uri (example_request m) = ''/a.bin''"
  by (simp_all add: example_request_def plain_def) (simp_all add: sound_def)

lemma example_file_request:
  "file_request ''/srv'' example_files ''/'' (example_request m) ''/srv/a.bin''"
  "request_extension ''/'' (example_request m) = ''bin''"
proof -
  have r: "route_stripped ''/'' ''/a.bin'' = ''/a.bin''" by code_simp
  have "path_filename ''/srv/a.bin'' = ''a.bin''" by code_simp
  then have "with_index example_files ''/srv/a.bin'' = ''/srv/a.bin''" by (simp add: with_index_def)
  moreover have "fs_access example_files ''/srv/a.bin''" "fs_mode example_files ''/srv/a.bin'' = Some 33188"
    by (simp_all add: example_files_def)
  ultimately show "file_request ''/srv'' example_files ''/'' (example_request m) ''/srv/a.bin''"
    using r by (simp add: file_request_def is_regular_def)
  have "uri_extension ''/a.bin'' = ''bin''" by code_simp
  with r show "request_extension ''/'' (example_request m) = ''bin''" by (simp add: request_extension_def)
qed

lemma example_mime:
  "getFileMimetype (fs_magic example_files) p = Inr (''application/octet-stream'', [])"
  "getBestFileMimetype (fs_magic example_files) ''/srv/a.bin'' = Inr ''application/octet-stream''"
proof -
  have "parseMimetype ''application/octet-stream'' = Inr (''application/octet-stream'', [])" by code_simp
  then show m: "getFileMimetype (fs_magic example_files) p = Inr (''application/octet-stream'', [])" for p
    by (simp add: getFileMimetype_def example_files_def)
  have "rfind_char (CHR ''.'') ''/srv/a.bin'' = Some 6" by code_simp
  moreover have "map_of mimetypes ''bin'' = Some [''application/octet-stream'']" by code_simp
  ultimately show "getBestFileMimetype (fs_magic example_files) ''/srv/a.bin'' = Inr ''application/octet-stream''"
    by (simp add: getBestFileMimetype_def m)
qed

lemma example_kind: "other_kind (request_extension ''/'' (example_request m)) ''application/octet-stream''"
  by (simp add: example_file_request other_kind_def)

section \<open>Properties\<close>

text \<open>
  C24: a page with embedded scripts is worked through in the order of its text: each piece of text is sent, then the
  script behind it is run, until a script ends the request; what is behind the last script is sent after the headers.
\<close>

theorem elua_page_in_order:
  assumes "\<forall>(t, s) \<in> set ps. find_sub open_tag t = None \<and> find_sub close_tag s = None"
    and "find_sub open_tag tail = None"
  shows "elua_page run headers (page_text ps tail) c = page_program run headers ps tail c"
  using elua_page_runs [OF assms] by simp

theorem elua_page_in_order_witness:
  "\<forall>run headers c. elua_page run headers (page_text [(''<p>'', ''x()''), ([], ''y'')] ''</p>'') c =
   page_program run headers [(''<p>'', ''x()''), ([], ''y'')] ''</p>'' c"
  by (intro allI, rule elua_page_in_order) (simp_all add: open_tag_def close_tag_def)

text \<open>
  a file that is not a page or a script is sent as it is, with its type, its length (which the code writes into
  the headers, and \<open>send_header\<close> a second time) and the time of its last change, and the response is complete.
\<close>

theorem file_delivered:
  assumes "file_request docroot fs route c path" and "getFileMimetype (fs_magic fs) path = Inr (mt, enc)"
    and "other_kind (request_extension route c) mt" and "getBestFileMimetype (fs_magic fs) path = Inr mime"
    and "case header_in c ''range'' of None \<Rightarrow> True | Some v \<Rightarrow> v = []"
    and "plain c" and "fs_data fs path = Some data" and "length data < 2 ^ 63"
  shows "\<exists>c'. file_handler docroot fs exec route c = (Inr (), c') \<and> finished c' \<and>
    written (os c') = written (os c) @
      response (status_line c) (map_iter c (whole_head mime (length data) (fs_mtime fs path) (header_out c))) data"
proof -
  obtain m where "header_get ''range'' c = ([], c\<lparr>header_in := m\<rparr>)"
    using header_get_value [of "''range''" c] assms(5) by (auto split: option.splits)
  from other_file_step [OF assms(4) request_mode [OF assms(1)] this]
  have "other_file fs path c = sseq [send_whole_file fs mime path, flush] (c\<lparr>header_in := m\<rparr>)" by simp
  moreover obtain c' where "sseq [send_whole_file fs mime path, flush] (c\<lparr>header_in := m\<rparr>) = (Inr (), c')" "finished c'"
    "written (os c') = written (os c) @
      response (status_line c) (map_iter c (whole_head mime (length data) (fs_mtime fs path) (header_out c))) data"
    using whole_sent [of "c\<lparr>header_in := m\<rparr>" fs path data mime] assms(6-8) by (auto simp: status_line_def)
  ultimately show ?thesis
    using file_handler_step [OF assms(1,2)] by (simp add: deliver_other [OF assms(3)] catch_file_error_ok)
qed

theorem file_delivered_witness:
  "\<exists>c'. file_handler ''/srv'' example_files exec ''/'' (example_request Map.empty) = (Inr (), c') \<and> finished c' \<and>
    written (os c') = written (os (example_request Map.empty)) @ response (status_line (example_request Map.empty))
      (map_iter (example_request Map.empty) (whole_head ''application/octet-stream'' (length ''abcdef'')
        (fs_mtime example_files ''/srv/a.bin'') (header_out (example_request Map.empty)))) ''abcdef''"
  by (rule file_delivered [OF example_file_request(1) example_mime(1) example_kind example_mime(2)])
    (simp_all add: example_files_def)




text \<open>
  a \<open>Range\<close> whose first number does not fit into an \<open>int\<close> makes \<open>std::stoi\<close> throw, which the handler does not
  catch.
\<close>

theorem file_range_overflow:
  assumes "file_request docroot fs route c path" and "getFileMimetype (fs_magic fs) path = Inr (mt, enc)"
    and "other_kind (request_extension route c) mt" and "getBestFileMimetype (fs_magic fs) path = Inr mime"
    and "header_in c ''range'' = Some (''bytes='' @ dec_string a @ ''-'')" and "2 ^ 31 \<le> a"
  shows "fst (file_handler docroot fs exec route c) = Inl StdOutOfRange"
  using assms by (rule range_overflow)

theorem file_range_overflow_witness:
  "fst (file_handler ''/srv'' example_files exec ''/'' (example_request [''range'' \<mapsto> ''bytes='' @ dec_string (2 ^ 31) @ ''-'']))
    = Inl StdOutOfRange"
  by (rule file_range_overflow [OF example_file_request(1) example_mime(1) example_kind example_mime(2), where a = "2 ^ 31"]) simp_all

text \<open>
  a page of the script handler that ends inside a script sends what is in front of it, runs the script up to the end of
  the page, and then throws \<open>std::out_of_range\<close>, which the handler does not catch.
\<close>

theorem unclosed_script_escapes:
  assumes "sh_routedata h route = Some name" and "name \<noteq> []" and "path = path_append (scriptdir h) name"
    and "fs_exists fs path = Some True" and "fs_access fs path" and "path_extension path = ''.elua''"
    and "fs_data fs path = Some (t @ open_tag @ s)" and "find_sub open_tag t = None" and "find_sub close_tag s = None"
    and "\<And>d. fst (exec s path d) = Inr 0"
    and "\<not> header_sent c" and "\<not> finished c" and "outbuf c = None" and "0 < outbuf_inc c"
  shows "fst (script_handler h fs exec route c) = Inl StdOutOfRange"
proof -
  let ?run = "\<lambda>code. run_chunk (exec code path) format_error"
  let ?c = "c\<lparr>outbuf := Some []\<rparr>"
  have sb: "setBuffer c = (Inr (), ?c)" using assms by (simp add: setBuffer_def act_defs)
  have "buffering [] ?c" using assms by (simp add: buffering_def)
  then have "\<exists>c1. text_piece t ?c = (Inr (), c1)"
    using send_buffered [of "[]" ?c t] assms(12) by (auto simp: text_piece_def put_string_def sret_def)
  then obtain c1 where tp: "text_piece t ?c = (Inr (), c1)" by blast
  obtain c2 where "exec s path c1 = (Inr 0, c2)" using assms(10) [of c1] by (cases "exec s path c1") auto
  then have r: "?run s c1 = (Inr True, c2)" by (simp add: run_chunk_def scatch_def act_defs)
  have "elua_page ?run (sret ()) (t @ open_tag @ s) ?c = (Inl StdOutOfRange, c2)"
    using tp r by (simp add: elua_page_def elua_unclosed [OF assms(8,9)]) (simp add: sbind_def sret_def sthrow_def)
  then show ?thesis
    using assms(1-7) sb
    by (simp add: script_handler_def with_script_def run_script_file_def catch_all_def scatch_def contents_def Let_def)
qed

theorem unclosed_script_escapes_witness:
  "fst (script_handler \<lparr>sh_routedata = [''/s'' \<mapsto> ''s.elua''], scriptdir = ''/srv''\<rparr> example_files (\<lambda>_ _. sret 0) ''/s'' (example_request Map.empty))
    = Inl StdOutOfRange"
proof (rule unclosed_script_escapes)
  show "''/srv/s.elua'' = path_append (scriptdir \<lparr>sh_routedata = [''/s'' \<mapsto> ''s.elua''], scriptdir = ''/srv''\<rparr>) ''s.elua''"
    by (simp add: path_append_def)
  show "path_extension ''/srv/s.elua'' = ''.elua''" by code_simp
  show "find_sub open_tag ''<p>'' = None" "find_sub close_tag ''x()'' = None" by code_simp+
qed (simp_all add: example_files_def example_request_def sret_def)

text \<open>
  the kind of a file is taken from the URI, not from the file that is sent: for the directory \<open>/d/\<close> whose index is a
  script, the script is not run; the client gets its source.
\<close>

theorem index_script_not_run:
  assumes "CHR ''.'' \<notin> set (uri c)"
  shows "file_handler docroot fs exec route c = file_handler docroot fs exec' route c"
proof -
  have "CHR ''.'' \<notin> set (route_stripped route (uri c))"
    using assms by (auto simp: route_stripped_def Let_def dest: in_set_dropD)
  then have "uri_extension (route_stripped route (uri c)) = []"
    by (simp add: uri_extension_def rfind_char_def)
  then show ?thesis
    by (simp add: file_handler_def swith_def Let_def deliver_file_def split: option.split sum.split prod.split)
qed

theorem index_script_not_run_witness:
  "file_handler ''/srv'' example_files (\<lambda>_ _. sret 0) ''/'' (example_connection\<lparr>uri := ''/d/''\<rparr>) =
   file_handler ''/srv'' example_files (\<lambda>_ _. sthrow Diverges) ''/'' (example_connection\<lparr>uri := ''/d/''\<rparr>)"
  by (rule index_script_not_run) simp

end
