(* ===== verification/DispatchProps.thy ===== *)
theory DispatchProps
  imports Dispatch HandlerProps RequestRead "HOL-Library.Sublist"
begin

text \<open>
  Properties of the dispatch of requests: the table of routes as a finite map, the handler that is chosen, what leaves
  \<open>processRequest\<close>, and whole requests from the bytes of the client to the bytes of the answer.
\<close>

section \<open>Sorted tables\<close>

text \<open>The interface of a map that is updated one key at a time.\<close>

locale key_table =
  fixes put :: "'k \<Rightarrow> 'v \<Rightarrow> 't \<Rightarrow> 't"
    and get :: "'t \<Rightarrow> 'k \<Rightarrow> 'v option"
    and ok :: "'t \<Rightarrow> bool"
  assumes put_ok: "ok t \<Longrightarrow> ok (put k v t)"
    and get_put: "ok t \<Longrightarrow> get (put k v t) = (get t)(k \<mapsto> v)"
begin

lemma puts_ok: "ok t \<Longrightarrow> ok (fold (\<lambda>(k, v). put k v) kvs t)"
  by (induction kvs arbitrary: t) (auto intro: put_ok)

lemma get_puts: "ok t \<Longrightarrow> get (fold (\<lambda>(k, v). put k v) kvs t) = get t ++ map_of (rev kvs)"
proof (induction kvs arbitrary: t)
  case (Cons p kvs)
  obtain k v where p: "p = (k, v)" by (cases p)
  have "get (fold (\<lambda>(k, v). put k v) kvs (put k v t)) = get (put k v t) ++ map_of (rev kvs)"
    using Cons.prems by (intro Cons.IH put_ok)
  with Cons.prems p show ?case by (auto simp: get_put map_add_def fun_eq_iff split: option.split)
qed simp

end

definition sorted_table :: "('k::linorder \<times> 'v) list \<Rightarrow> bool" where
  "sorted_table t \<longleftrightarrow> sorted (map fst t) \<and> distinct (map fst t)"

lemma map_put_keys: "set (map fst (map_put k v t)) = insert k (set (map fst t))"
  by (induction k v t rule: map_put.induct) auto

lemma map_put_sorted: "sorted_table t \<Longrightarrow> sorted_table (map_put k v t)"
proof (induction k v t rule: map_put.induct)
  case (2 k v j w m)
  have less: "k < j \<Longrightarrow> x \<in> set (map fst m) \<Longrightarrow> k < x" for x
    using 2(2) by (auto simp: sorted_table_def)
  show ?case
  proof (cases "k < j")
    case True
    with 2(2) less show ?thesis by (force simp: sorted_table_def)
  next
    case False
    show ?thesis
    proof (cases "k = j")
      case True
      with 2(2) show ?thesis by (auto simp: sorted_table_def)
    next
      case neq: False
      with False have "sorted_table (map_put k v m)" using 2(1,2) by (simp add: sorted_table_def)
      moreover have "set (map fst (map_put k v m)) = insert k (set (map fst m))" by (rule map_put_keys)
      ultimately show ?thesis using False neq 2(2) by (auto simp: sorted_table_def simp del: set_map)
    qed
  qed
qed (simp add: sorted_table_def)

lemma map_put_get: "sorted_table t \<Longrightarrow> map_of (map_put k v t) = (map_of t)(k \<mapsto> v)"
proof (induction k v t rule: map_put.induct)
  case (2 k v j w m)
  then show ?case by (auto simp: sorted_table_def fun_eq_iff)
qed auto

interpretation routes: key_table map_put map_of sorted_table
  by unfold_locales (auto intro: map_put_sorted simp: map_put_get)

section \<open>The longest route\<close>

lemma match_test: "route = take (if length u < length route then length u else length route) u \<longleftrightarrow> prefix route u"
  by (auto simp: prefix_def min_def split: if_splits) (metis append_take_drop_id)

text \<open>\<open>best\<close> is the longest non-empty route in \<open>rs\<close> that is a prefix of \<open>u\<close>, if there is one.\<close>

definition best_match :: "string \<Rightarrow> (string \<times> 'h) list \<Rightarrow> nat \<times> (string \<times> 'h) option \<Rightarrow> bool" where
  "best_match u rs nb \<longleftrightarrow>
     (case snd nb of
        None \<Rightarrow> fst nb = 0
      | Some (r, h) \<Rightarrow> (r, h) \<in> set rs \<and> prefix r u \<and> fst nb = length r \<and> 0 < length r) \<and>
     (\<forall>(r, h) \<in> set rs. prefix r u \<longrightarrow> length r \<le> fst nb)"

lemma match_loop_best: "best_match u qs (n, b) \<Longrightarrow> best_match u (qs @ rs) (match_loop u rs n b)"
proof (induction u rs n b arbitrary: qs rule: match_loop.induct)
  case (2 u route h rs n b)
  let ?len = "if length u < length route then length u else length route"
  show ?case
  proof (cases "route = take ?len u \<and> ?len > n")
    case True
    then have p: "prefix route u" by (simp only: match_test)
    then have l: "?len = length route" using prefix_length_le [OF p] by auto
    have "best_match u (qs @ [(route, h)]) (?len, Some (route, h))"
      using 2(3) True p l by (auto simp: best_match_def)
    from 2(1) [OF refl True this] show ?thesis using True by (simp add: Let_def)
  next
    case False
    have "length route \<le> n" if "prefix route u"
    proof -
      have "?len = length route" using prefix_length_le [OF that] by auto
      moreover have "\<not> ?len > n" using False that match_test [of route u] by blast
      ultimately show ?thesis by simp
    qed
    then have "best_match u (qs @ [(route, h)]) (n, b)"
      using 2(3) by (auto simp: best_match_def split: option.splits)
    from 2(2) [OF refl False this] show ?thesis by (simp only: match_loop.simps Let_def False if_False append_assoc append_Cons append_Nil)
  qed
qed simp


section \<open>What leaves processRequest\<close>

lemma after_exception_throws: "after_exception ev e q = (Inl e', q') \<Longrightarrow> (\<forall>m. e' \<noteq> InputFailure m) \<and> (\<forall>m. e' \<noteq> CsError m)"
  by (cases e) (auto simp: after_exception_def)

lemma end_of_request_throws: "end_of_request ev r q = (Inl e', q') \<Longrightarrow> (\<forall>m. e' \<noteq> InputFailure m) \<and> (\<forall>m. e' \<noteq> CsError m)"
  using after_exception_throws by (fastforce simp: end_of_request_def split: sum.splits)

section \<open>The connection of a simple request\<close>

text \<open>A connection on which a request has been read and nothing has been answered.\<close>

definition fresh_get :: "istream \<Rightarrow> ostream \<Rightarrow> ((string \<rightharpoonup> string) \<Rightarrow> (string \<times> string) list) \<Rightarrow> string \<Rightarrow> (string \<rightharpoonup> string) \<Rightarrow> connection \<Rightarrow> bool" where
  "fresh_get i q it path hds c \<longleftrightarrow>
     http_method c = GET \<and> uri c = path \<and> header_in c = hds \<and> ins c = i \<and> os c = q \<and> map_iter c = it \<and>
     \<not> header_sent c \<and> \<not> finished c \<and> \<not> chunked_transfer_out c \<and> outbuf c = None \<and> outbuf_inc c = 8192 \<and>
     \<not> reset_connection c \<and> \<not> keep_alive c \<and> status_line c = ''HTTP/1.1 200 OK'' @ CRLF"

lemma apply_header_more:
  "keep_alive (apply_header c h) = keep_alive c" "status_line (apply_header c h) = status_line c"
  "outbuf_inc (apply_header c h) = outbuf_inc c"
  by (cases h; simp add: apply_header.simps Let_def status_line_def split: sum.split)+

lemmas header_frames =
  foldl_frame [of uri] foldl_frame [of os] foldl_frame [of ins] foldl_frame [of header_out] foldl_frame [of header_sent]
  foldl_frame [of finished] foldl_frame [of chunked_transfer_out] foldl_frame [of outbuf] foldl_frame [of outbuf_inc]
  foldl_frame [of reset_connection] foldl_frame [of keep_alive] foldl_frame [of status_line] foldl_frame [of map_iter]

lemma get_connection:
  assumes "is_good i" and "rest i = request_line ''GET'' path @ CRLF @ header_text hs @ r"
    and "word_ok path" and "CHR ''?'' \<notin> set path" and "list_all header_ok hs"
    and "length (request_line ''GET'' path) < max_headerline_len"
    and "''origin'' \<notin> fst ` set (lowered hs)"
  shows "\<exists>c. new_connection env i q 0 8192 it = (Inr [], c) \<and> header_out c = Map.empty \<and>
    fresh_get (i\<lparr>rest := r\<rparr>) q it path (map_of (rev (lowered hs))) c"
proof -
  let ?c = "init_connection i q (tmp_dir env) 0 8192 it"
  let ?d = "?c\<lparr>http_version := ''HTTP/1.1'', uri := path\<rparr>"
  have w: "word_ok ''GET''" by (simp add: word_ok_def isspace_def chr_code_def)
  have hi: "header_in ?c = Map.empty" by (simp add: init_connection_def status_def)
  have n: "new_connection env i q 0 8192 it = (Inr [], (after_header ?d hs r)\<lparr>http_method := GET\<rparr>)"
    using read_request_path [of ?c "''GET''" path hs r env] assms w
    by (simp add: new_connection_def dispatch_method_def set_method_def act_defs)
  let ?e = "foldl apply_header (?d\<lparr>ins := (ins ?d)\<lparr>rest := r\<rparr>\<rparr>) hs"
  have "header_in ?e ''origin'' = None"
    using assms(7) hi by (simp add: headers_header_in map_add_None map_of_eq_None_iff)
  then have a: "after_header ?d hs r = ?e" by (simp add: after_header_def cors_origin_def act_defs)
  have "status_line ?d = ''HTTP/1.1 200 OK'' @ CRLF"
    by (simp add: status_line_def init_connection_def status_def) code_simp
  then have sl: "status_line (?e\<lparr>http_method := GET\<rparr>) = ''HTTP/1.1 200 OK'' @ CRLF"
    using foldl_frame [of status_line "?d\<lparr>ins := (ins ?d)\<lparr>rest := r\<rparr>\<rparr>" hs, OF apply_header_more(2)]
    by (simp add: status_line_def)
  have io: "ins ?d = i" "os ?d = q" "map_iter ?d = it" "header_in ?d = Map.empty" "header_out ?d = Map.empty" "uri ?d = path"
    "\<not> header_sent ?d" "\<not> finished ?d" "\<not> chunked_transfer_out ?d" "outbuf ?d = None" "outbuf_inc ?d = 8192"
    "\<not> reset_connection ?d" "\<not> keep_alive ?d"
    by (simp_all add: init_connection_def status_def)
  have "fresh_get (i\<lparr>rest := r\<rparr>) q it path (map_of (rev (lowered hs))) (?e\<lparr>http_method := GET\<rparr>)"
    unfolding fresh_get_def sl using io
    by (simp add: header_frames apply_header_more apply_header_ins headers_header_in del: init_connection_simps)
  moreover have "header_out (?e\<lparr>http_method := GET\<rparr>) = Map.empty"
    using io by (simp add: header_frames del: init_connection_simps)
  ultimately show ?thesis unfolding n a by blast
qed


lemma get_request_runs:
  assumes "is_good i" and "rest i = request_line ''GET'' path @ CRLF @ header_text hs @ r"
    and "word_ok path" and "CHR ''?'' \<notin> set path" and "list_all header_ok hs"
    and "length (request_line ''GET'' path) < max_headerline_len" and "''origin'' \<notin> fst ` set (lowered hs)"
    and "srv_tmpdir srv \<noteq> []" and "re_lua_setup ev = sret ()"
    and "\<And>c. uri c = path \<Longrightarrow> http_method c = GET \<Longrightarrow> get_handler srv c = (h, route)"
  shows "\<exists>c0. fresh_get (i\<lparr>rest := r\<rparr>) q (re_iter ev) path (map_of (rev (lowered hs))) c0 \<and>
    header_out c0 = [''Connection'' \<mapsto> ''close''] \<and>
    (\<forall>c1 w1. h route (c0, w) = (Inr (), c1, w1) \<longrightarrow>
       processRequest srv ev i q peer port sec ka w = (Inr (next_status c1), 0, ins c1, os (connection_destroy c1), w1)) \<and>
    (\<forall>e c1 w1. h route (c0, w) = (Inl e, c1, w1) \<longrightarrow> (\<forall>m. e \<noteq> InputFailure m) \<longrightarrow>
       processRequest srv ev i q peer port sec ka w =
         (case after_exception ev e (os (connection_destroy c1)) of (r1, q1) \<Rightarrow> (r1, 0, ins c1, q1, w1)))"
proof -
  obtain c where c: "new_connection (re_uploads ev) i q 0 8192 (re_iter ev) = (Inr [], c)" "header_out c = Map.empty"
    and f: "fresh_get (i\<lparr>rest := r\<rparr>) q (re_iter ev) path (map_of (rev (lowered hs))) c"
    using get_connection [OF assms(1-7), of "re_uploads ev" q "re_iter ev"] by blast
  define c1 where "c1 = c\<lparr>header_out := [''Connection'' \<mapsto> ''close''], keep_alive_timeout := 0\<rparr>"
  define c0 where "c0 = set_peer peer port sec c1"
  have ka: "keep_alive_setup srv ka c = (0, c1)"
    using f c(2) by (simp add: keep_alive_setup_def setupKeepAlive_def fresh_get_def c1_def)
  have fr: "fresh_get (i\<lparr>rest := r\<rparr>) q (re_iter ev) path (map_of (rev (lowered hs))) c0" and ho: "header_out c0 = [''Connection'' \<mapsto> ''close'']"
    using f by (simp_all add: fresh_get_def c0_def c1_def set_peer_def status_line_def)
  have gh: "get_handler srv c0 = (h, route)" using fr assms(10) by (simp add: fresh_get_def)
  have e: "\<not> eofbit i" using assms(1) by (simp add: is_good_def)
  have wc: "with_connection srv ev (c0, w) = run_handler srv ev (c0, w)"
    using fr assms(9) by (simp add: with_connection_def sif_def sbind_def sret_def fresh_get_def)
  have ic: "ins (connection_destroy x) = ins x" for x
    by (simp add: connection_destroy_def finalize_def os_put_def os_sync_def os_check_def act_defs)
  have p: "processRequest srv ev i q peer port sec ka w =
      (case run_handler srv ev (c0, w) of (r, c2, w1) \<Rightarrow>
       case end_of_request ev r (os (connection_destroy c2)) of (r1, q1) \<Rightarrow> (r1, 0, ins c2, q1, w1))"
    using assms(8) e by (simp add: processRequest_def c(1) ka wc c0_def [symmetric])
  have "processRequest srv ev i q peer port sec ka w = (Inr (next_status c2), 0, ins c2, os (connection_destroy c2), w1)"
    if "h route (c0, w) = (Inr (), c2, w1)" for c2 w1
    using that gh p by (simp add: run_handler_def scatch_def swith_def sbind_def sget_def end_of_request_def)
  moreover have "processRequest srv ev i q peer port sec ka w =
      (case after_exception ev e (os (connection_destroy c2)) of (r1, q1) \<Rightarrow> (r1, 0, ins c2, q1, w1))"
    if "h route (c0, w) = (Inl e, c2, w1)" "\<forall>m. e \<noteq> InputFailure m" for e c2 w1
    using that gh p by (cases e) (simp_all add: run_handler_def scatch_def swith_def sbind_def end_of_request_def)
  ultimately show ?thesis using fr ho by blast
qed

lemma flush_plain_more:
  assumes "sound c" and "outbuf c = Some b" and "\<not> chunked_transfer_out c" and "\<not> header_sent c" and "\<not> finished c"
  shows "\<exists>c'. flush c = (Inr (), c') \<and> finished c' \<and> sound c' \<and> written (os c') = written (os c) @ header_bytes 0 c @ b \<and>
    ins c' = ins c \<and> keep_alive c' = keep_alive c"
proof -
  have "ins (emit s d) = ins d" "keep_alive (emit s d) = keep_alive d" "ins (cached s d) = ins d" "keep_alive (cached s d) = keep_alive d" for s d
    by (simp_all add: emit_def cached_def)
  with assms show ?thesis
    by (cases "b = []") (simp_all add: flush_def act_defs send_header_ok outbuf_clear_def)
qed

lemma destroy_finished: "sound c \<Longrightarrow> finished c \<Longrightarrow> written (os (connection_destroy c)) = written (os c) @ CRLF"
  by (simp add: connection_destroy_def finalize_ok)

lemma ping_answer:
  assumes "plain c" and "0 < outbuf_inc c"
  shows "\<exists>c'. ping_handler echo c = (Inr (), c') \<and> finished c' \<and> sound c' \<and> ins c' = ins c \<and> keep_alive c' = keep_alive c \<and>
    written (os c') = written (os c) @ response (status_line c)
      (map_iter c ((header_out c)(''Content-Type'' \<mapsto> ''text/text; charset=utf-8''))) echo"
proof -
  let ?c = "c\<lparr>header_out := (header_out c)(''Content-Type'' \<mapsto> ''text/text; charset=utf-8''), outbuf := Some []\<rparr>"
  have h: "header_set ''Content-Type'' ''text/text; charset=utf-8'' c = (Inr (), c\<lparr>header_out := (header_out c)(''Content-Type'' \<mapsto> ''text/text; charset=utf-8'')\<rparr>)"
    using assms by (simp add: header_set_plain)
  have s: "setBuffer (c\<lparr>header_out := (header_out c)(''Content-Type'' \<mapsto> ''text/text; charset=utf-8'')\<rparr>) = (Inr (), ?c)"
    using assms by (simp add: setBuffer_def act_defs plain_def)
  have b: "buffering [] ?c" and nf: "\<not> finished ?c" using assms by (simp_all add: buffering_def plain_def)
  obtain k where k: "send echo ?c = (Inr (), ?c\<lparr>outbuf_size := k, outbuf := Some echo\<rparr>)"
    using send_buffered [OF b nf, of echo] by auto
  let ?d = "?c\<lparr>outbuf_size := k, outbuf := Some echo\<rparr>"
  obtain c' where c': "flush ?d = (Inr (), c')" "finished c'" "sound c'" "written (os c') = written (os ?d) @ header_bytes 0 ?d @ echo"
    "ins c' = ins ?d" "keep_alive c' = keep_alive ?d"
    using flush_plain_more [of ?d echo] assms by (auto simp: plain_def sound_def)
  have "header_bytes 0 ?d @ echo = response (status_line c) (map_iter c ((header_out c)(''Content-Type'' \<mapsto> ''text/text; charset=utf-8''))) echo"
    using assms by (cases echo) (simp_all add: header_bytes_def response_def status_line_def outbuf_nbytes_def plain_def)
  moreover have "ping_handler echo c = (Inr (), c')"
    using h s k c'(1) by (simp add: ping_handler_def scatch_def put_string_def put_command_def)
  ultimately show ?thesis using c' by simp
qed


section \<open>Properties\<close>

text \<open>A server with two routes for \<open>GET\<close>.\<close>

definition example_server :: "unit http_server" where
  "example_server =
     addRoute GET ''/'' (\<lambda>route. on_connection (file_handler ''/srv'' example_files (\<lambda>_ _. sret 0) route))
       (addRoute GET ''/ping'' (\<lambda>_. on_connection (ping_handler ''PONG''))
         \<lparr>srv_tmpdir = ''/tmp'', srv_keep_alive = 5, srv_handlers = replicate num_http_methods [],
          srv_default = (\<lambda>_. on_connection default_handler), srv_jwt_secret = []\<rparr>)"

lemma example_routes:
  "handlers_of example_server GET =
     [(''/'', \<lambda>route. on_connection (file_handler ''/srv'' example_files (\<lambda>_ _. sret 0) route)),
      (''/ping'', \<lambda>_. on_connection (ping_handler ''PONG''))]"
proof -
  have "''/'' < ''/ping''" by simp
  then show ?thesis
    by (simp add: example_server_def addRoute_def handlers_of_def num_http_methods_def eval_nat_numeral)
qed

definition example_env :: "unit serve_env" where
  "example_env = \<lparr>re_uploads = request_env 100, re_iter = (\<lambda>_. []), re_remove = (\<lambda>_. True), re_error_text = id,
     re_lua_setup = sret ()\<rparr>"

lemma example_setting: "srv_tmpdir example_server \<noteq> []" "re_lua_setup example_env = sret ()" "os_reliable mk_ostream"
  by (simp_all add: example_server_def addRoute_def example_env_def mk_ostream_def os_reliable_def)

text \<open>
  C4: the handler of a request is that of the longest route of its method that the URI starts with, and the default
  handler when no route fits; the order in which the routes were added does not matter.
\<close>

theorem longest_route_handles:
  assumes "get_handler srv c = (h, route)"
  shows "(route \<noteq> [] \<and> (route, h) \<in> set (handlers_of srv (http_method c)) \<and> prefix route (uri c) \<and>
      (\<forall>(r, h') \<in> set (handlers_of srv (http_method c)). prefix r (uri c) \<longrightarrow> length r \<le> length route)) \<or>
    (route = [] \<and> h = srv_default srv \<and>
      (\<forall>(r, h') \<in> set (handlers_of srv (http_method c)). r \<noteq> [] \<longrightarrow> \<not> prefix r (uri c)))"
proof -
  let ?rs = "handlers_of srv (http_method c)"
  obtain n b where nb: "match_loop (uri c) ?rs 0 None = (n, b)" by (cases "match_loop (uri c) ?rs 0 None")
  have "best_match (uri c) ([] @ ?rs) (match_loop (uri c) ?rs 0 None)"
    by (rule match_loop_best) (simp add: best_match_def)
  with nb have best: "best_match (uri c) ?rs (n, b)" by simp
  show ?thesis
  proof (cases b)
    case None
    with best nb assms show ?thesis by (auto simp: get_handler_def best_match_def)
  next
    case (Some p)
    obtain r h' where "p = (r, h')" by (cases p)
    with Some best nb assms show ?thesis by (auto simp: get_handler_def best_match_def)
  qed
qed

theorem longest_route_handles_witness:
  "let c = example_connection\<lparr>uri := ''/ping/x'', http_method := GET\<rparr> in
   (''/ping'' \<noteq> [] \<and> (''/ping'', \<lambda>_. on_connection (ping_handler ''PONG'')) \<in> set (handlers_of example_server (http_method c)) \<and>
      prefix ''/ping'' (uri c) \<and>
      (\<forall>(r, h') \<in> set (handlers_of example_server (http_method c)). prefix r (uri c) \<longrightarrow> length r \<le> length ''/ping'')) \<or>
    (''/ping'' = [] \<and> (\<lambda>_. on_connection (ping_handler ''PONG'')) = srv_default example_server \<and>
      (\<forall>(r, h') \<in> set (handlers_of example_server (http_method c)). r \<noteq> [] \<longrightarrow> \<not> prefix r (uri c)))"
  unfolding Let_def by (rule longest_route_handles) (simp add: get_handler_def example_routes)

text \<open>
  after any sequence of \<open>addRoute\<close> for a method, its table is sorted without a route twice, and each route has the handler
  that was added last; the tables of the other methods are as before.
\<close>

theorem routes_after_adding:
  assumes "sorted_table (handlers_of srv m)" and "length (srv_handlers srv) = num_http_methods"
  shows "let srv' = fold (\<lambda>(p, h). addRoute m p h) rs srv in
    sorted_table (handlers_of srv' m) \<and> map_of (handlers_of srv' m) = map_of (handlers_of srv m) ++ map_of (rev rs) \<and>
    (\<forall>n. n \<noteq> m \<longrightarrow> handlers_of srv' n = handlers_of srv n)"
proof -
  have "handlers_of (fold (\<lambda>(p, h). addRoute m p h) rs srv) m = fold (\<lambda>(p, h). map_put p h) rs (handlers_of srv m) \<and>
    (\<forall>n. n \<noteq> m \<longrightarrow> handlers_of (fold (\<lambda>(p, h). addRoute m p h) rs srv) n = handlers_of srv n)"
    using assms(2)
  proof (induction rs arbitrary: srv)
    case (Cons x rs)
    obtain p h where x: "x = (p, h)" by (cases x)
    have "length (srv_handlers (addRoute m p h srv)) = num_http_methods"
      using Cons.prems by (simp add: addRoute_def)
    from Cons.IH [OF this] show ?case
      using x Cons.prems method_index_less [of m] by (auto simp: addRoute_def handlers_of_def nth_list_update method_index_inject)
  qed simp
  with routes.puts_ok [OF assms(1), of rs] routes.get_puts [OF assms(1), of rs] show ?thesis by (simp add: Let_def)
qed

theorem routes_after_adding_witness:
  "let srv' = fold (\<lambda>(p, h). addRoute POST p h) [(''/b'', \<lambda>_. sret ()), (''/a'', \<lambda>_. sret ())] example_server in
    sorted_table (handlers_of srv' POST) \<and>
    map_of (handlers_of srv' POST) = map_of (handlers_of example_server POST) ++ map_of (rev [(''/b'', \<lambda>_. sret ()), (''/a'', \<lambda>_. sret ())]) \<and>
    (\<forall>n. n \<noteq> POST \<longrightarrow> handlers_of srv' n = handlers_of example_server n)"
proof (rule routes_after_adding)
  have "handlers_of example_server POST = []"
    by (simp add: example_server_def addRoute_def handlers_of_def num_http_methods_def eval_nat_numeral)
  then show "sorted_table (handlers_of example_server POST)" by (simp add: sorted_table_def)
qed (simp add: example_server_def addRoute_def)

text \<open>
  C23: with a directory for temporary files, neither a client that goes away nor an \<open>Error\<close> of the request or its handler
  leaves \<open>processRequest\<close>: the connection is closed.
\<close>

theorem processRequest_catches:
  assumes "srv_tmpdir srv \<noteq> []"
  shows "case fst (processRequest srv ev i q peer port sec ka w) of
      Inl e \<Rightarrow> (\<forall>m. e \<noteq> InputFailure m) \<and> (\<forall>m. e \<noteq> CsError m)
    | Inr st \<Rightarrow> True"
  using assms after_exception_throws [of ev] end_of_request_throws [of ev]
  by (auto simp: processRequest_def split: if_splits prod.splits sum.splits) blast+

theorem processRequest_catches_witness:
  "case fst (processRequest example_server example_env (mk_istream ''x'') mk_ostream [] 80 False 1 ()) of
      Inl e \<Rightarrow> (\<forall>m. e \<noteq> InputFailure m) \<and> (\<forall>m. e \<noteq> CsError m)
    | Inr st \<Rightarrow> True"
  by (rule processRequest_catches [OF example_setting(1)])

text \<open>Requests without a \<open>Connection\<close> header, as a client writes them.\<close>

definition plain_request :: "istream \<Rightarrow> string \<Rightarrow> (string \<times> string) list \<Rightarrow> string \<Rightarrow> bool" where
  "plain_request i path hs r \<longleftrightarrow>
     is_good i \<and> rest i = request_line ''GET'' path @ CRLF @ header_text hs @ r \<and> word_ok path \<and> CHR ''?'' \<notin> set path \<and>
     list_all header_ok hs \<and> length (request_line ''GET'' path) < max_headerline_len \<and> ''origin'' \<notin> fst ` set (lowered hs)"

text \<open>The two examples: a request for the ping handler, and one for a file with a range.\<close>

definition example_text :: "string \<Rightarrow> (string \<times> string) list \<Rightarrow> istream" where
  "example_text path hs = mk_istream (request_line ''GET'' path @ CRLF @ header_text hs @ [])"

definition example_range :: "(string \<times> string) list" where
  "example_range = [(''Range'', ''bytes='' @ dec_string (2 ^ 31) @ ''-'')]"

lemma example_plain: "plain_request (example_text ''/ping'' []) ''/ping'' [] []"
proof -
  have "word_ok ''/ping''" "length (request_line ''GET'' ''/ping'') < 100" by code_simp+
  then show ?thesis by (simp add: plain_request_def example_text_def mk_istream_def is_good_def max_headerline_len_def)
qed

lemma example_plain_range: "plain_request (example_text ''/a.bin'' example_range) ''/a.bin'' example_range []"
proof -
  have "word_ok ''/a.bin''" "length (request_line ''GET'' ''/a.bin'') < 100" by code_simp+
  moreover have "dec_string (2 ^ 31) = ''2147483648''"
  proof -
    have "digit_chr 1 = CHR ''1''" "digit_chr 2 = CHR ''2''" "digit_chr 3 = CHR ''3''" "digit_chr 4 = CHR ''4''"
      "digit_chr 6 = CHR ''6''" "digit_chr 7 = CHR ''7''" "digit_chr 8 = CHR ''8''" by code_simp+
    then show ?thesis by (simp add: dec_string_def base_string.simps)
  qed
  then have r: "example_range = [(''Range'', ''bytes=2147483648-'')]" by (simp add: example_range_def)
  have l: "asciitolower ''Range'' = ''range''" "trim_copy ''Range'' = ''Range''" "trim_copy ''bytes=2147483648-'' = ''bytes=2147483648-''"
    by code_simp+
  have "header_ok (''Range'', ''bytes=2147483648-'')"
    by (simp add: l max_headerline_len_def) (simp add: CR_def LF_def)
  then have "list_all header_ok example_range" "''origin'' \<notin> fst ` set (lowered example_range)"
    by (simp_all add: r lowered_def l del: header_ok.simps)
  ultimately show ?thesis by (simp add: plain_request_def example_text_def mk_istream_def is_good_def max_headerline_len_def)
qed

lemma example_dispatch:
  "uri c = ''/ping'' \<Longrightarrow> http_method c = GET \<Longrightarrow> get_handler example_server c = (\<lambda>_. on_connection (ping_handler ''PONG''), ''/ping'')"
  "uri c = ''/a.bin'' \<Longrightarrow> http_method c = GET \<Longrightarrow>
     get_handler example_server c = (\<lambda>rt. on_connection (file_handler ''/srv'' example_files (\<lambda>_ _. sret 0) rt), ''/'')"
  by (simp_all add: get_handler_def example_routes Let_def)

text \<open>
  C3: from bytes to bytes: a \<open>GET\<close> request whose longest route belongs to the ping handler is answered on the stream with the text
  of the handler, complete with its length; the connection is not kept, and the input stands behind the request.
\<close>

theorem ping_served:
  assumes "plain_request i path hs r" and "os_reliable q" and "srv_tmpdir srv \<noteq> []" and "re_lua_setup ev = sret ()"
    and "\<And>c. uri c = path \<Longrightarrow> http_method c = GET \<Longrightarrow> get_handler srv c = (\<lambda>_. on_connection (ping_handler echo), route)"
  shows "\<exists>q'. processRequest srv ev i q peer port sec ka w = (Inr T_CLOSE, 0, i\<lparr>rest := r\<rparr>, q', w) \<and>
    written q' = written q @ response (''HTTP/1.1 200 OK'' @ CRLF)
      (re_iter ev [''Connection'' \<mapsto> ''close'', ''Content-Type'' \<mapsto> ''text/text; charset=utf-8'']) echo @ CRLF"
proof -
  obtain c0 where f: "fresh_get (i\<lparr>rest := r\<rparr>) q (re_iter ev) path (map_of (rev (lowered hs))) c0"
    "header_out c0 = [''Connection'' \<mapsto> ''close'']"
    and run: "\<And>c1 w1. on_connection (ping_handler echo) (c0, w) = (Inr (), c1, w1) \<Longrightarrow>
       processRequest srv ev i q peer port sec ka w = (Inr (next_status c1), 0, ins c1, os (connection_destroy c1), w1)"
    using get_request_runs [of i path hs r srv ev "\<lambda>_. on_connection (ping_handler echo)" route q w peer port sec ka] assms
    unfolding plain_request_def by blast
  have "plain c0" using f assms(2) by (simp add: plain_def fresh_get_def sound_def)
  then obtain c' where c': "ping_handler echo c0 = (Inr (), c')" "finished c'" "sound c'" "ins c' = ins c0" "keep_alive c' = keep_alive c0"
    "written (os c') = written (os c0) @ response (status_line c0)
      (map_iter c0 ((header_out c0)(''Content-Type'' \<mapsto> ''text/text; charset=utf-8''))) echo"
    using ping_answer [of c0 echo] f by (auto simp: fresh_get_def)
  have "on_connection (ping_handler echo) (c0, w) = (Inr (), c', w)" using c'(1) by (simp add: on_connection_def)
  from run [OF this] show ?thesis
    using c' f destroy_finished [OF c'(3,2)] by (simp add: fresh_get_def next_status_def)
qed

theorem ping_served_witness:
  "\<exists>q'. processRequest example_server example_env (example_text ''/ping'' []) mk_ostream [] 80 False 1 () =
      (Inr T_CLOSE, 0, (example_text ''/ping'' [])\<lparr>rest := []\<rparr>, q', ()) \<and>
    written q' = written mk_ostream @ response (''HTTP/1.1 200 OK'' @ CRLF)
      (re_iter example_env [''Connection'' \<mapsto> ''close'', ''Content-Type'' \<mapsto> ''text/text; charset=utf-8'']) ''PONG'' @ CRLF"
  by (rule ping_served [OF example_plain example_setting(3,1,2) example_dispatch(1)])

text \<open>
  a single request for a file with a \<open>Range\<close> that starts behind \<open>2^31 - 1\<close> makes \<open>std::out_of_range\<close> leave \<open>processRequest\<close>: nothing
  catches it in the worker thread, and the whole server ends.
\<close>

theorem range_request_not_caught:
  assumes "plain_request i path hs r" and "srv_tmpdir srv \<noteq> []" and "re_lua_setup ev = sret ()"
    and "\<And>c. uri c = path \<Longrightarrow> http_method c = GET \<Longrightarrow>
      get_handler srv c = (\<lambda>rt. on_connection (file_handler docroot fs exec rt), route)"
    and "map_of (rev (lowered hs)) ''range'' = Some (''bytes='' @ dec_string a @ ''-'')" and "2 ^ 31 \<le> a"
    and "\<And>c. uri c = path \<Longrightarrow> file_request docroot fs route c p \<and> other_kind (request_extension route c) mt"
    and "getFileMimetype (fs_magic fs) p = Inr (mt, enc)" and "getBestFileMimetype (fs_magic fs) p = Inr mime"
  shows "fst (processRequest srv ev i q peer port sec ka w) = Inl StdOutOfRange"
proof -
  obtain c0 where f: "fresh_get (i\<lparr>rest := r\<rparr>) q (re_iter ev) path (map_of (rev (lowered hs))) c0"
    and run: "\<And>e c1 w1. on_connection (file_handler docroot fs exec route) (c0, w) = (Inl e, c1, w1) \<Longrightarrow> \<forall>m. e \<noteq> InputFailure m \<Longrightarrow>
       processRequest srv ev i q peer port sec ka w =
         (case after_exception ev e (os (connection_destroy c1)) of (r1, q1) \<Rightarrow> (r1, 0, ins c1, q1, w1))"
    using get_request_runs [of i path hs r srv ev "\<lambda>rt. on_connection (file_handler docroot fs exec rt)" route q w peer port sec ka] assms
    unfolding plain_request_def by blast
  have "fst (file_handler docroot fs exec route c0) = Inl StdOutOfRange"
  proof (rule range_overflow)
    have u: "uri c0 = path" using f by (simp add: fresh_get_def)
    show "file_request docroot fs route c0 p" "other_kind (request_extension route c0) mt" using assms(7) [OF u] by simp_all
    show "header_in c0 ''range'' = Some (''bytes='' @ dec_string a @ ''-'')" using f assms(5) by (simp add: fresh_get_def)
  qed (fact assms)+
  then obtain c1 where "file_handler docroot fs exec route c0 = (Inl StdOutOfRange, c1)"
    by (cases "file_handler docroot fs exec route c0") auto
  then have "on_connection (file_handler docroot fs exec route) (c0, w) = (Inl StdOutOfRange, c1, w)" by (simp add: on_connection_def)
  from run [OF this] show ?thesis by (simp add: after_exception_def)
qed

theorem range_request_not_caught_witness:
  "fst (processRequest example_server example_env (example_text ''/a.bin'' example_range) mk_ostream [] 80 False 1 ()) = Inl StdOutOfRange"
proof (rule range_request_not_caught [OF example_plain_range])
  show "map_of (rev (lowered example_range)) ''range'' = Some (''bytes='' @ dec_string (2 ^ 31) @ ''-'')"
  proof -
    have "asciitolower ''Range'' = ''range''" by code_simp
    then show ?thesis unfolding example_range_def lowered_def by simp
  qed
  fix c :: connection assume u: "uri c = ''/a.bin''"
  then have "file_request d fs rt c p = file_request d fs rt (example_request Map.empty) p"
    "request_extension rt c = request_extension rt (example_request Map.empty)" for d fs rt p
    by (simp_all add: file_request_def request_extension_def)
  then show "file_request ''/srv'' example_files ''/'' c ''/srv/a.bin'' \<and> other_kind (request_extension ''/'' c) ''application/octet-stream''"
    using example_file_request example_kind by simp
qed (simp_all only: example_setting example_dispatch(2) example_mime order_refl not_False_eq_True)

end
