(* ===== verification/LuaConf.thy ===== *)
theory LuaConf
  imports HttpText Connection Float32
begin

text \<open>
  Routes as text and values of a Lua configuration file: \<open>RouteInfo\<close> and the \<open>config\<close> functions of
  \<open>lib/LuaServer.cpp\<close>. The interpreter itself is a library; what a configuration script leaves behind is a table of global
  values, which is the argument of these functions. Numbers are rationals, and how Lua turns them into text and back is the
  argument \<open>lua_numbers\<close>.
\<close>

section \<open>Routes\<close>

record route_info =
  ri_method :: http_methods
  ri_route :: string
  ri_data :: string

definition known_methods :: "(string \<times> http_methods) list" where
  "known_methods = [(''GET'', GET), (''PUT'', PUT), (''POST'', POST), (''DELETE'', DELETE), (''OPTIONS'', OPTIONS),
     (''CONNECT'', CONNECT), (''HEAD'', HEAD), (''OTHER'', OTHER)]"

text \<open>A text with less than three parts, or with a method that is not known, gives a route that is empty.\<close>

definition invalid_route :: route_info where
  "invalid_route = \<lparr>ri_method = OTHER, ri_route = [], ri_data = []\<rparr>"

definition parse_route :: "string \<Rightarrow> route_info" where
  "parse_route str =
     (let rinfo = split_str str (CHR '':'') in
      if length rinfo < 3 then invalid_route
      else (case map_of known_methods (strtoupper (rinfo ! 0)) of
          None \<Rightarrow> invalid_route
        | Some m \<Rightarrow> \<lparr>ri_method = m, ri_route = rinfo ! 1, ri_data = rinfo ! 2\<rparr>))"

text \<open>\<open>TRACE\<close> has no text.\<close>

fun method_as_string :: "http_methods \<Rightarrow> exn + string" where
  "method_as_string GET = Inr ''GET''"
| "method_as_string PUT = Inr ''PUT''"
| "method_as_string POST = Inr ''POST''"
| "method_as_string DELETE = Inr ''DELETE''"
| "method_as_string OPTIONS = Inr ''OPTIONS''"
| "method_as_string CONNECT = Inr ''CONNECT''"
| "method_as_string HEAD = Inr ''HEAD''"
| "method_as_string OTHER = Inr ''OTHER''"
| "method_as_string TRACE = Inl (CsError ''No valid method: 6'')"

definition route_string :: "route_info \<Rightarrow> exn + string" where
  "route_string r =
     (case method_as_string (ri_method r) of
        Inl e \<Rightarrow> Inl e
      | Inr m \<Rightarrow> Inr (m @ '':'' @ ri_route r @ '':'' @ ri_data r))"

section \<open>Values of Lua\<close>

text \<open>\<open>LOther\<close> stands for functions, threads and user data.\<close>

datatype lua_object =
    LNil
  | LBoolean bool
  | LInteger int
  | LNumber rat
  | LString string
  | LTable "(lua_object \<times> lua_object) list"
  | LOther

record lua_numbers =
  number_text :: "rat \<Rightarrow> string"
  text_number :: "string \<Rightarrow> rat option"

definition raw_get :: "(lua_object \<times> lua_object) list \<Rightarrow> lua_object \<Rightarrow> lua_object" where
  "raw_get t k = (case map_of t k of None \<Rightarrow> LNil | Some v \<Rightarrow> v)"

text \<open>\<open>lua_isstring\<close> and \<open>lua_tostring\<close>: a number is a string as well. A C string ends at its first zero byte.\<close>

definition lua_cstring :: "string \<Rightarrow> string" where
  "lua_cstring s = takeWhile (\<lambda>c. c \<noteq> CHR 0x00) s"

lemma cstring_same: "CHR 0x00 \<notin> set s \<Longrightarrow> lua_cstring s = s"
  unfolding lua_cstring_def takeWhile_eq_all_conv by auto

definition lua_tostring :: "lua_numbers \<Rightarrow> lua_object \<Rightarrow> string option" where
  "lua_tostring nums v =
     (case v of
        LString s \<Rightarrow> Some (lua_cstring s)
      | LInteger k \<Rightarrow> Some (int_string k)
      | LNumber x \<Rightarrow> Some (number_text nums x)
      | _ \<Rightarrow> None)"

definition lua_tonumber :: "lua_numbers \<Rightarrow> lua_object \<Rightarrow> rat option" where
  "lua_tonumber nums v =
     (case v of
        LInteger k \<Rightarrow> Some (f64 (of_int k))
      | LNumber x \<Rightarrow> Some x
      | LString s \<Rightarrow> text_number nums s
      | _ \<Rightarrow> None)"

section \<open>Reading the configuration file\<close>

type_synonym lua_globals = "string \<Rightarrow> lua_object"

text \<open>
  The variable of a table: the default where the table or the variable is missing, and otherwise what
  \<open>conv\<close> makes of the value, or the error.
\<close>

definition config_value ::
  "lua_globals \<Rightarrow> string \<Rightarrow> string \<Rightarrow> 'a \<Rightarrow> (lua_object \<Rightarrow> exn + 'a) \<Rightarrow> exn + 'a" where
  "config_value g table variable defval conv =
     (case g table of
        LTable t \<Rightarrow> (case raw_get t (LString variable) of LNil \<Rightarrow> Inr defval | v \<Rightarrow> conv v)
      | _ \<Rightarrow> Inr defval)"

definition expected :: "string \<Rightarrow> string \<Rightarrow> string \<Rightarrow> exn" where
  "expected what table variable = CsError (what @ '' expected for '' @ table @ ''.'' @ variable)"

definition configString :: "lua_numbers \<Rightarrow> lua_globals \<Rightarrow> string \<Rightarrow> string \<Rightarrow> string \<Rightarrow> exn + string" where
  "configString nums g table variable defval = config_value g table variable defval
     (\<lambda>v. case lua_tostring nums v of None \<Rightarrow> Inl (expected ''String'' table variable) | Some s \<Rightarrow> Inr s)"

definition configBoolean :: "lua_globals \<Rightarrow> string \<Rightarrow> string \<Rightarrow> bool \<Rightarrow> exn + bool" where
  "configBoolean g table variable defval = config_value g table variable defval
     (\<lambda>v. case v of LBoolean b \<Rightarrow> Inr b | _ \<Rightarrow> Inl (expected ''Boolean'' table variable))"

text \<open>A Lua integer has 64 bits; the cast to \<open>int\<close> takes the lower 32.\<close>

definition configInteger :: "lua_globals \<Rightarrow> string \<Rightarrow> string \<Rightarrow> int \<Rightarrow> exn + int" where
  "configInteger g table variable defval = config_value g table variable defval
     (\<lambda>v. case v of LInteger k \<Rightarrow> Inr (to_int32 k) | _ \<Rightarrow> Inl (expected ''Integer'' table variable))"

definition configFloat :: "lua_numbers \<Rightarrow> lua_globals \<Rightarrow> string \<Rightarrow> string \<Rightarrow> rat \<Rightarrow> exn + rat" where
  "configFloat nums g table variable defval = config_value g table variable defval
     (\<lambda>v. case lua_tonumber nums v of None \<Rightarrow> Inl (expected ''Number'' table variable) | Some x \<Rightarrow> Inr (f32 x))"

datatype level = L_TRACE | L_DEBUG | L_INFO | L_WARN | L_ERR | L_CRITICAL | L_OFF

definition level_names :: "(string \<times> level) list" where
  "level_names = [(''TRACE'', L_TRACE), (''DEBUG'', L_DEBUG), (''INFO'', L_INFO), (''WARN'', L_WARN), (''ERR'', L_ERR),
     (''CRITICAL'', L_CRITICAL), (''OFF'', L_OFF)]"

definition quoted :: "string \<Rightarrow> string" where
  "quoted s = [CHR 0x22] @ s @ [CHR 0x22]"

definition levels_text :: string where
  "levels_text = quoted ''TRACE'' @ '', '' @ quoted ''DEBUG'' @ '', '' @ quoted ''INFO'' @ '', '' @ quoted ''WARN'' @ '', '' @
     quoted ''ERR'' @ '', '' @ quoted ''CRITICAL'' @ '' or '' @ quoted ''OFF''"

definition configLoglevel :: "lua_numbers \<Rightarrow> lua_globals \<Rightarrow> string \<Rightarrow> string \<Rightarrow> level \<Rightarrow> exn + level" where
  "configLoglevel nums g table variable defval = config_value g table variable defval
     (\<lambda>v. case lua_tostring nums v of
        None \<Rightarrow> Inl (expected levels_text table variable)
      | Some s \<Rightarrow> (case map_of level_names s of None \<Rightarrow> Inl (expected levels_text table variable) | Some l \<Rightarrow> Inr l))"

text \<open>
  The elements of a table from the index 1 up to the first that is missing; a table of \<open>n\<close> entries has
  at most \<open>n\<close> of them.
\<close>

definition array_part :: "(lua_object \<times> lua_object) list \<Rightarrow> lua_object list" where
  "array_part t = takeWhile (\<lambda>v. v \<noteq> LNil) (map (\<lambda>i. raw_get t (LInteger (int i))) [1..<length t + 2])"

definition not_a_table :: "string \<Rightarrow> exn" where
  "not_a_table variable = CsError (''Value '' @ [CHR 0x27] @ variable @ [CHR 0x27] @ '' in config file must be a table'')"

text \<open>There is no default; elements that are not strings are left out.\<close>

definition configStringList :: "lua_numbers \<Rightarrow> lua_globals \<Rightarrow> string \<Rightarrow> string \<Rightarrow> exn + string list" where
  "configStringList nums g table variable = config_value g table variable []
     (\<lambda>v. case v of
        LTable t \<Rightarrow> Inr (List.map_filter (lua_tostring nums) (array_part t))
      | _ \<Rightarrow> Inl (not_a_table variable))"

text \<open>
  \<open>luaL_checktype\<close> outside of a protected call ends the process; so it does for a missing field, before
  the test for \<open>nil\<close>. The method is compared as it is written.
\<close>

definition lua_panic :: exn where
  "lua_panic = StdRuntime ''PANIC: unprotected error in call to Lua API''"

definition route_field :: "(lua_object \<times> lua_object) list \<Rightarrow> string \<Rightarrow> exn + string" where
  "route_field t name = (case raw_get t (LString name) of LString s \<Rightarrow> Inr (lua_cstring s) | _ \<Rightarrow> Inl lua_panic)"

definition config_route :: "lua_object \<Rightarrow> exn + route_info" where
  "config_route v =
     (case v of
        LTable t \<Rightarrow>
          (case route_field t ''method'' of Inl e \<Rightarrow> Inl e | Inr m \<Rightarrow>
          (case map_of known_methods m of None \<Rightarrow> Inl (CsError (''Unknown HTTP method'' @ m)) | Some meth \<Rightarrow>
          (case route_field t ''route'' of Inl e \<Rightarrow> Inl e | Inr r \<Rightarrow>
          (case route_field t ''script'' of Inl e \<Rightarrow> Inl e | Inr s \<Rightarrow>
             Inr \<lparr>ri_method = meth, ri_route = r, ri_data = s\<rparr>))))
      | _ \<Rightarrow> Inl lua_panic)"

fun config_routes :: "lua_object list \<Rightarrow> exn + route_info list" where
  "config_routes [] = Inr []"
| "config_routes (v # vs) =
     (case config_route v of Inl e \<Rightarrow> Inl e | Inr r \<Rightarrow>
     (case config_routes vs of Inl e \<Rightarrow> Inl e | Inr rs \<Rightarrow> Inr (r # rs)))"

definition configRoute :: "lua_globals \<Rightarrow> string \<Rightarrow> string \<Rightarrow> route_info list \<Rightarrow> exn + route_info list" where
  "configRoute g table variable defval = config_value g table variable defval
     (\<lambda>v. case v of LTable t \<Rightarrow> config_routes (array_part t) | _ \<Rightarrow> Inl (not_a_table variable))"

end
