(* ===== verification/Config.thy ===== *)
theory Config
  imports LuaConf "HOL-Library.AList"
begin

text \<open>
  The configuration: \<open>lib/ConfValue.cpp\<close>, \<open>lib/ConfValue.h\<close> and \<open>lib/CserverConf.cpp\<close>. What the command line parser CLI11 finds on
  the command line and in the environment is an argument: the options that are given, with values of the
  type of the option. So is the format \<open>{:.2}\<close> of the library fmt.
\<close>

section \<open>Amounts of data\<close>

definition mul64 :: "int \<Rightarrow> int \<Rightarrow> exn + nat" where
  "mul64 a b = (if - (2 ^ 63) \<le> a * b \<and> a * b < 2 ^ 63 then Inr (to_size_t (a * b)) else Inl Undefined)"

text \<open>The letter in front of a \<open>B\<close> counts, if there is room for both; the number is what is in front of it.\<close>

definition volume_unit :: "string \<Rightarrow> char \<times> nat" where
  "volume_unit s =
     (let l = length s; c = (if l > 1 then toupper (s ! (l - 1)) else CHR 0x00) in
      if l > 2 \<and> c = CHR ''B'' then (toupper (s ! (l - 2)), 2) else (c, 1))"

definition data_volume :: "string \<Rightarrow> exn + nat" where
  "data_volume s =
     (case volume_unit s of (c, ll) \<Rightarrow>
        let amount = (\<lambda>k. case stoll (take (length s - ll) s) of Inl e \<Rightarrow> Inl e | Inr n \<Rightarrow> mul64 n (1024 ^ k)) in
        if c = CHR ''K'' then amount 1
        else if c = CHR ''M'' then amount 2
        else if c = CHR ''G'' then amount 3
        else if c = CHR ''T'' then amount 4
        else (case stoll s of Inl e \<Rightarrow> Inl e | Inr n \<Rightarrow> Inr (to_size_t n)))"

definition volume_string :: "(rat \<Rightarrow> string) \<Rightarrow> nat \<Rightarrow> string" where
  "volume_string fmt2 n =
     (if n div 1024 ^ 4 > 0 then fmt2 (f32_div (f32_of_int (int n)) (f32_of_int (1024 ^ 4))) @ ''TB''
      else if n div 1024 ^ 3 > 0 then fmt2 (f32_div (f32_of_int (int n)) (f32_of_int (1024 ^ 3))) @ ''GB''
      else if n div 1024 ^ 2 > 0 then fmt2 (f32_div (f32_of_int (int n)) (f32_of_int (1024 ^ 2))) @ ''MB''
      else dec_string n @ ''B'')"

section \<open>A value\<close>

text \<open>The member that belongs to the type of the value; the others are never read.\<close>

datatype conf_data =
    BOOL bool
  | INTEGER int
  | FLOAT rat
  | STRING string
  | STRINGVEC "string list"
  | DATASIZE nat
  | LOGLEVEL level
  | LUAROUTES "string list"

record conf_value =
  cv_prefix :: string
  cv_optionname :: string
  cv_data :: conf_data
  cv_description :: string
  cv_envname :: string

datatype data_type = D_BOOL | D_INTEGER | D_FLOAT | D_STRING | D_STRINGVEC | D_DATASIZE | D_LOGLEVEL | D_LUAROUTES

fun type_of :: "conf_data \<Rightarrow> data_type" where
  "type_of (BOOL _) = D_BOOL"
| "type_of (INTEGER _) = D_INTEGER"
| "type_of (FLOAT _) = D_FLOAT"
| "type_of (STRING _) = D_STRING"
| "type_of (STRINGVEC _) = D_STRINGVEC"
| "type_of (DATASIZE _) = D_DATASIZE"
| "type_of (LOGLEVEL _) = D_LOGLEVEL"
| "type_of (LUAROUTES _) = D_LUAROUTES"

text \<open>The copy constructor copies neither the name of the option nor the truth value.\<close>

definition conf_copy :: "conf_value \<Rightarrow> conf_value" where
  "conf_copy cv = cv\<lparr>cv_optionname := [], cv_data := (case cv_data cv of BOOL _ \<Rightarrow> BOOL False | d \<Rightarrow> d)\<rparr>"

definition value_bool :: "conf_value \<Rightarrow> bool option" where
  "value_bool cv = (case cv_data cv of BOOL b \<Rightarrow> Some b | _ \<Rightarrow> None)"

definition value_int :: "conf_value \<Rightarrow> int option" where
  "value_int cv = (case cv_data cv of INTEGER k \<Rightarrow> Some k | _ \<Rightarrow> None)"

definition value_float :: "conf_value \<Rightarrow> rat option" where
  "value_float cv = (case cv_data cv of FLOAT x \<Rightarrow> Some x | _ \<Rightarrow> None)"

definition value_string :: "conf_value \<Rightarrow> string option" where
  "value_string cv = (case cv_data cv of STRING s \<Rightarrow> Some s | _ \<Rightarrow> None)"

definition value_stringvec :: "conf_value \<Rightarrow> string list option" where
  "value_stringvec cv = (case cv_data cv of STRINGVEC ss \<Rightarrow> Some ss | _ \<Rightarrow> None)"

definition value_datasize :: "conf_value \<Rightarrow> nat option" where
  "value_datasize cv = (case cv_data cv of DATASIZE n \<Rightarrow> Some n | _ \<Rightarrow> None)"

definition value_loglevel :: "conf_value \<Rightarrow> level option" where
  "value_loglevel cv = (case cv_data cv of LOGLEVEL l \<Rightarrow> Some l | _ \<Rightarrow> None)"

text \<open>The test for a semicolon is \<open>find(';')\<close> as a truth value: it fails only when the text starts with one.\<close>

definition value_luaroutes :: "conf_value \<Rightarrow> route_info list option" where
  "value_luaroutes cv =
     (case cv_data cv of
        LUAROUTES rs \<Rightarrow>
          Some (map parse_route
            (case rs of [r] \<Rightarrow> if find_char (CHR '';'') r = Some 0 then rs else split_str r (CHR '';'') | _ \<Rightarrow> rs))
      | _ \<Rightarrow> None)"

fun route_strings :: "route_info list \<Rightarrow> exn + string list" where
  "route_strings [] = Inr []"
| "route_strings (r # rs) =
     (case route_string r of Inl e \<Rightarrow> Inl e | Inr s \<Rightarrow>
     (case route_strings rs of Inl e \<Rightarrow> Inl e | Inr ss \<Rightarrow> Inr (s # ss)))"

section \<open>The configuration\<close>

text \<open>The values in the order in which the map is walked through.\<close>

record conf =
  lua_global_name :: string
  conf_values :: "(string \<times> conf_value) list"
  serverconf_ok :: int

definition new_conf :: "string \<Rightarrow> conf" where
  "new_conf name = \<lparr>lua_global_name = name, conf_values = [], serverconf_ok = 0\<rparr>"

definition conf_get :: "conf \<Rightarrow> string \<Rightarrow> (conf_value \<Rightarrow> 'a option) \<Rightarrow> 'a option" where
  "conf_get c name f = (case map_of (conf_values c) name of None \<Rightarrow> None | Some cv \<Rightarrow> f cv)"

definition get_luaroutes :: "conf \<Rightarrow> string \<Rightarrow> string \<Rightarrow> route_info list option" where
  "get_luaroutes c prefix name = conf_get c (prefix @ ''_'' @ name) value_luaroutes"

text \<open>Nine operations, which differ in the type of the value; routes are kept under the name of their handler.\<close>

definition add_value :: "string \<Rightarrow> string \<Rightarrow> string \<Rightarrow> conf_data \<Rightarrow> string \<Rightarrow> conf \<Rightarrow> conf" where
  "add_value key prefix name d description c =
     c\<lparr>conf_values := AList.update key
        \<lparr>cv_prefix = prefix, cv_optionname = ''--'' @ key, cv_data = d, cv_description = description,
         cv_envname = strtoupper prefix @ ''_'' @ strtoupper name\<rparr> (conf_values c)\<rparr>"

definition add_config :: "string \<Rightarrow> string \<Rightarrow> conf_data \<Rightarrow> string \<Rightarrow> conf \<Rightarrow> conf" where
  "add_config prefix name d description =
     add_value (case d of LUAROUTES _ \<Rightarrow> prefix @ ''_'' @ name | _ \<Rightarrow> name) prefix name d description"

section \<open>Command line, environment and file\<close>

datatype cli_result = CliError int | Given "string \<Rightarrow> conf_data option"

datatype file_value = Plain conf_data | Routes "route_info list"

definition map_result :: "('a \<Rightarrow> 'b) \<Rightarrow> exn + 'a \<Rightarrow> exn + 'b" where
  "map_result f r = (case r of Inl e \<Rightarrow> Inl e | Inr x \<Rightarrow> Inr (f x))"

text \<open>
  What the file says of one value, whose default is what the value is now. The truth value is read as an
  integer; a list has no default; an amount of data goes through its text.
\<close>

definition file_entry :: "(rat \<Rightarrow> string) \<Rightarrow> lua_numbers \<Rightarrow> lua_globals \<Rightarrow> string \<times> conf_value \<Rightarrow> exn + file_value" where
  "file_entry fmt2 nums g = (\<lambda>(name, cv).
     let p = cv_prefix cv in
     case cv_data cv of
       BOOL b \<Rightarrow> map_result (Plain \<circ> INTEGER) (configInteger g p name (if b then 1 else 0))
     | INTEGER k \<Rightarrow> map_result (Plain \<circ> INTEGER) (configInteger g p name k)
     | FLOAT x \<Rightarrow> map_result (Plain \<circ> FLOAT) (configFloat nums g p name x)
     | STRING s \<Rightarrow> map_result (Plain \<circ> STRING) (configString nums g p name s)
     | STRINGVEC ss \<Rightarrow> map_result (Plain \<circ> STRINGVEC) (configStringList nums g p name)
     | DATASIZE n \<Rightarrow>
         (case configString nums g p name (volume_string fmt2 n) of
            Inl e \<Rightarrow> Inl e
          | Inr s \<Rightarrow> map_result (Plain \<circ> DATASIZE) (data_volume s))
     | LOGLEVEL l \<Rightarrow> map_result (Plain \<circ> LOGLEVEL) (configLoglevel nums g p name l)
     | LUAROUTES rs \<Rightarrow>
         map_result Routes (configRoute g p name (case value_luaroutes cv of None \<Rightarrow> [] | Some ris \<Rightarrow> ris)))"

fun file_entries :: "(string \<times> conf_value \<Rightarrow> exn + file_value) \<Rightarrow> (string \<times> conf_value) list \<Rightarrow> exn + file_value list" where
  "file_entries f [] = Inr []"
| "file_entries f (x # xs) =
     (case f x of Inl e \<Rightarrow> Inl e | Inr v \<Rightarrow>
     (case file_entries f xs of Inl e \<Rightarrow> Inl e | Inr vs \<Rightarrow> Inr (v # vs)))"

text \<open>\<open>std::get\<close> of a variant that holds another type throws.\<close>

definition bad_variant :: exn where
  "bad_variant = StdRuntime ''std::bad_variant_access''"

definition take_entry :: "conf_data \<Rightarrow> file_value \<Rightarrow> exn + conf_data" where
  "take_entry old v =
     (case v of
        Plain d \<Rightarrow> if type_of d = type_of old then Inr d else Inl bad_variant
      | Routes rs \<Rightarrow> (case old of LUAROUTES _ \<Rightarrow> map_result LUAROUTES (route_strings rs) | _ \<Rightarrow> Inl bad_variant))"

fun apply_entries ::
  "(string \<Rightarrow> conf_data option) \<Rightarrow> (string \<times> conf_value) list \<Rightarrow> file_value list \<Rightarrow> (exn + unit) \<times> (string \<times> conf_value) list" where
  "apply_entries given ((name, cv) # xs) (v # vs) =
     (if given (cv_optionname cv) \<noteq> None then
        (case apply_entries given xs vs of (r, ys) \<Rightarrow> (r, (name, cv) # ys))
      else (case take_entry (cv_data cv) v of
          Inl e \<Rightarrow> (Inl e, (name, cv) # xs)
        | Inr d \<Rightarrow> (case apply_entries given xs vs of (r, ys) \<Rightarrow> (r, (name, cv\<lparr>cv_data := d\<rparr>) # ys))))"
| "apply_entries given xs vs = (Inr (), xs)"

definition with_given :: "(string \<Rightarrow> conf_data option) \<Rightarrow> (string \<times> conf_value) list \<Rightarrow> (string \<times> conf_value) list" where
  "with_given given = map (\<lambda>(name, cv).
     (name, case given (cv_optionname cv) of None \<Rightarrow> cv | Some d \<Rightarrow> cv\<lparr>cv_data := d\<rparr>))"

definition read_file ::
  "(rat \<Rightarrow> string) \<Rightarrow> lua_numbers \<Rightarrow> (string \<Rightarrow> conf_data option) \<Rightarrow> lua_globals \<Rightarrow> (conf, unit) act" where
  "read_file fmt2 nums given g c =
     (case file_entries (file_entry fmt2 nums g) (conf_values c) of
        Inl e \<Rightarrow> (Inl e, c)
      | Inr vs \<Rightarrow> (case apply_entries given (conf_values c) vs of (r, ys) \<Rightarrow> (r, c\<lparr>conf_values := ys\<rparr>)))"

text \<open>The file is read only when \<open>--config\<close> is given; \<open>run_file\<close> runs the script and returns its globals.\<close>

definition parse_cmdline_args ::
  "(rat \<Rightarrow> string) \<Rightarrow> lua_numbers \<Rightarrow> (string \<Rightarrow> exn + lua_globals) \<Rightarrow> cli_result \<Rightarrow> (conf, unit) act" where
  "parse_cmdline_args fmt2 nums run_file cli c =
     (case cli of
        CliError k \<Rightarrow> (Inr (), c\<lparr>serverconf_ok := k\<rparr>)
      | Given given \<Rightarrow>
          (let c1 = c\<lparr>conf_values := with_given given (conf_values c)\<rparr> in
           if ''--config'' \<notin> set (map (cv_optionname \<circ> snd) (conf_values c1)) then (Inl (StdRuntime ''--config not found''), c1)
           else if given ''--config'' = None then (Inr (), c1)
           else (case map_of (conf_values c1) ''config'' of
               None \<Rightarrow> (Inl Undefined, c1)
             | Some cv \<Rightarrow>
                 (case value_string cv of
                    None \<Rightarrow> (Inl (StdRuntime ''bad_optional_access''), c1)
                  | Some path \<Rightarrow>
                      (case run_file path of
                         Inl e \<Rightarrow> (Inl e, c1)
                       | Inr g \<Rightarrow> read_file fmt2 nums given g c1)))))"

section \<open>The configuration in Lua\<close>

definition level_name :: "level \<Rightarrow> string" where
  "level_name l = (case l of L_TRACE \<Rightarrow> ''TRACE'' | L_DEBUG \<Rightarrow> ''DEBUG'' | L_INFO \<Rightarrow> ''INFO'' | L_WARN \<Rightarrow> ''WARN''
     | L_ERR \<Rightarrow> ''ERR'' | L_CRITICAL \<Rightarrow> ''CRITICAL'' | L_OFF \<Rightarrow> ''OFF'')"

definition push_string :: "string \<Rightarrow> lua_object" where
  "push_string s = LString (lua_cstring s)"

definition numbered :: "nat \<Rightarrow> lua_object list \<Rightarrow> (lua_object \<times> lua_object) list" where
  "numbered k vs = zip (map (\<lambda>i. LInteger (int i)) [k..<k + length vs]) vs"

definition push_route :: "route_info \<Rightarrow> exn + lua_object" where
  "push_route r = map_result (\<lambda>m. LTable [(LString ''method'', push_string m), (LString ''_route'', push_string (ri_route r)),
      (LString ''script'', push_string (ri_data r))]) (method_as_string (ri_method r))"

fun push_routes :: "route_info list \<Rightarrow> exn + lua_object list" where
  "push_routes [] = Inr []"
| "push_routes (r # rs) =
     (case push_route r of Inl e \<Rightarrow> Inl e | Inr v \<Rightarrow> map_result (\<lambda>vs. v # vs) (push_routes rs))"

text \<open>The elements of a list count from 1, the routes from 0.\<close>

definition push_value :: "(rat \<Rightarrow> string) \<Rightarrow> conf_value \<Rightarrow> exn + lua_object" where
  "push_value fmt2 cv =
     (case cv_data cv of
        BOOL b \<Rightarrow> Inr (LBoolean b)
      | INTEGER k \<Rightarrow> Inr (LInteger k)
      | FLOAT x \<Rightarrow> Inr (LNumber x)
      | STRING s \<Rightarrow> Inr (push_string s)
      | STRINGVEC ss \<Rightarrow> Inr (LTable (numbered 1 (map push_string ss)))
      | DATASIZE n \<Rightarrow> Inr (push_string (volume_string fmt2 n))
      | LOGLEVEL l \<Rightarrow> Inr (push_string (level_name l))
      | LUAROUTES rs \<Rightarrow>
          map_result (\<lambda>vs. LTable (numbered 0 vs)) (push_routes (case value_luaroutes cv of None \<Rightarrow> [] | Some ris \<Rightarrow> ris)))"

definition secrets :: "string list" where
  "secrets = [''jwtkey'', ''sslcert'', ''sslkey'']"

fun config_table :: "(rat \<Rightarrow> string) \<Rightarrow> (string \<times> conf_value) list \<Rightarrow> exn + (lua_object \<times> lua_object) list" where
  "config_table fmt2 [] = Inr []"
| "config_table fmt2 ((name, cv) # xs) =
     (if name \<in> set secrets then config_table fmt2 xs
      else (case push_value fmt2 cv of Inl e \<Rightarrow> Inl e | Inr v \<Rightarrow>
        map_result (\<lambda>t. (push_string name, v) # t) (config_table fmt2 xs)))"

end
