(* ===== verification/Startup.thy ===== *)
theory Startup
  imports Config Dispatch IIIFServe
begin

text \<open>
  The start of the server: the configuration of the handlers (\<open>set_config_variables\<close> and \<open>get_config_variables\<close> of each) and the part of
  \<open>main\<close> in \<open>src/cserver.cpp\<close> that collects the options, reads them, and sets up the routes.
\<close>

section \<open>The options of the handlers\<close>

text \<open>Name, default and description of each option, in the order in which they are added.\<close>

type_synonym option_list = "(string \<times> conf_data \<times> string) list"

definition add_options :: "string \<Rightarrow> option_list \<Rightarrow> conf \<Rightarrow> conf" where
  "add_options prefix = fold (\<lambda>(name, d, descr). add_config prefix name d descr)"

definition route_list :: "string list \<Rightarrow> conf_data" where
  "route_list rs = LUAROUTES (case route_strings (map parse_route rs) of Inl e \<Rightarrow> [] | Inr ss \<Rightarrow> ss)"

definition test_options :: option_list where
  "test_options =
     [(''routes'', route_list [''GET:/test:C++''], ''Route for handler''),
      (''message'', STRING ''Hello World'', ''Message to display'')]"

definition ping_options :: option_list where
  "ping_options =
     [(''routes'', route_list [''GET:/ping:C++''], ''Route for handler''),
      (''echo'', STRING ''PONG'', ''Message to echo'')]"

definition file_options :: option_list where
  "file_options =
     [(''routes'', route_list [''GET:/:C++'', ''POST:/:C++'', ''PUT:/:C++''], ''Route for filehandler''),
      (''docroot'', STRING ''./docroot'', ''Path to directory containing Lua scripts to implement routes.'')]"

definition script_options :: option_list where
  "script_options =
     [(''routes'', route_list [], ''Route(s) for scripthandler''),
      (''scriptdir'', STRING ''./scripts'', ''Path to directory containing Lua scripts to implement routes.'')]"

definition percent15 :: rat where "percent15 = f32 (15 / 100)"

definition iiif_options :: option_list where
  "iiif_options =
     [(''routes'', route_list [''GET:/iiif:C++''], ''Route for iiifhandler''),
      (''imgroot'', STRING ''./imgroot'', ''Root directory containing the images for the IIIF server.''),
      (''max_tmp_age'', INTEGER 86400, ''The maximum allowed age of temporary files (in seconds) before they are deleted.''),
      (''prefix_as_path'', BOOL False, ''Flag, if set indicates that the IIIF prefix is part of the path to the image file (deprecated).''),
      (''cachedir'', STRING ''./cache'', ''Path to cache folder.''),
      (''cachesize'', DATASIZE (200 * 1024 ^ 2), ''Maximal size of cache, e.g. '' @ apostrophes ''500M'' @ ''.''),
      (''iiif_preflight_name'', STRING ''iiif_preflight'', ''Name of the preflight lua function for IIIF requests.''),
      (''file_preflight_name'', STRING ''file_preflight'', ''Name of the preflight lua function for file requests (..../file).''),
      (''max_num_cache_files'', INTEGER 200, ''The maximal number of files to be cached.''),
      (''cache_hysteresis'', FLOAT percent15, ''If the cache becomes full, the given percentage of file space is marked for reuse (0.0 - 1.0).''),
      (''thumbsize'', STRING ''!128,128'', ''Size of the thumbnails (to be used within Lua).''),
      (''jpeg_quality'', INTEGER 80, ''Default quality for JPEG file compression. Range 1-100. [Default: 80]''),
      (''jpeg_scaling_quality'', STRING ''medium'', ''Scaling quality for JPEG images [Default: '' @ quoted ''medium'' @ '']''),
      (''tiff_scaling_quality'', STRING ''high'', ''Scaling quality for TIFF images [Default: '' @ quoted ''high'' @ '']''),
      (''png_scaling_quality'', STRING ''medium'', ''Scaling quality for PNG images [Default: '' @ quoted ''medium'' @ '']''),
      (''j2k_scaling_quality'', STRING ''high'', ''Scaling quality for J2K images [Default: '' @ quoted ''high'' @ '']''),
      (''iiif_max_width'', INTEGER 0, ''Maximal image width delivered by IIIF [Default: 0 (no limit)]''),
      (''iiif_max_height'', INTEGER 0, ''Maximal image height delivered by IIIF [Default: 0 (no limit)]''),
      (''iiif_specials'', STRINGVEC [], ''Special extensions to IIIF URL'')]"

text \<open>The options of the server itself; \<open>threads\<close> is the number of processors.\<close>

definition server_options :: "int \<Rightarrow> option_list" where
  "server_options threads =
     [(''config'', STRING ''./config'', ''Configuration file for web server.''),
      (''userid'', STRING '''', ''Username to use to run cserver. Mus be launched as root to use this option''),
      (''port'', INTEGER 8080, ''HTTP port to be used [default=8080]''),
      (''sslport'', INTEGER 8443, ''SHTTP port to be used (SLL) [default=8443]''),
      (''sslcert'', STRING ''./certificate/certificate.pem'', ''Path to SSL certificate.''),
      (''sslkey'', STRING ''./certificate/key.pem'', ''Path to the SSL key file.''),
      (''jwtkey'', STRING ''UP4014, the biggest steam engine'',
       ''The secret for generating JWT'' @ [CHR 0x27] @ ''s (JSON Web Tokens) (exactly 42 characters).''),
      (''nthreads'', INTEGER threads, ''Number of worker threads to be used by cserver''),
      (''tmpdir'', STRING ''./tmp'', ''Path to the temporary directory (e.g. for uploads etc.).''),
      (''keepalive'', INTEGER 10, ''Number of seconds for the keep-alive option of HTTP 1.1. Set to 0 for no keep_alive. [default=10]''),
      (''maxpost'', DATASIZE (1024 ^ 2), ''A string indicating the maximal size of a POST request, e.g. '' @ apostrophes ''100M'' @ ''.''),
      (''lua_include_path'', STRING ''./scripts'', ''Include path for Lua.''),
      (''initscript'', STRING '''', ''Path to LUA init script.''),
      (''logfile'', STRING ''./cserver.log'', ''Name of the logfile.''),
      (''loglevel'', LOGLEVEL L_DEBUG, ''Logging level Value can be: '' @ apostrophes ''TRACE'' @ '', '' @ apostrophes ''DEBUG'' @ '', '' @
        apostrophes ''INFO'' @ '', '' @ apostrophes ''WARN'' @ '', '' @ apostrophes ''ERR'' @ '', '' @ apostrophes ''CRITICAL'' @ '', '' @
        apostrophes ''OFF'' @ ''.'')]"

text \<open>\<open>handlers\<close> is walked through in an order that is not specified: here an argument.\<close>

definition all_options :: "int \<Rightarrow> (string \<times> option_list) list \<Rightarrow> conf" where
  "all_options threads handlers =
     fold (\<lambda>(name, opts). add_options name opts) handlers (add_options ''cserve'' (server_options threads) (new_conf ''config''))"

section \<open>What the handlers take from the configuration\<close>

definition conf_or :: "'a option \<Rightarrow> 'a \<Rightarrow> 'a" where
  "conf_or v d = (case v of None \<Rightarrow> d | Some x \<Rightarrow> x)"

definition test_message :: "conf \<Rightarrow> string" where
  "test_message c = conf_or (conf_get c ''message'' value_string) ''-- no message --''"

definition ping_echo :: "conf \<Rightarrow> string" where
  "ping_echo c = conf_or (conf_get c ''echo'' value_string) ''-- no echo --''"

definition file_docroot :: "conf \<Rightarrow> string" where
  "file_docroot c = conf_or (conf_get c ''docroot'' value_string) ''-- no scriptdir --''"

definition script_dir :: "conf \<Rightarrow> string" where
  "script_dir c = conf_or (conf_get c ''scriptdir'' value_string) ''-- no scriptdir --''"

text \<open>The numbers of the configuration are \<open>int\<close>; the limits of the image are \<open>size_t\<close>.\<close>

definition iiif_settings :: "conf \<Rightarrow> (string \<rightharpoonup> string) \<Rightarrow> iiif_config" where
  "iiif_settings c routes =
     \<lparr>routedata = routes, iiif_scriptdir = script_dir c,
      imgroot = conf_or (conf_get c ''imgroot'' value_string) ''-- no imgroot --'',
      iiif_preflight_funcname = conf_or (conf_get c ''iiif_preflight_name'' value_string) ''iiif_preflight'',
      file_preflight_funcname = conf_or (conf_get c ''file_preflight_name'' value_string) ''file_preflight'',
      iiif_specials = conf_or (conf_get c ''iiif_specials'' value_stringvec) [''--'' @ replicate 21 (CHR 0x24) @ ''--''],
      prefix_as_path = conf_or (conf_get c ''prefix_as_path'' value_bool) False,
      iiif_max_image_width = to_size_t (conf_or (conf_get c ''iiif_max_width'' value_int) 0),
      iiif_max_image_height = to_size_t (conf_or (conf_get c ''iiif_max_height'' value_int) 0)\<rparr>"

text \<open>Directory, size, number of files and hysteresis of the cache.\<close>

definition cache_settings :: "conf \<Rightarrow> string \<times> nat \<times> int \<times> rat" where
  "cache_settings c =
     (conf_or (conf_get c ''cachedir'' value_string) ''./cache'',
      conf_or (conf_get c ''cachesize'' value_datasize) (200 * 1024 ^ 2),
      conf_or (conf_get c ''max_num_cache_files'' value_int) 200,
      conf_or (conf_get c ''cache_hysteresis'' value_float) percent15)"

datatype scaling_method = HIGH | MEDIUM | LOW

definition get_scaling_quality :: "conf \<Rightarrow> string \<Rightarrow> string \<Rightarrow> scaling_method" where
  "get_scaling_quality c format dflt =
     (let tmp = strtoupper (conf_or (conf_get c format value_string) dflt) in
      if tmp = ''HIGH'' then HIGH else if tmp = ''MEDIUM'' then MEDIUM else if tmp = ''LOW'' then LOW else MEDIUM)"

section \<open>Setting up the server\<close>

text \<open>
  The routes of one handler: each is added to the server and its data to the handler; the log message asks for the name of
  the method. \<open>get_luaroutes(...).value()\<close> throws where there is no such value.
\<close>

definition route_data :: "route_info list \<Rightarrow> string \<rightharpoonup> string" where
  "route_data rs = map_of (rev (map (\<lambda>r. (ri_route r, ri_data r)) rs))"

fun add_routes :: "'w handler_act \<Rightarrow> route_info list \<Rightarrow> ('w http_server, unit) act" where
  "add_routes h [] srv = (Inr (), srv)"
| "add_routes h (r # rs) srv =
     (case method_as_string (ri_method r) of
        Inl e \<Rightarrow> (Inl e, addRoute (ri_method r) (ri_route r) h srv)
      | Inr _ \<Rightarrow> add_routes h rs (addRoute (ri_method r) (ri_route r) h srv))"

definition handler_routes :: "conf \<Rightarrow> string \<Rightarrow> exn + route_info list" where
  "handler_routes c name =
     (case get_luaroutes c name ''routes'' of None \<Rightarrow> Inl (StdRuntime ''bad_optional_access'') | Some rs \<Rightarrow> Inr rs)"

text \<open>
  What a handler does depends on the data of its routes, all of which are there before the first request
  comes: a handler is a function of them.
\<close>

fun setup_routes :: "conf \<Rightarrow> (string \<times> ((string \<rightharpoonup> string) \<Rightarrow> 'w handler_act)) list \<Rightarrow> ('w http_server, unit) act" where
  "setup_routes c [] srv = (Inr (), srv)"
| "setup_routes c ((name, mk) # hs) srv =
     (case handler_routes c name of
        Inl e \<Rightarrow> (Inl e, srv)
      | Inr rs \<Rightarrow>
          (case add_routes (mk (route_data rs)) rs srv of
             (Inl e, srv1) \<Rightarrow> (Inl e, srv1)
           | (Inr _, srv1) \<Rightarrow> setup_routes c hs srv1))"

text \<open>The server as it is before \<open>run\<close>: the handlers take their values from the configuration when the routes are set up.\<close>

definition conf_at :: "'a option \<Rightarrow> exn + 'a" where
  "conf_at v = (case v of None \<Rightarrow> Inl (StdRuntime ''bad_optional_access'') | Some x \<Rightarrow> Inr x)"

definition new_server :: "'w handler_act \<Rightarrow> string \<Rightarrow> int \<Rightarrow> string \<Rightarrow> 'w http_server" where
  "new_server dflt tmp ka jwt = jwt_secret jwt
     \<lparr>srv_tmpdir = tmp, srv_keep_alive = ka, srv_handlers = replicate num_http_methods [], srv_default = dflt,
      srv_jwt_secret = []\<rparr>"

definition setup_server ::
  "conf \<Rightarrow> 'w handler_act \<Rightarrow> (string \<times> ((string \<rightharpoonup> string) \<Rightarrow> 'w handler_act)) list \<Rightarrow> exn + 'w http_server" where
  "setup_server c dflt handlers =
     (case conf_at (conf_get c ''jwtkey'' value_string) of Inl e \<Rightarrow> Inl e | Inr jwt \<Rightarrow>
     (case conf_at (conf_get c ''tmpdir'' value_string) of Inl e \<Rightarrow> Inl e | Inr tmp \<Rightarrow>
     (case conf_at (conf_get c ''keepalive'' value_int) of Inl e \<Rightarrow> Inl e | Inr ka \<Rightarrow>
     (case setup_routes c handlers (new_server dflt tmp ka jwt) of
        (Inl e, _) \<Rightarrow> Inl e
      | (Inr _, srv) \<Rightarrow> Inr srv))))"

end
