(* ===== verification/ConfigProps.thy ===== *)
theory ConfigProps
  imports Startup
begin

text \<open>
  Properties of the configuration: the type of an option never changes, the command line wins over the file and the file over
  the default, what reaches Lua, texts of routes and of amounts of data, and the starts that fail.
\<close>

section \<open>Results\<close>

lemma map_result_simps [simp]:
  "map_result f (Inl e) = Inl e" "map_result f (Inr x) = Inr (f x)"
  by (simp_all add: map_result_def)

lemma map_result_Inr: "map_result f r = Inr y \<longleftrightarrow> (\<exists>x. r = Inr x \<and> y = f x)"
  by (cases r) auto

section \<open>Types of options\<close>

type_synonym conf_shape = "(string \<times> string \<times> data_type) list"

definition shape :: "(string \<times> conf_value) list \<Rightarrow> conf_shape" where
  "shape = map (\<lambda>(n, cv). (n, cv_optionname cv, type_of (cv_data cv)))"

lemma shape_simps [simp]:
  "shape [] = []" "shape ((n, cv) # xs) = (n, cv_optionname cv, type_of (cv_data cv)) # shape xs"
  by (simp_all add: shape_def)

definition typed_given :: "(string \<Rightarrow> conf_data option) \<Rightarrow> (string \<times> conf_value) list \<Rightarrow> bool" where
  "typed_given given xs \<longleftrightarrow>
     (\<forall>(n, cv) \<in> set xs. case given (cv_optionname cv) of None \<Rightarrow> True | Some d \<Rightarrow> type_of d = type_of (cv_data cv))"

lemma with_given_shape: "typed_given given xs \<Longrightarrow> shape (with_given given xs) = shape xs"
  by (induction xs) (auto simp: with_given_def typed_given_def shape_def split: option.splits)

lemma take_entry_type: "take_entry old v = Inr d \<Longrightarrow> type_of d = type_of old"
  by (cases v; cases old) (auto simp: take_entry_def map_result_Inr split: if_splits)

lemma apply_entries_shape: "shape (snd (apply_entries given xs vs)) = shape xs"
proof (induction given xs vs rule: apply_entries.induct)
  case (1 given name cv xs v vs)
  show ?case
  proof (cases "given (cv_optionname cv)")
    case None
    show ?thesis
    proof (cases "take_entry (cv_data cv) v")
      case (Inr d)
      with None 1 take_entry_type [OF Inr] show ?thesis by (cases "apply_entries given xs vs") simp
    qed (use None in simp)
  next
    case (Some d)
    with 1 show ?thesis by (cases "apply_entries given xs vs") simp
  qed
qed simp_all

section \<open>Where a value comes from\<close>

definition file_data :: "(rat \<Rightarrow> string) \<Rightarrow> lua_numbers \<Rightarrow> lua_globals \<Rightarrow> string \<times> conf_value \<Rightarrow> exn + conf_data" where
  "file_data fmt2 nums g x =
     (case file_entry fmt2 nums g x of Inl e \<Rightarrow> Inl e | Inr v \<Rightarrow> take_entry (cv_data (snd x)) v)"

lemma file_entries_nth:
  "file_entries f xs = Inr vs \<Longrightarrow> length vs = length xs \<and> (\<forall>i < length xs. f (xs ! i) = Inr (vs ! i))"
proof (induction xs arbitrary: vs)
  case (Cons x xs)
  then obtain v ws where "f x = Inr v" "file_entries f xs = Inr ws" "vs = v # ws"
    by (auto split: sum.splits)
  with Cons.IH show ?case by (auto simp: nth_Cons split: nat.split)
qed simp

lemma apply_entries_source:
  "apply_entries given xs vs = (Inr (), ys) \<Longrightarrow> length vs = length xs \<Longrightarrow>
   length ys = length xs \<and> (\<forall>i < length xs. case xs ! i of (n, cv) \<Rightarrow>
     (if given (cv_optionname cv) \<noteq> None then ys ! i = (n, cv)
      else (\<exists>d. take_entry (cv_data cv) (vs ! i) = Inr d \<and> ys ! i = (n, cv\<lparr>cv_data := d\<rparr>))))"
proof (induction given xs vs arbitrary: ys rule: apply_entries.induct)
  case (1 given name cv xs v vs)
  show ?case
  proof (cases "given (cv_optionname cv)")
    case None
    with 1(3) obtain d zs where d: "take_entry (cv_data cv) v = Inr d" "apply_entries given xs vs = (Inr (), zs)"
      "ys = (name, cv\<lparr>cv_data := d\<rparr>) # zs"
      by (auto split: sum.splits prod.splits)
    from 1(2) [OF _ d(1,2)] None 1(4) d show ?thesis by (auto simp: nth_Cons split: nat.split)
  next
    case (Some e)
    with 1(3) obtain zs where z: "apply_entries given xs vs = (Inr (), zs)" "ys = (name, cv) # zs"
      by (auto split: prod.splits)
    from 1(1) [OF _ z(1)] Some 1(4) z show ?thesis by (auto simp: nth_Cons split: nat.split)
  qed
qed simp_all


text \<open>A value of the result: given, or from the file.\<close>

definition source_of ::
  "(rat \<Rightarrow> string) \<Rightarrow> lua_numbers \<Rightarrow> (string \<Rightarrow> conf_data option) \<Rightarrow> lua_globals \<Rightarrow> string \<times> conf_value \<Rightarrow> string \<times> conf_value \<Rightarrow> bool" where
  "source_of fmt2 nums given g x y \<longleftrightarrow>
     fst y = fst x \<and>
     (case given (cv_optionname (snd x)) of
        Some d \<Rightarrow> snd y = (snd x)\<lparr>cv_data := d\<rparr>
      | None \<Rightarrow> (\<exists>d. file_data fmt2 nums g x = Inr d \<and> snd y = (snd x)\<lparr>cv_data := d\<rparr>))"

lemma read_file_source:
  assumes "read_file fmt2 nums given g (c\<lparr>conf_values := with_given given xs\<rparr>) = (Inr (), c')"
  shows "list_all2 (source_of fmt2 nums given g) xs (conf_values c')"
proof -
  let ?ws = "with_given given xs"
  from assms obtain vs where vs: "file_entries (file_entry fmt2 nums g) ?ws = Inr vs"
    and ap: "apply_entries given ?ws vs = (Inr (), conf_values c')"
    by (auto simp: read_file_def split: sum.splits prod.splits)
  note en = file_entries_nth [OF vs]
  then have l: "length vs = length ?ws" by simp
  note src = apply_entries_source [OF ap l]
  have len: "length ?ws = length xs" by (simp add: with_given_def)
  have "source_of fmt2 nums given g (xs ! i) (conf_values c' ! i)" if i: "i < length xs" for i
  proof -
    obtain n cv where x: "xs ! i = (n, cv)" by (cases "xs ! i")
    show ?thesis
    proof (cases "given (cv_optionname cv)")
      case None
      with x i have w: "?ws ! i = (n, cv)" by (simp add: with_given_def)
      with src len i None obtain d where d: "take_entry (cv_data cv) (vs ! i) = Inr d" "conf_values c' ! i = (n, cv\<lparr>cv_data := d\<rparr>)"
        by force
      have "file_entry fmt2 nums g (n, cv) = Inr (vs ! i)" using en len i w by force
      with d have "file_data fmt2 nums g (n, cv) = Inr d" by (simp add: file_data_def)
      with None x d show ?thesis by (auto simp: source_of_def)
    next
      case (Some e)
      with x i have w: "?ws ! i = (n, cv\<lparr>cv_data := e\<rparr>)" by (simp add: with_given_def)
      with src len i Some have "conf_values c' ! i = (n, cv\<lparr>cv_data := e\<rparr>)" by force
      with Some x show ?thesis by (simp add: source_of_def)
    qed
  qed
  moreover have "length (conf_values c') = length xs" using src len by simp
  ultimately show ?thesis by (simp add: list_all2_conv_all_nth)
qed

lemma file_bool: "cv_data cv = BOOL b \<Longrightarrow> file_data fmt2 nums g (n, cv) = Inr d \<Longrightarrow> False"
  by (auto simp: file_data_def file_entry_def take_entry_def map_result_Inr split: sum.splits if_splits)

text \<open>A run of \<open>parse_cmdline_args\<close> that reads the file.\<close>

lemma parse_with_file:
  assumes "parse_cmdline_args fmt2 nums run_file (Given given) c = (Inr (), c')" and "given ''--config'' \<noteq> None"
  obtains g path cv where "map_of (with_given given (conf_values c)) ''config'' = Some cv" and "value_string cv = Some path"
    and "run_file path = Inr g" and "list_all2 (source_of fmt2 nums given g) (conf_values c) (conf_values c')"
proof -
  let ?W = "with_given given (conf_values c)"
  from assms obtain cv path g where "map_of ?W ''config'' = Some cv" "value_string cv = Some path" "run_file path = Inr g"
    "read_file fmt2 nums given g (c\<lparr>conf_values := ?W\<rparr>) = (Inr (), c')"
    by (auto simp: parse_cmdline_args_def Let_def split: if_splits option.splits sum.splits)
  with that read_file_source show thesis by blast
qed

section \<open>Secrets\<close>

lemma map_of_none: "k \<notin> set (map fst t) \<Longrightarrow> raw_get t k = LNil"
  by (simp add: raw_get_def map_of_eq_None_iff [symmetric] split: option.split)

lemma config_table_keys:
  "config_table fmt2 xs = Inr t \<Longrightarrow> set (map fst t) \<subseteq> push_string ` {n \<in> set (map fst xs). n \<notin> set secrets}"
proof (induction xs arbitrary: t)
  case (Cons x xs)
  obtain n cv where x: "x = (n, cv)" by (cases x)
  show ?case
  proof (cases "n \<in> set secrets")
    case True
    with Cons x show ?thesis by force
  next
    case False
    with Cons.prems x obtain v u where "config_table fmt2 xs = Inr u" "t = (push_string n, v) # u"
      by (auto split: sum.splits simp: map_result_Inr)
    with Cons.IH x False show ?thesis by force
  qed
qed simp


section \<open>Texts\<close>

lemma split_two: "d \<notin> set a \<Longrightarrow> split_str (a @ d # s) d = a # split_str s d"
  by (simp add: split_str.simps [of "a @ d # s"] find_char_append)

lemma split_one: "d \<notin> set a \<Longrightarrow> a \<noteq> [] \<Longrightarrow> split_str a d = [a]"
  by (simp add: split_str.simps [of a])

lemma method_text_all:
  "(case method_as_string m of Inl e \<Rightarrow> True | Inr s \<Rightarrow> map_of known_methods (strtoupper s) = Some m \<and> CHR '':'' \<notin> set s)"
  by (induction m; code_simp)

lemma method_text:
  "method_as_string m = Inr s \<Longrightarrow> map_of known_methods (strtoupper s) = Some m \<and> CHR '':'' \<notin> set s"
  using method_text_all [of m] by simp

lemma parse_route_string:
  assumes "route_string r = Inr s" and "CHR '':'' \<notin> set (ri_route r)" and "CHR '':'' \<notin> set (ri_data r)" and "ri_data r \<noteq> []"
  shows "parse_route s = r"
proof -
  obtain m where m: "method_as_string (ri_method r) = Inr m" and s: "s = m @ '':'' @ ri_route r @ '':'' @ ri_data r"
    using assms(1) by (auto simp: route_string_def split: sum.splits)
  have "split_str s (CHR '':'') = [m, ri_route r, ri_data r]"
    using method_text [OF m] assms(2-4) s by (simp add: split_two split_one)
  then show ?thesis using method_text [OF m] by (simp add: parse_route_def)
qed

text \<open>Amounts of data.\<close>

lemma unit_one: "x \<noteq> [] \<Longrightarrow> toupper u \<noteq> CHR ''B'' \<Longrightarrow> volume_unit (x @ [u]) = (toupper u, 1)"
  by (cases x) (auto simp: volume_unit_def Let_def nth_append)

lemma unit_two: "x \<noteq> [] \<Longrightarrow> toupper u = CHR ''B'' \<Longrightarrow> volume_unit (x @ [a, u]) = (toupper a, 2)"
  by (cases x) (auto simp: volume_unit_def Let_def nth_append)


lemma mul64_fits: "a * b < 2 ^ 63 \<Longrightarrow> mul64 (int a) (int b) = Inr (a * b)"
proof -
  assume "a * b < 2 ^ 63"
  then have "int (a * b) < int (2 ^ 63)" by (simp only: of_nat_less_iff)
  then have l: "int a * int b < 2 ^ 63" and m: "int a * int b < 2 ^ 64" by simp_all
  have g: "0 \<le> int a * int b" by simp
  have "to_size_t (int a * int b) = a * b"
    unfolding to_size_t_def mod_pos_pos_trivial [OF g m] by (simp add: nat_mult_distrib)
  moreover have "- (2 ^ 63) \<le> int a * int b" by (rule order_trans [OF _ g]) simp
  ultimately show ?thesis using l by (simp only: mul64_def simp_thms if_True)
qed

lemma mul64_small: "k < 2 ^ 10 \<Longrightarrow> j \<in> {2, 3, 4} \<Longrightarrow> mul64 (int k) (1024 ^ j) = Inr (k * 1024 ^ j)"
proof -
  assume k: "k < 2 ^ 10" and j: "j \<in> {2, 3, 4}"
  have "(1024::nat) ^ j \<le> 1024 ^ 4" using j by (intro power_increasing) auto
  then have "k * 1024 ^ j \<le> 2 ^ 10 * 1024 ^ 4" using k by (intro mult_le_mono) simp_all
  moreover have "(2::nat) ^ 10 * 1024 ^ 4 < 2 ^ 63" by simp
  ultimately show ?thesis using mul64_fits [of k "1024 ^ j"] by simp
qed

definition amount_unit :: "nat \<Rightarrow> string \<times> nat" where
  "amount_unit n = (if 1024 ^ 4 \<le> n then (''TB'', 4) else if 1024 ^ 3 \<le> n then (''GB'', 3) else (''MB'', 2))"

lemma volume_text:
  assumes "1024 ^ 2 \<le> n"
  shows "volume_string fmt2 n = fmt2 (f32_div (f32_of_int (int n)) (f32_of_int (1024 ^ snd (amount_unit n)))) @ fst (amount_unit n)"
  using assms by (simp add: volume_string_def amount_unit_def div_greater_zero_iff)

lemma volume_unit_read:
  assumes "x \<noteq> []" and "stoll x = Inr v"
  shows "data_volume (x @ ''MB'') = mul64 v (1024 ^ 2)" and "data_volume (x @ ''GB'') = mul64 v (1024 ^ 3)"
    and "data_volume (x @ ''TB'') = mul64 v (1024 ^ 4)"
proof -
  have u: "toupper (CHR ''B'') = CHR ''B''" "toupper (CHR ''M'') = CHR ''M''" "toupper (CHR ''G'') = CHR ''G''"
    "toupper (CHR ''T'') = CHR ''T''" by code_simp+
  show "data_volume (x @ ''MB'') = mul64 v (1024 ^ 2)" "data_volume (x @ ''GB'') = mul64 v (1024 ^ 3)"
    "data_volume (x @ ''TB'') = mul64 v (1024 ^ 4)"
    using assms by (simp_all add: data_volume_def unit_two u Let_def)
qed

lemma volume_read:
  assumes "x = dec_string k @ r" and "r = [] \<or> \<not> isdigit (hd r)" and "k < 2 ^ 10"
  shows "data_volume (x @ fst (amount_unit n)) = Inr (k * 1024 ^ snd (amount_unit n))"
proof -
  have "k < 2 ^ 63" using assms(3) by simp
  with assms(1,2) have x: "x \<noteq> []" "stoll x = Inr (int k)" using stoll_dec_then [of r k] by auto
  note mul64_small [OF assms(3), of 2] mul64_small [OF assms(3), of 3] mul64_small [OF assms(3), of 4]
  with volume_unit_read [OF x] show ?thesis by (simp add: amount_unit_def)
qed

lemma dec_snoc: "\<exists>x d. dec_string n = x @ [d] \<and> isdigit d"
  using dec_char [of "last (dec_string n)" n] append_butlast_last_id [OF dec_nonempty [of n]] by (metis dec_nonempty last_in_set)

lemma volume_exact:
  assumes "n < 1024 ^ 2"
  shows "data_volume (volume_string fmt2 n) = Inr n"
proof -
  obtain x d where x: "dec_string n = x @ [d]" "isdigit d" using dec_snoc by blast
  have u: "toupper (CHR ''B'') = CHR ''B''" by code_simp
  have d: "toupper d = d" "d \<notin> set ''KMGTB''" using x(2) by (auto simp: toupper_def islower_def isdigit_def chr_code_def)
  have "fst (volume_unit (dec_string n @ ''B'')) \<notin> set ''KMGT''"
  proof (cases "x = []")
    case True
    with x u show ?thesis by (simp add: volume_unit_def)
  next
    case False
    with x u d show ?thesis by (simp add: unit_two)
  qed
  moreover have "stoll (dec_string n @ ''B'') = Inr (int n)" using assms by (intro stoll_dec_then) (auto simp: isdigit_def chr_code_def)
  moreover have "to_size_t (int n) = n" using assms by (intro to_size_t_int) simp
  ultimately have "data_volume (dec_string n @ ''B'') = Inr n"
    by (cases "volume_unit (dec_string n @ ''B'')") (simp add: data_volume_def Let_def)
  with assms show ?thesis by (simp add: volume_string_def)
qed

section \<open>Properties\<close>

text \<open>
  C25: An option keeps its type, whatever the command line, the environment and the configuration file say, and whether the
  start succeeds or not: after \<open>parse_cmdline_args\<close> the same options are there, in the same order, with
  the same names and types of values.
\<close>

theorem options_keep_types:
  "(case cli of CliError k \<Rightarrow> True | Given given \<Rightarrow> typed_given given (conf_values c)) \<Longrightarrow>
   shape (conf_values (snd (parse_cmdline_args fmt2 nums run_file cli c))) = shape (conf_values c)"
proof -
  assume t: "case cli of CliError k \<Rightarrow> True | Given given \<Rightarrow> typed_given given (conf_values c)"
  show ?thesis
  proof (cases cli)
    case (Given given)
    with t have w: "shape (with_given given (conf_values c)) = shape (conf_values c)" by (simp add: with_given_shape)
    have "shape (conf_values (snd (read_file fmt2 nums given g d))) = shape (conf_values d)" for g d
      using apply_entries_shape [of given "conf_values d"]
      by (auto simp: read_file_def split: sum.splits prod.splits) (metis snd_conv)+
    with w Given show ?thesis by (auto simp: parse_cmdline_args_def Let_def split: option.splits sum.splits)
  qed (simp add: parse_cmdline_args_def)
qed

definition sample_conf :: conf where
  "sample_conf = add_options ''ping'' ping_options
     (add_config ''cserve'' ''port'' (INTEGER 8080) ''Port'' (add_config ''cserve'' ''config'' (STRING ''./config'') ''File'' (new_conf ''config'')))"

definition sample_given :: "string \<Rightarrow> conf_data option" where
  "sample_given n = (if n = ''--port'' then Some (INTEGER 80) else if n = ''--config'' then Some (STRING ''c.lua'') else None)"

definition sample_numbers :: lua_numbers where
  "sample_numbers = \<lparr>number_text = (\<lambda>x. []), text_number = (\<lambda>s. None)\<rparr>"

definition sample_globals :: lua_globals where
  "sample_globals t = (if t = ''ping'' then LTable [(LString ''echo'', LString ''pong''), (LString ''routes'', LTable [])] else LNil)"

lemma options_keep_types_witness:
  "shape (conf_values (snd (parse_cmdline_args (\<lambda>x. []) sample_numbers (\<lambda>p. Inr sample_globals) (Given sample_given) sample_conf))) =
   shape (conf_values sample_conf)"
  by (rule options_keep_types) code_simp


definition sample_run :: "(conf, unit) act" where
  "sample_run = parse_cmdline_args (\<lambda>x. []) sample_numbers (\<lambda>p. Inr sample_globals) (Given sample_given)"


text \<open>
  A server with an option that is a truth value and is not on the command line does not start with a configuration file: the file's value
  is read as an integer, also when the file does not mention it, and taking it as a truth value throws.
\<close>

theorem truth_value_blocks_file:
  assumes "(n, cv) \<in> set (conf_values c)" and "cv_data cv = BOOL b" and "given (cv_optionname cv) = None"
    and "given ''--config'' \<noteq> None"
  shows "\<exists>e. fst (parse_cmdline_args fmt2 nums run_file (Given given) c) = Inl e"
proof (rule ccontr)
  let ?run = "parse_cmdline_args fmt2 nums run_file (Given given) c"
  assume n: "\<not> ?thesis"
  obtain r c' where p: "?run = (r, c')" by (cases ?run)
  have "r = Inr ()" using n p by (cases r) (simp_all del: split_paired_Ex)
  with p have run: "?run = (Inr (), c')" by simp
  obtain g where src: "list_all2 (source_of fmt2 nums given g) (conf_values c) (conf_values c')"
    by (rule parse_with_file [OF run assms(4)]) (rule that)
  obtain i where i: "i < length (conf_values c)" "conf_values c ! i = (n, cv)" using assms(1) by (auto simp: in_set_conv_nth)
  have "source_of fmt2 nums given g (n, cv) (conf_values c' ! i)" using list_all2_nthD [OF src i(1)] i(2) by simp
  with assms(3) file_bool [OF assms(2)] show False by (auto simp: source_of_def)
qed

lemma truth_value_blocks_file_witness:
  "\<exists>e. fst (parse_cmdline_args (\<lambda>x. []) sample_numbers (\<lambda>p. Inr sample_globals) (Given sample_given)
     (add_config ''iiifhandler'' ''prefix_as_path'' (BOOL False) ''Flag'' sample_conf)) = Inl e"
  by (rule truth_value_blocks_file [where n = "''prefix_as_path''" and b = False and
        cv = "\<lparr>cv_prefix = ''iiifhandler'', cv_optionname = ''--prefix_as_path'', cv_data = BOOL False, cv_description = ''Flag'',
          cv_envname = ''IIIFHANDLER_PREFIX_AS_PATH''\<rparr>"]; code_simp)

text \<open>
  A route written as text is read back as the same route, where neither its path nor its data has a colon and its data is not empty.
\<close>

theorem parse_route_roundtrip:
  assumes "route_string r = Inr s" and "CHR '':'' \<notin> set (ri_route r)" and "CHR '':'' \<notin> set (ri_data r)" and "ri_data r \<noteq> []"
  shows "parse_route s = r"
  by (rule parse_route_string [OF assms])

lemma parse_route_roundtrip_witness:
  "parse_route ''POST:/iiif:C++'' = \<lparr>ri_method = POST, ri_route = ''/iiif'', ri_data = ''C++''\<rparr>"
  by (rule parse_route_roundtrip) (simp_all add: route_string_def)


definition sample_table :: "(lua_object \<times> lua_object) list" where
  "sample_table = [(push_string ''port'', LInteger 80)]"


text \<open>
  An amount of data that comes from its own text: below 1 MB it is exact; above, only the digits that the text has before the
  first other character count. The format is an argument; it writes the quotient of the amount by its unit.
\<close>

theorem amount_through_text:
  "data_volume (volume_string fmt2 n) =
     (if n < 1024 ^ 2 then Inr n else data_volume (fmt2 (f32_div (f32_of_int (int n)) (f32_of_int (1024 ^ snd (amount_unit n)))) @ fst (amount_unit n))) \<and>
   (\<forall>k r. k < 1024 \<and> (r = [] \<or> \<not> isdigit (hd r)) \<longrightarrow>
      data_volume ((dec_string k @ r) @ fst (amount_unit n)) = Inr (k * 1024 ^ snd (amount_unit n)))"
  using volume_exact [of n fmt2] volume_text [of n fmt2] volume_read [OF refl, of _ _ n] by auto

lemma amount_through_text_witness:
  "data_volume ((dec_string 1 @ ''.5'') @ fst (amount_unit (1024 ^ 3 + 512 * 1024 ^ 2))) = Inr (1 * 1024 ^ snd (amount_unit (1024 ^ 3 + 512 * 1024 ^ 2)))"
proof -
  have "(1::nat) < 1024 \<and> (''.5'' = [] \<or> \<not> isdigit (hd ''.5''))" by (simp add: isdigit_def chr_code_def)
  then show ?thesis using conjunct2 [OF amount_through_text [of "\<lambda>x. []" "1024 ^ 3 + 512 * 1024 ^ 2"]] by blast
qed

text \<open>
  The size of the cache is not the default of 200 MB once there is a configuration file that does not name it, but 2 MB: the format \<open>{:.2}\<close> of the library writes
  the number 200 as \<open>2e+02\<close>, and the number is read up to the letter.
\<close>

definition cachesize_option :: conf_value where
  "cachesize_option = \<lparr>cv_prefix = ''iiifhandler'', cv_optionname = ''--cachesize'', cv_data = DATASIZE (200 * 1024 ^ 2),
     cv_description = [], cv_envname = ''IIIFHANDLER_CACHESIZE''\<rparr>"

theorem default_cachesize_lost:
  assumes "fmt2 200 = ''2e+02''" and "g ''iiifhandler'' = LNil"
  shows "file_data fmt2 nums g (''cachesize'', cachesize_option) = Inr (DATASIZE (2 * 1024 ^ 2))"
proof -
  have q: "f32_div (f32_of_int (int (200 * 1024 ^ 2))) (f32_of_int (1024 ^ 2)) = 200"
    by (simp add: f32_div_def f32_of_int_def f32_def exponent_def bit_length.simps pow2_def round_even_def Let_def)
  have "volume_string fmt2 (200 * 1024 ^ 2) = (''2'' @ ''e+02'') @ ''MB''"
    using volume_text [of "200 * 1024 ^ 2" fmt2] q assms(1) by (simp add: amount_unit_def)
  moreover have "dec_string 2 = ''2''" by code_simp
  ultimately have "data_volume (volume_string fmt2 (200 * 1024 ^ 2)) = Inr (2 * 1024 ^ 2)"
    using volume_read [of "''2e+02''" 2 "''e+02''" "200 * 1024 ^ 2"] by (simp add: amount_unit_def isdigit_def chr_code_def)
  with assms(2) show ?thesis
    by (simp add: file_data_def file_entry_def configString_def config_value_def cachesize_option_def take_entry_def)
qed

lemma default_cachesize_lost_witness:
  "file_data (\<lambda>x. ''2e+02'') sample_numbers sample_globals (''cachesize'', cachesize_option) = Inr (DATASIZE (2 * 1024 ^ 2))"
  by (rule default_cachesize_lost) (simp_all add: sample_globals_def)

end
