(* ===== verification/Encoding.thy ===== *)
theory Encoding
  imports HttpText
begin

text \<open>
  The texts of bytes: the decoder of base 64 in \<open>lib/LuaServer.cpp\<close>, and checksums as in \<open>lib/Hash.cpp\<close>. The digests are a
  library: a digest is a function of the bytes that have been added.
\<close>

section \<open>Base 64\<close>

unbundle bit_operations_syntax

definition base64_chars :: string where
  "base64_chars = ''ABCDEFGHIJKLMNOPQRSTUVWXYZ'' @ ''abcdefghijklmnopqrstuvwxyz'' @ ''0123456789+/''"

definition is_base64 :: "char \<Rightarrow> bool" where
  "is_base64 c \<longleftrightarrow> isalnum c \<or> c = CHR ''+'' \<or> c = CHR ''/''"

text \<open>\<open>npos\<close> is 255 as a byte.\<close>

definition char_index :: "char \<Rightarrow> nat" where
  "char_index c = (case find_char c base64_chars of None \<Rightarrow> 255 | Some k \<Rightarrow> k)"

text \<open>Four numbers give three bytes, each cut to eight bits.\<close>

fun three_bytes :: "nat list \<Rightarrow> nat list" where
  "three_bytes [a0, a1, a2, a3] =
     [(push_bit 2 a0 + drop_bit 4 (a1 AND 0x30)) mod 256,
      (push_bit 4 (a1 AND 0xf) + drop_bit 2 (a2 AND 0x3c)) mod 256,
      (push_bit 6 (a2 AND 0x3) + a3) mod 256]"
| "three_bytes _ = []"

definition group_bytes :: "string \<Rightarrow> string" where
  "group_bytes g = map code_chr (three_bytes (map char_index g))"

text \<open>What is left over is filled up with zero bytes; of \<open>i\<close> characters come \<open>i - 1\<close> bytes.\<close>

definition decode_rest :: "string \<Rightarrow> string" where
  "decode_rest g = (if g = [] then [] else take (length g - 1) (group_bytes (g @ replicate (4 - length g) (CHR 0x00))))"

fun decode_loop :: "string \<Rightarrow> string \<Rightarrow> string \<Rightarrow> string" where
  "decode_loop g ret [] = ret @ decode_rest g"
| "decode_loop g ret (c # cs) =
     (if c = CHR ''='' \<or> \<not> is_base64 c then ret @ decode_rest g
      else if length g = 3 then decode_loop [] (ret @ group_bytes (g @ [c])) cs
      else decode_loop (g @ [c]) ret cs)"

definition base64_decode :: "string \<Rightarrow> string" where
  "base64_decode s = decode_loop [] [] s"

section \<open>Base 64 is read back\<close>

text \<open>The encoding of RFC 4648, as a specification.\<close>

definition b64 :: "nat \<Rightarrow> char" where
  "b64 k = base64_chars ! (k mod 64)"

fun base64_encode :: "string \<Rightarrow> string" where
  "base64_encode [] = []"
| "base64_encode [a] = (let x = chr_code a in [b64 (x div 4), b64 (x mod 4 * 16), CHR ''='', CHR ''=''])"
| "base64_encode [a, b] =
     (let x = chr_code a; y = chr_code b in
      [b64 (x div 4), b64 (x mod 4 * 16 + y div 16), b64 (y mod 16 * 4), CHR ''=''])"
| "base64_encode (a # b # c # s) =
     (let x = chr_code a; y = chr_code b; z = chr_code c in
      [b64 (x div 4), b64 (x mod 4 * 16 + y div 16), b64 (y mod 16 * 4 + z div 64), b64 (z mod 64)] @ base64_encode s)"

lemma base64_table:
  "list_all (\<lambda>k. find_char (base64_chars ! k) base64_chars = Some k \<and> is_base64 (base64_chars ! k) \<and> base64_chars ! k \<noteq> CHR ''='') [0..<64]"
  by code_simp

lemma b64_char: "k < 64 \<Longrightarrow> char_index (b64 k) = k \<and> is_base64 (b64 k) \<and> b64 k \<noteq> CHR ''=''"
  using base64_table by (simp add: list_all_iff char_index_def b64_def)

lemma b64_read [simp]: "is_base64 (b64 k)" "b64 k \<noteq> CHR ''=''"
  using b64_char [of "k mod 64"] by (simp_all add: b64_def)

lemma b64_index [simp]: "k < 64 \<Longrightarrow> char_index (b64 k) = k"
  using b64_char by simp

lemma bits_30: "drop_bit 4 (n AND 0x30) = n div 16 mod 4" for n :: nat
proof -
  have "drop_bit 4 (n AND 0x30) = drop_bit 4 n AND drop_bit 4 0x30" by (rule drop_bit_and)
  also have "\<dots> = drop_bit 4 n AND mask 2" by (simp add: mask_eq_exp_minus_1)
  finally show ?thesis by (simp only: take_bit_eq_mask [symmetric]) (simp add: take_bit_eq_mod drop_bit_eq_div)
qed

lemma bits_3c: "drop_bit 2 (n AND 0x3c) = n div 4 mod 16" for n :: nat
proof -
  have "drop_bit 2 (n AND 0x3c) = drop_bit 2 n AND drop_bit 2 0x3c" by (rule drop_bit_and)
  also have "\<dots> = drop_bit 2 n AND mask 4" by (simp add: mask_eq_exp_minus_1)
  finally show ?thesis by (simp only: take_bit_eq_mask [symmetric]) (simp add: take_bit_eq_mod drop_bit_eq_div)
qed

lemma bits_f: "n AND 0xf = n mod 16" "n AND 0x3 = n mod 4" for n :: nat
  using take_bit_eq_mask [of 4 n] take_bit_eq_mask [of 2 n] by (simp_all add: mask_eq_exp_minus_1 take_bit_eq_mod)

lemma split_bytes:
  fixes x y z :: nat
  assumes "x < 256" and "y < 256" and "z < 256"
  shows "(x mod 4 * 16 + y div 16) div 16 mod 4 = x mod 4" "(x mod 4 * 16 + y div 16) mod 16 = y div 16"
    "(y mod 16 * 4 + z div 64) div 4 mod 16 = y mod 16" "(y mod 16 * 4 + z div 64) mod 4 = z div 64"
    "x div 4 < 64" "x mod 4 * 16 + y div 16 < 64" "y mod 16 * 4 + z div 64 < 64"
proof -
  have "y div 16 < 16" "z div 64 < 4" "x mod 4 < 4" "y mod 16 < 16" "x div 4 < 64"
    using assms by (simp_all add: less_mult_imp_div_less)
  then show "(x mod 4 * 16 + y div 16) div 16 mod 4 = x mod 4" "(x mod 4 * 16 + y div 16) mod 16 = y div 16"
    "(y mod 16 * 4 + z div 64) div 4 mod 16 = y mod 16" "(y mod 16 * 4 + z div 64) mod 4 = z div 64"
    "x div 4 < 64" "x mod 4 * 16 + y div 16 < 64" "y mod 16 * 4 + z div 64 < 64"
    by simp_all
qed

lemma three_bytes_back:
  assumes "x < 256" and "y < 256" and "z < 256"
  shows "three_bytes [x div 4, x mod 4 * 16 + y div 16, y mod 16 * 4 + z div 64, z mod 64] = [x, y, z]"
  using assms by (simp only: three_bytes.simps bits_30 bits_3c bits_f push_bit_eq_mult split_bytes) simp

lemmas chr_split = split_bytes [where x = "chr_code a" and y = "chr_code b" and z = "chr_code c", OF chr_code_lt chr_code_lt chr_code_lt] for a b c

lemma group_bytes_back:
  "group_bytes [b64 (chr_code a div 4), b64 (chr_code a mod 4 * 16 + chr_code b div 16),
     b64 (chr_code b mod 16 * 4 + chr_code c div 64), b64 (chr_code c mod 64)] = [a, b, c]"
  using three_bytes_back [of "chr_code a" "chr_code b" "chr_code c"]
  by (simp add: group_bytes_def chr_split del: three_bytes.simps)

lemma nul_index: "char_index (CHR 0x00) = 255"
  by code_simp

text \<open>With bytes of zero in the place of what is missing, the bytes in front are the same.\<close>

lemma three_bytes_one:
  "x < 256 \<Longrightarrow> take 1 (three_bytes [x div 4, x mod 4 * 16, p, q]) = [x]"
  using split_bytes [of x 0 0] by (simp only: three_bytes.simps bits_30 push_bit_eq_mult take_Suc_Cons take_0 One_nat_def) simp

lemma three_bytes_two:
  assumes "x < 256" and "y < 256"
  shows "take 2 (three_bytes [x div 4, x mod 4 * 16 + y div 16, y mod 16 * 4, q]) = [x, y]"
proof -
  have z: "(0::nat) < 256" by simp
  note sp = split_bytes [OF assms z, unfolded div_0 add_0_right]
  have t: "take 2 [u, v, w] = [u, v]" for u v w :: nat by (simp add: numeral_2_eq_2)
  have e: "three_bytes [x div 4, x mod 4 * 16 + y div 16, y mod 16 * 4, q] =
      [(x div 4 * 2 ^ 2 + x mod 4) mod 256, (y div 16 * 2 ^ 4 + y mod 16) mod 256, (y mod 16 * 4 mod 4 * 2 ^ 6 + q) mod 256]"
    using sp by (simp only: three_bytes.simps bits_30 bits_3c bits_f push_bit_eq_mult)
  show ?thesis by (simp only: e t) (use assms in simp)
qed

lemma rest_none: "decode_rest [] = []"
  by (simp add: decode_rest_def)

lemma rest_two: "decode_rest [b64 (chr_code a div 4), b64 (chr_code a mod 4 * 16)] = [a]"
proof -
  have "char_index (b64 (chr_code a mod 4 * 16)) = chr_code a mod 4 * 16" by simp
  then show ?thesis
    using three_bytes_one [OF chr_code_lt, of a 255 255] chr_split(5) [of a]
    by (simp add: decode_rest_def group_bytes_def nul_index numeral_2_eq_2 take_map del: three_bytes.simps)
qed

lemma rest_three:
  "decode_rest [b64 (chr_code a div 4), b64 (chr_code a mod 4 * 16 + chr_code b div 16), b64 (chr_code b mod 16 * 4)] = [a, b]"
proof -
  have "char_index (b64 (chr_code b mod 16 * 4)) = chr_code b mod 16 * 4" by simp
  then show ?thesis
    using three_bytes_two [OF chr_code_lt chr_code_lt, of a b 255, unfolded numeral_2_eq_2] chr_split(5) [of a] chr_split(6) [of a b]
    by (simp add: decode_rest_def group_bytes_def nul_index numeral_3_eq_3 take_map del: three_bytes.simps)
qed

lemma decode_loop_encode: "decode_loop [] ret (base64_encode s) = ret @ s"
proof (induction s arbitrary: ret rule: base64_encode.induct)
  case (4 a b c s)
  then show ?case using group_bytes_back [of a b c] by (simp add: Let_def)
qed (simp_all add: Let_def rest_two rest_three rest_none)

lemma base64_decode_encode: "base64_decode (base64_encode s) = s"
  by (simp add: base64_decode_def decode_loop_encode)

text \<open>
  What is encoded in base 64 is decoded to the same bytes, whatever their number.
\<close>

theorem base64_roundtrip: "base64_decode (base64_encode s) = s"
  by (rule base64_decode_encode)

section \<open>Checksums\<close>

datatype hash_type = HASH_NONE | MD5 | SHA1 | SHA256 | SHA384 | SHA512

text \<open>The context of the library: the algorithm and the bytes so far.\<close>

record hash_context =
  hc_type :: hash_type
  hc_data :: string

definition new_hash :: "hash_type \<Rightarrow> hash_context" where
  "new_hash t = \<lparr>hc_type = (if t = HASH_NONE then MD5 else t), hc_data = []\<rparr>"

definition add_data :: "string \<Rightarrow> hash_context \<Rightarrow> hash_context" where
  "add_data s h = h\<lparr>hc_data := hc_data h @ s\<rparr>"

text \<open>
  A file is read in blocks: the results of \<open>read\<close>, where \<open>None\<close> is an error and an empty block the end. A
  file that cannot be opened is \<open>None\<close>.
\<close>

fun hash_blocks :: "string option list \<Rightarrow> hash_context \<Rightarrow> bool \<times> hash_context" where
  "hash_blocks [] h = (True, h)"
| "hash_blocks (None # bs) h = (False, h)"
| "hash_blocks (Some b # bs) h = (if b = [] then (True, h) else hash_blocks bs (add_data b h))"

definition hash_of_file :: "string option list option \<Rightarrow> hash_context \<Rightarrow> bool \<times> hash_context" where
  "hash_of_file f h = (case f of None \<Rightarrow> (False, h) | Some bs \<Rightarrow> hash_blocks bs h)"

text \<open>At most 4096 bytes are taken from a stream.\<close>

definition hash_of_stream :: "string \<Rightarrow> hash_context \<Rightarrow> hash_context" where
  "hash_of_stream s h = add_data (take 4096 s) h"

definition hex_two :: "char \<Rightarrow> string" where
  "hex_two c = (let h = hex_string (chr_code c) in replicate (2 - length h) (CHR ''0'') @ h)"

definition hash_text :: "(hash_type \<Rightarrow> string \<Rightarrow> string option) \<Rightarrow> hash_context \<Rightarrow> string" where
  "hash_text digest h = (case digest (hc_type h) (hc_data h) of None \<Rightarrow> [] | Some d \<Rightarrow> concat (map hex_two d))"

text \<open>
  The checksum of a file is that of its bytes, however it is cut into blocks; that of a stream is only that of its first 4096 bytes.
\<close>

lemma hash_in_blocks:
  "[] \<notin> set bs \<Longrightarrow> hash_of_file (Some (map Some bs)) h = (True, add_data (concat bs) h)"
  "length s = 4096 \<Longrightarrow> hash_of_stream (s @ r) h = hash_of_stream s h"
proof -
  show "[] \<notin> set bs \<Longrightarrow> hash_of_file (Some (map Some bs)) h = (True, add_data (concat bs) h)"
    by (induction bs arbitrary: h) (auto simp: hash_of_file_def add_data_def)
qed (simp add: hash_of_stream_def)

end
