(* ===== verification/Essentials.thy ===== *)
theory Essentials
  imports Encoding
begin

text \<open>
  The essential metadata of an image as one text: \<open>metadata/IIIFEssentials.cpp\<close> and \<open>metadata/IIIFEssentials.h\<close>. Base 64 of the ICC
  profile comes from OpenSSL and is an argument.
\<close>

section \<open>The metadata\<close>

record essentials =
  es_is_set :: bool
  es_origname :: string
  es_mimetype :: string
  es_hash_type :: hash_type
  es_data_chksum :: string
  es_use_icc :: bool
  es_icc_profile :: string

definition no_essentials :: essentials where
  "no_essentials = \<lparr>es_is_set = False, es_origname = [], es_mimetype = [], es_hash_type = HASH_NONE, es_data_chksum = [],
     es_use_icc = False, es_icc_profile = []\<rparr>"

definition new_essentials :: "(string \<Rightarrow> string) \<Rightarrow> string \<Rightarrow> string \<Rightarrow> hash_type \<Rightarrow> string \<Rightarrow> string \<Rightarrow> essentials" where
  "new_essentials base64 origname mimetype ht chksum icc =
     \<lparr>es_is_set = True, es_origname = origname, es_mimetype = mimetype, es_hash_type = ht, es_data_chksum = chksum,
      es_use_icc = (icc \<noteq> []), es_icc_profile = (if icc = [] then [] else base64 icc)\<rparr>"

definition set_origname :: "string \<Rightarrow> essentials \<Rightarrow> essentials" where
  "set_origname s e = e\<lparr>es_origname := s, es_is_set := True\<rparr>"

definition set_icc_profile :: "(string \<Rightarrow> string) \<Rightarrow> string \<Rightarrow> essentials \<Rightarrow> essentials" where
  "set_icc_profile base64 icc e = e\<lparr>es_icc_profile := base64 icc\<rparr>"

text \<open>The number of bytes of a text in base 64; the last two characters are looked at without a test for them.\<close>

definition calcDecodeLength :: "string \<Rightarrow> exn + int" where
  "calcDecodeLength s =
     (let l = length s in
      if l = 0 \<or> (l = 1 \<and> last s = CHR ''='') then Inl Undefined
      else Inr (int (3 * l div 4) - (if s ! (l - 1) = CHR ''='' \<and> s ! (l - 2) = CHR ''='' then 2 else if s ! (l - 1) = CHR ''='' then 1 else 0)))"

section \<open>The text\<close>

fun hash_type_string :: "hash_type \<Rightarrow> string" where
  "hash_type_string HASH_NONE = ''none''"
| "hash_type_string MD5 = ''md5''"
| "hash_type_string SHA1 = ''sha1''"
| "hash_type_string SHA256 = ''sha256''"
| "hash_type_string SHA384 = ''sha384''"
| "hash_type_string SHA512 = ''sha512''"

definition hash_type_of :: "string \<Rightarrow> hash_type" where
  "hash_type_of s =
     (if s = ''none'' then HASH_NONE else if s = ''md5'' then MD5 else if s = ''sha1'' then SHA1 else if s = ''sha256'' then SHA256
      else if s = ''sha384'' then SHA384 else if s = ''sha512'' then SHA512 else HASH_NONE)"

definition serialize :: "essentials \<Rightarrow> string" where
  "serialize e = es_origname e @ ''|'' @ es_mimetype e @ ''|'' @ hash_type_string (es_hash_type e) @ ''|'' @ es_data_chksum e @
     (if es_use_icc e then ''|USE_ICC|'' else ''|IGNORE_ICC|'') @ (if es_icc_profile e \<noteq> [] then es_icc_profile e else ''NULL'')"

text \<open>Every part counts, empty ones as well.\<close>

fun split_all :: "char \<Rightarrow> string \<Rightarrow> string \<Rightarrow> string list" where
  "split_all d token [] = [token]"
| "split_all d token (c # s) = (if c = d then token # split_all d [] s else split_all d (token @ [c]) s)"

text \<open>\<open>result[i]\<close> beyond the end is undefined.\<close>

definition parse_essentials :: "string \<Rightarrow> essentials \<Rightarrow> exn + essentials" where
  "parse_essentials s e =
     (let result = split_all (CHR ''|'') [] s in
      if length result < 4 then Inl Undefined
      else (let e1 = e\<lparr>es_origname := result ! 0, es_mimetype := result ! 1, es_hash_type := hash_type_of (result ! 2),
                       es_data_chksum := result ! 3\<rparr> in
        Inr (if length result > 5 then
               (if result ! 4 = ''USE_ICC'' then e1\<lparr>es_use_icc := True, es_icc_profile := result ! 5, es_is_set := True\<rparr>
                else e1\<lparr>es_use_icc := False, es_icc_profile := [], es_is_set := True\<rparr>)
             else e1\<lparr>es_is_set := True\<rparr>)))"

section \<open>What is read back\<close>

lemma split_all_part: "d \<notin> set a \<Longrightarrow> split_all d t (a @ d # s) = (t @ a) # split_all d [] s"
  by (induction a arbitrary: t) auto

lemma split_all_last: "d \<notin> set a \<Longrightarrow> split_all d t a = [t @ a]"
  by (induction a arbitrary: t) auto

lemma split_all_nonempty [simp]: "split_all d t s \<noteq> []"
  by (induction d t s rule: split_all.induct) auto

lemma hash_type_back [simp]: "hash_type_of (hash_type_string t) = t"
  by (cases t) (simp_all add: hash_type_of_def)

lemma hash_type_no_bar [simp]: "CHR ''|'' \<notin> set (hash_type_string t)"
  by (cases t) simp_all

definition barless :: "essentials \<Rightarrow> bool" where
  "barless e \<longleftrightarrow> CHR ''|'' \<notin> set (es_mimetype e) \<and> CHR ''|'' \<notin> set (es_data_chksum e) \<and> CHR ''|'' \<notin> set (es_icc_profile e)"

definition icc_text :: "essentials \<Rightarrow> string list" where
  "icc_text e = [if es_use_icc e then ''USE_ICC'' else ''IGNORE_ICC'', if es_icc_profile e \<noteq> [] then es_icc_profile e else ''NULL'']"

lemma split_tail:
  assumes "barless e"
  shows "split_all (CHR ''|'') [] (es_mimetype e @ ''|'' @ hash_type_string (es_hash_type e) @ ''|'' @ es_data_chksum e @
     (if es_use_icc e then ''|USE_ICC|'' else ''|IGNORE_ICC|'') @ (if es_icc_profile e \<noteq> [] then es_icc_profile e else ''NULL'')) =
     [es_mimetype e, hash_type_string (es_hash_type e), es_data_chksum e] @ icc_text e"
  using assms by (auto simp: split_all_part split_all_last barless_def icc_text_def)

lemma split_serialized:
  assumes "barless e" and "CHR ''|'' \<notin> set (es_origname e)"
  shows "split_all (CHR ''|'') [] (serialize e) =
     [es_origname e, es_mimetype e, hash_type_string (es_hash_type e), es_data_chksum e] @ icc_text e"
  using split_tail [OF assms(1)] assms(2) by (simp add: serialize_def split_all_part)

text \<open>
  C35: What is written of the metadata is read back, whatever was there before, as long as no field has a bar: only a profile that is not to be used is
  lost, and a profile that is to be used but empty comes back as the text \<open>NULL\<close>.
\<close>

theorem essentials_roundtrip:
  assumes "barless e" and "CHR ''|'' \<notin> set (es_origname e)"
  shows "parse_essentials (serialize e) old =
    Inr (e\<lparr>es_is_set := True, es_icc_profile := (if \<not> es_use_icc e then [] else if es_icc_profile e = [] then ''NULL'' else es_icc_profile e)\<rparr>)"
  by (simp add: parse_essentials_def split_serialized [OF assms] icc_text_def Let_def)

lemma essentials_roundtrip_witness:
  "parse_essentials (serialize (new_essentials (\<lambda>s. ''AAAA'') ''a.tif'' ''image/tiff'' SHA256 ''00ff'' ''icc'')) no_essentials =
   Inr (new_essentials (\<lambda>s. ''AAAA'') ''a.tif'' ''image/tiff'' SHA256 ''00ff'' ''icc'')"
  by (subst essentials_roundtrip) (simp_all add: barless_def new_essentials_def)

text \<open>
  A bar in the original name, which comes from the client, moves every field by one: the checksum that is read is the name of the
  algorithm, so the image can no longer be checked, and its ICC profile is lost.
\<close>

theorem bar_in_name_moves_fields:
  assumes "barless e" and "es_origname e = a @ ''|'' @ b" and "CHR ''|'' \<notin> set a" and "CHR ''|'' \<notin> set b"
    and "es_data_chksum e \<noteq> ''USE_ICC''"
  shows "\<exists>e'. parse_essentials (serialize e) old = Inr e' \<and> es_origname e' = a \<and> es_mimetype e' = b \<and>
     es_hash_type e' = hash_type_of (es_mimetype e) \<and> es_data_chksum e' = hash_type_string (es_hash_type e) \<and>
     \<not> es_use_icc e' \<and> es_icc_profile e' = []"
proof -
  have "split_all (CHR ''|'') [] (serialize e) =
      [a, b, es_mimetype e, hash_type_string (es_hash_type e), es_data_chksum e] @ icc_text e"
    using split_tail [OF assms(1)] assms(2-4) by (simp add: serialize_def split_all_part)
  then show ?thesis using assms(5) by (simp add: parse_essentials_def icc_text_def Let_def)
qed

lemma bar_in_name_moves_fields_witness:
  "\<exists>e'. parse_essentials (serialize (new_essentials (\<lambda>s. ''AAAA'') ''a|b.tif'' ''image/tiff'' SHA256 ''00ff'' ''icc'')) no_essentials = Inr e' \<and>
     es_origname e' = ''a'' \<and> es_mimetype e' = ''b.tif'' \<and> es_hash_type e' = hash_type_of ''image/tiff'' \<and>
     es_data_chksum e' = hash_type_string SHA256 \<and> \<not> es_use_icc e' \<and> es_icc_profile e' = []"
  using bar_in_name_moves_fields [of "new_essentials (\<lambda>s. ''AAAA'') ''a|b.tif'' ''image/tiff'' SHA256 ''00ff'' ''icc''" "''a''" "''b.tif''"]
  by (simp add: barless_def new_essentials_def)

text \<open>
  A text with less than three bars, such as one that another program has written in that place, is read beyond its parts.
\<close>

lemma short_essentials_undefined: "length (filter (\<lambda>c. c = CHR ''|'') s) < 3 \<longleftrightarrow> parse_essentials s e = Inl Undefined"
proof -
  have "length (split_all d t s) = Suc (length (filter (\<lambda>c. c = d) s))" for d t
    by (induction d t s rule: split_all.induct) auto
  then show ?thesis by (auto simp: parse_essentials_def Let_def)
qed

end
