(* ===== verification/Json.thy ===== *)
theory Json
  imports Dispatch LuaConf "HOL-Library.AList"
begin

text \<open>
  JSON as the library nlohmann::json has it, and its way into and out of Lua: \<open>subtable\<close>, \<open>lua_jsonobj\<close> and
  \<open>lua_jsonarr\<close> in \<open>lib/LuaServer.cpp\<close>, and the values \<open>LuaValstruct\<close> of \<open>lib/LuaServer.h\<close>. An object is sorted by its keys.
  The parser and the printer of JSON are the library's.
\<close>

section \<open>JSON\<close>

datatype json =
    JNull
  | JBool bool
  | JInt int
  | JFloat rat
  | JString string
  | JArray "json list"
  | JObject "(string \<times> json) list"

text \<open>\<open>j[key] = v\<close>; the value null becomes an object.\<close>

definition json_set :: "string \<Rightarrow> json \<Rightarrow> json \<Rightarrow> json" where
  "json_set k v j = (case j of JObject m \<Rightarrow> JObject (map_put k v m) | _ \<Rightarrow> JObject [(k, v)])"

definition json_push :: "json \<Rightarrow> json \<Rightarrow> json" where
  "json_push v j = (case j of JArray vs \<Rightarrow> JArray (vs @ [v]) | _ \<Rightarrow> JArray [v])"

section \<open>From Lua to JSON\<close>

text \<open>
  \<open>subtable\<close> walks through a table. The kind of its first key makes it an object or an array; the keys of an array do not
  count. A number that is a whole number is written as an integer, and a table without entries is null.
\<close>

datatype json_kind = UNKNOWN | TABLE | ARRAY

definition mixed_keys :: string where
  "mixed_keys = apostrophes ''server.table_to_json(table)'' @ '': Cannot mix int and strings as key''"

definition bad_key :: string where
  "bad_key = apostrophes ''server.table_to_json(table)'' @ '': Cannot convert key to JSON object field''"

definition table_error :: string where
  "table_error = ''server.table_to_json(table): datatype inconsistency''"

text \<open>The exception \<open>JsonProcessingError\<close> is a \<open>std::runtime_error\<close>.\<close>

definition key_kind :: "lua_object \<Rightarrow> json_kind \<Rightarrow> exn + json_kind" where
  "key_kind k kind =
     (case k of
        LString _ \<Rightarrow> if kind = ARRAY then Inl (StdRuntime mixed_keys) else Inr TABLE
      | LInteger _ \<Rightarrow> if kind = TABLE then Inl (StdRuntime mixed_keys) else Inr ARRAY
      | LNumber _ \<Rightarrow> if kind = TABLE then Inl (StdRuntime mixed_keys) else Inr ARRAY
      | _ \<Rightarrow> Inl (StdRuntime bad_key))"

definition put_entry :: "json_kind \<Rightarrow> lua_object \<Rightarrow> json \<Rightarrow> json \<Rightarrow> json" where
  "put_entry kind k v j =
     (if kind = TABLE then json_set (case k of LString s \<Rightarrow> lua_cstring s | _ \<Rightarrow> []) v j else json_push v j)"

text \<open>Every number is a \<open>double\<close> first; a whole number becomes a \<open>long\<close>, if there is one.\<close>

definition number_json :: "rat \<Rightarrow> exn + json" where
  "number_json x =
     (if of_int \<lfloor>x\<rfloor> = x then (if - (2 ^ 63) \<le> x \<and> x < 2 ^ 63 then Inr (JInt \<lfloor>x\<rfloor>) else Inl Undefined) else Inr (JFloat x))"

fun value_json :: "lua_object \<Rightarrow> exn + json"
  and subtable :: "(lua_object \<times> lua_object) list \<Rightarrow> json_kind \<Rightarrow> json \<Rightarrow> exn + json" where
  "value_json (LInteger i) = number_json (f64 (of_int i))"
| "value_json (LNumber x) = number_json x"
| "value_json (LString s) = Inr (JString (lua_cstring s))"
| "value_json (LBoolean b) = Inr (JBool b)"
| "value_json (LTable t) = subtable t UNKNOWN JNull"
| "value_json LNil = Inl (StdRuntime table_error)"
| "value_json LOther = Inl (StdRuntime table_error)"
| "subtable [] kind j = Inr j"
| "subtable ((k, v) # t) kind j =
     (case key_kind k kind of
        Inl e \<Rightarrow> Inl e
      | Inr kind1 \<Rightarrow>
          (case value_json v of
             Inl e \<Rightarrow> Inl e
           | Inr w \<Rightarrow> subtable t kind1 (put_entry kind1 k w j)))"

text \<open>
  \<open>server.table_to_json\<close> with at most one argument: what it leaves on the stack. After an error it goes on as if there had been none,
  with a value that is null, and its two results are those on top.
\<close>

definition lua_fail :: "string \<Rightarrow> lua_object list" where
  "lua_fail msg = [LBoolean False, LString (lua_cstring msg)]"

definition table_to_json_name :: string where
  "table_to_json_name = apostrophes ''server.table_to_json(table)''"

definition lua_table_to_json :: "(json \<Rightarrow> string) \<Rightarrow> lua_object option \<Rightarrow> exn + lua_object list" where
  "lua_table_to_json dump arg =
     (case arg of
        None \<Rightarrow> Inr (lua_fail (table_to_json_name @ '': table parameter missing''))
      | Some (LTable t) \<Rightarrow>
          (case subtable t UNKNOWN JNull of
             Inl (StdRuntime msg) \<Rightarrow> Inr [LBoolean True, LString (lua_cstring (dump JNull))]
           | Inl e \<Rightarrow> Inl e
           | Inr obj \<Rightarrow> Inr [LBoolean True, LString (lua_cstring (dump obj))])
      | Some _ \<Rightarrow> Inr (lua_fail (table_to_json_name @ '': table is not a lua-table'')))"

section \<open>From JSON to Lua\<close>

text \<open>\<open>lua_rawset\<close>: nil takes an entry away.\<close>

definition raw_set :: "lua_object \<Rightarrow> lua_object \<Rightarrow> (lua_object \<times> lua_object) list \<Rightarrow> (lua_object \<times> lua_object) list" where
  "raw_set k v t = (if v = LNil then AList.delete k t else AList.update k v t)"

text \<open>An integer is taken as an \<open>int\<close>. The index of an array starts at 0.\<close>

fun json_lua :: "json \<Rightarrow> lua_object" where
  "json_lua JNull = LNil"
| "json_lua (JBool b) = LBoolean b"
| "json_lua (JInt i) = LInteger (to_int32 i)"
| "json_lua (JFloat x) = LNumber x"
| "json_lua (JString s) = LString (lua_cstring s)"
| "json_lua (JArray vs) =
     LTable (fold (\<lambda>(i, v). raw_set (LInteger (to_int32 (int i))) v) (zip [0..<length vs] (map json_lua vs)) [])"
| "json_lua (JObject m) = LTable (fold (\<lambda>(k, v). raw_set (LString (lua_cstring k)) v) (map (\<lambda>(k, v). (k, json_lua v)) m) [])"

definition json_to_table_name :: string where
  "json_to_table_name = apostrophes ''server.json_to_table(jsonstr)''"

definition lua_json_to_table :: "lua_numbers \<Rightarrow> (string \<Rightarrow> string + json) \<Rightarrow> lua_object option \<Rightarrow> lua_object list" where
  "lua_json_to_table nums parse arg =
     (case arg of
        None \<Rightarrow> lua_fail (json_to_table_name @ '': jsonstr parameter missing'')
      | Some v \<Rightarrow>
          (case lua_tostring nums v of
             None \<Rightarrow> lua_fail (json_to_table_name @ '': jsonstr is not a string'')
           | Some s \<Rightarrow>
               (case parse s of
                  Inl what \<Rightarrow> lua_fail (json_to_table_name @ '': Error parsing JSON: '' @ what @ [LF])
                | Inr j \<Rightarrow>
                    (case j of
                       JObject _ \<Rightarrow> [LBoolean True, json_lua j]
                     | JArray _ \<Rightarrow> [LBoolean True, json_lua j]
                     | _ \<Rightarrow> lua_fail (json_to_table_name @ '': Not a valid json string'')))))"

section \<open>Integers as double\<close>

text \<open>Integers of 32 bits are exact as a \<open>double\<close>.\<close>

lemma f64_of_nat:
  assumes "n < 2 ^ 53"
  shows "f64 (of_nat n) = of_nat n"
proof (cases "n = 0")
  case False
  then have b: "2 ^ (bit_length n - 1) \<le> n" using bit_length_bounds [of n] by auto
  have l: "bit_length n \<le> 53"
  proof (rule ccontr)
    assume "\<not> bit_length n \<le> 53"
    then have "(2 :: nat) ^ 53 \<le> 2 ^ (bit_length n - 1)" by (intro power_increasing) auto
    with b assms show False by simp
  qed
  define k where "k = nat (52 - (int (bit_length n) - 1))"
  have e: "exponent (of_nat n) - 52 = - int k" using False l by (simp add: exponent_def k_def)
  have "max (- int k) (- 1074) = - int k" by (simp add: k_def)
  then have u: "pow2 (max (- int k) (- 1074)) = 1 / 2 ^ k" by (simp add: pow2_def)
  have "(of_nat n :: rat) / (1 / 2 ^ k) = of_int (int n * 2 ^ k)" by simp
  then have "round_even (of_nat n / (1 / 2 ^ k)) = int n * 2 ^ k" by (metis round_even_int)
  then show ?thesis using False by (simp add: f64_def Let_def e u)
qed (simp add: f64_def)

lemma f64_minus: "f64 (- x) = - f64 x"
  by (auto simp: f64_def Let_def)

lemma f64_of_int: "\<bar>i\<bar> < 2 ^ 53 \<Longrightarrow> f64 (of_int i) = of_int i"
  using f64_of_nat [of "nat \<bar>i\<bar>"] f64_minus [of "of_int i"] by (cases "0 \<le> i") (simp_all add: zless_nat_eq_int_zless)

section \<open>There and back\<close>

text \<open>
  Values that Lua can hold as JSON has them: no null, no empty object, no array, integers of 32 bits, fractions that are no integers, and
  texts without a zero byte; the keys of an object are sorted.
\<close>

fun luable :: "json \<Rightarrow> bool" where
  "luable JNull \<longleftrightarrow> False"
| "luable (JBool b) \<longleftrightarrow> True"
| "luable (JInt i) \<longleftrightarrow> - (2 ^ 31) \<le> i \<and> i < 2 ^ 31"
| "luable (JFloat x) \<longleftrightarrow> of_int \<lfloor>x\<rfloor> \<noteq> x"
| "luable (JString s) \<longleftrightarrow> CHR 0x00 \<notin> set s"
| "luable (JArray vs) \<longleftrightarrow> False"
| "luable (JObject m) \<longleftrightarrow> m \<noteq> [] \<and> sorted_wrt (<) (map fst m) \<and> list_all (\<lambda>(k, v). CHR 0x00 \<notin> set k \<and> luable v) m"

lemma number_back: "- (2 ^ 31) \<le> i \<Longrightarrow> i < 2 ^ 31 \<Longrightarrow> number_json (f64 (of_int (to_int32 i))) = Inr (JInt i)"
  by (simp add: f64_of_int to_int32_def number_json_def)

lemma map_put_last:
  "sorted_wrt (<) (map fst m @ [k]) \<Longrightarrow> map_put k v m = m @ [(k, v)]" for k :: "'k::linorder"
  by (induction m) auto

lemma lua_not_nil: "luable v \<Longrightarrow> json_lua v \<noteq> LNil"
  by (cases v) auto

text \<open>Entries that are set one after the other, with keys that are different, end up behind each other.\<close>

lemma raw_sets:
  "distinct (map fst m) \<Longrightarrow> list_all (\<lambda>(k, v). CHR 0x00 \<notin> set k \<and> v \<noteq> LNil) m \<Longrightarrow>
   fst ` set t \<inter> LString ` fst ` set m = {} \<Longrightarrow>
   fold (\<lambda>(k, v). raw_set (LString (lua_cstring k)) v) m t = t @ map (\<lambda>(k, v). (LString k, v)) m"
proof (induction m arbitrary: t)
  case (Cons x m)
  obtain k v where x: "x = (k, v)" by (cases x)
  have "LString k \<notin> fst ` set t" using Cons.prems(3) x by auto
  then have "AList.update (LString k) v t = t @ [(LString k, v)]"
    by (induction t) auto
  with Cons.prems x have s: "raw_set (LString (lua_cstring k)) v t = t @ [(LString k, v)]"
    by (simp add: raw_set_def cstring_same)
  have "fold (\<lambda>(k, v). raw_set (LString (lua_cstring k)) v) m (t @ [(LString k, v)]) =
      (t @ [(LString k, v)]) @ map (\<lambda>(k, v). (LString k, v)) m"
    by (rule Cons.IH) (use Cons.prems x in auto)
  with s x show ?case by simp
qed simp

lemma object_back:
  "(\<forall>(k, v) \<in> set m. value_json (json_lua v) = Inr v \<and> CHR 0x00 \<notin> set k) \<Longrightarrow> sorted_wrt (<) (map fst (n @ m)) \<Longrightarrow> n \<noteq> [] \<Longrightarrow>
   subtable (map (\<lambda>(k, v). (LString k, json_lua v)) m) TABLE (JObject n) = Inr (JObject (n @ m))"
proof (induction m arbitrary: n)
  case (Cons x m)
  obtain k v where x: "x = (k, v)" by (cases x)
  have "sorted_wrt (<) (map fst n @ [k])" using Cons.prems(2) x by (auto simp: sorted_wrt_append)
  then have p: "put_entry TABLE (LString k) v (JObject n) = JObject (n @ [(k, v)])"
    using Cons.prems(1) x by (simp add: put_entry_def json_set_def cstring_same map_put_last)
  have "subtable (map (\<lambda>(k, v). (LString k, json_lua v)) m) TABLE (JObject (n @ [(k, v)])) = Inr (JObject ((n @ [(k, v)]) @ m))"
    by (rule Cons.IH) (use Cons.prems x in auto)
  with Cons.prems(1) x p show ?case by (simp add: key_kind_def)
qed simp

lemma json_back: "luable j \<Longrightarrow> value_json (json_lua j) = Inr j"
proof (induction j)
  case (JObject m)
  have d: "distinct (map fst m)" and srt: "sorted_wrt (<) (map fst m)"
    using JObject.prems by (simp_all add: strict_sorted_iff)
  have ok: "CHR 0x00 \<notin> set k \<and> luable v \<and> value_json (json_lua v) = Inr v" if "(k, v) \<in> set m" for k v
    using JObject.IH [of "(k, v)" v] JObject.prems that by (auto simp: list_all_iff snds.intros)
  have p: "list_all (\<lambda>(k, v). CHR 0x00 \<notin> set k \<and> v \<noteq> LNil) (map (\<lambda>(k, v). (k, json_lua v)) m)"
    using ok lua_not_nil by (auto simp: list_all_iff)
  have t: "json_lua (JObject m) = LTable (map (\<lambda>(k, v). (LString k, json_lua v)) m)"
    using raw_sets [OF _ p, of "[]"] d by (simp add: case_prod_beta comp_def)
  obtain k v n where m: "m = (k, v) # n" using JObject.prems by (cases m) auto
  have "subtable (map (\<lambda>(k, v). (LString k, json_lua v)) n) TABLE (JObject [(k, v)]) = Inr (JObject ([(k, v)] @ n))"
    by (rule object_back) (use ok srt m in auto)
  then show ?case using ok [of k v] m t by (simp add: key_kind_def put_entry_def json_set_def cstring_same)
next
  case (JInt i)
  then show ?case using number_back [of i] by simp
next
  case (JFloat x)
  then show ?case by (simp add: number_json_def)
qed (simp_all add: cstring_same)

text \<open>
  What goes from JSON into Lua comes back as the same JSON, however deep it is nested, as far as Lua can hold it in this way.
\<close>

theorem json_through_lua: "luable j \<Longrightarrow> value_json (json_lua j) = Inr j"
  by (rule json_back)

definition sample_json :: json where
  "sample_json = JObject [(''a'', JInt (- 7)), (''b'', JObject [(''x'', JFloat (1 / 2)), (''y'', JString ''t'')]), (''c'', JBool True)]"

lemma json_through_lua_witness: "value_json (json_lua sample_json) = Inr sample_json"
  by (rule json_through_lua) code_simp

text \<open>
  A script that asks for the first element of a JSON array gets the second: arrays are numbered from 0, where Lua counts from 1.
\<close>

theorem array_elements_shifted:
  assumes "parse s = Inr (JArray vs)" and "i < length vs" and "length vs < 2 ^ 31" and "\<forall>v \<in> set vs. v \<noteq> JNull" and "CHR 0x00 \<notin> set s"
  shows "\<exists>t. lua_json_to_table nums parse (Some (LString s)) = [LBoolean True, LTable t] \<and> raw_get t (LInteger (int i)) = json_lua (vs ! i)"
proof -
  have nn: "json_lua v \<noteq> LNil" if "v \<in> set vs" for v using assms(4) that by (cases v) auto
  have "fold (\<lambda>(i, v). raw_set (LInteger (to_int32 (int i))) v) (zip [k..<k + length us] us) t =
      t @ map (\<lambda>(i, v). (LInteger (int i), v)) (zip [k..<k + length us] us)"
    if "\<forall>v \<in> set us. v \<noteq> LNil" "k + length us < 2 ^ 31" "\<forall>(x, y) \<in> set t. \<exists>j < k. x = LInteger (int j)" for us k t
    using that
  proof (induction us arbitrary: k t)
    case (Cons u us)
    have "LInteger (int k) \<notin> fst ` set t" using Cons.prems(3) by fastforce
    then have "AList.update (LInteger (int k)) u t = t @ [(LInteger (int k), u)]" by (induction t) auto
    moreover have "to_int32 (int k) = int k" using Cons.prems(2) by (simp add: to_int32_def)
    ultimately have s: "raw_set (LInteger (to_int32 (int k))) u t = t @ [(LInteger (int k), u)]"
      using Cons.prems(1) by (simp add: raw_set_def)
    have "fold (\<lambda>(i, v). raw_set (LInteger (to_int32 (int i))) v) (zip [Suc k..<Suc k + length us] us) (t @ [(LInteger (int k), u)]) =
        (t @ [(LInteger (int k), u)]) @ map (\<lambda>(i, v). (LInteger (int i), v)) (zip [Suc k..<Suc k + length us] us)"
      by (rule Cons.IH) (use Cons.prems in \<open>auto dest: less_SucI\<close>)
    moreover have "[k..<k + length (u # us)] = k # [Suc k..<Suc k + length us]"
      using upt_conv_Cons [of k "k + length (u # us)"] by simp
    ultimately show ?case using s by simp
  qed simp
  from this [of "map json_lua vs" 0 "[]"] nn assms(3)
  have t: "json_lua (JArray vs) = LTable (map (\<lambda>(i, v). (LInteger (int i), v)) (zip [0..<length vs] (map json_lua vs)))"
    by auto
  let ?t = "map (\<lambda>(i, v). (LInteger (int i), v)) (zip [0..<length vs] (map json_lua vs))"
  have "map_of ?t (LInteger (int i)) = Some (json_lua (vs ! i))"
  proof (rule map_of_is_SomeI)
    have z: "map fst (zip [0..<length vs] (map json_lua vs)) = [0..<length vs]" by simp
    have "map fst ?t = map (\<lambda>i. LInteger (int i)) (map fst (zip [0..<length vs] (map json_lua vs)))"
      by (simp only: map_map comp_def case_prod_beta fst_conv)
    also have "\<dots> = map (\<lambda>i. LInteger (int i)) [0..<length vs]" by (simp only: z)
    finally show "distinct (map fst ?t)" by (simp add: distinct_map inj_on_def)
    show "(LInteger (int i), json_lua (vs ! i)) \<in> set ?t"
      using assms(2) by (force simp: in_set_zip image_iff intro: bexI [of _ "(i, json_lua (vs ! i))"])
  qed
  then have "raw_get ?t (LInteger (int i)) = json_lua (vs ! i)" by (simp add: raw_get_def)
  with t assms(1,5) show ?thesis by (simp add: lua_json_to_table_def lua_tostring_def cstring_same del: json_lua.simps)
qed

lemma array_elements_shifted_witness:
  "\<exists>t. lua_json_to_table \<lparr>number_text = \<lambda>x. [], text_number = \<lambda>s. None\<rparr> (\<lambda>s. Inr (JArray [JInt 10, JInt 20])) (Some (LString ''[10,20]'')) =
     [LBoolean True, LTable t] \<and> raw_get t (LInteger (int 1)) = json_lua ([JInt 10, JInt 20] ! 1)"
  by (rule array_elements_shifted) simp_all

text \<open>
  A table with a text and a number as keys has no JSON, but the script is told that it has: the function reports success and the text of null.
\<close>

theorem failed_table_reports_success:
  "lua_table_to_json dump (Some (LTable ((LString s, LBoolean b) # (LInteger i, v) # t))) = Inr [LBoolean True, LString (lua_cstring (dump JNull))]"
  by (simp add: lua_table_to_json_def key_kind_def)

end
