(* ===== verification/LuaApi.thy ===== *)
theory LuaApi
  imports Json Config Encoding Handlers
begin

text \<open>
  What scripts can do: the table \<open>server\<close> that \<open>createGlobals\<close> in \<open>lib/LuaServer.cpp\<close> makes of a request, and the functions in it that
  work on the connection and on files. A function gets the list of its arguments and leaves the list of its results. Files are a map
  from paths to contents, and the calls of the operating system that change anything else are arguments.
\<close>

section \<open>The table of a request\<close>

definition string_table :: "connection \<Rightarrow> (string \<rightharpoonup> string) \<Rightarrow> lua_object" where
  "string_table c m = LTable (fold (\<lambda>k. raw_set (push_string k) (push_string (param_value m k))) (map fst (map_iter c m)) [])"

fun method_text :: "http_methods \<Rightarrow> string" where
  "method_text OPTIONS = ''OPTIONS''"
| "method_text GET = ''GET''"
| "method_text HEAD = ''HEAD''"
| "method_text POST = ''POST''"
| "method_text PUT = ''PUT''"
| "method_text DELETE = ''DELETE''"
| "method_text TRACE = ''TRACE''"
| "method_text CONNECT = ''CONNECT''"
| "method_text OTHER = ''OTHER''"

definition upload_table :: "uploaded_file \<Rightarrow> lua_object" where
  "upload_table u = LTable
     [(LString ''fieldname'', push_string (fieldname u)), (LString ''origname'', push_string (origname u)),
      (LString ''tmpname'', push_string (tmpname u)), (LString ''mimetype'', push_string (mimetype u)),
      (LString ''filesize'', LInteger (to_int32 (int (filesize u))))]"

definition lua_names :: "string list \<Rightarrow> (lua_object \<times> lua_object) list" where
  "lua_names = map (\<lambda>n. (LString n, LOther))"

definition server_functions :: "string list" where
  "server_functions =
     [''table_to_json'', ''json_to_table'', ''print'', ''uuid'', ''uuid62'', ''uuid_to_base62'', ''base62_to_uuid'', ''setBuffer'',
      ''sendHeader'', ''sendCookie'', ''copyTmpfile'', ''shutdown'', ''http'', ''sendStatus'', ''requireAuth'', ''systime'',
      ''generate_jwt'', ''decode_jwt'', ''parse_mimetype'', ''file_mimetype'', ''file_mimeconsistency'', ''log'']"

definition fs_methods :: "string list" where
  "fs_methods =
     [''ftype'', ''modtime'', ''readdir'', ''is_readable'', ''is_writeable'', ''is_executable'', ''exists'', ''unlink'', ''mkdir'',
      ''rmdir'', ''getcwd'', ''chdir'', ''copyFile'', ''moveFile'']"

definition loglevels :: "(lua_object \<times> lua_object) list" where
  "loglevels = zip (map LString [''LOG_TRACE'', ''LOG_DEBUG'', ''LOG_INFO'', ''LOG_WARN'', ''LOG_ERR'', ''LOG_CRITICAL'', ''LOG_OFF''])
     (map LInteger [0, 1, 2, 3, 4, 5, 6])"

text \<open>The content is \<open>content_length\<close> bytes from where it is; there may be none.\<close>

definition content_entries :: "connection \<Rightarrow> exn + (lua_object \<times> lua_object) list" where
  "content_entries c =
     (if content_length c > 0 then
        (case content c of
           None \<Rightarrow> Inl Undefined
         | Some s \<Rightarrow> if nat (content_length c) > length s then Inl Undefined
             else Inr [(LString ''content'', LString (take (nat (content_length c)) s)),
                       (LString ''content_type'', push_string (content_type c))])
      else Inr [])"

definition unless_empty :: "string \<Rightarrow> connection \<Rightarrow> (string \<rightharpoonup> string) \<Rightarrow> (lua_object \<times> lua_object) list" where
  "unless_empty name c m = (if map_iter c m = [] then [] else [(LString name, string_table c m)])"

definition server_table :: "string \<Rightarrow> connection \<Rightarrow> exn + (lua_object \<times> lua_object) list" where
  "server_table scriptfilename c =
     map_result (\<lambda>cont.
       [(LString ''scriptfilename'', push_string scriptfilename), (LString ''method'', LString (method_text (http_method c))),
        (LString ''has_openssl'', LBoolean True), (LString ''client_ip'', push_string (peer_ip c)),
        (LString ''client_port'', LInteger (peer_port c)), (LString ''secure'', LBoolean (secure c)),
        (LString ''header'', string_table c (header_in c)), (LString ''cookies'', string_table c (cookies_in c)),
        (LString ''host'', push_string (host c)), (LString ''uri'', push_string (uri c))] @
       unless_empty ''get'' c (get_params c) @ unless_empty ''post'' c (post_params c) @
       (if uploads c = [] then [] else [(LString ''uploads'', LTable (numbered 1 (map upload_table (uploads c))))]) @
       unless_empty ''request'' c (request_params c) @ cont @
       [(LString ''fs'', LTable (lua_names fs_methods))] @ lua_names server_functions @
       [(LString ''loglevel'', LTable loglevels)])
     (content_entries c)"

definition add_servertableentry :: "string \<Rightarrow> string \<Rightarrow> (lua_object \<times> lua_object) list \<Rightarrow> (lua_object \<times> lua_object) list" where
  "add_servertableentry name value = raw_set (push_string name) (push_string value)"

text \<open>The part of \<open>processRequest\<close> that makes the interpreter: the table is made for every request.\<close>

definition lua_setup :: "string \<Rightarrow> (connection \<times> 'w, unit) act" where
  "lua_setup scriptfilename cw =
     (case server_table scriptfilename (fst cw) of Inl e \<Rightarrow> (Inl e, cw) | Inr _ \<Rightarrow> (Inr (), cw))"

section \<open>Running a script\<close>

text \<open>
  \<open>executeChunk\<close>: the interpreter gets the table \<open>server\<close> with the name of the script and the text of the script, and leaves an
  error value or the results. The only result of a script, if it is one, is its status. A result that is no integer counts as 0.
\<close>

definition lua_tointeger :: "lua_numbers \<Rightarrow> lua_object \<Rightarrow> int" where
  "lua_tointeger nums v =
     (let whole = (\<lambda>x. if of_int \<lfloor>x\<rfloor> = x \<and> - (2 ^ 63) \<le> x \<and> x < 2 ^ 63 then \<lfloor>x\<rfloor> else 0) in
      case v of
        LInteger i \<Rightarrow> i
      | LNumber x \<Rightarrow> whole x
      | LString s \<Rightarrow> (case text_number nums s of None \<Rightarrow> 0 | Some x \<Rightarrow> whole x)
      | _ \<Rightarrow> 0)"

definition executeChunk ::
  "lua_numbers \<Rightarrow> ((lua_object \<times> lua_object) list \<Rightarrow> string \<Rightarrow> lua_object + lua_object list) \<Rightarrow> (lua_object \<times> lua_object) list
    \<Rightarrow> string \<Rightarrow> string \<Rightarrow> exn + int" where
  "executeChunk nums interpret server luastr scriptname =
     (let server1 = (if scriptname \<noteq> [] then add_servertableentry ''scriptfilename'' scriptname server else server) in
      case interpret server1 luastr of
        Inl e \<Rightarrow>
          (case lua_tostring nums e of
             None \<Rightarrow> Inl Undefined
           | Some msg \<Rightarrow> Inl (CsError (''LuaServer::executeChunk failed: '' @ msg @ '', scriptname: '' @ scriptname)))
      | Inr rs \<Rightarrow> Inr (case rs of [v] \<Rightarrow> to_int32 (lua_tointeger nums v) | _ \<Rightarrow> 1))"

section \<open>Functions on the connection\<close>

type_synonym api = "lua_object list \<Rightarrow> (connection, lua_object list) act"

definition api_ok :: "lua_object list" where
  "api_ok = [LBoolean True, LNil]"

definition is_integer :: "lua_object \<Rightarrow> bool" where
  "is_integer v = (case v of LInteger _ \<Rightarrow> True | _ \<Rightarrow> False)"

definition setbuffer_name :: string where
  "setbuffer_name = apostrophes ''server.setbuffer([bufize][, incsize])''"

text \<open>\<open>setBuffer\<close> does not use the two sizes.\<close>

definition lua_setbuffer :: api where
  "lua_setbuffer args =
     (if args \<noteq> [] \<and> \<not> is_integer (args ! 0)
      then sret (lua_fail (setbuffer_name @ '': requires bufsize size as integer''))
      else if length args > 1 \<and> \<not> is_integer (args ! 1)
      then sret (lua_fail (setbuffer_name @ '': requires incsize size as integer''))
      else sbind setBuffer (\<lambda>_. sret api_ok))"

text \<open>\<open>lua_tolstring\<close> gives all of a text, zero bytes too. What is neither text nor number is left out.\<close>

definition lua_tolstring :: "lua_numbers \<Rightarrow> lua_object \<Rightarrow> string option" where
  "lua_tolstring nums v = (case v of LString s \<Rightarrow> Some s | _ \<Rightarrow> lua_tostring nums v)"

text \<open>An \<open>Error\<close> of the connection is reported to the script; that the client is gone is not caught here.\<close>

fun lua_print :: "lua_numbers \<Rightarrow> api" where
  "lua_print nums [] = sret api_ok"
| "lua_print nums (v # vs) =
     (case lua_tolstring nums v of
        None \<Rightarrow> lua_print nums vs
      | Some s \<Rightarrow> (\<lambda>c. case send s c of
            (Inl (CsError msg), c1) \<Rightarrow> (Inr (lua_fail msg), c1)
          | (Inl e, c1) \<Rightarrow> (Inl e, c1)
          | (Inr _, c1) \<Rightarrow> lua_print nums vs c1))"

definition auth_table :: "(string \<times> string) list \<Rightarrow> lua_object" where
  "auth_table = (\<lambda>es. LTable (map (\<lambda>(k, v). (LString k, push_string v)) es))"

text \<open>What the \<open>authorization\<close> header says. An authorization of another kind gives an empty table.\<close>

definition auth_entries :: "string \<Rightarrow> (string \<times> string) list" where
  "auth_entries auth =
     (if auth = [] then [(''status'', ''NOAUTH'')]
      else (case find_char (CHR '' '') auth of
          None \<Rightarrow> [(''status'', ''ERROR''), (''message'', ''Auth-type not known'')]
        | Some n \<Rightarrow>
            (let auth_type = asciitolower (take n auth); rest_text = drop (n + 1) auth in
             if auth_type = ''basic'' then
               (let auth_string = base64_decode rest_text in
                case find_char (CHR '':'') auth_string of
                  Some k \<Rightarrow> [(''status'', ''BASIC''), (''username'', take k auth_string), (''password'', drop (k + 1) auth_string)]
                | None \<Rightarrow> [(''status'', ''ERROR''), (''message'', ''Auth-string not valid'')])
             else if auth_type = ''bearer'' then [(''status'', ''BEARER''), (''token'', rest_text)]
             else [])))"

definition lua_require_auth :: api where
  "lua_require_auth args =
     sbind (\<lambda>c. case header_get ''authorization'' c of (v, c1) \<Rightarrow> (Inr v, c1)) (\<lambda>auth.
       sret [LBoolean True, auth_table (auth_entries auth)])"

text \<open>A null pointer as a \<open>std::string\<close> is undefined.\<close>

definition or_null :: "string option \<Rightarrow> (string \<Rightarrow> (connection, 'a) act) \<Rightarrow> (connection, 'a) act" where
  "or_null s f = (case s of None \<Rightarrow> sthrow Undefined | Some x \<Rightarrow> f x)"

definition lua_send_header :: "lua_numbers \<Rightarrow> api" where
  "lua_send_header nums args =
     (if length args \<noteq> 2 then sret (lua_fail (apostrophes ''server.sendHeader(key,val)'' @ '': Invalid number of parameters''))
      else or_null (lua_tostring nums (args ! 0)) (\<lambda>k. or_null (lua_tostring nums (args ! 1)) (\<lambda>v.
        sbind (header_set k v) (\<lambda>_. sret api_ok))))"

section \<open>Cookies\<close>

definition cookie_name :: string where
  "cookie_name = apostrophes ''server.sendCookie(name, value[, options])''"

text \<open>
  One option. \<open>expires_at\<close> is the text of the time that many seconds from now. The two flags can only be set, and \<open>secure\<close> is
  set from the beginning.
\<close>

definition cookie_option ::
  "lua_numbers \<Rightarrow> (int \<Rightarrow> string) \<Rightarrow> string \<Rightarrow> lua_object \<Rightarrow> cookie \<Rightarrow> string + cookie" where
  "cookie_option nums expires_at name v k =
     (if name = ''path'' then
        (case lua_tostring nums v of None \<Rightarrow> Inl '': path is not string'' | Some s \<Rightarrow> Inr (k\<lparr>ck_path := s\<rparr>))
      else if name = ''domain'' then
        (case lua_tostring nums v of None \<Rightarrow> Inl '': domain is not string'' | Some s \<Rightarrow> Inr (k\<lparr>ck_domain := s\<rparr>))
      else if name = ''expires'' then
        (case v of LInteger i \<Rightarrow> Inr (k\<lparr>ck_expires := expires_at (to_int32 i)\<rparr>) | _ \<Rightarrow> Inl '': expires is not integer'')
      else if name = ''secure'' then
        (case v of LBoolean b \<Rightarrow> Inr (if b then k\<lparr>ck_secure := True\<rparr> else k) | _ \<Rightarrow> Inl '': secure is not boolean'')
      else if name = ''http_only'' then
        (case v of LBoolean b \<Rightarrow> Inr (if b then k\<lparr>ck_http_only := True\<rparr> else k) | _ \<Rightarrow> Inl '': http_only is not boolean'')
      else Inl ('': unknown option: '' @ name))"

fun cookie_options ::
  "lua_numbers \<Rightarrow> (int \<Rightarrow> string) \<Rightarrow> (lua_object \<times> lua_object) list \<Rightarrow> cookie \<Rightarrow> string + cookie" where
  "cookie_options nums expires_at [] k = Inr k"
| "cookie_options nums expires_at ((n, v) # t) k =
     (case lua_tostring nums n of
        None \<Rightarrow> Inl '': option name is not a string''
      | Some name \<Rightarrow>
          (case cookie_option nums expires_at name v k of
             Inl msg \<Rightarrow> Inl msg
           | Inr k1 \<Rightarrow> cookie_options nums expires_at t k1))"

definition lua_send_cookie :: "lua_numbers \<Rightarrow> (int \<Rightarrow> string) \<Rightarrow> api" where
  "lua_send_cookie nums expires_at args =
     (if length args < 2 \<or> length args > 3 then sret (lua_fail (cookie_name @ '': Invalid number of parameters''))
      else or_null (lua_tostring nums (args ! 0)) (\<lambda>ckey. or_null (lua_tostring nums (args ! 1)) (\<lambda>cval.
        case (if length args = 2 then Inr (mk_cookie ckey cval)
              else (case args ! 2 of
                  LTable t \<Rightarrow> cookie_options nums expires_at t (mk_cookie ckey cval)
                | _ \<Rightarrow> Inl '': options is not a lua-table'')) of
          Inl msg \<Rightarrow> sret (lua_fail (cookie_name @ msg))
        | Inr k \<Rightarrow> sbind (cookies_set k) (\<lambda>_. sret api_ok))))"

section \<open>Files\<close>

type_synonym file_map = "string \<rightharpoonup> string"

text \<open>
  \<open>dest << source.rdbuf()\<close>: opening the target makes it empty, even when it is the source, and inserting no byte at all sets the
  failbit of the target. \<open>writable\<close> says whether a file can be opened for writing.
\<close>

definition copy_stream :: "(string \<Rightarrow> bool) \<Rightarrow> string \<Rightarrow> string \<Rightarrow> file_map \<Rightarrow> string option \<times> file_map" where
  "copy_stream writable infile outfile fm =
     (if \<not> writable outfile then (Some ('': Couldn'' @ [CHR 0x27] @ ''t open output file''), fm)
      else (let fm1 = fm(outfile \<mapsto> []); d = (case fm1 infile of None \<Rightarrow> [] | Some d \<Rightarrow> d) in
        if d = [] then (Some '': Copying data failed'', fm1) else (None, fm1(outfile \<mapsto> d))))"

definition report :: "string \<Rightarrow> string option \<times> 'f \<Rightarrow> lua_object list \<times> 'f" where
  "report name r = (case r of (None, f) \<Rightarrow> (api_ok, f) | (Some msg, f) \<Rightarrow> (lua_fail (name @ msg), f))"

text \<open>In Lua the uploads count from 1; \<open>at\<close> with a negative index throws as well.\<close>

definition upload_at :: "connection \<Rightarrow> int \<Rightarrow> uploaded_file option" where
  "upload_at c i =
     (let k = to_int32 i - 1 in if 0 \<le> k \<and> nat k < length (uploads c) then Some (uploads c ! nat k) else None)"

definition copytmpfile_name :: string where
  "copytmpfile_name = apostrophes ''lua_copytmpfile(from,to)''"

definition lua_copytmpfile ::
  "lua_numbers \<Rightarrow> (string \<Rightarrow> bool) \<Rightarrow> connection \<Rightarrow> lua_object list \<Rightarrow> file_map \<Rightarrow> exn + lua_object list \<times> file_map" where
  "lua_copytmpfile nums writable c args fm =
     (if length args < 2 then Inr (lua_fail (copytmpfile_name @ '': not enough parameters''), fm)
      else (case args ! 0 of
          LInteger i \<Rightarrow>
            (case upload_at c i of
               None \<Rightarrow> Inr (lua_fail (copytmpfile_name @ '': parameter '' @ apostrophes ''from'' @ '' is not a valid index.''), fm)
             | Some u \<Rightarrow>
                 if fm (tmpname u) = None then Inr (lua_fail (copytmpfile_name @ '': Couldn'' @ [CHR 0x27] @ ''t open input file''), fm)
                 else (case lua_tostring nums (args ! 1) of
                     None \<Rightarrow> Inl Undefined
                   | Some outfile \<Rightarrow> Inr (report copytmpfile_name (copy_stream writable (tmpname u) outfile fm))))
        | _ \<Rightarrow> Inr (lua_fail (copytmpfile_name @ '': parameter '' @ apostrophes ''from'' @ '' must be an integer''), fm)))"

definition copyfile_name :: string where
  "copyfile_name = apostrophes ''lua_fs_copyfile(from,to)''"

definition lua_fs_copyfile ::
  "lua_numbers \<Rightarrow> (string \<Rightarrow> bool) \<Rightarrow> lua_object list \<Rightarrow> file_map \<Rightarrow> exn + lua_object list \<times> file_map" where
  "lua_fs_copyfile nums writable args fm =
     (if length args < 2 then Inr (lua_fail (copyfile_name @ '': not enough parameters''), fm)
      else (case lua_tostring nums (args ! 0) of
          None \<Rightarrow> Inl Undefined
        | Some infile \<Rightarrow>
            if fm infile = None then Inr (lua_fail (copyfile_name @ '': Couldn'' @ [CHR 0x27] @ ''t open source file''), fm)
            else (case lua_tostring nums (args ! 1) of
                None \<Rightarrow> Inl Undefined
              | Some outfile \<Rightarrow> Inr (report copyfile_name (copy_stream writable infile outfile fm)))))"

datatype rename_errno = EACCES | EXDEV | Other_errno

text \<open>\<open>rename\<close> gives the error, if there is one.\<close>

definition movefile_name :: string where
  "movefile_name = apostrophes ''server.fs.moveFile(from,to)''"

definition move_file :: "(string \<Rightarrow> string \<Rightarrow> rename_errno option) \<Rightarrow> string \<Rightarrow> string \<Rightarrow> file_map \<Rightarrow> string option \<times> file_map" where
  "move_file rename_err infile outfile fm =
     (case rename_err infile outfile of
        None \<Rightarrow> (None, if infile = outfile then fm else fm(infile := None, outfile := fm infile))
      | Some EACCES \<Rightarrow> (Some '': no permission!'', fm)
      | Some EXDEV \<Rightarrow> (Some '': move across file systems not allowd!'', fm)
      | Some Other_errno \<Rightarrow> (Some '': error moving file!'', fm))"

definition lua_fs_mvfile ::
  "lua_numbers \<Rightarrow> (string \<Rightarrow> string \<Rightarrow> rename_errno option) \<Rightarrow> connection \<Rightarrow> lua_object list \<Rightarrow> file_map \<Rightarrow> exn + lua_object list \<times> file_map" where
  "lua_fs_mvfile nums rename_err c args fm =
     (if length args < 2 then Inr (lua_fail (movefile_name @ '': not enough parameters''), fm)
      else
        (let move = (\<lambda>infile. case lua_tostring nums (args ! 1) of
               None \<Rightarrow> Inl Undefined
             | Some outfile \<Rightarrow> Inr (report movefile_name (move_file rename_err infile outfile fm))) in
         case args ! 0 of
           LInteger i \<Rightarrow>
             (case upload_at c i of
                None \<Rightarrow> Inr (lua_fail (movefile_name @ '': Could not read data of uploaded file. Invalid index?''), fm)
              | Some u \<Rightarrow> move (tmpname u))
         | v \<Rightarrow>
             (case lua_tostring nums v of
                None \<Rightarrow> Inr (lua_fail ''server.fs.moveFile(from,to): filename must be string or index'', fm)
              | Some infile \<Rightarrow> move infile)))"

section \<open>Asking about files\<close>

text \<open>The functions with one path: the messages for a missing path and for one that is no text, and what is done with it.\<close>

definition with_path :: "lua_numbers \<Rightarrow> string \<Rightarrow> string \<Rightarrow> lua_object list \<Rightarrow> (string \<Rightarrow> lua_object list) \<Rightarrow> lua_object list" where
  "with_path nums missing no_string args f =
     (case args of
        [] \<Rightarrow> lua_fail missing
      | v # _ \<Rightarrow> (case lua_tostring nums v of None \<Rightarrow> lua_fail no_string | Some p \<Rightarrow> f p))"

datatype file_kind = K_REG | K_DIR | K_CHR | K_BLK | K_LNK | K_FIFO | K_SOCK | K_OTHER

fun kind_name :: "file_kind \<Rightarrow> string" where
  "kind_name K_REG = ''FILE''"
| "kind_name K_DIR = ''DIRECTORY''"
| "kind_name K_CHR = ''CHARDEV''"
| "kind_name K_BLK = ''BLOCKDEV''"
| "kind_name K_LNK = ''LINK''"
| "kind_name K_FIFO = ''FIFO''"
| "kind_name K_SOCK = ''SOCKET''"
| "kind_name K_OTHER = ''UNKNOWN''"

text \<open>\<open>stat\<close> gives the kind and the time of the last change, or the text of the error.\<close>

definition lua_fs_ftype :: "lua_numbers \<Rightarrow> (string \<Rightarrow> string + file_kind \<times> int) \<Rightarrow> lua_object list \<Rightarrow> lua_object list" where
  "lua_fs_ftype nums stat args =
     with_path nums (apostrophes ''server.fs.ftype()'' @ '': parameter missing'') (apostrophes ''server.fs.ftype()'' @ '': filename is not a string'') args
       (\<lambda>p. case stat p of Inl msg \<Rightarrow> lua_fail msg | Inr (k, _) \<Rightarrow> [LBoolean True, LString (kind_name k)])"

definition lua_fs_modtime :: "lua_numbers \<Rightarrow> (string \<Rightarrow> string + file_kind \<times> int) \<Rightarrow> lua_object list \<Rightarrow> lua_object list" where
  "lua_fs_modtime nums stat args =
     with_path nums (apostrophes ''server.fs.modtime()'' @ '': parameter missing'') (apostrophes ''server.fs.modtime()'' @ '': filename is not a string'') args
       (\<lambda>p. case stat p of Inl msg \<Rightarrow> lua_fail msg | Inr (_, t) \<Rightarrow> [LBoolean True, LInteger t])"

text \<open>Every name that begins with a dot is left out.\<close>

definition lua_fs_readdir :: "lua_numbers \<Rightarrow> (string \<Rightarrow> string + string list) \<Rightarrow> lua_object list \<Rightarrow> lua_object list" where
  "lua_fs_readdir nums readdir args =
     with_path nums (apostrophes ''server.fs.readdir()'' @ '': parameter missing'') (apostrophes ''server.fs.readdir()'' @ '': path is not a string'') args
       (\<lambda>p. case readdir p of
          Inl msg \<Rightarrow> lua_fail (msg @ '': '' @ p)
        | Inr ns \<Rightarrow> [LBoolean True, LTable (numbered 1 (map push_string (filter (\<lambda>n. take 1 n \<noteq> ''.'') ns)))])"

definition fs_access_function :: "string \<Rightarrow> (string \<Rightarrow> bool) \<Rightarrow> lua_numbers \<Rightarrow> lua_object list \<Rightarrow> lua_object list" where
  "fs_access_function name test nums args =
     with_path nums (apostrophes (''server.fs.'' @ name @ ''(filename)'') @ '': parameter missing'')
       (apostrophes (''server.fs.'' @ name @ ''(filename)'') @ '': filename is not a string'') args
       (\<lambda>p. [LBoolean True, LBoolean (test p)])"

section \<open>Types of files\<close>

definition return_mimetype_to_lua :: "string \<times> string \<Rightarrow> lua_object list" where
  "return_mimetype_to_lua m =
     [LBoolean True, LTable ([(LString ''mimetype'', push_string (fst m))] @
        (if snd m = [] then [] else [(LString ''charset'', push_string (snd m))]))]"

text \<open>An \<open>Error\<close> is reported, everything else goes on.\<close>

definition mime_result :: "string \<Rightarrow> ('a \<Rightarrow> lua_object list) \<Rightarrow> exn + 'a \<Rightarrow> exn + lua_object list" where
  "mime_result name f r =
     (case r of
        Inr m \<Rightarrow> Inr (f m)
      | Inl (CsError msg) \<Rightarrow> Inr (lua_fail (name @ '' failed: '' @ msg))
      | Inl e \<Rightarrow> Inl e)"

definition lua_parse_mimetype :: "lua_numbers \<Rightarrow> lua_object list \<Rightarrow> exn + lua_object list" where
  "lua_parse_mimetype nums args =
     (case args of
        [] \<Rightarrow> Inr (lua_fail ''server.parse_mimetype(): no argument given'')
      | v # _ \<Rightarrow>
          (case lua_tostring nums v of
             None \<Rightarrow> Inr (lua_fail ''server.parse_mimetype(): argument is not a string'')
           | Some s \<Rightarrow> mime_result ''server.parse_mimetype()'' return_mimetype_to_lua (parseMimetype s)))"

text \<open>An upload by its number, or a path: the path, the name and the type that is expected.\<close>

definition file_argument :: "lua_numbers \<Rightarrow> connection \<Rightarrow> lua_object \<Rightarrow> string \<Rightarrow> string \<Rightarrow> lua_object list + string \<times> string \<times> string" where
  "file_argument nums c v name quoted_name =
     (case v of
        LInteger i \<Rightarrow>
          (case upload_at c i of
             None \<Rightarrow> Inl (lua_fail (quoted_name @ '': Could not read data of uploaded file. Invalid index?''))
           | Some u \<Rightarrow> Inr (tmpname u, origname u, mimetype u))
      | _ \<Rightarrow>
          (case lua_tostring nums v of
             None \<Rightarrow> Inl (lua_fail (name @ '': path is not a string''))
           | Some p \<Rightarrow> Inr (p, p, [])))"

definition lua_file_mimetype :: "lua_numbers \<Rightarrow> (string \<Rightarrow> exn + string) \<Rightarrow> connection \<Rightarrow> lua_object list \<Rightarrow> exn + lua_object list" where
  "lua_file_mimetype nums magic c args =
     (case args of
        [] \<Rightarrow> Inr (lua_fail ''server.file_mimetype(): no path given'')
      | v # _ \<Rightarrow>
          (case file_argument nums c v ''server.file_mimetype()'' (apostrophes ''server.file_mimetype()'') of
             Inl r \<Rightarrow> Inr r
           | Inr (path, _, _) \<Rightarrow> mime_result ''server.file_mimetype()'' return_mimetype_to_lua (getFileMimetype magic path)))"

definition lua_file_mimeconsistency ::
  "lua_numbers \<Rightarrow> (string \<Rightarrow> exn + string) \<Rightarrow> connection \<Rightarrow> lua_object list \<Rightarrow> exn + lua_object list" where
  "lua_file_mimeconsistency nums magic c args =
     (case args of
        [] \<Rightarrow> Inr (lua_fail ''server.file_mimetype(): no path given'')
      | v # _ \<Rightarrow>
          (case file_argument nums c v ''server.file_mimeconsistency()'' (apostrophes ''server.file_mimeconsistency()'') of
             Inl r \<Rightarrow> Inr r
           | Inr (path, filename, expected_mimetype) \<Rightarrow>
               mime_result ''server.file_mimeconsistency()'' (\<lambda>b. [LBoolean True, LBoolean b])
                 (checkMimeTypeConsistency magic path filename expected_mimetype)))"

end
