(* ===== verification/LuaApiProps.thy ===== *)
theory LuaApiProps
  imports LuaApi DispatchProps
begin

text \<open>
  Properties of what scripts see and do: parameters and credentials arrive as they were sent, copies are exact, cookies are always secure; a
  request with a length and no content ends the server.
\<close>

section \<open>The table of a request\<close>

lemma raw_get_set: "raw_get (raw_set k v t) j = (if j = k then v else raw_get t j)"
proof (cases "v = LNil")
  case True
  have "map_of (AList.delete k t) = (map_of t)(k := None)" by (simp add: delete_conv')
  with True show ?thesis by (simp add: raw_set_def raw_get_def)
next
  case False
  have "map_of (AList.update k v t) = (map_of t)(k \<mapsto> v)" by (simp add: update_conv')
  with False show ?thesis by (simp add: raw_set_def raw_get_def)
qed

lemma push_string_inj: "CHR 0x00 \<notin> set a \<Longrightarrow> CHR 0x00 \<notin> set b \<Longrightarrow> push_string a = push_string b \<longleftrightarrow> a = b"
  by (simp add: push_string_def cstring_same)

lemma fold_table:
  "\<forall>n \<in> set ns. CHR 0x00 \<notin> set n \<Longrightarrow> CHR 0x00 \<notin> set k \<Longrightarrow>
   raw_get (fold (\<lambda>k. raw_set (push_string k) (push_string (f k))) ns t) (push_string k) =
     (if k \<in> set ns then push_string (f k) else raw_get t (push_string k))"
  by (induction ns arbitrary: t) (auto simp: raw_get_set push_string_inj)

text \<open>
  A script sees every parameter, header and cookie of a request under its name with its value, and no others, where the names have no zero byte.
\<close>

theorem script_sees_request:
  assumes "iter_ok (map_iter c) m" and "\<forall>n \<in> dom m. CHR 0x00 \<notin> set n" and "CHR 0x00 \<notin> set k"
  shows "\<exists>t. string_table c m = LTable t \<and> raw_get t (push_string k) = (case m k of None \<Rightarrow> LNil | Some v \<Rightarrow> push_string v)"
proof -
  have m: "map_of (map_iter c m) = m" using assms(1) by (simp add: iter_ok_def)
  then have d: "set (map fst (map_iter c m)) = dom m" by (simp add: dom_map_of_conv_image_fst [symmetric])
  with assms(2) have n: "\<forall>n \<in> set (map fst (map_iter c m)). CHR 0x00 \<notin> set n" by simp
  have e: "raw_get [] x = LNil" for x by (simp add: raw_get_def)
  have "raw_get (fold (\<lambda>k. raw_set (push_string k) (push_string (param_value m k))) (map fst (map_iter c m)) []) (push_string k) =
      (if k \<in> dom m then push_string (param_value m k) else LNil)"
    using fold_table [OF n assms(3), of "param_value m" "[]"] unfolding d e .
  then show ?thesis by (auto simp: string_table_def param_value_def split: option.split)
qed

lemma script_sees_request_witness:
  "\<exists>t. string_table ((init_connection (mk_istream []) mk_ostream ''/tmp'' 0 8192 (\<lambda>m. [(''a'', ''1'')]))) [''a'' \<mapsto> ''1''] = LTable t \<and>
     raw_get t (push_string ''a'') = push_string ''1''"
  using script_sees_request [of "init_connection (mk_istream []) mk_ostream ''/tmp'' 0 8192 (\<lambda>m. [(''a'', ''1'')])" "[''a'' \<mapsto> ''1'']" "''a''"]
  by (simp add: iter_ok_def init_connection_def status_def)

section \<open>Credentials\<close>

text \<open>
  The name and the password of a basic authorization arrive at the script as the client encoded them.
\<close>

theorem basic_credentials:
  assumes "header_in c ''authorization'' = Some (t @ '' '' @ base64_encode (user @ '':'' @ password))"
    and "asciitolower t = ''basic''" and "CHR '' '' \<notin> set t" and "CHR '':'' \<notin> set user"
  shows "lua_require_auth args c = (Inr [LBoolean True, LTable [(LString ''status'', push_string ''BASIC''),
     (LString ''username'', push_string user), (LString ''password'', push_string password)]], c)"
proof -
  have "t \<noteq> []" using assms(2) by (auto simp: asciitolower_def)
  then have "auth_entries (t @ '' '' @ base64_encode (user @ '':'' @ password)) =
      [(''status'', ''BASIC''), (''username'', user), (''password'', password)]"
    using assms(2-4) by (simp add: auth_entries_def find_char_append Let_def base64_decode_encode)
  then show ?thesis
    using assms(1) by (simp add: lua_require_auth_def header_get_def sbind_def sret_def auth_table_def)
qed

lemma basic_credentials_witness:
  "lua_require_auth [] (example_connection\<lparr>header_in := [''authorization'' \<mapsto> ''Basic'' @ '' '' @ base64_encode (''me'' @ '':'' @ ''a:b'')]\<rparr>) =
     (Inr [LBoolean True, LTable [(LString ''status'', push_string ''BASIC''), (LString ''username'', push_string ''me''),
        (LString ''password'', push_string ''a:b'')]],
      example_connection\<lparr>header_in := [''authorization'' \<mapsto> ''Basic'' @ '' '' @ base64_encode (''me'' @ '':'' @ ''a:b'')]\<rparr>)"
proof (rule basic_credentials)
  show "asciitolower ''Basic'' = ''basic''" by code_simp
qed simp_all

section \<open>A length without a content\<close>

lemma content_frames:
  "content (apply_header c h) = content c"
  by (cases h; simp add: apply_header.simps Let_def split: sum.split)

lemma cors_content: "content (snd (cors_origin c)) = content c"
  by (simp add: cors_origin_def act_defs split: option.split)

lemma setup_frames:
  "content (snd (keep_alive_setup srv ka c)) = content c" "content_length (snd (keep_alive_setup srv ka c)) = content_length c"
  "reset_connection (snd (keep_alive_setup srv ka c)) = reset_connection c"
  by (simp_all add: keep_alive_setup_def setupKeepAlive_def Let_def)

text \<open>
  A single \<open>GET\<close> request with a positive \<open>Content-Length\<close> ends the server: no content is read for it, and the table for the scripts
  is made from a null pointer.
\<close>

theorem get_with_length_crashes:
  assumes "plain_request i path hs r" and "srv_tmpdir srv \<noteq> []" and "re_lua_setup ev = lua_setup script"
    and "map_of (rev (lowered hs)) ''content-length'' = Some v" and "stoll v = Inr k" and "k > 0"
  shows "fst (processRequest srv ev i q peer port sec ka w) = Inl Undefined"
proof -
  let ?c = "init_connection i q (tmp_dir (re_uploads ev)) 0 8192 (re_iter ev)"
  let ?d = "?c\<lparr>http_version := ''HTTP/1.1'', uri := path\<rparr>"
  let ?e = "(after_header ?d hs r)\<lparr>http_method := GET\<rparr>"
  have w: "word_ok ''GET''" by (simp add: word_ok_def isspace_def chr_code_def)
  have hi: "header_in ?c = Map.empty" by (simp add: init_connection_def status_def)
  have n: "new_connection (re_uploads ev) i q 0 8192 (re_iter ev) = (Inr [], ?e)"
    using read_request_path [of ?c "''GET''" path hs r "re_uploads ev"] assms(1) w
    by (simp add: new_connection_def dispatch_method_def set_method_def act_defs plain_request_def)
  have e: "content ?e = None" "content_length ?e = k" "\<not> reset_connection ?e"
    using after_header_length [OF assms(4,5), of ?d r]
    by (simp_all add: after_header_def cors_content foldl_frame [of content] content_frames, simp_all add: init_connection_def status_def cors_frame foldl_frame [of reset_connection] apply_header_more)
  obtain ka1 c1 where k: "keep_alive_setup srv ka ?e = (ka1, c1)" by (cases "keep_alive_setup srv ka ?e")
  let ?p = "set_peer peer port sec c1"
  have p: "content ?p = None" "content_length ?p = k" "\<not> reset_connection ?p"
    using setup_frames [of srv ka ?e] e by (simp_all add: k set_peer_def del: after_header_simps)
  then have "server_table script ?p = Inl Undefined"
    using assms(6) by (simp add: server_table_def content_entries_def map_result_def)
  then have "with_connection srv ev (?p, w) = (Inl Undefined, ?p, w)"
    using p(3) assms(3) by (simp add: with_connection_def sif_def sbind_def lua_setup_def)
  moreover have "\<not> eofbit i" using assms(1) by (simp add: plain_request_def is_good_def)
  ultimately show ?thesis
    using assms(2) by (simp add: processRequest_def n k end_of_request_def after_exception_def)
qed


text \<open>A \<open>GET\<close> request of a client that announces five bytes.\<close>

lemma get_with_length_crashes_witness:
  "fst (processRequest example_server (example_env\<lparr>re_lua_setup := lua_setup ''/init.lua''\<rparr>)
     (example_text ''/ping'' [(''Content-Length'', ''5'')]) mk_ostream [] 80 False 1 ()) = Inl Undefined"
proof (rule get_with_length_crashes)
  have l: "asciitolower ''Content-Length'' = ''content-length''" "trim_copy ''Content-Length'' = ''Content-Length''" "trim_copy ''5'' = ''5''"
    "word_ok ''/ping''" "CHR ''?'' \<notin> set ''/ping''" "length (request_line ''GET'' ''/ping'') < 100"
    by code_simp+
  show "map_of (rev (lowered [(''Content-Length'', ''5'')])) ''content-length'' = Some ''5''" by (simp add: lowered_def l)
  show five: "stoll ''5'' = Inr 5" by code_simp
  have "header_ok (''Content-Length'', ''5'')" by (simp add: l five max_headerline_len_def) (simp add: CR_def LF_def)
  then show "plain_request (example_text ''/ping'' [(''Content-Length'', ''5'')]) ''/ping'' [(''Content-Length'', ''5'')] []"
    using l by (simp add: plain_request_def example_text_def mk_istream_def is_good_def max_headerline_len_def lowered_def del: header_ok.simps)
qed (simp_all add: example_setting)

section \<open>Cookies\<close>

lemma cookie_option_secure: "cookie_option nums expires_at name v k = Inr k1 \<Longrightarrow> ck_secure k \<Longrightarrow> ck_secure k1 \<and> ck_name k1 = ck_name k \<and> ck_value k1 = ck_value k"
  by (auto simp: cookie_option_def split: if_splits option.splits lua_object.splits)

lemma cookie_options_secure:
  "cookie_options nums expires_at t k = Inr k1 \<Longrightarrow> ck_secure k \<Longrightarrow> ck_secure k1 \<and> ck_name k1 = ck_name k \<and> ck_value k1 = ck_value k"
proof (induction nums expires_at t k rule: cookie_options.induct)
  case (2 nums expires_at n v t k)
  then show ?case using cookie_option_secure [of nums expires_at _ v k] by (fastforce split: option.splits sum.splits)
qed simp

section \<open>Copies\<close>

text \<open>
  An upload that is not empty is copied exactly and no other file changes; an empty one is reported as a failure.
\<close>

theorem upload_copied:
  assumes "upload_at c i = Some u" and "fm (tmpname u) = Some d" and "writable outfile" and "outfile \<noteq> tmpname u"
    and "CHR 0x00 \<notin> set outfile"
  shows "lua_copytmpfile nums writable c [LInteger i, LString outfile] fm =
    Inr (if d = [] then lua_fail (copytmpfile_name @ '': Copying data failed'') else api_ok, fm(outfile \<mapsto> d))"
proof -
  have "lua_cstring outfile = outfile" using assms(5) by (auto simp: lua_cstring_def takeWhile_eq_all_conv)
  then show ?thesis using assms by (simp add: lua_copytmpfile_def copy_stream_def report_def lua_tostring_def)
qed


lemma upload_copied_witness:
  "\<forall>nums. lua_copytmpfile nums (\<lambda>_. True) (example_connection\<lparr>uploads := [\<lparr>fieldname = ''f'', origname = ''a.png'', tmpname = ''/tmp/x'', mimetype = ''image/png'', filesize = 3\<rparr>]\<rparr>)
     [LInteger 1, LString ''/srv/a.png''] [''/tmp/x'' \<mapsto> ''abc''] =
   Inr (api_ok, [''/tmp/x'' \<mapsto> ''abc'', ''/srv/a.png'' \<mapsto> ''abc''])"
  apply (rule allI)
  subgoal for nums
  using upload_copied [of "example_connection\<lparr>uploads := [\<lparr>fieldname = ''f'', origname = ''a.png'', tmpname = ''/tmp/x'', mimetype = ''image/png'', filesize = 3\<rparr>]\<rparr>"
    1 "\<lparr>fieldname = ''f'', origname = ''a.png'', tmpname = ''/tmp/x'', mimetype = ''image/png'', filesize = 3\<rparr>"
    "[''/tmp/x'' \<mapsto> ''abc'']" "''abc''" "\<lambda>_. True" "''/srv/a.png''" nums]
  by (simp add: upload_at_def to_int32_def)
  done

end
