(* ===== verification/LuaValues.thy ===== *)
theory LuaValues
  imports Json IIIFAccess
begin

text \<open>
  The values that go to a Lua function and come back from it: \<open>LuaValstruct\<close> in \<open>lib/LuaServer.h\<close>, and \<open>pushLuaValue\<close>,
  \<open>getLuaValue\<close> and \<open>executeLuafunction\<close> in \<open>lib/LuaServer.cpp\<close>. The stack of Lua is a list with its top in front;
  what a function does is an argument.
\<close>

section \<open>Values\<close>

datatype valstruct =
    V_INT int
  | V_FLOAT rat
  | V_STRING string
  | V_BOOLEAN bool
  | V_ARRAY "valstruct list"
  | V_TABLE "(string \<times> valstruct) list"
  | V_UNDEFINED

text \<open>\<open>get_float\<close> returns the member for the integer, which is 0 where the value is a float.\<close>

definition get_float :: "valstruct \<Rightarrow> rat option" where
  "get_float v = (case v of V_FLOAT _ \<Rightarrow> Some 0 | _ \<Rightarrow> None)"

text \<open>After a move the source is undefined.\<close>

definition move_value :: "valstruct \<Rightarrow> valstruct \<times> valstruct" where
  "move_value v = (v, V_UNDEFINED)"

text \<open>An array is an array, also an empty one; a table is an object unless it is empty.\<close>

fun get_json :: "valstruct \<Rightarrow> json" where
  "get_json V_UNDEFINED = JNull"
| "get_json (V_INT i) = JInt i"
| "get_json (V_FLOAT f) = JFloat f"
| "get_json (V_STRING s) = JString s"
| "get_json (V_BOOLEAN b) = JBool b"
| "get_json (V_ARRAY vs) = JArray (map get_json vs)"
| "get_json (V_TABLE m) = fold (\<lambda>(k, v). json_set k v) (map (\<lambda>(k, v). (k, get_json v)) m) JNull"

section \<open>To Lua\<close>

text \<open>
  \<open>lua_rawset(L, -3)\<close>: the value on top and the key below it go into the table below them. Anything else in that place
  is not looked at by the library.
\<close>

definition rawset_3 :: "lua_object list \<Rightarrow> exn + lua_object list" where
  "rawset_3 st =
     (case st of
        v # k # LTable t # r \<Rightarrow> if k = LNil then Inl Undefined else Inr (LTable (raw_set k v t) # r)
      | _ \<Rightarrow> Inl Undefined)"

definition and_then :: "exn + 'a \<Rightarrow> ('a \<Rightarrow> exn + 'b) \<Rightarrow> exn + 'b" where
  "and_then r f = (case r of Inl e \<Rightarrow> Inl e | Inr x \<Rightarrow> f x)"

lemma and_then_cong [fundef_cong]:
  "r = r' \<Longrightarrow> (\<And>x. r' = Inr x \<Longrightarrow> f x = f' x) \<Longrightarrow> and_then r f = and_then r' f'"
  by (auto simp: and_then_def split: sum.split)

text \<open>Behind the elements of an array there is one \<open>lua_rawset\<close> more than there are elements.\<close>

fun pushLuaValue :: "valstruct \<Rightarrow> lua_object list \<Rightarrow> exn + lua_object list"
  and push_elems :: "int \<Rightarrow> valstruct list \<Rightarrow> lua_object list \<Rightarrow> exn + lua_object list"
  and push_fields :: "(string \<times> valstruct) list \<Rightarrow> lua_object list \<Rightarrow> exn + lua_object list" where
  "pushLuaValue V_UNDEFINED st = Inr (LNil # st)"
| "pushLuaValue (V_INT i) st = Inr (LInteger i # st)"
| "pushLuaValue (V_FLOAT f) st = Inr (LNumber (case get_float (V_FLOAT f) of None \<Rightarrow> 0 | Some x \<Rightarrow> x) # st)"
| "pushLuaValue (V_STRING s) st = Inr (LString (lua_cstring s) # st)"
| "pushLuaValue (V_BOOLEAN b) st = Inr (LBoolean b # st)"
| "pushLuaValue (V_ARRAY vs) st = and_then (push_elems 1 vs (LTable [] # st)) rawset_3"
| "pushLuaValue (V_TABLE m) st = push_fields m (LTable [] # st)"
| "push_elems i [] st = Inr st"
| "push_elems i (v # vs) st =
     and_then (pushLuaValue v (LInteger i # st)) (\<lambda>st1. and_then (rawset_3 st1) (push_elems (i + 1) vs))"
| "push_fields [] st = Inr st"
| "push_fields ((k, v) # m) st =
     and_then (pushLuaValue v (LString (lua_cstring k) # st)) (\<lambda>st1. and_then (rawset_3 st1) (push_fields m))"

section \<open>From Lua\<close>

text \<open>
  The key of an entry as text, and whether it is the next index of an array. \<open>lua_tostring\<close> of a number changes the key under the
  iteration, and of any other key gives a null pointer.
\<close>

definition entry_key :: "int \<Rightarrow> lua_object \<Rightarrow> exn + string \<times> bool" where
  "entry_key aindex k =
     (case k of
        LInteger i \<Rightarrow> Inr (int_string (to_int32 i), to_int32 i = aindex)
      | LString s \<Rightarrow> Inr (lua_cstring s, False)
      | _ \<Rightarrow> Inl Undefined)"

definition returned_nil :: "string \<Rightarrow> exn" where
  "returned_nil f = LuaError (''Lua function '' @ f @ '' returned nil'')"

text \<open>A text that reads as a number is a number. Of the message for other values only the beginning is kept.\<close>

definition returned_other :: "string \<Rightarrow> exn" where
  "returned_other f = LuaError (''Lua function '' @ f @ '' returned a value of type'')"

fun getLuaValue :: "lua_numbers \<Rightarrow> string \<Rightarrow> lua_object \<Rightarrow> exn + valstruct"
  and get_entries :: "lua_numbers \<Rightarrow> string \<Rightarrow> int \<Rightarrow> (lua_object \<times> lua_object) list \<Rightarrow> exn + (string \<times> valstruct) list \<times> bool" where
  "getLuaValue nums f (LInteger i) = Inr (V_INT (to_int32 i))"
| "getLuaValue nums f (LBoolean b) = Inr (V_BOOLEAN b)"
| "getLuaValue nums f (LTable t) =
     and_then (get_entries nums f 1 t) (\<lambda>(es, is_array).
       Inr (if is_array then V_ARRAY (map snd es) else V_TABLE (fold (\<lambda>(k, v). AList.update k v) es [])))"
| "getLuaValue nums f LNil = Inl (returned_nil f)"
| "getLuaValue nums f (LNumber x) = Inr (V_FLOAT (f32 x))"
| "getLuaValue nums f (LString s) =
     (case text_number nums s of Some x \<Rightarrow> Inr (V_FLOAT (f32 x)) | None \<Rightarrow> Inr (V_STRING (lua_cstring s)))"
| "getLuaValue nums f LOther = Inl (returned_other f)"
| "get_entries nums f aindex [] = Inr ([], True)"
| "get_entries nums f aindex ((k, v) # t) =
     and_then (entry_key aindex k) (\<lambda>(ks, here).
     and_then (getLuaValue nums f v) (\<lambda>w.
     and_then (get_entries nums f (aindex + 1) t) (\<lambda>(es, rest_array).
       Inr ((ks, w) # es, here \<and> rest_array))))"

section \<open>Calling a function\<close>

record lua_functions =
  is_function :: "string \<Rightarrow> bool"
  pcall :: "string \<Rightarrow> lua_object list \<Rightarrow> string + lua_object list"

fun push_all :: "valstruct list \<Rightarrow> lua_object list \<Rightarrow> exn + lua_object list" where
  "push_all [] st = Inr st"
| "push_all (v # vs) st = and_then (pushLuaValue v st) (push_all vs)"

fun get_all :: "lua_numbers \<Rightarrow> string \<Rightarrow> lua_object list \<Rightarrow> exn + valstruct list" where
  "get_all nums f [] = Inr []"
| "get_all nums f (v # vs) = and_then (getLuaValue nums f v) (\<lambda>w. and_then (get_all nums f vs) (\<lambda>ws. Inr (w # ws)))"

definition execute_failed :: "string \<Rightarrow> string \<Rightarrow> exn" where
  "execute_failed f msg = LuaError (''LuaServer::executeLuafunction: function '' @ f @ msg)"

text \<open>The function lies under its arguments.\<close>

definition execute_function :: "lua_numbers \<Rightarrow> lua_functions \<Rightarrow> string \<Rightarrow> valstruct list \<Rightarrow> exn + valstruct list" where
  "execute_function nums lua funcname lvs =
     (if \<not> is_function lua funcname then Inl (execute_failed funcname '' not found'')
      else and_then (push_all lvs [LOther]) (\<lambda>st.
        case pcall lua funcname (tl (rev st)) of
          Inl msg \<Rightarrow> Inl (execute_failed funcname ('' failed: '' @ lua_cstring msg))
        | Inr rs \<Rightarrow> get_all nums funcname rs))"

text \<open>The scripts of the site as the IIIF handler sees them.\<close>

fun preflight_value :: "valstruct \<Rightarrow> lua_value" where
  "preflight_value (V_STRING s) = LuaString s"
| "preflight_value (V_TABLE m) = LuaTable (map (\<lambda>(k, v). (k, preflight_value v)) m)"
| "preflight_value _ = LuaOther"

definition site_scripts :: "lua_numbers \<Rightarrow> lua_functions \<Rightarrow> lua_env" where
  "site_scripts nums lua =
     \<lparr>luaFunctionExists = is_function lua,
      executeLuafunction = (\<lambda>f args. and_then (execute_function nums lua f (map V_STRING args)) (\<lambda>vs. Inr (map preflight_value vs)))\<rparr>"

section \<open>Arguments and results\<close>

lemma and_then_simps [simp]: "and_then (Inl e) f = Inl e" "and_then (Inr x) f = f x"
  by (simp_all add: and_then_def)

text \<open>
  Values that are passed on as they are: integers of 32 bits, texts without a zero byte that do not read as numbers, and tables
  that have entries, with keys that are different.
\<close>

fun passable :: "lua_numbers \<Rightarrow> valstruct \<Rightarrow> bool" where
  "passable nums (V_INT i) \<longleftrightarrow> - (2 ^ 31) \<le> i \<and> i < 2 ^ 31"
| "passable nums (V_BOOLEAN b) \<longleftrightarrow> True"
| "passable nums (V_STRING s) \<longleftrightarrow> CHR 0x00 \<notin> set s \<and> text_number nums s = None"
| "passable nums (V_TABLE m) \<longleftrightarrow> m \<noteq> [] \<and> distinct (map fst m) \<and> list_all (\<lambda>(k, v). CHR 0x00 \<notin> set k \<and> passable nums v) m"
| "passable nums _ \<longleftrightarrow> False"

fun lua_of :: "valstruct \<Rightarrow> lua_object" where
  "lua_of (V_INT i) = LInteger i"
| "lua_of (V_BOOLEAN b) = LBoolean b"
| "lua_of (V_STRING s) = LString s"
| "lua_of (V_TABLE m) = LTable (map (\<lambda>(k, v). (LString k, lua_of v)) m)"
| "lua_of _ = LNil"

lemma lua_of_not_nil: "passable nums v \<Longrightarrow> lua_of v \<noteq> LNil"
  by (cases v) auto

lemma update_new: "k \<notin> fst ` set t \<Longrightarrow> AList.update k v t = t @ [(k, v)]"
  by (induction t) auto

lemma rawset_new: "k \<noteq> LNil \<Longrightarrow> v \<noteq> LNil \<Longrightarrow> k \<notin> fst ` set t \<Longrightarrow> rawset_3 (v # k # LTable t # r) = Inr (LTable (t @ [(k, v)]) # r)"
  by (simp add: rawset_3_def raw_set_def update_new)

lemma push_fields_lua:
  "(\<forall>(k, v) \<in> set m. CHR 0x00 \<notin> set k \<and> lua_of v \<noteq> LNil \<and> (\<forall>st. pushLuaValue v st = Inr (lua_of v # st))) \<Longrightarrow>
   distinct (map fst m) \<Longrightarrow> fst ` set t \<inter> LString ` fst ` set m = {} \<Longrightarrow>
   push_fields m (LTable t # st) = Inr (LTable (t @ map (\<lambda>(k, v). (LString k, lua_of v)) m) # st)"
proof (induction m arbitrary: t)
  case (Cons x m)
  obtain k v where x: "x = (k, v)" by (cases x)
  have "LString k \<notin> fst ` set t" using Cons.prems(3) x by auto
  then have r: "rawset_3 (lua_of v # LString k # LTable t # st) = Inr (LTable (t @ [(LString k, lua_of v)]) # st)"
    using Cons.prems(1) x by (intro rawset_new) auto
  have "push_fields m (LTable (t @ [(LString k, lua_of v)]) # st) =
      Inr (LTable ((t @ [(LString k, lua_of v)]) @ map (\<lambda>(k, v). (LString k, lua_of v)) m) # st)"
    by (rule Cons.IH) (use Cons.prems x in auto)
  with r Cons.prems(1) x show ?case by (simp add: cstring_same)
qed simp

lemma push_lua: "passable nums v \<Longrightarrow> pushLuaValue v st = Inr (lua_of v # st)"
proof (induction v arbitrary: st)
  case (V_TABLE m)
  have "push_fields m (LTable [] # st) = Inr (LTable ([] @ map (\<lambda>(k, v). (LString k, lua_of v)) m) # st)"
  proof (rule push_fields_lua)
    show "\<forall>(k, v) \<in> set m. CHR 0x00 \<notin> set k \<and> lua_of v \<noteq> LNil \<and> (\<forall>st. pushLuaValue v st = Inr (lua_of v # st))"
      using V_TABLE lua_of_not_nil by (fastforce simp: list_all_iff snds.intros)
  qed (use V_TABLE.prems in simp_all)
  then show ?case by simp
qed (simp_all add: cstring_same get_float_def)

lemma get_entries_lua:
  "(\<forall>(k, v) \<in> set m. CHR 0x00 \<notin> set k \<and> getLuaValue nums f (lua_of v) = Inr v) \<Longrightarrow>
   get_entries nums f i (map (\<lambda>(k, v). (LString k, lua_of v)) m) = Inr (m, m = [])"
  by (induction m arbitrary: i) (auto simp: entry_key_def cstring_same)

lemma updates_distinct:
  "distinct (map fst es) \<Longrightarrow> fst ` set t \<inter> fst ` set es = {} \<Longrightarrow> fold (\<lambda>(k, v). AList.update k v) es t = t @ es"
  by (induction es arbitrary: t) (auto simp: update_new)

lemma get_lua: "passable nums v \<Longrightarrow> getLuaValue nums f (lua_of v) = Inr v"
proof (induction v)
  case (V_TABLE m)
  have "get_entries nums f 1 (map (\<lambda>(k, v). (LString k, lua_of v)) m) = Inr (m, m = [])"
    using V_TABLE by (intro get_entries_lua) (fastforce simp: list_all_iff snds.intros)
  then show ?case using V_TABLE.prems updates_distinct [of m "[]"] by simp
qed (simp_all add: to_int32_def cstring_same)

lemma push_all_lua: "list_all (passable nums) vs \<Longrightarrow> push_all vs st = Inr (rev (map lua_of vs) @ st)"
  by (induction vs arbitrary: st) (auto simp: push_lua)

lemma get_all_lua: "list_all (passable nums) vs \<Longrightarrow> get_all nums f (map lua_of vs) = Inr vs"
  by (induction vs) (auto simp: get_lua)

text \<open>
  A Lua function gets its arguments as they are and in their order, and what it returns comes back as it is: a function that
  returns what it is given gives back the same values.
\<close>

theorem lua_call_faithful:
  assumes "list_all (passable nums) args" and "is_function lua f" and "pcall lua f (map lua_of args) = Inr (map lua_of rs)"
    and "list_all (passable nums) rs"
  shows "execute_function nums lua f args = Inr rs"
  using assms by (simp add: execute_function_def push_all_lua get_all_lua)

definition sample_call :: lua_functions where
  "sample_call = \<lparr>is_function = (\<lambda>f. f = ''iiif_preflight''), pcall = (\<lambda>f args. Inr args)\<rparr>"

definition sample_args :: "valstruct list" where
  "sample_args = [V_STRING ''prefix'', V_TABLE [(''a'', V_INT 1), (''b'', V_TABLE [(''c'', V_BOOLEAN True)])]]"

lemma lua_call_faithful_witness:
  "execute_function \<lparr>number_text = \<lambda>x. [], text_number = \<lambda>s. None\<rparr> sample_call ''iiif_preflight'' sample_args = Inr sample_args"
  by (rule lua_call_faithful) (simp_all add: sample_call_def sample_args_def)

text \<open>
  An array as the first argument of a Lua function is undefined: one element too many is taken from the stack. A float arrives as 0.
\<close>

theorem array_argument_undefined:
  assumes "list_all (passable nums) vs" and "is_function lua f"
  shows "execute_function nums lua f (V_ARRAY vs # args) = Inl Undefined"
proof -
  have "\<exists>u. push_elems i vs (LTable t # st) = Inr (LTable u # st)" for i t st
    using assms(1)
  proof (induction vs arbitrary: i t)
    case (Cons v vs)
    have "\<exists>u. rawset_3 (lua_of v # LInteger i # LTable t # st) = Inr (LTable u # st)" by (simp add: rawset_3_def)
    with Cons show ?case by (auto simp: push_lua)
  qed simp
  then obtain u where "push_elems 1 vs (LTable [] # [LOther]) = Inr (LTable u # [LOther])" by blast
  with assms(2) show ?thesis by (simp add: execute_function_def rawset_3_def)
qed

lemma array_argument_undefined_witness:
  "execute_function \<lparr>number_text = \<lambda>x. [], text_number = \<lambda>s. None\<rparr> sample_call ''iiif_preflight'' [V_ARRAY [V_INT 1]] = Inl Undefined"
  by (rule array_argument_undefined) (simp_all add: sample_call_def)

text \<open>
  A preflight script that allows a file whose path reads as a number is refused: the path comes back as a float.
\<close>

theorem numeric_path_refused:
  assumes "is_function lua f" and "CHR 0x00 \<notin> set prefix" and "pcall lua f [LString prefix, LString ident, LString cookie] = Inr [LString ''allow'', LString path]"
    and "CHR 0x00 \<notin> set ident" and "CHR 0x00 \<notin> set cookie"
    and "text_number nums ''allow'' = None" and "text_number nums path = Some x"
  shows "call_iiif_preflight (site_scripts nums lua) f prefix ident cookie = Inl (script_error f ''file path not a string'')"
proof -
  have al: "lua_cstring ''allow'' = ''allow''" by code_simp
  have "execute_function nums lua f (map V_STRING [prefix, ident, cookie]) = Inr [V_STRING ''allow'', V_FLOAT (f32 x)]"
    using assms al by (simp add: execute_function_def cstring_same)
  then show ?thesis
    by (simp add: call_iiif_preflight_def site_scripts_def checked_permission_def permission_of_def iiif_permissions_def
        with_infile_def get_string_def)
qed

lemma numeric_path_refused_witness:
  "call_iiif_preflight (site_scripts \<lparr>number_text = \<lambda>x. [], text_number = \<lambda>s. if s = ''4711'' then Some 4711 else None\<rparr>
     \<lparr>is_function = \<lambda>f. True, pcall = \<lambda>f args. Inr [LString ''allow'', LString ''4711'']\<rparr>) ''pre'' ''p'' ''i'' ''c'' =
   Inl (script_error ''pre'' ''file path not a string'')"
  by (rule numeric_path_refused [where x = 4711]) simp_all

end
