(* ===== verification/IIIFInfo.thy ===== *)
theory IIIFInfo
  imports IIIFServe Dispatch LuaValues
begin

text \<open>
  The answers of the IIIF handler that are JSON: the description of an image or a file (\<open>handlers/iiifhandler/IIIFSendInfo.cpp\<close>) and
  the special requests that a Lua function answers (\<open>IIIFSendSpecial.cpp\<close>). \<open>dump\<close> prints JSON; it throws where a text is not UTF-8.
\<close>

section \<open>The description\<close>

definition json_object :: "(string \<times> json) list \<Rightarrow> json" where
  "json_object kvs = fold (\<lambda>(k, v). json_set k v) kvs (JObject [])"

definition strings_json :: "string list \<Rightarrow> json" where
  "strings_json ss = JArray (map JString ss)"

definition is_image_mime :: "string \<Rightarrow> bool" where
  "is_image_mime m \<longleftrightarrow> m \<in> set [''image/tiff'', ''image/jpeg'', ''image/png'', ''image/jpx'', ''image/jp2'']"

text \<open>Parts of the request that are missing are left out; the identifier is there.\<close>

definition info_id :: "bool \<Rightarrow> string \<Rightarrow> params \<Rightarrow> string \<Rightarrow> string" where
  "info_id sec hst ps ident =
     (let part = (\<lambda>p. case ps p of None \<Rightarrow> [] | Some v \<Rightarrow> if v = [] then [] else v @ ''/'') in
      (if sec then ''https://'' else ''http://'') @ hst @ ''/'' @ part IIIF_ROUTE @ part IIIF_PREFIX @ ident)"

definition info_head :: "string \<Rightarrow> string \<Rightarrow> nat \<Rightarrow> (string \<times> json) list" where
  "info_head mime ident fsize =
     (''@context'', JString (if is_image_mime mime then ''http://iiif.io/api/image/3/context.json'' else ''http://omas.io/api/file/3/context.json'')) #
     (''id'', JString ident) #
     (if is_image_mime mime then
        [(''type'', JString ''ImageService3''), (''protocol'', JString ''http://iiif.io/api/image''), (''profile'', JString ''level2'')]
      else [(''internalMimeType'', JString mime), (''fileSize'', JInt (int fsize))])"

section \<open>Who may log in where\<close>

definition login_types :: "string list" where
  "login_types = [''login'', ''clickthrough'', ''kiosk'', ''external'']"

definition service_skip :: "string list" where
  "service_skip = [''cookieUrl'', ''tokenUrl'', ''logoutUrl'', ''infile'', ''type'']"

text \<open>
  The text in the outer \<open>logoutUrl\<close>: the assignment in the inner block is to a variable of its own.
\<close>

definition logout_url :: "preflight_info \<Rightarrow> string" where
  "logout_url access = []"

definition service_entry :: "string \<Rightarrow> string \<Rightarrow> json" where
  "service_entry url profile = json_object [(''@id'', JString url), (''profile'', JString (''http://iiif.io/api/auth/1/'' @ profile))]"

definition token_services :: "string \<Rightarrow> string \<Rightarrow> json" where
  "token_services tokenUrl logoutUrl =
     JArray (service_entry tokenUrl ''token'' # (if logoutUrl = [] then [] else [service_entry logoutUrl ''logout'']))"

text \<open>
  The service, or the message that refuses the request. What else the script has given is copied, over what is there.
\<close>

definition auth_service :: "(preflight_info \<Rightarrow> (string \<times> string) list) \<Rightarrow> preflight_info \<Rightarrow> string \<Rightarrow> string + json" where
  "auth_service items access ty =
     (case access ''cookieUrl'' of
        None \<Rightarrow> Inl ''Pre_flight_script has login type but no cookieUrl!''
      | Some cookieUrl \<Rightarrow>
          (let base = json_object
             ([(''@context'', JString ''http://iiif.io/api/auth/1/context.json''), (''@id'', JString cookieUrl),
               (''profile'', JString (''http://iiif.io/api/auth/1/'' @ ty))] @
              map (\<lambda>(k, v). (k, JString v)) (filter (\<lambda>(k, v). k \<notin> set service_skip) (items access))) in
           case access ''tokenUrl'' of
             None \<Rightarrow> Inl ''Pre_flight_script has login type but no tokenUrl!''
           | Some tokenUrl \<Rightarrow> Inr (json_set ''service'' (token_services tokenUrl (logout_url access)) base)))"

section \<open>Sizes and tiles\<close>

definition dims_json :: "nat \<Rightarrow> nat \<Rightarrow> json" where
  "dims_json w h = json_object [(''width'', JInt (int w)), (''height'', JInt (int h))]"

definition sizes_json :: "nat \<Rightarrow> nat \<Rightarrow> sub_image list \<Rightarrow> json list" where
  "sizes_json w h rs = map (\<lambda>r. dims_json (width r) (height r)) (filter (\<lambda>r. \<not> (w = width r \<and> h = height r)) rs)"

definition tile_json :: "nat \<Rightarrow> nat \<Rightarrow> nat list \<Rightarrow> json" where
  "tile_json tw th sf = json_object [(''width'', JInt (int tw)), (''height'', JInt (int th)), (''scaleFactors'', JArray (map (JInt \<circ> int) sf))]"

text \<open>The loop: resolutions without tiles are passed over; a new size of tiles writes the entry of the old one.\<close>

fun tile_groups :: "sub_image list \<Rightarrow> nat \<Rightarrow> nat \<Rightarrow> nat list \<Rightarrow> (nat \<times> nat \<times> nat list) list" where
  "tile_groups [] tw th sf = (if sf = [] then [] else [(tw, th, sf)])"
| "tile_groups (r # rs) tw th sf =
     (if tile_width r = 0 \<or> tile_height r = 0 then tile_groups rs tw th sf
      else if tw = tile_width r \<and> th = tile_height r then tile_groups rs tw th (sf @ [reduce r])
      else (tw, th, sf) # tile_groups rs (tile_width r) (tile_height r) [])"

definition tiles_json :: "sub_image list \<Rightarrow> json list" where
  "tiles_json rs = map (\<lambda>(tw, th, sf). tile_json tw th sf) (tile_groups rs 0 0 [])"

definition nonempty_array :: "string \<Rightarrow> json list \<Rightarrow> (string \<times> json) list" where
  "nonempty_array k vs = (if vs = [] then [] else [(k, JArray vs)])"

definition extra_features :: "string list" where
  "extra_features = [''baseUriRedirect'', ''canonicalLinkHeader'', ''cors'', ''jsonldMediaType'',
     ''mirroring'', ''profileLinkHeader'', ''regionByPct'', ''regionByPx'', ''regionSquare'', ''rotationArbitrary'',
     ''rotationBy90s'', ''sizeByConfinedWh'', ''sizeByH'', ''sizeByPct'', ''sizeByW'', ''sizeByWh'', ''sizeUpscaling'']"

definition image_entries :: "nat \<Rightarrow> nat \<Rightarrow> sub_image list \<Rightarrow> (string \<times> json) list" where
  "image_entries w h rs =
     [(''width'', JInt (int w)), (''height'', JInt (int h))] @ nonempty_array ''sizes'' (sizes_json w h rs) @ nonempty_array ''tiles'' (tiles_json rs) @
     [(''extraFormats'', strings_json [''tif'', ''jp2'']), (''extraQualities'', strings_json [''color'', ''gray'', ''bitonal'']),
      (''preferredFormats'', strings_json [''jpg'', ''tif'', ''jp2'', ''png'']), (''extraFeatures'', strings_json extra_features)]"

section \<open>The answer\<close>

text \<open>Without an entry in the cache the dimensions come from the image, and then without its resolutions.\<close>

definition info_dims ::
  "env \<Rightarrow> string \<Rightarrow> (nat \<Rightarrow> nat \<Rightarrow> sub_image list \<Rightarrow> (iiif_world, unit) act) \<Rightarrow> (iiif_world, unit) act" where
  "info_dims ev infile k =
     sbind (image_dims infile) (\<lambda>d.
       case d of
         Some (w, h, rs) \<Rightarrow> k w h rs
       | None \<Rightarrow> or_refuse (getDim ev infile) error_text INTERNAL_SERVER_ERROR (\<lambda>info.
           if info_success info then k (info_width info) (info_height info) []
           else on_conn (send_error INTERNAL_SERVER_ERROR ''Error getting image dimensions!'')))"

definition dquoted :: "string \<Rightarrow> string" where
  "dquoted s = CHR 0x22 # s @ [CHR 0x22]"

definition context_link :: "string \<Rightarrow> string" where
  "context_link url = ''<'' @ url @ ''>; rel='' @ dquoted ''http://www.w3.org/ns/json-ld#context'' @ ''; type='' @ dquoted ''application/ld+json''"

definition info_content_type :: "bool \<Rightarrow> string \<Rightarrow> (connection, unit) act" where
  "info_content_type is_image accept =
     (let url = (if is_image then ''http://iiif.io/api/image/3/context.json'' else ''http://sipi.io/api/file/3/context.json'') in
      if accept = ''application/ld+json'' then header_set ''Content-Type'' (''application/ld+json;profile='' @ dquoted url)
      else sseq [header_set ''Content-Type'' ''application/json'', header_set ''Link'' (context_link url)])"

definition json_out :: "(json \<Rightarrow> exn + string) \<Rightarrow> json \<Rightarrow> (connection, unit) act" where
  "json_out dump j = (case dump j of Inl e \<Rightarrow> sthrow e | Inr s \<Rightarrow> sendAndFlush s)"

definition send_info_json :: "(json \<Rightarrow> exn + string) \<Rightarrow> status_codes \<Rightarrow> bool \<Rightarrow> json \<Rightarrow> (connection, unit) act" where
  "send_info_json dump code is_image j =
     sbind (sseq [smod (status code []), setBuffer, header_set ''Access-Control-Allow-Origin'' ''*'']) (\<lambda>_.
     sbind (\<lambda>c. case header_get ''accept'' c of (v, c1) \<Rightarrow> (Inr v, c1)) (\<lambda>accept.
     sseq [info_content_type is_image accept, json_out dump j]))"

text \<open>
  The cookie is read for the script only. A file that can be read has a size.
\<close>

definition with_access ::
  "iiif_config \<Rightarrow> env \<Rightarrow> params \<Rightarrow> (preflight_info \<Rightarrow> (iiif_world, unit) act) \<Rightarrow> (iiif_world, unit) act" where
  "with_access cfg ev ps k =
     or_refuse (and_then (params_at ps IIIF_IDENTIFIER) mk_identifier) no_text OK (\<lambda>_.
     let check = (\<lambda>cookie. or_refuse (check_file_access cfg (lua ev) (readable ev) cookie ps (prefix_as_path cfg)) error_text INTERNAL_SERVER_ERROR k) in
     if luaFunctionExists (lua ev) (iiif_preflight_funcname cfg) then
       or_refuse (params_at ps IIIF_PREFIX) no_text OK (\<lambda>_.
       sbind (on_conn (\<lambda>c. case header_get ''cookie'' c of (v, c1) \<Rightarrow> (Inr v, c1))) check)
     else check [])"

definition info_answer ::
  "env \<Rightarrow> (json \<Rightarrow> exn + string) \<Rightarrow> string \<Rightarrow> string \<Rightarrow> preflight_info \<Rightarrow> string \<Rightarrow> (iiif_world, unit) act" where
  "info_answer ev dump infile mime access ident =
     (let ty = (case access ''type'' of None \<Rightarrow> [] | Some t \<Rightarrow> t);
          fsize = length (case files ev infile of None \<Rightarrow> [] | Some d \<Rightarrow> d) in
      swith (\<lambda>w. if ty \<in> set login_types
               then and_then (map_sum CsError id (auth_service (map_iter (wconn w)) access ty)) (\<lambda>s. Inr (UNAUTHORIZED, [(''service'', s)]))
               else Inr (OK, [])) (\<lambda>r.
      or_refuse r error_text INTERNAL_SERVER_ERROR (\<lambda>(code, service).
      let send = (\<lambda>entries. on_conn (send_info_json dump code (is_image_mime mime) (json_object (info_head mime ident fsize @ service @ entries)))) in
      if is_image_mime mime then info_dims ev infile (\<lambda>w h rs. send (image_entries w h rs))
      else send [])))"

definition iiif_info :: "iiif_config \<Rightarrow> env \<Rightarrow> (json \<Rightarrow> exn + string) \<Rightarrow> params \<Rightarrow> (iiif_world, unit) act" where
  "iiif_info cfg ev dump ps =
     with_access cfg ev ps (\<lambda>access.
     let infile = (case access ''infile'' of None \<Rightarrow> [] | Some p \<Rightarrow> p) in
     or_refuse (getBestFileMimetype (magic ev) infile) no_text OK (\<lambda>mime.
     sbind (on_conn (\<lambda>c. case header_get ''host'' c of (v, c1) \<Rightarrow> (Inr v, c1))) (\<lambda>hst.
     or_refuse (params_at ps IIIF_IDENTIFIER) no_text OK (\<lambda>ident.
     swith (\<lambda>w. info_id (secure (wconn w)) hst ps ident) (info_answer ev dump infile mime access)))))"

section \<open>Special requests\<close>

text \<open>
  The results of the function, and the answer if there is one already. The error of the function is overwritten, as there is not one
  result then. The member \<open>result\<close> is null where there is no answer yet.
\<close>

definition special_json :: "exn + valstruct list \<Rightarrow> exn + json" where
  "special_json r =
     (let failed = (\<lambda>msg. json_object [(''status'', JString ''ERROR''), (''errormsg'', JString msg)]);
          finish = (\<lambda>rvals result.
            let result1 = (if length rvals \<noteq> 1 then failed ''More than one return value from script.'' else result) in
            if result1 = JNull then json_set ''result'' (get_json (hd rvals)) (json_set ''status'' (JString ''OK'') result1) else result1) in
      case r of
        Inr rvals \<Rightarrow> Inr (finish rvals JNull)
      | Inl (CsError msg) \<Rightarrow> Inr (finish [] (failed msg))
      | Inl (LuaError msg) \<Rightarrow> Inr (finish [] (failed msg))
      | Inl e \<Rightarrow> Inl e)"

definition send_special_json :: "(json \<Rightarrow> exn + string) \<Rightarrow> json \<Rightarrow> (connection, unit) act" where
  "send_special_json dump j = sseq
     [smod (status OK []), setBuffer, header_set ''Access-Control-Allow-Origin'' ''*'', json_out dump j]"

definition iiif_special ::
  "lua_numbers \<Rightarrow> lua_functions \<Rightarrow> (json \<Rightarrow> exn + string) \<Rightarrow> params \<Rightarrow> string \<Rightarrow> (iiif_world, unit) act" where
  "iiif_special nums lf dump ps fname =
     or_refuse (params_at ps IIIF_IDENTIFIER) no_text OK (\<lambda>raw.
     or_refuse (decoded raw) no_text OK (\<lambda>once.
     or_refuse (mk_identifier once) no_text OK (\<lambda>sid.
     let answer = (\<lambda>r. or_refuse (special_json r) no_text OK (\<lambda>j. on_conn (send_special_json dump j))) in
     if is_function lf fname then
       or_refuse (params_at ps IIIF_PREFIX) no_text OK (\<lambda>prefix.
       sbind (on_conn (\<lambda>c. case header_get ''cookie'' c of (v, c1) \<Rightarrow> (Inr v, c1))) (\<lambda>cookie.
       answer (execute_function nums lf fname [V_STRING prefix, V_STRING sid, V_STRING cookie])))
     else answer (Inr []))))"

section \<open>The whole handler\<close>

text \<open>The handler with the scripts of the site, where the functions of the preflight are those of the same interpreter.\<close>

definition site_env :: "lua_numbers \<Rightarrow> lua_functions \<Rightarrow> env \<Rightarrow> env" where
  "site_env nums lf ev = ev\<lparr>lua := site_scripts nums lf\<rparr>"

definition site_handler ::
  "iiif_config \<Rightarrow> env \<Rightarrow> transcoder \<Rightarrow> lua_numbers \<Rightarrow> lua_functions \<Rightarrow> (json \<Rightarrow> exn + string) \<Rightarrow> file_system \<Rightarrow> lua_run
    \<Rightarrow> string \<Rightarrow> (iiif_world, unit) act" where
  "site_handler cfg ev transcode nums lf dump fs run =
     iiif_handler cfg (site_env nums lf ev) transcode
       \<lparr>call_files = fs, call_lua = run, send_iiif_info = iiif_info cfg (site_env nums lf ev) dump,
        send_iiif_special = iiif_special nums lf dump\<rparr>"

end
