(* ===== verification/IIIFInfoProps.thy ===== *)
theory IIIFInfoProps
  imports IIIFInfo DispatchProps
begin

text \<open>
  Properties of the answers in JSON: they arrive complete, with the members they must have, and what they lose.
\<close>

section \<open>Objects\<close>

lemma json_object_entries:
  "\<exists>m. json_object kvs = JObject m \<and> sorted_table m \<and> map_of m = map_of (rev kvs)"
proof -
  have "\<exists>m'. fold (\<lambda>(k, v). json_set k v) kvs (JObject m) = JObject m' \<and> sorted_table m' \<and> map_of m' = map_of m ++ map_of (rev kvs)"
    if "sorted_table m" for m
    using that
  proof (induction kvs arbitrary: m)
    case (Cons x kvs)
    obtain k v where x: "x = (k, v)" by (cases x)
    obtain m' where m': "fold (\<lambda>(k, v). json_set k v) kvs (JObject (map_put k v m)) = JObject m'" "sorted_table m'"
        "map_of m' = map_of (map_put k v m) ++ map_of (rev kvs)"
      using Cons.IH [OF map_put_sorted [OF Cons.prems]] by blast
    have "map_of m' = map_of m ++ map_of (rev (x # kvs))"
      using m'(3) x by (simp add: map_put_get [OF Cons.prems] map_add_def fun_eq_iff split: option.split)
    moreover have "json_set k v (JObject m) = JObject (map_put k v m)" by (simp add: json_set_def)
    ultimately show ?case using m'(1,2) x by auto
  qed simp
  from this [of "[]"] show ?thesis by (simp add: json_object_def sorted_table_def)
qed

section \<open>Sending\<close>

lemma sendAndFlush_plain:
  assumes "sound c" and "outbuf c = Some []" and "0 < outbuf_inc c" and "\<not> chunked_transfer_out c" and "\<not> header_sent c" and "\<not> finished c"
  shows "\<exists>c'. sendAndFlush s c = (Inr (), c') \<and> finished c' \<and> sound c' \<and>
    written (os c') = written (os c) @ response (status_line c) (map_iter c (header_out c)) s"
proof -
  have b: "buffering [] c" using assms by (simp add: buffering_def)
  obtain k where k: "add_to_outbuf s c = (Inr (), c\<lparr>outbuf_size := k, outbuf := Some s\<rparr>)"
    using add_to_outbuf_ok [OF b assms(6), of s] by auto
  let ?d = "c\<lparr>outbuf_size := k, outbuf := Some s\<rparr>"
  have d: "sound ?d" "\<not> header_sent ?d" using assms by (simp_all add: sound_def)
  have h: "header_bytes (length s) ?d @ s = response (status_line c) (map_iter c (header_out c)) s" "s \<noteq> [] \<Longrightarrow> header_bytes 0 ?d = header_bytes (length s) ?d"
    using assms by (simp_all add: header_bytes_def response_def status_line_def outbuf_nbytes_def)
  show ?thesis
  proof (cases "s = []")
    case True
    with assms k d h show ?thesis
      by (simp add: sendAndFlush_def act_defs send_header_ok outbuf_nbytes_def)
  next
    case False
    with assms k d h show ?thesis
      by (simp add: sendAndFlush_def act_defs send_header_ok outbuf_nbytes_def outbuf_clear_def)
  qed
qed


lemma header_read:
  "\<exists>m. header_get n c = (case header_in c n of None \<Rightarrow> [] | Some v \<Rightarrow> v, c\<lparr>header_in := m\<rparr>)"
  by (auto simp: header_get_def split: option.split intro: exI [of _ "header_in c"])

lemma json_sent:
  assumes "plain c" and "0 < outbuf_inc c" and "dump j = Inr body"
  shows "\<exists>c' hs. send_info_json dump code is_image j c = (Inr (), c') \<and> finished c' \<and>
    written (os c') = written (os c) @ response (status_line (status code [] c)) (map_iter c hs) body"
proof -
  let ?a = "(status code [] c)\<lparr>outbuf := Some [], header_out := (header_out c)(''Access-Control-Allow-Origin'' \<mapsto> ''*'')\<rparr>"
  obtain m accept where g: "header_get ''accept'' ?a = (accept, ?a\<lparr>header_in := m\<rparr>)" using header_read [of "''accept''" ?a] by blast
  define hs where "hs = (let h = header_out ?a; url = (if is_image then ''http://iiif.io/api/image/3/context.json'' else ''http://sipi.io/api/file/3/context.json'') in
    if accept = ''application/ld+json'' then h(''Content-Type'' \<mapsto> ''application/ld+json;profile='' @ dquoted url)
    else h(''Content-Type'' \<mapsto> ''application/json'', ''Link'' \<mapsto> context_link url))"
  let ?d = "?a\<lparr>header_in := m, header_out := hs\<rparr>"
  have t: "info_content_type is_image accept (?a\<lparr>header_in := m\<rparr>) = (Inr (), ?d)"
    using assms(1) by (auto simp: info_content_type_def header_set_def act_defs hs_def Let_def plain_def status_def)
  have p: "sound ?d" "outbuf ?d = Some []" "0 < outbuf_inc ?d" "\<not> chunked_transfer_out ?d" "\<not> header_sent ?d" "\<not> finished ?d"
    using assms(1,2) by (simp_all add: plain_def sound_def status_def)
  obtain c' where c': "sendAndFlush body ?d = (Inr (), c')" "finished c'"
      "written (os c') = written (os ?d) @ response (status_line ?d) (map_iter ?d (header_out ?d)) body"
    using sendAndFlush_plain [OF p, of body] by blast
  have a: "sseq [smod (status code []), setBuffer, header_set ''Access-Control-Allow-Origin'' ''*''] c = (Inr (), ?a)"
    using assms(1) by (simp add: act_defs setBuffer_def header_set_def plain_def status_def)
  have "send_info_json dump code is_image j c = (Inr (), c')"
    unfolding send_info_json_def using a g t c'(1) assms(3)
    by (simp add: sbind_def json_out_def sseq.simps sret_def del: fun_upd_apply)
  moreover have "written (os c') = written (os c) @ response (status_line (status code [] c)) (map_iter c hs) body"
    using c'(3) by (simp add: status_line_def status_def)
  ultimately show ?thesis using c'(2) by blast
qed

section \<open>The description of an image\<close>


section \<open>Special requests\<close>

text \<open>
  The result of a Lua function that answers a special request goes out complete as JSON, with the status 200.
\<close>

theorem special_answered:
  fixes w :: iiif_world
  assumes "plain (wconn w)" and "0 < outbuf_inc (wconn w)" and "ps IIIF_IDENTIFIER = Some raw" and "decoded raw = Inr once" and "mk_identifier once = Inr ident"
    and "ps IIIF_PREFIX = Some pre" and "is_function lf fname"
    and "execute_function nums lf fname [V_STRING pre, V_STRING ident,
      V_STRING (case header_in (wconn w) ''cookie'' of None \<Rightarrow> [] | Some ck \<Rightarrow> ck)] = Inr [v]"
    and "dump (JObject [(''result'', get_json v), (''status'', JString ''OK'')]) = Inr body"
  shows "\<exists>w'. iiif_special nums lf dump ps fname w = (Inr (), w') \<and> wcache w' = wcache w \<and> finished (wconn w') \<and>
    written (os (wconn w')) = written (os (wconn w)) @ response (status_line (status OK [] (wconn w)))
      (map_iter (wconn w) ((header_out (wconn w))(''Access-Control-Allow-Origin'' \<mapsto> ''*''))) body"
proof -
  have "\<exists>m. header_get ''cookie'' (wconn w) = (case header_in (wconn w) ''cookie'' of None \<Rightarrow> [] | Some ck \<Rightarrow> ck, (wconn w)\<lparr>header_in := m\<rparr>)"
    by (auto simp: header_get_def split: option.split intro: exI [of _ "header_in (wconn w)"])
  then obtain m where g: "header_get ''cookie'' (wconn w) =
      (case header_in (wconn w) ''cookie'' of None \<Rightarrow> [] | Some ck \<Rightarrow> ck, (wconn w)\<lparr>header_in := m\<rparr>)" by blast
  let ?c = "(wconn w)\<lparr>header_in := m\<rparr>"
  let ?d = "(status OK [] ?c)\<lparr>outbuf := Some [], header_out := (header_out (wconn w))(''Access-Control-Allow-Origin'' \<mapsto> ''*'')\<rparr>"
  have p: "sound ?d" "outbuf ?d = Some []" "0 < outbuf_inc ?d" "\<not> chunked_transfer_out ?d" "\<not> header_sent ?d" "\<not> finished ?d"
    using assms(1,2) by (simp_all add: plain_def sound_def status_def)
  obtain c' where c': "sendAndFlush body ?d = (Inr (), c')" "finished c'"
      "written (os c') = written (os ?d) @ response (status_line ?d) (map_iter ?d (header_out ?d)) body"
    using sendAndFlush_plain [OF p, of body] by blast
  have "special_json (Inr [v]) = Inr (JObject [(''result'', get_json v), (''status'', JString ''OK'')])"
    by (simp add: special_json_def json_set_def)
  moreover have "send_special_json dump (JObject [(''result'', get_json v), (''status'', JString ''OK'')]) ?c = (Inr (), c')"
    using c'(1) assms(1,9)
    by (simp add: send_special_json_def act_defs setBuffer_def header_set_def json_out_def plain_def status_def)
  ultimately have "iiif_special nums lf dump ps fname w = (Inr (), w\<lparr>wconn := c'\<rparr>)"
    using assms(3-8) g
    by (simp add: iiif_special_def params_at_def or_refuse_def on_conn_def sbind_def)
  moreover have "written (os c') = written (os (wconn w)) @ response (status_line (status OK [] (wconn w)))
      (map_iter (wconn w) ((header_out (wconn w))(''Access-Control-Allow-Origin'' \<mapsto> ''*''))) body"
    using c'(3) by (simp add: status_line_def status_def)
  ultimately show ?thesis using c'(2) by simp
qed

text \<open>
  When the function of a special request fails, or does not exist, the client is told that there was more than one result: the message of the
  error is lost.
\<close>

theorem special_error_hidden:
  assumes "(\<exists>msg. r = Inl (LuaError msg)) \<or> (\<exists>vs. r = Inr vs \<and> length vs \<noteq> 1)"
  shows "special_json r = Inr (JObject [(''errormsg'', JString ''More than one return value from script.''), (''status'', JString ''ERROR'')])"
proof -
  have "''errormsg'' < ''status''" by simp
  then show ?thesis using assms by (auto simp: special_json_def json_object_def json_set_def)
qed

lemma special_error_hidden_witness:
  "special_json (Inl (LuaError ''no such image'')) =
     Inr (JObject [(''errormsg'', JString ''More than one return value from script.''), (''status'', JString ''ERROR'')])"
  by (rule special_error_hidden) simp

section \<open>Logging in\<close>

text \<open>
  The service of an image for which one must log in has the place of the token, and never that for logging out, whatever the script says.
\<close>

theorem logout_never_offered:
  assumes "auth_service items access ty = Inr s" and "access ''tokenUrl'' = Some t"
  shows "\<exists>m. s = JObject m \<and> map_of m ''service'' = Some (JArray [service_entry t ''token''])"
proof -
  obtain ck where "access ''cookieUrl'' = Some ck" using assms(1) by (auto simp: auth_service_def split: option.splits)
  then obtain base where b: "s = json_set ''service'' (token_services t (logout_url access)) (json_object base)"
    using assms by (auto simp: auth_service_def Let_def)
  obtain m where m: "json_object base = JObject m" "sorted_table m" using json_object_entries [of base] by blast
  then have "s = JObject (map_put ''service'' (token_services t []) m)" using b by (simp add: json_set_def logout_url_def)
  then show ?thesis using map_put_get [OF m(2)] by (simp add: token_services_def)
qed

section \<open>Tiles\<close>

text \<open>
  For an image whose resolutions all have tiles of one size the description begins with an entry without a size and without factors, and the factor of
  the first resolution is lost; with a single resolution the real size of the tiles is not there at all.
\<close>

theorem tiles_lose_first_factor:
  assumes "rs \<noteq> []" and "\<forall>r \<in> set rs. tile_width r = tw \<and> tile_height r = th" and "0 < tw" and "0 < th"
  shows "tile_groups rs 0 0 [] = (0, 0, []) # (if tl rs = [] then [] else [(tw, th, map reduce (tl rs))])"
proof -
  have same: "tile_groups qs tw th sf = (if sf @ map reduce qs = [] then [] else [(tw, th, sf @ map reduce qs)])"
    if "\<forall>r \<in> set qs. tile_width r = tw \<and> tile_height r = th" for qs sf
    using that assms(3,4) by (induction qs arbitrary: sf) auto
  obtain r qs where "rs = r # qs" using assms(1) by (cases rs) auto
  with assms same [of qs "[]"] show ?thesis by simp
qed

lemma tiles_lose_first_factor_witness:
  "tile_groups [\<lparr>reduce = 1, width = 4000, height = 3000, tile_width = 256, tile_height = 256\<rparr>,
     \<lparr>reduce = 2, width = 2000, height = 1500, tile_width = 256, tile_height = 256\<rparr>] 0 0 [] =
   (0, 0, []) # (if tl [1, 2 :: nat] = [] then [] else [(256, 256, [2])])"
  using tiles_lose_first_factor [of "[\<lparr>reduce = 1, width = 4000, height = 3000, tile_width = 256, tile_height = 256\<rparr>,
     \<lparr>reduce = 2, width = 2000, height = 1500, tile_width = 256, tile_height = 256\<rparr>]" 256 256]
  by simp


section \<open>Witnesses\<close>

definition example_numbers :: lua_numbers where
  "example_numbers = \<lparr>number_text = (\<lambda>x. []), text_number = (\<lambda>s. None)\<rparr>"

definition number_special :: lua_functions where
  "number_special = \<lparr>is_function = (\<lambda>f. f = ''count''), pcall = (\<lambda>f args. Inr [LInteger 42])\<rparr>"

definition special_params :: params where
  "special_params = [IIIF_IDENTIFIER \<mapsto> ''a.jp2'', IIIF_PREFIX \<mapsto> ''pre'']"

definition special_world :: iiif_world where
  "special_world = \<lparr>wconn = example_connection, wcache = None\<rparr>"

lemma special_answered_witness:
  "\<exists>w'. iiif_special example_numbers number_special (\<lambda>j. Inr ''{}'') special_params ''count'' special_world = (Inr (), w') \<and>
    wcache w' = wcache special_world \<and> finished (wconn w') \<and>
    written (os (wconn w')) = written (os (wconn special_world)) @ response (status_line (status OK [] (wconn special_world)))
      (map_iter (wconn special_world) ((header_out (wconn special_world))(''Access-Control-Allow-Origin'' \<mapsto> ''*''))) ''{}''"
proof (rule special_answered)
  have "escapes_complete ''a.jp2''" "pct_decode False ''a.jp2'' = ''a.jp2''" by code_simp+
  then show d: "decoded ''a.jp2'' = Inr ''a.jp2''" by (simp add: decoded_def urldecode_def urldecode_loop_complete)
  then show "mk_identifier ''a.jp2'' = Inr ''a.jp2''" by (simp add: mk_identifier_def)
  show "execute_function example_numbers number_special ''count'' [V_STRING ''pre'', V_STRING ''a.jp2'',
      V_STRING (case header_in (wconn special_world) ''cookie'' of None \<Rightarrow> [] | Some ck \<Rightarrow> ck)] = Inr [V_INT 42]"
    by (simp add: execute_function_def number_special_def to_int32_def)
qed (simp_all add: special_params_def number_special_def special_world_def example_connection_def plain_def sound_def mk_ostream_def os_reliable_def)

lemma logout_never_offered_witness:
  "\<exists>m. json_set ''service'' (token_services ''/token'' []) (json_object [(''@context'', JString ''http://iiif.io/api/auth/1/context.json''),
      (''@id'', JString ''/login''), (''profile'', JString ''http://iiif.io/api/auth/1/login'')]) = JObject m \<and>
    map_of m ''service'' = Some (JArray [service_entry ''/token'' ''token''])"
  by (rule logout_never_offered [where items = "\<lambda>_. [(''logoutUrl'', ''/logout'')]" and ty = "''login''"
        and access = "[''cookieUrl'' \<mapsto> ''/login'', ''tokenUrl'' \<mapsto> ''/token'', ''logoutUrl'' \<mapsto> ''/logout'']"])
    (simp_all add: auth_service_def service_skip_def logout_url_def)


definition info_config :: iiif_config where
  "info_config = \<lparr>routedata = Map.empty, iiif_scriptdir = [], imgroot = ''/img'', iiif_preflight_funcname = ''pre'', file_preflight_funcname = ''pre'',
     iiif_specials = [], prefix_as_path = False, iiif_max_image_width = 0, iiif_max_image_height = 0\<rparr>"

definition info_env :: env where
  "info_env = \<lparr>lua = \<lparr>luaFunctionExists = (\<lambda>f. False), executeLuafunction = (\<lambda>f args. Inr [])\<rparr>, files = [''/img/a.jp2'' \<mapsto> ''data''],
     magic = (\<lambda>p. Inr ''image/jp2''), getDim = (\<lambda>p. Inr \<lparr>info_success = True, info_width = 640, info_height = 480, info_resolutions = []\<rparr>),
     now = 0, file_time = (\<lambda>p. [])\<rparr>"


end
