(* ===== verification/ImageRead.thy ===== *)
theory ImageRead
  imports IIIFTranscode Essentials
begin

text \<open>
  Reading images: \<open>read\<close>, \<open>readOriginal\<close> and \<open>getDim\<close> of \<open>handlers/iiifhandler/IIIFImage.cpp\<close>. The classes in \<open>imgformats\<close> are an
  argument: the names of the formats in the order in which the hash table \<open>io\<close> gives them, and what their \<open>read\<close>, \<open>getDim\<close> and
  \<open>write\<close> do. An image is read together with its essential metadata.
\<close>

section \<open>Trying the formats\<close>

type_synonym stored_image = "iiif_image \<times> essentials"

record image_io =
  io_formats :: "string list"
  io_read :: "string \<Rightarrow> string \<Rightarrow> region option \<Rightarrow> iiif_size option \<Rightarrow> bool \<Rightarrow> exn + stored_image"
  io_dims :: "string \<Rightarrow> string \<Rightarrow> exn + img_info"

text \<open>The first format that can do it; only an \<open>IIIFImageError\<close> leads to the next one.\<close>

fun first_format :: "(string \<Rightarrow> exn + 'a) \<Rightarrow> string list \<Rightarrow> exn + 'a option" where
  "first_format f [] = Inr None"
| "first_format f (t # ts) =
     (case f t of
        Inr x \<Rightarrow> Inr (Some x)
      | Inl (CsError _) \<Rightarrow> first_format f ts
      | Inl e \<Rightarrow> Inl e)"

text \<open>
  The extension in capitals is written over the buffer of an empty string, whose size stays 0. Up to 15 bytes fit into the buffer
  that an empty string has in the library libstdc++, more are written over other objects.
\<close>

definition upper_extension :: "string \<Rightarrow> exn + string" where
  "upper_extension ext = (if length ext > 15 then Inl Undefined else Inr [])"

definition format_of_extension :: "string \<Rightarrow> string option" where
  "format_of_extension ext =
     (if ext = ''tif'' \<or> ext = ''tiff'' then Some ''tif''
      else if ext = ''jpg'' \<or> ext = ''jpeg'' then Some ''jpg''
      else if ext = ''png'' then Some ''png''
      else if ext = ''jp2'' \<or> ext = ''jpx'' \<or> ext = ''j2k'' then Some ''jpx''
      else None)"

definition cannot_read :: "string \<Rightarrow> exn" where
  "cannot_read p = CsError (''Could not read file '' @ apostrophes p)"

definition image_read :: "image_io \<Rightarrow> string \<Rightarrow> region option \<Rightarrow> iiif_size option \<Rightarrow> bool \<Rightarrow> exn + stored_image" where
  "image_read io fpath rg sz force_bps_8 =
     (case upper_extension (path_extension fpath) of
        Inl e \<Rightarrow> Inl e
      | Inr ext \<Rightarrow>
          (let rd = (\<lambda>t. io_read io t fpath rg sz force_bps_8);
               any = first_format rd (io_formats io);
               finish = (case any of Inl e \<Rightarrow> Inl e | Inr (Some img) \<Rightarrow> Inr img | Inr None \<Rightarrow> Inl (cannot_read fpath)) in
           case (if ext = [] then any
                 else (case format_of_extension ext of
                     Some t \<Rightarrow> (case rd t of Inl e \<Rightarrow> Inl e | Inr img \<Rightarrow> Inr (Some img))
                   | None \<Rightarrow> Inr None)) of
             Inr (Some img) \<Rightarrow> Inr img
           | Inr None \<Rightarrow> finish
           | Inl (CsError _) \<Rightarrow> finish
           | Inl e \<Rightarrow> Inl e))"

section \<open>Reading with a checksum\<close>

text \<open>The samples as bytes, the low byte of a word first; bytes behind the end of the buffer are undefined.\<close>

definition word_bytes :: "nat \<Rightarrow> string" where
  "word_bytes v = [code_chr (v mod 256), code_chr (v div 256)]"

definition pixel_bytes :: "iiif_image \<Rightarrow> exn + string" where
  "pixel_bytes img =
     (let n = sample_count img in
      if \<not> bps_ok img then Inl (bad_bps (bps img))
      else if n > length (pixels img) then Inl Undefined
      else if bps img = 8 then Inr (map code_chr (take n (bpixels img)))
      else Inr (concat (map word_bytes (take n (wpixels img)))))"

definition pixel_checksum :: "(hash_type \<Rightarrow> string \<Rightarrow> string option) \<Rightarrow> hash_type \<Rightarrow> iiif_image \<Rightarrow> exn + string" where
  "pixel_checksum digest ht img =
     (case pixel_bytes img of Inl e \<Rightarrow> Inl e | Inr s \<Rightarrow> Inr (hash_text digest (add_data s (new_hash ht))))"

text \<open>
  An \<open>Error\<close> that is no \<open>IIIFError\<close>, as that of an unknown type of a file, is not caught where those are; it is kept apart as
  \<open>LuaError\<close>.
\<close>

definition base_error :: "exn \<Rightarrow> exn" where
  "base_error e = (case e of CsError msg \<Rightarrow> LuaError msg | _ \<Rightarrow> e)"

text \<open>The type of hash that is recorded is always the same.\<close>

definition readOriginal ::
  "(string \<Rightarrow> exn + string) \<Rightarrow> (hash_type \<Rightarrow> string \<Rightarrow> string option) \<Rightarrow> image_io \<Rightarrow> string \<Rightarrow> region option \<Rightarrow> iiif_size option
    \<Rightarrow> string \<Rightarrow> hash_type \<Rightarrow> exn + stored_image" where
  "readOriginal mag digest io fpath rg sz orig htype =
     (case image_read io fpath rg sz False of
        Inl e \<Rightarrow> Inl e
      | Inr (img, em) \<Rightarrow>
          if \<not> es_is_set em then
            (case pixel_checksum digest htype img of
               Inl e \<Rightarrow> Inl e
             | Inr checksum \<Rightarrow>
                 (case getFileMimetype mag fpath of
                    Inl e \<Rightarrow> Inl (base_error e)
                  | Inr (mime, _) \<Rightarrow> Inr (img, new_essentials (\<lambda>s. s) orig mime SHA256 checksum [])))
          else
            (case pixel_checksum digest (es_hash_type em) img of
               Inl e \<Rightarrow> Inl e
             | Inr checksum \<Rightarrow>
                 if checksum \<noteq> es_data_chksum em then Inl (CsError ''Checksum of data differs from expected value.'')
                 else Inr (img, em)))"

text \<open>Without the name of the original, it is that of the file.\<close>

definition readOriginal_named ::
  "(string \<Rightarrow> exn + string) \<Rightarrow> (hash_type \<Rightarrow> string \<Rightarrow> string option) \<Rightarrow> image_io \<Rightarrow> string \<Rightarrow> region option \<Rightarrow> iiif_size option
    \<Rightarrow> hash_type \<Rightarrow> exn + stored_image" where
  "readOriginal_named mag digest io fpath rg sz htype = readOriginal mag digest io fpath rg sz (getFileName fpath) htype"

section \<open>Dimensions\<close>

definition no_info :: img_info where
  "no_info = \<lparr>info_success = False, info_width = 0, info_height = 0, info_resolutions = []\<rparr>"

definition format_of_type :: "string \<Rightarrow> string option" where
  "format_of_type m =
     (if m = ''image/tiff'' \<or> m = ''image/x-tiff'' then Some ''tif''
      else if m = ''image/jpeg'' \<or> m = ''image/pjpeg'' then Some ''jpg''
      else if m = ''image/png'' then Some ''png''
      else if m = ''image/jp2'' \<or> m = ''image/jpx'' then Some ''jpx''
      else if m = ''application/pdf'' then Some ''pdf''
      else None)"

text \<open>Here an exception of one format is not caught.\<close>

fun first_dims :: "(string \<Rightarrow> exn + img_info) \<Rightarrow> string list \<Rightarrow> img_info \<Rightarrow> exn + img_info" where
  "first_dims f [] info = Inr info"
| "first_dims f (t # ts) info =
     (case f t of Inl e \<Rightarrow> Inl e | Inr i \<Rightarrow> if info_success i then Inr i else first_dims f ts i)"

text \<open>A format that is not in the table is a null pointer.\<close>

definition image_getDim :: "(string \<Rightarrow> exn + string) \<Rightarrow> image_io \<Rightarrow> string \<Rightarrow> exn + img_info" where
  "image_getDim mag io fpath =
     (case getFileMimetype mag fpath of
        Inl e \<Rightarrow> Inl (base_error e)
      | Inr (mime, _) \<Rightarrow>
          (case (case format_of_type mime of
                   None \<Rightarrow> Inr no_info
                 | Some t \<Rightarrow> if t \<in> set (io_formats io) then io_dims io t fpath else Inl Undefined) of
             Inl e \<Rightarrow> Inl e
           | Inr info \<Rightarrow>
               (case (if info_success info then Inr info else first_dims (\<lambda>t. io_dims io t fpath) (io_formats io) info) of
                  Inl e \<Rightarrow> Inl e
                | Inr i \<Rightarrow> if info_success i then Inr i else Inl (CsError (''Could not read file '' @ fpath)))))"

section \<open>What is read\<close>

text \<open>The extension of a file plays no part.\<close>

lemma image_read_eq:
  "image_read io fpath rg sz b =
     (if length (path_extension fpath) > 15 then Inl Undefined
      else (case first_format (\<lambda>t. io_read io t fpath rg sz b) (io_formats io) of
          Inl e \<Rightarrow> Inl e | Inr (Some img) \<Rightarrow> Inr img | Inr None \<Rightarrow> Inl (cannot_read fpath)))"
proof -
  have "\<And>f ts m. first_format f ts \<noteq> Inl (CsError m)"
    subgoal for f ts m by (induction f ts rule: first_format.induct) (auto split: sum.split exn.split)
    done
  then show ?thesis
    by (simp add: image_read_def upper_extension_def Let_def split: sum.split option.split exn.split)
qed

lemma pixel_bytes_fit:
  assumes "bps_ok img" and "sample_count img \<le> length (pixels img)"
  shows "\<exists>s. pixel_bytes img = Inr s \<and> length s = sample_count img * (bps img div 8)"
proof -
  have words: "length (concat (map word_bytes vs)) = 2 * length vs" for vs by (induction vs) (auto simp: word_bytes_def)
  show ?thesis using assms by (auto simp: pixel_bytes_def bps_ok_def pixels_def words Let_def)
qed

text \<open>
  An image that is read as an original gets a checksum, and when it is read as an original again it is accepted if and only
  if the checksum of the type that was asked for equals the checksum of type SHA-256: the record always names that type. So an
  original with the default type is accepted, and one with another type is refused as damaged.
\<close>

theorem original_read_again:
  assumes "image_read io p rg sz False = Inr (img, em0)" and "\<not> es_is_set em0"
    and "readOriginal mag digest io p rg sz orig ht = Inr (img, em)"
    and "image_read io2 p2 rg2 sz2 False = Inr (img, em)"
  shows "readOriginal mag digest io2 p2 rg2 sz2 orig2 ht2 =
     (if pixel_checksum digest ht img = pixel_checksum digest SHA256 img then Inr (img, em)
      else Inl (CsError ''Checksum of data differs from expected value.''))"
proof -
  obtain chk where chk: "pixel_checksum digest ht img = Inr chk"
    using assms by (auto simp: readOriginal_def split: sum.splits)
  obtain mime cs where mime: "getFileMimetype mag p = Inr (mime, cs)"
    using assms chk by (cases "getFileMimetype mag p") (auto simp: readOriginal_def)
  have em: "em = new_essentials (\<lambda>s. s) orig mime SHA256 chk []"
    using assms chk mime by (simp add: readOriginal_def)
  obtain s where s: "pixel_bytes img = Inr s"
    using chk by (auto simp: pixel_checksum_def split: sum.splits)
  then show ?thesis
    using assms(4) em chk by (auto simp: readOriginal_def new_essentials_def pixel_checksum_def)
qed

text \<open>
  An image request for a file whose bytes are those of a PDF document ends the server, whatever the name of the file says: its
  dimensions are asked of a reader for PDF, and there is none in the table of the readers.
\<close>

theorem pdf_request_crashes:
  assumes "getDim ev = image_getDim (magic ev) io" and "''pdf'' \<notin> set (io_formats io)"
    and "magic ev infile = Inr ''application/pdf''" and "readable ev infile" and "wcache w = None"
  shows "serve_image cfg ev (transcode libs ev) ps sident rg sz rot qf infile watermark restriction w = (Inl Undefined, w)"
proof -
  have pm: "parseMimetype ''application/pdf'' = Inr (''application/pdf'', [])" by code_simp
  have best: "\<exists>m. getBestFileMimetype (magic ev) infile = Inr m"
    using assms(3) pm by (simp add: getBestFileMimetype_def getFileMimetype_def split: option.split)
  have dims: "getDim ev infile = Inl Undefined"
    using assms(1-3) pm by (simp add: image_getDim_def getFileMimetype_def format_of_type_def)
  show ?thesis
    using best dims assms(4,5)
    by (auto simp: serve_image_def or_refuse_def with_dims_def image_dims_def on_cache_def sbind_def error_text_def sthrow_def)
qed

section \<open>Witnesses\<close>

definition tiny_image :: iiif_image where
  "tiny_image = no_image\<lparr>img_nx := 1, img_ny := 1, img_nc := 1, bps := 8, photo := MINISBLACK, bpixels := [7]\<rparr>"

definition demo_digest :: "hash_type \<Rightarrow> string \<Rightarrow> string option" where
  "demo_digest t s = Some (if t = MD5 then s else s @ s)"

definition demo_essentials :: essentials where
  "demo_essentials = new_essentials (\<lambda>s. s) ''a.png'' ''image/png'' SHA256 ''07'' []"

definition demo_io :: "essentials \<Rightarrow> image_io" where
  "demo_io em = \<lparr>io_formats = [''jpg'', ''png''],
     io_read = (\<lambda>t p rg sz b. if t = ''png'' then Inr (tiny_image, em) else Inl (CsError ''no'')), io_dims = (\<lambda>t p. Inr no_info)\<rparr>"

theorem original_read_again_witness:
  "readOriginal (\<lambda>p. Inr ''image/png'') demo_digest (demo_io demo_essentials) ''b.png'' None None ''b'' SHA256 =
     Inl (CsError ''Checksum of data differs from expected value.'')"
proof -
  have ext: "\<not> length (path_extension ''a.png'') > 15" "\<not> length (path_extension ''b.png'') > 15" by code_simp+
  have sums: "pixel_checksum demo_digest MD5 tiny_image = Inr ''07''" "pixel_checksum demo_digest SHA256 tiny_image = Inr ''0707''"
  proof -
    have two: "hex_two (code_chr 7) = ''07''" by code_simp
    have "pixel_bytes tiny_image = Inr [code_chr 7]"
      by (simp add: pixel_bytes_def tiny_image_def no_image_def sample_count_def u32_def bps_ok_def pixels_def)
    then show "pixel_checksum demo_digest MD5 tiny_image = Inr ''07''" "pixel_checksum demo_digest SHA256 tiny_image = Inr ''0707''"
      by (simp_all add: pixel_checksum_def hash_text_def demo_digest_def add_data_def new_hash_def two)
  qed
  have mime: "getFileMimetype (\<lambda>p. Inr ''image/png'') ''a.png'' = Inr (''image/png'', [])" by code_simp
  have d: "\<not> es_is_set no_essentials" by (simp add: no_essentials_def)
  have a: "image_read (demo_io no_essentials) ''a.png'' None None False = Inr (tiny_image, no_essentials)"
    using ext by (simp add: image_read_eq demo_io_def del: length_greater_0_conv)
  have c: "image_read (demo_io demo_essentials) ''b.png'' None None False = Inr (tiny_image, demo_essentials)"
    using ext by (simp add: image_read_eq demo_io_def)
  have b: "readOriginal (\<lambda>p. Inr ''image/png'') demo_digest (demo_io no_essentials) ''a.png'' None None ''a.png'' MD5 =
      Inr (tiny_image, demo_essentials)"
    using d by (simp add: readOriginal_def a sums mime demo_essentials_def)
  show ?thesis
    using original_read_again [OF a d b c, of "''b''" SHA256] sums by simp
qed

definition pdf_env :: env where
  "pdf_env = \<lparr>lua = \<lparr>luaFunctionExists = (\<lambda>_. False), executeLuafunction = (\<lambda>_ _. Inr [])\<rparr>, files = (\<lambda>_. Some ''x''), magic = (\<lambda>_. Inr ''application/pdf''),
     getDim = image_getDim (\<lambda>_. Inr ''application/pdf'') (demo_io no_essentials), now = 0, file_time = (\<lambda>_. [])\<rparr>"

theorem pdf_request_crashes_witness:
  "\<forall>cfg libs ps sident rg sz rot qf c.
     serve_image cfg pdf_env (transcode libs pdf_env) ps sident rg sz rot qf ''a.png'' [] no_size \<lparr>wconn = c, wcache = None\<rparr> =
       (Inl Undefined, \<lparr>wconn = c, wcache = None\<rparr>)"
  by (intro allI pdf_request_crashes [of pdf_env "demo_io no_essentials"])
    (simp_all add: pdf_env_def demo_io_def readable_def)

end
