(* ===== verification/LuaImage.thy ===== *)
theory LuaImage
  imports ImageRead LuaApi
begin

text \<open>
  What scripts can do with images and the cache: \<open>handlers/iiifhandler/IIIFLua.cpp\<close>, without the tags of Exif. A method gets the image it
  is called on and the other arguments; it leaves its results, or a Lua error, and the image. C++ exceptions it does not catch go
  through the interpreter to whoever runs the script.
\<close>

section \<open>The cache\<close>

definition lua_cache_size :: "cache option \<Rightarrow> lua_object list" where
  "lua_cache_size k = (case k of None \<Rightarrow> [LNil] | Some c \<Rightarrow> [LInteger (int (u32 (cachesize c)))])"

definition lua_cache_max_size :: "cache option \<Rightarrow> lua_object list" where
  "lua_cache_max_size k = (case k of None \<Rightarrow> [LNil] | Some c \<Rightarrow> [LInteger (int (u32 (max_cachesize c)))])"

definition lua_cache_nfiles :: "cache option \<Rightarrow> lua_object list" where
  "lua_cache_nfiles k = (case k of None \<Rightarrow> [LNil] | Some c \<Rightarrow> [LInteger (int (nfiles c))])"

definition lua_cache_max_nfiles :: "cache option \<Rightarrow> lua_object list" where
  "lua_cache_max_nfiles k = (case k of None \<Rightarrow> [LNil] | Some c \<Rightarrow> [LInteger (int (max_nfiles c))])"

definition lua_cache_path :: "cache option \<Rightarrow> lua_object list" where
  "lua_cache_path k = (case k of None \<Rightarrow> [LNil] | Some c \<Rightarrow> [push_string (cachedir c)])"

text \<open>\<open>time_text\<close> writes a time of the local time zone.\<close>

definition cache_entry :: "(int \<Rightarrow> string) \<Rightarrow> string \<Rightarrow> cache_record \<Rightarrow> lua_object" where
  "cache_entry time_text canonical cr =
     LTable [(LString ''canonical'', push_string canonical), (LString ''origpath'', push_string (ce_origpath cr)),
       (LString ''cachepath'', push_string (ce_cachepath cr)), (LString ''size'', LInteger (int (ce_fsize cr))),
       (LString ''last_access'', push_string (time_text (ce_access_time cr)))]"

definition add_one_cache_file ::
  "(int \<Rightarrow> string) \<Rightarrow> nat \<Rightarrow> string \<Rightarrow> cache_record \<Rightarrow> (lua_object \<times> lua_object) list \<Rightarrow> (lua_object \<times> lua_object) list" where
  "add_one_cache_file time_text i canonical cr = raw_set (LInteger (int i)) (cache_entry time_text canonical cr)"

definition named_sort :: "string \<Rightarrow> sort_method" where
  "named_sort s =
     (if s = ''AT_DESC'' then SORT_ATIME_DESC else if s = ''FS_ASC'' then SORT_FSIZE_ASC
      else if s = ''FS_DESC'' then SORT_FSIZE_DESC else SORT_ATIME_ASC)"

definition sole_text :: "lua_numbers \<Rightarrow> lua_object list \<Rightarrow> exn + string" where
  "sole_text nums args =
     (case args of
        [v] \<Rightarrow> (case lua_tostring nums v of None \<Rightarrow> Inl Undefined | Some s \<Rightarrow> Inr s)
      | _ \<Rightarrow> Inr [])"

definition lua_cache_filelist :: "lua_numbers \<Rightarrow> (int \<Rightarrow> string) \<Rightarrow> lua_object list \<Rightarrow> cache option \<Rightarrow> exn + lua_object list" where
  "lua_cache_filelist nums time_text args k =
     map_result (\<lambda>sortmethod.
         case k of
           None \<Rightarrow> [LNil]
         | Some c \<Rightarrow> [LTable (cache_loop (add_one_cache_file time_text) [] (named_sort sortmethod) c)])
       (sole_text nums args)"

definition lua_delete_cache_file :: "lua_numbers \<Rightarrow> lua_object list \<Rightarrow> cache option \<Rightarrow> exn + lua_object list \<times> cache option" where
  "lua_delete_cache_file nums args k =
     (case k of
        None \<Rightarrow> Inr ([LNil], None)
      | Some c \<Rightarrow>
          if length args = 1
          then map_result (\<lambda>canonical. case remove canonical c of (done, c1) \<Rightarrow> ([LBoolean done], Some c1)) (sole_text nums args)
          else Inr ([LBoolean False], Some c))"

definition lua_purge_cache :: "cache option \<Rightarrow> lua_object list \<times> cache option" where
  "lua_purge_cache k =
     (case k of
        None \<Rightarrow> ([LNil], None)
      | Some c \<Rightarrow> (case purge c of (n, c1) \<Rightarrow> ([LInteger (int n)], Some c1)))"

section \<open>Making an image\<close>

record lua_image =
  li_image :: iiif_image
  li_essentials :: essentials
  li_file :: string

text \<open>What the table of options asks for.\<close>

record read_options =
  ro_region :: "region option"
  ro_size :: "iiif_size option"
  ro_original :: string
  ro_hash :: hash_type

definition size_of_reduce :: "nat \<Rightarrow> iiif_size" where
  "size_of_reduce n = (blank_size False 0 0 0)\<lparr>size_type := REDUCE, s_reduce := n\<rparr>"

definition hash_option :: "string \<Rightarrow> hash_type option" where
  "hash_option s =
     (if s = ''md5'' then Some MD5 else if s = ''sha1'' then Some SHA1 else if s = ''sha256'' then Some SHA256
      else if s = ''sha384'' then Some SHA384 else if s = ''sha512'' then Some SHA512 else None)"

text \<open>
  One option: an exception (of the parsers of regions and sizes), the message for the script, or the options with it. A
  name that is no text is skipped.
\<close>

definition read_option :: "lua_numbers \<Rightarrow> string \<Rightarrow> lua_object \<Rightarrow> read_options \<Rightarrow> exn + (string + read_options)" where
  "read_option nums name v opt =
     (if name = ''region'' then
        (case lua_tostring nums v of
           None \<Rightarrow> Inr (Inl ''Error in region parameter'')
         | Some s \<Rightarrow> map_result (\<lambda>rg. Inr (opt\<lparr>ro_region := Some rg\<rparr>)) (parse_region s))
      else if name = ''size'' then
        (case lua_tostring nums v of
           None \<Rightarrow> Inr (Inl ''Error in size parameter'')
         | Some s \<Rightarrow> map_result (\<lambda>sz. Inr (opt\<lparr>ro_size := Some sz\<rparr>)) (parse_size s 0 0 0))
      else if name = ''reduce'' then
        (case lua_tonumber nums v of
           None \<Rightarrow> Inr (Inl ''Error in reduce parameter'')
         | Some _ \<Rightarrow> Inr (Inr (opt\<lparr>ro_size := Some (size_of_reduce (nat (lua_tointeger nums v mod 2 ^ 32)))\<rparr>)))
      else if name = ''original'' then
        (case lua_tostring nums v of
           None \<Rightarrow> Inr (Inl ''Error in original parameter'')
         | Some s \<Rightarrow> Inr (Inr (opt\<lparr>ro_original := s\<rparr>)))
      else if name = ''hash'' then
        (case lua_tostring nums v of
           None \<Rightarrow> Inr (Inl ''Error in hash parameter'')
         | Some s \<Rightarrow>
             (case hash_option s of
                None \<Rightarrow> Inr (Inl ''Error in hash type'')
              | Some t \<Rightarrow> Inr (Inr (opt\<lparr>ro_hash := t\<rparr>))))
      else Inr (Inl ''Error in parameter table (unknown parameter)''))"

fun read_options_loop :: "lua_numbers \<Rightarrow> (lua_object \<times> lua_object) list \<Rightarrow> read_options \<Rightarrow> exn + (string + read_options)" where
  "read_options_loop nums [] opt = Inr (Inr opt)"
| "read_options_loop nums ((k, v) # t) opt =
     (case lua_tostring nums k of
        None \<Rightarrow> read_options_loop nums t opt
      | Some name \<Rightarrow>
          (case read_option nums name v opt of
             Inl e \<Rightarrow> Inl e
           | Inr (Inl msg) \<Rightarrow> Inr (Inl msg)
           | Inr (Inr opt1) \<Rightarrow> read_options_loop nums t opt1))"

text \<open>The path and the name of the original: an upload by its number, or a path.\<close>

definition image_source :: "lua_numbers \<Rightarrow> connection \<Rightarrow> lua_object \<Rightarrow> string + string \<times> string" where
  "image_source nums c v =
     (case v of
        LInteger i \<Rightarrow>
          (case upload_at c i of
             None \<Rightarrow> Inl (apostrophes ''IIIFImage.new()'' @ '': Could not read data of uploaded file. Invalid index?'')
           | Some u \<Rightarrow> Inr (tmpname u, origname u))
      | _ \<Rightarrow> (case lua_tostring nums v of None \<Rightarrow> Inl ''IIIFImage.new(): filename must be string or index'' | Some p \<Rightarrow> Inr (p, [])))"

definition read_as_asked ::
  "(string \<Rightarrow> exn + string) \<Rightarrow> (hash_type \<Rightarrow> string \<Rightarrow> string option) \<Rightarrow> image_io \<Rightarrow> string \<Rightarrow> read_options \<Rightarrow> exn + stored_image" where
  "read_as_asked mag digest io path opt =
     (if ro_original opt \<noteq> [] then readOriginal mag digest io path (ro_region opt) (ro_size opt) (ro_original opt) (ro_hash opt)
      else image_read io path (ro_region opt) (ro_size opt) False)"

text \<open>The results without an image, or the image, which goes with the result \<open>true\<close>. Options count only as the second argument of two.\<close>

definition SImage_new ::
  "lua_numbers \<Rightarrow> (string \<Rightarrow> exn + string) \<Rightarrow> (hash_type \<Rightarrow> string \<Rightarrow> string option) \<Rightarrow> image_io \<Rightarrow> connection \<Rightarrow> lua_object list
    \<Rightarrow> exn + (lua_object list + lua_image)" where
  "SImage_new nums mag digest io c args =
     (if args = [] then Inr (Inl (lua_fail ''IIIFImage.new(): No filename given''))
      else (case image_source nums c (args ! 0) of
          Inl msg \<Rightarrow> Inr (Inl (lua_fail msg))
        | Inr (path, orig) \<Rightarrow>
            (case (if length args \<noteq> 2 then Inr (Inr \<lparr>ro_region = None, ro_size = None, ro_original = orig, ro_hash = SHA256\<rparr>)
                   else (case args ! 1 of
                       LTable t \<Rightarrow> read_options_loop nums t \<lparr>ro_region = None, ro_size = None, ro_original = orig, ro_hash = SHA256\<rparr>
                     | _ \<Rightarrow> Inr (Inl ''Second parameter must be table''))) of
               Inl e \<Rightarrow> Inl e
             | Inr (Inl msg) \<Rightarrow> Inr (Inl (lua_fail (''IIIFImage.new(): '' @ msg)))
             | Inr (Inr opt) \<Rightarrow>
                 (case read_as_asked mag digest io path opt of
                    Inr (img, em) \<Rightarrow> Inr (Inr \<lparr>li_image = img, li_essentials = em, li_file = path\<rparr>)
                  | Inl (CsError msg) \<Rightarrow> Inr (Inl (lua_fail (''IIIFImage.new(): '' @ msg)))
                  | Inl e \<Rightarrow> Inl e))))"

section \<open>Asking about an image\<close>

definition dims_table :: "nat \<Rightarrow> nat \<Rightarrow> lua_object" where
  "dims_table w h = LTable [(LString ''nx'', LInteger (int w)), (LString ''ny'', LInteger (int h))]"

text \<open>
  The argument is an image or a path; what else it is, the library refuses with an error of its own, here \<open>LOther\<close>.
\<close>

definition SImage_dims ::
  "lua_numbers \<Rightarrow> (string \<Rightarrow> exn + string) \<Rightarrow> image_io \<Rightarrow> (lua_image + lua_object) list \<Rightarrow> exn + (lua_object + lua_object list)" where
  "SImage_dims nums mag io args =
     (case args of
        [Inl img] \<Rightarrow> Inr (Inr [LBoolean True, dims_table (img_nx (li_image img)) (img_ny (li_image img))])
      | [Inr v] \<Rightarrow>
          (case lua_tostring nums v of
             None \<Rightarrow> Inr (Inl LOther)
           | Some p \<Rightarrow>
               (case image_getDim mag io p of
                  Inr info \<Rightarrow> Inr (Inr [LBoolean True, dims_table (info_width info) (info_height info)])
                | Inl (CsError msg) \<Rightarrow> Inr (Inr (lua_fail (''SipiImage.dims(): '' @ msg)))
                | Inl e \<Rightarrow> Inl e))
      | _ \<Rightarrow> Inr (Inr (lua_fail ''SipiImage.dims(): Incorrect number of arguments'')))"

text \<open>The exceptions of the check are not those that are caught.\<close>

definition SImage_mimetype_consistency ::
  "lua_numbers \<Rightarrow> (string \<Rightarrow> exn + string) \<Rightarrow> lua_image \<Rightarrow> lua_object list \<Rightarrow> exn + lua_object list" where
  "SImage_mimetype_consistency nums mag img args =
     (if length args \<noteq> 2 then Inr (lua_fail ''SipiImage.mimetype_consistency(): Incorrect number of arguments'')
      else (case (lua_tostring nums (args ! 0), lua_tostring nums (args ! 1)) of
          (Some given_mimetype, Some given_filename) \<Rightarrow>
            (case checkMimeTypeConsistency mag (li_file img) given_filename given_mimetype of
               Inl e \<Rightarrow> Inl (base_error e)
             | Inr b \<Rightarrow> Inr [LBoolean True, LBoolean b])
        | _ \<Rightarrow> Inl Undefined))"

section \<open>Changing an image\<close>

type_synonym method_result = "exn + (lua_object list \<times> lua_image)"

definition text_arg :: "lua_numbers \<Rightarrow> nat \<Rightarrow> lua_object list \<Rightarrow> string option" where
  "text_arg nums i args = (if i < length args then lua_tostring nums (args ! i) else None)"

definition failing :: "string \<Rightarrow> lua_image \<Rightarrow> exn \<Rightarrow> method_result" where
  "failing name img e = (case e of CsError msg \<Rightarrow> Inr (lua_fail (name @ msg), img) | _ \<Rightarrow> Inl e)"

text \<open>The operation itself is outside the \<open>try\<close>.\<close>

definition changed :: "(iiif_image, 'a) act \<Rightarrow> lua_object list \<Rightarrow> lua_image \<Rightarrow> method_result" where
  "changed m rs img = (case m (li_image img) of (Inl e, _) \<Rightarrow> Inl e | (Inr _, i) \<Rightarrow> Inr (rs, img\<lparr>li_image := i\<rparr>))"

definition SImage_crop :: "lua_numbers \<Rightarrow> lua_object list \<Rightarrow> lua_image \<Rightarrow> method_result" where
  "SImage_crop nums args img =
     (case text_arg nums 0 args of
        None \<Rightarrow> Inr (lua_fail ''IIIFImage.crop(): Incorrect number of arguments'', img)
      | Some regionstr \<Rightarrow>
          (case parse_region regionstr of
             Inl e \<Rightarrow> failing ''IIIFImage.crop(): '' img e
           | Inr reg \<Rightarrow> changed (crop reg) api_ok img))"

text \<open>\<open>r\<close> is the value of a variable that is not initialised and limits the reduction.\<close>

definition SImage_scale :: "nat \<Rightarrow> lua_numbers \<Rightarrow> lua_object list \<Rightarrow> lua_image \<Rightarrow> method_result" where
  "SImage_scale r nums args img =
     (case text_arg nums 0 args of
        None \<Rightarrow> Inr (lua_fail ''IIIFImage.scale(): Incorrect number of arguments'', img)
      | Some sizestr \<Rightarrow>
          (case parse_size sizestr 0 0 0 of
             Inl e \<Rightarrow> failing ''IIIFImage.scale(): '' img e
           | Inr sz \<Rightarrow>
               (case get_size (img_nx (li_image img)) (img_ny (li_image img)) r False sz of
                  (Inl e, _) \<Rightarrow> failing ''IIIFImage.scale(): '' img e
                | (Inr (_, w, h, _, _), _) \<Rightarrow> changed (scale w h) api_ok img)))"

definition SImage_rotate :: "rotation_fun \<Rightarrow> lua_numbers \<Rightarrow> lua_object list \<Rightarrow> lua_image \<Rightarrow> method_result" where
  "SImage_rotate slant nums args img =
     (if length args < 1 \<or> length args > 2 then Inr (lua_fail ''IIIFImage.rotate(): Incorrect number of arguments'', img)
      else (case lua_tonumber nums (args ! 0) of
          None \<Rightarrow> Inr (lua_fail ''IIIFImage.rotate(): Incorrect  argument for angle'', img)
        | Some a \<Rightarrow>
            (case (if length args = 2 then args ! 1 else LBoolean False) of
               LBoolean mirrored \<Rightarrow> changed (rotate_image slant (f32 a) mirrored) api_ok img
             | _ \<Rightarrow> Inr (lua_fail ''IIIFImage.rotate(): Incorrect  argument for mirror'', img))))"

definition SImage_set_topleft :: "rotation_fun \<Rightarrow> lua_object list \<Rightarrow> lua_image \<Rightarrow> method_result" where
  "SImage_set_topleft slant args img =
     (if args \<noteq> [] then Inr (lua_fail ''IIIFImage.topleft(): Incorrect number of arguments'', img)
      else changed (sbind (set_topleft slant) (\<lambda>_. smod (\<lambda>i. i\<lparr>orient := TOPLEFT\<rparr>))) [LBoolean True] img)"

definition SImage_watermark :: "watermark_reader \<Rightarrow> lua_numbers \<Rightarrow> lua_object list \<Rightarrow> lua_image \<Rightarrow> method_result" where
  "SImage_watermark rd nums args img =
     (case text_arg nums 0 args of
        None \<Rightarrow> Inr (lua_fail ''IIIFImage.watermark(): Incorrect arguments'', img)
      | Some watermark \<Rightarrow>
          (case changed (add_watermark rd watermark) api_ok img of
             Inl e \<Rightarrow> failing ''IIIFImage.watermark(): '' img e
           | r \<Rightarrow> r))"

section \<open>Writing and sending an image\<close>

datatype compression_param = JPEG_QUALITY | J2K_Sprofile | J2K_Creversible | J2K_Clayers | J2K_Clevels | J2K_Corder
  | J2K_Cprecincts | J2K_Cblk | J2K_Cuse_sop | J2K_Stiles | J2K_rates | TIFF_COMPRESSION | TIFF_PYRAMID

type_synonym compression_params = "compression_param \<rightharpoonup> string"

definition j2k_profiles :: "string list" where
  "j2k_profiles = [''PROFILE0'', ''PROFILE1'', ''PROFILE2'', ''PART2'', ''CINEMA2K'', ''CINEMA4K'', ''BROADCAST'', ''CINEMA2S'',
     ''CINEMA4S'', ''CINEMASS'', ''IMF'']"

definition j2k_orders :: "string list" where
  "j2k_orders = [''LRCP'', ''RLCP'', ''RPCL'', ''PCRL'', ''CPRL'']"

definition one_of :: "string list \<Rightarrow> string \<Rightarrow> string \<Rightarrow> string + string" where
  "one_of valid name value = (if value \<in> set valid then Inr value else Inl (''IIIFImage.write(): invalid '' @ name @ ''!''))"

text \<open>A number in front is enough; what is left of the text is dropped.\<close>

definition whole_number :: "string \<Rightarrow> string \<Rightarrow> string + string" where
  "whole_number name value = (case stoi value of Inl _ \<Rightarrow> Inl (''IIIFImage.write(): invalid '' @ name @ ''!'') | Inr i \<Rightarrow> Inr (int_string i))"

definition compression_setting :: "string \<Rightarrow> string \<Rightarrow> string + compression_param \<times> string" where
  "compression_setting key value =
     (let set_to = (\<lambda>p r. case r of Inl msg \<Rightarrow> Inl msg | Inr v \<Rightarrow> Inr (p, v)) in
      if key = ''Sprofile'' then set_to J2K_Sprofile (one_of j2k_profiles key value)
      else if key = ''Creversible'' then set_to J2K_Creversible (one_of [''yes'', ''no''] key value)
      else if key = ''Clayers'' then set_to J2K_Clayers (whole_number key value)
      else if key = ''Clevels'' then set_to J2K_Clevels (whole_number key value)
      else if key = ''Corder'' then set_to J2K_Corder (one_of j2k_orders key value)
      else if key = ''Cprecincts'' then Inr (J2K_Cprecincts, value)
      else if key = ''Cblk'' then Inr (J2K_Cblk, value)
      else if key = ''Cuse_sop'' then set_to J2K_Cuse_sop (one_of [''yes'', ''no''] key value)
      else if key = ''rates'' then Inr (J2K_rates, value)
      else if key = ''quality'' then Inr (JPEG_QUALITY, value)
      else if key = ''compression'' then Inr (TIFF_COMPRESSION, value)
      else if key = ''pyramid'' then Inr (TIFF_PYRAMID, value)
      else Inl ''IIIFImage.write(): invalid compression parameter!'')"

text \<open>Texts are demanded in the results, everything else is an error of the script.\<close>

fun compression_loop ::
  "lua_numbers \<Rightarrow> (lua_object \<times> lua_object) list \<Rightarrow> compression_params \<Rightarrow> (lua_object + lua_object list) + compression_params" where
  "compression_loop nums [] m = Inr m"
| "compression_loop nums ((k, v) # t) m =
     (case lua_tostring nums k of
        None \<Rightarrow> Inl (Inr (lua_fail ''IIIFImage.write(): Incorrect compression value name: Must be string!''))
      | Some key \<Rightarrow>
          (case lua_tostring nums v of
             None \<Rightarrow> Inl (Inr (lua_fail ''IIIFImage.write(): Incorrect compression value: Must be string!''))
           | Some value \<Rightarrow>
               (case compression_setting key value of
                  Inl msg \<Rightarrow> Inl (Inl (LString msg))
                | Inr (p, w) \<Rightarrow> compression_loop nums t (m(p \<mapsto> w)))))"

text \<open>The name of a file with a path keeps the slash; a dot in front of the last slash wraps the length around.\<close>

definition split_path :: "string \<Rightarrow> string \<times> string" where
  "split_path p =
     (let pos_start = (case rfind_char (CHR ''/'') p of None \<Rightarrow> 0 | Some k \<Rightarrow> k) in
      case rfind_char (CHR ''.'') p of
        None \<Rightarrow> (drop pos_start p, [])
      | Some pos_ext \<Rightarrow>
          (if pos_ext < pos_start then drop pos_start p else take (pos_ext - pos_start) (drop pos_start p),
           map tolower (drop (pos_ext + 1) p)))"

definition write_type :: "bool \<Rightarrow> string \<Rightarrow> string option" where
  "write_type jp2 ext =
     (if ext = ''tif'' \<or> ext = ''tiff'' then Some ''tif''
      else if ext = ''jpg'' \<or> ext = ''jpeg'' then Some ''jpg''
      else if ext = ''png'' then Some ''png''
      else if ext = ''j2k'' \<or> ext = ''jpx'' \<or> jp2 \<and> ext = ''jp2'' then Some ''jpx''
      else None)"

text \<open>The writers of the formats are an argument, with the state they change; the path \<open>HTTP\<close> is the connection.\<close>

type_synonym 's image_writer = "string \<Rightarrow> string \<Rightarrow> compression_params \<Rightarrow> stored_image \<Rightarrow> ('s, unit) act"

type_synonym 's image_method = "lua_object list \<Rightarrow> lua_image \<Rightarrow> ('s, (lua_object + lua_object list) \<times> lua_image) act"

definition write_out :: "'s image_writer \<Rightarrow> string \<Rightarrow> string \<Rightarrow> compression_params \<Rightarrow> lua_image \<Rightarrow> ('s, (lua_object + lua_object list) \<times> lua_image) act" where
  "write_out wr ftype path ps img s =
     (case wr ftype path ps (li_image img, li_essentials img) s of
        (Inr _, s1) \<Rightarrow> (Inr (Inr api_ok, img), s1)
      | (Inl (CsError msg), s1) \<Rightarrow> (Inr (Inr (lua_fail msg), img), s1)
      | (Inl e, s1) \<Rightarrow> (Inl e, s1))"

definition with_connection_set :: "lua_image \<Rightarrow> lua_image" where
  "with_connection_set img = img\<lparr>li_image := (li_image img)\<lparr>conobj := True\<rparr>\<rparr>"

definition SImage_write :: "lua_numbers \<Rightarrow> 's image_writer \<Rightarrow> 's image_method" where
  "SImage_write nums wr args img =
     (case text_arg nums 0 args of
        None \<Rightarrow> sret (Inr (lua_fail ''IIIFImage.write(): Incorrect arguments''), img)
      | Some imgpath \<Rightarrow>
          (case (if length args > 1 then (case args ! 1 of LTable t \<Rightarrow> compression_loop nums t Map.empty | _ \<Rightarrow> Inr Map.empty)
                 else Inr Map.empty) of
             Inl r \<Rightarrow> sret (r, img)
           | Inr ps \<Rightarrow>
               (case split_path imgpath of (name, ext) \<Rightarrow>
                  (case write_type True ext of
                     None \<Rightarrow> sret (Inl (LString ''Image.write(): unsupported file format''), img)
                   | Some ftype \<Rightarrow>
                       if name = ''http'' \<or> name = ''HTTP'' then write_out wr ftype ''HTTP'' ps (with_connection_set img)
                       else write_out wr ftype imgpath ps img))))"

definition SImage_send :: "lua_numbers \<Rightarrow> 's image_writer \<Rightarrow> 's image_method" where
  "SImage_send nums wr args img =
     (case text_arg nums 0 args of
        None \<Rightarrow> sret (Inr (lua_fail ''IIIFImage.send(): Incorrect arguments''), img)
      | Some ext \<Rightarrow>
          (case write_type False (map tolower ext) of
             None \<Rightarrow> sret (Inl (LString ''SipiImage.send(): unsupported file format''), img)
           | Some ftype \<Rightarrow> write_out wr ftype ''HTTP'' Map.empty (with_connection_set img)))"

end
