(* ===== verification/LuaImageProps.thy ===== *)
theory LuaImageProps
  imports LuaImage CacheProps SizeProps Dispatch
begin

text \<open>
  Properties of what scripts do with images and the cache: the list of cached files, sizes that end the server, and changes that
  are exactly those of the operations.
\<close>

section \<open>The list of cached files\<close>

lemma raw_set_fresh:
  "k \<notin> fst ` set t \<Longrightarrow> v \<noteq> LNil \<Longrightarrow> raw_set k v t = t @ [(k, v)]"
  by (induction t) (auto simp: raw_set_def)

lemma add_files_numbered:
  assumes "\<forall>j \<in> {n..<n + length ents}. LInteger (int j) \<notin> fst ` set t"
  shows "fold (\<lambda>(i, k, r). add_one_cache_file tt i k r) (zip [n..<n + length ents] ents) t =
    t @ numbered n (map (\<lambda>(k, r). cache_entry tt k r) ents)"
  using assms
proof (induction ents arbitrary: n t)
  case (Cons e ents)
  obtain k r where e: "e = (k, r)" by (cases e)
  have fresh: "LInteger (int n) \<notin> fst ` set t" using Cons.prems by auto
  have step: "add_one_cache_file tt n k r t = t @ [(LInteger (int n), cache_entry tt k r)]"
    unfolding add_one_cache_file_def by (rule raw_set_fresh [OF fresh]) (simp add: cache_entry_def)
  have "\<forall>j \<in> {Suc n..<Suc n + length ents}. LInteger (int j) \<notin> fst ` set (t @ [(LInteger (int n), cache_entry tt k r)])"
    using Cons.prems by auto
  from Cons.IH [OF this] show ?case
    by (simp add: e step upt_conv_Cons numbered_def del: upt_Suc)
qed (simp add: numbered_def)

definition listed_in :: "string \<Rightarrow> cache_record \<Rightarrow> int" where
  "listed_in s r =
     (if s = ''AT_DESC'' then - ce_access_time r else if s = ''FS_ASC'' then int (ce_fsize r)
      else if s = ''FS_DESC'' then - int (ce_fsize r) else ce_access_time r)"

lemma sort_table_by: "sort_table (named_sort s) t = sort_key (\<lambda>(k, r). listed_in s r) t"
  by (simp add: sort_table_def named_sort_def listed_in_def)

text \<open>
  The list of the cache that a script gets has every file of the cache once, numbered from 1, in the order that the script asked
  for: by the time of the last access, or by size, and upwards or downwards.
\<close>

theorem filelist_complete:
  assumes "sole_text nums args = Inr s" and "order_ok c"
  shows "\<exists>ents. lua_cache_filelist nums tt args (Some c) = Inr [LTable (numbered 1 (map (\<lambda>(k, r). cache_entry tt k r) ents))] \<and>
    mset ents = mset (cachetable c) \<and> sorted (map (\<lambda>(k, r). listed_in s r) ents)"
proof -
  let ?ents = "sort_key (\<lambda>(k, r). listed_in s r) (order c (cachetable c))"
  have ms: "mset ?ents = mset (cachetable c)" using assms(2) by (simp add: order_ok_def)
  then have len: "length ?ents = length (cachetable c)" by (metis size_mset)
  have "cache_loop (add_one_cache_file tt) [] (named_sort s) c = numbered 1 (map (\<lambda>(k, r). cache_entry tt k r) ?ents)"
    using add_files_numbered [of 1 ?ents "[]" tt] len by (simp add: cache_loop_def sort_table_by del: upt_Suc)
  then have "lua_cache_filelist nums tt args (Some c) = Inr [LTable (numbered 1 (map (\<lambda>(k, r). cache_entry tt k r) ?ents))]"
    using assms(1) by (simp add: lua_cache_filelist_def map_result_def)
  then show ?thesis using ms by (intro exI [of _ ?ents]) simp
qed

section \<open>Sizes and regions\<close>

lemma wxh_plain: "CHR 0x00 \<notin> set (dec_string w @ '','' @ dec_string h)"
  using not_digit_dec [of "CHR 0x00"] by (auto simp: isdigit_def chr_code_def)

text \<open>
  A script that scales an image to a size wider than it, without the mark for upscaling, ends the server, whatever the
  uninitialised limit is: the exception for sizes is neither the one that \<open>scale\<close> catches nor one that \<open>processRequest\<close> catches.
\<close>

theorem script_upscaling_escapes:
  assumes "img_nx (li_image img) < w" and "w < 2 ^ 32" and "0 < h" and "h < 2 ^ 32"
  shows "\<exists>e. SImage_scale r nums [LString (dec_string w @ '','' @ dec_string h)] img = Inl e \<and> (\<forall>ev q. fst (after_exception ev e q) = Inl e)"
proof -
  have "parse_size (dec_string w @ '','' @ dec_string h) 0 0 0 = Inr ((blank_size False 0 0 0)\<lparr>size_type := PIXELS_XY, s_nx := w, s_ny := h\<rparr>)"
    using parse_wxh [of w h False 0 0 0] assms by simp
  moreover obtain sz where "get_size (img_nx (li_image img)) (img_ny (li_image img)) r False
      ((blank_size False 0 0 0)\<lparr>size_type := PIXELS_XY, s_nx := w, s_ny := h\<rparr>) = (Inl upscaling_error, sz)"
    using assms(1) by (simp add: get_size_def scaled_size_def scale_xy_def axis_reduce_def blank_size_def)
  ultimately have "SImage_scale r nums [LString (dec_string w @ '','' @ dec_string h)] img = Inl upscaling_error"
    by (simp add: SImage_scale_def text_arg_def lua_tostring_def cstring_same [OF wxh_plain, simplified] failing_def upscaling_error_def)
  then show ?thesis by (simp add: upscaling_error_def after_exception_def)
qed

text \<open>
  Nor is the exception for a region outside the image caught: the comment at the call of \<open>crop\<close> says that it throws nothing.
\<close>

theorem script_crop_escapes:
  assumes "parse_region s = Inr reg" and "coord_type reg \<noteq> FULL" and "CHR 0x00 \<notin> set s"
    and "fst (crop_coords (img_nx (li_image img)) (img_ny (li_image img)) reg) = Inl e"
  shows "SImage_crop nums [LString s] img = Inl e"
proof -
  obtain rg1 where "crop_coords (img_nx (li_image img)) (img_ny (li_image img)) reg = (Inl e, rg1)"
    using assms(4) by (cases "crop_coords (img_nx (li_image img)) (img_ny (li_image img)) reg") auto
  then show ?thesis
    using assms(1-3) by (simp add: SImage_crop_def text_arg_def lua_tostring_def cstring_same changed_def crop_def)
qed

text \<open>
  An upload that a script opens as an image carries the name it was uploaded with, the type of its bytes and the checksum of its
  pixels, and these go to the writers with it.
\<close>

theorem upload_opened_as_original:
  assumes "upload_at c i = Some u" and "origname u \<noteq> []"
    and "image_read io (tmpname u) None None False = Inr (img, em)" and "\<not> es_is_set em"
    and "pixel_checksum digest SHA256 img = Inr chk" and "getFileMimetype mag (tmpname u) = Inr (mime, cs)"
  shows "\<exists>li. SImage_new nums mag digest io c [LInteger i] = Inr (Inr li) \<and> li_image li = img \<and> li_file li = tmpname u \<and>
    es_origname (li_essentials li) = origname u \<and> es_mimetype (li_essentials li) = mime \<and> es_data_chksum (li_essentials li) = chk"
  using assms by (simp add: SImage_new_def image_source_def read_as_asked_def readOriginal_def new_essentials_def)

section \<open>Witnesses\<close>

definition listed_cache :: cache where
  "listed_cache = \<lparr>cachedir = ''/c'', cachetable = [(''a'', blank_record\<lparr>ce_fsize := 7\<rparr>), (''b'', blank_record\<lparr>ce_fsize := 3\<rparr>)],
     sizetable = Map.empty, blocked_files = Map.empty, cachesize = 10, max_cachesize = 0, nfiles = 2, max_nfiles = 0,
     cache_hysteresis = 0, order = (\<lambda>t. t), disk = Map.empty, index_file = None\<rparr>"

lemma filelist_complete_witness:
  "\<forall>nums. \<exists>ents. lua_cache_filelist nums (\<lambda>t. ''now'') [LString ''FS_ASC''] (Some listed_cache) =
      Inr [LTable (numbered 1 (map (\<lambda>(k, r). cache_entry (\<lambda>t. ''now'') k r) ents))] \<and>
    mset ents = mset (cachetable listed_cache) \<and> sorted (map (\<lambda>(k, r). listed_in ''FS_ASC'' r) ents)"
  by (intro allI filelist_complete) (simp_all add: sole_text_def lua_tostring_def lua_cstring_def listed_cache_def)

definition small_image :: lua_image where
  "small_image = \<lparr>li_image = tiny_image, li_essentials = no_essentials, li_file = ''a.png''\<rparr>"

lemma script_upscaling_escapes_witness:
  "\<forall>r nums. \<exists>e. SImage_scale r nums [LString (dec_string 2 @ '','' @ dec_string 1)] small_image = Inl e \<and> (\<forall>ev q. fst (after_exception ev e q) = Inl e)"
  by (intro allI script_upscaling_escapes) (simp_all add: small_image_def tiny_image_def no_image_def)

end
