(* ===== verification/Uuid.thy ===== *)
theory Uuid
  imports LuaApi "HOL-Library.Word"
begin

unbundle bit_operations_syntax

text \<open>
  Identifiers of 128 bits: the part of \<open>lib/sole.hpp\<close> that the server uses, and its functions for scripts in \<open>lib/LuaServer.cpp\<close>.
  Two random words are arguments.
\<close>

section \<open>Identifiers and their two texts\<close>

record uuid =
  uab :: "64 word"
  ucd :: "64 word"

definition uuid4 :: "64 word \<Rightarrow> 64 word \<Rightarrow> uuid" where
  "uuid4 r1 r2 = \<lparr>uab = (r1 AND 0xFFFFFFFFFFFF0FFF) OR 0x4000, ucd = (r2 AND 0x3FFFFFFFFFFFFFFF) OR 0x8000000000000000\<rparr>"

definition nibble :: "64 word \<Rightarrow> nat \<Rightarrow> nat" where
  "nibble w k = unat (drop_bit (4 * k) w AND 15)"

text \<open>The digits of a word, from the highest on, are written over the places \<open>is\<close> of a text.\<close>

fun put_nibbles :: "nat list \<Rightarrow> nat \<Rightarrow> 64 word \<Rightarrow> string \<Rightarrow> string" where
  "put_nibbles [] k w s = s"
| "put_nibbles (i # is) k w s = put_nibbles is (k - 1) w (s[i := digit_chr (nibble w k)])"

definition uuid_str :: "uuid \<Rightarrow> string" where
  "uuid_str u =
     put_nibbles (filter (\<lambda>i. i \<noteq> 18 \<and> i \<noteq> 23) [18..<36]) 15 (ucd u)
       (put_nibbles (filter (\<lambda>i. i \<noteq> 8 \<and> i \<noteq> 13) [0..<18]) 15 (uab u) ''00000000-0000-0000-0000-000000000000'')"

definition base62_chr :: "nat \<Rightarrow> char" where
  "base62_chr d = (if d < 10 then code_chr (48 + d) else if d < 36 then code_chr (55 + d) else code_chr (61 + d))"

text \<open>The digits are written in front of what is there.\<close>

fun base62_loop :: "nat \<Rightarrow> string \<Rightarrow> string" where
  "base62_loop v s = (if v div 62 > 0 then base62_loop (v div 62) (base62_chr (v mod 62) # s) else base62_chr (v mod 62) # s)"

declare base62_loop.simps [simp del]

definition uuid_base62 :: "uuid \<Rightarrow> string" where
  "uuid_base62 u = base62_loop (unat (uab u)) (CHR ''-'' # base62_loop (unat (ucd u)) [])"

section \<open>Reading them\<close>

definition signed_chr :: "char \<Rightarrow> int" where
  "signed_chr c = (if chr_code c < 128 then int (chr_code c) else int (chr_code c) - 256)"

text \<open>No character is refused.\<close>

definition strpos62 :: "char \<Rightarrow> 64 word" where
  "strpos62 c =
     (let k = signed_chr c in word_of_int (if k \<ge> 97 then k - 97 + 36 else if k \<ge> 65 then k - 65 + 10 else k - 48))"

definition first_chr :: "string \<Rightarrow> char" where
  "first_chr s = (if s = [] then CHR 0x00 else hd s)"

definition rebase62 :: "string \<Rightarrow> nat \<Rightarrow> 64 word" where
  "rebase62 s limit = fold (\<lambda>c r. 62 * r + strpos62 c) (take (limit - 1) (tl s)) (strpos62 (first_chr s))"

definition decode_nibble :: "char \<Rightarrow> 64 word" where
  "decode_nibble c =
     (let k = chr_code c in
      of_nat (if 97 \<le> k \<and> k \<le> 102 then k - 97 + 10 else if 65 \<le> k \<and> k \<le> 70 then k - 65 + 10
       else if 48 \<le> k \<and> k \<le> 57 then k - 48 else 0))"

definition read_nibbles :: "nat list \<Rightarrow> string \<Rightarrow> 64 word" where
  "read_nibbles is s = fold (\<lambda>i w. push_bit 4 w OR decode_nibble (s ! i)) is 0"

text \<open>
  One dash: base 62. More of them: hexadecimal, read from fixed places of the text, which may be behind its end. The character at the
  end itself is zero. The test of the dashes goes on only while there is none.
\<close>

definition dash_at :: "string \<Rightarrow> nat list \<Rightarrow> exn + bool" where
  "dash_at s ks = foldr (\<lambda>k r. if k > length s then Inl Undefined else if k < length s \<and> s ! k = CHR ''-'' then Inr True else r) ks (Inr False)"

definition rebuild :: "string \<Rightarrow> exn + uuid" where
  "rebuild s =
     (case find_char (CHR ''-'') s of
        None \<Rightarrow> Inr \<lparr>uab = 0, ucd = 0\<rparr>
      | Some idx \<Rightarrow>
          if find_char (CHR ''-'') (drop (idx + 1) s) = None
          then Inr \<lparr>uab = rebase62 s idx, ucd = rebase62 (drop (idx + 1) s) (length s - (idx + 1))\<rparr>
          else (case dash_at s [8, 13, 18, 23] of
              Inl e \<Rightarrow> Inl e
            | Inr False \<Rightarrow> Inr \<lparr>uab = 0, ucd = 0\<rparr>
            | Inr True \<Rightarrow>
                if length s < 35 then Inl Undefined
                else Inr \<lparr>uab = read_nibbles (filter (\<lambda>i. i \<noteq> 8 \<and> i \<noteq> 13) [0..<18]) (s @ [CHR 0x00]),
                          ucd = read_nibbles (filter (\<lambda>i. i \<noteq> 23) [19..<36]) (s @ [CHR 0x00])\<rparr>))"

section \<open>Functions for scripts\<close>

definition lua_uuid :: "64 word \<Rightarrow> 64 word \<Rightarrow> lua_object list" where
  "lua_uuid r1 r2 = [LBoolean True, push_string (uuid_str (uuid4 r1 r2))]"

definition lua_uuid_base62 :: "64 word \<Rightarrow> 64 word \<Rightarrow> lua_object list" where
  "lua_uuid_base62 r1 r2 = [LBoolean True, push_string (uuid_base62 (uuid4 r1 r2))]"

definition lua_uuid_to_base62 :: "lua_numbers \<Rightarrow> lua_object list \<Rightarrow> exn + lua_object list" where
  "lua_uuid_to_base62 nums args =
     (if length args \<noteq> 1 then Inr (lua_fail (apostrophes ''server.uuid_tobase62(uuid)'' @ '': uuid parameter missing''))
      else (case lua_tostring nums (args ! 0) of
          None \<Rightarrow> Inr (lua_fail (apostrophes ''server.uuid_tobase62(uuid)'' @ '': uuid is not a string''))
        | Some s \<Rightarrow> map_result (\<lambda>u. [LBoolean True, push_string (uuid_base62 u)]) (rebuild s)))"

definition lua_base62_to_uuid :: "lua_numbers \<Rightarrow> lua_object list \<Rightarrow> exn + lua_object list" where
  "lua_base62_to_uuid nums args =
     (if args = [] then Inr (lua_fail (apostrophes ''server.base62_to_uuid(uuid62)'' @ '': uuid62 parameter missing''))
      else (case lua_tostring nums (args ! 0) of
          None \<Rightarrow> Inr (lua_fail (apostrophes ''server.base62_to_uuid(uuid62)'' @ '': uuid62 is not a string''))
        | Some s \<Rightarrow> map_result (\<lambda>u. [LBoolean True, push_string (uuid_str u)]) (rebuild s)))"

section \<open>Base 62\<close>

lemma strpos62_back: "d < 62 \<Longrightarrow> strpos62 (base62_chr d) = of_nat d"
  by (auto simp: strpos62_def base62_chr_def signed_chr_def chr_code_code Let_def)

lemma base62_no_dash: "d < 62 \<Longrightarrow> base62_chr d \<noteq> CHR ''-''" "d < 62 \<Longrightarrow> base62_chr d \<noteq> CHR 0x00"
proof -
  assume d: "d < 62"
  have "chr_code (base62_chr d) \<noteq> 45 \<and> chr_code (base62_chr d) \<noteq> 0" using d by (auto simp: base62_chr_def chr_code_code)
  moreover have "chr_code (CHR ''-'') = 45" "chr_code (CHR 0x00) = 0" by (simp_all add: chr_code_def)
  ultimately show "base62_chr d \<noteq> CHR ''-''" "base62_chr d \<noteq> CHR 0x00" by metis+
qed

text \<open>The digits as a list, the highest first.\<close>

fun digits62 :: "nat \<Rightarrow> nat list" where
  "digits62 v = (if v < 62 then [v] else digits62 (v div 62) @ [v mod 62])"

declare digits62.simps [simp del]

lemma base62_loop_digits: "base62_loop v s = map base62_chr (digits62 v) @ s"
proof (induction v arbitrary: s rule: digits62.induct)
  case (1 v)
  show ?case
  proof (cases "v < 62")
    case False
    then have "v div 62 > 0" by (simp add: div_greater_zero_iff)
    then show ?thesis using 1 False by (simp add: base62_loop.simps [of v] digits62.simps [of v])
  qed (simp add: base62_loop.simps [of v] digits62.simps [of v])
qed

lemma digits62_lt: "d \<in> set (digits62 v) \<Longrightarrow> d < 62"
proof (induction v rule: digits62.induct)
  case (1 v)
  then show ?case by (cases "v < 62") (auto simp: digits62.simps [of v])
qed

lemma digits62_nonempty [simp]: "digits62 v \<noteq> []"
  by (subst digits62.simps) simp

lemma digits62_value: "foldl (\<lambda>r d. 62 * r + of_nat d) (0 :: 64 word) (digits62 v) = of_nat v"
proof (induction v rule: digits62.induct)
  case (1 v)
  show ?case
  proof (cases "v < 62")
    case False
    have "62 * of_nat (v div 62) + of_nat (v mod 62) = (of_nat (62 * (v div 62) + v mod 62) :: 64 word)"
      by (simp only: of_nat_add of_nat_mult of_nat_numeral)
    then show ?thesis using 1 False by (simp add: digits62.simps [of v])
  qed (simp add: digits62.simps [of v])
qed

lemma rebase62_digits: "rebase62 (map base62_chr (digits62 v) @ r) (length (digits62 v)) = of_nat v"
proof -
  obtain d ds where ds: "digits62 v = d # ds" by (meson digits62_nonempty neq_Nil_conv)
  have lt: "\<forall>x \<in> set (d # ds). x < 62" using digits62_lt [of _ v] ds by auto
  have "fold (\<lambda>c r. 62 * r + strpos62 c) (map base62_chr xs) a = foldl (\<lambda>r d. 62 * r + of_nat d) a xs"
    if "\<forall>x \<in> set xs. x < 62" for xs a
    using that by (induction xs arbitrary: a) (auto simp: strpos62_back)
  then show ?thesis
    using lt digits62_value [of v] by (simp add: rebase62_def ds first_chr_def strpos62_back)
qed

lemma digits62_length: "v < 62 ^ k \<Longrightarrow> 0 < k \<Longrightarrow> length (digits62 v) \<le> k"
proof (induction k arbitrary: v)
  case (Suc k)
  show ?case
  proof (cases "v < 62")
    case False
    then have "0 < k" using Suc.prems by (cases k) auto
    moreover have "v div 62 < 62 ^ k" using Suc.prems(1) by (simp add: div_less_iff_less_mult mult.commute)
    ultimately show ?thesis using Suc.IH [of "v div 62"] False by (simp add: digits62.simps [of v])
  qed (simp add: digits62.simps [of v])
qed simp

lemma word_digits62: "length (digits62 (unat (w :: 64 word))) \<le> 11"
proof (rule digits62_length)
  have "unat w < 2 ^ 64" using unsigned_less [of w] by simp
  then show "unat w < 62 ^ 11" by simp
qed simp

lemma rebuild_base62: "rebuild (uuid_base62 u) = Inr u"
proof -
  let ?a = "map base62_chr (digits62 (unat (uab u)))" and ?c = "map base62_chr (digits62 (unat (ucd u)))"
  have nd: "CHR ''-'' \<notin> set (map base62_chr (digits62 v))" for v
    using digits62_lt base62_no_dash(1) by fastforce
  have s: "uuid_base62 u = ?a @ CHR ''-'' # ?c" by (simp add: uuid_base62_def base62_loop_digits)
  have f1: "find_char (CHR ''-'') (?a @ CHR ''-'' # ?c) = Some (length ?a)" by (rule find_char_append [OF nd])
  have f2: "find_char (CHR ''-'') ?c = None" using nd by (rule find_char_notin)
  show ?thesis
    using f1 f2 rebase62_digits [of "unat (uab u)" "CHR ''-'' # ?c"] rebase62_digits [of "unat (ucd u)" "[]"]
    by (simp add: s rebuild_def del: find_char.simps)
qed

section \<open>Hexadecimal\<close>

lemma decode_nibble_back: "k < 16 \<Longrightarrow> decode_nibble (digit_chr k) = of_nat k"
  by (auto simp: decode_nibble_def digit_chr_def chr_code_code Let_def)

lemma nibble_lt: "nibble w k < 16"
proof -
  have "drop_bit (4 * k) w AND 15 = take_bit 4 (drop_bit (4 * k) w)" by (simp add: take_bit_eq_mask mask_eq_exp_minus_1)
  then show ?thesis using take_bit_nat_less_exp [of 4 "unat (drop_bit (4 * k) w)"] by (simp add: nibble_def unsigned_take_bit_eq)
qed

lemma nibble_word: "decode_nibble (digit_chr (nibble w k)) = drop_bit (4 * k) w AND 15"
  using decode_nibble_back [OF nibble_lt] by (simp add: nibble_def)

lemma next_nibble: "push_bit 4 (drop_bit (4 * Suc k) w) OR (drop_bit (4 * k) w AND 15) = (drop_bit (4 * k) w :: 64 word)"
proof -
  have "drop_bit (4 * k) w AND 15 = take_bit 4 (drop_bit (4 * k) w)" by (simp add: take_bit_eq_mask mask_eq_exp_minus_1)
  then show ?thesis
    by (intro bit_word_eqI) (auto simp: bit_simps add.commute)
qed

text \<open>The places where the digits go, and what is read from there.\<close>

lemma put_nibbles_length [simp]: "length (put_nibbles is k w s) = length s"
  by (induction "is" k w s rule: put_nibbles.induct) simp_all

lemma put_nibbles_other: "i \<notin> set is \<Longrightarrow> put_nibbles is k w s ! i = s ! i"
  by (induction "is" k w s rule: put_nibbles.induct) auto

lemma put_nibbles_read:
  assumes "distinct is" and "\<forall>i \<in> set is. i < length s" and "length is = Suc k"
  shows "fold (\<lambda>i w. push_bit 4 w OR decode_nibble (put_nibbles is k w0 s ! i)) is (drop_bit (4 * Suc k) w0) = w0"
  using assms
proof (induction k arbitrary: "is" s)
  case 0
  then obtain i where "is = [i]" by (auto simp: length_Suc_conv)
  with 0 show ?case using next_nibble [of 0 w0] by (simp add: nibble_word)
next
  case (Suc k)
  then obtain i js where i: "is = i # js" by (cases "is") auto
  have "put_nibbles is (Suc k) w0 s ! i = digit_chr (nibble w0 (Suc k))"
    using Suc.prems by (simp add: i put_nibbles_other)
  then show ?case
    using Suc.IH [of js "s[i := digit_chr (nibble w0 (Suc k))]"] Suc.prems next_nibble [of "Suc k" w0]
    by (simp add: i nibble_word)
qed

definition uuid_blank :: string where
  "uuid_blank = ''00000000-0000-0000-0000-000000000000''"

definition high_places :: "nat list" where "high_places = filter (\<lambda>i. i \<noteq> 8 \<and> i \<noteq> 13) [0..<18]"
definition low_places :: "nat list" where "low_places = filter (\<lambda>i. i \<noteq> 18 \<and> i \<noteq> 23) [18..<36]"

lemma uuid_places:
  "distinct high_places" "distinct low_places" "length high_places = 16" "length low_places = 16"
  "set high_places \<inter> set low_places = {}" "\<forall>i \<in> set high_places. i < 36" "\<forall>i \<in> set low_places. i < 36"
  "filter (\<lambda>i. i \<noteq> 23) [19..<36] = low_places" "length uuid_blank = 36"
  "\<forall>k \<in> {8, 13, 18, 23}. k \<notin> set high_places \<and> k \<notin> set low_places \<and> uuid_blank ! k = CHR ''-''"
  by code_simp+

lemma uuid_str_read:
  "length (uuid_str u) = 36" "\<forall>k \<in> {8, 13, 18, 23}. uuid_str u ! k = CHR ''-''"
  "read_nibbles high_places (uuid_str u) = uab u" "read_nibbles low_places (uuid_str u) = ucd u"
proof -
  let ?h = "put_nibbles high_places 15 (uab u) uuid_blank"
  have s: "uuid_str u = put_nibbles low_places 15 (ucd u) ?h"
    by (simp add: uuid_str_def high_places_def low_places_def uuid_blank_def)
  note p = uuid_places
  show "length (uuid_str u) = 36" by (simp add: s p)
  show "\<forall>k \<in> {8, 13, 18, 23}. uuid_str u ! k = CHR ''-''" using p(10) by (simp add: s put_nibbles_other)
  have zero: "drop_bit (4 * Suc 15) w = (0 :: 64 word)" for w
    by (rule bit_word_eqI) (simp add: bit_simps)
  have low: "read_nibbles low_places (put_nibbles low_places 15 (ucd u) ?h) = ucd u"
    using put_nibbles_read [of low_places ?h 15 "ucd u"] p zero [of "ucd u"] by (simp add: read_nibbles_def)
  have "fold (\<lambda>i w. push_bit 4 w OR decode_nibble (uuid_str u ! i)) high_places 0 =
      fold (\<lambda>i w. push_bit 4 w OR decode_nibble (?h ! i)) high_places 0"
  proof (rule fold_cong)
    show "(\<lambda>w. push_bit 4 w OR decode_nibble (uuid_str u ! i)) = (\<lambda>w. push_bit 4 w OR decode_nibble (?h ! i))"
      if "i \<in> set high_places" for i
      using that p(5) put_nibbles_other [of i low_places 15 "ucd u" ?h] by (simp add: s disjoint_iff)
  qed simp_all
  then show "read_nibbles high_places (uuid_str u) = uab u"
    using put_nibbles_read [of high_places uuid_blank 15 "uab u"] p zero [of "uab u"] by (simp add: read_nibbles_def)
  show "read_nibbles low_places (uuid_str u) = ucd u" using low by (simp add: s)
qed

lemma read_nibbles_append: "\<forall>i \<in> set is. i < length s \<Longrightarrow> read_nibbles is (s @ r) = read_nibbles is s"
  unfolding read_nibbles_def by (rule fold_cong) (auto simp: nth_append)

lemma two_dashes:
  assumes "i < j" and "j < length s" and "s ! i = c" and "s ! j = c"
  shows "\<exists>idx. find_char c s = Some idx \<and> find_char c (drop (idx + 1) s) \<noteq> None"
  using assms
proof (induction s arbitrary: i j)
  case (Cons x s)
  show ?case
  proof (cases "x = c")
    case True
    have "j - 1 < length s" "s ! (j - 1) = c" using Cons.prems by (auto simp: nth_Cons')
    then have "c \<in> set s" by (metis nth_mem)
    then show ?thesis using True by (simp add: find_char_None)
  next
    case False
    then obtain i0 j0 where ij: "i = Suc i0" "j = Suc j0" using Cons.prems by (cases i; cases j) auto
    then obtain idx where "find_char c s = Some idx" "find_char c (drop (idx + 1) s) \<noteq> None"
      using Cons.IH [of i0 j0] Cons.prems by auto
    then show ?thesis using False by simp
  qed
qed simp

lemma rebuild_str: "rebuild (uuid_str u) = Inr u"
proof -
  note r = uuid_str_read [of u]
  obtain idx where idx: "find_char (CHR ''-'') (uuid_str u) = Some idx" "find_char (CHR ''-'') (drop (idx + 1) (uuid_str u)) \<noteq> None"
    using two_dashes [of 8 13 "uuid_str u" "CHR ''-''"] r(1,2) by auto
  have d: "dash_at (uuid_str u) [8, 13, 18, 23] = Inr True" using r(1,2) by (simp add: dash_at_def)
  have "read_nibbles high_places (uuid_str u @ [CHR 0x00]) = uab u" "read_nibbles low_places (uuid_str u @ [CHR 0x00]) = ucd u"
    using r uuid_places(6,7) by (simp_all add: read_nibbles_append)
  then show ?thesis
    using idx d r(1) by (auto simp: rebuild_def high_places_def low_places_def simp del: find_char.simps)
qed

lemma put_nibbles_set: "c \<in> set (put_nibbles is k w s) \<Longrightarrow> c \<in> set s \<or> (\<exists>d < 16. c = digit_chr d)"
proof (induction "is" k w s rule: put_nibbles.induct)
  case (2 i "is" k w s)
  then have "c \<in> set (s[i := digit_chr (nibble w k)]) \<or> (\<exists>d < 16. c = digit_chr d)" by simp
  then show ?case using set_update_subset_insert [of s i "digit_chr (nibble w k)"] nibble_lt [of w k] by blast
qed simp

lemma nul_digit: "d < 16 \<Longrightarrow> digit_chr d \<noteq> CHR 0x00"
proof -
  assume "d < 16"
  then have "chr_code (digit_chr d) \<noteq> 0" by (auto simp: digit_chr_def chr_code_code)
  moreover have "chr_code (CHR 0x00) = 0" by (simp add: chr_code_def)
  ultimately show ?thesis by metis
qed

lemma nul_not_blank: "CHR 0x00 \<notin> set ''00000000-0000-0000-0000-000000000000''"
  by simp

lemma uuid_text_plain: "lua_cstring (uuid_str u) = uuid_str u" "lua_cstring (uuid_base62 u) = uuid_base62 u"
proof -
  have "CHR 0x00 \<notin> set (uuid_str u)"
    unfolding uuid_str_def
    using nul_not_blank nul_digit by (blast dest: put_nibbles_set sym)
  moreover have "CHR 0x00 \<notin> set (uuid_base62 u)"
    using base62_no_dash(2) digits62_lt by (fastforce simp: uuid_base62_def base62_loop_digits)
  ultimately show "lua_cstring (uuid_str u) = uuid_str u" "lua_cstring (uuid_base62 u) = uuid_base62 u"
    by (simp_all add: cstring_same)
qed

section \<open>Claims\<close>

text \<open>
  Both texts of an identifier give it back when it is rebuilt from them, for every pair of words; the hexadecimal text has
  36 characters, and the text in base 62 fits into the buffer of 24 bytes it is made in, with the zero byte at its end.
\<close>

theorem uuid_roundtrip:
  "rebuild (uuid_str u) = Inr u \<and> rebuild (uuid_base62 u) = Inr u \<and> length (uuid_str u) = 36 \<and> length (uuid_base62 u) < 24"
  using word_digits62 [of "uab u"] word_digits62 [of "ucd u"]
  by (simp add: rebuild_str rebuild_base62 uuid_str_read(1)) (simp add: uuid_base62_def base62_loop_digits)

text \<open>
  What a script gets from \<open>uuid62\<close> it can turn into the hexadecimal text and back. A text with two dashes that is shorter than such an
  identifier makes \<open>rebuild\<close> read behind its end.
\<close>

theorem uuid_conversions:
  "lua_base62_to_uuid nums [LString (uuid_base62 u)] = Inr [LBoolean True, LString (uuid_str u)]"
  "lua_uuid_to_base62 nums [LString (uuid_str u)] = Inr [LBoolean True, LString (uuid_base62 u)]"
  using uuid_text_plain
  by (simp_all add: lua_base62_to_uuid_def lua_uuid_to_base62_def lua_tostring_def push_string_def map_result_def rebuild_str rebuild_base62)

theorem short_uuid_undefined: "lua_base62_to_uuid nums [LString ''a-b-c''] = Inl Undefined"
  by code_simp

end
