(* ===== verification/LuaTokens.thy ===== *)
theory LuaTokens
  imports LuaApi
begin

text \<open>
  Tokens, requests to other servers, and the calls of the operating system for scripts: \<open>generate_jwt\<close>, \<open>decode_jwt\<close>, \<open>http\<close>, \<open>log\<close>,
  \<open>systime\<close> and the functions of \<open>fs\<close> that change directories and remove files, in \<open>lib/LuaServer.cpp\<close>. The libraries jwt-cpp and
  curl and the operating system are arguments.
\<close>

section \<open>Tokens\<close>

text \<open>Signing a payload with a secret, and opening a token: its payload as a text, or the exception by the kind that is caught.\<close>

datatype jwt_failure = Invalid_token string | Runtime_failure string | Verification_failure string

record jwt_lib =
  jwt_sign :: "string \<Rightarrow> (string \<times> json) list \<Rightarrow> string"
  jwt_open :: "string \<Rightarrow> string \<Rightarrow> jwt_failure + string"

definition json_items :: "json \<Rightarrow> (string \<times> json) list" where
  "json_items j =
     (case j of
        JObject m \<Rightarrow> m
      | JArray vs \<Rightarrow> zip (map dec_string [0..<length vs]) vs
      | JNull \<Rightarrow> []
      | v \<Rightarrow> [([], v)])"

text \<open>\<open>get<long long>\<close>: a number or a truth value, or the exception of the library, which is not caught.\<close>

definition get_long :: "json \<Rightarrow> exn + int" where
  "get_long j =
     (case j of
        JInt i \<Rightarrow> Inr i
      | JBool b \<Rightarrow> Inr (if b then 1 else 0)
      | JFloat x \<Rightarrow> if - (2 ^ 63) \<le> trunc x \<and> trunc x < 2 ^ 63 then Inr (trunc x) else Inl Undefined
      | _ \<Rightarrow> Inl (StdRuntime ''type must be number''))"

text \<open>The clock of the system counts nanoseconds in 64 bits.\<close>

definition date_claim :: "string \<Rightarrow> json \<Rightarrow> exn + (string \<times> json) list" where
  "date_claim key v =
     (case get_long v of
        Inl e \<Rightarrow> Inl e
      | Inr i \<Rightarrow> if - (2 ^ 63) \<le> i * 10 ^ 9 \<and> i * 10 ^ 9 < 2 ^ 63 then Inr [(key, JInt i)] else Inl Undefined)"

definition token_claim :: "string \<Rightarrow> json \<Rightarrow> exn + (string \<times> json) list" where
  "token_claim key v =
     (if key = ''iss'' \<or> key = ''sub'' \<or> key = ''aud'' then (case v of JString s \<Rightarrow> Inr [(key, v)] | _ \<Rightarrow> Inr [])
      else if key = ''exp'' \<or> key = ''nbf'' \<or> key = ''iat'' then date_claim key v
      else if key = ''jti'' then (case v of JString s \<Rightarrow> Inr [(key, v)] | _ \<Rightarrow> Inl (StdRuntime ''type must be string''))
      else Inr [(key, v)])"

fun token_claims :: "(string \<times> json) list \<Rightarrow> exn + (string \<times> json) list" where
  "token_claims [] = Inr []"
| "token_claims ((k, v) # m) =
     (case token_claim k v of
        Inl e \<Rightarrow> Inl e
      | Inr c \<Rightarrow> map_result (\<lambda>cs. c @ cs) (token_claims m))"

definition lua_generate_jwt :: "jwt_lib \<Rightarrow> string \<Rightarrow> lua_object list \<Rightarrow> exn + lua_object list" where
  "lua_generate_jwt lib secret args =
     (case args of
        [] \<Rightarrow> Inr (lua_fail (table_to_json_name @ '': table parameter missing''))
      | LTable t # _ \<Rightarrow>
          (case subtable t UNKNOWN JNull of
             Inl (StdRuntime what) \<Rightarrow> Inr (lua_fail what)
           | Inl e \<Rightarrow> Inl e
           | Inr j \<Rightarrow> map_result (\<lambda>cs. [LBoolean True, push_string (jwt_sign lib secret cs)]) (token_claims (json_items j)))
      | _ \<Rightarrow> Inr (lua_fail (table_to_json_name @ '': table is not a lua-table'')))"

text \<open>The payload is looked at from behind its first dot on.\<close>

definition behind_dot :: "string \<Rightarrow> string" where
  "behind_dot s = (case find_char (CHR ''.'') s of None \<Rightarrow> s | Some k \<Rightarrow> drop (k + 1) s)"

definition decode_jwt_name :: string where
  "decode_jwt_name = apostrophes ''server.decode_jwt(token)''"

definition jwt_failure_text :: "jwt_failure \<Rightarrow> string" where
  "jwt_failure_text f =
     (case f of
        Invalid_token what \<Rightarrow> '': Token has not correct format: '' @ what
      | Runtime_failure what \<Rightarrow> '': Base64 decoding failed: '' @ what
      | Verification_failure what \<Rightarrow> '': Verification of signature failed: '' @ what)"

definition payload_results :: "string + json \<Rightarrow> lua_object list" where
  "payload_results r =
     (case r of
        Inl what \<Rightarrow> lua_fail (apostrophes ''lua_decode_jwt'' @ '': Error parsing JSON: '' @ what @ [LF])
      | Inr (JObject m) \<Rightarrow> [LBoolean True, json_lua (JObject m)]
      | Inr _ \<Rightarrow> lua_fail (decode_jwt_name @ '': Error in decoding token: '' @ [CHR 0x27] @ ''lua_jsonobj expects object''))"

definition lua_decode_jwt :: "lua_numbers \<Rightarrow> jwt_lib \<Rightarrow> (string \<Rightarrow> string + json) \<Rightarrow> string \<Rightarrow> lua_object list \<Rightarrow> lua_object list" where
  "lua_decode_jwt nums lib parse secret args =
     (if length args \<noteq> 1 then lua_fail (decode_jwt_name @ '': error in parameter list'')
      else (case lua_tostring nums (args ! 0) of
          None \<Rightarrow> lua_fail (decode_jwt_name @ '': error in parameter list: is not string'')
        | Some token \<Rightarrow>
            (case jwt_open lib secret token of
               Inl f \<Rightarrow> lua_fail (decode_jwt_name @ jwt_failure_text f)
             | Inr payload \<Rightarrow> payload_results (parse (behind_dot payload)))))"

section \<open>Requests to other servers\<close>

text \<open>
  What curl gives back: the status, the body in the pieces it arrived in, and the lines of the header; or the text of the error. It
  also tells how long it took.
\<close>

record http_reply =
  hr_status :: int
  hr_body :: "string list"
  hr_header :: "string list"
  hr_duration :: int

definition curlWriterCallback :: "string \<Rightarrow> string \<Rightarrow> string" where
  "curlWriterCallback piece body = body @ piece"

text \<open>A line without a colon, or with nothing but blanks behind it, is left out. The end of the line stays.\<close>

definition curlHeaderCallback :: "string \<Rightarrow> (string \<rightharpoonup> string) \<Rightarrow> (string \<rightharpoonup> string)" where
  "curlHeaderCallback line m =
     (case find_char (CHR '':'') line of
        None \<Rightarrow> m
      | Some p \<Rightarrow> (let v = dropWhile (\<lambda>c. c = CHR '' '') (drop (p + 1) line) in if v = [] then m else m(take p line \<mapsto> v)))"

definition request_header_line :: "string \<times> string \<Rightarrow> string" where
  "request_header_line h = fst h @ '': '' @ snd h"

text \<open>
  A key or a value that is no text is a null pointer; \<open>lua_tostring\<close> turns a key that is a number into a text under the iteration.
\<close>

fun request_headers :: "lua_numbers \<Rightarrow> (lua_object \<times> lua_object) list \<Rightarrow> (string \<rightharpoonup> string) \<Rightarrow> exn + (string \<rightharpoonup> string)" where
  "request_headers nums [] m = Inr m"
| "request_headers nums ((k, v) # t) m =
     (case (k, lua_tostring nums v) of
        (LString s, Some w) \<Rightarrow> request_headers nums t (m(lua_cstring s \<mapsto> w))
      | _ \<Rightarrow> Inl Undefined)"

definition http_name :: string where
  "http_name = apostrophes ''server.http(method, url [, header] [, timeout])''"

text \<open>The header and the timeout in milliseconds; the timeout is the first argument as an integer where the third one is an integer.\<close>

definition http_options :: "lua_numbers \<Rightarrow> lua_object list \<Rightarrow> exn + (string \<rightharpoonup> string) \<times> int" where
  "http_options nums args =
     (if length args < 3 then Inr (Map.empty, 2000)
      else (case args ! 2 of
          LTable t \<Rightarrow> map_result (\<lambda>m. (m, 2000)) (request_headers nums t Map.empty)
        | LInteger _ \<Rightarrow> Inr (Map.empty, to_int32 (lua_tointeger nums (args ! 0)))
        | _ \<Rightarrow> Inr (Map.empty, 2000)))"

type_synonym http_get = "string \<Rightarrow> string list \<Rightarrow> int \<Rightarrow> string + http_reply"

definition reply_table :: "((string \<rightharpoonup> string) \<Rightarrow> (string \<times> string) list) \<Rightarrow> http_reply \<Rightarrow> lua_object" where
  "reply_table iter r = LTable
     [(LString ''status_code'', LInteger (hr_status r)), (LString ''body'', LString (fold curlWriterCallback (hr_body r) [])),
      (LString ''duration'', LInteger (hr_duration r)),
      (LString ''header'', LTable (fold (\<lambda>(k, v). raw_set (push_string k) (push_string v))
         (iter (fold curlHeaderCallback (hr_header r) Map.empty)) []))]"

text \<open>The place in the source in front of the text of an error is left out.\<close>

definition lua_http_client ::
  "lua_numbers \<Rightarrow> ((string \<rightharpoonup> string) \<Rightarrow> (string \<times> string) list) \<Rightarrow> http_get \<Rightarrow> lua_object list \<Rightarrow> exn + lua_object list" where
  "lua_http_client nums iter get args =
     (if length args < 2 then Inr (lua_fail (http_name @ '' requires at least 2 parameters''))
      else (case (lua_tostring nums (args ! 0), lua_tostring nums (args ! 1)) of
          (Some meth, Some url) \<Rightarrow>
            map_result (\<lambda>(hs, timeout).
                if meth = ''GET'' then
                  (case get url (map request_header_line (iter hs)) timeout of
                     Inl msg \<Rightarrow> lua_fail (''HTTP GET request to '' @ url @ '' failed: '' @ msg)
                   | Inr r \<Rightarrow> [LBoolean True, reply_table iter r])
                else lua_fail (apostrophes ''server.http(method, url, [header])'' @ '': unknown method '' @ meth))
              (http_options nums args)
        | _ \<Rightarrow> Inl Undefined))"

section \<open>The operating system\<close>

text \<open>
  The calls that change the world \<open>'w\<close>, with the text of the error if there is one. The working directory belongs to the whole server.
\<close>

record 'w system_calls =
  sys_unlink :: "string \<Rightarrow> 'w \<Rightarrow> string option \<times> 'w"
  sys_mkdir :: "string \<Rightarrow> nat \<Rightarrow> 'w \<Rightarrow> string option \<times> 'w"
  sys_rmdir :: "string \<Rightarrow> 'w \<Rightarrow> string option \<times> 'w"
  sys_getcwd :: "'w \<Rightarrow> string + string"
  sys_chdir :: "string \<Rightarrow> 'w \<Rightarrow> string option \<times> 'w"

definition fs_call :: "lua_numbers \<Rightarrow> string \<Rightarrow> string \<Rightarrow> lua_object list \<Rightarrow> 'w \<Rightarrow> (string \<Rightarrow> lua_object list \<times> 'w) \<Rightarrow> lua_object list \<times> 'w" where
  "fs_call nums name what args w f =
     (case args of
        [] \<Rightarrow> (lua_fail (name @ '': parameter missing''), w)
      | v # _ \<Rightarrow> (case lua_tostring nums v of None \<Rightarrow> (lua_fail (name @ '': '' @ what @ '' is not a string''), w) | Some p \<Rightarrow> f p))"

definition sys_result :: "string \<Rightarrow> string option \<times> 'w \<Rightarrow> lua_object list \<times> 'w" where
  "sys_result hint r = (case r of (None, w) \<Rightarrow> (api_ok, w) | (Some msg, w) \<Rightarrow> (lua_fail (msg @ hint), w))"

definition lua_fs_unlink :: "lua_numbers \<Rightarrow> 'w system_calls \<Rightarrow> lua_object list \<Rightarrow> 'w \<Rightarrow> lua_object list \<times> 'w" where
  "lua_fs_unlink nums sys args w =
     fs_call nums (apostrophes ''server.fs.unlink(filename)'') ''filename'' args w
       (\<lambda>p. sys_result ('' File to unlink: '' @ p) (sys_unlink sys p w))"

definition lua_fs_mkdir :: "lua_numbers \<Rightarrow> 'w system_calls \<Rightarrow> lua_object list \<Rightarrow> 'w \<Rightarrow> lua_object list \<times> 'w" where
  "lua_fs_mkdir nums sys args w =
     (let name = apostrophes ''server.fs.mkdir(dirname, mask)'' in
      if length args < 2 then (lua_fail (name @ '': parameter missing''), w)
      else (case lua_tostring nums (args ! 0) of
          None \<Rightarrow> (lua_fail (name @ '': dirname is not a string''), w)
        | Some p \<Rightarrow>
            (case args ! 1 of
               LInteger i \<Rightarrow> sys_result [] (sys_mkdir sys p (nat (i mod 2 ^ 32)) w)
             | _ \<Rightarrow> (lua_fail (name @ '': mask is not an integer''), w))))"

definition lua_fs_rmdir :: "lua_numbers \<Rightarrow> 'w system_calls \<Rightarrow> lua_object list \<Rightarrow> 'w \<Rightarrow> lua_object list \<times> 'w" where
  "lua_fs_rmdir nums sys args w =
     fs_call nums (apostrophes ''server.fs.rmdir(dirname)'') ''dirname'' args w (\<lambda>p. sys_result [] (sys_rmdir sys p w))"

definition lua_fs_getcwd :: "'w system_calls \<Rightarrow> 'w \<Rightarrow> lua_object list" where
  "lua_fs_getcwd sys w = (case sys_getcwd sys w of Inl msg \<Rightarrow> lua_fail msg | Inr d \<Rightarrow> [LBoolean True, push_string d])"

definition lua_fs_chdir :: "lua_numbers \<Rightarrow> 'w system_calls \<Rightarrow> lua_object list \<Rightarrow> 'w \<Rightarrow> lua_object list \<times> 'w" where
  "lua_fs_chdir nums sys args w =
     fs_call nums (apostrophes ''server.fs.chdir(dirname)'') ''dirname'' args w
       (\<lambda>p. case sys_getcwd sys w of
          Inl msg \<Rightarrow> (lua_fail msg, w)
        | Inr old \<Rightarrow> (case sys_chdir sys p w of (Some msg, w1) \<Rightarrow> (lua_fail msg, w1) | (None, w1) \<Rightarrow> ([LBoolean True, push_string old], w1)))"

section \<open>Log and time\<close>

datatype log_level = L_TRACE | L_DEBUG | L_INFO | L_WARN | L_ERR | L_CRITICAL

definition log_level_of :: "int \<Rightarrow> log_level" where
  "log_level_of i = (if i = 0 then L_TRACE else if i = 1 then L_DEBUG else if i = 2 then L_INFO else if i = 3 then L_WARN
     else if i = 4 then L_ERR else if i = 5 then L_CRITICAL else L_INFO)"

definition script_name :: "lua_numbers \<Rightarrow> (string \<Rightarrow> lua_object) \<Rightarrow> string" where
  "script_name nums globals =
     (case globals ''server'' of
        LTable t \<Rightarrow> (case lua_tostring nums (raw_get t (LString ''scriptfilename'')) of None \<Rightarrow> ''none'' | Some s \<Rightarrow> s)
      | _ \<Rightarrow> ''none'')"

text \<open>The entries of the log grow at the end. The name of the script comes from the table \<open>server\<close>.\<close>

definition lua_logger ::
  "lua_numbers \<Rightarrow> (string \<Rightarrow> lua_object) \<Rightarrow> lua_object list \<Rightarrow> (log_level \<times> string) list \<Rightarrow> lua_object list \<times> (log_level \<times> string) list" where
  "lua_logger nums globals args entries =
     (let name = apostrophes ''server.log()'' in
      case args of
        [] \<Rightarrow> (lua_fail (name @ '': no message given''), entries)
      | v # vs \<Rightarrow>
          (case lua_tostring nums v of
             None \<Rightarrow> (lua_fail (name @ '': message is not a string''), entries)
           | Some message \<Rightarrow>
               (case (case vs of [] \<Rightarrow> Some 1 | LInteger i # _ \<Rightarrow> Some (to_int32 i) | _ \<Rightarrow> None) of
                  None \<Rightarrow> (lua_fail (name @ '': level is not integer''), entries @ [(L_CRITICAL, ''LUA '' @ name @ '': level is not integer'')])
                | Some level \<Rightarrow>
                    (api_ok, if message = [] then entries
                       else entries @ [(log_level_of level, ''LUA '' @ apostrophes (script_name nums globals) @ '': '' @ message)]))))"

definition lua_systime :: "int \<Rightarrow> lua_object list" where
  "lua_systime now = [LInteger now]"

end
