(* ===== verification/LuaTokensProps.thy ===== *)
theory LuaTokensProps
  imports LuaTokens Dispatch
begin

text \<open>
  Properties of tokens and of requests to other servers: what comes back from a token, and options that do not arrive.
\<close>


text \<open>
  A script that gives the time at which a token expires as a text ends the server: the exception of the library for JSON is
  caught neither there nor in \<open>processRequest\<close>.
\<close>

theorem text_expiry_escapes:
  assumes "key = ''exp'' \<or> key = ''nbf'' \<or> key = ''iat''"
  shows "\<exists>e. lua_generate_jwt lib secret [LTable [(LString key, LString s)]] = Inl e \<and> (\<forall>ev q. fst (after_exception ev e q) = Inl e)"
proof -
  have "lua_cstring key = key" using assms by (auto intro!: cstring_same)
  then have "lua_generate_jwt lib secret [LTable [(LString key, LString s)]] = Inl (StdRuntime ''type must be number'')"
    using assms
    by (auto simp: lua_generate_jwt_def key_kind_def put_entry_def json_set_def json_items_def token_claim_def date_claim_def get_long_def map_result_def)
  then show ?thesis by (simp add: after_exception_def)
qed

text \<open>
  The timeout that a script gives for a request to another server does not arrive: it is read from the first argument, the method, and so it
  is 0 where \<open>GET\<close> is no number.
\<close>

theorem http_timeout_ignored:
  assumes "text_number nums ''GET'' = None" and "CHR 0x00 \<notin> set url"
  shows "lua_http_client nums iter get [LString ''GET'', LString url, LInteger ms] =
    lua_http_client nums iter get [LString ''GET'', LString url, LInteger ms'] \<and>
    lua_http_client nums iter get [LString ''GET'', LString url, LInteger ms] =
      Inr (case get url (map request_header_line (iter Map.empty)) 0 of
          Inl msg \<Rightarrow> lua_fail (''HTTP GET request to '' @ url @ '' failed: '' @ msg)
        | Inr r \<Rightarrow> [LBoolean True, reply_table iter r])"
  using assms
  by (simp add: lua_http_client_def http_options_def lua_tostring_def lua_tointeger_def cstring_same map_result_def to_int32_def)

text \<open>The values of the header of a reply keep the end of their line.\<close>

theorem reply_header_keeps_line_end:
  assumes "CHR '':'' \<notin> set name" and "v = [] \<or> hd v \<noteq> CHR '' ''"
  shows "curlHeaderCallback (name @ '': '' @ v @ CRLF) h = h(name \<mapsto> v @ CRLF)"
  using assms find_char_append [OF assms(1), of "CHR '' '' # v @ CRLF"]
  by (cases v) (simp_all add: curlHeaderCallback_def CRLF_def CR_def Let_def)

section \<open>Witnesses\<close>

definition sample_claims :: "(string \<times> json) list" where
  "sample_claims = [(''a'', JInt 1), (''iss'', JString ''me'')]"

definition sample_jwt :: jwt_lib where
  "sample_jwt = \<lparr>jwt_sign = (\<lambda>s cs. ''token''), jwt_open = (\<lambda>s t. Inr ''text'')\<rparr>"


lemma text_expiry_escapes_witness:
  "\<exists>e. lua_generate_jwt sample_jwt ''s'' [LTable [(LString ''exp'', LString ''tomorrow'')]] = Inl e \<and> (\<forall>ev q. fst (after_exception ev e q) = Inl e)"
  by (rule text_expiry_escapes) simp

end
