(* ===== verification/Exif.thy ===== *)
theory Exif
  imports LuaImage LuaValues
begin

text \<open>
  The Exif data of an image, \<open>handlers/iiifhandler/metadata/IIIFExif.h\<close> and \<open>IIIFExif.cpp\<close>, and what scripts see of it,
  \<open>SImage_get_exif\<close> and \<open>SImage_get_exifgps\<close> in \<open>handlers/iiifhandler/IIIFLua.cpp\<close>. Exiv2 is an argument: which keys it knows, what
  it reads from bytes, and what a value of it is as a text, an integer, a float or a fraction. An integer is the
  value of its C type; the fractions are pairs.
\<close>

section \<open>Values of Exiv2\<close>

text \<open>
  A conversion takes the index of a component. It gives the value and what \<open>ok\<close> is afterwards, or an exception; an exception of
  Exiv2 is a \<open>CsError\<close> here.
\<close>

type_synonym 'a conversion = "nat \<Rightarrow> exn + 'a \<times> bool"

record exif_value =
  xv_count :: nat
  xv_whole_text :: "exn + string \<times> bool"
  xv_text :: "string conversion"
  xv_int64 :: "int conversion"
  xv_uint32 :: "int conversion"
  xv_float :: "rat conversion"
  xv_rational :: "(int \<times> int) conversion"

datatype exif_type = asciiString | signedByte | unsignedByte | signedShort | unsignedShort | signedLong | unsignedLong
  | tiffFloat | tiffDouble | signedRational | unsignedRational

record exiv2 =
  x_known_key :: "string \<Rightarrow> bool"
  x_tag_key :: "nat \<Rightarrow> string \<Rightarrow> exn + string"
  x_read :: "exif_type \<Rightarrow> string \<Rightarrow> exif_value"

text \<open>The data is a list: a key is found where it stands first.\<close>

type_synonym exif_data = "(string \<times> exif_value) list"

section \<open>Reading values\<close>

definition to_int8 :: "int \<Rightarrow> int" where
  "to_int8 k = (k + 2 ^ 7) mod 2 ^ 8 - 2 ^ 7"

definition to_uint8 :: "int \<Rightarrow> int" where
  "to_uint8 k = k mod 2 ^ 8"

definition to_uint16 :: "int \<Rightarrow> int" where
  "to_uint16 k = k mod 2 ^ 16"

definition short_of :: "int \<Rightarrow> int" where
  "short_of k = (k + 2 ^ 15) mod 2 ^ 16 - 2 ^ 15"

text \<open>\<open>assign_val\<close> to a variable of a single value, which is the state, and to a vector, which gets the components behind those it has.\<close>

type_synonym 'a assign = "exif_value \<Rightarrow> ('a, bool) act"

definition assign_one :: "('b \<Rightarrow> 'a) \<Rightarrow> exn + 'b \<times> bool \<Rightarrow> ('a, bool) act" where
  "assign_one cast r = (case r of Inl e \<Rightarrow> sthrow e | Inr (x, ok) \<Rightarrow> sbind (smod (\<lambda>_. cast x)) (\<lambda>_. sret ok))"

fun assign_loop :: "('b \<Rightarrow> 'a) \<Rightarrow> 'b conversion \<Rightarrow> nat list \<Rightarrow> bool \<Rightarrow> ('a list, bool) act" where
  "assign_loop cast conv [] ok = sret ok"
| "assign_loop cast conv (i # is) ok =
     (case conv i of
        Inl e \<Rightarrow> sthrow e
      | Inr (x, ok1) \<Rightarrow> sbind (smod (\<lambda>val. val @ [cast x])) (\<lambda>_. assign_loop cast conv is ok1))"

definition assign_all :: "('b \<Rightarrow> 'a) \<Rightarrow> (exif_value \<Rightarrow> 'b conversion) \<Rightarrow> 'a list assign" where
  "assign_all cast conv v = assign_loop cast (conv v) [0..<xv_count v] True"

definition assign_string :: "string assign" where "assign_string v = assign_one id (xv_whole_text v)"
definition assign_strings :: "string list assign" where "assign_strings = assign_all id xv_text"
definition assign_char :: "int assign" where "assign_char v = assign_one to_int8 (xv_int64 v 0)"
definition assign_chars :: "int list assign" where "assign_chars = assign_all to_int8 xv_int64"
definition assign_uchar :: "int assign" where "assign_uchar v = assign_one to_uint8 (xv_uint32 v 0)"
definition assign_uchars :: "int list assign" where "assign_uchars = assign_all to_uint8 xv_uint32"
definition assign_short :: "int assign" where "assign_short v = assign_one short_of (xv_int64 v 0)"
definition assign_shorts :: "int list assign" where "assign_shorts = assign_all short_of xv_int64"
definition assign_ushort :: "int assign" where "assign_ushort v = assign_one to_uint16 (xv_uint32 v 0)"
definition assign_ushorts :: "int list assign" where "assign_ushorts = assign_all to_uint16 xv_uint32"
definition assign_int :: "int assign" where "assign_int v = assign_one to_int32 (xv_int64 v 0)"
definition assign_ints :: "int list assign" where "assign_ints = assign_all to_int32 xv_int64"
definition assign_uint :: "int assign" where "assign_uint v = assign_one id (xv_uint32 v 0)"
definition assign_uints :: "int list assign" where "assign_uints = assign_all id xv_uint32"
definition assign_float :: "rat assign" where "assign_float v = assign_one f32 (xv_float v 0)"
definition assign_floats :: "rat list assign" where "assign_floats = assign_all f32 xv_float"
definition assign_double :: "rat assign" where "assign_double v = assign_one id (xv_float v 0)"
definition assign_doubles :: "rat list assign" where "assign_doubles = assign_all id xv_float"
definition assign_rational :: "(int \<times> int) assign" where "assign_rational v = assign_one id (xv_rational v 0)"
definition assign_rationals :: "(int \<times> int) list assign" where "assign_rationals = assign_all id xv_rational"

text \<open>\<open>getValByKey\<close> by name and by tag and group; what Exiv2 throws is \<open>false\<close>.\<close>

definition exiv2_caught :: "('a, bool) act \<Rightarrow> ('a, bool) act" where
  "exiv2_caught m val = (case m val of (Inl (CsError msg), val1) \<Rightarrow> (Inr False, val1) | r \<Rightarrow> r)"

definition find_assign :: "exif_data \<Rightarrow> string \<Rightarrow> 'a assign \<Rightarrow> ('a, bool) act" where
  "find_assign xd key asg = (case map_of xd key of None \<Rightarrow> sret False | Some v \<Rightarrow> exiv2_caught (asg v))"

definition getValByKey :: "exiv2 \<Rightarrow> exif_data \<Rightarrow> string \<Rightarrow> 'a assign \<Rightarrow> ('a, bool) act" where
  "getValByKey lib xd key asg = (if x_known_key lib key then find_assign xd key asg else sret False)"

definition getValByTag :: "exiv2 \<Rightarrow> exif_data \<Rightarrow> nat \<Rightarrow> string \<Rightarrow> 'a assign \<Rightarrow> ('a, bool) act" where
  "getValByTag lib xd tag grp asg =
     (case x_tag_key lib tag grp of Inl _ \<Rightarrow> sret False | Inr key \<Rightarrow> find_assign xd key asg)"

section \<open>Adding values\<close>

text \<open>
  \<open>addKeyVal\<close> by name sets the first entry of the key, \<open>addKeyVal\<close> by tag and group always adds one at the end. The types are those
  the template tells apart; a value is given by the bytes of its object.
\<close>

definition addKeyVal :: "string \<Rightarrow> exif_value \<Rightarrow> exif_data \<Rightarrow> exif_data" where
  "addKeyVal key v xd = AList.update key v xd"

datatype c_type = C_string | C_int8 | C_uint8 | C_int16 | C_uint16 | C_int32 | C_uint32 | C_float | C_double
  | C_Rational | C_URational | C_other

definition unsupported_value :: exn where
  "unsupported_value = CsError ''Unsupported type of addKeyVal(2)''"

definition value_type :: "c_type \<Rightarrow> exn + exif_type" where
  "value_type t =
     (case t of
        C_string \<Rightarrow> Inr asciiString
      | C_int8 \<Rightarrow> Inr signedByte
      | C_uint8 \<Rightarrow> Inr unsignedByte
      | C_int16 \<Rightarrow> Inr signedShort
      | C_uint16 \<Rightarrow> Inr unsignedShort
      | C_int32 \<Rightarrow> Inr signedLong
      | C_uint32 \<Rightarrow> Inr unsignedLong
      | C_float \<Rightarrow> Inr tiffFloat
      | C_double \<Rightarrow> Inr tiffDouble
      | C_Rational \<Rightarrow> Inr signedRational
      | C_URational \<Rightarrow> Inr unsignedRational
      | C_other \<Rightarrow> Inl unsupported_value)"

text \<open>The variant for arrays asks for \<open>int32_t\<close> twice and not for \<open>uint32_t\<close>, nor for texts.\<close>

definition array_value_type :: "c_type \<Rightarrow> exn + exif_type" where
  "array_value_type t = (if t = C_string \<or> t = C_uint32 then Inl unsupported_value else value_type t)"

definition addKeyVal_tag :: "exiv2 \<Rightarrow> nat \<Rightarrow> string \<Rightarrow> c_type \<Rightarrow> string \<Rightarrow> (exif_data, unit) act" where
  "addKeyVal_tag lib tag grp t bytes =
     (case x_tag_key lib tag grp of
        Inl e \<Rightarrow> sthrow e
      | Inr key \<Rightarrow>
          (case value_type t of
             Inl e \<Rightarrow> sthrow e
           | Inr et \<Rightarrow> smod (\<lambda>xd. xd @ [(key, x_read lib et bytes)])))"

text \<open>The number of bytes read from an array of \<open>len\<close> elements is \<open>len * sizeof(unsigned short)\<close>, whatever they are.\<close>

definition addKeyVal_array :: "exiv2 \<Rightarrow> nat \<Rightarrow> string \<Rightarrow> c_type \<Rightarrow> string \<Rightarrow> nat \<Rightarrow> (exif_data, unit) act" where
  "addKeyVal_array lib tag grp t bytes len =
     (case x_tag_key lib tag grp of
        Inl e \<Rightarrow> sthrow e
      | Inr key \<Rightarrow>
          (case array_value_type t of
             Inl e \<Rightarrow> sthrow e
           | Inr et \<Rightarrow>
               if len * 2 > length bytes then sthrow Undefined
               else smod (\<lambda>xd. xd @ [(key, x_read lib et (take (len * 2) bytes))])))"

section \<open>Fractions\<close>

definition UINT_MAX :: int where "UINT_MAX = 4294967295"

text \<open>A \<open>double\<close> outside the range of \<open>int\<close> has no conversion to it. As \<open>double\<close>, \<open>LONG_MAX\<close> is \<open>2^63\<close>.\<close>

definition double_int :: "rat \<Rightarrow> exn + int" where
  "double_int f = (if - (2 ^ 31) - 1 < f \<and> f < 2 ^ 31 then Inr (trunc f) else Inl Undefined)"

definition toRational :: "rat \<Rightarrow> exn + int \<times> int" where
  "toRational f =
     (if f = 0 then Inr (0, 1)
      else if f = of_int \<lfloor>f\<rfloor> then map_result (\<lambda>n. (n, 1)) (double_int f)
      else if f > 0 then
        (if f < 1 then Inr (to_int32 (lround (f64 (f * 2 ^ 63))), INT_MAX)
         else Inr (INT_MAX, to_int32 (lround (f64 (of_int INT_MAX / f)))))
      else if f > - 1 then Inr (to_int32 (lround (f64 (f * of_int INT_MAX))), INT_MAX)
      else Inr (INT_MAX, to_int32 (lround (f64 (of_int INT_MAX / f)))))"

definition toURational :: "rat \<Rightarrow> exn + int \<times> int" where
  "toURational f =
     (if f < 0 then Inl (CsError ''Cannot convert negative float to URational!'')
      else map_result (\<lambda>_.
          if f < 1 then (int (to_uint32 (lround (f64 (f * of_int UINT_MAX)))), UINT_MAX)
          else (UINT_MAX, int (to_uint32 (lround (f64 (of_int UINT_MAX / f))))))
        (if f \<noteq> 0 \<and> f = of_int \<lfloor>f\<rfloor> then double_int f else Inr 0))"

section \<open>A tag in Lua\<close>

definition exif_missing :: "lua_object list" where
  "exif_missing = lua_fail ''SipiImage.exif(): requested exif tag not available''"

definition exif_text_missing :: "lua_object list" where
  "exif_text_missing = lua_fail ''Sipi.Image.exif(): requested exif tag not available''"

text \<open>All getters are of this form: a variable with its first value, the results if there is no such tag, and what is shown.\<close>

definition shown_value ::
  "exiv2 \<Rightarrow> exif_data \<Rightarrow> string \<Rightarrow> 'a assign \<Rightarrow> 'a \<Rightarrow> lua_object list \<Rightarrow> ('a \<Rightarrow> lua_object) \<Rightarrow> exn + lua_object list" where
  "shown_value lib xd key asg initial missing show =
     (case getValByKey lib xd key asg initial of
        (Inl e, _) \<Rightarrow> Inl e
      | (Inr found, x) \<Rightarrow> Inr (if found then [LBoolean True, show x] else missing))"

definition lua_array :: "('a \<Rightarrow> lua_object) \<Rightarrow> 'a list \<Rightarrow> lua_object" where
  "lua_array show xs = LTable (numbered 1 (map show xs))"

definition lua_pair :: "int \<times> int \<Rightarrow> lua_object" where
  "lua_pair r = LTable [(LInteger 1, LNumber (of_int (fst r))), (LInteger 2, LNumber (of_int (snd r)))]"

type_synonym exif_getter = "exiv2 \<Rightarrow> exif_data \<Rightarrow> string \<Rightarrow> exn + lua_object list"

definition get_exif_string :: exif_getter where
  "get_exif_string lib xd key = shown_value lib xd key assign_string [] exif_text_missing push_string"

definition get_exif_stringv :: exif_getter where
  "get_exif_stringv lib xd key = shown_value lib xd key assign_strings [] exif_text_missing (lua_array push_string)"

definition get_exif_byte :: exif_getter where
  "get_exif_byte lib xd key = shown_value lib xd key assign_char 0 exif_missing LInteger"

definition get_exif_bytev :: exif_getter where
  "get_exif_bytev lib xd key = shown_value lib xd key assign_chars [] exif_missing (lua_array LInteger)"

definition get_exif_ubyte :: exif_getter where
  "get_exif_ubyte lib xd key = shown_value lib xd key assign_uchar 0 exif_missing LInteger"

definition get_exif_ubytev :: exif_getter where
  "get_exif_ubytev lib xd key = shown_value lib xd key assign_uchars [] exif_missing (lua_array LInteger)"

definition get_exif_short :: exif_getter where
  "get_exif_short lib xd key = shown_value lib xd key assign_short 0 exif_missing LInteger"

definition get_exif_shortv :: exif_getter where
  "get_exif_shortv lib xd key = shown_value lib xd key assign_shorts [] exif_missing (lua_array LInteger)"

definition get_exif_ushort :: exif_getter where
  "get_exif_ushort lib xd key = shown_value lib xd key assign_ushort 0 exif_missing LInteger"

definition get_exif_ushortv :: exif_getter where
  "get_exif_ushortv lib xd key = shown_value lib xd key assign_ushorts [] exif_missing (lua_array LInteger)"

definition get_exif_int :: exif_getter where
  "get_exif_int lib xd key = shown_value lib xd key assign_int 0 exif_missing LInteger"

definition get_exif_intv :: exif_getter where
  "get_exif_intv lib xd key = shown_value lib xd key assign_ints [] exif_missing (lua_array LInteger)"

definition get_exif_uint :: exif_getter where
  "get_exif_uint lib xd key = shown_value lib xd key assign_uint 0 exif_missing LInteger"

definition get_exif_uintv :: exif_getter where
  "get_exif_uintv lib xd key = shown_value lib xd key assign_uints [] exif_missing (lua_array LInteger)"

definition get_exif_float :: exif_getter where
  "get_exif_float lib xd key = shown_value lib xd key assign_float 0 exif_missing LNumber"

definition get_exif_floatv :: exif_getter where
  "get_exif_floatv lib xd key = shown_value lib xd key assign_floats [] exif_missing (lua_array LNumber)"

definition get_exif_rational :: exif_getter where
  "get_exif_rational lib xd key = shown_value lib xd key assign_rational (0, 1) exif_missing lua_pair"

definition get_exif_rationalv :: exif_getter where
  "get_exif_rationalv lib xd key = shown_value lib xd key assign_rationals [] exif_missing (lua_array lua_pair)"

datatype exif_data_type = EXIV2_ASCII | EXIV2_ASCIIV | EXIV2_BYTE | EXIV2_BYTEV | EXIV2_UBYTE | EXIV2_UBYTEV | EXIV2_SHORT
  | EXIV2_SHORTV | EXIV2_USHORT | EXIV2_USHORTV | EXIV2_LONG | EXIV2_LONGV | EXIV2_ULONG | EXIV2_ULONGV | EXIV2_FLOAT
  | EXIV2_FLOATV | EXIV2_RATIONAL | EXIV2_RATIONALV | EXIV2_URATIONAL | EXIV2_URATIONALV

definition exif_getter_of :: "exif_data_type \<Rightarrow> exif_getter" where
  "exif_getter_of t =
     (case t of
        EXIV2_ASCII \<Rightarrow> get_exif_string
      | EXIV2_ASCIIV \<Rightarrow> get_exif_stringv
      | EXIV2_BYTE \<Rightarrow> get_exif_byte
      | EXIV2_BYTEV \<Rightarrow> get_exif_bytev
      | EXIV2_UBYTE \<Rightarrow> get_exif_ubyte
      | EXIV2_UBYTEV \<Rightarrow> get_exif_ubytev
      | EXIV2_SHORT \<Rightarrow> get_exif_short
      | EXIV2_SHORTV \<Rightarrow> get_exif_shortv
      | EXIV2_USHORT \<Rightarrow> get_exif_ushort
      | EXIV2_USHORTV \<Rightarrow> get_exif_ushortv
      | EXIV2_LONG \<Rightarrow> get_exif_int
      | EXIV2_LONGV \<Rightarrow> get_exif_intv
      | EXIV2_ULONG \<Rightarrow> get_exif_uint
      | EXIV2_ULONGV \<Rightarrow> get_exif_uintv
      | EXIV2_FLOAT \<Rightarrow> get_exif_float
      | EXIV2_FLOATV \<Rightarrow> get_exif_floatv
      | _ \<Rightarrow> get_exif_rational)"

definition exif_tags :: "(string \<times> string \<times> exif_data_type) list" where
  "exif_tags = [
    (''DocumentName'', ''Image'', EXIV2_ASCII), (''ImageDescription'', ''Image'', EXIV2_ASCII),
     (''Make'', ''Image'', EXIV2_ASCII), (''Model'', ''Image'', EXIV2_ASCII), (''Orientation'', ''Image'', EXIV2_USHORT),
     (''XResolution'', ''Image'', EXIV2_URATIONAL), (''YResolution'', ''Image'', EXIV2_URATIONAL),
     (''PageName'', ''Image'', EXIV2_ASCII), (''XPosition'', ''Image'', EXIV2_URATIONAL),
     (''YPosition'', ''Image'', EXIV2_URATIONAL), (''ResolutionUnit'', ''Image'', EXIV2_USHORT),
     (''PageNumber'', ''Image'', EXIV2_USHORT), (''Software'', ''Image'', EXIV2_ASCII), (''ModifyDate'', ''Image'', EXIV2_ASCII),
     (''DateTime'', ''Image'', EXIV2_ASCII), (''Artist'', ''Image'', EXIV2_ASCII), (''HostComputer'', ''Image'', EXIV2_ASCII),
     (''TileWidth'', ''Image'', EXIV2_ULONG), (''TileLength'', ''Image'', EXIV2_ULONG), (''ImageID'', ''Image'', EXIV2_ASCII),
     (''BatteryLevel'', ''Image'', EXIV2_URATIONAL), (''Copyright'', ''Image'', EXIV2_ASCII),
     (''ImageNumber'', ''Image'', EXIV2_ULONG), (''ImageHistory'', ''Image'', EXIV2_ASCII),
     (''UniqueCameraModel'', ''Image'', EXIV2_ASCII), (''CameraSerialNumber'', ''Image'', EXIV2_ASCII),
     (''LensInfo'', ''Image'', EXIV2_URATIONALV), (''CameraLabel'', ''Image'', EXIV2_ASCII),
     (''ExposureTime'', ''Photo'', EXIV2_URATIONAL), (''FNumber'', ''Photo'', EXIV2_URATIONAL),
     (''ExposureProgram'', ''Photo'', EXIV2_USHORT), (''SpectralSensitivity'', ''Photo'', EXIV2_ASCII),
     (''ISOSpeedRatings'', ''Photo'', EXIV2_USHORT), (''SensitivityType'', ''Photo'', EXIV2_USHORT),
     (''StandardOutputSensitivity'', ''Photo'', EXIV2_ULONG), (''RecommendedExposureIndex'', ''Photo'', EXIV2_ULONG),
     (''ISOSpeed'', ''Photo'', EXIV2_ULONG), (''ISOSpeedLatitudeyyy'', ''Photo'', EXIV2_ULONG),
     (''ISOSpeedLatitudezzz'', ''Photo'', EXIV2_ULONG), (''DateTimeOriginal'', ''Photo'', EXIV2_ASCII),
     (''DateTimeDigitized'', ''Photo'', EXIV2_ASCII), (''OffsetTime'', ''Photo'', EXIV2_ASCII),
     (''OffsetTimeOriginal'', ''Photo'', EXIV2_ASCII), (''OffsetTimeDigitized'', ''Photo'', EXIV2_ASCII),
     (''ShutterSpeedValue'', ''Photo'', EXIV2_RATIONAL), (''ApertureValue'', ''Photo'', EXIV2_URATIONAL),
     (''BrightnessValue'', ''Photo'', EXIV2_RATIONAL), (''ExposureBiasValue'', ''Photo'', EXIV2_RATIONAL),
     (''MaxApertureValue'', ''Photo'', EXIV2_URATIONAL), (''SubjectDistance'', ''Photo'', EXIV2_URATIONAL),
     (''MeteringMode'', ''Photo'', EXIV2_USHORT), (''LightSource'', ''Photo'', EXIV2_USHORT),
     (''Flash'', ''Photo'', EXIV2_USHORT), (''FocalLength'', ''Photo'', EXIV2_URATIONAL),
     (''UserComment'', ''Photo'', EXIV2_ASCII), (''SubSecTime'', ''Photo'', EXIV2_ASCII),
     (''SubSecTimeOriginal'', ''Photo'', EXIV2_ASCII), (''SubSecTimeDigitized'', ''Photo'', EXIV2_ASCII),
     (''Temperature'', ''Photo'', EXIV2_RATIONAL), (''Humidity'', ''Photo'', EXIV2_URATIONAL),
     (''Pressure'', ''Photo'', EXIV2_URATIONAL), (''WaterDepth'', ''Photo'', EXIV2_RATIONAL),
     (''Acceleration'', ''Photo'', EXIV2_URATIONAL), (''CameraElevationAngle'', ''Photo'', EXIV2_RATIONAL),
     (''RelatedSoundFile'', ''Photo'', EXIV2_ASCII), (''FlashEnergy'', ''Photo'', EXIV2_URATIONAL),
     (''FocalPlaneXResolution'', ''Photo'', EXIV2_URATIONAL), (''FocalPlaneYResolution'', ''Photo'', EXIV2_URATIONAL),
     (''FocalPlaneResolutionUnit'', ''Photo'', EXIV2_USHORT), (''SceneCaptureType'', ''Photo'', EXIV2_USHORT),
     (''GainControl'', ''Photo'', EXIV2_USHORT), (''Contrast'', ''Photo'', EXIV2_USHORT),
     (''Saturation'', ''Photo'', EXIV2_USHORT), (''Sharpness'', ''Photo'', EXIV2_USHORT),
     (''SubjectDistanceRange'', ''Photo'', EXIV2_USHORT), (''ImageUniqueID'', ''Photo'', EXIV2_ASCII),
     (''OwnerName'', ''Photo'', EXIV2_ASCII), (''SerialNumber'', ''Photo'', EXIV2_ASCII),
     (''LensInfo'', ''Photo'', EXIV2_URATIONALV), (''LensMake'', ''Photo'', EXIV2_ASCII),
     (''LensModel'', ''Photo'', EXIV2_ASCII), (''LensSerialNumber'', ''Photo'', EXIV2_ASCII)]"

text \<open>
  The arguments behind the image. A tag that is not in the table is looked at before it is asked whether it was found.
\<close>

definition SImage_get_exif :: "exiv2 \<Rightarrow> lua_numbers \<Rightarrow> exif_data option \<Rightarrow> lua_object list \<Rightarrow> exn + lua_object list" where
  "SImage_get_exif lib nums exif args =
     (if length args \<noteq> 1 then Inr (lua_fail ''SipiImage.exif(): Incorrect number of arguments'')
      else (case exif of
          None \<Rightarrow> Inr (lua_fail ''SipiImage.exif(): no exif data available'')
        | Some xd \<Rightarrow>
            (case lua_tostring nums (args ! 0) of
               None \<Rightarrow> Inl Undefined
             | Some tag \<Rightarrow>
                 (case map_of exif_tags tag of
                    None \<Rightarrow> Inl Undefined
                  | Some (grp, t) \<Rightarrow> exif_getter_of t lib xd (''Exif.'' @ grp @ ''.'' @ tag)))))"

section \<open>The position in Lua\<close>

type_synonym fraction = "int \<times> int"

record gps =
  g_latref :: int
  g_latitude :: "fraction list"
  g_longituderef :: int
  g_longitude :: "fraction list"
  g_altituderef :: int
  g_altitude :: "fraction list"
  g_timestamp :: "fraction list"
  g_speedref :: int
  g_speed :: fraction
  g_trackref :: int
  g_track :: fraction
  g_directionref :: int
  g_direction :: fraction
  g_destlatref :: int
  g_destlatitude :: "fraction list"
  g_destlongituderef :: int
  g_destlongitude :: "fraction list"
  g_destbearingref :: int
  g_destbearing :: fraction
  g_destdistanceref :: int
  g_destdistance :: fraction
  g_positioningerror :: fraction

definition three_zeros :: "fraction list" where
  "three_zeros = [(0, 1), (0, 1), (0, 1)]"

definition blank_gps :: gps where
  "blank_gps = \<lparr>g_latref = 0, g_latitude = three_zeros, g_longituderef = 0, g_longitude = three_zeros, g_altituderef = 0,
     g_altitude = three_zeros, g_timestamp = three_zeros, g_speedref = 0, g_speed = (0, 1), g_trackref = 0, g_track = (0, 1),
     g_directionref = 0, g_direction = (0, 1), g_destlatref = 0, g_destlatitude = three_zeros, g_destlongituderef = 0,
     g_destlongitude = three_zeros, g_destbearingref = 0, g_destbearing = (0, 1), g_destdistanceref = 0, g_destdistance = (0, 1),
     g_positioningerror = (0, 1)\<rparr>"

text \<open>
  A value of the record is read into the variable that \<open>val\<close> reads and \<open>upd\<close> writes; if this fails, \<open>reset\<close> sets a variable back.
\<close>

definition read_gps :: "exiv2 \<Rightarrow> exif_data \<Rightarrow> string \<Rightarrow> 'a assign \<Rightarrow> (gps \<Rightarrow> 'a) \<Rightarrow> ('a \<Rightarrow> gps \<Rightarrow> gps) \<Rightarrow> (gps \<Rightarrow> gps) \<Rightarrow> (gps, unit) act" where
  "read_gps lib xd key asg val upd reset g =
     (case getValByKey lib xd (''Exif.GPSInfo.'' @ key) asg (val g) of
        (Inl e, x) \<Rightarrow> (Inl e, upd x g)
      | (Inr found, x) \<Rightarrow> (Inr (), if found then upd x g else reset (upd x g)))"

definition read_all_gps :: "exiv2 \<Rightarrow> exif_data \<Rightarrow> (gps, unit) act" where
  "read_all_gps lib xd =
     (let ref = (\<lambda>key val upd. read_gps lib xd key assign_char val (\<lambda>x. upd (\<lambda>_. x)) (upd (\<lambda>_. 0)));
          vec = (\<lambda>key val upd. read_gps lib xd key assign_rationals val (\<lambda>x. upd (\<lambda>_. x)) (upd (\<lambda>_. three_zeros)));
          one = (\<lambda>key val upd. read_gps lib xd key assign_rational val (\<lambda>x. upd (\<lambda>_. x)) (upd (\<lambda>_. (0, 1))))
      in sseq [
        ref ''GPSLatitudeRef'' g_latref g_latref_update,
        vec ''GPSLatitude'' g_latitude g_latitude_update,
        ref ''GPSLongitudeRef'' g_longituderef g_longituderef_update,
        read_gps lib xd ''GPSLongitude'' assign_rationals g_latitude (\<lambda>x. g_latitude_update (\<lambda>_. x)) (g_longitude_update (\<lambda>_. three_zeros)),
        ref ''GPSAltitudeRef'' g_altituderef g_altituderef_update,
        vec ''Exif.GPSInfo.GPSAltitude'' g_altitude g_altitude_update,
        vec ''GPSTimeStamp'' g_timestamp g_timestamp_update,
        ref ''GPSSpeedRef'' g_speedref g_speedref_update,
        one ''GPSSpeed'' g_speed g_speed_update,
        ref ''GPSTrackRef'' g_trackref g_trackref_update,
        one ''GPSTrack'' g_track g_track_update,
        ref ''GPSImgDirectionRef'' g_directionref g_directionref_update,
        one ''GPSImgDirection'' g_direction g_direction_update,
        ref ''GPSDestLatitudeRef'' g_destlatref g_destlatref_update,
        vec ''GPSDestLatitude'' g_destlatitude g_destlatitude_update,
        ref ''GPSDestLongitudeRef'' g_destlongituderef g_destlongituderef_update,
        read_gps lib xd ''GPSDestLongitude'' assign_rationals g_destlongitude (\<lambda>x. g_destlongitude_update (\<lambda>_. x))
          (g_destlongitude_update (\<lambda>_. [(0, 0), (0, 0), (0, 0)])),
        ref ''GPSDestBearingRef'' g_destbearingref g_destbearingref_update,
        one ''GPSDestBearing'' g_destbearing g_destbearing_update,
        ref ''GPSDestDistanceRef'' g_destdistanceref g_destdistanceref_update,
        one ''GPSDestDistance'' g_destdistance g_destdistance_update,
        one ''GPSHPositioningError'' g_positioningerror g_positioningerror_update])"

text \<open>
  Writing the results on the stack of Lua, each with the key below it and then \<open>lua_rawset(L, -3)\<close>. A quotient with the
  denominator 0 is infinite or no number, here \<open>LOther\<close>.
\<close>

definition quotient :: "fraction \<Rightarrow> lua_object" where
  "quotient r = (if snd r = 0 then LOther else LNumber (f64 (of_int (fst r) / of_int (snd r))))"

definition put_ref :: "string \<Rightarrow> int \<Rightarrow> lua_object list \<Rightarrow> exn + lua_object list" where
  "put_ref name c st = rawset_3 (LString [code_chr (nat (c mod 256))] # LString name # st)"

definition put_quotient :: "string \<Rightarrow> fraction \<Rightarrow> lua_object list \<Rightarrow> exn + lua_object list" where
  "put_quotient name r st = rawset_3 (quotient r # LString name # st)"

fun put_three :: "nat list \<Rightarrow> fraction list \<Rightarrow> lua_object list \<Rightarrow> exn + lua_object list" where
  "put_three [] xs st = Inr st"
| "put_three (i # is) xs st =
     (if i < length xs then and_then (rawset_3 (quotient (xs ! i) # LInteger (int i) # st)) (put_three is xs) else Inl Undefined)"

definition put_open_table :: "string \<Rightarrow> fraction list \<Rightarrow> lua_object list \<Rightarrow> exn + lua_object list" where
  "put_open_table name xs st = put_three [0..<3] xs (LTable [] # LString name # st)"

definition put_table :: "string \<Rightarrow> fraction list \<Rightarrow> lua_object list \<Rightarrow> exn + lua_object list" where
  "put_table name xs st = and_then (put_open_table name xs st) rawset_3"

fun put_all :: "(lua_object list \<Rightarrow> exn + lua_object list) list \<Rightarrow> lua_object list \<Rightarrow> exn + lua_object list" where
  "put_all [] st = Inr st"
| "put_all (f # fs) st = and_then (f st) (put_all fs)"

text \<open>The table of the time is not closed before the speed is written.\<close>

definition gps_results :: "gps \<Rightarrow> exn + lua_object list" where
  "gps_results g = put_all [
     put_ref ''GPSLatitudeRef'' (g_latref g),
     put_table ''GPSLatitude'' (g_latitude g),
     put_ref ''GPSLongitudeRef'' (g_longituderef g),
     put_table ''GPSLongitude'' (g_longitude g),
     put_ref ''GPSAltitudeRef'' (g_altituderef g),
     put_table ''GPSAltitude'' (g_altitude g),
     put_open_table ''GPSTimeStamp'' (g_timestamp g),
     put_ref ''GPSSpeedRef'' (g_speedref g),
     put_quotient ''GPSSpeed'' (g_speed g),
     put_ref ''GPSTrackRef'' (g_trackref g),
     put_quotient ''GPSTrack'' (g_track g),
     put_ref ''GPSImgDirectionRef'' (g_directionref g),
     put_quotient ''GPSImgDirection'' (g_direction g),
     rawset_3,
     put_ref ''GPSDestLatitudeRef'' (g_destlatref g),
     put_table ''GPSDestLatitude'' (g_destlatitude g),
     put_ref ''GPSDestLongitudeRef'' (g_destlongituderef g),
     put_table ''GPSDestLongitude'' (g_destlongitude g),
     put_ref ''GPSDestBearingRef'' (g_destbearingref g),
     put_quotient ''GPSDestBearing'' (g_destbearing g),
     put_ref ''GPSDestDistanceRef'' (g_destdistanceref g),
     put_quotient ''GPSDestDistance'' (g_destdistance g),
     put_quotient ''GPSHPositioningError'' (g_positioningerror g)] [LTable [], LBoolean True]"

definition SImage_get_exifgps :: "exiv2 \<Rightarrow> exif_data option \<Rightarrow> lua_object list \<Rightarrow> exn + lua_object list" where
  "SImage_get_exifgps lib exif args =
     (if args \<noteq> [] then Inr (lua_fail ''SipiImage.gps(): Incorrect number of arguments'')
      else (case exif of
          None \<Rightarrow> Inr (lua_fail ''SipiImage.gps(): no exif data available'')
        | Some xd \<Rightarrow>
            (case read_all_gps lib xd blank_gps of
               (Inl e, _) \<Rightarrow> Inl e
             | (Inr _, g) \<Rightarrow> map_result rev (gps_results g))))"

end
