(* ===== verification/ExifProps.thy ===== *)
theory ExifProps
  imports Exif RegionProps
begin

text \<open>
  Properties of the Exif data: what adding and reading do to each other, which fractions survive, and what scripts can and cannot
  learn about the position at which a picture was taken.
\<close>

section \<open>Reading what was added\<close>

lemma added_by_name: "map_of (addKeyVal key v xd) k = (if k = key then Some v else map_of xd k)"
  by (simp add: addKeyVal_def update_conv)

text \<open>
  A value that is added by its name is the one that is read afterwards, whatever was there, and no other key changes.
\<close>

theorem named_value_read_back:
  "getValByKey lib (addKeyVal key v xd) k asg =
     (if k = key then (if x_known_key lib key then exiv2_caught (asg v) else sret False) else getValByKey lib xd k asg)"
  by (simp add: getValByKey_def find_assign_def added_by_name)

text \<open>
  A value that is added by its tag and group is not seen if the key is there already: all reading goes on as before.
\<close>

theorem second_value_hidden:
  assumes "x_tag_key lib tag grp = Inr key" and "key \<in> fst ` set xd" and "addKeyVal_tag lib tag grp t bytes xd = (r, xd1)"
  shows "getValByKey lib xd1 k asg = getValByKey lib xd k asg"
proof -
  have "map_of (xd @ [(key, v)]) k = map_of xd k" for v
  proof -
    from assms(2) obtain w where "map_of xd key = Some w" by (metis map_of_eq_None_iff not_None_eq)
    then show ?thesis by (cases "k = key") (auto simp: map_add_def split: option.split)
  qed
  with assms(1,3) have "map_of xd1 k = map_of xd k" by (auto simp: addKeyVal_tag_def sthrow_def smod_def split: sum.splits)
  then show ?thesis by (simp add: getValByKey_def find_assign_def)
qed

text \<open>
  An array of single bytes is read beyond its end, and of an array of fractions only the first quarter is read, since the length
  is taken times the size of a \<open>short\<close>.
\<close>

theorem array_lengths:
  assumes "x_tag_key lib tag grp = Inr key" and "n > 0"
  shows "length bytes = n \<Longrightarrow> addKeyVal_array lib tag grp C_uint8 bytes n xd = (Inl Undefined, xd)"
    and "length bytes = 8 * n \<Longrightarrow>
      addKeyVal_array lib tag grp C_URational bytes n xd = (Inr (), xd @ [(key, x_read lib unsignedRational (take (2 * n) bytes))])"
  using assms by (simp_all add: addKeyVal_array_def array_value_type_def value_type_def sthrow_def smod_def mult.commute)

section \<open>Fractions\<close>

lemma f64_of_multiple:
  assumes "k < 2 ^ 53"
  shows "f64 (of_nat (k * 2 ^ j)) = of_nat (k * 2 ^ j)"
proof (cases "k * 2 ^ j < 2 ^ 53")
  case True
  then show ?thesis by (rule f64_of_nat)
next
  case False
  let ?n = "k * 2 ^ j" and ?b = "bit_length (k * 2 ^ j)"
  have n: "?n > 0" using False by (metis gr0I zero_less_power pos2)
  note b = bit_length_bounds [OF n]
  have "?b \<le> 53 + j" using assms by (intro bit_length_le) (simp add: power_add)
  moreover have "53 < ?b"
  proof (rule ccontr)
    assume "\<not> 53 < ?b"
    then have "(2 :: nat) ^ ?b \<le> 2 ^ 53" by (intro power_increasing) auto
    with b False show False by simp
  qed
  ultimately obtain d where d: "?b = 53 + d" "d \<le> j" by (metis add_le_cancel_left le_add_diff_inverse less_imp_le_nat)
  have e: "exponent \<bar>of_nat ?n\<bar> - 52 = int d" using n d(1) by (simp add: exponent_def Suc_le_eq flip: of_nat_power of_nat_mult)
  have u: "pow2 (int d) = 2 ^ d" by (simp add: pow2_def)
  have "(of_nat ?n :: rat) / 2 ^ d = of_int (int (k * 2 ^ (j - d)))"
  proof -
    obtain i where "j = d + i" using d(2) by (auto simp: le_iff_add)
    then show ?thesis by (simp add: power_add)
  qed
  then have "round_even (of_nat ?n / 2 ^ d) = int (k * 2 ^ (j - d))" by (metis round_even_int)
  moreover have "(of_int (int (k * 2 ^ (j - d))) :: rat) * 2 ^ d = of_nat ?n" using d(2) by (simp flip: power_add)
  moreover have "\<not> (of_nat ?n :: rat) < 0" by (simp only: not_less of_nat_0_le_iff)
  ultimately show ?thesis using n e by (simp add: f64_def Let_def u del: of_nat_mult of_nat_power)
qed

text \<open>
  Whole numbers become fractions exactly, but a fraction between 0 and 1 with up to 31 binary digits becomes 0.
\<close>

theorem fractions_lost:
  "(\<forall>i. - (2 ^ 31) \<le> i \<and> i < 2 ^ 31 \<longrightarrow> toRational (of_int i) = Inr (i, 1)) \<and>
   (\<forall>k m. 0 < k \<and> k < 2 ^ m \<and> m \<le> 31 \<longrightarrow> toRational (of_nat k / 2 ^ m) = Inr (0, INT_MAX))"
proof (intro conjI allI impI)
  fix i :: int
  assume "- (2 ^ 31) \<le> i \<and> i < 2 ^ 31"
  then show "toRational (of_int i) = Inr (i, 1)"
    by (auto simp: toRational_def double_int_def map_result_def)
next
  fix k m :: nat
  assume a: "0 < k \<and> k < 2 ^ m \<and> m \<le> 31"
  let ?f = "of_nat k / 2 ^ m :: rat"
  have f: "0 < ?f" "?f < 1" using a by (simp_all flip: of_nat_power)
  then have fl: "\<lfloor>?f\<rfloor> = 0" by (simp add: floor_eq_iff)
  have two: "(2 :: rat) ^ 63 = 2 ^ m * 2 ^ (63 - m)" using a by (simp flip: power_add)
  have p: "?f * 2 ^ 63 = of_nat (k * 2 ^ (63 - m))" unfolding two by simp
  have "k < 2 ^ 31" using a by (meson less_le_trans power_increasing one_le_numeral)
  then have "f64 (?f * 2 ^ 63) = of_nat (k * 2 ^ (63 - m))" unfolding p by (intro f64_of_multiple) simp
  then have l: "lround (f64 (?f * 2 ^ 63)) = int (k * 2 ^ (63 - m))" by (simp only: lround_nat)
  have "(63 - m) = (31 - m) + 32" using a by simp
  then have "(2 :: nat) ^ (63 - m) = 2 ^ (31 - m) * 2 ^ 32" by (simp only: power_add)
  then have "int (k * 2 ^ (63 - m)) = int (k * 2 ^ (31 - m)) * 2 ^ 32" by simp
  then have "to_int32 (int (k * 2 ^ (63 - m))) = 0" using mod_mult_self2 [of "2 ^ 31" "2 ^ 32" "int (k * 2 ^ (31 - m))"]
    by (simp only: to_int32_def mult.commute) simp
  moreover have "?f \<noteq> 0" "?f \<noteq> of_int \<lfloor>?f\<rfloor>" using a unfolding fl by simp_all
  ultimately show "toRational ?f = Inr (0, INT_MAX)" using f unfolding toRational_def by (simp only: l if_True if_False)
qed

section \<open>Tags in Lua\<close>

text \<open>
  A script that asks for a tag outside the table does not get the message for it: the entry that was not found is used first.
\<close>

theorem unknown_tag_undefined:
  assumes "map_of exif_tags tag = None" and "CHR 0x00 \<notin> set tag"
  shows "SImage_get_exif lib nums (Some xd) [LString tag] = Inl Undefined"
  using assms by (simp add: SImage_get_exif_def lua_tostring_def cstring_same)

text \<open>
  \<open>LensInfo\<close> stands in the table twice: only that of the image is ever looked up, and of its four fractions
  scripts get the first.
\<close>

theorem lens_info_cut:
  assumes "map_of xd ''Exif.Image.LensInfo'' = Some v" and "x_known_key lib ''Exif.Image.LensInfo''" and "xv_rational v 0 = Inr (r, True)"
  shows "SImage_get_exif lib nums (Some xd) [LString ''LensInfo''] = Inr [LBoolean True, lua_pair r]"
proof -
  have "map_of exif_tags ''LensInfo'' = Some (''Image'', EXIV2_URATIONALV)" by (simp add: exif_tags_def)
  then show ?thesis
    using assms by (simp add: SImage_get_exif_def lua_tostring_def lua_cstring_def exif_getter_of_def get_exif_rational_def
      shown_value_def getValByKey_def find_assign_def assign_rational_def assign_one_def exiv2_caught_def act_defs)
qed

section \<open>The position\<close>

text \<open>What \<open>assign_val\<close> puts into a vector comes behind what is there.\<close>

lemma assign_loop_appends: "\<exists>zs. snd (assign_loop cast conv is ok xs) = xs @ zs"
proof (induction "is" arbitrary: ok xs)
  case (Cons i "is")
  show ?case
  proof (cases "conv i")
    case (Inr p)
    obtain x ok1 where p: "p = (x, ok1)" by (cases p)
    from Cons [of ok1 "xs @ [cast x]"] show ?thesis by (auto simp: Inr p act_defs)
  qed (simp add: sthrow_def)
qed (simp add: sret_def)

lemma getValByKey_appends: "\<exists>zs. snd (getValByKey lib xd key assign_rationals xs) = xs @ zs"
proof -
  have "snd (exiv2_caught m xs) = snd (m xs)" for m :: "(fraction list, bool) act"
    by (simp add: exiv2_caught_def split: prod.split sum.split exn.split)
  then show ?thesis
    using assign_loop_appends
    by (auto simp: getValByKey_def find_assign_def assign_rationals_def assign_all_def sret_def split: option.split)
qed

definition starts_zero :: "fraction list \<Rightarrow> bool" where
  "starts_zero xs \<longleftrightarrow> (\<exists>ys. xs = three_zeros @ ys)"

definition no_position :: "gps \<Rightarrow> bool" where
  "no_position g \<longleftrightarrow> starts_zero (g_latitude g) \<and> starts_zero (g_longitude g) \<and> starts_zero (g_altitude g) \<and>
     starts_zero (g_timestamp g) \<and> starts_zero (g_destlatitude g) \<and>
     (starts_zero (g_destlongitude g) \<or> (\<exists>ys. g_destlongitude g = [(0, 0), (0, 0), (0, 0)] @ ys))"

lemma starts_zero_simps [simp]: "starts_zero three_zeros" "starts_zero xs \<Longrightarrow> starts_zero (xs @ zs)"
  by (auto simp: starts_zero_def)

lemma read_vector_keeps:
  assumes "\<And>g zs. no_position g \<Longrightarrow> no_position (upd (val g @ zs) g)" and "\<And>g. no_position g \<Longrightarrow> no_position (reset g)"
  shows "triple no_position (read_gps lib xd key assign_rationals val upd reset) (\<lambda>_. no_position) (\<lambda>_ _. True)"
proof (rule tripleI)
  fix s x s'
  assume s: "no_position s" and r: "read_gps lib xd key assign_rationals val upd reset s = (Inr x, s')"
  obtain zs where z: "snd (getValByKey lib xd (''Exif.GPSInfo.'' @ key) assign_rationals (val s)) = val s @ zs"
    using getValByKey_appends by blast
  from assms(1) [OF s, of zs] assms(2) [of "upd (val s @ zs) s"] r z show "no_position s'"
    by (auto simp: read_gps_def split: prod.splits sum.splits if_splits)
qed simp

lemma read_other_keeps:
  assumes "\<And>g x. no_position g \<Longrightarrow> no_position (upd x g)" and "\<And>g. no_position g \<Longrightarrow> no_position (reset g)"
  shows "triple no_position (read_gps lib xd key asg val upd reset) (\<lambda>_. no_position) (\<lambda>_ _. True)"
  using assms by (auto simp: triple_def read_gps_def split: prod.splits sum.splits)

lemma read_all_keeps: "triple no_position (read_all_gps lib xd) (\<lambda>_. no_position) (\<lambda>_ _. True)"
  unfolding read_all_gps_def Let_def
  by (rule triple_seq_all, unfold list.set insert_iff, elim disjE emptyE)
    (hypsubst, rule read_vector_keeps read_other_keeps; auto simp: no_position_def)+

lemma put_three_zero:
  assumes "starts_zero xs"
  shows "put_open_table name xs st =
    Inr (LTable [(LInteger 0, LNumber 0), (LInteger 1, LNumber 0), (LInteger 2, LNumber 0)] # LString name # st)"
  using assms by (auto simp: starts_zero_def three_zeros_def put_open_table_def upt_rec numeral_eq_Suc and_then_def rawset_3_def raw_set_def
    quotient_def f64_def)

lemma put_three_undefined:
  "put_open_table name ([(0, 0), (0, 0), (0, 0)] @ ys) st =
    Inr (LTable [(LInteger 0, LOther), (LInteger 1, LOther), (LInteger 2, LOther)] # LString name # st)"
  by (simp add: put_open_table_def upt_rec numeral_eq_Suc and_then_def rawset_3_def raw_set_def quotient_def)

definition zero_table :: lua_object where
  "zero_table = LTable [(LInteger 0, LNumber 0), (LInteger 1, LNumber 0), (LInteger 2, LNumber 0)]"

definition lua_ref :: "int \<Rightarrow> lua_object" where
  "lua_ref c = LString [code_chr (nat (c mod 256))]"

text \<open>What is shown when the vectors begin with zeros; \<open>dest\<close> is the longitude of the destination.\<close>

definition shown_gps :: "gps \<Rightarrow> lua_object \<Rightarrow> lua_object list" where
  "shown_gps g dest = [LBoolean True, LTable [
     (LString ''GPSLatitudeRef'', lua_ref (g_latref g)), (LString ''GPSLatitude'', zero_table),
     (LString ''GPSLongitudeRef'', lua_ref (g_longituderef g)), (LString ''GPSLongitude'', zero_table),
     (LString ''GPSAltitudeRef'', lua_ref (g_altituderef g)), (LString ''GPSAltitude'', zero_table),
     (LString ''GPSTimeStamp'', LTable [(LInteger 0, LNumber 0), (LInteger 1, LNumber 0), (LInteger 2, LNumber 0),
        (LString ''GPSSpeedRef'', lua_ref (g_speedref g)), (LString ''GPSSpeed'', quotient (g_speed g)),
        (LString ''GPSTrackRef'', lua_ref (g_trackref g)), (LString ''GPSTrack'', quotient (g_track g)),
        (LString ''GPSImgDirectionRef'', lua_ref (g_directionref g)), (LString ''GPSImgDirection'', quotient (g_direction g))]),
     (LString ''GPSDestLatitudeRef'', lua_ref (g_destlatref g)), (LString ''GPSDestLatitude'', zero_table),
     (LString ''GPSDestLongitudeRef'', lua_ref (g_destlongituderef g)), (LString ''GPSDestLongitude'', dest),
     (LString ''GPSDestBearingRef'', lua_ref (g_destbearingref g)), (LString ''GPSDestBearing'', quotient (g_destbearing g)),
     (LString ''GPSDestDistanceRef'', lua_ref (g_destdistanceref g)), (LString ''GPSDestDistance'', quotient (g_destdistance g)),
     (LString ''GPSHPositioningError'', quotient (g_positioningerror g))]]"

lemma quotient_not_nil [simp]: "quotient r \<noteq> LNil"
  by (simp add: quotient_def)

lemma gps_results_shown:
  assumes "no_position g"
  shows "\<exists>dest. map_result rev (gps_results g) = Inr (shown_gps g dest)"
proof -
  have v: "starts_zero (g_latitude g)" "starts_zero (g_longitude g)" "starts_zero (g_altitude g)" "starts_zero (g_timestamp g)"
    "starts_zero (g_destlatitude g)" using assms by (simp_all add: no_position_def)
  obtain dest where d: "dest \<noteq> LNil" "\<And>name st. put_open_table name (g_destlongitude g) st = Inr (dest # LString name # st)"
    using assms put_three_zero put_three_undefined unfolding no_position_def by fastforce
  show ?thesis
    by (rule exI [of _ dest]) (simp add: gps_results_def put_all.simps put_table_def d v [THEN put_three_zero] put_ref_def put_quotient_def
      and_then_def rawset_new shown_gps_def zero_table_def lua_ref_def map_result_def)
qed


section \<open>Witnesses\<close>

definition plain_value :: exif_value where
  "plain_value = \<lparr>xv_count = 3, xv_whole_text = Inr (''N'', True), xv_text = (\<lambda>i. Inr (''N'', True)), xv_int64 = (\<lambda>i. Inr (78, True)),
     xv_uint32 = (\<lambda>i. Inr (78, True)), xv_float = (\<lambda>i. Inr (5, True)), xv_rational = (\<lambda>i. Inr ((47, 1), True))\<rparr>"

definition plain_exiv2 :: exiv2 where
  "plain_exiv2 = \<lparr>x_known_key = (\<lambda>k. k = ''Exif.GPSInfo.GPSLatitude'' \<or> k = ''Exif.GPSInfo.GPSSpeed''),
     x_tag_key = (\<lambda>tag grp. Inr (''Exif.'' @ grp)), x_read = (\<lambda>t bytes. plain_value)\<rparr>"

definition located :: exif_data where
  "located = [(''Exif.GPSInfo.GPSLatitude'', plain_value), (''Exif.GPSInfo.GPSSpeed'', plain_value)]"

lemma located_read:
  "read_all_gps plain_exiv2 located blank_gps =
     (Inr (), blank_gps\<lparr>g_latitude := three_zeros @ [(47, 1), (47, 1), (47, 1)], g_speed := (47, 1),
        g_destlongitude := [(0, 0), (0, 0), (0, 0)]\<rparr>)"
  by (simp add: read_all_gps_def read_gps_def getValByKey_def find_assign_def assign_rationals_def assign_all_def assign_rational_def
    assign_one_def exiv2_caught_def plain_exiv2_def plain_value_def located_def blank_gps_def upt_rec numeral_eq_Suc act_defs)


lemma fractions_lost_witness:
  "toRational (of_int 7) = Inr (7, 1) \<and> toRational (of_nat 1 / 2 ^ 1) = Inr (0, INT_MAX)"
  using fractions_lost [THEN conjunct1, rule_format, of 7] fractions_lost [THEN conjunct2, rule_format, of 1 1] by simp

end
