(* ===== verification/LuaSqlite.thy ===== *)
theory LuaSqlite
  imports LuaValues LuaConf Config
begin

text \<open>
  Databases in Lua, \<open>lib/LuaSqlite.cpp\<close>: the objects of a script that stand for connections and prepared statements, with the
  handles of SQLite they hold. SQLite is an argument, with a state of its own; a null pointer as handle is \<open>None\<close>. An error that the code
  raises with \<open>lua_error\<close> is the exception \<open>LuaError\<close> with its message.
\<close>

section \<open>The library\<close>

type_synonym sql_handle = nat

definition SQLITE_OK :: int where "SQLITE_OK = 0"
definition SQLITE_ROW :: int where "SQLITE_ROW = 100"
definition SQLITE_DONE :: int where "SQLITE_DONE = 101"
definition SQLITE_OPEN_READONLY :: nat where "SQLITE_OPEN_READONLY = 1"
definition SQLITE_OPEN_READWRITE :: nat where "SQLITE_OPEN_READWRITE = 2"
definition SQLITE_OPEN_CREATE :: nat where "SQLITE_OPEN_CREATE = 4"
definition SQLITE_OPEN_NOMUTEX :: nat where "SQLITE_OPEN_NOMUTEX = 32768"

datatype sql_bound = Bind_int int | Bind_double rat | Bind_text string | Bind_blob string | Bind_null

datatype sql_column = Col_integer int | Col_float rat | Col_blob string | Col_null | Col_text string

record 'w sqlite =
  sq_open :: "string \<Rightarrow> nat \<Rightarrow> 'w \<Rightarrow> (int \<times> sql_handle option) \<times> 'w"
  sq_close :: "sql_handle \<Rightarrow> ('w, unit) act"
  sq_errmsg :: "sql_handle option \<Rightarrow> 'w \<Rightarrow> string"
  sq_prepare :: "sql_handle option \<Rightarrow> string \<Rightarrow> ('w, int \<times> sql_handle option) act"
  sq_finalize :: "sql_handle \<Rightarrow> ('w, unit) act"
  sq_reset :: "sql_handle option \<Rightarrow> ('w, int) act"
  sq_clear_bindings :: "sql_handle option \<Rightarrow> ('w, int) act"
  sq_bind :: "sql_handle option \<Rightarrow> nat \<Rightarrow> sql_bound \<Rightarrow> ('w, int) act"
  sq_step :: "sql_handle option \<Rightarrow> ('w, int) act"
  sq_columns :: "sql_handle option \<Rightarrow> 'w \<Rightarrow> sql_column list"
  sq_sql :: "sql_handle option \<Rightarrow> 'w \<Rightarrow> string option"

section \<open>The objects\<close>

record sqlite_object =
  sqlite_handle :: "sql_handle option"
  sqlite_dbname :: string

record stmt_object =
  stmt_sqlite :: "sql_handle option"
  stmt_handle :: "sql_handle option"

record 'w sql_state =
  sql_world :: 'w
  sql_dbs :: "nat \<rightharpoonup> sqlite_object"
  sql_stmts :: "nat \<rightharpoonup> stmt_object"
  sql_next :: nat

text \<open>An argument of a function: one of the objects, or another value.\<close>

datatype sql_arg = A_db nat | A_stmt nat | A_val lua_object

definition in_world :: "('w, 'a) act \<Rightarrow> ('w sql_state, 'a) act" where
  "in_world m s = (case m (sql_world s) of (r, w) \<Rightarrow> (r, s\<lparr>sql_world := w\<rparr>))"

text \<open>\<open>luaL_checkudata\<close> raises an error of its own, of which only the beginning is kept.\<close>

definition bad_argument :: exn where
  "bad_argument = LuaError ''bad argument''"

definition checkSqlite :: "sql_arg \<Rightarrow> ('w sql_state, nat \<times> sqlite_object) act" where
  "checkSqlite a s =
     (case a of
        A_db i \<Rightarrow> (case sql_dbs s i of None \<Rightarrow> (Inl bad_argument, s) | Some d \<Rightarrow> (Inr (i, d), s))
      | _ \<Rightarrow> (Inl bad_argument, s))"

definition checkStmt :: "sql_arg \<Rightarrow> ('w sql_state, nat \<times> stmt_object) act" where
  "checkStmt a s =
     (case a of
        A_stmt i \<Rightarrow> (case sql_stmts s i of None \<Rightarrow> (Inl bad_argument, s) | Some d \<Rightarrow> (Inr (i, d), s))
      | _ \<Rightarrow> (Inl bad_argument, s))"

definition pushSqlite :: "sqlite_object \<Rightarrow> ('w sql_state, sql_arg) act" where
  "pushSqlite d s = (Inr (A_db (sql_next s)), s\<lparr>sql_dbs := (sql_dbs s)(sql_next s \<mapsto> d), sql_next := Suc (sql_next s)\<rparr>)"

definition pushStmt :: "stmt_object \<Rightarrow> ('w sql_state, sql_arg) act" where
  "pushStmt d s = (Inr (A_stmt (sql_next s)), s\<lparr>sql_stmts := (sql_stmts s)(sql_next s \<mapsto> d), sql_next := Suc (sql_next s)\<rparr>)"

text \<open>The error of the library on a handle.\<close>

definition sql_failed :: "'w sqlite \<Rightarrow> sql_handle option \<Rightarrow> ('w sql_state, 'a) act" where
  "sql_failed lib h s = (Inl (LuaError (sq_errmsg lib h (sql_world s))), s)"

section \<open>Connections\<close>

definition arg_text :: "lua_numbers \<Rightarrow> sql_arg \<Rightarrow> string option" where
  "arg_text nums a = (case a of A_val v \<Rightarrow> lua_tostring nums v | _ \<Rightarrow> None)"

definition sqlite_usage :: exn where
  "sqlite_usage = LuaError (apostrophes ''sqlite(path, mode)'' @ '': no enough parameters!'')"

text \<open>The mode is compared with the first argument, the path.\<close>

definition sqlite_flags :: "lua_numbers \<Rightarrow> sql_arg list \<Rightarrow> string \<Rightarrow> nat" where
  "sqlite_flags nums args dbpath =
     (if length args \<ge> 2 \<and> arg_text nums (args ! 1) \<noteq> None then
        (let flagstr = dbpath in
         if flagstr = ''RO'' then SQLITE_OPEN_READONLY
         else if flagstr = ''RW'' then SQLITE_OPEN_READWRITE
         else if flagstr = ''CRW'' then SQLITE_OPEN_READWRITE + SQLITE_OPEN_CREATE
         else SQLITE_OPEN_READWRITE)
      else SQLITE_OPEN_READWRITE) + SQLITE_OPEN_NOMUTEX"

definition Sqlite_new :: "lua_numbers \<Rightarrow> 'w sqlite \<Rightarrow> sql_arg list \<Rightarrow> ('w sql_state, sql_arg) act" where
  "Sqlite_new nums lib args =
     (if args = [] then sthrow sqlite_usage
      else (case arg_text nums (args ! 0) of
          None \<Rightarrow> sthrow sqlite_usage
        | Some dbpath \<Rightarrow>
            sbind (in_world (\<lambda>w. case sq_open lib dbpath (sqlite_flags nums args dbpath) w of (r, w1) \<Rightarrow> (Inr r, w1)))
              (\<lambda>(status, h).
                 if status \<noteq> SQLITE_OK then sql_failed lib h
                 else pushSqlite \<lparr>sqlite_handle = h, sqlite_dbname = dbpath\<rparr>)))"

text \<open>\<open>db << sql\<close>\<close>

definition Sqlite_query :: "lua_numbers \<Rightarrow> 'w sqlite \<Rightarrow> sql_arg list \<Rightarrow> ('w sql_state, sql_arg) act" where
  "Sqlite_query nums lib args =
     (if length args \<noteq> 2 then sthrow (LuaError ''Incorrect number of arguments!'')
      else sbind (checkSqlite (args ! 0)) (\<lambda>(i, db).
        (case arg_text nums (args ! 1) of
           None \<Rightarrow> sthrow (LuaError ''No SQL given!'')
         | Some sql \<Rightarrow>
             sbind (in_world (sq_prepare lib (sqlite_handle db) sql)) (\<lambda>(status, h).
               if status \<noteq> SQLITE_OK then sql_failed lib (sqlite_handle db)
               else pushStmt \<lparr>stmt_sqlite = sqlite_handle db, stmt_handle = h\<rparr>))))"

text \<open>Closing a connection that is open; what \<open>~db\<close> and the garbage collection do.\<close>

definition close_handle :: "'w sqlite \<Rightarrow> sqlite_object \<Rightarrow> ('w sql_state, unit) act" where
  "close_handle lib db = (case sqlite_handle db of None \<Rightarrow> sret () | Some h \<Rightarrow> in_world (sq_close lib h))"

definition Sqlite_destroy :: "'w sqlite \<Rightarrow> nat \<Rightarrow> sqlite_object \<Rightarrow> ('w sql_state, lua_object list) act" where
  "Sqlite_destroy lib i db =
     sbind (close_handle lib db) (\<lambda>_.
     sbind (smod (\<lambda>s. s\<lparr>sql_dbs := (sql_dbs s)(i \<mapsto> db\<lparr>sqlite_handle := None\<rparr>)\<rparr>)) (\<lambda>_. sret []))"

definition Sqlite_gc :: "'w sqlite \<Rightarrow> nat \<Rightarrow> sqlite_object \<Rightarrow> ('w sql_state, lua_object list) act" where
  "Sqlite_gc lib i db =
     sbind (close_handle lib db) (\<lambda>_.
     sbind (smod (\<lambda>s. s\<lparr>sql_dbs := (sql_dbs s)(i := None)\<rparr>)) (\<lambda>_. sret []))"

definition Sqlite_tostring :: "sqlite_object \<Rightarrow> lua_object list" where
  "Sqlite_tostring db = [push_string (''DB-File: '' @ sqlite_dbname db)]"

section \<open>Statements\<close>

definition finalize_handle :: "'w sqlite \<Rightarrow> stmt_object \<Rightarrow> ('w sql_state, unit) act" where
  "finalize_handle lib st = (case stmt_handle st of None \<Rightarrow> sret () | Some h \<Rightarrow> in_world (sq_finalize lib h))"

definition Stmt_destroy :: "'w sqlite \<Rightarrow> nat \<Rightarrow> stmt_object \<Rightarrow> ('w sql_state, lua_object list) act" where
  "Stmt_destroy lib i st =
     (if stmt_handle st = None then sret []
      else sbind (finalize_handle lib st) (\<lambda>_.
        sbind (smod (\<lambda>s. s\<lparr>sql_stmts := (sql_stmts s)(i \<mapsto> \<lparr>stmt_sqlite = None, stmt_handle = None\<rparr>)\<rparr>)) (\<lambda>_. sret [])))"

definition Stmt_gc :: "'w sqlite \<Rightarrow> nat \<Rightarrow> stmt_object \<Rightarrow> ('w sql_state, lua_object list) act" where
  "Stmt_gc lib i st =
     sbind (finalize_handle lib st) (\<lambda>_.
     sbind (smod (\<lambda>s. s\<lparr>sql_stmts := (sql_stmts s)(i := None)\<rparr>)) (\<lambda>_. sret []))"

text \<open>The text of no statement is a null pointer, which the stream reads.\<close>

definition Stmt_tostring :: "'w sqlite \<Rightarrow> stmt_object \<Rightarrow> ('w sql_state, lua_object list) act" where
  "Stmt_tostring lib st s =
     (case sq_sql lib (stmt_handle st) (sql_world s) of
        None \<Rightarrow> (Inl Undefined, s)
      | Some sql \<Rightarrow> (Inr [push_string (''SQL: '' @ sql)], s))"

text \<open>
  What a value is bound as, in the order of the tests: an integer is cut to an \<open>int\<close>, and a text that reads as a number is a number. A
  text with a zero byte in it is a blob.
\<close>

definition bound_value :: "lua_numbers \<Rightarrow> sql_arg \<Rightarrow> sql_bound option" where
  "bound_value nums a =
     (case a of
        A_val (LInteger k) \<Rightarrow> Some (Bind_int (to_int32 k))
      | A_val (LNumber x) \<Rightarrow> Some (Bind_double x)
      | A_val (LString s) \<Rightarrow>
          (case text_number nums s of
             Some x \<Rightarrow> Some (Bind_double x)
           | None \<Rightarrow> Some (if lua_cstring s = s then Bind_text s else Bind_blob s))
      | A_val LNil \<Rightarrow> Some Bind_null
      | A_val (LBoolean b) \<Rightarrow> Some (Bind_int (if b then 1 else 0))
      | _ \<Rightarrow> None)"

fun bind_loop :: "lua_numbers \<Rightarrow> 'w sqlite \<Rightarrow> stmt_object \<Rightarrow> nat \<Rightarrow> sql_arg list \<Rightarrow> ('w sql_state, unit) act" where
  "bind_loop nums lib st i [] = sret ()"
| "bind_loop nums lib st i (a # as) =
     (case bound_value nums a of
        None \<Rightarrow> sthrow (LuaError ''Stmt_next: Invalid datatype for binding to prepared statments!'')
      | Some b \<Rightarrow>
          sbind (in_world (sq_bind lib (stmt_handle st) i b)) (\<lambda>status.
            if status \<noteq> SQLITE_OK then sql_failed lib (stmt_sqlite st) else bind_loop nums lib st (i + 1) as))"

definition rebind :: "lua_numbers \<Rightarrow> 'w sqlite \<Rightarrow> stmt_object \<Rightarrow> sql_arg list \<Rightarrow> ('w sql_state, unit) act" where
  "rebind nums lib st as =
     sbind (in_world (sq_reset lib (stmt_handle st))) (\<lambda>status.
     if status \<noteq> SQLITE_OK then sql_failed lib (stmt_sqlite st)
     else sbind (in_world (sq_clear_bindings lib (stmt_handle st))) (\<lambda>status1.
       if status1 \<noteq> SQLITE_OK then sql_failed lib (stmt_sqlite st) else bind_loop nums lib st 1 as))"

definition column_value :: "sql_column \<Rightarrow> lua_object" where
  "column_value c =
     (case c of
        Col_integer k \<Rightarrow> LInteger (to_int32 k)
      | Col_float x \<Rightarrow> LNumber x
      | Col_blob b \<Rightarrow> LString b
      | Col_null \<Rightarrow> LNil
      | Col_text t \<Rightarrow> LString (lua_cstring t))"

fun row_table :: "nat \<Rightarrow> sql_column list \<Rightarrow> (lua_object \<times> lua_object) list \<Rightarrow> (lua_object \<times> lua_object) list" where
  "row_table col [] t = t"
| "row_table col (c # cs) t = row_table (col + 1) cs (raw_set (LInteger (int col)) (column_value c) t)"

definition Stmt_next :: "lua_numbers \<Rightarrow> 'w sqlite \<Rightarrow> sql_arg list \<Rightarrow> ('w sql_state, lua_object list) act" where
  "Stmt_next nums lib args =
     (if args = [] then sthrow (LuaError ''Stmt_next: Incorrect number of arguments!'')
      else sbind (checkStmt (hd args)) (\<lambda>(i, st).
        sbind (if length args > 1 then rebind nums lib st (tl args) else sret ()) (\<lambda>_.
        sbind (in_world (sq_step lib (stmt_handle st))) (\<lambda>status.
          if status = SQLITE_ROW then (\<lambda>s. (Inr [LTable (row_table 0 (sq_columns lib (stmt_handle st) (sql_world s)) [])], s))
          else if status = SQLITE_DONE then sret [LNil]
          else sql_failed lib (stmt_sqlite st)))))"

section \<open>What a script can do\<close>

text \<open>
  The steps of a script and of the garbage collection: the functions and operators with arguments that exist, and the end of an object.
\<close>

inductive sql_step :: "lua_numbers \<Rightarrow> 'w sqlite \<Rightarrow> 'w sql_state \<Rightarrow> exn option \<Rightarrow> 'w sql_state \<Rightarrow> bool" for nums lib where
  step_new: "Sqlite_new nums lib args s = (r, s') \<Longrightarrow> sql_step nums lib s (case r of Inl e \<Rightarrow> Some e | Inr _ \<Rightarrow> None) s'"
| step_query: "Sqlite_query nums lib args s = (r, s') \<Longrightarrow> sql_step nums lib s (case r of Inl e \<Rightarrow> Some e | Inr _ \<Rightarrow> None) s'"
| step_next: "Stmt_next nums lib args s = (r, s') \<Longrightarrow> sql_step nums lib s (case r of Inl e \<Rightarrow> Some e | Inr _ \<Rightarrow> None) s'"
| step_destroy_db: "sql_dbs s i = Some db \<Longrightarrow> Sqlite_destroy lib i db s = (r, s') \<Longrightarrow> sql_step nums lib s (case r of Inl e \<Rightarrow> Some e | Inr _ \<Rightarrow> None) s'"
| step_gc_db: "sql_dbs s i = Some db \<Longrightarrow> Sqlite_gc lib i db s = (r, s') \<Longrightarrow> sql_step nums lib s (case r of Inl e \<Rightarrow> Some e | Inr _ \<Rightarrow> None) s'"
| step_destroy_stmt: "sql_stmts s i = Some st \<Longrightarrow> Stmt_destroy lib i st s = (r, s') \<Longrightarrow> sql_step nums lib s (case r of Inl e \<Rightarrow> Some e | Inr _ \<Rightarrow> None) s'"
| step_gc_stmt: "sql_stmts s i = Some st \<Longrightarrow> Stmt_gc lib i st s = (r, s') \<Longrightarrow> sql_step nums lib s (case r of Inl e \<Rightarrow> Some e | Inr _ \<Rightarrow> None) s'"

inductive sql_reachable :: "lua_numbers \<Rightarrow> 'w sqlite \<Rightarrow> 'w \<Rightarrow> 'w sql_state \<Rightarrow> bool" for nums lib w where
  sql_start: "sql_reachable nums lib w \<lparr>sql_world = w, sql_dbs = Map.empty, sql_stmts = Map.empty, sql_next = 0\<rparr>"
| sql_more: "sql_reachable nums lib w s \<Longrightarrow> sql_step nums lib s r s' \<Longrightarrow> sql_reachable nums lib w s'"

end
