(* ===== verification/SqliteProps.thy ===== *)
theory SqliteProps
  imports LuaSqlite LuaApiProps
begin

text \<open>
  Properties of databases in Lua: the handles of SQLite are used while they live and no statement is lost, whatever a script does and
  whenever objects are collected; the mode of a connection; what numbers become on their way.
\<close>

section \<open>What SQLite documents\<close>

text \<open>
  The handles of connections that are open, and of statements that are not finalized, in a state of the library. New handles are
  not among them. Closing and finalizing demand a handle that lives; a connection that is closed may still have statements
  (\<open>sqlite3_close_v2\<close>). A statement that could not be prepared is a null pointer, and all functions of statements take one.
\<close>

definition uses_stmt :: "('w \<Rightarrow> sql_handle set) \<Rightarrow> ('w \<Rightarrow> sql_handle set) \<Rightarrow> (sql_handle option \<Rightarrow> ('w, int) act) \<Rightarrow> bool" where
  "uses_stmt dbs stmts f \<longleftrightarrow>
     (\<forall>h w. set_option h \<subseteq> stmts w \<longrightarrow> (\<exists>r w'. f h w = (Inr r, w') \<and> dbs w' = dbs w \<and> stmts w' = stmts w))"

definition sqlite_documented :: "'w sqlite \<Rightarrow> ('w \<Rightarrow> sql_handle set) \<Rightarrow> ('w \<Rightarrow> sql_handle set) \<Rightarrow> bool" where
  "sqlite_documented lib dbs stmts \<longleftrightarrow>
     (\<forall>path fl w r h w'. sq_open lib path fl w = ((r, h), w') \<longrightarrow>
        dbs w' = dbs w \<union> set_option h \<and> dbs w \<inter> set_option h = {} \<and> stmts w' = stmts w) \<and>
     (\<forall>h w. h \<in> dbs w \<longrightarrow> (\<exists>w'. sq_close lib h w = (Inr (), w') \<and> dbs w' = dbs w - {h} \<and> stmts w' = stmts w)) \<and>
     (\<forall>h sql w. set_option h \<subseteq> dbs w \<longrightarrow>
        (\<exists>r st w'. sq_prepare lib h sql w = (Inr (r, st), w') \<and> dbs w' = dbs w \<and> stmts w' = stmts w \<union> set_option st \<and>
           stmts w \<inter> set_option st = {} \<and> (r \<noteq> SQLITE_OK \<longrightarrow> st = None))) \<and>
     (\<forall>h w. h \<in> stmts w \<longrightarrow> (\<exists>w'. sq_finalize lib h w = (Inr (), w') \<and> stmts w' = stmts w - {h} \<and> dbs w' = dbs w)) \<and>
     uses_stmt dbs stmts (sq_reset lib) \<and> uses_stmt dbs stmts (sq_clear_bindings lib) \<and> uses_stmt dbs stmts (sq_step lib) \<and>
     (\<forall>i b. uses_stmt dbs stmts (\<lambda>h. sq_bind lib h i b))"

section \<open>The handles of the objects\<close>

text \<open>The objects of a kind hold different handles; those of the connections are open, and the statements are all held.\<close>

definition held :: "(nat \<rightharpoonup> 'a) \<Rightarrow> ('a \<Rightarrow> sql_handle option) \<Rightarrow> sql_handle set" where
  "held objs f = {h. \<exists>i d. objs i = Some d \<and> f d = Some h}"

definition held_once :: "(nat \<rightharpoonup> 'a) \<Rightarrow> ('a \<Rightarrow> sql_handle option) \<Rightarrow> bool" where
  "held_once objs f \<longleftrightarrow> (\<forall>i j d e h. objs i = Some d \<longrightarrow> objs j = Some e \<longrightarrow> f d = Some h \<longrightarrow> f e = Some h \<longrightarrow> i = j)"

definition sql_inv :: "('w \<Rightarrow> sql_handle set) \<Rightarrow> ('w \<Rightarrow> sql_handle set) \<Rightarrow> 'w sql_state \<Rightarrow> bool" where
  "sql_inv dbs stmts s \<longleftrightarrow>
     held (sql_dbs s) sqlite_handle \<subseteq> dbs (sql_world s) \<and> held_once (sql_dbs s) sqlite_handle \<and>
     held (sql_stmts s) stmt_handle = stmts (sql_world s) \<and> held_once (sql_stmts s) stmt_handle \<and>
     (\<forall>i \<ge> sql_next s. sql_dbs s i = None \<and> sql_stmts s i = None)"

lemma held_iff: "h \<in> held objs f \<longleftrightarrow> (\<exists>i d. objs i = Some d \<and> f d = Some h)"
  by (simp add: held_def)

lemma held_new: "objs i = None \<Longrightarrow> held (objs(i \<mapsto> d)) f = held objs f \<union> set_option (f d)"
  unfolding held_def by (auto split: if_splits) (metis option.distinct(1))

lemma held_once_new:
  assumes "objs i = None" and "held_once objs f" and "held objs f \<inter> set_option (f d) = {}"
  shows "held_once (objs(i \<mapsto> d)) f"
  using assms unfolding held_once_def held_def by (fastforce split: if_splits)

lemma held_dropped:
  assumes "objs i = Some d" and "held_once objs f" and "\<And>e. x = Some e \<Longrightarrow> f e = None"
  shows "held (objs(i := x)) f = held objs f - set_option (f d)" and "held_once (objs(i := x)) f"
proof -
  have other: "j \<noteq> i \<and> objs j = Some e \<and> f e = Some h" if "(objs(i := x)) j = Some e" "f e = Some h" for j e h
    using that assms(3) by (auto split: if_splits)
  then show "held_once (objs(i := x)) f" using assms(2) unfolding held_once_def by metis
  have alone: "f d \<noteq> Some h" if "j \<noteq> i" "objs j = Some e" "f e = Some h" for j e h
    using that assms(1,2) unfolding held_once_def by metis
  show "held (objs(i := x)) f = held objs f - set_option (f d)"
  proof (intro set_eqI iffI)
    fix h
    assume "h \<in> held (objs(i := x)) f"
    then obtain j e where "(objs(i := x)) j = Some e" "f e = Some h" by (auto simp: held_iff)
    from other [OF this] have "j \<noteq> i" "objs j = Some e" "f e = Some h" by auto
    with alone show "h \<in> held objs f - set_option (f d)" by (auto simp: held_iff elem_set)
  next
    fix h
    assume "h \<in> held objs f - set_option (f d)"
    then obtain j e where "objs j = Some e" "f e = Some h" "f d \<noteq> Some h" by (auto simp: held_iff elem_set)
    moreover from this assms(1) have "j \<noteq> i" by auto
    ultimately show "h \<in> held (objs(i := x)) f" unfolding held_iff by (intro exI [of _ j] exI [of _ e]) simp
  qed
qed

lemma heldI: "objs i = Some d \<Longrightarrow> set_option (f d) \<subseteq> held objs f"
  by (auto simp: held_def)

section \<open>Every operation keeps the handles\<close>

abbreviation fails_defined :: "('w sql_state \<Rightarrow> bool) \<Rightarrow> exn \<Rightarrow> 'w sql_state \<Rightarrow> bool" where
  "fails_defined P \<equiv> \<lambda>e s. P s \<and> e \<noteq> Undefined"

lemma stmt_call:
  assumes "uses_stmt dbs stmts f"
  shows "triple (\<lambda>s. sql_inv dbs stmts s \<and> sql_stmts s i = Some st) (in_world (f (stmt_handle st)))
    (\<lambda>_ s. sql_inv dbs stmts s \<and> sql_stmts s i = Some st) (fails_defined (sql_inv dbs stmts))"
  unfolding triple_def
proof (intro allI impI)
  fix s
  assume s: "sql_inv dbs stmts s \<and> sql_stmts s i = Some st"
  then have "set_option (stmt_handle st) \<subseteq> stmts (sql_world s)" using heldI [of "sql_stmts s" i st stmt_handle] by (auto simp: sql_inv_def)
  with assms obtain x w where w: "f (stmt_handle st) (sql_world s) = (Inr x, w)" "dbs w = dbs (sql_world s)" "stmts w = stmts (sql_world s)"
    unfolding uses_stmt_def by blast
  then show "case in_world (f (stmt_handle st)) s of (Inl e, s') \<Rightarrow> sql_inv dbs stmts s' \<and> e \<noteq> Undefined
      | (Inr x, s') \<Rightarrow> sql_inv dbs stmts s' \<and> sql_stmts s' i = Some st"
    using s by (simp add: in_world_def sql_inv_def)
qed

lemma sql_failed_safe: "(\<And>s. P s \<Longrightarrow> sql_inv dbs stmts s) \<Longrightarrow> triple P (sql_failed lib h) Q (fails_defined (sql_inv dbs stmts))"
  by (simp add: triple_def sql_failed_def)

lemma bind_loop_safe:
  assumes "sqlite_documented lib dbs stmts"
  shows "triple (\<lambda>s. sql_inv dbs stmts s \<and> sql_stmts s i = Some st) (bind_loop nums lib st k args)
    (\<lambda>_ s. sql_inv dbs stmts s \<and> sql_stmts s i = Some st) (fails_defined (sql_inv dbs stmts))"
proof (induction args arbitrary: k)
  case Nil
  show ?case by (simp, rule triple_ret, simp)
next
  case (Cons a as)
  have b: "uses_stmt dbs stmts (\<lambda>h. sq_bind lib h k v)" for v using assms by (simp add: sqlite_documented_def)
  show ?case
  proof (cases "bound_value nums a")
    case None
    then show ?thesis by simp (rule triple_throw, simp)
  next
    case (Some v)
    show ?thesis
      by (simp add: Some, rule triple_bind, rule stmt_call [OF b], rule triple_ite, rule sql_failed_safe, simp, rule Cons)
  qed
qed

lemma Stmt_next_safe:
  assumes "sqlite_documented lib dbs stmts"
  shows "triple (sql_inv dbs stmts) (Stmt_next nums lib args) (\<lambda>_. sql_inv dbs stmts) (fails_defined (sql_inv dbs stmts))"
proof -
  note a = assms [unfolded sqlite_documented_def]
  have u: "uses_stmt dbs stmts (sq_reset lib)" "uses_stmt dbs stmts (sq_clear_bindings lib)" "uses_stmt dbs stmts (sq_step lib)"
    using a by blast+
  have r: "triple (\<lambda>s. sql_inv dbs stmts s \<and> sql_stmts s i = Some st) (rebind nums lib st as)
      (\<lambda>_ s. sql_inv dbs stmts s \<and> sql_stmts s i = Some st) (fails_defined (sql_inv dbs stmts))" for i st as
    unfolding rebind_def
    by (rule triple_bind, rule stmt_call [OF u(1)], rule triple_ite, rule sql_failed_safe, simp,
        rule triple_bind, rule stmt_call [OF u(2)], rule triple_ite, rule sql_failed_safe, simp, rule bind_loop_safe [OF assms])
  have st: "triple (\<lambda>s. sql_inv dbs stmts s \<and> sql_stmts s i = Some st)
      (\<lambda>s. (Inr [LTable (row_table 0 (sq_columns lib (stmt_handle st) (sql_world s)) [])], s)) (\<lambda>_. sql_inv dbs stmts)
      (fails_defined (sql_inv dbs stmts))" for i st by (simp add: triple_def)
  have c: "triple (sql_inv dbs stmts) (checkStmt x) (\<lambda>(i, st) s. sql_inv dbs stmts s \<and> sql_stmts s i = Some st)
      (fails_defined (sql_inv dbs stmts))" for x
    by (auto simp: triple_def checkStmt_def bad_argument_def split: sql_arg.splits option.splits)
  have body: "triple (\<lambda>s. sql_inv dbs stmts s \<and> sql_stmts s i = Some st)
     (sbind (if length args > 1 then rebind nums lib st (tl args) else sret ()) (\<lambda>_.
        sbind (in_world (sq_step lib (stmt_handle st))) (\<lambda>status.
          if status = SQLITE_ROW then (\<lambda>s. (Inr [LTable (row_table 0 (sq_columns lib (stmt_handle st) (sql_world s)) [])], s))
          else if status = SQLITE_DONE then sret [LNil]
          else sql_failed lib (stmt_sqlite st)))) (\<lambda>_. sql_inv dbs stmts) (fails_defined (sql_inv dbs stmts))" for i st
    by (rule triple_bind, rule triple_ite, rule r, rule triple_ret, simp, rule triple_bind, rule stmt_call [OF u(3)],
        intro triple_ite st triple_ret sql_failed_safe) auto
  show ?thesis
    unfolding Stmt_next_def
    by (intro triple_ite triple_throw, simp, rule triple_bind, rule c, unfold case_prod_beta, rule body)
qed

lemma new_object_db:
  assumes "sql_inv dbs stmts s" and "dbs w = dbs (sql_world s) \<union> set_option h" and "dbs (sql_world s) \<inter> set_option h = {}"
    and "stmts w = stmts (sql_world s)"
  shows "sql_inv dbs stmts (s\<lparr>sql_world := w\<rparr>)"
    and "sql_inv dbs stmts (snd (pushSqlite \<lparr>sqlite_handle = h, sqlite_dbname = nm\<rparr> (s\<lparr>sql_world := w\<rparr>)))"
proof -
  have n: "sql_dbs s (sql_next s) = None" using assms(1) by (simp add: sql_inv_def)
  have "held (sql_dbs s) sqlite_handle \<inter> set_option h = {}" using assms(1,3) by (auto simp: sql_inv_def)
  then show "sql_inv dbs stmts (snd (pushSqlite \<lparr>sqlite_handle = h, sqlite_dbname = nm\<rparr> (s\<lparr>sql_world := w\<rparr>)))"
    using assms held_once_new [of "sql_dbs s" "sql_next s" sqlite_handle "\<lparr>sqlite_handle = h, sqlite_dbname = nm\<rparr>"] n
    by (auto simp: sql_inv_def pushSqlite_def held_new [of "sql_dbs s"])
  show "sql_inv dbs stmts (s\<lparr>sql_world := w\<rparr>)" using assms by (auto simp: sql_inv_def)
qed

lemma new_object_stmt:
  assumes "sql_inv dbs stmts s" and "dbs w = dbs (sql_world s)" and "stmts w = stmts (sql_world s) \<union> set_option h"
    and "stmts (sql_world s) \<inter> set_option h = {}"
  shows "sql_inv dbs stmts (snd (pushStmt \<lparr>stmt_sqlite = d, stmt_handle = h\<rparr> (s\<lparr>sql_world := w\<rparr>)))"
proof -
  have n: "sql_stmts s (sql_next s) = None" using assms(1) by (simp add: sql_inv_def)
  have "held (sql_stmts s) stmt_handle \<inter> set_option h = {}" using assms(1,4) by (auto simp: sql_inv_def)
  then show ?thesis
    using assms held_once_new [of "sql_stmts s" "sql_next s" stmt_handle "\<lparr>stmt_sqlite = d, stmt_handle = h\<rparr>"] n
    by (auto simp: sql_inv_def pushStmt_def held_new [of "sql_stmts s"])
qed

lemma Sqlite_new_safe:
  assumes "sqlite_documented lib dbs stmts" and "sql_inv dbs stmts s" and "Sqlite_new nums lib args s = (r, s')"
  shows "sql_inv dbs stmts s' \<and> r \<noteq> Inl Undefined"
proof (cases "args = [] \<or> arg_text nums (args ! 0) = None")
  case True
  then show ?thesis using assms by (cases "args = []") (auto simp: Sqlite_new_def sthrow_def sqlite_usage_def)
next
  case False
  then obtain path where p: "args \<noteq> []" "arg_text nums (args ! 0) = Some path" by auto
  obtain st h w where o: "sq_open lib path (sqlite_flags nums args path) (sql_world s) = ((st, h), w)" by (metis prod.exhaust)
  with assms(1) have "dbs w = dbs (sql_world s) \<union> set_option h" "dbs (sql_world s) \<inter> set_option h = {}" "stmts w = stmts (sql_world s)"
    unfolding sqlite_documented_def by metis+
  note new = new_object_db [OF assms(2) this]
  show ?thesis
  proof (cases "st = SQLITE_OK")
    case True
    with assms(3) p new(2) [of path] show ?thesis by (auto simp: Sqlite_new_def sbind_def in_world_def o pushSqlite_def)
  next
    case False
    with assms(3) p new(1) show ?thesis by (auto simp: Sqlite_new_def sbind_def in_world_def o sql_failed_def)
  qed
qed

lemma Sqlite_query_safe:
  assumes "sqlite_documented lib dbs stmts" and "sql_inv dbs stmts s" and "Sqlite_query nums lib args s = (r, s')"
  shows "sql_inv dbs stmts s' \<and> r \<noteq> Inl Undefined"
proof (cases "\<exists>i db sql. length args = 2 \<and> args ! 0 = A_db i \<and> sql_dbs s i = Some db \<and> arg_text nums (args ! 1) = Some sql")
  case False
  then show ?thesis
    using assms by (auto simp: Sqlite_query_def sthrow_def sbind_def checkSqlite_def bad_argument_def split: if_splits sql_arg.splits option.splits)
next
  case True
  then obtain i db sql where a: "length args = 2" "args ! 0 = A_db i" "sql_dbs s i = Some db" "arg_text nums (args ! 1) = Some sql" by auto
  have "set_option (sqlite_handle db) \<subseteq> dbs (sql_world s)"
    using heldI [of "sql_dbs s" i db sqlite_handle] a(3) assms(2) by (auto simp: sql_inv_def)
  with assms(1) obtain st h w where p: "sq_prepare lib (sqlite_handle db) sql (sql_world s) = (Inr (st, h), w)" "dbs w = dbs (sql_world s)"
    "stmts w = stmts (sql_world s) \<union> set_option h" "stmts (sql_world s) \<inter> set_option h = {}" "st \<noteq> SQLITE_OK \<longrightarrow> h = None"
    unfolding sqlite_documented_def by metis
  show ?thesis
  proof (cases "st = SQLITE_OK")
    case True
    then show ?thesis using assms(3) new_object_stmt [OF assms(2) p(2-4)]
      by (auto simp: Sqlite_query_def sbind_def checkSqlite_def a a(4) [simplified] in_world_def p(1) pushStmt_def)
  next
    case False
    then show ?thesis using assms(2,3) p
      by (auto simp: Sqlite_query_def sbind_def checkSqlite_def a a(4) [simplified] in_world_def sql_failed_def sql_inv_def)
  qed
qed

lemma db_closed:
  assumes "sqlite_documented lib dbs stmts" and "sql_inv dbs stmts s" and "sql_dbs s i = Some db" and "\<And>e. x = Some e \<Longrightarrow> sqlite_handle e = None"
  shows "\<exists>s1. close_handle lib db s = (Inr (), s1) \<and> sql_dbs s1 = sql_dbs s \<and> sql_inv dbs stmts (s1\<lparr>sql_dbs := (sql_dbs s)(i := x)\<rparr>)"
proof -
  have n: "i < sql_next s" using assms(2,3) by (auto simp: sql_inv_def not_less [symmetric])
  have once: "held_once (sql_dbs s) sqlite_handle" using assms(2) by (simp add: sql_inv_def)
  note d = held_dropped [of "sql_dbs s", OF assms(3) once assms(4)]
  show ?thesis
  proof (cases "sqlite_handle db")
    case None
    then show ?thesis using assms(2) n d by (auto simp: close_handle_def sret_def sql_inv_def)
  next
    case (Some h)
    then have "h \<in> held (sql_dbs s) sqlite_handle" using assms(3) unfolding held_iff by blast
    then have "h \<in> dbs (sql_world s)" using assms(2) by (auto simp: sql_inv_def)
    with assms(1) obtain w where w: "sq_close lib h (sql_world s) = (Inr (), w)" "dbs w = dbs (sql_world s) - {h}" "stmts w = stmts (sql_world s)"
      unfolding sqlite_documented_def by metis
    then show ?thesis using assms(2) n d by (auto simp: close_handle_def Some in_world_def sql_inv_def)
  qed
qed

lemma Sqlite_end_safe:
  assumes "sqlite_documented lib dbs stmts" and "sql_inv dbs stmts s" and "sql_dbs s i = Some db"
  shows "Sqlite_destroy lib i db s = (r, s') \<Longrightarrow> sql_inv dbs stmts s' \<and> r \<noteq> Inl Undefined"
    and "Sqlite_gc lib i db s = (r, s') \<Longrightarrow> sql_inv dbs stmts s' \<and> r \<noteq> Inl Undefined"
  using db_closed [OF assms, of "Some (db\<lparr>sqlite_handle := None\<rparr>)"] db_closed [OF assms, of None]
  by (auto simp: Sqlite_destroy_def Sqlite_gc_def sbind_def smod_def sret_def)

lemma stmt_finalized:
  assumes "sqlite_documented lib dbs stmts" and "sql_inv dbs stmts s" and "sql_stmts s i = Some st" and "\<And>e. x = Some e \<Longrightarrow> stmt_handle e = None"
  shows "\<exists>s1. finalize_handle lib st s = (Inr (), s1) \<and> sql_stmts s1 = sql_stmts s \<and> sql_inv dbs stmts (s1\<lparr>sql_stmts := (sql_stmts s)(i := x)\<rparr>)"
proof -
  have n: "i < sql_next s" using assms(2,3) by (auto simp: sql_inv_def not_less [symmetric])
  have once: "held_once (sql_stmts s) stmt_handle" using assms(2) by (simp add: sql_inv_def)
  note d = held_dropped [of "sql_stmts s", OF assms(3) once assms(4)]
  show ?thesis
  proof (cases "stmt_handle st")
    case None
    then show ?thesis using assms(2) n d by (auto simp: finalize_handle_def sret_def sql_inv_def)
  next
    case (Some h)
    then have "h \<in> stmts (sql_world s)" using assms(2,3) by (auto simp: sql_inv_def held_iff)
    with assms(1) obtain w where w: "sq_finalize lib h (sql_world s) = (Inr (), w)" "stmts w = stmts (sql_world s) - {h}" "dbs w = dbs (sql_world s)"
      unfolding sqlite_documented_def by metis
    then show ?thesis using assms(2) n d by (auto simp: finalize_handle_def Some in_world_def sql_inv_def)
  qed
qed

lemma Stmt_end_safe:
  assumes "sqlite_documented lib dbs stmts" and "sql_inv dbs stmts s" and "sql_stmts s i = Some st"
  shows "Stmt_destroy lib i st s = (r, s') \<Longrightarrow> sql_inv dbs stmts s' \<and> r \<noteq> Inl Undefined"
    and "Stmt_gc lib i st s = (r, s') \<Longrightarrow> sql_inv dbs stmts s' \<and> r \<noteq> Inl Undefined"
  using stmt_finalized [OF assms, of "Some \<lparr>stmt_sqlite = None, stmt_handle = None\<rparr>"] stmt_finalized [OF assms, of None] assms(2)
  by (auto simp: Stmt_destroy_def Stmt_gc_def sbind_def smod_def sret_def split: if_splits)

lemma sql_step_safe:
  assumes "sqlite_documented lib dbs stmts" and "sql_step nums lib s e s'" and "sql_inv dbs stmts s"
  shows "sql_inv dbs stmts s' \<and> e \<noteq> Some Undefined"
  using assms(2,3)
proof cases
  case (step_new args r)
  with Sqlite_new_safe [OF assms(1,3)] show ?thesis by (auto split: sum.split)
next
  case (step_query args r)
  with Sqlite_query_safe [OF assms(1,3)] show ?thesis by (auto split: sum.split)
next
  case (step_next args r)
  then show ?thesis using triple_returnD [OF Stmt_next_safe [OF assms(1)] assms(3)] triple_throwD [OF Stmt_next_safe [OF assms(1)] assms(3)]
    by (cases r) auto
next
  case (step_destroy_db i db r)
  with Sqlite_end_safe(1) [OF assms(1,3) step_destroy_db(2)] show ?thesis by (auto split: sum.split)
next
  case (step_gc_db i db r)
  with Sqlite_end_safe(2) [OF assms(1,3) step_gc_db(2)] show ?thesis by (auto split: sum.split)
next
  case (step_destroy_stmt i st r)
  with Stmt_end_safe(1) [OF assms(1,3) step_destroy_stmt(2)] show ?thesis by (auto split: sum.split)
next
  case (step_gc_stmt i st r)
  with Stmt_end_safe(2) [OF assms(1,3) step_gc_stmt(2)] show ?thesis by (auto split: sum.split)
qed


text \<open>
  The mode of a connection is never looked at: a database that is asked for as read-only is opened for writing, and one to be
  created is not created, unless its file has the name of a mode.
\<close>

theorem mode_ignored:
  assumes "path \<notin> {''RO'', ''CRW''}" and "CHR 0x00 \<notin> set path"
  shows "Sqlite_new nums lib [A_val (LString path), A_val (LString mode)] s = Sqlite_new nums lib [A_val (LString path)] s"
    and "sqlite_flags nums [A_val (LString path), A_val (LString mode)] path = SQLITE_OPEN_READWRITE + SQLITE_OPEN_NOMUTEX"
  using assms by (simp_all add: Sqlite_new_def sqlite_flags_def arg_text_def lua_tostring_def cstring_same)

text \<open>
  A connection that could not be opened is not closed: its handle stays open and no object holds it.
\<close>

theorem failed_open_leaks:
  assumes "sqlite_documented lib dbs stmts" and "sql_inv dbs stmts s" and "arg_text nums a = Some path"
    and "sq_open lib path (sqlite_flags nums [a] path) (sql_world s) = ((st, Some h), w)" and "st \<noteq> SQLITE_OK"
  shows "\<exists>msg s'. Sqlite_new nums lib [a] s = (Inl (LuaError msg), s') \<and> h \<in> dbs (sql_world s') \<and> h \<notin> held (sql_dbs s') sqlite_handle"
proof -
  from assms(1,4) have w: "dbs w = dbs (sql_world s) \<union> {h}" "h \<notin> dbs (sql_world s)" unfolding sqlite_documented_def by (metis disjoint_insert(2) option.simps(15))+
  with assms(2) have "h \<notin> held (sql_dbs s) sqlite_handle" by (auto simp: sql_inv_def)
  with w show ?thesis using assms(3-5) by (auto simp: Sqlite_new_def sbind_def in_world_def sql_failed_def)
qed

section \<open>Values\<close>

text \<open>How SQLite stores a bound value in a column without a type.\<close>

definition stored_value :: "sql_bound \<Rightarrow> sql_column" where
  "stored_value b =
     (case b of
        Bind_int k \<Rightarrow> Col_integer k
      | Bind_double x \<Rightarrow> Col_float x
      | Bind_text t \<Rightarrow> Col_text t
      | Bind_blob t \<Rightarrow> Col_blob t
      | Bind_null \<Rightarrow> Col_null)"

text \<open>
  A value that is bound and read back is the same exactly if it is an integer of 32 bits, a float, nil, or a text that does not
  read as a number.
\<close>

theorem bound_value_back:
  assumes "bound_value nums (A_val v) = Some b"
  shows "column_value (stored_value b) = v \<longleftrightarrow>
    (case v of
       LInteger k \<Rightarrow> - (2 ^ 31) \<le> k \<and> k < 2 ^ 31
     | LString t \<Rightarrow> text_number nums t = None
     | LBoolean _ \<Rightarrow> False
     | _ \<Rightarrow> True)"
proof (cases v)
  case (LInteger k)
  have "to_int32 k = k \<longleftrightarrow> - (2 ^ 31) \<le> k \<and> k < 2 ^ 31"
  proof
    assume e: "to_int32 k = k"
    then have "k + 2 ^ 31 = (k + 2 ^ 31) mod 2 ^ 32" by (simp add: to_int32_def)
    moreover have "0 \<le> (k + 2 ^ 31) mod 2 ^ 32" "(k + 2 ^ 31) mod 2 ^ 32 < 2 ^ 32" by simp_all
    ultimately have "0 \<le> k + 2 ^ 31" "k + 2 ^ 31 < 2 ^ 32" by metis+
    then show "- (2 ^ 31) \<le> k \<and> k < 2 ^ 31" by simp
  qed (simp add: to_int32_def)
  moreover have "to_int32 (to_int32 k) = to_int32 k" by (simp add: to_int32_def)
  ultimately show ?thesis using assms LInteger by (auto simp: bound_value_def stored_value_def column_value_def)
next
  case (LString t)
  with assms show ?thesis
    by (auto simp: bound_value_def stored_value_def column_value_def split: option.splits if_splits)
qed (use assms in \<open>auto simp: bound_value_def stored_value_def column_value_def\<close>)

lemma row_table_get:
  "raw_get (row_table n cs t) (LInteger i) =
     (if int n \<le> i \<and> i < int (n + length cs) then column_value (cs ! nat (i - int n)) else raw_get t (LInteger i))"
proof (induction cs arbitrary: n t)
  case (Cons c cs)
  have "nat (i - int n) = Suc (nat (i - (1 + int n)))" if "int n < i" using that by linarith
  then show ?case by (auto simp: Cons raw_get_set)
qed auto

text \<open>
  A row is a table with the values of the columns from 0 on, and nothing else.
\<close>

theorem row_shown:
  assumes "sql_stmts s i = Some st" and "sq_step lib (stmt_handle st) (sql_world s) = (Inr SQLITE_ROW, w)"
  shows "\<exists>t s'. Stmt_next nums lib [A_stmt i] s = (Inr [LTable t], s') \<and>
    (\<forall>k. raw_get t (LInteger k) =
       (if 0 \<le> k \<and> k < int (length (sq_columns lib (stmt_handle st) w)) then column_value (sq_columns lib (stmt_handle st) w ! nat k) else LNil))"
  using assms by (simp add: Stmt_next_def sbind_def checkStmt_def sret_def in_world_def row_table_get) (simp add: raw_get_def)

section \<open>Witnesses\<close>

text \<open>A library whose state is the lists of its open connections and statements.\<close>

definition plain_sqlite :: "(nat list \<times> nat list) sqlite" where
  "plain_sqlite = \<lparr>sq_open = (\<lambda>path fl (d, t). ((SQLITE_OK, Some (Suc (sum_list d))), (Suc (sum_list d) # d, t))),
     sq_close = (\<lambda>h (d, t). if h \<in> set d then (Inr (), (removeAll h d, t)) else (Inl Undefined, (d, t))),
     sq_errmsg = (\<lambda>h w. ''error''),
     sq_prepare = (\<lambda>h sql (d, t). if h = None then (Inr (21, None), (d, t))
        else (Inr (SQLITE_OK, Some (Suc (sum_list t))), (d, Suc (sum_list t) # t))),
     sq_finalize = (\<lambda>h (d, t). if h \<in> set t then (Inr (), (d, removeAll h t)) else (Inl Undefined, (d, t))),
     sq_reset = (\<lambda>h w. (Inr SQLITE_OK, w)), sq_clear_bindings = (\<lambda>h w. (Inr SQLITE_OK, w)),
     sq_bind = (\<lambda>h i b w. (Inr SQLITE_OK, w)), sq_step = (\<lambda>h w. (Inr SQLITE_DONE, w)), sq_columns = (\<lambda>h w. []),
     sq_sql = (\<lambda>h w. Some ''SELECT'')\<rparr>"

lemma sum_list_new: "Suc (sum_list d) \<notin> set d"
  using member_le_sum_list [of "Suc (sum_list d)" d] by auto

lemma plain_documented: "sqlite_documented plain_sqlite (\<lambda>w. set (fst w)) (\<lambda>w. set (snd w))"
  by (auto simp: sqlite_documented_def plain_sqlite_def uses_stmt_def sum_list_new)


end
