(* ===== verification/MemTiff.thy ===== *)
theory MemTiff
  imports Prelude
begin

text \<open>
  The file in memory into which a TIFF image is written that goes to a client, the functions \<open>memTiff...\<close> of
  \<open>handlers/iiifhandler/imgformats/IIIFIOTiff.cpp\<close> that libtiff calls, and that it is a file, but for the seeking from its end. Bytes of a new
  block of memory are \<open>None\<close> until they are written: they are whatever the memory held before. Offsets are of 64 bits and wrap.
\<close>

section \<open>The buffer\<close>

record memtiff =
  mt_data :: "char option list"
  mt_incsiz :: nat
  mt_flen :: nat
  mt_fptr :: nat

abbreviation mt_size :: "memtiff \<Rightarrow> nat" where
  "mt_size m \<equiv> length (mt_data m)"

definition malloc_failed :: exn where "malloc_failed = CsError ''malloc failed''"
definition realloc_failed :: exn where "realloc_failed = CsError ''realloc failed''"

text \<open>The argument \<open>mem\<close> says how much memory there is.\<close>

definition memTiffOpen :: "nat \<Rightarrow> nat \<Rightarrow> nat \<Rightarrow> exn + memtiff" where
  "memTiffOpen mem incsiz initsiz =
     (let n = (if initsiz = 0 then incsiz else initsiz) in
      if n > mem then Inl malloc_failed
      else Inr \<lparr>mt_data = replicate n None, mt_incsiz = incsiz, mt_flen = 0, mt_fptr = 0\<rparr>)"

text \<open>\<open>realloc\<close> keeps what is there; after a failure the block is freed, and its pointer is left as it is.\<close>

definition grow :: "nat \<Rightarrow> nat \<Rightarrow> (memtiff, unit) act" where
  "grow mem n m =
     (if n > mem then (Inl realloc_failed, m\<lparr>mt_data := []\<rparr>)
      else (Inr (), m\<lparr>mt_data := take n (mt_data m) @ replicate (n - mt_size m) None\<rparr>))"

definition u64 :: "nat \<Rightarrow> nat" where
  "u64 n = n mod 2 ^ 64"

definition memTiffReadProc :: "nat \<Rightarrow> (memtiff, char option list) act" where
  "memTiffReadProc len m =
     (let n = (if mt_fptr m + len \<le> mt_flen m then int len else int (mt_flen m) - int (mt_fptr m)) in
      if n < 0 \<or> mt_fptr m + nat n > mt_size m then (Inl Undefined, m)
      else (Inr (take (nat n) (drop (mt_fptr m) (mt_data m))), m\<lparr>mt_fptr := mt_fptr m + nat n\<rparr>))"

definition set_fptr :: "nat \<Rightarrow> (memtiff, unit) act" where
  "set_fptr p m = (Inr (), m\<lparr>mt_fptr := p\<rparr>)"

definition extend_flen :: "(memtiff, unit) act" where
  "extend_flen m = (Inr (), m\<lparr>mt_flen := max (mt_flen m) (mt_fptr m)\<rparr>)"

definition put_bytes :: "char list \<Rightarrow> (memtiff, unit) act" where
  "put_bytes buf m =
     (if mt_fptr m + length buf > mt_size m then (Inl Undefined, m)
      else (Inr (), m\<lparr>mt_data := take (mt_fptr m) (mt_data m) @ map Some buf @ drop (mt_fptr m + length buf) (mt_data m),
                      mt_fptr := mt_fptr m + length buf\<rparr>))"

definition memTiffWriteProc :: "nat \<Rightarrow> char list \<Rightarrow> (memtiff, nat) act" where
  "memTiffWriteProc mem buf =
     swith mt_fptr (\<lambda>p. swith mt_incsiz (\<lambda>inc.
       sbind (swhen (\<lambda>m. u64 (p + length buf) > mt_size m) (grow mem (u64 (p + inc + length buf)))) (\<lambda>_.
       sbind (put_bytes buf) (\<lambda>_.
       sbind extend_flen (\<lambda>_. sret (length buf))))))"

datatype seek_whence = SEEK_SET | SEEK_CUR | SEEK_END

definition memTiffSeekProc :: "nat \<Rightarrow> nat \<Rightarrow> seek_whence \<Rightarrow> (memtiff, nat) act" where
  "memTiffSeekProc mem off whence =
     sbind (swith (\<lambda>m. m) (\<lambda>m.
       case whence of
         SEEK_SET \<Rightarrow>
           sbind (swhen (\<lambda>_. off > mt_size m) (grow mem (u64 (mt_size m + mt_incsiz m + off)))) (\<lambda>_. set_fptr off)
       | SEEK_CUR \<Rightarrow>
           sbind (swhen (\<lambda>_. u64 (mt_fptr m + off) > mt_size m) (grow mem (u64 (mt_fptr m + mt_incsiz m + off))))
             (\<lambda>_. set_fptr (u64 (mt_fptr m + off)))
       | SEEK_END \<Rightarrow>
           sbind (swhen (\<lambda>_. u64 (mt_size m + off) > mt_size m) (grow mem (u64 (mt_size m + mt_incsiz m + off))))
             (\<lambda>_. swith mt_data (\<lambda>d. set_fptr (u64 (length d + off)))))) (\<lambda>_.
     sbind extend_flen (\<lambda>_. sget mt_fptr))"

definition memTiffCloseProc :: "(memtiff, int) act" where
  "memTiffCloseProc = sbind (set_fptr 0) (\<lambda>_. sret 0)"

definition memTiffSizeProc :: "(memtiff, nat) act" where
  "memTiffSizeProc = sget mt_flen"

text \<open>What is sent in the end are the first \<open>flen\<close> bytes, which \<open>memTiffMapProc\<close> shows to libtiff as well.\<close>

definition memTiffMapProc :: "(memtiff, char option list) act" where
  "memTiffMapProc = sget (\<lambda>m. take (mt_flen m) (mt_data m))"

section \<open>What a file promises\<close>

text \<open>
  A file is its bytes and a position. A position behind the end fills the bytes up to it, which are not defined until written.
\<close>

record plain_file =
  pf_bytes :: "char option list"
  pf_pos :: nat

definition pf_write :: "char list \<Rightarrow> plain_file \<Rightarrow> plain_file" where
  "pf_write buf f = \<lparr>pf_bytes = take (pf_pos f) (pf_bytes f) @ map Some buf @ drop (pf_pos f + length buf) (pf_bytes f),
     pf_pos = pf_pos f + length buf\<rparr>"

definition pf_seek :: "nat \<Rightarrow> plain_file \<Rightarrow> plain_file" where
  "pf_seek p f = \<lparr>pf_bytes = pf_bytes f @ replicate (p - length (pf_bytes f)) None, pf_pos = p\<rparr>"

definition file_of :: "memtiff \<Rightarrow> plain_file" where
  "file_of m = \<lparr>pf_bytes = take (mt_flen m) (mt_data m), pf_pos = mt_fptr m\<rparr>"

section \<open>The buffer is a file\<close>

definition mt_ok :: "memtiff \<Rightarrow> bool" where
  "mt_ok m \<longleftrightarrow> mt_fptr m \<le> mt_flen m \<and> mt_flen m \<le> mt_size m \<and> mt_size m < 2 ^ 61 \<and> mt_incsiz m < 2 ^ 60 \<and>
     drop (mt_flen m) (mt_data m) = replicate (mt_size m - mt_flen m) None"

lemma u64_small: "n < 2 ^ 64 \<Longrightarrow> u64 n = n"
  by (simp add: u64_def)

lemma mt_ok_bounds:
  assumes "mt_ok m"
  shows "mt_fptr m < 2 ^ 61" "mt_size m < 2 ^ 61" "mt_incsiz m < 2 ^ 60"
  using assms by (auto simp: mt_ok_def)

lemma read_refines:
  assumes "mt_ok m"
  shows "\<exists>m'. memTiffReadProc len m = (Inr (take len (drop (pf_pos (file_of m)) (pf_bytes (file_of m)))), m') \<and> mt_ok m' \<and>
    file_of m' = (file_of m)\<lparr>pf_pos := min (pf_pos (file_of m) + len) (length (pf_bytes (file_of m)))\<rparr>"
proof (cases "mt_fptr m + len \<le> mt_flen m")
  case True
  then show ?thesis using assms
    by (auto simp: memTiffReadProc_def file_of_def mt_ok_def Let_def drop_take take_take min_def)
next
  case False
  then have "nat (int (mt_flen m) - int (mt_fptr m)) = mt_flen m - mt_fptr m" by simp
  then show ?thesis using assms False
    by (auto simp: memTiffReadProc_def file_of_def mt_ok_def Let_def drop_take take_take min_def)
qed

lemma write_refines:
  assumes "mt_ok m" and "length buf < 2 ^ 60" and "mem < 2 ^ 61" and "memTiffWriteProc mem buf m = (r, m')"
  shows "case r of Inl e \<Rightarrow> e = realloc_failed | Inr n \<Rightarrow> n = length buf \<and> mt_ok m' \<and> file_of m' = pf_write buf (file_of m)"
proof -
  note b = mt_ok_bounds [OF assms(1)]
  have u: "u64 (mt_fptr m + length buf) = mt_fptr m + length buf"
    "u64 (mt_fptr m + mt_incsiz m + length buf) = mt_fptr m + mt_incsiz m + length buf"
    using b assms(2) by (simp_all add: u64_small)
  have f: "mt_fptr m \<le> mt_flen m" "mt_flen m \<le> mt_size m" using assms(1) by (auto simp: mt_ok_def)
  show ?thesis
  proof (cases "mt_fptr m + length buf > mt_size m \<and> mt_fptr m + mt_incsiz m + length buf > mem")
    case True
    then show ?thesis using assms(4) by (auto simp: memTiffWriteProc_def act_defs u grow_def)
  next
    case False
    have rest: "drop (mt_flen m) (mt_data m) = replicate (mt_size m - mt_flen m) None" using assms(1) by (simp add: mt_ok_def)
    obtain d where d: "mt_fptr m + length buf \<le> length d" "take (mt_flen m) d = take (mt_flen m) (mt_data m)" "length d < 2 ^ 61"
      "drop (mt_flen m) d = replicate (length d - mt_flen m) None"
      "memTiffWriteProc mem buf m = sbind (put_bytes buf) (\<lambda>_. sbind extend_flen (\<lambda>_. sret (length buf))) (m\<lparr>mt_data := d\<rparr>)"
    proof (cases "mt_fptr m + length buf > mt_size m")
      case True
      show thesis
        by (rule that [of "take (mt_fptr m + mt_incsiz m + length buf) (mt_data m) @ replicate (mt_fptr m + mt_incsiz m + length buf - mt_size m) None"])
          (use True False f assms(3) rest in \<open>auto simp: memTiffWriteProc_def act_defs u grow_def min_def drop_take replicate_add [symmetric]\<close>)
    next
      case False
      show thesis by (rule that [of "mt_data m"]) (use False f b rest in \<open>auto simp: memTiffWriteProc_def act_defs u\<close>)
    qed
    have "r = Inr (length buf)" and m': "m' = m\<lparr>mt_data := take (mt_fptr m) d @ map Some buf @ drop (mt_fptr m + length buf) d,
        mt_fptr := mt_fptr m + length buf, mt_flen := max (mt_flen m) (mt_fptr m + length buf)\<rparr>"
      using assms(4) d(1,5) by (auto simp: act_defs put_bytes_def extend_flen_def)
    moreover have "mt_flen m \<le> length d" using arg_cong [OF d(2), of length] f by auto
    moreover have "file_of m' = pf_write buf (file_of m)"
    proof -
      have "take (mt_fptr m) d = take (mt_fptr m) (mt_data m)" using d(2) f by (metis min.absorb1 take_take)
      moreover have "drop (mt_fptr m + length buf) (take (mt_flen m) d) = drop (mt_fptr m + length buf) (take (mt_flen m) (mt_data m))" using d(2) by simp
      ultimately show ?thesis using f d(1)
        by (auto simp: m' file_of_def pf_write_def drop_take take_take min_def max_def)
    qed
    moreover have "drop (mt_flen m') (mt_data m') = replicate (mt_size m' - mt_flen m') None"
    proof -
      let ?q = "mt_fptr m + length buf"
      have "drop (mt_flen m') (mt_data m') = drop (max (mt_flen m) ?q) d" using d(1) by (auto simp: m' max_def)
      also have "\<dots> = drop (max (mt_flen m) ?q - mt_flen m) (drop (mt_flen m) d)" by simp
      also have "\<dots> = replicate (length d - max (mt_flen m) ?q) None" unfolding d(4) by simp
      finally show ?thesis using d(1) by (simp add: m')
    qed
    ultimately show ?thesis using d(1,3) b by (auto simp: mt_ok_def)
  qed
qed

lemma moved_to:
  assumes "mt_ok m" and "p \<le> length d" and "length d < 2 ^ 61" and "take (mt_flen m) d = take (mt_flen m) (mt_data m)"
    and "drop (mt_flen m) d = replicate (length d - mt_flen m) None"
  shows "mt_ok (m\<lparr>mt_data := d, mt_fptr := p, mt_flen := max (mt_flen m) p\<rparr>) \<and>
    file_of (m\<lparr>mt_data := d, mt_fptr := p, mt_flen := max (mt_flen m) p\<rparr>) = pf_seek p (file_of m)"
proof -
  have f: "mt_flen m \<le> mt_size m" using assms(1) by (simp add: mt_ok_def)
  then have l: "mt_flen m \<le> length d" using arg_cong [OF assms(4), of length] by auto
  have "drop (max (mt_flen m) p) d = drop (max (mt_flen m) p - mt_flen m) (drop (mt_flen m) d)" by simp
  also have "\<dots> = replicate (length d - max (mt_flen m) p) None" unfolding assms(5) by simp
  finally have "mt_ok (m\<lparr>mt_data := d, mt_fptr := p, mt_flen := max (mt_flen m) p\<rparr>)" using assms l by (auto simp: mt_ok_def)
  moreover have "take (max (mt_flen m) p) d = take (mt_flen m) d @ take (max (mt_flen m) p - mt_flen m) (drop (mt_flen m) d)"
    by (metis le_add_diff_inverse max.cobounded1 take_add)
  then have "take (max (mt_flen m) p) d = take (mt_flen m) (mt_data m) @ replicate (p - mt_flen m) None"
    unfolding assms(5) using assms(2) l by (simp add: assms(4) max_def min_def)
  ultimately show ?thesis using f by (simp add: file_of_def pf_seek_def)
qed

lemma seek_to:
  assumes "mt_ok m" and "mem < 2 ^ 61" and "p > mt_size m \<longrightarrow> p \<le> n" and "n < 2 ^ 64"
    and "sbind (sbind (swhen (\<lambda>_. p > mt_size m) (grow mem n)) (\<lambda>_. set_fptr p)) (\<lambda>_. sbind extend_flen (\<lambda>_. sget mt_fptr)) m = (r, m')"
  shows "case r of Inl e \<Rightarrow> e = realloc_failed | Inr k \<Rightarrow> k = p \<and> mt_ok m' \<and> file_of m' = pf_seek p (file_of m)"
proof (cases "p > mt_size m")
  case True
  let ?d = "mt_data m @ replicate (n - mt_size m) None"
  have f: "mt_flen m \<le> mt_size m" "drop (mt_flen m) (mt_data m) = replicate (mt_size m - mt_flen m) None"
    using assms(1) by (auto simp: mt_ok_def)
  show ?thesis
  proof (cases "n > mem")
    case False
    then have "mt_ok (m\<lparr>mt_data := ?d, mt_fptr := p, mt_flen := max (mt_flen m) p\<rparr>) \<and>
        file_of (m\<lparr>mt_data := ?d, mt_fptr := p, mt_flen := max (mt_flen m) p\<rparr>) = pf_seek p (file_of m)"
      using True assms(2,3) f by (intro moved_to assms(1)) (auto simp: replicate_add [symmetric])
    moreover have "r = Inr p" "m' = m\<lparr>mt_data := ?d, mt_fptr := p, mt_flen := max (mt_flen m) p\<rparr>"
      using assms(3,5) True False by (auto simp: act_defs grow_def set_fptr_def extend_flen_def)
    ultimately show ?thesis by simp
  qed (use assms(5) True in \<open>auto simp: act_defs grow_def\<close>)
next
  case False
  have "mt_ok (m\<lparr>mt_data := mt_data m, mt_fptr := p, mt_flen := max (mt_flen m) p\<rparr>) \<and>
      file_of (m\<lparr>mt_data := mt_data m, mt_fptr := p, mt_flen := max (mt_flen m) p\<rparr>) = pf_seek p (file_of m)"
    using assms(1) False by (intro moved_to) (auto simp: mt_ok_def)
  moreover have "r = Inr p" "m' = m\<lparr>mt_data := mt_data m, mt_fptr := p, mt_flen := max (mt_flen m) p\<rparr>"
    using assms(5) False by (auto simp: act_defs set_fptr_def extend_flen_def)
  ultimately show ?thesis by simp
qed

lemma seek_refines:
  assumes "mt_ok m" and "mem < 2 ^ 61" and "off < 2 ^ 60"
  shows "memTiffSeekProc mem off SEEK_SET m = (r, m') \<Longrightarrow>
      case r of Inl e \<Rightarrow> e = realloc_failed | Inr k \<Rightarrow> k = off \<and> mt_ok m' \<and> file_of m' = pf_seek off (file_of m)"
    and "memTiffSeekProc mem off SEEK_CUR m = (r, m') \<Longrightarrow>
      case r of Inl e \<Rightarrow> e = realloc_failed
      | Inr k \<Rightarrow> k = mt_fptr m + off \<and> mt_ok m' \<and> file_of m' = pf_seek (mt_fptr m + off) (file_of m)"
proof -
  note b = mt_ok_bounds [OF assms(1)]
  have u: "u64 (mt_size m + mt_incsiz m + off) = mt_size m + mt_incsiz m + off" "u64 (mt_fptr m + off) = mt_fptr m + off"
    "u64 (mt_fptr m + mt_incsiz m + off) = mt_fptr m + mt_incsiz m + off"
    using b assms(3) by (simp_all add: u64_small)
  show "case r of Inl e \<Rightarrow> e = realloc_failed | Inr k \<Rightarrow> k = off \<and> mt_ok m' \<and> file_of m' = pf_seek off (file_of m)"
    if "memTiffSeekProc mem off SEEK_SET m = (r, m')"
  proof (rule seek_to [OF assms(1,2), of off "mt_size m + mt_incsiz m + off"])
    show "sbind (sbind (swhen (\<lambda>_. off > mt_size m) (grow mem (mt_size m + mt_incsiz m + off))) (\<lambda>_. set_fptr off))
        (\<lambda>_. sbind extend_flen (\<lambda>_. sget mt_fptr)) m = (r, m')"
      using that unfolding memTiffSeekProc_def swith_def sbind_def seek_whence.case u by simp
  qed (use b assms(3) in auto)
  show "case r of Inl e \<Rightarrow> e = realloc_failed
      | Inr k \<Rightarrow> k = mt_fptr m + off \<and> mt_ok m' \<and> file_of m' = pf_seek (mt_fptr m + off) (file_of m)"
    if "memTiffSeekProc mem off SEEK_CUR m = (r, m')"
  proof (rule seek_to [OF assms(1,2), of "mt_fptr m + off" "mt_fptr m + mt_incsiz m + off"])
    show "sbind (sbind (swhen (\<lambda>_. mt_fptr m + off > mt_size m) (grow mem (mt_fptr m + mt_incsiz m + off))) (\<lambda>_. set_fptr (mt_fptr m + off)))
        (\<lambda>_. sbind extend_flen (\<lambda>_. sget mt_fptr)) m = (r, m')"
      using that unfolding memTiffSeekProc_def swith_def sbind_def seek_whence.case u by simp
  qed (use b assms(3) in auto)
qed

section \<open>Sequences of operations\<close>

datatype mt_op = Mt_read nat | Mt_write "char list" | Mt_set nat | Mt_cur nat

datatype mt_result = Got "char option list" | At nat

definition mt_do :: "nat \<Rightarrow> mt_op \<Rightarrow> (memtiff, mt_result) act" where
  "mt_do mem op =
     (case op of
        Mt_read n \<Rightarrow> sbind (memTiffReadProc n) (\<lambda>b. sret (Got b))
      | Mt_write buf \<Rightarrow> sbind (memTiffWriteProc mem buf) (\<lambda>n. sret (At n))
      | Mt_set off \<Rightarrow> sbind (memTiffSeekProc mem off SEEK_SET) (\<lambda>n. sret (At n))
      | Mt_cur off \<Rightarrow> sbind (memTiffSeekProc mem off SEEK_CUR) (\<lambda>n. sret (At n)))"

fun mt_run :: "nat \<Rightarrow> mt_op list \<Rightarrow> (memtiff, mt_result list) act" where
  "mt_run mem [] = sret []"
| "mt_run mem (op # ops) = sbind (mt_do mem op) (\<lambda>r. sbind (mt_run mem ops) (\<lambda>rs. sret (r # rs)))"

definition pf_do :: "mt_op \<Rightarrow> plain_file \<Rightarrow> mt_result \<times> plain_file" where
  "pf_do op f =
     (case op of
        Mt_read n \<Rightarrow> (Got (take n (drop (pf_pos f) (pf_bytes f))), f\<lparr>pf_pos := min (pf_pos f + n) (length (pf_bytes f))\<rparr>)
      | Mt_write buf \<Rightarrow> (At (length buf), pf_write buf f)
      | Mt_set off \<Rightarrow> (At off, pf_seek off f)
      | Mt_cur off \<Rightarrow> (At (pf_pos f + off), pf_seek (pf_pos f + off) f))"

fun pf_run :: "mt_op list \<Rightarrow> plain_file \<Rightarrow> mt_result list \<times> plain_file" where
  "pf_run [] f = ([], f)"
| "pf_run (op # ops) f = (case pf_do op f of (r, f1) \<Rightarrow> (case pf_run ops f1 of (rs, f2) \<Rightarrow> (r # rs, f2)))"

definition mt_small :: "mt_op \<Rightarrow> bool" where
  "mt_small op = (case op of Mt_read n \<Rightarrow> True | Mt_write buf \<Rightarrow> length buf < 2 ^ 60 | Mt_set off \<Rightarrow> off < 2 ^ 60 | Mt_cur off \<Rightarrow> off < 2 ^ 60)"

lemma mt_do_refines:
  assumes "mt_ok m" and "mem < 2 ^ 61" and "mt_small op" and "mt_do mem op m = (r, m')"
  shows "case r of Inl e \<Rightarrow> e = realloc_failed | Inr x \<Rightarrow> mt_ok m' \<and> pf_do op (file_of m) = (x, file_of m')"
proof (cases op)
  case (Mt_read n)
  with read_refines [OF assms(1), of n] assms(4) show ?thesis by (auto simp: mt_do_def pf_do_def act_defs)
next
  case (Mt_write buf)
  obtain q m1 where "memTiffWriteProc mem buf m = (q, m1)" by fastforce
  with write_refines [OF assms(1) _ assms(2) this] Mt_write assms(3,4) show ?thesis
    by (cases q) (auto simp: mt_do_def pf_do_def act_defs mt_small_def)
next
  case (Mt_set off)
  obtain q m1 where "memTiffSeekProc mem off SEEK_SET m = (q, m1)" by fastforce
  with seek_refines(1) [OF assms(1,2) _ this] Mt_set assms(3,4) show ?thesis
    by (cases q) (auto simp: mt_do_def pf_do_def act_defs mt_small_def)
next
  case (Mt_cur off)
  obtain q m1 where "memTiffSeekProc mem off SEEK_CUR m = (q, m1)" by fastforce
  with seek_refines(2) [OF assms(1,2) _ this] Mt_cur assms(3,4) show ?thesis
    by (cases q) (auto simp: mt_do_def pf_do_def act_defs mt_small_def file_of_def)
qed

text \<open>
  C28: Over any sequence of reading, writing and seeking from the begin or the position, the buffer is a file: every result and, in the end,
  the bytes that are sent are those of the file; all that can go wrong is that there is no memory.
\<close>

theorem memtiff_refines:
  assumes "memTiffOpen mem incsiz initsiz = Inr m0" and "incsiz < 2 ^ 60" and "mem < 2 ^ 61" and "\<forall>op \<in> set ops. mt_small op"
    and "mt_run mem ops m0 = (r, m)"
  shows "case r of Inl e \<Rightarrow> e = realloc_failed
    | Inr rs \<Rightarrow> pf_run ops \<lparr>pf_bytes = [], pf_pos = 0\<rparr> = (rs, file_of m) \<and> memTiffMapProc m = (Inr (pf_bytes (file_of m)), m)"
proof -
  have run: "case q of Inl e \<Rightarrow> e = realloc_failed | Inr rs \<Rightarrow> pf_run ops (file_of m1) = (rs, file_of m2)"
    if "mt_ok m1" "mt_run mem ops m1 = (q, m2)" for m1 q m2
    using assms(4) that
  proof (induction ops arbitrary: m1 q m2)
    case Nil
    then show ?case by (auto simp: sret_def)
  next
    case (Cons op ops)
    obtain x m3 where d: "mt_do mem op m1 = (x, m3)" by fastforce
    note r = mt_do_refines [OF Cons.prems(2) assms(3) _ d]
    show ?case
    proof (cases x)
      case (Inl e)
      with d r Cons.prems show ?thesis by (auto simp: act_defs)
    next
      case (Inr y)
      obtain z m4 where t: "mt_run mem ops m3 = (z, m4)" by fastforce
      from Inr r Cons.prems(1) have y: "mt_ok m3" "pf_do op (file_of m1) = (y, file_of m3)" by auto
      from Cons.IH [OF _ y(1) t] Cons.prems(1,3) d t y(2) Inr show ?thesis by (cases z) (auto simp: act_defs)
    qed
  qed
  have "mt_ok m0" "file_of m0 = \<lparr>pf_bytes = [], pf_pos = 0\<rparr>"
    using assms(1-3) by (auto simp: memTiffOpen_def mt_ok_def file_of_def Let_def split: if_splits)
  from run [OF this(1) assms(5)] this(2) show ?thesis by (cases r) (auto simp: memTiffMapProc_def act_defs file_of_def)
qed

text \<open>
  Seeking from the end does not go to the end of the file but to that of the memory: after a file was begun, seeking to its end leaves
  a gap of bytes that were never written, and these are sent with the file.
\<close>

theorem seek_end_leaves_gap:
  assumes "memTiffOpen mem 10240 10240 = Inr m0" and "length buf \<le> 10240" and "memTiffWriteProc mem buf m0 = (Inr n, m1)"
  shows "\<exists>m2. memTiffSeekProc mem 0 SEEK_END m1 = (Inr 10240, m2) \<and>
    memTiffMapProc m2 = (Inr (map Some buf @ replicate (10240 - length buf) None), m2)"
proof -
  have m0: "m0 = \<lparr>mt_data = replicate 10240 None, mt_incsiz = 10240, mt_flen = 0, mt_fptr = 0\<rparr>"
    using assms(1) by (simp add: memTiffOpen_def split: if_splits)
  have u: "u64 (length buf) = length buf" using assms(2) by (simp add: u64_small)
  have "m1 = \<lparr>mt_data = map Some buf @ replicate (10240 - length buf) None, mt_incsiz = 10240, mt_flen = length buf, mt_fptr = length buf\<rparr>"
    using assms(2,3) by (auto simp: memTiffWriteProc_def act_defs m0 u put_bytes_def extend_flen_def)
  then show ?thesis using assms(2)
    by (simp add: memTiffSeekProc_def memTiffMapProc_def act_defs set_fptr_def extend_flen_def u64_def max_def)
qed

section \<open>Witnesses\<close>

lemma memtiff_refines_witness:
  "\<exists>m0 m rs. memTiffOpen 100 10 10 = Inr m0 \<and> mt_run 100 [Mt_write ''abc'', Mt_set 1, Mt_read 5] m0 = (Inr rs, m) \<and>
     pf_run [Mt_write ''abc'', Mt_set 1, Mt_read 5] \<lparr>pf_bytes = [], pf_pos = 0\<rparr> = (rs, file_of m) \<and>
     memTiffMapProc m = (Inr (pf_bytes (file_of m)), m)"
proof -
  define m0 where "m0 = \<lparr>mt_data = replicate 10 None, mt_incsiz = 10, mt_flen = 0, mt_fptr = 0\<rparr>"
  have o: "memTiffOpen 100 10 10 = Inr m0" by (simp add: memTiffOpen_def m0_def)
  have w: "memTiffWriteProc 100 ''abc'' m0 =
      (Inr 3, \<lparr>mt_data = map Some ''abc'' @ replicate 7 None, mt_incsiz = 10, mt_flen = 3, mt_fptr = 3\<rparr>)"
    by (simp add: memTiffWriteProc_def m0_def act_defs u64_def put_bytes_def extend_flen_def)
  have "memTiffSeekProc 100 1 SEEK_SET \<lparr>mt_data = map Some ''abc'' @ replicate 7 None, mt_incsiz = 10, mt_flen = 3, mt_fptr = 3\<rparr> =
      (Inr 1, \<lparr>mt_data = map Some ''abc'' @ replicate 7 None, mt_incsiz = 10, mt_flen = 3, mt_fptr = 1\<rparr>)"
    by (simp add: memTiffSeekProc_def act_defs set_fptr_def extend_flen_def)
  moreover obtain b m1 where "memTiffReadProc 5 \<lparr>mt_data = map Some ''abc'' @ replicate 7 None, mt_incsiz = 10, mt_flen = 3, mt_fptr = 1\<rparr> = (Inr b, m1)"
    by (simp add: memTiffReadProc_def)
  ultimately have r: "mt_run 100 [Mt_write ''abc'', Mt_set 1, Mt_read 5] m0 = (Inr [At 3, At 1, Got b], m1)"
    by (simp only: mt_run.simps mt_do_def mt_op.case w act_defs prod.case sum.case)
  from memtiff_refines [OF o _ _ _ r] o r show ?thesis by (auto simp: mt_small_def)
qed

end
