(* ===== verification/Samples.thy ===== *)
theory Samples
  imports Raster
begin

text \<open>
  The samples of 1, 4 and 12 bits of a line of a TIFF file as bytes and 16 bit numbers, in \<open>handlers/iiifhandler/IIIFImgTools.h\<close>, and
  that they are what was packed. Lengths are far below \<open>2^32\<close>, where the index of the loops would wrap.
\<close>

unbundle bit_operations_syntax

section \<open>The loops\<close>

definition one2eight :: "nat list \<Rightarrow> nat list \<Rightarrow> nat \<Rightarrow> nat \<Rightarrow> nat \<Rightarrow> exn + nat list" where
  "one2eight inp out len black white =
     for_each (\<lambda>ii. for_each (\<lambda>k out.
         case get_at inp ii of
           Inl e \<Rightarrow> Inl e
         | Inr v \<Rightarrow> put_at (8 * ii + k) (if bit_at v k then white else black) out)
       [0..<min 8 (len - 8 * ii)]) [0..<(len + 7) div 8] out"

definition put_two :: "nat \<Rightarrow> nat \<Rightarrow> (nat \<Rightarrow> exn + nat) \<Rightarrow> (nat \<Rightarrow> exn + nat) \<Rightarrow> nat list \<Rightarrow> exn + nat list" where
  "put_two len p first second out =
     (case first p of
        Inl e \<Rightarrow> Inl e
      | Inr v \<Rightarrow>
          (case put_at (2 * p) v out of
             Inl e \<Rightarrow> Inl e
           | Inr out1 \<Rightarrow>
               if 2 * p + 1 < len then (case second p of Inl e \<Rightarrow> Inl e | Inr w \<Rightarrow> put_at (2 * p + 1) w out1) else Inr out1))"

definition four2eight :: "nat list \<Rightarrow> nat list \<Rightarrow> nat \<Rightarrow> bool \<Rightarrow> exn + nat list" where
  "four2eight inp out len is_palette =
     for_each (\<lambda>p. put_two len p
         (\<lambda>ii. case get_at inp ii of Inl e \<Rightarrow> Inl e
            | Inr v \<Rightarrow> Inr (if is_palette then drop_bit 4 (v AND 0xF0) else v AND 0xF0))
         (\<lambda>ii. case get_at inp ii of Inl e \<Rightarrow> Inl e
            | Inr v \<Rightarrow> Inr (if is_palette then v AND 0x0F else push_bit 4 (v AND 0x0F))))
       [0..<(len + 1) div 2] out"

definition twelve2sixteen :: "nat list \<Rightarrow> nat list \<Rightarrow> nat \<Rightarrow> bool \<Rightarrow> exn + nat list" where
  "twelve2sixteen inp out len is_palette =
     for_each (\<lambda>p. put_two len p
         (\<lambda>p. case get_at inp (3 * p) of Inl e \<Rightarrow> Inl e
            | Inr a \<Rightarrow>
                (case get_at inp (3 * p + 1) of Inl e \<Rightarrow> Inl e
                 | Inr b \<Rightarrow> Inr (if is_palette then push_bit 4 a OR drop_bit 4 (b AND 0xF0) else push_bit 8 a OR (b AND 0xF0))))
         (\<lambda>p. case get_at inp (3 * p + 1) of Inl e \<Rightarrow> Inl e
            | Inr b \<Rightarrow>
                (case get_at inp (3 * p + 2) of Inl e \<Rightarrow> Inl e
                 | Inr c \<Rightarrow> Inr (if is_palette then push_bit 8 (b AND 0x0F) OR c else push_bit 12 (b AND 0x0F) OR push_bit 4 c))))
       [0..<(len + 1) div 2] out"

section \<open>Bits of bytes\<close>

lemma push_or: "y < 2 ^ n \<Longrightarrow> push_bit n x OR y = x * 2 ^ n + y" for x y :: nat
proof -
  assume "y < 2 ^ n"
  then have "take_bit n y = y" by (simp add: take_bit_nat_eq_self)
  then have "push_bit n x AND y = 0" by (metis (no_types, lifting) bit_eqI bit_0_eq bit_and_iff bit_push_bit_iff bit_take_bit_iff bot_apply not_less bot_bool_def)
  then have "push_bit n x + y = push_bit n x OR y" by (rule disjunctive_add_eq_or)
  then show ?thesis by (simp add: push_bit_eq_mult)
qed

lemma high_nibble: "v < 256 \<Longrightarrow> v AND 0xF0 = 16 * (v div 16)" for v :: nat
proof -
  assume "v < 256"
  then have v: "take_bit 8 v = v" by (simp add: take_bit_nat_eq_self)
  have "v AND 0xF0 = take_bit 8 v AND push_bit 4 (mask 4)" by (simp add: v mask_eq_exp_minus_1)
  also have "\<dots> = push_bit 4 (drop_bit 4 (take_bit 8 v))"
    by (rule bit_eqI) (auto simp: bit_simps)
  finally show ?thesis by (simp add: v push_bit_eq_mult drop_bit_eq_div)
qed

lemma low_nibble: "v AND 0x0F = v mod 16" for v :: nat
proof -
  have "v AND 0x0F = v AND mask 4" by (simp add: mask_eq_exp_minus_1)
  then show ?thesis by (simp add: take_bit_eq_mod flip: take_bit_eq_mask)
qed

section \<open>What the loops compute\<close>

lemma put_two_loop:
  assumes "\<And>p. 2 * p < len \<Longrightarrow> f p = Inr (target ! (2 * p))" and "\<And>p. 2 * p + 1 < len \<Longrightarrow> g p = Inr (target ! (2 * p + 1))"
    and "length target = len" and "len \<le> length out"
  shows "for_each (\<lambda>p. put_two len p f g) [0..<(len + 1) div 2] out = Inr (target @ drop len out)"
proof -
  let ?t = "target @ drop len out"
  have l: "length ?t = length out" using assms(3,4) by simp
  have "for_each (\<lambda>p. put_two len p f g) [0..<(len + 1) div 2] (filled ?t out (min len (2 * 0))) =
      Inr (filled ?t out (min len (2 * ((len + 1) div 2))))"
  proof (rule for_range)
    fix p
    assume "p < (len + 1) div 2"
    then have p: "2 * p < len" by linarith
    then have n: "?t ! (2 * p) = target ! (2 * p)" by (simp add: nth_append assms(3))
    have "put_at (2 * p) (?t ! (2 * p)) (filled ?t out (2 * p)) = Inr (filled ?t out (Suc (2 * p)))"
      by (rule filled_put) (use p assms(3) in simp, simp only: l)
    then have first: "put_at (2 * p) (target ! (2 * p)) (filled ?t out (2 * p)) = Inr (filled ?t out (Suc (2 * p)))" by (simp only: n)
    have m: "min len (2 * p) = 2 * p" using p by simp
    show "put_two len p f g (filled ?t out (min len (2 * p))) = Inr (filled ?t out (min len (2 * Suc p)))"
    proof (cases "2 * p + 1 < len")
      case True
      then have n1: "?t ! (2 * p + 1) = target ! (2 * p + 1)" by (simp add: nth_append assms(3))
      have "put_at (2 * p + 1) (?t ! (2 * p + 1)) (filled ?t out (2 * p + 1)) = Inr (filled ?t out (Suc (2 * p + 1)))"
        by (rule filled_put) (use True assms(3) in simp, simp only: l)
      then have "put_at (2 * p + 1) (target ! (2 * p + 1)) (filled ?t out (Suc (2 * p))) = Inr (filled ?t out (2 * Suc p))"
        unfolding n1 by simp
      moreover have "min len (2 * Suc p) = 2 * Suc p" using True by simp
      ultimately show ?thesis by (simp only: m put_two_def assms(1) [OF p] first sum.case True if_True assms(2) [OF True])
    next
      case False
      have "min len (2 * Suc p) = Suc (2 * p)" using False p by simp
      then show ?thesis by (simp only: m put_two_def assms(1) [OF p] first sum.case False if_False)
    qed
  qed simp
  moreover have "min len (2 * ((len + 1) div 2)) = len" by linarith
  then have "filled ?t out (min len (2 * ((len + 1) div 2))) = ?t" using assms(3) by (simp only:) (simp add: filled_def)
  ultimately show ?thesis by simp
qed

theorem one2eight_line:
  assumes "(len + 7) div 8 \<le> length inp" and "len \<le> length out"
  shows "one2eight inp out len black white =
    Inr (map (\<lambda>i. if bit_at (inp ! (i div 8)) (i mod 8) then white else black) [0..<len] @ drop len out)"
proof -
  let ?v = "\<lambda>i. if bit_at (inp ! (i div 8)) (i mod 8) then white else black"
  let ?t = "map ?v [0..<len] @ drop len out"
  have l: "length out = length ?t" using assms(2) by simp
  have step: "put_at q (?v q) (filled ?t out q) = Inr (filled ?t out (Suc q))" if "q < len" for q
  proof -
    have "?t ! q = ?v q" using that by (simp add: nth_append)
    moreover have "put_at q (?t ! q) (filled ?t out q) = Inr (filled ?t out (Suc q))"
      by (rule filled_put) (use that in simp, rule l)
    ultimately show ?thesis by (simp only:)
  qed
  have "one2eight inp out len black white =
      for_each (\<lambda>ii. for_each (\<lambda>k out. case get_at inp ii of Inl e \<Rightarrow> Inl e
         | Inr v \<Rightarrow> put_at (8 * ii + k) (if bit_at v k then white else black) out)
        [0..<min 8 (len - 8 * ii)]) [0..<(len + 7) div 8] (filled ?t out (min len (8 * 0)))"
    by (simp add: one2eight_def)
  also have "\<dots> = Inr (filled ?t out (min len (8 * ((len + 7) div 8))))"
  proof (rule for_range)
    fix ii
    assume ii: "ii < (len + 7) div 8"
    then have b: "8 * ii < len" "get_at inp ii = Inr (inp ! ii)" using assms(1) by (simp_all add: get_at_def)
    have "for_each (\<lambda>k out. case get_at inp ii of Inl e \<Rightarrow> Inl e
         | Inr v \<Rightarrow> put_at (8 * ii + k) (if bit_at v k then white else black) out)
        [0..<min 8 (len - 8 * ii)] (filled ?t out (8 * ii + 0)) = Inr (filled ?t out (8 * ii + min 8 (len - 8 * ii)))"
    proof (rule for_range)
      fix k
      assume "k < min 8 (len - 8 * ii)"
      then have "8 * ii + k < len" "(8 * ii + k) div 8 = ii" "(8 * ii + k) mod 8 = k" by auto
      with step [of "8 * ii + k"] show "(case get_at inp ii of Inl e \<Rightarrow> Inl e
         | Inr v \<Rightarrow> put_at (8 * ii + k) (if bit_at v k then white else black) (filled ?t out (8 * ii + k))) = Inr (filled ?t out (8 * ii + Suc k))"
        by (simp only: b sum.case add_Suc_right)
    qed simp
    moreover have "8 * ii + min 8 (len - 8 * ii) = min len (8 * Suc ii)" "min len (8 * ii) = 8 * ii + 0" using b(1) by auto
    ultimately show "for_each (\<lambda>k out. case get_at inp ii of Inl e \<Rightarrow> Inl e
         | Inr v \<Rightarrow> put_at (8 * ii + k) (if bit_at v k then white else black) out)
        [0..<min 8 (len - 8 * ii)] (filled ?t out (min len (8 * ii))) = Inr (filled ?t out (min len (8 * Suc ii)))"
      by (simp only:)
  qed simp
  also have "min len (8 * ((len + 7) div 8)) = len" by linarith
  finally show ?thesis by (simp add: filled_def)
qed

theorem four2eight_line:
  assumes "(len + 1) div 2 \<le> length inp" and "len \<le> length out" and "\<forall>v \<in> set inp. v < 256"
  shows "four2eight inp out len pal =
    Inr (map (\<lambda>i. (if pal then 1 else 16) * (if even i then inp ! (i div 2) div 16 else inp ! (i div 2) mod 16)) [0..<len] @ drop len out)"
  unfolding four2eight_def
proof (rule put_two_loop)
  fix p
  assume p: "2 * p < len"
  then have "p < length inp" using assms(1) by linarith
  moreover from this have "inp ! p < 256" using assms(3) by simp
  moreover have "drop_bit 4 (16 * (inp ! p div 16)) = inp ! p div 16" by (simp add: drop_bit_eq_div)
  ultimately show "(case get_at inp p of Inl e \<Rightarrow> Inl e | Inr v \<Rightarrow> Inr (if pal then drop_bit 4 (v AND 0xF0) else v AND 0xF0)) =
      Inr (map (\<lambda>i. (if pal then 1 else 16) * (if even i then inp ! (i div 2) div 16 else inp ! (i div 2) mod 16)) [0..<len] ! (2 * p))"
    using p by (simp add: get_at_def high_nibble)
next
  fix p
  assume p: "2 * p + 1 < len"
  then have "p < length inp" using assms(1) by linarith
  then show "(case get_at inp p of Inl e \<Rightarrow> Inl e | Inr v \<Rightarrow> Inr (if pal then v AND 0x0F else push_bit 4 (v AND 0x0F))) =
      Inr (map (\<lambda>i. (if pal then 1 else 16) * (if even i then inp ! (i div 2) div 16 else inp ! (i div 2) mod 16)) [0..<len] ! (2 * p + 1))"
    using p by (simp add: get_at_def low_nibble push_bit_eq_mult)
qed (use assms in simp_all)

text \<open>How a writer packs samples of 12 bits.\<close>

fun pack12 :: "nat list \<Rightarrow> nat list" where
  "pack12 [] = []"
| "pack12 [a] = [a div 16, a mod 16 * 16]"
| "pack12 (a # b # r) = [a div 16, a mod 16 * 16 + b div 256, b mod 256] @ pack12 r"

lemma pack12_nth:
  "2 * p < length xs \<Longrightarrow> 3 * p + 1 < length (pack12 xs) \<and> pack12 xs ! (3 * p) = xs ! (2 * p) div 16 \<and>
     pack12 xs ! (3 * p + 1) = xs ! (2 * p) mod 16 * 16 + (if 2 * p + 1 < length xs then xs ! (2 * p + 1) div 256 else 0) \<and>
     (2 * p + 1 < length xs \<longrightarrow> 3 * p + 2 < length (pack12 xs) \<and> pack12 xs ! (3 * p + 2) = xs ! (2 * p + 1) mod 256)"
proof (induction xs arbitrary: p rule: pack12.induct)
  case (3 a b r)
  show ?case
  proof (cases p)
    case (Suc q)
    have i: "3 * p = Suc (Suc (Suc (3 * q)))" "2 * p = Suc (Suc (2 * q))" "3 * p + 1 = Suc (Suc (Suc (3 * q + 1)))"
      "3 * p + 2 = Suc (Suc (Suc (3 * q + 2)))" "2 * p + 1 = Suc (Suc (2 * q + 1))" by (simp_all add: Suc)
    have q: "2 * q < length r" using 3(2) by (simp add: Suc)
    have c: "pack12 (a # b # r) = (a div 16) # (a mod 16 * 16 + b div 256) # (b mod 256) # pack12 r" by simp
    show ?thesis using 3(1) [OF q] unfolding i c by simp
  qed (simp add: numeral_2_eq_2)
qed auto

theorem twelve_bits_roundtrip:
  assumes "\<forall>a \<in> set xs. a < 2 ^ 12" and "length xs \<le> length out"
  shows "twelve2sixteen (pack12 xs) out (length xs) pal = Inr (map (\<lambda>a. if pal then a else 16 * a) xs @ drop (length xs) out)"
  unfolding twelve2sixteen_def
proof (rule put_two_loop)
  fix p
  assume p: "2 * p < length xs"
  define a b where "a = xs ! (2 * p)" and "b = (if 2 * p + 1 < length xs then xs ! (2 * p + 1) div 256 else 0)"
  have a: "a < 4096" "b < 16" using assms(1) p nth_mem [of "2 * p + 1" xs] by (auto simp: a_def b_def less_mult_imp_div_less)
  note n = pack12_nth [OF p, folded a_def b_def]
  have h: "(a mod 16 * 16 + b) AND 0xF0 = 16 * (a mod 16)" using a high_nibble [of "a mod 16 * 16 + b"] by simp
  have "push_bit 4 (a div 16) OR drop_bit 4 (16 * (a mod 16)) = a" by (simp add: drop_bit_eq_div push_or)
  moreover have "push_bit 8 (a div 16) OR 16 * (a mod 16) = 16 * a" 
  proof -
    have "a div 16 * 256 + 16 * (a mod 16) = 16 * a" using div_mult_mod_eq [of a 16] by linarith
    then show ?thesis using push_or [of "16 * (a mod 16)" 8 "a div 16"] by simp
  qed
  ultimately show "(case get_at (pack12 xs) (3 * p) of Inl e \<Rightarrow> Inl e
      | Inr a \<Rightarrow> (case get_at (pack12 xs) (3 * p + 1) of Inl e \<Rightarrow> Inl e
                 | Inr b \<Rightarrow> Inr (if pal then push_bit 4 a OR drop_bit 4 (b AND 0xF0) else push_bit 8 a OR (b AND 0xF0)))) =
      Inr (map (\<lambda>a. if pal then a else 16 * a) xs ! (2 * p))"
    using n p by (simp add: get_at_def h flip: a_def)
next
  fix p
  assume p: "2 * p + 1 < length xs"
  then have p0: "2 * p < length xs" by simp
  define a b where "a = xs ! (2 * p)" and "b = xs ! (2 * p + 1)"
  have b: "b < 4096" using assms(1) p by (simp add: b_def)
  have g: "get_at (pack12 xs) (Suc (3 * p)) = Inr (a mod 16 * 16 + b div 256)" "get_at (pack12 xs) (Suc (Suc (3 * p))) = Inr (b mod 256)"
    using pack12_nth [OF p0, folded a_def] p by (simp_all add: get_at_def b_def)
  have h: "(a mod 16 * 16 + b div 256) AND 0x0F = b div 256" using b by (simp add: low_nibble less_mult_imp_div_less)
  have "push_bit 8 (b div 256) OR (b mod 256) = b" by (simp add: push_or)
  moreover have "push_bit 12 (b div 256) OR push_bit 4 (b mod 256) = 16 * b"
  proof -
    have "b div 256 * 4096 + 16 * (b mod 256) = 16 * b" using div_mult_mod_eq [of b 256] by linarith
    then show ?thesis using push_or [of "16 * (b mod 256)" 12 "b div 256"] by (simp add: push_bit_eq_mult mult.commute)
  qed
  ultimately show "(case get_at (pack12 xs) (3 * p + 1) of Inl e \<Rightarrow> Inl e
      | Inr b \<Rightarrow> (case get_at (pack12 xs) (3 * p + 2) of Inl e \<Rightarrow> Inl e
                 | Inr c \<Rightarrow> Inr (if pal then push_bit 8 (b AND 0x0F) OR c else push_bit 12 (b AND 0x0F) OR push_bit 4 c))) =
      Inr (map (\<lambda>a. if pal then a else 16 * a) xs ! (2 * p + 1))"
    using p by (simp add: b_def [symmetric, simplified] g h [simplified] del: push_bit_and)
qed (use assms in simp_all)

end
