(* ===== verification/TiffRead.thy ===== *)
theory TiffRead
  imports Samples Cache
begin

text \<open>
  Reading and writing the pixels of a TIFF file, \<open>handlers/iiifhandler/imgformats/IIIFIOTiff.cpp\<close>: the lines and tiles of a region, the choice of a
  resolution, palettes, the colors of CIELAB, and the tiles of a pyramid. What libtiff says of the directory of a file is
  the record \<open>tiff\<close>: a line is its bytes, a tile its samples, or a failure. Numbers of 16 bits have their low byte first. The template
  parameter is \<open>uint8_t\<close> for up to 8 bits per sample and \<open>uint16_t\<close> above, as the caller has it.
\<close>

section \<open>What is in the file\<close>

datatype planar_config = PLANAR_CONTIG | PLANAR_SEPARATE | PLANAR_OTHER

record tiff =
  t_planar :: planar_config
  t_compressed :: bool
  t_nx :: nat
  t_ny :: nat
  t_nc :: nat
  t_bps :: nat
  t_photo :: photometric
  t_line :: "nat \<Rightarrow> nat \<Rightarrow> nat list option"
  t_tile_width :: nat
  t_tile_length :: nat
  t_ntiles :: nat
  t_tile :: "nat \<Rightarrow> nat \<Rightarrow> nat list option"

fun words_of :: "nat list \<Rightarrow> nat list" where
  "words_of (a # b # r) = (a + 256 * b) # words_of r"
| "words_of _ = []"

text \<open>\<open>memcpy\<close> between buffers of samples.\<close>

definition copy_to :: "nat \<Rightarrow> nat \<Rightarrow> nat \<Rightarrow> nat list \<Rightarrow> nat list \<Rightarrow> exn + nat list" where
  "copy_to dst src n from buf =
     (if src + n \<le> length from \<and> dst + n \<le> length buf
      then Inr (take dst buf @ take n (drop src from) @ drop (dst + n) buf) else Inl Undefined)"

text \<open>The values for black and white are not set for other images than those of gray.\<close>

definition black_white :: "photometric \<Rightarrow> exn + nat \<times> nat" where
  "black_white ph = (if ph = MINISBLACK then Inr (0, 255) else if ph = MINISWHITE then Inr (255, 0) else Inl Undefined)"

text \<open>The \<open>n\<close> samples of a line as the copying takes them; other numbers of bits are not copied.\<close>

definition line_samples :: "tiff \<Rightarrow> nat \<Rightarrow> nat list \<Rightarrow> (exn + nat list) option" where
  "line_samples t n bytes =
     (if t_bps t = 1 then
        Some (case black_white (t_photo t) of Inl e \<Rightarrow> Inl e | Inr (b, w) \<Rightarrow> one2eight bytes (replicate n 0) n b w)
      else if t_bps t = 4 then Some (four2eight bytes (replicate n 0) n (t_photo t = PALETTE))
      else if t_bps t = 8 then Some (Inr bytes)
      else if t_bps t = 12 then Some (twelve2sixteen bytes (replicate n 0) n (t_photo t = PALETTE))
      else if t_bps t = 16 then Some (Inr (words_of bytes))
      else None)"

section \<open>Lines\<close>

definition scanline_failed :: "nat \<Rightarrow> exn" where
  "scanline_failed i = CsError (''TIFFReadScanline failed on scanline '' @ dec_string i)"

text \<open>A line of \<open>n\<close> samples is read, and \<open>len\<close> of them go to the place \<open>dst\<close>.\<close>

definition take_line :: "tiff \<Rightarrow> nat \<Rightarrow> nat \<Rightarrow> nat \<Rightarrow> nat \<Rightarrow> nat \<Rightarrow> nat \<Rightarrow> nat list \<Rightarrow> exn + nat list" where
  "take_line t n i plane dst src len buf =
     (case t_line t i plane of
        None \<Rightarrow> Inl (scanline_failed i)
      | Some bytes \<Rightarrow>
          (case line_samples t n bytes of
             None \<Rightarrow> Inr buf
           | Some (Inl e) \<Rightarrow> Inl e
           | Some (Inr xs) \<Rightarrow> copy_to dst src len xs buf))"

definition skip_line :: "tiff \<Rightarrow> nat \<Rightarrow> nat \<Rightarrow> 'a \<Rightarrow> exn + 'a" where
  "skip_line t i plane buf = (case t_line t i plane of None \<Rightarrow> Inl (scanline_failed i) | Some _ \<Rightarrow> Inr buf)"

text \<open>The place of a line of a plane, in which the number of planes is added where it should be multiplied.\<close>

definition plane_place :: "tiff \<Rightarrow> nat \<Rightarrow> nat \<Rightarrow> nat \<Rightarrow> nat" where
  "plane_place t roi_w roi_h i = u32 (t_nc t * roi_w) + roi_h + u32 (i * roi_w)"

definition read_uncompressed :: "tiff \<Rightarrow> nat \<Rightarrow> nat \<Rightarrow> nat \<Rightarrow> nat \<Rightarrow> nat list \<Rightarrow> exn + nat list" where
  "read_uncompressed t roi_x roi_y roi_w roi_h buf =
     (case t_planar t of
        PLANAR_CONTIG \<Rightarrow>
          for_each (\<lambda>i. take_line t (t_nx t * t_nc t) i 0 (u32 (t_nc t * i * roi_w)) (u32 (t_nc t * roi_x)) (u32 (t_nc t * roi_w)))
            [roi_y..<roi_h] buf
      | PLANAR_SEPARATE \<Rightarrow>
          (case for_each (\<lambda>c. for_each (\<lambda>i. take_line t (t_nx t) i c (plane_place t roi_w roi_h i) roi_x roi_w) [roi_y..<roi_h])
              [0..<t_nc t] buf of
             Inl e \<Rightarrow> Inl e
           | Inr planes \<Rightarrow> separateToContig planes roi_w roi_h (t_nc t) roi_w)
      | PLANAR_OTHER \<Rightarrow> Inr buf)"

text \<open>With compression all lines are read. Only that of 8 bits goes to its place in the region; at 12 bits the place in the line is doubled.\<close>

definition read_compressed :: "tiff \<Rightarrow> nat \<Rightarrow> nat \<Rightarrow> nat \<Rightarrow> nat \<Rightarrow> nat list \<Rightarrow> exn + nat list" where
  "read_compressed t roi_x roi_y roi_w roi_h buf =
     (let inside = (\<lambda>i. roi_y \<le> i \<and> i < u32 (roi_y + roi_h)); twice = (if t_bps t = 12 then 2 else 1) in
      case t_planar t of
        PLANAR_CONTIG \<Rightarrow>
          for_each (\<lambda>i.
              if inside i then
                take_line t (t_nx t * t_nc t) i 0
                  (if t_bps t = 8 then u32 (t_nc t * (i - roi_y) * roi_w) else u32 (t_nc t * i * roi_w))
                  (u32 (t_nc t * roi_x * twice)) (u32 (t_nc t * roi_w))
              else skip_line t i 0) [0..<t_ny t] buf
      | PLANAR_SEPARATE \<Rightarrow>
          (case for_each (\<lambda>c. for_each (\<lambda>i.
                if inside i then take_line t (t_nx t) i c (plane_place t roi_w roi_h i) (roi_x * twice) roi_w
                else skip_line t i c) [0..<t_ny t]) [0..<t_nc t] buf of
             Inl e \<Rightarrow> Inl e
           | Inr planes \<Rightarrow> separateToContig planes roi_w roi_h (t_nc t) roi_w)
      | PLANAR_OTHER \<Rightarrow> Inr buf)"

definition read_standard_data :: "tiff \<Rightarrow> nat \<Rightarrow> nat \<Rightarrow> nat \<Rightarrow> nat \<Rightarrow> exn + nat list" where
  "read_standard_data t roi_x roi_y roi_w roi_h =
     (if t_compressed t then read_compressed else read_uncompressed) t roi_x roi_y roi_w roi_h (replicate (u32 (roi_h * roi_w * t_nc t)) 0)"

section \<open>Tiles\<close>

text \<open>The part of a tile along one axis, and where it goes, for the tile \<open>k\<close> of those from \<open>first\<close> to before \<open>last\<close>.\<close>

definition start_in :: "nat \<Rightarrow> nat \<Rightarrow> nat \<Rightarrow> nat \<Rightarrow> nat" where
  "start_in k first roi tile = (if k = first then roi mod tile else 0)"

definition end_in :: "nat \<Rightarrow> nat \<Rightarrow> nat \<Rightarrow> nat \<Rightarrow> nat \<Rightarrow> nat" where
  "end_in k ende roi len tile =
     (if k + 1 = ende then (if u32 (roi + len) mod tile = 0 then tile else u32 (roi + len) mod tile) else tile)"

definition start_out :: "nat \<Rightarrow> nat \<Rightarrow> nat \<Rightarrow> nat \<Rightarrow> nat" where
  "start_out k first roi tile = (if k = first then 0 else nat ((int (k - first) * int tile - int roi) mod 2 ^ 32))"

definition copy_tile :: "nat \<Rightarrow> nat \<Rightarrow> nat \<Rightarrow> nat \<Rightarrow> nat \<Rightarrow> nat \<Rightarrow> nat \<Rightarrow> nat \<Rightarrow> nat list \<Rightarrow> nat \<Rightarrow> nat list \<Rightarrow> exn + nat list" where
  "copy_tile nc roi_w in_x ex in_y ey out_x out_y tilebuf tw buf =
     for_each (\<lambda>y. copy_to (u32 (nc * ((out_y + (y - in_y)) * roi_w + out_x))) (u32 (nc * (y * tw + in_x)))
         (u32 (nc * nat ((int ex - int in_x) mod 2 ^ 32))) tilebuf)
       [in_y..<u32 (in_y + nat ((int ey - int in_y) mod 2 ^ 32))] buf"

definition tile_failed :: "nat \<Rightarrow> nat \<Rightarrow> exn" where
  "tile_failed tx ty = CsError (''TIFFReadTile failed on tile ('' @ dec_string tx @ '', '' @ dec_string ty @ '')'')"

definition read_tile :: "tiff \<Rightarrow> nat \<Rightarrow> nat \<Rightarrow> exn + nat list" where
  "read_tile t tx ty =
     (case t_tile t tx ty of
        None \<Rightarrow> Inl (tile_failed tx ty)
      | Some xs \<Rightarrow>
          if t_planar t = PLANAR_SEPARATE then separateToContig xs (t_tile_width t) (t_tile_length t) (t_nc t) (t_tile_width t) else Inr xs)"

definition tile_range :: "nat \<Rightarrow> nat \<Rightarrow> nat \<Rightarrow> exn + nat \<times> nat" where
  "tile_range roi len tile =
     (case epsilon_floor_division (fnat roi) (fnat tile) of Inl e \<Rightarrow> Inl e
      | Inr a \<Rightarrow> (case epsilon_ceil_division (fnat (u32 (roi + len))) (fnat tile) of Inl e \<Rightarrow> Inl e | Inr b \<Rightarrow> Inr (a, b)))"

definition read_tiled_data :: "tiff \<Rightarrow> nat \<Rightarrow> nat \<Rightarrow> nat \<Rightarrow> nat \<Rightarrow> exn + nat list" where
  "read_tiled_data t roi_x roi_y roi_w roi_h =
     (let tw = t_tile_width t; tl = t_tile_length t; nc = t_nc t in
      if tw = 0 \<or> tl = 0 then Inl (CsError ''Expected tiled image, but no tile dimension given!'')
      else (case (tile_range 0 (t_nx t) tw, tile_range 0 (t_ny t) tl, tile_range roi_x roi_w tw, tile_range roi_y roi_h tl) of
          (Inr (_, ntiles_x), Inr (_, ntiles_y), Inr (sx, ex), Inr (sy, ey)) \<Rightarrow>
            if t_ntiles t \<noteq> u32 (ntiles_x * ntiles_y) then Inl (CsError ''Number of tiles no consistent!'')
            else if t_bps t \<noteq> 8 \<and> t_bps t \<noteq> 16
            then Inl (CsError (dec_string (t_bps t) @ '' bits per samples not supported for tiled tiffs!''))
            else for_each (\<lambda>ty. for_each (\<lambda>tx buf.
                case read_tile t tx ty of
                  Inl e \<Rightarrow> Inl e
                | Inr tilebuf \<Rightarrow>
                    copy_tile nc roi_w (start_in tx sx roi_x tw) (end_in tx ex roi_x roi_w tw) (start_in ty sy roi_y tl)
                      (end_in ty ey roi_y roi_h tl) (start_out tx sx roi_x tw) (start_out ty sy roi_y tl) tilebuf tw buf)
                [sx..<ex]) [sy..<ey] (replicate (u32 (roi_w * roi_h * nc)) 0)
        | _ \<Rightarrow> Inl Undefined))"

text \<open>The tile of a pyramid that is written, with zeros outside the image.\<close>

definition write_tile :: "nat list \<Rightarrow> nat \<Rightarrow> nat \<Rightarrow> nat \<Rightarrow> nat \<Rightarrow> nat \<Rightarrow> nat \<Rightarrow> nat \<Rightarrow> exn + nat list" where
  "write_tile nbuf nnx nny nc tw th tx ty =
     fill_pixels tw th nc (\<lambda>y x c.
       let xx = u32 (tx * tw + x); yy = u32 (ty * th + y) in
       if xx < nnx \<and> yy < nny then get_at nbuf (position nc nnx xx yy c) else Inr 0)"

section \<open>Resolutions\<close>

definition level_info :: "nat \<Rightarrow> nat \<Rightarrow> nat \<Rightarrow> nat \<Rightarrow> nat \<Rightarrow> sub_image" where
  "level_info red w h tw th = \<lparr>reduce = red, width = w, height = h, tile_width = tw, tile_height = th\<rparr>"

definition resolution_of :: "nat \<Rightarrow> nat \<Rightarrow> nat \<Rightarrow> nat \<Rightarrow> nat \<Rightarrow> sub_image" where
  "resolution_of nx w h tw th = level_info (to_uint32 (lround (f32_div (fnat nx) (fnat w)))) w h tw th"

text \<open>The last resolution of those in front that are not reduced more than asked for.\<close>

definition choose_level :: "nat \<Rightarrow> sub_image list \<Rightarrow> exn + nat" where
  "choose_level red ress =
     (case length (takeWhile (\<lambda>r. reduce r \<le> red) ress) of 0 \<Rightarrow> Inl Undefined | Suc k \<Rightarrow> Inr k)"

section \<open>Palettes and colors\<close>

text \<open>The color of the first channel, and the other channels behind it.\<close>

definition expand_palette :: "nat list \<Rightarrow> nat list \<Rightarrow> nat list \<Rightarrow> nat \<Rightarrow> nat \<Rightarrow> nat list \<Rightarrow> exn + nat list" where
  "expand_palette rcm gcm bcm nc n pix =
     fill_pixels n 1 (nc + 2) (\<lambda>_ i k.
       if k < 3 then (case get_at pix (u32 (i * nc)) of Inl e \<Rightarrow> Inl e | Inr v \<Rightarrow> get_at (if k = 0 then rcm else if k = 1 then gcm else bcm) v)
       else get_at pix (u32 (i * nc + (k - 2))))"

definition signed_of :: "nat \<Rightarrow> nat \<Rightarrow> int" where
  "signed_of bits v = (if v < 2 ^ (bits - 1) then int v else int v - 2 ^ bits)"

definition lab_read :: "nat \<Rightarrow> nat \<Rightarrow> nat" where
  "lab_read bits v = nat ((2 ^ (bits - 1) + signed_of bits v) mod 2 ^ bits)"

definition lab_write :: "nat \<Rightarrow> nat \<Rightarrow> nat" where
  "lab_write bits v = nat ((int v - 2 ^ (bits - 1)) mod 2 ^ bits)"

definition lab_channels :: "(nat \<Rightarrow> nat) \<Rightarrow> nat \<Rightarrow> nat \<Rightarrow> nat \<Rightarrow> nat list \<Rightarrow> exn + nat list" where
  "lab_channels f nx ny nc =
     for_each (\<lambda>y. for_each (\<lambda>x. for_each (\<lambda>c buf.
         case get_at buf (nc * (y * nx + x) + c) of Inl e \<Rightarrow> Inl e | Inr v \<Rightarrow> put_at (nc * (y * nx + x) + c) (f v) buf)
       [1, 2]) [0..<nx]) [0..<ny]"

text \<open>Whether an image is written with one bit per sample: only the first \<open>nx * ny\<close> samples are looked at, whatever the channels.\<close>

definition only_extremes :: "nat \<Rightarrow> nat list \<Rightarrow> nat \<Rightarrow> exn + bool" where
  "only_extremes white pix n =
     for_each (\<lambda>i ok. case get_at pix i of Inl e \<Rightarrow> Inl e | Inr v \<Rightarrow> Inr (if v \<noteq> 0 \<and> v \<noteq> white then False else ok)) [0..<n] True"

definition its_1_bit :: "photometric \<Rightarrow> nat \<Rightarrow> nat \<Rightarrow> nat \<Rightarrow> nat list \<Rightarrow> exn + bool" where
  "its_1_bit ph bits nx ny pix =
     (if ph = MINISWHITE \<or> ph = MINISBLACK then
        (if bits = 8 then only_extremes 255 pix (u32 (nx * ny))
         else if bits = 16 then only_extremes 65535 pix (u32 (nx * ny))
         else Inr True)
      else Inr False)"

end
