(* ===== verification/TileProps.thy ===== *)
theory TileProps
  imports TiffRead
begin

text \<open>
  Tiles of a TIFF file: an image that is cut into tiles as a pyramid is written, also where the last tiles stand over its edge, comes back when
  all of it is read. Copying is painting places of a buffer with what they shall have in the end, in any order.
\<close>

section \<open>Painting\<close>

definition paint :: "'a list \<Rightarrow> nat set \<Rightarrow> 'a list \<Rightarrow> 'a list" where
  "paint target D buf = map (\<lambda>p. if p \<in> D then target ! p else buf ! p) [0..<length buf]"

lemma length_paint [simp]: "length (paint target D buf) = length buf"
  by (simp add: paint_def)

lemma paint_empty [simp]: "paint target {} buf = buf"
  by (simp add: paint_def map_nth)

lemma paint_again [simp]: "paint target D (paint target E buf) = paint target (D \<union> E) buf"
  by (rule nth_equalityI) (auto simp: paint_def)

lemma paint_all: "{..<length target} \<subseteq> D \<Longrightarrow> length buf = length target \<Longrightarrow> paint target D buf = target"
  by (rule nth_equalityI) (auto simp: paint_def)

lemma copy_paints:
  assumes "src + n \<le> length xs" and "dst + n \<le> length buf" and "\<And>k. k < n \<Longrightarrow> xs ! (src + k) = target ! (dst + k)"
  shows "copy_to dst src n xs buf = Inr (paint target {dst..<dst + n} buf)"
proof -
  have "take dst buf @ take n (drop src xs) @ drop (dst + n) buf = paint target {dst..<dst + n} buf"
  proof (rule nth_equalityI)
    fix p
    assume "p < length (take dst buf @ take n (drop src xs) @ drop (dst + n) buf)"
    then have p: "p < length buf" using assms(1,2) by simp
    show "(take dst buf @ take n (drop src xs) @ drop (dst + n) buf) ! p = paint target {dst..<dst + n} buf ! p"
      using assms(1,2) assms(3) [of "p - dst"] p by (auto simp: paint_def nth_append)
  qed (use assms(1,2) in simp)
  then show ?thesis using assms(1,2) by (simp add: copy_to_def)
qed

lemma loop_paints:
  assumes "\<And>x buf. x \<in> set xs \<Longrightarrow> length buf = n \<Longrightarrow> f x buf = Inr (paint target (D x) buf)" and "length buf = n"
  shows "for_each f xs buf = Inr (paint target (\<Union>x\<in>set xs. D x) buf)"
  using assms
proof (induction xs arbitrary: buf)
  case (Cons x xs)
  then have "for_each f xs (paint target (D x) buf) = Inr (paint target (\<Union>x\<in>set xs. D x) (paint target (D x) buf))" by simp
  with Cons.prems show ?case by (simp add: Un_commute)
qed simp

section \<open>One axis\<close>

text \<open>Tile \<open>k\<close> of a whole image of \<open>n\<close> pixels.\<close>

definition tile_len :: "nat \<Rightarrow> nat \<Rightarrow> nat \<Rightarrow> nat" where
  "tile_len n tile k = min tile (n - k * tile)"

definition tiles_of :: "nat \<Rightarrow> nat \<Rightarrow> nat" where
  "tiles_of n tile = (n + tile - 1) div tile"

lemma tile_before: "k < tiles_of n tile \<Longrightarrow> k * tile < n"
proof -
  assume k: "k < tiles_of n tile"
  then have t: "0 < tile" by (auto simp: tiles_of_def intro: gr0I)
  have "Suc k * tile \<le> (n + tile - 1) div tile * tile" using k by (intro mult_le_mono1) (simp add: tiles_of_def)
  also have "\<dots> \<le> n + tile - 1" by simp
  finally show ?thesis using t by simp
qed

lemma tile_of_pixel:
  assumes "i < n" and "0 < tile"
  shows "i div tile < tiles_of n tile" and "i mod tile < tile_len n tile (i div tile)"
proof -
  have i: "i div tile * tile + i mod tile = i" by simp
  have "Suc (i div tile) = (i + tile) div tile" using assms(2) by simp
  also have "\<dots> \<le> tiles_of n tile" unfolding tiles_of_def using assms(1) by (intro div_le_mono) simp
  finally show "i div tile < tiles_of n tile" by simp
  have "i mod tile < tile" using assms(2) by simp
  moreover have "i mod tile < n - i div tile * tile" using i assms(1) by linarith
  ultimately show "i mod tile < tile_len n tile (i div tile)" by (simp add: tile_len_def)
qed

lemma start_in_0: "start_in k 0 0 tile = 0"
  by (simp add: start_in_def)

lemma start_out_0: "k * tile < 2 ^ 32 \<Longrightarrow> start_out k 0 0 tile = k * tile"
  by (simp add: start_out_def nat_mod_distrib flip: of_nat_mult)

lemma end_in_0:
  assumes "k < tiles_of n tile" and "n < 2 ^ 32"
  shows "end_in k (tiles_of n tile) 0 n tile = tile_len n tile k"
proof -
  have t: "0 < tile" using assms(1) by (auto simp: tiles_of_def intro: gr0I)
  have u: "u32 n = n" using assms(2) by (simp add: u32_def)
  show ?thesis
  proof (cases "k + 1 = tiles_of n tile")
    case True
    have b: "k * tile < n" by (rule tile_before [OF assms(1)])
    have e: "n \<le> Suc k * tile"
    proof (rule ccontr)
      assume "\<not> n \<le> Suc k * tile"
      then have "Suc k * tile div tile < tiles_of n tile" by (intro tile_of_pixel(1) t) simp
      with True t show False by simp
    qed
    have m: "n mod tile = (n - k * tile) mod tile" using b by (metis add.commute le_add_diff_inverse less_imp_le mod_mult_self1)
    show ?thesis
    proof (cases "n - k * tile = tile")
      case False
      then have "n - k * tile < tile" using e by simp
      with m b True show ?thesis by (simp add: end_in_def u tile_len_def)
    qed (use m True in \<open>simp add: end_in_def u tile_len_def\<close>)
  next
    case False
    then have "Suc k < tiles_of n tile" using assms(1) by simp
    from tile_before [OF this] have "tile_len n tile k = tile" by (simp add: tile_len_def)
    with False show ?thesis by (simp add: end_in_def)
  qed
qed

section \<open>Tiles\<close>

definition cut_tile :: "nat \<Rightarrow> nat \<Rightarrow> nat \<Rightarrow> nat \<Rightarrow> nat \<Rightarrow> picture \<Rightarrow> nat \<Rightarrow> nat \<Rightarrow> nat list" where
  "cut_tile nx ny nc tw th v tx ty =
     raster tw th nc (\<lambda>y x k. if tx * tw + x < nx \<and> ty * th + y < ny then v (ty * th + y) (tx * tw + x) k else 0)"

lemma written_tile:
  assumes "length img = nx * ny * nc" and "nx * ny * nc < 2 ^ 32" and "tw * th * nc < 2 ^ 32"
    and "tx * tw + tw < 2 ^ 32" and "ty * th + th < 2 ^ 32"
  shows "write_tile img nx ny nc tw th tx ty = Inr (cut_tile nx ny nc tw th (sample nc nx img) tx ty)"
  unfolding write_tile_def cut_tile_def
proof (rule fill_pixels_raster [OF assms(3)])
  fix j i k
  assume b: "i < tw" "j < th" "k < nc"
  have u: "u32 (tx * tw + i) = tx * tw + i" "u32 (ty * th + j) = ty * th + j" using b assms(4,5) by (simp_all add: u32_def)
  have "get_at img (position nc nx (tx * tw + i) (ty * th + j) k) = Inr (sample nc nx img (ty * th + j) (tx * tw + i) k)"
    if "tx * tw + i < nx" "ty * th + j < ny"
    using index_bound [OF that b(3)] assms(1,2) by (simp add: position_def u32_def get_at_def sample_def)
  then show "(let xx = u32 (tx * tw + i); yy = u32 (ty * th + j) in
       if xx < nx \<and> yy < ny then get_at img (position nc nx xx yy k) else Inr 0) =
      Inr (if tx * tw + i < nx \<and> ty * th + j < ny then sample nc nx img (ty * th + j) (tx * tw + i) k else 0)"
    by (simp add: u Let_def)
qed

lemma segment_bound:
  assumes "j < h" and "x + l \<le> w"
  shows "nc * (j * w + x) + nc * l \<le> w * h * (nc :: nat)"
proof -
  have "j * w + x + l \<le> Suc j * w" using assms(2) by simp
  also have "\<dots> \<le> h * w" using assms(1) by (intro mult_le_mono1) simp
  finally have "nc * (j * w + x + l) \<le> nc * (h * w)" by (rule mult_le_mono2)
  then show ?thesis by (simp add: algebra_simps)
qed

lemma cut_tile_nth:
  assumes "ty * th + y < ny" and "tx * tw + l \<le> nx" and "l \<le> tw" and "y < th" and "k < nc * l"
  shows "cut_tile nx ny nc tw th (sample nc nx img) tx ty ! (nc * (y * tw) + k) = img ! (nc * ((ty * th + y) * nx + tx * tw) + k)"
proof -
  have nc: "0 < nc" using assms(5) by (auto intro: gr0I)
  define i c where "i = k div nc" and "c = k mod nc"
  have k: "k = nc * i + c" "i < l" "c < nc" using assms(5) nc by (simp_all add: i_def c_def less_mult_imp_div_less ac_simps)
  have "nc * (y * tw) + k = nc * (y * tw + i) + c" by (simp add: k(1) algebra_simps)
  moreover have "i < tw" "tx * tw + i < nx" using k(2) assms(2,3) by simp_all
  ultimately show ?thesis using raster_nth [of i tw y th c nc] k(3) assms(1,4)
    by (simp add: cut_tile_def sample_def k(1) algebra_simps)
qed

text \<open>The places of a buffer that a tile is copied to.\<close>

definition tile_places :: "nat \<Rightarrow> nat \<Rightarrow> nat \<Rightarrow> nat \<Rightarrow> nat \<Rightarrow> nat \<Rightarrow> nat \<Rightarrow> nat set" where
  "tile_places nx ny nc tw th tx ty =
     (\<Union>y\<in>{0..<tile_len ny th ty}. {nc * ((ty * th + y) * nx + tx * tw)..<nc * ((ty * th + y) * nx + tx * tw) + nc * tile_len nx tw tx})"

lemma tile_paints:
  assumes "tx < tiles_of nx tw" and "ty < tiles_of ny th" and "length img = nx * ny * nc" and "length buf = nx * ny * nc"
    and "nx * ny * nc < 2 ^ 32" and "tw * th * nc < 2 ^ 32" and "nx < 2 ^ 32" and "ny < 2 ^ 32"
  shows "copy_tile nc nx 0 (tile_len nx tw tx) 0 (tile_len ny th ty) (tx * tw) (ty * th) (cut_tile nx ny nc tw th (sample nc nx img) tx ty) tw buf
    = Inr (paint img (tile_places nx ny nc tw th tx ty) buf)"
proof -
  note b = tile_before [OF assms(1)] tile_before [OF assms(2)]
  have l: "tile_len nx tw tx \<le> tw" "tx * tw + tile_len nx tw tx \<le> nx" "tile_len ny th ty \<le> th" "ty * th + tile_len ny th ty \<le> ny"
    using b by (simp_all add: tile_len_def)
  have u: "int (tile_len nx tw tx) mod 4294967296 = int (tile_len nx tw tx)" "int (tile_len ny th ty) mod 4294967296 = int (tile_len ny th ty)"
    "u32 (tile_len nx tw tx) = tile_len nx tw tx" "u32 (tile_len ny th ty) = tile_len ny th ty"
    using l(2,4) assms(7,8) by (simp_all add: u32_def)
  have "for_each (\<lambda>y. copy_to (u32 (nc * ((ty * th + y) * nx + tx * tw))) (u32 (nc * (y * tw))) (u32 (nc * tile_len nx tw tx))
        (cut_tile nx ny nc tw th (sample nc nx img) tx ty)) [0..<tile_len ny th ty] buf
      = Inr (paint img (\<Union>y\<in>set [0..<tile_len ny th ty].
          {nc * ((ty * th + y) * nx + tx * tw)..<nc * ((ty * th + y) * nx + tx * tw) + nc * tile_len nx tw tx}) buf)"
  proof (rule loop_paints [OF _ assms(4)])
    fix y and s :: "nat list"
    assume y: "y \<in> set [0..<tile_len ny th ty]" and s: "length s = nx * ny * nc"
    then have y: "y < th" "ty * th + y < ny" using l(3,4) by auto
    have d: "nc * ((ty * th + y) * nx + tx * tw) + nc * tile_len nx tw tx \<le> nx * ny * nc" by (rule segment_bound [OF y(2) l(2)])
    have e: "nc * (y * tw + 0) + nc * tile_len nx tw tx \<le> tw * th * nc" using l(1) by (intro segment_bound [OF y(1)]) simp
    have "u32 (nc * ((ty * th + y) * nx + tx * tw)) = nc * ((ty * th + y) * nx + tx * tw)" "u32 (nc * (y * tw)) = nc * (y * tw)"
      "u32 (nc * tile_len nx tw tx) = nc * tile_len nx tw tx"
      using d e assms(5,6) by (simp_all add: u32_def)
    moreover have "copy_to (nc * ((ty * th + y) * nx + tx * tw)) (nc * (y * tw)) (nc * tile_len nx tw tx) (cut_tile nx ny nc tw th (sample nc nx img) tx ty) s
      = Inr (paint img {nc * ((ty * th + y) * nx + tx * tw)..<nc * ((ty * th + y) * nx + tx * tw) + nc * tile_len nx tw tx} s)"
      by (rule copy_paints) (use d e s cut_tile_nth [OF y(2) l(2,1) y(1)] in \<open>simp_all add: cut_tile_def [THEN arg_cong [of _ _ length]]\<close>)
    ultimately show "copy_to (u32 (nc * ((ty * th + y) * nx + tx * tw))) (u32 (nc * (y * tw))) (u32 (nc * tile_len nx tw tx))
        (cut_tile nx ny nc tw th (sample nc nx img) tx ty) s
      = Inr (paint img {nc * ((ty * th + y) * nx + tx * tw)..<nc * ((ty * th + y) * nx + tx * tw) + nc * tile_len nx tw tx} s)"
      by (simp only:)
  qed
  then show ?thesis by (simp add: copy_tile_def tile_places_def u)
qed

lemma tiles_cover:
  assumes "0 < tw" and "0 < th"
  shows "{..<nx * ny * nc} \<subseteq> (\<Union>ty\<in>{0..<tiles_of ny th}. \<Union>tx\<in>{0..<tiles_of nx tw}. tile_places nx ny nc tw th tx ty)"
proof
  fix p
  assume "p \<in> {..<nx * ny * nc}"
  then have "p < nx * ny * nc" by simp
  then obtain j i k where p: "p = nc * (j * nx + i) + k" "i < nx" "j < ny" "k < nc" by (rule split_index)
  note x = tile_of_pixel [OF p(2) assms(1)] and y = tile_of_pixel [OF p(3) assms(2)]
  have "nc * (i mod tw) + k < nc * Suc (i mod tw)" using p(4) by simp
  also have "\<dots> \<le> nc * tile_len nx tw (i div tw)" using x(2) by (intro mult_le_mono2) simp
  finally have e: "nc * (i mod tw) + k < nc * tile_len nx tw (i div tw)" .
  have j: "j div th * th + j mod th = j" by simp
  have "nc * (j * nx + i) = nc * (j * nx + i div tw * tw) + nc * (i mod tw)" by (simp flip: add_mult_distrib2 add: add.assoc)
  then have "p \<in> {nc * (j * nx + i div tw * tw)..<nc * (j * nx + i div tw * tw) + nc * tile_len nx tw (i div tw)}" using p(1) e by simp
  then have "p \<in> tile_places nx ny nc tw th (i div tw) (j div th)"
    unfolding tile_places_def using y(2) by (intro UN_I [of "j mod th"]) (simp_all add: j)
  with x(1) y(1) show "p \<in> (\<Union>ty\<in>{0..<tiles_of ny th}. \<Union>tx\<in>{0..<tiles_of nx tw}. tile_places nx ny nc tw th tx ty)" by (intro UN_I [of "j div th"] UN_I [of "i div tw"]) simp_all
qed

section \<open>A file of tiles\<close>

text \<open>
  The file holds the tiles that are written of an image. Dividing in \<open>float\<close> gives the number of tiles, as it does for sizes below \<open>2^24\<close>
  that are not within the epsilon of a multiple.
\<close>

definition holds_tiles :: "tiff \<Rightarrow> nat list \<Rightarrow> bool" where
  "holds_tiles t img \<longleftrightarrow>
     t_planar t \<noteq> PLANAR_SEPARATE \<and> (t_bps t = 8 \<or> t_bps t = 16) \<and> 0 < t_tile_width t \<and> 0 < t_tile_length t
     \<and> length img = t_nx t * t_ny t * t_nc t \<and> t_nx t * t_ny t * t_nc t < 2 ^ 32 \<and> t_tile_width t * t_tile_length t * t_nc t < 2 ^ 32
     \<and> t_nx t + t_tile_width t < 2 ^ 32 \<and> t_ny t + t_tile_length t < 2 ^ 32
     \<and> tile_range 0 (t_nx t) (t_tile_width t) = Inr (0, tiles_of (t_nx t) (t_tile_width t))
     \<and> tile_range 0 (t_ny t) (t_tile_length t) = Inr (0, tiles_of (t_ny t) (t_tile_length t))
     \<and> t_ntiles t = u32 (tiles_of (t_nx t) (t_tile_width t) * tiles_of (t_ny t) (t_tile_length t))
     \<and> (\<forall>tx < tiles_of (t_nx t) (t_tile_width t). \<forall>ty < tiles_of (t_ny t) (t_tile_length t).
          map_option Inr (t_tile t tx ty) = Some (write_tile img (t_nx t) (t_ny t) (t_nc t) (t_tile_width t) (t_tile_length t) tx ty))"

lemma held_tile:
  assumes "holds_tiles t img" and "tx < tiles_of (t_nx t) (t_tile_width t)" and "ty < tiles_of (t_ny t) (t_tile_length t)"
  shows "read_tile t tx ty = Inr (cut_tile (t_nx t) (t_ny t) (t_nc t) (t_tile_width t) (t_tile_length t) (sample (t_nc t) (t_nx t) img) tx ty)"
proof -
  have "write_tile img (t_nx t) (t_ny t) (t_nc t) (t_tile_width t) (t_tile_length t) tx ty
      = Inr (cut_tile (t_nx t) (t_ny t) (t_nc t) (t_tile_width t) (t_tile_length t) (sample (t_nc t) (t_nx t) img) tx ty)"
    using assms(1) tile_before [OF assms(2)] tile_before [OF assms(3)] by (intro written_tile) (simp_all add: holds_tiles_def)
  moreover have "map_option Inr (t_tile t tx ty)
      = Some (write_tile img (t_nx t) (t_ny t) (t_nc t) (t_tile_width t) (t_tile_length t) tx ty)"
    using assms unfolding holds_tiles_def by blast
  ultimately have "t_tile t tx ty = Some (cut_tile (t_nx t) (t_ny t) (t_nc t) (t_tile_width t) (t_tile_length t) (sample (t_nc t) (t_nx t) img) tx ty)"
    by auto
  with assms(1) show ?thesis by (simp add: read_tile_def holds_tiles_def)
qed

text \<open>
  C40: An image whose tiles are written to a file is what is read of all of the file, also where the last tiles stand over its edges.
\<close>

theorem tiles_roundtrip:
  assumes "holds_tiles t img"
  shows "read_tiled_data t 0 0 (t_nx t) (t_ny t) = Inr img"
proof -
  let ?nx = "t_nx t" and ?ny = "t_ny t" and ?nc = "t_nc t" and ?tw = "t_tile_width t" and ?tl = "t_tile_length t"
  let ?ax = "tiles_of ?nx ?tw" and ?ay = "tiles_of ?ny ?tl"
  note h = assms [unfolded holds_tiles_def]
  let ?step = "\<lambda>ty tx buf.
      case read_tile t tx ty of Inl e \<Rightarrow> Inl e
      | Inr tilebuf \<Rightarrow> copy_tile ?nc ?nx (start_in tx 0 0 ?tw) (end_in tx ?ax 0 ?nx ?tw) (start_in ty 0 0 ?tl) (end_in ty ?ay 0 ?ny ?tl)
          (start_out tx 0 0 ?tw) (start_out ty 0 0 ?tl) tilebuf ?tw buf"
  let ?D = "\<lambda>ty tx. tile_places ?nx ?ny ?nc ?tw ?tl tx ty"
  have step: "?step ty tx buf = Inr (paint img (?D ty tx) buf)"
    if "tx < ?ax" "ty < ?ay" "length buf = ?nx * ?ny * ?nc" for tx ty buf
  proof -
    note b = tile_before [OF that(1)] tile_before [OF that(2)]
    have e: "end_in tx ?ax 0 ?nx ?tw = tile_len ?nx ?tw tx" "end_in ty ?ay 0 ?ny ?tl = tile_len ?ny ?tl ty"
      using h by (simp_all add: end_in_0 [OF that(1)] end_in_0 [OF that(2)])
    have so: "start_out tx 0 0 ?tw = tx * ?tw" "start_out ty 0 0 ?tl = ty * ?tl" using h b by (simp_all add: start_out_0)
    have "copy_tile ?nc ?nx 0 (tile_len ?nx ?tw tx) 0 (tile_len ?ny ?tl ty) (tx * ?tw) (ty * ?tl)
        (cut_tile ?nx ?ny ?nc ?tw ?tl (sample ?nc ?nx img) tx ty) ?tw buf = Inr (paint img (?D ty tx) buf)"
      using h by (intro tile_paints that) simp_all
    then show ?thesis by (simp add: held_tile [OF assms that(1,2)] e so start_in_0)
  qed
  have row: "for_each (?step ty) [0..<?ax] buf = Inr (paint img (\<Union>tx\<in>set [0..<?ax]. ?D ty tx) buf)"
    if "ty < ?ay" "length buf = ?nx * ?ny * ?nc" for ty buf
    by (rule loop_paints [OF _ that(2)]) (use step that(1) in simp)
  have "for_each (\<lambda>ty. for_each (?step ty) [0..<?ax]) [0..<?ay] (replicate (?nx * ?ny * ?nc) 0)
      = Inr (paint img (\<Union>ty\<in>set [0..<?ay]. \<Union>tx\<in>set [0..<?ax]. ?D ty tx) (replicate (?nx * ?ny * ?nc) 0))"
    by (rule loop_paints [where n = "?nx * ?ny * ?nc"]) (use row in simp_all)
  also have "\<dots> = Inr img"
    using tiles_cover [of ?tw ?tl ?nx ?ny ?nc] h by (intro arg_cong [of _ _ Inr] paint_all) simp_all
  finally show ?thesis using h by (auto simp: read_tiled_data_def Let_def u32_def)
qed

text \<open>A picture of three by three pixels in four tiles of two by two.\<close>

definition four_tiles :: tiff where
  "four_tiles = \<lparr>t_planar = PLANAR_CONTIG, t_compressed = False, t_nx = 3, t_ny = 3, t_nc = 1, t_bps = 8, t_photo = MINISBLACK,
     t_line = (\<lambda>_ _. None), t_tile_width = 2, t_tile_length = 2, t_ntiles = 4,
     t_tile = (\<lambda>tx ty. if tx = 0 then (if ty = 0 then Some [1, 2, 4, 5] else Some [7, 8, 0, 0])
                       else (if ty = 0 then Some [3, 0, 6, 0] else Some [9, 0, 0, 0]))\<rparr>"

lemma small_quotients: "f32 (3 / 2) = 3 / 2" "f32 (1 / 2) = 1 / 2" "f32 (5 / 2) = 5 / 2"
proof -
  have "\<lfloor>3 / 2 :: rat\<rfloor> = 1" "\<lfloor>5 / 2 :: rat\<rfloor> = 2" by (simp_all add: floor_eq_iff)
  moreover have "bit_length 1 = 1" "bit_length 2 = 2" by (simp_all add: bit_length.simps)
  ultimately have e: "exponent (3 / 2) = 0" "exponent (1 / 2) = - 1" "exponent (5 / 2) = 1" by (simp_all add: exponent_def)
  have p: "pow2 (- 23) = 1 / 8388608" "pow2 (- 24) = 1 / 16777216" "pow2 (- 22) = 1 / 4194304" by (simp_all add: pow2_def)
  have r: "round_even 12582912 = 12582912" "round_even 8388608 = 8388608" "round_even 10485760 = 10485760" by (simp_all add: round_even_def)
  show "f32 (3 / 2) = 3 / 2" "f32 (1 / 2) = 1 / 2" "f32 (5 / 2) = 5 / 2" unfolding f32_def Let_def by (simp_all add: e p r)
qed

lemma epsilon_below_half: "epsilon < 1 / 2"
proof -
  have b: "bit_length 9999 = 14" by (simp add: bit_length.simps)
  have e: "exponent (1 / 10000) = - 14" by (simp add: exponent_def b)
  have p: "pow2 (- 37) = 1 / 137438953472" by (simp add: pow2_def)
  have r: "round_even (137438953472 / 10000) \<le> 137438953472 div 4"
    using round_even_le [of "137438953472 / 10000" "137438953472 div 4"] by simp
  show ?thesis unfolding epsilon_def f32_def Let_def using r by (simp add: e p)
qed

lemma four_tiles_ranges: "tile_range 0 3 2 = Inr (0, 2)" "tile_range 1 2 2 = Inr (0, 2)" "tile_range 0 1 2 = Inr (0, 1)"
    "tile_range 0 6 2 = Inr (0, 3)" "tile_range 3 2 2 = Inr (1, 3)" "tile_range 0 2 2 = Inr (0, 1)"
proof -
  have f: "f32_of_int 0 = 0" "f32_of_int 1 = 1" "f32_of_int 2 = 2" "f32_of_int 3 = 3" "f32_of_int 5 = 5" "f32_of_int 6 = 6"
    using f32_of_small_int [of 0] f32_of_small_int [of 1] f32_of_small_int [of 2] f32_of_small_int [of 3]
      f32_of_small_int [of 5] f32_of_small_int [of 6] by simp_all
  have c: "\<lfloor>3 / 2 :: rat\<rfloor> = 1" "\<lceil>3 / 2 :: rat\<rceil> = 2" "\<lfloor>1 / 2 :: rat\<rfloor> = 0" "\<lceil>1 / 2 :: rat\<rceil> = 1" "\<lfloor>5 / 2 :: rat\<rfloor> = 2" "\<lceil>5 / 2 :: rat\<rceil> = 3"
    by (simp_all add: floor_eq_iff ceiling_eq_iff)
  have "epsilon_ceil (3 / 2) = 2" "epsilon_ceil (1 / 2) = 1" "epsilon_floor (1 / 2) = 0" "epsilon_floor 0 = 0" "epsilon_ceil (5 / 2) = 3" "epsilon_floor (3 / 2) = 1" "epsilon_ceil 3 = 3" "epsilon_ceil 1 = 1"
    using epsilon_below_half by (simp_all add: epsilon_ceil_def epsilon_floor_def c)
  moreover have "f32 0 = 0" "f32 1 = 1" "f32 3 = 3" using f32_of_small_nat [of 0] f32_of_small_nat [of 1] f32_of_small_nat [of 3] by simp_all
  ultimately show "tile_range 0 3 2 = Inr (0, 2)" "tile_range 1 2 2 = Inr (0, 2)" "tile_range 0 1 2 = Inr (0, 1)"
    "tile_range 0 6 2 = Inr (0, 3)" "tile_range 3 2 2 = Inr (1, 3)" "tile_range 0 2 2 = Inr (0, 1)"
    by (simp_all add: tile_range_def epsilon_ceil_division_def epsilon_floor_division_def f32_div_def u32_def f small_quotients)
qed

lemma four_tiles_held: "holds_tiles four_tiles [1, 2, 3, 4, 5, 6, 7, 8, 9]"
proof -
  have "map_option Inr (t_tile four_tiles tx ty) = Some (write_tile [1, 2, 3, 4, 5, 6, 7, 8, 9] 3 3 1 2 2 tx ty)"
    if "tx < 2" "ty < 2" for tx ty
  proof -
    have w: "write_tile [1, 2, 3, 4, 5, 6, 7, 8, 9] 3 3 1 2 2 tx ty = Inr (cut_tile 3 3 1 2 2 (sample 1 3 [1, 2, 3, 4, 5, 6, 7, 8, 9]) tx ty)"
      using that by (intro written_tile) simp_all
    have "tx = 0 \<or> tx = 1" "ty = 0 \<or> ty = 1" using that by auto
    then show ?thesis unfolding w
      by (auto simp: four_tiles_def cut_tile_def raster_def sample_def upt_rec)
  qed
  moreover have "tiles_of 3 2 = 2" by (simp add: tiles_of_def)
  ultimately show ?thesis using four_tiles_ranges
    by (simp add: holds_tiles_def four_tiles_def u32_def)
qed

theorem tiles_roundtrip_witness: "read_tiled_data four_tiles 0 0 3 3 = Inr [1, 2, 3, 4, 5, 6, 7, 8, 9]"
  using tiles_roundtrip [OF four_tiles_held] by (simp add: four_tiles_def)

text \<open>A region that begins in the first tile is read as it is. One that begins in another tile is written before the beginning of the buffer.\<close>

definition three_tiles :: tiff where
  "three_tiles = four_tiles\<lparr>t_nx := 6, t_ny := 2, t_ntiles := 3\<rparr>"

theorem region_of_tiles: "read_tiled_data four_tiles 1 0 2 1 = Inr [2, 3] \<and> read_tiled_data three_tiles 3 0 2 1 = Inl Undefined"
  using four_tiles_ranges
  by (simp_all add: read_tiled_data_def three_tiles_def four_tiles_def u32_def read_tile_def copy_tile_def start_in_def end_in_def start_out_def copy_to_def
      Let_def upt_rec)

end
