(* ===== verification/TiffImage.thy ===== *)
theory TiffImage
  imports Startup IIIFServe TiffRead
begin

text \<open>
  Reading an image from a TIFF file and writing one, \<open>IIIFIOTiff::read\<close>, \<open>getDim\<close>, \<open>write\<close> and \<open>read_watermark\<close> of
  \<open>handlers/iiifhandler/imgformats/IIIFIOTiff.cpp\<close>, without the texts of the metadata. A file is what libtiff says of it: its directories and
  those fields of the first one that the image takes over. What is written is the file that libtiff then presents, since it keeps samples as they are.
\<close>

section \<open>Files\<close>

record tiff_file =
  f_dirs :: "tiff list"
  f_orient :: orientation
  f_extra :: "nat list"
  f_colormap :: "(nat list \<times> nat list \<times> nat list) option"
  f_icc :: bool

definition extra_of :: "nat \<Rightarrow> extra_sample" where
  "extra_of k = (if k = 1 then ASSOCALPHA else if k = 2 then UNASSALPHA else UNSPECIFIED)"

definition extra_code :: "extra_sample \<Rightarrow> nat" where
  "extra_code x = (case x of UNSPECIFIED \<Rightarrow> 0 | ASSOCALPHA \<Rightarrow> 1 | UNASSALPHA \<Rightarrow> 2)"

fun photo_code :: "photometric \<Rightarrow> nat" where
  "photo_code MINISWHITE = 0" | "photo_code MINISBLACK = 1" | "photo_code RGB = 2" | "photo_code PALETTE = 3" | "photo_code MASK = 4"
| "photo_code SEPARATED = 5" | "photo_code YCBCR = 6" | "photo_code CIELAB = 8" | "photo_code ICCLAB = 9" | "photo_code ITULAB = 10"
| "photo_code CFA = 32803" | "photo_code LOGL = 32844" | "photo_code LOGLUV = 32845" | "photo_code LINEARRAW = 34892"
| "photo_code INVALID = 65535"

section \<open>Reading: the header\<close>

text \<open>
  The colors of a palette. The vectors for them are not given a length, only room; they are taken here as if they had the length of the room.
  The number of colors is an \<open>int\<close>.
\<close>

definition color_map :: "nat \<Rightarrow> nat list \<Rightarrow> exn + nat list" where
  "color_map bits col =
     (if bits \<ge> 31 \<or> length col < 2 ^ bits then Inl Undefined
      else Inr (map (\<lambda>v. if bits \<le> 8 then v div 256 else v) (take (2 ^ bits) col)))"

definition tiff_header :: "tiff_file \<Rightarrow> exn + iiif_image" where
  "tiff_header f =
     (case f_dirs f of
        [] \<Rightarrow> Inl Undefined
      | d # _ \<Rightarrow> Inr (no_image\<lparr>img_nx := t_nx d, img_ny := t_ny d, img_nc := t_nc d, bps := t_bps d, orient := f_orient f, photo := t_photo d,
          es := map extra_of (f_extra f)\<rparr>))"

definition read_colormap :: "string \<Rightarrow> tiff_file \<Rightarrow> iiif_image \<Rightarrow> exn + nat list \<times> nat list \<times> nat list" where
  "read_colormap path f img =
     (if photo img \<noteq> PALETTE then Inr ([], [], [])
      else (case f_colormap f of
          None \<Rightarrow> Inl (CsError (''TIFFGetField of TIFFTAG_COLORMAP failed: '' @ path))
        | Some (r, g, b) \<Rightarrow>
            (case (color_map (bps img) r, color_map (bps img) g, color_map (bps img) b) of
               (Inr rcm, Inr gcm, Inr bcm) \<Rightarrow> Inr (rcm, gcm, bcm)
             | _ \<Rightarrow> Inl Undefined)))"

section \<open>Reading: the choice of a resolution\<close>

text \<open>The state of the following is the region and the size that the caller gave, which these calls change.\<close>

type_synonym wanted = "region option \<times> iiif_size option"

definition resolutions_of :: "nat \<Rightarrow> tiff list \<Rightarrow> exn + sub_image list" where
  "resolutions_of nx dirs =
     (if \<exists>d \<in> set dirs. t_nx d = 0 then Inl Undefined
      else Inr (map (\<lambda>d. resolution_of nx (t_nx d) (t_ny d) (t_tile_width d) (t_tile_length d)) dirs))"

definition crop_wanted :: "nat \<Rightarrow> nat \<Rightarrow> (wanted, int \<times> int \<times> nat \<times> nat) act" where
  "crop_wanted nx ny st =
     (case fst st of
        None \<Rightarrow> (Inr (0, 0, nx, ny), st)
      | Some r \<Rightarrow> (case crop_coords nx ny r of (Inl e, r1) \<Rightarrow> (Inl e, (Some r1, snd st)) | (Inr (_, q), r1) \<Rightarrow> (Inr q, (Some r1, snd st))))"

text \<open>\<open>size\<close> is used without asking whether there is one.\<close>

definition size_wanted :: "nat \<Rightarrow> nat \<Rightarrow> nat \<Rightarrow> (wanted, size_type \<times> nat \<times> nat \<times> nat \<times> bool) act" where
  "size_wanted w h reduce_io st =
     (case snd st of
        None \<Rightarrow> (Inl Undefined, st)
      | Some s \<Rightarrow> (case get_size w h reduce_io False s of (res, s1) \<Rightarrow> (res, (fst st, Some s1))))"

definition select_level :: "nat \<Rightarrow> nat \<Rightarrow> sub_image list \<Rightarrow> (wanted, nat) act" where
  "select_level nx ny ress =
     (if length ress > 1 then
        sbind (crop_wanted nx ny) (\<lambda>(_, _, w, h).
        sbind (size_wanted w h 1) (\<lambda>(_, _, _, red, _).
          case choose_level red ress of
            Inl e \<Rightarrow> sthrow e
          | Inr k \<Rightarrow> sbind (smod (\<lambda>(rg, sz). (map_option (set_reduce (f32_of_int (int red))) rg, sz))) (\<lambda>_. sret k)))
      else sret 0)"

definition part_wanted :: "nat \<Rightarrow> nat \<Rightarrow> (wanted, int \<times> int \<times> nat \<times> nat) act" where
  "part_wanted nx ny =
     sif (\<lambda>st. case fst st of None \<Rightarrow> True | Some r \<Rightarrow> coord_type r = FULL) (sret (0, 0, nx, ny)) (crop_wanted nx ny)"

section \<open>Reading: the pixels\<close>

definition read_samples :: "nat \<Rightarrow> tiff \<Rightarrow> int \<Rightarrow> int \<Rightarrow> nat \<Rightarrow> nat \<Rightarrow> exn + nat list" where
  "read_samples bits t x y w h =
     (if bits > 16 then Inr []
      else if t_tile_width t \<noteq> 0 \<and> t_tile_length t \<noteq> 0 then read_tiled_data t (nat x) (nat y) w h
      else read_standard_data t (nat x) (nat y) w h)"

definition take_samples :: "nat list \<Rightarrow> nat \<Rightarrow> nat \<Rightarrow> iiif_image \<Rightarrow> iiif_image" where
  "take_samples buf w h img =
     (if bps img \<le> 8 then img\<lparr>bpixels := buf, bps := 8\<rparr> else if bps img \<le> 16 then img\<lparr>wpixels := buf, bps := 16\<rparr> else img)
       \<lparr>img_nx := w, img_ny := h\<rparr>"

definition apply_palette :: "nat \<Rightarrow> nat list \<times> nat list \<times> nat list \<Rightarrow> iiif_image \<Rightarrow> exn + iiif_image" where
  "apply_palette colmap_len cols img =
     (if photo img \<noteq> PALETTE then Inr img
      else if bps img \<noteq> (if colmap_len \<le> 256 then 8 else 16)
      then Inl (CsError (''Invalid palette format: bps='' @ dec_string (bps img) @ '' colmap_length='' @ dec_string colmap_len))
      else (case cols of (rcm, gcm, bcm) \<Rightarrow>
        (case expand_palette rcm gcm bcm (img_nc img) (u32 (img_nx img * img_ny img)) (pixels img) of
           Inl e \<Rightarrow> Inl e
         | Inr buf \<Rightarrow> Inr ((set_pixels buf img)\<lparr>img_nc := img_nc img + 2, photo := RGB\<rparr>))))"

text \<open>Without a profile of its own the image gets a standard one, for which the colors of CIELAB are made positive.\<close>

definition standard_colors :: "bool \<Rightarrow> iiif_image \<Rightarrow> exn + iiif_image" where
  "standard_colors has_icc img =
     (if has_icc \<or> photo img \<in> {MINISBLACK, MINISWHITE, SEPARATED, YCBCR, RGB} then Inr img
      else if photo img = CIELAB then
        (if bps_ok img then
           (case lab_channels (lab_read (bps img)) (img_nx img) (img_ny img) (img_nc img) (pixels img) of
              Inl e \<Rightarrow> Inl e | Inr buf \<Rightarrow> Inr (set_pixels buf img))
         else Inl (CsError (''Unsupported bits per sample (bps='' @ dec_string (bps img) @ '')'')))
      else Inl (CsError (''Unsupported photometric interpretation (photo='' @ dec_string (photo_code (photo img)) @ '')'')))"

text \<open>The quality is that of JPEG files.\<close>

definition resize_read :: "scaling_method \<Rightarrow> iiif_image \<Rightarrow> (wanted, iiif_image) act" where
  "resize_read jpeg_quality img =
     sif (\<lambda>st. snd st = None) (sret img)
       (sbind (size_wanted (img_nx img) (img_ny img) (2 ^ 32 - 1)) (\<lambda>(rtype, nnx, nny, _, _).
          if rtype = SZ_FULL then sret img
          else (case (case jpeg_quality of HIGH \<Rightarrow> scale | MEDIUM \<Rightarrow> scaleMedium | LOW \<Rightarrow> scaleFast) nnx nny img of
              (Inl e, _) \<Rightarrow> sthrow e
            | (Inr _, img1) \<Rightarrow> sret img1)))"

definition force_8 :: "bool \<Rightarrow> iiif_image \<Rightarrow> exn + iiif_image" where
  "force_8 wished img =
     (if wished then
        (case to8bps img of
           (Inl e, _) \<Rightarrow> Inl e
         | (Inr ok, img1) \<Rightarrow> if ok then Inr img1 else Inl (CsError ''Cannot convert to 8 Bits(sample''))
      else Inr img)"

definition of_result :: "exn + 'a \<Rightarrow> ('s, 'a) act" where
  "of_result r = (case r of Inl e \<Rightarrow> sthrow e | Inr x \<Rightarrow> sret x)"

definition read_tiff :: "string \<Rightarrow> tiff_file option \<Rightarrow> scaling_method \<Rightarrow> bool \<Rightarrow> (wanted, iiif_image) act" where
  "read_tiff path file jpeg_quality force_bps_8 =
     (case file of
        None \<Rightarrow> sthrow (CsError (''Cannot open TIFF file '' @ apostrophes path))
      | Some f \<Rightarrow>
          sbind (of_result (tiff_header f)) (\<lambda>img.
          sbind (of_result (read_colormap path f img)) (\<lambda>cols.
          sbind (of_result (resolutions_of (img_nx img) (f_dirs f))) (\<lambda>ress.
          sbind (select_level (img_nx img) (img_ny img) ress) (\<lambda>level.
          let t = f_dirs f ! level in
          sbind (part_wanted (t_nx t) (t_ny t)) (\<lambda>(x, y, w, h).
          sbind (of_result (read_samples (bps img) t x y w h)) (\<lambda>buf.
          sbind (of_result (apply_palette (2 ^ bps img) cols (take_samples buf w h img))) (\<lambda>img1.
          sbind (of_result (standard_colors (f_icc f) img1)) (\<lambda>img2.
          sbind (resize_read jpeg_quality img2) (\<lambda>img3. of_result (force_8 force_bps_8 img3)))))))))))"

section \<open>Reading: sizes and watermarks\<close>

definition dims_of :: "nat \<Rightarrow> nat \<Rightarrow> tiff \<Rightarrow> exn + sub_image list" where
  "dims_of nx ny d =
     (case (epsilon_floor_division (fnat nx) (fnat (t_nx d)), epsilon_floor_division (fnat ny) (fnat (t_ny d))) of
        (Inr a, Inr b) \<Rightarrow>
          Inr (if u32 a = u32 b \<and> 0 < t_tile_width d \<and> 0 < t_tile_length d
               then [level_info (u32 a) (t_nx d) (t_ny d) (t_tile_width d) (t_tile_length d)] else [])
      | _ \<Rightarrow> Inl Undefined)"

text \<open>Width and height are kept as \<open>int\<close>; larger ones become negative.\<close>

definition tiff_getDim :: "tiff_file option \<Rightarrow> exn + img_info" where
  "tiff_getDim file =
     (case map_option f_dirs file of
        Some (d # ds) \<Rightarrow>
          (if t_nx d \<ge> 2 ^ 31 \<or> t_ny d \<ge> 2 ^ 31 then Inl Undefined
           else (case for_each (\<lambda>d1 rs. case dims_of (t_nx d) (t_ny d) d1 of Inl e \<Rightarrow> Inl e | Inr r \<Rightarrow> Inr (rs @ r)) (d # ds) [] of
               Inl e \<Rightarrow> Inl e
             | Inr rs \<Rightarrow> Inr \<lparr>info_success = True, info_width = t_nx d, info_height = t_ny d, info_resolutions = rs\<rparr>))
      | _ \<Rightarrow> Inr \<lparr>info_success = False, info_width = 0, info_height = 0, info_resolutions = []\<rparr>)"

definition watermark_error :: "string \<Rightarrow> string \<Rightarrow> exn" where
  "watermark_error what wmfile = CsError (''ERROR in read_watermark: '' @ what @ wmfile)"

definition not_equal :: string where "not_equal = [CHR 0xE2, CHR 0x89, CHR 0xA0]"

text \<open>Samples, width, height and channels; the number of channels is left as it was when there is no such file.\<close>

definition read_watermark :: "nat \<Rightarrow> string \<Rightarrow> tiff_file option \<Rightarrow> exn + nat list \<times> nat \<times> nat \<times> nat" where
  "read_watermark nc wmfile file =
     (case map_option f_dirs file of
        Some (t # _) \<Rightarrow>
          if t_nc t \<noteq> 1 then Inl (watermark_error (''ssp '' @ not_equal @ '' 1: '') wmfile)
          else if t_bps t \<noteq> 8 then Inl (watermark_error (''bps '' @ not_equal @ '' 8: '') wmfile)
          else if t_planar t \<noteq> PLANAR_CONTIG then Inl (watermark_error ''Tag TIFFTAG_PLANARCONFIG is not PLANARCONFIG_CONTIG: '' wmfile)
          else (case for_each (\<lambda>i buf. case t_line t i 0 of
                None \<Rightarrow> Inl (watermark_error (''TIFFReadScanline failed on scanline '' @ dec_string i @ '' in file '') wmfile)
              | Some line \<Rightarrow> copy_to (u32 (i * t_nx t)) 0 (t_nx t) line buf) [0..<t_ny t] (replicate (u32 (t_ny t * t_nx t)) 0) of
              Inl e \<Rightarrow> Inl e
            | Inr buf \<Rightarrow> Inr (buf, t_nx t, t_ny t, 1))
      | _ \<Rightarrow> Inr ([], 0, 0, nc))"

section \<open>Writing: the resolutions\<close>

text \<open>
  A match of \<open>(([0-9]+):([0-9]+)(,[0-9]+)?)+\<close> that begins here: it is one such group, since what follows the digits is no digit.
\<close>

definition match_resolution :: "string \<Rightarrow> ((string \<times> string \<times> string) \<times> string) option" where
  "match_resolution s =
     (let a = takeWhile isdigit s in
      case dropWhile isdigit s of
        [] \<Rightarrow> None
      | c # r \<Rightarrow>
          let b = takeWhile isdigit r; r1 = dropWhile isdigit r; r2 = drop 1 r1 in
          if c = CHR '':'' \<and> a \<noteq> [] \<and> b \<noteq> [] then
            (if take 1 r1 = '','' \<and> takeWhile isdigit r2 \<noteq> [] then Some ((a, b, takeWhile isdigit r2), dropWhile isdigit r2)
             else Some ((a, b, b), r1))
          else None)"

lemma match_resolution_shorter: "match_resolution s = Some (m, r) \<Longrightarrow> length r < length s"
proof -
  assume m: "match_resolution s = Some (m, r)"
  have w: "length (dropWhile isdigit (drop 1 (dropWhile isdigit x))) \<le> length x" for x
    using length_dropWhile_le [of isdigit "drop 1 (dropWhile isdigit x)"] length_dropWhile_le [of isdigit x] by simp
  obtain c r0 where d: "dropWhile isdigit s = c # r0" and "length r \<le> length r0"
    using m w length_dropWhile_le [of isdigit] by (fastforce simp: match_resolution_def Let_def split: list.splits if_splits)
  moreover have "length (dropWhile isdigit s) \<le> length s" by (rule length_dropWhile_le)
  ultimately show ?thesis by simp
qed

text \<open>\<open>std::stoul\<close> throws for a number that does not fit; what was found before stays.\<close>

function parse_pyramid :: "string \<Rightarrow> (nat \<times> nat \<times> nat) list" where
  "parse_pyramid [] = []"
| "parse_pyramid (c # cs) =
     (case match_resolution (c # cs) of
        None \<Rightarrow> parse_pyramid cs
      | Some ((a, w, h), r) \<Rightarrow>
          if scan_digits 10 0 a \<ge> 2 ^ 64 \<or> scan_digits 10 0 w \<ge> 2 ^ 64 \<or> scan_digits 10 0 h \<ge> 2 ^ 64 then []
          else (u32 (scan_digits 10 0 a), u32 (scan_digits 10 0 w), u32 (scan_digits 10 0 h)) # parse_pyramid r)"
  by pat_completeness auto
termination by (relation "measure length") (auto dest: match_resolution_shorter)

section \<open>Writing: directories\<close>

definition is_compressed :: "bool \<Rightarrow> string \<Rightarrow> bool" where
  "is_compressed one_bit compression \<longleftrightarrow> one_bit \<or> compression = ''COMPRESSION_LZW'' \<or> compression = ''COMPRESSION_DEFLATE''"

definition write_basic_tags :: "iiif_image \<Rightarrow> nat \<Rightarrow> nat \<Rightarrow> bool \<Rightarrow> string \<Rightarrow> tiff" where
  "write_basic_tags img nx ny one_bit compression =
     \<lparr>t_planar = PLANAR_CONTIG, t_compressed = is_compressed one_bit compression, t_nx = nx, t_ny = ny, t_nc = img_nc img,
      t_bps = (if one_bit then 1 else bps img), t_photo = photo img, t_line = (\<lambda>_ _. None), t_tile_width = 0, t_tile_length = 0,
      t_ntiles = 0, t_tile = (\<lambda>_ _. None)\<rparr>"

fun bytes_of :: "nat list \<Rightarrow> nat list" where
  "bytes_of [] = []"
| "bytes_of (v # vs) = v mod 256 # v div 256 # bytes_of vs"

text \<open>The lines of \<open>len\<close> bytes that are written of a buffer, where one begins \<open>step\<close> after the other.\<close>

definition write_lines :: "nat list \<Rightarrow> nat \<Rightarrow> nat \<Rightarrow> tiff \<Rightarrow> exn + tiff" where
  "write_lines bytes step len t =
     (if \<forall>i < t_ny t. i * step + len \<le> length bytes
      then Inr (t\<lparr>t_line := (\<lambda>i plane. if i < t_ny t \<and> plane = 0 then Some (take len (drop (i * step) bytes)) else None)\<rparr>)
      else Inl Undefined)"

text \<open>
  A resolution in tiles. When its size cannot be told, width and height are not set; \<open>default_tile\<close> is what libtiff takes for a tile of no size.
\<close>

definition write_tiles :: "nat list \<Rightarrow> nat \<Rightarrow> nat \<Rightarrow> nat \<Rightarrow> nat \<Rightarrow> nat \<Rightarrow> nat \<Rightarrow> tiff \<Rightarrow> exn + tiff" where
  "write_tiles nbuf nnx nny tw th nx ny t =
     (let tile = write_tile nbuf nnx nny (t_nc t) tw th in
      if \<forall>ty < ny. \<forall>tx < nx. \<not> isl (tile tx ty)
      then Inr (t\<lparr>t_tile_width := tw, t_tile_length := th, t_ntiles := u32 (((t_nx t + tw - 1) div tw) * ((t_ny t + th - 1) div th)),
                  t_tile := (\<lambda>tx ty. if tx < nx \<and> ty < ny then (case tile tx ty of Inr xs \<Rightarrow> Some xs | Inl _ \<Rightarrow> None) else None)\<rparr>)
      else Inl Undefined)"

definition write_subfile :: "nat \<times> nat \<Rightarrow> iiif_image \<Rightarrow> string \<Rightarrow> nat \<times> nat \<times> nat \<Rightarrow> exn + tiff list" where
  "write_subfile default_tile img compression res =
     (case res of (level, w, h) \<Rightarrow>
       (case get_size (img_nx img) (img_ny img) level False (reduce_size level) of
          (Inl (SizeError _ _), _) \<Rightarrow> Inl Undefined
        | (Inl e, _) \<Rightarrow> Inl e
        | (Inr (_, nnx, nny, level1, _), _) \<Rightarrow>
            let (tw, th) = (if w = 0 \<or> h = 0 then default_tile else (w, h)); t = write_basic_tags img nnx nny False compression in
            if \<not> bps_ok img then Inr []
            else (case (if level1 > 1 then doReduce (pixels img) level1 (img_nx img) (img_ny img) (img_nc img) else Inr (pixels img, nnx)) of
                Inl e \<Rightarrow> Inl e
              | Inr (nbuf, nnx1) \<Rightarrow>
                  (case write_tiles nbuf nnx1 nny tw th (to_uint32 \<lceil>f32_div (fnat nnx) (fnat tw)\<rceil>) (to_uint32 \<lceil>f32_div (fnat nny) (fnat th)\<rceil>) t of
                     Inl e \<Rightarrow> Inl e | Inr t1 \<Rightarrow> Inr [t1]))))"

section \<open>Writing: the file\<close>

definition lab_written :: "iiif_image \<Rightarrow> exn + iiif_image" where
  "lab_written img =
     (if photo img \<noteq> CIELAB then Inr img
      else if bps_ok img then
        (case lab_channels (lab_write (bps img)) (img_nx img) (img_ny img) (img_nc img) (pixels img) of
           Inl e \<Rightarrow> Inl e | Inr buf \<Rightarrow> Inr (set_pixels buf img))
      else Inl (CsError (''Unsupported bits per sample (bps='' @ dec_string (bps img) @ '')'')))"

definition write_dirs :: "nat \<times> nat \<Rightarrow> (nat \<times> nat \<times> nat) list \<Rightarrow> string \<Rightarrow> bool \<Rightarrow> iiif_image \<Rightarrow> exn + tiff list" where
  "write_dirs default_tile resolutions compression one_bit img =
     (let t = write_basic_tags img (img_nx img) (img_ny img) one_bit compression;
          single = (\<lambda>res. case res of Inl e \<Rightarrow> Inl e | Inr t \<Rightarrow> Inr [t]); samples = img_nc img * img_nx img in
      if one_bit then
        (if bps img \<noteq> 8 then Inl (CsError (''Bits per sample is not 8 (bps='' @ dec_string (bps img) @ '')''))
         else (case cvrt8BitTo1bit (bpixels img) (img_nx img) (img_ny img) (photo img = MINISBLACK) of
             (Inl e, _) \<Rightarrow> Inl e
           | (Inr buf, sll) \<Rightarrow> single (write_lines buf sll ((samples + 7) div 8) t)))
      else if bps img = 8 then
        (if resolutions = [] then single (write_lines (bpixels img) samples samples t)
         else for_each (\<lambda>res dirs. case write_subfile default_tile img compression res of Inl e \<Rightarrow> Inl e | Inr ts \<Rightarrow> Inr (dirs @ ts)) resolutions [])
      else if bps img = 16 then single (write_lines (bytes_of (wpixels img)) (2 * samples) (2 * samples) t)
      else Inr [])"

text \<open>\<open>own_icc\<close> says whether the image has a profile, \<open>other_icc\<close> whether its essential metadata bring one; the image loses its own with the colors of CIELAB.\<close>

definition write_tiff :: "nat \<times> nat \<Rightarrow> string option \<Rightarrow> string option \<Rightarrow> bool \<Rightarrow> bool \<Rightarrow> iiif_image \<Rightarrow> exn + tiff_file" where
  "write_tiff default_tile pyramid compression own_icc other_icc img =
     (case lab_written img of
        Inl e \<Rightarrow> Inl e
      | Inr img1 \<Rightarrow>
          (case its_1_bit (photo img) (bps img) (img_nx img) (img_ny img) (pixels img1) of
             Inl e \<Rightarrow> Inl e
           | Inr one_bit \<Rightarrow>
               (case write_dirs default_tile (case pyramid of None \<Rightarrow> [] | Some s \<Rightarrow> parse_pyramid s)
                   (case compression of None \<Rightarrow> [] | Some s \<Rightarrow> s) one_bit img1 of
                  Inl e \<Rightarrow> Inl e
                | Inr dirs \<Rightarrow> Inr \<lparr>f_dirs = dirs, f_orient = TOPLEFT, f_extra = map extra_code (es img), f_colormap = None,
                    f_icc = ((own_icc \<and> photo img \<noteq> CIELAB) \<or> other_icc)\<rparr>)))"

end
