(* ===== verification/TiffProps.thy ===== *)
theory TiffProps
  imports TiffRead
begin

text \<open>
  Properties of reading TIFF files: whole images are read exactly, regions are not, tiles give back the image they were cut from, and
  colors go through a file and back.
\<close>

section \<open>Buffers as rows\<close>

definition rows :: "nat \<Rightarrow> (nat \<Rightarrow> nat list) \<Rightarrow> nat list" where
  "rows h R = concat (map R [0..<h])"

lemma rows_Suc: "rows (Suc h) R = rows h R @ R h"
  by (simp add: rows_def)

lemma rows_cong: "(\<And>k. k < h \<Longrightarrow> R k = S k) \<Longrightarrow> rows h R = rows h S"
  unfolding rows_def by (rule arg_cong [of _ _ concat], rule map_cong) auto

lemma length_rows: "(\<And>k. k < h \<Longrightarrow> length (R k) = w) \<Longrightarrow> length (rows h R) = w * h"
  by (induction h) (simp_all add: rows_Suc rows_def [of 0])

lemma rows_zero: "rows h (\<lambda>_. replicate w 0) = replicate (w * h) 0"
  by (induction h) (simp_all add: rows_Suc rows_def [of 0] replicate_add [symmetric] add.commute)

lemma rows_split:
  assumes "i < h"
  shows "rows h R = rows i R @ R i @ concat (map R [Suc i..<h])"
proof -
  have "[0..<h] = [0..<i] @ i # [Suc i..<h]" using assms by (metis le0 less_imp_le upt_add_eq_append le_add_diff_inverse upt_conv_Cons)
  then show ?thesis by (simp add: rows_def)
qed

lemma copy_row:
  assumes "\<And>k. k < h \<Longrightarrow> length (R k) = w" and "i < h" and "src + w \<le> length xs"
  shows "copy_to (w * i) src w xs (rows h R) = Inr (rows h (R(i := take w (drop src xs))))"
proof -
  have l: "length (rows i R) = w * i" using assms(1,2) by (intro length_rows) auto
  have "rows i (R(i := take w (drop src xs))) = rows i R" by (rule rows_cong) simp
  moreover have "concat (map (R(i := take w (drop src xs))) [Suc i..<h]) = concat (map R [Suc i..<h])"
    by (rule arg_cong [of _ _ concat], rule map_cong) auto
  moreover have "w * i + w \<le> length (rows h R)" using length_rows [of h R w] assms(1,2) by (metis Suc_leI add.commute mult_Suc_right mult_le_mono2)
  ultimately show ?thesis
    using assms(3) l assms(1) [OF assms(2)] rows_split [OF assms(2), of R] rows_split [OF assms(2), of "R(i := take w (drop src xs))"]
    by (simp add: copy_to_def)
qed

lemma copy_length: "copy_to dst src n xs buf = Inr buf' \<Longrightarrow> length buf' = length buf"
  by (auto simp: copy_to_def split: if_splits)

section \<open>Lines\<close>

text \<open>Line \<open>i\<close> of a plane has the samples \<open>xs\<close>.\<close>

definition shows_line :: "tiff \<Rightarrow> nat \<Rightarrow> nat \<Rightarrow> nat \<Rightarrow> nat list \<Rightarrow> bool" where
  "shows_line t n i plane xs \<longleftrightarrow> (\<exists>bytes. t_line t i plane = Some bytes \<and> line_samples t n bytes = Some (Inr xs))"

lemma take_line_copies: "shows_line t n i plane xs \<Longrightarrow> take_line t n i plane dst src len buf = copy_to dst src len xs buf"
  by (auto simp: shows_line_def take_line_def)

lemma skip_line_ok: "shows_line t n i plane xs \<Longrightarrow> skip_line t i plane buf = Inr buf"
  by (auto simp: shows_line_def skip_line_def)

definition contig_image :: "tiff \<Rightarrow> (nat \<Rightarrow> nat list) \<Rightarrow> bool" where
  "contig_image t L \<longleftrightarrow> t_planar t = PLANAR_CONTIG \<and> t_nx t * t_ny t * t_nc t < 2 ^ 31 \<and> 0 < t_nx t \<and> 0 < t_ny t \<and> 0 < t_nc t \<and>
     (\<forall>i < t_ny t. shows_line t (t_nx t * t_nc t) i 0 (L i) \<and> length (L i) = t_nx t * t_nc t)"

lemma u32_le: "x \<le> y \<Longrightarrow> y < 2 ^ 31 \<Longrightarrow> u32 x = x"
  by (simp add: u32_def)

lemma contig_bounds:
  assumes "contig_image t L" and "roi_x + roi_w \<le> t_nx t" and "i \<le> t_ny t"
  shows "u32 (t_nc t * i * roi_w) = t_nc t * roi_w * i" "u32 (t_nc t * roi_x) = t_nc t * roi_x" "u32 (t_nc t * roi_w) = t_nc t * roi_w"
    "t_nc t * roi_x + t_nc t * roi_w \<le> t_nx t * t_nc t" "u32 (t_nc t * roi_w * i) = t_nc t * roi_w * i"
proof -
  have p: "t_nx t * t_ny t * t_nc t < 2 ^ 31" "0 < t_ny t" using assms(1) by (auto simp: contig_image_def)
  have w: "t_nc t * roi_w \<le> t_nx t * t_nc t" "t_nc t * roi_x \<le> t_nx t * t_nc t" using assms(2) by (simp_all add: mult.commute)
  have "t_nc t * roi_w * i \<le> t_nx t * t_nc t * t_ny t" using mult_le_mono [OF w(1) assms(3)] by simp
  then have a: "t_nc t * roi_w * i \<le> t_nx t * t_ny t * t_nc t" by (simp add: ac_simps)
  have "t_nx t * t_nc t \<le> t_nx t * t_nc t * t_ny t" using p(2) by simp
  then have "t_nx t * t_nc t \<le> t_nx t * t_ny t * t_nc t" by (simp add: ac_simps)
  note c = order_trans [OF w(1) this] order_trans [OF w(2) this]
  show "u32 (t_nc t * roi_w * i) = t_nc t * roi_w * i" "u32 (t_nc t * roi_x) = t_nc t * roi_x" "u32 (t_nc t * roi_w) = t_nc t * roi_w"
    by (rule u32_le [OF a p(1)], rule u32_le [OF c(2) p(1)], rule u32_le [OF c(1) p(1)])
  then show "u32 (t_nc t * i * roi_w) = t_nc t * roi_w * i" by (simp add: ac_simps)
  show "t_nc t * roi_x + t_nc t * roi_w \<le> t_nx t * t_nc t" using mult_le_mono2 [OF assms(2), of "t_nc t"] by (simp add: algebra_simps)
qed

text \<open>
  From a file without compression a region gets the lines of the same number, not those of the region: the lines above its begin stay black,
  and the others are not moved up. For a region that begins at the top this is the region.
\<close>

theorem uncompressed_region:
  assumes "contig_image t L" and "\<not> t_compressed t" and "roi_x + roi_w \<le> t_nx t" and "roi_h \<le> t_ny t" and "roi_y \<le> roi_h"
  shows "read_standard_data t roi_x roi_y roi_w roi_h =
    Inr (rows roi_h (\<lambda>k. if roi_y \<le> k then take (t_nc t * roi_w) (drop (t_nc t * roi_x) (L k)) else replicate (t_nc t * roi_w) 0))"
proof -
  let ?w = "t_nc t * roi_w" and ?z = "replicate (t_nc t * roi_w) (0 :: nat)"
  let ?f = "\<lambda>k. take (t_nc t * roi_w) (drop (t_nc t * roi_x) (L k))"
  let ?S = "\<lambda>q. rows roi_h (\<lambda>k. if roi_y \<le> k \<and> k < q then ?f k else ?z)"
  note b = contig_bounds [OF assms(1,3)]
  have len: "length (?f k) = ?w" if "k < t_ny t" for k using that assms(1) b(4) [of k] by (simp add: contig_image_def)
  have "for_each (\<lambda>i. take_line t (t_nx t * t_nc t) i 0 (u32 (t_nc t * i * roi_w)) (u32 (t_nc t * roi_x)) (u32 (t_nc t * roi_w)))
      [roi_y..<roi_h] (?S roi_y) = Inr (?S roi_h)"
  proof (rule for_range)
    fix q
    assume q: "roi_y \<le> q" "q < roi_h"
    then have l: "shows_line t (t_nx t * t_nc t) q 0 (L q)" "length (L q) = t_nx t * t_nc t" using assms(1,4) by (simp_all add: contig_image_def)
    have "copy_to (?w * q) (t_nc t * roi_x) ?w (L q) (?S q) = Inr (rows roi_h ((\<lambda>k. if roi_y \<le> k \<and> k < q then ?f k else ?z)(q := ?f q)))"
      using q b(4) [of q] l(2) len assms(4) by (intro copy_row) auto
    moreover have "rows roi_h ((\<lambda>k. if roi_y \<le> k \<and> k < q then ?f k else ?z)(q := ?f q)) = ?S (Suc q)"
      using q by (intro rows_cong) auto
    ultimately show "take_line t (t_nx t * t_nc t) q 0 (u32 (t_nc t * q * roi_w)) (u32 (t_nc t * roi_x)) (u32 (t_nc t * roi_w)) (?S q) = Inr (?S (Suc q))"
      using q assms(4) b(1-3) [of q] by (simp add: take_line_copies [OF l(1)])
  qed (rule assms(5))
  moreover have "?S roi_y = replicate (u32 (roi_h * roi_w * t_nc t)) 0"
  proof -
    have "?S roi_y = rows roi_h (\<lambda>_. ?z)" by (rule rows_cong) auto
    then show ?thesis using b(5) [of roi_h] assms(4) by (simp add: rows_zero ac_simps)
  qed
  moreover have "?S roi_h = rows roi_h (\<lambda>k. if roi_y \<le> k then ?f k else ?z)" by (rule rows_cong) auto
  ultimately show ?thesis using assms(1,2) by (simp add: read_standard_data_def read_uncompressed_def contig_image_def)
qed

lemma read_compressed_contig:
  assumes "contig_image t L" and "t_compressed t"
  shows "read_standard_data t roi_x roi_y roi_w roi_h =
    for_each (\<lambda>i buf. if roi_y \<le> i \<and> i < u32 (roi_y + roi_h)
      then take_line t (t_nx t * t_nc t) i 0
        (if t_bps t = 8 then u32 (t_nc t * (i - roi_y) * roi_w) else u32 (t_nc t * i * roi_w))
        (u32 (t_nc t * roi_x * (if t_bps t = 12 then 2 else 1))) (u32 (t_nc t * roi_w)) buf
      else skip_line t i 0 buf) [0..<t_ny t] (replicate (u32 (roi_h * roi_w * t_nc t)) 0)"
proof -
  have p: "t_planar t = PLANAR_CONTIG" using assms(1) by (simp add: contig_image_def)
  show ?thesis
    unfolding read_standard_data_def read_compressed_def Let_def p planar_config.case if_P [OF assms(2)]
    by (rule for_each_cong) simp
qed

text \<open>
  From a compressed file of 8 bits a region gets its lines; so does one of another width that begins at the top, and for 12 bits at the left.
\<close>

theorem compressed_region:
  assumes "contig_image t L" and "t_compressed t" and "roi_x + roi_w \<le> t_nx t" and "roi_y + roi_h \<le> t_ny t"
    and "t_bps t = 8 \<or> roi_y = 0" and "t_bps t = 12 \<longrightarrow> roi_x = 0"
  shows "read_standard_data t roi_x roi_y roi_w roi_h =
    Inr (rows roi_h (\<lambda>k. take (t_nc t * roi_w) (drop (t_nc t * roi_x) (L (roi_y + k)))))"
proof -
  let ?w = "t_nc t * roi_w" and ?z = "replicate (t_nc t * roi_w) (0 :: nat)"
  let ?f = "\<lambda>k. take (t_nc t * roi_w) (drop (t_nc t * roi_x) (L k))"
  let ?S = "\<lambda>q. rows roi_h (\<lambda>k. if roi_y + k < q then ?f (roi_y + k) else ?z)"
  let ?src = "u32 (t_nc t * roi_x * (if t_bps t = 12 then 2 else 1))"
  let ?body = "\<lambda>i buf. if roi_y \<le> i \<and> i < u32 (roi_y + roi_h)
      then take_line t (t_nx t * t_nc t) i 0
        (if t_bps t = 8 then u32 (t_nc t * (i - roi_y) * roi_w) else u32 (t_nc t * i * roi_w)) ?src (u32 (t_nc t * roi_w)) buf
      else skip_line t i 0 buf"
  note b = contig_bounds [OF assms(1,3)]
  have src: "?src = t_nc t * roi_x" using b(2) [of 0] assms(6) by auto
  have "t_ny t * 1 \<le> t_ny t * (t_nx t * t_nc t)" using assms(1) by (intro mult_le_mono2) (auto simp: contig_image_def Suc_le_eq)
  then have "t_ny t \<le> t_nx t * t_ny t * t_nc t" by (simp add: ac_simps)
  from order_trans [OF assms(4) this] have rh: "u32 (roi_y + roi_h) = roi_y + roi_h"
    using assms(1) by (auto simp: contig_image_def intro: u32_le)
  have len: "length (?f k) = ?w" if "k < t_ny t" for k using that assms(1) b(4) [of k] by (simp add: contig_image_def)
  have "for_each ?body [0..<t_ny t] (?S 0) = Inr (?S (t_ny t))"
  proof (rule for_range)
    fix q
    assume q: "q < t_ny t"
    then have l: "shows_line t (t_nx t * t_nc t) q 0 (L q)" "length (L q) = t_nx t * t_nc t" using assms(1) by (simp_all add: contig_image_def)
    show "?body q (?S q) = Inr (?S (Suc q))"
    proof (cases "roi_y \<le> q \<and> q < roi_y + roi_h")
      case True
      have "copy_to (?w * (q - roi_y)) (t_nc t * roi_x) ?w (L q) (?S q) =
          Inr (rows roi_h ((\<lambda>k. if roi_y + k < q then ?f (roi_y + k) else ?z)(q - roi_y := ?f q)))"
        using True b(4) [of q] q l(2) len assms(4) by (intro copy_row) auto
      moreover have "rows roi_h ((\<lambda>k. if roi_y + k < q then ?f (roi_y + k) else ?z)(q - roi_y := ?f q)) = ?S (Suc q)"
        using True by (intro rows_cong) auto
      moreover have "(if t_bps t = 8 then u32 (t_nc t * (q - roi_y) * roi_w) else u32 (t_nc t * q * roi_w)) = ?w * (q - roi_y)"
        using assms(5) b(1) [of q] b(1) [of "q - roi_y"] q by auto
      ultimately show ?thesis using True b(3) [of 0] by (simp only: rh take_line_copies [OF l(1)] src) simp
    next
      case False
      then have "?S (Suc q) = ?S q" by (intro rows_cong) auto
      with False show ?thesis by (simp only: rh skip_line_ok [OF l(1)] if_False)
    qed
  qed simp
  moreover have "?S 0 = replicate (u32 (roi_h * roi_w * t_nc t)) 0"
    using b(5) [of roi_h] assms(4) by (simp add: rows_zero ac_simps)
  moreover have "?S (t_ny t) = rows roi_h (\<lambda>k. ?f (roi_y + k))" using assms(4) by (intro rows_cong) auto
  ultimately show ?thesis unfolding read_compressed_contig [OF assms(1,2)] by (simp only:)
qed

text \<open>A whole image is read as it is, compressed or not, whatever the number of bits.\<close>

lemma contig_read:
  assumes "contig_image t L"
  shows "read_standard_data t 0 0 (t_nx t) (t_ny t) = Inr (rows (t_ny t) L)"
proof -
  have "rows (t_ny t) (\<lambda>k. take (t_nc t * t_nx t) (drop (t_nc t * 0) (L k))) = rows (t_ny t) L"
    by (rule rows_cong) (use assms in \<open>simp add: contig_image_def ac_simps\<close>)
  then show ?thesis
    using uncompressed_region [OF assms, of 0 "t_nx t" "t_ny t" 0] compressed_region [OF assms, of 0 "t_nx t" 0 "t_ny t"] by (cases "t_compressed t") simp_all
qed

text \<open>Two lines of three pixels with 16 bits for each.\<close>

definition two_lines :: tiff where
  "two_lines = \<lparr>t_planar = PLANAR_CONTIG, t_compressed = True, t_nx = 3, t_ny = 2, t_nc = 1, t_bps = 16, t_photo = MINISBLACK,
     t_line = (\<lambda>i _. Some (if i = 0 then [1, 0, 2, 0, 3, 1] else [0, 1, 255, 255, 6, 0])), t_tile_width = 0, t_tile_length = 0, t_ntiles = 0,
     t_tile = (\<lambda>_ _. None)\<rparr>"

lemma two_lines_read: "read_standard_data two_lines 0 0 3 2 = Inr [1, 2, 259, 256, 65535, 6]"
proof -
  have "contig_image two_lines (\<lambda>i. if i = 0 then [1, 2, 259] else [256, 65535, 6])"
    by (simp add: contig_image_def two_lines_def shows_line_def line_samples_def)
  from contig_read [OF this] show ?thesis by (simp add: two_lines_def rows_def upt_rec)
qed

text \<open>
  A region of a compressed file that is not of 8 bits and does not begin at the top is written behind the end of the buffer.
\<close>

theorem compressed_region_overflows:
  assumes "contig_image t L" and "t_compressed t" and "t_bps t \<noteq> 8" and "roi_x + roi_w \<le> t_nx t" and "roi_y + roi_h \<le> t_ny t"
    and "0 < roi_y" and "0 < roi_w" and "0 < roi_h"
  shows "read_standard_data t roi_x roi_y roi_w roi_h = Inl Undefined"
proof -
  let ?src = "u32 (t_nc t * roi_x * (if t_bps t = 12 then 2 else 1))"
  let ?body = "\<lambda>i buf. if roi_y \<le> i \<and> i < u32 (roi_y + roi_h)
      then take_line t (t_nx t * t_nc t) i 0
        (if t_bps t = 8 then u32 (t_nc t * (i - roi_y) * roi_w) else u32 (t_nc t * i * roi_w)) ?src (u32 (t_nc t * roi_w)) buf
      else skip_line t i 0 buf"
  note b = contig_bounds [OF assms(1,4)]
  have "t_ny t * 1 \<le> t_ny t * (t_nx t * t_nc t)" using assms(1) by (intro mult_le_mono2) (auto simp: contig_image_def Suc_le_eq)
  then have "t_ny t \<le> t_nx t * t_ny t * t_nc t" by (simp add: ac_simps)
  from order_trans [OF assms(5) this] have rh: "u32 (roi_y + roi_h) = roi_y + roi_h"
    using assms(1) by (auto simp: contig_image_def intro: u32_le)
  have nc: "0 < t_nc t * roi_w" using assms(1,7) by (simp add: contig_image_def)
  have lines: "shows_line t (t_nx t * t_nc t) i 0 (L i)" if "i < t_ny t" for i using that assms(1) by (simp add: contig_image_def)
  have "for_each ?body [0..<t_ny t] (replicate (t_nc t * roi_w * roi_h) 0) = Inl Undefined"
  proof (rule for_each_undefined_inv [where I = "\<lambda>buf. length buf = t_nc t * roi_w * roi_h" and x = "roi_y + roi_h - 1"])
    fix i s e
    assume "i \<in> set [0..<t_ny t]" "?body i s = Inl e"
    then show "e = Undefined"
      by (auto simp: take_line_copies [OF lines] skip_line_ok [OF lines] copy_to_def split: if_splits)
  next
    fix s :: "nat list"
    let ?i = "roi_y + roi_h - 1"
    assume s: "length s = t_nc t * roi_w * roi_h"
    have i: "?i < t_ny t" "roi_y \<le> ?i" "?i < roi_y + roi_h" using assms(5,8) by auto
    have "t_nc t * roi_w * roi_h \<le> t_nc t * roi_w * ?i" using assms(6) by (intro mult_le_mono2) simp
    then have "\<not> t_nc t * roi_w * ?i + t_nc t * roi_w \<le> length s" unfolding s using nc by linarith
    then show "?body ?i s = Inl Undefined"
      using i assms(3) b(1) [of ?i] b(3) [of 0] by (simp only: rh take_line_copies [OF lines] copy_to_def if_True) simp
  next
    fix i s s'
    assume "length s = t_nc t * roi_w * roi_h" "?body i s = Inr s'"
    then show "length s' = t_nc t * roi_w * roi_h"
      by (auto simp: take_line_def skip_line_def dest!: copy_length split: if_splits option.splits sum.splits)
  qed (use assms(5,8) in auto)
  moreover have "u32 (roi_h * roi_w * t_nc t) = t_nc t * roi_w * roi_h" using b(5) [of roi_h] assms(5) by (simp add: ac_simps)
  ultimately show ?thesis unfolding read_compressed_contig [OF assms(1,2)] by (simp only:)
qed

section \<open>Colors\<close>

lemma lab_read_write: "v < 2 ^ bits \<Longrightarrow> 0 < bits \<Longrightarrow> lab_read bits (lab_write bits v) = v"
proof -
  assume v: "v < 2 ^ bits" "0 < bits"
  define h :: int where "h = 2 ^ (bits - 1)"
  have hh: "(2 :: int) ^ (bits - Suc 0) = h" by (simp add: h_def)
  have b: "(2 :: int) ^ bits = 2 * h" using v(2) by (cases bits) (simp_all add: h_def)
  have hn: "(2 :: nat) ^ (bits - Suc 0) = nat h" "0 < h" by (simp_all add: h_def nat_power_eq)
  have iv: "0 \<le> int v" "int v < 2 * h" using v(1) b by (simp, metis of_nat_less_iff of_nat_numeral of_nat_power)
  have w: "lab_write bits v = (if int v < h then nat (int v + h) else nat (int v - h))"
  proof (cases "int v < h")
    case True
    have "(int v - h) mod (2 * h) = (int v - h + 2 * h) mod (2 * h)" by (rule mod_add_self2 [symmetric])
    also have "\<dots> = int v + h" using True iv hn(2) by (subst mod_pos_pos_trivial) auto
    finally show ?thesis using True by (simp add: lab_write_def b hh)
  next
    case False
    then have "(int v - h) mod (2 * h) = int v - h" using iv hn(2) by (intro mod_pos_pos_trivial) auto
    then show ?thesis using False by (simp add: lab_write_def b hh)
  qed
  have r: "lab_read bits u = (if int u < h then nat (int u + h) else nat (int u - h))" if "int u < 2 * h" for u
  proof (cases "int u < h")
    case True
    then have "u < nat h" by simp
    then have "signed_of bits u = int u" by (simp add: signed_of_def hn(1))
    moreover have "(h + int u) mod (2 * h) = h + int u" using True hn(2) by (intro mod_pos_pos_trivial) auto
    ultimately show ?thesis using True by (simp add: lab_read_def b hh add.commute)
  next
    case False
    then have "\<not> u < nat h" by simp
    then have "signed_of bits u = int u - 2 * h" by (simp add: signed_of_def hn(1) b)
    moreover have "(h + (int u - 2 * h)) mod (2 * h) = (int u - h) mod (2 * h)" by simp
    moreover have "(int u - h) mod (2 * h) = int u - h" using False that hn(2) by (intro mod_pos_pos_trivial) auto
    ultimately show ?thesis using False by (simp add: lab_read_def b hh)
  qed
  show ?thesis
  proof (cases "int v < h")
    case True
    then show ?thesis using r [of "nat (int v + h)"] iv hn(2) by (simp add: w)
  next
    case False
    then show ?thesis using r [of "nat (int v - h)"] iv hn(2) by (simp add: w)
  qed
qed
text \<open>The samples of the two color channels of the pixels before \<open>p\<close> changed.\<close>

definition colors_changed :: "(nat \<Rightarrow> nat) \<Rightarrow> nat \<Rightarrow> nat list \<Rightarrow> nat \<Rightarrow> nat list" where
  "colors_changed f nc buf p = map (\<lambda>i. if i div nc < p \<and> i mod nc \<in> {1, 2} then f (buf ! i) else buf ! i) [0..<length buf]"

lemma colors_step:
  assumes "3 \<le> nc" and "nc * p + 2 < length buf"
  shows "for_each (\<lambda>c buf. case get_at buf (nc * p + c) of Inl e \<Rightarrow> Inl e | Inr v \<Rightarrow> put_at (nc * p + c) (f v) buf) [1, 2]
      (colors_changed f nc buf p) = Inr (colors_changed f nc buf (Suc p))"
proof -
  let ?S = "colors_changed f nc buf p"
  have g: "?S ! (nc * p + c) = buf ! (nc * p + c)" "nc * p + c < length ?S" if "c \<le> 2" for c
    using that assms by (simp_all add: colors_changed_def)
  have "?S[nc * p + 1 := f (buf ! (nc * p + 1)), nc * p + 2 := f (buf ! (nc * p + 2))] = colors_changed f nc buf (Suc p)"
  proof (rule nth_equalityI)
    fix i
    assume "i < length (?S[nc * p + 1 := f (buf ! (nc * p + 1)), nc * p + 2 := f (buf ! (nc * p + 2))])"
    then have i: "i < length buf" by (simp add: colors_changed_def)
    have d: "i = nc * p + c \<longleftrightarrow> i div nc = p \<and> i mod nc = c" if "c \<le> 2" for c
    proof
      assume "i = nc * p + c"
      then show "i div nc = p \<and> i mod nc = c" using that assms(1) by simp
    next
      assume "i div nc = p \<and> i mod nc = c"
      then show "i = nc * p + c" using mult_div_mod_eq [of nc i] by simp
    qed
    show "?S[nc * p + 1 := f (buf ! (nc * p + 1)), nc * p + 2 := f (buf ! (nc * p + 2))] ! i = colors_changed f nc buf (Suc p) ! i"
      using i d [of 1] d [of 2] by (auto simp: nth_list_update colors_changed_def less_Suc_eq)
  qed (simp add: colors_changed_def)
  then show ?thesis using g [of 1] g [of 2] assms(1) by (simp add: get_at_def put_at_def)
qed

lemma lab_channels_changed:
  assumes "3 \<le> nc" and "length buf = nc * (ny * nx)"
  shows "lab_channels f nx ny nc buf = Inr (colors_changed f nc buf (ny * nx))"
proof -
  let ?step = "\<lambda>y x. for_each (\<lambda>c buf. case get_at buf (nc * (y * nx + x) + c) of Inl e \<Rightarrow> Inl e
      | Inr v \<Rightarrow> put_at (nc * (y * nx + x) + c) (f v) buf) [1, 2]"
  have pixel: "?step y x (colors_changed f nc buf (y * nx + x)) = Inr (colors_changed f nc buf (Suc (y * nx + x)))"
    if "y < ny" "x < nx" for y x
  proof -
    have "nc * (y * nx + x) + 2 < nx * ny * nc" using that assms(1) by (intro index_bound) auto
    then show ?thesis using assms by (intro colors_step) (simp_all add: ac_simps)
  qed
  have row: "for_each (?step y) [0..<nx] (colors_changed f nc buf (y * nx + 0)) = Inr (colors_changed f nc buf (y * nx + nx))"
    if "y < ny" for y
    by (rule for_range [where S = "\<lambda>x. colors_changed f nc buf (y * nx + x)"]) (use pixel that in simp_all)
  have "for_each (\<lambda>y. for_each (?step y) [0..<nx]) [0..<ny] (colors_changed f nc buf (0 * nx)) = Inr (colors_changed f nc buf (ny * nx))"
    by (rule for_range [where S = "\<lambda>y. colors_changed f nc buf (y * nx)"]) (use row in \<open>simp_all add: add.commute\<close>)
  moreover have "colors_changed f nc buf 0 = buf" by (simp add: colors_changed_def map_nth)
  ultimately show ?thesis by (simp add: lab_channels_def)
qed

lemma colors_back:
  assumes "\<And>v. v \<in> set buf \<Longrightarrow> g (f v) = v"
  shows "colors_changed g nc (colors_changed f nc buf p) p = buf"
  by (rule nth_equalityI) (use assms in \<open>auto simp: colors_changed_def\<close>)

text \<open>
  The colors of CIELAB that are written to a file, signed, are those that are read from it.
\<close>

theorem lab_roundtrip:
  assumes "3 \<le> nc" and "length buf = nc * (ny * nx)" and "0 < bits" and "\<forall>v \<in> set buf. v < 2 ^ bits"
  shows "(case lab_channels (lab_write bits) nx ny nc buf of Inl e \<Rightarrow> Inl e | Inr file \<Rightarrow> lab_channels (lab_read bits) nx ny nc file) = Inr buf"
proof -
  let ?file = "colors_changed (lab_write bits) nc buf (ny * nx)"
  have "length ?file = nc * (ny * nx)" using assms(2) by (simp add: colors_changed_def)
  from lab_channels_changed [OF assms(1) this] have "lab_channels (lab_read bits) nx ny nc ?file
      = Inr (colors_changed (lab_read bits) nc ?file (ny * nx))" .
  moreover have "colors_changed (lab_read bits) nc ?file (ny * nx) = buf" by (rule colors_back) (use assms lab_read_write in auto)
  ultimately show ?thesis by (simp add: lab_channels_changed [OF assms(1,2)])
qed

theorem lab_roundtrip_witness:
  "(case lab_channels (lab_write 8) 2 1 3 [50, 0, 255, 7, 128, 127] of Inl e \<Rightarrow> Inl e | Inr file \<Rightarrow> lab_channels (lab_read 8) 2 1 3 file)
     = Inr [50, 0, 255, 7, 128, 127]"
  by (rule lab_roundtrip) simp_all

text \<open>
  An image with a palette gets the three colors of each pixel from the palette, and keeps its other channels.
\<close>

theorem palette_expanded:
  assumes "n * (nc + 2) < 2 ^ 32" and "length pix = n * nc" and "0 < nc"
    and "\<forall>i < n. pix ! (i * nc) < min (length rcm) (min (length gcm) (length bcm))"
  shows "expand_palette rcm gcm bcm nc n pix = Inr (raster n 1 (nc + 2) (\<lambda>_ i k.
      if k < 3 then (if k = 0 then rcm else if k = 1 then gcm else bcm) ! (pix ! (i * nc)) else pix ! (i * nc + (k - 2))))"
  unfolding expand_palette_def
proof (rule fill_pixels_raster)
  fix j i k
  assume b: "i < n" "j < (1 :: nat)" "k < nc + 2"
  have m: "Suc i * nc \<le> n * nc" using b(1) by (intro mult_le_mono1) simp
  have n: "n * nc < 2 ^ 32" using assms(1) by (simp add: algebra_simps)
  have u: "u32 (i * nc) = i * nc" "i * nc < length pix"
    using m n assms(2,3) less_le_trans [of "i * nc" "Suc i * nc" "n * nc"] by (simp_all add: u32_def del: mult_less_cancel2)
  have other: "get_at pix (u32 (i * nc + (k - 2))) = Inr (pix ! (i * nc + (k - 2)))" if "3 \<le> k"
    using m n assms(2) b(3) that by (simp add: get_at_def u32_def)
  show "(if k < 3 then (case get_at pix (u32 (i * nc)) of Inl e \<Rightarrow> Inl e | Inr v \<Rightarrow> get_at (if k = 0 then rcm else if k = 1 then gcm else bcm) v)
       else get_at pix (u32 (i * nc + (k - 2))))
      = Inr (if k < 3 then (if k = 0 then rcm else if k = 1 then gcm else bcm) ! (pix ! (i * nc)) else pix ! (i * nc + (k - 2)))"
  proof (cases "k < 3")
    case True
    have "pix ! (i * nc) < min (length rcm) (min (length gcm) (length bcm))" using assms(4) b(1) by blast
    then show ?thesis using True using u by (simp add: get_at_def)
  next
    case False
    then show ?thesis using other by simp
  qed
qed (use assms(1) in simp)

text \<open>
  An image of black and white is written with one bit for each sample, but only the samples before \<open>nx * ny\<close> are looked at: a second channel
  of other values is lost.
\<close>

theorem gray_of_second_channel_lost: "its_1_bit MINISBLACK 8 2 1 [0, 255, 17, 99] = Inr True"
  by (simp add: its_1_bit_def only_extremes_def get_at_def u32_def upt_rec)

end
