(* ===== verification/TiffImageProps.thy ===== *)
theory TiffImageProps
  imports TiffImage TiffProps BitProps RegionProps
begin

text \<open>
  Properties of whole TIFF files: an image that is written is the image that is read, the text of a pyramid is understood, and where the choice of
  a resolution goes wrong.
\<close>

section \<open>Lines of a buffer\<close>

lemma words_bytes: "\<forall>v \<in> set xs. v < 2 ^ 16 \<Longrightarrow> words_of (bytes_of xs) = xs"
  by (induction xs) simp_all

lemma length_bytes_of [simp]: "length (bytes_of xs) = 2 * length xs"
  by (induction xs) simp_all

lemma take_bytes: "take (2 * n) (bytes_of xs) = bytes_of (take n xs)"
proof (induction xs arbitrary: n)
  case (Cons x xs)
  then show ?case by (cases n) simp_all
qed simp

lemma drop_bytes: "drop (2 * n) (bytes_of xs) = bytes_of (drop n xs)"
proof (induction xs arbitrary: n)
  case (Cons x xs)
  then show ?case by (cases n) simp_all
qed simp

lemma rows_of_buffer: "length xs = w * h \<Longrightarrow> rows h (\<lambda>i. take w (drop (i * w) xs)) = xs"
proof (induction h arbitrary: xs)
  case (Suc h)
  have "rows h (\<lambda>i. take w (drop (i * w) xs)) = rows h (\<lambda>i. take w (drop (i * w) (take (w * h) xs)))"
  proof (rule rows_cong)
    fix k
    assume "k < h"
    then have "k * w + w \<le> w * h" by (metis Suc_leI mult_Suc mult.commute mult_le_mono2 add.commute)
    then show "take w (drop (k * w) xs) = take w (drop (k * w) (take (w * h) xs))" by (simp add: drop_take min_def)
  qed
  also have "\<dots> = take (w * h) xs" using Suc.prems by (intro Suc.IH) simp
  finally have "rows (Suc h) (\<lambda>i. take w (drop (i * w) xs)) = take (w * h) xs @ take w (drop (h * w) xs)" by (simp add: rows_Suc)
  moreover have "take w (drop (h * w) xs) = drop (w * h) xs" using Suc.prems by (simp add: mult.commute)
  ultimately show ?case by simp
qed (simp add: rows_def)

section \<open>Images as they are written\<close>

text \<open>An image with one buffer for all its samples, of a kind that can be read, in the usual orientation.\<close>

definition plain_image :: "iiif_image \<Rightarrow> bool" where
  "plain_image img \<longleftrightarrow>
     bps_ok img \<and> photo img \<in> {MINISBLACK, MINISWHITE, SEPARATED, YCBCR, RGB, CIELAB} \<and> (photo img = CIELAB \<longrightarrow> 3 \<le> img_nc img)
     \<and> orient img = TOPLEFT \<and> \<not> conobj img \<and> 0 < img_nx img \<and> 0 < img_ny img \<and> 0 < img_nc img
     \<and> img_nx img * img_ny img * img_nc img < 2 ^ 31 \<and> length (pixels img) = img_nx img * img_ny img * img_nc img
     \<and> (\<forall>v \<in> set (pixels img). v < 2 ^ bps img) \<and> (if bps img = 8 then wpixels img = [] else bpixels img = [])"

lemma lines_written:
  assumes "plain_image img"
  obtains t where "\<forall>dt. write_dirs dt [] compression False img = Inr [t]"
    and "t_nx t = img_nx img" "t_ny t = img_ny img" "t_nc t = img_nc img" "t_bps t = bps img" "t_photo t = photo img"
    and "t_tile_width t = 0"
    and "contig_image t (\<lambda>i. take (img_nc img * img_nx img) (drop (i * (img_nc img * img_nx img)) (pixels img)))"
proof -
  let ?n = "img_nc img * img_nx img" and ?p = "pixels img"
  let ?t = "write_basic_tags img (img_nx img) (img_ny img) False compression"
  note p = assms [unfolded plain_image_def bps_ok_def]
  have len: "length ?p = img_ny img * ?n" using p by (simp add: ac_simps)
  have b: "i * ?n + ?n \<le> length ?p" if "i < img_ny img" for i
    unfolding len using that by (metis Suc_leI mult_Suc add.commute mult_le_mono1)
  have b2: "i * (2 * ?n) + 2 * ?n \<le> 2 * length ?p" if "i < img_ny img" for i using b [OF that] by simp
  let ?bytes = "if bps img = 8 then bpixels img else bytes_of (wpixels img)" and ?w = "if bps img = 8 then ?n else 2 * ?n"
  let ?t1 = "?t\<lparr>t_line := (\<lambda>i plane. if i < img_ny img \<and> plane = 0 then Some (take ?w (drop (i * ?w) ?bytes)) else None)\<rparr>"
  have w: "write_dirs dt [] compression False img = Inr [?t1]" for dt
    using p b b2 by (auto simp: write_dirs_def write_lines_def write_basic_tags_def pixels_def Let_def)
  have c: "contig_image ?t1 (\<lambda>i. take ?n (drop (i * ?n) ?p))"
  proof -
    have "line_samples ?t1 ?n (take ?w (drop (i * ?w) ?bytes)) = Some (Inr (take ?n (drop (i * ?n) ?p)))" for i
    proof (cases "bps img = 8")
      case False
      have "words_of (take (2 * ?n) (drop (i * (2 * ?n)) (bytes_of (wpixels img)))) = take ?n (drop (i * ?n) (wpixels img))"
      proof -
        have "drop (i * (2 * ?n)) (bytes_of (wpixels img)) = bytes_of (drop (i * ?n) (wpixels img))"
          using drop_bytes [of "i * ?n" "wpixels img"] by (simp add: ac_simps)
        moreover have "words_of (bytes_of (take ?n (drop (i * ?n) (wpixels img)))) = take ?n (drop (i * ?n) (wpixels img))"
          using p False by (intro words_bytes) (auto simp: pixels_def dest!: in_set_takeD in_set_dropD)
        ultimately show ?thesis by (simp only: take_bytes)
      qed
      then show ?thesis using False p by (simp add: line_samples_def write_basic_tags_def pixels_def)
    qed (simp add: line_samples_def write_basic_tags_def pixels_def)
    then have "shows_line ?t1 ?n i 0 (take ?n (drop (i * ?n) ?p))" if "i < img_ny img" for i
      using that by (simp add: shows_line_def)
    moreover have "length (take ?n (drop (i * ?n) ?p)) = ?n" if "i < img_ny img" for i using b [OF that] by simp
    ultimately show ?thesis unfolding contig_image_def using p
      by (simp add: write_basic_tags_def mult.commute [of "img_nx img" "img_nc img"])
  qed
  have "\<forall>dt. write_dirs dt [] compression False img = Inr [?t1]" using w by blast
  from that [OF this _ _ _ _ _ _ c] show thesis by (simp add: write_basic_tags_def)
qed

lemma resolutions_single: "t_nx t \<noteq> 0 \<Longrightarrow> \<exists>r. resolutions_of nx [t] = Inr [r]"
  by (simp add: resolutions_of_def)

text \<open>Reading a file with one directory in lines, without a wish for a part or a size.\<close>

lemma read_single:
  assumes "contig_image t L" and "t_tile_width t = 0" and "t_photo t \<noteq> PALETTE" and "t_bps t \<le> 16"
  shows "fst (read_tiff path (Some \<lparr>f_dirs = [t], f_orient = ori, f_extra = extra, f_colormap = cm, f_icc = icc\<rparr>) q False (None, None)) =
    standard_colors icc (take_samples (rows (t_ny t) L) (t_nx t) (t_ny t)
      (no_image\<lparr>img_nx := t_nx t, img_ny := t_ny t, img_nc := t_nc t, bps := t_bps t, orient := ori, photo := t_photo t, es := map extra_of extra\<rparr>))"
proof -
  have "t_nx t \<noteq> 0" using assms(1) by (simp add: contig_image_def)
  then obtain r where r: "resolutions_of (t_nx t) [t] = Inr [r]" using resolutions_single by blast
  have s: "read_samples (t_bps t) t 0 0 (t_nx t) (t_ny t) = Inr (rows (t_ny t) L)"
    using contig_read [OF assms(1)] assms(2,4) by (auto simp: read_samples_def)
  have p: "apply_palette n cols (take_samples buf w h (no_image\<lparr>img_nx := a, img_ny := b, img_nc := c, bps := d, orient := ori, photo := t_photo t, es := e\<rparr>))
      = Inr (take_samples buf w h (no_image\<lparr>img_nx := a, img_ny := b, img_nc := c, bps := d, orient := ori, photo := t_photo t, es := e\<rparr>))"
    for n cols buf w h a b c d e using assms(3) by (simp add: apply_palette_def take_samples_def no_image_def)
  show ?thesis
    using assms(3) by (simp add: read_tiff_def tiff_header_def read_colormap_def r s p select_level_def part_wanted_def resize_read_def force_8_def
      of_result_def monad_simps Let_def split: sum.splits)
qed

lemma extra_back: "map extra_of (map extra_code xs) = xs"
  by (induction xs) (auto simp: extra_of_def extra_code_def split: extra_sample.split)

lemma taken_back:
  assumes "plain_image img"
  shows "take_samples (pixels img) (img_nx img) (img_ny img) (no_image\<lparr>img_nx := img_nx img, img_ny := img_ny img, img_nc := img_nc img,
      bps := bps img, orient := TOPLEFT, photo := photo img, es := es img\<rparr>) = img"
  using assms by (cases img) (auto simp: plain_image_def take_samples_def no_image_def pixels_def bps_ok_def)

lemma lab_write_less: "0 < bits \<Longrightarrow> lab_write bits v < 2 ^ bits"
proof -
  have "(int v - 2 ^ (bits - 1)) mod 2 ^ bits < 2 ^ bits" by simp
  moreover have "int (lab_write bits v) = (int v - 2 ^ (bits - 1)) mod 2 ^ bits" by (simp add: lab_write_def)
  ultimately have "int (lab_write bits v) < int (2 ^ bits)" by simp
  then show ?thesis by (simp only: of_nat_less_iff)
qed

lemma lab_image:
  assumes "plain_image img" and "photo img = CIELAB"
  obtains img1 where "lab_written img = Inr img1" and "plain_image img1" and "standard_colors False img1 = Inr img"
    and "img_nx img1 = img_nx img" "img_ny img1 = img_ny img" "img_nc img1 = img_nc img" "bps img1 = bps img" "photo img1 = CIELAB" "es img1 = es img"
proof -
  note p = assms [unfolded plain_image_def bps_ok_def]
  let ?buf = "colors_changed (lab_write (bps img)) (img_nc img) (pixels img) (img_ny img * img_nx img)"
  let ?img1 = "set_pixels ?buf img"
  have len: "length (pixels img) = img_nc img * (img_ny img * img_nx img)" using p by (simp add: ac_simps)
  have w: "lab_channels (lab_write (bps img)) (img_nx img) (img_ny img) (img_nc img) (pixels img) = Inr ?buf"
    using p by (intro lab_channels_changed len) simp
  have f: "img_nx ?img1 = img_nx img" "img_ny ?img1 = img_ny img" "img_nc ?img1 = img_nc img" "bps ?img1 = bps img" "photo ?img1 = photo img"
    "es ?img1 = es img" "pixels ?img1 = ?buf" "orient ?img1 = orient img" "conobj ?img1 = conobj img"
    by (simp_all add: set_pixels_def pixels_def)
  have l: "length ?buf = length (pixels img)" by (simp add: colors_changed_def)
  have less: "\<forall>v \<in> set ?buf. v < 2 ^ bps img" using p lab_write_less [of "bps img"] by (auto simp: colors_changed_def)
  have other: "(if bps ?img1 = 8 then wpixels ?img1 = [] else bpixels ?img1 = [])" using p by (auto simp: set_pixels_def)
  have plain: "plain_image ?img1" unfolding plain_image_def f l bps_ok_def using p less other [unfolded f] by simp
  have bk: "colors_changed (lab_read (bps img)) (img_nc img) ?buf (img_ny img * img_nx img) = pixels img"
    by (rule colors_back) (use p lab_read_write in auto)
  have "lab_channels (lab_read (bps img)) (img_nx img) (img_ny img) (img_nc img) ?buf = Inr (pixels img)"
    using lab_channels_changed [of "img_nc img" ?buf "img_ny img" "img_nx img" "lab_read (bps img)"] p len l bk by simp
  moreover have "set_pixels (pixels img) ?img1 = img" by (cases img) (simp add: set_pixels_def pixels_def)
  ultimately have "standard_colors False ?img1 = Inr img" unfolding standard_colors_def f bps_ok_def using p by simp
  with that [of ?img1] plain w f p show thesis by (simp add: lab_written_def bps_ok_def)
qed


definition lab_pixels :: iiif_image where
  "lab_pixels = no_image\<lparr>img_nx := 2, img_ny := 1, img_nc := 3, bps := 8, photo := CIELAB, bpixels := [50, 0, 255, 7, 128, 127]\<rparr>"


section \<open>Pyramids\<close>

definition pyramid_text :: "(nat \<times> nat \<times> nat) list \<Rightarrow> string" where
  "pyramid_text xs = concat (map (\<lambda>(r, w, h). dec_string r @ '':'' @ dec_string w @ '','' @ dec_string h @ '';'') xs)"

lemma digits_until: "\<not> isdigit c \<Longrightarrow> takeWhile isdigit (dec_string n @ c # s) = dec_string n"
    "\<not> isdigit c \<Longrightarrow> dropWhile isdigit (dec_string n @ c # s) = c # s"
  using dec_char [of _ n] by (simp_all add: takeWhile_append2 dropWhile_append2)

lemma separators: "\<not> isdigit (CHR '':'')" "\<not> isdigit (CHR '','')" "\<not> isdigit (CHR '';'')"
  by code_simp+

lemma match_printed: "match_resolution (dec_string r @ '':'' @ dec_string w @ '','' @ dec_string h @ '';'' @ s) =
    Some ((dec_string r, dec_string w, dec_string h), '';'' @ s)"
  using dec_nonempty by (simp add: match_resolution_def Let_def digits_until separators)

lemma parse_skip: "\<not> isdigit c \<Longrightarrow> parse_pyramid (c # s) = parse_pyramid s"
  by (simp add: match_resolution_def split: list.split)

text \<open>
  The resolutions of a pyramid and their tiles come back from the text that asks for them.
\<close>

theorem pyramid_roundtrip:
  assumes "\<forall>(r, w, h) \<in> set xs. r < 2 ^ 32 \<and> w < 2 ^ 32 \<and> h < 2 ^ 32"
  shows "parse_pyramid (pyramid_text xs) = xs"
  using assms
proof (induction xs)
  case (Cons x xs)
  obtain r w h where x: "x = (r, w, h)" by (cases x)
  let ?s = "dec_string r @ '':'' @ dec_string w @ '','' @ dec_string h @ '';'' @ pyramid_text xs"
  have b: "r < 2 ^ 32" "w < 2 ^ 32" "h < 2 ^ 32" using Cons.prems by (simp_all add: x)
  obtain c cs where c: "?s = c # cs" by (cases ?s) simp_all
  have "parse_pyramid ?s = (r, w, h) # parse_pyramid ('';'' @ pyramid_text xs)"
    using match_printed [of r w h "pyramid_text xs"] b unfolding c by (simp add: scan_dec u32_def)
  also have "parse_pyramid ('';'' @ pyramid_text xs) = xs" using Cons by (simp del: parse_pyramid.simps add: parse_skip separators)
  finally show ?case by (simp add: pyramid_text_def x)
qed (simp add: pyramid_text_def)

text \<open>A reduce factor that is asked for is limited by the 1 that stands in \<open>reduce\<close> before.\<close>

lemma reduce_limited:
  assumes "size_type s = REDUCE" and "get_size w h 1 False s = (Inr (ty, nnx, nny, red, ro), s1)"
  shows "red = 1"
proof -
  have "scale_reduce s False 1 w h = Inr (nnx, nny, red, ro)"
    using assms by (auto simp: get_size_def scaled_size_def split: sum.splits option.splits)
  then show ?thesis by (auto simp: scale_reduce_def split: if_splits sum.splits)
qed

lemma chosen_reduce: "choose_level red ress = Inr k \<Longrightarrow> Cache.reduce (ress ! k) \<le> red"
proof -
  let ?P = "\<lambda>r. Cache.reduce r \<le> red"
  assume "choose_level red ress = Inr k"
  then have "k < length (takeWhile ?P ress)" by (auto simp: choose_level_def split: nat.splits)
  then have "?P (takeWhile ?P ress ! k)" "takeWhile ?P ress ! k = ress ! k" by (metis nth_mem set_takeWhileD, simp add: takeWhile_nth)
  then show ?thesis by simp
qed

text \<open>
  For the size \<open>red:n\<close> the smaller resolutions of a pyramid are never used: the image is read in full.
\<close>

theorem pyramid_unused:
  assumes "size_type s = REDUCE" and "1 < length ress" and "fst (select_level nx ny ress (rg, Some s)) = Inr k"
  shows "Cache.reduce (ress ! k) \<le> 1"
proof -
  obtain x y w h rg1 where c: "crop_wanted nx ny (rg, Some s) = (Inr (x, y, w, h), (rg1, Some s))"
    using assms(2,3) by (cases rg) (auto simp: select_level_def crop_wanted_def monad_simps split: prod.splits sum.splits)
  obtain ty nnx nny red ro s1 where g: "get_size w h 1 False s = (Inr (ty, nnx, nny, red, ro), s1)" and "choose_level red ress = Inr k"
    using assms(2,3) by (auto simp: select_level_def c size_wanted_def monad_simps split: prod.splits sum.splits)
  with reduce_limited [OF assms(1) g] chosen_reduce show ?thesis by blast
qed

section \<open>One bit for a pixel\<close>

text \<open>An image of black and white whose rows are whole bytes.\<close>

definition bw_image :: "iiif_image \<Rightarrow> bool" where
  "bw_image img \<longleftrightarrow> plain_image img \<and> bps img = 8 \<and> (photo img = MINISBLACK \<or> photo img = MINISWHITE) \<and> img_nc img = 1 \<and> img_nx img mod 8 = 0
     \<and> set (bpixels img) \<subseteq> {0, 255}"

lemma extremes_found: "set pix \<subseteq> {0, white} \<Longrightarrow> n \<le> length pix \<Longrightarrow> only_extremes white pix n = Inr True"
  unfolding only_extremes_def
proof (rule for_range [where S = "\<lambda>_. True"])
  fix q
  assume a: "set pix \<subseteq> {0, white}" "n \<le> length pix" "0 \<le> q" "q < n"
  then have "pix ! q \<in> {0, white}" by (meson less_le_trans nth_mem subsetD)
  then show "(case get_at pix q of Inl e \<Rightarrow> Inl e | Inr v \<Rightarrow> Inr (if v \<noteq> 0 \<and> v \<noteq> white then False else True)) = Inr True"
    using a by (auto simp: get_at_def)
qed simp

lemma packed_line:
  assumes "8 * m * ny = length pix" and "i < ny" and "set pix \<subseteq> {0, 255}"
    and "v = (if bright then 0 else 255)" and "w = (if bright then 255 else 0)"
  shows "one2eight (take m (drop (i * m) (packed (\<lambda>q. (pix ! q > 128) = bright) (m * ny) (8 * m * ny)))) (replicate (8 * m) 0) (8 * m) v w
    = Inr (take (8 * m) (drop (i * (8 * m)) pix))"
proof -
  let ?bytes = "packed (\<lambda>q. (pix ! q > 128) = bright) (m * ny) (8 * m * ny)"
  have l: "length ?bytes = m * ny" by (simp add: packed_def)
  have im: "i * m + m \<le> m * ny" using assms(2) by (metis Suc_leI add.commute mult.commute mult_Suc mult_le_mono2)
  have row: "(if bit_at (take m (drop (i * m) ?bytes) ! (k div 8)) (k mod 8) then w else v) = take (8 * m) (drop (i * (8 * m)) pix) ! k"
    if k: "k < 8 * m" for k
  proof -
    have d: "k div 8 < m" using k by linarith
    have p: "i * (8 * m) + k < 8 * m * ny" using k im by linarith
    have e: "i * (8 * m) + k = k + 8 * (i * m)" by simp
    have q: "(i * (8 * m) + k) div 8 = i * m + k div 8" "(i * (8 * m) + k) mod 8 = k mod 8" unfolding e by simp_all
    have b: "bit_at (?bytes ! (i * m + k div 8)) (k mod 8) = ((pix ! (i * (8 * m) + k) > 128) = bright)"
      using packed_bit [OF _ p, of "m * ny"] by (simp add: q)
    have "pix ! (i * (8 * m) + k) \<in> {0, 255}" using assms(1,3) p by (metis nth_mem subsetD)
    moreover have "i * m \<le> length ?bytes" using im l by linarith
    from nth_drop [OF this] have "take m (drop (i * m) ?bytes) ! (k div 8) = ?bytes ! (i * m + k div 8)" using d by simp
    moreover have "take (8 * m) (drop (i * (8 * m)) pix) ! k = pix ! (i * (8 * m) + k)" using k p assms(1) by simp
    ultimately show ?thesis using assms(4,5) by (simp only: b) auto
  qed
  have "one2eight (take m (drop (i * m) ?bytes)) (replicate (8 * m) 0) (8 * m) v w =
      Inr (map (\<lambda>k. if bit_at (take m (drop (i * m) ?bytes) ! (k div 8)) (k mod 8) then w else v) [0..<8 * m])"
    using one2eight_line [of "8 * m" "take m (drop (i * m) ?bytes)" "replicate (8 * m) 0" v w] im l by simp
  also have "map (\<lambda>k. if bit_at (take m (drop (i * m) ?bytes) ! (k div 8)) (k mod 8) then w else v) [0..<8 * m]
      = take (8 * m) (drop (i * (8 * m)) pix)"
  proof (rule nth_equalityI)
    have "i * (8 * m) + 8 * m \<le> length pix" using im assms(1) by linarith
    then show "length (map (\<lambda>k. if bit_at (take m (drop (i * m) ?bytes) ! (k div 8)) (k mod 8) then w else v) [0..<8 * m])
      = length (take (8 * m) (drop (i * (8 * m)) pix))" by simp
  qed (use row in simp)
  finally show ?thesis .
qed

text \<open>
  An image of black and white goes to a file with one bit for a pixel and comes back, when its rows are whole bytes.
\<close>

theorem tiff_bits_roundtrip:
  assumes "bw_image img"
  shows "\<exists>f. write_tiff tile pyramid compression own_icc other_icc img = Inr f \<and>
    fst (read_tiff path (Some f) jpegq False (None, None)) = Inr img"
proof -
  note p = assms [unfolded bw_image_def plain_image_def]
  let ?comp = "case compression of None \<Rightarrow> [] | Some s \<Rightarrow> s" and ?pix = "bpixels img" and ?bright = "photo img = MINISBLACK"
  define m where "m = img_nx img div 8"
  have "img_nx img mod 8 = 0" using p by blast
  then have nx: "img_nx img = 8 * m" by (auto simp: m_def)
  have b: "bps img = 8" "img_nc img = 1" "set ?pix \<subseteq> {0, 255}" "photo img = MINISBLACK \<or> photo img = MINISWHITE" "wpixels img = []"
    "orient img = TOPLEFT" "\<not> conobj img" "0 < m" "0 < img_ny img"
    using p nx by (blast, blast, blast, blast, auto)
  have "length (pixels img) = img_nx img * img_ny img * img_nc img" "img_nx img * img_ny img * img_nc img < 2 ^ 31" using p by blast+
  then have len: "length ?pix = 8 * m * img_ny img" and small: "8 * m * img_ny img < 2 ^ 31" by (simp_all add: pixels_def nx b)
  have narrow: "8 * m < 2 ^ 31"
  proof -
    have "8 * m * 1 \<le> 8 * m * img_ny img" using b(9) by (intro mult_le_mono2) simp
    with small show ?thesis by linarith
  qed
  let ?bytes = "packed (\<lambda>q. (?pix ! q > 128) = ?bright) (m * img_ny img) (8 * m * img_ny img)"
  let ?t = "write_basic_tags img (img_nx img) (img_ny img) True ?comp"
  let ?t1 = "?t\<lparr>t_line := (\<lambda>i plane. if i < img_ny img \<and> plane = 0 then Some (take m (drop (i * m) ?bytes)) else None)\<rparr>"
  have one: "its_1_bit (photo img) (bps img) (img_nx img) (img_ny img) (pixels img) = Inr True"
    using b small len extremes_found [of ?pix 255 "8 * m * img_ny img"] by (auto simp: its_1_bit_def pixels_def u32_def nx)
  have packs: "cvrt8BitTo1bit ?pix (img_nx img) (img_ny img) ?bright = (Inr ?bytes, m)"
    unfolding nx by (rule cvrt8BitTo1bit_packed [OF refl]) (use small len b narrow in simp_all)
  have im: "i * m + m \<le> m * img_ny img" if "i < img_ny img" for i
    using that by (metis Suc_leI add.commute mult.commute mult_Suc mult_le_mono2)
  have len_bytes: "length ?bytes = m * img_ny img" by (simp add: packed_def)
  have "write_lines ?bytes m ((1 * img_nx img + 7) div 8) ?t = Inr ?t1"
    using im len_bytes by (simp add: write_lines_def write_basic_tags_def nx)
  then have d: "write_dirs tile res ?comp True img = Inr [?t1]" for res
    using b packs by (simp add: write_dirs_def Let_def)
  have lab: "lab_written img = Inr img" using b by (auto simp: lab_written_def)
  have w: "write_tiff tile pyramid compression own_icc other_icc img = Inr \<lparr>f_dirs = [?t1], f_orient = TOPLEFT, f_extra = map extra_code (es img),
      f_colormap = None, f_icc = own_icc \<and> photo img \<noteq> CIELAB \<or> other_icc\<rparr>"
    by (simp add: write_tiff_def lab one d)
  have c: "contig_image ?t1 (\<lambda>i. take (8 * m) (drop (i * (8 * m)) ?pix))"
  proof -
    have "shows_line ?t1 (8 * m) i 0 (take (8 * m) (drop (i * (8 * m)) ?pix))" if "i < img_ny img" for i
      using that b packed_line [OF len [symmetric] that b(3) refl refl, of ?bright]
      by (auto simp: shows_line_def line_samples_def write_basic_tags_def black_white_def)
    moreover have "length (take (8 * m) (drop (i * (8 * m)) ?pix)) = 8 * m" if "i < img_ny img" for i
      using im [OF that] len by simp
    ultimately show ?thesis using b small by (simp add: contig_image_def write_basic_tags_def nx)
  qed
  have rows: "rows (img_ny img) (\<lambda>i. take (8 * m) (drop (i * (8 * m)) ?pix)) = ?pix" by (rule rows_of_buffer) (simp add: len)
  have back1: "take_samples ?pix (8 * m) (img_ny img) (no_image\<lparr>img_nx := 8 * m, img_ny := img_ny img, img_nc := Suc 0, bps := Suc 0, orient := TOPLEFT,
      photo := photo img, es := es img\<rparr>) = img"
    using b nx by (cases img) (auto simp: take_samples_def no_image_def)
  show ?thesis
    using read_single [OF c, of path TOPLEFT "map extra_code (es img)" None "own_icc \<and> photo img \<noteq> CIELAB \<or> other_icc" jpegq] w rows back1 b
    by (auto simp: write_basic_tags_def nx extra_back standard_colors_def simp del: map_map)
qed

section \<open>Examples\<close>

definition checks :: iiif_image where
  "checks = no_image\<lparr>img_nx := 8, img_ny := 2, img_nc := 1, bps := 8, photo := MINISWHITE,
     bpixels := [0, 255, 0, 0, 255, 255, 255, 0, 255, 255, 255, 255, 0, 0, 0, 0]\<rparr>"

theorem tiff_bits_roundtrip_witness:
  "\<exists>f. write_tiff (256, 256) None None False False checks = Inr f \<and> fst (read_tiff ''x.tif'' (Some f) HIGH False (None, None)) = Inr checks"
  by (rule tiff_bits_roundtrip) (simp add: bw_image_def plain_image_def checks_def no_image_def bps_ok_def pixels_def)

theorem pyramid_roundtrip_witness: "parse_pyramid (pyramid_text [(1, 1024, 1024), (2, 512, 256)]) = [(1, 1024, 1024), (2, 512, 256)]"
  by (rule pyramid_roundtrip) simp

definition three_levels :: "sub_image list" where
  "three_levels = [level_info 1 60 60 16 16, level_info 2 30 30 16 16, level_info 4 15 15 16 16]"

lemma level_reduce [simp]: "Cache.reduce (level_info red w h tw th) = red"
  by (simp add: level_info_def)

lemma demo_reduce: "fst (select_level 60 60 three_levels (None, Some (reduce_size 2))) = Inr 0"
proof -
  have "epsilon_ceil_division (fnat 60) (fnat 2) = Inr 30"
  proof -
    obtain k where k: "epsilon_ceil_division (of_nat 60) (fnat 2) = Inr k" "about k 60 2" by (rule ceil_division [of 2 60]) simp_all
    then have "k = 30" using about_exact [of k 30 2] by simp
    with k(1) fnat_small [of 60] show ?thesis by simp
  qed
  then show ?thesis
    by (simp add: select_level_def three_levels_def crop_wanted_def size_wanted_def get_size_def scaled_size_def scale_reduce_def reduce_size_def
        blank_size_def check_limits_def size_limits_def limitdim_def choose_level_def monad_simps u32_def)
qed

theorem pyramid_unused_witness: "Cache.reduce (three_levels ! 0) \<le> 1"
  by (rule pyramid_unused [OF _ _ demo_reduce]) (simp_all add: reduce_size_def three_levels_def)

text \<open>A 16 bit image of black and white cannot be written.\<close>

theorem black_16_refused:
  "write_tiff (256, 256) None None False False (no_image\<lparr>img_nx := 1, img_ny := 1, img_nc := 1, bps := 16, photo := MINISBLACK, wpixels := [0]\<rparr>)
    = Inl (CsError ''Bits per sample is not 8 (bps=16)'')"
proof -
  have "dec_string 16 = ''16''" by code_simp
  then show ?thesis
    by (simp add: write_tiff_def lab_written_def no_image_def its_1_bit_def only_extremes_def pixels_def get_at_def u32_def write_dirs_def Let_def)
qed

text \<open>
  A part of an image is taken from a resolution by the factor that was asked for, not by that of the resolution: of a part of 30 by 30 pixels that is
  to be 10 wide, the resolution reduced by 2 gives 10 by 10 where the part has 15 by 15.
\<close>

theorem pyramid_region_wrong:
  "let st = (Some (mk_region COORDS (0, 0, 30, 30) False), Some (demo_size PIXELS_X 10 0)) in
   fst (select_level 60 60 three_levels st) = Inr 1 \<and> fst (sbind (select_level 60 60 three_levels) (\<lambda>_. part_wanted 30 30) st) = Inr (0, 0, 10, 10)"
proof -
  have q: "epsilon_floor_division (fnat 30) (fnat 10) = Inr 3" "epsilon_ceil_division (fnat 30) (fnat 3) = Inr 10"
  proof -
    obtain k where k: "epsilon_floor_division (of_nat 30) (fnat 10) = Inr k" "about k 30 10" by (rule floor_division [of 10 30]) simp_all
    then have "k = 3" using about_exact [of k 3 10] by simp
    with k(1) fnat_small [of 30] show "epsilon_floor_division (fnat 30) (fnat 10) = Inr 3" by simp
    obtain j where j: "epsilon_ceil_division (of_nat 30) (fnat 3) = Inr j" "about j 30 3" by (rule ceil_division [of 3 30]) simp_all
    then have "j = 10" using about_exact [of j 10 3] by simp
    with j(1) fnat_small [of 30] show "epsilon_ceil_division (fnat 30) (fnat 3) = Inr 10" by simp
  qed
  have f: "f32 0 = 0" "f32 30 = 30" "f32 10 = 10" "f32_of_int 3 = 3"
    using f32_of_small_nat [of 0] f32_of_small_nat [of 30] f32_of_small_nat [of 10] f32_of_small_int [of 3] by simp_all
  have l: "lround 0 = 0" "lround 30 = 30" "lround 10 = 10" using lround_nat [of 0] lround_nat [of 30] lround_nat [of 10] by simp_all
  let ?r = "mk_region COORDS (0, 0, 30, 30) False" and ?s = "demo_size PIXELS_X 10 0"
  note crop = crop_coords_def raw_coords_def round_four_def mk_region_def f32_div_def f l fits_long_def clip_low_def clip_high_def to_int32_def to_uint32_def
  let ?r1 = "?r\<lparr>r_w := 30, r_h := 30, r_canonical_ok := True\<rparr>"
  have c1: "crop_coords 60 60 ?r = (Inr (COORDS, 0, 0, 30, 30), ?r1)" by (simp add: crop Let_def)
  have c2: "fst (crop_coords 30 30 (set_reduce 3 ?r1)) = Inr (COORDS, 0, 0, 10, 10)" by (simp add: crop set_reduce_def Let_def)
  have "fst (get_size 30 30 1 False ?s) = Inr (PIXELS_X, 10, 10, 3, True)"
    by (simp add: get_size_def scaled_size_def scale_side_def axis_reduce_def demo_size_def blank_size_def check_limits_def size_limits_def limitdim_def
        j2k_factor_def u32_def q q [simplified] Let_def)
  then obtain s1 where g: "get_size 30 30 1 False ?s = (Inr (PIXELS_X, 10, 10, 3, True), s1)" by (cases "get_size 30 30 1 False ?s") auto
  have s: "select_level 60 60 three_levels (Some ?r, Some ?s) = (Inr 1, (Some (set_reduce 3 ?r1), Some s1))"
    by (simp add: select_level_def three_levels_def crop_wanted_def c1 size_wanted_def g [simplified] choose_level_def monad_simps f)
  have "fst (part_wanted 30 30 (Some (set_reduce 3 ?r1), Some s1)) = Inr (0, 0, 10, 10)"
    using c2 by (cases "crop_coords 30 30 (set_reduce 3 ?r1)") (auto simp: part_wanted_def crop_wanted_def monad_simps set_reduce_def mk_region_def)
  with s show ?thesis by (simp add: Let_def sbind_def)
qed

end
