(* ===== verification/Spec2Isabelle.thy ===== *)
theory Spec2Isabelle
  imports HttpText ChunkReader ConnSend FormRead RequestRead CacheProps ServeProps BitProps SockProps ServerFaults DispatchProps ConfigProps Essentials LuaApiProps IIIFInfoProps LuaImageProps Uuid LuaTokensProps ExifProps SqliteProps MemTiff TileProps TiffImageProps
begin
text \<open>
  This library is a verification of \<^bold>\<open>cserve\<close>, an HTTP server in C++ that serves files, runs Lua
  scripts and answers requests for images after the IIIF Image API. It is a shallow embedding: each function of
  the sources is a HOL function with the branches, early returns and exceptions of the source, under the name it has
  there. Paths below are relative to \<open>src/\<close>.

  \<^bold>\<open>How the program works.\<close> \<open>src/cserver.cpp\<close> collects the options of the server and of its handlers, reads
  them from the command line, the environment and a Lua file, sets up the routes and starts \<open>Server::run\<close>
  (\<open>lib/Cserve.cpp\<close>). Its main thread polls the sockets; a client with input is handed to an idle worker thread or waits in a
  queue. The worker runs \<open>processRequest\<close>: the constructor of \<open>Connection\<close> reads the request line, the header and the
  body (plain, chunked, or a multipart form) from a stream over the socket, the longest matching route gives the handler, and
  the handler answers through the output operations of \<open>Connection\<close>. The file and script handlers send files and
  run Lua; the IIIF handler takes the request apart, asks a Lua function for permission, sends the description or the file, or
  transforms an image, and keeps the results in a cache on the disk.

  \<^bold>\<open>How the code is written here.\<close> Strings are byte strings (\<open>string\<close>). An operation that changes an object and may throw
  is an action \<open>('s, 'a) act\<close>, a function from the state to a result or an exception and the new state (\<open>Prelude\<close>); the
  exceptions are the constructors of \<open>exn\<close>, and \<open>Undefined\<close> among them stands for undefined behaviour of C++, as a
  read outside a buffer. Integers have their width where it matters (\<open>32 word\<close>, \<open>64 word\<close> and the conversions
  \<open>sub64\<close>, \<open>to_size_t\<close>); \<open>float\<close> is exact IEEE single precision over the rationals
  (\<open>Float32\<close>; without infinities and NaN). Objects are records with the members of the class.

  \<^bold>\<open>The theories\<close>, in the order of the layers.

  Text and streams. \<open>Prelude\<close> (bytes, integers, the monad, Hoare triples, the locale \<open>keeps\<close> of invariants);
  \<open>HttpText\<close> (\<open>lib/HttpHelpers.cpp\<close>, \<open>lib/Global.h\<close>); \<open>Streams\<close> (input streams that end, output streams
  that fail according to a plan, \<open>safeGetline\<close>); \<open>ChunkReader\<close> (\<open>lib/ChunkReader.cpp\<close>; the locale
  \<open>byte_source\<close> is what a reader of single bytes promises, interpreted for the stream and the chunk
  reader); \<open>SockStream\<close>, \<open>SockProps\<close> (\<open>lib/SockStream.cpp\<close>, and that it refines \<open>Streams\<close>).

  Requests and answers. \<open>Connection\<close>, \<open>ConnOut\<close> (the object and its output, \<open>lib/Connection.cpp\<close>), \<open>Multipart\<close>
  and \<open>Request\<close> (the constructor); their properties are in \<open>ConnSend\<close>, \<open>FormRead\<close> and \<open>RequestRead\<close>.
  \<open>Parsing\<close> is \<open>lib/Parsing.cpp\<close>, \<open>Encoding\<close> base 64 and checksums, \<open>Replies\<close> what the handlers share.

  The server. \<open>Sockets\<close> (\<open>SocketControl\<close>, \<open>ThreadControl\<close>), \<open>ServerLoop\<close> (\<open>Server::run\<close> and the loop of
  the workers, as functions on the state of the server), \<open>ServerInv\<close> (the inductive relation of its steps in normal
  operation, and the invariant), \<open>ServerSteps\<close>, \<open>ServerProps\<close>, \<open>ServerFaults\<close>; \<open>Dispatch\<close>, \<open>DispatchProps\<close>
  (routes, \<open>processRequest\<close>; the locale \<open>key_table\<close> and its interpretation for the routes).

  Handlers. \<open>Scripts\<close>, \<open>Handlers\<close>, \<open>HandlerProps\<close> (files, scripts, pages with scripts, ping, test, default).

  Configuration and start. \<open>Config\<close>, \<open>LuaConf\<close>, \<open>Startup\<close>, \<open>ConfigProps\<close>.

  Lua. \<open>LuaValues\<close> (arguments and results on the stack), \<open>Json\<close> (JSON to tables and back), \<open>LuaApi\<close>,
  \<open>LuaApiProps\<close> (what scripts see and can do), \<open>LuaTokens\<close>, \<open>LuaTokensProps\<close> (tokens, the client for HTTP,
  directories, the log), \<open>LuaSqlite\<close>, \<open>SqliteProps\<close> (databases: the objects and the handles of SQLite), \<open>Uuid\<close> (\<open>lib/sole.hpp\<close>: identifiers and their forms as text).

  IIIF. \<open>IIIFRegion\<close>, \<open>IIIFSize\<close>, \<open>RegionProps\<close>, \<open>SizeProps\<close> (the parts of an image request);
  \<open>IIIFAccess\<close> (permissions, canonical URL), \<open>IIIFServe\<close>, \<open>IIIFTranscode\<close>, \<open>ServeProps\<close> (the handler);
  \<open>IIIFInfo\<close>, \<open>IIIFInfoProps\<close> (descriptions in JSON); \<open>Cache\<close>, \<open>CacheProps\<close> (the cache). Images: \<open>Pixels\<close>
  (\<open>IIIFImgTools.cpp\<close>), \<open>Image\<close>, \<open>ImageArith\<close> (\<open>IIIFImage.cpp\<close>), \<open>Essentials\<close> (the record of essential
  metadata), \<open>ImageRead\<close> (\<open>read\<close>, \<open>readOriginal\<close>, \<open>getDim\<close>), \<open>Raster\<close> (pictures as functions, and loops that fill a buffer), \<open>Turns\<close> (the locale \<open>pixel_move\<close> of all
  geometric operations, with an interpretation for each), \<open>ImageProps\<close>, \<open>BitProps\<close>. \<open>LuaImage\<close> and
  \<open>LuaImageProps\<close> (\<open>IIIFLua.cpp\<close>) are the cache and the images as scripts see them, \<open>Exif\<close> and \<open>ExifProps\<close> the Exif data of an image (\<open>metadata/IIIFExif.cpp\<close>).

  TIFF files (\<open>imgformats/IIIFIOTiff.cpp\<close>). \<open>Samples\<close> (samples of 1, 4 and 12 bits), \<open>MemTiff\<close> (the file in memory that libtiff writes
  for a client, and that it refines a plain file), \<open>TiffRead\<close> (lines and tiles of a region, palettes, colors), \<open>TiffProps\<close>, \<open>TileProps\<close>
  (a loop that copies paints places of a buffer), \<open>TiffImage\<close> (\<open>read\<close>, \<open>getDim\<close>, \<open>write\<close> as a whole; the records \<open>tiff\<close> and
  \<open>tiff_file\<close> are what libtiff says of a file, and what was written to it is what it then says) and \<open>TiffImageProps\<close>.

  \<^bold>\<open>What the lemmas show.\<close> Round trips: URL encoding, chunked bodies, requests and forms that a client writes,
  chunked answers read back, the canonical URL, the index file of the cache, essential metadata, JSON through Lua, tokens, identifiers in base 62, images in TIFF files by lines, tiles and bits. Invariants:
  the output of a connection over arbitrary operations on a stream that fails at any point, the tables of the server
  over all reachable states, the counters of the cache, the types of the options, the handles of SQLite over all a script can do. Refinements: the stream buffer refines the
  stream, rotation and orientation refine the turning of pictures, the file in memory refines a file. Liveness of the server: waiting clients get workers, in
  their turn. Safety: limits of bodies, of sizes and of crops, restrictions of permissions, files in use, secrets, what may
  leave \<open>processRequest\<close>. Termination: \<open>urldecode\<close> returns exactly for complete escapes. Next to these stand lemmas
  that run a defect of the code on a concrete input, as \<open>accept_reads_past_poll\<close> in \<open>ServerFaults\<close> or \<open>readd_miscounts\<close>
  in \<open>CacheProps\<close>: the model has the behaviour of the code, not of its documentation.

  \<^bold>\<open>Bounds and termination.\<close> There is no fuel in the library. Loops over input are \<open>function\<close>s that end because the stream shrinks
  (a read at its end sets \<open>eofbit\<close>), other loops because their index grows to its bound. The decoder \<open>urldecode_loop\<close> and
  the loops that bring an angle into range are \<open>partial_function\<close>s, since the code may run for ever;
  the claims about them are that they return \<open>Some\<close>. The loop of the server is its step relation.

  \<^bold>\<open>Parameters.\<close> What is not under \<open>src/\<close> is an argument: the Lua interpreter (what a script does to the connection
  and returns), the operating system (\<open>file_system\<close>, \<open>poll\<close>, \<open>accept\<close>, the clock), OpenSSL (digests, the encoder of base
  64, the handshake), libmagic, lcms, Exiv2, SQLite, fmt, curl, jwt, the parser of the command line and the parser and printer of JSON. Facts about them are
  named hypotheses where they are used, with an instance in the witness.

  \<^bold>\<open>Not modelled.\<close> JPEG, PNG and JPEG 2000 (\<open>imgformats/\<close>) are calls of libjpeg, libpng and Kakadu in the order these
  prescribe; in the handler all formats are the record \<open>image_libs\<close>. Of TIFF files the texts of the metadata, the directory of EXIF tags and the
  white point are left out: they are passed on field by field between libtiff and Exiv2. The same holds
  for XMP, IPTC and ICC data, which are wrappers of Exiv2 and lcms. Of \<open>sole.hpp\<close> the generators of identifiers
  of version 0 and 1, which read the clock and the address of a network card, are left out, as is its \<open>pretty\<close>.
  \<open>CLI11.hpp\<close>, \<open>NlohmannTraits.h\<close> and \<open>makeunique.h\<close> are vendored libraries. Not
  modelled are logging, signals and the loading of handlers from shared objects, which have no result the
  code relies on, and the mutexes: each operation of the cache or a table is one step. \<open>sscanf\<close> is without hexadecimal
  numbers, infinities and NaN.
\<close>

end
